(* ===== verification/Prelude.thy ===== *)
theory Prelude
  imports "HOL-Library.Word"
begin

unbundle bit_operations_syntax

text \<open>
  What every component of the development shares: names for the C integer types, the two ways
  the code touches a byte buffer (a \<^verbatim>\<open>memcpy\<close> into it and a read of its first bytes), and the
  generic facts about lists, words and ring indices the component proofs rest on.

  Conventions used throughout.  A pointer together with its length is one list.  A fixed C array
  that keeps its contents between calls is a list of the array's size that is updated in place.
  The code tests nearly every pointer argument against \<^verbatim>\<open>NULL\<close> to reject a programming error; a
  model value always exists, so those tests have no counterpart, and a pointer is an \<open>option\<close>
  exactly where \<^verbatim>\<open>NULL\<close> is a legal argument.  \<^verbatim>\<open>size_t\<close> quantities are \<open>nat\<close>; where a sum of
  unchecked \<^verbatim>\<open>size_t\<close> values could pass \<open>2 ^ 64\<close> the wrap-around is written out.
\<close>

type_synonym u8 = "8 word"
type_synonym u16 = "16 word"
type_synonym u32 = "32 word"
type_synonym u64 = "64 word"
type_synonym s16 = "16 word" \<comment> \<open>read with \<open>sint\<close>\<close>
type_synonym bytes = "8 word list"

named_theorems buffer_simps \<open>reads and writes of fixed buffers\<close>
named_theorems ring_simps \<open>indices of a circular buffer\<close>

abbreviation SIZE_MAX :: nat where
  "SIZE_MAX \<equiv> 2 ^ 64 - 1"

subsection \<open>Buffers\<close>

definition buf_write :: "'a list \<Rightarrow> nat \<Rightarrow> 'a list \<Rightarrow> 'a list" where
  \<comment> \<open>\<^verbatim>\<open>memcpy(&buf[off], data, length data)\<close>\<close>
  "buf_write buf off data = take off buf @ data @ drop (off + length data) buf"

lemma length_buf_write [buffer_simps]:
  "off + length data \<le> length buf \<Longrightarrow> length (buf_write buf off data) = length buf"
  by (simp add: buf_write_def)

lemma take_buf_write [buffer_simps]:
  "off + length data \<le> length buf \<Longrightarrow>
   take (off + length data) (buf_write buf off data) = take off buf @ data"
  by (simp add: buf_write_def)

lemma take_buf_write_0 [buffer_simps]:
  "length data \<le> length buf \<Longrightarrow> take (length data) (buf_write buf 0 data) = data"
  by (simp add: buf_write_def)

lemma take_Suc_update [buffer_simps]:
  "n < length xs \<Longrightarrow> take (Suc n) (xs[n := x]) = take n xs @ [x]"
  by (simp add: take_Suc_conv_app_nth)

subsection \<open>Checked accesses\<close>

text \<open>
  Where the source's own guards and loop bounds have to keep an index inside an array, the access is
  checked: \<open>None\<close> stands for an access outside the array (undefined behaviour in C), and a loop stops at
  the first one.
\<close>

definition read_at :: "'a list \<Rightarrow> nat \<Rightarrow> 'a option" where
  "read_at xs i = (if i < length xs then Some (xs ! i) else None)"

definition write_at :: "'a list \<Rightarrow> nat \<Rightarrow> 'a \<Rightarrow> 'a list option" where
  "write_at xs i x = (if i < length xs then Some (xs[i := x]) else None)"

definition write_block :: "'a list \<Rightarrow> nat \<Rightarrow> 'a list \<Rightarrow> 'a list option" where
  "write_block xs i ys = (if i + length ys \<le> length xs then Some (buf_write xs i ys) else None)"

definition read_stride :: "'a list \<Rightarrow> nat \<Rightarrow> nat \<Rightarrow> nat \<Rightarrow> 'a list option" where
  \<comment> \<open>\<open>amount\<close> entries from \<open>start\<close> on, \<open>stride\<close> apart\<close>
  "read_stride xs start stride amount = those (map (\<lambda>i. read_at xs (start + i * stride)) [0..<amount])"

primrec run_loop :: "('s \<Rightarrow> 'i \<Rightarrow> 's option) \<Rightarrow> 's \<Rightarrow> 'i list \<Rightarrow> 's option" where
  "run_loop body s [] = Some s"
| "run_loop body s (i # is) = (case body s i of None \<Rightarrow> None | Some s' \<Rightarrow> run_loop body s' is)"

lemma run_loop_snoc:
  "run_loop body s (is @ [j]) = (case run_loop body s is of None \<Rightarrow> None | Some s' \<Rightarrow> body s' j)"
  by (induction "is" arbitrary: s) (auto split: option.splits)

lemma run_loop_invariant:
  assumes "\<And>s i. P s \<Longrightarrow> i \<in> set is \<Longrightarrow> \<exists>s'. body s i = Some s' \<and> P s'" and "P s"
  shows "\<exists>s'. run_loop body s is = Some s' \<and> P s'"
  using assms
proof (induction "is" arbitrary: s)
  case (Cons i "is")
  from Cons.prems(1) [OF Cons.prems(2), of i] obtain s' where s': "body s i = Some s'" "P s'" by auto
  from Cons.IH [OF Cons.prems(1) s'(2)] s'(1) show ?case by auto
qed simp

lemma those_Some_map: "(\<And>x. x \<in> set xs \<Longrightarrow> f x = Some (g x)) \<Longrightarrow> those (map f xs) = Some (map g xs)"
  by (induction xs) auto

lemma read_stride_Some:
  assumes "amount = 0 \<or> start + (amount - 1) * stride < length xs"
  shows "read_stride xs start stride amount = Some (map (\<lambda>i. xs ! (start + i * stride)) [0..<amount])"
  unfolding read_stride_def
proof (rule those_Some_map)
  fix i assume "i \<in> set [0..<amount]"
  then have "i \<le> amount - 1" "amount \<noteq> 0" by auto
  then have "i * stride \<le> (amount - 1) * stride" by (intro mult_le_mono1)
  with assms \<open>amount \<noteq> 0\<close> have "start + i * stride < length xs" by linarith
  then show "read_at xs (start + i * stride) = Some (xs ! (start + i * stride))" by (simp add: read_at_def)
qed

subsection \<open>The 32-bit xorshift generator\<close>

definition xorshift32 :: "u32 \<Rightarrow> u32" where
  \<comment> \<open>three statements that occur at three places of the code\<close>
  "xorshift32 state =
    (let state = state XOR push_bit 13 state;
         state = state XOR drop_bit 17 state
     in state XOR push_bit 5 state)"

lemma xor_push_zero: "0 < n \<Longrightarrow> x XOR push_bit n x = (0 :: u32) \<Longrightarrow> x = 0"
proof -
  assume n: "0 < n" and z: "x XOR push_bit n x = 0"
  have eq: "bit x i \<longleftrightarrow> n \<le> i \<and> bit x (i - n)" if "i < 32" for i
    using arg_cong [OF z, of "\<lambda>y. bit y i"] that by (simp add: bit_xor_iff bit_push_bit_iff)
  have "\<not> bit x i" for i
  proof (induction i rule: less_induct)
    case (less i)
    show ?case
    proof (cases "i < 32")
      case True
      with eq [OF True] less.IH [of "i - n"] n show ?thesis by (cases "n \<le> i") auto
    next
      case False
      then show ?thesis using bit_imp_le_length [of x i] by auto
    qed
  qed
  then show "x = 0" by (simp add: bit_eq_iff)
qed

lemma xor_drop_zero: "0 < n \<Longrightarrow> x XOR drop_bit n x = (0 :: u32) \<Longrightarrow> x = 0"
proof -
  assume n: "0 < n" and z: "x XOR drop_bit n x = 0"
  have eq: "bit x i \<longleftrightarrow> bit x (n + i)" for i
    using arg_cong [OF z, of "\<lambda>y. bit y i"] by (simp add: bit_xor_iff bit_drop_bit_eq)
  have "\<not> bit x i" for i
  proof (induction "32 - i" arbitrary: i rule: less_induct)
    case less
    show ?case
    proof (cases "i < 32")
      case True
      with n have "32 - (n + i) < 32 - i" by simp
      from less.hyps [OF this] eq [of i] show ?thesis by simp
    next
      case False
      then show ?thesis using bit_imp_le_length [of x i] by auto
    qed
  qed
  then show "x = 0" by (simp add: bit_eq_iff)
qed

lemma xorshift32_nonzero: "state \<noteq> 0 \<Longrightarrow> xorshift32 state \<noteq> 0"
  using xor_push_zero [of 13 state] xor_drop_zero [of 17 "state XOR push_bit 13 state"]
    xor_push_zero [of 5 "(state XOR push_bit 13 state) XOR drop_bit 17 (state XOR push_bit 13 state)"]
  unfolding xorshift32_def Let_def by auto

subsection \<open>Lists\<close>

lemma take_drop_split: "take n xs @ take m (drop n xs) = take (n + m) xs"
  by (simp add: take_add)

lemma list_eq_take_append_drop: "xs = take n xs @ drop n xs"
  by simp

lemma nth_eq_imp_update_same: "xs ! n = x \<Longrightarrow> xs[n := x] = xs"
  by auto

subsection \<open>Indices of a window\<close>

lemma mod_window_inj_le:
  "a < n \<Longrightarrow> b < n \<Longrightarrow> (c + a) mod n = (c + b) mod n \<Longrightarrow> a \<le> b \<Longrightarrow> a = (b :: nat)"
proof -
  assume "b < n" "(c + a) mod n = (c + b) mod n" "a \<le> b"
  then have "n dvd b - a" using mod_eq_dvd_iff_nat [of "c + a" "c + b" n] by simp
  with \<open>b < n\<close> have "b - a = 0" using nat_dvd_not_less [of "b - a" n] by linarith
  with \<open>a \<le> b\<close> show ?thesis by simp
qed

lemma mod_window_inj: "a < n \<Longrightarrow> b < n \<Longrightarrow> (c + a) mod n = (c + b) mod n \<Longrightarrow> a = (b :: nat)"
  using mod_window_inj_le [of a n b c] mod_window_inj_le [of b n a c] nat_le_linear by metis

subsection \<open>Bytes and words\<close>

lemma unat_u8_lt [simp]: "unat (b :: u8) < 256"
  using unsigned_less [of b] by simp

lemma unat_of_nat_u8 [simp]: "n < 256 \<Longrightarrow> unat (of_nat n :: u8) = n"
  by (simp add: unat_of_nat take_bit_nat_eq_self)

lemma of_nat_unat_u8 [simp]: "of_nat (unat (b :: u8)) = b"
  by simp

lemma unat_u16_lt [simp]: "unat (w :: u16) < 65536"
  using unsigned_less [of w] by simp

lemma unat_u32_lt [simp]: "unat (w :: u32) < 4294967296"
  using unsigned_less [of w] by simp

lemma unat_u16_u32 [simp]: "unat (ucast (w :: u16) :: u32) = unat w"
  by (simp add: unsigned_ucast_eq take_bit_nat_eq_self less_trans [OF unat_u16_lt])

lemma unat_u32_u16: "unat w < 65536 \<Longrightarrow> unat (ucast (w :: u32) :: u16) = unat w"
  by (simp add: unsigned_ucast_eq take_bit_nat_eq_self)

lemma unat_of_nat_u32 [simp]: "n < 4294967296 \<Longrightarrow> unat (of_nat n :: u32) = n"
  by (simp add: unat_of_nat take_bit_nat_eq_self)

lemma u8_shift_join:
  "(push_bit 8 (ucast (ucast (drop_bit 8 (c :: u16)) :: u8)) :: u16) OR
   ucast (ucast (c AND 0xff) :: u8) = c"
proof -
  have m: "(0xff :: u16) = mask 8" by (simp add: mask_eq_exp_minus_1)
  show ?thesis unfolding m
    by (rule bit_word_eqI)
      (auto simp only: bit_or_iff bit_push_bit_iff bit_and_iff bit_mask_iff bit_unsigned_iff
        bit_drop_bit_eq o_def possible_bit_word len_bit0 len_num1 len_bit1 le_add_diff_inverse)
qed

lemma u8_shift_split:
  "ucast (drop_bit 8 ((push_bit 8 (ucast (h :: u8)) :: u16) OR ucast (l :: u8))) = h"
  "ucast (((push_bit 8 (ucast (h :: u8)) :: u16) OR ucast (l :: u8)) AND 0xff) = l"
proof -
  have m: "(0xff :: u16) = mask 8" by (simp add: mask_eq_exp_minus_1)
  show "ucast (drop_bit 8 ((push_bit 8 (ucast (h :: u8)) :: u16) OR ucast (l :: u8))) = h"
    by (rule bit_word_eqI)
      (auto simp only: bit_or_iff bit_push_bit_iff bit_unsigned_iff bit_drop_bit_eq o_def
        possible_bit_word len_bit0 len_num1 add_diff_cancel_left' le_add1 dest: bit_imp_le_length)
  show "ucast (((push_bit 8 (ucast (h :: u8)) :: u16) OR ucast (l :: u8)) AND 0xff) = l"
    unfolding m by (rule bit_word_eqI)
      (auto simp only: bit_or_iff bit_push_bit_iff bit_and_iff bit_mask_iff bit_unsigned_iff
        possible_bit_word len_bit0 len_num1)
qed

lemma u32_bytes_join:
  "(push_bit 24 (ucast (ucast (drop_bit 24 (v :: u32)) :: u8)) :: u32) OR
   push_bit 16 (ucast (ucast (drop_bit 16 v) :: u8)) OR push_bit 8 (ucast (ucast (drop_bit 8 v) :: u8)) OR
   ucast (ucast v :: u8) = v"
proof (rule bit_word_eqI)
  fix n
  assume n: "n < LENGTH(32)"
  consider "n < 8" | "8 \<le> n" "n < 16" | "16 \<le> n" "n < 24" | "24 \<le> n" "n < 32" using n by fastforce
  then show "bit ((push_bit 24 (ucast (ucast (drop_bit 24 v) :: u8)) :: u32) OR
      push_bit 16 (ucast (ucast (drop_bit 16 v) :: u8)) OR push_bit 8 (ucast (ucast (drop_bit 8 v) :: u8)) OR
      ucast (ucast v :: u8)) n = bit v n"
    by cases (auto simp: bit_or_iff bit_push_bit_iff bit_unsigned_iff bit_drop_bit_eq)
qed

end
