(* ===== verification/Fp.thy ===== *)
theory Fp
  imports Complex_Main Prelude
begin

text \<open>
  C \<^verbatim>\<open>float\<close> and \<^verbatim>\<open>double\<close> scalars where the code can meet an infinity or a NaN: finite values are
  exact reals, the three special values follow the IEEE rules for arithmetic and comparison (every
  comparison with a NaN is false).  Rounding, overflow of finite values and the sign of zero are not
  modelled: theorems about values of this type are about the code's formulas, not its last bits.
\<close>

datatype fp = Fin real | PInf | NInf | NaN

instantiation fp :: "{zero, one}"
begin
definition zero_fp :: fp where "0 = Fin 0"
definition one_fp :: fp where "1 = Fin 1"
instance ..
end

instantiation fp :: "{uminus, plus, minus, times, abs}"
begin

fun uminus_fp :: "fp \<Rightarrow> fp" where
  "- Fin a = Fin (- a)"
| "- PInf = NInf"
| "- NInf = PInf"
| "- NaN = NaN"

fun plus_fp :: "fp \<Rightarrow> fp \<Rightarrow> fp" where
  "Fin a + Fin b = Fin (a + b)"
| "Fin a + PInf = PInf"
| "Fin a + NInf = NInf"
| "PInf + Fin b = PInf"
| "PInf + PInf = PInf"
| "NInf + Fin b = NInf"
| "NInf + NInf = NInf"
| "PInf + NInf = NaN"
| "NInf + PInf = NaN"
| "NaN + y = NaN"
| "x + NaN = NaN"

definition minus_fp :: "fp \<Rightarrow> fp \<Rightarrow> fp" where
  "(x :: fp) - y = x + (- y)"

definition inf_times :: "bool \<Rightarrow> real \<Rightarrow> fp" where
  \<comment> \<open>an infinity, positive if the flag is set, times a finite value\<close>
  "inf_times pos a = (if a = 0 then NaN else if (0 < a) = pos then PInf else NInf)"

fun times_fp :: "fp \<Rightarrow> fp \<Rightarrow> fp" where
  "Fin a * Fin b = Fin (a * b)"
| "Fin a * PInf = inf_times True a"
| "Fin a * NInf = inf_times False a"
| "PInf * Fin b = inf_times True b"
| "NInf * Fin b = inf_times False b"
| "PInf * PInf = PInf"
| "NInf * NInf = PInf"
| "PInf * NInf = NInf"
| "NInf * PInf = NInf"
| "NaN * y = NaN"
| "x * NaN = NaN"

fun abs_fp :: "fp \<Rightarrow> fp" where
  "\<bar>Fin a\<bar> = Fin \<bar>a\<bar>"
| "\<bar>PInf\<bar> = PInf"
| "\<bar>NInf\<bar> = PInf"
| "\<bar>NaN\<bar> = NaN"

instance ..
end

instantiation fp :: inverse
begin

definition inverse_fp :: "fp \<Rightarrow> fp" where
  "inverse_fp x = (case x of Fin a \<Rightarrow> if a = 0 then PInf else Fin (1 / a) | PInf \<Rightarrow> Fin 0 | NInf \<Rightarrow> Fin 0 | NaN \<Rightarrow> NaN)"

definition divide_fp :: "fp \<Rightarrow> fp \<Rightarrow> fp" where
  "x div y = (case (x, y) of
      (Fin a, Fin b) \<Rightarrow> if b = 0 then inf_times True a else Fin (a / b)
    | (Fin a, NaN) \<Rightarrow> NaN
    | (Fin a, _) \<Rightarrow> Fin 0
    | (PInf, Fin b) \<Rightarrow> if b < 0 then NInf else PInf
    | (NInf, Fin b) \<Rightarrow> if b < 0 then PInf else NInf
    | _ \<Rightarrow> NaN)"

instance ..
end

instantiation fp :: ord
begin

fun less_fp :: "fp \<Rightarrow> fp \<Rightarrow> bool" where
  "Fin a < Fin b \<longleftrightarrow> a < b"
| "Fin a < PInf \<longleftrightarrow> True"
| "NInf < Fin b \<longleftrightarrow> True"
| "NInf < PInf \<longleftrightarrow> True"
| "(x :: fp) < y \<longleftrightarrow> False"

fun less_eq_fp :: "fp \<Rightarrow> fp \<Rightarrow> bool" where
  "Fin a \<le> Fin b \<longleftrightarrow> a \<le> b"
| "Fin a \<le> PInf \<longleftrightarrow> True"
| "NInf \<le> Fin b \<longleftrightarrow> True"
| "NInf \<le> PInf \<longleftrightarrow> True"
| "NInf \<le> NInf \<longleftrightarrow> True"
| "PInf \<le> PInf \<longleftrightarrow> True"
| "(x :: fp) \<le> y \<longleftrightarrow> False"

instance ..
end

definition isfinite :: "fp \<Rightarrow> bool" where
  "isfinite x = (case x of Fin _ \<Rightarrow> True | _ \<Rightarrow> False)"

definition fp_eq :: "fp \<Rightarrow> fp \<Rightarrow> bool" where
  \<comment> \<open>C's \<^verbatim>\<open>==\<close>\<close>
  "fp_eq x y \<longleftrightarrow> x = y \<and> x \<noteq> NaN"

definition real_of_fp :: "fp \<Rightarrow> real" where
  \<comment> \<open>the value of a finite number\<close>
  "real_of_fp x = (case x of Fin r \<Rightarrow> r | _ \<Rightarrow> 0)"

lemma isfinite_simps [simp]: "isfinite (Fin a)" "\<not> isfinite PInf" "\<not> isfinite NInf" "\<not> isfinite NaN"
  by (simp_all add: isfinite_def)

lemma isfinite_iff: "isfinite x \<longleftrightarrow> (\<exists>a. x = Fin a)"
  by (cases x) auto

lemma fp_less_not_le: "\<not> (x < y \<and> y \<le> (x :: fp))"
  by (cases x; cases y) auto

lemma fp_between: "Fin a \<le> x \<Longrightarrow> x \<le> Fin b \<Longrightarrow> \<exists>r. x = Fin r \<and> a \<le> r \<and> r \<le> b"
  by (cases x) auto

lemma fp_between_strict: "Fin a < x \<Longrightarrow> x < Fin b \<Longrightarrow> \<exists>r. x = Fin r \<and> a < r \<and> r < b"
  by (cases x) auto

lemma fp_minus_Fin [simp]: "Fin a - Fin b = Fin (a - b)"
  by (simp add: minus_fp_def)

lemma fp_divide_Fin [simp]: "b \<noteq> 0 \<Longrightarrow> Fin a / Fin b = Fin (a / b)"
  by (simp add: divide_fp_def)

lemma fp_0 [simp]: "(0 :: fp) = Fin 0" and fp_1 [simp]: "(1 :: fp) = Fin 1"
  by (simp_all add: zero_fp_def one_fp_def)

subsection \<open>Conversions of real values to integers\<close>

definition c_trunc :: "real \<Rightarrow> int" where
  \<comment> \<open>a cast of a value in range to an integer type\<close>
  "c_trunc r = (if r \<ge> 0 then \<lfloor>r\<rfloor> else \<lceil>r\<rceil>)"

definition round_half_even :: "real \<Rightarrow> int" where
  \<comment> \<open>\<^verbatim>\<open>lrint\<close> in the default rounding mode\<close>
  "round_half_even r =
    (let n = \<lfloor>r\<rfloor>; d = r - of_int n
     in if d < 1 / 2 then n else if d > 1 / 2 then n + 1 else if even n then n else n + 1)"

lemma c_trunc_of_int [simp]: "c_trunc (of_int n) = n"
  by (simp add: c_trunc_def)

lemma c_trunc_nonneg: "0 \<le> r \<Longrightarrow> of_int (c_trunc r) \<le> r \<and> r < of_int (c_trunc r) + 1"
  by (simp add: c_trunc_def)

lemma c_trunc_nonpos: "r \<le> 0 \<Longrightarrow> r \<le> of_int (c_trunc r) \<and> of_int (c_trunc r) < r + 1"
  unfolding c_trunc_def by (cases "r = 0") (simp_all, linarith)

lemma c_trunc_mono: "r \<le> s \<Longrightarrow> c_trunc r \<le> c_trunc s"
proof -
  assume rs: "r \<le> s"
  consider "0 \<le> r" | "s < 0" | "r < 0" "0 \<le> s" using rs by linarith
  then show ?thesis
  proof cases
    case 1
    with rs show ?thesis by (auto simp: c_trunc_def intro: floor_mono)
  next
    case 2
    with rs show ?thesis by (auto simp: c_trunc_def intro: ceiling_mono)
  next
    case 3
    then have "\<lceil>r\<rceil> \<le> 0" "0 \<le> \<lfloor>s\<rfloor>" by (simp_all add: ceiling_le_iff)
    then have "\<lceil>r\<rceil> \<le> \<lfloor>s\<rfloor>" by (rule order_trans)
    with 3 show ?thesis by (simp add: c_trunc_def)
  qed
qed

lemma round_half_even_of_int [simp]: "round_half_even (of_int n) = n"
  by (simp add: round_half_even_def)

lemma round_half_even_error: "\<bar>of_int (round_half_even r) - r\<bar> \<le> 1 / 2"
  unfolding round_half_even_def Let_def by (auto simp: abs_if) linarith+

lemma round_half_even_mono: "r \<le> s \<Longrightarrow> round_half_even r \<le> round_half_even s"
proof (cases "\<lfloor>r\<rfloor> = \<lfloor>s\<rfloor>")
  case False
  assume "r \<le> s"
  with False have "\<lfloor>r\<rfloor> < \<lfloor>s\<rfloor>" using floor_mono [of r s] by linarith
  moreover have "round_half_even r \<le> \<lfloor>r\<rfloor> + 1" "\<lfloor>s\<rfloor> \<le> round_half_even s"
    by (simp_all add: round_half_even_def Let_def)
  ultimately show ?thesis by linarith
qed (auto simp: round_half_even_def Let_def)

end
