(* ===== verification/Frame.thy ===== *)
theory Frame
  imports Prelude
begin

text \<open>
  The native radio frame of \<^verbatim>\<open>src/framing/frame.c\<close>: one length byte, up to 128 payload bytes and
  a big-endian CRC-16/CCITT-FALSE over both.  \<open>rtnc_frame_build\<close> and \<open>rtnc_frame_parse\<close> are the two
  operations; the lemmas show that they are inverse to each other, that parsing accepts nothing but
  built frames, and that the checksum exposes every corruption confined to two adjacent bytes.
\<close>

definition RTNC_FRAME_MAX_PAYLOAD :: nat where [simp]: "RTNC_FRAME_MAX_PAYLOAD = 128"
definition RTNC_FRAME_HEADER_SIZE :: nat where [simp]: "RTNC_FRAME_HEADER_SIZE = 1"
definition RTNC_FRAME_CRC_SIZE :: nat where [simp]: "RTNC_FRAME_CRC_SIZE = 2"

datatype rtnc_frame_status =
    RTNC_FRAME_OK
  | RTNC_FRAME_INVALID_ARGUMENT
  | RTNC_FRAME_BUFFER_TOO_SMALL
  | RTNC_FRAME_INVALID_LENGTH
  | RTNC_FRAME_CRC_FAILURE

subsection \<open>The checksum\<close>

definition crc_bit :: "u16 \<Rightarrow> u16" where
  \<comment> \<open>the body of the inner loop\<close>
  "crc_bit crc = (if crc AND 0x8000 \<noteq> 0 then push_bit 1 crc XOR 0x1021 else push_bit 1 crc)"

definition crc_byte :: "u16 \<Rightarrow> u8 \<Rightarrow> u16" where
  \<comment> \<open>the body of the outer loop: mix one byte in, then eight shifts\<close>
  "crc_byte crc b = (crc_bit ^^ 8) (crc XOR push_bit 8 (ucast b))"

definition rtnc_crc16_ccitt_false :: "bytes \<Rightarrow> u16" where
  "rtnc_crc16_ccitt_false data = foldl crc_byte 0xffff data"

subsection \<open>Building and parsing\<close>

definition rtnc_frame_build :: "bytes \<Rightarrow> nat \<Rightarrow> rtnc_frame_status + bytes" where
  "rtnc_frame_build payload capacity =
    (let payload_length = length payload;
         required = RTNC_FRAME_HEADER_SIZE + payload_length + RTNC_FRAME_CRC_SIZE
     in if payload_length = 0 \<or> payload_length > RTNC_FRAME_MAX_PAYLOAD
        then Inl RTNC_FRAME_INVALID_LENGTH
        else if capacity < required then Inl RTNC_FRAME_BUFFER_TOO_SMALL
        else
          let encoded = (of_nat (payload_length - 1) :: u8) # payload;
              crc = rtnc_crc16_ccitt_false encoded
          in Inr (encoded @ [ucast (drop_bit 8 crc), ucast (crc AND 0xff)]))"

definition rtnc_frame_parse :: "bytes \<Rightarrow> nat \<Rightarrow> rtnc_frame_status + bytes" where
  "rtnc_frame_parse encoded capacity =
    (let encoded_length = length encoded
     in if encoded_length < RTNC_FRAME_HEADER_SIZE + RTNC_FRAME_CRC_SIZE
        then Inl RTNC_FRAME_INVALID_LENGTH
        else
          let declared_length = unat (encoded ! 0) + 1;
              required = RTNC_FRAME_HEADER_SIZE + declared_length + RTNC_FRAME_CRC_SIZE
          in if declared_length > RTNC_FRAME_MAX_PAYLOAD then Inl RTNC_FRAME_INVALID_LENGTH
             else if encoded_length \<noteq> required then Inl RTNC_FRAME_INVALID_LENGTH
             else if capacity < declared_length then Inl RTNC_FRAME_BUFFER_TOO_SMALL
             else
               let expected_crc =
                     rtnc_crc16_ccitt_false (take (RTNC_FRAME_HEADER_SIZE + declared_length) encoded);
                   received_crc = (push_bit 8 (ucast (encoded ! (required - 2))) :: u16) OR
                     ucast (encoded ! (required - 1))
               in if received_crc \<noteq> expected_crc then Inl RTNC_FRAME_CRC_FAILURE
                  else Inr (take declared_length (drop RTNC_FRAME_HEADER_SIZE encoded)))"

subsection \<open>The checksum is linear and loses nothing\<close>

lemma crc_bit_msb: "(c :: u16) AND 0x8000 \<noteq> 0 \<longleftrightarrow> bit c 15"
  using and_exp_eq_0_iff_not_bit [of c 15] by simp

lemma crc_bit_xor: "crc_bit (a XOR b) = crc_bit a XOR crc_bit b"
  unfolding crc_bit_def crc_bit_msb
  by (simp add: bit_xor_iff push_bit_xor xor.assoc xor.left_commute xor.commute)

lemma crc_bit_0 [simp]: "crc_bit 0 = 0"
  by (simp add: crc_bit_def)

lemma crc_bit_kernel: "crc_bit c = 0 \<Longrightarrow> c = 0"
proof (cases "bit c 15")
  case True
  assume "crc_bit c = 0"
  with True have "push_bit 1 c XOR 0x1021 = 0"
    by (simp add: crc_bit_def crc_bit_msb)
  then have "bit (push_bit 1 c XOR 0x1021) 0 = bit (0 :: u16) 0" by (rule arg_cong)
  then have False by (simp only: bit_xor_iff bit_push_bit_iff) (simp add: bit_0)
  then show ?thesis ..
next
  case False
  assume "crc_bit c = 0"
  with False have z: "push_bit 1 c = 0"
    by (simp add: crc_bit_def crc_bit_msb)
  show ?thesis
  proof (rule bit_word_eqI)
    fix n assume n: "n < LENGTH(16)"
    show "bit c n = bit 0 n"
    proof (cases "n = 15")
      case True
      then show ?thesis using False by simp
    next
      case neq: False
      have "bit (push_bit 1 c) (Suc n) = bit (0 :: u16) (Suc n)" using z by simp
      with n neq show ?thesis by (simp only: bit_push_bit_iff) (simp add: possible_bit_word)
    qed
  qed
qed

lemma crc_bits_xor: "(crc_bit ^^ k) (a XOR b) = (crc_bit ^^ k) a XOR (crc_bit ^^ k) b"
  by (induction k) (simp_all add: crc_bit_xor)

lemma crc_bits_0 [simp]: "(crc_bit ^^ k) 0 = 0"
  by (induction k) simp_all

lemma crc_bits_kernel: "(crc_bit ^^ k) c = 0 \<Longrightarrow> c = 0"
  by (induction k) (auto dest: crc_bit_kernel)

lemma xor_eq_0_iff_word: "(a XOR b = (0 :: 'a::len word)) \<longleftrightarrow> a = b"
  by (metis xor.assoc xor.left_neutral xor.right_neutral xor_self_eq)

text \<open>The difference of two checksum states evolves on its own, by the differences of the bytes.\<close>

lemma push8_xor:
  "push_bit 8 (ucast (a :: u8)) XOR push_bit 8 (ucast b) = (push_bit 8 (ucast (a XOR b)) :: u16)"
  by (simp only: push_bit_xor [symmetric] unsigned_xor_eq)

lemma crc_byte_diff:
  "crc_byte s a XOR crc_byte t b = (crc_bit ^^ 8) ((s XOR t) XOR push_bit 8 (ucast (a XOR b)))"
  by (simp only: crc_byte_def crc_bits_xor [symmetric] push8_xor [symmetric] xor.assoc
      xor.left_commute)

lemma crc_byte_inj: "crc_byte s a = crc_byte t a \<longleftrightarrow> s = t"
proof
  assume "crc_byte s a = crc_byte t a"
  then have "crc_byte s a XOR crc_byte t a = 0" by simp
  then have "(crc_bit ^^ 8) (s XOR t) = 0" by (simp add: crc_byte_diff)
  then show "s = t" by (auto dest!: crc_bits_kernel simp: xor_eq_0_iff_word)
qed simp

lemma foldl_crc_byte_inj: "foldl crc_byte s bs = foldl crc_byte t bs \<longleftrightarrow> s = t"
  by (induction bs arbitrary: s t) (simp_all add: crc_byte_inj)

text \<open>
  A step whose result has bit 0 clear did not take the feedback branch.  Hence eight steps whose
  result has its low byte clear were eight plain shifts, and nothing was shifted out.
\<close>

lemma bit_crc_bit_0: "bit (crc_bit c) 0 = bit c 15"
  unfolding crc_bit_def crc_bit_msb
  by (simp only: bit_xor_iff bit_push_bit_iff split: if_split) (simp add: bit_0)

lemma crc_bit_no_feedback: "\<not> bit (crc_bit c) 0 \<Longrightarrow> crc_bit c = push_bit 1 c"
  unfolding bit_crc_bit_0 by (simp add: crc_bit_def crc_bit_msb)

lemma crc_bits_no_feedback:
  assumes "k \<le> 16" and "\<And>n. n < k \<Longrightarrow> \<not> bit ((crc_bit ^^ k) x) n"
  shows "(crc_bit ^^ k) x = push_bit k x \<and> (\<forall>n. 16 - k \<le> n \<longrightarrow> \<not> bit x n)"
  using assms
proof (induction k)
  case 0
  then show ?case by (auto dest: bit_imp_le_length)
next
  case (Suc k)
  let ?z = "(crc_bit ^^ k) x"
  have y: "(crc_bit ^^ Suc k) x = push_bit 1 ?z"
    using Suc.prems(2) [of 0] crc_bit_no_feedback [of ?z] by simp
  have msb: "\<not> bit ?z 15"
    using Suc.prems(2) [of 0] bit_crc_bit_0 [of ?z] by simp
  have low: "\<not> bit ?z n" if "n < k" for n
  proof -
    have "\<not> bit (push_bit 1 ?z) (Suc n)" using Suc.prems(2) [of "Suc n"] that y by simp
    then show ?thesis using that Suc.prems(1)
      by (simp only: bit_push_bit_iff) (simp add: possible_bit_word)
  qed
  from Suc.IH [OF _ low] Suc.prems(1)
  have z: "?z = push_bit k x" and top: "\<And>n. 16 - k \<le> n \<Longrightarrow> \<not> bit x n" by auto
  have "\<not> bit x (15 - k)"
    using msb Suc.prems(1) unfolding z by (simp only: bit_push_bit_iff) (simp add: possible_bit_word)
  moreover have "n = 15 - k \<or> 16 - k \<le> n" if "16 - Suc k \<le> n" for n using that by arith
  ultimately have "\<forall>n. 16 - Suc k \<le> n \<longrightarrow> \<not> bit x n" using top by metis
  moreover have "(crc_bit ^^ Suc k) x = push_bit (Suc k) x"
    unfolding y z by (simp only: push_bit_push_bit) simp
  ultimately show ?case by blast
qed

text \<open>Two adjacent bytes that differ anywhere leave different checksum states.\<close>

lemma bit_push8: "n < 8 \<Longrightarrow> bit (push_bit 8 (ucast (e :: u8)) :: u16) (n + 8) = bit e n"
  by (simp only: bit_push_bit_iff) (simp add: bit_ucast_iff)

lemma push8_eq_0:
  assumes "push_bit 8 (ucast (e :: u8)) = (0 :: u16)"
  shows "e = 0"
proof (rule bit_word_eqI)
  fix n assume "n < LENGTH(8)"
  then show "bit e n = bit 0 n" using bit_push8 [of n e] unfolding assms by simp
qed

lemma crc_two_bytes_differ:
  assumes "crc_byte (crc_byte s a1) a2 = crc_byte (crc_byte s b1) b2"
  shows "a1 = b1 \<and> a2 = b2"
proof -
  let ?d1 = "crc_byte s a1 XOR crc_byte s b1"
  let ?e1 = "a1 XOR b1" and ?e2 = "a2 XOR b2"
  have "crc_byte (crc_byte s a1) a2 XOR crc_byte (crc_byte s b1) b2 = 0"
    using assms by simp
  then have "?d1 XOR push_bit 8 (ucast ?e2) = 0"
    unfolding crc_byte_diff [of "crc_byte s a1"] by (rule crc_bits_kernel)
  then have d1: "?d1 = push_bit 8 (ucast ?e2)" by (simp only: xor_eq_0_iff_word)
  have e1: "?d1 = (crc_bit ^^ 8) (push_bit 8 (ucast ?e1))"
    unfolding crc_byte_diff by (simp only: xor_self_eq xor.left_neutral)
  have low: "\<not> bit ((crc_bit ^^ 8) (push_bit 8 (ucast ?e1))) m" if "m < 8" for m
    unfolding e1 [symmetric] d1 using that by (simp only: bit_push_bit_iff) simp
  have "\<not> bit (push_bit 8 (ucast ?e1) :: u16) n" if "8 \<le> n" for n
    using crc_bits_no_feedback [OF _ low] that by (simp del: push_bit_numeral)
  then have "\<not> bit ?e1 n" if "n < 8" for n
    using that bit_push8 [of n ?e1] by (metis le_add2)
  then have z1: "?e1 = 0" by (intro bit_word_eqI) simp
  then have "push_bit 8 (ucast ?e2) = (0 :: u16)"
    using d1 e1 by (simp del: push_bit_numeral)
  then have "?e2 = 0" by (rule push8_eq_0)
  with z1 show ?thesis by (simp only: xor_eq_0_iff_word)
qed

subsection \<open>The residue\<close>

text \<open>Appending the checksum big-endian brings the state to zero, and no other two bytes do.\<close>

lemma crc_bits_no_overflow:
  "k \<le> 16 \<Longrightarrow> (\<And>n. 16 - k \<le> n \<Longrightarrow> \<not> bit x n) \<Longrightarrow> (crc_bit ^^ k) x = push_bit k x"
proof (induction k)
  case (Suc k)
  then have z: "(crc_bit ^^ k) x = push_bit k x" by simp
  have "\<not> bit (push_bit k x) 15"
    using Suc.prems(2) [of "15 - k"] Suc.prems(1) by (simp only: bit_push_bit_iff) simp
  then have "crc_bit (push_bit k x) = push_bit 1 (push_bit k x)"
    unfolding bit_crc_bit_0 [symmetric] by (rule crc_bit_no_feedback)
  then show ?case using z by (simp only: funpow.simps o_def push_bit_push_bit plus_1_eq_Suc)
qed simp

lemma crc_byte_own_high:
  "crc_byte c (ucast (drop_bit 8 c)) = push_bit 8 (ucast (ucast (c AND 0xff) :: u8))"
proof -
  let ?x = "c XOR push_bit 8 (ucast (ucast (drop_bit 8 c) :: u8))"
  have m: "(0xff :: u16) = mask 8" by (simp add: mask_eq_exp_minus_1)
  have "\<not> bit ?x n" if "8 \<le> n" for n
    using that by (auto simp only: bit_xor_iff bit_push_bit_iff bit_unsigned_iff bit_drop_bit_eq
      o_def possible_bit_word le_add_diff_inverse len_bit0 len_num1 dest: bit_imp_le_length)
  then have "(crc_bit ^^ 8) ?x = push_bit 8 ?x" by (intro crc_bits_no_overflow) auto
  also have "\<dots> = push_bit 8 (ucast (ucast (c AND 0xff) :: u8))"
    unfolding m by (rule bit_word_eqI)
      (auto simp only: bit_xor_iff bit_push_bit_iff bit_unsigned_iff bit_drop_bit_eq bit_and_iff
        bit_mask_iff o_def possible_bit_word len_bit0 len_num1)
  finally show ?thesis by (simp only: crc_byte_def)
qed

lemma crc_append2:
  "rtnc_crc16_ccitt_false (m @ [h, l]) = crc_byte (crc_byte (rtnc_crc16_ccitt_false m) h) l"
  by (simp add: rtnc_crc16_ccitt_false_def)

lemma crc_residue_own:
  "crc_byte (crc_byte c (ucast (drop_bit 8 c))) (ucast (c AND 0xff)) = 0"
  unfolding crc_byte_own_high by (simp only: crc_byte_def xor_self_eq crc_bits_0)

lemma crc_residue:
  "rtnc_crc16_ccitt_false (m @ [h, l]) = 0 \<longleftrightarrow>
   (push_bit 8 (ucast h) :: u16) OR ucast l = rtnc_crc16_ccitt_false m"
proof
  let ?c = "rtnc_crc16_ccitt_false m"
  assume "rtnc_crc16_ccitt_false (m @ [h, l]) = 0"
  then have "crc_byte (crc_byte ?c h) l =
      crc_byte (crc_byte ?c (ucast (drop_bit 8 ?c))) (ucast (?c AND 0xff))"
    by (simp only: crc_append2 crc_residue_own)
  then have "h = ucast (drop_bit 8 ?c) \<and> l = ucast (?c AND 0xff)" by (rule crc_two_bytes_differ)
  then show "(push_bit 8 (ucast h) :: u16) OR ucast l = ?c" by (simp only: u8_shift_join)
next
  let ?c = "rtnc_crc16_ccitt_false m"
  assume c: "(push_bit 8 (ucast h) :: u16) OR ucast l = ?c"
  have "ucast (drop_bit 8 ?c) = h" and "ucast (?c AND 0xff) = l"
    unfolding c [symmetric] by (rule u8_shift_split)+
  then show "rtnc_crc16_ccitt_false (m @ [h, l]) = 0"
    using crc_residue_own [of ?c] by (simp only: crc_append2)
qed

subsection \<open>What parsing accepts\<close>

lemma split_last2:
  assumes "length e = n + 3"
  shows "e = take (Suc n) e @ [e ! (n + 1), e ! (n + 2)]"
proof -
  have "drop (Suc n) e = [e ! (n + 1), e ! (n + 2)]"
    using assms by (intro nth_equalityI) (auto simp: nth_Cons' less_Suc_eq numeral_eq_Suc)
  then show ?thesis by (metis append_take_drop_id)
qed

lemma rtnc_frame_parse_Inr:
  "rtnc_frame_parse e cap = Inr p \<longleftrightarrow>
   (\<exists>n. length e = n + 3 \<and> n = unat (e ! 0) + 1 \<and> n \<le> 128 \<and> n \<le> cap \<and>
        rtnc_crc16_ccitt_false e = 0 \<and> p = take n (drop 1 e))"
proof (cases "length e = unat (e ! 0) + 1 + 3")
  case True
  define n where "n = unat (e ! 0) + 1"
  have "rtnc_crc16_ccitt_false e = 0 \<longleftrightarrow>
      (push_bit 8 (ucast (e ! (n + 1))) :: u16) OR ucast (e ! (n + 2)) =
      rtnc_crc16_ccitt_false (take (Suc n) e)"
    using True split_last2 [of e n] crc_residue [of "take (Suc n) e" "e ! (n + 1)" "e ! (n + 2)"]
    by (simp only: n_def [symmetric] simp_thms)
  with True show ?thesis
    unfolding rtnc_frame_parse_def Let_def n_def [symmetric]
    by (auto simp: n_def [symmetric] simp del: push_bit_numeral unsigned_0)
next
  case False
  then show ?thesis by (auto simp: rtnc_frame_parse_def Let_def)
qed

lemma rtnc_frame_build_Inr:
  "rtnc_frame_build p cap = Inr e \<longleftrightarrow>
   0 < length p \<and> length p \<le> 128 \<and> length p + 3 \<le> cap \<and>
   (let c = rtnc_crc16_ccitt_false ((of_nat (length p - 1) :: u8) # p)
    in e = (of_nat (length p - 1) # p) @ [ucast (drop_bit 8 c), ucast (c AND 0xff)])"
  by (auto simp: rtnc_frame_build_def Let_def)

lemma rtnc_frame_build_shape:
  assumes "rtnc_frame_build p cap = Inr e"
  shows "length e = length p + 3" "unat (e ! 0) + 1 = length p" "0 < length p" "length p \<le> 128"
    "rtnc_crc16_ccitt_false e = 0" "take (length p) (drop 1 e) = p"
  using assms
  by (auto simp: rtnc_frame_build_Inr Let_def crc_append2 [of "_ # _", simplified] crc_residue_own)

lemma adjacent_difference:
  assumes len: "length e' = length e" and neq: "e' \<noteq> e"
    and burst: "\<And>j. j \<noteq> i \<Longrightarrow> j \<noteq> Suc i \<Longrightarrow> e' ! j = e ! j"
    and two: "2 \<le> length e"
  shows "\<exists>u a1 a2 b1 b2 v. e = u @ [a1, a2] @ v \<and> e' = u @ [b1, b2] @ v"
proof -
  have lt: "i < length e"
  proof (rule ccontr)
    assume "\<not> i < length e"
    then have "\<forall>j < length e. e' ! j = e ! j" using burst by auto
    with len neq show False by (metis nth_equalityI)
  qed
  define k where "k = (if Suc i < length e then i else i - 1)"
  have k: "Suc k < length e" using lt two by (auto simp: k_def)
  have same: "e' ! j = e ! j" if "j < length e" "j \<noteq> k" "j \<noteq> Suc k" for j
    using that lt burst [of j] by (cases "Suc i < length e") (auto simp: k_def)
  have split: "xs = take k xs @ [xs ! k, xs ! Suc k] @ drop (k + 2) xs"
    if "length xs = length e" for xs :: "'a list"
    using that k by (metis Cons_nth_drop_Suc Suc_lessD add_2_eq_Suc' append_Cons append_Nil
        append_take_drop_id)
  have "take k e' = take k e" using len same k by (intro nth_equalityI) auto
  moreover have "drop (k + 2) e' = drop (k + 2) e" using len same k by (intro nth_equalityI) auto
  ultimately show ?thesis using split [OF refl] split [OF len] by metis
qed

section \<open>Properties\<close>

text \<open>
  C1: every frame \<open>rtnc_frame_build\<close> makes parses back to exactly the payload it was built from,
  whatever spare capacity the caller gives.
\<close>

theorem frame_roundtrip:
  assumes "rtnc_frame_build p cap = Inr e" and "length p \<le> cap'"
  shows "rtnc_frame_parse e cap' = Inr p"
  using rtnc_frame_build_shape [OF assms(1)] assms(2) by (auto simp: rtnc_frame_parse_Inr)

theorem frame_roundtrip_witness:
  "rtnc_frame_parse [1, 7, 9, 0xf3, 0x12] 128 = Inr [7, 9]"
proof (rule frame_roundtrip)
  show "rtnc_frame_build [7, 9] 131 = Inr [1, 7, 9, 0xf3, 0x12]" by code_simp
qed simp

text \<open>
  C5: parsing accepts nothing but built frames.  A byte string that parses to a payload is the one
  encoding \<open>rtnc_frame_build\<close> gives that payload, so every payload has exactly one valid frame.
\<close>

theorem frame_parse_canonical:
  assumes "rtnc_frame_parse e cap = Inr p"
  shows "rtnc_frame_build p (length e) = Inr e"
proof -
  from assms obtain n where n: "length e = n + 3" "n = unat (e ! 0) + 1" "n \<le> 128"
    and z: "rtnc_crc16_ccitt_false e = 0" and p: "p = take n (drop 1 e)"
    by (auto simp: rtnc_frame_parse_Inr)
  have len: "length p = n" using n p by simp
  have hd: "(of_nat (length p - 1) :: u8) # p = take (Suc n) e"
  proof -
    from n(1) obtain x xs where "e = x # xs" by (cases e) auto
    with n p len show ?thesis by simp
  qed
  let ?c = "rtnc_crc16_ccitt_false (take (Suc n) e)"
  have c: "(push_bit 8 (ucast (e ! (n + 1))) :: u16) OR ucast (e ! (n + 2)) = ?c"
    using z split_last2 [OF n(1)] crc_residue by metis
  have "ucast (drop_bit 8 ?c) = e ! (n + 1)" "ucast (?c AND 0xff) = e ! (n + 2)"
    unfolding c [symmetric] by (rule u8_shift_split)+
  then have "e = take (Suc n) e @ [ucast (drop_bit 8 ?c), ucast (?c AND 0xff)]"
    using split_last2 [OF n(1)] by simp
  then show ?thesis
    unfolding rtnc_frame_build_Inr Let_def hd using n len by auto
qed

theorem frame_parse_canonical_witness:
  "rtnc_frame_build [7, 9] 5 = Inr [1, 7, 9, 0xf3, 0x12]"
proof -
  have "rtnc_frame_parse [1, 7, 9, 0xf3, 0x12] 128 = Inr [7, 9]" by code_simp
  moreover have "length [1, 7, 9, 0xf3, 0x12 :: u8] = 5" by simp
  ultimately show ?thesis using frame_parse_canonical by metis
qed

text \<open>
  C4: no corruption confined to two adjacent bytes of a frame (so no burst of up to nine bits, and
  no aligned burst of sixteen) is ever accepted: wherever in the length byte, the payload or the
  checksum it falls, \<open>rtnc_frame_parse\<close> returns an error.
\<close>

theorem frame_detects_two_byte_burst:
  assumes build: "rtnc_frame_build p cap = Inr e"
    and len: "length e' = length e" and neq: "e' \<noteq> e"
    and burst: "\<And>j. j \<noteq> i \<Longrightarrow> j \<noteq> Suc i \<Longrightarrow> e' ! j = e ! j"
  shows "\<exists>err. rtnc_frame_parse e' cap' = Inl err"
proof (cases "rtnc_frame_parse e' cap'")
  case (Inr q)
  note b = rtnc_frame_build_shape [OF build]
  from Inr have z: "rtnc_crc16_ccitt_false e' = 0" by (auto simp: rtnc_frame_parse_Inr)
  have "\<exists>u a1 a2 b1 b2 v. e = u @ [a1, a2] @ v \<and> e' = u @ [b1, b2] @ v"
    by (rule adjacent_difference [OF len neq, of i]) (use b burst in simp_all)
  then obtain u a1 a2 b1 b2 v where e: "e = u @ [a1, a2] @ v" and e': "e' = u @ [b1, b2] @ v"
    by blast
  have "rtnc_crc16_ccitt_false e' = rtnc_crc16_ccitt_false e" using z b by simp
  then have "crc_byte (crc_byte (foldl crc_byte 0xffff u) b1) b2 =
      crc_byte (crc_byte (foldl crc_byte 0xffff u) a1) a2"
    unfolding e e' by (simp add: rtnc_crc16_ccitt_false_def foldl_crc_byte_inj)
  from crc_two_bytes_differ [OF this] show ?thesis using neq e e' by simp
qed blast

theorem frame_detects_two_byte_burst_witness:
  "\<exists>err. rtnc_frame_parse [1, 7, 8, 0xf2, 0x12] 128 = Inl err"
proof (rule frame_detects_two_byte_burst [where i = 2])
  show "rtnc_frame_build [7, 9] 131 = Inr [1, 7, 9, 0xf3, 0x12]" by code_simp
  show "[1, 7, 8, 0xf2, 0x12] ! j = [1, 7, 9, 0xf3, 0x12 :: u8] ! j" if "j \<noteq> 2" "j \<noteq> Suc 2" for j
    using that by (auto simp: nth_Cons' numeral_eq_Suc)
qed simp_all

end
