(* ===== verification/Fragmentation.thy ===== *)
theory Fragmentation
  imports Prelude "HOL-Library.Sublist"
begin

text \<open>
  Packet fragmentation and reassembly, \<^verbatim>\<open>src/framing/fragmentation.c\<close>.  A packet is cut into up to
  128 radio payloads of 63 or 127 data bytes, each behind one header byte: bit 7 marks a
  continuation, the low seven bits count the fragments still to follow.  \<open>rtnc_reassembly\<close> is the
  caller-owned receive state; its operations are \<open>rtnc_reassembly_init\<close>, \<open>rtnc_reassembly_reset\<close> and
  \<open>rtnc_reassembly_push\<close>, whose result is the status, the value stored through \<^verbatim>\<open>packet_length\<close> and
  the new state.
\<close>

definition RTNC_FRAGMENT_HEADER_SIZE :: nat where [simp]: "RTNC_FRAGMENT_HEADER_SIZE = 1"
definition RTNC_FRAGMENT_MAX_COUNT :: nat where [simp]: "RTNC_FRAGMENT_MAX_COUNT = 128"
definition RTNC_LINK_MIN_MTU :: nat where [simp]: "RTNC_LINK_MIN_MTU = 500"
definition RTNC_LINK_MAX_MTU :: nat where [simp]: "RTNC_LINK_MAX_MTU = 16256"
definition CONTINUATION_FLAG :: u8 where "CONTINUATION_FLAG = 0x80"
definition REMAINING_MASK :: u8 where "REMAINING_MASK = 0x7f"

datatype rtnc_fragment_status =
    RTNC_FRAGMENT_OK
  | RTNC_FRAGMENT_INCOMPLETE
  | RTNC_FRAGMENT_INVALID_ARGUMENT
  | RTNC_FRAGMENT_INVALID_MTU
  | RTNC_FRAGMENT_INVALID_FRAME
  | RTNC_FRAGMENT_INVALID_SEQUENCE
  | RTNC_FRAGMENT_BUFFER_TOO_SMALL
  | RTNC_FRAGMENT_TIMEOUT

subsection \<open>Cutting a packet\<close>

definition valid_payload_class :: "nat \<Rightarrow> bool" where
  "valid_payload_class radio_payload_class \<longleftrightarrow>
     radio_payload_class = 64 \<or> radio_payload_class = 128"

definition rtnc_fragment_count :: "nat \<Rightarrow> nat \<Rightarrow> nat" where
  \<comment> \<open>the \<^verbatim>\<open>size_t\<close> sum wraps for a length next to \<^verbatim>\<open>SIZE_MAX\<close>\<close>
  "rtnc_fragment_count packet_length radio_payload_class =
    (if packet_length = 0 \<or> \<not> valid_payload_class radio_payload_class then 0
     else let data_capacity = radio_payload_class - RTNC_FRAGMENT_HEADER_SIZE
          in ((packet_length + data_capacity - 1) mod 2 ^ 64) div data_capacity)"

definition rtnc_fragment_build ::
    "bytes \<Rightarrow> nat \<Rightarrow> nat \<Rightarrow> nat \<Rightarrow> rtnc_fragment_status + bytes" where
  "rtnc_fragment_build packet radio_payload_class fragment_index frame_capacity =
    (let packet_length = length packet;
         count = rtnc_fragment_count packet_length radio_payload_class
     in if count = 0 \<or> count > RTNC_FRAGMENT_MAX_COUNT \<or> fragment_index \<ge> count
        then Inl RTNC_FRAGMENT_INVALID_MTU
        else
          let data_capacity = radio_payload_class - RTNC_FRAGMENT_HEADER_SIZE;
              offset = fragment_index * data_capacity;
              data_length = (if packet_length - offset > data_capacity then data_capacity
                             else packet_length - offset)
          in if frame_capacity < data_length + RTNC_FRAGMENT_HEADER_SIZE
             then Inl RTNC_FRAGMENT_BUFFER_TOO_SMALL
             else
               let remaining = count - fragment_index - 1;
                   header = (if fragment_index \<noteq> 0
                             then (of_nat remaining :: u8) OR CONTINUATION_FLAG
                             else of_nat remaining)
               in Inr (header # take data_length (drop offset packet)))"

subsection \<open>Putting it together again\<close>

record rtnc_reassembly =
  ra_packet :: bytes        \<comment> \<open>the caller's buffer, at least \<open>mtu\<close> bytes\<close>
  ra_mtu :: nat
  ra_radio_payload_class :: nat
  ra_length :: nat
  ra_remaining :: u8
  ra_started_ms :: u64
  ra_timeout_ms :: u32
  ra_active :: bool

definition rtnc_reassembly_reset :: "rtnc_reassembly \<Rightarrow> rtnc_reassembly" where
  "rtnc_reassembly_reset reassembly =
     reassembly\<lparr>ra_length := 0, ra_remaining := 0, ra_started_ms := 0, ra_active := False\<rparr>"

definition rtnc_reassembly_init ::
    "rtnc_reassembly \<Rightarrow> bytes \<Rightarrow> nat \<Rightarrow> nat \<Rightarrow> u32 \<Rightarrow> rtnc_fragment_status \<times> rtnc_reassembly" where
  "rtnc_reassembly_init reassembly packet_buffer mtu radio_payload_class timeout_ms =
    (let data_capacity = (if valid_payload_class radio_payload_class
                          then radio_payload_class - RTNC_FRAGMENT_HEADER_SIZE else 0)
     in if timeout_ms = 0 then (RTNC_FRAGMENT_INVALID_ARGUMENT, reassembly)
        else if mtu < RTNC_LINK_MIN_MTU \<or> mtu > RTNC_LINK_MAX_MTU \<or> data_capacity = 0 \<or>
                mtu > RTNC_FRAGMENT_MAX_COUNT * data_capacity
        then (RTNC_FRAGMENT_INVALID_MTU, reassembly)
        else (RTNC_FRAGMENT_OK,
              rtnc_reassembly_reset
                (reassembly\<lparr>ra_packet := packet_buffer, ra_mtu := mtu,
                   ra_radio_payload_class := radio_payload_class, ra_timeout_ms := timeout_ms\<rparr>)))"

definition append_data ::
    "rtnc_reassembly \<Rightarrow> bytes \<Rightarrow> rtnc_fragment_status \<times> rtnc_reassembly" where
  "append_data reassembly data =
    (if ra_length reassembly + length data > ra_mtu reassembly
     then (RTNC_FRAGMENT_BUFFER_TOO_SMALL, rtnc_reassembly_reset reassembly)
     else (RTNC_FRAGMENT_OK,
           reassembly\<lparr>ra_packet := buf_write (ra_packet reassembly) (ra_length reassembly) data,
                      ra_length := ra_length reassembly + length data\<rparr>))"

definition rtnc_reassembly_push ::
    "rtnc_reassembly \<Rightarrow> bytes \<Rightarrow> u64 \<Rightarrow> rtnc_fragment_status \<times> nat \<times> rtnc_reassembly" where
  "rtnc_reassembly_push reassembly frame_payload now_ms =
    (let frame_length = length frame_payload;
         continuation = (frame_payload ! 0 AND CONTINUATION_FLAG \<noteq> 0);
         remaining = frame_payload ! 0 AND REMAINING_MASK
     in if frame_length \<le> RTNC_FRAGMENT_HEADER_SIZE \<or>
           frame_length > ra_radio_payload_class reassembly
        then (RTNC_FRAGMENT_INVALID_FRAME, 0, reassembly)
        else
          let expired = (ra_active reassembly \<and>
                         now_ms - ra_started_ms reassembly > ucast (ra_timeout_ms reassembly));
              r1 = (if expired then rtnc_reassembly_reset reassembly else reassembly)
          in if expired \<and> continuation then (RTNC_FRAGMENT_TIMEOUT, 0, r1)
             else if continuation \<and>
                     (\<not> ra_active r1 \<or> ra_remaining r1 = 0 \<or> remaining + 1 \<noteq> ra_remaining r1)
             then (RTNC_FRAGMENT_INVALID_SEQUENCE, 0, rtnc_reassembly_reset r1)
             else
               let r2 = (if \<not> continuation
                         then (rtnc_reassembly_reset r1)\<lparr>ra_active := True,
                                ra_remaining := remaining, ra_started_ms := now_ms\<rparr>
                         else r1\<lparr>ra_remaining := remaining\<rparr>);
                   (status, r3) = append_data r2 (drop RTNC_FRAGMENT_HEADER_SIZE frame_payload)
               in if status \<noteq> RTNC_FRAGMENT_OK then (status, 0, r3)
                  else if ra_remaining r3 = 0
                  then (RTNC_FRAGMENT_OK, ra_length r3, r3\<lparr>ra_active := False\<rparr>)
                  else (RTNC_FRAGMENT_INCOMPLETE, 0, r3))"

text \<open>A receive session: the frames of a list pushed in order, each with its arrival time.\<close>

primrec push_all ::
    "rtnc_reassembly \<Rightarrow> (bytes \<times> u64) list \<Rightarrow> (rtnc_fragment_status \<times> nat) list \<times> rtnc_reassembly"
where
  "push_all r [] = ([], r)"
| "push_all r (f # fs) =
    (let (status, n, r') = rtnc_reassembly_push r (fst f) (snd f);
         (rest, r'') = push_all r' fs
     in ((status, n) # rest, r''))"

subsection \<open>The header byte\<close>

lemma continuation_bit: "(b AND CONTINUATION_FLAG \<noteq> 0) \<longleftrightarrow> bit b 7"
  using and_exp_eq_0_iff_not_bit [of b 7] by (simp add: CONTINUATION_FLAG_def)

lemma unat_remaining: "unat (b AND REMAINING_MASK) = unat b mod 128"
proof -
  have m: "REMAINING_MASK = mask 7" by (simp add: REMAINING_MASK_def mask_eq_exp_minus_1)
  show ?thesis unfolding m take_bit_eq_mask [symmetric] by (simp only: unsigned_take_bit_eq) (simp add: take_bit_eq_mod)
qed

lemma unat_remaining_lt: "unat (b AND REMAINING_MASK) < 128"
  by (simp add: unat_remaining)

lemma bit7_small: "k < 128 \<Longrightarrow> \<not> bit (of_nat k :: u8) 7"
proof -
  assume k: "k < 128"
  have "bit (of_nat k :: u8) 7 \<longleftrightarrow> bit k 7" by (simp add: bit_of_nat_iff possible_bit_word)
  also have "\<dots> \<longleftrightarrow> odd (k div 2 ^ 7)" by (simp only: bit_iff_odd)
  finally show ?thesis using k by simp
qed

lemma bit7_flag: "bit (b OR CONTINUATION_FLAG) 7"
  using and_exp_eq_0_iff_not_bit [of CONTINUATION_FLAG 7]
  by (simp add: bit_or_iff CONTINUATION_FLAG_def)

lemma remaining_small: "k < 128 \<Longrightarrow> (of_nat k :: u8) AND REMAINING_MASK = of_nat k"
  by (intro word_unat_eq_iff [THEN iffD2]) (simp add: unat_remaining)

lemma remaining_flag: "k < 128 \<Longrightarrow> ((of_nat k :: u8) OR CONTINUATION_FLAG) AND REMAINING_MASK = of_nat k"
proof -
  assume k: "k < 128"
  have "CONTINUATION_FLAG AND REMAINING_MASK = 0" by (simp add: CONTINUATION_FLAG_def REMAINING_MASK_def)
  then show ?thesis using remaining_small [OF k] by (simp add: bit.conj_disj_distrib2)
qed

lemma unat_u8_plus_1: "unat (w :: u8) < 255 \<Longrightarrow> unat (w + 1) = Suc (unat w)"
  by (simp add: unat_word_ariths)

subsection \<open>The state invariant\<close>

definition reassembly_wf :: "rtnc_reassembly \<Rightarrow> bool" where
  "reassembly_wf r \<longleftrightarrow> ra_mtu r \<le> length (ra_packet r) \<and> ra_length r \<le> ra_mtu r \<and>
     valid_payload_class (ra_radio_payload_class r) \<and> unat (ra_remaining r) < 128 \<and>
     (ra_active r \<longrightarrow> ra_remaining r \<noteq> 0)"

lemma reassembly_wf_reset [simp]: "reassembly_wf r \<Longrightarrow> reassembly_wf (rtnc_reassembly_reset r)"
  by (simp add: reassembly_wf_def rtnc_reassembly_reset_def)

lemma reassembly_wf_init:
  "rtnc_reassembly_init r buf mtu c t = (RTNC_FRAGMENT_OK, r') \<Longrightarrow> mtu \<le> length buf \<Longrightarrow>
   reassembly_wf r' \<and> \<not> ra_active r' \<and> ra_mtu r' = mtu \<and> ra_radio_payload_class r' = c \<and>
   ra_timeout_ms r' = t \<and> mtu \<le> 128 * (c - 1)"
  by (auto simp: rtnc_reassembly_init_def rtnc_reassembly_reset_def reassembly_wf_def Let_def
      split: if_splits)

subsection \<open>What one push does\<close>

definition frame_ok :: "rtnc_reassembly \<Rightarrow> bytes \<Rightarrow> bool" where
  "frame_ok r f \<longleftrightarrow> 1 < length f \<and> length f \<le> ra_radio_payload_class r"

definition not_expired :: "rtnc_reassembly \<Rightarrow> u64 \<Rightarrow> bool" where
  "not_expired r t \<longleftrightarrow> t - ra_started_ms r \<le> ucast (ra_timeout_ms r)"

definition accept_status :: "u8 \<Rightarrow> rtnc_fragment_status" where
  "accept_status rest = (if rest = 0 then RTNC_FRAGMENT_OK else RTNC_FRAGMENT_INCOMPLETE)"

definition accept_start :: "rtnc_reassembly \<Rightarrow> bytes \<Rightarrow> u64 \<Rightarrow> rtnc_reassembly" where
  "accept_start r f t = (let rest = f ! 0 AND REMAINING_MASK in
     r\<lparr>ra_packet := buf_write (ra_packet r) 0 (tl f), ra_length := length f - 1,
       ra_remaining := rest, ra_started_ms := t, ra_active := (rest \<noteq> 0)\<rparr>)"

definition accept_next :: "rtnc_reassembly \<Rightarrow> bytes \<Rightarrow> rtnc_reassembly" where
  "accept_next r f = (let rest = f ! 0 AND REMAINING_MASK in
     r\<lparr>ra_packet := buf_write (ra_packet r) (ra_length r) (tl f),
       ra_length := ra_length r + (length f - 1), ra_remaining := rest, ra_active := (rest \<noteq> 0)\<rparr>)"

lemmas accept_defs = accept_start_def accept_next_def accept_status_def Let_def

lemma push_start:
  assumes "frame_ok r f" and "\<not> bit (f ! 0) 7" and "length f - 1 \<le> ra_mtu r"
  shows "rtnc_reassembly_push r f t =
    (let rest = f ! 0 AND REMAINING_MASK
     in (accept_status rest, if rest = 0 then length f - 1 else 0, accept_start r f t))"
  using assms
  by (simp add: rtnc_reassembly_push_def frame_ok_def accept_defs continuation_bit append_data_def
      rtnc_reassembly_reset_def drop_Suc)

lemma push_next:
  assumes "frame_ok r f" and "bit (f ! 0) 7" and "ra_active r" and "not_expired r t"
    and "(f ! 0 AND REMAINING_MASK) + 1 = ra_remaining r"
    and "ra_remaining r \<noteq> 0" and "ra_length r + (length f - 1) \<le> ra_mtu r"
  shows "rtnc_reassembly_push r f t =
    (let rest = f ! 0 AND REMAINING_MASK
     in (accept_status rest, if rest = 0 then ra_length r + (length f - 1) else 0,
         accept_next r f))"
  using assms
  by (simp add: rtnc_reassembly_push_def frame_ok_def not_expired_def accept_defs continuation_bit
      append_data_def rtnc_reassembly_reset_def drop_Suc not_less)

text \<open>A push that does not accept the frame leaves no partial packet behind, or nothing changed.\<close>

lemma push_cases:
  assumes "rtnc_reassembly_push r f t = (st, n, r')"
  obtains
    (start) "frame_ok r f" "\<not> bit (f ! 0) 7" "length f - 1 \<le> ra_mtu r"
  | (next_fragment) "frame_ok r f" "bit (f ! 0) 7" "ra_active r" "not_expired r t"
      "(f ! 0 AND REMAINING_MASK) + 1 = ra_remaining r" "ra_remaining r \<noteq> 0"
      "ra_length r + (length f - 1) \<le> ra_mtu r"
  | (bad_frame) "\<not> frame_ok r f" "st = RTNC_FRAGMENT_INVALID_FRAME" "n = 0" "r' = r"
  | (rejected) "st \<in> {RTNC_FRAGMENT_TIMEOUT, RTNC_FRAGMENT_INVALID_SEQUENCE, RTNC_FRAGMENT_BUFFER_TOO_SMALL}"
      "n = 0" "r' = rtnc_reassembly_reset r"
proof (cases "frame_ok r f")
  case False
  then have "st = RTNC_FRAGMENT_INVALID_FRAME" "n = 0" "r' = r"
    using assms by (auto simp: rtnc_reassembly_push_def frame_ok_def split: if_splits)
  with False that(3) show ?thesis by blast
next
  case True
  then have sz: "\<not> (length f \<le> RTNC_FRAGMENT_HEADER_SIZE \<or> length f > ra_radio_payload_class r)"
    by (auto simp: frame_ok_def)
  show ?thesis
  proof (cases "bit (f ! 0) 7")
    case start: False
    with assms sz True that(1) that(4) show ?thesis
      by (simp add: rtnc_reassembly_push_def Let_def continuation_bit append_data_def
          rtnc_reassembly_reset_def not_less split: if_splits)
  next
    case cont: True
    with assms sz True that(2) that(4) show ?thesis
      by (simp add: rtnc_reassembly_push_def Let_def continuation_bit append_data_def
          rtnc_reassembly_reset_def not_expired_def not_less split: if_splits)
  qed
qed

lemma reassembly_wf_accept_start:
  "reassembly_wf r \<Longrightarrow> frame_ok r f \<Longrightarrow> length f - 1 \<le> ra_mtu r \<Longrightarrow> reassembly_wf (accept_start r f t)"
  by (auto simp: reassembly_wf_def accept_defs length_buf_write unat_remaining_lt)

lemma reassembly_wf_accept_next:
  "reassembly_wf r \<Longrightarrow> ra_length r + (length f - 1) \<le> ra_mtu r \<Longrightarrow> reassembly_wf (accept_next r f)"
  by (auto simp: reassembly_wf_def accept_defs length_buf_write unat_remaining_lt)

lemma push_wf:
  assumes "reassembly_wf r" and push: "rtnc_reassembly_push r f t = (st, n, r')"
  shows "reassembly_wf r'" and "n \<le> ra_mtu r'"
  using push
  by (cases rule: push_cases;
      use assms push in \<open>auto simp: push_start push_next Let_def reassembly_wf_accept_start
        reassembly_wf_accept_next\<close>;
      simp add: accept_defs reassembly_wf_def)+

subsection \<open>Accepted runs\<close>

text \<open>
  A chain is a run of frames as one packet's fragments follow each other on the air: the first
  without the continuation flag, the others with it, the counters falling by one down to \<open>k\<close>.
\<close>

definition chain :: "bytes list \<Rightarrow> nat \<Rightarrow> bool" where
  "chain fs k \<longleftrightarrow> fs \<noteq> [] \<and>
     (\<forall>j < length fs. (bit (fs ! j ! 0) 7 \<longleftrightarrow> j \<noteq> 0) \<and>
        unat (fs ! j ! 0) mod 128 + Suc j = k + length fs)"

definition chain_data :: "bytes list \<Rightarrow> bytes" where
  "chain_data fs = concat (map tl fs)"

lemma chain_single: "chain [f] (unat (f ! 0) mod 128) \<longleftrightarrow> \<not> bit (f ! 0) 7"
  by (simp add: chain_def)

lemma chain_snoc:
  "chain fs (Suc k) \<Longrightarrow> bit (f ! 0) 7 \<Longrightarrow> unat (f ! 0) mod 128 = k \<Longrightarrow> chain (fs @ [f]) k"
  by (auto simp: chain_def nth_append less_Suc_eq)

text \<open>
  The history a state remembers: while a packet is open, some final run of the pushed frames is a
  chain down to the stored counter, all within the timeout of its first frame, and its data is
  exactly the stored prefix.
\<close>

definition open_run :: "(bytes \<times> u64) list \<Rightarrow> rtnc_reassembly \<Rightarrow> nat \<Rightarrow> bool" where
  "open_run h r len \<longleftrightarrow> (\<exists>fs. suffix fs h \<and> chain (map fst fs) (unat (ra_remaining r)) \<and>
     take len (ra_packet r) = chain_data (map fst fs) \<and> len = length (chain_data (map fst fs)) \<and>
     ra_started_ms r = snd (hd fs) \<and>
     (\<forall>x \<in> set fs. snd x - snd (hd fs) \<le> ucast (ra_timeout_ms r)))"

definition well_sized :: "nat \<Rightarrow> (bytes \<times> u64) list \<Rightarrow> (bytes \<times> u64) list" where
  \<comment> \<open>frames of a size a push does not ignore\<close>
  "well_sized c = filter (\<lambda>x. 1 < length (fst x) \<and> length (fst x) \<le> c)"

definition remembers :: "(bytes \<times> u64) list \<Rightarrow> rtnc_reassembly \<Rightarrow> bool" where
  "remembers h r \<longleftrightarrow> reassembly_wf r \<and>
     (ra_active r \<longrightarrow> open_run (well_sized (ra_radio_payload_class r) h) r (ra_length r))"

lemma open_run_start:
  assumes "reassembly_wf r" "frame_ok r f" "\<not> bit (f ! 0) 7" "length f - 1 \<le> ra_mtu r"
  shows "open_run (h @ [(f, t)]) (accept_start r f t) (length f - 1)"
proof -
  have "chain [f] (unat (f ! 0 AND REMAINING_MASK))"
    using chain_single [of f] assms(3) by (simp add: unat_remaining)
  moreover have "take (length (tl f)) (buf_write (ra_packet r) 0 (tl f)) = tl f"
    using assms by (intro take_buf_write_0) (simp add: reassembly_wf_def)
  ultimately show ?thesis
    unfolding open_run_def
    by (intro exI [of _ "[(f, t)]"]) (simp add: suffix_def accept_defs chain_data_def)
qed

lemma open_run_next:
  assumes wf: "reassembly_wf r" and run: "open_run h r (ra_length r)"
    and f: "bit (f ! 0) 7" "not_expired r t" "(f ! 0 AND REMAINING_MASK) + 1 = ra_remaining r"
      "ra_length r + (length f - 1) \<le> ra_mtu r"
  shows "open_run (h @ [(f, t)]) (accept_next r f) (ra_length r + (length f - 1))"
proof -
  from run obtain fs where fs: "suffix fs h" "chain (map fst fs) (unat (ra_remaining r))"
    "take (ra_length r) (ra_packet r) = chain_data (map fst fs)"
    "ra_length r = length (chain_data (map fst fs))" "ra_started_ms r = snd (hd fs)"
    "\<forall>x \<in> set fs. snd x - snd (hd fs) \<le> ucast (ra_timeout_ms r)"
    unfolding open_run_def by blast
  have ne: "fs \<noteq> []" using fs(2) by (auto simp: chain_def)
  have "unat (ra_remaining r) = Suc (unat (f ! 0) mod 128)"
    using unat_u8_plus_1 [of "f ! 0 AND REMAINING_MASK"] unat_remaining_lt [of "f ! 0"]
    by (simp add: f(3) unat_remaining)
  then have "chain (map fst (fs @ [(f, t)])) (unat (f ! 0) mod 128)"
    using chain_snoc [of "map fst fs"] fs(2) f(1) by simp
  moreover have "take (ra_length r + length (tl f)) (buf_write (ra_packet r) (ra_length r) (tl f)) =
      take (ra_length r) (ra_packet r) @ tl f"
    using wf f(4) by (intro take_buf_write) (simp add: reassembly_wf_def)
  ultimately show ?thesis
    unfolding open_run_def using fs ne f(2)
    by (intro exI [of _ "fs @ [(f, t)]"])
      (simp add: accept_defs chain_data_def not_expired_def unat_remaining suffix_def)
qed

lemma push_config:
  assumes push: "rtnc_reassembly_push r f t = (st, n, r')"
  shows "ra_mtu r' = ra_mtu r" "ra_radio_payload_class r' = ra_radio_payload_class r"
    "ra_timeout_ms r' = ra_timeout_ms r"
  using push
  by (cases rule: push_cases;
      use push in \<open>auto simp: push_start push_next accept_defs rtnc_reassembly_reset_def\<close>)+

lemma remembers_push:
  assumes rem: "remembers h r" and push: "rtnc_reassembly_push r f t = (st, n, r')"
  shows "remembers (h @ [(f, t)]) r' \<and>
    (st = RTNC_FRAGMENT_OK \<longrightarrow> ra_remaining r' = 0 \<and>
       open_run (well_sized (ra_radio_payload_class r') (h @ [(f, t)])) r' n)"
  using push
proof (cases rule: push_cases)
  case start
  then have "well_sized (ra_radio_payload_class r) (h @ [(f, t)]) =
      well_sized (ra_radio_payload_class r) h @ [(f, t)]"
    by (simp add: well_sized_def frame_ok_def)
  with start show ?thesis
    using rem push open_run_start [of r f "well_sized (ra_radio_payload_class r) h" t]
      push_wf [OF _ push] push_config [OF push]
    by (auto simp: push_start Let_def remembers_def accept_defs split: if_splits)
next
  case next_fragment
  then have "well_sized (ra_radio_payload_class r) (h @ [(f, t)]) =
      well_sized (ra_radio_payload_class r) h @ [(f, t)]"
    by (simp add: well_sized_def frame_ok_def)
  with next_fragment show ?thesis
    using rem push open_run_next [of r "well_sized (ra_radio_payload_class r) h" f t]
      push_wf [OF _ push] push_config [OF push]
    by (auto simp: push_next Let_def remembers_def accept_defs split: if_splits)
next
  case bad_frame
  then show ?thesis using rem by (auto simp: remembers_def well_sized_def frame_ok_def)
next
  case rejected
  then show ?thesis using rem
    by (auto simp: remembers_def rtnc_reassembly_reset_def reassembly_wf_def)
qed

lemma push_all_snoc:
  "push_all r (h @ [f]) =
    (let (outs, r1) = push_all r h; (st, n, r2) = rtnc_reassembly_push r1 (fst f) (snd f)
     in (outs @ [(st, n)], r2))"
  by (induction h arbitrary: r) (auto simp: Let_def split: prod.splits)

lemma remembers_push_all:
  "remembers [] r \<Longrightarrow> push_all r h = (outs, r') \<Longrightarrow> remembers h r'"
proof (induction h arbitrary: outs r' rule: rev_induct)
  case (snoc f h)
  then show ?case using remembers_push [of h _ "fst f" "snd f"]
    by (auto simp: push_all_snoc Let_def split: prod.splits)
qed simp

lemma push_all_config:
  "push_all r h = (outs, r') \<Longrightarrow>
   ra_mtu r' = ra_mtu r \<and> ra_radio_payload_class r' = ra_radio_payload_class r \<and>
   ra_timeout_ms r' = ra_timeout_ms r"
proof (induction h arbitrary: r outs)
  case (Cons f h)
  then show ?case using push_config by (fastforce simp: Let_def split: prod.splits)
qed simp

subsection \<open>The fragments of a packet\<close>

definition fragment :: "bytes \<Rightarrow> nat \<Rightarrow> nat \<Rightarrow> bytes" where
  "fragment p c i = (case rtnc_fragment_build p c i c of Inr f \<Rightarrow> f | Inl _ \<Rightarrow> [])"

definition fragments :: "bytes \<Rightarrow> nat \<Rightarrow> bytes list" where
  "fragments p c = map (fragment p c) [0..<rtnc_fragment_count (length p) c]"

definition fragmentable :: "bytes \<Rightarrow> nat \<Rightarrow> bool" where
  "fragmentable p c \<longleftrightarrow> valid_payload_class c \<and> 0 < length p \<and> length p \<le> 128 * (c - 1)"

lemma fragment_count_eq:
  "fragmentable p c \<Longrightarrow> rtnc_fragment_count (length p) c = (length p + (c - 2)) div (c - 1)"
  by (auto simp: fragmentable_def rtnc_fragment_count_def valid_payload_class_def)

lemma fragment_count_bounds:
  assumes "fragmentable p c" and "n = rtnc_fragment_count (length p) c"
  shows "0 < n" "n \<le> 128" "(n - 1) * (c - 1) < length p" "length p \<le> n * (c - 1)"
proof -
  let ?d = "c - 1" and ?x = "length p + (c - 2)"
  from assms(1) have len: "0 < length p" "length p \<le> 128 * ?d" and c: "?d = Suc (c - 2)"
    by (auto simp: fragmentable_def valid_payload_class_def)
  have n: "n = ?x div ?d" using assms fragment_count_eq by simp
  have lo: "n * ?d \<le> ?x" unfolding n by (rule div_times_less_eq_dividend)
  have "?x = n * ?d + ?x mod ?d" unfolding n by (rule div_mult_mod_eq [symmetric])
  moreover have "?x mod ?d < ?d" using c by (intro mod_less_divisor) simp
  ultimately have hi: "?x < n * ?d + ?d" by linarith
  have "?d \<le> ?x" using len(1) unfolding c by linarith
  then show gt: "0 < n" using c unfolding n by (simp only: div_greater_zero_iff) simp
  have "n * ?d < 129 * ?d" using lo len(2) c by simp
  then show "n \<le> 128" by simp
  show "(n - 1) * ?d < length p" using gt lo len(1) c by (cases n) auto
  show "length p \<le> n * ?d" using hi c by simp
qed

lemma fragment_build_eq:
  assumes ok: "fragmentable p c" and n: "n = rtnc_fragment_count (length p) c" and i: "i < n"
    and cap: "c \<le> cap"
  shows "rtnc_fragment_build p c i cap =
    Inr ((if i \<noteq> 0 then (of_nat (n - i - 1) :: u8) OR CONTINUATION_FLAG else of_nat (n - i - 1)) #
         take (c - 1) (drop (i * (c - 1)) p))"
proof -
  note b = fragment_count_bounds [OF ok n]
  let ?off = "i * (c - 1)"
  let ?len = "if length p - ?off > c - 1 then c - 1 else length p - ?off"
  have "take ?len (drop ?off p) = take (c - 1) (drop ?off p)" by simp
  moreover have "\<not> cap < ?len + 1" using cap ok
    by (auto simp: fragmentable_def valid_payload_class_def)
  moreover have "\<not> (n = 0 \<or> n > 128 \<or> i \<ge> n)" using b i by simp
  ultimately show ?thesis
    by (simp only: rtnc_fragment_build_def Let_def n [symmetric] RTNC_FRAGMENT_HEADER_SIZE_def
      RTNC_FRAGMENT_MAX_COUNT_def if_False cong: if_cong)
qed

lemma fragment_header:
  assumes "fragmentable p c" and "n = rtnc_fragment_count (length p) c" and "i < n"
  shows "bit (fragment p c i ! 0) 7 \<longleftrightarrow> i \<noteq> 0"
    and "fragment p c i ! 0 AND REMAINING_MASK = of_nat (n - i - 1)"
    and "tl (fragment p c i) = take (c - 1) (drop (i * (c - 1)) p)"
    and "1 < length (fragment p c i)" and "length (fragment p c i) \<le> c"
proof -
  note b = fragment_count_bounds [OF assms(1,2)]
  have k: "n - i - 1 < 128" using b assms(3) by simp
  have lt: "i * (c - 1) < length p"
    using assms(3) by (intro le_less_trans [OF mult_le_mono1 b(3)]) simp
  have c: "2 \<le> c" using assms(1) by (auto simp: fragmentable_def valid_payload_class_def)
  note e = fragment_build_eq [OF assms(1,2,3) order.refl]
  have f: "fragment p c i ! 0 =
      (if i \<noteq> 0 then (of_nat (n - i - 1) :: u8) OR CONTINUATION_FLAG else of_nat (n - i - 1))"
    by (simp add: fragment_def e)
  show "bit (fragment p c i ! 0) 7 \<longleftrightarrow> i \<noteq> 0"
    unfolding f using bit7_small [OF k] bit7_flag by (simp only: split: if_split) simp
  show "fragment p c i ! 0 AND REMAINING_MASK = of_nat (n - i - 1)"
    unfolding f using remaining_small [OF k] remaining_flag [OF k] by (simp only: split: if_split) simp
  show "tl (fragment p c i) = take (c - 1) (drop (i * (c - 1)) p)" by (simp add: fragment_def e)
  show "1 < length (fragment p c i)" and "length (fragment p c i) \<le> c"
    using lt c by (simp_all add: fragment_def e)
qed

text \<open>A state in the middle of receiving \<open>p\<close>: the first \<open>i\<close> fragments are in.\<close>

definition received :: "bytes \<Rightarrow> nat \<Rightarrow> nat \<Rightarrow> u64 \<Rightarrow> rtnc_reassembly \<Rightarrow> bool" where
  "received p c i t0 r \<longleftrightarrow> (let n = rtnc_fragment_count (length p) c in
     reassembly_wf r \<and> ra_radio_payload_class r = c \<and> length p \<le> ra_mtu r \<and>
     ra_started_ms r = t0 \<and> ra_remaining r = of_nat (n - i) \<and> (ra_active r \<longleftrightarrow> i < n) \<and>
     ra_length r = length (take (i * (c - 1)) p) \<and> take (ra_length r) (ra_packet r) = take (i * (c - 1)) p)"

lemma chunk_snoc: "take (i * d) p @ take d (drop (i * d) p) = take (Suc i * d) p"
  unfolding take_drop_split by (simp add: add.commute)

lemma of_nat_u8_eq_0: "k < 256 \<Longrightarrow> (of_nat k :: u8) = 0 \<longleftrightarrow> k = 0"
  by (simp add: word_unat_eq_iff)

lemma push_fragment:
  assumes ok: "fragmentable p c" and n: "n = rtnc_fragment_count (length p) c" and i: "i < n"
    and r: "i \<noteq> 0 \<Longrightarrow> received p c i t0 r" and r0: "i = 0 \<Longrightarrow> t0 = t"
    and wf: "reassembly_wf r" "ra_radio_payload_class r = c" "length p \<le> ra_mtu r"
    and t: "t - t0 \<le> ucast (ra_timeout_ms r)"
  shows "\<exists>r'. rtnc_reassembly_push r (fragment p c i) t =
      (if Suc i = n then (RTNC_FRAGMENT_OK, length p, r') else (RTNC_FRAGMENT_INCOMPLETE, 0, r')) \<and>
    received p c (Suc i) t0 r'"
proof -
  note hd = fragment_header [OF ok n i] and b = fragment_count_bounds [OF ok n]
  let ?f = "fragment p c i" and ?d = "c - 1"
  have z: "(of_nat (n - i - 1) :: u8) = 0 \<longleftrightarrow> Suc i = n"
    using of_nat_u8_eq_0 [of "n - i - 1"] b i by auto
  have fo: "frame_ok r ?f" using hd wf by (simp add: frame_ok_def)
  have tl: "length ?f - 1 = length (tl ?f)" by simp
  have sum: "length (take (i * ?d) p) + length (tl ?f) = length (take (Suc i * ?d) p)"
    unfolding hd(3) chunk_snoc [symmetric] length_append ..
  have tlp: "length (take (i * ?d) p) + length (tl ?f) \<le> length p" unfolding sum by simp
  have last: "length (take (Suc i * ?d) p) = length p" if "Suc i = n" using that b(4) by simp
  have st: "accept_status (?f ! 0 AND REMAINING_MASK) =
      (if Suc i = n then RTNC_FRAGMENT_OK else RTNC_FRAGMENT_INCOMPLETE)"
    unfolding hd(2) accept_status_def z by simp
  have z': "?f ! 0 AND REMAINING_MASK = 0 \<longleftrightarrow> Suc i = n" unfolding hd(2) by (rule z)
  have left: "(of_nat (n - i - 1) :: u8) = of_nat (n - Suc i)" by simp
  show ?thesis
  proof (cases "i = 0")
    case True
    let ?r = "accept_start r ?f t"
    have len: "length ?f - 1 = length (take (Suc i * ?d) p)" using sum True tl by simp
    have fit: "length ?f - 1 \<le> ra_mtu r" using tlp tl wf by simp
    have "take (length (tl ?f)) (buf_write (ra_packet r) 0 (tl ?f)) = tl ?f"
      using wf tlp by (intro take_buf_write_0) (simp add: reassembly_wf_def)
    then have buf: "take (ra_length ?r) (ra_packet ?r) = take (Suc i * ?d) p"
      using hd(3) True by (simp add: accept_defs)
    have "ra_active ?r \<longleftrightarrow> Suc i < n" and "ra_remaining ?r = of_nat (n - Suc i)"
      using z hd(2) left i unfolding accept_start_def Let_def by (simp_all del: of_nat_diff) auto
    moreover have "ra_length ?r = length (take (Suc i * ?d) p)"
      using len by (simp add: accept_start_def Let_def)
    ultimately have "received p c (Suc i) t0 ?r"
      using reassembly_wf_accept_start [OF wf(1) fo fit, of t] wf r0 [OF True] buf
      unfolding received_def Let_def n [symmetric] by (simp add: accept_start_def Let_def)
    moreover have nn: "(if ?f ! 0 AND REMAINING_MASK = 0 then length ?f - 1 else 0) =
        (if Suc i = n then length p else 0)"
      unfolding z' len using last by simp
    have "\<not> bit (?f ! 0) 7" using hd(1) True by simp
    then have "rtnc_reassembly_push r ?f t =
        (if Suc i = n then RTNC_FRAGMENT_OK else RTNC_FRAGMENT_INCOMPLETE,
         if Suc i = n then length p else 0, ?r)"
      using push_start [OF fo _ fit, of t] unfolding Let_def nn st by blast
    ultimately show ?thesis by (cases "Suc i = n") auto
  next
    case False
    let ?r = "accept_next r ?f"
    note rc = r [OF False, unfolded received_def Let_def, folded n]
    have "take (ra_length r + length (tl ?f)) (buf_write (ra_packet r) (ra_length r) (tl ?f)) =
        take (ra_length r) (ra_packet r) @ tl ?f"
      using wf tlp rc by (intro take_buf_write) (simp add: reassembly_wf_def)
    also have "take (ra_length r) (ra_packet r) = take (i * ?d) p" using rc by blast
    also have "take (i * ?d) p @ tl ?f = take (i * ?d) p @ take ?d (drop (i * ?d) p)"
      unfolding hd(3) ..
    also note chunk_snoc
    finally have buf: "take (ra_length ?r) (ra_packet ?r) = take (Suc i * ?d) p"
      by (simp add: accept_next_def Let_def)
    have "n - i = Suc (n - i - 1)" using i by simp
    then have rem: "(?f ! 0 AND REMAINING_MASK) + 1 = ra_remaining r" "ra_remaining r \<noteq> 0"
      using rc hd(2) of_nat_u8_eq_0 [of "n - i"] b(2) i by (simp_all add: add.commute)
    have fit: "ra_length r + (length ?f - 1) \<le> ra_mtu r" using rc tlp wf tl by simp
    have len: "ra_length r + (length ?f - 1) = length (take (Suc i * ?d) p)"
      using rc sum tl by simp
    have "ra_active ?r \<longleftrightarrow> Suc i < n" and "ra_remaining ?r = of_nat (n - Suc i)"
      using z hd(2) left i unfolding accept_next_def Let_def by (simp_all del: of_nat_diff) auto
    moreover have "ra_length ?r = length (take (Suc i * ?d) p)"
      using len by (simp add: accept_next_def Let_def)
    ultimately have "received p c (Suc i) t0 ?r"
      using reassembly_wf_accept_next [OF wf(1) fit] wf rc buf
      unfolding received_def Let_def n [symmetric] by (simp add: accept_next_def Let_def)
    moreover have "not_expired r t" using t rc by (simp add: not_expired_def)
    moreover have nn: "(if ?f ! 0 AND REMAINING_MASK = 0 then ra_length r + (length ?f - 1) else 0) =
        (if Suc i = n then length p else 0)"
      unfolding z' len using last by simp
    moreover have "bit (?f ! 0) 7" "ra_active r" using hd(1) False rc i by auto
    ultimately have "rtnc_reassembly_push r ?f t =
        (if Suc i = n then RTNC_FRAGMENT_OK else RTNC_FRAGMENT_INCOMPLETE,
         if Suc i = n then length p else 0, ?r)"
      using push_next [OF fo _ _ _ rem fit, of t] unfolding Let_def nn st by blast
    then show ?thesis using \<open>received p c (Suc i) t0 ?r\<close> by (cases "Suc i = n") auto
  qed
qed

lemma push_fragments_from:
  assumes ok: "fragmentable p c" and n: "n = rtnc_fragment_count (length p) c"
  shows "received p c i t0 r \<Longrightarrow> 0 < i \<Longrightarrow> i < n \<Longrightarrow> length ts = n - i \<Longrightarrow>
    (\<And>t. t \<in> set ts \<Longrightarrow> t - t0 \<le> ucast (ra_timeout_ms r)) \<Longrightarrow>
    \<exists>r'. push_all r (zip (map (fragment p c) [i..<n]) ts) =
      (replicate (n - i - 1) (RTNC_FRAGMENT_INCOMPLETE, 0) @ [(RTNC_FRAGMENT_OK, length p)], r') \<and>
      received p c n t0 r'"
proof (induction "n - i - 1" arbitrary: i r ts)
  case 0
  then have i: "Suc i = n" by simp
  then obtain t where ts: "ts = [t]" using 0 by (cases ts) auto
  from 0 have "received p c i t0 r" by simp
  then have wf: "reassembly_wf r" "ra_radio_payload_class r = c" "length p \<le> ra_mtu r"
    by (simp_all add: received_def Let_def)
  obtain r' where "rtnc_reassembly_push r (fragment p c i) t = (RTNC_FRAGMENT_OK, length p, r')"
    "received p c (Suc i) t0 r'"
    using push_fragment [OF ok n, of i t0 r t] 0 wf i ts by auto
  then show ?case using i ts by (auto simp: upt_rec)
next
  case (Suc k)
  then obtain t ts' where ts: "ts = t # ts'" by (cases ts) auto
  have i: "Suc i < n" using Suc by simp
  have "received p c i t0 r" using Suc by simp
  then have wf: "reassembly_wf r" "ra_radio_payload_class r = c" "length p \<le> ra_mtu r"
    by (simp_all add: received_def Let_def)
  obtain r1 where p1: "rtnc_reassembly_push r (fragment p c i) t = (RTNC_FRAGMENT_INCOMPLETE, 0, r1)"
    and r1: "received p c (Suc i) t0 r1"
    using push_fragment [OF ok n, of i t0 r t] Suc.prems wf i ts by auto
  have "\<exists>r'. push_all r1 (zip (map (fragment p c) [Suc i..<n]) ts') =
      (replicate (n - Suc i - 1) (RTNC_FRAGMENT_INCOMPLETE, 0) @ [(RTNC_FRAGMENT_OK, length p)], r') \<and>
      received p c n t0 r'"
    using Suc.prems Suc.hyps(2) i ts r1 push_config(3) [OF p1] by (intro Suc.hyps(1)) auto
  then obtain r' where "push_all r1 (zip (map (fragment p c) [Suc i..<n]) ts') =
      (replicate (n - Suc i - 1) (RTNC_FRAGMENT_INCOMPLETE, 0) @ [(RTNC_FRAGMENT_OK, length p)], r')"
    "received p c n t0 r'" by blast
  moreover have "[i..<n] = i # [Suc i..<n]" using i by (simp add: upt_rec)
  moreover have "n - i - 1 = Suc (n - Suc i - 1)" using i by simp
  ultimately show ?case using p1 ts by simp
qed

lemma fragments_rebuild:
  assumes wf: "reassembly_wf r1" "ra_radio_payload_class r1 = c"
    and ok: "fragmentable p c" and p: "length p \<le> ra_mtu r1"
    and ts: "length (t0 # ts) = rtnc_fragment_count (length p) c"
    and timely: "\<And>t. t \<in> set ts \<Longrightarrow> t - t0 \<le> ucast (ra_timeout_ms r1)"
  shows "\<exists>r2. push_all r1 (zip (fragments p c) (t0 # ts)) =
      (replicate (length ts) (RTNC_FRAGMENT_INCOMPLETE, 0) @ [(RTNC_FRAGMENT_OK, length p)], r2) \<and>
    take (length p) (ra_packet r2) = p"
proof -
  define n where "n = rtnc_fragment_count (length p) c"
  note b = fragment_count_bounds [OF ok n_def]
  obtain r2 where r2: "rtnc_reassembly_push r1 (fragment p c 0) t0 =
      (if Suc 0 = n then (RTNC_FRAGMENT_OK, length p, r2) else (RTNC_FRAGMENT_INCOMPLETE, 0, r2))"
    and rec: "received p c (Suc 0) t0 r2"
    using push_fragment [OF ok n_def b(1), of t0 r1 t0] wf p by auto
  have up: "fragments p c = fragment p c 0 # map (fragment p c) [Suc 0..<n]"
    using b(1) by (simp add: fragments_def n_def [symmetric] upt_rec)
  have all: "take (length p) (ra_packet s) = p" if "received p c n t0 s" for s
    using that b(4) by (auto simp: received_def Let_def n_def [symmetric])
  show ?thesis
  proof (cases "Suc 0 = n")
    case True
    with r2 up ts rec all [of r2] show ?thesis by (auto simp: n_def [symmetric])
  next
    case False
    have "length ts = n - Suc 0" using ts by (simp add: n_def)
    moreover have "t - t0 \<le> ucast (ra_timeout_ms r2)" if "t \<in> set ts" for t
      using timely [OF that] push_config(3) [of r1 "fragment p c 0" t0] r2 False by simp
    moreover have "replicate (n - Suc 0) x = x # replicate (n - Suc 0 - 1) x"
      for x :: "rtnc_fragment_status \<times> nat"
      using False b(1) by (cases "n - Suc 0") auto
    ultimately show ?thesis
      using push_fragments_from [OF ok n_def rec, of ts] False b(1) r2 up all
      by (auto simp: Suc_lessI)
  qed
qed

section \<open>Properties\<close>

text \<open>
  C2: the fragments of a packet, pushed in order within the timeout, rebuild exactly that packet:
  every push but the last reports \<open>RTNC_FRAGMENT_INCOMPLETE\<close>, the last one reports its length, and
  the buffer holds its bytes.  This holds from every state an initialised receiver can reach,
  whatever it was fed before.
\<close>

theorem fragmentation_roundtrip:
  assumes init: "rtnc_reassembly_init r0 buf mtu c tmo = (RTNC_FRAGMENT_OK, r)"
    and buf: "mtu \<le> length buf" and before: "push_all r h = (outs, r1)"
    and p: "0 < length p" "length p \<le> mtu"
    and ts: "length (t0 # ts) = rtnc_fragment_count (length p) c"
    and timely: "\<And>t. t \<in> set ts \<Longrightarrow> t - t0 \<le> ucast tmo"
  shows "\<exists>r2. push_all r1 (zip (fragments p c) (t0 # ts)) =
      (replicate (length ts) (RTNC_FRAGMENT_INCOMPLETE, 0) @ [(RTNC_FRAGMENT_OK, length p)], r2) \<and>
    take (length p) (ra_packet r2) = p"
proof -
  note i = reassembly_wf_init [OF init buf]
  have "remembers h r1" using i by (intro remembers_push_all [OF _ before]) (simp add: remembers_def)
  then have "reassembly_wf r1" by (simp add: remembers_def)
  moreover have conf: "ra_mtu r1 = mtu" "ra_radio_payload_class r1 = c" "ra_timeout_ms r1 = tmo"
    using push_all_config [OF before] i by auto
  moreover have "fragmentable p c" using p i \<open>reassembly_wf r1\<close> conf by (auto simp: fragmentable_def reassembly_wf_def)
  ultimately show ?thesis using fragments_rebuild [of r1 c p t0 ts] p ts timely by simp
qed

text \<open>A receiver for concrete runs: a 500-byte MTU on 64-byte radio payloads, a 1000 ms timeout.\<close>

definition example_receiver :: rtnc_reassembly where
  "example_receiver = \<lparr>ra_packet = replicate 500 0, ra_mtu = 500, ra_radio_payload_class = 64,
     ra_length = 0, ra_remaining = 0, ra_started_ms = 0, ra_timeout_ms = 1000, ra_active = False\<rparr>"

lemma example_receiver_init:
  "rtnc_reassembly_init example_receiver (replicate 500 0) 500 64 1000 =
   (RTNC_FRAGMENT_OK, example_receiver)"
  by (simp add: rtnc_reassembly_init_def rtnc_reassembly_reset_def example_receiver_def
      valid_payload_class_def)

theorem fragmentation_roundtrip_witness:
  "\<exists>r2. push_all example_receiver (zip (fragments (replicate 70 7) 64) [5, 9]) =
      ([(RTNC_FRAGMENT_INCOMPLETE, 0), (RTNC_FRAGMENT_OK, 70)], r2) \<and>
    take 70 (ra_packet r2) = replicate 70 7"
proof -
  have "\<exists>r2. push_all example_receiver (zip (fragments (replicate 70 7) 64) [5, 9]) =
      (replicate (length [9 :: u64]) (RTNC_FRAGMENT_INCOMPLETE, 0) @
       [(RTNC_FRAGMENT_OK, length (replicate 70 (7 :: u8)))], r2) \<and>
    take (length (replicate 70 (7 :: u8))) (ra_packet r2) = replicate 70 7"
    by (rule fragmentation_roundtrip [OF example_receiver_init, where h = "[]"])
      (simp_all add: rtnc_fragment_count_def valid_payload_class_def)
  then show ?thesis by simp
qed

text \<open>
  C3: no packet is invented.  Whatever frames arrive after initialisation, in whatever order and
  with whatever losses, a push that reports a complete packet of \<open>n\<close> bytes leaves in the buffer the
  concatenated data of frames that arrived one directly after the other (frames of an impossible
  size are ignored), the first a start frame, the others continuations, their counters falling by
  exactly one to zero, and all within the timeout counted from the first; and \<open>n\<close> fits the MTU.
\<close>

theorem reassembly_delivers_one_chain:
  assumes init: "rtnc_reassembly_init r0 buf mtu c tmo = (RTNC_FRAGMENT_OK, r)"
    and buf: "mtu \<le> length buf"
    and run: "push_all r (h @ [f]) = (outs @ [(RTNC_FRAGMENT_OK, n)], r')"
  shows "\<exists>fs. suffix fs (well_sized c (h @ [f])) \<and> chain (map fst fs) 0 \<and>
    take n (ra_packet r') = chain_data (map fst fs) \<and> n \<le> mtu \<and> n \<le> length (ra_packet r') \<and>
    (\<forall>x \<in> set fs. snd x - snd (hd fs) \<le> ucast tmo)"
proof -
  from run obtain outs1 r1 where h: "push_all r h = (outs1, r1)"
    and p: "rtnc_reassembly_push r1 (fst f) (snd f) = (RTNC_FRAGMENT_OK, n, r')"
    by (auto simp: push_all_snoc Let_def split: prod.splits)
  have "remembers [] r" using reassembly_wf_init [OF init buf] by (simp add: remembers_def)
  from remembers_push_all [OF this h] have rem: "remembers h r1" .
  have conf: "ra_mtu r' = mtu \<and> ra_radio_payload_class r' = c \<and> ra_timeout_ms r' = tmo"
    using push_config [OF p] push_all_config [OF h] reassembly_wf_init [OF init buf] by simp
  have "n \<le> mtu" "mtu \<le> length (ra_packet r')"
    using push_wf [OF _ p] rem conf by (auto simp: remembers_def reassembly_wf_def)
  then show ?thesis
    using remembers_push [OF rem p] conf by (auto simp: open_run_def)
qed

theorem reassembly_delivers_one_chain_witness:
  "\<exists>fs. suffix fs (well_sized 64 [([0, 8, 9], 5)]) \<and> chain (map fst fs) 0 \<and>
    take 2 (ra_packet (snd (push_all example_receiver [([0, 8, 9], 5)]))) = chain_data (map fst fs)"
proof -
  let ?r' = "snd (push_all example_receiver [([0, 8, 9], 5)])"
  have "push_all example_receiver ([] @ [([0, 8, 9], 5)]) = ([] @ [(RTNC_FRAGMENT_OK, 2)], ?r')"
    by (simp add: push_start frame_ok_def example_receiver_def accept_defs)
  from reassembly_delivers_one_chain [OF example_receiver_init _ this] show ?thesis by auto
qed

text \<open>
  the timeout is measured from the start frame.  Any later fragment that arrives more than
  \<open>timeout_ms\<close> after it is refused with the timeout status and the packet is dropped, however short
  the gaps between fragments were.
\<close>

lemma reassembly_timeout_from_start:
  assumes "ra_active r" and "frame_ok r f" and "bit (f ! 0) 7"
    and "t - ra_started_ms r > ucast (ra_timeout_ms r)"
  shows "rtnc_reassembly_push r f t = (RTNC_FRAGMENT_TIMEOUT, 0, rtnc_reassembly_reset r)"
  using assms by (simp add: rtnc_reassembly_push_def frame_ok_def continuation_bit)

text \<open>
  The header carries no packet identity.  When the tail of one packet and the head of the next are
  both lost, the counters can line up, and a packet nobody sent is delivered: here the first
  fragment of a three-fragment packet and the last two of another.
\<close>

lemma reassembly_can_splice_packets:
  "fst (push_all example_receiver [([2, 0xaa], 5), ([0x81, 0xbb], 900), ([0x80, 0xcc], 950)]) =
   [(RTNC_FRAGMENT_INCOMPLETE, 0), (RTNC_FRAGMENT_INCOMPLETE, 0), (RTNC_FRAGMENT_OK, 3)]"
  by (simp add: example_receiver_def rtnc_reassembly_push_def CONTINUATION_FLAG_def REMAINING_MASK_def
      rtnc_reassembly_reset_def append_data_def)

end
