(* ===== verification/Kiss.thy ===== *)
theory Kiss
  imports Fragmentation
begin

text \<open>
  The KISS byte stream of \<^verbatim>\<open>src/platform/kiss.c\<close>: the streaming parser (\<open>rtnc_kiss_parser_push_frame\<close>,
  \<open>rtnc_kiss_parser_push\<close>) and the encoder (\<open>rtnc_kiss_encode\<close>).  The parser's frame array keeps its
  stale contents; only its first \<open>kp_length\<close> bytes mean anything, and the lemmas speak of them.
\<close>

definition RTNC_KISS_FEND :: u8 where [simp]: "RTNC_KISS_FEND = 0xc0"
definition RTNC_KISS_FESC :: u8 where [simp]: "RTNC_KISS_FESC = 0xdb"
definition RTNC_KISS_TFEND :: u8 where [simp]: "RTNC_KISS_TFEND = 0xdc"
definition RTNC_KISS_TFESC :: u8 where [simp]: "RTNC_KISS_TFESC = 0xdd"
definition RTNC_KISS_DATA_COMMAND :: u8 where [simp]: "RTNC_KISS_DATA_COMMAND = 0"
definition RTNC_KISS_CMD_TXDELAY :: u8 where [simp]: "RTNC_KISS_CMD_TXDELAY = 1"
definition RTNC_KISS_CMD_P :: u8 where [simp]: "RTNC_KISS_CMD_P = 2"
definition RTNC_KISS_CMD_SLOTTIME :: u8 where [simp]: "RTNC_KISS_CMD_SLOTTIME = 3"
definition RTNC_KISS_CMD_TXTAIL :: u8 where [simp]: "RTNC_KISS_CMD_TXTAIL = 4"
definition RTNC_KISS_MAX_ENCODED :: nat where [simp]: "RTNC_KISS_MAX_ENCODED = 2 * RTNC_LINK_MAX_MTU + 4"

definition KISS_FRAME_SIZE :: nat where
  \<comment> \<open>\<^verbatim>\<open>sizeof(parser->frame)\<close>\<close>
  [simp]: "KISS_FRAME_SIZE = RTNC_LINK_MAX_MTU + 1"

record rtnc_kiss_parser =
  kp_frame :: bytes
  kp_length :: nat
  kp_active :: bool
  kp_escaped :: bool
  kp_rejected :: bool

record rtnc_kiss_frame =
  kf_port :: u8
  kf_command :: u8
  kf_data :: bytes   \<comment> \<open>\<^verbatim>\<open>data\<close> and \<^verbatim>\<open>length\<close>\<close>

subsection \<open>The parser\<close>

definition rtnc_kiss_parser_init :: rtnc_kiss_parser where
  "rtnc_kiss_parser_init = \<lparr>kp_frame = replicate KISS_FRAME_SIZE 0, kp_length = 0,
     kp_active = False, kp_escaped = False, kp_rejected = False\<rparr>"

definition kiss_store :: "rtnc_kiss_parser \<Rightarrow> u8 \<Rightarrow> rtnc_kiss_parser" where
  \<comment> \<open>the tail of \<open>rtnc_kiss_parser_push_frame\<close>: append one unescaped byte or give up\<close>
  "kiss_store parser b =
    (if kp_length parser \<ge> KISS_FRAME_SIZE then parser\<lparr>kp_rejected := True\<rparr>
     else parser\<lparr>kp_frame := (kp_frame parser)[kp_length parser := b],
                 kp_length := kp_length parser + 1\<rparr>)"

definition rtnc_kiss_parser_push_frame ::
    "rtnc_kiss_parser \<Rightarrow> u8 \<Rightarrow> rtnc_kiss_frame option \<times> rtnc_kiss_parser" where
  \<comment> \<open>\<open>Some frame\<close> where the code returns true\<close>
  "rtnc_kiss_parser_push_frame parser byte =
    (if byte = RTNC_KISS_FEND
     then
       let complete = (kp_active parser \<and> \<not> kp_rejected parser \<and> kp_length parser > 0);
           head = kp_frame parser ! 0
       in (if complete
           then Some \<lparr>kf_port = drop_bit 4 head, kf_command = head AND 0x0f,
                      kf_data = take (kp_length parser - 1) (drop 1 (kp_frame parser))\<rparr>
           else None,
           parser\<lparr>kp_active := True, kp_escaped := False, kp_rejected := False, kp_length := 0\<rparr>)
     else if \<not> kp_active parser \<or> kp_rejected parser then (None, parser)
     else if kp_escaped parser
     then let parser = parser\<lparr>kp_escaped := False\<rparr>
          in (None,
              if byte = RTNC_KISS_TFEND then kiss_store parser RTNC_KISS_FEND
              else if byte = RTNC_KISS_TFESC then kiss_store parser RTNC_KISS_FESC
              else parser\<lparr>kp_rejected := True\<rparr>)
     else if byte = RTNC_KISS_FESC then (None, parser\<lparr>kp_escaped := True\<rparr>)
     else (None, kiss_store parser byte))"

definition rtnc_kiss_parser_push ::
    "rtnc_kiss_parser \<Rightarrow> u8 \<Rightarrow> bytes option \<times> rtnc_kiss_parser" where
  "rtnc_kiss_parser_push parser byte =
    (let (result, parser') = rtnc_kiss_parser_push_frame parser byte
     in (case result of
           None \<Rightarrow> None
         | Some frame \<Rightarrow>
             if kf_port frame \<noteq> 0 \<or> kf_command frame \<noteq> RTNC_KISS_DATA_COMMAND \<or>
                length (kf_data frame) = 0 then None
             else Some (kf_data frame),
         parser'))"

text \<open>A stretch of the TCP stream: every byte fed in turn, the completed frames in order.\<close>

primrec kiss_feed ::
    "rtnc_kiss_parser \<Rightarrow> bytes \<Rightarrow> rtnc_kiss_frame list \<times> rtnc_kiss_parser" where
  "kiss_feed parser [] = ([], parser)"
| "kiss_feed parser (b # bs) =
    (let (result, parser1) = rtnc_kiss_parser_push_frame parser b;
         (frames, parser2) = kiss_feed parser1 bs
     in ((case result of None \<Rightarrow> frames | Some f \<Rightarrow> f # frames), parser2))"

subsection \<open>The encoder\<close>

fun kiss_encode_loop :: "bytes \<Rightarrow> nat \<Rightarrow> bytes \<Rightarrow> bytes option" where
  \<comment> \<open>the loop over the packet; the output buffer so far, whose length is \<^verbatim>\<open>output\<close>\<close>
  "kiss_encode_loop [] capacity encoded = Some encoded"
| "kiss_encode_loop (b # packet) capacity encoded =
    (if b = RTNC_KISS_FEND \<or> b = RTNC_KISS_FESC
     then if length encoded + 2 > capacity then None
          else kiss_encode_loop packet capacity
                 (encoded @ [RTNC_KISS_FESC,
                             if b = RTNC_KISS_FEND then RTNC_KISS_TFEND else RTNC_KISS_TFESC])
     else if length encoded + 1 > capacity then None
     else kiss_encode_loop packet capacity (encoded @ [b]))"

definition rtnc_kiss_encode :: "bytes \<Rightarrow> nat \<Rightarrow> bytes option" where
  "rtnc_kiss_encode packet capacity =
    (if length packet = 0 \<or> length packet > RTNC_LINK_MAX_MTU \<or> capacity < 3 then None
     else case kiss_encode_loop packet capacity [RTNC_KISS_FEND, RTNC_KISS_DATA_COMMAND] of
            None \<Rightarrow> None
          | Some encoded \<Rightarrow>
              if length encoded \<ge> capacity then None else Some (encoded @ [RTNC_KISS_FEND]))"

subsection \<open>Escaping\<close>

definition kiss_escape :: "u8 \<Rightarrow> bytes" where
  "kiss_escape b = (if b = RTNC_KISS_FEND then [RTNC_KISS_FESC, RTNC_KISS_TFEND]
     else if b = RTNC_KISS_FESC then [RTNC_KISS_FESC, RTNC_KISS_TFESC] else [b])"

definition kiss_escaped :: "bytes \<Rightarrow> bytes" where
  "kiss_escaped p = concat (map kiss_escape p)"

lemma kiss_escaped_simps [simp]:
  "kiss_escaped [] = []" "kiss_escaped (b # p) = kiss_escape b @ kiss_escaped p"
  by (simp_all add: kiss_escaped_def)

lemma length_kiss_escape: "length (kiss_escape b) \<le> 2" "0 < length (kiss_escape b)"
  by (simp_all add: kiss_escape_def)

lemma length_kiss_escaped: "length (kiss_escaped p) \<le> 2 * length p"
  using length_kiss_escape by (induction p) (auto simp: add_mono intro: add_le_mono [of _ 2, simplified])

lemma kiss_encode_loop_eq:
  "kiss_encode_loop p cap enc =
    (if length (enc @ kiss_escaped p) \<le> cap \<or> p = [] then Some (enc @ kiss_escaped p) else None)"
  by (induction p cap enc rule: kiss_encode_loop.induct) (auto simp: kiss_escape_def)

lemma rtnc_kiss_encode_eq:
  "rtnc_kiss_encode p cap =
    (if p = [] \<or> length p > RTNC_LINK_MAX_MTU \<or> cap < length (kiss_escaped p) + 3 then None
     else Some (RTNC_KISS_FEND # RTNC_KISS_DATA_COMMAND # kiss_escaped p @ [RTNC_KISS_FEND]))"
  by (auto simp: rtnc_kiss_encode_def kiss_encode_loop_eq)

lemma kiss_feed_append:
  "kiss_feed k (a @ b) =
    (let (fa, k1) = kiss_feed k a; (fb, k2) = kiss_feed k1 b in (fa @ fb, k2))"
  by (induction a arbitrary: k) (auto simp: Let_def split: prod.splits option.splits)

subsection \<open>The parser's invariant\<close>

definition kiss_wf :: "rtnc_kiss_parser \<Rightarrow> bool" where
  "kiss_wf k \<longleftrightarrow> length (kp_frame k) = KISS_FRAME_SIZE \<and> kp_length k \<le> KISS_FRAME_SIZE"

lemma kiss_wf_init: "kiss_wf rtnc_kiss_parser_init"
  by (simp add: kiss_wf_def rtnc_kiss_parser_init_def)

lemma kiss_wf_flags [simp]:
  "kiss_wf (k\<lparr>kp_escaped := x\<rparr>) = kiss_wf k" "kiss_wf (k\<lparr>kp_rejected := x\<rparr>) = kiss_wf k"
  by (simp_all add: kiss_wf_def)

lemma kiss_wf_restart [simp]:
  "kiss_wf k \<Longrightarrow>
   kiss_wf (k\<lparr>kp_active := True, kp_escaped := False, kp_rejected := False, kp_length := 0\<rparr>)"
  by (simp add: kiss_wf_def)

lemma kiss_wf_store: "kiss_wf k \<Longrightarrow> kiss_wf (kiss_store k b)"
  by (auto simp: kiss_wf_def kiss_store_def)

lemma kiss_wf_push: "kiss_wf k \<Longrightarrow> kiss_wf (snd (rtnc_kiss_parser_push_frame k b))"
  by (simp add: rtnc_kiss_parser_push_frame_def Let_def kiss_wf_store)

lemma kiss_wf_feed: "kiss_wf k \<Longrightarrow> kiss_feed k bs = (fs, k') \<Longrightarrow> kiss_wf k'"
proof (induction bs arbitrary: k fs)
  case (Cons b bs)
  then show ?case using kiss_wf_push [of k b] by (auto simp: Let_def split: prod.splits)
qed simp

text \<open>A parser that is collecting a frame and holds \<open>xs\<close>.\<close>

definition collecting :: "rtnc_kiss_parser \<Rightarrow> bytes \<Rightarrow> bool" where
  "collecting k xs \<longleftrightarrow> kiss_wf k \<and> kp_active k \<and> \<not> kp_escaped k \<and> \<not> kp_rejected k \<and>
     take (length xs) (kp_frame k) = xs \<and> kp_length k = length xs"

lemma collecting_store:
  "kiss_wf k \<Longrightarrow> kp_active k \<Longrightarrow> \<not> kp_escaped k \<Longrightarrow> \<not> kp_rejected k \<Longrightarrow>
   take (length xs) (kp_frame k) = xs \<Longrightarrow> kp_length k = length xs \<Longrightarrow>
   length xs < KISS_FRAME_SIZE \<Longrightarrow> collecting (kiss_store k b) (xs @ [b])"
  by (auto simp: collecting_def kiss_store_def kiss_wf_def take_Suc_update)

lemma feed_escape:
  assumes "collecting k xs" and "length xs < KISS_FRAME_SIZE"
  shows "\<exists>k'. kiss_feed k (kiss_escape b) = ([], k') \<and> collecting k' (xs @ [b])"
proof -
  from assms have k: "kiss_wf k" "kp_active k" "\<not> kp_escaped k" "\<not> kp_rejected k"
    "take (length xs) (kp_frame k) = xs" "kp_length k = length xs"
    unfolding collecting_def by auto
  have esc: "collecting (kiss_store (k\<lparr>kp_escaped := False\<rparr>) b) (xs @ [b])" for b
    using k assms(2) by (intro collecting_store) (simp_all add: kiss_wf_def)
  show ?thesis
    using k assms(2) collecting_store [OF k, of b] esc [of b]
    by (auto simp: kiss_escape_def rtnc_kiss_parser_push_frame_def Let_def)
qed

lemma feed_escaped:
  "collecting k xs \<Longrightarrow> length xs + length p \<le> KISS_FRAME_SIZE \<Longrightarrow>
   \<exists>k'. kiss_feed k (kiss_escaped p) = ([], k') \<and> collecting k' (xs @ p)"
proof (induction p arbitrary: k xs)
  case Nil
  then show ?case by simp
next
  case (Cons b p)
  then obtain k1 where 1: "kiss_feed k (kiss_escape b) = ([], k1)" "collecting k1 (xs @ [b])"
    using feed_escape [of k xs b] by auto
  from Cons.IH [OF 1(2)] Cons.prems
  obtain k2 where "kiss_feed k1 (kiss_escaped p) = ([], k2)" "collecting k2 (xs @ b # p)" by auto
  with 1 show ?case by (simp add: kiss_feed_append)
qed

lemma feed_FEND:
  "kiss_wf k \<Longrightarrow> \<exists>k'. snd (rtnc_kiss_parser_push_frame k RTNC_KISS_FEND) = k' \<and> collecting k' []"
  by (simp add: rtnc_kiss_parser_push_frame_def collecting_def kiss_wf_def Let_def)

lemma feed_end:
  assumes "collecting k (h # d)"
  shows "fst (rtnc_kiss_parser_push_frame k RTNC_KISS_FEND) =
    Some \<lparr>kf_port = drop_bit 4 h, kf_command = h AND 0x0f, kf_data = d\<rparr>"
proof -
  from assms have k: "kp_active k" "\<not> kp_rejected k" "take (Suc (length d)) (kp_frame k) = h # d"
    "kp_length k = Suc (length d)" by (auto simp: collecting_def)
  then obtain x xs where "kp_frame k = x # xs" by (cases "kp_frame k") auto
  with k show ?thesis by (simp add: rtnc_kiss_parser_push_frame_def Let_def)
qed

text \<open>
  What the bytes between two \<open>FEND\<close>s stand for.  \<open>FESC\<close> before any byte but \<open>TFEND\<close> and \<open>TFESC\<close> is an
  invalid escape and the bytes stand for nothing.  A \<open>FESC\<close> that the body ends in is different: the
  \<open>FEND\<close> after it resets the parser's \<open>escaped\<close> flag like every other \<open>FEND\<close>, so the code drops that byte and
  keeps the frame.
\<close>

fun kiss_unescape :: "bytes \<Rightarrow> bytes option" where
  "kiss_unescape [] = Some []"
| "kiss_unescape [b] = (if b = RTNC_KISS_FESC then Some [] else Some [b])"
| "kiss_unescape (b # c # bs) =
    (if b = RTNC_KISS_FESC
     then if c = RTNC_KISS_TFEND then map_option ((#) RTNC_KISS_FEND) (kiss_unescape bs)
          else if c = RTNC_KISS_TFESC then map_option ((#) RTNC_KISS_FESC) (kiss_unescape bs)
          else None
     else map_option ((#) b) (kiss_unescape (c # bs)))"

lemma feed_rejected:
  "kp_rejected k \<Longrightarrow> RTNC_KISS_FEND \<notin> set bs \<Longrightarrow> kiss_feed k bs = ([], k)"
  by (induction bs) (auto simp: rtnc_kiss_parser_push_frame_def)

lemma map_option_snoc:
  "map_option ((@) (xs @ [b])) y = map_option ((@) xs) (map_option ((#) b) y)"
  by (cases y) auto

lemma map_option_append_Nil: "map_option ((@) []) y = y"
  by (cases y) auto

definition holding :: "rtnc_kiss_parser \<Rightarrow> bytes option \<Rightarrow> bool" where
  "holding k c \<longleftrightarrow> kiss_wf k \<and> kp_active k \<and>
     (case c of
        Some xs \<Rightarrow> if length xs \<le> KISS_FRAME_SIZE
                   then \<not> kp_rejected k \<and> take (length xs) (kp_frame k) = xs \<and> kp_length k = length xs
                   else kp_rejected k
      | None \<Rightarrow> kp_rejected k)"

lemma kiss_store_full:
  "KISS_FRAME_SIZE \<le> kp_length k \<Longrightarrow> kiss_store k b = k\<lparr>kp_rejected := True\<rparr>"
  by (simp add: kiss_store_def)

lemma feed_store:
  assumes k: "kiss_wf k" "kp_active k" "\<not> kp_escaped k" "\<not> kp_rejected k"
     "take (length xs) (kp_frame k) = xs" "kp_length k = length xs"
    and IH: "\<And>k. collecting k (xs @ [b]) \<Longrightarrow>
      \<exists>k'. kiss_feed k bs = ([], k') \<and> holding k' (map_option ((@) (xs @ [b])) (kiss_unescape bs))"
    and bs: "RTNC_KISS_FEND \<notin> set bs"
  shows "\<exists>k'. kiss_feed (kiss_store k b) bs = ([], k') \<and>
    holding k' (map_option ((@) xs) (map_option ((#) b) (kiss_unescape bs)))"
proof (cases "length xs < KISS_FRAME_SIZE")
  case True
  from IH [OF collecting_store [OF k True]] show ?thesis
    unfolding map_option_snoc .
next
  case False
  then have "kiss_store k b = k\<lparr>kp_rejected := True\<rparr>" using k by (intro kiss_store_full) simp
  moreover have "kiss_feed (k\<lparr>kp_rejected := True\<rparr>) bs = ([], k\<lparr>kp_rejected := True\<rparr>)"
    using bs by (intro feed_rejected) simp_all
  ultimately show ?thesis
    using k False by (cases "kiss_unescape bs") (auto simp: holding_def)
qed

lemma feed_body:
  "collecting k xs \<Longrightarrow> RTNC_KISS_FEND \<notin> set bs \<Longrightarrow>
   \<exists>k'. kiss_feed k bs = ([], k') \<and> holding k' (map_option ((@) xs) (kiss_unescape bs))"
proof (induction bs arbitrary: k xs rule: kiss_unescape.induct)
  case 1
  then show ?case by (auto simp: collecting_def holding_def kiss_wf_def)
next
  case (2 b)
  then have k: "kiss_wf k" "kp_active k" "\<not> kp_escaped k" "\<not> kp_rejected k"
    "take (length xs) (kp_frame k) = xs" "kp_length k = length xs"
    unfolding collecting_def by auto
  show ?case
  proof (cases "b = RTNC_KISS_FESC")
    case True
    with k show ?thesis
      by (auto simp: rtnc_kiss_parser_push_frame_def holding_def kiss_wf_def)
  next
    case False
    have "\<exists>k'. kiss_feed (kiss_store k b) [] = ([], k') \<and>
        holding k' (map_option ((@) xs) (map_option ((#) b) (kiss_unescape [])))"
      by (rule feed_store [OF k]) (auto simp: collecting_def holding_def kiss_wf_def)
    with k 2(2) False show ?thesis by (simp add: rtnc_kiss_parser_push_frame_def)
  qed
next
  case (3 b c bs)
  then have k: "kiss_wf k" "kp_active k" "\<not> kp_escaped k" "\<not> kp_rejected k"
    "take (length xs) (kp_frame k) = xs" "kp_length k = length xs"
    unfolding collecting_def by auto
  let ?k = "k\<lparr>kp_escaped := False\<rparr>"
  have k': "?k = k" using k by simp
  show ?case
  proof (cases "b = RTNC_KISS_FESC")
    case True
    have esc: "rtnc_kiss_parser_push_frame k b = (None, k\<lparr>kp_escaped := True\<rparr>)"
      using k True by (simp add: rtnc_kiss_parser_push_frame_def)
    consider (fend) "c = RTNC_KISS_TFEND" | (fesc) "c = RTNC_KISS_TFESC" "c \<noteq> RTNC_KISS_TFEND"
      | (bad) "c \<noteq> RTNC_KISS_TFEND" "c \<noteq> RTNC_KISS_TFESC" by blast
    then show ?thesis
    proof cases
      case fend
      have "\<exists>k'. kiss_feed (kiss_store k RTNC_KISS_FEND) bs = ([], k') \<and>
          holding k' (map_option ((@) xs) (map_option ((#) RTNC_KISS_FEND) (kiss_unescape bs)))"
        using 3 True fend by (intro feed_store [OF k]) auto
      with esc True fend k(2,4) k' show ?thesis by (simp add: rtnc_kiss_parser_push_frame_def)
    next
      case fesc
      have "\<exists>k'. kiss_feed (kiss_store k RTNC_KISS_FESC) bs = ([], k') \<and>
          holding k' (map_option ((@) xs) (map_option ((#) RTNC_KISS_FESC) (kiss_unescape bs)))"
        using 3 True fesc by (intro feed_store [OF k]) auto
      with esc True fesc k(2,4) k' show ?thesis by (simp add: rtnc_kiss_parser_push_frame_def)
    next
      case bad
      have "rtnc_kiss_parser_push_frame (k\<lparr>kp_escaped := True\<rparr>) c = (None, k\<lparr>kp_escaped := False, kp_rejected := True\<rparr>)"
        using bad k 3(5) by (simp add: rtnc_kiss_parser_push_frame_def)
      moreover have "kiss_feed (k\<lparr>kp_escaped := False, kp_rejected := True\<rparr>) bs =
          ([], k\<lparr>kp_escaped := False, kp_rejected := True\<rparr>)"
        using 3(5) by (intro feed_rejected) simp_all
      ultimately show ?thesis using bad True esc k by (simp add: holding_def)
    qed
  next
    case False
    have "\<exists>k'. kiss_feed (kiss_store k b) (c # bs) = ([], k') \<and>
        holding k' (map_option ((@) xs) (map_option ((#) b) (kiss_unescape (c # bs))))"
      using 3 False by (intro feed_store [OF k]) auto
    moreover have "rtnc_kiss_parser_push_frame k b = (None, kiss_store k b)"
      using k False 3(5) by (simp add: rtnc_kiss_parser_push_frame_def)
    ultimately show ?thesis using False by (auto split: prod.splits)
  qed
qed

definition kiss_frame_of :: "bytes option \<Rightarrow> rtnc_kiss_frame list" where
  "kiss_frame_of c = (case c of
      Some (h # d) \<Rightarrow>
        if length d \<le> RTNC_LINK_MAX_MTU
        then [\<lparr>kf_port = drop_bit 4 h, kf_command = h AND 0x0f, kf_data = d\<rparr>] else []
    | _ \<Rightarrow> [])"

lemma kiss_feed_single:
  "kiss_feed k [b] = ((case fst (rtnc_kiss_parser_push_frame k b) of None \<Rightarrow> [] | Some f \<Rightarrow> [f]),
     snd (rtnc_kiss_parser_push_frame k b))"
  by (cases "rtnc_kiss_parser_push_frame k b") (simp split: option.splits)

lemma holding_rejected:
  "holding k c \<Longrightarrow> kiss_frame_of c = [] \<Longrightarrow> kp_rejected k \<or> kp_length k = 0"
  by (cases c) (auto simp: holding_def kiss_frame_of_def split: list.splits if_splits)

lemma push_FEND_rejected:
  "kp_rejected k \<or> kp_length k = 0 \<Longrightarrow> fst (rtnc_kiss_parser_push_frame k RTNC_KISS_FEND) = None"
  by (auto simp: rtnc_kiss_parser_push_frame_def Let_def)

lemma feed_close:
  assumes "holding k c"
  shows "\<exists>k'. kiss_feed k [RTNC_KISS_FEND] = (kiss_frame_of c, k') \<and> collecting k' []"
proof -
  have wf: "kiss_wf k" using assms by (simp add: holding_def)
  obtain k' where k': "snd (rtnc_kiss_parser_push_frame k RTNC_KISS_FEND) = k'" "collecting k' []"
    using feed_FEND [OF wf] by blast
  have "(case fst (rtnc_kiss_parser_push_frame k RTNC_KISS_FEND) of None \<Rightarrow> [] | Some f \<Rightarrow> [f]) = kiss_frame_of c"
  proof (cases "kiss_frame_of c = []")
    case False
    then obtain h d where c: "c = Some (h # d)" "length d \<le> RTNC_LINK_MAX_MTU"
      by (auto simp: kiss_frame_of_def split: option.splits list.splits if_splits)
    then have "collecting (k\<lparr>kp_escaped := False\<rparr>) (h # d)"
      using assms by (simp add: holding_def collecting_def)
    moreover have "fst (rtnc_kiss_parser_push_frame (k\<lparr>kp_escaped := False\<rparr>) RTNC_KISS_FEND) =
        fst (rtnc_kiss_parser_push_frame k RTNC_KISS_FEND)"
      by (simp add: rtnc_kiss_parser_push_frame_def Let_def)
    ultimately have "fst (rtnc_kiss_parser_push_frame k RTNC_KISS_FEND) =
        Some \<lparr>kf_port = drop_bit 4 h, kf_command = h AND 0x0f, kf_data = d\<rparr>"
      using feed_end by metis
    then show ?thesis using c by (simp add: kiss_frame_of_def)
  next
    case True
    from push_FEND_rejected [OF holding_rejected [OF assms True]] True
    show ?thesis by (simp only: option.case)
  qed
  with k' show ?thesis by (simp only: kiss_feed_single) blast
qed

section \<open>Properties\<close>

text \<open>
  C6: what the parser makes of a stream.  Whatever it was fed before, a body without \<open>FEND\<close> between
  two \<open>FEND\<close>s completes exactly one frame if \<open>kiss_unescape\<close> gives it between one and \<open>MTU + 1\<close> bytes, the
  first split into port and command, the rest the data; otherwise it completes none, that is, where a
  \<open>FESC\<close> is followed by another byte than \<open>TFEND\<close> or \<open>TFESC\<close>, where nothing is left, or where it is too
  long.  A \<open>FESC\<close> at the very end of the body is no such error: it is dropped, and the bytes before it
  make the frame.  In every case the parser then waits for a fresh frame, so one bad frame never costs the
  next one.
\<close>

theorem kiss_parser_functional:
  assumes before: "kiss_feed rtnc_kiss_parser_init garbage = (fs0, k)"
    and body: "RTNC_KISS_FEND \<notin> set body"
  shows "\<exists>k'. kiss_feed k ([RTNC_KISS_FEND] @ body @ [RTNC_KISS_FEND]) =
      (fst (kiss_feed k [RTNC_KISS_FEND]) @ kiss_frame_of (kiss_unescape body), k') \<and>
    collecting k' []"
proof -
  have wf: "kiss_wf k" using kiss_wf_feed [OF kiss_wf_init before] .
  obtain fs1 k1 where 1: "kiss_feed k [RTNC_KISS_FEND] = (fs1, k1)" by fastforce
  then have "collecting k1 []" using feed_FEND [OF wf] by (auto simp: Let_def split: prod.splits)
  from feed_body [OF this body] obtain k2 where 2: "kiss_feed k1 body = ([], k2)"
    "holding k2 (kiss_unescape body)" unfolding map_option_append_Nil by blast
  from feed_close [OF 2(2)] obtain k3 where 3: "kiss_feed k2 [RTNC_KISS_FEND] =
      (kiss_frame_of (kiss_unescape body), k3)" "collecting k3 []" by blast
  have "kiss_feed k ([RTNC_KISS_FEND] @ body @ [RTNC_KISS_FEND]) =
      (fs1 @ kiss_frame_of (kiss_unescape body), k3)"
    unfolding kiss_feed_append by (simp only: Let_def 1 2(1) 3(1) prod.case append_Nil)
  with 3(2) show ?thesis unfolding 1 fst_conv by blast
qed

text \<open>Two bodies: one with an escaped \<open>FEND\<close>, and one that ends in a lone \<open>FESC\<close>.\<close>

theorem kiss_parser_functional_witness:
  "kiss_frame_of (kiss_unescape [0x10, 0xdb, 0xdc, 7]) = [\<lparr>kf_port = 1, kf_command = 0, kf_data = [0xc0, 7]\<rparr>] \<and>
   (\<exists>k'. kiss_feed rtnc_kiss_parser_init ([0xc0] @ [0x10, 0xdb, 0xdc, 7] @ [0xc0]) =
     (fst (kiss_feed rtnc_kiss_parser_init [0xc0]) @
      kiss_frame_of (kiss_unescape [0x10, 0xdb, 0xdc, 7]), k') \<and> collecting k' []) \<and>
   kiss_frame_of (kiss_unescape [0, 7, 0xdb]) = [\<lparr>kf_port = 0, kf_command = 0, kf_data = [7]\<rparr>] \<and>
   (\<exists>k'. kiss_feed rtnc_kiss_parser_init ([0xc0] @ [0, 7, 0xdb] @ [0xc0]) =
     (fst (kiss_feed rtnc_kiss_parser_init [0xc0]) @ kiss_frame_of (kiss_unescape [0, 7, 0xdb]), k') \<and> collecting k' [])"
  using kiss_parser_functional [of "[]" "[]" rtnc_kiss_parser_init "[0x10, 0xdb, 0xdc, 7]"]
    kiss_parser_functional [of "[]" "[]" rtnc_kiss_parser_init "[0, 7, 0xdb]"]
  by (simp add: kiss_frame_of_def)

lemma kiss_feed_encoded:
  assumes enc: "rtnc_kiss_encode p cap = Some e"
    and wf: "kiss_wf k"
  shows "\<exists>k'. kiss_feed k e =
      (fst (kiss_feed k [RTNC_KISS_FEND]) @
       [\<lparr>kf_port = 0, kf_command = RTNC_KISS_DATA_COMMAND, kf_data = p\<rparr>], k') \<and>
    collecting k' []"
proof -
  from enc have e: "e = [RTNC_KISS_FEND] @ kiss_escaped (RTNC_KISS_DATA_COMMAND # p) @ [RTNC_KISS_FEND]"
    and p: "p \<noteq> []" "length p \<le> RTNC_LINK_MAX_MTU"
    by (auto simp: rtnc_kiss_encode_eq kiss_escape_def split: if_splits)
  obtain fs1 k1 where 1: "kiss_feed k [RTNC_KISS_FEND] = (fs1, k1)" by fastforce
  then have "collecting k1 []" using feed_FEND [OF wf] by (auto simp: Let_def split: prod.splits)
  from feed_escaped [OF this, of "RTNC_KISS_DATA_COMMAND # p"] p
  obtain k2 where 2: "kiss_feed k1 (kiss_escaped (RTNC_KISS_DATA_COMMAND # p)) = ([], k2)"
    "collecting k2 (RTNC_KISS_DATA_COMMAND # p)" by auto
  then have "holding k2 (Some (RTNC_KISS_DATA_COMMAND # p))"
    using p by (simp add: collecting_def holding_def)
  from feed_close [OF this] p obtain k3 where 3: "kiss_feed k2 [RTNC_KISS_FEND] =
      ([\<lparr>kf_port = 0, kf_command = RTNC_KISS_DATA_COMMAND, kf_data = p\<rparr>], k3)" "collecting k3 []"
    by (auto simp: kiss_frame_of_def)
  have "kiss_feed k e =
      (fs1 @ [\<lparr>kf_port = 0, kf_command = RTNC_KISS_DATA_COMMAND, kf_data = p\<rparr>], k3)"
    unfolding e kiss_feed_append by (simp only: Let_def 1 2(1) 3(1) prod.case append_Nil)
  with 3(2) show ?thesis unfolding 1 fst_conv by blast
qed

text \<open>
  C7: encoding loses nothing.  Whatever the parser was fed before, feeding it one encoded packet
  completes exactly one frame beyond the one its leading \<open>FEND\<close> may close: port 0, the data command
  and the packet's bytes.
\<close>

theorem kiss_roundtrip:
  assumes "rtnc_kiss_encode p cap = Some e" and "kiss_feed rtnc_kiss_parser_init garbage = (fs0, k)"
  shows "\<exists>k'. kiss_feed k e =
      (fst (kiss_feed k [RTNC_KISS_FEND]) @
       [\<lparr>kf_port = 0, kf_command = RTNC_KISS_DATA_COMMAND, kf_data = p\<rparr>], k') \<and>
    collecting k' []"
  by (rule kiss_feed_encoded [OF assms(1) kiss_wf_feed [OF kiss_wf_init assms(2)]])

theorem kiss_roundtrip_witness:
  "\<exists>k'. kiss_feed rtnc_kiss_parser_init [0xc0, 0, 1, 0xdb, 0xdc, 0xdb, 0xdd, 0xc0] =
     (fst (kiss_feed rtnc_kiss_parser_init [RTNC_KISS_FEND]) @
      [\<lparr>kf_port = 0, kf_command = RTNC_KISS_DATA_COMMAND, kf_data = [1, 0xc0, 0xdb]\<rparr>], k') \<and>
     collecting k' []"
proof (rule kiss_roundtrip)
  show "rtnc_kiss_encode [1, 0xc0, 0xdb] 20 = Some [0xc0, 0, 1, 0xdb, 0xdc, 0xdb, 0xdd, 0xc0]"
    by (simp add: rtnc_kiss_encode_def)
  show "kiss_feed rtnc_kiss_parser_init [] = ([], rtnc_kiss_parser_init)" by simp
qed

text \<open>
  The buffer the service gives the encoder is always enough: every packet up to the link MTU
  encodes within \<open>RTNC_KISS_MAX_ENCODED\<close> bytes, and \<open>FEND\<close> occurs in the result at its two ends only.
\<close>

lemma kiss_encode_fits:
  assumes "p \<noteq> []" and "length p \<le> RTNC_LINK_MAX_MTU"
  shows "\<exists>e body. rtnc_kiss_encode p RTNC_KISS_MAX_ENCODED = Some e \<and>
    e = [RTNC_KISS_FEND] @ body @ [RTNC_KISS_FEND] \<and> RTNC_KISS_FEND \<notin> set body \<and>
    length e \<le> RTNC_KISS_MAX_ENCODED"
proof -
  have "length (kiss_escaped p) + 3 \<le> RTNC_KISS_MAX_ENCODED"
    using length_kiss_escaped [of p] assms(2) by simp
  moreover have "RTNC_KISS_FEND \<notin> set (kiss_escaped p)"
    by (induction p) (auto simp: kiss_escape_def)
  ultimately show ?thesis using assms
    by (intro exI [of _ "RTNC_KISS_FEND # RTNC_KISS_DATA_COMMAND # kiss_escaped p @ [RTNC_KISS_FEND]"]
      exI [of _ "RTNC_KISS_DATA_COMMAND # kiss_escaped p"]) (simp add: rtnc_kiss_encode_eq)
qed

end
