(* ===== verification/Spsc.thy ===== *)
theory Spsc
  imports Prelude
begin

text \<open>
  The single-producer/single-consumer ring the packet queue, the audio ring and the decode queue
  share: slots, a producer index and a consumer index, with one slot always left free.  The index
  arithmetic and its lemmas; the interface \<open>spsc_queue\<close> that the three queues implement, with the
  first-in-first-out theorem over any sequence of calls proved once inside it; and the ring as two
  threads that interleave at every load and store, with the proof that they never touch one slot
  at the same time.
\<close>

section \<open>Index arithmetic\<close>

definition queue_depth :: "nat \<Rightarrow> nat \<Rightarrow> nat \<Rightarrow> nat" where
  "queue_depth producer consumer slots =
    (if producer \<ge> consumer then producer - consumer else slots - consumer + producer)"

definition ring_next :: "nat \<Rightarrow> nat \<Rightarrow> nat" where
  "ring_next i slots = (i + 1) mod slots"

definition ring_items :: "'a list \<Rightarrow> nat \<Rightarrow> nat \<Rightarrow> nat \<Rightarrow> 'a list" where
  \<comment> \<open>the slots from the consumer's index up to the producer's\<close>
  "ring_items slots producer consumer n =
    map (\<lambda>i. slots ! ((consumer + i) mod n)) [0..<queue_depth producer consumer n]"

lemma ring_next_eq: "i < n \<Longrightarrow> ring_next i n = (if Suc i = n then 0 else Suc i)"
  by (auto simp: ring_next_def)

lemma ring_next_less [simp]: "0 < n \<Longrightarrow> ring_next i n < n"
  by (simp add: ring_next_def)

lemma depth_less: "p < n \<Longrightarrow> c < n \<Longrightarrow> queue_depth p c n < n"
  by (auto simp: queue_depth_def)

lemma depth_self [simp]: "queue_depth c c n = 0"
  by (simp add: queue_depth_def)

lemma depth_0_iff: "p < n \<Longrightarrow> c < n \<Longrightarrow> queue_depth p c n = 0 \<longleftrightarrow> p = c"
  by (auto simp: queue_depth_def)

lemma depth_full_iff:
  "p < n \<Longrightarrow> c < n \<Longrightarrow> ring_next p n = c \<longleftrightarrow> queue_depth p c n = n - 1"
  by (auto simp: queue_depth_def ring_next_eq)

lemma depth_push:
  "p < n \<Longrightarrow> c < n \<Longrightarrow> ring_next p n \<noteq> c \<Longrightarrow>
   queue_depth (ring_next p n) c n = Suc (queue_depth p c n)"
  by (auto simp: queue_depth_def ring_next_eq split: if_splits)

lemma depth_pop:
  "p < n \<Longrightarrow> c < n \<Longrightarrow> p \<noteq> c \<Longrightarrow> queue_depth p c n = Suc (queue_depth p (ring_next c n) n)"
  by (auto simp: queue_depth_def ring_next_eq split: if_splits)

lemma depth_index: "p < n \<Longrightarrow> c < n \<Longrightarrow> (c + queue_depth p c n) mod n = p"
  by (auto simp: queue_depth_def mod_if)

lemma index_inj:
  "c < n \<Longrightarrow> i < n \<Longrightarrow> j < n \<Longrightarrow> (c + i) mod n = (c + j) mod n \<Longrightarrow> i = (j :: nat)"
  by (auto simp: mod_if split: if_splits)

lemma length_ring_items [simp]: "length (ring_items s p c n) = queue_depth p c n"
  by (simp add: ring_items_def)

lemma ring_items_empty_iff: "p < n \<Longrightarrow> c < n \<Longrightarrow> ring_items s p c n = [] \<longleftrightarrow> p = c"
  by (simp add: ring_items_def depth_0_iff)

lemma ring_items_update:
  assumes "p < n" "c < n" "length s \<ge> n"
  shows "ring_items (s[p := x]) p c n = ring_items s p c n"
proof -
  have "(s[p := x]) ! ((c + i) mod n) = s ! ((c + i) mod n)" if "i < queue_depth p c n" for i
  proof -
    have "(c + i) mod n \<noteq> p"
      using index_inj [of c n i "queue_depth p c n"] depth_index [OF assms(1,2)]
        depth_less [OF assms(1,2)] assms(2) that by auto
    then show ?thesis by simp
  qed
  then show ?thesis by (simp add: ring_items_def)
qed

lemma ring_items_push:
  assumes "p < n" "c < n" "length s \<ge> n" "ring_next p n \<noteq> c"
  shows "ring_items (s[p := x]) (ring_next p n) c n = ring_items s p c n @ [x]"
proof -
  have "ring_items (s[p := x]) (ring_next p n) c n =
      ring_items (s[p := x]) p c n @ [s[p := x] ! ((c + queue_depth p c n) mod n)]"
    using assms by (simp add: ring_items_def depth_push)
  also have "s[p := x] ! ((c + queue_depth p c n) mod n) = x"
    using assms by (simp add: depth_index)
  finally show ?thesis using ring_items_update [OF assms(1-3)] by simp
qed

lemma ring_items_pop:
  assumes "p < n" "c < n" "p \<noteq> c"
  shows "ring_items s p c n = s ! c # ring_items s p (ring_next c n) n"
proof -
  have "(c + Suc i) mod n = (ring_next c n + i) mod n" for i
    using mod_add_left_eq [of "Suc c" n i] by (simp add: ring_next_def)
  then have "map (\<lambda>i. s ! ((c + i) mod n)) [0..<Suc k] =
      s ! c # map (\<lambda>i. s ! ((ring_next c n + i) mod n)) [0..<k]" for k
    using assms(2) by (simp add: map_upt_Suc del: upt_Suc)
  then show ?thesis using depth_pop [OF assms] by (simp add: ring_items_def)
qed

lemma ring_items_map: "map f (ring_items s p c n) = map (\<lambda>i. f (s ! ((c + i) mod n))) [0..<queue_depth p c n]"
  by (simp add: ring_items_def)

lemmas ring_facts = ring_items_push ring_items_pop ring_items_empty_iff depth_full_iff depth_push
  depth_less depth_0_iff

section \<open>The queue interface\<close>

datatype 'i queue_op = Push 'i | Pop

primrec queue_run ::
    "('q \<Rightarrow> 'i \<Rightarrow> bool \<times> 'q) \<Rightarrow> ('q \<Rightarrow> 'o option \<times> 'q) \<Rightarrow> 'q \<Rightarrow> 'i queue_op list \<Rightarrow>
     'i list \<times> 'o list \<times> 'q" where
  \<comment> \<open>the values accepted, the values popped, and the queue after the calls\<close>
  "queue_run push pop q [] = ([], [], q)"
| "queue_run push pop q (op # ops) =
    (case op of
       Push x \<Rightarrow>
         (let (ok, q1) = push q x; (acc, out, q2) = queue_run push pop q1 ops
          in (if ok then x # acc else acc, out, q2))
     | Pop \<Rightarrow>
         (let (y, q1) = pop q; (acc, out, q2) = queue_run push pop q1 ops
          in (acc, (case y of None \<Rightarrow> out | Some y \<Rightarrow> y # out), q2)))"

primrec fitting :: "('i \<Rightarrow> bool) \<Rightarrow> 'i queue_op list \<Rightarrow> nat" where
  \<comment> \<open>how many pushes pass the argument check\<close>
  "fitting fits [] = 0"
| "fitting fits (op # ops) =
    (case op of Push x \<Rightarrow> if fits x then Suc (fitting fits ops) else fitting fits ops
     | Pop \<Rightarrow> fitting fits ops)"

text \<open>
  \<open>items\<close> is what the consumer has yet to see, in order and in the form it will see it; \<open>enc\<close> is what
  storing does to a value; \<open>fits\<close> the argument check of the push.
\<close>

locale spsc_queue =
  fixes wf :: "'q \<Rightarrow> bool"
    and items :: "'q \<Rightarrow> 'o list"
    and limit :: "'q \<Rightarrow> nat"
    and fits :: "'q \<Rightarrow> 'i \<Rightarrow> bool"
    and enc :: "'i \<Rightarrow> 'o"
    and push :: "'q \<Rightarrow> 'i \<Rightarrow> bool \<times> 'q"
    and pop :: "'q \<Rightarrow> 'o option \<times> 'q"
    and dropped :: "'q \<Rightarrow> u64"
    and deepest :: "'q \<Rightarrow> nat"
  assumes items_bound: "wf q \<Longrightarrow> length (items q) \<le> limit q"
    and enq_wf: "wf q \<Longrightarrow> wf (snd (push q x))"
    and enq_unfit: "wf q \<Longrightarrow> \<not> fits q x \<Longrightarrow> push q x = (False, q)"
    and enq_full: "wf q \<Longrightarrow> fits q x \<Longrightarrow> length (items q) = limit q \<Longrightarrow>
      \<not> fst (push q x) \<and> items (snd (push q x)) = items q \<and>
      dropped (snd (push q x)) = dropped q + 1 \<and> deepest (snd (push q x)) = deepest q"
    and enq_room: "wf q \<Longrightarrow> fits q x \<Longrightarrow> length (items q) < limit q \<Longrightarrow>
      fst (push q x) \<and> items (snd (push q x)) = items q @ [enc x] \<and>
      dropped (snd (push q x)) = dropped q \<and>
      deepest (snd (push q x)) = max (deepest q) (length (items q) + 1)"
    and deq_wf: "wf q \<Longrightarrow> wf (snd (pop q))"
    and deq_empty: "wf q \<Longrightarrow> items q = [] \<Longrightarrow> pop q = (None, q)"
    and deq_head: "wf q \<Longrightarrow> items q = y # ys \<Longrightarrow>
      fst (pop q) = Some y \<and> items (snd (pop q)) = ys \<and> dropped (snd (pop q)) = dropped q \<and>
      deepest (snd (pop q)) = deepest q"
    and enq_limit: "limit (snd (push q x)) = limit q"
    and deq_limit: "limit (snd (pop q)) = limit q"
    and enq_fits: "fits (snd (push q x)) x2 = fits q x2"
    and deq_fits: "fits (snd (pop q)) x2 = fits q x2"
begin

lemma enq_cases:
  assumes "wf q"
  obtains (unfit) "\<not> fits q x" "push q x = (False, q)"
    | (full) "fits q x" "length (items q) = limit q" "\<not> fst (push q x)" "items (snd (push q x)) = items q"
        "dropped (snd (push q x)) = dropped q + 1" "deepest (snd (push q x)) = deepest q"
    | (room) "fits q x" "length (items q) < limit q" "fst (push q x)"
        "items (snd (push q x)) = items q @ [enc x]" "dropped (snd (push q x)) = dropped q"
        "deepest (snd (push q x)) = max (deepest q) (length (items q) + 1)"
  using enq_unfit [OF assms] enq_full [OF assms] enq_room [OF assms] items_bound [OF assms]
  by (metis le_neq_implies_less)

lemma run_wf: "wf q \<Longrightarrow> queue_run push pop q ops = (acc, out, q') \<Longrightarrow> wf q'"
proof (induction ops arbitrary: q acc out q')
  case (Cons op ops)
  then show ?case using enq_wf [OF Cons.prems(1)] deq_wf [OF Cons.prems(1)]
    by (cases op) (auto simp: Let_def split: prod.splits, (metis snd_conv)+)
qed simp

lemma run_fifo:
  "wf q \<Longrightarrow> queue_run push pop q ops = (acc, out, q') \<Longrightarrow> items q @ map enc acc = out @ items q'"
proof (induction ops arbitrary: q acc out q')
  case Nil
  then show ?case by simp
next
  case (Cons op ops)
  show ?case
  proof (cases op)
    case (Push x)
    obtain acc1 out1 q2 where r: "queue_run push pop (snd (push q x)) ops = (acc1, out1, q2)" by (metis prod_cases3)
    from Cons.IH [OF enq_wf [OF Cons.prems(1)] r]
    have IH: "items (snd (push q x)) @ map enc acc1 = out1 @ items q2" .
    from Cons.prems(2) Push r have eq: "acc = (if fst (push q x) then x # acc1 else acc1)" "out = out1" "q' = q2"
      by (auto simp: Let_def split: prod.splits)
    from Cons.prems(1) show ?thesis
      by (cases rule: enq_cases [where x = x]) (use IH eq in auto)
  next
    case Pop
    obtain acc1 out1 q2 where r: "queue_run push pop (snd (pop q)) ops = (acc1, out1, q2)" by (metis prod_cases3)
    from Cons.IH [OF deq_wf [OF Cons.prems(1)] r]
    have IH: "items (snd (pop q)) @ map enc acc1 = out1 @ items q2" .
    from Cons.prems(2) Pop r
    have eq: "acc = acc1" "out = (case fst (pop q) of None \<Rightarrow> out1 | Some y \<Rightarrow> y # out1)" "q' = q2"
      by (auto simp: Let_def split: prod.splits)
    show ?thesis
    proof (cases "items q")
      case Nil
      with deq_empty [OF Cons.prems(1)] IH eq show ?thesis by simp
    next
      case (Cons y ys)
      with deq_head [OF Cons.prems(1) this] IH eq show ?thesis by simp
    qed
  qed
qed

lemma fits_stable: "fits (snd (push q x)) = fits q" "fits (snd (pop q)) = fits q"
  using enq_fits deq_fits by auto

text \<open>Nothing is lost silently: a value that passed the check and was not accepted was counted.\<close>

lemma run_dropped:
  "wf q \<Longrightarrow> queue_run push pop q ops = (acc, out, q') \<Longrightarrow>
   length acc \<le> fitting (fits q) ops \<and> dropped q' = dropped q + of_nat (fitting (fits q) ops - length acc)"
proof (induction ops arbitrary: q acc out q')
  case Nil
  then show ?case by simp
next
  case (Cons op ops)
  show ?case
  proof (cases op)
    case (Push x)
    obtain acc1 out1 q2 where r: "queue_run push pop (snd (push q x)) ops = (acc1, out1, q2)" by (metis prod_cases3)
    from Cons.IH [OF enq_wf [OF Cons.prems(1)] r]
    have IH: "length acc1 \<le> fitting (fits q) ops"
      "dropped q2 = dropped (snd (push q x)) + of_nat (fitting (fits q) ops - length acc1)" by (simp_all add: fits_stable)
    from Cons.prems(2) Push r have eq: "acc = (if fst (push q x) then x # acc1 else acc1)" "q' = q2"
      by (auto simp: Let_def split: prod.splits)
    from Cons.prems(1) show ?thesis
      by (cases rule: enq_cases [where x = x])
        (use IH eq Push in \<open>simp_all add: Suc_diff_le\<close>)
  next
    case Pop
    obtain acc1 out1 q2 where r: "queue_run push pop (snd (pop q)) ops = (acc1, out1, q2)" by (metis prod_cases3)
    from Cons.IH [OF deq_wf [OF Cons.prems(1)] r]
    have IH: "length acc1 \<le> fitting (fits q) ops"
      "dropped q2 = dropped (snd (pop q)) + of_nat (fitting (fits q) ops - length acc1)" by (simp_all add: fits_stable)
    from Cons.prems(2) Pop r have eq: "acc = acc1" "q' = q2"
      by (auto simp: Let_def split: prod.splits)
    have "dropped (snd (pop q)) = dropped q"
      using deq_empty [OF Cons.prems(1)] deq_head [OF Cons.prems(1)] by (cases "items q") auto
    with IH eq Pop show ?thesis by simp
  qed
qed

lemma enq_refused_iff:
  assumes "wf q" and "fits q x"
  shows "fst (push q x) \<longleftrightarrow> length (items q) < limit q"
  using enq_full [OF assms] enq_room [OF assms] items_bound [OF assms(1)] le_neq_implies_less by blast

lemma run_limit: "queue_run push pop q ops = (acc, out, q') \<Longrightarrow> limit q' = limit q"
proof (induction ops arbitrary: q acc out q')
  case (Cons op ops)
  then show ?case using enq_limit deq_limit
    by (cases op) (auto simp: Let_def split: prod.splits, (metis snd_conv)+)
qed simp

lemma run_bounded:
  "wf q \<Longrightarrow> queue_run push pop q ops = (acc, out, q') \<Longrightarrow> length acc + length (items q) \<le> length out + limit q"
  using run_fifo [of q ops acc out q'] run_wf [of q ops acc out q'] items_bound [of q']
    run_limit [of q ops acc out q'] arg_cong [of _ _ length]
  by (metis add.commute add_le_cancel_left length_append length_map)

end

section \<open>The ring as two threads\<close>

text \<open>
  The same push and pop with every access to shared memory a step of its own: the producer loads the
  consumer's index (its own it wrote itself), writes the slot, which another thread could see
  half-written (\<open>None\<close>), and publishes; the consumer loads the producer's index, copies the slot and
  publishes.  Steps of the two threads interleave in any order.  The acquire and release orders of
  the code make each index load see everything written before the store it reads from, which is
  what a step on shared memory states.  The ghost fields record what was published and what the
  consumer copied.
\<close>

datatype 'a producer_pc = P_Idle | P_Loaded 'a nat nat | P_Writing 'a nat nat | P_Written 'a nat nat
datatype 'a consumer_pc = C_Idle | C_Loaded nat | C_Copied nat "'a option"

record 'a ring_threads =
  rt_slots :: "'a option list"
  rt_producer :: nat
  rt_consumer :: nat
  rt_maximum :: nat
  rt_dropped :: nat
  rt_ppc :: "'a producer_pc"
  rt_cpc :: "'a consumer_pc"
  rt_sent :: "'a list"
  rt_received :: "'a option list"

definition ring_threads_init :: "nat \<Rightarrow> 'a ring_threads" where
  "ring_threads_init n = \<lparr>rt_slots = replicate n None, rt_producer = 0, rt_consumer = 0,
     rt_maximum = 0, rt_dropped = 0, rt_ppc = P_Idle, rt_cpc = C_Idle, rt_sent = [], rt_received = []\<rparr>"

inductive ring_step :: "nat \<Rightarrow> 'a ring_threads \<Rightarrow> 'a ring_threads \<Rightarrow> bool" for n where
  p_load:
    "rt_ppc s = P_Idle \<Longrightarrow>
     ring_step n s (s\<lparr>rt_ppc := P_Loaded x (rt_producer s) (rt_consumer s)\<rparr>)"
| p_full:
    "rt_ppc s = P_Loaded x p c \<Longrightarrow> ring_next p n = c \<Longrightarrow>
     ring_step n s (s\<lparr>rt_ppc := P_Idle, rt_dropped := rt_dropped s + 1\<rparr>)"
| p_write:
    "rt_ppc s = P_Loaded x p c \<Longrightarrow> ring_next p n \<noteq> c \<Longrightarrow>
     ring_step n s (s\<lparr>rt_ppc := P_Writing x p c, rt_slots := (rt_slots s)[p := None]\<rparr>)"
| p_written:
    "rt_ppc s = P_Writing x p c \<Longrightarrow>
     ring_step n s (s\<lparr>rt_ppc := P_Written x p c, rt_slots := (rt_slots s)[p := Some x]\<rparr>)"
| p_publish:
    "rt_ppc s = P_Written x p c \<Longrightarrow>
     ring_step n s (s\<lparr>rt_ppc := P_Idle, rt_producer := ring_next p n,
       rt_maximum := max (rt_maximum s) (queue_depth (ring_next p n) c n), rt_sent := rt_sent s @ [x]\<rparr>)"
| c_load:
    "rt_cpc s = C_Idle \<Longrightarrow> rt_consumer s \<noteq> rt_producer s \<Longrightarrow>
     ring_step n s (s\<lparr>rt_cpc := C_Loaded (rt_consumer s)\<rparr>)"
| c_copy:
    "rt_cpc s = C_Loaded c \<Longrightarrow>
     ring_step n s (s\<lparr>rt_cpc := C_Copied c (rt_slots s ! c)\<rparr>)"
| c_publish:
    "rt_cpc s = C_Copied c v \<Longrightarrow>
     ring_step n s (s\<lparr>rt_cpc := C_Idle, rt_consumer := ring_next c n,
       rt_received := rt_received s @ [v]\<rparr>)"

inductive ring_reachable :: "nat \<Rightarrow> 'a ring_threads \<Rightarrow> bool" for n where
  start: "ring_reachable n (ring_threads_init n)"
| step: "ring_reachable n s \<Longrightarrow> ring_step n s s' \<Longrightarrow> ring_reachable n s'"

text \<open>What each program counter promises about the shared indices.\<close>

fun producer_ok :: "nat \<Rightarrow> 'a producer_pc \<Rightarrow> nat \<Rightarrow> nat \<Rightarrow> 'a option list \<Rightarrow> bool" where
  "producer_ok n P_Idle pr cons slots = True"
| "producer_ok n (P_Loaded x p c) pr cons slots =
    (p = pr \<and> c < n \<and> (ring_next p n \<noteq> c \<longrightarrow> ring_next p n \<noteq> cons))"
| "producer_ok n (P_Writing x p c) pr cons slots =
    (p = pr \<and> c < n \<and> ring_next p n \<noteq> c \<and> ring_next p n \<noteq> cons)"
| "producer_ok n (P_Written x p c) pr cons slots =
    (p = pr \<and> c < n \<and> ring_next p n \<noteq> c \<and> ring_next p n \<noteq> cons \<and> slots ! p = Some x)"

fun consumer_ok :: "'a consumer_pc \<Rightarrow> nat \<Rightarrow> nat \<Rightarrow> 'a option list \<Rightarrow> bool" where
  "consumer_ok C_Idle pr cons slots = True"
| "consumer_ok (C_Loaded c) pr cons slots = (c = cons \<and> c \<noteq> pr)"
| "consumer_ok (C_Copied c v) pr cons slots = (c = cons \<and> c \<noteq> pr \<and> v = slots ! c)"

lemma consumer_ok_update:
  "consumer_ok pc pr cons slots \<Longrightarrow> consumer_ok pc pr cons (slots[pr := x])"
  by (cases pc) auto

lemma consumer_ok_publish:
  "consumer_ok pc pr cons slots \<Longrightarrow> pr' \<noteq> cons \<Longrightarrow> consumer_ok pc pr' cons slots"
  by (cases pc) auto

lemma producer_ok_pop:
  "producer_ok n pc pr cons slots \<Longrightarrow> pr < n \<Longrightarrow> cons < n \<Longrightarrow> pr \<noteq> cons \<Longrightarrow>
   producer_ok n pc pr (ring_next cons n) slots"
  by (cases pc) (auto simp: ring_next_eq split: if_splits)

definition ring_inv :: "nat \<Rightarrow> 'a ring_threads \<Rightarrow> bool" where
  "ring_inv n s \<longleftrightarrow> length (rt_slots s) = n \<and> rt_producer s < n \<and> rt_consumer s < n \<and>
     producer_ok n (rt_ppc s) (rt_producer s) (rt_consumer s) (rt_slots s) \<and>
     consumer_ok (rt_cpc s) (rt_producer s) (rt_consumer s) (rt_slots s) \<and> rt_maximum s < n \<and>
     map Some (rt_sent s) = rt_received s @ ring_items (rt_slots s) (rt_producer s) (rt_consumer s) n"

lemma ring_inv_init: "0 < n \<Longrightarrow> ring_inv n (ring_threads_init n)"
  by (simp add: ring_inv_def ring_threads_init_def ring_items_def)

lemma ring_inv_step:
  assumes inv: "ring_inv n s" and step: "ring_step n s s'"
  shows "ring_inv n s'"
proof -
  have len: "length (rt_slots s) = n" and p: "rt_producer s < n" and c: "rt_consumer s < n"
    and pok: "producer_ok n (rt_ppc s) (rt_producer s) (rt_consumer s) (rt_slots s)"
    and cok: "consumer_ok (rt_cpc s) (rt_producer s) (rt_consumer s) (rt_slots s)"
    and m: "rt_maximum s < n"
    and h: "map Some (rt_sent s) =
      rt_received s @ ring_items (rt_slots s) (rt_producer s) (rt_consumer s) n"
    using inv by (simp_all add: ring_inv_def)
  have upd: "ring_items ((rt_slots s)[rt_producer s := x]) (rt_producer s) (rt_consumer s) n =
      ring_items (rt_slots s) (rt_producer s) (rt_consumer s) n" for x
    by (rule ring_items_update) (use p c len in simp_all)
  note upd_ok = consumer_ok_update [OF cok]
  from step show ?thesis
  proof (cases rule: ring_step.cases)
    case (p_publish x p' c')
    then have p': "p' = rt_producer s" "c' < n" "ring_next p' n \<noteq> rt_consumer s" "rt_slots s ! p' = Some x"
      using pok by auto
    have "(rt_slots s)[rt_producer s := Some x] = rt_slots s" using p'(1,4) by (simp add: nth_eq_imp_update_same)
    then have "ring_items (rt_slots s) (ring_next p' n) (rt_consumer s) n =
        ring_items (rt_slots s) (rt_producer s) (rt_consumer s) n @ [Some x]"
      using ring_items_push [of "rt_producer s" n "rt_consumer s" "rt_slots s" "Some x"] p c len p' by simp
    then show ?thesis
      using p_publish p' len p c m h depth_less [of "ring_next p' n" n c'] consumer_ok_publish [OF cok]
      by (simp add: ring_inv_def)
  next
    case (c_publish c' v)
    then have c': "c' = rt_consumer s" "rt_producer s \<noteq> rt_consumer s" "v = rt_slots s ! rt_consumer s"
      using cok by auto
    then show ?thesis
      using c_publish producer_ok_pop [OF pok p c] len p c m h
        ring_items_pop [OF p c, of "rt_slots s"] by (simp add: ring_inv_def)
  qed (use inv upd upd_ok pok in \<open>auto simp: ring_inv_def\<close>)
qed

lemma ring_reachable_inv: "ring_reachable n s \<Longrightarrow> 0 < n \<Longrightarrow> ring_inv n s"
  by (induction rule: ring_reachable.induct) (auto intro: ring_inv_init ring_inv_step)

lemma reach_step: "ring_reachable n s \<Longrightarrow> ring_step n s t \<Longrightarrow> t = s' \<Longrightarrow> ring_reachable n s'"
  by (auto intro: ring_reachable.step)

text \<open>One value published and being read while the producer writes the next one.\<close>

lemma replicate_3: "replicate 3 x = [x, x, x]"
  by (simp add: eval_nat_numeral)

definition ring_example :: "nat ring_threads" where
  "ring_example = \<lparr>rt_slots = [Some 7, None, None], rt_producer = 1, rt_consumer = 0, rt_maximum = 1,
     rt_dropped = 0, rt_ppc = P_Writing 8 1 0, rt_cpc = C_Loaded 0, rt_sent = [7], rt_received = []\<rparr>"

lemma ring_example_reachable: "ring_reachable 3 ring_example"
proof -
  let ?s = "\<lambda>slots p m ppc cpc sent. \<lparr>rt_slots = slots, rt_producer = p, rt_consumer = 0, rt_maximum = m,
     rt_dropped = 0, rt_ppc = ppc, rt_cpc = cpc, rt_sent = sent, rt_received = []\<rparr>"
  have "ring_reachable 3 (ring_threads_init 3 :: nat ring_threads)" by (rule start)
  then have "ring_reachable 3 (?s (replicate 3 None) 0 0 (P_Loaded (7::nat) 0 0) C_Idle [])"
    by (rule reach_step [OF _ p_load [where x = 7]]) (simp_all add: ring_threads_init_def)
  then have "ring_reachable 3 (?s [None, None, None] 0 0 (P_Writing (7::nat) 0 0) C_Idle [])"
    by (rule reach_step [OF _ p_write [where x = 7 and p = 0 and c = 0]]) (simp_all add: ring_next_def replicate_3)
  then have "ring_reachable 3 (?s [Some 7, None, None] 0 0 (P_Written (7::nat) 0 0) C_Idle [])"
    by (rule reach_step [OF _ p_written [where x = 7 and p = 0 and c = 0]]) simp_all
  then have "ring_reachable 3 (?s [Some 7, None, None] 1 1 P_Idle C_Idle [7::nat])"
    by (rule reach_step [OF _ p_publish [where x = 7 and p = 0 and c = 0]]) (simp_all add: ring_next_def queue_depth_def)
  then have "ring_reachable 3 (?s [Some 7, None, None] 1 1 P_Idle (C_Loaded 0) [7::nat])"
    by (rule reach_step [OF _ c_load]) simp_all
  then have "ring_reachable 3 (?s [Some 7, None, None] 1 1 (P_Loaded (8::nat) 1 0) (C_Loaded 0) [7::nat])"
    by (rule reach_step [OF _ p_load [where x = 8]]) simp_all
  then show ?thesis unfolding ring_example_def
    by (rule reach_step [OF _ p_write [where x = 8 and p = 1 and c = 0]]) (simp_all add: ring_next_def)
qed

section \<open>Properties\<close>

text \<open>
  no interleaving of the two threads lets them use one slot at the same time: whenever the
  producer is writing a slot, the consumer is not reading that slot, neither now nor at its next
  step, and nothing unread is overwritten.
\<close>

lemma ring_no_race:
  assumes "ring_reachable n s" and "0 < n" and "rt_ppc s = P_Writing x p c"
  shows "rt_cpc s \<noteq> C_Loaded p \<and>
    list_all (\<lambda>i. (rt_consumer s + i) mod n \<noteq> p) [0..<queue_depth (rt_producer s) (rt_consumer s) n]"
proof -
  have inv: "ring_inv n s" using ring_reachable_inv assms by blast
  then have p: "p = rt_producer s" "rt_producer s < n" "rt_consumer s < n"
    using assms(3) by (auto simp: ring_inv_def)
  have "(rt_consumer s + i) mod n \<noteq> p" if "i < queue_depth (rt_producer s) (rt_consumer s) n" for i
    using that depth_index [OF p(2,3)] index_inj [OF p(3)] depth_less [OF p(2,3)] p(1)
    by (metis less_trans nat_neq_iff)
  moreover have "rt_cpc s \<noteq> C_Loaded p"
    using inv p by (auto simp: ring_inv_def)
  ultimately show ?thesis by (simp add: list_all_iff)
qed

text \<open>
  C28: every interleaving of producer and consumer delivers what was published, whole, once and in
  order: what the consumer copied out so far is a prefix of what the producer published, no copy is
  of a half-written slot, and the rest is still in the ring, which never holds more than its
  capacity.
\<close>

theorem ring_threads_fifo:
  assumes "ring_reachable n s" and "0 < n"
  shows "map Some (rt_sent s) =
      rt_received s @ ring_items (rt_slots s) (rt_producer s) (rt_consumer s) n \<and>
    None \<notin> set (rt_received s) \<and> length (rt_sent s) < length (rt_received s) + n"
proof -
  have inv: "ring_inv n s" using ring_reachable_inv assms by blast
  then have h: "map Some (rt_sent s) =
      rt_received s @ ring_items (rt_slots s) (rt_producer s) (rt_consumer s) n"
    and len: "queue_depth (rt_producer s) (rt_consumer s) n < n"
    by (auto simp: ring_inv_def depth_less)
  from h have "set (rt_received s) \<subseteq> Some ` set (rt_sent s)"
    by (metis list.set_map set_append sup_ge1)
  moreover from h have "length (rt_sent s) = length (rt_received s) + queue_depth (rt_producer s) (rt_consumer s) n"
    by (metis length_append length_map length_ring_items)
  ultimately show ?thesis using h len by auto
qed

theorem ring_threads_fifo_witness:
  "map Some (rt_sent ring_example) =
      rt_received ring_example @
      ring_items (rt_slots ring_example) (rt_producer ring_example) (rt_consumer ring_example) 3 \<and>
    None \<notin> set (rt_received ring_example) \<and>
    length (rt_sent ring_example) < length (rt_received ring_example) + 3"
  by (rule ring_threads_fifo [OF ring_example_reachable]) simp

end
