(* ===== verification/PacketQueue.thy ===== *)
theory PacketQueue
  imports Spsc Fragmentation
begin

text \<open>
  The queue of whole packets, \<^verbatim>\<open>src/platform/packet_queue.c\<close>.  A slot keeps the bytes of earlier
  packets beyond its length, as the code's \<^verbatim>\<open>memcpy\<close> leaves them.  \<open>packet_items\<close> is the abstract
  queue; the interpretation \<open>packets\<close> shows that the code implements the interface \<open>spsc_queue\<close>.
\<close>

definition RTNC_PACKET_QUEUE_MAX_CAPACITY :: nat where [simp]: "RTNC_PACKET_QUEUE_MAX_CAPACITY = 8"
definition RTNC_PACKET_QUEUE_SLOTS :: nat where
  [simp]: "RTNC_PACKET_QUEUE_SLOTS = RTNC_PACKET_QUEUE_MAX_CAPACITY + 1"

record rtnc_packet_slot =
  sl_bytes :: bytes
  sl_length :: nat
  sl_sequence :: u64

record rtnc_packet_queue =
  pq_slots :: "rtnc_packet_slot list"
  pq_mtu :: nat
  pq_capacity :: nat
  pq_slot_count :: nat
  pq_producer :: nat
  pq_consumer :: nat
  pq_maximum_depth :: nat
  pq_dropped_packets :: u64

section \<open>Operations\<close>

definition empty_slot :: rtnc_packet_slot where
  "empty_slot = \<lparr>sl_bytes = replicate RTNC_LINK_MAX_MTU 0, sl_length = 0, sl_sequence = 0\<rparr>"

definition rtnc_packet_queue_init :: "nat \<Rightarrow> nat \<Rightarrow> rtnc_packet_queue option" where
  "rtnc_packet_queue_init capacity mtu =
    (if capacity = 0 \<or> capacity > RTNC_PACKET_QUEUE_MAX_CAPACITY \<or>
        mtu < RTNC_LINK_MIN_MTU \<or> mtu > RTNC_LINK_MAX_MTU then None
     else Some \<lparr>pq_slots = replicate RTNC_PACKET_QUEUE_SLOTS empty_slot, pq_mtu = mtu,
            pq_capacity = capacity, pq_slot_count = capacity + 1, pq_producer = 0, pq_consumer = 0,
            pq_maximum_depth = 0, pq_dropped_packets = 0\<rparr>)"

definition rtnc_packet_queue_push ::
    "rtnc_packet_queue \<Rightarrow> bytes \<Rightarrow> u64 \<Rightarrow> bool \<times> rtnc_packet_queue" where
  "rtnc_packet_queue_push queue packet sequence =
    (if length packet = 0 \<or> length packet > pq_mtu queue \<or> pq_slot_count queue < 2
     then (False, queue)
     else
       let producer = pq_producer queue;
           consumer = pq_consumer queue;
           next = ring_next producer (pq_slot_count queue)
       in if next = consumer
          then (False, queue\<lparr>pq_dropped_packets := pq_dropped_packets queue + 1\<rparr>)
          else
            let slot = pq_slots queue ! producer;
                slot = slot\<lparr>sl_bytes := buf_write (sl_bytes slot) 0 packet,
                            sl_length := length packet, sl_sequence := sequence\<rparr>;
                depth = queue_depth next consumer (pq_slot_count queue)
            in (True,
                queue\<lparr>pq_slots := (pq_slots queue)[producer := slot], pq_producer := next,
                      pq_maximum_depth := (if depth > pq_maximum_depth queue then depth
                                           else pq_maximum_depth queue)\<rparr>))"

definition rtnc_packet_queue_peek :: "rtnc_packet_queue \<Rightarrow> rtnc_packet_slot option" where
  "rtnc_packet_queue_peek queue =
    (if pq_slot_count queue < 2 then None
     else if pq_consumer queue = pq_producer queue then None
     else Some (pq_slots queue ! pq_consumer queue))"

definition rtnc_packet_queue_discard :: "rtnc_packet_queue \<Rightarrow> bool \<times> rtnc_packet_queue" where
  "rtnc_packet_queue_discard queue =
    (if pq_slot_count queue < 2 then (False, queue)
     else if pq_consumer queue = pq_producer queue then (False, queue)
     else (True, queue\<lparr>pq_consumer := ring_next (pq_consumer queue) (pq_slot_count queue)\<rparr>))"

definition rtnc_packet_queue_pop ::
    "rtnc_packet_queue \<Rightarrow> nat \<Rightarrow> (bytes \<times> u64) option \<times> rtnc_packet_queue" where
  "rtnc_packet_queue_pop queue capacity =
    (case rtnc_packet_queue_peek queue of
       None \<Rightarrow> (None, queue)
     | Some slot \<Rightarrow>
         if capacity < sl_length slot then (None, queue)
         else let (ok, queue') = rtnc_packet_queue_discard queue
              in (if ok then Some (take (sl_length slot) (sl_bytes slot), sl_sequence slot) else None,
                  queue'))"

definition rtnc_packet_queue_depth :: "rtnc_packet_queue \<Rightarrow> nat" where
  "rtnc_packet_queue_depth queue =
    (if pq_slot_count queue < 2 then 0
     else queue_depth (pq_producer queue) (pq_consumer queue) (pq_slot_count queue))"

definition rtnc_packet_queue_maximum_depth :: "rtnc_packet_queue \<Rightarrow> nat" where
  "rtnc_packet_queue_maximum_depth queue = pq_maximum_depth queue"

definition rtnc_packet_queue_dropped :: "rtnc_packet_queue \<Rightarrow> u64" where
  "rtnc_packet_queue_dropped queue = pq_dropped_packets queue"

section \<open>Invariant and abstraction\<close>

definition slot_packet :: "rtnc_packet_slot \<Rightarrow> bytes \<times> u64" where
  "slot_packet s = (take (sl_length s) (sl_bytes s), sl_sequence s)"

definition packet_queue_wf :: "rtnc_packet_queue \<Rightarrow> bool" where
  "packet_queue_wf q \<longleftrightarrow>
     length (pq_slots q) = RTNC_PACKET_QUEUE_SLOTS \<and> pq_slot_count q = pq_capacity q + 1 \<and>
     0 < pq_capacity q \<and> pq_capacity q \<le> RTNC_PACKET_QUEUE_MAX_CAPACITY \<and>
     pq_producer q < pq_slot_count q \<and> pq_consumer q < pq_slot_count q \<and>
     RTNC_LINK_MIN_MTU \<le> pq_mtu q \<and> pq_mtu q \<le> RTNC_LINK_MAX_MTU \<and>
     pq_maximum_depth q \<le> pq_capacity q \<and>
     (\<forall>s\<in>set (pq_slots q). length (sl_bytes s) = RTNC_LINK_MAX_MTU \<and> sl_length s \<le> pq_mtu q)"

definition packet_items :: "rtnc_packet_queue \<Rightarrow> (bytes \<times> u64) list" where
  "packet_items q =
    map slot_packet (ring_items (pq_slots q) (pq_producer q) (pq_consumer q) (pq_slot_count q))"

definition packet_fits :: "rtnc_packet_queue \<Rightarrow> bytes \<times> u64 \<Rightarrow> bool" where
  "packet_fits q = (\<lambda>(p, s). p \<noteq> [] \<and> length p \<le> pq_mtu q)"

lemma packet_queue_init_ok:
  "rtnc_packet_queue_init capacity mtu = Some q \<Longrightarrow>
   packet_queue_wf q \<and> packet_items q = [] \<and> pq_capacity q = capacity \<and> pq_mtu q = mtu \<and>
   pq_dropped_packets q = 0"
  by (auto simp: rtnc_packet_queue_init_def packet_queue_wf_def packet_items_def ring_items_def
      empty_slot_def split: if_splits)

lemma packet_depth_eq:
  "packet_queue_wf q \<Longrightarrow> rtnc_packet_queue_depth q = length (packet_items q)"
  by (simp add: packet_queue_wf_def rtnc_packet_queue_depth_def packet_items_def)

lemma packet_full_iff:
  "packet_queue_wf q \<Longrightarrow>
   ring_next (pq_producer q) (pq_slot_count q) = pq_consumer q \<longleftrightarrow> length (packet_items q) = pq_capacity q"
  by (simp add: packet_queue_wf_def packet_items_def depth_full_iff)

lemma packet_push_unfit:
  "\<not> packet_fits q (p, s) \<Longrightarrow> rtnc_packet_queue_push q p s = (False, q)"
  by (auto simp: packet_fits_def rtnc_packet_queue_push_def)

lemma packet_push_full:
  "packet_queue_wf q \<Longrightarrow> packet_fits q (p, s) \<Longrightarrow> length (packet_items q) = pq_capacity q \<Longrightarrow>
   rtnc_packet_queue_push q p s = (False, q\<lparr>pq_dropped_packets := pq_dropped_packets q + 1\<rparr>)"
  using packet_full_iff [of q]
  by (simp add: rtnc_packet_queue_push_def packet_queue_wf_def packet_fits_def)

lemma packet_push_room:
  assumes wf: "packet_queue_wf q" and fits: "packet_fits q (p, s)"
    and room: "length (packet_items q) < pq_capacity q"
  shows "\<exists>q'. rtnc_packet_queue_push q p s = (True, q') \<and> packet_queue_wf q' \<and>
    packet_items q' = packet_items q @ [(p, s)] \<and> pq_capacity q' = pq_capacity q \<and>
    pq_mtu q' = pq_mtu q \<and> pq_dropped_packets q' = pq_dropped_packets q \<and>
    pq_maximum_depth q' = max (pq_maximum_depth q) (length (packet_items q) + 1)"
proof -
  let ?n = "pq_slot_count q" and ?p = "pq_producer q" and ?c = "pq_consumer q"
  let ?slot = "(pq_slots q ! ?p)\<lparr>sl_bytes := buf_write (sl_bytes (pq_slots q ! ?p)) 0 p,
    sl_length := length p, sl_sequence := s\<rparr>"
  let ?q = "q\<lparr>pq_slots := (pq_slots q)[?p := ?slot], pq_producer := ring_next ?p ?n,
    pq_maximum_depth := max (pq_maximum_depth q) (Suc (queue_depth ?p ?c ?n))\<rparr>"
  have n: "?p < ?n" "?c < ?n" "?n \<le> length (pq_slots q)" "?n = pq_capacity q + 1"
    using wf by (auto simp: packet_queue_wf_def)
  have free: "ring_next ?p ?n \<noteq> ?c" using packet_full_iff [OF wf] room by simp
  have slot: "length (sl_bytes (pq_slots q ! ?p)) = RTNC_LINK_MAX_MTU"
    using wf n by (simp add: packet_queue_wf_def)
  have p: "p \<noteq> []" "length p \<le> pq_mtu q" "pq_mtu q \<le> RTNC_LINK_MAX_MTU"
    using wf fits by (simp_all add: packet_fits_def packet_queue_wf_def)
  have push: "rtnc_packet_queue_push q p s = (True, ?q)"
    using n free p depth_push [OF n(1,2) free] wf
    by (simp add: rtnc_packet_queue_push_def Let_def max_def packet_queue_wf_def)
  have "slot_packet ?slot = (p, s)"
    using p slot by (simp add: slot_packet_def take_buf_write_0)
  then have items: "packet_items ?q = packet_items q @ [(p, s)]"
    using ring_items_push [OF n(1-3) free] by (simp add: packet_items_def)
  have "\<forall>s\<in>set ((pq_slots q)[?p := ?slot]).
      length (sl_bytes s) = RTNC_LINK_MAX_MTU \<and> sl_length s \<le> pq_mtu q"
    using wf p slot by (auto simp: packet_queue_wf_def length_buf_write dest!: set_mp [OF set_update_subset_insert])
  then have "packet_queue_wf ?q"
    using wf n room by (simp add: packet_queue_wf_def packet_items_def)
  then show ?thesis using push items by (simp add: packet_items_def)
qed

lemma packet_pop_empty:
  "packet_queue_wf q \<Longrightarrow> packet_items q = [] \<Longrightarrow> rtnc_packet_queue_pop q cap = (None, q)"
  by (simp add: packet_queue_wf_def packet_items_def ring_items_empty_iff rtnc_packet_queue_pop_def
      rtnc_packet_queue_peek_def)

lemma packet_slot_ok:
  assumes "packet_queue_wf q" and "i < pq_slot_count q"
  shows "length (sl_bytes (pq_slots q ! i)) = RTNC_LINK_MAX_MTU" "sl_length (pq_slots q ! i) \<le> pq_mtu q"
    "sl_length (pq_slots q ! i) \<le> RTNC_LINK_MAX_MTU"
proof -
  have "pq_slots q ! i \<in> set (pq_slots q)" "pq_mtu q \<le> RTNC_LINK_MAX_MTU"
    using assms by (auto simp: packet_queue_wf_def)
  then show "length (sl_bytes (pq_slots q ! i)) = RTNC_LINK_MAX_MTU" "sl_length (pq_slots q ! i) \<le> pq_mtu q"
    "sl_length (pq_slots q ! i) \<le> RTNC_LINK_MAX_MTU"
    using assms(1) le_trans unfolding packet_queue_wf_def by blast+
qed

lemma packet_peek_head:
  assumes "packet_queue_wf q" and "packet_items q = y # ys"
  shows "\<exists>slot. rtnc_packet_queue_peek q = Some slot \<and> slot_packet slot = y \<and>
    sl_length slot \<le> pq_mtu q \<and> length (fst y) = sl_length slot"
proof -
  have n: "pq_producer q < pq_slot_count q" "pq_consumer q < pq_slot_count q"
    "pq_slot_count q \<le> length (pq_slots q)" using assms(1) by (auto simp: packet_queue_wf_def)
  moreover have "pq_producer q \<noteq> pq_consumer q"
    using assms(2) n by (auto simp: packet_items_def ring_items_def)
  moreover have "2 \<le> pq_slot_count q" using assms(1) by (simp add: packet_queue_wf_def)
  ultimately show ?thesis using assms(2) ring_items_pop [OF n(1,2), of "pq_slots q"]
      packet_slot_ok [OF assms(1) n(2)]
    by (auto simp: rtnc_packet_queue_peek_def packet_items_def slot_packet_def)
qed

lemma packet_discard_head:
  assumes "packet_queue_wf q" and "packet_items q = y # ys"
  shows "\<exists>q'. rtnc_packet_queue_discard q = (True, q') \<and> packet_queue_wf q' \<and> packet_items q' = ys \<and>
    q' = q\<lparr>pq_consumer := pq_consumer q'\<rparr>"
proof -
  have n: "pq_producer q < pq_slot_count q" "pq_consumer q < pq_slot_count q" "2 \<le> pq_slot_count q"
    using assms(1) by (auto simp: packet_queue_wf_def)
  moreover have "pq_producer q \<noteq> pq_consumer q"
    using assms(2) n by (auto simp: packet_items_def ring_items_def)
  ultimately show ?thesis using assms ring_items_pop [OF n(1,2), of "pq_slots q"]
    by (auto simp: rtnc_packet_queue_discard_def packet_items_def packet_queue_wf_def)
qed

lemma packet_pop_head:
  assumes "packet_queue_wf q" and "packet_items q = y # ys" and "length (fst y) \<le> cap"
  shows "\<exists>q'. rtnc_packet_queue_pop q cap = (Some y, q') \<and> packet_queue_wf q' \<and> packet_items q' = ys \<and>
    q' = q\<lparr>pq_consumer := pq_consumer q'\<rparr>"
  using packet_peek_head [OF assms(1,2)] packet_discard_head [OF assms(1,2)] assms(3)
  by (auto simp: rtnc_packet_queue_pop_def slot_packet_def)

lemma packet_pop_small:
  assumes "packet_queue_wf q" and "packet_items q = y # ys" and "cap < length (fst y)"
  shows "rtnc_packet_queue_pop q cap = (None, q)"
  using packet_peek_head [OF assms(1,2)] assms(3) by (auto simp: rtnc_packet_queue_pop_def)

lemma packet_items_bound: "packet_queue_wf q \<Longrightarrow> length (packet_items q) \<le> pq_capacity q"
  using depth_less [of "pq_producer q" "pq_slot_count q" "pq_consumer q"]
  by (simp add: packet_queue_wf_def packet_items_def)

lemma packet_item_length:
  "packet_queue_wf q \<Longrightarrow> y \<in> set (packet_items q) \<Longrightarrow> length (fst y) \<le> pq_mtu q"
proof -
  assume wf: "packet_queue_wf q" and "y \<in> set (packet_items q)"
  then obtain i where y: "y = slot_packet (pq_slots q ! ((pq_consumer q + i) mod pq_slot_count q))"
    by (auto simp: packet_items_def ring_items_def)
  have "0 < pq_slot_count q" using wf by (simp add: packet_queue_wf_def)
  then have "(pq_consumer q + i) mod pq_slot_count q < pq_slot_count q" by simp
  from packet_slot_ok [OF wf this] show ?thesis by (simp add: y slot_packet_def min_le_iff_disj)
qed

section \<open>The queue interface\<close>

abbreviation packet_push :: "rtnc_packet_queue \<Rightarrow> bytes \<times> u64 \<Rightarrow> bool \<times> rtnc_packet_queue" where
  "packet_push q x \<equiv> rtnc_packet_queue_push q (fst x) (snd x)"

abbreviation packet_pop :: "rtnc_packet_queue \<Rightarrow> (bytes \<times> u64) option \<times> rtnc_packet_queue" where
  "packet_pop q \<equiv> rtnc_packet_queue_pop q RTNC_LINK_MAX_MTU"

lemma packet_push_config:
  "pq_capacity (snd (rtnc_packet_queue_push q p s)) = pq_capacity q"
  "pq_mtu (snd (rtnc_packet_queue_push q p s)) = pq_mtu q"
  by (simp_all add: rtnc_packet_queue_push_def Let_def)

lemma packet_pop_config:
  "pq_capacity (snd (rtnc_packet_queue_pop q c)) = pq_capacity q"
  "pq_mtu (snd (rtnc_packet_queue_pop q c)) = pq_mtu q"
  by (simp_all add: rtnc_packet_queue_pop_def rtnc_packet_queue_discard_def split: option.splits)

lemma packet_push_wf: "packet_queue_wf q \<Longrightarrow> packet_queue_wf (snd (rtnc_packet_queue_push q p s))"
proof -
  assume wf: "packet_queue_wf q"
  consider "\<not> packet_fits q (p, s)" | "packet_fits q (p, s)" "length (packet_items q) = pq_capacity q"
    | "packet_fits q (p, s)" "length (packet_items q) < pq_capacity q"
    using packet_items_bound [OF wf] by linarith
  then show ?thesis
  proof cases
    case 1
    then show ?thesis using wf by (simp add: packet_push_unfit)
  next
    case 2
    then show ?thesis using wf packet_push_full [OF wf 2] by (simp add: packet_queue_wf_def)
  next
    case 3
    then show ?thesis using packet_push_room [OF wf 3] by auto
  qed
qed

lemma packet_pop_wf: "packet_queue_wf q \<Longrightarrow> packet_queue_wf (snd (rtnc_packet_queue_pop q c))"
proof (cases "packet_items q")
  case (Cons y ys)
  assume wf: "packet_queue_wf q"
  with Cons show ?thesis using packet_pop_head [OF wf Cons, of c] packet_pop_small [OF wf Cons, of c]
    by (cases "length (fst y) \<le> c") auto
qed (simp add: packet_pop_empty)

lemma packet_pop_large:
  assumes "packet_queue_wf q" and "packet_items q = y # ys"
  shows "\<exists>q'. packet_pop q = (Some y, q') \<and> packet_items q' = ys \<and> q' = q\<lparr>pq_consumer := pq_consumer q'\<rparr>"
proof -
  have "length (fst y) \<le> RTNC_LINK_MAX_MTU"
    using packet_item_length [OF assms(1), of y] assms by (simp add: packet_queue_wf_def)
  from packet_pop_head [OF assms this] show ?thesis by blast
qed

interpretation packets: spsc_queue packet_queue_wf packet_items pq_capacity packet_fits "\<lambda>x. x"
  packet_push packet_pop rtnc_packet_queue_dropped rtnc_packet_queue_maximum_depth
proof (unfold_locales, goal_cases)
  case (3 q x)
  then show ?case by (simp add: packet_push_unfit)
next
  case (4 q x)
  then show ?case using packet_push_full [of q "fst x" "snd x"]
    by (simp add: packet_items_def rtnc_packet_queue_dropped_def rtnc_packet_queue_maximum_depth_def)
next
  case (5 q x)
  then show ?case using packet_push_room [of q "fst x" "snd x"]
    by (auto simp: rtnc_packet_queue_dropped_def rtnc_packet_queue_maximum_depth_def)
next
  case (8 q y ys)
  then obtain q' where q': "packet_pop q = (Some y, q')" "packet_items q' = ys"
    "q' = q\<lparr>pq_consumer := pq_consumer q'\<rparr>" using packet_pop_large by blast
  from q'(3) have "pq_dropped_packets q' = pq_dropped_packets q" "pq_maximum_depth q' = pq_maximum_depth q"
    by (metis rtnc_packet_queue.ext_inject rtnc_packet_queue.surjective rtnc_packet_queue.update_convs(6))+
  then show ?case using q'(1,2)
    by (simp add: rtnc_packet_queue_dropped_def rtnc_packet_queue_maximum_depth_def)
qed (simp_all add: packet_items_bound packet_push_wf packet_pop_wf packet_pop_empty packet_push_config
    packet_pop_config packet_fits_def)

section \<open>Properties\<close>

text \<open>
  C29: the packet queue is a bounded first-in-first-out queue.  Over any sequence of pushes and pops
  after its initialisation, the packets popped followed by those still inside are exactly the
  accepted ones, bytes and sequence numbers unchanged and in order; it never holds more than its
  capacity; and each well-formed packet it refused was counted as dropped.
\<close>

theorem packet_queue_fifo:
  assumes "rtnc_packet_queue_init capacity mtu = Some q"
    and "queue_run packet_push packet_pop q ops = (accepted, popped, q')"
  shows "accepted = popped @ packet_items q' \<and> length (packet_items q') \<le> capacity \<and>
    rtnc_packet_queue_dropped q' = of_nat (fitting (packet_fits q) ops - length accepted)"
proof -
  have q: "packet_queue_wf q" "packet_items q = []" "pq_capacity q = capacity" "pq_dropped_packets q = 0"
    using packet_queue_init_ok [OF assms(1)] by auto
  show ?thesis
    using packets.run_fifo [OF q(1) assms(2)] packets.run_dropped [OF q(1) assms(2)]
      packets.items_bound [OF packets.run_wf [OF q(1) assms(2)]] packets.run_limit [OF assms(2)] q
    by (simp add: rtnc_packet_queue_dropped_def)
qed

theorem packet_queue_fifo_witness:
  "\<exists>q q'. rtnc_packet_queue_init 1 500 = Some q \<and>
    [([1, 2], 7)] = [([1, 2], 7)] @ packet_items q' \<and> length (packet_items q') \<le> 1 \<and>
    rtnc_packet_queue_dropped q' =
      of_nat (fitting (packet_fits q) [Push ([1, 2], 7), Push ([3], 8), Pop] - length [([1 :: u8, 2], 7 :: u64)])"
proof -
  obtain q where q: "rtnc_packet_queue_init 1 500 = Some q" by (simp add: rtnc_packet_queue_init_def)
  have wf: "packet_queue_wf q" "packet_items q = []" "pq_capacity q = 1" "pq_mtu q = 500"
    using packet_queue_init_ok [OF q] by auto
  then obtain q1 where q1: "packet_push q ([1, 2], 7) = (True, q1)" "packet_queue_wf q1"
    "packet_items q1 = [([1, 2], 7)]" "pq_capacity q1 = 1" "pq_mtu q1 = 500"
    using packet_push_room [of q "[1, 2]" 7] by (auto simp: packet_fits_def)
  let ?q2 = "q1\<lparr>pq_dropped_packets := pq_dropped_packets q1 + 1\<rparr>"
  have q2: "packet_push q1 ([3], 8) = (False, ?q2)"
    using packet_push_full [of q1 "[3]" 8] q1 by (simp add: packet_fits_def)
  have wf2: "packet_queue_wf ?q2" "packet_items ?q2 = [([1, 2], 7)]"
    using q1 by (simp_all add: packet_queue_wf_def packet_items_def)
  from packet_pop_large [OF wf2] obtain q3 where q3: "packet_pop ?q2 = (Some ([1, 2], 7), q3)" by blast
  have "queue_run packet_push packet_pop q [Push ([1, 2], 7), Push ([3], 8), Pop] =
      ([([1, 2], 7)], [([1, 2], 7)], q3)"
    using q1(1) q2 q3 by simp
  from packet_queue_fifo [OF q this] q show ?thesis by blast
qed

end
