(* ===== verification/AudioRing.thy ===== *)
theory AudioRing
  imports Spsc
begin

text \<open>
  The ring of captured audio blocks, \<^verbatim>\<open>src/platform/audio_ring.c\<close>.  Blocks have a fixed array of
  which the first \<open>ab_count\<close> samples are valid; \<open>audio_items\<close> is the abstract queue and the
  interpretation \<open>audio\<close> discharges the interface \<open>spsc_queue\<close>.
\<close>

definition RTNC_AUDIO_BLOCK_SAMPLES :: nat where [simp]: "RTNC_AUDIO_BLOCK_SAMPLES = 480"
definition RTNC_AUDIO_RING_MAX_CAPACITY :: nat where [simp]: "RTNC_AUDIO_RING_MAX_CAPACITY = 32"
definition RTNC_AUDIO_RING_SLOTS :: nat where
  [simp]: "RTNC_AUDIO_RING_SLOTS = RTNC_AUDIO_RING_MAX_CAPACITY + 1"

record rtnc_audio_block =
  ab_samples :: "s16 list"
  ab_count :: nat

record rtnc_audio_ring =
  ar_blocks :: "rtnc_audio_block list"
  ar_capacity :: nat
  ar_slot_count :: nat
  ar_producer :: nat
  ar_consumer :: nat
  ar_maximum_depth :: nat
  ar_dropped_blocks :: u64

section \<open>Operations\<close>

definition rtnc_audio_ring_init :: "nat \<Rightarrow> rtnc_audio_ring option" where
  "rtnc_audio_ring_init capacity =
    (if capacity = 0 \<or> capacity > RTNC_AUDIO_RING_MAX_CAPACITY then None
     else Some \<lparr>ar_blocks = replicate RTNC_AUDIO_RING_SLOTS
              \<lparr>ab_samples = replicate RTNC_AUDIO_BLOCK_SAMPLES 0, ab_count = 0\<rparr>,
            ar_capacity = capacity, ar_slot_count = capacity + 1, ar_producer = 0, ar_consumer = 0,
            ar_maximum_depth = 0, ar_dropped_blocks = 0\<rparr>)"

definition rtnc_audio_ring_push :: "rtnc_audio_ring \<Rightarrow> s16 list \<Rightarrow> bool \<times> rtnc_audio_ring" where
  "rtnc_audio_ring_push ring samples =
    (if length samples = 0 \<or> length samples > RTNC_AUDIO_BLOCK_SAMPLES then (False, ring)
     else
       let producer = ar_producer ring;
           next = ring_next producer (ar_slot_count ring);
           consumer = ar_consumer ring
       in if next = consumer
          then (False, ring\<lparr>ar_dropped_blocks := ar_dropped_blocks ring + 1\<rparr>)
          else
            let block = ar_blocks ring ! producer;
                block = block\<lparr>ab_samples := buf_write (ab_samples block) 0 samples,
                              ab_count := length samples\<rparr>;
                depth = queue_depth next consumer (ar_slot_count ring)
            in (True,
                ring\<lparr>ar_blocks := (ar_blocks ring)[producer := block], ar_producer := next,
                     ar_maximum_depth := (if depth > ar_maximum_depth ring then depth
                                          else ar_maximum_depth ring)\<rparr>))"

definition rtnc_audio_ring_pop :: "rtnc_audio_ring \<Rightarrow> rtnc_audio_block option \<times> rtnc_audio_ring" where
  "rtnc_audio_ring_pop ring =
    (let consumer = ar_consumer ring
     in if consumer = ar_producer ring then (None, ring)
        else (Some (ar_blocks ring ! consumer),
              ring\<lparr>ar_consumer := ring_next consumer (ar_slot_count ring)\<rparr>))"

definition rtnc_audio_ring_depth :: "rtnc_audio_ring \<Rightarrow> nat" where
  "rtnc_audio_ring_depth ring = queue_depth (ar_producer ring) (ar_consumer ring) (ar_slot_count ring)"

definition rtnc_audio_ring_maximum_depth :: "rtnc_audio_ring \<Rightarrow> nat" where
  "rtnc_audio_ring_maximum_depth ring = ar_maximum_depth ring"

definition rtnc_audio_ring_dropped :: "rtnc_audio_ring \<Rightarrow> u64" where
  "rtnc_audio_ring_dropped ring = ar_dropped_blocks ring"

section \<open>Invariant and abstraction\<close>

definition block_data :: "rtnc_audio_block \<Rightarrow> s16 list" where
  "block_data b = take (ab_count b) (ab_samples b)"

definition audio_ring_wf :: "rtnc_audio_ring \<Rightarrow> bool" where
  "audio_ring_wf q \<longleftrightarrow>
     length (ar_blocks q) = RTNC_AUDIO_RING_SLOTS \<and> ar_slot_count q = ar_capacity q + 1 \<and>
     0 < ar_capacity q \<and> ar_capacity q \<le> RTNC_AUDIO_RING_MAX_CAPACITY \<and>
     ar_producer q < ar_slot_count q \<and> ar_consumer q < ar_slot_count q \<and>
     ar_maximum_depth q \<le> ar_capacity q \<and>
     (\<forall>b\<in>set (ar_blocks q). length (ab_samples b) = RTNC_AUDIO_BLOCK_SAMPLES)"

definition audio_items :: "rtnc_audio_ring \<Rightarrow> s16 list list" where
  "audio_items q =
    map block_data (ring_items (ar_blocks q) (ar_producer q) (ar_consumer q) (ar_slot_count q))"

definition audio_fits :: "s16 list \<Rightarrow> bool" where
  "audio_fits samples \<longleftrightarrow> samples \<noteq> [] \<and> length samples \<le> RTNC_AUDIO_BLOCK_SAMPLES"

lemma audio_ring_init_ok:
  "rtnc_audio_ring_init capacity = Some q \<Longrightarrow>
   audio_ring_wf q \<and> audio_items q = [] \<and> ar_capacity q = capacity \<and> ar_dropped_blocks q = 0"
  by (auto simp: rtnc_audio_ring_init_def audio_ring_wf_def audio_items_def ring_items_def split: if_splits)

lemma audio_wf_bounds:
  "audio_ring_wf q \<Longrightarrow> ar_producer q < ar_slot_count q \<and> ar_consumer q < ar_slot_count q \<and>
     ar_slot_count q \<le> length (ar_blocks q) \<and> ar_slot_count q = Suc (ar_capacity q)"
  by (auto simp: audio_ring_wf_def)

lemma audio_full_iff:
  "audio_ring_wf q \<Longrightarrow>
   ring_next (ar_producer q) (ar_slot_count q) = ar_consumer q \<longleftrightarrow> length (audio_items q) = ar_capacity q"
  using audio_wf_bounds [of q] by (simp add: audio_items_def depth_full_iff)

lemma audio_push_full:
  "audio_ring_wf q \<Longrightarrow> audio_fits s \<Longrightarrow> length (audio_items q) = ar_capacity q \<Longrightarrow>
   rtnc_audio_ring_push q s = (False, q\<lparr>ar_dropped_blocks := ar_dropped_blocks q + 1\<rparr>)"
  using audio_full_iff [of q] by (simp add: rtnc_audio_ring_push_def audio_fits_def)

lemma audio_push_room:
  assumes wf: "audio_ring_wf q" and fits: "audio_fits s" and room: "length (audio_items q) < ar_capacity q"
  shows "\<exists>q'. rtnc_audio_ring_push q s = (True, q') \<and> audio_ring_wf q' \<and>
    audio_items q' = audio_items q @ [s] \<and> ar_dropped_blocks q' = ar_dropped_blocks q \<and>
    ar_maximum_depth q' = max (ar_maximum_depth q) (length (audio_items q) + 1)"
proof -
  let ?n = "ar_slot_count q" and ?p = "ar_producer q" and ?c = "ar_consumer q"
  let ?block = "(ar_blocks q ! ?p)\<lparr>ab_samples := buf_write (ab_samples (ar_blocks q ! ?p)) 0 s,
    ab_count := length s\<rparr>"
  let ?q = "q\<lparr>ar_blocks := (ar_blocks q)[?p := ?block], ar_producer := ring_next ?p ?n,
    ar_maximum_depth := max (ar_maximum_depth q) (Suc (queue_depth ?p ?c ?n))\<rparr>"
  have n: "?p < ?n" "?c < ?n" "?n \<le> length (ar_blocks q)" "?n = Suc (ar_capacity q)"
    using audio_wf_bounds [OF wf] by auto
  have free: "ring_next ?p ?n \<noteq> ?c" using audio_full_iff [OF wf] room by simp
  have block: "length (ab_samples (ar_blocks q ! ?p)) = RTNC_AUDIO_BLOCK_SAMPLES"
    using wf n by (simp add: audio_ring_wf_def)
  have s: "s \<noteq> []" "length s \<le> RTNC_AUDIO_BLOCK_SAMPLES" using fits by (simp_all add: audio_fits_def)
  have push: "rtnc_audio_ring_push q s = (True, ?q)"
    using n free s depth_push [OF n(1,2) free]
    by (simp add: rtnc_audio_ring_push_def Let_def max_def)
  have "block_data ?block = s" using s block by (simp add: block_data_def take_buf_write_0)
  then have items: "audio_items ?q = audio_items q @ [s]"
    using ring_items_push [OF n(1-3) free] by (simp add: audio_items_def)
  have "\<forall>b\<in>set ((ar_blocks q)[?p := ?block]). length (ab_samples b) = RTNC_AUDIO_BLOCK_SAMPLES"
    using wf s block by (auto simp: audio_ring_wf_def length_buf_write dest!: set_mp [OF set_update_subset_insert])
  then have "audio_ring_wf ?q" using wf n room by (simp add: audio_ring_wf_def audio_items_def)
  then show ?thesis using push items by (simp add: audio_items_def)
qed

lemma audio_pop_head:
  assumes "audio_ring_wf q" and "audio_items q = y # ys"
  shows "\<exists>b q'. rtnc_audio_ring_pop q = (Some b, q') \<and> block_data b = y \<and> audio_ring_wf q' \<and>
    audio_items q' = ys \<and> ar_dropped_blocks q' = ar_dropped_blocks q \<and>
    ar_maximum_depth q' = ar_maximum_depth q"
proof -
  have n: "ar_producer q < ar_slot_count q" "ar_consumer q < ar_slot_count q"
    using audio_wf_bounds [OF assms(1)] by auto
  moreover have "ar_producer q \<noteq> ar_consumer q"
    using assms(2) n by (auto simp: audio_items_def ring_items_def)
  ultimately show ?thesis using assms ring_items_pop [OF n, of "ar_blocks q"]
    by (auto simp: rtnc_audio_ring_pop_def Let_def audio_items_def audio_ring_wf_def)
qed

lemma audio_pop_empty:
  "audio_ring_wf q \<Longrightarrow> audio_items q = [] \<Longrightarrow> rtnc_audio_ring_pop q = (None, q)"
  using audio_wf_bounds [of q]
  by (simp add: audio_items_def ring_items_empty_iff rtnc_audio_ring_pop_def)

lemma audio_items_bound: "audio_ring_wf q \<Longrightarrow> length (audio_items q) \<le> ar_capacity q"
  using depth_less [of "ar_producer q" "ar_slot_count q" "ar_consumer q"] audio_wf_bounds [of q]
  by (simp add: audio_items_def)

abbreviation audio_pop :: "rtnc_audio_ring \<Rightarrow> s16 list option \<times> rtnc_audio_ring" where
  "audio_pop q \<equiv> map_prod (map_option block_data) id (rtnc_audio_ring_pop q)"

lemma audio_push_wf: "audio_ring_wf q \<Longrightarrow> audio_ring_wf (snd (rtnc_audio_ring_push q s))"
proof -
  assume wf: "audio_ring_wf q"
  consider "\<not> audio_fits s" | "audio_fits s" "length (audio_items q) = ar_capacity q"
    | "audio_fits s" "length (audio_items q) < ar_capacity q"
    using audio_items_bound [OF wf] by linarith
  then show ?thesis
  proof cases
    case 2
    then show ?thesis using wf audio_push_full [OF wf 2] by (simp add: audio_ring_wf_def)
  next
    case 3
    then show ?thesis using audio_push_room [OF wf 3] by auto
  qed (use wf in \<open>auto simp: rtnc_audio_ring_push_def audio_fits_def\<close>)
qed

lemma audio_config:
  "ar_capacity (snd (rtnc_audio_ring_push q s)) = ar_capacity q"
  "ar_capacity (snd (rtnc_audio_ring_pop q)) = ar_capacity q"
  by (simp_all add: rtnc_audio_ring_push_def rtnc_audio_ring_pop_def Let_def)

interpretation audio: spsc_queue audio_ring_wf audio_items ar_capacity "\<lambda>_. audio_fits" "\<lambda>s. s"
  rtnc_audio_ring_push audio_pop rtnc_audio_ring_dropped rtnc_audio_ring_maximum_depth
proof (unfold_locales, goal_cases)
  case (3 q s)
  then show ?case by (auto simp: rtnc_audio_ring_push_def audio_fits_def)
next
  case (4 q s)
  then show ?case by (simp add: audio_push_full audio_items_def rtnc_audio_ring_dropped_def
      rtnc_audio_ring_maximum_depth_def)
next
  case (5 q s)
  then show ?case using audio_push_room [of q s]
    by (auto simp: rtnc_audio_ring_dropped_def rtnc_audio_ring_maximum_depth_def)
next
  case (6 q)
  then show ?case using audio_pop_head [of q] audio_pop_empty [of q] by (cases "audio_items q") auto
next
  case (8 q y ys)
  then show ?case using audio_pop_head [of q y ys]
    by (auto simp: rtnc_audio_ring_dropped_def rtnc_audio_ring_maximum_depth_def)
qed (simp_all add: audio_items_bound audio_push_wf audio_pop_empty audio_config)

section \<open>Properties\<close>

text \<open>
  the capture ring is a bounded first-in-first-out queue of sample blocks: over any sequence of
  pushes and pops after its initialisation the blocks popped followed by those still inside are the
  accepted ones in order, and each well-formed block it had to refuse was counted as dropped.
\<close>

lemma audio_ring_fifo:
  assumes "rtnc_audio_ring_init capacity = Some q"
    and "queue_run rtnc_audio_ring_push audio_pop q ops = (accepted, popped, q')"
  shows "accepted = popped @ audio_items q' \<and> length (audio_items q') \<le> capacity \<and>
    rtnc_audio_ring_dropped q' = of_nat (fitting audio_fits ops - length accepted)"
proof -
  have q: "audio_ring_wf q" "audio_items q = []" "ar_capacity q = capacity" "ar_dropped_blocks q = 0"
    using audio_ring_init_ok [OF assms(1)] by auto
  show ?thesis
    using audio.run_fifo [OF q(1) assms(2)] audio.run_dropped [OF q(1) assms(2)]
      audio.items_bound [OF audio.run_wf [OF q(1) assms(2)]] audio.run_limit [OF assms(2)] q
    by (simp add: rtnc_audio_ring_dropped_def)
qed

end
