(* ===== verification/ModemTypes.thy ===== *)
theory ModemTypes
  imports Main
begin

text \<open>The sizes and the status codes of \<^verbatim>\<open>include/rtnc/modem.h\<close>.\<close>

definition RTNC_MODEM_ACQUISITION_SYMBOLS :: nat where [simp]: "RTNC_MODEM_ACQUISITION_SYMBOLS = 32"
definition RTNC_MODEM_TIMING_WARMUP_SYMBOLS :: nat where [simp]: "RTNC_MODEM_TIMING_WARMUP_SYMBOLS = 64"
definition RTNC_MODEM_TIMING_TRAINING_SYMBOLS :: nat where [simp]: "RTNC_MODEM_TIMING_TRAINING_SYMBOLS = 32"
definition RTNC_MODEM_TRAINING_SYMBOLS :: nat where
  [simp]: "RTNC_MODEM_TRAINING_SYMBOLS = RTNC_MODEM_TIMING_WARMUP_SYMBOLS + RTNC_MODEM_TIMING_TRAINING_SYMBOLS"
definition RTNC_MODEM_RRC_DELAY_SYMBOLS :: nat where [simp]: "RTNC_MODEM_RRC_DELAY_SYMBOLS = 7"
definition RTNC_MODEM_TRAILING_SYMBOLS :: nat where [simp]: "RTNC_MODEM_TRAILING_SYMBOLS = 16"
definition RTNC_MODEM_EQUALIZER_TAPS :: nat where [simp]: "RTNC_MODEM_EQUALIZER_TAPS = 9"
definition RTNC_MODEM_MAX_FEC_BYTES :: nat where [simp]: "RTNC_MODEM_MAX_FEC_BYTES = 320"
definition RTNC_MODEM_MAX_PROTECTED_BYTES :: nat where [simp]: "RTNC_MODEM_MAX_PROTECTED_BYTES = 160"
definition RTNC_MODEM_MAX_AUDIO_SAMPLES :: nat where [simp]: "RTNC_MODEM_MAX_AUDIO_SAMPLES = 90000"
definition RTNC_MODEM_MAX_LLR :: nat where [simp]: "RTNC_MODEM_MAX_LLR = RTNC_MODEM_MAX_FEC_BYTES * 8"
definition RTNC_MODEM_MAX_RECOVERED_SYMBOLS :: nat where
  [simp]: "RTNC_MODEM_MAX_RECOVERED_SYMBOLS = RTNC_MODEM_MAX_AUDIO_SAMPLES div 20 + 64"

datatype rtnc_modem_status =
  RTNC_MODEM_OK | RTNC_MODEM_INVALID_ARGUMENT | RTNC_MODEM_BUFFER_TOO_SMALL | RTNC_MODEM_NO_FRAME
  | RTNC_MODEM_TRUNCATED_FRAME | RTNC_MODEM_FRAME_REJECTED | RTNC_MODEM_DSP_ERROR

datatype rtnc_preamble = RTNC_PREAMBLE_DATA | RTNC_PREAMBLE_CONTROL

end
