(* ===== verification/DecodeQueue.thy ===== *)
theory DecodeQueue
  imports Spsc Fp ModemTypes
begin

text \<open>
  The queue of frame candidates between the sample loop and the decoder thread,
  \<^verbatim>\<open>src/platform/decode_queue.c\<close>.  Samples are stored as 16-bit integers; \<open>quantize\<close> and \<open>restore\<close>
  are the conversions of the push and the pop.  Audio samples are real numbers (they stem from
  16-bit PCM, so none is infinite or NaN).  \<open>decode_items\<close> is the abstract queue, holding jobs in
  the form the decoder will get them; the interpretation \<open>jobs\<close> discharges \<open>spsc_queue\<close>.
\<close>

definition RTNC_DECODE_QUEUE_MAX_CAPACITY :: nat where [simp]: "RTNC_DECODE_QUEUE_MAX_CAPACITY = 8"
definition RTNC_DECODE_QUEUE_SLOTS :: nat where
  [simp]: "RTNC_DECODE_QUEUE_SLOTS = RTNC_DECODE_QUEUE_MAX_CAPACITY + 1"

record rtnc_decode_job =
  dj_samples :: "real list"   \<comment> \<open>the first \<^verbatim>\<open>count\<close> samples\<close>
  dj_sequence :: u64
  dj_enqueued_monotonic_ns :: u64

record rtnc_decode_slot =
  ds_samples :: "s16 list"
  ds_count :: nat
  ds_sequence :: u64
  ds_enqueued_monotonic_ns :: u64

record rtnc_decode_queue =
  dq_slots :: "rtnc_decode_slot list"
  dq_capacity :: nat
  dq_slot_count :: nat
  dq_producer :: nat
  dq_consumer :: nat
  dq_maximum_depth :: nat
  dq_dropped_jobs :: u64

section \<open>Operations\<close>

definition monotonic_nanoseconds :: "(u64 \<times> u64) option \<Rightarrow> u64" where
  \<comment> \<open>the argument is what \<^verbatim>\<open>clock_gettime\<close> returns: seconds and nanoseconds, or failure\<close>
  "monotonic_nanoseconds clock =
    (case clock of None \<Rightarrow> 0 | Some (sec, nsec) \<Rightarrow> sec * 1000000000 + nsec)"

definition quantize :: "real \<Rightarrow> s16" where
  "quantize sample =
    (let bounded = (if sample < -1 then -1 else if sample > 1 then 1 else sample);
         scaled = bounded * 32767
     in word_of_int (c_trunc (scaled + (if scaled \<ge> 0 then 1 / 2 else - (1 / 2)))))"

definition restore :: "s16 \<Rightarrow> real" where
  "restore sample = real_of_int (sint sample) / 32767"

definition rtnc_decode_queue_init :: "rtnc_decode_slot list \<Rightarrow> nat \<Rightarrow> rtnc_decode_queue option" where
  \<comment> \<open>the slots keep whatever the memory held\<close>
  "rtnc_decode_queue_init memory capacity =
    (if capacity = 0 \<or> capacity > RTNC_DECODE_QUEUE_MAX_CAPACITY then None
     else Some \<lparr>dq_slots = memory, dq_capacity = capacity, dq_slot_count = capacity + 1,
            dq_producer = 0, dq_consumer = 0, dq_maximum_depth = 0, dq_dropped_jobs = 0\<rparr>)"

definition rtnc_decode_queue_push ::
    "(u64 \<times> u64) option \<Rightarrow> rtnc_decode_queue \<Rightarrow> real list \<Rightarrow> u64 \<Rightarrow> bool \<times> rtnc_decode_queue" where
  "rtnc_decode_queue_push clock queue samples sequence =
    (if length samples = 0 \<or> length samples > RTNC_MODEM_MAX_AUDIO_SAMPLES then (False, queue)
     else
       let producer = dq_producer queue;
           next = ring_next producer (dq_slot_count queue);
           consumer = dq_consumer queue
       in if next = consumer
          then (False, queue\<lparr>dq_dropped_jobs := dq_dropped_jobs queue + 1\<rparr>)
          else
            let slot = dq_slots queue ! producer;
                slot = slot\<lparr>ds_samples := buf_write (ds_samples slot) 0 (map quantize samples),
                            ds_count := length samples, ds_sequence := sequence,
                            ds_enqueued_monotonic_ns := monotonic_nanoseconds clock\<rparr>;
                depth = queue_depth next consumer (dq_slot_count queue)
            in (True,
                queue\<lparr>dq_slots := (dq_slots queue)[producer := slot], dq_producer := next,
                      dq_maximum_depth := (if depth > dq_maximum_depth queue then depth
                                           else dq_maximum_depth queue)\<rparr>))"

definition slot_job :: "rtnc_decode_slot \<Rightarrow> rtnc_decode_job" where
  \<comment> \<open>what the pop copies out of a slot\<close>
  "slot_job slot = \<lparr>dj_samples = map restore (take (ds_count slot) (ds_samples slot)),
     dj_sequence = ds_sequence slot, dj_enqueued_monotonic_ns = ds_enqueued_monotonic_ns slot\<rparr>"

definition rtnc_decode_queue_pop :: "rtnc_decode_queue \<Rightarrow> rtnc_decode_job option \<times> rtnc_decode_queue" where
  "rtnc_decode_queue_pop queue =
    (let consumer = dq_consumer queue; producer = dq_producer queue
     in if consumer = producer then (None, queue)
        else (Some (slot_job (dq_slots queue ! consumer)),
              queue\<lparr>dq_consumer := ring_next consumer (dq_slot_count queue)\<rparr>))"

definition rtnc_decode_queue_depth :: "rtnc_decode_queue \<Rightarrow> nat" where
  "rtnc_decode_queue_depth queue = queue_depth (dq_producer queue) (dq_consumer queue) (dq_slot_count queue)"

definition rtnc_decode_queue_maximum_depth :: "rtnc_decode_queue \<Rightarrow> nat" where
  "rtnc_decode_queue_maximum_depth queue = dq_maximum_depth queue"

definition rtnc_decode_queue_dropped :: "rtnc_decode_queue \<Rightarrow> u64" where
  "rtnc_decode_queue_dropped queue = dq_dropped_jobs queue"

section \<open>Quantisation\<close>

definition clamp_unit :: "real \<Rightarrow> real" where
  "clamp_unit x = max (-1) (min 1 x)"

lemma quantize_int:
  "\<exists>n. quantize x = word_of_int n \<and> \<bar>n\<bar> \<le> 32767 \<and> \<bar>of_int n - clamp_unit x * 32767\<bar> \<le> 1 / 2"
proof -
  let ?s = "clamp_unit x * 32767"
  let ?r = "?s + (if ?s \<ge> 0 then 1 / 2 else - (1 / 2))"
  have q: "quantize x = word_of_int (c_trunc ?r)"
    by (simp add: quantize_def clamp_unit_def Let_def max_def min_def)
  have b: "-32767 \<le> ?s" "?s \<le> 32767" by (simp_all add: clamp_unit_def)
  have "\<bar>of_int (c_trunc ?r) - ?s\<bar> \<le> 1 / 2"
  proof (cases "?s \<ge> 0")
    case True
    then have r: "?r = ?s + 1 / 2" by simp
    have "of_int (c_trunc ?r) \<le> ?r \<and> ?r < of_int (c_trunc ?r) + 1"
      by (rule c_trunc_nonneg) (use True in simp)
    then show ?thesis unfolding r by linarith
  next
    case False
    then have r: "?r = ?s - 1 / 2" by simp
    have "?r \<le> of_int (c_trunc ?r) \<and> of_int (c_trunc ?r) < ?r + 1"
      by (rule c_trunc_nonpos) (use False in simp)
    then show ?thesis unfolding r by linarith
  qed
  moreover from this b have "\<bar>c_trunc ?r\<bar> \<le> 32767" by linarith
  ultimately show ?thesis using q by blast
qed

lemma sint_small: "\<bar>n\<bar> \<le> 32767 \<Longrightarrow> sint (word_of_int n :: s16) = n"
  by (simp add: signed_of_int signed_take_bit_int_eq_self)

lemma restore_quantize_error: "\<bar>restore (quantize x) - clamp_unit x\<bar> \<le> 1 / 65534"
proof -
  obtain n where n: "quantize x = word_of_int n" "\<bar>n\<bar> \<le> 32767" "\<bar>of_int n - clamp_unit x * 32767\<bar> \<le> 1 / 2"
    using quantize_int by blast
  have "restore (quantize x) = of_int n / 32767"
    unfolding restore_def n(1) sint_small [OF n(2)] ..
  with n(3) show ?thesis by linarith
qed

lemma quantize_restore:
  assumes "sint k \<noteq> - 32768" shows "quantize (restore k) = k"
proof -
  have k: "\<bar>sint k\<bar> \<le> 32767"
    using sint_ge [of k] sint_less [of k] assms by simp
  then have "- 1 \<le> restore k" "restore k \<le> 1"
    unfolding restore_def by linarith+
  then have "clamp_unit (restore k) = restore k"
    by (simp add: clamp_unit_def)
  moreover obtain n where n: "quantize (restore k) = word_of_int n"
      "\<bar>of_int n - clamp_unit (restore k) * 32767\<bar> \<le> 1 / 2"
    using quantize_int by blast
  ultimately have "\<bar>of_int n - (of_int (sint k) :: real)\<bar> \<le> 1 / 2" by (simp add: restore_def)
  then have "n = sint k" by linarith
  with n show ?thesis by simp
qed

section \<open>Invariant and abstraction\<close>

definition decode_queue_wf :: "rtnc_decode_queue \<Rightarrow> bool" where
  "decode_queue_wf q \<longleftrightarrow>
     length (dq_slots q) = RTNC_DECODE_QUEUE_SLOTS \<and> dq_slot_count q = dq_capacity q + 1 \<and>
     0 < dq_capacity q \<and> dq_capacity q \<le> RTNC_DECODE_QUEUE_MAX_CAPACITY \<and>
     dq_producer q < dq_slot_count q \<and> dq_consumer q < dq_slot_count q \<and>
     dq_maximum_depth q \<le> dq_capacity q \<and>
     (\<forall>s\<in>set (dq_slots q). length (ds_samples s) = RTNC_MODEM_MAX_AUDIO_SAMPLES)"

definition decode_items :: "rtnc_decode_queue \<Rightarrow> rtnc_decode_job list" where
  "decode_items q =
    map slot_job (ring_items (dq_slots q) (dq_producer q) (dq_consumer q) (dq_slot_count q))"

type_synonym decode_input = "(u64 \<times> u64) option \<times> real list \<times> u64"

definition decode_fits :: "decode_input \<Rightarrow> bool" where
  "decode_fits = (\<lambda>(clock, samples, seq). samples \<noteq> [] \<and> length samples \<le> RTNC_MODEM_MAX_AUDIO_SAMPLES)"

definition stored_job :: "decode_input \<Rightarrow> rtnc_decode_job" where
  "stored_job = (\<lambda>(clock, samples, seq). \<lparr>dj_samples = map (restore \<circ> quantize) samples,
     dj_sequence = seq, dj_enqueued_monotonic_ns = monotonic_nanoseconds clock\<rparr>)"

abbreviation decode_push :: "rtnc_decode_queue \<Rightarrow> decode_input \<Rightarrow> bool \<times> rtnc_decode_queue" where
  "decode_push q x \<equiv> rtnc_decode_queue_push (fst x) q (fst (snd x)) (snd (snd x))"

definition decode_memory :: "rtnc_decode_slot list \<Rightarrow> bool" where
  "decode_memory m \<longleftrightarrow> length m = RTNC_DECODE_QUEUE_SLOTS \<and>
     (\<forall>s\<in>set m. length (ds_samples s) = RTNC_MODEM_MAX_AUDIO_SAMPLES)"

lemma decode_queue_init_ok:
  "rtnc_decode_queue_init memory capacity = Some q \<Longrightarrow> decode_memory memory \<Longrightarrow>
   decode_queue_wf q \<and> decode_items q = [] \<and> dq_capacity q = capacity \<and> dq_dropped_jobs q = 0"
  by (auto simp: rtnc_decode_queue_init_def decode_queue_wf_def decode_items_def ring_items_def
      decode_memory_def split: if_splits)

lemma decode_wf_bounds:
  "decode_queue_wf q \<Longrightarrow> dq_producer q < dq_slot_count q \<and> dq_consumer q < dq_slot_count q \<and>
     dq_slot_count q \<le> length (dq_slots q) \<and> dq_slot_count q = Suc (dq_capacity q)"
  by (auto simp: decode_queue_wf_def)

lemma decode_full_iff:
  "decode_queue_wf q \<Longrightarrow>
   ring_next (dq_producer q) (dq_slot_count q) = dq_consumer q \<longleftrightarrow> length (decode_items q) = dq_capacity q"
  using decode_wf_bounds [of q] by (simp add: decode_items_def depth_full_iff)

lemma decode_push_full:
  "decode_queue_wf q \<Longrightarrow> decode_fits x \<Longrightarrow> length (decode_items q) = dq_capacity q \<Longrightarrow>
   decode_push q x = (False, q\<lparr>dq_dropped_jobs := dq_dropped_jobs q + 1\<rparr>)"
  using decode_full_iff [of q] by (auto simp: rtnc_decode_queue_push_def decode_fits_def)

lemma decode_push_room:
  assumes wf: "decode_queue_wf q" and fits: "decode_fits x" and room: "length (decode_items q) < dq_capacity q"
  shows "\<exists>q'. decode_push q x = (True, q') \<and> decode_queue_wf q' \<and>
    decode_items q' = decode_items q @ [stored_job x] \<and> dq_dropped_jobs q' = dq_dropped_jobs q \<and>
    dq_maximum_depth q' = max (dq_maximum_depth q) (length (decode_items q) + 1)"
proof -
  obtain clock samples seq where x: "x = (clock, samples, seq)" by (cases x)
  let ?n = "dq_slot_count q" and ?p = "dq_producer q" and ?c = "dq_consumer q"
  let ?s = "map quantize samples"
  let ?slot = "(dq_slots q ! ?p)\<lparr>ds_samples := buf_write (ds_samples (dq_slots q ! ?p)) 0 ?s,
    ds_count := length samples, ds_sequence := seq, ds_enqueued_monotonic_ns := monotonic_nanoseconds clock\<rparr>"
  let ?q = "q\<lparr>dq_slots := (dq_slots q)[?p := ?slot], dq_producer := ring_next ?p ?n,
    dq_maximum_depth := max (dq_maximum_depth q) (Suc (queue_depth ?p ?c ?n))\<rparr>"
  have n: "?p < ?n" "?c < ?n" "?n \<le> length (dq_slots q)" "?n = Suc (dq_capacity q)"
    using decode_wf_bounds [OF wf] by auto
  have free: "ring_next ?p ?n \<noteq> ?c" using decode_full_iff [OF wf] room by simp
  have slot: "length (ds_samples (dq_slots q ! ?p)) = RTNC_MODEM_MAX_AUDIO_SAMPLES"
    using wf n by (simp add: decode_queue_wf_def)
  have s: "samples \<noteq> []" "length samples \<le> RTNC_MODEM_MAX_AUDIO_SAMPLES"
    using fits by (simp_all add: decode_fits_def x)
  have push: "decode_push q x = (True, ?q)"
    using n free s depth_push [OF n(1,2) free]
    by (simp add: rtnc_decode_queue_push_def Let_def max_def x)
  have "take (length samples) (buf_write (ds_samples (dq_slots q ! ?p)) 0 ?s) = ?s"
    using take_buf_write_0 [of ?s "ds_samples (dq_slots q ! ?p)"] s slot by simp
  then have "slot_job ?slot = stored_job x" by (simp add: slot_job_def stored_job_def x)
  then have items: "decode_items ?q = decode_items q @ [stored_job x]"
    using ring_items_push [OF n(1-3) free] by (simp add: decode_items_def)
  have "\<forall>b\<in>set ((dq_slots q)[?p := ?slot]). length (ds_samples b) = RTNC_MODEM_MAX_AUDIO_SAMPLES"
    using wf s slot by (auto simp: decode_queue_wf_def length_buf_write dest!: set_mp [OF set_update_subset_insert])
  then have "decode_queue_wf ?q" using wf n room by (simp add: decode_queue_wf_def decode_items_def)
  then show ?thesis using push items by (simp add: decode_items_def)
qed

lemma decode_pop_head:
  assumes "decode_queue_wf q" and "decode_items q = y # ys"
  shows "\<exists>q'. rtnc_decode_queue_pop q = (Some y, q') \<and> decode_queue_wf q' \<and>
    decode_items q' = ys \<and> dq_dropped_jobs q' = dq_dropped_jobs q \<and>
    dq_maximum_depth q' = dq_maximum_depth q"
proof -
  have n: "dq_producer q < dq_slot_count q" "dq_consumer q < dq_slot_count q"
    using decode_wf_bounds [OF assms(1)] by auto
  moreover have "dq_producer q \<noteq> dq_consumer q"
    using assms(2) n by (auto simp: decode_items_def ring_items_def)
  ultimately show ?thesis using assms ring_items_pop [OF n, of "dq_slots q"]
    by (auto simp: rtnc_decode_queue_pop_def Let_def decode_items_def decode_queue_wf_def)
qed

lemma decode_pop_empty:
  "decode_queue_wf q \<Longrightarrow> decode_items q = [] \<Longrightarrow> rtnc_decode_queue_pop q = (None, q)"
  using decode_wf_bounds [of q]
  by (simp add: decode_items_def ring_items_empty_iff rtnc_decode_queue_pop_def)

lemma decode_items_bound: "decode_queue_wf q \<Longrightarrow> length (decode_items q) \<le> dq_capacity q"
  using depth_less [of "dq_producer q" "dq_slot_count q" "dq_consumer q"] decode_wf_bounds [of q]
  by (simp add: decode_items_def)

lemma decode_push_unfit: "\<not> decode_fits x \<Longrightarrow> decode_push q x = (False, q)"
  by (auto simp: rtnc_decode_queue_push_def decode_fits_def)

lemma decode_push_wf: "decode_queue_wf q \<Longrightarrow> decode_queue_wf (snd (decode_push q x))"
proof -
  assume wf: "decode_queue_wf q"
  consider "\<not> decode_fits x" | "decode_fits x" "length (decode_items q) = dq_capacity q"
    | "decode_fits x" "length (decode_items q) < dq_capacity q"
    using decode_items_bound [OF wf] by linarith
  then show ?thesis
  proof cases
    case 2
    then show ?thesis using wf decode_push_full [OF wf 2] by (simp add: decode_queue_wf_def)
  next
    case 3
    then show ?thesis using decode_push_room [OF wf 3] by auto
  qed (use wf in \<open>simp add: decode_push_unfit\<close>)
qed

lemma decode_config:
  "dq_capacity (snd (rtnc_decode_queue_push clock q s seq)) = dq_capacity q"
  "dq_capacity (snd (rtnc_decode_queue_pop q)) = dq_capacity q"
  by (simp_all add: rtnc_decode_queue_push_def rtnc_decode_queue_pop_def Let_def)

interpretation jobs: spsc_queue decode_queue_wf decode_items dq_capacity "\<lambda>_. decode_fits" stored_job
  decode_push rtnc_decode_queue_pop rtnc_decode_queue_dropped rtnc_decode_queue_maximum_depth
proof (unfold_locales, goal_cases)
  case (4 q x)
  then show ?case by (simp add: decode_push_full decode_items_def rtnc_decode_queue_dropped_def
      rtnc_decode_queue_maximum_depth_def)
next
  case (5 q x)
  then show ?case using decode_push_room [of q x]
    by (auto simp: rtnc_decode_queue_dropped_def rtnc_decode_queue_maximum_depth_def)
next
  case (6 q)
  then show ?case using decode_pop_head [of q] decode_pop_empty [of q] by (cases "decode_items q") auto
next
  case (8 q y ys)
  then show ?case using decode_pop_head [of q y ys]
    by (auto simp: rtnc_decode_queue_dropped_def rtnc_decode_queue_maximum_depth_def)
qed (simp_all add: decode_items_bound decode_push_wf decode_push_unfit decode_pop_empty decode_config)

section \<open>Properties\<close>

text \<open>
  the decode queue hands the decoder every accepted candidate in order, with its sequence number
  and with each sample within half a quantisation step (1/65534) of what was pushed, clamped to
  [-1, 1]; a candidate it had no room for is counted.
\<close>

lemma decode_queue_fifo:
  assumes "rtnc_decode_queue_init memory capacity = Some q" and "decode_memory memory"
    and "queue_run decode_push rtnc_decode_queue_pop q ops = (accepted, popped, q')"
  shows "list_all2 (\<lambda>(clock, samples, seq) job.
        dj_sequence job = seq \<and> dj_enqueued_monotonic_ns job = monotonic_nanoseconds clock \<and>
        list_all2 (\<lambda>x y. \<bar>y - clamp_unit x\<bar> \<le> 1 / 65534) samples (dj_samples job))
      accepted (popped @ decode_items q') \<and>
    length (decode_items q') \<le> capacity \<and>
    rtnc_decode_queue_dropped q' = of_nat (fitting decode_fits ops - length accepted)"
proof -
  have q: "decode_queue_wf q" "decode_items q = []" "dq_capacity q = capacity" "dq_dropped_jobs q = 0"
    using decode_queue_init_ok [OF assms(1,2)] by auto
  have "popped @ decode_items q' = map stored_job accepted"
    using jobs.run_fifo [OF q(1) assms(3)] q(2) by simp
  then show ?thesis
    using jobs.run_dropped [OF q(1) assms(3)] restore_quantize_error
      jobs.items_bound [OF jobs.run_wf [OF q(1) assms(3)]] jobs.run_limit [OF assms(3)] q
    by (auto simp: rtnc_decode_queue_dropped_def list_all2_conv_all_nth stored_job_def split: prod.splits)
qed

end
