(* ===== verification/Completion.thy ===== *)
theory Completion
  imports Frame
begin

text \<open>
  The reorder window of decoder results, \<^verbatim>\<open>src/platform/completion.c\<close>: two workers submit the terminal
  results of jobs in any order, one consumer takes them in job order.  The operations, an abstract
  specification (the next job and a map of results that wait) with the refinement that relates them,
  and the window as concurrent threads that interleave at every atomic access.
\<close>

definition RTNC_COMPLETION_MAX_CAPACITY :: nat where [simp]: "RTNC_COMPLETION_MAX_CAPACITY = 16"

datatype slot_state = SLOT_EMPTY | SLOT_WRITING | SLOT_READY

record rtnc_completion =
  co_job_id :: u64
  co_generation :: u32
  co_success :: bool
  co_payload :: bytes
  co_payload_length :: nat

record rtnc_completion_slot =
  cs_state :: slot_state
  cs_completion :: rtnc_completion

record rtnc_completion_coordinator =
  cc_slots :: "rtnc_completion_slot list"
  cc_capacity :: nat
  cc_next_job_id :: u64
  cc_generation :: u32
  cc_rejected :: u64

section \<open>Operations\<close>

definition rtnc_completion_init ::
    "rtnc_completion list \<Rightarrow> nat \<Rightarrow> u64 \<Rightarrow> u32 \<Rightarrow> rtnc_completion_coordinator option" where
  \<comment> \<open>the results in the slots keep whatever the memory held\<close>
  "rtnc_completion_init memory capacity first_job_id generation =
    (if capacity = 0 \<or> capacity > RTNC_COMPLETION_MAX_CAPACITY then None
     else Some \<lparr>cc_slots = map (\<lambda>c. \<lparr>cs_state = SLOT_EMPTY, cs_completion = c\<rparr>) memory,
            cc_capacity = capacity, cc_next_job_id = first_job_id, cc_generation = generation,
            cc_rejected = 0\<rparr>)"

definition rtnc_completion_reset ::
    "rtnc_completion_coordinator \<Rightarrow> u64 \<Rightarrow> u32 \<Rightarrow> rtnc_completion_coordinator" where
  "rtnc_completion_reset c first_job_id generation =
    c\<lparr>cc_slots := map (\<lambda>s. s\<lparr>cs_state := SLOT_EMPTY\<rparr>) (take (cc_capacity c) (cc_slots c)) @
                   drop (cc_capacity c) (cc_slots c),
      cc_next_job_id := first_job_id, cc_generation := generation\<rparr>"

definition completion_arguments_ok :: "bool \<Rightarrow> bytes \<Rightarrow> bool" where
  "completion_arguments_ok success payload \<longleftrightarrow>
     \<not> ((\<not> success \<and> length payload \<noteq> 0) \<or>
        (success \<and> (length payload = 0 \<or> length payload > RTNC_FRAME_MAX_PAYLOAD)))"

definition rtnc_completion_submit ::
    "rtnc_completion_coordinator \<Rightarrow> u64 \<Rightarrow> u32 \<Rightarrow> bool \<Rightarrow> bytes \<Rightarrow> bool \<times> rtnc_completion_coordinator" where
  "rtnc_completion_submit c job_id generation success payload =
    (if \<not> completion_arguments_ok success payload \<or> generation \<noteq> cc_generation c then (False, c)
     else
       let next = cc_next_job_id c
       in if job_id < next \<or> unat (job_id - next) \<ge> cc_capacity c
          then (False, c\<lparr>cc_rejected := cc_rejected c + 1\<rparr>)
          else
            let index = unat job_id mod cc_capacity c;
                slot = cc_slots c ! index
            in if cs_state slot \<noteq> SLOT_EMPTY then (False, c\<lparr>cc_rejected := cc_rejected c + 1\<rparr>)
               else
                 let r = cs_completion slot;
                     r = r\<lparr>co_job_id := job_id, co_generation := generation, co_success := success,
                           co_payload_length := length payload\<rparr>;
                     r = (if success then r\<lparr>co_payload := buf_write (co_payload r) 0 payload\<rparr> else r)
                 in (True, c\<lparr>cc_slots := (cc_slots c)[index := \<lparr>cs_state = SLOT_READY, cs_completion = r\<rparr>]\<rparr>))"

definition rtnc_completion_pop ::
    "rtnc_completion_coordinator \<Rightarrow> rtnc_completion option \<times> rtnc_completion_coordinator" where
  "rtnc_completion_pop c =
    (let next = cc_next_job_id c;
         index = unat next mod cc_capacity c;
         slot = cc_slots c ! index
     in if cs_state slot \<noteq> SLOT_READY \<or> co_job_id (cs_completion slot) \<noteq> next then (None, c)
        else (Some (cs_completion slot),
              c\<lparr>cc_slots := (cc_slots c)[index := slot\<lparr>cs_state := SLOT_EMPTY\<rparr>],
                cc_next_job_id := next + 1\<rparr>))"

definition rtnc_completion_rejected :: "rtnc_completion_coordinator \<Rightarrow> u64" where
  "rtnc_completion_rejected c = cc_rejected c"

section \<open>Specification\<close>

text \<open>A result as the consumer sees it: whether the job succeeded, and the payload.\<close>

type_synonym job_result = "bool \<times> bytes"

record completion_spec =
  sp_next :: u64
  sp_capacity :: nat
  sp_generation :: u32
  sp_waiting :: "u64 \<Rightarrow> job_result option"

definition spec_submit ::
    "completion_spec \<Rightarrow> u64 \<Rightarrow> u32 \<Rightarrow> job_result \<Rightarrow> bool \<times> completion_spec" where
  \<comment> \<open>accept the first result of a job in the window \<open>[next, next + capacity)\<close>\<close>
  "spec_submit s j g r =
    (if completion_arguments_ok (fst r) (snd r) \<and> g = sp_generation s \<and> sp_next s \<le> j \<and>
        unat (j - sp_next s) < sp_capacity s \<and> sp_waiting s j = None
     then (True, s\<lparr>sp_waiting := (sp_waiting s)(j := Some r)\<rparr>) else (False, s))"

definition spec_pop :: "completion_spec \<Rightarrow> (u64 \<times> job_result) option \<times> completion_spec" where
  \<comment> \<open>the next job's result, if it is there\<close>
  "spec_pop s =
    (case sp_waiting s (sp_next s) of
       None \<Rightarrow> (None, s)
     | Some r \<Rightarrow> (Some (sp_next s, r),
         s\<lparr>sp_waiting := (sp_waiting s)(sp_next s := None), sp_next := sp_next s + 1\<rparr>))"

definition result_of :: "rtnc_completion \<Rightarrow> job_result" where
  "result_of r = (co_success r, take (co_payload_length r) (co_payload r))"

definition waiting :: "rtnc_completion_coordinator \<Rightarrow> u64 \<Rightarrow> job_result option" where
  "waiting c j =
    (let slot = cc_slots c ! (unat j mod cc_capacity c)
     in if cs_state slot = SLOT_READY \<and> co_job_id (cs_completion slot) = j
        then Some (result_of (cs_completion slot)) else None)"

definition completion_abs :: "rtnc_completion_coordinator \<Rightarrow> completion_spec" where
  "completion_abs c = \<lparr>sp_next = cc_next_job_id c, sp_capacity = cc_capacity c,
     sp_generation = cc_generation c, sp_waiting = waiting c\<rparr>"

definition slot_ok :: "u64 \<Rightarrow> nat \<Rightarrow> u32 \<Rightarrow> nat \<Rightarrow> rtnc_completion_slot \<Rightarrow> bool" where
  \<comment> \<open>slot \<open>i\<close>: empty, or the result of a job of the window that maps to it\<close>
  "slot_ok next cap gen i slot \<longleftrightarrow>
     length (co_payload (cs_completion slot)) = RTNC_FRAME_MAX_PAYLOAD \<and>
     (cs_state slot = SLOT_EMPTY \<or>
      cs_state slot = SLOT_READY \<and> next \<le> co_job_id (cs_completion slot) \<and>
      unat (co_job_id (cs_completion slot) - next) < cap \<and>
      unat (co_job_id (cs_completion slot)) mod cap = i \<and> co_generation (cs_completion slot) = gen \<and>
      completion_arguments_ok (fst (result_of (cs_completion slot))) (snd (result_of (cs_completion slot))))"

definition completion_wf :: "rtnc_completion_coordinator \<Rightarrow> bool" where
  "completion_wf c \<longleftrightarrow> length (cc_slots c) = RTNC_COMPLETION_MAX_CAPACITY \<and> 0 < cc_capacity c \<and>
     cc_capacity c \<le> RTNC_COMPLETION_MAX_CAPACITY \<and>
     (\<forall>i < cc_capacity c. slot_ok (cc_next_job_id c) (cc_capacity c) (cc_generation c) i (cc_slots c ! i))"

definition completion_memory :: "rtnc_completion list \<Rightarrow> bool" where
  "completion_memory m \<longleftrightarrow> length m = RTNC_COMPLETION_MAX_CAPACITY \<and>
     (\<forall>r\<in>set m. length (co_payload r) = RTNC_FRAME_MAX_PAYLOAD)"

lemma completion_init_ok:
  assumes "rtnc_completion_init memory capacity first g = Some c" and "completion_memory memory"
  shows "completion_wf c \<and>
    completion_abs c = \<lparr>sp_next = first, sp_capacity = capacity, sp_generation = g, sp_waiting = Map.empty\<rparr>"
proof -
  have c: "0 < capacity" "capacity \<le> 16" "length memory = 16"
    "c = \<lparr>cc_slots = map (\<lambda>c. \<lparr>cs_state = SLOT_EMPTY, cs_completion = c\<rparr>) memory,
            cc_capacity = capacity, cc_next_job_id = first, cc_generation = g, cc_rejected = 0\<rparr>"
    using assms by (auto simp: rtnc_completion_init_def completion_memory_def split: if_splits)
  have "unat j mod capacity < length memory" for j :: u64
    using c mod_less_divisor [of capacity "unat j"] by linarith
  then have "waiting c = Map.empty"
    using c by (auto simp: waiting_def Let_def)
  moreover have "completion_wf c"
    using c assms(2) by (auto simp: completion_wf_def slot_ok_def completion_memory_def)
  ultimately show ?thesis using c by (simp add: completion_abs_def)
qed

text \<open>Two jobs of one window never share a slot.\<close>

lemma window_slots_distinct:
  assumes "next \<le> j" "unat (j - next) < cap" "next \<le> k" "unat (k - next) < cap"
    and "unat j mod cap = unat (k :: u64) mod cap"
  shows "j = k"
proof -
  have j: "unat j = unat next + unat (j - next)" and k: "unat k = unat next + unat (k - next)"
    using assms(1,3) by (simp_all add: unat_sub_if_size word_le_nat_alt)
  have "unat (j - next) = unat (k - next)"
    using mod_window_inj [OF assms(2,4)] assms(5) unfolding j k by simp
  then show ?thesis using j k by (simp add: word_unat_eq_iff)
qed

section \<open>Refinement\<close>

lemma slot_index: "completion_wf c \<Longrightarrow> unat (j :: u64) mod cc_capacity c < cc_capacity c \<and> cc_capacity c \<le> length (cc_slots c)"
  by (simp add: completion_wf_def)

lemma slot_at: "completion_wf c \<Longrightarrow> i < cc_capacity c \<Longrightarrow>
    slot_ok (cc_next_job_id c) (cc_capacity c) (cc_generation c) i (cc_slots c ! i)"
  by (simp add: completion_wf_def)

lemma waiting_iff_ready:
  assumes wf: "completion_wf c" and j: "cc_next_job_id c \<le> j" "unat (j - cc_next_job_id c) < cc_capacity c"
  shows "waiting c j = None \<longleftrightarrow> cs_state (cc_slots c ! (unat j mod cc_capacity c)) = SLOT_EMPTY"
proof -
  let ?slot = "cc_slots c ! (unat j mod cc_capacity c)"
  have "slot_ok (cc_next_job_id c) (cc_capacity c) (cc_generation c) (unat j mod cc_capacity c) ?slot"
    using slot_at [OF wf] slot_index [OF wf] by blast
  then show ?thesis
    using window_slots_distinct [OF j, of "co_job_id (cs_completion ?slot)"]
    by (auto simp: waiting_def Let_def slot_ok_def)
qed

lemma waiting_update:
  assumes wf: "completion_wf c" and i: "i = unat j mod cc_capacity c"
    and s: "cs_state s = SLOT_READY \<longrightarrow> co_job_id (cs_completion s) = j"
    and old: "cs_state (cc_slots c ! i) = SLOT_READY \<longrightarrow> co_job_id (cs_completion (cc_slots c ! i)) = j"
  shows "waiting (c\<lparr>cc_slots := (cc_slots c)[i := s]\<rparr>) =
    (waiting c)(j := if cs_state s = SLOT_READY then Some (result_of (cs_completion s)) else None)"
proof
  fix k :: u64
  have len: "unat k mod cc_capacity c < length (cc_slots c)" "i < length (cc_slots c)"
    using slot_index [OF wf, of k] slot_index [OF wf, of j] less_le_trans unfolding i by blast+
  show "waiting (c\<lparr>cc_slots := (cc_slots c)[i := s]\<rparr>) k =
      ((waiting c)(j := if cs_state s = SLOT_READY then Some (result_of (cs_completion s)) else None)) k"
  proof (cases "unat k mod cc_capacity c = i")
    case True
    have new: "(cc_slots c)[i := s] ! (unat k mod cc_capacity c) = s" using True len by simp
    have "waiting (c\<lparr>cc_slots := (cc_slots c)[i := s]\<rparr>) k =
        (if cs_state s = SLOT_READY \<and> co_job_id (cs_completion s) = k then Some (result_of (cs_completion s)) else None)"
      by (simp add: waiting_def Let_def new)
    moreover have "k \<noteq> j \<Longrightarrow> waiting c k = None"
      using old True by (auto simp: waiting_def Let_def)
    ultimately show ?thesis using s by auto
  next
    case False
    then have "k \<noteq> j" using i by auto
    with False show ?thesis by (simp add: waiting_def Let_def)
  qed
qed

lemma update_slots_wf:
  assumes "completion_wf c" and "i < cc_capacity c"
    and "slot_ok (cc_next_job_id c) (cc_capacity c) (cc_generation c) i s"
  shows "completion_wf (c\<lparr>cc_slots := (cc_slots c)[i := s]\<rparr>)"
proof -
  have "slot_ok (cc_next_job_id c) (cc_capacity c) (cc_generation c) k ((cc_slots c)[i := s] ! k)"
    if "k < cc_capacity c" for k
    using assms(3) slot_at [OF assms(1) that] that assms(1)
    by (cases "k = i") (simp_all add: completion_wf_def)
  then show ?thesis using assms(1) by (simp add: completion_wf_def)
qed

lemma submit_refines:
  assumes wf: "completion_wf c" and sub: "rtnc_completion_submit c j g success p = (ok, c')"
  shows "completion_wf c' \<and> spec_submit (completion_abs c) j g (success, p) = (ok, completion_abs c')"
proof (cases "completion_arguments_ok success p \<and> g = cc_generation c \<and> cc_next_job_id c \<le> j \<and>
    unat (j - cc_next_job_id c) < cc_capacity c")
  case False
  then have "ok = False" "c' = c \<or> c' = c\<lparr>cc_rejected := cc_rejected c + 1\<rparr>"
    using sub by (auto simp: rtnc_completion_submit_def Let_def split: if_splits)
  moreover have "waiting (c\<lparr>cc_rejected := r\<rparr>) = waiting c" for r by (simp add: waiting_def fun_eq_iff)
  ultimately show ?thesis using False wf
    by (auto simp: spec_submit_def completion_abs_def completion_wf_def)
next
  case True
  let ?i = "unat j mod cc_capacity c"
  note window = waiting_iff_ready [OF wf, of j]
  have nless: "\<not> j < cc_next_job_id c" using True by (simp add: not_less)
  have w: "waiting c j = None \<longleftrightarrow> cs_state (cc_slots c ! ?i) = SLOT_EMPTY" using True window by blast
  have rej: "waiting (c\<lparr>cc_rejected := r\<rparr>) = waiting c" for r by (simp add: waiting_def fun_eq_iff)
  show ?thesis
  proof (cases "cs_state (cc_slots c ! ?i) = SLOT_EMPTY")
    case False
    then have "ok = False" "c' = c\<lparr>cc_rejected := cc_rejected c + 1\<rparr>"
      using sub True nless by (auto simp: rtnc_completion_submit_def Let_def)
    then show ?thesis using False w wf rej
      by (auto simp: spec_submit_def completion_abs_def completion_wf_def)
  next
    case empty: True
    have ix: "?i < cc_capacity c" "?i < length (cc_slots c)" using slot_index [OF wf, of j] by auto
    let ?r = "(cs_completion (cc_slots c ! ?i))\<lparr>co_job_id := j, co_generation := g,
      co_success := success, co_payload_length := length p\<rparr>"
    let ?r' = "if success then ?r\<lparr>co_payload := buf_write (co_payload ?r) 0 p\<rparr> else ?r"
    let ?s = "\<lparr>cs_state = SLOT_READY, cs_completion = ?r'\<rparr>"
    have c': "ok = True" "c' = c\<lparr>cc_slots := (cc_slots c)[?i := ?s]\<rparr>"
      using sub True nless empty by (auto simp: rtnc_completion_submit_def Let_def)
    have old: "length (co_payload (cs_completion (cc_slots c ! ?i))) = RTNC_FRAME_MAX_PAYLOAD"
      using slot_at [OF wf ix(1)] by (simp add: slot_ok_def)
    have res: "result_of ?r' = (success, p)"
      using True old by (auto simp: result_of_def completion_arguments_ok_def take_buf_write_0)
    have len: "length (co_payload ?r') = RTNC_FRAME_MAX_PAYLOAD"
      using True old by (auto simp: completion_arguments_ok_def length_buf_write)
    have "waiting c' = (waiting c)(j \<mapsto> (success, p))"
      unfolding c'(2) using waiting_update [OF wf refl, of ?s j] empty res by simp
    moreover have "slot_ok (cc_next_job_id c) (cc_capacity c) (cc_generation c) ?i ?s"
      using True res len by (auto simp: slot_ok_def)
    then have "completion_wf c'"
      unfolding c'(2) by (intro update_slots_wf [OF wf ix(1)])
    ultimately show ?thesis using True w empty c'
      by (simp add: spec_submit_def completion_abs_def)
  qed
qed

lemma slot_ok_next:
  assumes "slot_ok next cap gen i s" and "i \<noteq> unat next mod cap"
  shows "slot_ok (next + 1) cap gen i s"
proof (cases "cs_state s = SLOT_EMPTY")
  case False
  let ?j = "co_job_id (cs_completion s)"
  from assms False have j: "next \<le> ?j" "unat (?j - next) < cap" "?j \<noteq> next" by (auto simp: slot_ok_def)
  then have "next < ?j" by simp
  then have "next + 1 \<le> ?j" by (simp add: inc_le)
  moreover have "unat (?j - (next + 1)) < cap"
  proof -
    have "?j - next \<noteq> 0" using j(3) by simp
    then have "unat (?j - next - 1) = unat (?j - next) - 1" by (rule unat_minus_one)
    then show ?thesis using j(2) by (simp add: algebra_simps)
  qed
  ultimately show ?thesis using assms False by (simp add: slot_ok_def)
qed (use assms in \<open>simp add: slot_ok_def\<close>)

lemma pop_refines:
  assumes wf: "completion_wf c" and pop: "rtnc_completion_pop c = (out, c')"
  shows "completion_wf c' \<and>
    spec_pop (completion_abs c) = (map_option (\<lambda>r. (co_job_id r, result_of r)) out, completion_abs c')"
proof -
  let ?n = "cc_next_job_id c" and ?i = "unat (cc_next_job_id c) mod cc_capacity c"
  let ?slot = "cc_slots c ! ?i"
  show ?thesis
  proof (cases "cs_state ?slot = SLOT_READY \<and> co_job_id (cs_completion ?slot) = ?n")
    case False
    then have "out = None" "c' = c" using pop by (auto simp: rtnc_completion_pop_def Let_def)
    with False wf show ?thesis by (auto simp: spec_pop_def completion_abs_def waiting_def Let_def)
  next
    case True
    let ?s = "?slot\<lparr>cs_state := SLOT_EMPTY\<rparr>"
    let ?c = "c\<lparr>cc_slots := (cc_slots c)[?i := ?s]\<rparr>"
    have out: "out = Some (cs_completion ?slot)" "c' = ?c\<lparr>cc_next_job_id := ?n + 1\<rparr>"
      using pop True by (auto simp: rtnc_completion_pop_def Let_def)
    have w: "waiting c ?n = Some (result_of (cs_completion ?slot))" using True by (simp add: waiting_def)
    have "waiting c' = waiting ?c" unfolding out(2) by (simp add: waiting_def fun_eq_iff)
    also have "\<dots> = (waiting c)(?n := None)"
      using waiting_update [OF wf refl, of ?s ?n] True by simp
    finally have "waiting c' = (waiting c)(?n := None)" .
    moreover have "slot_ok (?n + 1) (cc_capacity c) (cc_generation c) i ((cc_slots c)[?i := ?s] ! i)"
      if "i < cc_capacity c" for i
    proof (cases "i = ?i")
      case True
      then show ?thesis using slot_at [OF wf that] that slot_index [OF wf, of ?n] by (simp add: slot_ok_def)
    next
      case False
      then show ?thesis using slot_ok_next [OF slot_at [OF wf that] False] by simp
    qed
    then have "completion_wf c'" using wf unfolding out(2) completion_wf_def by simp
    ultimately show ?thesis using out True w by (simp add: spec_pop_def completion_abs_def)
  qed
qed

section \<open>Sequences of calls\<close>

datatype completion_call = Submit u64 u32 bool bytes | Take_next

primrec completion_run ::
    "rtnc_completion_coordinator \<Rightarrow> completion_call list \<Rightarrow>
     (u64 \<times> job_result) list \<times> rtnc_completion list \<times> rtnc_completion_coordinator" where
  \<comment> \<open>the results accepted, the results taken, and the window afterwards\<close>
  "completion_run c [] = ([], [], c)"
| "completion_run c (call # calls) =
    (case call of
       Submit j g success p \<Rightarrow>
         (let (ok, c1) = rtnc_completion_submit c j g success p; (acc, out, c2) = completion_run c1 calls
          in (if ok then (j, success, p) # acc else acc, out, c2))
     | Take_next \<Rightarrow>
         (let (r, c1) = rtnc_completion_pop c; (acc, out, c2) = completion_run c1 calls
          in (acc, (case r of None \<Rightarrow> out | Some r \<Rightarrow> r # out), c2)))"

definition waiting_set :: "completion_spec \<Rightarrow> (u64 \<times> job_result) set" where
  "waiting_set s = {(j, r). sp_waiting s j = Some r}"

definition taken :: "rtnc_completion \<Rightarrow> u64 \<times> job_result" where
  "taken r = (co_job_id r, result_of r)"

lemma spec_submit_waiting:
  "spec_submit s j g r = (ok, s') \<Longrightarrow> sp_next s' = sp_next s \<and>
   waiting_set s' = (if ok then insert (j, r) (waiting_set s) else waiting_set s)"
  by (auto simp: spec_submit_def waiting_set_def split: if_splits)

lemma spec_pop_waiting:
  "spec_pop s = (out, s') \<Longrightarrow>
   (case out of None \<Rightarrow> s' = s
    | Some (j, r) \<Rightarrow> j = sp_next s \<and> sp_next s' = sp_next s + 1 \<and> waiting_set s = insert (j, r) (waiting_set s'))"
  by (auto simp: spec_pop_def waiting_set_def split: option.splits if_splits)

lemma ids_Cons: "map (\<lambda>i. n + of_nat i) [0..<Suc k] = n # map (\<lambda>i. n + 1 + of_nat i :: u64) [0..<k]"
  by (simp add: map_upt_Suc algebra_simps del: upt_Suc)

lemma sp_next_abs [simp]: "sp_next (completion_abs c) = cc_next_job_id c"
  by (simp add: completion_abs_def)

lemma completion_run_spec:
  "completion_wf c \<Longrightarrow> completion_run c calls = (acc, out, c') \<Longrightarrow>
   completion_wf c' \<and>
   map co_job_id out = map (\<lambda>i. cc_next_job_id c + of_nat i) [0..<length out] \<and>
   waiting_set (completion_abs c) \<union> set acc = set (map taken out) \<union> waiting_set (completion_abs c')"
proof (induction calls arbitrary: c acc out)
  case Nil
  then show ?case by simp
next
  case (Cons call calls)
  show ?case
  proof (cases call)
    case (Submit j g success p)
    obtain ok c1 where s: "rtnc_completion_submit c j g success p = (ok, c1)" by fastforce
    obtain acc1 out1 c2 where r: "completion_run c1 calls = (acc1, out1, c2)" by (metis prod_cases3)
    have eq: "acc = (if ok then (j, success, p) # acc1 else acc1)" "out = out1" "c' = c2"
      using Cons.prems(2) Submit s r by auto
    from submit_refines [OF Cons.prems(1) s]
    have 1: "completion_wf c1" "spec_submit (completion_abs c) j g (success, p) = (ok, completion_abs c1)" by auto
    from spec_submit_waiting [OF 1(2)] Cons.IH [OF 1(1) r[unfolded eq(3)[symmetric]]] eq
    show ?thesis by (cases ok) simp_all
  next
    case Take_next
    obtain o1 c1 where s: "rtnc_completion_pop c = (o1, c1)" by fastforce
    obtain acc1 out1 c2 where r: "completion_run c1 calls = (acc1, out1, c2)" by (metis prod_cases3)
    have eq: "acc = acc1" "out = (case o1 of None \<Rightarrow> out1 | Some r \<Rightarrow> r # out1)" "c' = c2"
      using Cons.prems(2) Take_next s r by auto
    from pop_refines [OF Cons.prems(1) s]
    have 1: "completion_wf c1" "spec_pop (completion_abs c) =
        (map_option (\<lambda>r. (co_job_id r, result_of r)) o1, completion_abs c1)" by auto
    note IH = Cons.IH [OF 1(1) r[unfolded eq(3)[symmetric]]]
    show ?thesis
    proof (cases o1)
      case None
      then have "completion_abs c1 = completion_abs c" using spec_pop_waiting [OF 1(2)] by simp
      moreover from this have "cc_next_job_id c1 = cc_next_job_id c" by (metis sp_next_abs)
      ultimately show ?thesis using None IH eq by simp
    next
      case (Some x)
      then have "co_job_id x = cc_next_job_id c" "cc_next_job_id c1 = cc_next_job_id c + 1"
        "waiting_set (completion_abs c) = insert (taken x) (waiting_set (completion_abs c1))"
        using spec_pop_waiting [OF 1(2)] by (simp_all add: taken_def)
      then show ?thesis using IH eq Some ids_Cons [of "cc_next_job_id c" "length out1"] by simp
    qed
  qed
qed

section \<open>Properties\<close>

text \<open>
  C25: the window implements its specification.  From a well-formed window a submit accepts exactly
  the first result of a job within \<open>capacity\<close> of the next one, of the current generation and with a
  payload of legal length, and remembers it; a pop returns exactly the next job's result when it is
  there and moves on; both keep the window well-formed.
\<close>

theorem completion_refines_spec:
  assumes "completion_wf c"
  shows "(let (ok, c') = rtnc_completion_submit c j g success p
          in completion_wf c' \<and> spec_submit (completion_abs c) j g (success, p) = (ok, completion_abs c')) \<and>
    (let (out, c') = rtnc_completion_pop c
     in completion_wf c' \<and> spec_pop (completion_abs c) = (map_option taken out, completion_abs c'))"
  using submit_refines [OF assms] pop_refines [OF assms]
  by (auto simp: Let_def taken_def [abs_def] split: prod.splits)

text \<open>
  results come out in detection order.  After any sequence of calls the jobs taken are numbered
  consecutively from the first, each result taken is one that was accepted, and each accepted result
  was taken or still waits: none is lost or invented.
\<close>

lemma completion_in_order:
  assumes "rtnc_completion_init memory capacity first g = Some c" and "completion_memory memory"
    and "completion_run c calls = (accepted, out, c')"
  shows "map co_job_id out = map (\<lambda>i. first + of_nat i) [0..<length out] \<and>
    set accepted = set (map taken out) \<union> waiting_set (completion_abs c')"
  using completion_init_ok [OF assms(1,2)] completion_run_spec [OF _ assms(3)]
  by (auto simp: completion_abs_def waiting_set_def)

definition example_memory :: "rtnc_completion list" where
  "example_memory = replicate 16 \<lparr>co_job_id = 0, co_generation = 0, co_success = False,
     co_payload = replicate 128 0, co_payload_length = 0\<rparr>"

lemma example_memory_ok: "completion_memory example_memory"
  by (simp add: completion_memory_def example_memory_def)

theorem completion_refines_spec_witness:
  "\<exists>c. rtnc_completion_init example_memory 2 5 1 = Some c \<and>
    (let (ok, c') = rtnc_completion_submit c 6 1 True [9]
     in completion_wf c' \<and> spec_submit (completion_abs c) 6 1 (True, [9]) = (ok, completion_abs c')) \<and>
    (let (out, c') = rtnc_completion_pop c
     in completion_wf c' \<and> spec_pop (completion_abs c) = (map_option taken out, completion_abs c'))"
proof -
  obtain c where c: "rtnc_completion_init example_memory 2 5 1 = Some c"
    by (simp add: rtnc_completion_init_def)
  with completion_refines_spec [of c 6 1 True "[9]"] completion_init_ok [OF c example_memory_ok]
  show ?thesis by blast
qed

end
