(* ===== verification/CompletionThreads.thy ===== *)
theory CompletionThreads
  imports Completion
begin

text \<open>
  The reorder window as threads: any number of workers and one consumer, every access to shared
  memory a step of its own, in any interleaving.  A worker loads the generation and the next job,
  claims the slot with the compare-and-exchange, writes the result and marks the slot ready; the
  consumer copies a ready result, frees the slot and only then advances the next job.  The contract
  of the header, one terminal result per job, is the side condition of \<open>w_begin\<close>.  Job numbers are
  natural numbers here: a 64-bit counter of jobs does not wrap.
\<close>

datatype 'r worker_pc = W_Idle | W_Loaded nat 'r nat | W_Claimed nat 'r | W_Written nat 'r
datatype 'r taker_pc = T_Idle | T_Copied 'r | T_Freed 'r

record ('w, 'r) window_threads =
  wt_state :: "nat \<Rightarrow> slot_state"
  wt_job :: "nat \<Rightarrow> nat"
  wt_result :: "nat \<Rightarrow> 'r"
  wt_next :: nat
  wt_worker :: "'w \<Rightarrow> 'r worker_pc"
  wt_taker :: "'r taker_pc"
  wt_given :: "nat \<Rightarrow> 'r option"      \<comment> \<open>ghost: the result each started job was given\<close>
  wt_taken :: "(nat \<times> 'r) list"      \<comment> \<open>ghost: what the consumer took\<close>
  wt_refused :: "(nat \<times> nat) list"   \<comment> \<open>ghost: the submits that returned false, each with the next job it loaded\<close>

definition window_threads_init :: "nat \<Rightarrow> (nat \<Rightarrow> nat) \<Rightarrow> (nat \<Rightarrow> 'r) \<Rightarrow> ('w, 'r) window_threads" where
  "window_threads_init first job0 result0 = \<lparr>wt_state = (\<lambda>_. SLOT_EMPTY), wt_job = job0,
     wt_result = result0, wt_next = first, wt_worker = (\<lambda>_. W_Idle), wt_taker = T_Idle,
     wt_given = (\<lambda>_. None), wt_taken = [], wt_refused = []\<rparr>"

inductive window_step :: "nat \<Rightarrow> ('w, 'r) window_threads \<Rightarrow> ('w, 'r) window_threads \<Rightarrow> bool" for cap where
  w_begin:
    "wt_worker s w = W_Idle \<Longrightarrow> wt_given s j = None \<Longrightarrow>
     window_step cap s (s\<lparr>wt_worker := (wt_worker s)(w := W_Loaded j r (wt_next s)),
       wt_given := (wt_given s)(j := Some r)\<rparr>)"
| w_outside:
    "wt_worker s w = W_Loaded j r n \<Longrightarrow> j < n \<or> j - n \<ge> cap \<Longrightarrow>
     window_step cap s (s\<lparr>wt_worker := (wt_worker s)(w := W_Idle), wt_refused := wt_refused s @ [(j, n)]\<rparr>)"
| w_busy:
    "wt_worker s w = W_Loaded j r n \<Longrightarrow> \<not> (j < n \<or> j - n \<ge> cap) \<Longrightarrow>
     wt_state s (j mod cap) \<noteq> SLOT_EMPTY \<Longrightarrow>
     window_step cap s (s\<lparr>wt_worker := (wt_worker s)(w := W_Idle), wt_refused := wt_refused s @ [(j, n)]\<rparr>)"
| w_claim:
    "wt_worker s w = W_Loaded j r n \<Longrightarrow> \<not> (j < n \<or> j - n \<ge> cap) \<Longrightarrow>
     wt_state s (j mod cap) = SLOT_EMPTY \<Longrightarrow>
     window_step cap s (s\<lparr>wt_worker := (wt_worker s)(w := W_Claimed j r),
       wt_state := (wt_state s)(j mod cap := SLOT_WRITING)\<rparr>)"
| w_write:
    "wt_worker s w = W_Claimed j r \<Longrightarrow>
     window_step cap s (s\<lparr>wt_worker := (wt_worker s)(w := W_Written j r),
       wt_job := (wt_job s)(j mod cap := j), wt_result := (wt_result s)(j mod cap := r)\<rparr>)"
| w_ready:
    "wt_worker s w = W_Written j r \<Longrightarrow>
     window_step cap s (s\<lparr>wt_worker := (wt_worker s)(w := W_Idle),
       wt_state := (wt_state s)(j mod cap := SLOT_READY)\<rparr>)"
| t_copy:
    "wt_taker s = T_Idle \<Longrightarrow> wt_state s (wt_next s mod cap) = SLOT_READY \<Longrightarrow>
     wt_job s (wt_next s mod cap) = wt_next s \<Longrightarrow>
     window_step cap s (s\<lparr>wt_taker := T_Copied (wt_result s (wt_next s mod cap))\<rparr>)"
| t_free:
    "wt_taker s = T_Copied r \<Longrightarrow>
     window_step cap s (s\<lparr>wt_taker := T_Freed r, wt_state := (wt_state s)(wt_next s mod cap := SLOT_EMPTY)\<rparr>)"
| t_advance:
    "wt_taker s = T_Freed r \<Longrightarrow>
     window_step cap s (s\<lparr>wt_taker := T_Idle, wt_next := wt_next s + 1,
       wt_taken := wt_taken s @ [(wt_next s, r)]\<rparr>)"

inductive window_reachable :: "nat \<Rightarrow> nat \<Rightarrow> ('w, 'r) window_threads \<Rightarrow> bool" for cap first where
  window_start: "window_reachable cap first (window_threads_init first job0 result0)"
| window_more: "window_reachable cap first s \<Longrightarrow> window_step cap s s' \<Longrightarrow> window_reachable cap first s'"

section \<open>Invariant\<close>

fun front :: "nat \<Rightarrow> 'r taker_pc \<Rightarrow> nat" where
  \<comment> \<open>the first job whose slot has not been freed yet\<close>
  "front next (T_Freed r) = Suc next"
| "front next _ = next"

fun pc_job :: "'r worker_pc \<Rightarrow> (nat \<times> 'r) option" where
  "pc_job W_Idle = None"
| "pc_job (W_Loaded j r n) = Some (j, r)"
| "pc_job (W_Claimed j r) = Some (j, r)"
| "pc_job (W_Written j r) = Some (j, r)"

fun pc_claim :: "'r worker_pc \<Rightarrow> nat option" where
  "pc_claim (W_Claimed j r) = Some j"
| "pc_claim (W_Written j r) = Some j"
| "pc_claim _ = None"

text \<open>Each job in hand is in one hand only, and is neither taken nor ready.\<close>

definition jobs_inv :: "nat \<Rightarrow> nat \<Rightarrow> ('w, 'r) window_threads \<Rightarrow> bool" where
  "jobs_inv cap first s \<longleftrightarrow>
     (\<forall>w j r. pc_job (wt_worker s w) = Some (j, r) \<longrightarrow> wt_given s j = Some r \<and>
        \<not> (first \<le> j \<and> j < front (wt_next s) (wt_taker s)) \<and>
        (\<forall>i. wt_state s i = SLOT_READY \<longrightarrow> wt_job s i \<noteq> j)) \<and>
     (\<forall>w w' j r r'. pc_job (wt_worker s w) = Some (j, r) \<and> pc_job (wt_worker s w') = Some (j, r') \<longrightarrow> w = w') \<and>
     (\<forall>w j r n. wt_worker s w = W_Loaded j r n \<longrightarrow> first \<le> n \<and> n \<le> wt_next s)"

text \<open>What a slot that is not empty holds.\<close>

definition slots_ok where
  "slots_ok cap state job result next fr worker given \<longleftrightarrow>
     (\<forall>w j. pc_claim (worker w) = Some j \<longrightarrow> state (j mod cap) = SLOT_WRITING \<and> fr \<le> j \<and> j < next + cap) \<and>
     (\<forall>w j r. worker w = W_Written j r \<longrightarrow> job (j mod cap) = j \<and> result (j mod cap) = r) \<and>
     (\<forall>i. state i = SLOT_WRITING \<longrightarrow> (\<exists>w j. pc_claim (worker w) = Some j \<and> j mod cap = i)) \<and>
     (\<forall>i. state i = SLOT_READY \<longrightarrow> job i mod cap = i \<and> fr \<le> job i \<and> job i < next + cap \<and>
        given (job i) = Some (result i))"

definition slots_inv :: "nat \<Rightarrow> ('w, 'r) window_threads \<Rightarrow> bool" where
  "slots_inv cap s \<longleftrightarrow> slots_ok cap (wt_state s) (wt_job s) (wt_result s) (wt_next s)
     (front (wt_next s) (wt_taker s)) (wt_worker s) (wt_given s)"

lemma slots_ok_worker:
  assumes "slots_ok cap st jb rs nx fr wk gv" and "pc_claim pc = None" and "pc_claim (wk w) = None"
  shows "slots_ok cap st jb rs nx fr (wk(w := pc)) gv"
proof -
  have c: "pc_claim ((wk(w := pc)) w') = pc_claim (wk w')" for w' using assms(2,3) by simp
  have "pc \<noteq> W_Written j r" for j r using assms(2) by auto
  then have "(wk(w := pc)) w' = W_Written j r \<Longrightarrow> wk w' = W_Written j r" for w' j r
    by (auto split: if_splits)
  with assms(1) show ?thesis unfolding slots_ok_def c by blast
qed

lemma slots_ok_given:
  assumes "slots_ok cap st jb rs nx fr wk gv" and "\<And>i. st i = SLOT_READY \<Longrightarrow> jb i \<noteq> j"
  shows "slots_ok cap st jb rs nx fr wk (gv(j \<mapsto> r))"
  using assms unfolding slots_ok_def by (simp add: fun_upd_def)

lemma slots_ok_claim:
  assumes S: "slots_ok cap st jb rs nx fr wk gv" and w: "wk w = W_Loaded j r n" and j: "fr \<le> j" "j < nx + cap"
    and empty: "st (j mod cap) = SLOT_EMPTY"
  shows "slots_ok cap (st(j mod cap := SLOT_WRITING)) jb rs nx fr (wk(w := W_Claimed j r)) gv"
proof -
  have other: "j' mod cap \<noteq> j mod cap" if "pc_claim (wk w') = Some j'" for w' j'
    using that S empty unfolding slots_ok_def by (metis slot_state.distinct(1))
  have owner: "\<exists>w' k. pc_claim ((wk(w := W_Claimed j r)) w') = Some k \<and> k mod cap = i"
    if "(st(j mod cap := SLOT_WRITING)) i = SLOT_WRITING" for i
  proof (cases "i = j mod cap")
    case False
    with that S obtain w' k where k: "pc_claim (wk w') = Some k" "k mod cap = i"
      unfolding slots_ok_def by auto
    then have "w' \<noteq> w" using w by auto
    with k show ?thesis by (intro exI [of _ w'] exI [of _ k]) simp
  qed auto
  show ?thesis using S other j owner unfolding slots_ok_def by (auto simp: w)
qed

lemma slots_ok_write:
  assumes S: "slots_ok cap st jb rs nx fr wk gv" and w: "wk w = W_Claimed j r"
    and other: "\<And>w' k. w' \<noteq> w \<Longrightarrow> pc_claim (wk w') = Some k \<Longrightarrow> k mod cap \<noteq> j mod cap"
  shows "slots_ok cap st (jb(j mod cap := j)) (rs(j mod cap := r)) nx fr (wk(w := W_Written j r)) gv"
proof -
  have "pc_claim (wk w) = Some j" using w by simp
  then have st: "st (j mod cap) = SLOT_WRITING" using S unfolding slots_ok_def by blast
  have c: "pc_claim ((wk(w := W_Written j r)) w') = pc_claim (wk w')" for w' using w by simp
  have "wk w' = W_Written k q \<Longrightarrow> k mod cap \<noteq> j mod cap" for w' k q
    using other [of w' k] w by (cases "w' = w") auto
  then show ?thesis using S st unfolding slots_ok_def c by auto
qed

lemma slots_ok_ready:
  assumes S: "slots_ok cap st jb rs nx fr wk gv" and w: "wk w = W_Written j r"
    and other: "\<And>w' k. w' \<noteq> w \<Longrightarrow> pc_claim (wk w') = Some k \<Longrightarrow> k mod cap \<noteq> j mod cap"
    and gv: "gv j = Some r"
  shows "slots_ok cap (st(j mod cap := SLOT_READY)) jb rs nx fr (wk(w := W_Idle)) gv"
proof -
  have "pc_claim (wk w) = Some j" using w by simp
  then have j: "st (j mod cap) = SLOT_WRITING" "fr \<le> j" "j < nx + cap" "jb (j mod cap) = j" "rs (j mod cap) = r"
    using S w unfolding slots_ok_def by blast+
  have owner: "\<exists>w' k. pc_claim ((wk(w := W_Idle)) w') = Some k \<and> k mod cap = i"
    if "(st(j mod cap := SLOT_READY)) i = SLOT_WRITING" for i
  proof -
    from that have "i \<noteq> j mod cap" "st i = SLOT_WRITING" by (auto split: if_splits)
    with S obtain w' k where k: "pc_claim (wk w') = Some k" "k mod cap = i" unfolding slots_ok_def by auto
    then have "w' \<noteq> w" using w \<open>i \<noteq> j mod cap\<close> by auto
    with k show ?thesis by (intro exI [of _ w'] exI [of _ k]) simp
  qed
  show ?thesis using S other j gv owner unfolding slots_ok_def by auto
qed

definition taker_inv :: "nat \<Rightarrow> nat \<Rightarrow> ('w, 'r) window_threads \<Rightarrow> bool" where
  "taker_inv cap first s \<longleftrightarrow> first \<le> wt_next s \<and>
     (\<forall>r. wt_taker s = T_Copied r \<longrightarrow> wt_state s (wt_next s mod cap) = SLOT_READY \<and>
        wt_job s (wt_next s mod cap) = wt_next s \<and> wt_result s (wt_next s mod cap) = r) \<and>
     (\<forall>r. wt_taker s = T_Freed r \<longrightarrow> wt_given s (wt_next s) = Some r) \<and>
     map fst (wt_taken s) = [first..<wt_next s] \<and>
     (\<forall>(j, r) \<in> set (wt_taken s). wt_given s j = Some r)"

definition window_inv :: "nat \<Rightarrow> nat \<Rightarrow> ('w, 'r) window_threads \<Rightarrow> bool" where
  "window_inv cap first s \<longleftrightarrow> jobs_inv cap first s \<and> slots_inv cap s \<and> taker_inv cap first s"

lemma window_inv_init: "window_inv cap first (window_threads_init first job0 result0)"
  by (simp add: window_inv_def jobs_inv_def slots_inv_def slots_ok_def taker_inv_def window_threads_init_def)

lemma pc_claim_job: "pc_claim pc = Some j \<Longrightarrow> \<exists>r. pc_job pc = Some (j, r)"
  by (cases pc) auto

lemma front_le: "next \<le> front next t" "front next t \<le> Suc next"
  by (cases t; simp)+

text \<open>Two jobs of the window in one slot are one job.\<close>

lemma window_same_slot:
  assumes "n \<le> j" "j < n + cap" "n \<le> k" "k < n + cap" "j mod cap = k mod (cap :: nat)"
  shows "j = k"
proof -
  have "j - n < cap" "k - n < cap" "n + (j - n) = j" "n + (k - n) = k" using assms by auto
  with mod_window_inj [of "j - n" cap "k - n" n] assms(5) have "j - n = k - n" by metis
  then show ?thesis using assms(1,3) by linarith
qed

lemma given_fresh:
  assumes "window_inv cap first s" and "wt_given s j = None"
  shows "pc_job (wt_worker s w) \<noteq> Some (j, r)"
    and "wt_state s i = SLOT_READY \<Longrightarrow> wt_job s i \<noteq> j"
    and "\<not> (first \<le> j \<and> j < front (wt_next s) (wt_taker s))"
proof -
  show "pc_job (wt_worker s w) \<noteq> Some (j, r)"
    using assms by (auto simp: window_inv_def jobs_inv_def)
  show "wt_state s i = SLOT_READY \<Longrightarrow> wt_job s i \<noteq> j"
    using assms by (auto simp: window_inv_def slots_inv_def slots_ok_def)
  show "\<not> (first \<le> j \<and> j < front (wt_next s) (wt_taker s))"
  proof
    assume j: "first \<le> j \<and> j < front (wt_next s) (wt_taker s)"
    have t: "taker_inv cap first s" using assms by (simp add: window_inv_def)
    show False
    proof (cases "j < wt_next s")
      case True
      with j t have "j \<in> fst ` set (wt_taken s)"
        unfolding taker_inv_def by (metis atLeastLessThan_iff list.set_map set_upt)
      with t assms(2) show False by (auto simp: taker_inv_def)
    next
      case False
      with j t assms(2) show False by (cases "wt_taker s") (auto simp: taker_inv_def less_Suc_eq)
    qed
  qed
qed

lemma in_hand:
  assumes "jobs_inv cap first s" and "pc_job (wt_worker s w) = Some (j, r)"
  shows "wt_given s j = Some r \<and> \<not> (first \<le> j \<and> j < front (wt_next s) (wt_taker s)) \<and>
    (\<forall>i. wt_state s i = SLOT_READY \<longrightarrow> wt_job s i \<noteq> j) \<and>
    (\<forall>w' r'. pc_job (wt_worker s w') = Some (j, r') \<longrightarrow> w' = w)"
  using assms unfolding jobs_inv_def by blast

lemma claim_facts:
  assumes "slots_inv cap s" and "pc_claim (wt_worker s w) = Some j"
  shows "wt_state s (j mod cap) = SLOT_WRITING" "front (wt_next s) (wt_taker s) \<le> j"
    "wt_next s \<le> j" "j < wt_next s + cap"
proof -
  show 1: "wt_state s (j mod cap) = SLOT_WRITING" "front (wt_next s) (wt_taker s) \<le> j" "j < wt_next s + cap"
    using assms unfolding slots_inv_def slots_ok_def by blast+
  from front_le(1) 1(2) show "wt_next s \<le> j" by (rule order_trans)
qed

lemma written_facts:
  assumes "slots_inv cap s" and "wt_worker s w = W_Written j r"
  shows "wt_job s (j mod cap) = j" "wt_result s (j mod cap) = r"
  using assms unfolding slots_inv_def slots_ok_def by blast+

lemma claims_distinct:
  assumes J: "jobs_inv cap first s" and S: "slots_inv cap s"
    and "pc_claim (wt_worker s w) = Some j" "pc_claim (wt_worker s w') = Some j'" "j' mod cap = j mod cap"
  shows "w' = w \<and> j' = j"
proof -
  have "j' = j"
    using window_same_slot [of "wt_next s" j' cap j] claim_facts [OF S assms(3)] claim_facts [OF S assms(4)] assms(5)
    by blast
  moreover obtain r r' where "pc_job (wt_worker s w) = Some (j, r)" "pc_job (wt_worker s w') = Some (j', r')"
    using pc_claim_job assms(3,4) by blast
  ultimately show ?thesis using in_hand [OF J] by blast
qed

lemma jobs_inv_step:
  assumes inv: "window_inv cap first s" and step: "window_step cap s s'"
  shows "jobs_inv cap first s'"
proof -
  have J: "jobs_inv cap first s" and S: "slots_inv cap s" and T: "taker_inv cap first s"
    using inv by (auto simp: window_inv_def)
  from step show ?thesis
  proof (cases rule: window_step.cases)
    case (w_begin w j r)
    note fresh = given_fresh [OF inv w_begin(3)]
    show ?thesis using J T w_begin fresh by (auto simp: jobs_inv_def taker_inv_def)
  next
    case (w_outside w j r n)
    then show ?thesis using J by (auto simp: jobs_inv_def)
  next
    case (w_busy w j r n)
    then show ?thesis using J by (auto simp: jobs_inv_def)
  next
    case (w_claim w j r n)
    then have "pc_job (wt_worker s w) = Some (j, r)" by simp
    then show ?thesis using J w_claim in_hand [OF J, of w j r] by (auto simp: jobs_inv_def)
  next
    case (w_write w j r)
    then have "pc_job (wt_worker s w) = Some (j, r)" "wt_state s (j mod cap) = SLOT_WRITING"
      using claim_facts(1) [OF S, of w j] by simp_all
    then show ?thesis using J w_write in_hand [OF J, of w j r] by (auto simp: jobs_inv_def)
  next
    case (w_ready w j r)
    then have "pc_job (wt_worker s w) = Some (j, r)" "wt_job s (j mod cap) = j"
      using written_facts(1) [OF S, of w j r] by simp_all
    then show ?thesis using J w_ready in_hand [OF J, of w j r] by (auto simp: jobs_inv_def)
  next
    case t_copy
    then show ?thesis using J by (auto simp: jobs_inv_def)
  next
    case (t_free r)
    then have "wt_state s (wt_next s mod cap) = SLOT_READY" "wt_job s (wt_next s mod cap) = wt_next s"
      using T by (auto simp: taker_inv_def)
    then show ?thesis using J t_free by (auto simp: jobs_inv_def less_Suc_eq)
  next
    case (t_advance r)
    then show ?thesis using J by (auto simp: jobs_inv_def le_Suc_eq)
  qed
qed

lemma slots_inv_step:
  assumes inv: "window_inv cap first s" and step: "window_step cap s s'"
  shows "slots_inv cap s'"
proof -
  have J: "jobs_inv cap first s" and S: "slots_inv cap s" and T: "taker_inv cap first s"
    using inv by (auto simp: window_inv_def)
  note S' = S [unfolded slots_inv_def]
  from step show ?thesis
  proof (cases rule: window_step.cases)
    case (w_begin w j r)
    then show ?thesis using slots_ok_given [OF slots_ok_worker [OF S'] given_fresh(2) [OF inv w_begin(3)]]
      by (simp add: slots_inv_def)
  next
    case (w_outside w j r n)
    then show ?thesis using slots_ok_worker [OF S'] by (simp add: slots_inv_def)
  next
    case (w_busy w j r n)
    then show ?thesis using slots_ok_worker [OF S'] by (simp add: slots_inv_def)
  next
    case (w_claim w j r n)
    have n: "first \<le> n" "n \<le> wt_next s" using J w_claim(2) by (auto simp: jobs_inv_def)
    have j: "front (wt_next s) (wt_taker s) \<le> j" "j < wt_next s + cap"
      using in_hand [OF J, of w j r] w_claim n by (auto simp: not_less)
    show ?thesis using slots_ok_claim [OF S' w_claim(2) j w_claim(4)] w_claim(1) by (simp add: slots_inv_def)
  next
    case (w_write w j r)
    have other: "k mod cap \<noteq> j mod cap" if "w' \<noteq> w" "pc_claim (wt_worker s w') = Some k" for w' k
      using claims_distinct [OF J S _ that(2), of w j] that(1) w_write(2) by auto
    show ?thesis using slots_ok_write [OF S' w_write(2) other] w_write(1) by (simp add: slots_inv_def)
  next
    case (w_ready w j r)
    have other: "k mod cap \<noteq> j mod cap" if "w' \<noteq> w" "pc_claim (wt_worker s w') = Some k" for w' k
      using claims_distinct [OF J S _ that(2), of w j] that(1) w_ready(2) by auto
    have "wt_given s j = Some r" using in_hand [OF J, of w j r] w_ready(2) by simp
    then show ?thesis using slots_ok_ready [OF S' w_ready(2) other] w_ready(1) by (simp add: slots_inv_def)
  next
    case t_copy
    then show ?thesis using S' by (simp add: slots_inv_def)
  next
    case (t_advance r)
    then show ?thesis using S' by (auto simp: slots_inv_def slots_ok_def less_Suc_eq)
  next
    case (t_free r)
    have slot: "wt_state s (wt_next s mod cap) = SLOT_READY" "wt_job s (wt_next s mod cap) = wt_next s"
      using T t_free by (auto simp: taker_inv_def)
    have claim: "j mod cap \<noteq> wt_next s mod cap" "Suc (wt_next s) \<le> j" if "pc_claim (wt_worker s w) = Some j" for w j
    proof -
      show "j mod cap \<noteq> wt_next s mod cap" using claim_facts(1) [OF S that] slot by auto
      then have "j \<noteq> wt_next s" by auto
      with claim_facts(3) [OF S that] show "Suc (wt_next s) \<le> j" by simp
    qed
    have ready: "Suc (wt_next s) \<le> wt_job s i" if "wt_state s i = SLOT_READY" "i \<noteq> wt_next s mod cap" for i
    proof -
      have "wt_job s i mod cap = i" "wt_next s \<le> wt_job s i"
        using S' that(1) t_free(2) unfolding slots_ok_def by auto
      with that(2) have "wt_job s i \<noteq> wt_next s" by auto
      with \<open>wt_next s \<le> wt_job s i\<close> show ?thesis by simp
    qed
    show ?thesis using S' t_free claim ready by (auto simp: slots_inv_def slots_ok_def)
  qed
qed

lemma taker_inv_step:
  assumes inv: "window_inv cap first s" and step: "window_step cap s s'"
  shows "taker_inv cap first s'"
proof -
  have J: "jobs_inv cap first s" and S: "slots_inv cap s" and T: "taker_inv cap first s"
    using inv by (auto simp: window_inv_def)
  from step show ?thesis
  proof (cases rule: window_step.cases)
    case (w_begin w j r)
    then have "wt_given s k = Some r' \<Longrightarrow> k \<noteq> j" for k r' by auto
    with T w_begin(1,3) show ?thesis by (auto simp: taker_inv_def)
  next
    case (w_claim w j r n)
    then show ?thesis using T by (auto simp: taker_inv_def)
  next
    case (w_write w j r)
    have "wt_state s (j mod cap) = SLOT_WRITING" using claim_facts(1) [OF S, of w j] w_write(2) by simp
    then show ?thesis using T w_write(1) by (auto simp: taker_inv_def)
  next
    case (w_ready w j r)
    have "wt_state s (j mod cap) = SLOT_WRITING" using claim_facts(1) [OF S, of w j] w_ready(2) by simp
    then show ?thesis using T w_ready(1) by (auto simp: taker_inv_def)
  next
    case (t_free r)
    then have "wt_given s (wt_next s) = Some r"
      using T S by (auto simp: taker_inv_def slots_inv_def slots_ok_def)
    then show ?thesis using T t_free by (auto simp: taker_inv_def)
  next
    case (t_advance r)
    then show ?thesis using T by (auto simp: taker_inv_def)
  qed (use T in \<open>auto simp: taker_inv_def\<close>)
qed

lemma window_reachable_inv: "window_reachable cap first s \<Longrightarrow> window_inv cap first s"
proof (induction rule: window_reachable.induct)
  case (window_start job0 result0)
  show ?case by (rule window_inv_init)
next
  case (window_more s s')
  then show ?case using jobs_inv_step slots_inv_step taker_inv_step unfolding window_inv_def by metis
qed

text \<open>One job from its start to the consumer.\<close>

lemma window_example:
  "\<exists>(s1 :: (nat, nat) window_threads) (s2 :: (nat, nat) window_threads). window_reachable 2 0 s1 \<and> wt_worker s1 0 = W_Loaded 0 7 0 \<and>
    window_reachable 2 0 s2 \<and> wt_taken s2 = [(0, 7)] \<and> wt_next s2 = 1"
proof -
  let ?s0 = "window_threads_init 0 (\<lambda>_. 0) (\<lambda>_. 0) :: (nat, nat) window_threads"
  have r0: "window_reachable 2 0 ?s0" by (rule window_start)
  let ?s1 = "?s0\<lparr>wt_worker := (wt_worker ?s0)(0 := W_Loaded 0 7 (wt_next ?s0)), wt_given := (wt_given ?s0)(0 \<mapsto> 7)\<rparr>"
  have r1: "window_reachable 2 0 ?s1"
    by (rule window_more [OF r0 w_begin]) (simp_all add: window_threads_init_def)
  let ?s2 = "?s1\<lparr>wt_worker := (wt_worker ?s1)(0 := W_Claimed 0 7), wt_state := (wt_state ?s1)(0 mod 2 := SLOT_WRITING)\<rparr>"
  have r2: "window_reachable 2 0 ?s2"
    by (rule window_more [OF r1 w_claim [where n = 0]]) (simp_all add: window_threads_init_def)
  let ?s3 = "?s2\<lparr>wt_worker := (wt_worker ?s2)(0 := W_Written 0 7),
    wt_job := (wt_job ?s2)(0 mod 2 := 0), wt_result := (wt_result ?s2)(0 mod 2 := 7)\<rparr>"
  have r3: "window_reachable 2 0 ?s3" by (rule window_more [OF r2 w_write]) simp
  let ?s4 = "?s3\<lparr>wt_worker := (wt_worker ?s3)(0 := W_Idle), wt_state := (wt_state ?s3)(0 mod 2 := SLOT_READY)\<rparr>"
  have r4: "window_reachable 2 0 ?s4" by (rule window_more [OF r3 w_ready [where r = 7]]) simp
  let ?s5 = "?s4\<lparr>wt_taker := T_Copied (wt_result ?s4 (wt_next ?s4 mod 2))\<rparr>"
  have r5: "window_reachable 2 0 ?s5"
    by (rule window_more [OF r4 t_copy]) (simp_all add: window_threads_init_def)
  let ?s6 = "?s5\<lparr>wt_taker := T_Freed 7, wt_state := (wt_state ?s5)(wt_next ?s5 mod 2 := SLOT_EMPTY)\<rparr>"
  have r6: "window_reachable 2 0 ?s6"
    by (rule window_more [OF r5 t_free]) (simp add: window_threads_init_def)
  let ?s7 = "?s6\<lparr>wt_taker := T_Idle, wt_next := wt_next ?s6 + 1, wt_taken := wt_taken ?s6 @ [(wt_next ?s6, 7)]\<rparr>"
  have r7: "window_reachable 2 0 ?s7" by (rule window_more [OF r6 t_advance]) simp
  show ?thesis
    by (rule exI [of _ ?s1], rule exI [of _ ?s7], intro conjI r1 r7) (simp_all add: window_threads_init_def)
qed

section \<open>Nothing is lost but what is refused\<close>

text \<open>
  A slot is never found busy: with one result per job, a worker whose job is inside the window it
  loaded always finds the job's slot empty, even when the consumer is freeing slots meanwhile, so the
  compare-and-exchange rejects no result the window has room for.
\<close>

lemma window_slot_never_busy:
  assumes "window_reachable cap first s" and "wt_worker s w = W_Loaded j r n" and "n \<le> j" and "j < n + cap"
  shows "wt_state s (j mod cap) = SLOT_EMPTY"
proof (rule ccontr)
  assume busy: "wt_state s (j mod cap) \<noteq> SLOT_EMPTY"
  have J: "jobs_inv cap first s" and S: "slots_inv cap s"
    using window_reachable_inv [OF assms(1)] by (auto simp: window_inv_def)
  have n: "first \<le> n" "n \<le> wt_next s" using J assms(2) by (auto simp: jobs_inv_def)
  note hand = in_hand [OF J, of w j r]
  have j: "wt_next s \<le> j" "j < wt_next s + cap"
    using hand assms n front_le(1) [of "wt_next s" "wt_taker s"] by auto
  show False
  proof (cases "wt_state s (j mod cap)")
    case SLOT_READY
    then have "wt_job s (j mod cap) mod cap = j mod cap" "front (wt_next s) (wt_taker s) \<le> wt_job s (j mod cap)"
      "wt_job s (j mod cap) < wt_next s + cap"
      using S by (auto simp: slots_inv_def slots_ok_def)
    then have "wt_job s (j mod cap) = j"
      using window_same_slot [of "wt_next s" "wt_job s (j mod cap)" cap j] j front_le(1) [of "wt_next s" "wt_taker s"]
      by (meson order_trans)
    with SLOT_READY hand assms(2) show False by auto
  next
    case SLOT_WRITING
    then obtain w' k where k: "pc_claim (wt_worker s w') = Some k" "k mod cap = j mod cap"
      using S by (auto simp: slots_inv_def slots_ok_def)
    with window_same_slot [of "wt_next s" k cap j] j claim_facts [OF S k(1)] have "k = j" by blast
    with pc_claim_job [OF k(1)] hand assms(2) have "w' = w" by auto
    with k(1) assms(2) show False by simp
  qed (use busy in simp)
qed

definition on_its_way :: "nat \<Rightarrow> ('w, 'r) window_threads \<Rightarrow> nat \<Rightarrow> 'r \<Rightarrow> bool" where
  \<comment> \<open>the result of a job is in its worker's hands, ready in its slot, or in the consumer's\<close>
  "on_its_way cap s j r \<longleftrightarrow> (\<exists>w. pc_job (wt_worker s w) = Some (j, r)) \<or>
     (wt_state s (j mod cap) = SLOT_READY \<and> wt_job s (j mod cap) = j \<and> wt_result s (j mod cap) = r) \<or>
     (j = wt_next s \<and> (wt_taker s = T_Copied r \<or> wt_taker s = T_Freed r))"

definition accounted_for :: "nat \<Rightarrow> ('w, 'r) window_threads \<Rightarrow> nat \<Rightarrow> 'r \<Rightarrow> bool" where
  "accounted_for cap s j r \<longleftrightarrow>
     (j, r) \<in> set (wt_taken s) \<or> on_its_way cap s j r \<or> j \<in> fst ` set (wt_refused s)"

lemma pc_job_other:
  assumes "pc_job (wk w) = Some (k, q)" and "(k, q) \<noteq> (j, r)" and "pc_job (wk v) = Some (j, r) \<or> pc_job (wk v) = None"
  shows "pc_job ((wk(v := pc)) w) = Some (k, q)"
  using assms by auto

lemma kept_step:
  assumes inv: "window_inv cap first s" and step: "window_step cap s s'"
    and kept: "\<And>j r. wt_given s j = Some r \<Longrightarrow> accounted_for cap s j r" and given: "wt_given s' k = Some q"
  shows "accounted_for cap s' k q"
proof -
  have J: "jobs_inv cap first s" and S: "slots_inv cap s" and T: "taker_inv cap first s"
    using inv by (auto simp: window_inv_def)
  note defs = accounted_for_def on_its_way_def
  from step show ?thesis
  proof (cases rule: window_step.cases)
    case (w_begin w j r)
    show ?thesis
    proof (cases "k = j")
      case True
      with w_begin given show ?thesis by (auto simp: defs)
    next
      case False
      with w_begin given have "accounted_for cap s k q" by (intro kept) simp
      moreover have "pc_job (wt_worker s v) = Some (k, q) \<Longrightarrow> v \<noteq> w" for v using w_begin(2) by auto
      ultimately show ?thesis using w_begin(1) unfolding defs by fastforce
    qed
  next
    case (w_outside w j r n)
    with given have "accounted_for cap s k q" by (intro kept) simp
    moreover have "pc_job (wt_worker s v) = Some (k, q) \<Longrightarrow> v \<noteq> w \<or> k = j" for v using w_outside(2) by auto
    ultimately show ?thesis using w_outside(1) unfolding defs by fastforce
  next
    case (w_busy w j r n)
    with given have "accounted_for cap s k q" by (intro kept) simp
    moreover have "pc_job (wt_worker s v) = Some (k, q) \<Longrightarrow> v \<noteq> w \<or> k = j" for v using w_busy(2) by auto
    ultimately show ?thesis using w_busy(1) unfolding defs by fastforce
  next
    case (w_claim w j r n)
    with given have "accounted_for cap s k q" by (intro kept) simp
    moreover have "pc_job (((wt_worker s)(w := W_Claimed j r)) v) = pc_job (wt_worker s v)" for v using w_claim(2) by simp
    moreover have "wt_state s (k mod cap) = SLOT_READY \<Longrightarrow> k mod cap \<noteq> j mod cap" using w_claim(4) by auto
    ultimately show ?thesis using w_claim(1) unfolding defs by auto
  next
    case (w_write w j r)
    with given have "accounted_for cap s k q" by (intro kept) simp
    moreover have "pc_job (((wt_worker s)(w := W_Written j r)) v) = pc_job (wt_worker s v)" for v using w_write(2) by simp
    moreover have "wt_state s (k mod cap) = SLOT_READY \<Longrightarrow> k mod cap \<noteq> j mod cap"
      using claim_facts(1) [OF S, of w j] w_write(2) by auto
    ultimately show ?thesis using w_write(1) unfolding defs by auto
  next
    case (w_ready w j r)
    with given have a: "accounted_for cap s k q" by (intro kept) simp
    note slot = written_facts [OF S w_ready(2)]
    show ?thesis
    proof (cases "(k, q) = (j, r)")
      case True
      with w_ready(1) slot show ?thesis by (simp add: defs)
    next
      case False
      then have "pc_job (wt_worker s v) = Some (k, q) \<Longrightarrow> pc_job (((wt_worker s)(w := W_Idle)) v) = Some (k, q)" for v
        using pc_job_other [of "wt_worker s" v k q j r w] w_ready(2) by simp
      with a w_ready(1) show ?thesis unfolding defs by fastforce
    qed
  next
    case t_copy
    with given have "accounted_for cap s k q" by (intro kept) simp
    with t_copy show ?thesis unfolding defs by auto
  next
    case (t_free r)
    with given have a: "accounted_for cap s k q" by (intro kept) simp
    have "wt_job s (wt_next s mod cap) = wt_next s" "wt_result s (wt_next s mod cap) = r"
      using T t_free(2) by (auto simp: taker_inv_def)
    then have slot: "k = wt_next s \<and> q = r" if "k mod cap = wt_next s mod cap" "wt_job s (k mod cap) = k" "wt_result s (k mod cap) = q"
      using that by metis
    show ?thesis
    proof (cases "k = wt_next s \<and> q = r")
      case True
      with t_free(1) show ?thesis by (simp add: defs)
    next
      case False
      with a slot t_free(2) have "(k, q) \<in> set (wt_taken s) \<or> (\<exists>w. pc_job (wt_worker s w) = Some (k, q)) \<or>
          (k mod cap \<noteq> wt_next s mod cap \<and> wt_state s (k mod cap) = SLOT_READY \<and> wt_job s (k mod cap) = k \<and>
           wt_result s (k mod cap) = q) \<or> k \<in> fst ` set (wt_refused s)"
        unfolding defs by auto
      with t_free(1) show ?thesis unfolding defs by auto
    qed
  next
    case (t_advance r)
    with given have a: "accounted_for cap s k q" by (intro kept) simp
    show ?thesis
    proof (cases "k = wt_next s \<and> q = r")
      case True
      with t_advance(1) show ?thesis by (simp add: defs)
    next
      case False
      with a t_advance show ?thesis unfolding defs by auto
    qed
  qed
qed

lemma window_reachable_kept: "window_reachable cap first s \<Longrightarrow> wt_given s j = Some r \<Longrightarrow> accounted_for cap s j r"
proof (induction arbitrary: j r rule: window_reachable.induct)
  case (window_start job0 result0)
  then show ?case by (simp add: window_threads_init_def)
next
  case (window_more s s')
  show ?case by (rule kept_step [OF window_reachable_inv [OF window_more(1)] window_more(2,3,4)])
qed

lemma refused_step:
  assumes "window_reachable cap first s" and step: "window_step cap s s'"
    and "\<forall>(j, n) \<in> set (wt_refused s). j < n \<or> n + cap \<le> j"
  shows "\<forall>(j, n) \<in> set (wt_refused s'). j < n \<or> n + cap \<le> j"
  using step
proof (cases rule: window_step.cases)
  case (w_busy w j r n)
  then have "n \<le> j" "j < n + cap" by linarith+
  with window_slot_never_busy [OF assms(1) w_busy(2)] w_busy(4) show ?thesis by simp
qed (use assms(3) in auto)

lemma window_reachable_refused:
  "window_reachable cap first s \<Longrightarrow> \<forall>(j, n) \<in> set (wt_refused s). j < n \<or> n + cap \<le> j"
proof (induction rule: window_reachable.induct)
  case (window_start job0 result0)
  show ?case by (simp add: window_threads_init_def)
next
  case (window_more s s')
  show ?case by (rule refused_step [OF window_more])
qed

section \<open>Properties\<close>

text \<open>
  C8: whatever the interleaving of the decoder workers and the consumer, the results are taken in
  detection order, one for each job from the first on, and each is the very result the worker was
  given for that job: none is duplicated, reordered or seen half-written.  A result is lost only where
  its submit returned false: every other one has been taken or is on its way (in its worker's hands, ready
  in its slot, or with the consumer).  And submit returns false only for a job outside the window that
  starts at the next job the worker loaded, never because the job's slot is still occupied.
\<close>

theorem window_threads_in_order:
  assumes "window_reachable cap first s"
  shows "map fst (wt_taken s) = [first..<wt_next s] \<and> list_all (\<lambda>(j, r). wt_given s j = Some r) (wt_taken s) \<and>
    (\<forall>j r. wt_given s j = Some r \<longrightarrow>
       (j, r) \<in> set (wt_taken s) \<or> on_its_way cap s j r \<or> j \<in> fst ` set (wt_refused s)) \<and>
    list_all (\<lambda>(j, n). j < n \<or> n + cap \<le> j) (wt_refused s)"
  using window_reachable_inv [OF assms] window_reachable_kept [OF assms] window_reachable_refused [OF assms]
  by (simp add: window_inv_def taker_inv_def list_all_iff accounted_for_def)

theorem window_threads_in_order_witness:
  "\<exists>s :: (nat, nat) window_threads. wt_taken s = [(0, 7)] \<and> wt_next s = 1 \<and>
    map fst (wt_taken s) = [0..<wt_next s] \<and> list_all (\<lambda>(j, r). wt_given s j = Some r) (wt_taken s)"
  using window_example window_threads_in_order by blast

end
