(* ===== verification/Ldpc.thy ===== *)
theory Ldpc
  imports Fp
begin

text \<open>
  The LDPC codec of \<^verbatim>\<open>src/fec/ldpc.c\<close>, for any parity-check matrix given as in \<^verbatim>\<open>src/fec/ldpc.h\<close>: the
  systematic encoder and the normalised min-sum decoder.  The encoder lemmas say which bits it
  writes; the decoder lemmas say that one iteration decodes every word whose soft bits agree with a
  codeword and whose erased bits each have a check that sees no other erasure.
\<close>

record rtnc_ldpc_code =
  lc_variable_count :: nat
  lc_information_count :: nat
  lc_check_count :: nat
  lc_edge_count :: nat
  lc_check_offsets :: "nat list"
  lc_edge_variables :: "nat list"
  lc_parity_masks :: "bytes option"

record rtnc_fec_decode_stats =
  st_converged :: bool
  st_iterations :: nat
  st_syndrome_weight :: nat

section \<open>The encoder\<close>

definition parity8 :: "u8 \<Rightarrow> u8" where
  "parity8 value =
    (let value = value XOR drop_bit 4 value;
         value = value AND 0x0f
     in ucast (drop_bit (unat value) (0x6996 :: u32) AND 1))"

definition parity_row :: "bytes \<Rightarrow> bytes \<Rightarrow> nat \<Rightarrow> u8" where
  \<comment> \<open>the inner loop over the information bytes\<close>
  "parity_row masks information index =
    foldl (\<lambda>bit k. bit XOR parity8 (information ! k AND masks ! (index * length information + k)))
      0 [0..<length information]"

definition put_bit :: "bytes \<Rightarrow> nat \<Rightarrow> bool \<Rightarrow> bytes" where
  \<comment> \<open>clear a byte when its first bit is reached, then set the bit if it is one\<close>
  "put_bit codeword output_bit one =
    (let codeword = (if output_bit mod 8 = 0 then codeword[output_bit div 8 := 0] else codeword)
     in if one
        then codeword[output_bit div 8 :=
               codeword ! (output_bit div 8) OR push_bit (7 - output_bit mod 8) 1]
        else codeword)"

definition encode_bit :: "bytes \<Rightarrow> nat \<Rightarrow> bytes \<Rightarrow> bytes \<Rightarrow> nat \<Rightarrow> bytes" where
  "encode_bit masks information_count information codeword index =
    put_bit codeword (information_count + index) (parity_row masks information index \<noteq> 0)"

definition rtnc_ldpc_encode_systematic ::
    "rtnc_ldpc_code \<Rightarrow> bytes \<Rightarrow> bytes \<Rightarrow> bytes option" where
  \<comment> \<open>\<open>None\<close> where the code returns false; else the output buffer\<close>
  "rtnc_ldpc_encode_systematic code information codeword =
    (case lc_parity_masks code of
       None \<Rightarrow> None
     | Some masks \<Rightarrow>
         if lc_information_count code = 0 \<or> lc_information_count code mod 8 \<noteq> 0 \<or>
            lc_variable_count code mod 8 \<noteq> 0 \<or>
            length information \<noteq> lc_information_count code div 8 \<or>
            length codeword < lc_variable_count code div 8 then None
         else Some (foldl (encode_bit masks (lc_information_count code) information)
                (buf_write codeword 0 information)
                [0..<lc_variable_count code - lc_information_count code]))"

section \<open>The decoder\<close>

definition check_edges :: "rtnc_ldpc_code \<Rightarrow> nat \<Rightarrow> nat list" where
  "check_edges code check = [lc_check_offsets code ! check ..< lc_check_offsets code ! (check + 1)]"

definition update_hard_bits :: "rtnc_ldpc_code \<Rightarrow> fp list \<Rightarrow> u8 list \<times> nat" where
  "update_hard_bits code posterior =
    (let bits = map (\<lambda>p. if p < 0 then 1 else 0) posterior
     in (bits,
         foldl (\<lambda>weight check.
             let parity = foldl (\<lambda>parity edge. parity XOR bits ! (lc_edge_variables code ! edge))
                   0 (check_edges code check)
             in weight + (if parity \<noteq> 0 then 1 else 0))
           0 [0..<lc_check_count code]))"

definition check_scan :: "fp list \<Rightarrow> nat list \<Rightarrow> fp \<times> bool" where
  \<comment> \<open>the innermost loop: the smallest magnitude of the other messages and their sign\<close>
  "check_scan variable_to_check others =
    foldl (\<lambda>(minimum, negative) other.
        let message = variable_to_check ! other
        in (if \<bar>message\<bar> < minimum then \<bar>message\<bar> else minimum, negative \<noteq> (message < 0)))
      (PInf, False) others"

definition check_message :: "rtnc_ldpc_code \<Rightarrow> fp \<Rightarrow> fp list \<Rightarrow> nat \<Rightarrow> nat \<Rightarrow> fp" where
  "check_message code normalization variable_to_check check target =
    (let (minimum, negative) =
           check_scan variable_to_check (filter (\<lambda>other. other \<noteq> target) (check_edges code check))
     in (if negative then - normalization else normalization) * minimum)"

definition check_pass :: "rtnc_ldpc_code \<Rightarrow> fp \<Rightarrow> fp list \<Rightarrow> fp list \<Rightarrow> fp list" where
  "check_pass code normalization variable_to_check check_to_variable =
    foldl (\<lambda>ctv check.
        foldl (\<lambda>ctv target. ctv[target := check_message code normalization variable_to_check check target])
          ctv (check_edges code check))
      check_to_variable [0..<lc_check_count code]"

definition variable_pass :: "rtnc_ldpc_code \<Rightarrow> fp list \<Rightarrow> fp list \<Rightarrow> fp list" where
  "variable_pass code channel_llr check_to_variable =
    map (\<lambda>variable.
        foldl (\<lambda>posterior edge.
            if lc_edge_variables code ! edge = variable then posterior + check_to_variable ! edge
            else posterior)
          (channel_llr ! variable) [0..<lc_edge_count code])
      [0..<lc_variable_count code]"

primrec decode_iterations ::
    "rtnc_ldpc_code \<Rightarrow> fp list \<Rightarrow> fp \<Rightarrow> nat \<Rightarrow> nat \<Rightarrow> fp list \<Rightarrow> fp list \<Rightarrow>
     u8 list \<times> rtnc_fec_decode_stats \<Rightarrow> u8 list \<times> rtnc_fec_decode_stats" where
  \<comment> \<open>the loop over iterations; the first number is how many remain\<close>
  "decode_iterations code llr normalization 0 iteration vtc ctv result = result"
| "decode_iterations code llr normalization (Suc remaining) iteration vtc ctv result =
    (let ctv = check_pass code normalization vtc ctv;
         posterior = variable_pass code llr ctv;
         (bits, weight) = update_hard_bits code posterior
     in if weight = 0
        then (bits, \<lparr>st_converged = True, st_iterations = iteration, st_syndrome_weight = weight\<rparr>)
        else decode_iterations code llr normalization remaining (iteration + 1)
               (map (\<lambda>edge. posterior ! (lc_edge_variables code ! edge) - ctv ! edge)
                 [0..<lc_edge_count code])
               ctv
               (bits, \<lparr>st_converged = False, st_iterations = iteration, st_syndrome_weight = weight\<rparr>))"

definition rtnc_ldpc_decode_normalized_min_sum ::
    "rtnc_ldpc_code \<Rightarrow> fp list \<Rightarrow> fp \<Rightarrow> nat \<Rightarrow> u8 list \<Rightarrow> nat \<Rightarrow> nat \<Rightarrow>
     (u8 list \<times> rtnc_fec_decode_stats) option" where
  \<comment> \<open>\<open>memory\<close> is what \<^verbatim>\<open>decoded_bits\<close> holds before; the capacities are the workspace's.  The
      workspace is written before it is read.\<close>
  "rtnc_ldpc_decode_normalized_min_sum code channel_llr normalization max_iterations memory
     edge_capacity variable_capacity =
    (if edge_capacity < lc_edge_count code \<or> variable_capacity < lc_variable_count code \<or>
        normalization \<le> 0 \<or> normalization > 1 \<or> max_iterations = 0 then None
     else Some (decode_iterations code channel_llr normalization max_iterations 1
            (map (\<lambda>edge. channel_llr ! (lc_edge_variables code ! edge)) [0..<lc_edge_count code])
            (replicate (lc_edge_count code) 0)
            (memory, \<lparr>st_converged = False, st_iterations = 0, st_syndrome_weight = 0\<rparr>)))"

text \<open>The small code of \<^verbatim>\<open>src/fec/codes/ldpc_test_7_4.h\<close>.\<close>

definition ldpc_test_7_4 :: rtnc_ldpc_code where
  "ldpc_test_7_4 = \<lparr>lc_variable_count = 7, lc_information_count = 4, lc_check_count = 3,
     lc_edge_count = 12, lc_check_offsets = [0, 4, 8, 12],
     lc_edge_variables = [0, 1, 3, 4, 0, 2, 3, 5, 1, 2, 3, 6], lc_parity_masks = None\<rparr>"

section \<open>What the encoder writes\<close>

definition code_bit :: "bytes \<Rightarrow> nat \<Rightarrow> bool" where
  \<comment> \<open>bit \<open>i\<close> of a byte string, most significant bit of each byte first\<close>
  "code_bit cw i = bit (cw ! (i div 8)) (7 - i mod 8)"

lemma code_bit_update_other:
  "i div 8 \<noteq> k \<Longrightarrow> code_bit (cw[k := b]) i = code_bit cw i"
  by (simp add: code_bit_def)

lemma code_bit_set:
  assumes "j div 8 < length cw"
  shows "code_bit (cw[j div 8 := cw ! (j div 8) OR push_bit (7 - j mod 8) 1]) i =
    (code_bit cw i \<or> i = j)"
proof (cases "i div 8 = j div 8")
  case True
  have i: "i = j \<longleftrightarrow> 7 - i mod 8 = 7 - j mod 8"
  proof
    assume "7 - i mod 8 = 7 - j mod 8"
    moreover have "i mod 8 < 8" "j mod 8 < 8" by simp_all
    ultimately have "i mod 8 = j mod 8" by linarith
    with True show "i = j" by (metis div_mult_mod_eq)
  qed simp
  have "7 - i mod 8 < 8" by simp
  then have "bit (push_bit (7 - j mod 8) 1 :: u8) (7 - i mod 8) \<longleftrightarrow> 7 - i mod 8 = 7 - j mod 8"
    by (auto simp: bit_exp_iff)
  then show ?thesis
    using True assms i by (auto simp: code_bit_def bit_or_iff)
next
  case False
  then show ?thesis by (auto simp: code_bit_update_other)
qed

lemma length_put_bit [simp]: "length (put_bit cw j b) = length cw"
  by (simp add: put_bit_def Let_def)

lemma put_bit_other: "k \<noteq> j div 8 \<Longrightarrow> put_bit cw j b ! k = cw ! k"
  by (simp add: put_bit_def Let_def)

lemma code_bit_put_bit:
  assumes "j div 8 < length cw"
  shows "code_bit (put_bit cw j b) i =
    (code_bit (if j mod 8 = 0 then cw[j div 8 := 0] else cw) i \<or> (i = j \<and> b))"
proof -
  have "j div 8 < length (if j mod 8 = 0 then cw[j div 8 := 0] else cw)" using assms by simp
  from code_bit_set [OF this, of i] show ?thesis unfolding put_bit_def Let_def by (cases b) simp_all
qed

lemma put_bits:
  assumes K: "K mod 8 = 0" and n: "K + n \<le> 8 * length cw"
  shows "(let cw' = foldl (\<lambda>cw i. put_bit cw (K + i) (P i)) cw [0..<n] in
     length cw' = length cw \<and>
     (\<forall>i < K. code_bit cw' i = code_bit cw i) \<and>
     (\<forall>k. 8 * k < K \<or> K + n \<le> 8 * k \<longrightarrow> cw' ! k = cw ! k) \<and>
     (\<forall>i < n. code_bit cw' (K + i) = P i) \<and>
     (\<forall>i. K + n \<le> i \<and> (K + n) mod 8 \<noteq> 0 \<and> i div 8 = (K + n) div 8 \<longrightarrow> \<not> code_bit cw' i))"
  using n
proof (induction n)
  case 0
  then show ?case using K by simp
next
  case (Suc n)
  let ?cw = "foldl (\<lambda>cw i. put_bit cw (K + i) (P i)) cw [0..<n]"
  let ?j = "K + n"
  let ?z = "if ?j mod 8 = 0 then ?cw[?j div 8 := 0] else ?cw"
  let ?cw' = "put_bit ?cw (K + n) (P n)"
  have j: "?j div 8 < length ?cw" "?j div 8 < length ?z" using Suc by (auto simp: Let_def)
  have IH: "length ?cw = length cw" "\<And>i. i < K \<Longrightarrow> code_bit ?cw i = code_bit cw i"
    "\<And>i. i < n \<Longrightarrow> code_bit ?cw (K + i) = P i" "\<And>k. 8 * k < K \<or> ?j \<le> 8 * k \<Longrightarrow> ?cw ! k = cw ! k"
    "\<And>i. ?j \<le> i \<Longrightarrow> ?j mod 8 \<noteq> 0 \<Longrightarrow> i div 8 = ?j div 8 \<Longrightarrow> \<not> code_bit ?cw i"
    using Suc by (auto simp: Let_def)
  have before: "i div 8 \<noteq> ?j div 8" if "?j mod 8 = 0" "i < ?j" for i
    using that by (metis div_le_mono div_mult_mod_eq add.right_neutral less_le_not_le
        nat_less_le less_imp_le_nat mult.commute times_div_less_eq_dividend)
  have z: "code_bit ?z i = code_bit ?cw i" if "i < ?j" for i
    using before [OF _ that] by (simp add: code_bit_update_other)
  have z0: "\<not> code_bit ?z i" if "?j \<le> i" "i div 8 = ?j div 8" for i
    using that IH(5) [OF that(1) _ that(2)] j by (auto simp: code_bit_def)
  have cw': "code_bit ?cw' i = (code_bit ?z i \<or> (i = ?j \<and> P n))" for i
    by (rule code_bit_put_bit [OF j(1)])
  have len: "length ?cw' = length cw" using IH(1) by simp
  have 1: "code_bit ?cw' i = code_bit cw i" if "i < K" for i
    using that cw' z IH(2) by simp
  have 2: "code_bit ?cw' (K + i) = P i" if "i < Suc n" for i
    using that cw' z IH(3) z0 by (cases "i = n") auto
  have 3: "\<not> code_bit ?cw' i" if "K + Suc n \<le> i" "(K + Suc n) mod 8 \<noteq> 0" "i div 8 = (K + Suc n) div 8" for i
  proof -
    have "(K + Suc n) div 8 = ?j div 8" using that(2) by (simp add: div_Suc)
    with that cw' z0 show ?thesis by auto
  qed
  have 4: "?cw' ! k = cw ! k" if "8 * k < K \<or> K + Suc n \<le> 8 * k" for k
  proof -
    obtain q where q: "K = 8 * q" using K by auto
    have "8 * (?j div 8) \<le> ?j" "?j < 8 * (?j div 8) + 8" by simp_all
    then have "k \<noteq> ?j div 8" using that q by auto
    then have "?cw' ! k = ?cw ! k" by (rule put_bit_other)
    also have "\<dots> = cw ! k" using that by (intro IH(4)) auto
    finally show ?thesis .
  qed
  from len 1 2 3 4 show ?case by (simp add: Let_def)
qed

lemma encode_systematic_bits:
  assumes enc: "rtnc_ldpc_encode_systematic code info buf = Some cw"
    and n: "lc_information_count code \<le> lc_variable_count code"
  shows "\<exists>masks. lc_parity_masks code = Some masks \<and> length cw = length buf \<and>
    (\<forall>i < lc_information_count code. code_bit cw i = code_bit info i) \<and>
    (\<forall>i < lc_variable_count code - lc_information_count code.
       code_bit cw (lc_information_count code + i) = (parity_row masks info i \<noteq> 0))"
proof -
  let ?K = "lc_information_count code" and ?N = "lc_variable_count code"
  from enc obtain masks where m: "lc_parity_masks code = Some masks" "?K mod 8 = 0" "?N mod 8 = 0"
    "length info = ?K div 8" "?N div 8 \<le> length buf"
    "cw = foldl (encode_bit masks ?K info) (buf_write buf 0 info) [0..<?N - ?K]"
    by (auto simp: rtnc_ldpc_encode_systematic_def split: option.splits if_splits)
  have N: "?N = 8 * (?N div 8)" using m(3) by presburger
  have K: "?K = 8 * (?K div 8)" using m(2) by presburger
  have len: "length (buf_write buf 0 info) = length buf"
    using m n by (simp add: length_buf_write div_le_mono le_trans [OF div_le_mono [OF n]])
  have "?K + (?N - ?K) \<le> 8 * length (buf_write buf 0 info)" using n m(5) N len by linarith
  from put_bits [OF m(2) this, of "\<lambda>i. parity_row masks info i \<noteq> 0"] m(6)
  have cw: "length cw = length buf" "\<And>i. i < ?K \<Longrightarrow> code_bit cw i = code_bit (buf_write buf 0 info) i"
    "\<And>i. i < ?N - ?K \<Longrightarrow> code_bit cw (?K + i) = (parity_row masks info i \<noteq> 0)"
    by (auto simp: Let_def len encode_bit_def [abs_def])
  have "code_bit (buf_write buf 0 info) i = code_bit info i" if "i < ?K" for i
  proof -
    have "i div 8 < length info" using that K m(4) by (simp add: less_mult_imp_div_less mult.commute)
    then show ?thesis by (simp add: code_bit_def buf_write_def nth_append)
  qed
  with cw m(1) show ?thesis by auto
qed

section \<open>Linearity of the parity\<close>

lemma upto8: "[0..<8] = [0, 1, 2, 3, 4, 5, 6, 7]" and upto4: "[0..<4] = [0, 1, 2, 3]"
  by (simp_all add: upt_rec)

lemma drop_bit_and_1: "drop_bit n a AND 1 = (of_bool (bit a n) :: u32)"
  by (simp add: and_one_eq mod_2_eq_odd bit_iff_odd_drop_bit)

lemma nibble_parity:
  "n < 16 \<Longrightarrow> bit (0x6996 :: u32) n = odd (length (filter (\<lambda>i. odd (n div 2 ^ i)) [0..<4]))"
proof -
  have "\<forall>n \<in> set [0..<16]. bit (0x6996 :: u32) n = odd (length (filter (\<lambda>i. odd (n div 2 ^ i)) [0..<4]))"
    by (simp add: upt_rec bit_iff_odd)
  then show "n < 16 \<Longrightarrow> bit (0x6996 :: u32) n = odd (length (filter (\<lambda>i. odd (n div 2 ^ i)) [0..<4]))" by simp
qed

lemma parity8_eq: "parity8 x = of_bool (odd (length (filter (bit x) [0..<8])))"
proof -
  let ?y = "(x XOR drop_bit 4 x) AND 0x0f"
  have m: "(0x0f :: u8) = mask 4" by (simp add: mask_eq_exp_minus_1)
  have y: "bit ?y i = (i < 4 \<and> bit x i \<noteq> bit x (i + 4))" for i
    unfolding m by (auto simp only: bit_and_iff bit_xor_iff bit_drop_bit_eq bit_mask_iff o_def possible_bit_word add.commute)
      (simp_all add: bit_mask_iff possible_bit_word)
  have lt: "unat ?y < 16"
    unfolding m take_bit_eq_mask [symmetric] unsigned_take_bit_eq
    using take_bit_nat_less_exp [of 4] by simp
  have "bit (0x6996 :: u32) (unat ?y) = odd (length (filter (\<lambda>i. odd (unat ?y div 2 ^ i)) [0..<4]))"
    by (rule nibble_parity [OF lt])
  also have "(\<lambda>i. odd (unat ?y div 2 ^ i)) = bit ?y"
    by (simp only: fun_eq_iff bit_iff_odd [symmetric] bit_unsigned_iff simp_thms) (simp add: bit_imp_le_length)
  also have "filter (bit ?y) [0..<4] = filter (\<lambda>i. bit x i \<noteq> bit x (i + 4)) [0..<4]"
    by (intro filter_cong refl) (simp only: y set_upt atLeastLessThan_iff simp_thms)
  also have "odd (length \<dots>) = odd (length (filter (bit x) [0..<8]))"
    by (simp only: upto8 upto4) simp
  finally have "bit (0x6996 :: u32) (unat ?y) = odd (length (filter (bit x) [0..<8]))" .
  then show ?thesis
    by (simp only: parity8_def Let_def drop_bit_and_1) simp
qed

definition odd_bits :: "u8 \<Rightarrow> bool" where
  "odd_bits x \<longleftrightarrow> odd (length (filter (bit x) [0..<8]))"

lemma parity8_odd_bits: "parity8 x = of_bool (odd_bits x)"
  by (simp add: parity8_eq odd_bits_def)

lemma odd_filter_xor:
  "odd (length (filter (\<lambda>i. P i \<noteq> Q i) xs)) = (odd (length (filter P xs)) \<noteq> odd (length (filter Q xs)))"
  by (induction xs) auto

lemma odd_bits_xor: "odd_bits (a AND (b XOR c)) = (odd_bits (a AND b) \<noteq> odd_bits (a AND c))"
proof -
  have "bit (a AND (b XOR c)) = (\<lambda>i. bit (a AND b) i \<noteq> bit (a AND c) i)"
    by (auto simp: fun_eq_iff bit_and_iff bit_xor_iff)
  then show ?thesis unfolding odd_bits_def by (simp only: odd_filter_xor)
qed

lemma odd_bits_0 [simp]: "\<not> odd_bits 0"
  by (simp add: odd_bits_def)

lemma odd_bits_unit: "j < 8 \<Longrightarrow> odd_bits (a AND push_bit j 1) = bit a j"
proof -
  assume j: "j < 8"
  have "bit (a AND push_bit j 1) = (\<lambda>i. i = j \<and> bit a j)"
    using j by (auto simp: fun_eq_iff bit_and_iff bit_exp_iff possible_bit_word)
  moreover have "filter (\<lambda>i. i = j) [0..<8] = [j]" using j
    by (simp only: upto8) (auto simp: less_Suc_eq numeral_eq_Suc)
  ultimately show ?thesis by (cases "bit a j") (simp_all add: odd_bits_def)
qed

lemma foldl_xor_of_bool:
  "foldl (\<lambda>b k. b XOR of_bool (P k)) (of_bool q) xs = (of_bool (q \<noteq> odd (length (filter P xs))) :: u8)"
proof (induction xs arbitrary: q)
  case (Cons x xs)
  have "(of_bool q XOR of_bool (P x) :: u8) = of_bool (q \<noteq> P x)" by auto
  then show ?case using Cons.IH [of "q \<noteq> P x"] by auto
qed simp

definition dot :: "bytes \<Rightarrow> bytes \<Rightarrow> bool" where
  \<comment> \<open>the parity of the bits a byte string and a mask have in common\<close>
  "dot info m \<longleftrightarrow> odd (length (filter (\<lambda>k. odd_bits (info ! k AND m ! k)) [0..<length info]))"

lemma parity_row_dot:
  "index * length info \<le> length masks \<Longrightarrow>
   parity_row masks info index \<noteq> 0 \<longleftrightarrow> dot info (drop (index * length info) masks)"
  using foldl_xor_of_bool [of "\<lambda>k. odd_bits (info ! k AND masks ! (index * length info + k))" False]
  by (simp add: parity_row_def dot_def parity8_odd_bits)

definition xor_mask :: "bytes \<Rightarrow> bytes \<Rightarrow> bytes" where
  "xor_mask a b = map2 (XOR) a b"

lemma dot_xor:
  "length info \<le> length a \<Longrightarrow> length info \<le> length b \<Longrightarrow>
   dot info (xor_mask a b) = (dot info a \<noteq> dot info b)"
proof -
  assume len: "length info \<le> length a" "length info \<le> length b"
  have "filter (\<lambda>k. odd_bits (info ! k AND xor_mask a b ! k)) [0..<length info] =
      filter (\<lambda>k. odd_bits (info ! k AND a ! k) \<noteq> odd_bits (info ! k AND b ! k)) [0..<length info]"
    using len by (intro filter_cong refl) (simp add: xor_mask_def odd_bits_xor)
  then show ?thesis by (simp only: dot_def odd_filter_xor)
qed

lemma dot_zero: "dot info (replicate (length info) 0) = False"
proof -
  have "filter (\<lambda>k. odd_bits (info ! k AND replicate (length info) 0 ! k)) [0..<length info] = []"
    by (simp add: filter_empty_conv)
  then show ?thesis by (simp add: dot_def)
qed

definition unit_mask :: "nat \<Rightarrow> nat \<Rightarrow> bytes" where
  "unit_mask n v = (replicate n 0)[v div 8 := push_bit (7 - v mod 8) 1]"

lemma filter_eq_upt: "c < n \<Longrightarrow> filter (\<lambda>k. k = c) [0..<n] = [c]"
  by (induction n) (auto simp: less_Suc_eq filter_empty_conv)

lemma length_xor_mask [simp]: "length (xor_mask a b) = min (length a) (length b)"
  by (simp add: xor_mask_def)

lemma dot_unit: "v < 8 * length info \<Longrightarrow> dot info (unit_mask (length info) v) = code_bit info v"
proof -
  assume v: "v < 8 * length info"
  then have i: "v div 8 < length info" by (simp add: less_mult_imp_div_less mult.commute)
  have "filter (\<lambda>k. odd_bits (info ! k AND unit_mask (length info) v ! k)) [0..<length info] =
      filter (\<lambda>k. k = v div 8 \<and> code_bit info v) [0..<length info]"
    using i by (intro filter_cong refl)
      (auto simp: unit_mask_def nth_list_update odd_bits_unit code_bit_def simp del: push_bit_of_1)
  moreover have "filter (\<lambda>k. k = v div 8) [0..<length info] = [v div 8]" using i by (rule filter_eq_upt)
  ultimately show ?thesis unfolding dot_def by (cases "code_bit info v") simp_all
qed

text \<open>The mask of variable \<open>v\<close>: the information bits its value is the parity of.\<close>

definition variable_mask :: "nat \<Rightarrow> bytes \<Rightarrow> nat \<Rightarrow> bytes" where
  "variable_mask K masks v =
    (if v < K then unit_mask (K div 8) v else take (K div 8) (drop ((v - K) * (K div 8)) masks))"

lemma dot_take: "dot info (take (length info) m) = dot info m"
proof -
  have "filter (\<lambda>k. odd_bits (info ! k AND take (length info) m ! k)) [0..<length info] =
      filter (\<lambda>k. odd_bits (info ! k AND m ! k)) [0..<length info]"
    by (intro filter_cong refl) simp
  then show ?thesis by (simp add: dot_def)
qed

lemma odd_dots:
  assumes "\<forall>m \<in> set ms. length m = length info"
  shows "odd (length (filter (dot info) ms)) = dot info (foldr xor_mask ms (replicate (length info) 0)) \<and>
    length (foldr xor_mask ms (replicate (length info) 0)) = length info"
  using assms
proof (induction ms)
  case (Cons m ms)
  then show ?case using dot_xor [of info m "foldr xor_mask ms (replicate (length info) 0)"]
    by simp
qed (simp add: dot_zero)


section \<open>One iteration of the decoder\<close>

definition ldpc_wf :: "rtnc_ldpc_code \<Rightarrow> bool" where
  "ldpc_wf code \<longleftrightarrow> length (lc_check_offsets code) = lc_check_count code + 1 \<and>
     sorted (lc_check_offsets code) \<and> lc_check_offsets code ! 0 = 0 \<and>
     lc_check_offsets code ! lc_check_count code = lc_edge_count code \<and>
     length (lc_edge_variables code) = lc_edge_count code \<and>
     (\<forall>v \<in> set (lc_edge_variables code). v < lc_variable_count code)"

definition agrees :: "bool \<Rightarrow> fp \<Rightarrow> bool" where
  \<comment> \<open>a finite soft value that does not contradict the bit\<close>
  "agrees b x \<longleftrightarrow> (\<exists>r. x = Fin r \<and> (if b then r \<le> 0 else r \<ge> 0))"

definition decides :: "bool \<Rightarrow> fp \<Rightarrow> bool" where
  \<comment> \<open>a finite soft value of the bit's sign\<close>
  "decides b x \<longleftrightarrow> (\<exists>r. x = Fin r \<and> (if b then r < 0 else r > 0))"

lemma decides_agrees: "decides b x \<Longrightarrow> agrees b x"
  by (auto simp: decides_def agrees_def split: if_splits)

lemma decides_sign: "decides b x \<Longrightarrow> (x < 0) = b"
  by (auto simp: decides_def split: if_splits)

lemma agrees_add: "agrees b x \<Longrightarrow> agrees b y \<Longrightarrow> agrees b (x + y)"
  by (cases b) (auto simp: agrees_def)

lemma decides_add: "agrees b x \<Longrightarrow> agrees b y \<Longrightarrow> decides b x \<or> decides b y \<Longrightarrow> decides b (x + y)"
  by (cases b) (auto simp: agrees_def decides_def)

lemma check_scan_snoc:
  "check_scan vtc (xs @ [x]) =
    (let (m, neg) = check_scan vtc xs
     in (if \<bar>vtc ! x\<bar> < m then \<bar>vtc ! x\<bar> else m, neg \<noteq> (vtc ! x < 0)))"
  by (simp add: check_scan_def Let_def split: prod.splits)

lemma check_scan_agrees:
  assumes "\<forall>e\<in>set es0. agrees (b e) (vtc ! e)"
  shows "\<exists>m neg. check_scan vtc es0 = (m, neg) \<and>
    (es0 = [] \<longrightarrow> m = PInf) \<and>
    (es0 \<noteq> [] \<longrightarrow> (\<exists>r\<ge>0. m = Fin r \<and> (r > 0 \<longleftrightarrow> (\<forall>e\<in>set es0. decides (b e) (vtc ! e))))) \<and>
    ((\<forall>e\<in>set es0. decides (b e) (vtc ! e)) \<longrightarrow> neg = odd (length (filter b es0)))"
  using assms
proof (induction es0 rule: rev_induct)
  case Nil
  show ?case by (intro exI [of _ PInf] exI [of _ False]) (simp add: check_scan_def)
next
  case (snoc x xs)
  then obtain m neg where IH: "check_scan vtc xs = (m, neg)" "xs = [] \<longrightarrow> m = PInf"
    "xs \<noteq> [] \<longrightarrow> (\<exists>r\<ge>0. m = Fin r \<and> (r > 0 \<longleftrightarrow> (\<forall>e\<in>set xs. decides (b e) (vtc ! e))))"
    "(\<forall>e\<in>set xs. decides (b e) (vtc ! e)) \<longrightarrow> neg = odd (length (filter b xs))" by auto
  from snoc.prems obtain t where t: "vtc ! x = Fin t" "if b x then t \<le> 0 else t \<ge> 0"
    by (auto simp: agrees_def)
  have d: "decides (b x) (vtc ! x) \<longleftrightarrow> \<bar>t\<bar> > 0" using t by (auto simp: decides_def split: if_splits)
  have s: "decides (b x) (vtc ! x) \<longrightarrow> (vtc ! x < 0) = b x" using decides_sign by blast
  let ?m = "if \<bar>vtc ! x\<bar> < m then \<bar>vtc ! x\<bar> else m"
  have "\<exists>r\<ge>0. ?m = Fin r \<and> (r > 0 \<longleftrightarrow> (\<forall>e\<in>set (xs @ [x]). decides (b e) (vtc ! e)))"
  proof (cases "xs = []")
    case True
    then show ?thesis using IH(2) t d by simp
  next
    case False
    with IH(3) obtain r where r: "r \<ge> 0" "m = Fin r" "r > 0 \<longleftrightarrow> (\<forall>e\<in>set xs. decides (b e) (vtc ! e))" by auto
    have "?m = Fin (min \<bar>t\<bar> r)" using r t by (simp add: min_def)
    moreover have "min \<bar>t\<bar> r > 0 \<longleftrightarrow> (\<forall>e\<in>set (xs @ [x]). decides (b e) (vtc ! e))"
      using r d by auto
    ultimately show ?thesis using r(1) by (intro exI [of _ "min \<bar>t\<bar> r"]) simp
  qed
  moreover have "(\<forall>e\<in>set (xs @ [x]). decides (b e) (vtc ! e)) \<longrightarrow>
      (neg \<noteq> (vtc ! x < 0)) = odd (length (filter b (xs @ [x])))"
    using IH(4) s by auto
  ultimately show ?case using IH(1) by (simp add: check_scan_snoc)
qed

text \<open>An even check: the other bits have the parity of the target.\<close>

lemma filter_ne_remove1: "distinct xs \<Longrightarrow> filter (\<lambda>e. e \<noteq> t) xs = remove1 t xs"
  by (induction xs) (auto simp: filter_id_conv)

lemma odd_others:
  assumes "distinct es" "t \<in> set es" "even (length (filter b es))"
  shows "odd (length (filter b (filter (\<lambda>e. e \<noteq> t) es))) = b t"
proof -
  have e: "filter b (filter (\<lambda>e. e \<noteq> t) es) = remove1 t (filter b es)"
    using assms(1) by (simp add: filter_ne_remove1 filter_remove1)
  show ?thesis
  proof (cases "b t")
    case True
    then have t: "t \<in> set (filter b es)" using assms(2) by simp
    then have "0 < length (filter b es)" by (rule length_pos_if_in_set)
    with assms(3) t True show ?thesis unfolding e by (simp add: length_remove1)
  next
    case False
    then show ?thesis using assms(3) unfolding e by (simp add: length_remove1)
  qed
qed

lemma check_message_agrees:
  assumes t: "t \<in> set (check_edges code check)" and two: "2 \<le> length (check_edges code check)"
    and even: "even (length (filter b (check_edges code check)))"
    and ag: "\<forall>e\<in>set (check_edges code check). agrees (b e) (vtc ! e)" and a: "0 < a"
  shows "agrees (b t) (check_message code (Fin a) vtc check t)"
    and "(\<forall>e\<in>set (check_edges code check). e \<noteq> t \<longrightarrow> decides (b e) (vtc ! e)) \<Longrightarrow>
      decides (b t) (check_message code (Fin a) vtc check t)"
proof -
  let ?es0 = "filter (\<lambda>e. e \<noteq> t) (check_edges code check)"
  have d: "distinct (check_edges code check)" by (simp add: check_edges_def)
  have "?es0 = remove1 t (check_edges code check)"
    using d by (rule filter_ne_remove1)
  then have "length ?es0 = length (check_edges code check) - 1" using t by (simp add: length_remove1)
  then have ne: "?es0 \<noteq> []" using two by auto
  obtain m neg where scan: "check_scan vtc ?es0 = (m, neg)"
    "\<exists>r\<ge>0. m = Fin r \<and> (r > 0 \<longleftrightarrow> (\<forall>e\<in>set ?es0. decides (b e) (vtc ! e)))"
    "(\<forall>e\<in>set ?es0. decides (b e) (vtc ! e)) \<longrightarrow> neg = odd (length (filter b ?es0))"
    using check_scan_agrees [of ?es0 b vtc] ag ne by auto
  then obtain r where r: "r \<ge> 0" "m = Fin r" "r > 0 \<longleftrightarrow> (\<forall>e\<in>set ?es0. decides (b e) (vtc ! e))" by blast
  have msg: "check_message code (Fin a) vtc check t = Fin (if neg then - (a * r) else a * r)"
    by (simp add: check_message_def scan(1) r(2))
  have neg: "r > 0 \<Longrightarrow> neg = b t" using r(3) scan(3) odd_others [OF d t even] by simp
  show "agrees (b t) (check_message code (Fin a) vtc check t)"
  proof (cases "r > 0")
    case True
    then show ?thesis using neg a by (simp add: msg agrees_def)
  next
    case False
    then have "r = 0" using r(1) by simp
    then show ?thesis by (simp add: msg agrees_def)
  qed
  assume "\<forall>e\<in>set (check_edges code check). e \<noteq> t \<longrightarrow> decides (b e) (vtc ! e)"
  then have "r > 0" using r(3) by simp
  then show "decides (b t) (check_message code (Fin a) vtc check t)"
    using neg a by (simp add: msg decides_def)
qed

lemma foldl_update:
  "length (foldl (\<lambda>xs t. xs[t := f t]) xs ts) = length xs"
  "e < length xs \<Longrightarrow> foldl (\<lambda>xs t. xs[t := f t]) xs ts ! e = (if e \<in> set ts then f e else xs ! e)"
  by (induction ts arbitrary: xs) (auto simp: nth_list_update)

lemma offsets_mono:
  "ldpc_wf code \<Longrightarrow> i \<le> j \<Longrightarrow> j \<le> lc_check_count code \<Longrightarrow>
   lc_check_offsets code ! i \<le> lc_check_offsets code ! j"
  by (auto simp: ldpc_wf_def intro: sorted_nth_mono)

lemma check_edges_bound:
  assumes "ldpc_wf code" "c < lc_check_count code" "e \<in> set (check_edges code c)"
  shows "e < lc_edge_count code"
  using assms offsets_mono [OF assms(1), of "c + 1" "lc_check_count code"]
  by (auto simp: check_edges_def ldpc_wf_def)

lemma edge_in_check:
  assumes wf: "ldpc_wf code" and e: "e < lc_edge_count code"
  shows "\<exists>c < lc_check_count code. e \<in> set (check_edges code c)"
proof -
  let ?off = "\<lambda>i. lc_check_offsets code ! i"
  have "e < ?off k \<Longrightarrow> k \<le> lc_check_count code \<Longrightarrow> \<exists>c < k. e \<in> set (check_edges code c)" for k
  proof (induction k)
    case 0
    then show ?case using wf by (simp add: ldpc_wf_def)
  next
    case (Suc k)
    show ?case
    proof (cases "e < ?off k")
      case True
      with Suc show ?thesis by (meson Suc_leD less_SucI)
    next
      case False
      with Suc.prems have "e \<in> set (check_edges code k)" by (simp add: check_edges_def)
      then show ?thesis by blast
    qed
  qed
  then show ?thesis using wf e by (simp add: ldpc_wf_def)
qed

lemma check_edges_disjoint:
  assumes "ldpc_wf code" "c < c'" "c' < lc_check_count code" "e \<in> set (check_edges code c)"
  shows "e \<notin> set (check_edges code c')"
  using assms offsets_mono [OF assms(1), of "c + 1" c'] by (auto simp: check_edges_def)

lemma check_pass_nth:
  assumes wf: "ldpc_wf code" and len: "length ctv = lc_edge_count code"
  shows "length (check_pass code a vtc ctv) = lc_edge_count code"
    and "c < lc_check_count code \<Longrightarrow> e \<in> set (check_edges code c) \<Longrightarrow>
      check_pass code a vtc ctv ! e = check_message code a vtc c e"
proof -
  let ?step = "\<lambda>ctv check. foldl (\<lambda>ctv target. ctv[target := check_message code a vtc check target])
          ctv (check_edges code check)"
  have "length (foldl ?step ctv [0..<k]) = lc_edge_count code \<and>
      (\<forall>c < k. \<forall>e \<in> set (check_edges code c). foldl ?step ctv [0..<k] ! e = check_message code a vtc c e)"
    if "k \<le> lc_check_count code" for k
    using that
  proof (induction k)
    case 0
    then show ?case using len by simp
  next
    case (Suc k)
    let ?ctv = "foldl ?step ctv [0..<k]"
    have IH: "length ?ctv = lc_edge_count code"
      "\<And>c e. c < k \<Longrightarrow> e \<in> set (check_edges code c) \<Longrightarrow> ?ctv ! e = check_message code a vtc c e"
      using Suc by auto
    have "?step ?ctv k ! e = check_message code a vtc c e"
      if "c < Suc k" "e \<in> set (check_edges code c)" for c e
    proof -
      have e: "e < length ?ctv" using check_edges_bound [OF wf _ that(2)] that(1) Suc.prems IH(1) by simp
      show ?thesis
      proof (cases "c = k")
        case True
        with that e show ?thesis by (simp add: foldl_update)
      next
        case False
        then have "c < k" using that(1) by simp
        with check_edges_disjoint [OF wf this _ that(2)] Suc.prems IH(2) that(2) e
        show ?thesis by (simp add: foldl_update)
      qed
    qed
    then show ?case using IH(1) by (simp add: foldl_update)
  qed
  from this [of "lc_check_count code"]
  show "length (check_pass code a vtc ctv) = lc_edge_count code"
    "c < lc_check_count code \<Longrightarrow> e \<in> set (check_edges code c) \<Longrightarrow>
      check_pass code a vtc ctv ! e = check_message code a vtc c e"
    by (auto simp: check_pass_def)
qed

lemma foldl_agrees:
  assumes "\<forall>e\<in>set es. P e \<longrightarrow> agrees b (f e)" and "agrees b x"
  shows "agrees b (foldl (\<lambda>p e. if P e then p + f e else p) x es)"
    and "decides b x \<or> (\<exists>e\<in>set es. P e \<and> decides b (f e)) \<Longrightarrow>
      decides b (foldl (\<lambda>p e. if P e then p + f e else p) x es)"
  using assms
proof (induction es arbitrary: x)
  case (Cons e es)
  {
    case 1
    then show ?case using Cons.IH(1) agrees_add by auto
  next
    case 2
    then have ag: "P e \<Longrightarrow> agrees b (f e)" "\<forall>e\<in>set es. P e \<longrightarrow> agrees b (f e)" by auto
    show ?case
    proof (cases "P e")
      case True
      have "decides b (x + f e) \<or> (\<exists>e\<in>set es. P e \<and> decides b (f e))"
        using 2(1) decides_add [OF 2(3) ag(1) [OF True]] by auto
      then show ?thesis using Cons.IH(2) [OF _ ag(2) agrees_add [OF 2(3) ag(1) [OF True]]] True by simp
    next
      case False
      then show ?thesis using Cons.IH(2) [OF _ ag(2) 2(3)] 2(1) by auto
    qed
  }
qed simp_all

lemma foldl_parity:
  "foldl (\<lambda>parity e. parity XOR of_bool (b e)) (of_bool q) es = (of_bool (q \<noteq> odd (length (filter b es))) :: u8)"
  by (rule foldl_xor_of_bool)

lemma foldl_zero_weight:
  "\<forall>c\<in>set cs. f c = 0 \<Longrightarrow> foldl (\<lambda>w c. w + f c) (w :: nat) cs = w"
  by (induction cs arbitrary: w) auto

definition codeword_of :: "rtnc_ldpc_code \<Rightarrow> (nat \<Rightarrow> bool) \<Rightarrow> bool" where
  \<comment> \<open>every parity check of the code is even\<close>
  "codeword_of code b \<longleftrightarrow> (\<forall>c < lc_check_count code.
     even (length (filter (\<lambda>e. b (lc_edge_variables code ! e)) (check_edges code c))))"

lemma hard_bits_codeword:
  assumes wf: "ldpc_wf code" and cw: "codeword_of code b"
    and p: "length posterior = lc_variable_count code" "\<forall>v < lc_variable_count code. decides (b v) (posterior ! v)"
  shows "update_hard_bits code posterior = (map (\<lambda>v. of_bool (b v)) [0..<lc_variable_count code], 0)"
proof -
  let ?bits = "map (\<lambda>p. if p < 0 then 1 else 0) posterior :: u8 list"
  have bits: "?bits = map (\<lambda>v. of_bool (b v)) [0..<lc_variable_count code]"
    using p decides_sign by (intro nth_equalityI) (auto simp del: fp_0)
  have "foldl (\<lambda>parity e. parity XOR ?bits ! (lc_edge_variables code ! e)) 0 (check_edges code c) = 0"
    if c: "c < lc_check_count code" for c
  proof -
    have "?bits ! (lc_edge_variables code ! e) = of_bool (b (lc_edge_variables code ! e))"
      if "e \<in> set (check_edges code c)" for e
    proof -
      have "lc_edge_variables code ! e < lc_variable_count code"
        using check_edges_bound [OF wf c that] wf by (simp add: ldpc_wf_def)
      then show ?thesis unfolding bits by simp
    qed
    then have "foldl (\<lambda>parity e. parity XOR ?bits ! (lc_edge_variables code ! e)) 0 (check_edges code c) =
        foldl (\<lambda>parity e. parity XOR of_bool (b (lc_edge_variables code ! e))) (of_bool False) (check_edges code c)"
      by (intro foldl_cong) simp_all
    also have "\<dots> = 0" using cw c unfolding foldl_parity codeword_of_def by simp
    finally show ?thesis .
  qed
  then show ?thesis unfolding update_hard_bits_def Let_def
    using bits foldl_zero_weight [of "[0..<lc_check_count code]"] by simp
qed

text \<open>
  One iteration suffices when the soft bits agree with a codeword and each erased bit has a check
  whose other bits all have a sign.
\<close>

definition soft_word :: "rtnc_ldpc_code \<Rightarrow> (nat \<Rightarrow> bool) \<Rightarrow> fp list \<Rightarrow> bool" where
  "soft_word code b llr \<longleftrightarrow> length llr = lc_variable_count code \<and>
     (\<forall>v < lc_variable_count code. agrees (b v) (llr ! v) \<and>
       (decides (b v) (llr ! v) \<or>
        (\<exists>c < lc_check_count code. \<exists>e \<in> set (check_edges code c). lc_edge_variables code ! e = v \<and>
          (\<forall>e' \<in> set (check_edges code c). e' \<noteq> e \<longrightarrow>
             decides (b (lc_edge_variables code ! e')) (llr ! (lc_edge_variables code ! e'))))))"

lemma min_sum_decodes:
  assumes wf: "ldpc_wf code" and cw: "codeword_of code b" and soft: "soft_word code b llr"
    and two: "\<forall>c < lc_check_count code. 2 \<le> length (check_edges code c)"
    and a: "0 < a" "a \<le> 1" and it: "0 < max_iterations"
    and cap: "lc_edge_count code \<le> ecap" "lc_variable_count code \<le> vcap"
  shows "rtnc_ldpc_decode_normalized_min_sum code llr (Fin a) max_iterations memory ecap vcap =
    Some (map (\<lambda>v. of_bool (b v)) [0..<lc_variable_count code],
      \<lparr>st_converged = True, st_iterations = 1, st_syndrome_weight = 0\<rparr>)"
proof -
  let ?n = "lc_variable_count code" and ?E = "lc_edge_count code"
  let ?ev = "\<lambda>e. lc_edge_variables code ! e"
  let ?vtc = "map (\<lambda>e. llr ! ?ev e) [0..<?E]"
  let ?ctv = "check_pass code (Fin a) ?vtc (replicate ?E 0)"
  have ev: "?ev e < ?n" if "e < ?E" for e using wf that by (simp add: ldpc_wf_def)
  have vtc: "?vtc ! e = llr ! ?ev e" if "e < ?E" for e using that by simp
  have edge: "e < ?E" if "c < lc_check_count code" "e \<in> set (check_edges code c)" for c e
    using check_edges_bound [OF wf that] .
  have vtc_ag: "\<forall>e\<in>set (check_edges code c). agrees (b (?ev e)) (?vtc ! e)" if "c < lc_check_count code" for c
    using edge [OF that] ev soft vtc by (simp add: soft_word_def)
  have evenc: "even (length (filter (\<lambda>e. b (?ev e)) (check_edges code c)))" if "c < lc_check_count code" for c
    using cw that by (simp add: codeword_of_def)
  have ctv: "?ctv ! e = check_message code (Fin a) ?vtc c e"
    if "c < lc_check_count code" "e \<in> set (check_edges code c)" for c e
    using check_pass_nth(2) [OF wf _ that] by simp
  have ctv_ag: "agrees (b (?ev e)) (?ctv ! e)" if e: "e < ?E" for e
  proof -
    obtain c where c: "c < lc_check_count code" "e \<in> set (check_edges code c)"
      using edge_in_check [OF wf e] by blast
    show ?thesis unfolding ctv [OF c]
      by (rule check_message_agrees(1) [OF c(2) _ evenc [OF c(1)] vtc_ag [OF c(1)] a(1)]) (use two c in simp)
  qed
  have post: "decides (b v) (variable_pass code llr ?ctv ! v)" if v: "v < ?n" for v
  proof -
    have "decides (b v) (llr ! v) \<or> (\<exists>e\<in>set [0..<?E]. ?ev e = v \<and> decides (b v) (?ctv ! e))"
    proof (cases "decides (b v) (llr ! v)")
      case False
      with soft v obtain c e where c: "c < lc_check_count code" "e \<in> set (check_edges code c)" "?ev e = v"
        "\<forall>e' \<in> set (check_edges code c). e' \<noteq> e \<longrightarrow> decides (b (?ev e')) (llr ! ?ev e')"
        unfolding soft_word_def by blast
      have "\<forall>e'\<in>set (check_edges code c). e' \<noteq> e \<longrightarrow> decides (b (?ev e')) (?vtc ! e')"
        using c(4) edge [OF c(1)] vtc by simp
      then have "decides (b (?ev e)) (check_message code (Fin a) ?vtc c e)"
        by (rule check_message_agrees(2) [OF c(2) _ evenc [OF c(1)] vtc_ag [OF c(1)] a(1), rotated])
          (use two c in simp)
      then have "decides (b v) (?ctv ! e)" using ctv [OF c(1,2)] c(3) by simp
      then show ?thesis using edge [OF c(1,2)] c(3) by auto
    qed simp
    moreover have "agrees (b v) (llr ! v)" using soft v by (simp add: soft_word_def)
    moreover have "\<forall>e\<in>set [0..<?E]. ?ev e = v \<longrightarrow> agrees (b v) (?ctv ! e)" using ctv_ag by auto
    ultimately have "decides (b v) (foldl (\<lambda>p e. if ?ev e = v then p + ?ctv ! e else p) (llr ! v) [0..<?E])"
      by (intro foldl_agrees(2))
    then show ?thesis using v by (simp add: variable_pass_def del: fp_0)
  qed
  have "update_hard_bits code (variable_pass code llr ?ctv) = (map (\<lambda>v. of_bool (b v)) [0..<?n], 0)"
    by (rule hard_bits_codeword [OF wf cw]) (use post in \<open>simp_all add: variable_pass_def\<close>)
  moreover obtain k where "max_iterations = Suc k" using it by (cases max_iterations) auto
  ultimately show ?thesis using a cap
    by (simp add: rtnc_ldpc_decode_normalized_min_sum_def Let_def)
qed
end
