(* ===== verification/Tc128.thy ===== *)
theory Tc128
  imports Ldpc
begin

text \<open>
  The CCSDS (128, 64) telecommand code, \<^verbatim>\<open>src/fec/codes/ccsds_tc128.h\<close>: the generated tables as they
  are in the source, and what the encoder and the decoder rely on, checked on the tables: every
  parity check is even on every word the encoder writes, and each bit that the NORMAL mode does not
  send has a check in which it is the only such bit.
\<close>

definition ccsds_tc128_check_offsets :: "nat list" where
  "ccsds_tc128_check_offsets = [
     0, 8, 16, 24, 32, 40, 48, 56, 64, 72, 80, 88, 96, 104, 112, 120,
     128, 136, 144, 152, 160, 168, 176, 184, 192, 200, 208, 216, 224, 232, 240, 248,
     256, 264, 272, 280, 288, 296, 304, 312, 320, 328, 336, 344, 352, 360, 368, 376,
     384, 392, 400, 408, 416, 424, 432, 440, 448, 456, 464, 472, 480, 488, 496, 504,
     512]"

definition ccsds_tc128_edge_variables :: "nat list" where
  "ccsds_tc128_edge_variables = [
     0, 7, 18, 46, 54, 80, 109, 112, 1, 8, 19, 47, 55, 81, 110, 113,
     2, 9, 20, 32, 56, 82, 111, 114, 3, 10, 21, 33, 57, 83, 96, 115,
     4, 11, 22, 34, 58, 84, 97, 116, 5, 12, 23, 35, 59, 85, 98, 117,
     6, 13, 24, 36, 60, 86, 99, 118, 7, 14, 25, 37, 61, 87, 100, 119,
     8, 15, 26, 38, 62, 88, 101, 120, 0, 9, 27, 39, 63, 89, 102, 121,
     1, 10, 28, 40, 48, 90, 103, 122, 2, 11, 29, 41, 49, 91, 104, 123,
     3, 12, 30, 42, 50, 92, 105, 124, 4, 13, 31, 43, 51, 93, 106, 125,
     5, 14, 16, 44, 52, 94, 107, 126, 6, 15, 17, 45, 53, 95, 108, 127,
     6, 16, 31, 32, 49, 64, 96, 119, 7, 16, 17, 33, 50, 65, 97, 120,
     8, 17, 18, 34, 51, 66, 98, 121, 9, 18, 19, 35, 52, 67, 99, 122,
     10, 19, 20, 36, 53, 68, 100, 123, 11, 20, 21, 37, 54, 69, 101, 124,
     12, 21, 22, 38, 55, 70, 102, 125, 13, 22, 23, 39, 56, 71, 103, 126,
     14, 23, 24, 40, 57, 72, 104, 127, 15, 24, 25, 41, 58, 73, 105, 112,
     0, 25, 26, 42, 59, 74, 106, 113, 1, 26, 27, 43, 60, 75, 107, 114,
     2, 27, 28, 44, 61, 76, 108, 115, 3, 28, 29, 45, 62, 77, 109, 116,
     4, 29, 30, 46, 63, 78, 110, 117, 5, 30, 31, 47, 48, 79, 111, 118,
     4, 17, 32, 47, 62, 75, 80, 115, 5, 18, 32, 33, 63, 76, 81, 116,
     6, 19, 33, 34, 48, 77, 82, 117, 7, 20, 34, 35, 49, 78, 83, 118,
     8, 21, 35, 36, 50, 79, 84, 119, 9, 22, 36, 37, 51, 64, 85, 120,
     10, 23, 37, 38, 52, 65, 86, 121, 11, 24, 38, 39, 53, 66, 87, 122,
     12, 25, 39, 40, 54, 67, 88, 123, 13, 26, 40, 41, 55, 68, 89, 124,
     14, 27, 41, 42, 56, 69, 90, 125, 15, 28, 42, 43, 57, 70, 91, 126,
     0, 29, 43, 44, 58, 71, 92, 127, 1, 30, 44, 45, 59, 72, 93, 112,
     2, 31, 45, 46, 60, 73, 94, 113, 3, 16, 46, 47, 61, 74, 95, 114,
     0, 17, 41, 48, 61, 78, 81, 96, 1, 18, 42, 49, 62, 79, 82, 97,
     2, 19, 43, 50, 63, 64, 83, 98, 3, 20, 44, 48, 51, 65, 84, 99,
     4, 21, 45, 49, 52, 66, 85, 100, 5, 22, 46, 50, 53, 67, 86, 101,
     6, 23, 47, 51, 54, 68, 87, 102, 7, 24, 32, 52, 55, 69, 88, 103,
     8, 25, 33, 53, 56, 70, 89, 104, 9, 26, 34, 54, 57, 71, 90, 105,
     10, 27, 35, 55, 58, 72, 91, 106, 11, 28, 36, 56, 59, 73, 92, 107,
     12, 29, 37, 57, 60, 74, 93, 108, 13, 30, 38, 58, 61, 75, 94, 109,
     14, 31, 39, 59, 62, 76, 95, 110, 15, 16, 40, 60, 63, 77, 80, 111]"

definition ccsds_tc128_parity_masks :: bytes where
  "ccsds_tc128_parity_masks = [
     0x4b, 0x38, 0x33, 0x77, 0x80, 0x91, 0x2a, 0xb9, 0x25, 0x9c, 0x99, 0xbb, 0xc0, 0x48, 0x95, 0x5c,
     0x12, 0xce, 0xcc, 0xdd, 0x60, 0x24, 0x4a, 0xae, 0x09, 0x67, 0xe6, 0x6e, 0x30, 0x12, 0x25, 0x57,
     0x84, 0xb3, 0x73, 0x37, 0x18, 0x09, 0x92, 0xab, 0xc2, 0x59, 0xb9, 0x9b, 0x8c, 0x04, 0xc9, 0x55,
     0xe1, 0x2c, 0xdc, 0xcd, 0x46, 0x02, 0xe4, 0xaa, 0x70, 0x96, 0xee, 0x66, 0x23, 0x01, 0x72, 0x55,
     0x38, 0x4b, 0x77, 0x33, 0x91, 0x80, 0xb9, 0x2a, 0x9c, 0x25, 0xbb, 0x99, 0x48, 0xc0, 0x5c, 0x95,
     0xce, 0x12, 0xdd, 0xcc, 0x24, 0x60, 0xae, 0x4a, 0x67, 0x09, 0x6e, 0xe6, 0x12, 0x30, 0x57, 0x25,
     0xb3, 0x84, 0x37, 0x73, 0x09, 0x18, 0xab, 0x92, 0x59, 0xc2, 0x9b, 0xb9, 0x04, 0x8c, 0x55, 0xc9,
     0x2c, 0xe1, 0xcd, 0xdc, 0x02, 0x46, 0xaa, 0xe4, 0x96, 0x70, 0x66, 0xee, 0x01, 0x23, 0x55, 0x72,
     0x6b, 0x34, 0x3f, 0x64, 0xce, 0xbf, 0x2f, 0xa2, 0x35, 0x9a, 0x1f, 0xb2, 0xe7, 0x5f, 0x17, 0xd1,
     0x1a, 0xcd, 0x0f, 0xd9, 0xf3, 0xaf, 0x8b, 0xe8, 0x8d, 0x66, 0x87, 0xec, 0xf9, 0xd7, 0x45, 0xf4,
     0x46, 0xb3, 0x43, 0xf6, 0xfc, 0xeb, 0x22, 0xfa, 0xa3, 0x59, 0x21, 0xfb, 0xfe, 0x75, 0x11, 0x7d,
     0xd1, 0xac, 0x90, 0xfd, 0xff, 0x3a, 0x88, 0xbe, 0x68, 0xd6, 0xc8, 0x7e, 0x7f, 0x9d, 0x44, 0x5f,
     0x34, 0x6b, 0x64, 0x3f, 0xbf, 0xce, 0xa2, 0x2f, 0x9a, 0x35, 0xb2, 0x1f, 0x5f, 0xe7, 0xd1, 0x17,
     0xcd, 0x1a, 0xd9, 0x0f, 0xaf, 0xf3, 0xe8, 0x8b, 0x66, 0x8d, 0xec, 0x87, 0xd7, 0xf9, 0xf4, 0x45,
     0xb3, 0x46, 0xf6, 0x43, 0xeb, 0xfc, 0xfa, 0x22, 0x59, 0xa3, 0xfb, 0x21, 0x75, 0xfe, 0x7d, 0x11,
     0xac, 0xd1, 0xfd, 0x90, 0x3a, 0xff, 0xbe, 0x88, 0xd6, 0x68, 0x7e, 0xc8, 0x9d, 0x7f, 0x5f, 0x44,
     0x99, 0x7b, 0x92, 0x6e, 0xe5, 0x59, 0x3d, 0x31, 0xcc, 0xbd, 0x49, 0x37, 0xf2, 0xac, 0x9e, 0x98,
     0xe6, 0x5e, 0xa4, 0x9b, 0x79, 0x56, 0x4f, 0x4c, 0x73, 0x2f, 0xd2, 0x4d, 0x3c, 0xab, 0x27, 0xa6,
     0xb9, 0x97, 0xe9, 0x26, 0x9e, 0x55, 0x13, 0xd3, 0xdc, 0xcb, 0x74, 0x93, 0xcf, 0x2a, 0x89, 0xe9,
     0xee, 0x65, 0xba, 0x49, 0x67, 0x95, 0xc4, 0xf4, 0xf7, 0x32, 0xdd, 0x24, 0xb3, 0xca, 0x62, 0x7a,
     0x7b, 0x99, 0x6e, 0x92, 0x59, 0xe5, 0x31, 0x3d, 0xbd, 0xcc, 0x37, 0x49, 0xac, 0xf2, 0x98, 0x9e,
     0x5e, 0xe6, 0x9b, 0xa4, 0x56, 0x79, 0x4c, 0x4f, 0x2f, 0x73, 0x4d, 0xd2, 0xab, 0x3c, 0xa6, 0x27,
     0x97, 0xb9, 0x26, 0xe9, 0x55, 0x9e, 0xd3, 0x13, 0xcb, 0xdc, 0x93, 0x74, 0x2a, 0xcf, 0xe9, 0x89,
     0x65, 0xee, 0x49, 0xba, 0x95, 0x67, 0xf4, 0xc4, 0x32, 0xf7, 0x24, 0xdd, 0xca, 0xb3, 0x7a, 0x62,
     0x21, 0xe8, 0x8c, 0x10, 0xe4, 0x72, 0xc4, 0x2b, 0x10, 0xf4, 0x46, 0x08, 0x72, 0x39, 0xe2, 0x15,
     0x08, 0x7a, 0x23, 0x04, 0xb9, 0x1c, 0xf1, 0x0a, 0x04, 0x3d, 0x11, 0x82, 0x5c, 0x8e, 0x78, 0x85,
     0x82, 0x1e, 0x08, 0xc1, 0x2e, 0x47, 0xbc, 0x42, 0x41, 0x0f, 0x84, 0x60, 0x97, 0x23, 0x5e, 0x21,
     0xa0, 0x87, 0x42, 0x30, 0xcb, 0x91, 0xaf, 0x10, 0xd0, 0x43, 0x21, 0x18, 0xe5, 0xc8, 0x57, 0x88,
     0xe8, 0x21, 0x10, 0x8c, 0x72, 0xe4, 0x2b, 0xc4, 0xf4, 0x10, 0x08, 0x46, 0x39, 0x72, 0x15, 0xe2,
     0x7a, 0x08, 0x04, 0x23, 0x1c, 0xb9, 0x0a, 0xf1, 0x3d, 0x04, 0x82, 0x11, 0x8e, 0x5c, 0x85, 0x78,
     0x1e, 0x82, 0xc1, 0x08, 0x47, 0x2e, 0x42, 0xbc, 0x0f, 0x41, 0x60, 0x84, 0x23, 0x97, 0x21, 0x5e,
     0x87, 0xa0, 0x30, 0x42, 0x91, 0xcb, 0x10, 0xaf, 0x43, 0xd0, 0x18, 0x21, 0xc8, 0xe5, 0x88, 0x57]"

definition ccsds_tc128 :: rtnc_ldpc_code where
  "ccsds_tc128 = \<lparr>lc_variable_count = 128, lc_information_count = 64, lc_check_count = 64,
     lc_edge_count = 512, lc_check_offsets = ccsds_tc128_check_offsets,
     lc_edge_variables = ccsds_tc128_edge_variables,
     lc_parity_masks = Some ccsds_tc128_parity_masks\<rparr>"

section \<open>Rows of the tables\<close>

fun chunks8 :: "'a list \<Rightarrow> 'a list list" where
  "chunks8 (a # b # c # d # e # f # g # h # xs) = [a, b, c, d, e, f, g, h] # chunks8 xs"
| "chunks8 _ = []"

lemma chunks8_nth:
  "8 * m \<le> length xs \<Longrightarrow> i < m \<Longrightarrow> chunks8 xs ! i = take 8 (drop (8 * i) xs)"
proof (induction xs arbitrary: m i rule: chunks8.induct)
  case (1 a b c d e f g h xs)
  then show ?case
  proof (cases i)
    case (Suc j)
    have "8 * Suc j = 8 + 8 * j" by simp
    with 1 Suc show ?thesis by (cases m) (simp_all add: numeral_eq_Suc)
  qed (simp add: numeral_eq_Suc)
qed auto

lemma length_chunks8: "length (chunks8 xs) = length xs div 8"
  by (induction xs rule: chunks8.induct) auto

lemma tc128_lengths:
  "length ccsds_tc128_edge_variables = 512" "length ccsds_tc128_parity_masks = 512"
  by (simp_all add: ccsds_tc128_edge_variables_def ccsds_tc128_parity_masks_def)

lemma tc128_offsets: "ccsds_tc128_check_offsets = map (\<lambda>i. 8 * i) [0..<65]"
  by (simp add: ccsds_tc128_check_offsets_def upt_rec)

definition tc128_rows :: "nat list list" where
  "tc128_rows = chunks8 ccsds_tc128_edge_variables"

definition tc128_masks :: "bytes list" where
  "tc128_masks = map (unit_mask 8) [0..<64] @ chunks8 ccsds_tc128_parity_masks"

lemmas tc128_rows_eval = tc128_rows_def [unfolded ccsds_tc128_edge_variables_def, simplified]

lemma replicate_8: "replicate 8 x = [x, x, x, x, x, x, x, x]"
  by (simp add: eval_nat_numeral)

lemma list_update_8:
  "[a, b, c, d, e, f, g, h][0 := x] = [x, b, c, d, e, f, g, h]"
  "[a, b, c, d, e, f, g, h][Suc 0 := x] = [a, x, c, d, e, f, g, h]"
  "[a, b, c, d, e, f, g, h][2 := x] = [a, b, x, d, e, f, g, h]"
  "[a, b, c, d, e, f, g, h][3 := x] = [a, b, c, x, e, f, g, h]"
  "[a, b, c, d, e, f, g, h][4 := x] = [a, b, c, d, x, f, g, h]"
  "[a, b, c, d, e, f, g, h][5 := x] = [a, b, c, d, e, x, g, h]"
  "[a, b, c, d, e, f, g, h][6 := x] = [a, b, c, d, e, f, x, h]"
  "[a, b, c, d, e, f, g, h][7 := x] = [a, b, c, d, e, f, g, x]"
  by (simp_all add: eval_nat_numeral)

lemma tc128_edge_range: "list_all (\<lambda>v. v < 128) ccsds_tc128_edge_variables"
  by (simp add: ccsds_tc128_edge_variables_def)

lemma tc128_unit_masks: "map (unit_mask 8) [0..<64] =
  [[128, 0, 0, 0, 0, 0, 0, 0],
     [64, 0, 0, 0, 0, 0, 0, 0],
     [32, 0, 0, 0, 0, 0, 0, 0],
     [16, 0, 0, 0, 0, 0, 0, 0],
     [8, 0, 0, 0, 0, 0, 0, 0],
     [4, 0, 0, 0, 0, 0, 0, 0],
     [2, 0, 0, 0, 0, 0, 0, 0],
     [1, 0, 0, 0, 0, 0, 0, 0],
     [0, 128, 0, 0, 0, 0, 0, 0],
     [0, 64, 0, 0, 0, 0, 0, 0],
     [0, 32, 0, 0, 0, 0, 0, 0],
     [0, 16, 0, 0, 0, 0, 0, 0],
     [0, 8, 0, 0, 0, 0, 0, 0],
     [0, 4, 0, 0, 0, 0, 0, 0],
     [0, 2, 0, 0, 0, 0, 0, 0],
     [0, 1, 0, 0, 0, 0, 0, 0],
     [0, 0, 128, 0, 0, 0, 0, 0],
     [0, 0, 64, 0, 0, 0, 0, 0],
     [0, 0, 32, 0, 0, 0, 0, 0],
     [0, 0, 16, 0, 0, 0, 0, 0],
     [0, 0, 8, 0, 0, 0, 0, 0],
     [0, 0, 4, 0, 0, 0, 0, 0],
     [0, 0, 2, 0, 0, 0, 0, 0],
     [0, 0, 1, 0, 0, 0, 0, 0],
     [0, 0, 0, 128, 0, 0, 0, 0],
     [0, 0, 0, 64, 0, 0, 0, 0],
     [0, 0, 0, 32, 0, 0, 0, 0],
     [0, 0, 0, 16, 0, 0, 0, 0],
     [0, 0, 0, 8, 0, 0, 0, 0],
     [0, 0, 0, 4, 0, 0, 0, 0],
     [0, 0, 0, 2, 0, 0, 0, 0],
     [0, 0, 0, 1, 0, 0, 0, 0],
     [0, 0, 0, 0, 128, 0, 0, 0],
     [0, 0, 0, 0, 64, 0, 0, 0],
     [0, 0, 0, 0, 32, 0, 0, 0],
     [0, 0, 0, 0, 16, 0, 0, 0],
     [0, 0, 0, 0, 8, 0, 0, 0],
     [0, 0, 0, 0, 4, 0, 0, 0],
     [0, 0, 0, 0, 2, 0, 0, 0],
     [0, 0, 0, 0, 1, 0, 0, 0],
     [0, 0, 0, 0, 0, 128, 0, 0],
     [0, 0, 0, 0, 0, 64, 0, 0],
     [0, 0, 0, 0, 0, 32, 0, 0],
     [0, 0, 0, 0, 0, 16, 0, 0],
     [0, 0, 0, 0, 0, 8, 0, 0],
     [0, 0, 0, 0, 0, 4, 0, 0],
     [0, 0, 0, 0, 0, 2, 0, 0],
     [0, 0, 0, 0, 0, 1, 0, 0],
     [0, 0, 0, 0, 0, 0, 128, 0],
     [0, 0, 0, 0, 0, 0, 64, 0],
     [0, 0, 0, 0, 0, 0, 32, 0],
     [0, 0, 0, 0, 0, 0, 16, 0],
     [0, 0, 0, 0, 0, 0, 8, 0],
     [0, 0, 0, 0, 0, 0, 4, 0],
     [0, 0, 0, 0, 0, 0, 2, 0],
     [0, 0, 0, 0, 0, 0, 1, 0],
     [0, 0, 0, 0, 0, 0, 0, 128],
     [0, 0, 0, 0, 0, 0, 0, 64],
     [0, 0, 0, 0, 0, 0, 0, 32],
     [0, 0, 0, 0, 0, 0, 0, 16],
     [0, 0, 0, 0, 0, 0, 0, 8],
     [0, 0, 0, 0, 0, 0, 0, 4],
     [0, 0, 0, 0, 0, 0, 0, 2],
     [0, 0, 0, 0, 0, 0, 0, 1]]"
  by (simp add: upt_rec unit_mask_def replicate_8 list_update_8)

lemma tc128_punctured_checks:
  "list_all (\<lambda>v. list_ex (\<lambda>vs. filter (\<lambda>u. 64 \<le> u \<and> u < 96) vs = [v]) tc128_rows) [64..<96]"
  by (simp add: tc128_rows_eval upt_rec)

lemma tc128_checks_cancel:
  "list_all (\<lambda>vs. foldr xor_mask (map ((!) tc128_masks) vs) (replicate 8 0) = replicate 8 0) tc128_rows"
  unfolding tc128_masks_def tc128_unit_masks
  by (simp add: tc128_rows_eval ccsds_tc128_parity_masks_def replicate_8 xor_mask_def)

section \<open>The code\<close>

lemma tc128_check_edges:
  "c < 64 \<Longrightarrow> check_edges ccsds_tc128 c = [8 * c..<8 * c + 8]"
  by (simp add: check_edges_def ccsds_tc128_def tc128_offsets add.commute del: upt_Suc)

lemma tc128_sorted: "sorted ccsds_tc128_check_offsets"
  by (simp add: tc128_offsets sorted_iff_nth_mono del: upt_Suc)

lemma tc128_wf: "ldpc_wf ccsds_tc128"
  using tc128_edge_range tc128_sorted
  by (simp add: ldpc_wf_def ccsds_tc128_def tc128_lengths tc128_offsets list_all_iff del: upt_Suc)

lemma tc128_row:
  assumes "c < 64"
  shows "map ((!) (lc_edge_variables ccsds_tc128)) (check_edges ccsds_tc128 c) = tc128_rows ! c"
proof -
  have "map ((!) ccsds_tc128_edge_variables) [8 * c..<8 * c + 8] =
      take 8 (drop (8 * c) ccsds_tc128_edge_variables)"
    using assms by (intro nth_equalityI) (auto simp: tc128_lengths)
  also have "\<dots> = tc128_rows ! c"
    using chunks8_nth [of 64 ccsds_tc128_edge_variables c] assms by (simp add: tc128_rows_def tc128_lengths)
  finally show ?thesis using tc128_check_edges [OF assms] by (simp add: ccsds_tc128_def)
qed

lemma tc128_row_mem: "c < 64 \<Longrightarrow> tc128_rows ! c \<in> set tc128_rows"
  by (simp add: tc128_rows_def length_chunks8 tc128_lengths)

lemma tc128_row_range: "c < 64 \<Longrightarrow> v \<in> set (tc128_rows ! c) \<Longrightarrow> v < 128"
proof -
  assume c: "c < 64" and "v \<in> set (tc128_rows ! c)"
  then have "v \<in> (!) (lc_edge_variables ccsds_tc128) ` set (check_edges ccsds_tc128 c)"
    unfolding tc128_row [OF c, symmetric] by simp
  then show ?thesis using check_edges_bound [OF tc128_wf, of c] c tc128_wf
    by (auto simp: ldpc_wf_def ccsds_tc128_def)
qed

lemma tc128_masks_nth: "v < 128 \<Longrightarrow> tc128_masks ! v = variable_mask 64 ccsds_tc128_parity_masks v"
  using chunks8_nth [of 64 ccsds_tc128_parity_masks "v - 64"]
  by (simp add: tc128_masks_def variable_mask_def nth_append tc128_lengths mult.commute)

lemma tc128_bit_dot:
  assumes enc: "rtnc_ldpc_encode_systematic ccsds_tc128 info buf = Some cw" and v: "v < 128"
  shows "code_bit cw v = dot info (tc128_masks ! v)"
proof -
  have len: "length info = 8"
    using enc by (auto simp: rtnc_ldpc_encode_systematic_def ccsds_tc128_def split: if_splits)
  have bits: "i < 64 \<Longrightarrow> code_bit cw i = code_bit info i"
    "i < 64 \<Longrightarrow> code_bit cw (64 + i) = (parity_row ccsds_tc128_parity_masks info i \<noteq> 0)" for i
    using encode_systematic_bits [OF enc] by (simp_all add: ccsds_tc128_def)
  show ?thesis
  proof (cases "v < 64")
    case True
    then show ?thesis using bits(1) dot_unit [of v info] len
      by (simp add: tc128_masks_nth variable_mask_def)
  next
    case False
    then have i: "v = 64 + (v - 64)" "v - 64 < 64" using v by simp_all
    have "parity_row ccsds_tc128_parity_masks info (v - 64) \<noteq> 0 \<longleftrightarrow>
        dot info (drop ((v - 64) * 8) ccsds_tc128_parity_masks)"
      using parity_row_dot [of "v - 64" info ccsds_tc128_parity_masks] len i by (simp add: tc128_lengths)
    also have "\<dots> = dot info (take 8 (drop ((v - 64) * 8) ccsds_tc128_parity_masks))"
      using dot_take [of info] len by simp
    finally show ?thesis using bits(2) [OF i(2)] i(1) False v
      by (simp add: tc128_masks_nth variable_mask_def)
  qed
qed

text \<open>Every word the encoder writes satisfies every parity check of the decoder's matrix.\<close>

lemma tc128_codeword:
  assumes enc: "rtnc_ldpc_encode_systematic ccsds_tc128 info buf = Some cw"
  shows "codeword_of ccsds_tc128 (code_bit cw)"
proof -
  have len: "length info = 8"
    using enc by (auto simp: rtnc_ldpc_encode_systematic_def ccsds_tc128_def split: if_splits)
  have "even (length (filter (\<lambda>e. code_bit cw (lc_edge_variables ccsds_tc128 ! e)) (check_edges ccsds_tc128 c)))"
    if c: "c < 64" for c
  proof -
    let ?ms = "map ((!) tc128_masks) (tc128_rows ! c)"
    have "length (filter (\<lambda>e. code_bit cw (lc_edge_variables ccsds_tc128 ! e)) (check_edges ccsds_tc128 c)) =
        length (filter (code_bit cw) (tc128_rows ! c))"
      unfolding tc128_row [OF c, symmetric] by (simp add: filter_map o_def)
    also have "filter (code_bit cw) (tc128_rows ! c) = filter (dot info \<circ> (!) tc128_masks) (tc128_rows ! c)"
      using tc128_bit_dot [OF enc] tc128_row_range [OF c] by (intro filter_cong) auto
    also have "length \<dots> = length (filter (dot info) ?ms)" by (simp add: filter_map)
    finally have eq: "length (filter (\<lambda>e. code_bit cw (lc_edge_variables ccsds_tc128 ! e)) (check_edges ccsds_tc128 c)) =
        length (filter (dot info) ?ms)" .
    have "length (tc128_masks ! v) = length info" if "v < 128" for v
      using that len by (simp add: tc128_masks_nth variable_mask_def unit_mask_def tc128_lengths)
    then have "odd (length (filter (dot info) ?ms)) = dot info (foldr xor_mask ?ms (replicate 8 0))"
      using odd_dots [of ?ms info] tc128_row_range [OF c] len by auto
    also have "foldr xor_mask ?ms (replicate 8 0) = replicate 8 0"
      using tc128_checks_cancel tc128_row_mem [OF c] by (simp add: list_all_iff)
    also have "dot info (replicate 8 0) = False" using dot_zero [of info] len by simp
    finally show ?thesis unfolding eq by simp
  qed
  then show ?thesis by (simp add: codeword_of_def ccsds_tc128_def)
qed

lemma tc128_encode_total:
  "length info = 8 \<Longrightarrow> 16 \<le> length buf \<Longrightarrow> \<exists>cw. rtnc_ldpc_encode_systematic ccsds_tc128 info buf = Some cw"
  by (simp add: rtnc_ldpc_encode_systematic_def ccsds_tc128_def)

text \<open>A variable of the punctured range has a check in which no other edge is punctured.\<close>

lemma tc128_puncture:
  assumes "64 \<le> v" "v < 96"
  shows "\<exists>c < 64. \<exists>e \<in> set (check_edges ccsds_tc128 c). lc_edge_variables ccsds_tc128 ! e = v \<and>
    (\<forall>e' \<in> set (check_edges ccsds_tc128 c). e' \<noteq> e \<longrightarrow>
       \<not> (64 \<le> lc_edge_variables ccsds_tc128 ! e' \<and> lc_edge_variables ccsds_tc128 ! e' < 96))"
proof -
  let ?ev = "(!) (lc_edge_variables ccsds_tc128)" and ?P = "\<lambda>u. 64 \<le> u \<and> u < (96 :: nat)"
  obtain vs where vs: "vs \<in> set tc128_rows" "filter ?P vs = [v]"
  proof -
    have "v \<in> set [64..<96]" using assms by (simp only: set_upt atLeastLessThan_iff simp_thms)
    with tc128_punctured_checks have "list_ex (\<lambda>vs. filter ?P vs = [v]) tc128_rows"
      unfolding list_all_iff by (rule bspec)
    then show ?thesis using that unfolding list_ex_iff by blast
  qed
  then obtain c where c: "c < 64" "tc128_rows ! c = vs"
    by (auto simp: in_set_conv_nth tc128_rows_def length_chunks8 tc128_lengths)
  let ?es = "check_edges ccsds_tc128 c"
  have "map ?ev (filter (\<lambda>e. ?P (?ev e)) ?es) = [v]"
    using vs(2) unfolding c(2)[symmetric] tc128_row [OF c(1), symmetric] by (simp add: filter_map o_def)
  then obtain e where e: "filter (\<lambda>e. ?P (?ev e)) ?es = [e]" "?ev e = v" by auto
  have "e \<in> set (filter (\<lambda>e. ?P (?ev e)) ?es)" unfolding e(1) by simp
  then have "e \<in> set ?es" by (rule filter_is_subset [THEN subsetD])
  moreover have "\<forall>e' \<in> set ?es. e' \<noteq> e \<longrightarrow> \<not> ?P (?ev e')"
  proof (intro ballI impI notI)
    fix e' assume "e' \<in> set ?es" "e' \<noteq> e" "?P (?ev e')"
    then have "e' \<in> set (filter (\<lambda>e. ?P (?ev e)) ?es)" by simp
    with e(1) \<open>e' \<noteq> e\<close> show False by simp
  qed
  ultimately show ?thesis using c(1) e(2) by blast
qed

end
