(* ===== verification/Fec.thy ===== *)
theory Fec
  imports Tc128 "HOL-Library.Multiset"
begin

text \<open>
  The block codec, \<^verbatim>\<open>src/fec/fec.c\<close>: sizes, encoding, and decoding from soft bits in the order of
  confidence.  Soft bits are \<open>fp\<close> values, positive for bit zero.  The C decoder spells the same
  block loop out for the two LDPC modes; \<open>decode_blocks\<close> is that loop over the 128 soft bits of a
  block, which NORMAL obtains by putting zeros for the bits it does not send.
\<close>

datatype fec_mode = FEC_NONE | FEC_LDPC_ROBUST | FEC_LDPC_NORMAL | FEC_LDPC_FAST

datatype rtnc_fec_status =
  RTNC_FEC_OK | RTNC_FEC_INVALID_ARGUMENT | RTNC_FEC_BUFFER_TOO_SMALL | RTNC_FEC_UNSUPPORTED_MODE
  | RTNC_FEC_INVALID_BLOCK | RTNC_FEC_DECODE_FAILURE

definition TC128_INFORMATION_BYTES :: nat where [simp]: "TC128_INFORMATION_BYTES = 8"
definition TC128_CODEWORD_BYTES :: nat where [simp]: "TC128_CODEWORD_BYTES = 16"
definition TC128_PUNCTURED_BYTES :: nat where [simp]: "TC128_PUNCTURED_BYTES = 12"
definition TC128_MAX_BLOCKS :: nat where [simp]: "TC128_MAX_BLOCKS = 20"

section \<open>Order of decoding\<close>

primrec shift_candidate :: "fp list \<Rightarrow> nat list \<Rightarrow> nat \<Rightarrow> nat \<Rightarrow> nat list" where
  \<comment> \<open>the while loop: move larger entries up until the candidate's position is found\<close>
  "shift_candidate confidence order candidate 0 = order[0 := candidate]"
| "shift_candidate confidence order candidate (Suc position) =
    (if confidence ! (order ! position) > confidence ! candidate
     then shift_candidate confidence (order[Suc position := order ! position]) candidate position
     else order[Suc position := candidate])"

definition block_confidence :: "fp list \<Rightarrow> nat \<Rightarrow> nat \<Rightarrow> fp" where
  "block_confidence llr bits_per_block block =
    foldl (\<lambda>sum bit_index. sum + \<bar>llr ! (block * bits_per_block + bit_index)\<bar>) 0 [0..<bits_per_block]"

definition weakest_blocks_first :: "fp list \<Rightarrow> nat \<Rightarrow> nat \<Rightarrow> nat list" where
  \<comment> \<open>the first \<^verbatim>\<open>block_count\<close> entries of \<^verbatim>\<open>order\<close>\<close>
  "weakest_blocks_first llr block_count bits_per_block =
    (let confidence = map (block_confidence llr bits_per_block) [0..<block_count]
     in foldl (\<lambda>order block. shift_candidate confidence order (order ! block) block)
          [0..<block_count] [1..<block_count])"

section \<open>Encoding\<close>

definition rtnc_fec_encoded_size :: "fec_mode \<Rightarrow> nat \<Rightarrow> nat" where
  "rtnc_fec_encoded_size mode input_bytes =
    (if mode = FEC_NONE then input_bytes
     else if mode = FEC_LDPC_ROBUST \<and> input_bytes \<noteq> 0 \<and> input_bytes \<le> SIZE_MAX - 7
     then ((input_bytes + 7) div 8) * 16 mod 2 ^ 64
     else if mode = FEC_LDPC_NORMAL \<and> input_bytes \<noteq> 0 \<and> input_bytes \<le> SIZE_MAX - 7
     then ((input_bytes + 7) div 8) * TC128_PUNCTURED_BYTES mod 2 ^ 64
     else 0)"

definition information_block :: "bytes \<Rightarrow> nat \<Rightarrow> bytes" where
  \<comment> \<open>the eight bytes of a block, the last one padded with zeros\<close>
  "information_block input block =
    (let offset = block * TC128_INFORMATION_BYTES;
         remaining = length input - offset;
         copy_bytes = (if remaining < TC128_INFORMATION_BYTES then remaining else TC128_INFORMATION_BYTES)
     in buf_write (replicate TC128_INFORMATION_BYTES 0) 0 (take copy_bytes (drop offset input)))"

fun encode_robust_blocks :: "bytes \<Rightarrow> bytes \<Rightarrow> nat list \<Rightarrow> bytes option" where
  \<comment> \<open>\<open>None\<close> where the code returns \<open>RTNC_FEC_INVALID_BLOCK\<close>\<close>
  "encode_robust_blocks input encoded [] = Some encoded"
| "encode_robust_blocks input encoded (block # blocks) =
    (case rtnc_ldpc_encode_systematic ccsds_tc128 (information_block input block)
            (take 16 (drop (block * 16) encoded)) of
       None \<Rightarrow> None
     | Some codeword \<Rightarrow>
         encode_robust_blocks input (buf_write encoded (block * 16) codeword) blocks)"

fun encode_normal_blocks :: "bytes \<Rightarrow> bytes \<Rightarrow> nat list \<Rightarrow> bytes option" where
  "encode_normal_blocks input encoded [] = Some encoded"
| "encode_normal_blocks input encoded (block # blocks) =
    (case rtnc_ldpc_encode_systematic ccsds_tc128 (information_block input block)
            (replicate TC128_CODEWORD_BYTES 0) of
       None \<Rightarrow> None
     | Some codeword \<Rightarrow>
         (let punctured = block * TC128_PUNCTURED_BYTES;
              encoded = buf_write encoded punctured (take TC128_INFORMATION_BYTES codeword);
              encoded = buf_write encoded (punctured + TC128_INFORMATION_BYTES)
                (take (TC128_PUNCTURED_BYTES - TC128_INFORMATION_BYTES) (drop 12 codeword))
          in encode_normal_blocks input encoded blocks))"

definition rtnc_fec_encode ::
    "fec_mode \<Rightarrow> bytes \<Rightarrow> bytes \<Rightarrow> rtnc_fec_status + (bytes \<times> nat)" where
  \<comment> \<open>\<open>encoded\<close> is the output buffer, as long as the capacity; on success the buffer and \<^verbatim>\<open>*encoded_bytes\<close>\<close>
  "rtnc_fec_encode mode input encoded =
    (if mode = FEC_LDPC_ROBUST
     then
       let required = rtnc_fec_encoded_size mode (length input)
       in if required = 0 then Inl RTNC_FEC_INVALID_BLOCK
          else if length encoded < required then Inl RTNC_FEC_BUFFER_TOO_SMALL
          else case encode_robust_blocks input encoded [0..<required div 16] of
                 None \<Rightarrow> Inl RTNC_FEC_INVALID_BLOCK
               | Some encoded \<Rightarrow> Inr (encoded, required)
     else if mode = FEC_LDPC_NORMAL
     then
       let required = rtnc_fec_encoded_size mode (length input)
       in if required = 0 then Inl RTNC_FEC_INVALID_BLOCK
          else if length encoded < required then Inl RTNC_FEC_BUFFER_TOO_SMALL
          else case encode_normal_blocks input encoded [0..<required div TC128_PUNCTURED_BYTES] of
                 None \<Rightarrow> Inl RTNC_FEC_INVALID_BLOCK
               | Some encoded \<Rightarrow> Inr (encoded, required)
     else if mode \<noteq> FEC_NONE then Inl RTNC_FEC_UNSUPPORTED_MODE
     else if length encoded < length input then Inl RTNC_FEC_BUFFER_TOO_SMALL
     else Inr (buf_write encoded 0 input, length input))"

section \<open>Decoding\<close>

definition store_information :: "bytes \<Rightarrow> nat \<Rightarrow> u8 list \<Rightarrow> bytes" where
  \<comment> \<open>pack the first 64 decoded bits into the block's eight output bytes\<close>
  "store_information output block decoded_bits =
    foldl (\<lambda>output b. put_bit output (block * 64 + b) (decoded_bits ! b \<noteq> 0)) output [0..<64]"

definition robust_block :: "fp list \<Rightarrow> nat \<Rightarrow> fp list" where
  "robust_block llr block = take 128 (drop (block * 128) llr)"

definition normal_block :: "fp list \<Rightarrow> nat \<Rightarrow> fp list" where
  "normal_block llr block =
    buf_write (buf_write (replicate 128 0) 0 (take 64 (drop (block * 96) llr))) 96
      (take 32 (drop (block * 96 + 64) llr))"

fun decode_blocks ::
    "(nat \<Rightarrow> fp list) \<Rightarrow> bytes \<Rightarrow> nat \<Rightarrow> nat \<Rightarrow> nat list \<Rightarrow> rtnc_fec_status \<times> bytes \<times> nat \<times> nat" where
  \<comment> \<open>the loop over the blocks in decoding order, with the two totals\<close>
  "decode_blocks block_llr output total_iterations total_syndrome [] =
    (RTNC_FEC_OK, output, total_iterations, total_syndrome)"
| "decode_blocks block_llr output total_iterations total_syndrome (block # order) =
    (case rtnc_ldpc_decode_normalized_min_sum ccsds_tc128 (block_llr block) (Fin (3 / 4)) 30
            (replicate 128 0) 512 128 of
       None \<Rightarrow> (RTNC_FEC_INVALID_BLOCK, output, total_iterations, total_syndrome)
     | Some (decoded_bits, block_stats) \<Rightarrow>
         (let output = store_information output block decoded_bits;
              total_iterations = total_iterations + st_iterations block_stats;
              total_syndrome = total_syndrome + st_syndrome_weight block_stats
          in if \<not> st_converged block_stats
             then (RTNC_FEC_DECODE_FAILURE, output, total_iterations, total_syndrome)
             else decode_blocks block_llr output total_iterations total_syndrome order))"

definition no_stats :: rtnc_fec_decode_stats where
  "no_stats = \<lparr>st_converged = False, st_iterations = 0, st_syndrome_weight = 0\<rparr>"

definition finish_blocks ::
    "nat \<Rightarrow> rtnc_fec_status \<times> bytes \<times> nat \<times> nat \<Rightarrow>
     rtnc_fec_status \<times> bytes \<times> nat option \<times> rtnc_fec_decode_stats" where
  \<comment> \<open>what is returned after the loop; \<^verbatim>\<open>*output_bytes\<close> is \<open>None\<close> where it is not written\<close>
  "finish_blocks block_count result =
    (let (status, output, total_iterations, total_syndrome) = result
     in if status = RTNC_FEC_INVALID_BLOCK then (status, output, None, no_stats)
        else (status, output, Some (if status = RTNC_FEC_OK then block_count * 8 else 0),
              \<lparr>st_converged = (status = RTNC_FEC_OK), st_iterations = total_iterations,
               st_syndrome_weight = total_syndrome\<rparr>))"

definition decode_hard_bits :: "fp list \<Rightarrow> bytes \<Rightarrow> bytes" where
  \<comment> \<open>\<open>FEC_NONE\<close>: clear the bytes, then set the bits whose soft value is negative\<close>
  "decode_hard_bits llr output =
    foldl (\<lambda>output b.
        if llr ! b < 0
        then output[b div 8 := output ! (b div 8) OR push_bit (7 - b mod 8) 1] else output)
      (buf_write output 0 (replicate (length llr div 8) 0)) [0..<length llr]"

definition rtnc_fec_decode ::
    "fec_mode \<Rightarrow> fp list \<Rightarrow> bytes \<Rightarrow> rtnc_fec_status \<times> bytes \<times> nat option \<times> rtnc_fec_decode_stats" where
  "rtnc_fec_decode mode llr output =
    (if mode = FEC_LDPC_ROBUST
     then
       let block_count = length llr div 128
       in if length llr = 0 \<or> length llr mod 128 \<noteq> 0 \<or> block_count > TC128_MAX_BLOCKS
          then (RTNC_FEC_INVALID_BLOCK, output, None, no_stats)
          else if length output < block_count * 8 then (RTNC_FEC_BUFFER_TOO_SMALL, output, None, no_stats)
          else finish_blocks block_count
                 (decode_blocks (robust_block llr) output 0 0 (weakest_blocks_first llr block_count 128))
     else if mode = FEC_LDPC_NORMAL
     then
       let block_count = length llr div 96
       in if length llr = 0 \<or> length llr mod 96 \<noteq> 0 \<or> block_count > TC128_MAX_BLOCKS
          then (RTNC_FEC_INVALID_BLOCK, output, None, no_stats)
          else if length output < block_count * TC128_INFORMATION_BYTES
          then (RTNC_FEC_BUFFER_TOO_SMALL, output, None, no_stats)
          else finish_blocks block_count
                 (decode_blocks (normal_block llr) output 0 0 (weakest_blocks_first llr block_count 96))
     else if mode \<noteq> FEC_NONE then (RTNC_FEC_UNSUPPORTED_MODE, output, None, no_stats)
     else if length llr mod 8 \<noteq> 0 then (RTNC_FEC_INVALID_BLOCK, output, None, no_stats)
     else if length output < length llr div 8 then (RTNC_FEC_BUFFER_TOO_SMALL, output, None, no_stats)
     else (RTNC_FEC_OK, decode_hard_bits llr output, Some (length llr div 8), no_stats\<lparr>st_converged := True\<rparr>))"

section \<open>The order is a sorted permutation\<close>

lemma shift_candidate_split:
  "p < length order \<Longrightarrow> \<exists>k\<le>p. shift_candidate conf order cand p =
      take k order @ cand # drop k (take p order) @ drop (Suc p) order \<and>
    (\<forall>x \<in> set (drop k (take p order)). conf ! x > conf ! cand) \<and>
    (k = 0 \<or> \<not> conf ! (order ! (k - 1)) > conf ! cand)"
proof (induction p arbitrary: order)
  case 0
  then show ?case by (cases order) auto
next
  case (Suc p)
  show ?case
  proof (cases "conf ! (order ! p) > conf ! cand")
    case True
    let ?order = "order[Suc p := order ! p]"
    obtain k where k: "k \<le> p" "shift_candidate conf ?order cand p =
        take k ?order @ cand # drop k (take p ?order) @ drop (Suc p) ?order"
      "\<forall>x \<in> set (drop k (take p ?order)). conf ! x > conf ! cand"
      "k = 0 \<or> \<not> conf ! (?order ! (k - 1)) > conf ! cand"
    proof -
      have "p < length ?order" using Suc.prems by simp
      from Suc.IH [OF this] show ?thesis by (elim exE conjE) (rule that)
    qed
    have "drop (Suc p) ?order = order ! p # drop (Suc (Suc p)) order"
      using Suc.prems by (simp add: drop_update_swap Cons_nth_drop_Suc [symmetric])
    moreover have "drop k (take (Suc p) order) = drop k (take p order) @ [order ! p]"
      using Suc.prems k(1) by (simp add: take_Suc_conv_app_nth)
    ultimately show ?thesis using k True Suc.prems by (intro exI [of _ k]) auto
  next
    case False
    have "order[Suc p := cand] = take (Suc p) order @ cand # drop (Suc (Suc p)) order"
      using Suc.prems by (simp add: upd_conv_take_nth_drop)
    then show ?thesis using False by (intro exI [of _ "Suc p"]) simp
  qed
qed

definition confidence_sorted :: "(nat \<Rightarrow> real) \<Rightarrow> nat list \<Rightarrow> bool" where
  "confidence_sorted f = sorted_wrt (\<lambda>x y. f x \<le> f y)"

lemma shift_candidate_sorted:
  assumes p: "p < length order" and f: "\<forall>x \<in> set order. conf ! x = Fin (f x)" and c: "cand = order ! p"
    and s: "confidence_sorted f (take p order)"
  shows "confidence_sorted f (take (Suc p) (shift_candidate conf order cand p)) \<and>
    drop (Suc p) (shift_candidate conf order cand p) = drop (Suc p) order \<and>
    mset (shift_candidate conf order cand p) = mset order"
proof -
  obtain k where k: "k \<le> p" "shift_candidate conf order cand p =
      take k order @ cand # drop k (take p order) @ drop (Suc p) order"
    "\<forall>x \<in> set (drop k (take p order)). conf ! x > conf ! cand"
    "k = 0 \<or> \<not> conf ! (order ! (k - 1)) > conf ! cand"
    using shift_candidate_split [OF p] by blast
  have cand: "conf ! cand = Fin (f cand)" using f c p by simp
  have split: "take p order = take k order @ drop k (take p order)" using k(1)
    by (metis append_take_drop_id min.absorb1 take_take)
  have whole: "order = take p order @ cand # drop (Suc p) order" using p c by (simp add: id_take_nth_drop)
  have after: "f cand \<le> f x" if "x \<in> set (drop k (take p order))" for x
  proof -
    have "x \<in> set order" using that by (meson in_set_dropD in_set_takeD)
    with k(3) that f cand show ?thesis by fastforce
  qed
  have before: "f x \<le> f cand" if x: "x \<in> set (take k order)" for x
  proof -
    have k0: "0 < k" using x by (cases k) auto
    then have "\<not> f (order ! (k - 1)) > f cand" using k(4) f cand k(1) p by auto
    moreover have "f x \<le> f (order ! (k - 1))"
    proof -
      obtain i where i: "i < k" "x = order ! i" using x k(1) p by (auto simp: in_set_conv_nth)
      show ?thesis
      proof (cases "i = k - 1")
        case False
        with i have "i < k - 1" "k - 1 < p" using k(1) k0 by linarith+
        with s p i show ?thesis unfolding confidence_sorted_def
          by (auto simp: sorted_wrt_iff_nth_less)
      qed (use i in simp)
    qed
    ultimately show ?thesis by linarith
  qed
  have "length (take k order @ cand # drop k (take p order)) = Suc p" using k(1) p by simp
  then have t: "take (Suc p) (shift_candidate conf order cand p) = take k order @ cand # drop k (take p order)"
    "drop (Suc p) (shift_candidate conf order cand p) = drop (Suc p) order"
    unfolding k(2) by (metis append_Cons append_assoc append_eq_conv_conj)+
  have "confidence_sorted f (take k order @ drop k (take p order))" using s split by simp
  then have "confidence_sorted f (take k order @ cand # drop k (take p order))"
    using before after by (auto simp: confidence_sorted_def sorted_wrt_append)
  moreover have "mset (shift_candidate conf order cand p) = mset order"
  proof -
    have "mset (shift_candidate conf order cand p) =
        add_mset cand (mset (take k order @ drop k (take p order)) + mset (drop (Suc p) order))"
      unfolding k(2) by simp
    also have "\<dots> = mset (take p order @ cand # drop (Suc p) order)" using split by simp
    finally show ?thesis using whole by simp
  qed
  ultimately show ?thesis using t by simp
qed

lemma weakest_sorted_mset:
  assumes f: "\<forall>b < n. block_confidence llr k b = Fin (f b)"
  shows "mset (weakest_blocks_first llr n k) = mset [0..<n] \<and>
    confidence_sorted f (weakest_blocks_first llr n k)"
proof -
  let ?conf = "map (block_confidence llr k) [0..<n]"
  let ?step = "\<lambda>order block. shift_candidate ?conf order (order ! block) block"
  have "mset (foldl ?step [0..<n] [1..<m]) = mset [0..<n] \<and>
      confidence_sorted f (take m (foldl ?step [0..<n] [1..<m])) \<and>
      drop m (foldl ?step [0..<n] [1..<m]) = drop m [0..<n]" if "m \<le> n" "0 < n" "0 < m" for m
    using that
  proof (induction m)
    case (Suc m)
    show ?case
    proof (cases "m = 0")
      case True
      have "take (Suc 0) [0..<n] = [0]" using Suc.prems by (simp add: upt_conv_Cons)
      then show ?thesis using True by (simp add: confidence_sorted_def)
    next
      case False
      let ?order = "foldl ?step [0..<n] [1..<m]"
      have IH: "mset ?order = mset [0..<n]" "confidence_sorted f (take m ?order)" using Suc False by auto
      have len: "length ?order = n" using mset_eq_length [OF IH(1)] by simp
      have "set ?order = {0..<n}" using mset_eq_setD [OF IH(1)] by simp
      then have conf: "\<forall>x \<in> set ?order. ?conf ! x = Fin (f x)" using f by simp
      have "m < length ?order" using len Suc.prems by simp
      from shift_candidate_sorted [OF this conf refl IH(2)]
      have "confidence_sorted f (take (Suc m) (?step ?order m))"
        "drop (Suc m) (?step ?order m) = drop (Suc m) ?order" "mset (?step ?order m) = mset ?order" by auto
      moreover have "drop (Suc m) ?order = drop (Suc m) [0..<n]"
      proof -
        have "drop m ?order = drop m [0..<n]" using Suc False by auto
        then have "tl (drop m ?order) = tl (drop m [0..<n])" by (rule arg_cong)
        then show ?thesis by (simp only: tl_drop drop_Suc)
      qed
      ultimately show ?thesis using False IH(1) by simp
    qed
  qed simp
  then have "0 < n \<Longrightarrow> mset (weakest_blocks_first llr n k) = mset [0..<n] \<and>
      confidence_sorted f (take n (weakest_blocks_first llr n k))"
    unfolding weakest_blocks_first_def Let_def by blast
  moreover have "length xs = n" if "mset xs = mset [0..<n]" for xs
    using mset_eq_length [OF that] by simp
  ultimately show ?thesis
    by (cases "n = 0") (auto simp: weakest_blocks_first_def confidence_sorted_def)
qed


section \<open>Blocks of a buffer\<close>

definition slot :: "nat \<Rightarrow> nat \<Rightarrow> 'a list \<Rightarrow> 'a list" where
  "slot k b xs = take k (drop (b * k) xs)"

lemma buf_write_append:
  "off + length a + length b \<le> length buf \<Longrightarrow>
   buf_write (buf_write buf off a) (off + length a) b = buf_write buf off (a @ b)"
  by (simp add: buf_write_def ac_simps)

lemma slot_disjoint: "a \<noteq> b \<Longrightarrow> Suc a * k \<le> b * k \<or> Suc b * (k :: nat) \<le> a * k"
  by (metis Suc_leI linorder_neqE_nat mult_le_mono1)

lemma slot_buf_write:
  assumes "length d = k" "Suc a * k \<le> length buf" "Suc b * k \<le> length buf"
  shows "slot k b (buf_write buf (a * k) d) = (if a = b then d else slot k b buf)"
proof (cases "a = b")
  case True
  then show ?thesis using assms by (simp add: slot_def buf_write_def)
next
  case False
  have a: "a * k + k \<le> length buf" and b: "b * k + k \<le> length buf" using assms by simp_all
  from slot_disjoint [OF False, of k] consider "a * k + k \<le> b * k" | "b * k + k \<le> a * k" by auto
  then have "slot k b (buf_write buf (a * k) d) = slot k b buf"
  proof cases
    case 1
    then have "a * k - b * k = 0" "a * k \<le> b * k" "b * k - (a * k + k) + (a * k + k) = b * k" by linarith+
    then show ?thesis using assms(1) a by (simp add: slot_def buf_write_def drop_append)
  next
    case 2
    then show ?thesis using a b by (simp add: slot_def buf_write_def drop_take take_append)
  qed
  then show ?thesis using False by simp
qed

lemma take_slots:
  "\<forall>b < n. slot k b xs = f b \<Longrightarrow> n * k \<le> length xs \<Longrightarrow> take (n * k) xs = concat (map f [0..<n])"
proof (induction n)
  case (Suc n)
  have "Suc n * k = n * k + k" by simp
  then have "take (Suc n * k) xs = take (n * k) xs @ slot k n xs" by (simp only: slot_def take_add)
  with Suc show ?case by simp
qed simp

lemma code_bit_slot: "i < 8 * k \<Longrightarrow> Suc b * k \<le> length xs \<Longrightarrow> code_bit (slot k b xs) i = code_bit xs (b * k * 8 + i)"
proof -
  assume i: "i < 8 * k" and l: "Suc b * k \<le> length xs"
  have "i div 8 < k" using i by (simp add: less_mult_imp_div_less mult.commute)
  then have "slot k b xs ! (i div 8) = xs ! (b * k + i div 8)" using l by (simp add: slot_def)
  moreover have "(b * k * 8 + i) div 8 = b * k + i div 8" "(b * k * 8 + i) mod 8 = i mod 8" by simp_all
  ultimately show ?thesis by (simp add: code_bit_def)
qed

lemma bytes_eq_bits:
  assumes "length a = length b" and bits: "\<And>i. i < 8 * length a \<Longrightarrow> code_bit a i = code_bit b i"
  shows "a = b"
proof (intro nth_equalityI assms(1))
  fix k assume k: "k < length a"
  show "a ! k = b ! k"
  proof (rule bit_word_eqI)
    fix n :: nat assume n: "n < LENGTH(8)"
    then obtain m where m: "m < 8" "n = 7 - m" by (intro that [of "7 - n"]) auto
    have "8 * k + m < 8 * length a" using k m by simp
    from bits [OF this] have "code_bit a (8 * k + m) = code_bit b (8 * k + m)" .
    moreover have "(8 * k + m) div 8 = k" "7 - (8 * k + m) mod 8 = n" using m by simp_all
    ultimately show "bit (a ! k) n = bit (b ! k) n" by (simp only: code_bit_def)
  qed
qed

lemma information_block_eq:
  assumes "b * 8 \<le> length input"
  shows "information_block input b = slot 8 b (input @ replicate 8 0)"
proof (cases "length input - b * 8 < 8")
  case True
  then show ?thesis using assms
    by (simp add: information_block_def slot_def Let_def buf_write_def take_append drop_append)
next
  case False
  then show ?thesis
    by (simp add: information_block_def slot_def Let_def buf_write_def)
qed

lemma length_information_block: "length (information_block input b) = 8"
  by (simp add: information_block_def Let_def length_buf_write)

section \<open>What is encoded\<close>

lemma tc128_word:
  assumes "rtnc_ldpc_encode_systematic ccsds_tc128 info buf = Some cw"
  shows "length cw = length buf" "\<And>i. i < 64 \<Longrightarrow> code_bit cw i = code_bit info i"
    "codeword_of ccsds_tc128 (code_bit cw)"
  using encode_systematic_bits [OF assms] tc128_codeword [OF assms] by (auto simp: ccsds_tc128_def)

lemma encode_robust_ok:
  "distinct blocks \<Longrightarrow> \<forall>b \<in> set blocks. Suc b * 16 \<le> length enc \<Longrightarrow>
   \<exists>e. encode_robust_blocks input enc blocks = Some e \<and> length e = length enc \<and>
     (\<forall>b \<in> set blocks. \<exists>buf. length buf = 16 \<and>
        rtnc_ldpc_encode_systematic ccsds_tc128 (information_block input b) buf = Some (slot 16 b e)) \<and>
     (\<forall>b. b \<notin> set blocks \<and> Suc b * 16 \<le> length enc \<longrightarrow> slot 16 b e = slot 16 b enc)"
proof (induction blocks arbitrary: enc)
  case Nil
  then show ?case by simp
next
  case (Cons b blocks)
  let ?buf = "take 16 (drop (b * 16) enc)"
  have b: "Suc b * 16 \<le> length enc" and buf: "length ?buf = 16" using Cons.prems by auto
  obtain cw where cw: "rtnc_ldpc_encode_systematic ccsds_tc128 (information_block input b) ?buf = Some cw"
    using tc128_encode_total [OF length_information_block] buf by (metis le_refl)
  have len: "length cw = 16" using tc128_word(1) [OF cw] buf by simp
  let ?enc = "buf_write enc (b * 16) cw"
  have enc: "length ?enc = length enc" using b len by (simp add: length_buf_write)
  have "\<forall>b \<in> set blocks. Suc b * 16 \<le> length ?enc" using Cons.prems enc by simp
  from Cons.IH [OF _ this] Cons.prems(1) obtain e where e:
    "encode_robust_blocks input ?enc blocks = Some e" "length e = length ?enc"
    "\<forall>b \<in> set blocks. \<exists>buf. length buf = 16 \<and>
        rtnc_ldpc_encode_systematic ccsds_tc128 (information_block input b) buf = Some (slot 16 b e)"
    "\<forall>b. b \<notin> set blocks \<and> Suc b * 16 \<le> length ?enc \<longrightarrow> slot 16 b e = slot 16 b ?enc" by auto
  have same: "slot 16 c ?enc = (if b = c then cw else slot 16 c enc)" if "Suc c * 16 \<le> length enc" for c
    by (rule slot_buf_write [OF len b that])
  have "slot 16 b e = cw" using e(4) same b enc Cons.prems(1) by simp
  with cw buf have 1: "\<exists>buf. length buf = 16 \<and>
      rtnc_ldpc_encode_systematic ccsds_tc128 (information_block input b) buf = Some (slot 16 b e)" by blast
  have 2: "slot 16 c e = slot 16 c enc" if "c \<notin> set (b # blocks)" "Suc c * 16 \<le> length enc" for c
    using e(4) same enc that by auto
  show ?case using e(1,2,3) cw enc 1 2 by (intro exI [of _ e]) simp
qed

definition punctured :: "bytes \<Rightarrow> bytes" where
  "punctured cw = take 8 cw @ take 4 (drop 12 cw)"

lemma encode_normal_ok:
  "distinct blocks \<Longrightarrow> \<forall>b \<in> set blocks. Suc b * 12 \<le> length enc \<Longrightarrow>
   \<exists>e. encode_normal_blocks input enc blocks = Some e \<and> length e = length enc \<and>
     (\<forall>b \<in> set blocks. \<exists>cw buf. length buf = 16 \<and>
        rtnc_ldpc_encode_systematic ccsds_tc128 (information_block input b) buf = Some cw \<and>
        slot 12 b e = punctured cw) \<and>
     (\<forall>b. b \<notin> set blocks \<and> Suc b * 12 \<le> length enc \<longrightarrow> slot 12 b e = slot 12 b enc)"
proof (induction blocks arbitrary: enc)
  case Nil
  then show ?case by simp
next
  case (Cons b blocks)
  let ?buf = "replicate 16 0 :: bytes"
  have b: "Suc b * 12 \<le> length enc" using Cons.prems by auto
  obtain cw where cw: "rtnc_ldpc_encode_systematic ccsds_tc128 (information_block input b) ?buf = Some cw"
    using tc128_encode_total [OF length_information_block, of ?buf] by auto
  have len: "length cw = 16" using tc128_word(1) [OF cw] by simp
  let ?enc = "buf_write enc (b * 12) (punctured cw)"
  have p: "length (punctured cw) = 12" using len by (simp add: punctured_def)
  have enc: "length ?enc = length enc" using b p by (simp add: length_buf_write)
  have two: "buf_write (buf_write enc (b * 12) (take 8 cw)) (b * 12 + 8) (take 4 (drop 12 cw)) = ?enc"
    using buf_write_append [of "b * 12" "take 8 cw" "take 4 (drop 12 cw)" enc] b len
    by (simp add: punctured_def)
  have "\<forall>b \<in> set blocks. Suc b * 12 \<le> length ?enc" using Cons.prems enc by simp
  from Cons.IH [OF _ this] Cons.prems(1) obtain e where e:
    "encode_normal_blocks input ?enc blocks = Some e" "length e = length ?enc"
    "\<forall>b \<in> set blocks. \<exists>cw buf. length buf = 16 \<and>
        rtnc_ldpc_encode_systematic ccsds_tc128 (information_block input b) buf = Some cw \<and>
        slot 12 b e = punctured cw"
    "\<forall>b. b \<notin> set blocks \<and> Suc b * 12 \<le> length ?enc \<longrightarrow> slot 12 b e = slot 12 b ?enc" by auto
  have same: "slot 12 c ?enc = (if b = c then punctured cw else slot 12 c enc)" if "Suc c * 12 \<le> length enc" for c
    by (rule slot_buf_write [OF p b that])
  have "slot 12 b e = punctured cw" using e(4) same b enc Cons.prems(1) by simp
  moreover have "length ?buf = 16" by simp
  ultimately have 1: "\<exists>cw buf. length buf = 16 \<and>
      rtnc_ldpc_encode_systematic ccsds_tc128 (information_block input b) buf = Some cw \<and>
      slot 12 b e = punctured cw" using cw by blast
  have 2: "slot 12 c e = slot 12 c enc" if "c \<notin> set (b # blocks)" "Suc c * 12 \<le> length enc" for c
    using e(4) same enc that by auto
  have "encode_normal_blocks input enc (b # blocks) = encode_normal_blocks input ?enc blocks"
    using cw two by (simp add: Let_def)
  then show ?case using e(1,2,3) enc 1 2 by (intro exI [of _ e]) simp
qed

section \<open>What is decoded\<close>

lemma store_information_ok:
  assumes "Suc block * 8 \<le> length output" and "length info = 8"
    and bits: "\<forall>i < 64. (decoded ! i \<noteq> 0) = code_bit info i"
  shows "length (store_information output block decoded) = length output \<and>
    slot 8 block (store_information output block decoded) = info \<and>
    (\<forall>c. c \<noteq> block \<and> Suc c * 8 \<le> length output \<longrightarrow>
       slot 8 c (store_information output block decoded) = slot 8 c output)"
proof -
  let ?out = "store_information output block decoded"
  have "(block * 64) mod 8 = 0" "block * 64 + 64 \<le> 8 * length output" using assms(1) by auto
  from put_bits [OF this, of "\<lambda>i. decoded ! i \<noteq> 0"]
  have out: "length ?out = length output" "\<And>i. i < 64 \<Longrightarrow> code_bit ?out (block * 64 + i) = (decoded ! i \<noteq> 0)"
    "\<And>k. 8 * k < block * 64 \<or> block * 64 + 64 \<le> 8 * k \<Longrightarrow> ?out ! k = output ! k"
    unfolding Let_def store_information_def by blast+
  have "slot 8 block ?out = info"
  proof (rule bytes_eq_bits)
    show len: "length (slot 8 block ?out) = length info" using out(1) assms(1,2) by (simp add: slot_def)
    fix i assume "i < 8 * length (slot 8 block ?out)"
    then have i: "i < 64" using len assms(2) by simp
    then have "code_bit (slot 8 block ?out) i = code_bit ?out (block * 8 * 8 + i)"
      using out(1) assms(1) by (intro code_bit_slot) simp_all
    then show "code_bit (slot 8 block ?out) i = code_bit info i" using out(2) [OF i] bits i by (simp add: mult.commute)
  qed
  moreover have "slot 8 c ?out = slot 8 c output" if c: "c \<noteq> block" "Suc c * 8 \<le> length output" for c
  proof (intro nth_equalityI)
    fix k assume "k < length (slot 8 c ?out)"
    then have k: "k < 8" by (simp add: slot_def)
    have "?out ! (c * 8 + k) = output ! (c * 8 + k)" using c(1) k by (intro out(3)) auto
    then show "slot 8 c ?out ! k = slot 8 c output ! k" using k c(2) out(1) by (simp add: slot_def)
  qed (use out(1) in \<open>simp add: slot_def\<close>)
  ultimately show ?thesis using out(1) by blast
qed

lemma tc128_two: "\<forall>c < lc_check_count ccsds_tc128. 2 \<le> length (check_edges ccsds_tc128 c)"
  using tc128_check_edges by (simp add: ccsds_tc128_def)

lemma tc128_decodes:
  assumes "codeword_of ccsds_tc128 b" and "soft_word ccsds_tc128 b llr"
  shows "rtnc_ldpc_decode_normalized_min_sum ccsds_tc128 llr (Fin (3 / 4)) 30 memory 512 128 =
    Some (map (\<lambda>v. of_bool (b v)) [0..<128], \<lparr>st_converged = True, st_iterations = 1, st_syndrome_weight = 0\<rparr>)"
proof -
  have "lc_edge_count ccsds_tc128 \<le> 512" "lc_variable_count ccsds_tc128 = 128" by (simp_all add: ccsds_tc128_def)
  with min_sum_decodes [OF tc128_wf assms tc128_two, of "3 / 4" 30 512 128 memory] show ?thesis by simp
qed

definition block_ok :: "(nat \<Rightarrow> fp list) \<Rightarrow> (nat \<Rightarrow> bytes) \<Rightarrow> nat \<Rightarrow> bool" where
  \<comment> \<open>the soft bits of a block stand for a codeword of the block's information\<close>
  "block_ok block_llr info b \<longleftrightarrow> length (info b) = 8 \<and>
     (\<exists>cw. codeword_of ccsds_tc128 (code_bit cw) \<and> soft_word ccsds_tc128 (code_bit cw) (block_llr b) \<and>
        (\<forall>i < 64. code_bit cw i = code_bit (info b) i))"

lemma decode_blocks_ok:
  "distinct order \<Longrightarrow> \<forall>b \<in> set order. Suc b * 8 \<le> length obuf \<and> block_ok block_llr info b \<Longrightarrow>
   \<exists>out. decode_blocks block_llr obuf its weight order =
       (RTNC_FEC_OK, out, its + length order, weight) \<and> length out = length obuf \<and>
     (\<forall>b \<in> set order. slot 8 b out = info b) \<and>
     (\<forall>b. b \<notin> set order \<and> Suc b * 8 \<le> length obuf \<longrightarrow> slot 8 b out = slot 8 b obuf)"
proof (induction order arbitrary: obuf its)
  case Nil
  then show ?case by simp
next
  case (Cons b order)
  then have b: "Suc b * 8 \<le> length obuf" "block_ok block_llr info b" by auto
  then obtain cw where cw: "codeword_of ccsds_tc128 (code_bit cw)"
    "soft_word ccsds_tc128 (code_bit cw) (block_llr b)" "\<forall>i < 64. code_bit cw i = code_bit (info b) i"
    "length (info b) = 8" by (auto simp: block_ok_def)
  let ?bits = "map (\<lambda>v. of_bool (code_bit cw v)) [0..<128] :: u8 list"
  let ?out = "store_information obuf b ?bits"
  have "\<forall>i < 64. (?bits ! i \<noteq> 0) = code_bit (info b) i" using cw(3) by simp
  from store_information_ok [OF b(1) cw(4) this]
  have out: "length ?out = length obuf" "slot 8 b ?out = info b"
    "\<And>c. c \<noteq> b \<Longrightarrow> Suc c * 8 \<le> length obuf \<Longrightarrow> slot 8 c ?out = slot 8 c obuf" by auto
  have "\<forall>c \<in> set order. Suc c * 8 \<le> length ?out \<and> block_ok block_llr info c"
    using Cons.prems(2) out(1) by simp
  from Cons.IH [OF _ this, of "its + 1"] Cons.prems(1) obtain out' where
    out': "decode_blocks block_llr ?out (its + 1) weight order =
       (RTNC_FEC_OK, out', its + 1 + length order, weight)" "length out' = length ?out"
     "\<forall>b \<in> set order. slot 8 b out' = info b"
     "\<forall>c. c \<notin> set order \<and> Suc c * 8 \<le> length ?out \<longrightarrow> slot 8 c out' = slot 8 c ?out" by auto
  have 1: "slot 8 b out' = info b" using out'(4) out b(1) Cons.prems(1) by simp
  have 2: "slot 8 c out' = slot 8 c obuf" if "c \<notin> set (b # order)" "Suc c * 8 \<le> length obuf" for c
    using out'(4) out that by auto
  have "decode_blocks block_llr obuf its weight (b # order) =
      decode_blocks block_llr ?out (its + 1) weight order"
    using tc128_decodes [OF cw(1,2)] by (simp add: Let_def)
  then show ?case using out' out(1) 1 2 by (intro exI [of _ out']) simp
qed

lemma robust_block_ok:
  assumes cw: "rtnc_ldpc_encode_systematic ccsds_tc128 info buf = Some cw" "length buf = 16"
    and e: "slot 16 b e = cw" "Suc b * 16 \<le> length e"
    and llr: "8 * length e = length llr" "\<forall>i < length llr. decides (code_bit e i) (llr ! i)"
  shows "soft_word ccsds_tc128 (code_bit cw) (robust_block llr b)"
proof -
  have "decides (code_bit cw v) (robust_block llr b ! v)" if v: "v < 128" for v
  proof -
    have "code_bit cw v = code_bit e (b * 16 * 8 + v)"
      using code_bit_slot [of v 16 b e] v e by simp
    moreover have "robust_block llr b ! v = llr ! (b * 128 + v)"
      using v e(2) llr(1) by (simp add: robust_block_def)
    moreover have "b * 16 + 16 \<le> length e" using e(2) by simp
    then have "b * 128 + v < length llr" using v llr(1) by linarith
    ultimately show ?thesis using llr(2) by (simp add: mult.commute)
  qed
  moreover have "length (robust_block llr b) = 128" using e(2) llr(1) by (simp add: robust_block_def)
  ultimately show ?thesis by (auto simp: soft_word_def ccsds_tc128_def intro: decides_agrees)
qed

lemma normal_block_nth:
  assumes "b * 96 + 96 \<le> length llr"
  shows "length (normal_block llr b) = 128"
    and "v < 64 \<Longrightarrow> normal_block llr b ! v = llr ! (b * 96 + v)"
    and "64 \<le> v \<Longrightarrow> v < 96 \<Longrightarrow> normal_block llr b ! v = 0"
    and "96 \<le> v \<Longrightarrow> v < 128 \<Longrightarrow> normal_block llr b ! v = llr ! (b * 96 + 64 + (v - 96))"
proof -
  show "length (normal_block llr b) = 128" "v < 64 \<Longrightarrow> normal_block llr b ! v = llr ! (b * 96 + v)"
    using assms by (simp_all add: normal_block_def buf_write_def nth_append)
  show "normal_block llr b ! v = 0" if v: "64 \<le> v" "v < 96"
  proof -
    have "v - 64 < 32" "\<not> v < 64" using v by simp_all
    then show ?thesis using assms v by (simp add: normal_block_def buf_write_def nth_append)
  qed
  show "normal_block llr b ! v = llr ! (b * 96 + 64 + (v - 96))" if v: "96 \<le> v" "v < 128"
  proof -
    have "v - 96 < 32" "\<not> v < 96" "\<not> v - 64 < 32" using v by simp_all
    then show ?thesis using assms v by (simp add: normal_block_def buf_write_def nth_append)
  qed
qed

lemma normal_block_ok:
  assumes cw: "rtnc_ldpc_encode_systematic ccsds_tc128 info buf = Some cw" "length buf = 16"
    and e: "slot 12 b e = punctured cw" "Suc b * 12 \<le> length e"
    and llr: "8 * length e = length llr" "\<forall>i < length llr. decides (code_bit e i) (llr ! i)"
  shows "soft_word ccsds_tc128 (code_bit cw) (normal_block llr b)"
proof -
  let ?l = "normal_block llr b"
  have "b * 12 + 12 \<le> length e" using e(2) by simp
  then have room: "b * 96 + 96 \<le> length llr" using llr(1) by linarith
  note nth = normal_block_nth [OF room]
  have len: "length cw = 16" using tc128_word(1) [OF cw(1)] cw(2) by simp
  have sent: "decides (code_bit (punctured cw) i) (llr ! (b * 96 + i))" if "i < 96" for i
  proof -
    have "code_bit (punctured cw) i = code_bit e (b * 12 * 8 + i)"
      using code_bit_slot [of i 12 b e] that e by simp
    moreover have "b * 96 + i < length llr" using that room by linarith
    ultimately show ?thesis using llr(2) by (simp add: mult.commute)
  qed
  have known: "decides (code_bit cw v) (?l ! v)" if "v < 128" "\<not> (64 \<le> v \<and> v < 96)" for v
  proof (cases "v < 64")
    case True
    then have "code_bit (punctured cw) v = code_bit cw v"
      using len by (simp add: code_bit_def punctured_def nth_append less_mult_imp_div_less)
    then show ?thesis using sent [of v] nth(2) [OF True] True by simp
  next
    case False
    with that have v: "96 \<le> v" "v < 128" by auto
    obtain i where i: "v = 96 + i" "i < 32" using v by (intro that [of "v - 96"]) auto
    have "i div 8 < 4" using i(2) by (simp add: less_mult_imp_div_less)
    moreover have "(c * 8 + i) div 8 = c + i div 8" "(c * 8 + i) mod 8 = i mod 8" for c by simp_all
    from this [of 8] this [of 12] have "(64 + i) div 8 = 8 + i div 8" "(96 + i) div 8 = 12 + i div 8"
      "(64 + i) mod 8 = i mod 8" "(96 + i) mod 8 = i mod 8" by simp_all
    ultimately have "code_bit (punctured cw) (64 + i) = code_bit cw v"
      using len i by (simp add: code_bit_def punctured_def nth_append)
    then show ?thesis using sent [of "64 + i"] nth(4) [OF v] i by (simp add: add.assoc)
  qed
  have "agrees (code_bit cw v) (?l ! v) \<and> (decides (code_bit cw v) (?l ! v) \<or>
      (\<exists>c < 64. \<exists>x \<in> set (check_edges ccsds_tc128 c). lc_edge_variables ccsds_tc128 ! x = v \<and>
        (\<forall>y \<in> set (check_edges ccsds_tc128 c). y \<noteq> x \<longrightarrow>
           decides (code_bit cw (lc_edge_variables ccsds_tc128 ! y)) (?l ! (lc_edge_variables ccsds_tc128 ! y)))))"
    if v: "v < 128" for v
  proof (cases "64 \<le> v \<and> v < 96")
    case False
    then show ?thesis using known [OF v] decides_agrees by blast
  next
    case True
    then have "?l ! v = 0" using nth(3) by simp
    then have "agrees (code_bit cw v) (?l ! v)" by (simp add: agrees_def)
    moreover obtain c x where cx: "c < 64" "x \<in> set (check_edges ccsds_tc128 c)"
      "lc_edge_variables ccsds_tc128 ! x = v"
      "\<forall>y \<in> set (check_edges ccsds_tc128 c). y \<noteq> x \<longrightarrow>
       \<not> (64 \<le> lc_edge_variables ccsds_tc128 ! y \<and> lc_edge_variables ccsds_tc128 ! y < 96)"
      using tc128_puncture [of v] True by blast
    moreover have "lc_edge_variables ccsds_tc128 ! y < 128" if "y \<in> set (check_edges ccsds_tc128 c)" for y
      using check_edges_bound [OF tc128_wf, of c y] that cx(1) tc128_wf by (simp add: ldpc_wf_def ccsds_tc128_def)
    ultimately show ?thesis using known by blast
  qed
  then show ?thesis using nth(1) by (simp add: soft_word_def ccsds_tc128_def)
qed

section \<open>Round trip\<close>

lemma isfinite_add: "isfinite x \<Longrightarrow> isfinite y \<Longrightarrow> isfinite (x + y)"
  by (auto simp: isfinite_iff)

lemma isfinite_abs: "isfinite x \<Longrightarrow> isfinite \<bar>x\<bar>"
  by (auto simp: isfinite_iff)

lemma decides_finite: "decides b x \<Longrightarrow> isfinite x"
  by (auto simp: decides_def)

lemma foldl_finite:
  "isfinite x \<Longrightarrow> \<forall>i \<in> set is. isfinite (f i) \<Longrightarrow> isfinite (foldl (\<lambda>s i. s + \<bar>f i\<bar>) x is)"
  by (induction "is" arbitrary: x) (auto intro: isfinite_add isfinite_abs)

lemma block_confidence_finite:
  assumes "\<forall>i < length llr. isfinite (llr ! i)" and "n * k \<le> length llr" and "b < n"
  shows "isfinite (block_confidence llr k b)"
proof -
  have "b * k + k \<le> n * k" using assms(3) mult_le_mono1 [of "Suc b" n k] by simp
  then show ?thesis unfolding block_confidence_def using assms(1,2)
    by (intro foldl_finite) auto
qed

lemma weakest_order:
  assumes "\<forall>i < length llr. isfinite (llr ! i)" and "n * k \<le> length llr"
  shows "mset (weakest_blocks_first llr n k) = mset [0..<n] \<and>
    sorted_wrt (\<lambda>a b. block_confidence llr k a \<le> block_confidence llr k b) (weakest_blocks_first llr n k)"
proof -
  let ?f = "\<lambda>b. THE r. block_confidence llr k b = Fin r"
  have f: "block_confidence llr k b = Fin (?f b)" if "b < n" for b
    using block_confidence_finite [OF assms that] by (auto simp: isfinite_iff)
  from weakest_sorted_mset [of n llr k ?f] f
  have od: "mset (weakest_blocks_first llr n k) = mset [0..<n]"
    "confidence_sorted ?f (weakest_blocks_first llr n k)" by auto
  have s: "set (weakest_blocks_first llr n k) = {0..<n}" using mset_eq_setD [OF od(1)] by simp
  have "sorted_wrt (\<lambda>a b. block_confidence llr k a \<le> block_confidence llr k b) (weakest_blocks_first llr n k)"
  proof (rule sorted_wrt_mono_rel [rotated])
    show "sorted_wrt (\<lambda>a b. ?f a \<le> ?f b) (weakest_blocks_first llr n k)"
      using od(2) by (simp only: confidence_sorted_def)
    fix a b assume ab: "a \<in> set (weakest_blocks_first llr n k)" "b \<in> set (weakest_blocks_first llr n k)"
      and le: "?f a \<le> ?f b"
    then have "a < n" "b < n" unfolding s by simp_all
    then show "block_confidence llr k a \<le> block_confidence llr k b"
      using le f [of a] f [of b] by (metis less_eq_fp.simps(1))
  qed
  with od(1) show ?thesis by blast
qed

lemma hard_bits_ok:
  assumes "length llr = 8 * n" and "n \<le> length out"
  shows "length (decode_hard_bits llr out) = length out \<and>
    (\<forall>i < 8 * n. code_bit (decode_hard_bits llr out) i = (llr ! i < 0))"
proof -
  let ?step = "\<lambda>out b. if llr ! b < 0 then out[b div 8 := out ! (b div 8) OR push_bit (7 - b mod 8) 1] else out"
  let ?z = "buf_write out 0 (replicate n 0)"
  have z: "length ?z = length out" using assms(2) by (simp add: length_buf_write)
  have "length (foldl ?step ?z [0..<m]) = length out \<and>
      (\<forall>i < 8 * n. code_bit (foldl ?step ?z [0..<m]) i = (i < m \<and> llr ! i < 0))" if "m \<le> 8 * n" for m
    using that
  proof (induction m)
    case 0
    have "code_bit ?z i = False" if "i < 8 * n" for i
    proof -
      have "i div 8 < n" using that by (simp add: less_mult_imp_div_less mult.commute)
      then show ?thesis by (simp add: code_bit_def buf_write_def nth_append)
    qed
    then show ?case using z by simp
  next
    case (Suc m)
    let ?o = "foldl ?step ?z [0..<m]"
    have "m div 8 < n" using Suc.prems by (simp add: less_mult_imp_div_less mult.commute)
    then have m: "m div 8 < length ?o" using Suc assms(2) by simp
    have "code_bit (?step ?o m) i = (code_bit ?o i \<or> (i = m \<and> llr ! m < 0))" for i
      using code_bit_set [OF m, of i] by simp
    then show ?case using Suc by (auto simp: less_Suc_eq)
  qed
  from this [of "8 * n"] show ?thesis using assms(1) by (simp add: decode_hard_bits_def)
qed

lemma code_bit_take: "i < 8 * n \<Longrightarrow> n \<le> length e \<Longrightarrow> code_bit (take n e) i = code_bit e i"
  by (simp add: code_bit_def less_mult_imp_div_less mult.commute)

lemma slot_take: "Suc b * k \<le> n \<Longrightarrow> slot k b (take n e) = slot k b e"
  by (simp add: slot_def drop_take min_def)

lemma take_input:
  assumes "\<forall>b < n. slot 8 b out = information_block input b" and "n * 8 \<le> length out"
    and n: "n = (length input + 7) div 8"
  shows "take (length input) out = input"
proof -
  let ?padded = "input @ replicate 8 0"
  have nb: "length input \<le> n * 8" "n * 8 \<le> length input + 7" unfolding n by simp_all
  have "\<forall>b < n. slot 8 b ?padded = information_block input b"
  proof (intro allI impI)
    fix b assume "b < n"
    then have "b * 8 \<le> length input" using nb(2) by linarith
    then show "slot 8 b ?padded = information_block input b" by (simp add: information_block_eq)
  qed
  then have "take (n * 8) ?padded = concat (map (information_block input) [0..<n])"
    using nb by (intro take_slots) simp_all
  also have "\<dots> = take (n * 8) out" using assms(1,2) by (intro take_slots [symmetric])
  finally have "take (length input) (take (n * 8) ?padded) = take (length input) (take (n * 8) out)" by simp
  then show ?thesis using nb(1) by (simp add: min_def)
qed

text \<open>Both LDPC modes: if every block's soft bits stand for its information, the input comes back.\<close>

lemma decode_ldpc_ok:
  assumes blocks: "\<forall>b < n. block_ok block_llr (information_block input) b"
    and n: "n = (length input + 7) div 8" and out: "n * 8 \<le> length out"
    and order: "mset order = mset [0..<n]"
  shows "\<exists>out' st. finish_blocks n (decode_blocks block_llr out 0 0 order) = (RTNC_FEC_OK, out', Some (n * 8), st) \<and>
    take (length input) out' = input \<and> st_converged st \<and> st_iterations st = n"
proof -
  have "set order = {0..<n}" using mset_eq_setD [OF order] by simp
  moreover have "distinct order" using order by (metis distinct_upt mset_eq_imp_distinct_iff)
  moreover have "length order = n" using mset_eq_length [OF order] by simp
  moreover have "Suc b * 8 \<le> length out" if "b < n" for b
    using that out mult_le_mono1 [of "Suc b" n 8] by linarith
  ultimately obtain out' where out': "decode_blocks block_llr out 0 0 order = (RTNC_FEC_OK, out', n, 0)"
    "length out' = length out" "\<forall>b < n. slot 8 b out' = information_block input b"
    using decode_blocks_ok [of order out block_llr "information_block input" 0 0] blocks by auto
  with take_input [OF out'(3) _ n] out show ?thesis by (simp add: finish_blocks_def)
qed

lemma encoded_size_small:
  assumes "0 < len" "len \<le> 160"
  shows "rtnc_fec_encoded_size FEC_LDPC_ROBUST len = (len + 7) div 8 * 16"
    "rtnc_fec_encoded_size FEC_LDPC_NORMAL len = (len + 7) div 8 * 12"
proof -
  have "(len + 7) div 8 \<le> 20" using assms(2) by simp
  then have "(len + 7) div 8 * 16 < 2 ^ 64" "(len + 7) div 8 * 12 < 2 ^ 64" by simp_all
  then show "rtnc_fec_encoded_size FEC_LDPC_ROBUST len = (len + 7) div 8 * 16"
    "rtnc_fec_encoded_size FEC_LDPC_NORMAL len = (len + 7) div 8 * 12"
    using assms by (simp_all add: rtnc_fec_encoded_size_def)
qed

lemma robust_roundtrip:
  assumes enc: "rtnc_fec_encode FEC_LDPC_ROBUST input buf = Inr (e, n)" and small: "length input \<le> 160"
    and llr: "length llr = 8 * n" "\<forall>i < 8 * n. decides (code_bit e i) (llr ! i)"
    and out: "length input + 7 \<le> length out"
  shows "n = (length input + 7) div 8 * 16 \<and> (\<exists>out' m st. rtnc_fec_decode FEC_LDPC_ROBUST llr out = (RTNC_FEC_OK, out', Some m, st) \<and>
    m = (length input + 7) div 8 * 8 \<and> take (length input) out' = input \<and> st_converged st \<and>
    st_iterations st = (length input + 7) div 8)"
proof -
  let ?nb = "(length input + 7) div 8"
  have pos: "0 < length input" using enc
    by (cases "length input") (auto simp: rtnc_fec_encode_def rtnc_fec_encoded_size_def Let_def)
  have n: "n = ?nb * 16" "n \<le> length buf"
    using enc encoded_size_small(1) [OF pos small]
    by (auto simp: rtnc_fec_encode_def Let_def split: if_splits option.splits)
  have blocks: "encode_robust_blocks input buf [0..<?nb] = Some e"
    using enc n encoded_size_small(1) [OF pos small]
    by (auto simp: rtnc_fec_encode_def Let_def split: if_splits option.splits)
  have inr: "Suc b * 16 \<le> n" if "b < ?nb" for b using that mult_le_mono1 [of "Suc b" ?nb 16] n(1) by simp
  have "\<forall>b \<in> set [0..<?nb]. Suc b * 16 \<le> length buf" using inr n(2) by fastforce
  from encode_robust_ok [OF distinct_upt this, of input, unfolded blocks]
  have e: "length e = length buf" "\<And>b. b < ?nb \<Longrightarrow> \<exists>buf. length buf = 16 \<and>
      rtnc_ldpc_encode_systematic ccsds_tc128 (information_block input b) buf = Some (slot 16 b e)" by auto
  have ok: "block_ok (robust_block llr) (information_block input) b" if b: "b < ?nb" for b
  proof -
    obtain sub where sub: "length sub = 16"
      "rtnc_ldpc_encode_systematic ccsds_tc128 (information_block input b) sub = Some (slot 16 b e)"
      using e(2) [OF b] by blast
    have "soft_word ccsds_tc128 (code_bit (slot 16 b e)) (robust_block llr b)"
    proof (rule robust_block_ok [OF sub(2,1)])
      show "slot 16 b (take n e) = slot 16 b e" by (rule slot_take [OF inr [OF b]])
      show "Suc b * 16 \<le> length (take n e)" using inr [OF b] e(1) n(2) by simp
      show "8 * length (take n e) = length llr" using llr(1) e(1) n(2) by simp
      show "\<forall>i < length llr. decides (code_bit (take n e) i) (llr ! i)"
        using llr e(1) n(2) by (simp add: code_bit_take)
    qed
    then show ?thesis unfolding block_ok_def using tc128_word(2,3) [OF sub(2)] length_information_block by blast
  qed
  have len: "length llr = ?nb * 128" using llr(1) n(1) by simp
  have fin: "\<forall>i < length llr. isfinite (llr ! i)" using llr decides_finite by metis
  have order: "mset (weakest_blocks_first llr ?nb 128) = mset [0..<?nb]"
    using weakest_order [OF fin, of ?nb 128] len by simp
  have nb: "0 < ?nb" "?nb \<le> 20" "?nb * 8 \<le> length out"
    using div_greater_zero_iff [of "length input + 7" 8] pos small out by auto
  obtain out' st where "finish_blocks ?nb (decode_blocks (robust_block llr) out 0 0 (weakest_blocks_first llr ?nb 128)) =
      (RTNC_FEC_OK, out', Some (?nb * 8), st)" "take (length input) out' = input" "st_converged st" "st_iterations st = ?nb"
    using decode_ldpc_ok [of ?nb "robust_block llr" input, OF _ refl nb(3) order] ok by blast
  then show ?thesis using n(1) nb len by (simp add: rtnc_fec_decode_def)
qed

lemma normal_roundtrip:
  assumes enc: "rtnc_fec_encode FEC_LDPC_NORMAL input buf = Inr (e, n)" and small: "length input \<le> 160"
    and llr: "length llr = 8 * n" "\<forall>i < 8 * n. decides (code_bit e i) (llr ! i)"
    and out: "length input + 7 \<le> length out"
  shows "n = (length input + 7) div 8 * 12 \<and> (\<exists>out' m st. rtnc_fec_decode FEC_LDPC_NORMAL llr out = (RTNC_FEC_OK, out', Some m, st) \<and>
    m = (length input + 7) div 8 * 8 \<and> take (length input) out' = input \<and> st_converged st \<and>
    st_iterations st = (length input + 7) div 8)"
proof -
  let ?nb = "(length input + 7) div 8"
  have pos: "0 < length input" using enc
    by (cases "length input") (auto simp: rtnc_fec_encode_def rtnc_fec_encoded_size_def Let_def)
  have n: "n = ?nb * 12" "n \<le> length buf"
    using enc encoded_size_small(2) [OF pos small]
    by (auto simp: rtnc_fec_encode_def Let_def split: if_splits option.splits)
  have blocks: "encode_normal_blocks input buf [0..<?nb] = Some e"
    using enc n encoded_size_small(2) [OF pos small]
    by (auto simp: rtnc_fec_encode_def Let_def split: if_splits option.splits)
  have inr: "Suc b * 12 \<le> n" if "b < ?nb" for b using that mult_le_mono1 [of "Suc b" ?nb 12] n(1) by simp
  have "\<forall>b \<in> set [0..<?nb]. Suc b * 12 \<le> length buf" using inr n(2) by fastforce
  from encode_normal_ok [OF distinct_upt this, of input, unfolded blocks]
  have e: "length e = length buf" "\<And>b. b < ?nb \<Longrightarrow> \<exists>cw sub. length sub = 16 \<and>
      rtnc_ldpc_encode_systematic ccsds_tc128 (information_block input b) sub = Some cw \<and>
      slot 12 b e = punctured cw" by auto
  have ok: "block_ok (normal_block llr) (information_block input) b" if b: "b < ?nb" for b
  proof -
    obtain cw sub where sub: "length sub = 16"
      "rtnc_ldpc_encode_systematic ccsds_tc128 (information_block input b) sub = Some cw" "slot 12 b e = punctured cw"
      using e(2) [OF b] by blast
    have "soft_word ccsds_tc128 (code_bit cw) (normal_block llr b)"
    proof (rule normal_block_ok [OF sub(2,1)])
      show "slot 12 b (take n e) = punctured cw" using slot_take [OF inr [OF b], of e] sub(3) by simp
      show "Suc b * 12 \<le> length (take n e)" using inr [OF b] e(1) n(2) by simp
      show "8 * length (take n e) = length llr" using llr(1) e(1) n(2) by simp
      show "\<forall>i < length llr. decides (code_bit (take n e) i) (llr ! i)"
        using llr e(1) n(2) by (simp add: code_bit_take)
    qed
    then show ?thesis unfolding block_ok_def using tc128_word(2,3) [OF sub(2)] length_information_block by blast
  qed
  have len: "length llr = ?nb * 96" using llr(1) n(1) by simp
  have fin: "\<forall>i < length llr. isfinite (llr ! i)" using llr decides_finite by metis
  have order: "mset (weakest_blocks_first llr ?nb 96) = mset [0..<?nb]"
    using weakest_order [OF fin, of ?nb 96] len by simp
  have nb: "0 < ?nb" "?nb \<le> 20" "?nb * 8 \<le> length out"
    using div_greater_zero_iff [of "length input + 7" 8] pos small out by auto
  obtain out' st where "finish_blocks ?nb (decode_blocks (normal_block llr) out 0 0 (weakest_blocks_first llr ?nb 96)) =
      (RTNC_FEC_OK, out', Some (?nb * 8), st)" "take (length input) out' = input" "st_converged st" "st_iterations st = ?nb"
    using decode_ldpc_ok [of ?nb "normal_block llr" input, OF _ refl nb(3) order] ok by blast
  then show ?thesis using n(1) nb len by (simp add: rtnc_fec_decode_def)
qed

lemma none_roundtrip:
  assumes enc: "rtnc_fec_encode FEC_NONE input buf = Inr (e, n)"
    and llr: "length llr = 8 * n" "\<forall>i < 8 * n. decides (code_bit e i) (llr ! i)"
    and out: "length input + 7 \<le> length out"
  shows "n = length input \<and> (\<exists>out' st. rtnc_fec_decode FEC_NONE llr out = (RTNC_FEC_OK, out', Some n, st) \<and>
    take (length input) out' = input \<and> st_converged st)"
proof -
  have e: "n = length input" "e = buf_write buf 0 input" "length input \<le> length buf"
    using enc by (auto simp: rtnc_fec_encode_def split: if_splits)
  have t: "take n e = input" using e by (simp add: take_buf_write_0)
  let ?out = "decode_hard_bits llr out"
  have h: "length ?out = length out" "\<forall>i < 8 * n. code_bit ?out i = (llr ! i < 0)"
    using hard_bits_ok [OF llr(1), of out] out e(1) by auto
  have "take n ?out = input"
  proof (rule bytes_eq_bits)
    show len: "length (take n ?out) = length input" using h(1) out e(1) by simp
    fix i assume "i < 8 * length (take n ?out)"
    then have i: "i < 8 * n" using len e(1) by simp
    have le: "n \<le> length ?out" "n \<le> length e" using h(1) out e by (auto simp: length_buf_write)
    have "code_bit (take n ?out) i = (llr ! i < 0)" using h(2) i code_bit_take [OF i le(1)] by simp
    also have "\<dots> = code_bit (take n e) i" using llr(2) i decides_sign code_bit_take [OF i le(2)] by metis
    finally show "code_bit (take n ?out) i = code_bit input i" unfolding t .
  qed
  then show ?thesis using e(1) out llr(1) by (simp add: rtnc_fec_decode_def)
qed

section \<open>Properties\<close>

lemma fec_decode_encode:
  assumes "rtnc_fec_encode mode input buf = Inr (e, n)" and "length input \<le> 160"
    and "length llr = 8 * n" and "\<forall>i < 8 * n. decides (code_bit e i) (llr ! i)"
    and "length input + 7 \<le> length out"
  shows "n = rtnc_fec_encoded_size mode (length input) \<and>
    (\<exists>out' m st. rtnc_fec_decode mode llr out = (RTNC_FEC_OK, out', Some m, st) \<and>
       length input \<le> m \<and> m < length input + 8 \<and> take (length input) out' = input \<and>
       st_converged st \<and> (mode = FEC_NONE \<or> st_iterations st = (length input + 7) div 8))"
proof (cases mode)
  case FEC_NONE
  with none_roundtrip [of input buf e n llr out] assms show ?thesis
    by (auto simp: rtnc_fec_encoded_size_def)
next
  case FEC_LDPC_ROBUST
  have "0 < length input" using assms(1) FEC_LDPC_ROBUST
    by (cases "length input") (auto simp: rtnc_fec_encode_def rtnc_fec_encoded_size_def Let_def)
  from encoded_size_small(1) [OF this assms(2)] robust_roundtrip [of input buf e n llr out] assms FEC_LDPC_ROBUST
  show ?thesis by auto
next
  case FEC_LDPC_NORMAL
  have "0 < length input" using assms(1) FEC_LDPC_NORMAL
    by (cases "length input") (auto simp: rtnc_fec_encode_def rtnc_fec_encoded_size_def Let_def)
  from encoded_size_small(2) [OF this assms(2)] normal_roundtrip [of input buf e n llr out] assms FEC_LDPC_NORMAL
  show ?thesis by auto
next
  case FEC_LDPC_FAST
  then show ?thesis using assms(1) by (simp add: rtnc_fec_encode_def)
qed

text \<open>
  C34: decoding inverts encoding.  In every mode the encoder supports, for an input of up to 160 bytes:
  if each soft bit received has the sign of the bit sent (whatever its magnitude), decoding succeeds,
  each LDPC block in one iteration, although NORMAL never sends a quarter of each block's bits; the
  output starts with the input, and the sizes are those of \<open>rtnc_fec_encoded_size\<close>.
\<close>

theorem fec_roundtrip:
  assumes "rtnc_fec_encode mode input buf = Inr (e, n)" and "length input \<le> 160"
    and "length llr = 8 * n" and "\<forall>i < 8 * n. decides (code_bit e i) (llr ! i)"
    and "length input + 7 \<le> length out"
  shows "n = rtnc_fec_encoded_size mode (length input) \<and>
    (\<exists>out' m st. rtnc_fec_decode mode llr out = (RTNC_FEC_OK, out', Some m, st) \<and>
       length input \<le> m \<and> m < length input + 8 \<and> take (length input) out' = input \<and>
       st_converged st \<and> (mode = FEC_NONE \<or> st_iterations st = (length input + 7) div 8))"
  by (rule fec_decode_encode [OF assms])

theorem fec_roundtrip_witness:
  "\<exists>e out m st. rtnc_fec_encode FEC_LDPC_NORMAL [1, 2, 3] (replicate 12 0) = Inr (e, 12) \<and>
     rtnc_fec_decode FEC_LDPC_NORMAL (map (\<lambda>i. if code_bit e i then Fin (-2) else Fin 1) [0..<96])
       (replicate 10 0) = (RTNC_FEC_OK, out, Some m, st) \<and> take 3 out = [1, 2, 3] \<and> st_converged st"
proof -
  obtain e where "encode_normal_blocks [1, 2, 3] (replicate 12 0) [0..<1] = Some e"
    using encode_normal_ok [of "[0..<1]" "replicate 12 0" "[1, 2, 3]"] by auto
  then have e: "rtnc_fec_encode FEC_LDPC_NORMAL [1, 2, 3] (replicate 12 0) = Inr (e, 12)"
    by (simp add: rtnc_fec_encode_def rtnc_fec_encoded_size_def)
  let ?llr = "map (\<lambda>i. if code_bit e i then Fin (-2) else Fin 1) [0..<96]"
  have "\<forall>i < 8 * 12. decides (code_bit e i) (?llr ! i)" by (simp add: decides_def)
  then obtain out m st where "rtnc_fec_decode FEC_LDPC_NORMAL ?llr (replicate 10 0) = (RTNC_FEC_OK, out, Some m, st)"
      "take (length [1, 2, 3 :: 8 word]) out = [1, 2, 3]" "st_converged st"
    using fec_roundtrip [OF e, of ?llr "replicate 10 0"] by force
  with e show ?thesis by (auto simp: numeral_3_eq_3)
qed

end
