(* ===== verification/Profile.thy ===== *)
theory Profile
  imports Fp Frame Fragmentation Fec ModemTypes
begin

text \<open>
  The physical-layer profile (\<^verbatim>\<open>phy/profile.c\<close>, \<^verbatim>\<open>rtnc_phy_profile_t\<close> of \<^verbatim>\<open>include/rtnc/phy.h\<close>) and
  the rates derived from it (\<^verbatim>\<open>modem/rate.c\<close>).  The float fields are \<open>fp\<close>, since a comparison with a
  NaN decides here.  The 64-bit products of \<^verbatim>\<open>rtnc_modem_profile_rate\<close> are natural numbers: their
  factors are 32-bit values and constants below 1024, so none can reach \<open>2 ^ 64\<close>.

  The lemmas show that a valid profile has an exact symbol period and a consistent modulation, that the
  profile constructor returns only valid profiles, and that the advertised rates are ordered and honest:
  the interface rate never exceeds what one frame carries in its airtime.
\<close>

datatype rtnc_modulation =
  RTNC_MODULATION_QPSK | RTNC_MODULATION_8PSK | RTNC_MODULATION_16PSK | RTNC_MODULATION_BPSK

record rtnc_phy_profile =
  pp_sample_rate_hz :: u32
  pp_modulation :: rtnc_modulation
  pp_bits_per_symbol :: u8
  pp_symbol_rate_baud :: u32
  pp_carrier_hz :: fp
  pp_rrc_rolloff :: fp
  pp_acquisition_threshold :: fp
  pp_training_threshold :: fp
  pp_samples_per_symbol :: u16

definition rtnc_phy_profile_qpsk_1200 :: rtnc_phy_profile where
  "rtnc_phy_profile_qpsk_1200 =
    \<lparr> pp_sample_rate_hz = 48000, pp_modulation = RTNC_MODULATION_QPSK, pp_bits_per_symbol = 2,
      pp_symbol_rate_baud = 1200, pp_carrier_hz = Fin 1650, pp_rrc_rolloff = Fin (1 / 4),
      pp_acquisition_threshold = Fin (9 / 10), pp_training_threshold = Fin (7 / 10),
      pp_samples_per_symbol = 40 \<rparr>"

definition rtnc_phy_profile_is_valid :: "rtnc_phy_profile \<Rightarrow> bool" where
  "rtnc_phy_profile_is_valid p =
    (if pp_sample_rate_hz p = 0 \<or> pp_symbol_rate_baud p = 0 then False
     else if pp_sample_rate_hz p mod pp_symbol_rate_baud p \<noteq> 0 then False
     else if ucast (pp_samples_per_symbol p) \<noteq> pp_sample_rate_hz p div pp_symbol_rate_baud p then False
     else if pp_samples_per_symbol p < 20 \<or> pp_samples_per_symbol p > 80 then False
     else if (pp_modulation p = RTNC_MODULATION_BPSK \<and> pp_bits_per_symbol p \<noteq> 1) \<or>
             (pp_modulation p = RTNC_MODULATION_QPSK \<and> pp_bits_per_symbol p \<noteq> 2) \<or>
             (pp_modulation p = RTNC_MODULATION_8PSK \<and> pp_bits_per_symbol p \<noteq> 3) \<or>
             (pp_modulation p = RTNC_MODULATION_16PSK \<and> pp_bits_per_symbol p \<noteq> 4) \<or>
             (pp_modulation p \<noteq> RTNC_MODULATION_BPSK \<and> pp_modulation p \<noteq> RTNC_MODULATION_QPSK \<and>
              pp_modulation p \<noteq> RTNC_MODULATION_8PSK \<and> pp_modulation p \<noteq> RTNC_MODULATION_16PSK) then False
     else if pp_rrc_rolloff p \<le> Fin 0 \<or> pp_rrc_rolloff p > Fin 1 then False
     else if pp_acquisition_threshold p \<le> Fin 0 \<or> pp_acquisition_threshold p > Fin 1 \<or>
             pp_training_threshold p \<le> Fin 0 \<or> pp_training_threshold p > Fin 1 then False
     else pp_carrier_hz p > Fin 300 \<and> pp_carrier_hz p < Fin 3000)"

definition rtnc_phy_profile_psk :: "rtnc_modulation \<Rightarrow> u32 \<Rightarrow> fp \<Rightarrow> rtnc_phy_profile option" where
  "rtnc_phy_profile_psk modulation symbol_rate_baud carrier_hz =
    (if symbol_rate_baud = 0 \<or> 48000 mod symbol_rate_baud \<noteq> 0 then None
     else
       let candidate = rtnc_phy_profile_qpsk_1200 \<lparr> pp_modulation := modulation \<rparr>;
           bits_per_symbol =
             (if modulation = RTNC_MODULATION_BPSK then Some 1
              else if modulation = RTNC_MODULATION_QPSK then Some 2
              else if modulation = RTNC_MODULATION_8PSK then Some 3
              else if modulation = RTNC_MODULATION_16PSK then Some 4
              else None)
       in case bits_per_symbol of
            None \<Rightarrow> None
          | Some bits \<Rightarrow>
              let candidate = candidate \<lparr> pp_bits_per_symbol := bits,
                    pp_symbol_rate_baud := symbol_rate_baud,
                    pp_samples_per_symbol := ucast (pp_sample_rate_hz candidate div symbol_rate_baud),
                    pp_carrier_hz := carrier_hz \<rparr>
              in if rtnc_phy_profile_is_valid candidate then Some candidate else None)"

definition rtnc_phy_profile_qpsk :: "u32 \<Rightarrow> fp \<Rightarrow> rtnc_phy_profile option" where
  "rtnc_phy_profile_qpsk symbol_rate_baud carrier_hz =
    rtnc_phy_profile_psk RTNC_MODULATION_QPSK symbol_rate_baud carrier_hz"

record rtnc_modem_rate =
  mr_raw_bitrate_bps :: u32
  mr_fec_bitrate_bps :: u32
  mr_interface_bitrate_bps :: u32
  mr_frame_samples :: nat

abbreviation UINT32_MAX :: nat where
  "UINT32_MAX \<equiv> 2 ^ 32 - 1"

definition symbol_count :: "nat \<Rightarrow> u8 \<Rightarrow> nat" where
  \<comment> \<open>also \<^verbatim>\<open>payload_symbol_count\<close> of \<^verbatim>\<open>modem/offline.c\<close>\<close>
  "symbol_count byte_count bits_per_symbol =
    (byte_count * 8 + unat bits_per_symbol - 1) div unat bits_per_symbol"

definition rtnc_modem_profile_rate :: "rtnc_phy_profile \<Rightarrow> fec_mode \<Rightarrow> u8 \<Rightarrow> rtnc_modem_rate option" where
  "rtnc_modem_profile_rate p fec_mode payload_class_bytes =
    (if \<not> rtnc_phy_profile_is_valid p \<or> (payload_class_bytes \<noteq> 64 \<and> payload_class_bytes \<noteq> 128) \<or>
        (fec_mode \<noteq> FEC_NONE \<and> fec_mode \<noteq> FEC_LDPC_ROBUST \<and> fec_mode \<noteq> FEC_LDPC_NORMAL)
     then None
     else
       let protected_bytes = RTNC_FRAME_HEADER_SIZE + unat payload_class_bytes + RTNC_FRAME_CRC_SIZE;
           encoded_bytes = rtnc_fec_encoded_size fec_mode protected_bytes
       in if encoded_bytes = 0 then None
          else
            let symbols = RTNC_MODEM_TRAINING_SYMBOLS + symbol_count encoded_bytes (pp_bits_per_symbol p) +
                          RTNC_MODEM_TRAILING_SYMBOLS;
                frame_samples = symbols * unat (pp_samples_per_symbol p);
                raw_bitrate = unat (pp_symbol_rate_baud p) * unat (pp_bits_per_symbol p);
                fec_bitrate = (if fec_mode = FEC_LDPC_ROBUST then raw_bitrate div 2
                               else if fec_mode = FEC_LDPC_NORMAL then raw_bitrate * 2 div 3
                               else raw_bitrate);
                interface_bits_per_second =
                  (unat payload_class_bytes - RTNC_FRAGMENT_HEADER_SIZE) * 8 * unat (pp_sample_rate_hz p)
                    div frame_samples
            in if frame_samples > RTNC_MODEM_MAX_AUDIO_SAMPLES \<or> frame_samples > SIZE_MAX \<or>
                  raw_bitrate > UINT32_MAX \<or> fec_bitrate > UINT32_MAX \<or>
                  interface_bits_per_second > UINT32_MAX
               then None
               else Some \<lparr> mr_raw_bitrate_bps = of_nat raw_bitrate, mr_fec_bitrate_bps = of_nat fec_bitrate,
                      mr_interface_bitrate_bps = of_nat interface_bits_per_second,
                      mr_frame_samples = frame_samples \<rparr>)"

section \<open>Valid profiles\<close>

definition bits_of_modulation :: "rtnc_modulation \<Rightarrow> nat" where
  "bits_of_modulation m = (case m of RTNC_MODULATION_BPSK \<Rightarrow> 1 | RTNC_MODULATION_QPSK \<Rightarrow> 2
     | RTNC_MODULATION_8PSK \<Rightarrow> 3 | RTNC_MODULATION_16PSK \<Rightarrow> 4)"

lemma valid_profile_period:
  assumes "rtnc_phy_profile_is_valid p"
  shows "unat (pp_samples_per_symbol p) * unat (pp_symbol_rate_baud p) = unat (pp_sample_rate_hz p)"
    "20 \<le> unat (pp_samples_per_symbol p)" "unat (pp_samples_per_symbol p) \<le> 80"
    "0 < unat (pp_symbol_rate_baud p)"
proof -
  from assms have d: "ucast (pp_samples_per_symbol p) = pp_sample_rate_hz p div pp_symbol_rate_baud p"
    and m: "pp_sample_rate_hz p mod pp_symbol_rate_baud p = 0" and nz: "pp_symbol_rate_baud p \<noteq> 0"
    and r: "20 \<le> pp_samples_per_symbol p" "pp_samples_per_symbol p \<le> 80"
    by (auto simp: rtnc_phy_profile_is_valid_def not_less split: if_splits)
  have "unat (ucast (pp_samples_per_symbol p) :: u32) = unat (pp_samples_per_symbol p)"
    by simp
  then have "unat (pp_samples_per_symbol p) = unat (pp_sample_rate_hz p) div unat (pp_symbol_rate_baud p)"
    unfolding d by (simp add: unat_div)
  moreover have "unat (pp_sample_rate_hz p) mod unat (pp_symbol_rate_baud p) = 0"
    using arg_cong [OF m, of unat] by (simp add: unat_mod)
  ultimately show "unat (pp_samples_per_symbol p) * unat (pp_symbol_rate_baud p) = unat (pp_sample_rate_hz p)"
    by (metis mod_0_imp_dvd dvd_div_mult_self)
  show "20 \<le> unat (pp_samples_per_symbol p)" "unat (pp_samples_per_symbol p) \<le> 80"
    using r by (simp_all add: word_le_nat_alt)
  show "0 < unat (pp_symbol_rate_baud p)" using nz by (simp add: unat_gt_0)
qed

lemma valid_profile_bits:
  assumes "rtnc_phy_profile_is_valid p"
  shows "unat (pp_bits_per_symbol p) = bits_of_modulation (pp_modulation p)"
  using assms by (cases "pp_modulation p") (auto simp: rtnc_phy_profile_is_valid_def bits_of_modulation_def split: if_splits)

lemma bits_of_modulation_range: "1 \<le> bits_of_modulation m" "bits_of_modulation m \<le> 4"
  by (simp_all add: bits_of_modulation_def split: rtnc_modulation.splits)

text \<open>
  which profiles exist.  \<open>rtnc_phy_profile_psk\<close> succeeds for exactly the symbol rates that
  divide 48 kHz into 20 to 80 samples per symbol and the carriers strictly between 300 and 3000 Hz (so no
  NaN and no infinity); its result is valid, has the number of bits of its modulation and as many samples
  per symbol as make up one second.
\<close>

lemma profile_psk_exact:
  "(case rtnc_phy_profile_psk m baud carrier of
      None \<Rightarrow> \<not> (baud \<noteq> 0 \<and> 48000 mod unat baud = 0 \<and> 20 \<le> 48000 div unat baud \<and> 48000 div unat baud \<le> 80 \<and>
                 Fin 300 < carrier \<and> carrier < Fin 3000)
    | Some p \<Rightarrow> (baud \<noteq> 0 \<and> 48000 mod unat baud = 0 \<and> 20 \<le> 48000 div unat baud \<and> 48000 div unat baud \<le> 80 \<and>
                 Fin 300 < carrier \<and> carrier < Fin 3000) \<and>
        rtnc_phy_profile_is_valid p \<and> pp_sample_rate_hz p = 48000 \<and> pp_modulation p = m \<and>
        unat (pp_bits_per_symbol p) = bits_of_modulation m \<and> pp_symbol_rate_baud p = baud \<and>
        unat (pp_samples_per_symbol p) = 48000 div unat baud \<and> pp_carrier_hz p = carrier)"
proof -
  let ?sps = "ucast (48000 div baud) :: u16"
  let ?ok = "baud \<noteq> 0 \<and> 48000 mod unat baud = 0 \<and> 20 \<le> 48000 div unat baud \<and> 48000 div unat baud \<le> 80 \<and>
    Fin 300 < carrier \<and> carrier < Fin 3000"
  have q: "unat (48000 div baud) = 48000 div unat baud" by (simp add: unat_div)
  have le: "48000 div unat baud \<le> 48000" by (rule div_le_dividend)
  then have sps: "unat ?sps = 48000 div unat baud"
    using unat_u32_u16 [of "48000 div baud", unfolded q] by linarith
  have up: "(ucast ?sps :: u32) = 48000 div baud"
  proof (rule unsigned_word_eqI)
    show "unat (ucast ?sps :: u32) = unat (48000 div baud)" by (simp add: sps q)
  qed
  have m: "48000 mod baud = 0 \<longleftrightarrow> 48000 mod unat baud = 0"
    using unat_mod [of 48000 baud] by (simp add: unat_eq_zero [symmetric] del: unat_eq_zero)
  have range: "?sps < 20 \<longleftrightarrow> 48000 div unat baud < 20" "80 < ?sps \<longleftrightarrow> 80 < 48000 div unat baud"
    by (simp_all add: word_less_nat_alt sps)
  show ?thesis
  proof (cases ?ok)
    case True
    then have "rtnc_phy_profile_psk m baud carrier = Some (rtnc_phy_profile_qpsk_1200 \<lparr>
        pp_modulation := m, pp_bits_per_symbol := of_nat (bits_of_modulation m), pp_symbol_rate_baud := baud,
        pp_samples_per_symbol := ?sps, pp_carrier_hz := carrier \<rparr>)"
      by (cases m) (simp_all add: rtnc_phy_profile_psk_def rtnc_phy_profile_is_valid_def
        rtnc_phy_profile_qpsk_1200_def bits_of_modulation_def m up range not_less)
    moreover have "bits_of_modulation m < 256" using bits_of_modulation_range(2) [of m] by simp
    ultimately show ?thesis using True sps
      by (cases m) (simp_all add: rtnc_phy_profile_is_valid_def rtnc_phy_profile_qpsk_1200_def
        bits_of_modulation_def m up range not_less)
  next
    case False
    then have "rtnc_phy_profile_psk m baud carrier = None"
      by (cases m) (auto simp: rtnc_phy_profile_psk_def rtnc_phy_profile_is_valid_def
        rtnc_phy_profile_qpsk_1200_def m up range not_less Let_def)
    then show ?thesis using False by simp
  qed
qed

section \<open>Rates\<close>

definition frame_symbols :: "rtnc_phy_profile \<Rightarrow> fec_mode \<Rightarrow> nat \<Rightarrow> nat" where
  "frame_symbols p fec_mode class_bytes =
    112 + symbol_count (rtnc_fec_encoded_size fec_mode (class_bytes + 3)) (pp_bits_per_symbol p)"

lemma symbol_count_bounds:
  assumes "0 < unat b"
  shows "n * 8 \<le> symbol_count n b * unat b" "symbol_count n b * unat b < n * 8 + unat b"
proof -
  let ?b = "unat b" and ?x = "n * 8 + unat b - 1"
  have "?x div ?b * ?b + ?x mod ?b = ?x" by simp
  moreover have "?x mod ?b < ?b" using assms by simp
  ultimately show "n * 8 \<le> symbol_count n b * ?b" "symbol_count n b * ?b < n * 8 + ?b"
    unfolding symbol_count_def using assms by linarith+
qed

lemma encoded_size_class:
  assumes "c = 64 \<or> c = (128 :: nat)" and "fec_mode \<noteq> FEC_LDPC_FAST"
  shows "rtnc_fec_encoded_size fec_mode (c + 3) =
    (if fec_mode = FEC_NONE then c + 3 else if fec_mode = FEC_LDPC_ROBUST then (if c = 64 then 144 else 272)
     else (if c = 64 then 108 else 204))"
  using assms by (cases fec_mode) (auto simp: rtnc_fec_encoded_size_def)

lemma rate_guard:
  "(if f > (90000 :: nat) \<or> f > SIZE_MAX \<or> a > m \<or> b > m \<or> c > m then None else Some x) = Some y \<longleftrightarrow>
   f \<le> 90000 \<and> a \<le> m \<and> b \<le> m \<and> c \<le> (m :: nat) \<and> y = x"
  by auto

lemma profile_rate_cases:
  "rtnc_modem_profile_rate p fec_mode cls = Some r \<longleftrightarrow>
     rtnc_phy_profile_is_valid p \<and> (cls = 64 \<or> cls = 128) \<and> fec_mode \<noteq> FEC_LDPC_FAST \<and>
     (let frame_samples = frame_symbols p fec_mode (unat cls) * unat (pp_samples_per_symbol p);
          raw = unat (pp_symbol_rate_baud p) * unat (pp_bits_per_symbol p);
          fec = (if fec_mode = FEC_LDPC_ROBUST then raw div 2 else if fec_mode = FEC_LDPC_NORMAL then raw * 2 div 3 else raw);
          interface = (unat cls - 1) * 8 * unat (pp_sample_rate_hz p) div frame_samples
      in frame_samples \<le> 90000 \<and> raw \<le> UINT32_MAX \<and> fec \<le> UINT32_MAX \<and> interface \<le> UINT32_MAX \<and>
         r = \<lparr> mr_raw_bitrate_bps = of_nat raw, mr_fec_bitrate_bps = of_nat fec,
              mr_interface_bitrate_bps = of_nat interface, mr_frame_samples = frame_samples \<rparr>)"
proof (cases "rtnc_phy_profile_is_valid p \<and> (cls = 64 \<or> cls = 128) \<and> fec_mode \<noteq> FEC_LDPC_FAST")
  case True
  then have "rtnc_fec_encoded_size fec_mode (unat cls + 3) \<noteq> 0"
    using encoded_size_class [of "unat cls" fec_mode] by (auto split: if_splits)
  moreover have "fec_mode = FEC_NONE \<or> fec_mode = FEC_LDPC_ROBUST \<or> fec_mode = FEC_LDPC_NORMAL"
    using True by (cases fec_mode) simp_all
  ultimately have ok: "(\<not> rtnc_phy_profile_is_valid p \<or> (cls \<noteq> 64 \<and> cls \<noteq> 128) \<or>
      (fec_mode \<noteq> FEC_NONE \<and> fec_mode \<noteq> FEC_LDPC_ROBUST \<and> fec_mode \<noteq> FEC_LDPC_NORMAL)) = False"
    "(rtnc_fec_encoded_size fec_mode (unat cls + 3) = 0) = False"
    using True by blast+
  have sz: "RTNC_FRAME_HEADER_SIZE + unat cls + RTNC_FRAME_CRC_SIZE = unat cls + 3"
    "RTNC_MODEM_TRAINING_SYMBOLS + n + RTNC_MODEM_TRAILING_SYMBOLS = 112 + n"
    "RTNC_FRAGMENT_HEADER_SIZE = 1" "RTNC_MODEM_MAX_AUDIO_SAMPLES = 90000" for n
    by (simp_all add: RTNC_FRAME_HEADER_SIZE_def RTNC_FRAME_CRC_SIZE_def)
  show ?thesis
    unfolding rtnc_modem_profile_rate_def frame_symbols_def Let_def sz ok if_False rate_guard
    using True by blast
next
  case False
  then show ?thesis by (cases fec_mode) (auto simp: rtnc_modem_profile_rate_def)
qed

lemma interface_rate_bound:
  assumes valid: "rtnc_phy_profile_is_valid p" and c: "c = 64 \<or> c = (128 :: nat)" and f: "fec_mode \<noteq> FEC_LDPC_FAST"
  shows "(c - 1) * 8 * unat (pp_sample_rate_hz p) div
      (frame_symbols p fec_mode c * unat (pp_samples_per_symbol p)) \<le>
    (let raw = unat (pp_symbol_rate_baud p) * unat (pp_bits_per_symbol p)
     in if fec_mode = FEC_LDPC_ROBUST then raw div 2 else if fec_mode = FEC_LDPC_NORMAL then raw * 2 div 3 else raw)"
proof -
  let ?baud = "unat (pp_symbol_rate_baud p)" and ?sps = "unat (pp_samples_per_symbol p)"
    and ?b = "unat (pp_bits_per_symbol p)" and ?n = "frame_symbols p fec_mode c"
    and ?e = "rtnc_fec_encoded_size fec_mode (c + 3)"
  note v = valid_profile_period [OF valid]
  have b: "0 < ?b" using valid_profile_bits [OF valid] bits_of_modulation_range(1) [of "pp_modulation p"] by linarith
  have sr: "unat (pp_sample_rate_hz p) = ?baud * ?sps" using v(1) by (simp add: mult.commute)
  have "(c - 1) * 8 * (?baud * ?sps) div (?n * ?sps) = (c - 1) * 8 * ?baud div ?n"
    using v(2) div_mult2_eq' by (simp add: mult.assoc [symmetric])
  then have q: "(c - 1) * 8 * unat (pp_sample_rate_hz p) div (?n * ?sps) = (c - 1) * 8 * ?baud div ?n" unfolding sr .
  have n: "?e * 8 \<le> ?n * ?b" using symbol_count_bounds(1) [OF b, of ?e] by (simp add: frame_symbols_def add_mult_distrib)
  have n0: "0 < ?n" by (simp add: frame_symbols_def)
  let ?x = "(c - 1) * 8 * ?baud div ?n"
  have "?x * ?n \<le> (c - 1) * 8 * ?baud" by simp
  then have "?x * ?n * ?b \<le> (c - 1) * 8 * ?baud * ?b" by (rule mult_le_mono1)
  moreover have "?x * (?e * 8) \<le> ?x * (?n * ?b)" using n by (rule mult_le_mono2)
  ultimately have "?x * (?e * 8) \<le> (c - 1) * 8 * (?baud * ?b)" by (simp only: mult.assoc)
  then have "8 * (?x * ?e) \<le> 8 * ((c - 1) * (?baud * ?b))" by (simp only: ac_simps)
  then have k: "?x * ?e \<le> (c - 1) * (?baud * ?b)" by linarith
  have e: "?e = (if fec_mode = FEC_NONE then c + 3 else if fec_mode = FEC_LDPC_ROBUST then (if c = 64 then 144 else 272)
     else (if c = 64 then 108 else 204))" by (rule encoded_size_class [OF c f])
  define raw where "raw = ?baud * ?b"
  have "?x \<le> (if fec_mode = FEC_LDPC_ROBUST then raw div 2 else if fec_mode = FEC_LDPC_NORMAL then raw * 2 div 3 else raw)"
    using k c f unfolding raw_def [symmetric] e by (cases fec_mode) auto
  then show ?thesis unfolding q raw_def Let_def .
qed

text \<open>
  C35: the rates of a profile.  They are computed exactly when the class and the FEC mode are supported
  and a full frame, training and trailer included, fits the 90000-sample buffer (the 32-bit tests never
  fail).  The interface rate is at most the FEC rate, which is at most the raw rate, and it is the
  largest whole number of bits per second that one frame's data can sustain over its own airtime.
\<close>

theorem modem_rate_exact:
  assumes "rtnc_phy_profile_is_valid p" and "cls = 64 \<or> cls = 128" and "fec_mode \<noteq> FEC_LDPC_FAST"
  shows "(case rtnc_modem_profile_rate p fec_mode cls of
      None \<Rightarrow> 90000 < frame_symbols p fec_mode (unat cls) * unat (pp_samples_per_symbol p)
    | Some r \<Rightarrow>
        mr_frame_samples r = frame_symbols p fec_mode (unat cls) * unat (pp_samples_per_symbol p) \<and>
        mr_frame_samples r \<le> 90000 \<and>
        mr_interface_bitrate_bps r \<le> mr_fec_bitrate_bps r \<and> mr_fec_bitrate_bps r \<le> mr_raw_bitrate_bps r \<and>
        unat (mr_raw_bitrate_bps r) = unat (pp_symbol_rate_baud p) * unat (pp_bits_per_symbol p) \<and>
        unat (mr_interface_bitrate_bps r) * mr_frame_samples r \<le> (unat cls - 1) * 8 * unat (pp_sample_rate_hz p) \<and>
        (unat cls - 1) * 8 * unat (pp_sample_rate_hz p) < Suc (unat (mr_interface_bitrate_bps r)) * mr_frame_samples r)"
proof -
  let ?n = "frame_symbols p fec_mode (unat cls)" and ?sps = "unat (pp_samples_per_symbol p)"
  let ?raw = "unat (pp_symbol_rate_baud p) * unat (pp_bits_per_symbol p)"
  let ?fec = "if fec_mode = FEC_LDPC_ROBUST then ?raw div 2 else if fec_mode = FEC_LDPC_NORMAL then ?raw * 2 div 3 else ?raw"
  let ?data = "(unat cls - 1) * 8 * unat (pp_sample_rate_hz p)"
  let ?if = "?data div (?n * ?sps)"
  note v = valid_profile_period [OF assms(1)]
  have c: "unat cls = 64 \<or> unat cls = 128" using assms(2) by auto
  have ord: "?if \<le> ?fec" "?fec \<le> ?raw"
    using interface_rate_bound [OF assms(1) c assms(3)] by (auto simp: Let_def)
  have bits: "unat (pp_bits_per_symbol p) \<le> 4"
    using valid_profile_bits [OF assms(1)] bits_of_modulation_range(2) [of "pp_modulation p"] by simp
  have "20 * unat (pp_symbol_rate_baud p) \<le> unat (pp_sample_rate_hz p)"
    using mult_le_mono1 [OF v(2), of "unat (pp_symbol_rate_baud p)"] v(1) by simp
  then have "20 * ?raw \<le> unat (pp_sample_rate_hz p) * 4"
    using mult_le_mono [OF _ bits, of "20 * unat (pp_symbol_rate_baud p)"] by (simp only: mult.assoc)
  then have raw: "?raw < 4294967296" using unat_u32_lt [of "pp_sample_rate_hz p"] by linarith
  have pos: "0 < ?n * ?sps" using v(2) by (simp add: frame_symbols_def)
  have div: "?if * (?n * ?sps) \<le> ?data" "?data < Suc ?if * (?n * ?sps)"
    using dividend_less_div_times [OF pos, of ?data] by simp_all
  show ?thesis
  proof (cases "?n * ?sps \<le> 90000")
    case True
    let ?r = "\<lparr> mr_raw_bitrate_bps = of_nat ?raw, mr_fec_bitrate_bps = of_nat ?fec,
              mr_interface_bitrate_bps = of_nat ?if, mr_frame_samples = ?n * ?sps \<rparr>"
    have small: "?fec < 4294967296" "?if < 4294967296" using raw ord by linarith+
    have r: "rtnc_modem_profile_rate p fec_mode cls = Some ?r"
      unfolding profile_rate_cases Let_def using assms True raw small by simp
    have le: "of_nat ?if \<le> (of_nat ?fec :: u32)" "of_nat ?fec \<le> (of_nat ?raw :: u32)"
      unfolding word_le_nat_alt using raw small ord by (simp_all only: unat_of_nat_u32)
    show ?thesis unfolding r option.case rtnc_modem_rate.simps
      using True le raw small div by (simp only: unat_of_nat_u32)
  next
    case False
    then have "rtnc_modem_profile_rate p fec_mode cls = None"
      using profile_rate_cases [of p fec_mode cls] by (metis not_Some_eq)
    with False show ?thesis by simp
  qed
qed

theorem modem_rate_exact_witness:
  "rtnc_modem_profile_rate rtnc_phy_profile_qpsk_1200 FEC_LDPC_NORMAL 128 =
     Some \<lparr> mr_raw_bitrate_bps = 2400, mr_fec_bitrate_bps = 1600, mr_interface_bitrate_bps = 1313, mr_frame_samples = 37120 \<rparr>"
proof -
  have valid: "rtnc_phy_profile_is_valid rtnc_phy_profile_qpsk_1200"
    by (simp add: rtnc_phy_profile_is_valid_def rtnc_phy_profile_qpsk_1200_def)
  from modem_rate_exact [OF valid, of 128 FEC_LDPC_NORMAL] valid show ?thesis
    by (simp add: rtnc_modem_profile_rate_def rtnc_phy_profile_qpsk_1200_def symbol_count_def rtnc_fec_encoded_size_def)
qed

end
