(* ===== verification/Liquid.thy ===== *)
theory Liquid
  imports Fp
begin

text \<open>
  The part of LiquidDSP (an external library) that the physical layer calls, as a parameter of the model:
  a record of functions over one type \<open>'d\<close> of library objects.  A pointer to an object is \<open>'d option\<close>
  (\<open>None\<close> is \<^verbatim>\<open>NULL\<close>).  A call that changes an object returns it; where the library returns an
  error code the result starts with a flag that is true for \<^verbatim>\<open>LIQUID_OK\<close>.  Sample values are exact
  \<open>complex\<close> and \<open>real\<close> numbers, configuration scalars are \<open>fp\<close>.  Nothing is assumed about these functions
  here; a theorem that relies on the library's documented behaviour names it as a hypothesis.
\<close>

datatype modulation_scheme = LIQUID_MODEM_BPSK | LIQUID_MODEM_QPSK | LIQUID_MODEM_PSK8 | LIQUID_MODEM_PSK16

record 'd liquid =
  modemcf_create :: "modulation_scheme \<Rightarrow> 'd option"
  modemcf_modulate :: "'d \<Rightarrow> nat \<Rightarrow> bool \<times> 'd \<times> complex"
  modemcf_demodulate_soft :: "'d \<Rightarrow> complex \<Rightarrow> bool \<times> 'd \<times> nat \<times> u8 list"
    \<comment> \<open>the hard symbol and the soft bits\<close>
  modemcf_get_demodulator_evm :: "'d \<Rightarrow> real"
  nco_crcf_create :: "'d option"
  nco_crcf_set_frequency :: "'d \<Rightarrow> fp \<Rightarrow> 'd"
  nco_crcf_set_phase :: "'d \<Rightarrow> fp \<Rightarrow> 'd"
  nco_crcf_reset :: "'d \<Rightarrow> 'd"
  nco_crcf_step :: "'d \<Rightarrow> 'd"
  nco_crcf_mix_up :: "'d \<Rightarrow> complex \<Rightarrow> bool \<times> complex"
  nco_crcf_mix_down :: "'d \<Rightarrow> complex \<Rightarrow> bool \<times> complex"
  firinterp_crcf_create_prototype :: "nat \<Rightarrow> nat \<Rightarrow> fp \<Rightarrow> 'd option"
  firinterp_crcf_set_scale :: "'d \<Rightarrow> real \<Rightarrow> 'd"
  firinterp_crcf_reset :: "'d \<Rightarrow> 'd"
  firinterp_crcf_execute :: "'d \<Rightarrow> complex \<Rightarrow> bool \<times> 'd \<times> complex list"
  firfilt_crcf_create_rnyquist :: "nat \<Rightarrow> nat \<Rightarrow> fp \<Rightarrow> 'd option"
  firfilt_crcf_reset :: "'d \<Rightarrow> 'd"
  firfilt_crcf_execute_one :: "'d \<Rightarrow> complex \<Rightarrow> bool \<times> 'd \<times> complex"
  symsync_crcf_create_rnyquist :: "nat \<Rightarrow> nat \<Rightarrow> fp \<Rightarrow> nat \<Rightarrow> 'd option"
  symsync_crcf_set_output_rate :: "'d \<Rightarrow> nat \<Rightarrow> bool \<times> 'd"
  symsync_crcf_set_lf_bw :: "'d \<Rightarrow> fp \<Rightarrow> 'd"
  symsync_crcf_reset :: "'d \<Rightarrow> 'd"
  symsync_crcf_execute :: "'d \<Rightarrow> complex \<Rightarrow> bool \<times> 'd \<times> complex list"
  symsync_crcf_get_tau :: "'d \<Rightarrow> real"
  eqrls_cccf_create :: "nat \<Rightarrow> 'd option"
  eqrls_cccf_set_bw :: "'d \<Rightarrow> fp \<Rightarrow> bool \<times> 'd"
  eqrls_cccf_reset :: "'d \<Rightarrow> 'd"
  eqrls_cccf_push :: "'d \<Rightarrow> complex \<Rightarrow> bool \<times> 'd"
  eqrls_cccf_execute :: "'d \<Rightarrow> bool \<times> 'd \<times> complex"
  eqrls_cccf_step :: "'d \<Rightarrow> complex \<Rightarrow> complex \<Rightarrow> bool \<times> 'd"
  eqrls_cccf_get_weights :: "'d \<Rightarrow> bool \<times> complex list"

end
