(* ===== verification/PhyBlocks.thy ===== *)
theory PhyBlocks
  imports Liquid Profile
begin

text \<open>
  The physical-layer blocks that wrap LiquidDSP objects: the PSK mapper (\<^verbatim>\<open>phy/psk.c\<close>), the
  root-raised-cosine pair (\<^verbatim>\<open>phy/rrc.c\<close>), the carrier mixer (\<^verbatim>\<open>phy/carrier.c\<close>), the symbol
  synchronizer (\<^verbatim>\<open>phy/timing.c\<close>) and the adaptive equalizer (\<^verbatim>\<open>phy/equalizer.c\<close>).  Each block is a
  record of object pointers and settings; each function takes the library \<open>L\<close> and the block and returns
  its flag, the block and what it writes.  Where a function fails before it writes its outputs the result
  is \<open>None\<close> together with the block.
\<close>

section \<open>PSK mapper\<close>

record 'd rtnc_psk =
  ps_modulator :: "'d option"
  ps_demodulator :: "'d option"
  ps_bits_per_symbol :: u8

definition psk_scheme :: "rtnc_modulation \<Rightarrow> (modulation_scheme \<times> u8) option" where
  "psk_scheme modulation =
    (if modulation = RTNC_MODULATION_BPSK then Some (LIQUID_MODEM_BPSK, 1)
     else if modulation = RTNC_MODULATION_QPSK then Some (LIQUID_MODEM_QPSK, 2)
     else if modulation = RTNC_MODULATION_8PSK then Some (LIQUID_MODEM_PSK8, 3)
     else if modulation = RTNC_MODULATION_16PSK then Some (LIQUID_MODEM_PSK16, 4)
     else None)"

definition rtnc_psk_deinit :: "'d rtnc_psk \<Rightarrow> 'd rtnc_psk" where
  \<comment> \<open>the objects are destroyed and forgotten\<close>
  "rtnc_psk_deinit psk = psk \<lparr> ps_modulator := None, ps_demodulator := None, ps_bits_per_symbol := 0 \<rparr>"

definition rtnc_psk_init :: "'d liquid \<Rightarrow> 'd rtnc_psk \<Rightarrow> rtnc_modulation \<Rightarrow> bool \<times> 'd rtnc_psk" where
  "rtnc_psk_init L psk modulation =
    (case psk_scheme modulation of
       None \<Rightarrow> (False, psk)
     | Some (scheme, bits) \<Rightarrow>
         let psk = psk \<lparr> ps_bits_per_symbol := bits, ps_modulator := modemcf_create L scheme,
                   ps_demodulator := modemcf_create L scheme \<rparr>
         in if ps_modulator psk = None \<or> ps_demodulator psk = None
            then (False, rtnc_psk_deinit psk) else (True, psk))"

definition rtnc_psk_map :: "'d liquid \<Rightarrow> 'd rtnc_psk \<Rightarrow> u8 \<Rightarrow> complex option \<times> 'd rtnc_psk" where
  "rtnc_psk_map L psk symbol =
    (case ps_modulator psk of
       None \<Rightarrow> (None, psk)
     | Some modulator \<Rightarrow>
         if unat symbol < 2 ^ unat (ps_bits_per_symbol psk)
         then let (ok, modulator, sample) = modemcf_modulate L modulator (unat symbol)
              in (if ok then Some sample else None, psk \<lparr> ps_modulator := Some modulator \<rparr>)
         else (None, psk))"

definition rtnc_psk_demap_soft ::
    "'d liquid \<Rightarrow> 'd rtnc_psk \<Rightarrow> complex \<Rightarrow> (u8 \<times> fp list \<times> real) option \<times> 'd rtnc_psk" where
  \<comment> \<open>the hard symbol, the first \<^verbatim>\<open>bits_per_symbol\<close> entries of \<^verbatim>\<open>llr\<close>, and the error vector magnitude;
      the library writes the soft bits into four bytes that were zero\<close>
  "rtnc_psk_demap_soft L psk sample =
    (case ps_demodulator psk of
       None \<Rightarrow> (None, psk)
     | Some demodulator \<Rightarrow>
         let (ok, demodulator, hard_symbol, soft) = modemcf_demodulate_soft L demodulator sample;
             psk = psk \<lparr> ps_demodulator := Some demodulator \<rparr>
         in if \<not> ok then (None, psk)
            else let soft_bits = buf_write (replicate 4 0) 0 (take 4 soft);
                     llr = map (\<lambda>b. Fin ((127.5 - real (unat (soft_bits ! b))) / 127.5))
                             [0..<unat (ps_bits_per_symbol psk)]
                 in (Some (of_nat hard_symbol, llr, modemcf_get_demodulator_evm L demodulator), psk))"

section \<open>Root-raised-cosine filters\<close>

record 'd rtnc_rrc =
  rrc_interpolator :: "'d option"
  rrc_matched_filter :: "'d option"
  rrc_samples_per_symbol :: u16
  rrc_delay_symbols :: u16

definition rtnc_rrc_deinit :: "'d rtnc_rrc \<Rightarrow> 'd rtnc_rrc" where
  "rtnc_rrc_deinit rrc = rrc \<lparr> rrc_interpolator := None, rrc_matched_filter := None,
     rrc_samples_per_symbol := 0, rrc_delay_symbols := 0 \<rparr>"

definition rtnc_rrc_init :: "'d liquid \<Rightarrow> 'd rtnc_rrc \<Rightarrow> u16 \<Rightarrow> u16 \<Rightarrow> fp \<Rightarrow> bool \<times> 'd rtnc_rrc" where
  "rtnc_rrc_init L rrc samples_per_symbol delay_symbols rolloff =
    (if samples_per_symbol < 2 \<or> delay_symbols = 0 \<or> rolloff \<le> 0 \<or> rolloff > 1 then (False, rrc)
     else
       let rrc = rrc
             \<lparr> rrc_interpolator :=
                 firinterp_crcf_create_prototype L (unat samples_per_symbol) (unat delay_symbols) rolloff,
               rrc_matched_filter :=
                 firfilt_crcf_create_rnyquist L (unat samples_per_symbol) (unat delay_symbols) rolloff,
               rrc_samples_per_symbol := samples_per_symbol, rrc_delay_symbols := delay_symbols \<rparr>
       in case (rrc_interpolator rrc, rrc_matched_filter rrc) of
            (Some interpolator, Some _) \<Rightarrow>
              (True, rrc \<lparr> rrc_interpolator :=
                 Some (firinterp_crcf_set_scale L interpolator (sqrt (real (unat samples_per_symbol)))) \<rparr>)
          | _ \<Rightarrow> (False, rtnc_rrc_deinit rrc))"

definition rtnc_rrc_reset :: "'d liquid \<Rightarrow> 'd rtnc_rrc \<Rightarrow> 'd rtnc_rrc" where
  "rtnc_rrc_reset L rrc = rrc
     \<lparr> rrc_interpolator := map_option (firinterp_crcf_reset L) (rrc_interpolator rrc),
       rrc_matched_filter := map_option (firfilt_crcf_reset L) (rrc_matched_filter rrc) \<rparr>"

definition rtnc_rrc_interpolate ::
    "'d liquid \<Rightarrow> 'd rtnc_rrc \<Rightarrow> complex \<Rightarrow> complex list option \<times> 'd rtnc_rrc" where
  "rtnc_rrc_interpolate L rrc symbol =
    (case rrc_interpolator rrc of
       None \<Rightarrow> (None, rrc)
     | Some interpolator \<Rightarrow>
         let (ok, interpolator, samples) = firinterp_crcf_execute L interpolator symbol
         in (if ok then Some samples else None, rrc \<lparr> rrc_interpolator := Some interpolator \<rparr>))"

definition rtnc_rrc_match ::
    "'d liquid \<Rightarrow> 'd rtnc_rrc \<Rightarrow> complex \<Rightarrow> complex option \<times> 'd rtnc_rrc" where
  "rtnc_rrc_match L rrc sample =
    (case rrc_matched_filter rrc of
       None \<Rightarrow> (None, rrc)
     | Some matched_filter \<Rightarrow>
         let (ok, matched_filter, filtered) = firfilt_crcf_execute_one L matched_filter sample
         in (if ok then Some filtered else None, rrc \<lparr> rrc_matched_filter := Some matched_filter \<rparr>))"

section \<open>Carrier\<close>

record 'd rtnc_carrier =
  ca_tx_nco :: "'d option"
  ca_rx_nco :: "'d option"
  ca_tx_radians_per_sample :: fp
  ca_rx_radians_per_sample :: fp
  ca_tx_initial_phase :: fp
  ca_sample_rate_hz :: u32

definition rtnc_carrier_deinit :: "'d rtnc_carrier \<Rightarrow> 'd rtnc_carrier" where
  "rtnc_carrier_deinit carrier = carrier
     \<lparr> ca_tx_nco := None, ca_rx_nco := None, ca_tx_radians_per_sample := 0, ca_rx_radians_per_sample := 0,
       ca_tx_initial_phase := 0, ca_sample_rate_hz := 0 \<rparr>"

definition rtnc_carrier_init ::
    "'d liquid \<Rightarrow> 'd rtnc_carrier \<Rightarrow> u32 \<Rightarrow> fp \<Rightarrow> bool \<times> 'd rtnc_carrier" where
  "rtnc_carrier_init L carrier sample_rate_hz carrier_hz =
    (if sample_rate_hz = 0 \<or> carrier_hz \<le> 0 \<or> carrier_hz \<ge> Fin (1 / 2) * Fin (real (unat sample_rate_hz))
     then (False, carrier)
     else
       let carrier = carrier \<lparr> ca_tx_nco := nco_crcf_create L, ca_rx_nco := nco_crcf_create L \<rparr>
       in case (ca_tx_nco carrier, ca_rx_nco carrier) of
            (Some tx_nco, Some rx_nco) \<Rightarrow>
              let radians_per_sample = Fin 2 * Fin pi * carrier_hz / Fin (real (unat sample_rate_hz))
              in (True, carrier
                   \<lparr> ca_tx_radians_per_sample := radians_per_sample,
                     ca_rx_radians_per_sample := radians_per_sample,
                     ca_tx_initial_phase := 0, ca_sample_rate_hz := sample_rate_hz,
                     ca_tx_nco := Some (nco_crcf_set_frequency L tx_nco radians_per_sample),
                     ca_rx_nco := Some (nco_crcf_set_frequency L rx_nco radians_per_sample) \<rparr>)
          | _ \<Rightarrow> (False, rtnc_carrier_deinit carrier))"

definition rtnc_carrier_reset :: "'d liquid \<Rightarrow> 'd rtnc_carrier \<Rightarrow> 'd rtnc_carrier" where
  "rtnc_carrier_reset L carrier = carrier
     \<lparr> ca_tx_nco := map_option (\<lambda>nco. nco_crcf_set_phase L
           (nco_crcf_set_frequency L (nco_crcf_reset L nco) (ca_tx_radians_per_sample carrier))
           (ca_tx_initial_phase carrier)) (ca_tx_nco carrier),
       ca_rx_nco := map_option (\<lambda>nco.
           nco_crcf_set_frequency L (nco_crcf_reset L nco) (ca_rx_radians_per_sample carrier))
           (ca_rx_nco carrier) \<rparr>"

definition rtnc_carrier_set_tx_frequency_offset :: "'d rtnc_carrier \<Rightarrow> fp \<Rightarrow> bool \<times> 'd rtnc_carrier" where
  "rtnc_carrier_set_tx_frequency_offset carrier offset_hz =
    (if ca_tx_nco carrier = None \<or> ca_sample_rate_hz carrier = 0 then (False, carrier)
     else (True, carrier \<lparr> ca_tx_radians_per_sample := ca_rx_radians_per_sample carrier +
             Fin 2 * Fin pi * offset_hz / Fin (real (unat (ca_sample_rate_hz carrier))) \<rparr>))"

definition rtnc_carrier_set_tx_phase :: "'d rtnc_carrier \<Rightarrow> fp \<Rightarrow> bool \<times> 'd rtnc_carrier" where
  "rtnc_carrier_set_tx_phase carrier phase_radians =
    (if ca_tx_nco carrier = None \<or> \<not> isfinite phase_radians then (False, carrier)
     else (True, carrier \<lparr> ca_tx_initial_phase := phase_radians \<rparr>))"

definition rtnc_carrier_upconvert ::
    "'d liquid \<Rightarrow> 'd rtnc_carrier \<Rightarrow> complex \<Rightarrow> real option \<times> 'd rtnc_carrier" where
  "rtnc_carrier_upconvert L carrier baseband =
    (case ca_tx_nco carrier of
       None \<Rightarrow> (None, carrier)
     | Some tx_nco \<Rightarrow>
         let (ok, passband) = nco_crcf_mix_up L tx_nco baseband
         in if \<not> ok then (None, carrier)
            else (Some (Re passband), carrier \<lparr> ca_tx_nco := Some (nco_crcf_step L tx_nco) \<rparr>))"

definition rtnc_carrier_downconvert ::
    "'d liquid \<Rightarrow> 'd rtnc_carrier \<Rightarrow> real \<Rightarrow> complex option \<times> 'd rtnc_carrier" where
  "rtnc_carrier_downconvert L carrier audio =
    (case ca_rx_nco carrier of
       None \<Rightarrow> (None, carrier)
     | Some rx_nco \<Rightarrow>
         let (ok, baseband) = nco_crcf_mix_down L rx_nco (complex_of_real audio)
         in if \<not> ok then (None, carrier)
            else (Some (baseband * 2), carrier \<lparr> ca_rx_nco := Some (nco_crcf_step L rx_nco) \<rparr>))"

section \<open>Symbol timing\<close>

record 'd rtnc_timing =
  ti_synchronizer :: "'d option"

definition rtnc_timing_init ::
    "'d liquid \<Rightarrow> 'd rtnc_timing \<Rightarrow> u16 \<Rightarrow> u16 \<Rightarrow> fp \<Rightarrow> fp \<Rightarrow> bool \<times> 'd rtnc_timing" where
  "rtnc_timing_init L timing samples_per_symbol delay_symbols rolloff loop_bandwidth =
    (if samples_per_symbol < 2 \<or> delay_symbols = 0 \<or> rolloff \<le> 0 \<or> rolloff > 1 \<or>
        loop_bandwidth < 0 \<or> loop_bandwidth > 1 then (False, timing)
     else
       case symsync_crcf_create_rnyquist L (unat samples_per_symbol) (unat delay_symbols) rolloff 32 of
         None \<Rightarrow> (False, timing \<lparr> ti_synchronizer := None \<rparr>)
       | Some synchronizer \<Rightarrow>
           (True, timing \<lparr> ti_synchronizer := Some (symsync_crcf_set_lf_bw L
              (snd (symsync_crcf_set_output_rate L synchronizer 1)) loop_bandwidth) \<rparr>))"

definition rtnc_timing_deinit :: "'d rtnc_timing \<Rightarrow> 'd rtnc_timing" where
  "rtnc_timing_deinit timing = timing \<lparr> ti_synchronizer := None \<rparr>"

definition rtnc_timing_reset :: "'d liquid \<Rightarrow> 'd rtnc_timing \<Rightarrow> 'd rtnc_timing" where
  "rtnc_timing_reset L timing =
    timing \<lparr> ti_synchronizer := map_option (symsync_crcf_reset L) (ti_synchronizer timing) \<rparr>"

definition rtnc_timing_set_output_rate :: "'d liquid \<Rightarrow> 'd rtnc_timing \<Rightarrow> u16 \<Rightarrow> bool \<times> 'd rtnc_timing" where
  "rtnc_timing_set_output_rate L timing samples_per_symbol =
    (case ti_synchronizer timing of
       None \<Rightarrow> (False, timing)
     | Some synchronizer \<Rightarrow>
         if samples_per_symbol = 0 \<or> samples_per_symbol > 4 then (False, timing)
         else let (ok, synchronizer) = symsync_crcf_set_output_rate L synchronizer (unat samples_per_symbol)
              in (ok, timing \<lparr> ti_synchronizer := Some synchronizer \<rparr>))"

definition rtnc_timing_execute ::
    "'d liquid \<Rightarrow> 'd rtnc_timing \<Rightarrow> complex \<Rightarrow> nat \<Rightarrow> complex list option \<times> 'd rtnc_timing" where
  \<comment> \<open>the recovered symbols; \<^verbatim>\<open>*symbol_count\<close> is their number\<close>
  "rtnc_timing_execute L timing sample capacity =
    (case ti_synchronizer timing of
       None \<Rightarrow> (None, timing)
     | Some synchronizer \<Rightarrow>
         let (ok, synchronizer, temporary) = symsync_crcf_execute L synchronizer sample
         in (if \<not> ok \<or> length temporary > 4 \<or> capacity < length temporary then None else Some temporary,
             timing \<lparr> ti_synchronizer := Some synchronizer \<rparr>))"

definition rtnc_timing_offset :: "'d liquid \<Rightarrow> 'd rtnc_timing \<Rightarrow> real" where
  "rtnc_timing_offset L timing =
    (case ti_synchronizer timing of None \<Rightarrow> 0 | Some synchronizer \<Rightarrow> symsync_crcf_get_tau L synchronizer)"

section \<open>Equalizer\<close>

record 'd rtnc_equalizer =
  eq_equalizer :: "'d option"
  eq_tap_count :: nat

definition rtnc_equalizer_deinit :: "'d rtnc_equalizer \<Rightarrow> 'd rtnc_equalizer" where
  "rtnc_equalizer_deinit equalizer = equalizer \<lparr> eq_equalizer := None, eq_tap_count := 0 \<rparr>"

definition rtnc_equalizer_init ::
    "'d liquid \<Rightarrow> 'd rtnc_equalizer \<Rightarrow> nat \<Rightarrow> fp \<Rightarrow> bool \<times> 'd rtnc_equalizer" where
  "rtnc_equalizer_init L equalizer tap_count forgetting_factor =
    (if tap_count < 3 \<or> tap_count > 63 \<or> even tap_count \<or> forgetting_factor \<le> 0 \<or> forgetting_factor > 1
     then (False, equalizer)
     else case eqrls_cccf_create L tap_count of
            None \<Rightarrow> (False, equalizer \<lparr> eq_equalizer := None \<rparr>)
          | Some created \<Rightarrow>
              let (ok, created) = eqrls_cccf_set_bw L created forgetting_factor;
                  equalizer = equalizer \<lparr> eq_equalizer := Some created \<rparr>
              in if \<not> ok then (False, rtnc_equalizer_deinit equalizer)
                 else (True, equalizer \<lparr> eq_tap_count := tap_count \<rparr>))"

definition rtnc_equalizer_reset :: "'d liquid \<Rightarrow> 'd rtnc_equalizer \<Rightarrow> 'd rtnc_equalizer" where
  "rtnc_equalizer_reset L equalizer =
    equalizer \<lparr> eq_equalizer := map_option (eqrls_cccf_reset L) (eq_equalizer equalizer) \<rparr>"

definition rtnc_equalizer_execute ::
    "'d liquid \<Rightarrow> 'd rtnc_equalizer \<Rightarrow> complex \<times> complex \<Rightarrow> bool \<Rightarrow> complex \<Rightarrow>
     (complex \<times> real) option \<times> 'd rtnc_equalizer" where
  \<comment> \<open>push both samples, execute, and train on the desired symbol\<close>
  "rtnc_equalizer_execute L equalizer samples training desired =
    (case eq_equalizer equalizer of
       None \<Rightarrow> (None, equalizer)
     | Some q0 \<Rightarrow>
         let (ok1, q1) = eqrls_cccf_push L q0 (fst samples)
         in if \<not> ok1 then (None, equalizer \<lparr> eq_equalizer := Some q1 \<rparr>) else
         let (ok2, q2) = eqrls_cccf_push L q1 (snd samples)
         in if \<not> ok2 then (None, equalizer \<lparr> eq_equalizer := Some q2 \<rparr>) else
         let (ok3, q3, output) = eqrls_cccf_execute L q2
         in if \<not> ok3 then (None, equalizer \<lparr> eq_equalizer := Some q3 \<rparr>) else
         let error_magnitude = cmod (desired - output)
         in if \<not> training then (Some (output, error_magnitude), equalizer \<lparr> eq_equalizer := Some q3 \<rparr>) else
         let (ok4, q4) = eqrls_cccf_step L q3 desired output
         in (if ok4 then Some (output, error_magnitude) else None, equalizer \<lparr> eq_equalizer := Some q4 \<rparr>))"

definition rtnc_equalizer_copy_taps :: "'d liquid \<Rightarrow> 'd rtnc_equalizer \<Rightarrow> nat \<Rightarrow> complex list option" where
  "rtnc_equalizer_copy_taps L equalizer capacity =
    (case eq_equalizer equalizer of
       None \<Rightarrow> None
     | Some q \<Rightarrow>
         if capacity < eq_tap_count equalizer then None
         else let (ok, weights) = eqrls_cccf_get_weights L q in if ok then Some weights else None)"

definition rtnc_equalizer_adapt ::
    "'d liquid \<Rightarrow> 'd rtnc_equalizer \<Rightarrow> complex \<Rightarrow> complex \<Rightarrow> bool \<times> 'd rtnc_equalizer" where
  "rtnc_equalizer_adapt L equalizer desired output =
    (case eq_equalizer equalizer of
       None \<Rightarrow> (False, equalizer)
     | Some q \<Rightarrow>
         let (ok, q) = eqrls_cccf_step L q desired output
         in (ok, equalizer \<lparr> eq_equalizer := Some q \<rparr>))"

end
