(* ===== verification/ModemTx.thy ===== *)
theory ModemTx
  imports PhyBlocks Frame Fec ModemTypes
begin

text \<open>
  The modem object (\<^verbatim>\<open>rtnc_modem_t\<close>) and its transmitter, the first third of \<^verbatim>\<open>modem/offline.c\<close>:
  construction with the training sequence, the packing of protected bytes into symbols and the audio
  waveform of a frame.  The caller's audio buffer is a list of its capacity updated in place; where a
  call fails halfway, the buffer and the DSP objects keep what was done.  Local arrays of the C code that
  are written before they are read start as zeros here.
\<close>

record 'd rtnc_modem =
  mo_profile :: rtnc_phy_profile
  mo_psk :: "'d rtnc_psk"
  mo_rrc :: "'d rtnc_rrc"
  mo_carrier :: "'d rtnc_carrier"
  mo_timing :: "'d rtnc_timing"
  mo_equalizer :: "'d rtnc_equalizer"
  mo_fec_mode :: fec_mode
  mo_payload_class_bytes :: u8
  mo_preamble :: rtnc_preamble
  mo_training :: "complex list"

section \<open>Construction\<close>

definition acquisition_symbols :: "u8 list" where
  "acquisition_symbols =
    [0, 3, 1, 1, 2, 0, 3, 2, 1, 0, 2, 3, 3, 0, 1, 2, 2, 1, 3, 0, 1, 3, 2, 2, 0, 1, 0, 3, 2, 3, 1, 0]"

definition control_acquisition_symbols :: "u8 list" where
  "control_acquisition_symbols =
    [3, 0, 2, 1, 0, 2, 2, 3, 1, 3, 0, 1, 2, 1, 0, 3, 0, 1, 3, 3, 2, 0, 1, 2, 3, 2, 1, 0, 1, 3, 2, 0]"

definition rtnc_modem_deinit :: "'d rtnc_modem \<Rightarrow> 'd rtnc_modem" where
  "rtnc_modem_deinit modem = modem
     \<lparr> mo_carrier := rtnc_carrier_deinit (mo_carrier modem), mo_timing := rtnc_timing_deinit (mo_timing modem),
       mo_equalizer := rtnc_equalizer_deinit (mo_equalizer modem), mo_rrc := rtnc_rrc_deinit (mo_rrc modem),
       mo_psk := rtnc_psk_deinit (mo_psk modem) \<rparr>"

definition blank_modem :: "rtnc_phy_profile \<Rightarrow> fec_mode \<Rightarrow> u8 \<Rightarrow> rtnc_preamble \<Rightarrow> 'd rtnc_modem" where
  \<comment> \<open>after the \<^verbatim>\<open>memset\<close> and the four assignments\<close>
  "blank_modem profile fec_mode payload_class_bytes preamble =
    \<lparr> mo_profile = profile,
      mo_psk = \<lparr> ps_modulator = None, ps_demodulator = None, ps_bits_per_symbol = 0 \<rparr>,
      mo_rrc = \<lparr> rrc_interpolator = None, rrc_matched_filter = None, rrc_samples_per_symbol = 0,
                 rrc_delay_symbols = 0 \<rparr>,
      mo_carrier = \<lparr> ca_tx_nco = None, ca_rx_nco = None, ca_tx_radians_per_sample = 0,
                     ca_rx_radians_per_sample = 0, ca_tx_initial_phase = 0, ca_sample_rate_hz = 0 \<rparr>,
      mo_timing = \<lparr> ti_synchronizer = None \<rparr>,
      mo_equalizer = \<lparr> eq_equalizer = None, eq_tap_count = 0 \<rparr>,
      mo_fec_mode = fec_mode, mo_payload_class_bytes = payload_class_bytes, mo_preamble = preamble,
      mo_training = replicate RTNC_MODEM_TRAINING_SYMBOLS 0 \<rparr>"

definition init_blocks :: "'d liquid \<Rightarrow> 'd rtnc_modem \<Rightarrow> bool \<times> 'd rtnc_modem" where
  \<comment> \<open>the chain of \<^verbatim>\<open>||\<close>: the first failure stops it\<close>
  "init_blocks L modem =
    (let profile = mo_profile modem;
         (ok, psk) = rtnc_psk_init L (mo_psk modem) (pp_modulation profile);
         modem = modem \<lparr> mo_psk := psk \<rparr>
     in if \<not> ok then (False, modem) else
     let (ok, rrc) = rtnc_rrc_init L (mo_rrc modem) (pp_samples_per_symbol profile)
           (of_nat RTNC_MODEM_RRC_DELAY_SYMBOLS) (pp_rrc_rolloff profile);
         modem = modem \<lparr> mo_rrc := rrc \<rparr>
     in if \<not> ok then (False, modem) else
     let (ok, timing) = rtnc_timing_init L (mo_timing modem) (pp_samples_per_symbol profile)
           (of_nat RTNC_MODEM_RRC_DELAY_SYMBOLS) (pp_rrc_rolloff profile) (Fin 0.03);
         modem = modem \<lparr> mo_timing := timing \<rparr>
     in if \<not> ok then (False, modem) else
     let (ok, equalizer) = rtnc_equalizer_init L (mo_equalizer modem) RTNC_MODEM_EQUALIZER_TAPS (Fin 0.95);
         modem = modem \<lparr> mo_equalizer := equalizer \<rparr>
     in if \<not> ok then (False, modem) else
     let (ok, carrier) = rtnc_carrier_init L (mo_carrier modem) (pp_sample_rate_hz profile) (pp_carrier_hz profile)
     in (ok, modem \<lparr> mo_carrier := carrier \<rparr>))"

definition training_value :: "rtnc_preamble \<Rightarrow> u8 \<Rightarrow> u32 \<Rightarrow> nat \<Rightarrow> u8 \<times> u32" where
  \<comment> \<open>the symbol of one index and the next state of the BPSK generator\<close>
  "training_value preamble bits_per_symbol bpsk_training_state index =
    (if bits_per_symbol = 1
     then let state = xorshift32 bpsk_training_state in (ucast (state AND 1), state)
     else if index < RTNC_MODEM_ACQUISITION_SYMBOLS
     then ((if preamble = RTNC_PREAMBLE_DATA then acquisition_symbols else control_acquisition_symbols) ! index
             * (bits_per_symbol - 1), bpsk_training_state)
     else (ucast (xorshift32 (of_nat index + 1) AND (push_bit (unat bits_per_symbol) 1 - 1)),
           bpsk_training_state))"

fun map_training ::
    "'d liquid \<Rightarrow> 'd rtnc_modem \<Rightarrow> u32 \<Rightarrow> nat list \<Rightarrow> bool \<times> 'd rtnc_modem" where
  "map_training L modem bpsk_training_state [] = (True, modem)"
| "map_training L modem bpsk_training_state (index # indices) =
    (let (value, state) = training_value (mo_preamble modem) (pp_bits_per_symbol (mo_profile modem))
           bpsk_training_state index;
         (mapped, psk) = rtnc_psk_map L (mo_psk modem) value;
         modem = modem \<lparr> mo_psk := psk \<rparr>
     in case mapped of
          None \<Rightarrow> (False, rtnc_modem_deinit modem)
        | Some sample \<Rightarrow> map_training L (modem \<lparr> mo_training := (mo_training modem)[index := sample] \<rparr>) state indices)"

definition modem_arguments_ok :: "rtnc_phy_profile \<Rightarrow> fec_mode \<Rightarrow> u8 \<Rightarrow> bool" where
  \<comment> \<open>the two tests before the object is touched\<close>
  "modem_arguments_ok profile fec_mode payload_class_bytes \<longleftrightarrow>
    \<not> (\<not> rtnc_phy_profile_is_valid profile \<or> (payload_class_bytes \<noteq> 64 \<and> payload_class_bytes \<noteq> 128) \<or>
       (fec_mode \<noteq> FEC_NONE \<and> fec_mode \<noteq> FEC_LDPC_ROBUST \<and> fec_mode \<noteq> FEC_LDPC_NORMAL)) \<and>
    \<not> (pp_modulation profile \<noteq> RTNC_MODULATION_BPSK \<and> pp_modulation profile \<noteq> RTNC_MODULATION_QPSK \<and>
       fec_mode = FEC_NONE)"

definition rtnc_modem_init_profile_preamble ::
    "'d liquid \<Rightarrow> 'd rtnc_modem \<Rightarrow> fec_mode \<Rightarrow> u8 \<Rightarrow> rtnc_phy_profile \<Rightarrow> rtnc_preamble \<Rightarrow> bool \<times> 'd rtnc_modem" where
  "rtnc_modem_init_profile_preamble L modem fec_mode payload_class_bytes profile preamble =
    (if \<not> modem_arguments_ok profile fec_mode payload_class_bytes then (False, modem)
     else
       let bpsk_training_state = (if preamble = RTNC_PREAMBLE_DATA then 0x9e3779b9 else 0x243f6a88);
           (ok, modem) = init_blocks L (blank_modem profile fec_mode payload_class_bytes preamble)
       in if \<not> ok then (False, rtnc_modem_deinit modem)
          else map_training L modem bpsk_training_state [0..<RTNC_MODEM_TRAINING_SYMBOLS])"

definition rtnc_modem_init_profile ::
    "'d liquid \<Rightarrow> 'd rtnc_modem \<Rightarrow> fec_mode \<Rightarrow> u8 \<Rightarrow> rtnc_phy_profile \<Rightarrow> bool \<times> 'd rtnc_modem" where
  "rtnc_modem_init_profile L modem fec_mode payload_class_bytes profile =
    rtnc_modem_init_profile_preamble L modem fec_mode payload_class_bytes profile RTNC_PREAMBLE_DATA"

definition rtnc_modem_init_config :: "'d liquid \<Rightarrow> 'd rtnc_modem \<Rightarrow> fec_mode \<Rightarrow> u8 \<Rightarrow> bool \<times> 'd rtnc_modem" where
  "rtnc_modem_init_config L modem fec_mode payload_class_bytes =
    rtnc_modem_init_profile L modem fec_mode payload_class_bytes rtnc_phy_profile_qpsk_1200"

definition rtnc_modem_init :: "'d liquid \<Rightarrow> 'd rtnc_modem \<Rightarrow> bool \<times> 'd rtnc_modem" where
  "rtnc_modem_init L modem = rtnc_modem_init_config L modem FEC_NONE (of_nat RTNC_FRAME_MAX_PAYLOAD)"

definition rtnc_modem_frame_samples :: "'d rtnc_modem \<Rightarrow> nat" where
  "rtnc_modem_frame_samples modem =
    (case rtnc_modem_profile_rate (mo_profile modem) (mo_fec_mode modem) (mo_payload_class_bytes modem) of
       None \<Rightarrow> 0 | Some rate \<Rightarrow> mr_frame_samples rate)"

section \<open>Transmission\<close>

definition read_symbol_bits :: "bytes \<Rightarrow> nat \<Rightarrow> nat \<Rightarrow> u8 \<Rightarrow> u8" where
  "read_symbol_bits data bit_count symbol_index bits_per_symbol =
    ucast (foldl (\<lambda>symbol b.
        let source_bit = symbol_index * unat bits_per_symbol + b;
            symbol = push_bit 1 symbol
        in if source_bit < bit_count
           then symbol OR (drop_bit (7 - source_bit mod 8) (ucast (data ! (source_bit div 8)) :: u32) AND 1)
           else symbol)
      (0 :: u32) [0..<unat bits_per_symbol])"

fun emit_samples ::
    "'d liquid \<Rightarrow> 'd rtnc_carrier \<Rightarrow> complex list \<Rightarrow> real list \<Rightarrow> nat \<Rightarrow> bool \<times> 'd rtnc_carrier \<times> real list \<times> nat" where
  "emit_samples L carrier [] audio write_index = (True, carrier, audio, write_index)"
| "emit_samples L carrier (shaped # rest) audio write_index =
    (case rtnc_carrier_upconvert L carrier shaped of
       (None, carrier) \<Rightarrow> (False, carrier, audio, write_index)
     | (Some sample, carrier) \<Rightarrow>
         emit_samples L carrier rest (audio[write_index := sample]) (write_index + 1))"

definition emit_symbol ::
    "'d liquid \<Rightarrow> 'd rtnc_modem \<Rightarrow> complex \<Rightarrow> real list \<Rightarrow> nat \<Rightarrow> bool \<times> 'd rtnc_modem \<times> real list \<times> nat" where
  \<comment> \<open>the interpolator fills the first \<^verbatim>\<open>samples_per_symbol\<close> entries of \<^verbatim>\<open>shaped\<close>\<close>
  "emit_symbol L modem symbol audio write_index =
    (if pp_samples_per_symbol (mo_profile modem) > 80 then (False, modem, audio, write_index)
     else case rtnc_rrc_interpolate L (mo_rrc modem) symbol of
            (None, rrc) \<Rightarrow> (False, modem \<lparr> mo_rrc := rrc \<rparr>, audio, write_index)
          | (Some shaped, rrc) \<Rightarrow>
              let (ok, carrier, audio, write_index) =
                    emit_samples L (mo_carrier modem)
                      (take (unat (pp_samples_per_symbol (mo_profile modem))) shaped) audio write_index
              in (ok, modem \<lparr> mo_rrc := rrc, mo_carrier := carrier \<rparr>, audio, write_index))"

fun emit_training ::
    "'d liquid \<Rightarrow> 'd rtnc_modem \<Rightarrow> complex list \<Rightarrow> real list \<Rightarrow> nat \<Rightarrow> bool \<times> 'd rtnc_modem \<times> real list \<times> nat" where
  \<comment> \<open>the loops over the training symbols and over the trailing zeros\<close>
  "emit_training L modem [] audio write_index = (True, modem, audio, write_index)"
| "emit_training L modem (symbol # symbols) audio write_index =
    (let (ok, modem, audio, write_index) = emit_symbol L modem symbol audio write_index
     in if \<not> ok then (False, modem, audio, write_index)
        else emit_training L modem symbols audio write_index)"

fun emit_payload ::
    "'d liquid \<Rightarrow> 'd rtnc_modem \<Rightarrow> bytes \<Rightarrow> nat \<Rightarrow> nat list \<Rightarrow> real list \<Rightarrow> nat \<Rightarrow>
     bool \<times> 'd rtnc_modem \<times> real list \<times> nat" where
  "emit_payload L modem fec_encoded fec_encoded_length [] audio write_index = (True, modem, audio, write_index)"
| "emit_payload L modem fec_encoded fec_encoded_length (index # indices) audio write_index =
    (let symbol = read_symbol_bits fec_encoded (fec_encoded_length * 8) index
           (pp_bits_per_symbol (mo_profile modem));
         (mapped, psk) = rtnc_psk_map L (mo_psk modem) symbol;
         modem = modem \<lparr> mo_psk := psk \<rparr>
     in case mapped of
          None \<Rightarrow> (False, modem, audio, write_index)
        | Some sample \<Rightarrow>
            (let (ok, modem, audio, write_index) = emit_symbol L modem sample audio write_index
             in if \<not> ok then (False, modem, audio, write_index)
                else emit_payload L modem fec_encoded fec_encoded_length indices audio write_index))"

definition protect_payload :: "fec_mode \<Rightarrow> u8 \<Rightarrow> bytes \<Rightarrow> (bytes \<times> nat) option" where
  \<comment> \<open>the frame, zero padded to the payload class when an LDPC mode follows, and its code bytes\<close>
  "protect_payload fec_mode payload_class_bytes payload =
    (if length payload = 0 \<or> length payload > unat payload_class_bytes then None
     else case rtnc_frame_build payload 131 of
            Inl _ \<Rightarrow> None
          | Inr frame \<Rightarrow>
              let protected_length = (if fec_mode = FEC_NONE then length frame
                    else RTNC_FRAME_HEADER_SIZE + unat payload_class_bytes + RTNC_FRAME_CRC_SIZE)
              in case rtnc_fec_encode fec_mode (take protected_length (buf_write (replicate 131 0) 0 frame))
                        (replicate RTNC_MODEM_MAX_FEC_BYTES 0) of
                   Inl _ \<Rightarrow> None
                 | Inr encoded \<Rightarrow> Some encoded)"

definition rtnc_modem_tx_audio ::
    "'d liquid \<Rightarrow> 'd rtnc_modem \<Rightarrow> bytes \<Rightarrow> real list \<Rightarrow>
     rtnc_modem_status \<times> 'd rtnc_modem \<times> real list \<times> nat option" where
  \<comment> \<open>the status, the modem, the audio buffer and what is stored through \<^verbatim>\<open>sample_count\<close>\<close>
  "rtnc_modem_tx_audio L modem payload audio =
    (case protect_payload (mo_fec_mode modem) (mo_payload_class_bytes modem) payload of
       None \<Rightarrow> (RTNC_MODEM_FRAME_REJECTED, modem, audio, None)
     | Some (fec_encoded, fec_encoded_length) \<Rightarrow>
         let payload_symbols = symbol_count fec_encoded_length (pp_bits_per_symbol (mo_profile modem));
             required_symbols = RTNC_MODEM_TRAINING_SYMBOLS + payload_symbols + RTNC_MODEM_TRAILING_SYMBOLS
         in if required_symbols * unat (pp_samples_per_symbol (mo_profile modem)) > length audio
            then (RTNC_MODEM_BUFFER_TOO_SMALL, modem, audio, None)
            else
              let modem = modem \<lparr> mo_rrc := rtnc_rrc_reset L (mo_rrc modem),
                    mo_carrier := rtnc_carrier_reset L (mo_carrier modem) \<rparr>;
                  (ok, modem, audio, write_index) = emit_training L modem (mo_training modem) audio 0
              in if \<not> ok then (RTNC_MODEM_DSP_ERROR, modem, audio, None) else
              let (ok, modem, audio, write_index) =
                    emit_payload L modem fec_encoded fec_encoded_length [0..<payload_symbols] audio write_index
              in if \<not> ok then (RTNC_MODEM_DSP_ERROR, modem, audio, None) else
              let (ok, modem, audio, write_index) =
                    emit_training L modem (replicate RTNC_MODEM_TRAILING_SYMBOLS 0) audio write_index
              in if \<not> ok then (RTNC_MODEM_DSP_ERROR, modem, audio, None)
                 else (RTNC_MODEM_OK, modem, audio, Some write_index))"

section \<open>What transmission writes\<close>

text \<open>
  \<open>writes n a w a' w'\<close>: a buffer changed only in the positions from \<open>w\<close> to \<open>w'\<close>, at most \<open>n\<close> of them.
\<close>

definition writes :: "nat \<Rightarrow> real list \<Rightarrow> nat \<Rightarrow> real list \<Rightarrow> nat \<Rightarrow> bool" where
  "writes n a w a' w' \<longleftrightarrow> length a' = length a \<and> w \<le> w' \<and> w' \<le> w + n \<and>
     (\<forall>i. i < w \<or> w' \<le> i \<longrightarrow> a' ! i = a ! i)"

lemma writes_refl [intro, simp]: "writes n a w a w"
  by (simp add: writes_def)

lemma writes_trans: "writes n a w a' w' \<Longrightarrow> writes m a' w' a'' w'' \<Longrightarrow> writes (n + m) a w a'' w''"
  by (auto simp: writes_def)

lemma writes_mono: "writes n a w a' w' \<Longrightarrow> n \<le> m \<Longrightarrow> writes m a w a' w'"
  by (auto simp: writes_def)

lemma writes_sample: "writes 1 a w (a[w := x]) (w + 1)"
  by (auto simp: writes_def)

definition same_settings :: "'d rtnc_modem \<Rightarrow> 'd rtnc_modem \<Rightarrow> bool" where
  \<comment> \<open>only the DSP objects may differ\<close>
  "same_settings m m' \<longleftrightarrow> mo_profile m' = mo_profile m \<and> mo_fec_mode m' = mo_fec_mode m \<and>
     mo_payload_class_bytes m' = mo_payload_class_bytes m \<and> mo_preamble m' = mo_preamble m \<and>
     mo_training m' = mo_training m"

lemma same_settings_refl [simp]: "same_settings m m"
  by (simp add: same_settings_def)

lemma same_settings_trans: "same_settings a b \<Longrightarrow> same_settings b c \<Longrightarrow> same_settings a c"
  by (simp add: same_settings_def)

lemma same_settings_update [simp]:
  "same_settings m (m' \<lparr> mo_psk := p \<rparr>) = same_settings m m'"
  "same_settings m (m' \<lparr> mo_rrc := r \<rparr>) = same_settings m m'"
  "same_settings m (m' \<lparr> mo_carrier := c \<rparr>) = same_settings m m'"
  "same_settings m (m' \<lparr> mo_timing := t \<rparr>) = same_settings m m'"
  "same_settings m (m' \<lparr> mo_equalizer := e \<rparr>) = same_settings m m'"
  "same_settings (m \<lparr> mo_psk := p \<rparr>) m' = same_settings m m'"
  "same_settings (m \<lparr> mo_rrc := r \<rparr>) m' = same_settings m m'"
  "same_settings (m \<lparr> mo_carrier := c \<rparr>) m' = same_settings m m'"
  "same_settings (m \<lparr> mo_timing := t \<rparr>) m' = same_settings m m'"
  "same_settings (m \<lparr> mo_equalizer := e \<rparr>) m' = same_settings m m'"
  by (simp_all add: same_settings_def)

text \<open>
  The interpolator's contract in LiquidDSP's documentation: one input symbol gives \<open>sps\<close> output samples.
  \<open>Q\<close> holds for the interpolator objects in use.
\<close>

definition interpolates :: "'d liquid \<Rightarrow> nat \<Rightarrow> ('d \<Rightarrow> bool) \<Rightarrow> bool" where
  "interpolates L sps Q \<longleftrightarrow> (\<forall>q x. Q q \<longrightarrow>
     (case firinterp_crcf_execute L q x of (ok, q', samples) \<Rightarrow> Q q' \<and> (ok \<longrightarrow> length samples = sps)) \<and>
     Q (firinterp_crcf_reset L q))"

definition interpolator_ready :: "'d liquid \<Rightarrow> 'd rtnc_modem \<Rightarrow> ('d \<Rightarrow> bool) \<Rightarrow> bool" where
  "interpolator_ready L m Q \<longleftrightarrow> interpolates L (unat (pp_samples_per_symbol (mo_profile m))) Q \<and>
     (\<forall>q. rrc_interpolator (mo_rrc m) = Some q \<longrightarrow> Q q)"

lemma interpolator_ready_update [simp]:
  "interpolator_ready L (m \<lparr> mo_carrier := c \<rparr>) Q = interpolator_ready L m Q"
  "interpolator_ready L (m \<lparr> mo_psk := p \<rparr>) Q = interpolator_ready L m Q"
  by (simp_all add: interpolator_ready_def)

lemma emit_samples_writes:
  assumes "emit_samples L c xs a w = (ok, c', a', w')"
  shows "writes (length xs) a w a' w' \<and> (ok \<longrightarrow> w' = w + length xs)"
  using assms
proof (induction xs arbitrary: c a w)
  case (Cons x xs)
  show ?case
  proof (cases "rtnc_carrier_upconvert L c x")
    case (Pair y c1)
    show ?thesis
    proof (cases y)
      case None
      with Cons.prems Pair show ?thesis by simp
    next
      case (Some s)
      with Cons.prems Pair have "emit_samples L c1 xs (a[w := s]) (w + 1) = (ok, c', a', w')" by simp
      from Cons.IH [OF this] writes_trans [OF writes_sample [of a w s], of "length xs" a' w'] show ?thesis by simp
    qed
  qed
qed simp

lemma emit_symbol_writes:
  assumes "emit_symbol L m x a w = (ok, m', a', w')"
  shows "writes (unat (pp_samples_per_symbol (mo_profile m))) a w a' w' \<and> same_settings m m' \<and>
    (interpolator_ready L m Q \<longrightarrow> interpolator_ready L m' Q \<and>
       (ok \<longrightarrow> w' = w + unat (pp_samples_per_symbol (mo_profile m))))"
proof (cases "pp_samples_per_symbol (mo_profile m) > 80")
  case True
  with assms show ?thesis by (simp add: emit_symbol_def)
next
  case False
  let ?sps = "unat (pp_samples_per_symbol (mo_profile m))"
  obtain y rrc where i: "rtnc_rrc_interpolate L (mo_rrc m) x = (y, rrc)" by fastforce
  have q: "interpolator_ready L m Q \<Longrightarrow> (\<forall>q. rrc_interpolator rrc = Some q \<longrightarrow> Q q) \<and>
      (\<forall>shaped. y = Some shaped \<longrightarrow> length shaped = ?sps)"
    using i unfolding interpolator_ready_def interpolates_def rtnc_rrc_interpolate_def
    by (auto split: option.splits prod.splits if_splits)
  have rdy: "interpolator_ready L (m \<lparr> mo_rrc := rrc \<rparr>) Q" if "interpolator_ready L m Q"
    using q [OF that] that unfolding interpolator_ready_def by simp
  show ?thesis
  proof (cases y)
    case None
    with assms False i have m: "m' = m \<lparr> mo_rrc := rrc \<rparr>" "a' = a" "w' = w" "\<not> ok"
      by (auto simp: emit_symbol_def)
    then show ?thesis using rdy by simp
  next
    case (Some shaped)
    obtain c' where e: "emit_samples L (mo_carrier m) (take ?sps shaped) a w = (ok, c', a', w')"
      "m' = m \<lparr> mo_rrc := rrc, mo_carrier := c' \<rparr>"
      using assms False i Some by (auto simp: emit_symbol_def split: prod.splits)
    from emit_samples_writes [OF e(1)] have "writes (length (take ?sps shaped)) a w a' w'"
      "ok \<longrightarrow> w' = w + length (take ?sps shaped)" by auto
    moreover from this(1) have "writes ?sps a w a' w'" by (rule writes_mono) simp
    ultimately show ?thesis using q Some rdy e(2) by auto
  qed
qed

lemma emit_training_writes:
  assumes "emit_training L m xs a w = (ok, m', a', w')"
  shows "writes (length xs * unat (pp_samples_per_symbol (mo_profile m))) a w a' w' \<and> same_settings m m' \<and>
    (interpolator_ready L m Q \<longrightarrow> interpolator_ready L m' Q \<and>
       (ok \<longrightarrow> w' = w + length xs * unat (pp_samples_per_symbol (mo_profile m))))"
  using assms
proof (induction xs arbitrary: m a w)
  case (Cons x xs)
  let ?sps = "unat (pp_samples_per_symbol (mo_profile m))"
  obtain ok1 m1 a1 w1 where s: "emit_symbol L m x a w = (ok1, m1, a1, w1)" by (metis prod_cases4)
  note e = emit_symbol_writes [OF s, of Q]
  then have p: "mo_profile m1 = mo_profile m" by (simp add: same_settings_def)
  show ?case
  proof (cases ok1)
    case False
    with Cons.prems s have "m' = m1" "a' = a1" "w' = w1" "\<not> ok" by auto
    with e show ?thesis by (auto intro: writes_mono)
  next
    case True
    with Cons.prems s have r: "emit_training L m1 xs a1 w1 = (ok, m', a', w')" by simp
    note ih = Cons.IH [OF r, unfolded p]
    have "writes (?sps + length xs * ?sps) a w a' w'" "same_settings m m'"
      using e ih writes_trans [of ?sps a w a1 w1 "length xs * ?sps" a' w'] same_settings_trans [of m m1 m'] by blast+
    then show ?thesis using e ih True by simp
  qed
qed simp

lemma emit_payload_writes:
  assumes "emit_payload L m d n is a w = (ok, m', a', w')"
  shows "writes (length is * unat (pp_samples_per_symbol (mo_profile m))) a w a' w' \<and> same_settings m m' \<and>
    (interpolator_ready L m Q \<longrightarrow> interpolator_ready L m' Q \<and>
       (ok \<longrightarrow> w' = w + length is * unat (pp_samples_per_symbol (mo_profile m))))"
  using assms
proof (induction "is" arbitrary: m a w)
  case (Cons i "is")
  let ?sps = "unat (pp_samples_per_symbol (mo_profile m))"
  obtain y psk where mp: "rtnc_psk_map L (mo_psk m) (read_symbol_bits d (n * 8) i (pp_bits_per_symbol (mo_profile m))) = (y, psk)"
    by fastforce
  let ?m = "m \<lparr> mo_psk := psk \<rparr>"
  show ?case
  proof (cases y)
    case None
    with Cons.prems mp show ?thesis by auto
  next
    case (Some sample)
    obtain ok1 m1 a1 w1 where s: "emit_symbol L ?m sample a w = (ok1, m1, a1, w1)" by (metis prod_cases4)
    note e = emit_symbol_writes [OF s, of Q, simplified]
    then have p: "mo_profile m1 = mo_profile m" by (simp add: same_settings_def)
    show ?thesis
    proof (cases ok1)
      case False
      with Cons.prems mp s Some have "m' = m1" "a' = a1" "w' = w1" "\<not> ok" by auto
      with e show ?thesis by (auto intro: writes_mono)
    next
      case True
      with Cons.prems mp s Some have r: "emit_payload L m1 d n is a1 w1 = (ok, m', a', w')" by simp
      note ih = Cons.IH [OF r, unfolded p]
      have "writes (?sps + length is * ?sps) a w a' w'" "same_settings m m'"
        using e ih writes_trans [of ?sps a w a1 w1 "length is * ?sps" a' w'] same_settings_trans [of m m1 m'] by blast+
      then show ?thesis using e ih True by simp
    qed
  qed
qed simp

lemma interpolator_ready_reset:
  "interpolator_ready L m Q \<Longrightarrow> interpolator_ready L (m \<lparr> mo_rrc := rtnc_rrc_reset L (mo_rrc m) \<rparr>) Q"
  by (auto simp: interpolator_ready_def rtnc_rrc_reset_def interpolates_def)

lemma fec_encode_size: "rtnc_fec_encode mode input buf = Inr (e, n) \<Longrightarrow> n = rtnc_fec_encoded_size mode (length input)"
  by (auto simp: rtnc_fec_encode_def rtnc_fec_encoded_size_def Let_def split: if_splits option.splits)

lemma protect_payload_size:
  assumes "protect_payload mode cls payload = Some (e, n)" and "cls = 64 \<or> cls = 128"
  shows "0 < length payload" "length payload \<le> unat cls"
    "n = (if mode = FEC_NONE then length payload + 3 else rtnc_fec_encoded_size mode (unat cls + 3))"
proof -
  from assms(1) show p: "0 < length payload" "length payload \<le> unat cls"
    by (auto simp: protect_payload_def split: if_splits)
  have c: "unat cls \<le> 128" using assms(2) by auto
  from assms(1) p obtain frame where f: "rtnc_frame_build payload 131 = Inr frame"
    "rtnc_fec_encode mode (take (if mode = FEC_NONE then length frame else unat cls + 3) (buf_write (replicate 131 0) 0 frame))
       (replicate 320 0) = Inr (e, n)"
    by (auto simp: protect_payload_def Let_def add.commute add.left_commute numeral_3_eq_3
        split: if_splits sum.splits)
  have len: "length frame = length payload + 3"
    using f(1) by (auto simp: rtnc_frame_build_def Let_def split: if_splits)
  have "length (buf_write (replicate 131 0) 0 frame) = 131" using len p c by (simp add: length_buf_write)
  with fec_encode_size [OF f(2)] len p c show
    "n = (if mode = FEC_NONE then length payload + 3 else rtnc_fec_encoded_size mode (unat cls + 3))"
    by (auto simp: rtnc_fec_encoded_size_def)
qed

lemma symbol_count_mono: "a \<le> b \<Longrightarrow> symbol_count a bps \<le> symbol_count b bps"
  by (auto simp: symbol_count_def intro: div_le_mono)

lemma frame_samples_bound:
  assumes "rtnc_modem_frame_samples m \<noteq> 0"
  shows "rtnc_modem_frame_samples m =
    frame_symbols (mo_profile m) (mo_fec_mode m) (unat (mo_payload_class_bytes m)) * unat (pp_samples_per_symbol (mo_profile m))"
  using assms unfolding rtnc_modem_frame_samples_def
  by (auto simp: profile_rate_cases Let_def split: option.splits)

text \<open>The three loops of a transmission, whatever the library answers.\<close>

lemma tx_loops:
  assumes t1: "emit_training L m0 xs audio 0 = (ok1, m1, a1, w1)"
    and t2: "emit_payload L m1 d n is a1 w1 = (ok2, m2, a2, w2)"
    and t3: "emit_training L m2 ys a2 w2 = (ok3, m3, a3, w3)"
    and rdy: "interpolator_ready L m0 Q"
  shows "length a1 = length audio \<and> same_settings m0 m1"
    "length a2 = length audio \<and> same_settings m0 m2"
    "length a3 = length audio \<and> same_settings m0 m3"
    "ok1 \<Longrightarrow> ok2 \<Longrightarrow> ok3 \<Longrightarrow>
     w3 = (length xs + length is + length ys) * unat (pp_samples_per_symbol (mo_profile m0)) \<and>
     (\<forall>i \<ge> w3. a3 ! i = audio ! i)"
proof -
  let ?sps = "unat (pp_samples_per_symbol (mo_profile m0))"
  note e1 = emit_training_writes [OF t1, of Q]
  then have p1: "mo_profile m1 = mo_profile m0" by (simp add: same_settings_def)
  note e2 = emit_payload_writes [OF t2, of Q, unfolded p1]
  then have p2: "mo_profile m2 = mo_profile m0" using p1 by (simp add: same_settings_def)
  note e3 = emit_training_writes [OF t3, of Q, unfolded p2]
  show "length a1 = length audio \<and> same_settings m0 m1" using e1 by (simp add: writes_def)
  then show two: "length a2 = length audio \<and> same_settings m0 m2"
    using e2 same_settings_trans [of m0 m1 m2] by (simp add: writes_def)
  then show "length a3 = length audio \<and> same_settings m0 m3"
    using e3 same_settings_trans [of m0 m2 m3] by (simp add: writes_def)
  assume ok: ok1 ok2 ok3
  then have w: "w1 = length xs * ?sps" "w2 = w1 + length is * ?sps" "w3 = w2 + length ys * ?sps"
    using e1 e2 e3 rdy by simp_all
  have "writes (length xs * ?sps + length is * ?sps + length ys * ?sps) audio 0 a3 w3"
    using e1 e2 e3 writes_trans by blast
  then show "w3 = (length xs + length is + length ys) * ?sps \<and> (\<forall>i \<ge> w3. a3 ! i = audio ! i)"
    using w by (simp add: writes_def add_mult_distrib)
qed

text \<open>
  C31: the transmitter's waveform.  On success it occupies exactly the first \<open>n\<close> samples of the caller's
  buffer, within its capacity, and \<open>n\<close> is one symbol period per training, payload and trailing symbol:
  with an LDPC mode the number \<open>rtnc_modem_frame_samples\<close> promises, without FEC no more than it.  Nothing
  beyond the waveform is touched, on any outcome the buffer keeps its length and the settings of the modem
  stay, and a failure stores no sample count.  The hypothesis on the library is that its interpolator
  produces one symbol period per input symbol.
\<close>

theorem modem_tx_exact:
  assumes "rtnc_modem_tx_audio L m payload audio = (status, m', audio', sent)"
    and "interpolator_ready L m Q" and "length (mo_training m) = RTNC_MODEM_TRAINING_SYMBOLS"
    and "modem_arguments_ok (mo_profile m) (mo_fec_mode m) (mo_payload_class_bytes m)"
  shows "length audio' = length audio \<and> same_settings m m' \<and>
    (case sent of
       None \<Rightarrow> status \<noteq> RTNC_MODEM_OK
     | Some n \<Rightarrow> status = RTNC_MODEM_OK \<and> n \<le> length audio \<and> drop n audio' = drop n audio \<and>
         n = (112 + symbol_count (if mo_fec_mode m = FEC_NONE then length payload + 3
                else rtnc_fec_encoded_size (mo_fec_mode m) (unat (mo_payload_class_bytes m) + 3))
              (pp_bits_per_symbol (mo_profile m))) * unat (pp_samples_per_symbol (mo_profile m)) \<and>
         (rtnc_modem_frame_samples m = 0 \<or> n \<le> rtnc_modem_frame_samples m \<and>
            (mo_fec_mode m = FEC_NONE \<or> n = rtnc_modem_frame_samples m)))"
proof (cases "protect_payload (mo_fec_mode m) (mo_payload_class_bytes m) payload")
  case None
  with assms(1) show ?thesis by (auto simp: rtnc_modem_tx_audio_def)
next
  case (Some en)
  obtain e n where en: "en = (e, n)" by (cases en)
  have args: "rtnc_phy_profile_is_valid (mo_profile m)" "mo_payload_class_bytes m = 64 \<or> mo_payload_class_bytes m = 128"
    "mo_fec_mode m \<noteq> FEC_LDPC_FAST"
    using assms(4) by (cases "mo_fec_mode m"; auto simp: modem_arguments_ok_def)+
  let ?sps = "unat (pp_samples_per_symbol (mo_profile m))"
  let ?symbols = "symbol_count n (pp_bits_per_symbol (mo_profile m))"
  note size = protect_payload_size [OF Some [unfolded en] args(2)]
  show ?thesis
  proof (cases "(112 + ?symbols) * ?sps > length audio")
    case True
    with assms(1) Some en show ?thesis by (auto simp: rtnc_modem_tx_audio_def add.commute)
  next
    case False
    let ?m0 = "m \<lparr> mo_rrc := rtnc_rrc_reset L (mo_rrc m), mo_carrier := rtnc_carrier_reset L (mo_carrier m) \<rparr>"
    have rdy: "interpolator_ready L ?m0 Q" using interpolator_ready_reset [OF assms(2)] by simp
    obtain ok1 m1 a1 w1 where t1: "emit_training L ?m0 (mo_training m) audio 0 = (ok1, m1, a1, w1)" by (metis prod_cases4)
    obtain ok2 m2 a2 w2 where t2: "emit_payload L m1 e n [0..<?symbols] a1 w1 = (ok2, m2, a2, w2)" by (metis prod_cases4)
    obtain ok3 m3 a3 w3 where t3: "emit_training L m2 (replicate 16 0) a2 w2 = (ok3, m3, a3, w3)" by (metis prod_cases4)
    note loops = tx_loops [OF t1 t2 t3 rdy, simplified]
    have run: "(status, m', audio', sent) =
      (if \<not> ok1 then (RTNC_MODEM_DSP_ERROR, m1, a1, None)
       else if \<not> ok2 then (RTNC_MODEM_DSP_ERROR, m2, a2, None)
       else if \<not> ok3 then (RTNC_MODEM_DSP_ERROR, m3, a3, None) else (RTNC_MODEM_OK, m3, a3, Some w3))"
      using assms(1) False t1 t2 t3 unfolding rtnc_modem_tx_audio_def Some en
      by (simp add: add.commute [of _ 16] split: if_splits)
    show ?thesis
    proof (cases "ok1 \<and> ok2 \<and> ok3")
      case False
      with run loops show ?thesis by (auto split: if_splits)
    next
      case True
      have w3: "w3 = (112 + ?symbols) * ?sps" "\<forall>i \<ge> w3. a3 ! i = audio ! i"
        using loops(4) True assms(3) by (simp_all add: add.commute)
      have drop: "drop w3 a3 = drop w3 audio" using loops(3) w3(2) by (auto intro: nth_equalityI)
      have "symbol_count n bps \<le> symbol_count (rtnc_fec_encoded_size (mo_fec_mode m) (unat (mo_payload_class_bytes m) + 3)) bps" for bps
        using size by (intro symbol_count_mono) (simp add: rtnc_fec_encoded_size_def)
      then have "w3 \<le> frame_symbols (mo_profile m) (mo_fec_mode m) (unat (mo_payload_class_bytes m)) * ?sps"
        unfolding w3(1) frame_symbols_def by (intro mult_le_mono1 add_left_mono)
      moreover have "mo_fec_mode m \<noteq> FEC_NONE \<Longrightarrow>
          w3 = frame_symbols (mo_profile m) (mo_fec_mode m) (unat (mo_payload_class_bytes m)) * ?sps"
        unfolding w3(1) frame_symbols_def using size(3) by simp
      ultimately have "rtnc_modem_frame_samples m = 0 \<or> w3 \<le> rtnc_modem_frame_samples m \<and>
          (mo_fec_mode m = FEC_NONE \<or> w3 = rtnc_modem_frame_samples m)"
        using frame_samples_bound [of m] by metis
      with run True loops(3) False w3(1) drop size show ?thesis by simp
    qed
  qed
qed

section \<open>Transmission succeeds when the library does\<close>

definition tx_never_fails :: "'d liquid \<Rightarrow> bool" where
  "tx_never_fails L \<longleftrightarrow> (\<forall>q x. fst (firinterp_crcf_execute L q x)) \<and> (\<forall>q x. fst (nco_crcf_mix_up L q x)) \<and>
     (\<forall>q s. fst (modemcf_modulate L q s))"

definition tx_live :: "'d rtnc_modem \<Rightarrow> bool" where
  \<comment> \<open>the objects the transmitter needs exist and agree with a valid profile\<close>
  "tx_live m \<longleftrightarrow> rrc_interpolator (mo_rrc m) \<noteq> None \<and> ca_tx_nco (mo_carrier m) \<noteq> None \<and>
     ps_modulator (mo_psk m) \<noteq> None \<and> ps_bits_per_symbol (mo_psk m) = pp_bits_per_symbol (mo_profile m) \<and>
     rtnc_phy_profile_is_valid (mo_profile m)"

lemma upconvert_live:
  assumes "tx_never_fails L" and "ca_tx_nco c \<noteq> None"
  shows "\<exists>y c'. rtnc_carrier_upconvert L c x = (Some y, c') \<and> ca_tx_nco c' \<noteq> None"
proof -
  obtain q where q: "ca_tx_nco c = Some q" using assms(2) by auto
  obtain y where "nco_crcf_mix_up L q x = (True, y)"
    using assms(1) unfolding tx_never_fails_def by (metis prod.collapse)
  with q show ?thesis by (simp add: rtnc_carrier_upconvert_def)
qed

lemma emit_samples_live:
  assumes "tx_never_fails L"
  shows "ca_tx_nco c \<noteq> None \<Longrightarrow> fst (emit_samples L c xs a w) \<and> ca_tx_nco (fst (snd (emit_samples L c xs a w))) \<noteq> None"
proof (induction xs arbitrary: c a w)
  case (Cons x xs)
  from upconvert_live [OF assms Cons.prems, of x] obtain y c' where
    "rtnc_carrier_upconvert L c x = (Some y, c')" "ca_tx_nco c' \<noteq> None" by blast
  with Cons.IH [of c' "a[w := y]" "w + 1"] show ?case by simp
qed simp

lemma emit_symbol_live:
  assumes "tx_never_fails L" and live: "tx_live m"
  shows "\<exists>m' a' w'. emit_symbol L m x a w = (True, m', a', w') \<and> tx_live m' \<and> mo_profile m' = mo_profile m"
proof -
  obtain q where q: "rrc_interpolator (mo_rrc m) = Some q" using live by (auto simp: tx_live_def)
  obtain q' ys where "firinterp_crcf_execute L q x = (True, q', ys)"
    using assms(1) unfolding tx_never_fails_def by (metis prod.collapse)
  then have i: "rtnc_rrc_interpolate L (mo_rrc m) x = (Some ys, mo_rrc m \<lparr> rrc_interpolator := Some q' \<rparr>)"
    using q by (simp add: rtnc_rrc_interpolate_def)
  let ?s = "emit_samples L (mo_carrier m) (take (unat (pp_samples_per_symbol (mo_profile m))) ys) a w"
  have c: "fst ?s" "ca_tx_nco (fst (snd ?s)) \<noteq> None"
    using emit_samples_live [OF assms(1), of "mo_carrier m"] live by (auto simp: tx_live_def)
  have "\<not> pp_samples_per_symbol (mo_profile m) > 80"
    using live by (auto simp: tx_live_def rtnc_phy_profile_is_valid_def split: if_splits)
  then show ?thesis using i c live by (cases ?s) (auto simp: emit_symbol_def tx_live_def)
qed

lemma emit_training_live:
  assumes "tx_never_fails L"
  shows "tx_live m \<Longrightarrow> \<exists>m' a' w'. emit_training L m xs a w = (True, m', a', w') \<and> tx_live m' \<and> mo_profile m' = mo_profile m"
proof (induction xs arbitrary: m a w)
  case (Cons x xs)
  from emit_symbol_live [OF assms Cons.prems, of x a w] obtain m1 a1 w1 where
    s: "emit_symbol L m x a w = (True, m1, a1, w1)" "tx_live m1" "mo_profile m1 = mo_profile m" by blast
  with Cons.IH [OF s(2), of a1 w1] show ?case by auto
qed simp

lemma read_symbol_bits_range: "unat (read_symbol_bits d k i bps) < 2 ^ unat bps \<or> 8 < unat bps"
proof -
  let ?f = "\<lambda>symbol b. let source_bit = i * unat bps + b; symbol = push_bit 1 symbol
        in if source_bit < k
           then symbol OR (drop_bit (7 - source_bit mod 8) (ucast (d ! (source_bit div 8)) :: u32) AND 1) else symbol"
  have t: "bit (s * 2) j \<Longrightarrow> bit s (j - Suc 0)" for s :: u32 and j
    using bit_double_iff [of s j] by (simp add: mult.commute [of s])
  have step: "bit (?f s b) j \<Longrightarrow> j = 0 \<or> bit s (j - 1)" for s b j
    by (auto simp: Let_def bit_or_iff bit_and_iff bit_1_iff dest: t split: if_splits)
  have fold: "bit (foldl ?f (0 :: u32) [0..<n]) j \<Longrightarrow> j < n" for n j
  proof (induction n arbitrary: j)
    case (Suc n)
    from Suc.prems have "bit (?f (foldl ?f 0 [0..<n]) n) j" by simp
    from step [OF this] show ?case
    proof
      assume "bit (foldl ?f (0 :: u32) [0..<n]) (j - 1)"
      from Suc.IH [OF this] show ?case by linarith
    qed (simp only: zero_less_Suc)
  qed simp
  define x where "x = foldl ?f (0 :: u32) [0..<unat bps]"
  have "bit x j \<Longrightarrow> j < unat bps" for j unfolding x_def by (rule fold)
  moreover have "read_symbol_bits d k i bps = ucast x" unfolding read_symbol_bits_def x_def ..
  ultimately have "bit (read_symbol_bits d k i bps) j \<Longrightarrow> j < unat bps" for j
    by (simp add: bit_ucast_iff)
  then have "take_bit (unat bps) (read_symbol_bits d k i bps) = read_symbol_bits d k i bps"
    by (intro bit_word_eqI) (auto simp: bit_take_bit_iff)
  then have "take_bit (unat bps) (unat (read_symbol_bits d k i bps)) = unat (read_symbol_bits d k i bps)"
    by (metis unsigned_take_bit_eq)
  then show ?thesis by (metis take_bit_nat_less_exp)
qed

lemma tx_live_bits: "tx_live m \<Longrightarrow> 1 \<le> unat (pp_bits_per_symbol (mo_profile m)) \<and> unat (pp_bits_per_symbol (mo_profile m)) \<le> 4"
  using valid_profile_bits [of "mo_profile m"] bits_of_modulation_range [of "pp_modulation (mo_profile m)"]
  by (simp add: tx_live_def)

lemma psk_map_live:
  assumes "tx_never_fails L" and live: "tx_live m" and "unat s < 2 ^ unat (pp_bits_per_symbol (mo_profile m))"
  shows "\<exists>x psk. rtnc_psk_map L (mo_psk m) s = (Some x, psk) \<and> tx_live (m \<lparr> mo_psk := psk \<rparr>)"
proof -
  obtain q where q: "ps_modulator (mo_psk m) = Some q" using live by (auto simp: tx_live_def)
  obtain q' x where "modemcf_modulate L q (unat s) = (True, q', x)"
    using assms(1) unfolding tx_never_fails_def by (metis prod.collapse)
  with q assms(3) live show ?thesis by (simp add: rtnc_psk_map_def tx_live_def)
qed

lemma emit_payload_live:
  assumes "tx_never_fails L"
  shows "tx_live m \<Longrightarrow> \<exists>m' a' w'. emit_payload L m d n is a w = (True, m', a', w') \<and> tx_live m' \<and> mo_profile m' = mo_profile m"
proof (induction "is" arbitrary: m a w)
  case (Cons i "is")
  let ?s = "read_symbol_bits d (n * 8) i (pp_bits_per_symbol (mo_profile m))"
  have "unat ?s < 2 ^ unat (pp_bits_per_symbol (mo_profile m))"
    using read_symbol_bits_range [of d "n * 8" i "pp_bits_per_symbol (mo_profile m)"] tx_live_bits [OF Cons.prems] by auto
  from psk_map_live [OF assms Cons.prems this] obtain x psk where
    mp: "rtnc_psk_map L (mo_psk m) ?s = (Some x, psk)" "tx_live (m \<lparr> mo_psk := psk \<rparr>)" by blast
  from emit_symbol_live [OF assms mp(2), of x a w] obtain m1 a1 w1 where
    s: "emit_symbol L (m \<lparr> mo_psk := psk \<rparr>) x a w = (True, m1, a1, w1)" "tx_live m1" "mo_profile m1 = mo_profile m" by auto
  with Cons.IH [OF s(2), of a1 w1] mp(1) show ?case by auto
qed simp

lemma fec_encode_total:
  assumes "0 < length input" "length input \<le> 160" "mode \<noteq> FEC_LDPC_FAST"
    and "rtnc_fec_encoded_size mode (length input) \<le> length buf"
  shows "\<exists>e n. rtnc_fec_encode mode input buf = Inr (e, n)"
proof (cases mode)
  case FEC_LDPC_ROBUST
  let ?nb = "(length input + 7) div 8"
  have "8 \<le> length input + 7" using assms(1) by linarith
  then have size: "rtnc_fec_encoded_size mode (length input) = ?nb * 16" "0 < ?nb"
    using encoded_size_small(1) [OF assms(1,2)] FEC_LDPC_ROBUST by (auto simp only: div_greater_zero_iff)
  have "Suc k * 16 \<le> length buf" if "k < ?nb" for k
    using mult_le_mono1 [of "Suc k" ?nb 16] that assms(4) size by linarith
  then have "\<forall>k \<in> set [0..<?nb]. Suc k * 16 \<le> length buf" by simp
  then obtain e where "encode_robust_blocks input buf [0..<?nb] = Some e"
    using encode_robust_ok [of "[0..<?nb]" buf input] by auto
  with size assms(4) FEC_LDPC_ROBUST show ?thesis unfolding rtnc_fec_encode_def Let_def by simp
next
  case FEC_LDPC_NORMAL
  let ?nb = "(length input + 7) div 8"
  have "8 \<le> length input + 7" using assms(1) by linarith
  then have size: "rtnc_fec_encoded_size mode (length input) = ?nb * 12" "0 < ?nb"
    using encoded_size_small(2) [OF assms(1,2)] FEC_LDPC_NORMAL by (auto simp only: div_greater_zero_iff)
  have "Suc k * 12 \<le> length buf" if "k < ?nb" for k
    using mult_le_mono1 [of "Suc k" ?nb 12] that assms(4) size by linarith
  then have "\<forall>k \<in> set [0..<?nb]. Suc k * 12 \<le> length buf" by simp
  then obtain e where "encode_normal_blocks input buf [0..<?nb] = Some e"
    using encode_normal_ok [of "[0..<?nb]" buf input] by auto
  with size assms(4) FEC_LDPC_NORMAL show ?thesis unfolding rtnc_fec_encode_def Let_def by simp
qed (use assms in \<open>auto simp: rtnc_fec_encode_def rtnc_fec_encoded_size_def\<close>)

lemma protect_payload_total:
  assumes "0 < length payload" "length payload \<le> unat cls" "cls = 64 \<or> cls = 128" "mode \<noteq> FEC_LDPC_FAST"
  shows "\<exists>e n. protect_payload mode cls payload = Some (e, n)"
proof -
  have c: "unat cls = 64 \<or> unat cls = 128" using assms(3) by auto
  obtain frame where f: "rtnc_frame_build payload 131 = Inr frame" "length frame = length payload + 3"
    using assms(1,2) c by (auto simp: rtnc_frame_build_def Let_def)
  let ?pl = "if mode = FEC_NONE then length frame else 1 + unat cls + 2"
  let ?in = "take ?pl (buf_write (replicate 131 0) 0 frame)"
  have len: "length ?in = ?pl" "0 < ?pl" "?pl \<le> 131" using f(2) assms(1,2) c by (auto simp: length_buf_write)
  have "rtnc_fec_encoded_size mode (length ?in) \<le> 320"
    using len encoded_size_small [of "length ?in"] by (cases mode) (auto simp: rtnc_fec_encoded_size_def)
  moreover have "0 < length ?in" "length ?in \<le> 160" using len by linarith+
  ultimately have "\<exists>e n. rtnc_fec_encode mode ?in (replicate 320 0) = Inr (e, n)"
    using fec_encode_total [of ?in mode "replicate 320 0", OF _ _ assms(4)] by (simp only: length_replicate)
  then show ?thesis using assms(1,2) f(1) by (auto simp: protect_payload_def Let_def)
qed

lemma tx_total:
  assumes "tx_never_fails L" and "tx_live m"
    and "modem_arguments_ok (mo_profile m) (mo_fec_mode m) (mo_payload_class_bytes m)"
  shows "fst (rtnc_modem_tx_audio L m payload audio) =
    (if length payload = 0 \<or> length payload > unat (mo_payload_class_bytes m) then RTNC_MODEM_FRAME_REJECTED
     else if length audio < (112 + symbol_count (if mo_fec_mode m = FEC_NONE then length payload + 3
                else rtnc_fec_encoded_size (mo_fec_mode m) (unat (mo_payload_class_bytes m) + 3))
              (pp_bits_per_symbol (mo_profile m))) * unat (pp_samples_per_symbol (mo_profile m))
          then RTNC_MODEM_BUFFER_TOO_SMALL
     else RTNC_MODEM_OK)"
proof (cases "length payload = 0 \<or> length payload > unat (mo_payload_class_bytes m)")
  case True
  then have "protect_payload (mo_fec_mode m) (mo_payload_class_bytes m) payload = None" by (auto simp: protect_payload_def)
  with True show ?thesis by (simp add: rtnc_modem_tx_audio_def)
next
  case False
  have args: "mo_payload_class_bytes m = 64 \<or> mo_payload_class_bytes m = 128" "mo_fec_mode m \<noteq> FEC_LDPC_FAST"
    using assms(3) by (cases "mo_fec_mode m"; auto simp: modem_arguments_ok_def)+
  with False protect_payload_total [of payload "mo_payload_class_bytes m" "mo_fec_mode m"]
  obtain e n where p: "protect_payload (mo_fec_mode m) (mo_payload_class_bytes m) payload = Some (e, n)" by auto
  note size = protect_payload_size(3) [OF p args(1), symmetric]
  show ?thesis unfolding size
  proof (cases "(112 + symbol_count n (pp_bits_per_symbol (mo_profile m))) * unat (pp_samples_per_symbol (mo_profile m)) > length audio")
    case True
    with p False show "fst (rtnc_modem_tx_audio L m payload audio) = (if length payload = 0 \<or> length payload > unat (mo_payload_class_bytes m) then RTNC_MODEM_FRAME_REJECTED
     else if length audio < (112 + symbol_count n (pp_bits_per_symbol (mo_profile m))) * unat (pp_samples_per_symbol (mo_profile m))
          then RTNC_MODEM_BUFFER_TOO_SMALL else RTNC_MODEM_OK)" by (auto simp: rtnc_modem_tx_audio_def add.commute)
  next
    case fits: False
    let ?m0 = "m \<lparr> mo_rrc := rtnc_rrc_reset L (mo_rrc m), mo_carrier := rtnc_carrier_reset L (mo_carrier m) \<rparr>"
    have live: "tx_live ?m0" using assms(2) by (simp add: tx_live_def rtnc_rrc_reset_def rtnc_carrier_reset_def)
    obtain m1 a1 w1 where t1: "emit_training L ?m0 (mo_training m) audio 0 = (True, m1, a1, w1)" "tx_live m1"
      using emit_training_live [OF assms(1) live] by blast
    obtain m2 a2 w2 where t2: "emit_payload L m1 e n [0..<symbol_count n (pp_bits_per_symbol (mo_profile m))] a1 w1 = (True, m2, a2, w2)" "tx_live m2"
      using emit_payload_live [OF assms(1) t1(2)] by blast
    obtain m3 a3 w3 where t3: "emit_training L m2 (replicate 16 0) a2 w2 = (True, m3, a3, w3)"
      using emit_training_live [OF assms(1) t2(2)] by blast
    show "fst (rtnc_modem_tx_audio L m payload audio) = (if length payload = 0 \<or> length payload > unat (mo_payload_class_bytes m) then RTNC_MODEM_FRAME_REJECTED
     else if length audio < (112 + symbol_count n (pp_bits_per_symbol (mo_profile m))) * unat (pp_samples_per_symbol (mo_profile m))
          then RTNC_MODEM_BUFFER_TOO_SMALL else RTNC_MODEM_OK)"
      using fits False p t1(1) t2(1) t3 by (auto simp: rtnc_modem_tx_audio_def add.commute [of _ 16])
  qed
qed

text \<open>
  a live modem transmits.  If no library call reports an error, any payload of one byte up to the
  payload class is transmitted whenever the buffer holds the waveform; a payload outside that range is
  rejected, and a buffer that is too small is reported, before anything is written.
\<close>

lemma modem_tx_total:
  assumes "tx_never_fails L" and "tx_live m"
    and "modem_arguments_ok (mo_profile m) (mo_fec_mode m) (mo_payload_class_bytes m)"
  shows "fst (rtnc_modem_tx_audio L m payload audio) =
    (if length payload = 0 \<or> length payload > unat (mo_payload_class_bytes m) then RTNC_MODEM_FRAME_REJECTED
     else if length audio < (112 + symbol_count (if mo_fec_mode m = FEC_NONE then length payload + 3
                else rtnc_fec_encoded_size (mo_fec_mode m) (unat (mo_payload_class_bytes m) + 3))
              (pp_bits_per_symbol (mo_profile m))) * unat (pp_samples_per_symbol (mo_profile m))
          then RTNC_MODEM_BUFFER_TOO_SMALL
     else RTNC_MODEM_OK)"
  by (rule tx_total [OF assms])

section \<open>Construction\<close>

definition modem_empty :: "'d rtnc_modem \<Rightarrow> bool" where
  \<comment> \<open>no library object is held\<close>
  "modem_empty m \<longleftrightarrow> ps_modulator (mo_psk m) = None \<and> ps_demodulator (mo_psk m) = None \<and>
     rrc_interpolator (mo_rrc m) = None \<and> rrc_matched_filter (mo_rrc m) = None \<and>
     ca_tx_nco (mo_carrier m) = None \<and> ca_rx_nco (mo_carrier m) = None \<and>
     ti_synchronizer (mo_timing m) = None \<and> eq_equalizer (mo_equalizer m) = None"

definition modem_ready :: "'d rtnc_modem \<Rightarrow> bool" where
  "modem_ready m \<longleftrightarrow> tx_live m \<and> ps_demodulator (mo_psk m) \<noteq> None \<and> rrc_matched_filter (mo_rrc m) \<noteq> None \<and>
     ca_rx_nco (mo_carrier m) \<noteq> None \<and> ti_synchronizer (mo_timing m) \<noteq> None \<and>
     eq_equalizer (mo_equalizer m) \<noteq> None \<and> length (mo_training m) = RTNC_MODEM_TRAINING_SYMBOLS \<and>
     modem_arguments_ok (mo_profile m) (mo_fec_mode m) (mo_payload_class_bytes m)"

lemma modem_empty_deinit: "modem_empty (rtnc_modem_deinit m)"
  by (simp add: modem_empty_def rtnc_modem_deinit_def rtnc_psk_deinit_def rtnc_rrc_deinit_def
    rtnc_carrier_deinit_def rtnc_timing_deinit_def rtnc_equalizer_deinit_def)

lemma psk_init_ok:
  assumes "rtnc_psk_init L psk m = (True, psk')"
  shows "ps_modulator psk' \<noteq> None \<and> ps_demodulator psk' \<noteq> None \<and> unat (ps_bits_per_symbol psk') = bits_of_modulation m"
  using assms by (cases m) (auto simp: rtnc_psk_init_def psk_scheme_def bits_of_modulation_def Let_def split: if_splits)

lemma rrc_init_ok:
  "rtnc_rrc_init L rrc sps d r = (True, rrc') \<Longrightarrow> rrc_interpolator rrc' \<noteq> None \<and> rrc_matched_filter rrc' \<noteq> None"
  by (auto simp: rtnc_rrc_init_def Let_def split: if_splits option.splits)

lemma carrier_init_ok:
  "rtnc_carrier_init L c rate hz = (True, c') \<Longrightarrow> ca_tx_nco c' \<noteq> None \<and> ca_rx_nco c' \<noteq> None"
  by (auto simp: rtnc_carrier_init_def Let_def split: if_splits option.splits)

lemma timing_init_ok: "rtnc_timing_init L t sps d r b = (True, t') \<Longrightarrow> ti_synchronizer t' \<noteq> None"
  by (auto simp: rtnc_timing_init_def Let_def split: if_splits option.splits)

lemma equalizer_init_ok: "rtnc_equalizer_init L e n f = (True, e') \<Longrightarrow> eq_equalizer e' \<noteq> None"
  by (auto simp: rtnc_equalizer_init_def Let_def split: if_splits option.splits prod.splits)

lemma init_blocks_ok:
  assumes "init_blocks L m = (True, m')" and valid: "rtnc_phy_profile_is_valid (mo_profile m)"
  shows "same_settings m m' \<and> tx_live m' \<and> ps_demodulator (mo_psk m') \<noteq> None \<and> rrc_matched_filter (mo_rrc m') \<noteq> None \<and>
     ca_rx_nco (mo_carrier m') \<noteq> None \<and> ti_synchronizer (mo_timing m') \<noteq> None \<and> eq_equalizer (mo_equalizer m') \<noteq> None"
proof -
  obtain psk rrc timing equalizer carrier where
    i: "rtnc_psk_init L (mo_psk m) (pp_modulation (mo_profile m)) = (True, psk)"
      "rtnc_rrc_init L (mo_rrc m) (pp_samples_per_symbol (mo_profile m)) 7 (pp_rrc_rolloff (mo_profile m)) = (True, rrc)"
      "rtnc_timing_init L (mo_timing m) (pp_samples_per_symbol (mo_profile m)) 7 (pp_rrc_rolloff (mo_profile m)) (Fin 0.03) = (True, timing)"
      "rtnc_equalizer_init L (mo_equalizer m) 9 (Fin 0.95) = (True, equalizer)"
      "rtnc_carrier_init L (mo_carrier m) (pp_sample_rate_hz (mo_profile m)) (pp_carrier_hz (mo_profile m)) = (True, carrier)"
    and m': "m' = m \<lparr> mo_psk := psk, mo_rrc := rrc, mo_timing := timing, mo_equalizer := equalizer, mo_carrier := carrier \<rparr>"
    using assms(1) unfolding init_blocks_def by (auto simp: Let_def split: prod.splits if_splits)
  have "unat (ps_bits_per_symbol psk) = unat (pp_bits_per_symbol (mo_profile m))"
    using psk_init_ok [OF i(1)] valid_profile_bits [OF valid] by simp
  then have "ps_bits_per_symbol psk = pp_bits_per_symbol (mo_profile m)" by (rule unsigned_word_eqI)
  then show ?thesis unfolding m' using psk_init_ok [OF i(1)] rrc_init_ok [OF i(2)] timing_init_ok [OF i(3)]
    equalizer_init_ok [OF i(4)] carrier_init_ok [OF i(5)] valid by (auto simp: tx_live_def)
qed

lemma acquisition_lists:
  "length acquisition_symbols = 32" "length control_acquisition_symbols = 32"
  "list_all (\<lambda>s. unat s < 4) acquisition_symbols" "list_all (\<lambda>s. unat s < 4) control_acquisition_symbols"
  by (simp_all add: acquisition_symbols_def control_acquisition_symbols_def)

lemma map_training_ok:
  assumes "map_training L m state is = (ok, m')" and "set is \<subseteq> {..<96}" and "modem_ready m"
  shows "if ok then modem_ready m' \<and> same_settings (m \<lparr> mo_training := [] \<rparr>) (m' \<lparr> mo_training := [] \<rparr>) else modem_empty m'"
  using assms
proof (induction "is" arbitrary: m state)
  case (Cons i "is")
  obtain v state' where v: "training_value (mo_preamble m) (pp_bits_per_symbol (mo_profile m)) state i = (v, state')" by fastforce
  obtain x psk where p: "rtnc_psk_map L (mo_psk m) v = (x, psk)" by fastforce
  show ?case
  proof (cases x)
    case None
    with Cons.prems v p show ?thesis by (auto simp: modem_empty_deinit)
  next
    case (Some sample)
    have keep: "ps_bits_per_symbol psk = ps_bits_per_symbol (mo_psk m) \<and> ps_modulator psk \<noteq> None \<and>
        ps_demodulator psk = ps_demodulator (mo_psk m)"
      using p Some Cons.prems(3) unfolding rtnc_psk_map_def modem_ready_def tx_live_def
      by (auto split: option.splits prod.splits if_splits)
    let ?m = "m \<lparr> mo_psk := psk, mo_training := (mo_training m)[i := sample] \<rparr>"
    have "modem_ready ?m" using Cons.prems(3) keep by (auto simp: modem_ready_def tx_live_def)
    moreover have "map_training L ?m state' is = (ok, m')" using Cons.prems(1) v p Some by simp
    ultimately show ?thesis using Cons.IH [of ?m state'] Cons.prems(2) by (auto simp: same_settings_def)
  qed
qed (auto simp: modem_ready_def)

text \<open>
  construction is all or nothing.  Arguments the modem does not support leave the object untouched.
  Otherwise, if construction fails (the library refuses an object or a training symbol), no library
  object remains in the modem; if it succeeds, every object exists, the profile is valid and agrees with
  the mapper, and the training sequence has its 96 symbols.
\<close>

lemma modem_init_all_or_nothing:
  "(case rtnc_modem_init_profile_preamble (L :: 'd liquid) m0 fec_mode cls profile preamble of (ok, m) \<Rightarrow>
     if \<not> modem_arguments_ok profile fec_mode cls then \<not> ok \<and> m = m0
     else if \<not> ok then modem_empty m
     else modem_ready m \<and> mo_profile m = profile \<and> mo_fec_mode m = fec_mode \<and>
          mo_payload_class_bytes m = cls \<and> mo_preamble m = preamble)"
proof (cases "modem_arguments_ok profile fec_mode cls")
  case True
  then have valid: "rtnc_phy_profile_is_valid profile" by (simp add: modem_arguments_ok_def)
  let ?b = "blank_modem profile fec_mode cls preamble :: 'd rtnc_modem"
  obtain ok1 m1 where b: "init_blocks L ?b = (ok1, m1)" by fastforce
  show ?thesis
  proof (cases ok1)
    case False
    with True b show ?thesis by (simp add: rtnc_modem_init_profile_preamble_def modem_empty_deinit)
  next
    case ok1: True
    have set: "mo_profile ?b = profile" "mo_fec_mode ?b = fec_mode" "mo_payload_class_bytes ?b = cls"
      "mo_preamble ?b = preamble" "length (mo_training ?b) = 96" by (simp_all add: blank_modem_def)
    have "rtnc_phy_profile_is_valid (mo_profile ?b)" using valid set(1) by simp
    from init_blocks_ok [OF b [unfolded ok1 [THEN eqTrueI]] this] set True
    have rdy: "modem_ready m1" and same: "same_settings ?b m1" by (auto simp: modem_ready_def same_settings_def)
    obtain ok m where t: "map_training L m1 (if preamble = RTNC_PREAMBLE_DATA then 0x9e3779b9 else 0x243f6a88) [0..<96] = (ok, m)"
      by fastforce
    then have r: "rtnc_modem_init_profile_preamble L m0 fec_mode cls profile preamble = (ok, m)"
      using True b ok1 by (simp add: rtnc_modem_init_profile_preamble_def)
    have "set [0..<96] \<subseteq> {..<96 :: nat}" by auto
    from map_training_ok [OF t this rdy] show ?thesis unfolding r
      using True same set by (auto simp: same_settings_def split: if_splits)
  qed
qed (simp add: rtnc_modem_init_profile_preamble_def)

section \<open>A library for examples\<close>

text \<open>
  A stateless stand-in for the library: the mapper uses two bits as the signs of a point's coordinates,
  the interpolator puts the symbol at the start of its period, everything else passes values through.
\<close>

definition example_point :: "nat \<Rightarrow> complex" where
  "example_point s = Complex (if s div 2 mod 2 = 1 then -1 else 1) (if s mod 2 = 1 then -1 else 1)"

definition example_liquid :: "unit liquid" where
  "example_liquid =
    \<lparr> modemcf_create = \<lambda>_. Some (), modemcf_modulate = \<lambda>q s. (True, (), example_point s),
      modemcf_demodulate_soft = \<lambda>q x. (True, (), of_bool (Re x < 0) * 2 + of_bool (Im x < 0),
        [if Re x < 0 then 255 else 0, if Im x < 0 then 255 else 0]),
      modemcf_get_demodulator_evm = \<lambda>_. 0, nco_crcf_create = Some (), nco_crcf_set_frequency = \<lambda>q _. q,
      nco_crcf_set_phase = \<lambda>q _. q, nco_crcf_reset = \<lambda>q. q, nco_crcf_step = \<lambda>q. q,
      nco_crcf_mix_up = \<lambda>q x. (True, x), nco_crcf_mix_down = \<lambda>q x. (True, x),
      firinterp_crcf_create_prototype = \<lambda>_ _ _. Some (), firinterp_crcf_set_scale = \<lambda>q _. q,
      firinterp_crcf_reset = \<lambda>q. q, firinterp_crcf_execute = \<lambda>q x. (True, (), x # replicate 39 0),
      firfilt_crcf_create_rnyquist = \<lambda>_ _ _. Some (), firfilt_crcf_reset = \<lambda>q. q,
      firfilt_crcf_execute_one = \<lambda>q x. (True, (), x), symsync_crcf_create_rnyquist = \<lambda>_ _ _ _. Some (),
      symsync_crcf_set_output_rate = \<lambda>q _. (True, ()), symsync_crcf_set_lf_bw = \<lambda>q _. q,
      symsync_crcf_reset = \<lambda>q. q, symsync_crcf_execute = \<lambda>q x. (True, (), [x]), symsync_crcf_get_tau = \<lambda>_. 0,
      eqrls_cccf_create = \<lambda>_. Some (), eqrls_cccf_set_bw = \<lambda>q _. (True, ()), eqrls_cccf_reset = \<lambda>q. q,
      eqrls_cccf_push = \<lambda>q _. (True, ()), eqrls_cccf_execute = \<lambda>q. (True, (), 0),
      eqrls_cccf_step = \<lambda>q _ _. (True, ()), eqrls_cccf_get_weights = \<lambda>_. (True, replicate 9 0) \<rparr>"

definition example_modem :: "fec_mode \<Rightarrow> unit rtnc_modem" where
  "example_modem fec_mode = snd (init_blocks example_liquid
     (blank_modem rtnc_phy_profile_qpsk_1200 fec_mode 128 RTNC_PREAMBLE_DATA))"

lemma qpsk_1200_valid: "rtnc_phy_profile_is_valid rtnc_phy_profile_qpsk_1200"
  by (simp add: rtnc_phy_profile_is_valid_def rtnc_phy_profile_qpsk_1200_def)

lemma example_blocks:
  "fst (init_blocks example_liquid (blank_modem rtnc_phy_profile_qpsk_1200 fec_mode 128 RTNC_PREAMBLE_DATA))"
  by (simp add: init_blocks_def blank_modem_def rtnc_psk_init_def psk_scheme_def rtnc_rrc_init_def rtnc_timing_init_def
    rtnc_equalizer_init_def rtnc_carrier_init_def rtnc_phy_profile_qpsk_1200_def example_liquid_def Let_def)

lemma example_modem_ready:
  assumes "fec_mode \<noteq> FEC_LDPC_FAST"
  shows "modem_ready (example_modem fec_mode)" "mo_profile (example_modem fec_mode) = rtnc_phy_profile_qpsk_1200"
    "mo_fec_mode (example_modem fec_mode) = fec_mode" "mo_payload_class_bytes (example_modem fec_mode) = 128"
proof -
  let ?b = "blank_modem rtnc_phy_profile_qpsk_1200 fec_mode 128 RTNC_PREAMBLE_DATA :: unit rtnc_modem"
  have i: "init_blocks example_liquid ?b = (True, example_modem fec_mode)"
    using example_blocks [of fec_mode] unfolding example_modem_def by (metis prod.collapse)
  have b: "mo_profile ?b = rtnc_phy_profile_qpsk_1200" "mo_fec_mode ?b = fec_mode" "mo_payload_class_bytes ?b = 128"
    "length (mo_training ?b) = 96" by (simp_all add: blank_modem_def)
  have args: "modem_arguments_ok rtnc_phy_profile_qpsk_1200 fec_mode 128"
    using assms qpsk_1200_valid by (cases fec_mode) (auto simp: modem_arguments_ok_def rtnc_phy_profile_qpsk_1200_def)
  note ok = init_blocks_ok [OF i, unfolded b(1), OF qpsk_1200_valid]
  then show "modem_ready (example_modem fec_mode)" "mo_profile (example_modem fec_mode) = rtnc_phy_profile_qpsk_1200"
    "mo_fec_mode (example_modem fec_mode) = fec_mode" "mo_payload_class_bytes (example_modem fec_mode) = 128"
    using b args by (auto simp: modem_ready_def same_settings_def)
qed

lemma example_never_fails: "tx_never_fails example_liquid"
  by (simp add: tx_never_fails_def example_liquid_def)

lemma example_interpolator: "interpolator_ready example_liquid (example_modem FEC_LDPC_NORMAL) (\<lambda>_. True)"
  using example_modem_ready(2) [of FEC_LDPC_NORMAL]
  by (simp add: interpolator_ready_def interpolates_def example_liquid_def rtnc_phy_profile_qpsk_1200_def)

theorem modem_tx_exact_witness:
  "\<exists>m' audio'. rtnc_modem_tx_audio example_liquid (example_modem FEC_LDPC_NORMAL) [7] (replicate 40000 0) =
     (RTNC_MODEM_OK, m', audio', Some 37120) \<and> length audio' = 40000 \<and> audio' ! 39999 = 0"
proof -
  let ?m = "example_modem FEC_LDPC_NORMAL"
  note m = example_modem_ready [of FEC_LDPC_NORMAL, simplified]
  then have live: "tx_live ?m" "length (mo_training ?m) = RTNC_MODEM_TRAINING_SYMBOLS"
    "modem_arguments_ok (mo_profile ?m) (mo_fec_mode ?m) (mo_payload_class_bytes ?m)" by (auto simp: modem_ready_def)
  obtain status m' audio' sent where r: "rtnc_modem_tx_audio example_liquid ?m [7] (replicate 40000 0) = (status, m', audio', sent)"
    by (metis prod_cases4)
  have sps: "unat (pp_samples_per_symbol (mo_profile ?m)) = 40" "pp_bits_per_symbol (mo_profile ?m) = 2"
    using m(2) by (simp_all add: rtnc_phy_profile_qpsk_1200_def)
  have size: "symbol_count (rtnc_fec_encoded_size FEC_LDPC_NORMAL 131) 2 = 816"
    by (simp add: symbol_count_def rtnc_fec_encoded_size_def)
  note x = modem_tx_exact [OF r example_interpolator live(2,3)]
  have "status = RTNC_MODEM_OK"
  proof (rule ccontr)
    assume "status \<noteq> RTNC_MODEM_OK"
    moreover have "fst (rtnc_modem_tx_audio example_liquid ?m [7] (replicate 40000 0)) = RTNC_MODEM_OK"
      using tx_total [OF example_never_fails live(1,3), of "[7]" "replicate 40000 0"] m(2-4) sps size by simp
    ultimately show False using r by simp
  qed
  with x r m(2-4) sps size obtain n where n: "sent = Some n" "n = 37120" "length audio' = 40000"
      "drop n audio' = drop n (replicate 40000 0)"
    by (auto split: option.splits)
  have "audio' ! (n + 2879) = drop n audio' ! 2879" by (rule nth_drop [symmetric]) (use n in simp)
  also have "\<dots> = 0" unfolding n(4) using n(2) by simp
  finally have "audio' ! 39999 = 0" using n(2) by simp
  then show ?thesis using r n \<open>status = RTNC_MODEM_OK\<close> by auto
qed

end
