(* ===== verification/ModemRx.thy ===== *)
theory ModemRx
  imports ModemTx
begin

text \<open>
  The receiver of \<^verbatim>\<open>modem/offline.c\<close>: matched filtering and acquisition, carrier estimation, timing
  recovery, the training search, soft demapping and FEC, and the fallback through the equalizer.  The
  fixed arrays of \<^verbatim>\<open>rtnc_modem_workspace_t\<close> keep their contents between calls.  Every read and write of
  the workspace's arrays, of the training symbols and of the decoded bytes goes through the checked accesses of
  \<^verbatim>\<open>Prelude\<close>: a receive function has no result (\<open>None\<close>) where the code would leave an array.  Only
  the local arrays of a fixed size that are indexed by a loop of that size are read with \<open>!\<close>.
\<close>

record rtnc_sync_metrics =
  sm_frame_detected :: bool
  sm_timing_symbols :: real
  sm_carrier_offset_hz :: real
  sm_phase_radians :: real
  sm_evm_rms :: real
  sm_training_snr_db :: real
  sm_acquisition_correlation :: real
  sm_training_correlation :: real
  sm_equalizer_used :: bool
  sm_equalizer_training_error :: real
  sm_equalizer_taps :: "complex list"

definition RTNC_EQUALIZER_DIAGNOSTIC_TAPS :: nat where [simp]: "RTNC_EQUALIZER_DIAGNOSTIC_TAPS = 17"

definition zero_metrics :: rtnc_sync_metrics where
  "zero_metrics = \<lparr> sm_frame_detected = False, sm_timing_symbols = 0, sm_carrier_offset_hz = 0,
     sm_phase_radians = 0, sm_evm_rms = 0, sm_training_snr_db = 0, sm_acquisition_correlation = 0,
     sm_training_correlation = 0, sm_equalizer_used = False, sm_equalizer_training_error = 0,
     sm_equalizer_taps = replicate RTNC_EQUALIZER_DIAGNOSTIC_TAPS 0 \<rparr>"

record rtnc_modem_workspace =
  wk_filtered :: "complex list"
  wk_recovered :: "complex list"
  wk_llr :: "fp list"
  wk_llr_count :: nat
  wk_fec_stats :: rtnc_fec_decode_stats

definition workspace_wf :: "rtnc_modem_workspace \<Rightarrow> bool" where
  "workspace_wf w \<longleftrightarrow> length (wk_filtered w) = RTNC_MODEM_MAX_AUDIO_SAMPLES \<and>
     length (wk_recovered w) = RTNC_MODEM_MAX_RECOVERED_SYMBOLS \<and> length (wk_llr w) = RTNC_MODEM_MAX_LLR"

definition snr_of_evm :: "real \<Rightarrow> real" where
  "snr_of_evm evm_rms = - 20 * log 10 (max evm_rms (1 / 1000000))"

section \<open>Soft demapping\<close>

definition store_symbol_bits ::
    "nat \<Rightarrow> nat \<Rightarrow> nat \<Rightarrow> u8 \<Rightarrow> fp list \<Rightarrow> bytes \<times> fp list \<times> nat \<Rightarrow> (bytes \<times> fp list \<times> nat) option" where
  \<comment> \<open>the loop over the bits of one symbol: hard bits into the bytes, soft bits appended to \<^verbatim>\<open>llr\<close>\<close>
  "store_symbol_bits bits_per_symbol bit_count symbol_index symbol symbol_llr out =
    run_loop (\<lambda>(data, llr, llr_index) b.
        let destination_bit = symbol_index * bits_per_symbol + b
        in if destination_bit < bit_count
           then let hard_bit = ucast (drop_bit (bits_per_symbol - 1 - b) (ucast symbol :: u32) AND 1) :: u8
                in (case read_at data (destination_bit div 8) of
                      None \<Rightarrow> None
                    | Some byte \<Rightarrow>
                        map_option (\<lambda>llr.
                            (data[destination_bit div 8 := byte OR push_bit (7 - destination_bit mod 8) hard_bit],
                             llr, llr_index + 1))
                          (write_at llr llr_index (symbol_llr ! b)))
           else Some (data, llr, llr_index))
      out [0..<bits_per_symbol]"

record soft_state =
  so_bytes :: bytes
  so_evm_square_sum :: real
  so_llr :: "fp list"
  so_llr_index :: nat
  so_phase :: real

fun decode_symbols ::
    "'d liquid \<Rightarrow> 'd rtnc_psk \<Rightarrow> nat \<Rightarrow> complex list \<Rightarrow> nat \<Rightarrow> nat \<Rightarrow> real \<Rightarrow> real \<Rightarrow> soft_state \<Rightarrow> nat list \<Rightarrow>
     (bool \<times> 'd rtnc_psk \<times> soft_state) option" where
  "decode_symbols L psk bits_per_symbol recovered start bit_count gain frequency st [] = Some (True, psk, st)"
| "decode_symbols L psk bits_per_symbol recovered start bit_count gain frequency st (symbol_index # rest) =
    (case read_at recovered (start + symbol_index) of
       None \<Rightarrow> None
     | Some arrived \<Rightarrow>
         (let corrected = arrived / complex_of_real gain * cis (- so_phase st);
              (demapped, psk) = rtnc_psk_demap_soft L psk corrected
          in case demapped of
               None \<Rightarrow> Some (False, psk, st)
             | Some (symbol, symbol_llr, evm) \<Rightarrow>
                 (case store_symbol_bits bits_per_symbol bit_count symbol_index symbol
                        symbol_llr (so_bytes st, so_llr st, so_llr_index st) of
                    None \<Rightarrow> None
                  | Some (data, llr, llr_index) \<Rightarrow>
                      decode_symbols L psk bits_per_symbol recovered start bit_count gain frequency
                        (st \<lparr> so_bytes := data, so_llr := llr, so_llr_index := llr_index,
                           so_phase := so_phase st + frequency,
                           so_evm_square_sum := so_evm_square_sum st + evm * evm \<rparr>) rest)))"

definition decode_bytes ::
    "'d liquid \<Rightarrow> 'd rtnc_modem \<Rightarrow> complex list \<Rightarrow> nat \<Rightarrow> nat \<Rightarrow> real \<Rightarrow> real \<Rightarrow> soft_state \<Rightarrow>
     (bool \<times> 'd rtnc_modem \<times> soft_state) option" where
  \<comment> \<open>\<open>so_bytes\<close> of the result is \<^verbatim>\<open>bytes[0..byte_count)\<close>\<close>
  "decode_bytes L modem recovered start byte_count gain frequency st =
    (let bits_per_symbol = pp_bits_per_symbol (mo_profile modem)
     in map_option (\<lambda>(ok, psk, st). (ok, modem \<lparr> mo_psk := psk \<rparr>, st))
          (decode_symbols L (mo_psk modem) (unat bits_per_symbol) recovered start (byte_count * 8) gain frequency
             (st \<lparr> so_bytes := replicate byte_count 0 \<rparr>) [0..<symbol_count byte_count bits_per_symbol]))"

section \<open>Acquisition\<close>

definition correlate :: "complex list \<Rightarrow> complex list \<Rightarrow> complex \<times> real" where
  \<comment> \<open>correlation of the known symbols with the received samples, and the energy of the samples\<close>
  "correlate known arrived =
    foldl (\<lambda>(correlation, energy) (symbol, sample).
        (correlation + cnj symbol * sample, energy + Re (sample * cnj sample)))
      (0, 0) (zip known arrived)"

definition acquisition_score_at :: "'d rtnc_modem \<Rightarrow> complex list \<Rightarrow> nat \<Rightarrow> (real \<times> real) option" where
  \<comment> \<open>score and phase\<close>
  "acquisition_score_at modem filtered start =
    (case (read_stride (mo_training modem) 0 1 RTNC_MODEM_ACQUISITION_SYMBOLS,
           read_stride filtered start (unat (pp_samples_per_symbol (mo_profile modem))) RTNC_MODEM_ACQUISITION_SYMBOLS) of
       (Some known, Some arrived) \<Rightarrow>
         (let (correlation, energy) = correlate known arrived
          in Some (if energy \<le> 0 then (0, 0)
                   else (cmod correlation / sqrt (real RTNC_MODEM_ACQUISITION_SYMBOLS * energy), Arg correlation)))
     | _ \<Rightarrow> None)"

definition acquisition_scan ::
    "'d rtnc_modem \<Rightarrow> complex list \<Rightarrow> real \<times> nat \<times> real \<Rightarrow> nat list \<Rightarrow> (real \<times> nat \<times> real) option" where
  \<comment> \<open>the best score, its start and its phase over the listed starts\<close>
  "acquisition_scan modem filtered best starts =
    run_loop (\<lambda>(best_score, best_start, best_phase) index.
        map_option (\<lambda>(score, phase).
            if score > best_score then (score, index, phase) else (best_score, best_start, best_phase))
          (acquisition_score_at modem filtered index))
      best starts"

definition acquire :: "'d rtnc_modem \<Rightarrow> complex list \<Rightarrow> nat \<Rightarrow> (real \<times> nat \<times> real) option" where
  \<comment> \<open>every fourth start, then the three around the best one on either side\<close>
  "acquire modem filtered maximum_acquisition_start =
    (case acquisition_scan modem filtered (0, 0, 0) (map ((*) 4) [0..<maximum_acquisition_start div 4 + 1]) of
       None \<Rightarrow> None
     | Some (best_score, best_start, phase) \<Rightarrow>
         (let refine_start = (if best_start > 3 then best_start - 3 else 0);
              refine_end = (if best_start + 3 < maximum_acquisition_start then best_start + 3
                            else maximum_acquisition_start)
          in acquisition_scan modem filtered (best_score, best_start, phase) [refine_start..<refine_end + 1]))"

fun filter_audio ::
    "'d liquid \<Rightarrow> 'd rtnc_modem \<Rightarrow> real list \<Rightarrow> nat \<Rightarrow> complex list \<Rightarrow> (bool \<times> 'd rtnc_modem \<times> complex list) option" where
  "filter_audio L modem [] index filtered = Some (True, modem, filtered)"
| "filter_audio L modem (sample # rest) index filtered =
    (case rtnc_carrier_downconvert L (mo_carrier modem) sample of
       (None, carrier) \<Rightarrow> Some (False, modem \<lparr> mo_carrier := carrier \<rparr>, filtered)
     | (Some baseband, carrier) \<Rightarrow>
         (case rtnc_rrc_match L (mo_rrc modem) baseband of
            (None, rrc) \<Rightarrow> Some (False, modem \<lparr> mo_carrier := carrier, mo_rrc := rrc \<rparr>, filtered)
          | (Some value, rrc) \<Rightarrow>
              (case write_at filtered index value of
                 None \<Rightarrow> None
               | Some filtered \<Rightarrow>
                   filter_audio L (modem \<lparr> mo_carrier := carrier, mo_rrc := rrc \<rparr>) rest (index + 1) filtered)))"

section \<open>Carrier and timing\<close>

definition carrier_estimate :: "complex list \<Rightarrow> nat \<Rightarrow> complex list \<Rightarrow> real \<times> real" where
  \<comment> \<open>from the 96 training symbols and the samples received for them: radians per sample, and the phase at
      the start of the training\<close>
  "carrier_estimate training sps arrived =
    (let residuals = map (\<lambda>i. arrived ! i * cnj (training ! i)) [0..<RTNC_MODEM_TRAINING_SYMBOLS];
         differential = foldl (\<lambda>sum i. sum + residuals ! i * cnj (residuals ! (i - 8))) 0
           [8..<RTNC_MODEM_TRAINING_SYMBOLS];
         radians_per_sample = Arg differential / (8 * real sps);
         coherent = foldl (\<lambda>sum i. sum + arrived ! i * cnj (training ! i)
             * cis (- (radians_per_sample * real (i * sps)))) 0 [0..<RTNC_MODEM_TRAINING_SYMBOLS]
     in (radians_per_sample, Arg coherent))"

fun recover_symbols ::
    "'d liquid \<Rightarrow> 'd rtnc_modem \<Rightarrow> real \<Rightarrow> real \<Rightarrow> nat \<Rightarrow> real list \<Rightarrow> nat \<Rightarrow> complex list \<Rightarrow> nat \<Rightarrow>
     (bool \<times> 'd rtnc_modem \<times> complex list \<times> nat) option" where
  \<comment> \<open>downconvert, remove the coarse carrier estimate and recover symbol timing\<close>
  "recover_symbols L modem phase radians_per_sample origin [] index recovered recovered_count =
    Some (True, modem, recovered, recovered_count)"
| "recover_symbols L modem phase radians_per_sample origin (sample # rest) index recovered recovered_count =
    (case rtnc_carrier_downconvert L (mo_carrier modem) sample of
       (None, carrier) \<Rightarrow> Some (False, modem \<lparr> mo_carrier := carrier \<rparr>, recovered, recovered_count)
     | (Some baseband, carrier) \<Rightarrow>
         (let correction = phase + radians_per_sample * (real index - real origin)
          in case rtnc_timing_execute L (mo_timing modem) (baseband * cis (- correction)) 4 of
               (None, timing) \<Rightarrow>
                 Some (False, modem \<lparr> mo_carrier := carrier, mo_timing := timing \<rparr>, recovered, recovered_count)
             | (Some symbols, timing) \<Rightarrow>
                 (let modem = modem \<lparr> mo_carrier := carrier, mo_timing := timing \<rparr>
                  in if recovered_count + length symbols > RTNC_MODEM_MAX_RECOVERED_SYMBOLS
                     then Some (False, modem, recovered, recovered_count)
                     else
                     case write_block recovered recovered_count symbols of
                       None \<Rightarrow> None
                     | Some recovered \<Rightarrow>
                         recover_symbols L modem phase radians_per_sample origin rest (index + 1)
                           recovered (recovered_count + length symbols))))"

definition training_score :: "'d rtnc_modem \<Rightarrow> complex list \<Rightarrow> nat \<Rightarrow> nat \<Rightarrow> real option" where
  \<comment> \<open>zero without energy, which never beats the best score\<close>
  "training_score modem recovered stride index =
    (case (read_stride (mo_training modem) RTNC_MODEM_TIMING_WARMUP_SYMBOLS 1 RTNC_MODEM_TIMING_TRAINING_SYMBOLS,
           read_stride recovered index stride RTNC_MODEM_TIMING_TRAINING_SYMBOLS) of
       (Some known, Some arrived) \<Rightarrow>
         (let (correlation, energy) = correlate known arrived
          in Some (if energy > 0
                   then cmod correlation / sqrt (real RTNC_MODEM_TIMING_TRAINING_SYMBOLS * energy) else 0))
     | _ \<Rightarrow> None)"

definition training_search :: "'d rtnc_modem \<Rightarrow> complex list \<Rightarrow> nat \<Rightarrow> nat \<Rightarrow> (real \<times> nat) option" where
  \<comment> \<open>the starts whose training window ends within the limit\<close>
  "training_search modem recovered stride limit =
    run_loop (\<lambda>(best_score, best_start) index.
        map_option (\<lambda>score. if score > best_score then (score, index) else (best_score, best_start))
          (training_score modem recovered stride index))
      (0, 0) [0..<limit + 1 - stride * RTNC_MODEM_TIMING_TRAINING_SYMBOLS]"

definition training_coherence :: "'d rtnc_modem \<Rightarrow> complex list \<Rightarrow> nat \<Rightarrow> complex option" where
  "training_coherence modem recovered best_start =
    (case (read_stride (mo_training modem) RTNC_MODEM_TIMING_WARMUP_SYMBOLS 1 RTNC_MODEM_TIMING_TRAINING_SYMBOLS,
           read_stride recovered best_start 1 RTNC_MODEM_TIMING_TRAINING_SYMBOLS) of
       (Some known, Some arrived) \<Rightarrow>
         Some (foldl (\<lambda>sum (symbol, sample). sum + sample * cnj symbol) 0 (zip known arrived))
     | _ \<Rightarrow> None)"

section \<open>From symbols to the payload\<close>

record 'd rx_outcome =
  ro_status :: rtnc_modem_status
  ro_modem :: "'d rtnc_modem"
  ro_payload :: "bytes option" \<comment> \<open>the payload and its length, where they are written\<close>
  ro_metrics :: rtnc_sync_metrics
  ro_workspace :: rtnc_modem_workspace

definition outcome ::
    "rtnc_modem_status \<Rightarrow> 'd rtnc_modem \<Rightarrow> rtnc_sync_metrics \<Rightarrow> rtnc_modem_workspace \<Rightarrow> 'd rx_outcome" where
  "outcome status modem metrics workspace =
    \<lparr> ro_status = status, ro_modem = modem, ro_payload = None, ro_metrics = metrics, ro_workspace = workspace \<rparr>"

definition parse_outcome ::
    "bytes \<Rightarrow> nat \<Rightarrow> 'd rtnc_modem \<Rightarrow> rtnc_sync_metrics \<Rightarrow> rtnc_modem_workspace \<Rightarrow> 'd rx_outcome" where
  "parse_outcome frame capacity modem metrics workspace =
    (case rtnc_frame_parse frame capacity of
       Inl _ \<Rightarrow> outcome RTNC_MODEM_FRAME_REJECTED modem metrics workspace
     | Inr payload \<Rightarrow> (outcome RTNC_MODEM_OK modem metrics workspace) \<lparr> ro_payload := Some payload \<rparr>)"

definition protected_bytes :: "'d rtnc_modem \<Rightarrow> nat" where
  "protected_bytes modem =
    RTNC_FRAME_HEADER_SIZE + unat (mo_payload_class_bytes modem) + RTNC_FRAME_CRC_SIZE"

definition evm_metrics :: "real \<Rightarrow> nat \<Rightarrow> rtnc_sync_metrics \<Rightarrow> rtnc_sync_metrics" where
  "evm_metrics evm_square_sum symbols metrics =
    (let evm_rms = sqrt (evm_square_sum / real symbols)
     in metrics \<lparr> sm_evm_rms := evm_rms, sm_training_snr_db := snr_of_evm evm_rms \<rparr>)"

definition tracked_offset :: "'d rtnc_modem \<Rightarrow> real \<Rightarrow> rtnc_sync_metrics \<Rightarrow> rtnc_sync_metrics" where
  "tracked_offset modem tracking_frequency metrics = metrics
     \<lparr> sm_carrier_offset_hz := sm_carrier_offset_hz metrics +
         tracking_frequency * real (unat (pp_symbol_rate_baud (mo_profile modem))) / (2 * pi) \<rparr>"

definition start_soft :: "rtnc_modem_workspace \<Rightarrow> real \<Rightarrow> soft_state" where
  "start_soft workspace phase = \<lparr> so_bytes = [], so_evm_square_sum = 0, so_llr = wk_llr workspace,
     so_llr_index = 0, so_phase = phase \<rparr>"

definition rx_coded ::
    "'d liquid \<Rightarrow> 'd rtnc_modem \<Rightarrow> rtnc_sync_metrics \<Rightarrow> rtnc_modem_workspace \<Rightarrow> nat \<Rightarrow> nat \<Rightarrow> real \<Rightarrow> real \<Rightarrow> nat \<Rightarrow>
     ('d rtnc_modem \<Rightarrow> rtnc_sync_metrics \<Rightarrow> rtnc_modem_workspace \<Rightarrow> 'd rx_outcome option) \<Rightarrow> 'd rx_outcome option" where
  \<comment> \<open>the LDPC modes; the last argument is what happens when FEC decoding fails\<close>
  "rx_coded L modem metrics workspace recovered_count data_start tracking_gain tracking_phase capacity failed =
    (let expected_encoded_bytes = rtnc_fec_encoded_size (mo_fec_mode modem) (protected_bytes modem);
         symbols = symbol_count expected_encoded_bytes (pp_bits_per_symbol (mo_profile modem))
     in if expected_encoded_bytes = 0 \<or> data_start + symbols > recovered_count
        then Some (outcome RTNC_MODEM_TRUNCATED_FRAME modem metrics workspace)
        else
        case decode_bytes L modem (wk_recovered workspace) data_start expected_encoded_bytes tracking_gain 0
               (start_soft workspace tracking_phase) of
          None \<Rightarrow> None
        | Some (ok, modem, st) \<Rightarrow>
            let workspace = workspace \<lparr> wk_llr := so_llr st \<rparr>
            in if \<not> ok then Some (outcome RTNC_MODEM_DSP_ERROR modem metrics workspace) else
            let metrics = evm_metrics (so_evm_square_sum st) symbols metrics;
                (status, frame, _, stats) = rtnc_fec_decode (mo_fec_mode modem)
                  (take (so_llr_index st) (so_llr st)) (replicate RTNC_MODEM_MAX_PROTECTED_BYTES 0);
                workspace = workspace \<lparr> wk_llr_count := so_llr_index st, wk_fec_stats := stats \<rparr>
            in if status \<noteq> RTNC_FEC_OK then failed modem metrics workspace else
            let declared_length = unat (frame ! 0) + 1
            in if declared_length > unat (mo_payload_class_bytes modem)
               then Some (outcome RTNC_MODEM_FRAME_REJECTED modem metrics workspace)
               else Some (parse_outcome
                      (take (RTNC_FRAME_HEADER_SIZE + declared_length + RTNC_FRAME_CRC_SIZE) frame)
                      capacity modem (tracked_offset modem 0 metrics) workspace))"

definition rx_plain ::
    "'d liquid \<Rightarrow> 'd rtnc_modem \<Rightarrow> rtnc_sync_metrics \<Rightarrow> rtnc_modem_workspace \<Rightarrow> nat \<Rightarrow> nat \<Rightarrow> real \<Rightarrow> real \<Rightarrow> nat \<Rightarrow>
     'd rx_outcome option" where
  \<comment> \<open>without FEC: the header byte first, then as many bytes as it declares, four symbols each\<close>
  "rx_plain L modem metrics workspace recovered_count data_start tracking_gain tracking_phase capacity =
    (if data_start + RTNC_FRAME_HEADER_SIZE * 4 > recovered_count
     then Some (outcome RTNC_MODEM_TRUNCATED_FRAME modem metrics workspace)
     else
     case decode_bytes L modem (wk_recovered workspace) data_start RTNC_FRAME_HEADER_SIZE tracking_gain 0
            (start_soft workspace tracking_phase) of
       None \<Rightarrow> None
     | Some (ok, modem, st) \<Rightarrow>
         if \<not> ok then Some (outcome RTNC_MODEM_DSP_ERROR modem metrics (workspace \<lparr> wk_llr := so_llr st \<rparr>)) else
         let header = so_bytes st ! 0;
             declared_length = unat header + 1;
             frame_length = RTNC_FRAME_HEADER_SIZE + declared_length + RTNC_FRAME_CRC_SIZE
         in if declared_length > RTNC_FRAME_MAX_PAYLOAD
            then Some (outcome RTNC_MODEM_FRAME_REJECTED modem metrics (workspace \<lparr> wk_llr := so_llr st \<rparr>))
            else if data_start + frame_length * 4 > recovered_count
            then Some (outcome RTNC_MODEM_TRUNCATED_FRAME modem metrics (workspace \<lparr> wk_llr := so_llr st \<rparr>))
            else
            case decode_bytes L modem (wk_recovered workspace) (data_start + RTNC_FRAME_HEADER_SIZE * 4)
                   (frame_length - RTNC_FRAME_HEADER_SIZE) tracking_gain 0 st of
              None \<Rightarrow> None
            | Some (ok, modem, st) \<Rightarrow>
                if \<not> ok then Some (outcome RTNC_MODEM_DSP_ERROR modem metrics (workspace \<lparr> wk_llr := so_llr st \<rparr>)) else
                let metrics = tracked_offset modem 0 (evm_metrics (so_evm_square_sum st) (frame_length * 4) metrics);
                    frame = buf_write (replicate RTNC_MODEM_MAX_PROTECTED_BYTES 0) 0 (header # so_bytes st);
                    (status, frame, fec_output_bytes, stats) =
                      rtnc_fec_decode (mo_fec_mode modem) (take (so_llr_index st) (so_llr st)) frame;
                    workspace = workspace \<lparr> wk_llr := so_llr st, wk_llr_count := so_llr_index st, wk_fec_stats := stats \<rparr>
                in Some (if status \<noteq> RTNC_FEC_OK \<or> fec_output_bytes \<noteq> Some frame_length
                         then outcome RTNC_MODEM_FRAME_REJECTED modem metrics workspace
                         else parse_outcome (take frame_length frame) capacity modem metrics workspace))"

section \<open>The equalizer fallback\<close>

definition decision_step :: "'d liquid \<Rightarrow> 'd rtnc_modem \<Rightarrow> complex \<Rightarrow> bool \<times> 'd rtnc_modem" where
  \<comment> \<open>adapt towards the decided symbol where the decision is close; false only where the update fails\<close>
  "decision_step L modem equalized =
    (case rtnc_psk_demap_soft L (mo_psk modem) equalized of
       (None, psk) \<Rightarrow> (True, modem \<lparr> mo_psk := psk \<rparr>)
     | (Some (decision, _, decision_error), psk) \<Rightarrow>
         if \<not> decision_error < 1 / 2 then (True, modem \<lparr> mo_psk := psk \<rparr>)
         else (case rtnc_psk_map L psk decision of
                 (None, psk) \<Rightarrow> (True, modem \<lparr> mo_psk := psk \<rparr>)
               | (Some desired, psk) \<Rightarrow>
                   (let (ok, equalizer) = rtnc_equalizer_adapt L (mo_equalizer modem) desired equalized
                    in (ok, modem \<lparr> mo_psk := psk, mo_equalizer := equalizer \<rparr>))))"

record 'd equalizer_state =
  es_modem :: "'d rtnc_modem"
  es_recovered :: "complex list"
  es_count :: nat
  es_error_sum :: real

definition read_pair :: "complex list \<Rightarrow> nat \<Rightarrow> (complex \<times> complex) option" where
  \<comment> \<open>the two samples of a symbol\<close>
  "read_pair recovered pair =
    (case (read_at recovered pair, read_at recovered (pair + 1)) of
       (Some early, Some late) \<Rightarrow> Some (early, late)
     | _ \<Rightarrow> None)"

fun equalize_pairs ::
    "'d liquid \<Rightarrow> real \<Rightarrow> nat \<Rightarrow> nat \<Rightarrow> nat \<Rightarrow> bool \<Rightarrow> 'd equalizer_state \<Rightarrow> nat list \<Rightarrow>
     (bool \<times> 'd equalizer_state) option" where
  "equalize_pairs L scale best_start data_start required_symbols decision_directed es [] = Some (True, es)"
| "equalize_pairs L scale best_start data_start required_symbols decision_directed es (pair # pairs) =
    (let recovered = es_recovered es; modem = es_modem es;
         training = (best_start \<le> pair \<and> pair < data_start)
     in case (read_pair recovered pair,
              if training
              then read_at (mo_training modem) (RTNC_MODEM_TIMING_WARMUP_SYMBOLS + (pair - best_start) div 2)
              else Some 0) of
          (Some (early, late), Some desired) \<Rightarrow>
            (case rtnc_equalizer_execute L (mo_equalizer modem)
                    (early * complex_of_real scale, late * complex_of_real scale) training desired of
               (None, equalizer) \<Rightarrow> Some (False, es \<lparr> es_modem := modem \<lparr> mo_equalizer := equalizer \<rparr> \<rparr>)
             | (Some (equalized, err), equalizer) \<Rightarrow>
                 (let modem = modem \<lparr> mo_equalizer := equalizer \<rparr>; es = es \<lparr> es_modem := modem \<rparr>
                  in if training
                     then equalize_pairs L scale best_start data_start required_symbols decision_directed
                            (es \<lparr> es_error_sum := es_error_sum es + err \<rparr>) pairs
                     else if data_start \<le> pair \<and> es_count es < required_symbols
                     then (let (ok, modem) =
                                 (if decision_directed then decision_step L modem equalized else (True, modem));
                               es = es \<lparr> es_modem := modem \<rparr>
                           in if \<not> ok then Some (False, es)
                              else
                              case write_at recovered (es_count es) equalized of
                                None \<Rightarrow> None
                              | Some recovered \<Rightarrow>
                                  equalize_pairs L scale best_start data_start required_symbols decision_directed
                                    (es \<lparr> es_recovered := recovered, es_count := es_count es + 1 \<rparr>) pairs)
                     else equalize_pairs L scale best_start data_start required_symbols decision_directed es pairs))
        | _ \<Rightarrow> None)"

definition pair_energy :: "complex list \<Rightarrow> nat \<Rightarrow> nat list \<Rightarrow> (real \<times> nat) option" where
  \<comment> \<open>energy and number of the samples of the pairs from \<open>best_start\<close> on\<close>
  "pair_energy recovered best_start pairs =
    run_loop (\<lambda>(input_energy, input_count) pair.
        if best_start \<le> pair
        then map_option (\<lambda>(early, late).
                 (input_energy + Re (early * cnj early) + Re (late * cnj late), input_count + 2))
               (read_pair recovered pair)
        else Some (input_energy, input_count))
      (0, 0) pairs"

definition sample_pairs :: "nat \<Rightarrow> nat \<Rightarrow> nat list" where
  \<comment> \<open>\<^verbatim>\<open>for (pair = first_pair; pair + 1 < recovered_count; pair += 2)\<close>\<close>
  "sample_pairs first_pair recovered_count =
    filter (\<lambda>pair. pair mod 2 = first_pair mod 2) [first_pair..<recovered_count - 1]"

definition equalizer_decode ::
    "'d liquid \<Rightarrow> 'd rtnc_modem \<Rightarrow> rtnc_sync_metrics \<Rightarrow> rtnc_modem_workspace \<Rightarrow> nat \<Rightarrow> nat \<Rightarrow> nat \<Rightarrow>
     'd rx_outcome option" where
  \<comment> \<open>demap the equalized symbols at the start of \<^verbatim>\<open>recovered\<close>, decode and parse\<close>
  "equalizer_decode L modem metrics workspace encoded_bytes required_symbols capacity =
    (case decode_bytes L modem (wk_recovered workspace) 0 encoded_bytes 1 0 (start_soft workspace 0) of
       None \<Rightarrow> None
     | Some (ok, modem, st) \<Rightarrow>
         let workspace = workspace \<lparr> wk_llr := so_llr st \<rparr>
         in if \<not> ok then Some (outcome RTNC_MODEM_DSP_ERROR modem metrics workspace) else
         let metrics = evm_metrics (so_evm_square_sum st) required_symbols metrics;
             (status, frame, _, stats) = rtnc_fec_decode (mo_fec_mode modem)
               (take (so_llr_index st) (so_llr st)) (replicate RTNC_MODEM_MAX_PROTECTED_BYTES 0);
             workspace = workspace \<lparr> wk_llr_count := so_llr_index st, wk_fec_stats := stats \<rparr>
         in if status \<noteq> RTNC_FEC_OK then Some (outcome RTNC_MODEM_FRAME_REJECTED modem metrics workspace) else
         let declared_length = unat (frame ! 0) + 1
         in if declared_length > unat (mo_payload_class_bytes modem)
            then Some (outcome RTNC_MODEM_FRAME_REJECTED modem metrics workspace)
            else Some (parse_outcome
                   (take (RTNC_FRAME_HEADER_SIZE + declared_length + RTNC_FRAME_CRC_SIZE) frame)
                   capacity modem metrics workspace))"

definition equalizer_attempt ::
    "'d liquid \<Rightarrow> 'd rtnc_modem \<Rightarrow> real list \<Rightarrow> nat \<Rightarrow> real \<Rightarrow> real \<Rightarrow> nat \<Rightarrow> rtnc_sync_metrics \<Rightarrow>
     rtnc_modem_workspace \<Rightarrow> bool \<Rightarrow> 'd rx_outcome option" where
  \<comment> \<open>from the reset of the carrier to the \<^verbatim>\<open>cleanup\<close> label, at two samples per symbol\<close>
  "equalizer_attempt L modem audio coarse_start phase radians_per_sample capacity metrics workspace decision_directed =
    (let encoded_bytes = rtnc_fec_encoded_size (mo_fec_mode modem) (protected_bytes modem);
         required_symbols = symbol_count encoded_bytes (pp_bits_per_symbol (mo_profile modem));
         modem = modem \<lparr> mo_carrier := rtnc_carrier_reset L (mo_carrier modem),
           mo_timing := rtnc_timing_reset L (mo_timing modem) \<rparr>
     in
     case recover_symbols L modem phase radians_per_sample coarse_start audio 0 (wk_recovered workspace) 0 of
       None \<Rightarrow> None
     | Some (ok, modem, recovered, recovered_count) \<Rightarrow>
     let workspace = workspace \<lparr> wk_recovered := recovered \<rparr>;
         search_limit = min recovered_count
           (2 * (RTNC_MODEM_TRAINING_SYMBOLS + 40) + nat \<lceil>sm_timing_symbols metrics * 2\<rceil>)
     in if \<not> ok then Some (outcome RTNC_MODEM_DSP_ERROR modem metrics workspace) else
     case training_search modem recovered 2 search_limit of
       None \<Rightarrow> None
     | Some (best_score, best_start) \<Rightarrow>
     if Fin best_score < pp_training_threshold (mo_profile modem)
        then Some (outcome RTNC_MODEM_NO_FRAME modem metrics workspace) else
     let data_start = best_start + 2 * RTNC_MODEM_TIMING_TRAINING_SYMBOLS;
         first_pair = best_start mod 2;
         pairs = sample_pairs first_pair recovered_count
     in
     case pair_energy recovered best_start (filter (\<lambda>pair. pair < data_start) pairs) of
       None \<Rightarrow> None
     | Some (input_energy, input_count) \<Rightarrow>
     if input_count = 0 \<or> input_energy \<le> 1 / 10 ^ 12
        then Some (outcome RTNC_MODEM_DSP_ERROR modem metrics workspace) else
     let scale = sqrt (real input_count / input_energy);
         modem = modem \<lparr> mo_equalizer := rtnc_equalizer_reset L (mo_equalizer modem) \<rparr>
     in
     case equalize_pairs L scale best_start data_start required_symbols decision_directed
            \<lparr> es_modem = modem, es_recovered = recovered, es_count = 0, es_error_sum = 0 \<rparr> pairs of
       None \<Rightarrow> None
     | Some (ok, es) \<Rightarrow>
     let modem = es_modem es;
         workspace = workspace \<lparr> wk_recovered := es_recovered es \<rparr>
     in if \<not> ok then Some (outcome RTNC_MODEM_DSP_ERROR modem metrics workspace) else
     if es_count es < required_symbols then Some (outcome RTNC_MODEM_TRUNCATED_FRAME modem metrics workspace) else
     let metrics = metrics \<lparr> sm_equalizer_used := True,
           sm_equalizer_training_error := es_error_sum es / real RTNC_MODEM_TIMING_TRAINING_SYMBOLS \<rparr>
     in case rtnc_equalizer_copy_taps L (mo_equalizer modem) RTNC_EQUALIZER_DIAGNOSTIC_TAPS of
          None \<Rightarrow> Some (outcome RTNC_MODEM_DSP_ERROR modem metrics workspace)
        | Some taps \<Rightarrow>
            equalizer_decode L modem
              (metrics \<lparr> sm_equalizer_taps := buf_write (sm_equalizer_taps metrics) 0 taps \<rparr>)
              workspace encoded_bytes required_symbols capacity)"

definition equalizer_run ::
    "'d liquid \<Rightarrow> 'd rtnc_modem \<Rightarrow> real list \<Rightarrow> nat \<Rightarrow> real \<Rightarrow> real \<Rightarrow> nat \<Rightarrow> rtnc_sync_metrics \<Rightarrow>
     rtnc_modem_workspace \<Rightarrow> bool \<Rightarrow> 'd rx_outcome option" where
  \<comment> \<open>one pass of \<^verbatim>\<open>decode_equalizer_fallback\<close>, up to the decision to try again\<close>
  "equalizer_run L modem audio coarse_start phase radians_per_sample capacity metrics workspace decision_directed =
    (if rtnc_fec_encoded_size (mo_fec_mode modem) (protected_bytes modem) = 0
     then Some (outcome RTNC_MODEM_DSP_ERROR modem metrics workspace)
     else
     let (ok, timing) = rtnc_timing_set_output_rate L (mo_timing modem) 2;
         modem = modem \<lparr> mo_timing := timing \<rparr>
     in if \<not> ok then Some (outcome RTNC_MODEM_DSP_ERROR modem metrics workspace) else
     case equalizer_attempt L modem audio coarse_start phase radians_per_sample capacity metrics workspace
            decision_directed of
       None \<Rightarrow> None
     | Some result \<Rightarrow>
         (let (ok, timing) = rtnc_timing_set_output_rate L (mo_timing (ro_modem result)) 1;
              result = result \<lparr> ro_modem := (ro_modem result) \<lparr> mo_timing := timing \<rparr> \<rparr>
          in Some (if ok then result else result \<lparr> ro_status := RTNC_MODEM_DSP_ERROR \<rparr>)))"

definition decode_equalizer_fallback ::
    "'d liquid \<Rightarrow> 'd rtnc_modem \<Rightarrow> real list \<Rightarrow> nat \<Rightarrow> real \<Rightarrow> real \<Rightarrow> nat \<Rightarrow> rtnc_sync_metrics \<Rightarrow>
     rtnc_modem_workspace \<Rightarrow> 'd rx_outcome option" where
  \<comment> \<open>called with \<^verbatim>\<open>decision_directed\<close> false; a rejected frame is tried once more with it set\<close>
  "decode_equalizer_fallback L modem audio coarse_start phase radians_per_sample capacity metrics workspace =
    (case equalizer_run L modem audio coarse_start phase radians_per_sample capacity metrics workspace False of
       None \<Rightarrow> None
     | Some result \<Rightarrow>
         if ro_status result = RTNC_MODEM_FRAME_REJECTED
         then equalizer_run L (ro_modem result) audio coarse_start phase radians_per_sample capacity
                (ro_metrics result) (ro_workspace result) True
         else Some result)"

section \<open>Receiving a frame\<close>

definition rx_track ::
    "'d liquid \<Rightarrow> 'd rtnc_modem \<Rightarrow> real list \<Rightarrow> nat \<Rightarrow> real \<Rightarrow> real \<Rightarrow> nat \<Rightarrow> rtnc_sync_metrics \<Rightarrow>
     rtnc_modem_workspace \<Rightarrow> bool \<Rightarrow> 'd rx_outcome option" where
  \<comment> \<open>timing recovery, training search, gain and phase, then the decoder of the FEC mode\<close>
  "rx_track L modem audio coarse_start phase radians_per_sample capacity metrics workspace allow_equalizer =
    (let modem = modem \<lparr> mo_carrier := rtnc_carrier_reset L (mo_carrier modem),
           mo_timing := rtnc_timing_reset L (mo_timing modem) \<rparr>
     in
     case recover_symbols L modem phase radians_per_sample coarse_start audio 0 (wk_recovered workspace) 0 of
       None \<Rightarrow> None
     | Some (ok, modem, recovered, recovered_count) \<Rightarrow>
     let workspace = workspace \<lparr> wk_recovered := recovered \<rparr>
     in if \<not> ok then Some (outcome RTNC_MODEM_DSP_ERROR modem metrics workspace) else
     case training_search modem recovered 1 recovered_count of
       None \<Rightarrow> None
     | Some (best_score, best_start) \<Rightarrow>
     let metrics = metrics \<lparr> sm_training_correlation := best_score \<rparr>
     in if Fin best_score < pp_training_threshold (mo_profile modem)
        then Some (outcome RTNC_MODEM_NO_FRAME modem metrics workspace) else
     case training_coherence modem recovered best_start of
       None \<Rightarrow> None
     | Some coherent \<Rightarrow>
     let tracking_phase = Arg coherent;
         tracking_gain = cmod coherent / real RTNC_MODEM_TIMING_TRAINING_SYMBOLS
     in if tracking_gain < 1 / 1000000 then Some (outcome RTNC_MODEM_NO_FRAME modem metrics workspace) else
     let data_start = best_start + RTNC_MODEM_TIMING_TRAINING_SYMBOLS
     in if mo_fec_mode modem = FEC_LDPC_ROBUST \<or> mo_fec_mode modem = FEC_LDPC_NORMAL
        then rx_coded L modem metrics workspace recovered_count data_start tracking_gain tracking_phase capacity
               (\<lambda>modem metrics workspace.
                  if \<not> allow_equalizer then Some (outcome RTNC_MODEM_FRAME_REJECTED modem metrics workspace)
                  else decode_equalizer_fallback L modem audio coarse_start phase radians_per_sample capacity
                         metrics workspace)
        else rx_plain L modem metrics workspace recovered_count data_start tracking_gain tracking_phase capacity)"

definition delay_symbols :: "'d rtnc_modem \<Rightarrow> nat \<Rightarrow> real" where
  \<comment> \<open>the start less the delay of both filters, in symbols\<close>
  "delay_symbols modem best_start =
    (let sps = unat (pp_samples_per_symbol (mo_profile modem));
         filter_delay_samples = 2 * RTNC_MODEM_RRC_DELAY_SYMBOLS * sps
     in if best_start \<ge> filter_delay_samples then real (best_start - filter_delay_samples) / real sps else 0)"

definition modem_rx_audio ::
    "'d liquid \<Rightarrow> 'd rtnc_modem \<Rightarrow> real list \<Rightarrow> nat \<Rightarrow> rtnc_sync_metrics \<Rightarrow> rtnc_modem_workspace \<Rightarrow> bool \<Rightarrow>
     'd rx_outcome option" where
  "modem_rx_audio L modem audio capacity metrics workspace allow_equalizer =
    (let sample_count = length audio; profile = mo_profile modem; sps = unat (pp_samples_per_symbol profile)
     in if sample_count > RTNC_MODEM_MAX_AUDIO_SAMPLES
        then Some (outcome RTNC_MODEM_INVALID_ARGUMENT modem metrics workspace) else
     let metrics = zero_metrics;
         modem = modem \<lparr> mo_rrc := rtnc_rrc_reset L (mo_rrc modem),
           mo_carrier := rtnc_carrier_reset L (mo_carrier modem) \<rparr>
     in
     case filter_audio L modem audio 0 (wk_filtered workspace) of
       None \<Rightarrow> None
     | Some (ok, modem, filtered) \<Rightarrow>
     let workspace = workspace \<lparr> wk_llr_count := 0, wk_filtered := filtered \<rparr>
     in if \<not> ok then Some (outcome RTNC_MODEM_DSP_ERROR modem metrics workspace) else
     if sample_count \<le> (RTNC_MODEM_ACQUISITION_SYMBOLS - 1) * sps
     then Some (outcome RTNC_MODEM_NO_FRAME modem metrics workspace) else
     let maximum_acquisition_start = sample_count - 1 - (RTNC_MODEM_ACQUISITION_SYMBOLS - 1) * sps
     in
     case acquire modem filtered maximum_acquisition_start of
       None \<Rightarrow> None
     | Some (best_score, best_start, phase) \<Rightarrow>
     let metrics = metrics \<lparr> sm_phase_radians := phase, sm_acquisition_correlation := best_score \<rparr>
     in if Fin best_score < pp_acquisition_threshold profile
        then Some (outcome RTNC_MODEM_NO_FRAME modem metrics workspace) else
     case (read_stride (mo_training modem) 0 1 RTNC_MODEM_TRAINING_SYMBOLS,
           read_stride filtered best_start sps RTNC_MODEM_TRAINING_SYMBOLS) of
       (Some training, Some arrived) \<Rightarrow>
         let (radians_per_sample, phase) = carrier_estimate training sps arrived;
             metrics = metrics \<lparr> sm_frame_detected := True, sm_timing_symbols := delay_symbols modem best_start,
               sm_phase_radians := phase,
               sm_carrier_offset_hz := radians_per_sample * real (unat (pp_sample_rate_hz profile)) / (2 * pi) \<rparr>
         in rx_track L modem audio best_start phase radians_per_sample capacity metrics workspace allow_equalizer
     | _ \<Rightarrow> None)"

definition rtnc_modem_rx_audio ::
    "'d liquid \<Rightarrow> 'd rtnc_modem \<Rightarrow> real list \<Rightarrow> nat \<Rightarrow> rtnc_sync_metrics \<Rightarrow> rtnc_modem_workspace \<Rightarrow> 'd rx_outcome option" where
  "rtnc_modem_rx_audio L modem audio capacity metrics workspace =
    modem_rx_audio L modem audio capacity metrics workspace True"

definition rtnc_modem_rx_audio_fast ::
    "'d liquid \<Rightarrow> 'd rtnc_modem \<Rightarrow> real list \<Rightarrow> nat \<Rightarrow> rtnc_sync_metrics \<Rightarrow> rtnc_modem_workspace \<Rightarrow> 'd rx_outcome option" where
  "rtnc_modem_rx_audio_fast L modem audio capacity metrics workspace =
    modem_rx_audio L modem audio capacity metrics workspace False"

end
