(* ===== verification/ModemSoft.thy ===== *)
theory ModemSoft
  imports ModemRx
begin

text \<open>
  From the transmitter's symbols back to the payload.  The packing of bytes into symbols is read bit by
  bit, the demapper's loop is shown to undo it (bytes and soft bits), and with the FEC and frame round
  trips the receiver's last stage returns the payload that was sent.
\<close>

section \<open>The bits of a symbol\<close>

lemma bit_times_two: "bit (s * 2 :: u32) j \<longleftrightarrow> 0 < j \<and> j < 32 \<and> bit s (j - Suc 0)"
  using bit_double_iff [of s j] by (auto simp: mult.commute [of s])

lemma pack_bits:
  fixes src :: "nat \<Rightarrow> bool" and v :: "nat \<Rightarrow> u32"
  assumes v: "\<And>b j. bit (v b) j \<longleftrightarrow> j = 0 \<and> src b" and "n \<le> 32"
  shows "bit (foldl (\<lambda>symbol b. push_bit 1 symbol OR v b) 0 [0..<n]) j \<longleftrightarrow> j < n \<and> src (n - 1 - j)"
  using assms(2)
proof (induction n arbitrary: j)
  case (Suc n)
  let ?s = "foldl (\<lambda>symbol b. push_bit 1 symbol OR v b) 0 [0..<n]"
  have "bit (foldl (\<lambda>symbol b. push_bit 1 symbol OR v b) 0 [0..<Suc n]) j \<longleftrightarrow>
      (0 < j \<and> j < 32 \<and> bit ?s (j - Suc 0)) \<or> (j = 0 \<and> src n)"
    by (simp add: bit_or_iff bit_times_two v)
  also have "\<dots> \<longleftrightarrow> (0 < j \<and> j < 32 \<and> j - 1 < n \<and> src (n - 1 - (j - 1))) \<or> (j = 0 \<and> src n)"
    using Suc.IH [of "j - 1"] Suc.prems by simp
  also have "\<dots> \<longleftrightarrow> j < Suc n \<and> src (Suc n - 1 - j)"
    using Suc.prems by (cases j) auto
  finally show ?case .
qed simp

lemma read_symbol_bit:
  assumes b: "b < unat bps" and bps: "unat bps \<le> 8"
  shows "bit (read_symbol_bits d k i bps) (unat bps - 1 - b) \<longleftrightarrow>
    i * unat bps + b < k \<and> code_bit d (i * unat bps + b)"
proof -
  let ?src = "\<lambda>b. i * unat bps + b < k \<and> code_bit d (i * unat bps + b)"
  let ?v = "\<lambda>b. if i * unat bps + b < k
    then drop_bit (7 - (i * unat bps + b) mod 8) (ucast (d ! ((i * unat bps + b) div 8)) :: u32) AND 1 else 0"
  have v: "bit (?v b) j \<longleftrightarrow> j = 0 \<and> ?src b" for b j
    by (auto simp: bit_and_iff bit_1_iff bit_drop_bit_eq bit_ucast_iff code_bit_def)
  have "read_symbol_bits d k i bps = ucast (foldl (\<lambda>symbol b. push_bit 1 symbol OR ?v b) 0 [0..<unat bps])"
    unfolding read_symbol_bits_def Let_def by (rule arg_cong [where f = ucast], rule foldl_cong) auto
  moreover have "bit (foldl (\<lambda>symbol b. push_bit 1 symbol OR ?v b) 0 [0..<unat bps]) (unat bps - 1 - b) \<longleftrightarrow>
      unat bps - 1 - b < unat bps \<and> ?src (unat bps - 1 - (unat bps - 1 - b))"
    by (rule pack_bits) (use v bps in auto)
  moreover have "unat bps - 1 - b < 8" using b bps by linarith
  ultimately show ?thesis using b bps by (simp add: bit_ucast_iff)
qed

section \<open>Storing the bits of a symbol\<close>

text \<open>
  \<open>stored e nb lo k st\<close>: of the message \<open>e\<close> of \<open>nb\<close> bytes, the first \<open>k\<close> bits have arrived, in the bytes
  and in the soft bits from position \<open>lo\<close> on.
\<close>

definition stored :: "bytes \<Rightarrow> nat \<Rightarrow> nat \<Rightarrow> nat \<Rightarrow> bytes \<Rightarrow> fp list \<Rightarrow> nat \<Rightarrow> bool" where
  "stored e nb lo k data llr llr_index \<longleftrightarrow>
     length data = nb \<and> llr_index = lo + k \<and> (\<forall>j. code_bit data j \<and> j < 8 * nb \<longleftrightarrow> j < k \<and> code_bit e j) \<and>
     (\<forall>j < k. decides (code_bit e j) (llr ! (lo + j)))"

lemma stored_step:
  assumes st: "stored e nb lo k data llr llr_index" and k: "k < 8 * nb" and room: "lo + k < length llr"
    and h: "hard = of_bool (code_bit e k)" and x: "decides (code_bit e k) x"
  shows "stored e nb lo (Suc k) (data[k div 8 := data ! (k div 8) OR push_bit (7 - k mod 8) hard])
    (llr[llr_index := x]) (llr_index + 1)"
proof -
  have len: "k div 8 < length data" using st k by (simp add: stored_def less_mult_imp_div_less mult.commute)
  let ?data = "data[k div 8 := data ! (k div 8) OR push_bit (7 - k mod 8) hard]"
  have bits: "code_bit ?data j \<longleftrightarrow> code_bit data j \<or> (j = k \<and> code_bit e k)" for j
  proof (cases "code_bit e k")
    case True
    then show ?thesis using code_bit_set [OF len, of j] h by auto
  next
    case False
    then have "?data = data" using h by simp
    with False show ?thesis by simp
  qed
  show ?thesis unfolding stored_def
  proof (intro conjI allI impI)
    show "length ?data = nb" "llr_index + 1 = lo + Suc k" using st by (simp_all add: stored_def)
    show "(code_bit ?data j \<and> j < 8 * nb) = (j < Suc k \<and> code_bit e j)" for j
      using st k unfolding bits stored_def by (auto simp: less_Suc_eq)
    show "decides (code_bit e j) (llr[llr_index := x] ! (lo + j))" if "j < Suc k" for j
      using st x room that unfolding stored_def by (auto simp: nth_list_update less_Suc_eq)
  qed
qed

lemma store_symbol_stored:
  assumes st: "stored e nb lo (min (i * bps) (8 * nb)) data llr llr_index" and room: "lo + 8 * nb \<le> length llr"
    and bps: "bps \<le> 8"
    and s: "\<And>b. b < bps \<Longrightarrow> i * bps + b < 8 * nb \<Longrightarrow> bit symbol (bps - 1 - b) = code_bit e (i * bps + b)"
    and l: "\<And>b. b < bps \<Longrightarrow> decides (bit symbol (bps - 1 - b)) (symbol_llr ! b)"
  shows "\<exists>data' llr' llr_index'. store_symbol_bits bps (8 * nb) i symbol symbol_llr (data, llr, llr_index) =
    Some (data', llr', llr_index') \<and> length llr' = length llr \<and> (\<forall>j < lo. llr' ! j = llr ! j) \<and>
    stored e nb lo (min (Suc i * bps) (8 * nb)) data' llr' llr_index'"
proof -
  let ?f = "\<lambda>(data, llr, llr_index) b.
        let destination_bit = i * bps + b
        in if destination_bit < 8 * nb
           then let hard_bit = ucast (drop_bit (bps - 1 - b) (ucast symbol :: u32) AND 1) :: u8
                in (case read_at data (destination_bit div 8) of
                      None \<Rightarrow> None
                    | Some byte \<Rightarrow>
                        map_option (\<lambda>llr.
                            (data[destination_bit div 8 := byte OR push_bit (7 - destination_bit mod 8) hard_bit],
                             llr, llr_index + 1))
                          (write_at llr llr_index (symbol_llr ! b)))
           else Some (data, llr, llr_index)"
  have "n \<le> bps \<Longrightarrow> \<exists>data' llr' llr_index'. run_loop ?f (data, llr, llr_index) [0..<n] = Some (data', llr', llr_index') \<and>
      length llr' = length llr \<and> (\<forall>j < lo. llr' ! j = llr ! j) \<and>
      stored e nb lo (min (i * bps + n) (8 * nb)) data' llr' llr_index'" for n
  proof (induction n)
    case 0
    then show ?case using st by simp
  next
    case (Suc n)
    have upt: "[0..<Suc n] = [0..<n] @ [n]" by simp
    from Suc obtain data' llr' llr_index' where ih: "run_loop ?f (data, llr, llr_index) [0..<n] = Some (data', llr', llr_index')"
      "length llr' = length llr" "\<forall>j < lo. llr' ! j = llr ! j"
      "stored e nb lo (min (i * bps + n) (8 * nb)) data' llr' llr_index'" by auto
    let ?k = "i * bps + n"
    show ?case
    proof (cases "?k < 8 * nb")
      case False
      then have "min ?k (8 * nb) = 8 * nb" "min (i * bps + Suc n) (8 * nb) = 8 * nb" by linarith+
      with ih False show ?thesis unfolding upt run_loop_snoc by simp
    next
      case True
      let ?hard = "ucast (drop_bit (bps - 1 - n) (ucast symbol :: u32) AND 1) :: u8"
      have n: "n < bps" using Suc.prems by simp
      have hard: "?hard = of_bool (code_bit e ?k)"
        unfolding s [OF n True, symmetric]
        by (rule bit_word_eqI) (use bps n in \<open>auto simp: bit_ucast_iff bit_and_iff bit_1_iff bit_drop_bit_eq bit_of_bool_iff\<close>)
      have idx: "llr_index' = lo + ?k" using ih(4) True by (simp add: stored_def)
      from stored_step [OF _ True _ hard, of lo data' llr' llr_index' "symbol_llr ! n"] ih(2,4) True room l [OF n] s [OF n True]
      have "stored e nb lo (Suc ?k) (data'[?k div 8 := data' ! (?k div 8) OR push_bit (7 - ?k mod 8) ?hard])
          (llr'[llr_index' := symbol_llr ! n]) (llr_index' + 1)" by simp
      moreover have "min (i * bps + Suc n) (8 * nb) = Suc ?k" using True by simp
      moreover have "?k div 8 < length data'" "llr_index' < length llr'"
        using ih(2,4) True room idx by (simp_all add: stored_def less_mult_imp_div_less mult.commute)
      ultimately show ?thesis using ih True idx unfolding upt run_loop_snoc
        by (simp add: Let_def read_at_def write_at_def)
    qed
  qed
  from this [of bps] show ?thesis unfolding store_symbol_bits_def by (simp add: add.commute)
qed

section \<open>Demapping a message\<close>

text \<open>
  What LiquidDSP documents of its soft demodulator: at the constellation point of a symbol it returns that
  symbol, and a soft bit of at least 128 exactly where the bit is one.  \<open>c\<close> is the constellation, \<open>Q\<close>
  holds for the demodulator objects in use.
\<close>

definition demodulates :: "'d liquid \<Rightarrow> nat \<Rightarrow> (nat \<Rightarrow> complex) \<Rightarrow> ('d \<Rightarrow> bool) \<Rightarrow> bool" where
  "demodulates L bps c Q \<longleftrightarrow> (\<forall>q s. Q q \<and> s < 2 ^ bps \<longrightarrow>
     (case modemcf_demodulate_soft L q (c s) of (ok, q', hard, soft) \<Rightarrow>
        ok \<and> Q q' \<and> hard = s \<and> length soft = bps \<and>
        (\<forall>b < bps. bit s (bps - 1 - b) \<longleftrightarrow> 128 \<le> unat (soft ! b))))"

definition demapper_ready :: "'d liquid \<Rightarrow> 'd rtnc_psk \<Rightarrow> (nat \<Rightarrow> complex) \<Rightarrow> ('d \<Rightarrow> bool) \<Rightarrow> bool" where
  "demapper_ready L psk c Q \<longleftrightarrow> unat (ps_bits_per_symbol psk) \<le> 4 \<and>
     demodulates L (unat (ps_bits_per_symbol psk)) c Q \<and> (\<exists>q. ps_demodulator psk = Some q \<and> Q q)"

lemma decides_Fin: "decides b (Fin r) \<longleftrightarrow> (if b then r < 0 else 0 < r)"
  by (simp add: decides_def)

lemma demap_soft_ok:
  assumes rdy: "demapper_ready L psk c Q" and s: "unat s < 2 ^ unat (ps_bits_per_symbol psk)"
  shows "\<exists>llr evm psk'. rtnc_psk_demap_soft L psk (c (unat s)) = (Some (s, llr, evm), psk') \<and>
    demapper_ready L psk' c Q \<and> ps_bits_per_symbol psk' = ps_bits_per_symbol psk \<and>
    ps_modulator psk' = ps_modulator psk \<and>
    (\<forall>b < unat (ps_bits_per_symbol psk). decides (bit s (unat (ps_bits_per_symbol psk) - 1 - b)) (llr ! b))"
proof -
  let ?bps = "unat (ps_bits_per_symbol psk)"
  obtain q where q: "ps_demodulator psk = Some q" "Q q" "?bps \<le> 4" "demodulates L ?bps c Q"
    using rdy by (auto simp: demapper_ready_def)
  obtain q' soft where d: "modemcf_demodulate_soft L q (c (unat s)) = (True, q', unat s, soft)" "Q q'"
    "length soft = ?bps" "\<forall>b < ?bps. bit (unat s) (?bps - 1 - b) \<longleftrightarrow> 128 \<le> unat (soft ! b)"
  proof -
    obtain ok q' hard soft where r: "modemcf_demodulate_soft L q (c (unat s)) = (ok, q', hard, soft)" by (metis prod_cases4)
    have "case modemcf_demodulate_soft L q (c (unat s)) of (ok, q', hard, soft) \<Rightarrow>
        ok \<and> Q q' \<and> hard = unat s \<and> length soft = ?bps \<and> (\<forall>b < ?bps. bit (unat s) (?bps - 1 - b) \<longleftrightarrow> 128 \<le> unat (soft ! b))"
      by (rule q(4) [unfolded demodulates_def, THEN spec, THEN spec, THEN mp]) (intro conjI q(2) s)
    then have k: "ok \<and> Q q' \<and> hard = unat s \<and> length soft = ?bps \<and>
        (\<forall>b < ?bps. bit (unat s) (?bps - 1 - b) \<longleftrightarrow> 128 \<le> unat (soft ! b))" unfolding r prod.case .
    note k1 = k [THEN conjunct1] and k2 = k [THEN conjunct2, THEN conjunct1] and k3 = k [THEN conjunct2, THEN conjunct2]
    show ?thesis
    proof (rule that)
      show "modemcf_demodulate_soft L q (c (unat s)) = (True, q', unat s, soft)"
        using r k1 k3 [THEN conjunct1] by simp
    qed (rule k2 k3 [THEN conjunct2, THEN conjunct1] k3 [THEN conjunct2, THEN conjunct2])+
  qed
  let ?buf = "buf_write (replicate 4 0) 0 (take 4 soft)"
  let ?llr = "map (\<lambda>b. Fin ((127.5 - real (unat (?buf ! b))) / 127.5)) [0..<?bps]"
  have buf: "?buf ! b = soft ! b" if "b < ?bps" for b
    using that d(3) q(3) by (simp add: buf_write_def nth_append)
  have "decides (bit s (?bps - 1 - b)) (?llr ! b)" if b: "b < ?bps" for b
  proof -
    have "bit s (?bps - 1 - b) \<longleftrightarrow> 128 \<le> unat (soft ! b)"
      using d(4) b by (simp add: bit_unsigned_iff) 
    moreover have "128 \<le> n \<Longrightarrow> 128 \<le> real n" "\<not> 128 \<le> n \<Longrightarrow> real n \<le> 127" for n by linarith+
    ultimately have "real (unat (soft ! b)) \<ge> 128 \<and> bit s (?bps - 1 - b) \<or>
        real (unat (soft ! b)) \<le> 127 \<and> \<not> bit s (?bps - 1 - b)"
      by blast
    then show ?thesis using b buf [OF b] by (auto simp: decides_Fin)
  qed
  then have l: "\<forall>b < ?bps. decides (bit s (?bps - 1 - b)) (?llr ! b)" by blast
  have "rtnc_psk_demap_soft L psk (c (unat s)) = (Some (s, ?llr, modemcf_get_demodulator_evm L q'),
      psk \<lparr> ps_demodulator := Some q' \<rparr>)"
    using q(1) d(1) unfolding rtnc_psk_demap_soft_def Let_def by simp
  moreover have "demapper_ready L (psk \<lparr> ps_demodulator := Some q' \<rparr>) c Q" using q d(2) by (simp add: demapper_ready_def)
  ultimately show ?thesis using l by fastforce
qed

lemma decode_symbols_ok:
  fixes sy :: "nat \<Rightarrow> u8"
  assumes "demapper_ready L psk c Q" and bps: "unat (ps_bits_per_symbol psk) = bps"
    and room: "so_llr_index st0 + 8 * nb \<le> length (so_llr st0)"
    and sy: "\<And>s. s < n \<Longrightarrow> start + s < length recovered \<and> unat (sy s) < 2 ^ bps \<and>
        recovered ! (start + s) / complex_of_real gain * cis (- phase) = c (unat (sy s)) \<and>
        (\<forall>b < bps. s * bps + b < 8 * nb \<longrightarrow> bit (sy s) (bps - 1 - b) = code_bit e (s * bps + b))"
    and m: "m \<le> n"
    and st: "so_phase st = phase" "length (so_llr st) = length (so_llr st0)"
      "\<forall>j < so_llr_index st0. so_llr st ! j = so_llr st0 ! j"
      "stored e nb (so_llr_index st0) (min (m * bps) (8 * nb)) (so_bytes st) (so_llr st) (so_llr_index st)"
  shows "\<exists>psk' st'. decode_symbols L psk bps recovered start (8 * nb) gain 0 st [m..<n] = Some (True, psk', st') \<and>
    demapper_ready L psk' c Q \<and> ps_bits_per_symbol psk' = ps_bits_per_symbol psk \<and>
    ps_modulator psk' = ps_modulator psk \<and> so_phase st' = phase \<and>
    length (so_llr st') = length (so_llr st0) \<and> (\<forall>j < so_llr_index st0. so_llr st' ! j = so_llr st0 ! j) \<and>
    stored e nb (so_llr_index st0) (min (n * bps) (8 * nb)) (so_bytes st') (so_llr st') (so_llr_index st')"
  using assms(1) bps m st
proof (induction "n - m" arbitrary: m psk st)
  case 0
  then have "m = n" by simp
  with 0 show ?case by auto
next
  case (Suc d)
  then have mn: "m < n" and upt: "[m..<n] = m # [Suc m..<n]" by (auto simp: upt_conv_Cons)
  note sm = sy [OF mn]
  from demap_soft_ok [OF Suc.prems(1), of "sy m", unfolded Suc.prems(2)] sm obtain llr evm psk1 where
    d: "rtnc_psk_demap_soft L psk (c (unat (sy m))) = (Some (sy m, llr, evm), psk1)" "demapper_ready L psk1 c Q"
      "ps_bits_per_symbol psk1 = ps_bits_per_symbol psk" "ps_modulator psk1 = ps_modulator psk"
      "\<forall>b < bps. decides (bit (sy m) (bps - 1 - b)) (llr ! b)" by blast
  have b8: "bps \<le> 8" using Suc.prems(1,2) by (simp add: demapper_ready_def)
  have "so_llr_index st0 + 8 * nb \<le> length (so_llr st)" using room Suc.prems(5) by simp
  from store_symbol_stored [OF Suc.prems(7) this b8, of "sy m" llr] sm d(5) obtain data' llr' llr_index' where
    s: "store_symbol_bits bps (8 * nb) m (sy m) llr (so_bytes st, so_llr st, so_llr_index st) = Some (data', llr', llr_index')"
      "length llr' = length (so_llr st)" "\<forall>j < so_llr_index st0. llr' ! j = so_llr st ! j"
      "stored e nb (so_llr_index st0) (min (Suc m * bps) (8 * nb)) data' llr' llr_index'" by blast
  let ?st = "st \<lparr> so_bytes := data', so_llr := llr', so_llr_index := llr_index',
      so_phase := so_phase st + 0, so_evm_square_sum := so_evm_square_sum st + evm * evm \<rparr>"
  have "decode_symbols L psk bps recovered start (8 * nb) gain 0 st [m..<n] =
      decode_symbols L psk1 bps recovered start (8 * nb) gain 0 ?st [Suc m..<n]"
    unfolding upt using sm d(1) s(1) Suc.prems(4) by (simp add: read_at_def)
  moreover have "\<exists>psk' st'. decode_symbols L psk1 bps recovered start (8 * nb) gain 0 ?st [Suc m..<n] = Some (True, psk', st') \<and>
    demapper_ready L psk' c Q \<and> ps_bits_per_symbol psk' = ps_bits_per_symbol psk1 \<and>
    ps_modulator psk' = ps_modulator psk1 \<and> so_phase st' = phase \<and>
    length (so_llr st') = length (so_llr st0) \<and> (\<forall>j < so_llr_index st0. so_llr st' ! j = so_llr st0 ! j) \<and>
    stored e nb (so_llr_index st0) (min (n * bps) (8 * nb)) (so_bytes st') (so_llr st') (so_llr_index st')"
    by (rule Suc.hyps) (use Suc.hyps(2) Suc.prems d s mn in simp_all)
  ultimately show ?case using d(3,4) by simp
qed

lemma stored_start: "stored e nb lo 0 (replicate nb 0) llr lo"
proof -
  have "\<not> (code_bit (replicate nb 0) j \<and> j < 8 * nb)" for j
    by (auto simp: code_bit_def less_mult_imp_div_less mult.commute)
  then show ?thesis by (simp add: stored_def)
qed

lemma stored_all:
  assumes "stored e nb lo (8 * nb) data llr k" and "nb \<le> length e"
  shows "data = take nb e"
proof (rule bytes_eq_bits)
  show "length data = length (take nb e)" using assms by (simp add: stored_def)
  fix i assume "i < 8 * length data"
  then have "i < 8 * nb" using assms(1) by (simp add: stored_def)
  then show "code_bit data i = code_bit (take nb e) i"
    using assms code_bit_take [of i nb e] by (auto simp: stored_def)
qed

text \<open>Received symbols that carry the bytes \<open>e\<close>, up to a common gain and phase.\<close>

definition carries :: "(nat \<Rightarrow> complex) \<Rightarrow> u8 \<Rightarrow> bytes \<Rightarrow> nat \<Rightarrow> real \<Rightarrow> real \<Rightarrow> complex list \<Rightarrow> nat \<Rightarrow> bool" where
  "carries c bps e n gain phase recovered start \<longleftrightarrow>
     (\<forall>s < symbol_count n bps. start + s < length recovered \<and>
        recovered ! (start + s) = c (unat (read_symbol_bits e (n * 8) s bps)) * complex_of_real gain * cis phase)"

lemma decode_bytes_ok:
  assumes rdy: "demapper_ready L (mo_psk m) c Q"
    and bps: "ps_bits_per_symbol (mo_psk m) = pp_bits_per_symbol (mo_profile m)" "0 < unat (pp_bits_per_symbol (mo_profile m))"
    and gain: "gain \<noteq> 0" and rec: "carries c (pp_bits_per_symbol (mo_profile m)) e nb gain phase recovered start"
    and room: "so_llr_index st + 8 * nb \<le> length (so_llr st)" and ph: "so_phase st = phase"
  shows "\<exists>psk' st'. decode_bytes L m recovered start nb gain 0 st = Some (True, m \<lparr> mo_psk := psk' \<rparr>, st') \<and>
    demapper_ready L psk' c Q \<and> ps_bits_per_symbol psk' = ps_bits_per_symbol (mo_psk m) \<and>
    ps_modulator psk' = ps_modulator (mo_psk m) \<and> so_phase st' = phase \<and>
    length (so_llr st') = length (so_llr st) \<and> (\<forall>j < so_llr_index st. so_llr st' ! j = so_llr st ! j) \<and>
    stored e nb (so_llr_index st) (8 * nb) (so_bytes st') (so_llr st') (so_llr_index st')"
proof -
  let ?bps = "pp_bits_per_symbol (mo_profile m)" and ?st0 = "st \<lparr> so_bytes := replicate nb 0 \<rparr>"
  let ?sym = "\<lambda>s. read_symbol_bits e (nb * 8) s ?bps"
  have b4: "unat ?bps \<le> 4" using rdy bps(1) by (simp add: demapper_ready_def)
  have undo: "c x * complex_of_real gain * cis phase / complex_of_real gain * cis (- phase) = c x" for x
    using gain by (simp add: cis_mult)
  have all: "8 * nb \<le> symbol_count nb ?bps * unat ?bps"
    using symbol_count_bounds(1) [OF bps(2), of nb] by (simp add: mult.commute)
  have "\<exists>psk' st'. decode_symbols L (mo_psk m) (unat ?bps) recovered start (8 * nb) gain 0 ?st0 [0..<symbol_count nb ?bps] =
      Some (True, psk', st') \<and> demapper_ready L psk' c Q \<and> ps_bits_per_symbol psk' = ps_bits_per_symbol (mo_psk m) \<and>
    ps_modulator psk' = ps_modulator (mo_psk m) \<and> so_phase st' = phase \<and> length (so_llr st') = length (so_llr ?st0) \<and>
    (\<forall>j < so_llr_index ?st0. so_llr st' ! j = so_llr ?st0 ! j) \<and>
    stored e nb (so_llr_index ?st0) (min (symbol_count nb ?bps * unat ?bps) (8 * nb)) (so_bytes st') (so_llr st') (so_llr_index st')"
  proof (rule decode_symbols_ok [where sy = ?sym])
    fix s assume "s < symbol_count nb ?bps"
    with rec have r: "start + s < length recovered"
      "recovered ! (start + s) = c (unat (?sym s)) * complex_of_real gain * cis phase"
      by (auto simp: carries_def)
    have "unat (?sym s) < 2 ^ unat ?bps" using read_symbol_bits_range [of e "nb * 8" s ?bps] b4 by linarith
    with r undo read_symbol_bit [of _ ?bps e "nb * 8" s] b4 show "start + s < length recovered \<and> unat (?sym s) < 2 ^ unat ?bps \<and>
        recovered ! (start + s) / complex_of_real gain * cis (- phase) = c (unat (?sym s)) \<and>
        (\<forall>b < unat ?bps. s * unat ?bps + b < 8 * nb \<longrightarrow>
           bit (?sym s) (unat ?bps - 1 - b) = code_bit e (s * unat ?bps + b))"
      by (auto simp: mult.commute)
  qed (use rdy bps room ph stored_start in simp_all)
  then show ?thesis using all unfolding decode_bytes_def Let_def
    by (auto simp: min_absorb2 mult.commute [of nb 8])
qed

section \<open>The payload comes back\<close>

lemma fec_encode_fits: "rtnc_fec_encode mode input buf = Inr (e, n) \<Longrightarrow> n \<le> length buf"
  by (auto simp: rtnc_fec_encode_def Let_def split: if_splits option.splits)

lemma protect_payload_frame:
  assumes "protect_payload mode cls payload = Some (e, n)" and "cls = 64 \<or> cls = 128"
  shows "\<exists>frame input. rtnc_frame_build payload 131 = Inr frame \<and> take (length frame) input = frame \<and>
    length frame \<le> length input \<and> length input \<le> 131 \<and> (mode = FEC_NONE \<longrightarrow> input = frame) \<and>
    rtnc_fec_encode mode input (replicate 320 0) = Inr (e, n) \<and> n \<le> 320"
proof -
  have p: "0 < length payload" "length payload \<le> unat cls"
    using assms(1) by (auto simp: protect_payload_def split: if_splits)
  have c: "unat cls \<le> 128" using assms(2) by auto
  obtain frame where f: "rtnc_frame_build payload 131 = Inr frame"
    "rtnc_fec_encode mode (take (if mode = FEC_NONE then length frame else unat cls + 3) (buf_write (replicate 131 0) 0 frame))
       (replicate 320 0) = Inr (e, n)"
    using assms(1) p by (auto simp: protect_payload_def Let_def add.commute add.left_commute numeral_3_eq_3
        split: if_splits sum.splits)
  let ?input = "take (if mode = FEC_NONE then length frame else unat cls + 3) (buf_write (replicate 131 0) 0 frame)"
  have len: "length frame = length payload + 3" using rtnc_frame_build_shape(1) [OF f(1)] .
  then have fits: "length frame \<le> length (replicate 131 (0 :: u8))" using p c by simp
  have t: "take (length frame) (buf_write (replicate 131 0) 0 frame) = frame" by (rule take_buf_write_0 [OF fits])
  have "length (buf_write (replicate 131 0) 0 frame) = 131" using fits by (simp add: length_buf_write)
  then have "length frame \<le> length ?input" "length ?input \<le> 131" using len p c by auto
  moreover have "take (length frame) ?input = frame" using t len p by (auto simp: min_def)
  moreover have "mode = FEC_NONE \<longrightarrow> ?input = frame" using t by simp
  moreover have "n \<le> 320" using fec_encode_fits [OF f(2)] by simp
  ultimately show ?thesis using f by (intro exI [of _ frame] exI [of _ ?input]) blast
qed

lemma frame_parse_build:
  assumes "rtnc_frame_build payload cap = Inr frame" and "length payload \<le> capacity"
  shows "rtnc_frame_parse frame capacity = Inr payload"
  using rtnc_frame_build_shape [OF assms(1)] assms(2) by (auto simp: rtnc_frame_parse_Inr)

lemma fec_recovers_frame:
  assumes e: "rtnc_fec_encode mode input (replicate 320 0) = Inr (e, n)" "n \<le> 320" "length input \<le> 131"
    and f: "take (length frame) input = frame" "length frame \<le> length input" "0 < length frame"
    and st: "stored e n 0 (8 * n) data llr k" and room: "8 * n \<le> length llr" and out: "length out = 160"
  shows "\<exists>out' m stats. rtnc_fec_decode mode (take k llr) out = (RTNC_FEC_OK, out', Some m, stats) \<and>
    take (length frame) out' = frame \<and> out' ! 0 = frame ! 0 \<and> (mode = FEC_NONE \<longrightarrow> m = length input)"
proof -
  have k: "k = 8 * n" using st by (simp add: stored_def)
  have "length (take k llr) = 8 * n" "\<forall>i < 8 * n. decides (code_bit e i) (take k llr ! i)"
    using st room k by (simp_all add: stored_def)
  from fec_decode_encode [OF e(1) _ this, of out] e(3) out obtain out' m stats where
    d: "rtnc_fec_decode mode (take k llr) out = (RTNC_FEC_OK, out', Some m, stats)"
      "take (length input) out' = input" by auto
  have t: "take (length frame) out' = frame" using d(2) f(1,2) by (metis min_absorb1 take_take)
  then have "out' ! 0 = frame ! 0" using f(3) nth_take [OF f(3), of out'] by simp
  moreover have "m = length input" if "mode = FEC_NONE"
    using e(1) d(1) that k room by (auto simp: rtnc_fec_encode_def rtnc_fec_decode_def Let_def split: if_splits)
  ultimately show ?thesis using d(1) t by blast
qed

text \<open>
  C30: what is sent is received.  Let a payload be protected as the transmitter does it in an LDPC mode,
  and let the recovered symbols from \<open>data_start\<close> on be the constellation points of its packed bits, up to
  one gain and one phase.  Given the library's documented soft demodulation, the receiver's last stage
  returns exactly that payload: packing, demapping, LDPC decoding, length header and checksum together.
\<close>

theorem modem_payload_roundtrip:
  assumes "protect_payload (mo_fec_mode m) (mo_payload_class_bytes m) payload = Some (e, n)"
    and "mo_fec_mode m = FEC_LDPC_ROBUST \<or> mo_fec_mode m = FEC_LDPC_NORMAL"
    and "modem_ready m" and "workspace_wf w" and "demapper_ready L (mo_psk m) c Q" and "gain \<noteq> 0"
    and "carries c (pp_bits_per_symbol (mo_profile m)) e n gain phase (wk_recovered w) data_start"
    and "data_start + symbol_count n (pp_bits_per_symbol (mo_profile m)) \<le> recovered_count"
    and "length payload \<le> capacity"
  shows "\<exists>out. rx_coded L m metrics w recovered_count data_start gain phase capacity failed = Some out \<and>
    ro_status out = RTNC_MODEM_OK \<and> ro_payload out = Some payload"
proof -
  have live: "tx_live m" "modem_arguments_ok (mo_profile m) (mo_fec_mode m) (mo_payload_class_bytes m)"
    using assms(3) by (auto simp: modem_ready_def)
  then have cls: "mo_payload_class_bytes m = 64 \<or> mo_payload_class_bytes m = 128" by (auto simp: modem_arguments_ok_def)
  note size = protect_payload_size [OF assms(1) cls]
  obtain frame input where f: "rtnc_frame_build payload 131 = Inr frame" "take (length frame) input = frame"
    "length frame \<le> length input" "length input \<le> 131" "rtnc_fec_encode (mo_fec_mode m) input (replicate 320 0) = Inr (e, n)" "n \<le> 320"
    using protect_payload_frame [OF assms(1) cls] by blast
  note shape = rtnc_frame_build_shape [OF f(1)]
  have n: "rtnc_fec_encoded_size (mo_fec_mode m) (protected_bytes m) = n" "n \<noteq> 0"
  proof -
    have "unat (mo_payload_class_bytes m) = 64 \<or> unat (mo_payload_class_bytes m) = 128" using cls by auto
    from encoded_size_class [OF this, of "mo_fec_mode m"] size(3) assms(2)
    have "n = rtnc_fec_encoded_size (mo_fec_mode m) (unat (mo_payload_class_bytes m) + 3)" "n \<noteq> 0"
      by (auto split: if_splits)
    moreover have "protected_bytes m = unat (mo_payload_class_bytes m) + 3" by (simp add: protected_bytes_def)
    ultimately show "rtnc_fec_encoded_size (mo_fec_mode m) (protected_bytes m) = n" "n \<noteq> 0" by simp_all
  qed
  let ?st = "start_soft w phase"
  have bps: "ps_bits_per_symbol (mo_psk m) = pp_bits_per_symbol (mo_profile m)" "0 < unat (pp_bits_per_symbol (mo_profile m))"
    using live tx_live_bits [OF live(1)] by (auto simp: tx_live_def)
  have room: "so_llr_index ?st + 8 * n \<le> length (so_llr ?st)"
    using assms(4) f(6) by (simp add: start_soft_def workspace_wf_def)
  obtain psk' st' where d: "decode_bytes L m (wk_recovered w) data_start n gain 0 ?st = Some (True, m \<lparr> mo_psk := psk' \<rparr>, st')"
    "length (so_llr st') = length (so_llr ?st)" "stored e n 0 (8 * n) (so_bytes st') (so_llr st') (so_llr_index st')"
    using decode_bytes_ok [OF assms(5) bps assms(6,7) room, of] by (auto simp: start_soft_def)
  have "0 < length frame" "8 * n \<le> length (so_llr st')" using shape room d(2) by (simp_all add: start_soft_def)
  from fec_recovers_frame [OF f(5,6,4,2,3) this(1) d(3) this(2), of "replicate 160 0"] obtain out' k stats where
    fd: "rtnc_fec_decode (mo_fec_mode m) (take (so_llr_index st') (so_llr st')) (replicate 160 0) = (RTNC_FEC_OK, out', Some k, stats)"
      "take (length frame) out' = frame" "out' ! 0 = frame ! 0" by auto
  have declared: "unat (out' ! 0) + 1 = length payload" using fd(3) shape(2) by simp
  then have "RTNC_FRAME_HEADER_SIZE + (unat (out' ! 0) + 1) + RTNC_FRAME_CRC_SIZE = length frame" using shape(1) by simp
  then have "take (RTNC_FRAME_HEADER_SIZE + (unat (out' ! 0) + 1) + RTNC_FRAME_CRC_SIZE) out' = frame"
    using fd(2) by (simp only:)
  moreover note frame_parse_build [OF f(1) assms(9)]
  ultimately show ?thesis using n assms(8) d(1) fd(1) declared size(2)
    by (simp add: rx_coded_def parse_outcome_def outcome_def)
qed

lemma example_demodulates: "demodulates example_liquid 2 example_point (\<lambda>_. True)"
proof -
  have two: "(\<forall>b < 2. P b) \<longleftrightarrow> P 0 \<and> P (1 :: nat)" for P by (auto simp: less_2_cases_iff)
  have four: "s = 0 \<or> s = 1 \<or> s = 2 \<or> s = 3 \<Longrightarrow>
    case modemcf_demodulate_soft example_liquid q (example_point s) of (ok, q', hard, soft) \<Rightarrow>
      ok \<and> True \<and> hard = s \<and> length soft = 2 \<and> (\<forall>b < 2. bit s (2 - 1 - b) \<longleftrightarrow> 128 \<le> unat (soft ! b))" for q s
    unfolding two by (elim disjE) (simp_all add: example_liquid_def example_point_def bit_iff_odd)
  have less: "s = 0 \<or> s = 1 \<or> s = 2 \<or> s = 3" if "s < 2 ^ 2" for s :: nat using that by auto
  show ?thesis unfolding demodulates_def by (intro allI impI, elim conjE) (rule four [OF less])
qed

theorem modem_payload_roundtrip_witness:
  "\<exists>e n w out. protect_payload FEC_LDPC_NORMAL 128 [7, 9] = Some (e, n) \<and>
     rx_coded example_liquid (example_modem FEC_LDPC_NORMAL) zero_metrics w 4000 10 (1 / 2) 1 500 (\<lambda>_ _ _. None) = Some out \<and>
     ro_status out = RTNC_MODEM_OK \<and> ro_payload out = Some [7, 9]"
proof -
  let ?m = "example_modem FEC_LDPC_NORMAL" and ?c = example_point
  note m = example_modem_ready [of FEC_LDPC_NORMAL, simplified]
  have live: "tx_live ?m" using m(1) by (simp add: modem_ready_def)
  obtain e n where p: "protect_payload FEC_LDPC_NORMAL 128 [7, 9] = Some (e, n)"
    using protect_payload_total [of "[7, 9]" 128 FEC_LDPC_NORMAL] by auto
  have n: "n = 204" using protect_payload_size(3) [OF p] by (simp add: rtnc_fec_encoded_size_def)
  have bps: "pp_bits_per_symbol (mo_profile ?m) = 2" using m(2) by (simp add: rtnc_phy_profile_qpsk_1200_def)
  let ?sent = "map (\<lambda>s. ?c (unat (read_symbol_bits e (n * 8) s 2)) * complex_of_real (1 / 2) * cis 1) [0..<816]"
  let ?w = "\<lparr> wk_filtered = replicate 90000 0, wk_recovered = replicate 10 0 @ ?sent @ replicate 3738 0,
    wk_llr = replicate 2560 0, wk_llr_count = 0, wk_fec_stats = no_stats \<rparr>"
  have sc: "symbol_count n 2 = 816" by (simp add: symbol_count_def n)
  have "demapper_ready example_liquid (mo_psk ?m) ?c (\<lambda>_. True)"
  proof -
    note example_demodulates
    moreover have "ps_bits_per_symbol (mo_psk ?m) = 2" using live bps by (simp add: tx_live_def)
    moreover have "ps_demodulator (mo_psk ?m) = Some ()" using m(1) by (auto simp: modem_ready_def)
    ultimately show ?thesis by (simp add: demapper_ready_def)
  qed
  moreover have "workspace_wf ?w" by (simp add: workspace_wf_def)
  moreover have "carries ?c 2 e n (1 / 2) 1 (wk_recovered ?w) 10"
    unfolding carries_def sc by (simp add: nth_append)
  ultimately have "\<exists>out. rx_coded example_liquid ?m zero_metrics ?w 4000 10 (1 / 2) 1 500 (\<lambda>_ _ _. None) = Some out \<and>
      ro_status out = RTNC_MODEM_OK \<and> ro_payload out = Some [7, 9]"
    using m p bps sc by (intro modem_payload_roundtrip [where e = e and n = n and c = ?c and Q = "\<lambda>_. True"]) simp_all
  with p show ?thesis by blast
qed

end
