(* ===== verification/ModemSafe.thy ===== *)
theory ModemSafe
  imports ModemRx
begin

text \<open>
  Where the receiver's array reads stay inside the arrays, where they can leave them, and how the fast
  and the full receive path relate.
\<close>

section \<open>Every loop stays inside its arrays\<close>

lemma filter_audio_defined:
  "i + length xs \<le> length f \<Longrightarrow>
   \<exists>ok m' f'. filter_audio L m xs i f = Some (ok, m', f') \<and> same_settings m m' \<and> length f' = length f"
proof (induction xs arbitrary: m i f)
  case (Cons x xs)
  obtain b c where d: "rtnc_carrier_downconvert L (mo_carrier m) x = (b, c)" by fastforce
  show ?case
  proof (cases b)
    case None
    with d show ?thesis by auto
  next
    case (Some base)
    obtain v r where r: "rtnc_rrc_match L (mo_rrc m) base = (v, r)" by fastforce
    show ?thesis
    proof (cases v)
      case None
      with d Some r show ?thesis by auto
    next
      case (Some y)
      have w: "write_at f i y = Some (f[i := y])" using Cons.prems by (simp add: write_at_def)
      from Cons.IH [of "i + 1" "f[i := y]" "m \<lparr> mo_carrier := c, mo_rrc := r \<rparr>"] Cons.prems
      show ?thesis using d r w Some \<open>b = Some base\<close> by auto
    qed
  qed
qed auto

lemma recover_symbols_defined:
  "length rc = RTNC_MODEM_MAX_RECOVERED_SYMBOLS \<Longrightarrow> cnt \<le> RTNC_MODEM_MAX_RECOVERED_SYMBOLS \<Longrightarrow>
   \<exists>ok m' rc' cnt'. recover_symbols L m ph rad origin xs i rc cnt = Some (ok, m', rc', cnt') \<and> same_settings m m' \<and>
     length rc' = RTNC_MODEM_MAX_RECOVERED_SYMBOLS \<and> cnt' \<le> RTNC_MODEM_MAX_RECOVERED_SYMBOLS"
proof (induction xs arbitrary: m i rc cnt)
  case (Cons x xs)
  obtain b c where d: "rtnc_carrier_downconvert L (mo_carrier m) x = (b, c)" by fastforce
  show ?case
  proof (cases b)
    case None
    with Cons.prems d show ?thesis by auto
  next
    case (Some base)
    obtain v t where t: "rtnc_timing_execute L (mo_timing m)
        (base * cis (- (ph + rad * (real i - real origin)))) 4 = (v, t)" by fastforce
    show ?thesis
    proof (cases v)
      case None
      with Cons.prems d Some t show ?thesis by (auto simp: Let_def)
    next
      case (Some symbols)
      let ?m = "m \<lparr> mo_carrier := c, mo_timing := t \<rparr>"
      show ?thesis
      proof (cases "cnt + length symbols > RTNC_MODEM_MAX_RECOVERED_SYMBOLS")
        case True
        with Cons.prems d Some \<open>b = Some base\<close> t show ?thesis by (auto simp: Let_def)
      next
        case False
        then have w: "write_block rc cnt symbols = Some (buf_write rc cnt symbols)"
            "length (buf_write rc cnt symbols) = RTNC_MODEM_MAX_RECOVERED_SYMBOLS"
          using Cons.prems(1) by (simp_all add: write_block_def length_buf_write)
        from Cons.IH [OF w(2), of "cnt + length symbols" ?m "i + 1"] False
        show ?thesis using d t Some \<open>b = Some base\<close> w(1) by (auto simp: Let_def)
      qed
    qed
  qed
qed auto

lemma store_symbol_defined:
  assumes "8 * length data = k" and "lo + k \<le> length llr"
  shows "\<exists>data' llr'. store_symbol_bits bps k i sy sl (data, llr, lo + min (i * bps) k) =
      Some (data', llr', lo + min (Suc i * bps) k) \<and> length data' = length data \<and> length llr' = length llr"
proof -
  let ?body = "\<lambda>(data, llr, llr_index) b.
        let destination_bit = i * bps + b
        in if destination_bit < k
           then let hard_bit = ucast (drop_bit (bps - 1 - b) (ucast sy :: u32) AND 1) :: u8
                in (case read_at data (destination_bit div 8) of
                      None \<Rightarrow> None
                    | Some byte \<Rightarrow>
                        map_option (\<lambda>llr.
                            (data[destination_bit div 8 := byte OR push_bit (7 - destination_bit mod 8) hard_bit],
                             llr, llr_index + 1))
                          (write_at llr llr_index (sl ! b)))
           else Some (data, llr, llr_index)"
  have "\<exists>data' llr'. run_loop ?body (data, llr, lo + min (i * bps) k) [0..<n] =
      Some (data', llr', lo + min (i * bps + n) k) \<and> length data' = length data \<and> length llr' = length llr" for n
  proof (induction n)
    case (Suc n)
    then obtain data' llr' where ih: "run_loop ?body (data, llr, lo + min (i * bps) k) [0..<n] =
        Some (data', llr', lo + min (i * bps + n) k)" "length data' = length data" "length llr' = length llr" by blast
    show ?case
    proof (cases "i * bps + n < k")
      case True
      then have "(i * bps + n) div 8 < length data'" "lo + (i * bps + n) < length llr'"
        using assms ih(2,3) by (simp_all add: less_mult_imp_div_less mult.commute)
      with ih True show ?thesis by (simp add: run_loop_snoc read_at_def write_at_def Let_def)
    next
      case False
      then have "min (i * bps + n) k = min (i * bps + Suc n) k" by linarith
      with ih False show ?thesis by (simp add: run_loop_snoc)
    qed
  qed simp
  from this [of bps] show ?thesis unfolding store_symbol_bits_def by (simp add: add.commute)
qed

lemma decode_symbols_defined:
  assumes "start + n \<le> length rc" and "lo + k \<le> length (so_llr st)" and "8 * length (so_bytes st) = k"
    and "so_llr_index st = lo + min (i * bps) k" and "i \<le> n"
  shows "\<exists>ok psk' st'. decode_symbols L psk bps rc start k g f st [i..<n] = Some (ok, psk', st') \<and>
    length (so_llr st') = length (so_llr st) \<and> so_llr_index st' \<le> lo + k"
  using assms
proof (induction "n - i" arbitrary: i psk st)
  case 0
  then have "[i..<n] = []" by simp
  with 0 show ?case by auto
next
  case (Suc d)
  then have less: "i < n" and upt: "[i..<n] = i # [Suc i..<n]" by (auto simp: upt_conv_Cons)
  have "start + i < length rc" using less Suc.prems(1) by simp
  then have x: "read_at rc (start + i) = Some (rc ! (start + i))" by (simp add: read_at_def)
  let ?x = "rc ! (start + i) / complex_of_real g * cis (- so_phase st)"
  obtain r psk' where d: "rtnc_psk_demap_soft L psk ?x = (r, psk')" by fastforce
  show ?case
  proof (cases r)
    case None
    with x d upt Suc.prems show ?thesis by auto
  next
    case (Some slx)
    obtain sy sl evm where slx: "slx = (sy, sl, evm)" by (cases slx)
    from store_symbol_defined [OF Suc.prems(3,2), of bps i sy sl] Suc.prems(4) obtain data' llr' where
      st: "store_symbol_bits bps k i sy sl (so_bytes st, so_llr st, so_llr_index st) =
          Some (data', llr', lo + min (Suc i * bps) k)" "length data' = length (so_bytes st)" "length llr' = length (so_llr st)"
      by auto
    let ?st = "st \<lparr> so_bytes := data', so_llr := llr', so_llr_index := lo + min (Suc i * bps) k,
        so_phase := so_phase st + f, so_evm_square_sum := so_evm_square_sum st + evm * evm \<rparr>"
    have "\<exists>ok psk'' st'. decode_symbols L psk' bps rc start k g f ?st [Suc i..<n] = Some (ok, psk'', st') \<and>
        length (so_llr st') = length (so_llr ?st) \<and> so_llr_index st' \<le> lo + k"
      by (rule Suc.hyps) (use Suc.hyps(2) Suc.prems st less in simp_all)
    then show ?thesis using x d Some slx st by (simp add: upt)
  qed
qed

lemma decode_bytes_defined:
  assumes "start + symbol_count n (pp_bits_per_symbol (mo_profile m)) \<le> length rc"
    and "so_llr_index st + 8 * n \<le> length (so_llr st)"
  shows "\<exists>ok psk st'. decode_bytes L m rc start n g f st = Some (ok, m \<lparr> mo_psk := psk \<rparr>, st') \<and>
    length (so_llr st') = length (so_llr st) \<and> so_llr_index st' \<le> so_llr_index st + 8 * n"
proof -
  let ?bps = "pp_bits_per_symbol (mo_profile m)"
  have "\<exists>ok psk' st'. decode_symbols L (mo_psk m) (unat ?bps) rc start (8 * n) g f
      (st \<lparr> so_bytes := replicate n 0 \<rparr>) [0..<symbol_count n ?bps] = Some (ok, psk', st') \<and>
      length (so_llr st') = length (so_llr (st \<lparr> so_bytes := replicate n 0 \<rparr>)) \<and> so_llr_index st' \<le> so_llr_index st + 8 * n"
    by (rule decode_symbols_defined) (use assms in simp_all)
  then show ?thesis by (auto simp: decode_bytes_def Let_def mult.commute)
qed

lemma known_symbols:
  assumes "length (mo_training m) = RTNC_MODEM_TRAINING_SYMBOLS" and "first + amount \<le> 96"
  shows "\<exists>known. read_stride (mo_training m) first 1 amount = Some known"
  using assms read_stride_Some [of amount first 1 "mo_training m"] by fastforce

lemma acquisition_score_defined:
  assumes "length (mo_training m) = RTNC_MODEM_TRAINING_SYMBOLS"
    and "start + 31 * unat (pp_samples_per_symbol (mo_profile m)) < length f"
  shows "\<exists>score phase. acquisition_score_at m f start = Some (score, phase)"
proof -
  obtain known where k: "read_stride (mo_training m) 0 1 32 = Some known" using known_symbols [OF assms(1), of 0 32] by auto
  have "\<exists>arrived. read_stride f start (unat (pp_samples_per_symbol (mo_profile m))) 32 = Some arrived"
    using assms(2) read_stride_Some [of 32 start "unat (pp_samples_per_symbol (mo_profile m))" f] by simp
  with k show ?thesis by (auto simp: acquisition_score_at_def split: prod.splits)
qed

lemma acquisition_scan_defined:
  assumes "length (mo_training m) = RTNC_MODEM_TRAINING_SYMBOLS"
    and "n + 31 * unat (pp_samples_per_symbol (mo_profile m)) < length f"
    and "\<And>s. s \<in> set starts \<Longrightarrow> s \<le> n" and "fst (snd best) \<le> n"
  shows "\<exists>best'. acquisition_scan m f best starts = Some best' \<and> fst (snd best') \<le> n"
  unfolding acquisition_scan_def
proof (rule run_loop_invariant [where P = "\<lambda>best. fst (snd best) \<le> n"])
  fix s i assume s: "fst (snd (s :: real \<times> nat \<times> real)) \<le> n" and i: "i \<in> set starts"
  obtain a b c where abc: "s = (a, b, c)" by (cases s)
  obtain score phase where "acquisition_score_at m f i = Some (score, phase)"
    using acquisition_score_defined [OF assms(1), of i f] assms(2,3) i by fastforce
  with s abc assms(3) [OF i] show "\<exists>s'. (case s of (best_score, best_start, best_phase) \<Rightarrow> \<lambda>index.
      map_option (\<lambda>(score, phase). if score > best_score then (score, index, phase) else (best_score, best_start, best_phase))
        (acquisition_score_at m f index)) i = Some s' \<and> fst (snd s') \<le> n" by simp
qed (use assms in simp_all)

lemma acquire_defined:
  assumes "length (mo_training m) = RTNC_MODEM_TRAINING_SYMBOLS"
    and "n + 31 * unat (pp_samples_per_symbol (mo_profile m)) < length f"
  shows "\<exists>score start phase. acquire m f n = Some (score, start, phase) \<and> start \<le> n"
proof -
  have coarse: "s \<le> n" if "s \<in> set (map ((*) 4) [0..<n div 4 + 1])" for s
  proof -
    from that obtain q where q: "s = 4 * q" "q \<le> n div 4" by (auto simp: less_Suc_eq_le)
    then have "s \<le> 4 * (n div 4)" by simp
    then show ?thesis using times_div_less_eq_dividend [of 4 n] by linarith
  qed
  have "\<exists>best. acquisition_scan m f (0, 0, 0) (map ((*) 4) [0..<n div 4 + 1]) = Some best \<and> fst (snd best) \<le> n"
    by (rule acquisition_scan_defined [OF assms coarse]) simp_all
  then obtain score start phase where
    a: "acquisition_scan m f (0, 0, 0) (map ((*) 4) [0..<n div 4 + 1]) = Some (score, start, phase)" "start \<le> n" by auto
  let ?fine = "[(if start > 3 then start - 3 else 0)..<(if start + 3 < n then start + 3 else n) + 1]"
  have "\<exists>best. acquisition_scan m f (score, start, phase) ?fine = Some best \<and> fst (snd best) \<le> n"
    by (rule acquisition_scan_defined [OF assms]) (use a(2) in \<open>auto split: if_splits\<close>)
  then show ?thesis using a(1) by (auto simp: acquire_def Let_def)
qed

lemma training_search_defined:
  assumes "length (mo_training m) = RTNC_MODEM_TRAINING_SYMBOLS" and "limit \<le> length rc" and "0 < stride"
  shows "\<exists>score start. training_search m rc stride limit = Some (score, start) \<and>
    (start = 0 \<or> start + stride * RTNC_MODEM_TIMING_TRAINING_SYMBOLS \<le> limit)"
proof -
  let ?inside = "\<lambda>best :: real \<times> nat. snd best = 0 \<or> snd best + stride * 32 \<le> limit"
  have "\<exists>best. training_search m rc stride limit = Some best \<and> ?inside best"
    unfolding training_search_def
  proof (rule run_loop_invariant [where P = ?inside])
    fix s i assume s: "?inside s" and i: "i \<in> set [0..<limit + 1 - stride * RTNC_MODEM_TIMING_TRAINING_SYMBOLS]"
    then have fits: "i + stride * 32 \<le> limit" by simp
    obtain a b where ab: "s = (a, b)" by (cases s)
    have "\<exists>score. training_score m rc stride i = Some score"
    proof -
      obtain known where k: "read_stride (mo_training m) 64 1 32 = Some known" using known_symbols [OF assms(1), of 64 32] by auto
      have "i + (32 - 1) * stride < length rc" using fits assms(2,3) by simp
      then have "\<exists>arrived. read_stride rc i stride 32 = Some arrived" using read_stride_Some [of 32 i stride rc] by simp
      with k show ?thesis by (auto simp: training_score_def split: prod.splits)
    qed
    then obtain score where "training_score m rc stride i = Some score" ..
    with s ab fits show "\<exists>s'. (case s of (best_score, best_start) \<Rightarrow> \<lambda>index.
        map_option (\<lambda>score. if score > best_score then (score, index) else (best_score, best_start))
          (training_score m rc stride index)) i = Some s' \<and> ?inside s'" by simp
  qed simp
  then show ?thesis by auto
qed

lemma training_coherence_defined:
  assumes "length (mo_training m) = RTNC_MODEM_TRAINING_SYMBOLS" and "start + RTNC_MODEM_TIMING_TRAINING_SYMBOLS \<le> length rc"
  shows "\<exists>coherent. training_coherence m rc start = Some coherent"
proof -
  obtain known where k: "read_stride (mo_training m) 64 1 32 = Some known" using known_symbols [OF assms(1), of 64 32] by auto
  have "\<exists>arrived. read_stride rc start 1 32 = Some arrived" using assms(2) read_stride_Some [of 32 start 1 rc] by simp
  with k show ?thesis by (auto simp: training_coherence_def)
qed

lemma sample_pairs_bound: "pair \<in> set (sample_pairs first n) \<Longrightarrow> pair + 1 < n"
  by (auto simp: sample_pairs_def)

lemma read_pair_Some: "pair + 1 < length rc \<Longrightarrow> read_pair rc pair = Some (rc ! pair, rc ! (pair + 1))"
  by (simp add: read_pair_def read_at_def)

lemma pair_energy_defined:
  assumes "\<And>pair. pair \<in> set pairs \<Longrightarrow> pair + 1 < length rc"
  shows "\<exists>energy amount. pair_energy rc start pairs = Some (energy, amount)"
proof -
  have "\<exists>s. pair_energy rc start pairs = Some s \<and> True"
    unfolding pair_energy_def
    by (rule run_loop_invariant [where P = "\<lambda>_. True"]) (auto simp: read_pair_Some [OF assms, simplified])
  then show ?thesis by auto
qed

lemma decision_step_keeps: "decision_step L m x = (ok, m') \<Longrightarrow> same_settings m m'"
  by (auto simp: decision_step_def split: prod.splits option.splits if_splits)

lemma equalize_pairs_defined:
  assumes "length (mo_training (es_modem es)) = RTNC_MODEM_TRAINING_SYMBOLS" and "req \<le> length (es_recovered es)"
    and "\<And>pair. pair \<in> set ps \<Longrightarrow> pair + 1 < length (es_recovered es)"
  shows "\<exists>ok es'. equalize_pairs L scale b (b + 2 * RTNC_MODEM_TIMING_TRAINING_SYMBOLS) req dd es ps = Some (ok, es') \<and>
   same_settings (es_modem es) (es_modem es') \<and> length (es_recovered es') = length (es_recovered es)"
  using assms
proof (induction ps arbitrary: es)
  case (Cons p ps)
  let ?d = "b + 2 * RTNC_MODEM_TIMING_TRAINING_SYMBOLS" and ?rc = "es_recovered es"
  let ?x = "(?rc ! p * complex_of_real scale, ?rc ! (p + 1) * complex_of_real scale)" and ?t = "b \<le> p \<and> p < ?d"
  let ?i = "RTNC_MODEM_TIMING_WARMUP_SYMBOLS + (p - b) div 2"
  let ?w = "if ?t then mo_training (es_modem es) ! ?i else 0"
  have x: "read_pair ?rc p = Some (?rc ! p, ?rc ! (p + 1))" using Cons.prems(3) [of p] by (simp add: read_pair_Some)
  have "?i < 96" if "?t" using that by auto
  then have t: "(if ?t then read_at (mo_training (es_modem es)) ?i else Some 0) = Some ?w"
    using Cons.prems(1) by (simp add: read_at_def)
  obtain r q where r: "rtnc_equalizer_execute L (mo_equalizer (es_modem es)) ?x ?t ?w = (r, q)" by fastforce
  let ?m = "(es_modem es) \<lparr> mo_equalizer := q \<rparr>"
  note step = equalize_pairs.simps(2) [of L scale b ?d req dd es p ps, unfolded Let_def x t option.case prod.case r]
  have rest: "\<exists>ok es''. equalize_pairs L scale b ?d req dd es' ps = Some (ok, es'') \<and>
      same_settings (es_modem es) (es_modem es'') \<and> length (es_recovered es'') = length ?rc"
    if "same_settings (es_modem es) (es_modem es')" "length (es_recovered es') = length ?rc" for es'
  proof -
    from that(1) have "mo_training (es_modem es') = mo_training (es_modem es)" by (simp add: same_settings_def)
    with Cons.IH [of es'] Cons.prems that(2) obtain ok es'' where
      "equalize_pairs L scale b ?d req dd es' ps = Some (ok, es'')" "same_settings (es_modem es') (es_modem es'')"
      "length (es_recovered es'') = length ?rc" by auto
    with that(1) show ?thesis by (blast intro: same_settings_trans)
  qed
  show ?case
  proof (cases r)
    case None
    with step show ?thesis by (auto simp del: equalize_pairs.simps)
  next
    case (Some ye)
    obtain y e where ye: "ye = (y, e)" by (cases ye)
    consider "?t" | "\<not> ?t" "?d \<le> p \<and> es_count es < req" | "\<not> ?t" "\<not> (?d \<le> p \<and> es_count es < req)" by blast
    then show ?thesis
    proof cases
      case 1
      with step Some ye have "equalize_pairs L scale b ?d req dd es (p # ps) = equalize_pairs L scale b ?d req dd
          (es \<lparr> es_modem := ?m, es_error_sum := es_error_sum es + e \<rparr>) ps" by simp
      then show ?thesis using rest [of "es \<lparr> es_modem := ?m, es_error_sum := es_error_sum es + e \<rparr>"] by simp
    next
      case 2
      obtain ok1 m1 where s: "(if dd then decision_step L ?m y else (True, ?m)) = (ok1, m1)" by fastforce
      then have same: "same_settings (es_modem es) m1"
        using decision_step_keeps [of L ?m y ok1 m1] by (auto split: if_splits)
      have w: "write_at ?rc (es_count es) y = Some (?rc[es_count es := y])"
        using 2 Cons.prems(2) by (simp add: write_at_def)
      have "equalize_pairs L scale b ?d req dd es (p # ps) = (if \<not> ok1 then Some (False, es \<lparr> es_modem := m1 \<rparr>)
          else equalize_pairs L scale b ?d req dd
            (es \<lparr> es_modem := m1, es_recovered := ?rc[es_count es := y], es_count := es_count es + 1 \<rparr>) ps)"
        using step Some ye 2 s w by simp
      then show ?thesis
        using rest [of "es \<lparr> es_modem := m1, es_recovered := ?rc[es_count es := y], es_count := es_count es + 1 \<rparr>"] same
        by (cases ok1) (auto simp del: equalize_pairs.simps)
    next
      case 3
      with step Some ye have "equalize_pairs L scale b ?d req dd es (p # ps) =
          equalize_pairs L scale b ?d req dd (es \<lparr> es_modem := ?m \<rparr>) ps" by auto
      then show ?thesis using rest [of "es \<lparr> es_modem := ?m \<rparr>"] by simp
    qed
  qed
qed auto

section \<open>No access outside the arrays\<close>

definition rx_args :: "'d rtnc_modem \<Rightarrow> bool" where
  "rx_args m \<longleftrightarrow> rtnc_phy_profile_is_valid (mo_profile m) \<and>
     (mo_payload_class_bytes m = 64 \<or> mo_payload_class_bytes m = 128) \<and> mo_fec_mode m \<noteq> FEC_LDPC_FAST \<and>
     length (mo_training m) = RTNC_MODEM_TRAINING_SYMBOLS"

definition arrays_ok :: "rtnc_modem_workspace \<Rightarrow> bool" where
  \<comment> \<open>the arrays the stages after acquisition use\<close>
  "arrays_ok w \<longleftrightarrow> length (wk_recovered w) = RTNC_MODEM_MAX_RECOVERED_SYMBOLS \<and> length (wk_llr w) = RTNC_MODEM_MAX_LLR"

lemma arrays_ok_update [simp]:
  "arrays_ok (w \<lparr> wk_llr_count := k \<rparr>) = arrays_ok w" "arrays_ok (w \<lparr> wk_fec_stats := stats \<rparr>) = arrays_ok w"
  "arrays_ok (w \<lparr> wk_filtered := f \<rparr>) = arrays_ok w"
  by (simp_all add: arrays_ok_def)

lemma rx_args_same: "same_settings m m' \<Longrightarrow> rx_args m' = rx_args m"
  by (simp add: rx_args_def same_settings_def)

lemma encoded_symbols_bound:
  assumes "rx_args m"
  shows "symbol_count (rtnc_fec_encoded_size (mo_fec_mode m) (protected_bytes m)) (pp_bits_per_symbol (mo_profile m)) \<le> 2176"
    and "rtnc_fec_encoded_size (mo_fec_mode m) (protected_bytes m) \<le> 272"
proof -
  let ?b = "pp_bits_per_symbol (mo_profile m)" and ?e = "rtnc_fec_encoded_size (mo_fec_mode m) (protected_bytes m)"
  have c: "unat (mo_payload_class_bytes m) = 64 \<or> unat (mo_payload_class_bytes m) = 128"
    using assms by (auto simp: rx_args_def)
  have p: "protected_bytes m = unat (mo_payload_class_bytes m) + 3" by (simp add: protected_bytes_def)
  have "mo_fec_mode m \<noteq> FEC_LDPC_FAST" using assms by (simp add: rx_args_def)
  from encoded_size_class [OF c this] c have e: "?e \<le> 272" unfolding p by (auto split: if_splits)
  have b: "0 < unat ?b" using assms valid_profile_bits [of "mo_profile m"]
    bits_of_modulation_range(1) [of "pp_modulation (mo_profile m)"] by (simp add: rx_args_def)
  have "symbol_count ?e ?b \<le> ?e * 8"
  proof -
    have "symbol_count ?e ?b \<le> (?e * 8 * unat ?b + (unat ?b - 1)) div unat ?b"
    proof -
      have "?e * 8 * 1 \<le> ?e * 8 * unat ?b" using b by (intro mult_le_mono2) simp
      then have "?e * 8 + unat ?b - 1 \<le> ?e * 8 * unat ?b + (unat ?b - 1)" using b by linarith
      then show ?thesis unfolding symbol_count_def by (rule div_le_mono)
    qed
    also have "\<dots> = ?e * 8 + (unat ?b - 1) div unat ?b" using b by (intro div_mult_self3) simp
    also have "(unat ?b - 1) div unat ?b = 0" using b by (intro div_less) simp
    finally show ?thesis by simp
  qed
  with e show "symbol_count ?e ?b \<le> 2176" "?e \<le> 272" by linarith+
qed

lemma equalizer_decode_defined:
  assumes "symbol_count n (pp_bits_per_symbol (mo_profile m)) \<le> RTNC_MODEM_MAX_RECOVERED_SYMBOLS" and "n \<le> 272"
    and "arrays_ok w"
  shows "\<exists>out. equalizer_decode L m me w n k cap = Some out \<and> same_settings m (ro_modem out) \<and> arrays_ok (ro_workspace out)"
proof -
  obtain ok psk st where d: "decode_bytes L m (wk_recovered w) 0 n 1 0 (start_soft w 0) = Some (ok, m \<lparr> mo_psk := psk \<rparr>, st)"
    "length (so_llr st) = RTNC_MODEM_MAX_LLR"
    using decode_bytes_defined [of 0 n m "wk_recovered w" "start_soft w 0" L 1 0] assms
    by (auto simp: arrays_ok_def start_soft_def)
  show ?thesis using assms(3) d(2) unfolding equalizer_decode_def d(1)
    by (auto simp: Let_def outcome_def parse_outcome_def arrays_ok_def split: prod.splits sum.splits)
qed

lemma equalizer_attempt_defined:
  assumes args: "rx_args m" and len: "arrays_ok w"
  shows "\<exists>out. equalizer_attempt L m audio start ph rad cap me w dd = Some out \<and> same_settings m (ro_modem out) \<and>
    arrays_ok (ro_workspace out)"
proof -
  let ?m0 = "m \<lparr> mo_carrier := rtnc_carrier_reset L (mo_carrier m), mo_timing := rtnc_timing_reset L (mo_timing m) \<rparr>"
  have "length (wk_recovered w) = RTNC_MODEM_MAX_RECOVERED_SYMBOLS" using len by (simp add: arrays_ok_def)
  from recover_symbols_defined [OF this, of 0 L ?m0 ph rad start audio 0] obtain ok m1 rc cnt where
    r: "recover_symbols L ?m0 ph rad start audio 0 (wk_recovered w) 0 = Some (ok, m1, rc, cnt)"
    and k: "same_settings m m1" "length rc = RTNC_MODEM_MAX_RECOVERED_SYMBOLS" "cnt \<le> RTNC_MODEM_MAX_RECOVERED_SYMBOLS" by auto
  have tr: "length (mo_training m1) = RTNC_MODEM_TRAINING_SYMBOLS" using args k(1) by (simp add: rx_args_def same_settings_def)
  let ?limit = "min cnt (2 * (RTNC_MODEM_TRAINING_SYMBOLS + 40) + nat \<lceil>sm_timing_symbols me * 2\<rceil>)"
  have "?limit \<le> length rc" using k(2,3) by simp
  from training_search_defined [OF tr this, of 2] obtain bs st where
    t: "training_search m1 rc 2 ?limit = Some (bs, st)" by auto
  let ?d = "st + 2 * RTNC_MODEM_TIMING_TRAINING_SYMBOLS"
  have ps: "pair + 1 < length rc" if "pair \<in> set (sample_pairs (st mod 2) cnt)" for pair
    using sample_pairs_bound [OF that] k(2,3) by simp
  obtain en ic where e: "pair_energy rc st (filter (\<lambda>pair. pair < ?d) (sample_pairs (st mod 2) cnt)) = Some (en, ic)"
    using pair_energy_defined [of "filter (\<lambda>pair. pair < ?d) (sample_pairs (st mod 2) cnt)" rc st] ps by auto
  let ?n = "rtnc_fec_encoded_size (mo_fec_mode m) (protected_bytes m)"
  let ?req = "symbol_count ?n (pp_bits_per_symbol (mo_profile m))"
  note bound = encoded_symbols_bound [OF args]
  let ?es0 = "\<lparr> es_modem = m1 \<lparr> mo_equalizer := rtnc_equalizer_reset L (mo_equalizer m1) \<rparr>, es_recovered = rc,
      es_count = 0, es_error_sum = 0 \<rparr>"
  obtain ok2 es where q: "equalize_pairs L (sqrt (real ic / en)) st ?d ?req dd ?es0 (sample_pairs (st mod 2) cnt) = Some (ok2, es)"
    and es: "same_settings m (es_modem es)" "length (es_recovered es) = RTNC_MODEM_MAX_RECOVERED_SYMBOLS"
    using equalize_pairs_defined [of ?es0 ?req "sample_pairs (st mod 2) cnt" L "sqrt (real ic / en)" st dd] tr bound ps k(1,2)
    by (auto intro: same_settings_trans)
  have "pp_bits_per_symbol (mo_profile (es_modem es)) = pp_bits_per_symbol (mo_profile m)" using es(1) by (simp add: same_settings_def)
  then have req: "symbol_count ?n (pp_bits_per_symbol (mo_profile (es_modem es))) \<le> RTNC_MODEM_MAX_RECOVERED_SYMBOLS"
    using bound by simp
  have wes: "arrays_ok (w \<lparr> wk_recovered := es_recovered es \<rparr>)" "arrays_ok (w \<lparr> wk_recovered := rc \<rparr>)"
    using len es(2) k(2) by (simp_all add: arrays_ok_def)
  have dec: "\<exists>out. equalizer_decode L (es_modem es) me' (w \<lparr> wk_recovered := es_recovered es \<rparr>) ?n ?req cap = Some out \<and>
      same_settings m (ro_modem out) \<and> arrays_ok (ro_workspace out)" for me'
    using equalizer_decode_defined [OF req bound(2) wes(1), of L me' ?req cap] es(1) by (auto intro: same_settings_trans)
  show ?thesis
  proof (cases "ok \<and> \<not> Fin bs < pp_training_threshold (mo_profile m1) \<and> \<not> (ic = 0 \<or> en \<le> 1 / 10 ^ 12) \<and> ok2 \<and>
      \<not> es_count es < ?req \<and> rtnc_equalizer_copy_taps L (mo_equalizer (es_modem es)) RTNC_EQUALIZER_DIAGNOSTIC_TAPS \<noteq> None")
    case True
    then obtain taps where taps: "rtnc_equalizer_copy_taps L (mo_equalizer (es_modem es)) RTNC_EQUALIZER_DIAGNOSTIC_TAPS = Some taps"
      by blast
    show ?thesis using True dec unfolding equalizer_attempt_def Let_def r prod.case option.case t e q taps by simp
  next
    case False
    then show ?thesis unfolding equalizer_attempt_def Let_def r prod.case option.case t e q
      using k es wes by (auto simp: outcome_def split: option.splits)
  qed
qed

lemma equalizer_run_defined:
  assumes args: "rx_args m" and len: "arrays_ok w"
  shows "\<exists>out. equalizer_run L m audio start ph rad cap me w dd = Some out \<and> rx_args (ro_modem out) \<and>
    arrays_ok (ro_workspace out)"
proof -
  obtain ok t where t: "rtnc_timing_set_output_rate L (mo_timing m) 2 = (ok, t)" by fastforce
  have args': "rx_args (m \<lparr> mo_timing := t \<rparr>)" using args by (simp add: rx_args_def)
  from equalizer_attempt_defined [OF args' len] obtain out where
    a: "equalizer_attempt L (m \<lparr> mo_timing := t \<rparr>) audio start ph rad cap me w dd = Some out"
      "same_settings (m \<lparr> mo_timing := t \<rparr>) (ro_modem out)" "arrays_ok (ro_workspace out)" by blast
  from rx_args_same [OF a(2)] args' have "rx_args (ro_modem out)" by simp
  then show ?thesis using t a(1,3) args args' len
    by (auto simp: equalizer_run_def Let_def outcome_def rx_args_def split: prod.splits)
qed

lemma fallback_defined:
  assumes "rx_args m" and "arrays_ok w"
  shows "decode_equalizer_fallback L m audio start ph rad cap me w \<noteq> None"
proof -
  from equalizer_run_defined [OF assms] obtain out where
    o: "equalizer_run L m audio start ph rad cap me w False = Some out" "rx_args (ro_modem out)"
      "arrays_ok (ro_workspace out)" by blast
  from equalizer_run_defined [OF o(2,3)] obtain out' where
    "equalizer_run L (ro_modem out) audio start ph rad cap (ro_metrics out) (ro_workspace out) True = Some out'" by blast
  with o(1) show ?thesis by (simp add: decode_equalizer_fallback_def)
qed

lemma rx_coded_defined:
  assumes args: "rx_args m" and len: "arrays_ok w" and cnt: "cnt \<le> RTNC_MODEM_MAX_RECOVERED_SYMBOLS"
    and failed: "\<And>m' me' w'. rx_args m' \<Longrightarrow> arrays_ok w' \<Longrightarrow> failed m' me' w' \<noteq> None"
  shows "rx_coded L m me w cnt d g ph cap failed \<noteq> None"
proof -
  let ?n = "rtnc_fec_encoded_size (mo_fec_mode m) (protected_bytes m)"
  let ?s = "symbol_count ?n (pp_bits_per_symbol (mo_profile m))"
  show ?thesis
  proof (cases "?n = 0 \<or> d + ?s > cnt")
    case True
    then show ?thesis by (auto simp: rx_coded_def Let_def)
  next
    case False
    then have "d + ?s \<le> length (wk_recovered w)" "so_llr_index (start_soft w ph) + 8 * ?n \<le> length (so_llr (start_soft w ph))"
      using len cnt encoded_symbols_bound(2) [OF args] by (simp_all add: arrays_ok_def start_soft_def)
    from decode_bytes_defined [OF this] obtain ok psk st where
      d: "decode_bytes L m (wk_recovered w) d ?n g 0 (start_soft w ph) = Some (ok, m \<lparr> mo_psk := psk \<rparr>, st)"
        "length (so_llr st) = length (so_llr (start_soft w ph))" by blast
    have "rx_args (m \<lparr> mo_psk := psk \<rparr>)" "arrays_ok (w \<lparr> wk_llr := so_llr st \<rparr>)"
      using args len d(2) by (simp_all add: rx_args_def arrays_ok_def start_soft_def)
    then show ?thesis using False d(1) failed [of "m \<lparr> mo_psk := psk \<rparr>"]
      by (auto simp: rx_coded_def Let_def split: prod.splits)
  qed
qed

lemma rx_plain_defined:
  assumes bps: "pp_bits_per_symbol (mo_profile m) = 2" and len: "arrays_ok w"
    and cnt: "cnt \<le> RTNC_MODEM_MAX_RECOVERED_SYMBOLS"
  shows "rx_plain L m me w cnt d g ph cap \<noteq> None"
proof -
  have sc: "symbol_count n 2 = 4 * n" for n by (simp add: symbol_count_def)
  show ?thesis
  proof (cases "d + 4 > cnt")
    case True
    then show ?thesis by (simp add: rx_plain_def)
  next
    case False
    then have "d + symbol_count 1 (pp_bits_per_symbol (mo_profile m)) \<le> length (wk_recovered w)"
      "so_llr_index (start_soft w ph) + 8 * 1 \<le> length (so_llr (start_soft w ph))"
      using len cnt by (simp_all add: bps sc arrays_ok_def start_soft_def)
    from decode_bytes_defined [OF this, of L g 0] obtain ok psk st where
      d1: "decode_bytes L m (wk_recovered w) d 1 g 0 (start_soft w ph) = Some (ok, m \<lparr> mo_psk := psk \<rparr>, st)"
        "length (so_llr st) = RTNC_MODEM_MAX_LLR" "so_llr_index st \<le> 8"
      using len by (auto simp: start_soft_def arrays_ok_def)
    let ?m = "m \<lparr> mo_psk := psk \<rparr>" and ?len = "1 + (unat (so_bytes st ! 0) + 1) + 2"
    show ?thesis
    proof (cases "ok \<and> \<not> unat (so_bytes st ! 0) + 1 > 128 \<and> \<not> d + ?len * 4 > cnt")
      case True
      then have "d + 4 + symbol_count (?len - 1) (pp_bits_per_symbol (mo_profile ?m)) \<le> length (wk_recovered w)"
        "so_llr_index st + 8 * (?len - 1) \<le> length (so_llr st)"
        using len cnt d1(2,3) by (simp_all add: bps sc arrays_ok_def)
      from decode_bytes_defined [OF this, of L g 0] obtain ok2 psk2 st2 where
        "decode_bytes L ?m (wk_recovered w) (d + 4) (?len - 1) g 0 st = Some (ok2, ?m \<lparr> mo_psk := psk2 \<rparr>, st2)" by blast
      with True False d1(1) show ?thesis by (auto simp: rx_plain_def Let_def split: prod.splits)
    next
      case f: False
      with False d1(1) show ?thesis by (auto simp: rx_plain_def Let_def)
    qed
  qed
qed

lemma rx_track_defined:
  assumes args: "rx_args m" "mo_fec_mode m = FEC_NONE \<longrightarrow> pp_bits_per_symbol (mo_profile m) = 2" and len: "arrays_ok w"
  shows "rx_track L m audio start ph rad cap me w allow \<noteq> None"
proof -
  let ?m0 = "m \<lparr> mo_carrier := rtnc_carrier_reset L (mo_carrier m), mo_timing := rtnc_timing_reset L (mo_timing m) \<rparr>"
  have "length (wk_recovered w) = RTNC_MODEM_MAX_RECOVERED_SYMBOLS" using len by (simp add: arrays_ok_def)
  from recover_symbols_defined [OF this, of 0 L ?m0 ph rad start audio 0] obtain ok m1 rc cnt where
    r: "recover_symbols L ?m0 ph rad start audio 0 (wk_recovered w) 0 = Some (ok, m1, rc, cnt)"
    and k: "same_settings m m1" "length rc = RTNC_MODEM_MAX_RECOVERED_SYMBOLS" "cnt \<le> RTNC_MODEM_MAX_RECOVERED_SYMBOLS" by auto
  have args1: "rx_args m1" "mo_fec_mode m1 = FEC_NONE \<Longrightarrow> pp_bits_per_symbol (mo_profile m1) = 2"
    using rx_args_same [OF k(1)] args k(1) by (auto simp: same_settings_def)
  have tr: "length (mo_training m1) = RTNC_MODEM_TRAINING_SYMBOLS" using args1(1) by (simp add: rx_args_def)
  have "cnt \<le> length rc" using k by simp
  from training_search_defined [OF tr this, of 1] obtain bs st where
    t: "training_search m1 rc 1 cnt = Some (bs, st)" "st + RTNC_MODEM_TIMING_TRAINING_SYMBOLS \<le> length rc"
    using k(2,3) by fastforce
  obtain coherent where c: "training_coherence m1 rc st = Some coherent"
    using training_coherence_defined [OF tr t(2)] by blast
  let ?w = "w \<lparr> wk_recovered := rc \<rparr>"
  have len1: "arrays_ok ?w" using len k(2) by (simp add: arrays_ok_def)
  let ?failed = "\<lambda>modem metrics workspace.
      if \<not> allow then Some (outcome RTNC_MODEM_FRAME_REJECTED modem metrics workspace)
      else decode_equalizer_fallback L modem audio start ph rad cap metrics workspace"
  have failed: "?failed m' me' w' \<noteq> None" if "rx_args m'" "arrays_ok w'" for m' :: "'a rtnc_modem" and me' w'
    using fallback_defined [OF that] by (cases allow) simp_all
  have coded: "rx_coded L m1 me' ?w cnt d g ph' cap ?failed \<noteq> None" for me' d g ph'
    by (rule rx_coded_defined [OF args1(1) len1 k(3) failed])
  have plain: "rx_plain L m1 me' ?w cnt d g ph' cap \<noteq> None" if "mo_fec_mode m1 = FEC_NONE" for me' d g ph'
    by (rule rx_plain_defined [OF args1(2) [OF that] len1 k(3)])
  have "mo_fec_mode m1 = FEC_LDPC_ROBUST \<or> mo_fec_mode m1 = FEC_LDPC_NORMAL \<or> mo_fec_mode m1 = FEC_NONE"
    using args1(1) by (cases "mo_fec_mode m1") (simp_all add: rx_args_def)
  then show ?thesis unfolding rx_track_def Let_def r t(1) c prod.case option.case using coded plain by (auto split: prod.splits)
qed

lemma modem_rx_defined:
  assumes "rx_args m" and "mo_fec_mode m \<noteq> FEC_NONE \<or> pp_bits_per_symbol (mo_profile m) = 2" and "workspace_wf w"
    and "RTNC_MODEM_MAX_AUDIO_SAMPLES < length audio \<or>
      length audio + 64 * unat (pp_samples_per_symbol (mo_profile m)) \<le> RTNC_MODEM_MAX_AUDIO_SAMPLES"
  shows "modem_rx_audio L m audio cap me w allow \<noteq> None"
proof (cases "RTNC_MODEM_MAX_AUDIO_SAMPLES < length audio")
  case True
  then show ?thesis by (simp add: modem_rx_audio_def)
next
  case False
  let ?sps = "unat (pp_samples_per_symbol (mo_profile m))" and ?n = "length audio"
  have fits: "?n + 64 * ?sps \<le> 90000" using assms(4) False by simp
  let ?m0 = "m \<lparr> mo_rrc := rtnc_rrc_reset L (mo_rrc m), mo_carrier := rtnc_carrier_reset L (mo_carrier m) \<rparr>"
  have f0: "length (wk_filtered w) = 90000" "arrays_ok w" using assms(3) by (simp_all add: workspace_wf_def arrays_ok_def)
  have "0 + ?n \<le> length (wk_filtered w)" using f0 fits by simp
  from filter_audio_defined [OF this] f0(1) obtain ok m1 f where
    r: "filter_audio L ?m0 audio 0 (wk_filtered w) = Some (ok, m1, f)" and k: "same_settings ?m0 m1" "length f = 90000" by metis
  from k(1) have same: "same_settings m m1" by simp
  have args1: "rx_args m1" "mo_fec_mode m1 = FEC_NONE \<longrightarrow> pp_bits_per_symbol (mo_profile m1) = 2"
    "pp_samples_per_symbol (mo_profile m1) = pp_samples_per_symbol (mo_profile m)"
    using rx_args_same [OF same] assms(1,2) same by (auto simp: same_settings_def)
  have tr: "length (mo_training m1) = RTNC_MODEM_TRAINING_SYMBOLS" using args1(1) by (simp add: rx_args_def)
  let ?w = "w \<lparr> wk_llr_count := 0, wk_filtered := f \<rparr>"
  have track: "rx_track L m1 audio start ph rad cap me' ?w allow \<noteq> None" for start ph rad me'
    by (rule rx_track_defined [OF args1(1,2)]) (simp add: f0(2))
  show ?thesis
  proof (cases "ok \<and> \<not> ?n \<le> (RTNC_MODEM_ACQUISITION_SYMBOLS - 1) * ?sps")
    case False
    then show ?thesis using r fits by (auto simp: modem_rx_audio_def Let_def)
  next
    case True
    let ?max = "?n - 1 - (RTNC_MODEM_ACQUISITION_SYMBOLS - 1) * ?sps"
    have "?max + 31 * unat (pp_samples_per_symbol (mo_profile m1)) < length f" using True fits k(2) args1(3) by simp
    from acquire_defined [OF tr this] obtain score start phase where
      a: "acquire m1 f ?max = Some (score, start, phase)" "start \<le> ?max" by blast
    obtain training where t: "read_stride (mo_training m1) 0 1 RTNC_MODEM_TRAINING_SYMBOLS = Some training"
      using known_symbols [OF tr, of 0 RTNC_MODEM_TRAINING_SYMBOLS] by auto
    have "start + 31 * ?sps < ?n" using a(2) True by auto
    then have "start + (96 - 1) * ?sps < length f" using fits k(2) by simp
    then obtain arrived where s: "read_stride f start ?sps RTNC_MODEM_TRAINING_SYMBOLS = Some arrived"
      using read_stride_Some [of 96 start ?sps f] by auto
    show ?thesis unfolding modem_rx_audio_def Let_def r prod.case option.case a(1) t s
      using True track fits by (auto split: prod.splits)
  qed
qed

text \<open>
  C32: no access outside the arrays.  With a valid profile, all 96 training symbols and a supported FEC mode
  (and QPSK where there is no FEC), a receive call on an intact workspace has a result: whatever the audio
  and whatever the library returns, on the fast path and on the full one with both equalizer attempts, no
  loop reads or writes outside \<^verbatim>\<open>filtered\<close>, \<^verbatim>\<open>recovered\<close>, \<^verbatim>\<open>llr\<close>, the training symbols or the decoded
  bytes.  The audio is either longer than the buffer, and refused, or leaves 64 symbol periods of it free.
\<close>

theorem modem_rx_in_bounds:
  assumes "rx_args m" and "mo_fec_mode m \<noteq> FEC_NONE \<or> pp_bits_per_symbol (mo_profile m) = 2" and "workspace_wf w"
    and "RTNC_MODEM_MAX_AUDIO_SAMPLES < length audio \<or>
      length audio + 64 * unat (pp_samples_per_symbol (mo_profile m)) \<le> RTNC_MODEM_MAX_AUDIO_SAMPLES"
  shows "rtnc_modem_rx_audio L m audio cap me w \<noteq> None \<and> rtnc_modem_rx_audio_fast L m audio cap me w \<noteq> None"
  using modem_rx_defined [OF assms, of L cap me] by (simp add: rtnc_modem_rx_audio_def rtnc_modem_rx_audio_fast_def)

text \<open>The witness: an intact workspace and a second of silence at 1200 baud.\<close>

definition example_workspace :: rtnc_modem_workspace where
  "example_workspace = \<lparr> wk_filtered = replicate RTNC_MODEM_MAX_AUDIO_SAMPLES 0,
     wk_recovered = replicate RTNC_MODEM_MAX_RECOVERED_SYMBOLS 0,
     wk_llr = replicate RTNC_MODEM_MAX_LLR 0, wk_llr_count = 0, wk_fec_stats = no_stats \<rparr>"

lemma example_rx_args:
  "rx_args (example_modem FEC_LDPC_NORMAL)" "mo_fec_mode (example_modem FEC_LDPC_NORMAL) = FEC_LDPC_NORMAL"
  "workspace_wf example_workspace" "pp_samples_per_symbol (mo_profile (example_modem FEC_LDPC_NORMAL)) = 40"
proof -
  note m = example_modem_ready [of FEC_LDPC_NORMAL, simplified]
  show "rx_args (example_modem FEC_LDPC_NORMAL)" "mo_fec_mode (example_modem FEC_LDPC_NORMAL) = FEC_LDPC_NORMAL"
    "workspace_wf example_workspace" "pp_samples_per_symbol (mo_profile (example_modem FEC_LDPC_NORMAL)) = 40"
    using m qpsk_1200_valid
    by (simp_all add: rx_args_def modem_ready_def workspace_wf_def example_workspace_def rtnc_phy_profile_qpsk_1200_def)
qed

theorem modem_rx_in_bounds_witness:
  "rtnc_modem_rx_audio example_liquid (example_modem FEC_LDPC_NORMAL) (replicate 48000 0) 500 zero_metrics example_workspace \<noteq> None"
  using modem_rx_in_bounds [OF example_rx_args(1) _ example_rx_args(3), of "replicate 48000 0" example_liquid 500 zero_metrics]
    example_rx_args(2,4) by simp

section \<open>The fast path\<close>

lemma decode_marks_equalizer:
  "equalizer_decode L m me w n k cap = Some out \<Longrightarrow> sm_equalizer_used (ro_metrics out) = sm_equalizer_used me"
  by (auto simp: equalizer_decode_def outcome_def parse_outcome_def evm_metrics_def Let_def
    split: option.splits prod.splits if_splits sum.splits)

lemma attempt_marks_equalizer:
  "equalizer_attempt L m audio start ph rad cap me w dd = Some out \<Longrightarrow> ro_status out = RTNC_MODEM_OK \<Longrightarrow>
   sm_equalizer_used (ro_metrics out)"
  unfolding equalizer_attempt_def Let_def
  by (auto simp: outcome_def dest!: decode_marks_equalizer split: option.splits prod.splits if_splits)

lemma run_marks_equalizer:
  "equalizer_run L m audio start ph rad cap me w dd = Some out \<Longrightarrow> ro_status out = RTNC_MODEM_OK \<Longrightarrow>
   sm_equalizer_used (ro_metrics out)"
  unfolding equalizer_run_def Let_def
  by (auto simp: outcome_def dest: attempt_marks_equalizer split: option.splits prod.splits if_splits)

lemma fallback_marks_equalizer:
  "decode_equalizer_fallback L m audio start ph rad cap me w = Some out \<Longrightarrow> ro_status out = RTNC_MODEM_OK \<Longrightarrow>
   sm_equalizer_used (ro_metrics out)"
  unfolding decode_equalizer_fallback_def
  by (auto dest: run_marks_equalizer split: option.splits if_splits)

text \<open>
  \<open>untouched m me out\<close>: neither the equalizer nor its flag has changed.  \<open>undecodable mode w\<close>: the soft
  bits a receive call left in the workspace are no LDPC codeword to the FEC decoder.
\<close>

definition untouched :: "'d rtnc_modem \<Rightarrow> rtnc_sync_metrics \<Rightarrow> 'd rx_outcome \<Rightarrow> bool" where
  "untouched m me out \<longleftrightarrow> mo_equalizer (ro_modem out) = mo_equalizer m \<and>
     sm_equalizer_used (ro_metrics out) = sm_equalizer_used me"

definition undecodable :: "fec_mode \<Rightarrow> rtnc_modem_workspace \<Rightarrow> bool" where
  "undecodable mode w \<longleftrightarrow> fst (rtnc_fec_decode mode (take (wk_llr_count w) (wk_llr w))
     (replicate RTNC_MODEM_MAX_PROTECTED_BYTES 0)) \<noteq> RTNC_FEC_OK"

lemma filter_audio_equalizer:
  "filter_audio L m xs i f = Some (ok, m', f') \<Longrightarrow> same_settings m m' \<and> mo_equalizer m' = mo_equalizer m"
  by (induction L m xs i f rule: filter_audio.induct)
    (auto simp: same_settings_def split: prod.splits option.splits)

lemma recover_symbols_equalizer:
  "recover_symbols L m ph rad origin xs i rc cnt = Some (ok, m', rc', cnt') \<Longrightarrow>
   same_settings m m' \<and> mo_equalizer m' = mo_equalizer m"
  by (induction L m ph rad origin xs i rc cnt rule: recover_symbols.induct)
    (auto simp: Let_def same_settings_def split: prod.splits option.splits if_splits)

lemma decode_bytes_modem:
  "decode_bytes L m rc start n g f st = Some (ok, m', st') \<Longrightarrow> \<exists>psk. m' = m \<lparr> mo_psk := psk \<rparr>"
  by (auto simp: decode_bytes_def Let_def split: prod.splits)

lemma rx_coded_failed_paths:
  \<comment> \<open>the two continuations of a failed FEC decode\<close>
  assumes rejects: "\<And>m me w. fails m me w = Some (outcome RTNC_MODEM_FRAME_REJECTED m me w)"
    and fast: "rx_coded L m me w cnt d g ph cap fails = Some out"
  shows "untouched m me out \<and>
    rx_coded L m me w cnt d g ph cap retries =
      (if ro_status out = RTNC_MODEM_FRAME_REJECTED \<and> undecodable (mo_fec_mode m) (ro_workspace out)
       then retries (ro_modem out) (ro_metrics out) (ro_workspace out) else Some out)"
proof -
  let ?n = "rtnc_fec_encoded_size (mo_fec_mode m) (protected_bytes m)"
  let ?k = "symbol_count ?n (pp_bits_per_symbol (mo_profile m))"
  show ?thesis
  proof (cases "?n = 0 \<or> d + ?k > cnt")
    case True
    with fast show ?thesis by (auto simp: rx_coded_def Let_def outcome_def untouched_def)
  next
    case False
    obtain ok m' st where b: "decode_bytes L m (wk_recovered w) d ?n g 0 (start_soft w ph) = Some (ok, m', st)"
      using fast False by (auto simp: rx_coded_def Let_def split: option.splits prod.splits)
    from decode_bytes_modem [OF b] obtain psk where m': "m' = m \<lparr> mo_psk := psk \<rparr>" ..
    show ?thesis
    proof (cases ok)
      case False
      with fast \<open>\<not> (?n = 0 \<or> d + ?k > cnt)\<close> b m' show ?thesis
        by (auto simp: rx_coded_def Let_def outcome_def untouched_def)
    next
      case True
      obtain status frame size' stats where fec: "rtnc_fec_decode (mo_fec_mode m) (take (so_llr_index st) (so_llr st))
          (replicate RTNC_MODEM_MAX_PROTECTED_BYTES 0) = (status, frame, size', stats)" by (metis prod_cases4)
      let ?w = "w \<lparr> wk_llr := so_llr st, wk_llr_count := so_llr_index st, wk_fec_stats := stats \<rparr>"
      let ?me = "evm_metrics (so_evm_square_sum st) ?k me"
      have "undecodable (mo_fec_mode m) ?w \<longleftrightarrow> status \<noteq> RTNC_FEC_OK" using fec by (simp add: undecodable_def)
      moreover have "rx_coded L m me w cnt d g ph cap next =
          (if status \<noteq> RTNC_FEC_OK then next m' ?me ?w else
           let declared_length = unat (frame ! 0) + 1
            in if declared_length > unat (mo_payload_class_bytes m')
               then Some (outcome RTNC_MODEM_FRAME_REJECTED m' ?me ?w)
               else Some (parse_outcome
                      (take (RTNC_FRAME_HEADER_SIZE + declared_length + RTNC_FRAME_CRC_SIZE) frame)
                      cap m' (tracked_offset m' 0 ?me) ?w))" for "next"
        using False True b fec m' by (simp add: rx_coded_def Let_def)
      moreover have "sm_equalizer_used ?me = sm_equalizer_used me" by (simp add: evm_metrics_def Let_def)
      moreover have "sm_equalizer_used (tracked_offset m' 0 ?me) = sm_equalizer_used me"
        by (simp add: evm_metrics_def tracked_offset_def Let_def)
      ultimately show ?thesis using fast m'
        by (auto simp: rejects untouched_def parse_outcome_def outcome_def Let_def split: sum.splits if_splits)
    qed
  qed
qed

lemma rx_plain_untouched: "rx_plain L m me w cnt d g ph cap = Some out \<Longrightarrow> untouched m me out"
  by (auto simp: rx_plain_def Let_def outcome_def untouched_def parse_outcome_def tracked_offset_def evm_metrics_def
    dest!: decode_bytes_modem split: option.splits prod.splits if_splits sum.splits)

lemma rx_track_fast:
  assumes "rx_track L m audio start ph rad cap me w False = Some out"
  shows "untouched m me out \<and>
    rx_track L m audio start ph rad cap me w True =
      (if ro_status out = RTNC_MODEM_FRAME_REJECTED \<and>
          (mo_fec_mode m = FEC_LDPC_ROBUST \<or> mo_fec_mode m = FEC_LDPC_NORMAL) \<and>
          undecodable (mo_fec_mode m) (ro_workspace out)
       then decode_equalizer_fallback L (ro_modem out) audio start ph rad cap (ro_metrics out) (ro_workspace out)
       else Some out)"
proof -
  let ?m0 = "m \<lparr> mo_carrier := rtnc_carrier_reset L (mo_carrier m), mo_timing := rtnc_timing_reset L (mo_timing m) \<rparr>"
  obtain ok m1 rc cnt where r: "recover_symbols L ?m0 ph rad start audio 0 (wk_recovered w) 0 = Some (ok, m1, rc, cnt)"
    using assms by (auto simp: rx_track_def Let_def split: option.splits)
  from recover_symbols_equalizer [OF r] have k: "mo_fec_mode m1 = mo_fec_mode m" "mo_equalizer m1 = mo_equalizer m"
    by (simp_all add: same_settings_def)
  then have u: "untouched m1 (me \<lparr> sm_training_correlation := c \<rparr>) o' = untouched m me o'" for o' c
    by (simp add: untouched_def)
  show ?thesis
  proof (cases ok)
    case False
    with assms r k show ?thesis by (auto simp: rx_track_def Let_def outcome_def untouched_def)
  next
    case True
    obtain bs st where t: "training_search m1 rc 1 cnt = Some (bs, st)"
      using assms r True by (auto simp: rx_track_def Let_def split: option.splits)
    show ?thesis
    proof (cases "Fin bs < pp_training_threshold (mo_profile m1)")
      case True
      with assms r \<open>ok\<close> t k show ?thesis by (auto simp: rx_track_def Let_def outcome_def untouched_def)
    next
      case False
      obtain c where c: "training_coherence m1 rc st = Some c"
        using assms r \<open>ok\<close> t False by (auto simp: rx_track_def Let_def split: option.splits)
      let ?me = "me \<lparr> sm_training_correlation := bs \<rparr>" and ?w = "w \<lparr> wk_recovered := rc \<rparr>"
      let ?g = "cmod c / real RTNC_MODEM_TIMING_TRAINING_SYMBOLS" and ?d = "st + RTNC_MODEM_TIMING_TRAINING_SYMBOLS"
      let ?next = "\<lambda>allow modem metrics workspace.
          if \<not> allow then Some (outcome RTNC_MODEM_FRAME_REJECTED modem metrics workspace)
          else decode_equalizer_fallback L modem audio start ph rad cap metrics workspace"
      have e: "rx_track L m audio start ph rad cap me w allow =
          (if ?g < 1 / 1000000 then Some (outcome RTNC_MODEM_NO_FRAME m1 ?me ?w) else
           if mo_fec_mode m = FEC_LDPC_ROBUST \<or> mo_fec_mode m = FEC_LDPC_NORMAL
           then rx_coded L m1 ?me ?w cnt ?d ?g (Arg c) cap (?next allow)
           else rx_plain L m1 ?me ?w cnt ?d ?g (Arg c) cap)" for allow
        using \<open>ok\<close> False k(1) unfolding rx_track_def Let_def r option.case prod.case t c by simp
      have o: "untouched m me (outcome RTNC_MODEM_NO_FRAME m1 ?me ?w)" using k by (simp add: untouched_def outcome_def)
      show ?thesis using assms o rx_plain_untouched [of L m1 ?me ?w cnt ?d ?g "Arg c" cap out]
          rx_coded_failed_paths [of "?next False" L m1 ?me ?w cnt ?d ?g "Arg c" cap out "?next True"]
        unfolding e u k(1) by (auto simp: outcome_def split: if_splits)
    qed
  qed
qed

lemma modem_rx_fast:
  assumes fast: "modem_rx_audio L m audio cap me w False = Some out"
  shows "mo_equalizer (ro_modem out) = mo_equalizer m \<and>
    (sm_equalizer_used (ro_metrics out) \<longleftrightarrow> RTNC_MODEM_MAX_AUDIO_SAMPLES < length audio \<and> sm_equalizer_used me) \<and>
    (\<exists>start ph rad. modem_rx_audio L m audio cap me w True =
      (if ro_status out = RTNC_MODEM_FRAME_REJECTED \<and>
          (mo_fec_mode m = FEC_LDPC_ROBUST \<or> mo_fec_mode m = FEC_LDPC_NORMAL) \<and>
          undecodable (mo_fec_mode m) (ro_workspace out)
       then decode_equalizer_fallback L (ro_modem out) audio start ph rad cap (ro_metrics out) (ro_workspace out)
       else Some out))"
proof (cases "RTNC_MODEM_MAX_AUDIO_SAMPLES < length audio")
  case True
  with fast show ?thesis by (auto simp: modem_rx_audio_def outcome_def Let_def)
next
  case False
  let ?m0 = "m \<lparr> mo_rrc := rtnc_rrc_reset L (mo_rrc m), mo_carrier := rtnc_carrier_reset L (mo_carrier m) \<rparr>"
  let ?sps = "unat (pp_samples_per_symbol (mo_profile m))"
  let ?max = "length audio - 1 - (RTNC_MODEM_ACQUISITION_SYMBOLS - 1) * ?sps"
  have z: "\<not> sm_equalizer_used zero_metrics" by (simp add: zero_metrics_def)
  obtain ok m1 f where r: "filter_audio L ?m0 audio 0 (wk_filtered w) = Some (ok, m1, f)"
    using fast False by (auto simp: modem_rx_audio_def Let_def split: option.splits)
  from filter_audio_equalizer [OF r] have k: "mo_fec_mode m1 = mo_fec_mode m" "mo_equalizer m1 = mo_equalizer m"
    by (simp_all add: same_settings_def)
  show ?thesis
  proof (cases "ok \<and> \<not> length audio \<le> (RTNC_MODEM_ACQUISITION_SYMBOLS - 1) * ?sps")
    case f: False
    with fast False r k z show ?thesis by (auto simp: modem_rx_audio_def Let_def outcome_def)
  next
    case True
    obtain score start phase where a: "acquire m1 f ?max = Some (score, start, phase)"
      using fast False r True by (auto simp: modem_rx_audio_def Let_def split: option.splits)
    show ?thesis
    proof (cases "Fin score < pp_acquisition_threshold (mo_profile m)")
      case t: True
      with fast False r True a k z show ?thesis by (auto simp: modem_rx_audio_def Let_def outcome_def)
    next
      case t: False
      obtain training arrived where s: "read_stride (mo_training m1) 0 1 RTNC_MODEM_TRAINING_SYMBOLS = Some training"
        "read_stride f start ?sps RTNC_MODEM_TRAINING_SYMBOLS = Some arrived"
        using fast False r True a t by (auto simp: modem_rx_audio_def Let_def split: option.splits prod.splits)
      obtain rad ph where c: "carrier_estimate training ?sps arrived = (rad, ph)" by fastforce
      define me' where "me' = zero_metrics \<lparr> sm_phase_radians := phase, sm_acquisition_correlation := score,
          sm_frame_detected := True, sm_timing_symbols := delay_symbols m1 start, sm_phase_radians := ph,
          sm_carrier_offset_hz := rad * real (unat (pp_sample_rate_hz (mo_profile m))) / (2 * pi) \<rparr>"
      then have me': "\<not> sm_equalizer_used me'" using z by simp
      have e: "modem_rx_audio L m audio cap me w allow =
          rx_track L m1 audio start ph rad cap me' (w \<lparr> wk_llr_count := 0, wk_filtered := f \<rparr>) allow" for allow
        using False True t unfolding modem_rx_audio_def me'_def Let_def r option.case prod.case a s c by simp
      from rx_track_fast [OF fast [unfolded e]] me' False k show ?thesis unfolding e k(1)
        by (auto simp: untouched_def k(2))
    qed
  qed
qed

text \<open>
  C33: the fast receive path is the full one without its last resort.  A fast call never uses the equalizer:
  the modem's equalizer is the one it was given and the metrics say that it was not used.  The full path gives
  the very same outcome (status, payload, metrics, modem and workspace), except where the fast one rejects an
  LDPC frame whose soft bits do not decode; there it continues with the equalizer from exactly the state the
  fast path ends in, and a frame it then delivers is marked as equalized.
\<close>

theorem modem_fast_equivalence:
  assumes "rtnc_modem_rx_audio_fast L m audio cap me w = Some out"
  shows "mo_equalizer (ro_modem out) = mo_equalizer m \<and>
    (sm_equalizer_used (ro_metrics out) \<longleftrightarrow> RTNC_MODEM_MAX_AUDIO_SAMPLES < length audio \<and> sm_equalizer_used me) \<and>
    (if ro_status out = RTNC_MODEM_FRAME_REJECTED \<and>
        (mo_fec_mode m = FEC_LDPC_ROBUST \<or> mo_fec_mode m = FEC_LDPC_NORMAL) \<and>
        undecodable (mo_fec_mode m) (ro_workspace out)
     then (\<exists>start ph rad. rtnc_modem_rx_audio L m audio cap me w =
             decode_equalizer_fallback L (ro_modem out) audio start ph rad cap (ro_metrics out) (ro_workspace out)) \<and>
          (\<forall>full. rtnc_modem_rx_audio L m audio cap me w = Some full \<longrightarrow> ro_status full = RTNC_MODEM_OK \<longrightarrow>
             sm_equalizer_used (ro_metrics full))
     else rtnc_modem_rx_audio L m audio cap me w = Some out)"
proof -
  from modem_rx_fast [of L m audio cap me w out] assms obtain start ph rad where
    keeps: "mo_equalizer (ro_modem out) = mo_equalizer m"
      "sm_equalizer_used (ro_metrics out) \<longleftrightarrow> RTNC_MODEM_MAX_AUDIO_SAMPLES < length audio \<and> sm_equalizer_used me"
    and full: "rtnc_modem_rx_audio L m audio cap me w =
      (if ro_status out = RTNC_MODEM_FRAME_REJECTED \<and>
          (mo_fec_mode m = FEC_LDPC_ROBUST \<or> mo_fec_mode m = FEC_LDPC_NORMAL) \<and>
          undecodable (mo_fec_mode m) (ro_workspace out)
       then decode_equalizer_fallback L (ro_modem out) audio start ph rad cap (ro_metrics out) (ro_workspace out)
       else Some out)"
    unfolding rtnc_modem_rx_audio_def rtnc_modem_rx_audio_fast_def by blast
  with fallback_marks_equalizer show ?thesis by (auto simp: keeps)
qed

text \<open>The witness: a second of silence to a modem with the NORMAL code.\<close>

theorem modem_fast_equivalence_witness:
  "\<exists>out. rtnc_modem_rx_audio_fast example_liquid (example_modem FEC_LDPC_NORMAL) (replicate 48000 0) 500
       zero_metrics example_workspace = Some out \<and>
     mo_equalizer (ro_modem out) = mo_equalizer (example_modem FEC_LDPC_NORMAL) \<and>
     \<not> sm_equalizer_used (ro_metrics out)"
proof -
  have "modem_rx_audio example_liquid (example_modem FEC_LDPC_NORMAL) (replicate 48000 0) 500
      zero_metrics example_workspace False \<noteq> None"
    by (rule modem_rx_defined [OF example_rx_args(1) _ example_rx_args(3)]) (simp_all add: example_rx_args(2,4))
  then obtain out where out: "rtnc_modem_rx_audio_fast example_liquid (example_modem FEC_LDPC_NORMAL) (replicate 48000 0) 500
      zero_metrics example_workspace = Some out"
    by (auto simp: rtnc_modem_rx_audio_fast_def)
  from modem_fast_equivalence [OF out] show ?thesis using out by (auto simp: zero_metrics_def)
qed

end
