(* ===== verification/TxEq.thy ===== *)
theory TxEq
  imports Complex_Main Prelude
begin

text \<open>
  The transmit response equalizer of \<^verbatim>\<open>platform/tx_eq.c\<close>: the design of a symmetric 17-tap filter from
  measured amplitudes (regularised normal equations, Gauss-Jordan elimination, normalisation at the
  carrier, blending with the identity filter), its gain, and its application to 16-bit samples.
  \<^verbatim>\<open>float\<close> and \<^verbatim>\<open>double\<close> values are exact reals here, and the literal \<^verbatim>\<open>3.14159265358979323846\<close> is
  \<open>pi\<close>: the theorems are about the formulas and the control flow, not about rounding, and the
  \<^verbatim>\<open>isfinite\<close> tests have no counterpart.
\<close>

definition RTNC_TX_EQ_TAP_COUNT :: nat where [simp]: "RTNC_TX_EQ_TAP_COUNT = 17"
definition COEFFICIENTS :: nat where [simp]: "COEFFICIENTS = RTNC_TX_EQ_TAP_COUNT div 2 + 1"

section \<open>Linear equations\<close>

definition pivot_row :: "real list list \<Rightarrow> nat \<Rightarrow> nat" where
  "pivot_row matrix column =
    foldl (\<lambda>pivot row. if \<bar>matrix ! row ! column\<bar> > \<bar>matrix ! pivot ! column\<bar> then row else pivot)
      column [column + 1..<COEFFICIENTS]"

definition swap_rows :: "real list list \<Rightarrow> nat \<Rightarrow> nat \<Rightarrow> real list list" where
  \<comment> \<open>the items from \<open>column\<close> on\<close>
  "swap_rows matrix column pivot =
    (let upper = matrix ! column; lower = matrix ! pivot
     in matrix[column := take column upper @ drop column lower, pivot := take column lower @ drop column upper])"

definition normalize_row :: "real list list \<Rightarrow> nat \<Rightarrow> real list list" where
  "normalize_row matrix column =
    (let line = matrix ! column; divisor = line ! column
     in matrix[column := take column line @ map (\<lambda>item. item / divisor) (drop column line)])"

definition eliminate_rows :: "real list list \<Rightarrow> nat \<Rightarrow> real list list" where
  "eliminate_rows matrix column =
    map (\<lambda>row. if row = column then matrix ! row else
        (let line = matrix ! row; factor = line ! column
         in take column line @ map2 (\<lambda>item p. item - factor * p) (drop column line) (drop column (matrix ! column))))
      [0..<COEFFICIENTS]"

definition solve_column :: "nat \<Rightarrow> real list list \<Rightarrow> real list list option" where
  "solve_column column matrix =
    (let pivot = pivot_row matrix column
     in if \<bar>matrix ! pivot ! column\<bar> < 1 / 10 ^ 10 then None
        else let matrix = (if pivot \<noteq> column then swap_rows matrix column pivot else matrix)
             in Some (eliminate_rows (normalize_row matrix column) column))"

fun solve_columns :: "nat list \<Rightarrow> real list list \<Rightarrow> real list list option" where
  "solve_columns [] matrix = Some matrix"
| "solve_columns (column # columns) matrix =
    (case solve_column column matrix of None \<Rightarrow> None | Some matrix \<Rightarrow> solve_columns columns matrix)"

definition solve :: "real list list \<Rightarrow> real list option" where
  "solve matrix = map_option (map (\<lambda>line. line ! COEFFICIENTS)) (solve_columns [0..<COEFFICIENTS] matrix)"

section \<open>The filter\<close>

definition rtnc_tx_eq_zero_phase_gain :: "real list \<Rightarrow> real \<Rightarrow> real" where
  "rtnc_tx_eq_zero_phase_gain taps frequency_hz =
    (let omega = 2 * pi * frequency_hz / 48000; center = real (RTNC_TX_EQ_TAP_COUNT div 2)
     in (\<Sum>tap\<leftarrow>[0..<RTNC_TX_EQ_TAP_COUNT]. taps ! tap * cos (omega * (real tap - center))))"

definition rtnc_tx_eq_magnitude :: "real list \<Rightarrow> real \<Rightarrow> real" where
  "rtnc_tx_eq_magnitude taps frequency_hz =
    (let omega = 2 * pi * frequency_hz / 48000;
         real_part = (\<Sum>tap\<leftarrow>[0..<RTNC_TX_EQ_TAP_COUNT]. taps ! tap * cos (omega * real tap));
         imaginary_part = - (\<Sum>tap\<leftarrow>[0..<RTNC_TX_EQ_TAP_COUNT]. taps ! tap * sin (omega * real tap))
     in sqrt (real_part ^ 2 + imaginary_part ^ 2))"

definition rtnc_tx_eq_apply_sample :: "real list \<Rightarrow> s16 list \<Rightarrow> nat \<Rightarrow> real" where
  "rtnc_tx_eq_apply_sample taps samples index =
    (let center = RTNC_TX_EQ_TAP_COUNT div 2; amount = length samples
     in if index \<ge> amount then 0
        else foldl (\<lambda>output tap.
          let leading = (if center > tap then center - tap else 0);
              trailing = (if tap > center then tap - center else 0)
          in if index \<ge> trailing \<and> index + leading < amount
             then output + taps ! tap * real_of_int (sint (samples ! (index + leading - trailing)))
             else output)
          0 [0..<RTNC_TX_EQ_TAP_COUNT])"

section \<open>The design\<close>

definition interpolate :: "nat list \<Rightarrow> real list \<Rightarrow> real \<Rightarrow> real" where
  "interpolate frequencies_hz amplitudes frequency_hz =
    (if frequency_hz \<le> real (frequencies_hz ! 0) then amplitudes ! 0
     else case find (\<lambda>point. frequency_hz \<le> real (frequencies_hz ! point)) [1..<length frequencies_hz] of
         Some point \<Rightarrow>
           (let fraction = (frequency_hz - real (frequencies_hz ! (point - 1))) /
                  real (frequencies_hz ! point - frequencies_hz ! (point - 1))
            in amplitudes ! (point - 1) + fraction * (amplitudes ! point - amplitudes ! (point - 1)))
       | None \<Rightarrow> amplitudes ! (length frequencies_hz - 1))"

definition in_band :: "real \<Rightarrow> real \<Rightarrow> nat \<Rightarrow> bool" where
  "in_band low_hz high_hz frequency \<longleftrightarrow> \<not> (real frequency < low_hz \<or> real frequency > high_hz)"

definition points_usable :: "nat list \<Rightarrow> real list \<Rightarrow> real \<Rightarrow> real \<Rightarrow> bool" where
  \<comment> \<open>the first loop: every point of the band is positive and above its neighbour, and there are three\<close>
  "points_usable frequencies_hz amplitudes low_hz high_hz \<longleftrightarrow>
    (let band = filter (\<lambda>point. in_band low_hz high_hz (frequencies_hz ! point)) [0..<length frequencies_hz]
     in (\<forall>point\<in>set band. \<not> (amplitudes ! point \<le> 0 \<or>
           point > 0 \<and> frequencies_hz ! point \<le> frequencies_hz ! (point - 1))) \<and> \<not> length band < 3)"

definition point_basis :: "nat \<Rightarrow> real list" where
  "point_basis frequency =
    (let omega = 2 * pi * real frequency / 48000
     in 1 # map (\<lambda>column. 2 * cos (omega * real column)) [1..<COEFFICIENTS])"

definition add_point :: "real list list \<Rightarrow> real list \<Rightarrow> real \<Rightarrow> real list list" where
  "add_point normal basis desired =
    map (\<lambda>row. map (\<lambda>column. normal ! row ! column + basis ! row * basis ! column) [0..<COEFFICIENTS] @
        [normal ! row ! COEFFICIENTS + basis ! row * desired]) [0..<COEFFICIENTS]"

definition normal_equations :: "nat list \<Rightarrow> real list \<Rightarrow> real \<Rightarrow> real \<Rightarrow> real \<Rightarrow> real list list" where
  "normal_equations frequencies_hz amplitudes reference low_hz high_hz =
    foldl (\<lambda>normal point.
        if in_band low_hz high_hz (frequencies_hz ! point)
        then add_point normal (point_basis (frequencies_hz ! point))
               (let desired = reference / amplitudes ! point in if desired > 5 / 2 then 5 / 2 else desired)
        else normal)
      (replicate COEFFICIENTS (replicate (COEFFICIENTS + 1) 0)) [0..<length frequencies_hz]"

definition regularize :: "real list list \<Rightarrow> real list list" where
  "regularize normal =
    map (\<lambda>row. (normal ! row)[row := normal ! row ! row + 3 / 100,
        COEFFICIENTS := normal ! row ! COEFFICIENTS + (if row = 0 then 3 / 100 else 0)]) [0..<COEFFICIENTS]"

definition unfold_taps :: "real list \<Rightarrow> real list" where
  "unfold_taps coefficients =
    map (\<lambda>row. coefficients ! (if row > RTNC_TX_EQ_TAP_COUNT div 2 then row - RTNC_TX_EQ_TAP_COUNT div 2
        else RTNC_TX_EQ_TAP_COUNT div 2 - row)) [0..<RTNC_TX_EQ_TAP_COUNT]"

lemma floor_step_less: "0 \<le> x \<Longrightarrow> y = x - 1 \<Longrightarrow> nat \<lfloor>y + 1\<rfloor> < nat \<lfloor>x + (1 :: real)\<rfloor>"
  by simp

function band_gains_ok :: "real list \<Rightarrow> real \<Rightarrow> real \<Rightarrow> bool" where
  "band_gains_ok taps frequency high_hz =
    (if frequency \<le> high_hz
     then rtnc_tx_eq_zero_phase_gain taps frequency > 1 / 20 \<and> band_gains_ok taps (frequency + 100) high_hz
     else True)"
  by pat_completeness auto
termination
proof (relation "measure (\<lambda>(taps, frequency, high_hz). nat \<lfloor>(high_hz - frequency) / 100 + 1\<rfloor>)")
  fix taps :: "real list" and frequency high_hz :: real
  assume "frequency \<le> high_hz"
  moreover have "(high_hz - (frequency + 100)) / 100 = (high_hz - frequency) / 100 - 1" by (simp add: field_simps)
  ultimately show "((taps, frequency + 100, high_hz), taps, frequency, high_hz)
      \<in> measure (\<lambda>(taps, frequency, high_hz). nat \<lfloor>(high_hz - frequency) / 100 + 1\<rfloor>)"
    unfolding in_measure prod.case by (intro floor_step_less) simp_all
qed simp

definition blend_taps :: "real list \<Rightarrow> real \<Rightarrow> real list" where
  "blend_taps designed blend =
    map (\<lambda>row. let identity = (if row = RTNC_TX_EQ_TAP_COUNT div 2 then 1 else 0)
        in identity + blend * (designed ! row - identity)) [0..<RTNC_TX_EQ_TAP_COUNT]"

definition taps_acceptable :: "real list \<Rightarrow> real \<Rightarrow> real \<Rightarrow> bool" where
  "taps_acceptable taps low_hz high_hz \<longleftrightarrow> (\<Sum>tap\<leftarrow>taps. \<bar>tap\<bar>) \<le> 79 / 10 \<and> band_gains_ok taps low_hz high_hz"

function blend_loop :: "real list \<Rightarrow> real \<Rightarrow> real \<Rightarrow> real \<Rightarrow> real list \<Rightarrow> bool \<Rightarrow> real list \<times> bool" where
  "blend_loop designed low_hz high_hz blend taps acceptable =
    (if blend \<ge> 0 \<and> \<not> acceptable
     then let taps = blend_taps designed blend
          in blend_loop designed low_hz high_hz (blend - 1 / 20) taps (taps_acceptable taps low_hz high_hz)
     else (taps, acceptable))"
  by pat_completeness auto
termination
  by (relation "measure (\<lambda>(designed, low_hz, high_hz, blend, taps, acceptable). nat \<lfloor>20 * blend + 1\<rfloor>)")
    (auto intro!: floor_step_less)

declare band_gains_ok.simps [simp del] blend_loop.simps [simp del]

definition rtnc_tx_eq_design :: "nat list \<Rightarrow> real list \<Rightarrow> real \<Rightarrow> real \<Rightarrow> real \<Rightarrow> real list option" where
  \<comment> \<open>\<^verbatim>\<open>point_count\<close> is the length of both lists\<close>
  "rtnc_tx_eq_design frequencies_hz amplitudes carrier_hz low_hz high_hz =
    (if length frequencies_hz < 3 \<or> carrier_hz \<le> 0 \<or> low_hz < 0 \<or> high_hz \<le> low_hz then None else
     if \<not> points_usable frequencies_hz amplitudes low_hz high_hz then None else
     let reference = interpolate frequencies_hz amplitudes carrier_hz in
     case solve (regularize (normal_equations frequencies_hz amplitudes reference low_hz high_hz)) of
       None \<Rightarrow> None
     | Some coefficients \<Rightarrow>
         let taps = unfold_taps coefficients;
             carrier_gain = rtnc_tx_eq_zero_phase_gain taps carrier_hz
         in if carrier_gain < 1 / 10 then None else
         let designed = map (\<lambda>tap. tap / carrier_gain) taps;
             (taps, acceptable) = blend_loop designed low_hz high_hz 1 designed False
         in if \<not> acceptable then None else Some taps)"

section \<open>Elimination solves the equations\<close>

definition shaped :: "real list list \<Rightarrow> bool" where
  "shaped m \<longleftrightarrow> length m = COEFFICIENTS \<and> (\<forall>r < COEFFICIENTS. length (m ! r) = COEFFICIENTS + 1)"

definition satisfies :: "real list list \<Rightarrow> (nat \<Rightarrow> real) \<Rightarrow> bool" where
  "satisfies m x \<longleftrightarrow> (\<forall>r < COEFFICIENTS. (\<Sum>j < COEFFICIENTS. m ! r ! j * x j) = m ! r ! COEFFICIENTS)"

definition reduced :: "nat \<Rightarrow> real list list \<Rightarrow> bool" where
  \<comment> \<open>the first \<open>c\<close> columns are those of the identity\<close>
  "reduced c m \<longleftrightarrow> (\<forall>r < COEFFICIENTS. \<forall>j < c. m ! r ! j = of_bool (r = j))"

lemma pivot_row_range:
  assumes "c < COEFFICIENTS"
  shows "c \<le> pivot_row m c \<and> pivot_row m c < COEFFICIENTS"
proof -
  have "c \<le> foldl (\<lambda>p r. if \<bar>m ! r ! c\<bar> > \<bar>m ! p ! c\<bar> then r else p) p rs \<and>
      foldl (\<lambda>p r. if \<bar>m ! r ! c\<bar> > \<bar>m ! p ! c\<bar> then r else p) p rs < COEFFICIENTS"
    if "c \<le> p" "p < COEFFICIENTS" "\<forall>r\<in>set rs. c \<le> r \<and> r < COEFFICIENTS" for p rs
    using that by (induction rs arbitrary: p) auto
  then show ?thesis unfolding pivot_row_def using assms by simp
qed

lemma reducedD: "reduced c m \<Longrightarrow> r < COEFFICIENTS \<Longrightarrow> c \<le> r \<Longrightarrow> j < c \<Longrightarrow> m ! r ! j = 0"
  by (simp add: reduced_def)

lemma swap_rows_nth:
  assumes m: "shaped m" "reduced c m" and c: "c < COEFFICIENTS" "c \<le> p" "p < COEFFICIENTS"
    and r: "r < COEFFICIENTS" "j \<le> COEFFICIENTS"
  shows "swap_rows m c p ! r ! j = m ! (if r = p then c else if r = c then p else r) ! j"
proof -
  have "length (m ! c) = 10" "length (m ! p) = 10" "length m = 9" using m(1) c by (simp_all add: shaped_def)
  then show ?thesis using c r reducedD [OF m(2) c(1)] reducedD [OF m(2) c(3)]
    by (cases "j < c") (auto simp: swap_rows_def Let_def nth_append)
qed

lemma normalize_row_nth:
  assumes "shaped m" "reduced c m" "c < COEFFICIENTS" "r < COEFFICIENTS" "j \<le> COEFFICIENTS"
  shows "normalize_row m c ! r ! j = (if r = c then m ! c ! j / m ! c ! c else m ! r ! j)"
proof -
  have "length (m ! c) = 10" "length m = 9" using assms by (simp_all add: shaped_def)
  then show ?thesis using assms reducedD [OF assms(2,3)]
    by (cases "j < c") (auto simp: normalize_row_def Let_def nth_append)
qed

lemma eliminate_rows_nth:
  assumes "shaped m" "reduced c m" "c < COEFFICIENTS" "r < COEFFICIENTS" "j \<le> COEFFICIENTS"
  shows "eliminate_rows m c ! r ! j = (if r = c then m ! r ! j else m ! r ! j - m ! r ! c * m ! c ! j)"
proof -
  have "length (m ! c) = 10" "length (m ! r) = 10" using assms by (simp_all add: shaped_def)
  then show ?thesis using assms reducedD [OF assms(2,3)]
    by (cases "j < c") (auto simp: eliminate_rows_def Let_def nth_append)
qed

lemma shaped_steps:
  assumes "shaped m" "c < COEFFICIENTS" "p < COEFFICIENTS"
  shows "shaped (swap_rows m c p)" "shaped (normalize_row m c)" "shaped (eliminate_rows m c)"
  using assms by (auto simp: shaped_def swap_rows_def normalize_row_def eliminate_rows_def Let_def nth_list_update)

lemma swap_rows_equations:
  assumes m: "shaped m" "reduced c m" and c: "c < COEFFICIENTS" "c \<le> p" "p < COEFFICIENTS"
  shows "reduced c (swap_rows m c p)" "satisfies (swap_rows m c p) x = satisfies m x"
proof -
  let ?s = "\<lambda>r. if r = p then c else if r = c then p else r"
  note e = swap_rows_nth [OF m c]
  have s: "?s r < COEFFICIENTS" "?s (?s r) = r" if "r < COEFFICIENTS" for r using that c by auto
  show "reduced c (swap_rows m c p)" unfolding reduced_def
  proof (intro allI impI)
    fix r j assume r: "r < COEFFICIENTS" "j < c"
    with e [of r j] m(2) s [OF r(1)] c show "swap_rows m c p ! r ! j = of_bool (r = j)"
      by (auto simp: reduced_def split: if_splits)
  qed
  have row: "(\<Sum>j < COEFFICIENTS. swap_rows m c p ! r ! j * x j) = swap_rows m c p ! r ! COEFFICIENTS \<longleftrightarrow>
      (\<Sum>j < COEFFICIENTS. m ! ?s r ! j * x j) = m ! ?s r ! COEFFICIENTS" if "r < COEFFICIENTS" for r
    using e that by simp
  show "satisfies (swap_rows m c p) x = satisfies m x"
  proof
    assume l: "satisfies (swap_rows m c p) x"
    show "satisfies m x" unfolding satisfies_def
    proof (intro allI impI)
      fix r assume r: "r < COEFFICIENTS"
      from l s(1) [OF r] row [OF s(1) [OF r]] show "(\<Sum>j < COEFFICIENTS. m ! r ! j * x j) = m ! r ! COEFFICIENTS"
        unfolding satisfies_def s(2) [OF r] by blast
    qed
  next
    assume "satisfies m x"
    with row s(1) show "satisfies (swap_rows m c p) x" unfolding satisfies_def by blast
  qed
qed

lemma normalize_row_equations:
  assumes m: "shaped m" "reduced c m" "c < COEFFICIENTS" and nz: "m ! c ! c \<noteq> 0"
  shows "reduced c (normalize_row m c)" "satisfies (normalize_row m c) x = satisfies m x" "normalize_row m c ! c ! c = 1"
proof -
  note e = normalize_row_nth [OF m]
  show "reduced c (normalize_row m c)" "normalize_row m c ! c ! c = 1" using e m(2,3) nz by (auto simp: reduced_def)
  have row: "(\<Sum>j < COEFFICIENTS. normalize_row m c ! r ! j * x j) = normalize_row m c ! r ! COEFFICIENTS \<longleftrightarrow>
      (\<Sum>j < COEFFICIENTS. m ! r ! j * x j) = m ! r ! COEFFICIENTS" if "r < COEFFICIENTS" for r
  proof (cases "r = c")
    case True
    have "(\<Sum>j < COEFFICIENTS. m ! c ! j / m ! c ! c * x j) = (\<Sum>j < COEFFICIENTS. m ! c ! j * x j) / m ! c ! c"
      by (simp add: sum_divide_distrib)
    then show ?thesis using e that True nz by simp
  qed (use e that in simp)
  show "satisfies (normalize_row m c) x = satisfies m x" unfolding satisfies_def using row by blast
qed

lemma eliminate_rows_equations:
  assumes m: "shaped m" "reduced c m" "c < COEFFICIENTS" and one: "m ! c ! c = 1"
  shows "reduced (Suc c) (eliminate_rows m c)" "satisfies (eliminate_rows m c) x = satisfies m x"
proof -
  note e = eliminate_rows_nth [OF m]
  show "reduced (Suc c) (eliminate_rows m c)" unfolding reduced_def
  proof (intro allI impI)
    fix r j assume r: "r < COEFFICIENTS" "j < Suc c"
    with e [of r j] m(2,3) one show "eliminate_rows m c ! r ! j = of_bool (r = j)"
      by (cases "j = c") (auto simp: reduced_def less_Suc_eq)
  qed
  let ?lhs = "\<lambda>m r. \<Sum>j < COEFFICIENTS. m ! r ! j * x j"
  have row: "?lhs (eliminate_rows m c) r = (if r = c then ?lhs m r else ?lhs m r - m ! r ! c * ?lhs m c)"
    if "r < COEFFICIENTS" for r
    using e that by (simp add: sum_subtractf sum_distrib_left left_diff_distrib mult.assoc)
  have out: "eliminate_rows m c ! r ! COEFFICIENTS =
      (if r = c then m ! r ! COEFFICIENTS else m ! r ! COEFFICIENTS - m ! r ! c * m ! c ! COEFFICIENTS)"
    if "r < COEFFICIENTS" for r using e that by simp
  show "satisfies (eliminate_rows m c) x = satisfies m x"
  proof
    assume s: "satisfies (eliminate_rows m c) x"
    then have "?lhs m c = m ! c ! COEFFICIENTS" using row [OF m(3)] out [OF m(3)] m(3) by (simp add: satisfies_def)
    with s row out show "satisfies m x" unfolding satisfies_def by (metis (no_types, lifting) diff_add_cancel)
  next
    assume "satisfies m x"
    with row out m(3) show "satisfies (eliminate_rows m c) x" unfolding satisfies_def by simp
  qed
qed

lemma solve_column_sound:
  assumes m: "shaped m" "reduced c m" "c < COEFFICIENTS" and "solve_column c m = Some m'"
  shows "shaped m' \<and> reduced (Suc c) m' \<and> satisfies m' x = satisfies m x"
proof -
  let ?p = "pivot_row m c"
  let ?s = "if ?p \<noteq> c then swap_rows m c ?p else m"
  from pivot_row_range [OF m(3)] have p: "c \<le> ?p" "?p < COEFFICIENTS" by simp_all
  from assms(4) have m': "m' = eliminate_rows (normalize_row ?s c) c" and big: "\<not> \<bar>m ! ?p ! c\<bar> < 1 / 10 ^ 10"
    by (auto simp: solve_column_def Let_def split: if_splits)
  have s: "shaped ?s" "reduced c ?s" "satisfies ?s x = satisfies m x"
    using m p shaped_steps(1) [OF m(1,3) p(2)] swap_rows_equations [OF m p] by auto
  have "?s ! c ! c = m ! ?p ! c" using swap_rows_nth [OF m p m(3), of c] m(3) by simp
  then have nz: "?s ! c ! c \<noteq> 0" using big by auto
  note n = normalize_row_equations [OF s(1,2) m(3) nz]
  note sh = shaped_steps(2) [OF s(1) m(3) m(3)]
  show ?thesis unfolding m'
    using eliminate_rows_equations [OF sh n(1) m(3) n(3)] n(2) s(3) shaped_steps(3) [OF sh m(3) m(3)] by simp
qed

lemma solve_columns_sound:
  assumes "shaped m" "reduced c m" "solve_columns [c..<COEFFICIENTS] m = Some m'" "c \<le> COEFFICIENTS"
  shows "shaped m' \<and> reduced COEFFICIENTS m' \<and> satisfies m' x = satisfies m x"
  using assms
proof (induction "COEFFICIENTS - c" arbitrary: c m)
  case 0
  then show ?case by simp
next
  case (Suc d)
  from Suc.hyps(2) have c: "c < COEFFICIENTS" by linarith
  then have u: "[c..<COEFFICIENTS] = c # [Suc c..<COEFFICIENTS]" by (rule upt_conv_Cons)
  from Suc.prems(3) obtain n where n: "solve_column c m = Some n" "solve_columns [Suc c..<COEFFICIENTS] n = Some m'"
    unfolding u by (auto split: option.splits)
  note s = solve_column_sound [OF Suc.prems(1,2) c n(1), of x]
  with Suc.hyps(1) [of "Suc c" n] Suc.hyps(2) n(2) c show ?case by simp
qed

lemma solve_sound:
  assumes "shaped m" "solve m = Some xs"
  shows "length xs = COEFFICIENTS \<and> (satisfies m x \<longleftrightarrow> (\<forall>r < COEFFICIENTS. x r = xs ! r))"
proof -
  from assms(2) obtain n where n: "solve_columns [0..<COEFFICIENTS] m = Some n" "xs = map (\<lambda>line. line ! COEFFICIENTS) n"
    unfolding solve_def by blast
  from solve_columns_sound [OF assms(1) _ n(1), of x] have
    s: "shaped n" "reduced COEFFICIENTS n" "satisfies n x = satisfies m x" by (simp_all add: reduced_def)
  have "(\<Sum>j < COEFFICIENTS. n ! r ! j * x j) = x r" if "r < COEFFICIENTS" for r
  proof -
    have "(\<Sum>j < COEFFICIENTS. n ! r ! j * x j) = (\<Sum>j < COEFFICIENTS. if r = j then x j else 0)"
      using s(2) that by (intro sum.cong) (auto simp: reduced_def)
    then show ?thesis using that by simp
  qed
  then show ?thesis using s n(2) by (auto simp: satisfies_def shaped_def)
qed

text \<open>
  the linear solver is right: where Gauss-Jordan elimination with partial pivoting gives a result, it is
  a solution of the equations and the only one.
\<close>

lemma tx_eq_solve_unique:
  assumes "shaped matrix" and "solve matrix = Some solution"
  shows "length solution = COEFFICIENTS \<and> satisfies matrix ((!) solution) \<and>
    (\<forall>x. satisfies matrix x \<longrightarrow> map x [0..<COEFFICIENTS] = solution)"
proof -
  note s = solve_sound [OF assms]
  then have len: "length solution = COEFFICIENTS" by blast
  have "map x [0..<COEFFICIENTS] = solution" if "satisfies matrix x" for x
    using s [of x] that len by (intro nth_equalityI) (simp_all del: upt_rec_numeral)
  with s [of "(!) solution"] len show ?thesis by blast
qed

section \<open>The designed filter\<close>

definition symmetric :: "real list \<Rightarrow> bool" where
  "symmetric taps \<longleftrightarrow> length taps = RTNC_TX_EQ_TAP_COUNT \<and> (\<forall>i < RTNC_TX_EQ_TAP_COUNT. taps ! i = taps ! (16 - i))"

lemma gain_sum:
  "rtnc_tx_eq_zero_phase_gain taps f = (\<Sum>i < 17. taps ! i * cos (2 * pi * f / 48000 * (real i - 8)))"
  by (simp add: rtnc_tx_eq_zero_phase_gain_def interv_sum_list_conv_sum_set_nat atLeast0LessThan)

lemma gain_scale:
  "length taps = 17 \<Longrightarrow> rtnc_tx_eq_zero_phase_gain (map (\<lambda>tap. tap / g) taps) f = rtnc_tx_eq_zero_phase_gain taps f / g"
  by (simp add: gain_sum sum_divide_distrib)

lemma gain_blend:
  "rtnc_tx_eq_zero_phase_gain (blend_taps designed b) f = (1 - b) + b * rtnc_tx_eq_zero_phase_gain designed f"
proof -
  let ?c = "\<lambda>i. cos (2 * pi * f / 48000 * (real i - 8))"
  have "rtnc_tx_eq_zero_phase_gain (blend_taps designed b) f =
      (\<Sum>i < 17. (1 - b) * (if i = 8 then 1 else 0) * ?c i + b * (designed ! i * ?c i))"
    unfolding gain_sum by (intro sum.cong refl) (auto simp: blend_taps_def Let_def algebra_simps)
  also have "\<dots> = (1 - b) * (\<Sum>i < 17. (if i = 8 then ?c i else 0)) + b * (\<Sum>i < 17. designed ! i * ?c i)"
    unfolding sum.distrib sum_distrib_left by (intro arg_cong2 [where f = "(+)"] sum.cong refl) auto
  also have "(\<Sum>i < 17. (if i = 8 then ?c i else 0)) = ?c (8 :: nat)" by (subst sum.delta) simp_all
  finally show ?thesis by (simp add: gain_sum)
qed

lemma unfold_taps_nth: "i < 17 \<Longrightarrow> unfold_taps cs ! i = cs ! (if i > 8 then i - 8 else 8 - i)"
  by (simp add: unfold_taps_def del: upt_rec_numeral)

lemma blend_taps_nth:
  "i < 17 \<Longrightarrow> blend_taps designed b ! i = (if i = 8 then 1 else 0) + b * (designed ! i - (if i = 8 then 1 else 0))"
  by (simp add: blend_taps_def Let_def del: upt_rec_numeral)

lemma symmetric_steps:
  "symmetric (unfold_taps cs)" "symmetric taps \<Longrightarrow> symmetric (map (\<lambda>tap. tap / g) taps)"
  "symmetric taps \<Longrightarrow> symmetric (blend_taps taps b)"
proof -
  show "symmetric (unfold_taps cs)" unfolding symmetric_def
  proof (intro conjI allI impI)
    fix i assume i: "i < RTNC_TX_EQ_TAP_COUNT"
    then have "unfold_taps cs ! i = cs ! (if i > 8 then i - 8 else 8 - i)" by (intro unfold_taps_nth) simp
    moreover have "unfold_taps cs ! (16 - i) = cs ! (if 16 - i > 8 then 16 - i - 8 else 8 - (16 - i))"
      by (intro unfold_taps_nth) simp
    moreover have "(if 16 - i > 8 then 16 - i - 8 else 8 - (16 - i)) = (if i > 8 then i - 8 else 8 - i)" using i by auto
    ultimately show "unfold_taps cs ! i = unfold_taps cs ! (16 - i)" by presburger
  qed (simp add: unfold_taps_def)
  assume sym: "symmetric taps"
  then have len: "length taps = 17" and e: "taps ! i = taps ! (16 - i)" if "i < 17" for i
    using that unfolding symmetric_def RTNC_TX_EQ_TAP_COUNT_def by blast+
  show "symmetric (map (\<lambda>tap. tap / g) taps)" unfolding symmetric_def
  proof (intro conjI allI impI)
    fix i assume "i < RTNC_TX_EQ_TAP_COUNT"
    with e [of i] len show "map (\<lambda>tap. tap / g) taps ! i = map (\<lambda>tap. tap / g) taps ! (16 - i)" by simp
  qed (use len [of 0] in simp)
  show "symmetric (blend_taps taps b)" unfolding symmetric_def
  proof (intro conjI allI impI)
    fix i assume "i < RTNC_TX_EQ_TAP_COUNT"
    moreover have "16 - i = 8 \<longleftrightarrow> i = 8" by arith
    ultimately show "blend_taps taps b ! i = blend_taps taps b ! (16 - i)"
      using e [of i] by (simp add: blend_taps_nth)
  qed (simp add: blend_taps_def)
qed

lemma blend_loop_result:
  "blend_loop designed low high b taps ok = (taps', True) \<Longrightarrow> \<not> ok \<Longrightarrow>
   \<exists>b'. taps' = blend_taps designed b' \<and> taps_acceptable taps' low high"
proof (induction designed low high b taps ok rule: blend_loop.induct)
  case (1 designed low high b taps ok)
  show ?case
  proof (cases "b \<ge> 0")
    case True
    let ?t = "blend_taps designed b"
    have r: "blend_loop designed low high (b - 1 / 20) ?t (taps_acceptable ?t low high) = (taps', True)"
      using 1(2,3) True by (subst (asm) blend_loop.simps) (simp add: Let_def)
    show ?thesis
    proof (cases "taps_acceptable ?t low high")
      case True
      with r show ?thesis by (subst (asm) blend_loop.simps) auto
    next
      case False
      with 1(1) True r 1(3) show ?thesis by blast
    qed
  next
    case False
    with 1(2,3) show ?thesis by (subst (asm) blend_loop.simps) simp
  qed
qed

lemma band_gains_grid:
  "band_gains_ok taps f high \<Longrightarrow> f + 100 * real k \<le> high \<Longrightarrow> rtnc_tx_eq_zero_phase_gain taps (f + 100 * real k) > 1 / 20"
proof (induction k arbitrary: f)
  case 0
  then show ?case by (subst (asm) band_gains_ok.simps) simp
next
  case (Suc k)
  from Suc.prems(2) have f: "f \<le> high" "f + 100 + 100 * real k \<le> high" by (simp_all add: algebra_simps)
  with Suc.prems(1) have "band_gains_ok taps (f + 100) high" by (subst (asm) band_gains_ok.simps) simp
  from Suc.IH [OF this f(2)] show ?case by (simp add: algebra_simps)
qed

lemma identity_acceptable: "taps_acceptable (blend_taps designed 0) low high"
proof -
  have g: "rtnc_tx_eq_zero_phase_gain (blend_taps designed 0) f = 1" for f by (simp add: gain_blend)
  have "band_gains_ok (blend_taps designed 0) f high" for f
  proof (induction "blend_taps designed 0" f high rule: band_gains_ok.induct)
    case (1 f high)
    then show ?case by (subst band_gains_ok.simps) (simp add: g)
  qed
  then show ?thesis by (simp add: taps_acceptable_def blend_taps_def upt_rec)
qed

lemma blend_loop_accepts: "snd (blend_loop designed low high (real n / 20) taps ok)"
proof (induction n arbitrary: taps ok)
  case 0
  show ?case
    by (subst blend_loop.simps) (subst blend_loop.simps, simp add: identity_acceptable Let_def)
next
  case (Suc n)
  have e: "(1 + real n) / 20 - 1 / 20 = real n / 20" by (simp add: field_simps)
  show ?case
    by (subst blend_loop.simps) (simp add: Let_def Suc e)
qed

text \<open>
  the blending loop of the filter design ends with an acceptable filter: at the latest when it has
  reached the identity filter, after 21 rounds.  The design's last failure branch is unreachable.
\<close>

lemma tx_eq_blend_terminates:
  "\<exists>taps. blend_loop designed low_hz high_hz 1 designed False = (taps, True) \<and> taps_acceptable taps low_hz high_hz"
proof -
  have "snd (blend_loop designed low_hz high_hz 1 designed False)"
    using blend_loop_accepts [of designed low_hz high_hz 20 designed False] by simp
  then obtain taps where t: "blend_loop designed low_hz high_hz 1 designed False = (taps, True)"
    by (cases "blend_loop designed low_hz high_hz 1 designed False") auto
  from blend_loop_result [OF t] t show ?thesis by auto
qed

text \<open>
  C36: what a designed transmit filter guarantees: 17 symmetric taps (zero phase), gain exactly one at the
  carrier, absolute sum at most 7.9 (so that 16-bit samples keep their headroom), and a positive gain
  above 0.05 at every 100 Hz step of the band.
\<close>

theorem tx_eq_design_safe:
  assumes "rtnc_tx_eq_design frequencies_hz amplitudes carrier_hz low_hz high_hz = Some taps"
  shows "symmetric taps \<and> rtnc_tx_eq_zero_phase_gain taps carrier_hz = 1 \<and> (\<Sum>tap\<leftarrow>taps. \<bar>tap\<bar>) \<le> 79 / 10 \<and>
    (\<forall>k. low_hz + 100 * real k \<le> high_hz \<longrightarrow> rtnc_tx_eq_zero_phase_gain taps (low_hz + 100 * real k) > 1 / 20)"
proof -
  obtain cs where cs: "\<not> rtnc_tx_eq_zero_phase_gain (unfold_taps cs) carrier_hz < 1 / 10"
      "blend_loop (map (\<lambda>tap. tap / rtnc_tx_eq_zero_phase_gain (unfold_taps cs) carrier_hz) (unfold_taps cs)) low_hz high_hz 1
        (map (\<lambda>tap. tap / rtnc_tx_eq_zero_phase_gain (unfold_taps cs) carrier_hz) (unfold_taps cs)) False = (taps, True)"
    using assms by (auto simp: rtnc_tx_eq_design_def Let_def split: if_splits option.splits prod.splits)
  let ?g = "rtnc_tx_eq_zero_phase_gain (unfold_taps cs) carrier_hz"
  let ?d = "map (\<lambda>tap. tap / ?g) (unfold_taps cs)"
  have len: "length (unfold_taps cs) = 17" by (simp add: unfold_taps_def)
  from blend_loop_result [OF cs(2)] obtain b where b: "taps = blend_taps ?d b" "taps_acceptable taps low_hz high_hz" by auto
  have "rtnc_tx_eq_zero_phase_gain ?d carrier_hz = 1" using cs(1) by (simp add: gain_scale [OF len])
  then have "rtnc_tx_eq_zero_phase_gain taps carrier_hz = 1" unfolding b(1) gain_blend by simp
  moreover have "symmetric taps" unfolding b(1) by (intro symmetric_steps)
  ultimately show ?thesis using b(2) band_gains_grid [of taps low_hz high_hz] by (simp add: taps_acceptable_def)
qed

text \<open>The witness: a flat response measured at three frequencies needs no correction.\<close>

lemma cos_quarters: "cos (pi / 2 * real (Suc (Suc n))) = - cos (pi / 2 * real n)"
  using cos_periodic_pi [of "pi / 2 * real n"] by (simp add: algebra_simps)

lemma example_basis:
  "point_basis 0 = [1, 2, 2, 2, 2, 2, 2, 2, 2]"
  "point_basis 12000 = [1, 0, -2, 0, 2, 0, -2, 0, 2]"
  "point_basis 24000 = [1, -2, 2, -2, 2, -2, 2, -2, 2]"
proof -
  have w: "2 * pi * real 12000 / 48000 = pi / 2" "2 * pi * real 24000 / 48000 = pi" by simp_all
  have u: "[1..<17 div 2 + 1] = [1, 2, 3, 4, 5, 6, 7, 8 :: nat]" by (simp add: upt_rec)
  have q: "cos (pi / 2 * real 1) = 0" "cos (pi / 2 * real 2) = -1" "cos (pi / 2 * real 3) = 0" "cos (pi / 2 * real 4) = 1"
    "cos (pi / 2 * real 5) = 0" "cos (pi / 2 * real 6) = -1" "cos (pi / 2 * real 7) = 0" "cos (pi / 2 * real 8) = 1"
    using cos_quarters [of 0] cos_quarters [of 1] cos_quarters [of 2] cos_quarters [of 3] cos_quarters [of 4]
      cos_quarters [of 5] cos_quarters [of 6] by simp_all
  have h: "cos (pi * real n) = (- 1) ^ n" for n by (metis cos_npi mult.commute)
  show "point_basis 0 = [1, 2, 2, 2, 2, 2, 2, 2, 2]" by (simp add: point_basis_def u [simplified])
  show "point_basis 12000 = [1, 0, -2, 0, 2, 0, -2, 0, 2]"
    unfolding point_basis_def w Let_def COEFFICIENTS_def RTNC_TX_EQ_TAP_COUNT_def by (simp only: u q list.map) (simp add: u q)
  show "point_basis 24000 = [1, -2, 2, -2, 2, -2, 2, -2, 2]"
    unfolding point_basis_def w Let_def h COEFFICIENTS_def RTNC_TX_EQ_TAP_COUNT_def by (simp only: u list.map) simp
qed

definition example_equations :: "real list list" where
  "example_equations = regularize (normal_equations [0, 12000, 24000] [1, 1, 1] 1 0 24000)"

lemmas elimination_simps = upt_rec Let_def solve_column_def pivot_row_def eliminate_rows_def normalize_row_def swap_rows_def

lemma example_equations_eq:
  "example_equations = map (\<lambda>r. map (\<lambda>c. of_bool (r = c) * (3 / 100) +
      (\<Sum>p\<leftarrow>[0, 12000, 24000]. point_basis p ! r * point_basis p ! c)) [0..<9] @
      [of_bool (r = 0) * (3 / 100) + (\<Sum>p\<leftarrow>[0, 12000, 24000]. point_basis p ! r)]) [0..<9]"
  unfolding example_equations_def regularize_def normal_equations_def
  by (simp add: example_basis in_band_def add_point_def upt_rec Let_def)

lemma example_solvable: "\<exists>cs. solve example_equations = Some cs"
  unfolding example_equations_eq solve_def by (simp add: example_basis elimination_simps)


lemma example_solution: "solve example_equations = Some (1 # replicate 8 0)"
proof -
  obtain cs where cs: "solve example_equations = Some cs" using example_solvable by blast
  have row: "example_equations ! r = map (\<lambda>c. of_bool (r = c) * (3 / 100) +
      (\<Sum>p\<leftarrow>[0, 12000, 24000]. point_basis p ! r * point_basis p ! c)) [0..<9] @
      [of_bool (r = 0) * (3 / 100) + (\<Sum>p\<leftarrow>[0, 12000, 24000]. point_basis p ! r)]" if "r < 9" for r
    using that unfolding example_equations_eq by (subst nth_map) (simp_all del: upt_rec_numeral)
  have sh: "shaped example_equations"
    using row by (simp add: shaped_def del: upt_rec_numeral) (simp add: example_equations_eq del: upt_rec_numeral)
  have "(\<Sum>j < 9. example_equations ! r ! j * of_bool (j = (0 :: nat))) = example_equations ! r ! 9" if r: "r < 9" for r
  proof -
    have "(\<Sum>j < 9. example_equations ! r ! j * of_bool (j = (0 :: nat))) = (\<Sum>j < 9 :: nat. if j = 0 then example_equations ! r ! 0 else 0)"
      by (intro sum.cong) auto
    also have "\<dots> = example_equations ! r ! 0" by simp
    also have "\<dots> = example_equations ! r ! 9"
      unfolding row [OF r] by (simp add: nth_append example_basis del: upt_rec_numeral)
    finally show ?thesis .
  qed
  then have "satisfies example_equations (\<lambda>r. of_bool (r = 0))" unfolding satisfies_def by simp
  with solve_sound [OF sh cs] have c: "length cs = 9" "\<And>r. r < 9 \<Longrightarrow> cs ! r = of_bool (r = 0)" by simp_all
  have "cs = 1 # replicate 8 0"
  proof (rule nth_equalityI)
    fix r assume "r < length cs"
    with c show "cs ! r = (1 # replicate 8 0) ! r" by (cases r) simp_all
  qed (use c in simp)
  with cs show ?thesis by simp
qed

lemma example_taps: "unfold_taps (1 # replicate 8 0) = blend_taps d 0"
  by (simp add: unfold_taps_def blend_taps_def upt_rec)

lemma example_design:
  "rtnc_tx_eq_design [0, 12000, 24000] [1, 1, 1] 12000 0 24000 = Some (unfold_taps (1 # replicate 8 0))"
proof -
  let ?t = "unfold_taps (1 # replicate 8 0)"
  have g: "rtnc_tx_eq_zero_phase_gain ?t f = 1" for f unfolding example_taps [of "[]"] by (simp add: gain_blend)
  have b: "blend_taps ?t 1 = ?t" by (simp add: blend_taps_def unfold_taps_def upt_rec)
  have "taps_acceptable ?t 0 24000" unfolding example_taps [of "[]"] by (rule identity_acceptable)
  then have l: "blend_loop ?t 0 24000 1 ?t False = (?t, True)"
    by (subst blend_loop.simps) (simp add: b Let_def, subst blend_loop.simps, simp)
  have i: "interpolate [0, 12000, 24000] [1, 1, 1] 12000 = 1" by (simp add: interpolate_def upt_rec)
  have u: "points_usable [0, 12000, 24000] [1, 1, 1] 0 24000" by (simp add: points_usable_def in_band_def upt_rec)
  have s: "solve (regularize (normal_equations [0, 12000, 24000] [1, 1, 1] 1 0 24000)) = Some (1 # replicate 8 0)"
    using example_solution by (simp add: example_equations_def)
  show ?thesis unfolding rtnc_tx_eq_design_def i Let_def s using u g by (simp add: l map_idI)
qed

theorem tx_eq_design_safe_witness:
  "\<exists>taps. rtnc_tx_eq_design [0, 12000, 24000] [1, 1, 1] 12000 0 24000 = Some taps \<and>
     rtnc_tx_eq_zero_phase_gain taps 12000 = 1 \<and> rtnc_tx_eq_zero_phase_gain taps 300 > 1 / 20"
proof -
  note safe = tx_eq_design_safe [OF example_design]
  from conjunct2 [OF conjunct2 [OF conjunct2 [OF safe]]] have
    "rtnc_tx_eq_zero_phase_gain (unfold_taps (1 # replicate 8 0)) 300 > 1 / 20" by (auto dest: spec [of _ 3])
  with safe example_design show ?thesis by blast
qed


lemma example_equations_shaped: "shaped example_equations"
  unfolding example_equations_eq shaped_def by (simp add: nth_append del: upt_rec_numeral)

section \<open>Magnitude and zero-phase gain\<close>

lemma symmetric_phase:
  assumes "symmetric taps"
  shows "(\<Sum>i < 17. complex_of_real (taps ! i) * cis (w * (real i - 8))) =
    complex_of_real (\<Sum>i < 17. taps ! i * cos (w * (real i - 8)))"
proof -
  have t: "taps ! (16 - i) = taps ! i" if "i < 17" for i
    using assms that unfolding symmetric_def RTNC_TX_EQ_TAP_COUNT_def by (metis)
  have "(\<Sum>i < 17. taps ! i * sin (w * (real i - 8))) = (\<Sum>i < 17. taps ! (17 - Suc i) * sin (w * (real (17 - Suc i) - 8)))"
    by (rule sum.nat_diff_reindex [symmetric])
  also have "\<dots> = (\<Sum>i < 17. - (taps ! i * sin (w * (real i - 8))))"
  proof (rule sum.cong [OF refl])
    fix i :: nat assume "i \<in> {..<17}"
    then have i: "i < 17" by simp
    have "w * (real (17 - Suc i) - 8) = - (w * (real i - 8))" using i by (simp add: of_nat_diff algebra_simps)
    then show "taps ! (17 - Suc i) * sin (w * (real (17 - Suc i) - 8)) = - (taps ! i * sin (w * (real i - 8)))"
      using t [OF i] by simp
  qed
  finally have "(\<Sum>i < 17. taps ! i * sin (w * (real i - 8))) = 0" by (simp add: sum_negf)
  then show ?thesis by (intro complex_eqI) (simp_all add: cis.sel)
qed

text \<open>
  the two ways to evaluate a filter agree: for symmetric taps the magnitude response is the absolute
  value of the zero-phase gain, at every frequency.
\<close>

lemma tx_eq_magnitude_is_gain:
  assumes "symmetric taps"
  shows "rtnc_tx_eq_magnitude taps f = \<bar>rtnc_tx_eq_zero_phase_gain taps f\<bar>"
proof -
  define w where "w = 2 * pi * f / 48000"
  let ?z = "\<Sum>i < 17. complex_of_real (taps ! i) * cis (w * real i)"
  have shift: "cis (w * real i) = cis (w * 8) * cis (w * (real i - 8))" for i by (simp add: cis_mult algebra_simps)
  have "?z = cis (w * 8) * (\<Sum>i < 17. complex_of_real (taps ! i) * cis (w * (real i - 8)))"
    unfolding sum_distrib_left shift by (intro sum.cong refl) (rule mult.left_commute)
  then have "cmod ?z = \<bar>rtnc_tx_eq_zero_phase_gain taps f\<bar>"
    unfolding symmetric_phase [OF assms] gain_sum w_def by (simp add: norm_mult del: of_real_sum)
  moreover have "rtnc_tx_eq_magnitude taps f = cmod ?z"
    by (simp add: rtnc_tx_eq_magnitude_def w_def interv_sum_list_conv_sum_set_nat atLeast0LessThan cmod_def cis.sel)
  ultimately show ?thesis by simp
qed

end
