(* ===== verification/Ptt.thy ===== *)
theory Ptt
  imports Prelude
begin

text \<open>
  The push-to-talk line of \<^verbatim>\<open>platform/ptt.c\<close>.  libgpiod is a parameter: a record of functions over a
  state \<open>'w\<close> of the outside world, with handles for chips and lines.
\<close>

record 'w gpiod =
  gpiod_chip_open_by_number :: "nat \<Rightarrow> 'w \<Rightarrow> nat option \<times> 'w"
  gpiod_chip_get_line :: "nat \<Rightarrow> nat \<Rightarrow> 'w \<Rightarrow> nat option \<times> 'w"
  gpiod_line_request_output :: "nat \<Rightarrow> nat \<Rightarrow> 'w \<Rightarrow> int \<times> 'w"
  gpiod_line_set_value :: "nat \<Rightarrow> nat \<Rightarrow> 'w \<Rightarrow> int \<times> 'w"
  gpiod_line_release :: "nat \<Rightarrow> 'w \<Rightarrow> 'w"
  gpiod_chip_close :: "nat \<Rightarrow> 'w \<Rightarrow> 'w"

record rtnc_gpio_config =
  gp_port :: u8
  gp_pin :: u8
  gp_active_high :: bool

record rtnc_ptt =
  pt_chip :: "nat option"
  pt_line :: "nat option"
  pt_active_high :: bool
  pt_state :: bool

definition rtnc_ptt_init :: "'w gpiod \<Rightarrow> rtnc_gpio_config \<Rightarrow> 'w \<Rightarrow> bool \<times> rtnc_ptt \<times> 'w" where
  "rtnc_ptt_init G config w =
    (let ptt = \<lparr> pt_chip = None, pt_line = None, pt_active_high = gp_active_high config, pt_state = False \<rparr>
     in case gpiod_chip_open_by_number G (unat (gp_port config)) w of
       (None, w) \<Rightarrow> (False, ptt, w)
     | (Some chip, w) \<Rightarrow>
         (case gpiod_chip_get_line G chip (unat (gp_pin config)) w of
            (None, w) \<Rightarrow> (False, ptt, gpiod_chip_close G chip w)
          | (Some line, w) \<Rightarrow>
              (let (result, w) = gpiod_line_request_output G line (if gp_active_high config then 0 else 1) w
               in if result < 0 then (False, ptt, gpiod_chip_close G chip w)
                  else (True, ptt \<lparr> pt_chip := Some chip, pt_line := Some line \<rparr>, w))))"

definition rtnc_ptt_set :: "'w gpiod \<Rightarrow> rtnc_ptt \<Rightarrow> bool \<Rightarrow> 'w \<Rightarrow> bool \<times> rtnc_ptt \<times> 'w" where
  "rtnc_ptt_set G ptt enabled w =
    (case pt_line ptt of
       None \<Rightarrow> (False, ptt, w)
     | Some line \<Rightarrow>
         (let value = (if enabled = pt_active_high ptt then 1 else 0);
              (result, w) = gpiod_line_set_value G line value w
          in if result < 0 then (False, ptt, w) else (True, ptt \<lparr> pt_state := enabled \<rparr>, w)))"

definition rtnc_ptt_is_enabled :: "rtnc_ptt \<Rightarrow> bool" where
  "rtnc_ptt_is_enabled ptt = pt_state ptt"

definition rtnc_ptt_deinit :: "'w gpiod \<Rightarrow> rtnc_ptt \<Rightarrow> 'w \<Rightarrow> rtnc_ptt \<times> 'w" where
  "rtnc_ptt_deinit G ptt w =
    (let (ptt, w) = (case pt_line ptt of
           None \<Rightarrow> (ptt, w)
         | Some line \<Rightarrow> (let (_, ptt, w) = rtnc_ptt_set G ptt False w in (ptt, gpiod_line_release G line w)));
         w = (case pt_chip ptt of None \<Rightarrow> w | Some chip \<Rightarrow> gpiod_chip_close G chip w)
     in (ptt \<lparr> pt_chip := None, pt_line := None, pt_state := False \<rparr>, w))"

lemma ptt_set_state:
  "rtnc_ptt_set G ptt enabled w = (ok, ptt', w') \<Longrightarrow>
   rtnc_ptt_is_enabled ptt' = (if ok then enabled else rtnc_ptt_is_enabled ptt) \<and>
   pt_line ptt' = pt_line ptt \<and> pt_chip ptt' = pt_chip ptt \<and> pt_active_high ptt' = pt_active_high ptt"
  by (auto simp: rtnc_ptt_set_def rtnc_ptt_is_enabled_def Let_def split: option.splits prod.splits if_splits)

section \<open>The line itself\<close>

definition drives_lines :: "'w gpiod \<Rightarrow> ('w \<Rightarrow> nat \<Rightarrow> nat) \<Rightarrow> bool" where
  \<comment> \<open>documented behaviour of libgpiod: a successful request or write determines the line's level and
      nothing else changes the level of a requested line\<close>
  "drives_lines G level \<longleftrightarrow>
    (\<forall>line v w r w'. gpiod_line_request_output G line v w = (r, w') \<longrightarrow> r \<ge> 0 \<longrightarrow> level w' line = v) \<and>
    (\<forall>line v w r w'. gpiod_line_set_value G line v w = (r, w') \<longrightarrow> r \<ge> 0 \<longrightarrow> level w' line = v) \<and>
    (\<forall>line v w r w'. gpiod_line_set_value G line v w = (r, w') \<longrightarrow> r < 0 \<longrightarrow> level w' = level w)"

definition line_follows :: "('w \<Rightarrow> nat \<Rightarrow> nat) \<Rightarrow> rtnc_ptt \<Rightarrow> 'w \<Rightarrow> bool" where
  \<comment> \<open>the level of the line is the one the driver's state stands for\<close>
  "line_follows level ptt w \<longleftrightarrow>
    (\<forall>line \<in> set_option (pt_line ptt). level w line = (if pt_state ptt = pt_active_high ptt then 1 else 0))"

lemma line_follows_init:
  "drives_lines G level \<Longrightarrow> rtnc_ptt_init G config w = (ok, ptt, w') \<Longrightarrow> line_follows level ptt w' \<and> \<not> rtnc_ptt_is_enabled ptt"
  unfolding rtnc_ptt_init_def drives_lines_def line_follows_def rtnc_ptt_is_enabled_def Let_def
  by (auto split: option.splits prod.splits if_splits)

lemma line_follows_set:
  "drives_lines G level \<Longrightarrow> line_follows level ptt w \<Longrightarrow> rtnc_ptt_set G ptt enabled w = (ok, ptt', w') \<Longrightarrow>
   line_follows level ptt' w'"
  unfolding rtnc_ptt_set_def drives_lines_def line_follows_def Let_def
  by (auto split: option.splits prod.splits if_splits)

fun ptt_sets :: "'w gpiod \<Rightarrow> rtnc_ptt \<Rightarrow> bool list \<Rightarrow> 'w \<Rightarrow> rtnc_ptt \<times> 'w" where
  \<comment> \<open>a history of calls of \<open>rtnc_ptt_set\<close>\<close>
  "ptt_sets G ptt [] w = (ptt, w)"
| "ptt_sets G ptt (enabled # rest) w = (let (_, ptt, w) = rtnc_ptt_set G ptt enabled w in ptt_sets G ptt rest w)"

lemma line_follows_sets:
  "drives_lines G level \<Longrightarrow> line_follows level ptt w \<Longrightarrow> ptt_sets G ptt es w = (ptt', w') \<Longrightarrow>
   line_follows level ptt' w' \<and> pt_line ptt' = pt_line ptt \<and> pt_active_high ptt' = pt_active_high ptt"
proof (induction es arbitrary: ptt w)
  case (Cons e es)
  obtain ok p v where s: "rtnc_ptt_set G ptt e w = (ok, p, v)" by (metis prod_cases3)
  with Cons line_follows_set [OF Cons.prems(1,2) s] ptt_set_state [OF s] show ?case by simp
qed simp

text \<open>
  the driver's flag is the state of the line.  After a successful \<open>rtnc_ptt_init\<close> and any number of
  keying commands, failed ones included, the level of the GPIO line is the active one exactly if
  \<open>rtnc_ptt_is_enabled\<close> says so, for active-high and active-low wiring; the line starts inactive.
\<close>

lemma ptt_line_follows_state:
  assumes "drives_lines G level" and "rtnc_ptt_init G config w = (True, ptt, w1)" and "ptt_sets G ptt es w1 = (ptt', w2)"
  shows "\<exists>line. pt_line ptt' = Some line \<and>
    level w1 line = (if gp_active_high config then 0 else 1) \<and>
    level w2 line = (if rtnc_ptt_is_enabled ptt' = gp_active_high config then 1 else 0)"
proof -
  from assms(2) obtain line where line: "pt_line ptt = Some line" "pt_active_high ptt = gp_active_high config" "\<not> pt_state ptt"
    by (auto simp: rtnc_ptt_init_def Let_def split: option.splits prod.splits if_splits)
  from line_follows_init [OF assms(1,2)] have f: "line_follows level ptt w1" by simp
  with line line_follows_sets [OF assms(1) f assms(3)] show ?thesis
    by (auto simp: line_follows_def rtnc_ptt_is_enabled_def)
qed

text \<open>The witness: an active-low line whose driver accepts every command.\<close>

definition example_gpiod :: "nat gpiod" where
  "example_gpiod = \<lparr> gpiod_chip_open_by_number = \<lambda>n w. (Some n, w), gpiod_chip_get_line = \<lambda>c l w. (Some l, w),
     gpiod_line_request_output = \<lambda>l v w. (0, v), gpiod_line_set_value = \<lambda>l v w. (0, v),
     gpiod_line_release = \<lambda>l w. w, gpiod_chip_close = \<lambda>c w. w \<rparr>"

end
