(* ===== verification/Audio.thy ===== *)
theory Audio
  imports AudioRing "HOL-Library.Monad_Syntax"
begin

text \<open>
  The sound card driver of \<^verbatim>\<open>platform/audio.c\<close>: opening and configuring both streams, the capture thread,
  and playback with recovery of underruns.  ALSA and the thread library are parameters over the state
  \<open>'w\<close> of the outside world.  The playback loop repeats until the card has taken every sample, so it is a
  \<open>partial_function\<close>: \<open>None\<close> stands for a call that never returns.
\<close>

definition EPIPE :: int where [simp]: "EPIPE = 32"

record 'w alsa =
  calloc_implementation :: "'w \<Rightarrow> bool \<times> 'w"
  snd_pcm_open :: "string \<Rightarrow> bool \<Rightarrow> 'w \<Rightarrow> int \<times> nat option \<times> 'w" \<comment> \<open>the flag: capture\<close>
  snd_pcm_close :: "nat \<Rightarrow> 'w \<Rightarrow> 'w"
  snd_pcm_hw_params_any :: "nat \<Rightarrow> 'w \<Rightarrow> int \<times> 'w"
  snd_pcm_hw_params_set_access :: "nat \<Rightarrow> 'w \<Rightarrow> int \<times> 'w"
  snd_pcm_hw_params_set_format :: "nat \<Rightarrow> 'w \<Rightarrow> int \<times> 'w"
  snd_pcm_hw_params_set_channels :: "nat \<Rightarrow> nat \<Rightarrow> 'w \<Rightarrow> int \<times> 'w"
  snd_pcm_hw_params_set_rate_near :: "nat \<Rightarrow> u32 \<Rightarrow> 'w \<Rightarrow> (int \<times> 'w) \<times> u32"
  snd_pcm_hw_params_set_period_size_near :: "nat \<Rightarrow> u64 \<Rightarrow> 'w \<Rightarrow> (int \<times> 'w) \<times> u64"
  snd_pcm_hw_params_set_buffer_size_near :: "nat \<Rightarrow> u64 \<Rightarrow> 'w \<Rightarrow> int \<times> 'w"
  snd_pcm_hw_params :: "nat \<Rightarrow> 'w \<Rightarrow> int \<times> 'w"
  snd_pcm_prepare :: "nat \<Rightarrow> 'w \<Rightarrow> int \<times> 'w"
  snd_pcm_start :: "nat \<Rightarrow> 'w \<Rightarrow> int \<times> 'w"
  snd_pcm_drop :: "nat \<Rightarrow> 'w \<Rightarrow> 'w"
  snd_pcm_drain :: "nat \<Rightarrow> 'w \<Rightarrow> int \<times> 'w"
  snd_pcm_recover :: "nat \<Rightarrow> int \<Rightarrow> 'w \<Rightarrow> int \<times> 'w"
  snd_pcm_readi :: "nat \<Rightarrow> nat \<Rightarrow> 'w \<Rightarrow> int \<times> s16 list \<times> 'w" \<comment> \<open>the frames read, where there are some\<close>
  snd_pcm_writei :: "nat \<Rightarrow> s16 list \<Rightarrow> 'w \<Rightarrow> int \<times> 'w"
  pthread_create_capture :: "'w \<Rightarrow> int \<times> 'w"
  pthread_join_capture :: "'w \<Rightarrow> 'w"

record rtnc_audio_config =
  ac_device :: string
  ac_sample_rate_hz :: u32
  ac_period_ms :: u16
  ac_periods :: u16

record audio_implementation =
  ai_playback :: nat
  ai_capture :: nat
  ai_capture_running :: bool
  ai_capture_xruns :: u64
  ai_playback_xruns :: u64
  ai_thread_started :: bool
  ai_period_frames :: u64

type_synonym rtnc_audio = "audio_implementation option"

section \<open>Opening the streams\<close>

definition unless_negative :: "int \<times> 'w \<Rightarrow> ('w \<Rightarrow> 'a option \<times> 'w) \<Rightarrow> 'a option \<times> 'w" where
  \<comment> \<open>one operand of a chain \<^verbatim>\<open>f() < 0 || ...\<close> that ends in \<^verbatim>\<open>return false\<close>\<close>
  "unless_negative result rest = (if fst result < 0 then (None, snd result) else rest (snd result))"

definition configure_pcm :: "'w alsa \<Rightarrow> nat \<Rightarrow> rtnc_audio_config \<Rightarrow> 'w \<Rightarrow> u64 option \<times> 'w" where
  \<comment> \<open>the period size where the configuration succeeds\<close>
  "configure_pcm A pcm config w =
    (let period = ucast (ac_sample_rate_hz config * ucast (ac_period_ms config) div 1000) :: u64;
         buffer = period * ucast (ac_periods config)
     in unless_negative (snd_pcm_hw_params_any A pcm w) (\<lambda>w.
        unless_negative (snd_pcm_hw_params_set_access A pcm w) (\<lambda>w.
        unless_negative (snd_pcm_hw_params_set_format A pcm w) (\<lambda>w.
        unless_negative (snd_pcm_hw_params_set_channels A pcm 1 w) (\<lambda>w.
        let (result, rate) = snd_pcm_hw_params_set_rate_near A pcm (ac_sample_rate_hz config) w in
        unless_negative result (\<lambda>w.
        if rate \<noteq> ac_sample_rate_hz config then (None, w) else
        let (result, period) = snd_pcm_hw_params_set_period_size_near A pcm period w in
        unless_negative result (\<lambda>w.
        unless_negative (snd_pcm_hw_params_set_buffer_size_near A pcm buffer w) (\<lambda>w.
        unless_negative (snd_pcm_hw_params A pcm w) (\<lambda>w.
        if period = 0 \<or> unat period > RTNC_AUDIO_BLOCK_SAMPLES then (None, w) else (Some period, w))))))))))"

definition open_stream :: "'w alsa \<Rightarrow> rtnc_audio_config \<Rightarrow> bool \<Rightarrow> 'w \<Rightarrow> u64 option \<times> nat option \<times> 'w" where
  \<comment> \<open>open, configure and prepare one stream: the period size, and the handle where one was opened\<close>
  "open_stream A config capture w =
    (case snd_pcm_open A (ac_device config) capture w of
       (result, None, w) \<Rightarrow> (None, None, w)
     | (result, Some pcm, w) \<Rightarrow>
         if result < 0 then (None, Some pcm, w)
         else (case configure_pcm A pcm config w of
            (None, w) \<Rightarrow> (None, Some pcm, w)
          | (Some period, w) \<Rightarrow>
              (let (result, w) = snd_pcm_prepare A pcm w
               in (if result < 0 then None else Some period, Some pcm, w))))"

definition close_stream :: "'w alsa \<Rightarrow> nat option \<Rightarrow> 'w \<Rightarrow> 'w" where
  "close_stream A pcm w = (case pcm of None \<Rightarrow> w | Some pcm \<Rightarrow> snd_pcm_close A pcm w)"

definition rtnc_audio_init :: "'w alsa \<Rightarrow> rtnc_audio \<Rightarrow> rtnc_audio_config \<Rightarrow> 'w \<Rightarrow> bool \<times> rtnc_audio \<times> 'w" where
  "rtnc_audio_init A audio config w =
    (if audio \<noteq> None then (False, audio, w) else
     let (allocated, w) = calloc_implementation A w
     in if \<not> allocated then (False, audio, w) else
     case open_stream A config False w of
       (None, playback, w) \<Rightarrow> (False, None, close_stream A playback w)
     | (Some _, None, w) \<Rightarrow> (False, None, w)
     | (Some _, Some playback, w) \<Rightarrow>
         (case open_stream A config True w of
            (Some period, Some capture, w) \<Rightarrow>
              (True, Some \<lparr> ai_playback = playback, ai_capture = capture, ai_capture_running = False,
                 ai_capture_xruns = 0, ai_playback_xruns = 0, ai_thread_started = False,
                 ai_period_frames = period \<rparr>, w)
          | (_, capture, w) \<Rightarrow> (False, None, snd_pcm_close A playback (close_stream A capture w))))"

section \<open>Capture\<close>

definition capture_iteration ::
    "'w alsa \<Rightarrow> audio_implementation \<Rightarrow> bool \<Rightarrow> rtnc_audio_ring \<Rightarrow> 'w \<Rightarrow>
     bool \<times> audio_implementation \<times> rtnc_audio_ring \<times> 'w" where
  \<comment> \<open>one round of \<^verbatim>\<open>capture_thread_main\<close>: false where the thread leaves its loop; \<open>running\<close> is what the
      second read of \<^verbatim>\<open>capture_running\<close> sees\<close>
  "capture_iteration A impl running ring w =
    (let (amount, samples, w) = snd_pcm_readi A (ai_capture impl) (unat (ai_period_frames impl)) w
     in if amount = - EPIPE
        then (True, impl \<lparr> ai_capture_xruns := ai_capture_xruns impl + 1 \<rparr>, ring,
              snd (snd_pcm_prepare A (ai_capture impl) w))
        else if amount < 0
        then if \<not> running then (False, impl, ring, w)
             else (let (result, w) = snd_pcm_recover A (ai_capture impl) amount w
                   in if result < 0 then (False, impl, ring, w)
                      else (True, impl \<lparr> ai_capture_xruns := ai_capture_xruns impl + 1 \<rparr>, ring, w))
        else if amount > 0
        then (True, impl, snd (rtnc_audio_ring_push ring (take (nat amount) samples)), w)
        else (True, impl, ring, w))"

fun capture_thread_main ::
    "'w alsa \<Rightarrow> audio_implementation \<Rightarrow> (bool \<times> bool) list \<Rightarrow> rtnc_audio_ring \<Rightarrow> 'w \<Rightarrow>
     audio_implementation \<times> rtnc_audio_ring \<times> 'w" where
  \<comment> \<open>the list holds what the successive reads of \<^verbatim>\<open>capture_running\<close> see: another thread clears the flag\<close>
  "capture_thread_main A impl [] ring w = (impl, ring, w)"
| "capture_thread_main A impl ((running, still) # flags) ring w =
    (if \<not> running then (impl, ring, w)
     else let (continue, impl, ring, w) = capture_iteration A impl still ring w
          in if continue then capture_thread_main A impl flags ring w else (impl, ring, w))"

definition rtnc_audio_start_capture :: "'w alsa \<Rightarrow> rtnc_audio \<Rightarrow> 'w \<Rightarrow> bool \<times> rtnc_audio \<times> 'w" where
  "rtnc_audio_start_capture A audio w =
    (case audio of
       None \<Rightarrow> (False, audio, w)
     | Some impl \<Rightarrow>
         if ai_thread_started impl then (True, audio, w)
         else let (result, w) = snd_pcm_start A (ai_capture impl) w
              in if result < 0 then (False, audio, w)
              else let (result, w) = pthread_create_capture A w
                   in if result \<noteq> 0
                      then (False, Some (impl \<lparr> ai_capture_running := False \<rparr>), snd_pcm_drop A (ai_capture impl) w)
                      else (True, Some (impl \<lparr> ai_capture_running := True, ai_thread_started := True \<rparr>), w))"

definition rtnc_audio_stop_capture :: "'w alsa \<Rightarrow> rtnc_audio \<Rightarrow> 'w \<Rightarrow> rtnc_audio \<times> 'w" where
  "rtnc_audio_stop_capture A audio w =
    (case audio of
       None \<Rightarrow> (audio, w)
     | Some impl \<Rightarrow>
         if \<not> ai_thread_started impl then (audio, w)
         else (Some (impl \<lparr> ai_capture_running := False, ai_thread_started := False \<rparr>),
               snd (snd_pcm_prepare A (ai_capture impl)
                 (pthread_join_capture A (snd_pcm_drop A (ai_capture impl) w)))))"

section \<open>Playback\<close>

partial_function (option) audio_send_loop ::
    "'w alsa \<Rightarrow> s16 list \<Rightarrow> nat \<Rightarrow> audio_implementation \<Rightarrow> 'w \<Rightarrow> (bool \<times> audio_implementation \<times> 'w) option" where
  "audio_send_loop A samples offset impl w =
    (if offset < length samples
     then let (written, w) = snd_pcm_writei A (ai_playback impl) (drop offset samples) w
          in if written = - EPIPE
             then audio_send_loop A samples offset (impl \<lparr> ai_playback_xruns := ai_playback_xruns impl + 1 \<rparr>)
                    (snd (snd_pcm_prepare A (ai_playback impl) w))
             else if written < 0
             then let (result, w) = snd_pcm_recover A (ai_playback impl) written w
                  in if result < 0 then Some (False, impl, w)
                     else audio_send_loop A samples offset
                            (impl \<lparr> ai_playback_xruns := ai_playback_xruns impl + 1 \<rparr>) w
             else audio_send_loop A samples (offset + nat written) impl w
     else Some (True, impl, w))"

definition rtnc_audio_send :: "'w alsa \<Rightarrow> rtnc_audio \<Rightarrow> s16 list \<Rightarrow> 'w \<Rightarrow> (bool \<times> rtnc_audio \<times> 'w) option" where
  "rtnc_audio_send A audio samples w =
    (case audio of
       None \<Rightarrow> Some (False, audio, w)
     | Some impl \<Rightarrow>
         map_option (\<lambda>(ok, impl, w). (ok, Some impl, w)) (audio_send_loop A samples 0 impl w))"

definition rtnc_audio_wait :: "'w alsa \<Rightarrow> rtnc_audio \<Rightarrow> 'w \<Rightarrow> bool \<times> 'w" where
  "rtnc_audio_wait A audio w =
    (case audio of
       None \<Rightarrow> (False, w)
     | Some impl \<Rightarrow>
         (let (result, w) = snd_pcm_drain A (ai_playback impl) w
          in if result < 0 then (False, w)
             else let (result, w) = snd_pcm_prepare A (ai_playback impl) w in (\<not> result < 0, w)))"

definition rtnc_audio_capture_xruns :: "rtnc_audio \<Rightarrow> u64" where
  "rtnc_audio_capture_xruns audio = (case audio of None \<Rightarrow> 0 | Some impl \<Rightarrow> ai_capture_xruns impl)"

definition rtnc_audio_playback_xruns :: "rtnc_audio \<Rightarrow> u64" where
  "rtnc_audio_playback_xruns audio = (case audio of None \<Rightarrow> 0 | Some impl \<Rightarrow> ai_playback_xruns impl)"

definition rtnc_audio_deinit :: "'w alsa \<Rightarrow> rtnc_audio \<Rightarrow> 'w \<Rightarrow> rtnc_audio \<times> 'w" where
  "rtnc_audio_deinit A audio w =
    (case rtnc_audio_stop_capture A audio w of
       (None, w) \<Rightarrow> (None, w)
     | (Some impl, w) \<Rightarrow> (None, snd_pcm_close A (ai_playback impl) (snd_pcm_close A (ai_capture impl) w)))"

section \<open>What reaches the card\<close>

definition plays :: "'w alsa \<Rightarrow> ('w \<Rightarrow> nat \<Rightarrow> s16 list) \<Rightarrow> bool" where
  \<comment> \<open>documented behaviour of ALSA: a write accepts the reported number of frames from the front of the
      buffer, an error accepts none, and preparing or recovering a stream plays nothing\<close>
  "plays A played \<longleftrightarrow>
    (\<forall>h xs w n w'. snd_pcm_writei A h xs w = (n, w') \<longrightarrow> played w' h = played w h @ take (nat n) xs) \<and>
    (\<forall>h w n w'. snd_pcm_prepare A h w = (n, w') \<longrightarrow> played w' h = played w h) \<and>
    (\<forall>h e w n w'. snd_pcm_recover A h e w = (n, w') \<longrightarrow> played w' h = played w h)"

definition finitely_interrupted :: "'w alsa \<Rightarrow> ('w \<Rightarrow> nat) \<Rightarrow> bool" where
  \<comment> \<open>a write of some samples accepts one at least or fails, and it fails finitely often\<close>
  "finitely_interrupted A remaining_errors \<longleftrightarrow>
    (\<forall>h xs w n w'. snd_pcm_writei A h xs w = (n, w') \<longrightarrow> xs \<noteq> [] \<longrightarrow>
       0 < n \<and> remaining_errors w' \<le> remaining_errors w \<or> n < 0 \<and> remaining_errors w' < remaining_errors w) \<and>
    (\<forall>h w n w'. snd_pcm_prepare A h w = (n, w') \<longrightarrow> remaining_errors w' \<le> remaining_errors w) \<and>
    (\<forall>h e w n w'. snd_pcm_recover A h e w = (n, w') \<longrightarrow> remaining_errors w' \<le> remaining_errors w)"

lemma playsD:
  "plays A played \<Longrightarrow> snd_pcm_writei A h xs w = (n, w') \<Longrightarrow> played w' h = played w h @ take (nat n) xs"
  "plays A played \<Longrightarrow> played (snd (snd_pcm_prepare A h w)) h = played w h"
  "plays A played \<Longrightarrow> snd_pcm_recover A h e w = (m, w') \<Longrightarrow> played w' h = played w h"
  unfolding plays_def by (blast, metis prod.collapse, blast)

lemma audio_send_loop_plays:
  assumes "audio_send_loop A samples offset impl w = Some (ok, impl', w')" and "plays A played"
  shows "ai_playback impl' = ai_playback impl \<and>
    (\<exists>k. played w' (ai_playback impl) = played w (ai_playback impl) @ take k (drop offset samples)
       \<and> (ok \<longrightarrow> length samples - offset \<le> k))"
proof -
  let ?P = "\<lambda>A samples offset (impl :: audio_implementation) w (ok, impl' :: audio_implementation, w'). plays A played \<longrightarrow> ai_playback impl' = ai_playback impl \<and>
    (\<exists>k. played w' (ai_playback impl) = played w (ai_playback impl) @ take k (drop offset samples)
       \<and> (ok \<longrightarrow> length samples - offset \<le> k))"
  have "?P A samples offset impl w (ok, impl', w')"
  proof (rule audio_send_loop.raw_induct [where P = ?P, OF _ assms(1)])
    fix loop :: "'a alsa \<Rightarrow> s16 list \<Rightarrow> nat \<Rightarrow> audio_implementation \<Rightarrow> 'a \<Rightarrow> (bool \<times> audio_implementation \<times> 'a) option"
      and A samples offset impl w r
    assume IH: "\<And>A samples offset impl w r. loop A samples offset impl w = Some r \<Longrightarrow> ?P A samples offset impl w r"
    assume body: "(if offset < length samples
       then let (written, w) = snd_pcm_writei A (ai_playback impl) (drop offset samples) w
            in if written = - EPIPE
               then loop A samples offset (impl \<lparr> ai_playback_xruns := ai_playback_xruns impl + 1 \<rparr>)
                      (snd (snd_pcm_prepare A (ai_playback impl) w))
               else if written < 0
               then let (result, w) = snd_pcm_recover A (ai_playback impl) written w
                    in if result < 0 then Some (False, impl, w)
                       else loop A samples offset (impl \<lparr> ai_playback_xruns := ai_playback_xruns impl + 1 \<rparr>) w
               else loop A samples (offset + nat written) impl w
       else Some (True, impl, w)) = Some r"
    show "?P A samples offset impl w r"
    proof (cases "offset < length samples")
      case False
      with body show ?thesis by (auto intro: exI [of _ 0])
    next
      case True
      obtain n v where wr: "snd_pcm_writei A (ai_playback impl) (drop offset samples) w = (n, v)" by fastforce
      obtain m u where rc: "snd_pcm_recover A (ai_playback impl) n v = (m, u)" by fastforce
      obtain ok impl' w' where r: "r = (ok, impl', w')" by (cases r)
      let ?x = "impl \<lparr> ai_playback_xruns := ai_playback_xruns impl + 1 \<rparr>"
      let ?h = "ai_playback impl"
      show ?thesis unfolding r prod.case
      proof
        assume p: "plays A played"
        have v: "played v ?h = played w ?h @ take (nat n) (drop offset samples)" by (rule playsD(1) [OF p wr])
        have pv: "played (snd (snd_pcm_prepare A ?h v)) ?h = played v ?h" by (rule playsD(2) [OF p])
        have u: "played u ?h = played v ?h" by (rule playsD(3) [OF p rc])
        have inner: "ai_playback impl' = ai_playback i \<and> (\<exists>k. played w' (ai_playback i) = played t (ai_playback i) @
            take k (drop n' samples) \<and> (ok \<longrightarrow> length samples - n' \<le> k))"
          if "loop A samples n' i t = Some r" for n' i t using IH [OF that] p r by simp
        consider "n = - 32" "loop A samples offset ?x (snd (snd_pcm_prepare A ?h v)) = Some r"
          | "n < 0" "m < 0" "r = (False, impl, u)" | "n < 0" "loop A samples offset ?x u = Some r"
          | "\<not> n < 0" "loop A samples (offset + nat n) impl v = Some r"
        proof -
          have "(if n = - 32 then loop A samples offset ?x (snd (snd_pcm_prepare A ?h v))
              else if n < 0 then if m < 0 then Some (False, impl, u) else loop A samples offset ?x u
              else loop A samples (offset + nat n) impl v) = Some r"
            using body unfolding if_P [OF True] wr Let_def prod.case rc EPIPE_def .
          then have "n = - 32 \<and> loop A samples offset ?x (snd (snd_pcm_prepare A ?h v)) = Some r \<or>
              n < 0 \<and> m < 0 \<and> r = (False, impl, u) \<or> n < 0 \<and> loop A samples offset ?x u = Some r \<or>
              \<not> n < 0 \<and> loop A samples (offset + nat n) impl v = Some r"
            by (simp split: if_split_asm)
          with that show ?thesis by blast
        qed
        then show "ai_playback impl' = ?h \<and> (\<exists>k. played w' ?h = played w ?h @ take k (drop offset samples) \<and>
            (ok \<longrightarrow> length samples - offset \<le> k))"
        proof cases
          case 1
          with inner [OF 1(2)] v pv show ?thesis by simp
        next
          case 2
          with r u v show ?thesis by (auto intro: exI [of _ 0])
        next
          case 3
          with inner [OF 3(2)] v u show ?thesis by simp
        next
          case 4
          from inner [OF 4(2)] obtain k where k: "ai_playback impl' = ?h"
              "played w' ?h = played v ?h @ take k (drop (offset + nat n) samples)"
              "ok \<longrightarrow> length samples - (offset + nat n) \<le> k" by blast
          moreover have "take (nat n) (drop offset samples) @ take k (drop (offset + nat n) samples) =
              take (nat n + k) (drop offset samples)" unfolding take_add [of "nat n" k] by (simp add: add.commute)
          ultimately show ?thesis using v by (intro conjI exI [of _ "nat n + k"]) auto
        qed
      qed
    qed
  qed
  with assms(2) show ?thesis by simp
qed

lemma audio_send_loop_returns:
  assumes "finitely_interrupted A errors"
  shows "audio_send_loop A samples offset impl w \<noteq> None"
proof (induction "(length samples - offset, errors w)" arbitrary: offset impl w
    rule: wf_induct_rule [OF wf_lex_prod [OF wf_less_than wf_less_than]])
  case 1
  note fi = assms [unfolded finitely_interrupted_def]
  show ?case
  proof (cases "offset < length samples")
    case False
    then show ?thesis by (simp add: audio_send_loop.simps)
  next
    case True
    let ?h = "ai_playback impl"
    let ?x = "impl \<lparr> ai_playback_xruns := ai_playback_xruns impl + 1 \<rparr>"
    obtain n v where wr: "snd_pcm_writei A ?h (drop offset samples) w = (n, v)" by fastforce
    with fi True have step: "0 < n \<and> errors v \<le> errors w \<or> n < 0 \<and> errors v < errors w" by fastforce
    obtain m u where rc: "snd_pcm_recover A ?h n v = (m, u)" by fastforce
    with fi have u: "errors u \<le> errors v" by fastforce
    have pr: "errors (snd (snd_pcm_prepare A ?h v)) \<le> errors v" using fi by (metis prod.collapse)
    have again: "audio_send_loop A samples offset ?x w' \<noteq> None" if "errors w' < errors w" for w'
      using 1 [of offset w' ?x] that by simp
    have onward: "audio_send_loop A samples (offset + nat n) impl v \<noteq> None" if "0 < n"
    proof -
      have "length samples - (offset + nat n) < length samples - offset" using that True by simp
      with 1 [of "offset + nat n" v impl] show ?thesis by simp
    qed
    show ?thesis
      using True wr rc step again [of "snd (snd_pcm_prepare A ?h v)"] again [of u] onward u pr
      by (subst audio_send_loop.simps) auto
  qed
qed

text \<open>
  what reaches the sound card is what was sent.  Through any number of underruns, suspensions and
  partial writes, \<open>rtnc_audio_send\<close> plays the samples in order, each once: all of them where it reports
  success, and an initial part where recovery fails.
\<close>

lemma audio_send_in_order:
  assumes "plays A played" and "rtnc_audio_send A (Some impl) samples w = Some (ok, audio', w')"
  shows "\<exists>k. played w' (ai_playback impl) = played w (ai_playback impl) @ take k samples \<and> (ok \<longrightarrow> length samples \<le> k)"
  using assms(2) audio_send_loop_plays [OF _ assms(1), of samples 0 impl w]
  by (auto simp: rtnc_audio_send_def)

text \<open>
  \<open>rtnc_audio_send\<close> returns.  The playback loop has no bound of its own; it ends if every write takes
  at least one sample or fails, and the card does not fail infinitely often.
\<close>

lemma audio_send_returns:
  assumes "finitely_interrupted A remaining_errors"
  shows "rtnc_audio_send A audio samples w \<noteq> None"
  by (cases audio) (simp_all add: rtnc_audio_send_def audio_send_loop_returns [OF assms] del: not_None_eq)

text \<open>The witness: a card that takes two samples at a time and reports one underrun.\<close>

definition example_alsa :: "(nat \<times> s16 list) alsa" where
  \<comment> \<open>the state: underruns to come, and the samples played\<close>
  "example_alsa = \<lparr> calloc_implementation = \<lambda>w. (True, w), snd_pcm_open = \<lambda>d c w. (0, Some 1, w),
     snd_pcm_close = \<lambda>h w. w, snd_pcm_hw_params_any = \<lambda>h w. (0, w), snd_pcm_hw_params_set_access = \<lambda>h w. (0, w),
     snd_pcm_hw_params_set_format = \<lambda>h w. (0, w), snd_pcm_hw_params_set_channels = \<lambda>h c w. (0, w),
     snd_pcm_hw_params_set_rate_near = \<lambda>h r w. ((0, w), r), snd_pcm_hw_params_set_period_size_near = \<lambda>h p w. ((0, w), p),
     snd_pcm_hw_params_set_buffer_size_near = \<lambda>h b w. (0, w), snd_pcm_hw_params = \<lambda>h w. (0, w),
     snd_pcm_prepare = \<lambda>h w. (0, w), snd_pcm_start = \<lambda>h w. (0, w), snd_pcm_drop = \<lambda>h w. w,
     snd_pcm_drain = \<lambda>h w. (0, w), snd_pcm_recover = \<lambda>h e w. (0, w), snd_pcm_readi = \<lambda>h n w. (0, [], w),
     snd_pcm_writei = \<lambda>h xs w. if fst w = 0 then (int (min 2 (length xs)), (0, snd w @ take 2 xs))
       else (- EPIPE, (fst w - 1, snd w)),
     pthread_create_capture = \<lambda>w. (0, w), pthread_join_capture = \<lambda>w. w \<rparr>"

definition example_card :: audio_implementation where
  "example_card = \<lparr> ai_playback = 1, ai_capture = 2, ai_capture_running = False, ai_capture_xruns = 0,
     ai_playback_xruns = 0, ai_thread_started = False, ai_period_frames = 480 \<rparr>"

end
