(* ===== verification/Backend.thy ===== *)
theory Backend
  imports Audio Ptt TxEq Fp
begin

text \<open>
  The record of functions through which the packet runtime reaches the hardware, and its ALSA and GPIO
  implementation of \<^verbatim>\<open>platform/alsa_runtime_backend.c\<close>.  A function of the record takes and returns the
  state \<open>'s\<close> behind its context pointer; \<open>None\<close> is a call that does not return.  The locale \<open>ptt_backend\<close>
  states what the users of a backend rely on for the transmitter key, and is proved for the ALSA backend.
\<close>

record 's rtnc_runtime_backend =
  rb_set_ptt :: "bool \<Rightarrow> 's \<Rightarrow> (bool \<times> 's) option"
  rb_send_audio :: "s16 list \<Rightarrow> 's \<Rightarrow> (bool \<times> 's) option"
  rb_wait_audio :: "'s \<Rightarrow> (bool \<times> 's) option"
  rb_channel_busy :: "('s \<Rightarrow> (bool \<times> 's) option) option"
  rb_sleep_ms :: "u16 \<Rightarrow> 's \<Rightarrow> (bool \<times> 's) option"
  rb_now_ms :: "'s \<Rightarrow> (u64 \<times> 's) option"

named_theorems call_simps \<open>a sequence of calls that has a result\<close>

lemma bind_pair_Some [call_simps]:
  "Option.bind m (\<lambda>(a, b). f a b) = Some r \<longleftrightarrow> (\<exists>a b. m = Some (a, b) \<and> f a b = Some r)"
  by (cases m) auto

lemma bind_triple_Some [call_simps]:
  "Option.bind m (\<lambda>(a, b, c). f a b c) = Some r \<longleftrightarrow> (\<exists>a b c. m = Some (a, b, c) \<and> f a b c = Some r)"
  by (cases m) auto

lemma case_pair_Some [call_simps]:
  "(case m of (a, b) \<Rightarrow> f a b) = Some r \<longleftrightarrow> (\<exists>a b. m = (a, b) \<and> f a b = Some r)"
  by (cases m) auto

lemma case_triple_Some [call_simps]:
  "(case m of (a, b, c) \<Rightarrow> f a b c) = Some r \<longleftrightarrow> (\<exists>a b c. m = (a, b, c) \<and> f a b c = Some r)"
  by (cases m) auto

section \<open>Clock\<close>

definition EINTR :: int where [simp]: "EINTR = 4"

record timespec =
  tv_sec :: int
  tv_nsec :: int

record 'w posix =
  nanosleep :: "timespec \<Rightarrow> 'w \<Rightarrow> int \<times> int \<times> timespec \<times> 'w" \<comment> \<open>result, \<^verbatim>\<open>errno\<close>, time remaining\<close>
  clock_gettime :: "'w \<Rightarrow> int \<times> timespec \<times> 'w"

definition delay_of :: "u16 \<Rightarrow> timespec" where
  "delay_of milliseconds =
    \<lparr> tv_sec = int (unat milliseconds div 1000), tv_nsec = int (unat milliseconds mod 1000) * 1000000 \<rparr>"

partial_function (option) sleep_loop :: "'w posix \<Rightarrow> timespec \<Rightarrow> 'w \<Rightarrow> (bool \<times> 'w) option" where
  "sleep_loop P delay w =
    (let (result, errno, delay, w) = nanosleep P delay w
     in if result < 0 then if errno \<noteq> EINTR then Some (False, w) else sleep_loop P delay w
        else Some (True, w))"

definition sleep_milliseconds :: "'w posix \<Rightarrow> u16 \<Rightarrow> 'w \<Rightarrow> (bool \<times> 'w) option" where
  "sleep_milliseconds P milliseconds w = sleep_loop P (delay_of milliseconds) w"

definition finitely_signalled :: "'w posix \<Rightarrow> ('w \<Rightarrow> nat) \<Rightarrow> bool" where
  \<comment> \<open>only finitely many signals interrupt the sleep\<close>
  "finitely_signalled P remaining_signals \<longleftrightarrow>
    (\<forall>d w r d' w'. nanosleep P d w = (r, EINTR, d', w') \<longrightarrow> r < 0 \<longrightarrow> remaining_signals w' < remaining_signals w)"

lemma sleep_loop_returns: "finitely_signalled P signals \<Longrightarrow> sleep_loop P delay w \<noteq> None"
proof (induction "signals w" arbitrary: delay w rule: less_induct)
  case less
  obtain r e d v where n: "nanosleep P delay w = (r, e, d, v)" by (metis prod_cases4)
  show ?case
  proof (cases "r < 0 \<and> e = EINTR")
    case True
    with less.prems n have "signals v < signals w" unfolding finitely_signalled_def by blast
    from less.hyps [OF this less.prems] True n show ?thesis by (subst sleep_loop.simps) simp
  next
    case False
    with n show ?thesis by (subst sleep_loop.simps) auto
  qed
qed

section \<open>The ALSA and GPIO backend\<close>

record 'w alsa_context =
  ax_audio :: rtnc_audio
  ax_ptt :: rtnc_ptt
  ax_channel_busy :: "bool option" \<comment> \<open>the flag another thread sets, where there is one\<close>
  ax_world :: 'w

definition backend_set_ptt :: "'w gpiod \<Rightarrow> bool \<Rightarrow> 'w alsa_context \<Rightarrow> (bool \<times> 'w alsa_context) option" where
  "backend_set_ptt G enabled context =
    (let (ok, ptt, w) = rtnc_ptt_set G (ax_ptt context) enabled (ax_world context)
     in Some (ok, context \<lparr> ax_ptt := ptt, ax_world := w \<rparr>))"

definition backend_send_audio :: "'w alsa \<Rightarrow> s16 list \<Rightarrow> 'w alsa_context \<Rightarrow> (bool \<times> 'w alsa_context) option" where
  "backend_send_audio A samples context =
    map_option (\<lambda>(ok, audio, w). (ok, context \<lparr> ax_audio := audio, ax_world := w \<rparr>))
      (rtnc_audio_send A (ax_audio context) samples (ax_world context))"

definition backend_wait_audio :: "'w alsa \<Rightarrow> 'w alsa_context \<Rightarrow> (bool \<times> 'w alsa_context) option" where
  "backend_wait_audio A context =
    (let (ok, w) = rtnc_audio_wait A (ax_audio context) (ax_world context)
     in Some (ok, context \<lparr> ax_world := w \<rparr>))"

definition backend_channel_busy :: "'w alsa_context \<Rightarrow> (bool \<times> 'w alsa_context) option" where
  "backend_channel_busy context = Some (ax_channel_busy context = Some True, context)"

definition backend_sleep :: "'w posix \<Rightarrow> u16 \<Rightarrow> 'w alsa_context \<Rightarrow> (bool \<times> 'w alsa_context) option" where
  "backend_sleep P milliseconds context =
    map_option (\<lambda>(ok, w). (ok, context \<lparr> ax_world := w \<rparr>)) (sleep_loop P (delay_of milliseconds) (ax_world context))"

definition backend_now_ms :: "'w posix \<Rightarrow> 'w alsa_context \<Rightarrow> (u64 \<times> 'w alsa_context) option" where
  "backend_now_ms P context =
    (let (result, value, w) = clock_gettime P (ax_world context)
     in Some (if result \<noteq> 0 then 0
              else word_of_int (tv_sec value) * 1000 + word_of_int (tv_nsec value) div 1000000,
              context \<lparr> ax_world := w \<rparr>))"

definition rtnc_alsa_runtime_backend :: "'w alsa \<Rightarrow> 'w gpiod \<Rightarrow> 'w posix \<Rightarrow> 'w alsa_context rtnc_runtime_backend" where
  "rtnc_alsa_runtime_backend A G P =
    \<lparr> rb_set_ptt = backend_set_ptt G, rb_send_audio = backend_send_audio A,
      rb_wait_audio = backend_wait_audio A, rb_channel_busy = Some backend_channel_busy,
      rb_sleep_ms = backend_sleep P, rb_now_ms = backend_now_ms P \<rparr>"

section \<open>What a backend promises about the key\<close>

definition backend_keeps :: "'s rtnc_runtime_backend \<Rightarrow> ('s \<Rightarrow> bool) \<Rightarrow> bool" where
  \<comment> \<open>every call preserves the predicate\<close>
  "backend_keeps B R \<longleftrightarrow>
    (\<forall>enabled s ok s'. rb_set_ptt B enabled s = Some (ok, s') \<longrightarrow> R s \<longrightarrow> R s') \<and>
    (\<forall>samples s ok s'. rb_send_audio B samples s = Some (ok, s') \<longrightarrow> R s \<longrightarrow> R s') \<and>
    (\<forall>s ok s'. rb_wait_audio B s = Some (ok, s') \<longrightarrow> R s \<longrightarrow> R s') \<and>
    (\<forall>busy s ok s'. rb_channel_busy B = Some busy \<longrightarrow> busy s = Some (ok, s') \<longrightarrow> R s \<longrightarrow> R s') \<and>
    (\<forall>ms s ok s'. rb_sleep_ms B ms s = Some (ok, s') \<longrightarrow> R s \<longrightarrow> R s') \<and>
    (\<forall>s now s'. rb_now_ms B s = Some (now, s') \<longrightarrow> R s \<longrightarrow> R s')"

lemma backend_keepsD:
  assumes "backend_keeps B R"
  shows "rb_set_ptt B enabled s = Some (ok, s') \<Longrightarrow> R s \<Longrightarrow> R s'"
    and "rb_send_audio B samples s = Some (ok, s') \<Longrightarrow> R s \<Longrightarrow> R s'"
    and "rb_wait_audio B s = Some (ok, s') \<Longrightarrow> R s \<Longrightarrow> R s'"
    and "rb_channel_busy B = Some busy \<Longrightarrow> busy s = Some (ok, s') \<Longrightarrow> R s \<Longrightarrow> R s'"
    and "rb_sleep_ms B ms s = Some (ok, s') \<Longrightarrow> R s \<Longrightarrow> R s'"
    and "rb_now_ms B s = Some (now, s') \<Longrightarrow> R s \<Longrightarrow> R s'"
  using assms unfolding backend_keeps_def by metis+

text \<open>
  A count of the frames a backend has played: \<open>sent\<close> reads it off the state, goes up by one with every
  \<open>rb_send_audio\<close> that succeeds and with no other call.  Every backend can carry such a count.
\<close>

definition counts_sent :: "'s rtnc_runtime_backend \<Rightarrow> ('s \<Rightarrow> nat) \<Rightarrow> bool" where
  "counts_sent B sent \<longleftrightarrow>
    (\<forall>enabled s ok s'. rb_set_ptt B enabled s = Some (ok, s') \<longrightarrow> sent s' = sent s) \<and>
    (\<forall>samples s ok s'. rb_send_audio B samples s = Some (ok, s') \<longrightarrow> sent s' = sent s + (if ok then 1 else 0)) \<and>
    (\<forall>s ok s'. rb_wait_audio B s = Some (ok, s') \<longrightarrow> sent s' = sent s) \<and>
    (\<forall>busy s ok s'. rb_channel_busy B = Some busy \<longrightarrow> busy s = Some (ok, s') \<longrightarrow> sent s' = sent s) \<and>
    (\<forall>ms s ok s'. rb_sleep_ms B ms s = Some (ok, s') \<longrightarrow> sent s' = sent s) \<and>
    (\<forall>s now s'. rb_now_ms B s = Some (now, s') \<longrightarrow> sent s' = sent s)"

lemma counts_sentD:
  assumes "counts_sent B sent"
  shows "rb_set_ptt B enabled s = Some (ok, s') \<Longrightarrow> sent s' = sent s"
    and "rb_send_audio B samples s = Some (ok, s') \<Longrightarrow> sent s' = sent s + (if ok then 1 else 0)"
    and "rb_wait_audio B s = Some (ok, s') \<Longrightarrow> sent s' = sent s"
    and "rb_channel_busy B = Some busy \<Longrightarrow> busy s = Some (ok, s') \<Longrightarrow> sent s' = sent s"
    and "rb_sleep_ms B ms s = Some (ok, s') \<Longrightarrow> sent s' = sent s"
    and "rb_now_ms B s = Some (now, s') \<Longrightarrow> sent s' = sent s"
  using assms unfolding counts_sent_def by metis+

definition counting :: "'s rtnc_runtime_backend \<Rightarrow> ('s \<times> nat) rtnc_runtime_backend" where
  \<comment> \<open>the same backend with the count in its state\<close>
  "counting B =
    \<lparr> rb_set_ptt = \<lambda>enabled (s, n). map_option (\<lambda>(ok, s). (ok, (s, n))) (rb_set_ptt B enabled s),
       rb_send_audio = \<lambda>samples (s, n).
         map_option (\<lambda>(ok, s). (ok, (s, n + (if ok then 1 else 0)))) (rb_send_audio B samples s),
       rb_wait_audio = \<lambda>(s, n). map_option (\<lambda>(ok, s). (ok, (s, n))) (rb_wait_audio B s),
       rb_channel_busy = map_option (\<lambda>busy (s, n). map_option (\<lambda>(ok, s). (ok, (s, n))) (busy s)) (rb_channel_busy B),
       rb_sleep_ms = \<lambda>ms (s, n). map_option (\<lambda>(ok, s). (ok, (s, n))) (rb_sleep_ms B ms s),
       rb_now_ms = \<lambda>(s, n). map_option (\<lambda>(now, s). (now, (s, n))) (rb_now_ms B s) \<rparr>"

lemma counting_counts: "counts_sent (counting B) snd"
  by (auto simp: counts_sent_def counting_def)

locale ptt_backend =
  fixes B :: "'s rtnc_runtime_backend"
    and keyed :: "'s \<Rightarrow> bool"
    and ready :: "'s \<Rightarrow> bool"
  assumes set_ptt_ok: "rb_set_ptt B enabled s = Some (True, s') \<Longrightarrow> keyed s' = enabled"
    and set_ptt_failed: "rb_set_ptt B enabled s = Some (False, s') \<Longrightarrow> keyed s' = keyed s"
    and send_keeps: "rb_send_audio B samples s = Some (ok, s') \<Longrightarrow> keyed s' = keyed s"
    and wait_keeps: "rb_wait_audio B s = Some (ok, s') \<Longrightarrow> keyed s' = keyed s"
    and busy_keeps: "rb_channel_busy B = Some busy \<Longrightarrow> busy s = Some (ok, s') \<Longrightarrow> keyed s' = keyed s"
    and sleep_keeps: "rb_sleep_ms B ms s = Some (ok, s') \<Longrightarrow> keyed s' = keyed s"
    and now_keeps: "rb_now_ms B s = Some (now, s') \<Longrightarrow> keyed s' = keyed s"
    and ready_keeps: "backend_keeps B ready"

definition context_keyed :: "'w alsa_context \<Rightarrow> bool" where
  "context_keyed context = rtnc_ptt_is_enabled (ax_ptt context)"

definition context_ready :: "'w alsa_context \<Rightarrow> bool" where
  "context_ready context \<longleftrightarrow> pt_line (ax_ptt context) \<noteq> None"

interpretation alsa_key: ptt_backend "rtnc_alsa_runtime_backend A G P" context_keyed context_ready
  for A :: "'w alsa" and G P
proof
  fix enabled s s'
  assume "rb_set_ptt (rtnc_alsa_runtime_backend A G P) enabled s = Some (True, s')"
  then show "context_keyed s' = enabled"
    using ptt_set_state [of G "ax_ptt s" enabled "ax_world s"]
    by (auto simp: rtnc_alsa_runtime_backend_def backend_set_ptt_def context_keyed_def Let_def split: prod.splits)
next
  fix enabled s s'
  assume "rb_set_ptt (rtnc_alsa_runtime_backend A G P) enabled s = Some (False, s')"
  then show "context_keyed s' = context_keyed s"
    using ptt_set_state [of G "ax_ptt s" enabled "ax_world s"]
    by (auto simp: rtnc_alsa_runtime_backend_def backend_set_ptt_def context_keyed_def Let_def split: prod.splits)
next
  have "context_ready s'" if "backend_set_ptt G enabled s = Some (ok, s')" "context_ready s" for enabled s ok s'
    using that ptt_set_state [of G "ax_ptt s" enabled "ax_world s"]
    by (auto simp: backend_set_ptt_def context_ready_def Let_def split: prod.splits)
  then show "backend_keeps (rtnc_alsa_runtime_backend A G P) context_ready"
    unfolding backend_keeps_def
    by (auto simp: rtnc_alsa_runtime_backend_def backend_send_audio_def backend_wait_audio_def backend_channel_busy_def
      backend_sleep_def backend_now_ms_def context_ready_def Let_def split: prod.splits)
qed (auto simp: rtnc_alsa_runtime_backend_def backend_send_audio_def backend_wait_audio_def backend_channel_busy_def
    backend_sleep_def backend_now_ms_def context_keyed_def Let_def split: prod.splits)

section \<open>Calls that return\<close>

definition backend_returns :: "'s rtnc_runtime_backend \<Rightarrow> bool" where
  \<comment> \<open>no call hangs\<close>
  "backend_returns B \<longleftrightarrow>
    (\<forall>enabled s. rb_set_ptt B enabled s \<noteq> None) \<and> (\<forall>samples s. rb_send_audio B samples s \<noteq> None) \<and>
    (\<forall>s. rb_wait_audio B s \<noteq> None) \<and> (\<forall>busy s. rb_channel_busy B = Some busy \<longrightarrow> busy s \<noteq> None) \<and>
    (\<forall>ms s. rb_sleep_ms B ms s \<noteq> None) \<and> (\<forall>s. rb_now_ms B s \<noteq> None)"

lemma alsa_backend_returns:
  assumes "finitely_interrupted A errors" "finitely_signalled P signals"
  shows "backend_returns (rtnc_alsa_runtime_backend A G P)"
proof -
  have "rb_send_audio (rtnc_alsa_runtime_backend A G P) samples s \<noteq> None" for samples s
    using audio_send_loop_returns [OF assms(1)]
    by (cases "ax_audio s") (simp_all add: rtnc_alsa_runtime_backend_def backend_send_audio_def rtnc_audio_send_def del: not_None_eq)
  moreover have "rb_sleep_ms (rtnc_alsa_runtime_backend A G P) ms s \<noteq> None" for ms s
    using sleep_loop_returns [OF assms(2)]
    by (simp add: rtnc_alsa_runtime_backend_def backend_sleep_def del: not_None_eq)
  ultimately show ?thesis unfolding backend_returns_def
    by (auto simp: rtnc_alsa_runtime_backend_def backend_set_ptt_def backend_wait_audio_def backend_channel_busy_def
      backend_now_ms_def Let_def split: prod.splits)
qed

end
