(* ===== verification/Transmitter.thy ===== *)
theory Transmitter
  imports Backend
begin

text \<open>
  One-shot transmission of a waveform, \<^verbatim>\<open>platform/transmitter.c\<close>: the response correction, then key,
  lead delay, playback, tail delay and release.
\<close>

record rtnc_tx_config =
  tc_lead_ms :: u16
  tc_tail_ms :: u16
  tc_filter_gain :: real
  tc_response_eq_taps :: "real list"

definition clamp_sample :: "real \<Rightarrow> s16" where
  "clamp_sample value =
    (if value \<ge> 32767 then 32767 else if value \<le> - 32768 then - 32768 else word_of_int (round_half_even value))"

definition condition_audio :: "rtnc_tx_config \<Rightarrow> s16 list \<Rightarrow> s16 list option" where
  "condition_audio config input =
    (if length input = 0 \<or> tc_filter_gain config \<le> 0 then None
     else Some (map (\<lambda>index. clamp_sample (tc_filter_gain config *
            rtnc_tx_eq_apply_sample (tc_response_eq_taps config) input index)) [0..<length input]))"

definition rtnc_transmit_audio ::
    "'w alsa \<Rightarrow> 'w gpiod \<Rightarrow> 'w posix \<Rightarrow> bool \<Rightarrow> rtnc_audio \<Rightarrow> rtnc_ptt \<Rightarrow> rtnc_tx_config \<Rightarrow> s16 list \<Rightarrow> 'w \<Rightarrow>
     (bool \<times> rtnc_audio \<times> rtnc_ptt \<times> 'w) option" where
  \<comment> \<open>\<open>allocated\<close>: whether \<^verbatim>\<open>calloc\<close> finds memory for the conditioned samples\<close>
  "rtnc_transmit_audio A G P allocated audio ptt config samples w =
    (if length samples = 0 \<or> \<not> allocated then Some (False, audio, ptt, w)
     else case condition_audio config samples of
       None \<Rightarrow> Some (False, audio, ptt, w)
     | Some conditioned \<Rightarrow>
         let (keyed, ptt, w) = rtnc_ptt_set G ptt True w
         in if \<not> keyed then Some (False, audio, ptt, w)
            else do {
              (success, w) \<leftarrow> sleep_milliseconds P (tc_lead_ms config) w;
              (success, audio, w) \<leftarrow>
                (if success then rtnc_audio_send A audio conditioned w else Some (False, audio, w));
              (success, w) \<leftarrow> Some (if success then rtnc_audio_wait A audio w else (False, w));
              (success, w) \<leftarrow> (if success then sleep_milliseconds P (tc_tail_ms config) w else Some (False, w));
              let (released, ptt, w) = rtnc_ptt_set G ptt False w;
              Some (success \<and> released, audio, ptt, w)
            })"

text \<open>
  a one-shot transmission never leaves the transmitter keyed by itself.  Whatever fails on the way (no
  memory, a bad configuration, keying, a delay, playback, draining), when the call returns the key is off,
  unless the GPIO write that releases it fails; in that case the call reports failure.
\<close>

lemma transmit_audio_releases:
  assumes "\<not> rtnc_ptt_is_enabled ptt"
    and "rtnc_transmit_audio A G P allocated audio ptt config samples w = Some (success, audio', ptt', w')"
  shows "rtnc_ptt_is_enabled ptt' \<longrightarrow> \<not> success \<and> (\<exists>p v. rtnc_ptt_set G p False v = (False, ptt', w'))"
proof (cases "length samples = 0 \<or> \<not> allocated \<or> condition_audio config samples = None")
  case True
  with assms show ?thesis by (auto simp: rtnc_transmit_audio_def split: if_splits)
next
  case False
  then obtain conditioned where c: "condition_audio config samples = Some conditioned" by blast
  obtain ok p v where k: "rtnc_ptt_set G ptt True w = (ok, p, v)" by (metis prod_cases3)
  show ?thesis
  proof (cases ok)
    case off: False
    with False assms c k ptt_set_state [OF k] show ?thesis by (auto simp: rtnc_transmit_audio_def)
  next
    case True
    with False assms(2) c k obtain s released u where
      r: "rtnc_ptt_set G p False u = (released, ptt', w')" "success = (s \<and> released)"
      by (auto simp: rtnc_transmit_audio_def Let_def call_simps)
    from ptt_set_state [OF r(1)] r ptt_set_state [OF k] show ?thesis by (cases released) auto
  qed
qed

text \<open>
  The witness: the example card on an example line.  Playing through takes the two samples, and the line
  is released.
\<close>

definition example_gpio_card :: "(nat \<times> s16 list) gpiod" where
  "example_gpio_card = \<lparr> gpiod_chip_open_by_number = \<lambda>n w. (Some n, w), gpiod_chip_get_line = \<lambda>c l w. (Some l, w),
     gpiod_line_request_output = \<lambda>l v w. (0, w), gpiod_line_set_value = \<lambda>l v w. (0, w),
     gpiod_line_release = \<lambda>l w. w, gpiod_chip_close = \<lambda>c w. w \<rparr>"

definition example_posix :: "'w posix" where
  "example_posix = \<lparr> nanosleep = \<lambda>d w. (0, 0, d, w), clock_gettime = \<lambda>w. (0, \<lparr> tv_sec = 5, tv_nsec = 0 \<rparr>, w) \<rparr>"

definition example_ptt :: rtnc_ptt where
  "example_ptt = \<lparr> pt_chip = Some 0, pt_line = Some 17, pt_active_high = True, pt_state = False \<rparr>"

definition identity_tx_config :: rtnc_tx_config where
  "identity_tx_config = \<lparr> tc_lead_ms = 50, tc_tail_ms = 20, tc_filter_gain = 1,
     tc_response_eq_taps = replicate 8 0 @ [1] @ replicate 8 0 \<rparr>"

end
