(* ===== verification/Runtime.thy ===== *)
theory Runtime
  imports Transmitter Kiss PacketQueue ModemTx
begin

text \<open>
  The half-duplex packet runtime of \<^verbatim>\<open>platform/runtime.c\<close>: packet queues on both sides, channel access
  (busy channel, p-persistence), keyed transmission of the fragments of one packet, and reassembly of
  received fragments.  The backend's functions work on a state \<open>'s\<close> passed beside the runtime; \<open>None\<close> is a
  call that does not return.  \<open>rt_state\<close> is the atomic that the receive thread reads; a function returns
  its last value.
\<close>

definition RTNC_RUNTIME_TX_PEAK :: nat where [simp]: "RTNC_RUNTIME_TX_PEAK = 16383"

datatype rtnc_runtime_state =
    RTNC_RUNTIME_RX_IDLE
  | RTNC_RUNTIME_TX_WAIT_BUSY
  | RTNC_RUNTIME_TX_KEYING
  | RTNC_RUNTIME_TX_ACTIVE
  | RTNC_RUNTIME_TX_TAIL
  | RTNC_RUNTIME_RX_GUARD

datatype rtnc_runtime_status =
    RTNC_RUNTIME_OK
  | RTNC_RUNTIME_IDLE
  | RTNC_RUNTIME_BUSY
  | RTNC_RUNTIME_QUEUE_FULL
  | RTNC_RUNTIME_INVALID_PACKET
  | RTNC_RUNTIME_BUFFER_TOO_SMALL
  | RTNC_RUNTIME_TX_FAILED
  | RTNC_RUNTIME_TX_TIMEOUT
  | RTNC_RUNTIME_RX_INCOMPLETE
  | RTNC_RUNTIME_RX_REJECTED

record rtnc_runtime_stats =
  st_tx_packets :: u64
  st_tx_bytes :: u64
  st_tx_frames :: u64
  st_tx_failures :: u64
  st_tx_busy_timeouts :: u64
  st_rx_packets :: u64
  st_rx_bytes :: u64
  st_rx_reassembly_rejects :: u64

record ('d, 's) rtnc_runtime =
  rt_tx_queue :: rtnc_packet_queue
  rt_rx_queue :: rtnc_packet_queue
  rt_reassembly :: rtnc_reassembly \<comment> \<open>its packet buffer is \<^verbatim>\<open>reassembly_storage\<close>\<close>
  rt_tx_modem :: "'d rtnc_modem"
  rt_backend :: "'s rtnc_runtime_backend"
  rt_tx_config :: rtnc_tx_config
  rt_stats :: rtnc_runtime_stats
  rt_state :: rtnc_runtime_state
  rt_kiss_txdelay_ms :: u32
  rt_kiss_persistence :: u32
  rt_kiss_slottime_ms :: u32
  rt_kiss_txtail_ms :: u32
  rt_waveform :: "real list"
  rt_pcm :: "s16 list"
  rt_mtu :: u16
  rt_busy_timeout_ms :: u16
  rt_rx_guard_ms :: u16
  rt_busy_started_ms :: u64
  rt_next_persistence_slot_ms :: u64
  rt_persistence_random_state :: u32
  rt_next_tx_sequence :: u64
  rt_next_rx_sequence :: u64
  rt_initialized :: bool

section \<open>Helpers\<close>

definition set_state :: "('d, 's) rtnc_runtime \<Rightarrow> rtnc_runtime_state \<Rightarrow> ('d, 's) rtnc_runtime" where
  "set_state runtime state = runtime \<lparr> rt_state := state \<rparr>"

definition persistence_random :: "('d, 's) rtnc_runtime \<Rightarrow> u8 \<times> ('d, 's) rtnc_runtime" where
  "persistence_random runtime =
    (let state = xorshift32 (rt_persistence_random_state runtime)
     in (ucast state, runtime \<lparr> rt_persistence_random_state := state \<rparr>))"

definition clamp_pcm :: "real \<Rightarrow> s16" where
  "clamp_pcm value =
    (if value \<ge> 32767 then 32767 else if value \<le> - 32768 then - 32768 else word_of_int (round_half_even value))"

definition prepare_fragment_audio ::
    "'d liquid \<Rightarrow> ('d, 's) rtnc_runtime \<Rightarrow> bytes \<Rightarrow> nat option \<times> ('d, 's) rtnc_runtime" where
  \<comment> \<open>the sample count where it succeeds\<close>
  "prepare_fragment_audio L runtime payload =
    (let (status, modem, waveform, sent) = rtnc_modem_tx_audio L (rt_tx_modem runtime) payload (rt_waveform runtime);
         runtime = runtime \<lparr> rt_tx_modem := modem, rt_waveform := waveform \<rparr>
     in case (status, sent) of
          (RTNC_MODEM_OK, Some sample_count) \<Rightarrow>
            let raw = map (\<lambda>index. clamp_pcm (waveform ! index * real RTNC_RUNTIME_TX_PEAK)) [0..<sample_count];
                config = rt_tx_config runtime;
                conditioned = map (\<lambda>index. clamp_pcm (tc_filter_gain config *
                  rtnc_tx_eq_apply_sample (tc_response_eq_taps config) raw index)) [0..<sample_count]
            in (Some sample_count, runtime \<lparr> rt_pcm := buf_write (rt_pcm runtime) 0 conditioned \<rparr>)
        | _ \<Rightarrow> (None, runtime))"

definition release_ptt :: "('d, 's) rtnc_runtime \<Rightarrow> 's \<Rightarrow> (bool \<times> ('d, 's) rtnc_runtime \<times> 's) option" where
  "release_ptt runtime s = do {
     (released, s) \<leftarrow> rb_set_ptt (rt_backend runtime) False s;
     let runtime = set_state runtime RTNC_RUNTIME_RX_GUARD;
     (slept, s) \<leftarrow> (if rt_rx_guard_ms runtime > 0
       then rb_sleep_ms (rt_backend runtime) (rt_rx_guard_ms runtime) s else Some (True, s));
     Some (slept \<and> released, set_state runtime RTNC_RUNTIME_RX_IDLE, s)
   }"

section \<open>Life cycle\<close>

definition zero_stats :: rtnc_runtime_stats where
  "zero_stats = \<lparr> st_tx_packets = 0, st_tx_bytes = 0, st_tx_frames = 0, st_tx_failures = 0,
     st_tx_busy_timeouts = 0, st_rx_packets = 0, st_rx_bytes = 0, st_rx_reassembly_rejects = 0 \<rparr>"

definition rtnc_runtime_init ::
    "'d liquid \<Rightarrow> 'd rtnc_modem \<Rightarrow> rtnc_reassembly \<Rightarrow> rtnc_phy_profile \<Rightarrow> fec_mode \<Rightarrow> u8 \<Rightarrow> u16 \<Rightarrow> u32 \<Rightarrow> nat \<Rightarrow> nat \<Rightarrow>
     u16 \<Rightarrow> u16 \<Rightarrow> rtnc_tx_config \<Rightarrow> 's rtnc_runtime_backend \<Rightarrow> ('d, 's) rtnc_runtime option" where
  \<comment> \<open>the second and third argument are the zeroed memory of the modem and the reassembly; \<open>None\<close> where the
      code returns false, which leaves a runtime whose \<^verbatim>\<open>initialized\<close> is false\<close>
  "rtnc_runtime_init L modem reassembly profile fec_mode payload_class_bytes mtu reassembly_timeout_ms
      tx_queue_packets rx_queue_packets busy_timeout_ms rx_guard_ms tx_config backend =
    (if unat mtu < RTNC_LINK_MIN_MTU \<or> unat mtu > RTNC_LINK_MAX_MTU \<or> busy_timeout_ms = 0 \<or>
        tc_filter_gain tx_config \<le> 0 then None
     else case rtnc_packet_queue_init tx_queue_packets (unat mtu) of None \<Rightarrow> None | Some tx_queue \<Rightarrow>
     case rtnc_packet_queue_init rx_queue_packets (unat mtu) of None \<Rightarrow> None | Some rx_queue \<Rightarrow>
     let (status, reassembly) = rtnc_reassembly_init reassembly (replicate RTNC_LINK_MAX_MTU 0) (unat mtu)
           (unat payload_class_bytes) reassembly_timeout_ms
     in if status \<noteq> RTNC_FRAGMENT_OK then None
        else let (ok, modem) = rtnc_modem_init_profile L modem fec_mode payload_class_bytes profile
        in if \<not> ok then None
           else Some \<lparr> rt_tx_queue = tx_queue, rt_rx_queue = rx_queue, rt_reassembly = reassembly,
             rt_tx_modem = modem, rt_backend = backend, rt_tx_config = tx_config, rt_stats = zero_stats,
             rt_state = RTNC_RUNTIME_RX_IDLE, rt_kiss_txdelay_ms = ucast (tc_lead_ms tx_config),
             rt_kiss_persistence = 255, rt_kiss_slottime_ms = 100,
             rt_kiss_txtail_ms = ucast (tc_tail_ms tx_config),
             rt_waveform = replicate RTNC_MODEM_MAX_AUDIO_SAMPLES 0,
             rt_pcm = replicate RTNC_MODEM_MAX_AUDIO_SAMPLES 0, rt_mtu = mtu,
             rt_busy_timeout_ms = busy_timeout_ms, rt_rx_guard_ms = rx_guard_ms, rt_busy_started_ms = 0,
             rt_next_persistence_slot_ms = 0, rt_persistence_random_state = 0x6d2b79f5,
             rt_next_tx_sequence = 0, rt_next_rx_sequence = 0, rt_initialized = True \<rparr>)"

definition rtnc_runtime_deinit :: "('d, 's) rtnc_runtime \<Rightarrow> 's \<Rightarrow> (('d, 's) rtnc_runtime \<times> 's) option" where
  "rtnc_runtime_deinit runtime s = do {
     (runtime, s) \<leftarrow> (if rt_initialized runtime
       then do { (_, s) \<leftarrow> rb_set_ptt (rt_backend runtime) False s;
                 Some (runtime \<lparr> rt_tx_modem := rtnc_modem_deinit (rt_tx_modem runtime) \<rparr>, s) }
       else Some (runtime, s));
     Some (set_state (runtime \<lparr> rt_initialized := False \<rparr>) RTNC_RUNTIME_RX_IDLE, s)
   }"

section \<open>Sending\<close>

definition rtnc_runtime_submit_packet ::
    "('d, 's) rtnc_runtime \<Rightarrow> bytes \<Rightarrow> rtnc_runtime_status \<times> ('d, 's) rtnc_runtime" where
  "rtnc_runtime_submit_packet runtime packet =
    (if \<not> rt_initialized runtime \<or> length packet = 0 \<or> length packet > unat (rt_mtu runtime) \<or>
        rtnc_fragment_count (length packet) (unat (mo_payload_class_bytes (rt_tx_modem runtime))) = 0
     then (RTNC_RUNTIME_INVALID_PACKET, runtime)
     else let (ok, queue) = rtnc_packet_queue_push (rt_tx_queue runtime) packet (rt_next_tx_sequence runtime);
              runtime = runtime \<lparr> rt_tx_queue := queue \<rparr>
          in if \<not> ok then (RTNC_RUNTIME_QUEUE_FULL, runtime)
             else (RTNC_RUNTIME_OK, runtime \<lparr> rt_next_tx_sequence := rt_next_tx_sequence runtime + 1 \<rparr>))"

definition count_stats :: "(rtnc_runtime_stats \<Rightarrow> rtnc_runtime_stats) \<Rightarrow> ('d, 's) rtnc_runtime \<Rightarrow> ('d, 's) rtnc_runtime" where
  "count_stats f runtime = runtime \<lparr> rt_stats := f (rt_stats runtime) \<rparr>"

definition discard_packet :: "('d, 's) rtnc_runtime \<Rightarrow> ('d, 's) rtnc_runtime" where
  "discard_packet runtime = runtime \<lparr> rt_tx_queue := snd (rtnc_packet_queue_discard (rt_tx_queue runtime)) \<rparr>"

fun send_fragments ::
    "'d liquid \<Rightarrow> bytes \<Rightarrow> nat list \<Rightarrow> ('d, 's) rtnc_runtime \<Rightarrow> 's \<Rightarrow> (bool \<times> ('d, 's) rtnc_runtime \<times> 's) option" where
  \<comment> \<open>the loop over the fragments of the packet\<close>
  "send_fragments L packet [] runtime s = Some (True, runtime, s)"
| "send_fragments L packet (fragment_index # indices) runtime s =
    (case rtnc_fragment_build packet (unat (mo_payload_class_bytes (rt_tx_modem runtime))) fragment_index
            RTNC_FRAME_MAX_PAYLOAD of
       Inl _ \<Rightarrow> Some (False, runtime, s)
     | Inr payload \<Rightarrow>
         (case prepare_fragment_audio L runtime payload of
            (None, runtime) \<Rightarrow> Some (False, runtime, s)
          | (Some sample_count, runtime) \<Rightarrow> do {
              (sent, s) \<leftarrow> rb_send_audio (rt_backend runtime) (take sample_count (rt_pcm runtime)) s;
              if \<not> sent then Some (False, runtime, s)
              else send_fragments L packet indices
                     (count_stats (\<lambda>st. st \<lparr> st_tx_frames := st_tx_frames st + 1 \<rparr>) runtime) s
            }))"

definition transmit_keyed ::
    "'d liquid \<Rightarrow> bytes \<Rightarrow> ('d, 's) rtnc_runtime \<Rightarrow> 's \<Rightarrow> (rtnc_runtime_status \<times> ('d, 's) rtnc_runtime \<times> 's) option" where
  \<comment> \<open>from \<^verbatim>\<open>TX_KEYING\<close> to the end\<close>
  "transmit_keyed L packet runtime s =
    (let fragment_count = rtnc_fragment_count (length packet) (unat (mo_payload_class_bytes (rt_tx_modem runtime)));
         runtime = set_state runtime RTNC_RUNTIME_TX_KEYING
     in do {
       (keyed, s) \<leftarrow> rb_set_ptt (rt_backend runtime) True s;
       if \<not> keyed
       then Some (RTNC_RUNTIME_TX_FAILED, discard_packet
              (count_stats (\<lambda>st. st \<lparr> st_tx_failures := st_tx_failures st + 1 \<rparr>) (set_state runtime RTNC_RUNTIME_RX_IDLE)), s)
       else do {
         (success, s) \<leftarrow> rb_sleep_ms (rt_backend runtime) (ucast (rt_kiss_txdelay_ms runtime)) s;
         let runtime = set_state runtime RTNC_RUNTIME_TX_ACTIVE;
         (success, runtime, s) \<leftarrow> (if success then send_fragments L packet [0..<fragment_count] runtime s
           else Some (False, runtime, s));
         let runtime = set_state runtime RTNC_RUNTIME_TX_TAIL;
         (success, s) \<leftarrow> (if success then rb_wait_audio (rt_backend runtime) s else Some (False, s));
         (success, s) \<leftarrow> (if success then rb_sleep_ms (rt_backend runtime) (ucast (rt_kiss_txtail_ms runtime)) s
           else Some (False, s));
         (released, runtime, s) \<leftarrow> release_ptt runtime s;
         let runtime = discard_packet runtime;
         if \<not> (success \<and> released)
         then Some (RTNC_RUNTIME_TX_FAILED,
                count_stats (\<lambda>st. st \<lparr> st_tx_failures := st_tx_failures st + 1 \<rparr>) runtime, s)
         else Some (RTNC_RUNTIME_OK,
                count_stats (\<lambda>st. st \<lparr> st_tx_packets := st_tx_packets st + 1,
                  st_tx_bytes := st_tx_bytes st + of_nat (length packet) \<rparr>) runtime, s)
       }
     })"

definition channel_is_busy :: "('d, 's) rtnc_runtime \<Rightarrow> 's \<Rightarrow> (bool \<times> 's) option" where
  "channel_is_busy runtime s =
    (case rb_channel_busy (rt_backend runtime) of None \<Rightarrow> Some (False, s) | Some busy \<Rightarrow> busy s)"

definition wait_for_channel ::
    "('d, 's) rtnc_runtime \<Rightarrow> u64 \<Rightarrow> rtnc_runtime_status \<times> ('d, 's) rtnc_runtime" where
  \<comment> \<open>the channel is busy\<close>
  "wait_for_channel runtime now =
    (let runtime = set_state runtime RTNC_RUNTIME_TX_WAIT_BUSY;
         runtime = (if rt_busy_started_ms runtime = 0
           then runtime \<lparr> rt_busy_started_ms := (if now \<noteq> 0 then now else 1) \<rparr> else runtime)
     in if now < rt_busy_started_ms runtime \<or> now - rt_busy_started_ms runtime < ucast (rt_busy_timeout_ms runtime)
        then (RTNC_RUNTIME_BUSY, runtime)
        else (RTNC_RUNTIME_TX_TIMEOUT, set_state
               ((count_stats (\<lambda>st. st \<lparr> st_tx_busy_timeouts := st_tx_busy_timeouts st + 1,
                   st_tx_failures := st_tx_failures st + 1 \<rparr>) (discard_packet runtime)) \<lparr> rt_busy_started_ms := 0 \<rparr>)
               RTNC_RUNTIME_RX_IDLE))"

definition persistence_allows :: "('d, 's) rtnc_runtime \<Rightarrow> u64 \<Rightarrow> bool \<times> ('d, 's) rtnc_runtime" where
  \<comment> \<open>the channel is free: the slotted p-persistent decision\<close>
  "persistence_allows runtime now =
    (let persistence = rt_kiss_persistence runtime
     in if now < rt_next_persistence_slot_ms runtime then (False, runtime)
        else let (drawn, drawn_runtime) = persistence_random runtime
        in if persistence < 255 \<and> ucast drawn > persistence
           then (False, drawn_runtime \<lparr> rt_next_persistence_slot_ms := now + ucast (rt_kiss_slottime_ms runtime) \<rparr>)
           else (True, (if persistence < 255 then drawn_runtime else runtime) \<lparr> rt_next_persistence_slot_ms := 0 \<rparr>))"

definition rtnc_runtime_transmit_next ::
    "'d liquid \<Rightarrow> ('d, 's) rtnc_runtime \<Rightarrow> 's \<Rightarrow> (rtnc_runtime_status \<times> ('d, 's) rtnc_runtime \<times> 's) option" where
  "rtnc_runtime_transmit_next L runtime s =
    (if \<not> rt_initialized runtime then Some (RTNC_RUNTIME_INVALID_PACKET, runtime, s)
     else case rtnc_packet_queue_peek (rt_tx_queue runtime) of
       None \<Rightarrow> Some (RTNC_RUNTIME_IDLE, runtime \<lparr> rt_busy_started_ms := 0 \<rparr>, s)
     | Some head_slot \<Rightarrow> do {
         (now, s) \<leftarrow> rb_now_ms (rt_backend runtime) s;
         (busy, s) \<leftarrow> channel_is_busy runtime s;
         if busy then (let (status, runtime) = wait_for_channel runtime now in Some (status, runtime, s))
         else let (allowed, runtime) = persistence_allows (runtime \<lparr> rt_busy_started_ms := 0 \<rparr>) now
              in if \<not> allowed then Some (RTNC_RUNTIME_BUSY, runtime, s)
                 else transmit_keyed L (take (sl_length head_slot) (sl_bytes head_slot)) runtime s
       })"

section \<open>Receiving\<close>

definition rtnc_runtime_accept_fragment ::
    "('d, 's) rtnc_runtime \<Rightarrow> bytes \<Rightarrow> u64 \<Rightarrow> rtnc_runtime_status \<times> ('d, 's) rtnc_runtime" where
  "rtnc_runtime_accept_fragment runtime payload now_ms =
    (if \<not> rt_initialized runtime \<or> rt_state runtime \<noteq> RTNC_RUNTIME_RX_IDLE
     then (RTNC_RUNTIME_RX_REJECTED, runtime)
     else let (status, packet_length, reassembly) = rtnc_reassembly_push (rt_reassembly runtime) payload now_ms;
              runtime = runtime \<lparr> rt_reassembly := reassembly \<rparr>;
              reject = count_stats (\<lambda>st. st \<lparr> st_rx_reassembly_rejects := st_rx_reassembly_rejects st + 1 \<rparr>)
          in if status = RTNC_FRAGMENT_INCOMPLETE then (RTNC_RUNTIME_RX_INCOMPLETE, runtime)
             else if status \<noteq> RTNC_FRAGMENT_OK then (RTNC_RUNTIME_RX_REJECTED, reject runtime)
             else let (ok, queue) = rtnc_packet_queue_push (rt_rx_queue runtime)
                        (take packet_length (ra_packet reassembly)) (rt_next_rx_sequence runtime);
                      runtime = runtime \<lparr> rt_rx_queue := queue \<rparr>
                  in if \<not> ok then (RTNC_RUNTIME_QUEUE_FULL, reject runtime)
                     else (RTNC_RUNTIME_OK,
                           count_stats (\<lambda>st. st \<lparr> st_rx_packets := st_rx_packets st + 1,
                             st_rx_bytes := st_rx_bytes st + of_nat packet_length \<rparr>)
                           (runtime \<lparr> rt_next_rx_sequence := rt_next_rx_sequence runtime + 1 \<rparr>)))"

definition rtnc_runtime_receive_packet ::
    "('d, 's) rtnc_runtime \<Rightarrow> nat \<Rightarrow> (rtnc_runtime_status + bytes) \<times> ('d, 's) rtnc_runtime" where
  \<comment> \<open>\<open>Inr packet\<close> where the code returns \<^verbatim>\<open>RTNC_RUNTIME_OK\<close>\<close>
  "rtnc_runtime_receive_packet runtime capacity =
    (if \<not> rt_initialized runtime then (Inl RTNC_RUNTIME_INVALID_PACKET, runtime)
     else case rtnc_packet_queue_peek (rt_rx_queue runtime) of
       None \<Rightarrow> (Inl RTNC_RUNTIME_IDLE, runtime)
     | Some head_slot \<Rightarrow>
         if capacity < sl_length head_slot then (Inl RTNC_RUNTIME_BUFFER_TOO_SMALL, runtime)
         else let (popped, queue) = rtnc_packet_queue_pop (rt_rx_queue runtime) capacity;
                  runtime = runtime \<lparr> rt_rx_queue := queue \<rparr>
              in (case popped of Some (packet, _) \<Rightarrow> Inr packet | None \<Rightarrow> Inl RTNC_RUNTIME_IDLE, runtime))"

definition rtnc_runtime_get_stats :: "('d, 's) rtnc_runtime \<Rightarrow> rtnc_runtime_stats option" where
  "rtnc_runtime_get_stats runtime = (if rt_initialized runtime then Some (rt_stats runtime) else None)"

definition rtnc_runtime_set_kiss_parameter :: "('d, 's) rtnc_runtime \<Rightarrow> u8 \<Rightarrow> u8 \<Rightarrow> bool \<times> ('d, 's) rtnc_runtime" where
  "rtnc_runtime_set_kiss_parameter runtime command value' =
    (let converted = ucast value' :: u32
     in if \<not> rt_initialized runtime then (False, runtime)
        else if command = RTNC_KISS_CMD_TXDELAY then (True, runtime \<lparr> rt_kiss_txdelay_ms := converted * 10 \<rparr>)
        else if command = RTNC_KISS_CMD_P then (True, runtime \<lparr> rt_kiss_persistence := converted \<rparr>)
        else if command = RTNC_KISS_CMD_SLOTTIME then (True, runtime \<lparr> rt_kiss_slottime_ms := converted * 10 \<rparr>)
        else if command = RTNC_KISS_CMD_TXTAIL then (True, runtime \<lparr> rt_kiss_txtail_ms := converted * 10 \<rparr>)
        else (False, runtime))"

end
