(* ===== verification/RuntimeProps.thy ===== *)
theory RuntimeProps
  imports Runtime
begin

text \<open>
  What the packet runtime keeps and promises: the transmitter key, the fate of the queued packet and the
  counters on every path, channel access, and delivery of received packets.
\<close>

section \<open>The loop over the fragments\<close>

abbreviation add_frames :: "nat \<Rightarrow> rtnc_runtime_stats \<Rightarrow> rtnc_runtime_stats" where
  "add_frames k st \<equiv> st \<lparr> st_tx_frames := st_tx_frames st + of_nat k \<rparr>"

definition audio_step :: "nat \<Rightarrow> ('d, 's) rtnc_runtime \<Rightarrow> ('d, 's) rtnc_runtime \<Rightarrow> bool" where
  \<comment> \<open>only the modem and the audio buffers have changed, and \<open>k\<close> frames were counted\<close>
  "audio_step k rt rt' \<longleftrightarrow> rt' = rt \<lparr> rt_tx_modem := rt_tx_modem rt', rt_waveform := rt_waveform rt', rt_pcm := rt_pcm rt',
     rt_stats := add_frames k (rt_stats rt) \<rparr>"

lemma audio_step_trans: "audio_step j a b \<Longrightarrow> audio_step k b c \<Longrightarrow> audio_step (j + k) a c"
  unfolding audio_step_def by (cases a; cases b; cases c) (simp add: add.assoc)

lemma audio_step_sel:
  assumes "audio_step k rt rt'"
  shows "rt_backend rt' = rt_backend rt" "rt_rx_guard_ms rt' = rt_rx_guard_ms rt" "rt_tx_queue rt' = rt_tx_queue rt"
    "rt_kiss_txtail_ms rt' = rt_kiss_txtail_ms rt" "rt_stats rt' = add_frames k (rt_stats rt)"
    "rt_rx_queue rt' = rt_rx_queue rt" "rt_reassembly rt' = rt_reassembly rt" "rt_initialized rt' = rt_initialized rt"
    "rt_persistence_random_state rt' = rt_persistence_random_state rt" "rt_mtu rt' = rt_mtu rt"
  using assms unfolding audio_step_def by (cases rt; cases rt'; simp)+

lemma audio_step_refl: "audio_step 0 rt rt"
  by (simp add: audio_step_def)

lemma prepare_keeps: "prepare_fragment_audio L rt payload = (n, rt') \<Longrightarrow> audio_step 0 rt rt'"
  by (auto simp: prepare_fragment_audio_def audio_step_def Let_def
      split: prod.splits rtnc_modem_status.splits option.splits)

lemma count_frame: "audio_step 1 rt (count_stats (add_frames 1) rt)"
  by (simp add: audio_step_def count_stats_def)

lemma send_fragments_keeps:
  "send_fragments L p is rt s = Some (ok, rt', s') \<Longrightarrow>
   \<exists>k. audio_step k rt rt' \<and> k \<le> length is \<and> (ok \<longrightarrow> k = length is) \<and>
     (\<forall>sent. counts_sent (rt_backend rt) sent \<longrightarrow> sent s' = sent s + k)"
proof (induction "is" arbitrary: rt s)
  case Nil
  then show ?case using audio_step_refl by auto
next
  case (Cons i "is")
  show ?case
  proof (cases "rtnc_fragment_build p (unat (mo_payload_class_bytes (rt_tx_modem rt))) i RTNC_FRAME_MAX_PAYLOAD")
    case (Inl e)
    with Cons.prems show ?thesis using audio_step_refl by auto
  next
    case (Inr payload)
    obtain n q where q: "prepare_fragment_audio L rt payload = (n, q)" by fastforce
    note k = prepare_keeps [OF q]
    show ?thesis
    proof (cases n)
      case None
      with Cons.prems Inr q k show ?thesis by auto
    next
      case (Some samples)
      note b = audio_step_sel(1) [OF k]
      from Some Cons.prems Inr q b obtain sent u where
        u: "rb_send_audio (rt_backend rt) (take samples (rt_pcm q)) s = Some (sent, u)" and
        r: "(if \<not> sent then Some (False, q, u) else send_fragments L p is (count_stats (add_frames 1) q) u) = Some (ok, rt', s')"
        by (auto simp: call_simps cong: if_cong)
      have count: "counter u = counter s + (if sent then 1 else 0)" if "counts_sent (rt_backend rt) counter" for counter
        using counts_sentD(2) [OF that u] .
      show ?thesis
      proof (cases sent)
        case False
        with r k count show ?thesis by auto
      next
        case True
        with r have "send_fragments L p is (count_stats (add_frames 1) q) u = Some (ok, rt', s')" by simp
        from Cons.IH [OF this] b obtain j where j: "audio_step j (count_stats (add_frames 1) q) rt'" "j \<le> length is"
          "ok \<longrightarrow> j = length is" "\<forall>counter. counts_sent (rt_backend rt) counter \<longrightarrow> counter s' = counter u + j"
          by (auto simp: count_stats_def)
        from audio_step_trans [OF audio_step_trans [OF k count_frame] j(1)] have "audio_step (Suc j) rt rt'" by simp
        moreover have "counter s' = counter s + Suc j" if c: "counts_sent (rt_backend rt) counter" for counter
          using count [OF c] True j(4) [THEN spec, THEN mp, OF c] by simp
        ultimately show ?thesis using j(2,3) by (intro exI [of _ "Suc j"]) auto
      qed
    qed
  qed
qed

lemma send_fragments_preserves:
  "backend_keeps (rt_backend rt) R \<Longrightarrow> send_fragments L p is rt s = Some (ok, rt', s') \<Longrightarrow> R s \<Longrightarrow> R s'"
proof (induction "is" arbitrary: rt s)
  case (Cons i "is")
  show ?case
  proof (cases "rtnc_fragment_build p (unat (mo_payload_class_bytes (rt_tx_modem rt))) i RTNC_FRAME_MAX_PAYLOAD")
    case (Inl e)
    with Cons.prems show ?thesis by simp
  next
    case (Inr payload)
    obtain n q where q: "prepare_fragment_audio L rt payload = (n, q)" by fastforce
    note b = audio_step_sel(1) [OF prepare_keeps [OF q]]
    show ?thesis
    proof (cases n)
      case None
      with Cons.prems Inr q show ?thesis by simp
    next
      case (Some samples)
      with Cons.prems(2) Inr q b obtain sent u where u: "rb_send_audio (rt_backend rt) (take samples (rt_pcm q)) s = Some (sent, u)"
          "(if \<not> sent then Some (False, q, u) else send_fragments L p is (count_stats (add_frames 1) q) u) = Some (ok, rt', s')"
        by (auto simp: call_simps cong: if_cong)
      have "R u" by (rule backend_keepsD(2) [OF Cons.prems(1) u(1) Cons.prems(3)])
      moreover have "rt_backend (count_stats (add_frames 1) q) = rt_backend rt" using b by (simp add: count_stats_def)
      ultimately show ?thesis using Cons.IH [of "count_stats (add_frames 1) q" u] Cons.prems(1) u(2) by (cases sent) auto
    qed
  qed
qed simp

lemma set_state_sel [simp]:
  "rt_backend (set_state rt x) = rt_backend rt" "rt_rx_guard_ms (set_state rt x) = rt_rx_guard_ms rt"
  "rt_tx_queue (set_state rt x) = rt_tx_queue rt" "rt_kiss_txtail_ms (set_state rt x) = rt_kiss_txtail_ms rt"
  "rt_kiss_txdelay_ms (set_state rt x) = rt_kiss_txdelay_ms rt" "rt_stats (set_state rt x) = rt_stats rt"
  "rt_rx_queue (set_state rt x) = rt_rx_queue rt" "rt_reassembly (set_state rt x) = rt_reassembly rt"
  "rt_initialized (set_state rt x) = rt_initialized rt" "rt_tx_modem (set_state rt x) = rt_tx_modem rt"
  "rt_persistence_random_state (set_state rt x) = rt_persistence_random_state rt" "rt_mtu (set_state rt x) = rt_mtu rt"
  "rt_state (set_state rt x) = x" "set_state (set_state rt y) x = set_state rt x"
  by (simp_all add: set_state_def)

lemma release_ptt_cases:
  assumes "release_ptt rt s = Some (ok, rt', s')"
  obtains released u slept where "rb_set_ptt (rt_backend rt) False s = Some (released, u)" "ok = (slept \<and> released)"
    "(if rt_rx_guard_ms rt > 0 then rb_sleep_ms (rt_backend rt) (rt_rx_guard_ms rt) u else Some (True, u)) = Some (slept, s')"
    "rt' = set_state rt RTNC_RUNTIME_RX_IDLE"
  using assms by (auto simp: release_ptt_def call_simps Let_def cong: if_cong)

lemma transmit_keyed_cases:
  assumes run: "transmit_keyed L p rt s = Some (status, rt', s')"
  obtains (refused) "rb_set_ptt (rt_backend rt) True s = Some (False, s')" "status = RTNC_RUNTIME_TX_FAILED"
      "rt' = discard_packet (count_stats (\<lambda>st. st \<lparr> st_tx_failures := st_tx_failures st + 1 \<rparr>) (set_state rt RTNC_RUNTIME_RX_IDLE))"
  | (keyed) u q k success y released where
      "rb_set_ptt (rt_backend rt) True s = Some (True, u)" "audio_step k (set_state rt RTNC_RUNTIME_TX_ACTIVE) q"
      "k \<le> rtnc_fragment_count (length p) (unat (mo_payload_class_bytes (rt_tx_modem rt)))"
      "success \<Longrightarrow> k = rtnc_fragment_count (length p) (unat (mo_payload_class_bytes (rt_tx_modem rt)))"
      "release_ptt (set_state q RTNC_RUNTIME_TX_TAIL) y = Some (released, set_state q RTNC_RUNTIME_RX_IDLE, s')"
      "status = (if success \<and> released then RTNC_RUNTIME_OK else RTNC_RUNTIME_TX_FAILED)"
      "\<And>R. backend_keeps (rt_backend rt) R \<Longrightarrow> R u \<Longrightarrow> R y"
      "rt' = count_stats (if success \<and> released then (\<lambda>st. st \<lparr> st_tx_packets := st_tx_packets st + 1,
           st_tx_bytes := st_tx_bytes st + of_nat (length p) \<rparr>)
         else (\<lambda>st. st \<lparr> st_tx_failures := st_tx_failures st + 1 \<rparr>))
         (discard_packet (set_state q RTNC_RUNTIME_RX_IDLE))"
      "\<And>sent. counts_sent (rt_backend rt) sent \<Longrightarrow> sent s' = sent s + k"
proof -
  let ?n = "rtnc_fragment_count (length p) (unat (mo_payload_class_bytes (rt_tx_modem rt)))"
  let ?a = "set_state rt RTNC_RUNTIME_TX_ACTIVE"
  from run obtain ok u where k: "rb_set_ptt (rt_backend rt) True s = Some (ok, u)"
    by (auto simp: transmit_keyed_def call_simps Let_def)
  show thesis
  proof (cases ok)
    case False
    with run k show thesis by (intro refused) (auto simp: transmit_keyed_def Let_def)
  next
    case True
    with run k obtain slept v sent q w waited x tailed y released z t where
        sl: "rb_sleep_ms (rt_backend rt) (ucast (rt_kiss_txdelay_ms rt)) u = Some (slept, v)" and r:
        "(if slept then send_fragments L p [0..<?n] ?a v else Some (False, ?a, v)) = Some (sent, q, w)"
        "(if sent then rb_wait_audio (rt_backend q) w else Some (False, w)) = Some (waited, x)"
        "(if waited then rb_sleep_ms (rt_backend q) (ucast (rt_kiss_txtail_ms q)) x else Some (False, x)) = Some (tailed, y)"
        "release_ptt (set_state q RTNC_RUNTIME_TX_TAIL) y = Some (released, z, t)"
      and e: "(if \<not> (tailed \<and> released)
         then Some (RTNC_RUNTIME_TX_FAILED,
                count_stats (\<lambda>st. st \<lparr> st_tx_failures := st_tx_failures st + 1 \<rparr>) (discard_packet z), t)
         else Some (RTNC_RUNTIME_OK,
                count_stats (\<lambda>st. st \<lparr> st_tx_packets := st_tx_packets st + 1,
                  st_tx_bytes := st_tx_bytes st + of_nat (length p) \<rparr>) (discard_packet z), t)) = Some (status, rt', s')"
      by (simp add: transmit_keyed_def call_simps Let_def cong: if_cong) blast
    obtain j where j: "audio_step j ?a q" "j \<le> ?n" "sent \<longrightarrow> j = ?n"
        "\<forall>counter. counts_sent (rt_backend rt) counter \<longrightarrow> counter w = counter v + j"
      using r(1) send_fragments_keeps [of L p "[0..<?n]" ?a v] audio_step_refl [of ?a] by (cases slept) auto
    have chain: "R y" if R: "backend_keeps (rt_backend rt) R" "R u" for R
    proof -
      have "R v" by (rule backend_keepsD(5) [OF R(1) sl R(2)])
      then have "R w" using r(1) send_fragments_preserves [of ?a R L p "[0..<?n]" v] R(1) by (cases slept) auto
      moreover have "rt_backend q = rt_backend rt" using audio_step_sel(1) [OF j(1)] by simp
      ultimately show ?thesis using r(2,3) backend_keepsD(3,5) [OF R(1)] by (cases sent; cases waited) auto
    qed
    have count: "counter s' = counter s + j" if c: "counts_sent (rt_backend rt) counter" for counter
    proof -
      have b: "rt_backend q = rt_backend rt" using audio_step_sel(1) [OF j(1)] by simp
      have "counter v = counter s" using counts_sentD(5) [OF c sl] counts_sentD(1) [OF c k] by simp
      moreover have "counter y = counter w"
        using r(2,3) counts_sentD(3,5) [OF c] b by (cases sent; cases waited) auto
      moreover have "counter t = counter y" using r(4)
      proof (cases rule: release_ptt_cases)
        case (1 released' a slept')
        then show ?thesis using counts_sentD(1,5) [OF c] b by (auto split: if_splits)
      qed
      moreover have "t = s'" using e by (simp split: if_splits)
      ultimately show ?thesis using j(4) [THEN spec, THEN mp, OF c] by simp
    qed
    have "tailed \<longrightarrow> sent" using r(2,3) by (auto split: if_splits)
    moreover have "z = set_state q RTNC_RUNTIME_RX_IDLE" using r(4) by (auto elim: release_ptt_cases)
    ultimately show thesis using r(4) e j(1-3) k True chain count
      by (intro keyed [of u j q tailed y released]) (auto split: if_splits)
  qed
qed

definition channel_step :: "('d, 's) rtnc_runtime \<Rightarrow> ('d, 's) rtnc_runtime \<Rightarrow> bool" where
  \<comment> \<open>only the channel access variables have changed\<close>
  "channel_step rt rt' \<longleftrightarrow> rt' = rt \<lparr> rt_busy_started_ms := 0,
     rt_next_persistence_slot_ms := rt_next_persistence_slot_ms rt',
     rt_persistence_random_state := rt_persistence_random_state rt' \<rparr>"

lemma persistence_keeps:
  "persistence_allows (rt \<lparr> rt_busy_started_ms := 0 \<rparr>) now = (allowed, rt') \<Longrightarrow> channel_step rt rt'"
  by (auto simp: channel_step_def persistence_allows_def persistence_random_def Let_def split: if_splits)

lemma channel_step_sel:
  assumes "channel_step rt rt'"
  shows "rt_backend rt' = rt_backend rt" "rt_tx_queue rt' = rt_tx_queue rt" "rt_stats rt' = rt_stats rt"
    "rt_rx_queue rt' = rt_rx_queue rt" "rt_reassembly rt' = rt_reassembly rt" "rt_initialized rt' = rt_initialized rt"
    "rt_tx_modem rt' = rt_tx_modem rt" "rt_state rt' = rt_state rt" "rt_mtu rt' = rt_mtu rt"
  using assms unfolding channel_step_def by (cases rt; cases rt'; simp)+

lemma transmit_next_cases:
  assumes run: "rtnc_runtime_transmit_next L rt s = Some (status, rt', s')"
  obtains (invalid) "\<not> rt_initialized rt" "status = RTNC_RUNTIME_INVALID_PACKET" "rt' = rt" "s' = s"
  | (idle) "rtnc_packet_queue_peek (rt_tx_queue rt) = None" "status = RTNC_RUNTIME_IDLE"
      "rt' = rt \<lparr> rt_busy_started_ms := 0 \<rparr>" "s' = s"
  | (waiting) slt now u where "rt_initialized rt" "rtnc_packet_queue_peek (rt_tx_queue rt) = Some slt"
      "rb_now_ms (rt_backend rt) s = Some (now, u)" "channel_is_busy rt u = Some (True, s')"
      "wait_for_channel rt now = (status, rt')"
  | (deferred) slt now u where "rt_initialized rt" "rtnc_packet_queue_peek (rt_tx_queue rt) = Some slt"
      "rb_now_ms (rt_backend rt) s = Some (now, u)" "channel_is_busy rt u = Some (False, s')"
      "persistence_allows (rt \<lparr> rt_busy_started_ms := 0 \<rparr>) now = (False, rt')" "status = RTNC_RUNTIME_BUSY"
  | (sent) slt now u v q where "rt_initialized rt" "rtnc_packet_queue_peek (rt_tx_queue rt) = Some slt"
      "rb_now_ms (rt_backend rt) s = Some (now, u)" "channel_is_busy rt u = Some (False, v)"
      "persistence_allows (rt \<lparr> rt_busy_started_ms := 0 \<rparr>) now = (True, q)"
      "transmit_keyed L (take (sl_length slt) (sl_bytes slt)) q v = Some (status, rt', s')"
proof (cases "rt_initialized rt")
  case False
  with run show thesis by (intro invalid) (simp_all add: rtnc_runtime_transmit_next_def)
next
  case init: True
  show thesis
  proof (cases "rtnc_packet_queue_peek (rt_tx_queue rt)")
    case None
    with run init show thesis by (intro idle) (simp_all add: rtnc_runtime_transmit_next_def)
  next
    case (Some slt)
    with run init obtain now u busy v where n: "rb_now_ms (rt_backend rt) s = Some (now, u)"
        "channel_is_busy rt u = Some (busy, v)"
      and rest: "(if busy then (case wait_for_channel rt now of (status, runtime) \<Rightarrow> Some (status, runtime, v))
         else case persistence_allows (rt \<lparr> rt_busy_started_ms := 0 \<rparr>) now of (allowed, runtime) \<Rightarrow>
           if \<not> allowed then Some (RTNC_RUNTIME_BUSY, runtime, v)
           else transmit_keyed L (take (sl_length slt) (sl_bytes slt)) runtime v) = Some (status, rt', s')"
      unfolding rtnc_runtime_transmit_next_def by (auto simp: call_simps Let_def cong: if_cong)
    show thesis
    proof (cases busy)
      case True
      with rest n Some init show thesis by (intro waiting) (auto simp: call_simps)
    next
      case False
      obtain allowed q where q: "persistence_allows (rt \<lparr> rt_busy_started_ms := 0 \<rparr>) now = (allowed, q)" by fastforce
      show thesis
      proof (cases allowed)
        case True
        with rest n Some init q False show thesis by (intro sent [OF init Some n(1)]) auto
      next
        case no: False
        with rest n Some init q False show thesis by (intro deferred [OF init Some n(1)]) auto
      qed
    qed
  qed
qed

section \<open>The key\<close>

definition release_refused :: "'s rtnc_runtime_backend \<Rightarrow> ('s \<Rightarrow> bool) \<Rightarrow> bool" where
  \<comment> \<open>a call to release the key of a working backend can fail\<close>
  "release_refused B ready \<longleftrightarrow> (\<exists>t t'. ready t \<and> rb_set_ptt B False t = Some (False, t'))"

context ptt_backend
begin

lemma release_unkeys:
  assumes "rt_backend rt = B" "release_ptt rt s = Some (ok, rt', s')" "keyed s'" "ready s"
  shows "\<not> ok \<and> release_refused B ready"
proof -
  from assms(2) obtain released u slept where r: "rb_set_ptt B False s = Some (released, u)" "ok = (slept \<and> released)"
      "(if rt_rx_guard_ms rt > 0 then rb_sleep_ms B (rt_rx_guard_ms rt) u else Some (True, u)) = Some (slept, s')"
    unfolding assms(1) [symmetric] by (rule release_ptt_cases)
  have "keyed s' = keyed u" using r(3) sleep_keeps by (auto split: if_splits)
  with assms(3) set_ptt_ok r(1) have "\<not> released" by (cases released) auto
  with r assms(4) show ?thesis by (auto simp: release_refused_def)
qed

lemma channel_keeps: "rt_backend rt = B \<Longrightarrow> channel_is_busy rt s = Some (busy, s') \<Longrightarrow> keyed s' = keyed s"
  using busy_keeps by (auto simp: channel_is_busy_def split: option.splits)

lemmas set_ready = backend_keepsD(1) [OF ready_keeps]
lemmas sleep_ready = backend_keepsD(5) [OF ready_keeps]

lemma before_ready:
  assumes "rt_backend rt = B" "rb_now_ms B s = Some (now, u)" "channel_is_busy rt u = Some (busy, v)" "ready s"
  shows "ready v"
proof -
  have "ready u" by (rule backend_keepsD(6) [OF ready_keeps assms(2,4)])
  with assms(1,3) show ?thesis using backend_keepsD(4) [OF ready_keeps]
    unfolding channel_is_busy_def by (auto split: option.splits)
qed

lemma transmit_keyed_releases:
  assumes b: "rt_backend rt = B" and off: "\<not> keyed s" and ready: "ready s"
    and run: "transmit_keyed L p rt s = Some (status, rt', s')" and on: "keyed s'"
  shows "status = RTNC_RUNTIME_TX_FAILED \<and> release_refused B ready"
  using run
proof (cases rule: transmit_keyed_cases)
  case refused
  with b off on set_ptt_failed show ?thesis by auto
next
  case (keyed u q k success y released)
  have "rt_backend (set_state q RTNC_RUNTIME_TX_TAIL) = B" using audio_step_sel(1) [OF keyed(2)] b by simp
  moreover have "ready u" using set_ready [OF keyed(1) [unfolded b] ready] .
  then have "ready y" using keyed(7) [of ready] b ready_keeps by simp
  ultimately show ?thesis using release_unkeys [OF _ keyed(5) on] keyed(6) by simp
qed

lemma transmit_next_releases:
  assumes b: "rt_backend rt = B" and off: "\<not> keyed s" and ready: "ready s"
    and run: "rtnc_runtime_transmit_next L rt s = Some (status, rt', s')" and on: "keyed s'"
  shows "status = RTNC_RUNTIME_TX_FAILED \<and> release_refused B ready"
  using run
proof (cases rule: transmit_next_cases)
  case (waiting slt now u)
  with b off on show ?thesis using now_keeps [of s now u] channel_keeps [of rt u] by auto
next
  case (deferred slt now u)
  with b off on show ?thesis using now_keeps [of s now u] channel_keeps [of rt u] by auto
next
  case (sent slt now u v q)
  then have "\<not> keyed v" using b off now_keeps [of s now u] channel_keeps [of rt u] by auto
  moreover have "ready v" by (rule before_ready [OF b sent(3) [unfolded b] sent(4) ready])
  moreover have "rt_backend q = B" using channel_step_sel(1) [OF persistence_keeps [OF sent(5)]] b by simp
  ultimately show ?thesis using transmit_keyed_releases [of q v L] sent(6) on by blast
qed (use off on in simp_all)

lemma transmit_next_ready:
  assumes b: "rt_backend rt = B" and ready: "ready s"
    and run: "rtnc_runtime_transmit_next L rt s = Some (status, rt', s')"
  shows "ready s'"
  using run
proof (cases rule: transmit_next_cases)
  case (waiting slt now u)
  show ?thesis by (rule before_ready [OF b waiting(3) [unfolded b] waiting(4) ready])
next
  case (deferred slt now u)
  show ?thesis by (rule before_ready [OF b deferred(3) [unfolded b] deferred(4) ready])
next
  case (sent slt now u v q)
  have v: "ready v" by (rule before_ready [OF b sent(3) [unfolded b] sent(4) ready])
  have q: "rt_backend q = B" using channel_step_sel(1) [OF persistence_keeps [OF sent(5)]] b by simp
  from sent(6) show ?thesis
  proof (cases rule: transmit_keyed_cases)
    case refused
    then show ?thesis using set_ready v q by simp
  next
    case (keyed w q' k success y released)
    have "ready w" by (rule set_ready [OF keyed(1) [unfolded q] v])
    then have y: "ready y" using keyed(7) [of ready] q ready_keeps by simp
    have q': "rt_backend (set_state q' RTNC_RUNTIME_TX_TAIL) = B" using audio_step_sel(1) [OF keyed(2)] q by simp
    from keyed(5) obtain x u slept where r: "rb_set_ptt B False y = Some (x, u)"
        "(if rt_rx_guard_ms (set_state q' RTNC_RUNTIME_TX_TAIL) > 0
          then rb_sleep_ms B (rt_rx_guard_ms (set_state q' RTNC_RUNTIME_TX_TAIL)) u else Some (True, u)) = Some (slept, s')"
      unfolding q' [symmetric] by (rule release_ptt_cases)
    from set_ready [OF r(1) y] r(2) sleep_ready show ?thesis by (auto split: if_splits)
  qed
qed (use ready in auto)

end

section \<open>Calls that return\<close>

lemma send_fragments_returns: "backend_returns (rt_backend rt) \<Longrightarrow> send_fragments L p is rt s \<noteq> None"
proof (induction "is" arbitrary: rt s)
  case (Cons i "is")
  show ?case
  proof (cases "rtnc_fragment_build p (unat (mo_payload_class_bytes (rt_tx_modem rt))) i RTNC_FRAME_MAX_PAYLOAD")
    case (Inl e)
    then show ?thesis by simp
  next
    case (Inr payload)
    obtain n q where q: "prepare_fragment_audio L rt payload = (n, q)" by fastforce
    note b = audio_step_sel(1) [OF prepare_keeps [OF q]]
    show ?thesis
    proof (cases n)
      case None
      with Inr q show ?thesis by simp
    next
      case (Some samples)
      obtain sent u where u: "rb_send_audio (rt_backend q) (take samples (rt_pcm q)) s = Some (sent, u)"
        using Cons.prems unfolding b backend_returns_def by (metis not_None_eq prod.collapse)
      have "send_fragments L p is (count_stats f q) u \<noteq> None" for f
        using Cons.IH [of "count_stats f q"] Cons.prems b by (simp add: count_stats_def)
      with Inr q Some u show ?thesis by (simp del: not_None_eq)
    qed
  qed
qed simp

lemma Some_pair: "m \<noteq> None \<Longrightarrow> \<exists>a b. m = Some (a, b)"
  by (cases m) auto

lemma Some_triple: "m \<noteq> None \<Longrightarrow> \<exists>a b c. m = Some (a, b, c)"
  by (cases m) auto

lemma release_ptt_returns:
  assumes "backend_returns (rt_backend rt)"
  shows "release_ptt rt s \<noteq> None"
proof -
  note C = assms [unfolded backend_returns_def]
  obtain released u where r: "rb_set_ptt (rt_backend rt) False s = Some (released, u)" using C Some_pair by meson
  obtain slept v where "(if rt_rx_guard_ms rt > 0 then rb_sleep_ms (rt_backend rt) (rt_rx_guard_ms rt) u
      else Some (True, u)) = Some (slept, v)" using C Some_pair by (metis (full_types))
  with r show ?thesis by (simp add: release_ptt_def Let_def cong: if_cong)
qed

lemma transmit_keyed_returns:
  assumes B: "backend_returns (rt_backend rt)"
  shows "transmit_keyed L p rt s \<noteq> None"
proof -
  let ?n = "rtnc_fragment_count (length p) (unat (mo_payload_class_bytes (rt_tx_modem rt)))"
  let ?a = "set_state rt RTNC_RUNTIME_TX_ACTIVE"
  note C = B [unfolded backend_returns_def]
  obtain keyed u where k: "rb_set_ptt (rt_backend rt) True s = Some (keyed, u)" using C Some_pair by meson
  show ?thesis
  proof (cases keyed)
    case False
    with k show ?thesis by (simp add: transmit_keyed_def Let_def)
  next
    case True
    obtain slept v where sl: "rb_sleep_ms (rt_backend rt) (ucast (rt_kiss_txdelay_ms rt)) u = Some (slept, v)"
      using C Some_pair by meson
    have "(if slept then send_fragments L p [0..<?n] ?a v else Some (False, ?a, v)) \<noteq> None"
      using send_fragments_returns [of ?a] B by (simp del: not_None_eq)
    from Some_triple [OF this] obtain sent q w where
      f: "(if slept then send_fragments L p [0..<?n] ?a v else Some (False, ?a, v)) = Some (sent, q, w)" by blast
    have q: "rt_backend q = rt_backend rt"
    proof (cases slept)
      case True
      with f send_fragments_keeps [of L p "[0..<?n]" ?a v sent q w] obtain j where "audio_step j ?a q" by auto
      from audio_step_sel(1) [OF this] show ?thesis by simp
    qed (use f in auto)
    have "(if sent then rb_wait_audio (rt_backend q) w else Some (False, w)) \<noteq> None" using C q by (simp del: not_None_eq)
    from Some_pair [OF this] obtain waited x where
      wt: "(if sent then rb_wait_audio (rt_backend q) w else Some (False, w)) = Some (waited, x)" by blast
    have "(if waited then rb_sleep_ms (rt_backend q) (ucast (rt_kiss_txtail_ms q)) x else Some (False, x)) \<noteq> None"
      using C q by (simp del: not_None_eq)
    from Some_pair [OF this] obtain tailed y where
      tl: "(if waited then rb_sleep_ms (rt_backend q) (ucast (rt_kiss_txtail_ms q)) x else Some (False, x)) = Some (tailed, y)" by blast
    have "release_ptt (set_state q RTNC_RUNTIME_TX_TAIL) y \<noteq> None" by (rule release_ptt_returns) (simp add: B q)
    from Some_triple [OF this] obtain released z t where
      rl: "release_ptt (set_state q RTNC_RUNTIME_TX_TAIL) y = Some (released, z, t)" by blast
    show ?thesis using k True sl f wt tl rl by (simp add: transmit_keyed_def Let_def cong: if_cong)
  qed
qed

lemma transmit_next_returns:
  assumes B: "backend_returns (rt_backend rt)"
  shows "rtnc_runtime_transmit_next L rt s \<noteq> None"
proof (cases "rt_initialized rt \<and> rtnc_packet_queue_peek (rt_tx_queue rt) \<noteq> None")
  case True
  then obtain slt where p: "rt_initialized rt" "rtnc_packet_queue_peek (rt_tx_queue rt) = Some slt" by blast
  note C = B [unfolded backend_returns_def]
  obtain now u where n: "rb_now_ms (rt_backend rt) s = Some (now, u)" using C Some_pair by meson
  have "channel_is_busy rt u \<noteq> None" using C by (cases "rb_channel_busy (rt_backend rt)") (simp_all add: channel_is_busy_def)
  from Some_pair [OF this] obtain busy v where c: "channel_is_busy rt u = Some (busy, v)" by blast
  obtain allowed q where q: "persistence_allows (rt \<lparr> rt_busy_started_ms := 0 \<rparr>) now = (allowed, q)" by fastforce
  have "transmit_keyed L x q v \<noteq> None" for x
    using transmit_keyed_returns [of q] B channel_step_sel(1) [OF persistence_keeps [OF q]] by simp
  with p n c q show ?thesis by (simp add: rtnc_runtime_transmit_next_def split: prod.split)
qed (auto simp: rtnc_runtime_transmit_next_def)

text \<open>
  C13: transmission returns on the real backend.  Even where the channel stays busy or hardware fails,
  \<open>rtnc_runtime_transmit_next\<close> over ALSA and GPIO comes back, provided the sound card does not report errors
  for ever and signals do not interrupt a delay for ever.
\<close>

theorem runtime_transmit_returns:
  assumes "finitely_interrupted A errors" and "finitely_signalled P signals"
    and "rt_backend runtime = rtnc_alsa_runtime_backend A G P"
  shows "rtnc_runtime_transmit_next L runtime context \<noteq> None"
  by (rule transmit_next_returns) (unfold assms(3), rule alsa_backend_returns [OF assms(1,2)])

section \<open>The fate of the queued packet\<close>

lemma discard_packet_sel [simp]:
  "rt_stats (discard_packet rt) = rt_stats rt" "rt_state (discard_packet rt) = rt_state rt"
  "rt_tx_queue (discard_packet rt) = snd (rtnc_packet_queue_discard (rt_tx_queue rt))"
  "rt_rx_queue (discard_packet rt) = rt_rx_queue rt" "rt_reassembly (discard_packet rt) = rt_reassembly rt"
  "rt_initialized (discard_packet rt) = rt_initialized rt" "rt_mtu (discard_packet rt) = rt_mtu rt"
  "rt_persistence_random_state (discard_packet rt) = rt_persistence_random_state rt"
  "rt_backend (discard_packet rt) = rt_backend rt"
  by (simp_all add: discard_packet_def)

lemma count_stats_sel [simp]:
  "rt_stats (count_stats f rt) = f (rt_stats rt)" "rt_state (count_stats f rt) = rt_state rt"
  "rt_tx_queue (count_stats f rt) = rt_tx_queue rt" "rt_rx_queue (count_stats f rt) = rt_rx_queue rt"
  "rt_reassembly (count_stats f rt) = rt_reassembly rt" "rt_initialized (count_stats f rt) = rt_initialized rt"
  "rt_mtu (count_stats f rt) = rt_mtu rt" "rt_backend (count_stats f rt) = rt_backend rt"
  "rt_persistence_random_state (count_stats f rt) = rt_persistence_random_state rt"
  by (simp_all add: count_stats_def)

definition packet_frames :: "('d, 's) rtnc_runtime \<Rightarrow> bytes \<Rightarrow> nat" where
  "packet_frames rt p = rtnc_fragment_count (length p) (unat (mo_payload_class_bytes (rt_tx_modem rt)))"

definition accounted :: "('d, 's) rtnc_runtime \<Rightarrow> bytes \<Rightarrow> nat \<Rightarrow> rtnc_runtime_status \<Rightarrow> rtnc_runtime_stats \<Rightarrow> bool" where
  \<comment> \<open>the counters after a call that took packet \<open>p\<close> from the queue and played \<open>k\<close> frames\<close>
  "accounted rt p k status st \<longleftrightarrow> (let old = rt_stats rt in
    case status of
      RTNC_RUNTIME_OK \<Rightarrow> k = packet_frames rt p \<and>
        st = old \<lparr> st_tx_frames := st_tx_frames old + of_nat k,
          st_tx_packets := st_tx_packets old + 1, st_tx_bytes := st_tx_bytes old + of_nat (length p) \<rparr>
    | RTNC_RUNTIME_TX_FAILED \<Rightarrow> k \<le> packet_frames rt p \<and>
        st = old \<lparr> st_tx_frames := st_tx_frames old + of_nat k, st_tx_failures := st_tx_failures old + 1 \<rparr>
    | RTNC_RUNTIME_TX_TIMEOUT \<Rightarrow> k = 0 \<and>
        st = old \<lparr> st_tx_busy_timeouts := st_tx_busy_timeouts old + 1, st_tx_failures := st_tx_failures old + 1 \<rparr>
    | _ \<Rightarrow> False)"

lemma transmit_keyed_accounts:
  assumes "transmit_keyed L p rt s = Some (status, rt', s')"
  shows "rt_tx_queue rt' = snd (rtnc_packet_queue_discard (rt_tx_queue rt)) \<and> rt_state rt' = RTNC_RUNTIME_RX_IDLE \<and>
    (\<exists>k. accounted rt p k status (rt_stats rt') \<and>
      (\<forall>sent. counts_sent (rt_backend rt) sent \<longrightarrow> sent s' = sent s + k))"
  using assms
proof (cases rule: transmit_keyed_cases)
  case refused
  have "sent s' = sent s" if "counts_sent (rt_backend rt) sent" for sent
    using counts_sentD(1) [OF that refused(1)] .
  with refused show ?thesis by (auto simp: accounted_def Let_def intro!: exI [of _ 0])
next
  case (keyed u q k success y released)
  note q = audio_step_sel [OF keyed(2)]
  have "accounted rt p k status (rt_stats rt')"
  proof (cases "success \<and> released")
    case True
    with keyed q show ?thesis by (simp add: accounted_def packet_frames_def Let_def)
  next
    case False
    then have "status = RTNC_RUNTIME_TX_FAILED" using keyed(6) by simp
    moreover have "rt_stats rt' = (rt_stats rt) \<lparr> st_tx_frames := st_tx_frames (rt_stats rt) + of_nat k,
        st_tx_failures := st_tx_failures (rt_stats rt) + 1 \<rparr>"
      using q by (simp only: keyed(8) False if_False) simp
    ultimately show ?thesis using keyed(3) by (simp add: accounted_def packet_frames_def Let_def)
  qed
  with keyed(8,9) q show ?thesis by auto
qed

lemma before_counts:
  assumes "counts_sent (rt_backend rt) sent" "rb_now_ms (rt_backend rt) s = Some (now, u)" "channel_is_busy rt u = Some (busy, v)"
  shows "sent v = sent s"
  using counts_sentD(4,6) [OF assms(1)] assms(2,3) unfolding channel_is_busy_def by (auto split: option.splits)

text \<open>
  C9: every call of \<open>rtnc_runtime_transmit_next\<close> takes at most one packet, from the front of the queue, and
  the counters say what became of it.  Let \<open>k\<close> be the number of frames the call played, as any count of the
  successful \<open>send_audio\<close> calls shows it.  \<open>IDLE\<close>: the queue was empty.  \<open>BUSY\<close>: nothing is taken, played or
  counted.  \<open>OK\<close>: one packet, its bytes and all its frames, each of which was played.  \<open>TX_FAILED\<close>: one failure
  and exactly the \<open>k\<close> frames that were played before it.  \<open>TX_TIMEOUT\<close>: one busy timeout and one failure, and
  nothing was played.  No other status occurs.
\<close>

theorem runtime_transmit_accounts:
  assumes wf: "packet_queue_wf (rt_tx_queue rt)" and init: "rt_initialized rt"
    and run: "rtnc_runtime_transmit_next L rt s = Some (status, rt', s')"
  shows "packet_queue_wf (rt_tx_queue rt') \<and>
    (\<exists>k. (\<forall>sent. counts_sent (rt_backend rt) sent \<longrightarrow> sent s' = sent s + k) \<and>
      (case packet_items (rt_tx_queue rt) of
         [] \<Rightarrow> status = RTNC_RUNTIME_IDLE \<and> k = 0 \<and> packet_items (rt_tx_queue rt') = [] \<and> rt_stats rt' = rt_stats rt
       | (p, sequence) # rest \<Rightarrow>
           if status = RTNC_RUNTIME_BUSY
           then k = 0 \<and> packet_items (rt_tx_queue rt') = (p, sequence) # rest \<and> rt_stats rt' = rt_stats rt
           else packet_items (rt_tx_queue rt') = rest \<and> accounted rt p k status (rt_stats rt')))"
proof (cases "packet_items (rt_tx_queue rt)")
  case Nil
  then have "rtnc_packet_queue_peek (rt_tx_queue rt) = None"
    using packet_pop_empty [OF wf Nil] wf
    by (simp add: rtnc_packet_queue_peek_def packet_items_def packet_queue_wf_def ring_items_empty_iff)
  with run init wf Nil show ?thesis by (auto simp: rtnc_runtime_transmit_next_def intro!: exI [of _ 0])
next
  case (Cons y rest)
  obtain p sequence where y: "y = (p, sequence)" by fastforce
  from packet_peek_head [OF wf Cons] obtain slt where
    slt: "rtnc_packet_queue_peek (rt_tx_queue rt) = Some slt" "slot_packet slt = y" by blast
  have p: "take (sl_length slt) (sl_bytes slt) = p" using slt(2) y by (simp add: slot_packet_def)
  from packet_discard_head [OF wf Cons] obtain q' where
    d: "rtnc_packet_queue_discard (rt_tx_queue rt) = (True, q')" "packet_queue_wf q'" "packet_items q' = rest" by blast
  from run show ?thesis
  proof (cases rule: transmit_next_cases)
    case (waiting slt' now u)
    note count = before_counts [OF _ waiting(3,4)]
    show ?thesis using waiting wf Cons y d count
      by (auto simp: wait_for_channel_def accounted_def Let_def set_state_def discard_packet_def count_stats_def
        intro!: exI [of _ 0] split: if_splits)
  next
    case (deferred slt' now u)
    note k = channel_step_sel [OF persistence_keeps [OF deferred(5)]]
    note count = before_counts [OF _ deferred(3,4)]
    show ?thesis using k deferred wf Cons y count by (auto intro!: exI [of _ 0])
  next
    case (sent slt' now u v q)
    note k = channel_step_sel [OF persistence_keeps [OF sent(5)]]
    have "transmit_keyed L p q v = Some (status, rt', s')" using sent(2,6) slt p by simp
    from transmit_keyed_accounts [OF this] k d(1) obtain j where
      e: "rt_tx_queue rt' = q'" "accounted q p j status (rt_stats rt')"
        "\<forall>sent. counts_sent (rt_backend rt) sent \<longrightarrow> sent s' = sent v + j" by auto
    have f: "packet_frames q p = packet_frames rt p" using k by (simp add: packet_frames_def)
    from e(2) have a: "accounted rt p j status (rt_stats rt')" unfolding accounted_def k(3) f .
    moreover from this have "status \<noteq> RTNC_RUNTIME_BUSY" by (auto simp: accounted_def Let_def)
    moreover have "counter s' = counter s + j" if c: "counts_sent (rt_backend rt) counter" for counter
      using e(3) [THEN spec, THEN mp, OF c] before_counts [OF c sent(3,4)] by simp
    ultimately show ?thesis using d(2,3) e(1) Cons y by (intro conjI exI [of _ j]) simp_all
  qed (use init slt in simp_all)
qed

end
