(* ===== verification/RuntimeFlow.thy ===== *)
theory RuntimeFlow
  imports RuntimeProps
begin

text \<open>
  Histories of runtime calls: the invariant of the runtime, the transmitter key over any history, delivery
  of a fragmented packet to the receiving side, and what the runtime rejects while it waits.
\<close>

section \<open>Histories\<close>

inductive runtime_step ::
    "'d liquid \<Rightarrow> ('d, 's) rtnc_runtime \<times> 's \<Rightarrow> ('d, 's) rtnc_runtime \<times> 's \<Rightarrow> bool" for L where
  submit: "rtnc_runtime_submit_packet rt p = (status, rt') \<Longrightarrow> runtime_step L (rt, s) (rt', s)"
| transmit: "rtnc_runtime_transmit_next L rt s = Some (status, rt', s') \<Longrightarrow> runtime_step L (rt, s) (rt', s')"
| accept: "rtnc_runtime_accept_fragment rt payload now = (status, rt') \<Longrightarrow> runtime_step L (rt, s) (rt', s)"
| receive: "rtnc_runtime_receive_packet rt capacity = (result, rt') \<Longrightarrow> runtime_step L (rt, s) (rt', s)"
| configure: "rtnc_runtime_set_kiss_parameter rt command argument = (ok, rt') \<Longrightarrow> runtime_step L (rt, s) (rt', s)"

inductive_cases runtime_stepE: "runtime_step L (rt, s) (rt', s')"

abbreviation runtime_history :: "'d liquid \<Rightarrow> ('d, 's) rtnc_runtime \<times> 's \<Rightarrow> ('d, 's) rtnc_runtime \<times> 's \<Rightarrow> bool" where
  "runtime_history L \<equiv> (runtime_step L)\<^sup>*\<^sup>*"

definition runtime_wf :: "('d, 's) rtnc_runtime \<Rightarrow> bool" where
  "runtime_wf rt \<longleftrightarrow> rt_initialized rt \<and> packet_queue_wf (rt_tx_queue rt) \<and> packet_queue_wf (rt_rx_queue rt) \<and>
     reassembly_wf (rt_reassembly rt) \<and> ra_mtu (rt_reassembly rt) = unat (rt_mtu rt) \<and>
     unat (rt_mtu rt) \<le> 128 * (ra_radio_payload_class (rt_reassembly rt) - 1) \<and>
     pq_mtu (rt_tx_queue rt) = unat (rt_mtu rt) \<and> pq_mtu (rt_rx_queue rt) = unat (rt_mtu rt) \<and>
     rt_persistence_random_state rt \<noteq> 0 \<and>
     (rt_state rt = RTNC_RUNTIME_RX_IDLE \<or>
      rt_state rt = RTNC_RUNTIME_TX_WAIT_BUSY \<and> packet_items (rt_tx_queue rt) \<noteq> [])"

lemma init_wf:
  assumes "rtnc_runtime_init L m r profile fec c mtu timeout txq rxq busy guard cfg B = Some rt"
  shows "runtime_wf rt \<and> rt_backend rt = B"
proof -
  from assms obtain tx rx ra modem where
    q: "rtnc_packet_queue_init txq (unat mtu) = Some tx" "rtnc_packet_queue_init rxq (unat mtu) = Some rx" and
    ra: "rtnc_reassembly_init r (replicate RTNC_LINK_MAX_MTU 0) (unat mtu) (unat c) timeout = (RTNC_FRAGMENT_OK, ra)" and
    mtu: "\<not> unat mtu > RTNC_LINK_MAX_MTU" and
    rt: "rt_tx_queue rt = tx" "rt_rx_queue rt = rx" "rt_reassembly rt = ra" "rt_mtu rt = mtu" "rt_initialized rt"
      "rt_backend rt = B" "rt_state rt = RTNC_RUNTIME_RX_IDLE" "rt_persistence_random_state rt = 0x6d2b79f5"
    by (auto simp: rtnc_runtime_init_def Let_def split: if_splits option.splits prod.splits)
  have "unat mtu \<le> length (replicate RTNC_LINK_MAX_MTU (0 :: u8))" using mtu by simp
  from reassembly_wf_init [OF ra this] packet_queue_init_ok [OF q(1)] packet_queue_init_ok [OF q(2)] rt
  show ?thesis by (simp add: runtime_wf_def)
qed

lemma packet_items_push:
  assumes wf: "packet_queue_wf q" and push: "rtnc_packet_queue_push q p n = (ok, q')"
  shows "packet_queue_wf q' \<and> pq_mtu q' = pq_mtu q \<and> packet_items q' = (if ok then packet_items q @ [(p, n)] else packet_items q)"
proof (cases "packet_fits q (p, n)")
  case False
  with packet_push_unfit [OF False] push wf show ?thesis by auto
next
  case fits: True
  show ?thesis
  proof (cases "length (packet_items q) < pq_capacity q")
    case True
    from packet_push_room [OF wf fits True] push show ?thesis by auto
  next
    case False
    then have "length (packet_items q) = pq_capacity q" using packet_items_bound [OF wf] by simp
    from packet_push_full [OF wf fits this] push have q': "\<not> ok" "q' = q \<lparr> pq_dropped_packets := pq_dropped_packets q + 1 \<rparr>" by auto
    have "packet_queue_wf q'" using packet_push_wf [OF wf, of p n] push by simp
    with q' show ?thesis by (simp add: packet_items_def)
  qed
qed

lemma submit_wf:
  assumes "runtime_wf rt" "rtnc_runtime_submit_packet rt p = (status, rt')"
  shows "runtime_wf rt' \<and> rt_backend rt' = rt_backend rt"
proof -
  obtain ok q where q: "rtnc_packet_queue_push (rt_tx_queue rt) p (rt_next_tx_sequence rt) = (ok, q)" by fastforce
  with assms packet_items_push [OF _ q] show ?thesis
    by (auto simp: rtnc_runtime_submit_packet_def runtime_wf_def Let_def split: if_splits)
qed

lemma accept_wf:
  assumes wf: "runtime_wf rt" and a: "rtnc_runtime_accept_fragment rt payload now = (status, rt')"
  shows "runtime_wf rt' \<and> rt_backend rt' = rt_backend rt"
proof -
  obtain st n ra where p: "rtnc_reassembly_push (rt_reassembly rt) payload now = (st, n, ra)" by (metis prod_cases3)
  obtain ok q where q: "rtnc_packet_queue_push (rt_rx_queue rt) (take n (ra_packet ra)) (rt_next_rx_sequence rt) = (ok, q)"
    by fastforce
  from wf have "reassembly_wf (rt_reassembly rt)" "packet_queue_wf (rt_rx_queue rt)" by (simp_all add: runtime_wf_def)
  note k = push_wf(1) [OF this(1) p] push_config(1,2) [OF p] packet_items_push [OF this(2) q]
  from a p q show ?thesis using wf k
    by (auto simp: rtnc_runtime_accept_fragment_def runtime_wf_def Let_def split: if_splits)
qed

lemma receive_wf:
  assumes wf: "runtime_wf rt" and r: "rtnc_runtime_receive_packet rt capacity = (result, rt')"
  shows "runtime_wf rt' \<and> rt_backend rt' = rt_backend rt"
proof -
  obtain popped q where q: "rtnc_packet_queue_pop (rt_rx_queue rt) capacity = (popped, q)" by fastforce
  have "packet_queue_wf q" "pq_mtu q = pq_mtu (rt_rx_queue rt)"
    using packet_pop_wf [of "rt_rx_queue rt" capacity] packet_pop_config(2) [of "rt_rx_queue rt" capacity] q wf
    by (simp_all add: runtime_wf_def)
  with r q wf show ?thesis
    by (auto simp: rtnc_runtime_receive_packet_def runtime_wf_def Let_def split: if_splits option.splits)
qed

lemma configure_wf:
  "runtime_wf rt \<Longrightarrow> rtnc_runtime_set_kiss_parameter rt command argument = (ok, rt') \<Longrightarrow>
   runtime_wf rt' \<and> rt_backend rt' = rt_backend rt"
  by (auto simp: rtnc_runtime_set_kiss_parameter_def runtime_wf_def Let_def split: if_splits)

lemma discard_wf:
  assumes "packet_queue_wf q"
  shows "packet_queue_wf (snd (rtnc_packet_queue_discard q)) \<and> pq_mtu (snd (rtnc_packet_queue_discard q)) = pq_mtu q"
proof -
  have "packet_queue_wf (snd (rtnc_packet_queue_discard q))"
  proof (cases "packet_items q")
    case Nil
    with assms show ?thesis
      by (simp add: rtnc_packet_queue_discard_def packet_items_def packet_queue_wf_def ring_items_empty_iff)
  next
    case (Cons y ys)
    from packet_discard_head [OF assms Cons] show ?thesis by auto
  qed
  then show ?thesis by (simp add: rtnc_packet_queue_discard_def)
qed

lemma persistence_rng:
  "persistence_allows rt now = (allowed, rt') \<Longrightarrow> rt_persistence_random_state rt \<noteq> 0 \<Longrightarrow> rt_persistence_random_state rt' \<noteq> 0"
  using xorshift32_nonzero [of "rt_persistence_random_state rt"]
  by (auto simp: persistence_allows_def persistence_random_def Let_def split: if_splits)

lemma transmit_keyed_wf:
  assumes wf: "runtime_wf rt" and run: "transmit_keyed L p rt s = Some (status, rt', s')"
  shows "runtime_wf rt' \<and> rt_backend rt' = rt_backend rt"
proof -
  have d: "packet_queue_wf (snd (rtnc_packet_queue_discard (rt_tx_queue rt)))"
    "pq_mtu (snd (rtnc_packet_queue_discard (rt_tx_queue rt))) = unat (rt_mtu rt)"
    using discard_wf wf by (auto simp: runtime_wf_def)
  from run show ?thesis
  proof (cases rule: transmit_keyed_cases)
    case refused
    with wf d show ?thesis by (simp add: runtime_wf_def)
  next
    case (keyed u q k success y released)
    from audio_step_sel [OF keyed(2)] wf d show ?thesis unfolding keyed(8) by (simp add: runtime_wf_def)
  qed
qed

lemma transmit_wf:
  assumes wf: "runtime_wf rt" and run: "rtnc_runtime_transmit_next L rt s = Some (status, rt', s')"
  shows "runtime_wf rt' \<and> rt_backend rt' = rt_backend rt"
  using run
proof (cases rule: transmit_next_cases)
  case (waiting slt now u)
  have "packet_items (rt_tx_queue rt) \<noteq> []"
    using waiting(2) wf by (auto simp: rtnc_packet_queue_peek_def packet_items_def runtime_wf_def packet_queue_wf_def
      ring_items_empty_iff split: if_splits)
  moreover have "packet_queue_wf (snd (rtnc_packet_queue_discard (rt_tx_queue rt)))"
    "pq_mtu (snd (rtnc_packet_queue_discard (rt_tx_queue rt))) = unat (rt_mtu rt)"
    using discard_wf wf by (auto simp: runtime_wf_def)
  ultimately show ?thesis using waiting(5) wf
    by (auto simp: wait_for_channel_def runtime_wf_def Let_def set_state_def count_stats_def discard_packet_def split: if_splits)
next
  case (deferred slt now u)
  have "rt_persistence_random_state rt' \<noteq> 0"
    using persistence_rng [OF deferred(5)] wf by (simp add: runtime_wf_def)
  with channel_step_sel [OF persistence_keeps [OF deferred(5)]] wf show ?thesis by (simp add: runtime_wf_def)
next
  case (sent slt now u v q)
  have "rt_persistence_random_state q \<noteq> 0"
    using persistence_rng [OF sent(5)] wf by (simp add: runtime_wf_def)
  with channel_step_sel [OF persistence_keeps [OF sent(5)]] wf have "runtime_wf q \<and> rt_backend q = rt_backend rt"
    by (simp add: runtime_wf_def)
  with transmit_keyed_wf [OF _ sent(6)] show ?thesis by simp
qed (use wf in \<open>simp_all add: runtime_wf_def\<close>)

lemma runtime_step_wf:
  "runtime_step L (rt, s) (rt', s') \<Longrightarrow> runtime_wf rt \<Longrightarrow> runtime_wf rt' \<and> rt_backend rt' = rt_backend rt"
  by (erule runtime_stepE) (auto dest: submit_wf transmit_wf accept_wf receive_wf configure_wf)

lemma runtime_history_wf:
  "runtime_history L c c' \<Longrightarrow> runtime_wf (fst c) \<Longrightarrow> runtime_wf (fst c') \<and> rt_backend (fst c') = rt_backend (fst c)"
proof (induction rule: rtranclp_induct)
  case (step y z)
  then show ?case using runtime_step_wf [of L "fst y" "snd y" "fst z" "snd z"] by simp
qed simp

section \<open>The key over a history\<close>

context ptt_backend
begin

lemma step_key:
  assumes "runtime_step L (rt, s) (rt', s')" "rt_backend rt = B" "\<not> keyed s" "ready s" "\<not> release_refused B ready"
  shows "\<not> keyed s' \<and> ready s'"
proof -
  from assms(1) have "s' = s \<or> (\<exists>status. rtnc_runtime_transmit_next L rt s = Some (status, rt', s'))"
    by (auto elim: runtime_stepE)
  with transmit_next_releases [OF assms(2,3,4)] transmit_next_ready [OF assms(2,4)] assms(3-5) show ?thesis by blast
qed

lemma history_key:
  assumes "runtime_history L c c'" "runtime_wf (fst c)" "rt_backend (fst c) = B" "\<not> keyed (snd c)" "ready (snd c)" "\<not> release_refused B ready"
  shows "\<not> keyed (snd c') \<and> ready (snd c')"
  using assms(1)
proof (induction rule: rtranclp_induct)
  case (step y z)
  with runtime_history_wf [OF step(1) assms(2)] assms(3) have "rt_backend (fst y) = B" by simp
  with step step_key [of L "fst y" "snd y" "fst z" "snd z"] assms(6) show ?case by simp
qed (use assms(4,5) in simp)

end

text \<open>
  C11: between calls the transmitter is never left on.  Start a runtime over the ALSA and GPIO backend with
  the key off; whatever packets are submitted, transmitted and received and whatever parameters are set, in
  any order, and whatever fails on the way (sound card, delays, modem, queues), the key is off after every
  call, as long as the GPIO writes themselves do not fail.
\<close>

theorem runtime_never_left_keyed:
  assumes "rtnc_runtime_init L m r profile fec c mtu timeout txq rxq busy guard cfg (rtnc_alsa_runtime_backend A G P) = Some rt0"
    and "pt_line (ax_ptt context0) \<noteq> None" and "\<not> rtnc_ptt_is_enabled (ax_ptt context0)"
    and "\<And>line v w. 0 \<le> fst (gpiod_line_set_value G line v w)"
    and "runtime_history L (rt0, context0) (rt, context)"
  shows "\<not> rtnc_ptt_is_enabled (ax_ptt context)"
proof -
  have set: "rtnc_ptt_set G p False w \<noteq> (False, a)" if on: "pt_line p \<noteq> None" for p w a
  proof -
    obtain line where "pt_line p = Some line" using on by blast
    moreover obtain r u where "gpiod_line_set_value G line (if False = pt_active_high p then 1 else 0) w = (r, u)"
      by fastforce
    moreover from this have "0 \<le> r" using assms(4) by (metis fst_conv)
    ultimately show ?thesis by (simp add: rtnc_ptt_set_def Let_def)
  qed
  then have lineless: "rtnc_ptt_set G p False w = (False, a) \<Longrightarrow> pt_line p = None" for p w a by blast
  have "\<not> release_refused (rtnc_alsa_runtime_backend A G P) context_ready"
    unfolding release_refused_def
    by (auto simp: rtnc_alsa_runtime_backend_def backend_set_ptt_def context_ready_def Let_def dest: lineless split: prod.splits)
  from alsa_key.history_key [OF assms(5) _ _ _ _ this] init_wf [OF assms(1)] assms(2,3)
  show ?thesis by (simp add: context_keyed_def context_ready_def)
qed

text \<open>
  C12: the invariant of the packet runtime.  Over any history of calls both queues and the reassembly stay
  well formed with the configured MTU, the generator behind the p-persistence never reaches its zero fixed
  point, and between calls the runtime is idle, or waits for the channel with a packet still queued.
\<close>

theorem runtime_invariant:
  assumes "rtnc_runtime_init L m r profile fec c mtu timeout txq rxq busy guard cfg B = Some rt0"
    and "runtime_history L (rt0, s0) (rt, s)"
  shows "runtime_wf rt"
  using runtime_history_wf [OF assms(2)] init_wf [OF assms(1)] by simp

section \<open>Delivery\<close>

fun accept_all ::
    "('d, 's) rtnc_runtime \<Rightarrow> (bytes \<times> u64) list \<Rightarrow> rtnc_runtime_status list \<times> ('d, 's) rtnc_runtime" where
  \<comment> \<open>received frames, handed over one after the other\<close>
  "accept_all rt [] = ([], rt)"
| "accept_all rt ((payload, now) # rest) =
    (let (status, rt) = rtnc_runtime_accept_fragment rt payload now;
         (more, rt) = accept_all rt rest
     in (status # more, rt))"

definition delivered :: "('d, 's) rtnc_runtime \<Rightarrow> bytes \<Rightarrow> ('d, 's) rtnc_runtime \<Rightarrow> bool" where
  \<comment> \<open>one more packet waits on the receive side, and the counters say so\<close>
  "delivered rt p rt' \<longleftrightarrow>
    packet_items (rt_rx_queue rt') = packet_items (rt_rx_queue rt) @ [(p, rt_next_rx_sequence rt)] \<and>
    rt_next_rx_sequence rt' = rt_next_rx_sequence rt + 1 \<and>
    rt_stats rt' = (rt_stats rt) \<lparr> st_rx_packets := st_rx_packets (rt_stats rt) + 1,
      st_rx_bytes := st_rx_bytes (rt_stats rt) + of_nat (length p) \<rparr>"

lemma accept_incomplete:
  assumes "rt_initialized rt" "rt_state rt = RTNC_RUNTIME_RX_IDLE"
    and "rtnc_reassembly_push (rt_reassembly rt) payload now = (RTNC_FRAGMENT_INCOMPLETE, n, r)"
  shows "rtnc_runtime_accept_fragment rt payload now = (RTNC_RUNTIME_RX_INCOMPLETE, rt \<lparr> rt_reassembly := r \<rparr>)"
  using assms by (simp add: rtnc_runtime_accept_fragment_def)

lemma accept_last:
  assumes "rt_initialized rt" "rt_state rt = RTNC_RUNTIME_RX_IDLE" "packet_queue_wf (rt_rx_queue rt)"
    and p: "0 < length p" "length p \<le> pq_mtu (rt_rx_queue rt)"
    and room: "length (packet_items (rt_rx_queue rt)) < pq_capacity (rt_rx_queue rt)"
    and push: "rtnc_reassembly_push (rt_reassembly rt) payload now = (RTNC_FRAGMENT_OK, length p, r)"
      "take (length p) (ra_packet r) = p"
  shows "\<exists>rt'. rtnc_runtime_accept_fragment rt payload now = (RTNC_RUNTIME_OK, rt') \<and> delivered rt p rt'"
proof -
  have "packet_fits (rt_rx_queue rt) (p, rt_next_rx_sequence rt)" using p by (simp add: packet_fits_def)
  from packet_push_room [OF assms(3) this room] obtain q where
    "rtnc_packet_queue_push (rt_rx_queue rt) p (rt_next_rx_sequence rt) = (True, q)"
    "packet_items q = packet_items (rt_rx_queue rt) @ [(p, rt_next_rx_sequence rt)]" by auto
  with assms(1,2) push show ?thesis
    by (simp add: rtnc_runtime_accept_fragment_def delivered_def count_stats_def)
qed

lemma accept_all_fragments:
  assumes "push_all (rt_reassembly rt) xs = (replicate k (RTNC_FRAGMENT_INCOMPLETE, 0) @ [(RTNC_FRAGMENT_OK, length p)], r)"
    and "rt_initialized rt" "rt_state rt = RTNC_RUNTIME_RX_IDLE" "packet_queue_wf (rt_rx_queue rt)"
    and "0 < length p" "length p \<le> pq_mtu (rt_rx_queue rt)"
    and "length (packet_items (rt_rx_queue rt)) < pq_capacity (rt_rx_queue rt)"
    and "take (length p) (ra_packet r) = p"
  shows "\<exists>rt'. accept_all rt xs = (replicate k RTNC_RUNTIME_RX_INCOMPLETE @ [RTNC_RUNTIME_OK], rt') \<and> delivered rt p rt'"
  using assms
proof (induction k arbitrary: rt xs)
  case 0
  then obtain payload now where xs: "xs = [(payload, now)]"
      "rtnc_reassembly_push (rt_reassembly rt) payload now = (RTNC_FRAGMENT_OK, length p, r)"
    by (cases xs; cases "tl xs") (auto simp: Let_def split: prod.splits)
  with accept_last [OF 0(2-7) xs(2) 0(8)] show ?case by auto
next
  case (Suc k)
  then obtain payload now rest r' where xs: "xs = (payload, now) # rest"
      "rtnc_reassembly_push (rt_reassembly rt) payload now = (RTNC_FRAGMENT_INCOMPLETE, 0, r')"
      "push_all r' rest = (replicate k (RTNC_FRAGMENT_INCOMPLETE, 0) @ [(RTNC_FRAGMENT_OK, length p)], r)"
    by (cases xs) (auto simp: Let_def split: prod.splits)
  from Suc.IH [of "rt \<lparr> rt_reassembly := r' \<rparr>" rest] Suc.prems xs(3) obtain rt' where
    "accept_all (rt \<lparr> rt_reassembly := r' \<rparr>) rest = (replicate k RTNC_RUNTIME_RX_INCOMPLETE @ [RTNC_RUNTIME_OK], rt')"
    "delivered (rt \<lparr> rt_reassembly := r' \<rparr>) p rt'" by auto
  with accept_incomplete [OF Suc.prems(2,3) xs(2)] xs(1) show ?case by (simp add: delivered_def)
qed

text \<open>
  C10: a packet cut up on one side is delivered on the other.  An idle runtime, with room in its receive
  queue and whatever its reassembly went through before, that is handed the fragments of a packet in order
  and in time, reports \<open>RX_INCOMPLETE\<close> for each but the last and \<open>OK\<close> for that; the packet stands at the
  end of the receive queue, and the counters grow by one packet and its bytes.
\<close>

theorem runtime_delivers:
  assumes "runtime_wf rt" and "rt_state rt = RTNC_RUNTIME_RX_IDLE"
    and "ra_radio_payload_class (rt_reassembly rt) = c"
    and "0 < length p" and "length p \<le> unat (rt_mtu rt)"
    and "length (packet_items (rt_rx_queue rt)) < pq_capacity (rt_rx_queue rt)"
    and "length (t0 # ts) = rtnc_fragment_count (length p) c"
    and "\<And>t. t \<in> set ts \<Longrightarrow> t - t0 \<le> ucast (ra_timeout_ms (rt_reassembly rt))"
  shows "\<exists>rt'. accept_all rt (zip (fragments p c) (t0 # ts)) =
      (replicate (length ts) RTNC_RUNTIME_RX_INCOMPLETE @ [RTNC_RUNTIME_OK], rt') \<and> delivered rt p rt'"
proof -
  have wf: "reassembly_wf (rt_reassembly rt)" "ra_mtu (rt_reassembly rt) = unat (rt_mtu rt)" "rt_initialized rt"
    "packet_queue_wf (rt_rx_queue rt)" "pq_mtu (rt_rx_queue rt) = unat (rt_mtu rt)"
    using assms(1) by (simp_all add: runtime_wf_def)
  have "fragmentable p c" using assms(1,3-5) by (auto simp: fragmentable_def runtime_wf_def reassembly_wf_def)
  from fragments_rebuild [OF wf(1) assms(3) this _ assms(7,8)] assms(5) wf(2) obtain r where
    "push_all (rt_reassembly rt) (zip (fragments p c) (t0 # ts)) =
      (replicate (length ts) (RTNC_FRAGMENT_INCOMPLETE, 0) @ [(RTNC_FRAGMENT_OK, length p)], r)"
    "take (length p) (ra_packet r) = p" by auto
  from accept_all_fragments [OF this(1) wf(3) assms(2) wf(4) assms(4) _ assms(6) this(2)] assms(5) wf(5)
  show ?thesis by simp
qed

text \<open>
  C14: while a packet waits for a busy channel, reception is off.  After a call of
  \<open>rtnc_runtime_transmit_next\<close> that found the channel busy and did not give up, every received fragment is
  refused and nothing of the runtime changes; the call in which p-persistence defers the packet does not end this.
\<close>

theorem runtime_rejects_while_waiting:
  assumes "rtnc_runtime_transmit_next L rt s = Some (RTNC_RUNTIME_BUSY, rt', s')"
    and "rt_initialized rt"
    and "rt_state rt = RTNC_RUNTIME_TX_WAIT_BUSY \<or>
      (\<exists>now u v. rb_now_ms (rt_backend rt) s = Some (now, u) \<and> channel_is_busy rt u = Some (True, v))"
  shows "rt_state rt' = RTNC_RUNTIME_TX_WAIT_BUSY \<and>
    rtnc_runtime_accept_fragment rt' payload time = (RTNC_RUNTIME_RX_REJECTED, rt')"
proof -
  have "rt_state rt' = RTNC_RUNTIME_TX_WAIT_BUSY"
    using assms(1)
  proof (cases rule: transmit_next_cases)
    case (waiting slt now u)
    then show ?thesis
      by (auto simp: wait_for_channel_def Let_def set_state_def split: if_splits)
  next
    case (deferred slt now u)
    note k = channel_step_sel [OF persistence_keeps [OF deferred(5)]]
    from assms(3) deferred k show ?thesis by auto
  next
    case (sent slt now u v q)
    from transmit_keyed_accounts [OF sent(6)] show ?thesis by (auto simp: accounted_def Let_def)
  qed (use assms in auto)
  then show ?thesis by (simp add: rtnc_runtime_accept_fragment_def)
qed

section \<open>Witnesses\<close>

lemma example_training:
  assumes "ps_modulator (mo_psk m) \<noteq> None" "ps_bits_per_symbol (mo_psk m) = 2"
    and "pp_bits_per_symbol (mo_profile m) = 2" "set is \<subseteq> {..<96}"
  shows "fst (map_training example_liquid m state is)"
  using assms
proof (induction "is" arbitrary: m state)
  case (Cons i "is")
  let ?v = "fst (training_value (mo_preamble m) 2 state i)"
  have three: "unat (ucast (x AND 3) :: u8) < 4" for x :: u32
  proof -
    have "unat (x AND 3) < 4" using word_and_le1 [of x 3] by (simp add: word_le_nat_alt)
    then have "unat (x AND 3) mod 256 < 4" by (rule le_less_trans [OF mod_less_eq_dividend])
    then show ?thesis by (simp add: unsigned_ucast_eq take_bit_eq_mod)
  qed
  have "unat ?v < 4"
  proof (cases "i < 32")
    case True
    then show ?thesis using acquisition_lists by (simp add: training_value_def list_all_length)
  next
    case False
    then show ?thesis using three by (simp add: training_value_def push_bit_eq_mult)
  qed
  moreover obtain v state' where v: "training_value (mo_preamble m) 2 state i = (v, state')" by fastforce
  ultimately have "\<exists>psk'. rtnc_psk_map example_liquid (mo_psk m) v = (Some (example_point (unat v)), psk') \<and>
      ps_modulator psk' \<noteq> None \<and> ps_bits_per_symbol psk' = 2"
    using Cons.prems(1,2) by (auto simp: rtnc_psk_map_def example_liquid_def)
  then obtain psk' where psk: "rtnc_psk_map example_liquid (mo_psk m) v = (Some (example_point (unat v)), psk')"
    "ps_modulator psk' \<noteq> None" "ps_bits_per_symbol psk' = 2" by blast
  let ?m = "m \<lparr> mo_psk := psk', mo_training := (mo_training m)[i := example_point (unat v)] \<rparr>"
  have "fst (map_training example_liquid ?m state' is)" using Cons psk(2,3) by simp
  then show ?case using v psk(1) Cons.prems(3) by (simp add: Let_def)
qed simp

lemma example_init_profile:
  "\<exists>m. rtnc_modem_init_profile example_liquid m0 FEC_LDPC_NORMAL 128 rtnc_phy_profile_qpsk_1200 = (True, m) \<and>
     mo_payload_class_bytes m = 128"
proof -
  let ?b = "blank_modem rtnc_phy_profile_qpsk_1200 FEC_LDPC_NORMAL 128 RTNC_PREAMBLE_DATA :: unit rtnc_modem"
  note e = example_modem_ready [of FEC_LDPC_NORMAL, simplified]
  have i: "init_blocks example_liquid ?b = (True, example_modem FEC_LDPC_NORMAL)"
    using example_blocks [of FEC_LDPC_NORMAL] unfolding example_modem_def by (metis prod.collapse)
  have args: "modem_arguments_ok rtnc_phy_profile_qpsk_1200 FEC_LDPC_NORMAL 128"
    using qpsk_1200_valid by (simp add: modem_arguments_ok_def)
  have "pp_bits_per_symbol (mo_profile (example_modem FEC_LDPC_NORMAL)) = 2"
    using e(2) by (simp add: rtnc_phy_profile_qpsk_1200_def)
  then have "fst (map_training example_liquid (example_modem FEC_LDPC_NORMAL) 0x9e3779b9 [0..<96])"
    using e(1) by (intro example_training) (auto simp: modem_ready_def tx_live_def)
  then obtain m where m: "map_training example_liquid (example_modem FEC_LDPC_NORMAL) 0x9e3779b9 [0..<96] = (True, m)"
    by (cases "map_training example_liquid (example_modem FEC_LDPC_NORMAL) 0x9e3779b9 [0..<96]") simp
  have "set [0..<96] \<subseteq> {..<96 :: nat}" by auto
  from map_training_ok [OF m this e(1)] e(4) have "mo_payload_class_bytes m = 128" by (simp add: same_settings_def)
  with m i args show ?thesis by (simp add: rtnc_modem_init_profile_def rtnc_modem_init_profile_preamble_def)
qed

definition example_runtime :: "'s rtnc_runtime_backend \<Rightarrow> (unit, 's) rtnc_runtime" where
  "example_runtime B = the (rtnc_runtime_init example_liquid (example_modem FEC_LDPC_NORMAL) example_receiver
     rtnc_phy_profile_qpsk_1200 FEC_LDPC_NORMAL 128 500 1000 2 2 500 100 identity_tx_config B)"

lemma example_runtime:
  shows example_runtime_init: "rtnc_runtime_init example_liquid (example_modem FEC_LDPC_NORMAL) example_receiver
      rtnc_phy_profile_qpsk_1200 FEC_LDPC_NORMAL 128 500 1000 2 2 500 100 identity_tx_config B = Some (example_runtime B)"
    and "mo_payload_class_bytes (rt_tx_modem (example_runtime B)) = 128"
    and "rt_mtu (example_runtime B) = 500" and "rt_state (example_runtime B) = RTNC_RUNTIME_RX_IDLE"
    and "ra_radio_payload_class (rt_reassembly (example_runtime B)) = 128"
    and "ra_timeout_ms (rt_reassembly (example_runtime B)) = 1000"
    and "packet_items (rt_tx_queue (example_runtime B)) = []" and "packet_items (rt_rx_queue (example_runtime B)) = []"
    and "pq_capacity (rt_tx_queue (example_runtime B)) = 2" and "pq_capacity (rt_rx_queue (example_runtime B)) = 2"
    and "pq_mtu (rt_tx_queue (example_runtime B)) = 500"
    and "rt_stats (example_runtime B) = zero_stats" and "rt_busy_timeout_ms (example_runtime B) = 500"
    and "rt_busy_started_ms (example_runtime B) = 0"
proof -
  from example_init_profile obtain m where m: "rtnc_modem_init_profile example_liquid (example_modem FEC_LDPC_NORMAL)
      FEC_LDPC_NORMAL 128 rtnc_phy_profile_qpsk_1200 = (True, m)" "mo_payload_class_bytes m = 128" by blast
  have "\<exists>q. rtnc_packet_queue_init 2 500 = Some q" by (simp add: rtnc_packet_queue_init_def)
  then obtain q where q: "rtnc_packet_queue_init 2 500 = Some q" by blast
  obtain r where r: "rtnc_reassembly_init example_receiver (replicate RTNC_LINK_MAX_MTU 0) 500 128 1000 = (RTNC_FRAGMENT_OK, r)"
    by (simp add: rtnc_reassembly_init_def valid_payload_class_def)
  have rc: "ra_radio_payload_class r = 128" "ra_timeout_ms r = 1000" using reassembly_wf_init [OF r] by simp_all
  let ?i = "rtnc_runtime_init example_liquid (example_modem FEC_LDPC_NORMAL) example_receiver
      rtnc_phy_profile_qpsk_1200 FEC_LDPC_NORMAL 128 500 1000 2 2 500 100 identity_tx_config B"
  have "\<exists>rt. ?i = Some rt \<and> rt_tx_modem rt = m \<and> rt_mtu rt = 500 \<and> rt_state rt = RTNC_RUNTIME_RX_IDLE \<and>
      rt_reassembly rt = r \<and> rt_tx_queue rt = q \<and> rt_rx_queue rt = q \<and> rt_stats rt = zero_stats \<and>
      rt_busy_timeout_ms rt = 500 \<and> rt_busy_started_ms rt = 0"
    using m(1) q r by (simp add: rtnc_runtime_init_def identity_tx_config_def)
  then obtain rt where rt: "?i = Some rt" "rt_tx_modem rt = m" "rt_mtu rt = 500" "rt_state rt = RTNC_RUNTIME_RX_IDLE"
      "rt_reassembly rt = r" "rt_tx_queue rt = q" "rt_rx_queue rt = q" "rt_stats rt = zero_stats"
      "rt_busy_timeout_ms rt = 500" "rt_busy_started_ms rt = 0" by blast
  then have e: "example_runtime B = rt" by (simp add: example_runtime_def)
  note s = packet_queue_init_ok [OF q]
  show "?i = Some (example_runtime B)" "mo_payload_class_bytes (rt_tx_modem (example_runtime B)) = 128"
    "rt_mtu (example_runtime B) = 500" "rt_state (example_runtime B) = RTNC_RUNTIME_RX_IDLE"
    "ra_radio_payload_class (rt_reassembly (example_runtime B)) = 128"
    "ra_timeout_ms (rt_reassembly (example_runtime B)) = 1000"
    "packet_items (rt_tx_queue (example_runtime B)) = []" "packet_items (rt_rx_queue (example_runtime B)) = []"
    "pq_capacity (rt_tx_queue (example_runtime B)) = 2" "pq_capacity (rt_rx_queue (example_runtime B)) = 2"
    "pq_mtu (rt_tx_queue (example_runtime B)) = 500"
    "rt_stats (example_runtime B) = zero_stats" "rt_busy_timeout_ms (example_runtime B) = 500"
    "rt_busy_started_ms (example_runtime B) = 0"
    using rt e m(2) rc s by simp_all
qed

lemma example_runtime_wf: "runtime_wf (example_runtime B) \<and> rt_backend (example_runtime B) = B"
  by (rule init_wf [OF example_runtime_init])

text \<open>
  Two backends: the example card and line, and one whose channel is always busy at time 5000.
\<close>

definition example_backend :: "(nat \<times> s16 list) alsa_context rtnc_runtime_backend" where
  "example_backend = rtnc_alsa_runtime_backend example_alsa example_gpio_card example_posix"

definition example_context :: "(nat \<times> s16 list) alsa_context" where
  "example_context = \<lparr> ax_audio = Some example_card, ax_ptt = example_ptt, ax_channel_busy = None, ax_world = (1, []) \<rparr>"

definition busy_backend :: "unit rtnc_runtime_backend" where
  "busy_backend = \<lparr> rb_set_ptt = \<lambda>on s. Some (True, s), rb_send_audio = \<lambda>samples s. Some (True, s),
     rb_wait_audio = \<lambda>s. Some (True, s), rb_channel_busy = Some (\<lambda>s. Some (True, s)),
     rb_sleep_ms = \<lambda>ms s. Some (True, s), rb_now_ms = \<lambda>s. Some (5000, s) \<rparr>"

lemma example_submit_any:
  assumes p: "0 < length p" "length p \<le> 500"
  shows "\<exists>rt. rtnc_runtime_submit_packet (example_runtime B) p = (RTNC_RUNTIME_OK, rt) \<and>
     packet_items (rt_tx_queue rt) = [(p, rt_next_tx_sequence (example_runtime B))] \<and> runtime_wf rt \<and>
     mo_payload_class_bytes (rt_tx_modem rt) = 128 \<and> rt_backend rt = B \<and> rt_busy_started_ms rt = 0 \<and> rt_busy_timeout_ms rt = 500 \<and> rt_stats rt = zero_stats"
proof -
  note e = example_runtime [of B] example_runtime_wf [of B]
  let ?n = "rt_next_tx_sequence (example_runtime B)"
  have wf: "packet_queue_wf (rt_tx_queue (example_runtime B))" "rt_initialized (example_runtime B)"
    using e by (simp_all add: runtime_wf_def)
  obtain ok q where push: "rtnc_packet_queue_push (rt_tx_queue (example_runtime B)) p ?n = (ok, q)" by fastforce
  have "packet_fits (rt_tx_queue (example_runtime B)) (p, ?n)" using e p by (simp add: packet_fits_def)
  from packet_push_room [OF wf(1) this] push e have q: "ok" "packet_items q = [(p, ?n)]" by auto
  have frames: "rtnc_fragment_count (length p) 128 \<noteq> 0"
  proof -
    have "127 div 127 \<le> (length p + 126) div 127" "(length p + 126) div 127 \<le> 626 div 127"
      using div_le_mono [of 127 "length p + 126" 127] div_le_mono [of "length p + 126" 626 127] p by linarith+
    then show ?thesis using p by (simp add: rtnc_fragment_count_def valid_payload_class_def Let_def)
  qed
  obtain rt where rt: "rtnc_runtime_submit_packet (example_runtime B) p = (RTNC_RUNTIME_OK, rt)"
      "rt_tx_queue rt = q" "rt_busy_started_ms rt = 0" "rt_busy_timeout_ms rt = 500" "rt_stats rt = zero_stats"
      "rt_tx_modem rt = rt_tx_modem (example_runtime B)"
    using push q wf(2) e p frames by (simp add: rtnc_runtime_submit_packet_def)
  with submit_wf [OF _ rt(1)] e q(2) show ?thesis by simp
qed

lemma example_submit:
  "\<exists>rt. rtnc_runtime_submit_packet (example_runtime B) [1, 2, 3] = (RTNC_RUNTIME_OK, rt) \<and>
     packet_items (rt_tx_queue rt) = [([1, 2, 3], rt_next_tx_sequence (example_runtime B))] \<and> runtime_wf rt \<and>
     rt_backend rt = B \<and> rt_busy_started_ms rt = 0 \<and> rt_busy_timeout_ms rt = 500 \<and> rt_stats rt = zero_stats"
  using example_submit_any [of "[1, 2, 3]" B] by auto

text \<open>A free channel and a card that plays one frame and then fails; the state tells whether it has.\<close>

definition one_frame_backend :: "bool rtnc_runtime_backend" where
  "one_frame_backend = \<lparr> rb_set_ptt = \<lambda>on s. Some (True, s), rb_send_audio = \<lambda>samples s. Some (\<not> s, True),
     rb_wait_audio = \<lambda>s. Some (True, s), rb_channel_busy = None,
     rb_sleep_ms = \<lambda>ms s. Some (True, s), rb_now_ms = \<lambda>s. Some (5000, s) \<rparr>"

lemma one_frame: "counts_sent one_frame_backend of_bool" "backend_returns one_frame_backend"
  by (auto simp: counts_sent_def backend_returns_def one_frame_backend_def)

lemma example_returns:
  "finitely_interrupted example_alsa fst" "finitely_signalled example_posix (\<lambda>w. 0)"
  by (auto simp: finitely_interrupted_def finitely_signalled_def example_alsa_def example_posix_def split: if_splits)

lemma example_run:
  "\<exists>rt status rt' final. rtnc_runtime_submit_packet (example_runtime example_backend) [1, 2, 3] = (RTNC_RUNTIME_OK, rt) \<and>
     rtnc_runtime_transmit_next example_liquid rt example_context = Some (status, rt', final) \<and>
     runtime_history example_liquid (example_runtime example_backend, example_context) (rt', final)"
proof -
  from example_submit [of example_backend] obtain rt where
    rt: "rtnc_runtime_submit_packet (example_runtime example_backend) [1, 2, 3] = (RTNC_RUNTIME_OK, rt)"
      "rt_backend rt = example_backend" by blast
  have "rtnc_runtime_transmit_next example_liquid rt example_context \<noteq> None"
    by (rule transmit_next_returns) (unfold rt(2) example_backend_def, rule alsa_backend_returns [OF example_returns])
  from Some_triple [OF this] obtain status rt' final where
    t: "rtnc_runtime_transmit_next example_liquid rt example_context = Some (status, rt', final)" by blast
  have "runtime_history example_liquid (example_runtime example_backend, example_context) (rt, example_context)"
    by (rule r_into_rtranclp) (rule runtime_step.submit [OF rt(1)])
  then have "runtime_history example_liquid (example_runtime example_backend, example_context) (rt', final)"
    by (rule rtranclp.rtrancl_into_rtrancl) (rule runtime_step.transmit [OF t])
  with rt(1) t show ?thesis by blast
qed

theorem runtime_never_left_keyed_witness:
  "\<exists>rt status rt' final. rtnc_runtime_submit_packet (example_runtime example_backend) [1, 2, 3] = (RTNC_RUNTIME_OK, rt) \<and>
     rtnc_runtime_transmit_next example_liquid rt example_context = Some (status, rt', final) \<and>
     \<not> rtnc_ptt_is_enabled (ax_ptt final)"
proof -
  from example_run obtain rt status rt' final where
    r: "rtnc_runtime_submit_packet (example_runtime example_backend) [1, 2, 3] = (RTNC_RUNTIME_OK, rt)"
      "rtnc_runtime_transmit_next example_liquid rt example_context = Some (status, rt', final)"
      "runtime_history example_liquid (example_runtime example_backend, example_context) (rt', final)" by blast
  have "\<not> rtnc_ptt_is_enabled (ax_ptt final)"
    by (rule runtime_never_left_keyed [OF example_runtime_init [of example_backend, unfolded example_backend_def]
          _ _ _ r(3) [unfolded example_backend_def]])
      (simp_all add: example_context_def example_ptt_def rtnc_ptt_is_enabled_def example_gpio_card_def)
  with r(1,2) show ?thesis by blast
qed

theorem runtime_invariant_witness:
  "\<exists>rt status rt' final. rtnc_runtime_submit_packet (example_runtime example_backend) [1, 2, 3] = (RTNC_RUNTIME_OK, rt) \<and>
     rtnc_runtime_transmit_next example_liquid rt example_context = Some (status, rt', final) \<and> runtime_wf rt'"
proof -
  from example_run obtain rt status rt' final where
    r: "rtnc_runtime_submit_packet (example_runtime example_backend) [1, 2, 3] = (RTNC_RUNTIME_OK, rt)"
      "rtnc_runtime_transmit_next example_liquid rt example_context = Some (status, rt', final)"
      "runtime_history example_liquid (example_runtime example_backend, example_context) (rt', final)" by blast
  have "runtime_wf rt'" by (rule runtime_invariant [OF example_runtime_init r(3)])
  with r(1,2) show ?thesis by blast
qed

theorem runtime_transmit_returns_witness:
  "rtnc_runtime_transmit_next example_liquid (example_runtime example_backend) example_context \<noteq> None"
  by (rule runtime_transmit_returns [OF example_returns])
    (use example_runtime_wf [of example_backend] in \<open>simp add: example_backend_def\<close>)

theorem runtime_transmit_accounts_witness:
  "\<exists>rt status rt' played. map fst (packet_items (rt_tx_queue rt)) = [replicate 200 7] \<and>
     rtnc_runtime_transmit_next example_liquid rt False = Some (status, rt', played) \<and>
     status \<noteq> RTNC_RUNTIME_OK \<and> st_tx_frames (rt_stats rt') = of_bool played"
proof -
  have "0 < length (replicate 200 (7 :: u8))" "length (replicate 200 (7 :: u8)) \<le> 500" by simp_all
  from example_submit_any [OF this, of one_frame_backend] obtain rt :: "(unit, bool) rtnc_runtime" where
    rt: "packet_items (rt_tx_queue rt) = [(replicate 200 7, rt_next_tx_sequence (example_runtime one_frame_backend))]" "runtime_wf rt"
      "rt_backend rt = one_frame_backend" "rt_stats rt = zero_stats" "mo_payload_class_bytes (rt_tx_modem rt) = 128" by blast
  have wf: "packet_queue_wf (rt_tx_queue rt)" "rt_initialized rt" using rt(2) by (simp_all add: runtime_wf_def)
  have "rtnc_runtime_transmit_next example_liquid rt False \<noteq> None"
    by (rule transmit_next_returns) (simp add: rt(3) one_frame(2))
  from Some_triple [OF this] obtain status rt' played where
    t: "rtnc_runtime_transmit_next example_liquid rt False = Some (status, rt', played)" by blast
  have frames: "packet_frames rt (replicate 200 7) = 2"
    by (simp add: packet_frames_def rt(5) rtnc_fragment_count_def valid_payload_class_def)
  have old: "st_tx_frames (rt_stats rt) = 0" by (simp add: rt(4) zero_stats_def)
  from runtime_transmit_accounts [OF wf t] obtain k where
    k: "\<forall>sent. counts_sent one_frame_backend sent \<longrightarrow> sent played = sent False + k"
      "if status = RTNC_RUNTIME_BUSY then k = 0 \<and> rt_stats rt' = rt_stats rt
       else accounted rt (replicate 200 7) k status (rt_stats rt')"
    unfolding rt(1,3) by (auto split: if_splits)
  from k(1) one_frame(1) have count: "k = of_bool played" by fastforce
  then have "k \<noteq> 2" by (cases played) simp_all
  with k(2) have "status \<noteq> RTNC_RUNTIME_OK" by (auto simp: accounted_def frames Let_def)
  moreover have "st_tx_frames (rt_stats rt') = of_nat k"
    using k(2) old by (auto simp: accounted_def Let_def split: if_splits rtnc_runtime_status.splits)
  ultimately show ?thesis using rt(1) t count by (intro exI [of _ rt] exI [of _ status] exI [of _ rt'] exI [of _ played]) simp
qed

theorem runtime_delivers_witness:
  "\<exists>rt'. accept_all (example_runtime busy_backend) (zip (fragments (replicate 200 7) 128) [5, 9]) =
     ([RTNC_RUNTIME_RX_INCOMPLETE, RTNC_RUNTIME_OK], rt') \<and> map fst (packet_items (rt_rx_queue rt')) = [replicate 200 7]"
proof -
  note e = example_runtime [of busy_backend] example_runtime_wf [of busy_backend]
  have "\<exists>rt'. accept_all (example_runtime busy_backend) (zip (fragments (replicate 200 7) 128) (5 # [9])) =
      (replicate (length [9 :: u64]) RTNC_RUNTIME_RX_INCOMPLETE @ [RTNC_RUNTIME_OK], rt') \<and>
      delivered (example_runtime busy_backend) (replicate 200 7) rt'"
    by (rule runtime_delivers)
      (use e in \<open>simp_all add: rtnc_fragment_count_def valid_payload_class_def\<close>)
  with e show ?thesis by (auto simp: delivered_def)
qed

theorem runtime_rejects_while_waiting_witness:
  "\<exists>rt rt' s'. rtnc_runtime_submit_packet (example_runtime busy_backend) [1, 2, 3] = (RTNC_RUNTIME_OK, rt) \<and>
     rtnc_runtime_transmit_next example_liquid rt () = Some (RTNC_RUNTIME_BUSY, rt', s') \<and>
     rtnc_runtime_accept_fragment rt' [0, 9] 5001 = (RTNC_RUNTIME_RX_REJECTED, rt')"
proof -
  from example_submit [of busy_backend] obtain rt where
    rt: "rtnc_runtime_submit_packet (example_runtime busy_backend) [1, 2, 3] = (RTNC_RUNTIME_OK, rt)"
      "packet_items (rt_tx_queue rt) = [([1, 2, 3], rt_next_tx_sequence (example_runtime busy_backend))]" "runtime_wf rt"
      "rt_backend rt = busy_backend" "rt_busy_timeout_ms rt = 500" "rt_busy_started_ms rt = 0" by blast
  have wf: "packet_queue_wf (rt_tx_queue rt)" "rt_initialized rt" using rt(3) by (simp_all add: runtime_wf_def)
  have "\<exists>rt' s'. rtnc_runtime_transmit_next example_liquid rt () = Some (RTNC_RUNTIME_BUSY, rt', s')"
    using packet_peek_head [OF wf(1) rt(2)] wf(2) rt(4-6)
    by (auto simp: rtnc_runtime_transmit_next_def busy_backend_def channel_is_busy_def wait_for_channel_def
        set_state_def Let_def)
  then obtain rt' s' where t: "rtnc_runtime_transmit_next example_liquid rt () = Some (RTNC_RUNTIME_BUSY, rt', s')" by blast
  have "rt_state rt = RTNC_RUNTIME_TX_WAIT_BUSY \<or>
      (\<exists>now u v. rb_now_ms (rt_backend rt) () = Some (now, u) \<and> channel_is_busy rt u = Some (True, v))"
    by (simp add: rt(4) channel_is_busy_def busy_backend_def)
  from runtime_rejects_while_waiting [OF t wf(2) this] rt(1) t show ?thesis by blast
qed

end
