(* ===== verification/BurstDetector.thy ===== *)
theory BurstDetector
  imports Fp ModemTypes "HOL-Library.Sublist"
begin

text \<open>
  The burst detector of \<^verbatim>\<open>platform/burst_detector.c\<close>: it follows the channel power against a noise floor,
  opens a candidate that starts with the last samples before the trigger, and hands the candidate out when the
  burst ends.  Powers and ratios are \<open>fp\<close>, because nothing keeps a NaN out of them; audio samples are reals;
  \<^verbatim>\<open>size_t\<close> counters are naturals.
\<close>

definition RTNC_BURST_MAX_PRETRIGGER_SAMPLES :: nat where [simp]: "RTNC_BURST_MAX_PRETRIGGER_SAMPLES = 12000"

record rtnc_burst_detector_config =
  bc_warmup_samples :: nat
  bc_pretrigger_samples :: nat
  bc_release_samples :: nat
  bc_cooldown_samples :: nat
  bc_noise_attack_alpha :: fp
  bc_noise_release_alpha :: fp
  bc_signal_alpha :: fp
  bc_trigger_ratio :: fp
  bc_release_ratio :: fp
  bc_impulse_limit_ratio :: fp
  bc_maximum_active_samples :: nat
  bc_capture_samples :: nat
  bc_energy_trigger_enabled :: bool
  bc_external_trigger_requires_energy :: bool

record rtnc_burst_detector =
  bd_config :: rtnc_burst_detector_config
  bd_pretrigger :: "real list"
  bd_candidate :: "real list"
  bd_pretrigger_count :: nat
  bd_pretrigger_write :: nat
  bd_candidate_count :: nat
  bd_quiet_samples :: nat
  bd_cooldown_samples :: nat
  bd_samples_seen :: u64
  bd_detected_bursts :: u64
  bd_noise_power :: fp
  bd_signal_power :: fp
  bd_active :: bool

definition rtnc_burst_detector_default_config :: rtnc_burst_detector_config where
  "rtnc_burst_detector_default_config =
    \<lparr> bc_warmup_samples = 24000, bc_pretrigger_samples = 4800, bc_release_samples = 2400, bc_cooldown_samples = 4800,
      bc_noise_attack_alpha = Fin (2 / 10000), bc_noise_release_alpha = Fin (2 / 10000), bc_signal_alpha = Fin (2 / 100),
      bc_trigger_ratio = Fin 4, bc_release_ratio = Fin (18 / 10), bc_impulse_limit_ratio = Fin 20,
      bc_maximum_active_samples = RTNC_MODEM_MAX_AUDIO_SAMPLES, bc_capture_samples = 0,
      bc_energy_trigger_enabled = True, bc_external_trigger_requires_energy = False \<rparr>"

definition burst_config_ok :: "rtnc_burst_detector_config \<Rightarrow> bool" where
  \<comment> \<open>the test of \<^verbatim>\<open>rtnc_burst_detector_init\<close>\<close>
  "burst_config_ok config \<longleftrightarrow>
    \<not> (bc_warmup_samples config = 0 \<or> bc_pretrigger_samples config = 0 \<or>
       bc_pretrigger_samples config > RTNC_BURST_MAX_PRETRIGGER_SAMPLES \<or> bc_release_samples config = 0 \<or>
       bc_noise_attack_alpha config \<le> Fin 0 \<or> bc_noise_attack_alpha config > Fin 1 \<or>
       bc_noise_release_alpha config \<le> Fin 0 \<or> bc_noise_release_alpha config > Fin 1 \<or>
       bc_signal_alpha config \<le> Fin 0 \<or> bc_signal_alpha config > Fin 1 \<or>
       bc_trigger_ratio config \<le> Fin 1 \<or> bc_release_ratio config \<le> Fin 1 \<or>
       bc_release_ratio config \<ge> bc_trigger_ratio config \<or>
       (bc_energy_trigger_enabled config \<and> bc_impulse_limit_ratio config \<le> bc_trigger_ratio config) \<or>
       bc_maximum_active_samples config = 0 \<or> bc_maximum_active_samples config > RTNC_MODEM_MAX_AUDIO_SAMPLES \<or>
       bc_capture_samples config > bc_maximum_active_samples config)"

definition rtnc_burst_detector_init :: "rtnc_burst_detector_config \<Rightarrow> rtnc_burst_detector option" where
  "rtnc_burst_detector_init config =
    (if \<not> burst_config_ok config then None
     else Some \<lparr> bd_config = config, bd_pretrigger = replicate RTNC_BURST_MAX_PRETRIGGER_SAMPLES 0,
       bd_candidate = replicate RTNC_MODEM_MAX_AUDIO_SAMPLES 0, bd_pretrigger_count = 0, bd_pretrigger_write = 0,
       bd_candidate_count = 0, bd_quiet_samples = 0, bd_cooldown_samples = 0, bd_samples_seen = 0,
       bd_detected_bursts = 0, bd_noise_power = Fin 0, bd_signal_power = Fin 0, bd_active = False \<rparr>)"

section \<open>One sample\<close>

definition follow_noise :: "rtnc_burst_detector \<Rightarrow> fp \<Rightarrow> rtnc_burst_detector" where
  \<comment> \<open>the noise floor, with impulses limited\<close>
  "follow_noise detector channel_power =
    (let config = bd_config detector;
         noise = bd_noise_power detector;
         limited_power = (if noise > Fin 0 \<and> channel_power > noise * bc_impulse_limit_ratio config
           then noise * bc_impulse_limit_ratio config else channel_power);
         alpha = (if limited_power > noise then bc_noise_attack_alpha config else bc_noise_release_alpha config)
     in detector \<lparr> bd_noise_power := noise + alpha * (limited_power - noise) \<rparr>)"

definition follow_power :: "rtnc_burst_detector \<Rightarrow> fp \<Rightarrow> rtnc_burst_detector" where
  "follow_power detector channel_power =
    (let config = bd_config detector
     in if bd_samples_seen detector = 1
        then detector \<lparr> bd_noise_power := channel_power, bd_signal_power := channel_power \<rparr>
        else let detector = detector \<lparr> bd_signal_power := bd_signal_power detector +
                   bc_signal_alpha config * (channel_power - bd_signal_power detector) \<rparr>
             in if \<not> bd_active detector \<and> bd_cooldown_samples detector = 0 \<and>
                   (\<not> bc_external_trigger_requires_energy config \<or>
                    bd_signal_power detector \<le> bd_noise_power detector * bc_release_ratio config)
                then follow_noise detector channel_power else detector)"

definition triggered :: "rtnc_burst_detector \<Rightarrow> bool \<Rightarrow> bool" where
  "triggered detector external_trigger \<longleftrightarrow>
    (let config = bd_config detector
     in (external_trigger \<and> (\<not> bc_external_trigger_requires_energy config \<or>
           bd_signal_power detector > bd_noise_power detector * bc_release_ratio config)) \<or>
        (bc_energy_trigger_enabled config \<and>
           bd_signal_power detector > bd_noise_power detector * bc_trigger_ratio config))"

definition pretrigger_audio :: "rtnc_burst_detector \<Rightarrow> real list" where
  \<comment> \<open>the ring from its oldest sample\<close>
  "pretrigger_audio detector =
    (let size = bc_pretrigger_samples (bd_config detector)
     in map (\<lambda>index. bd_pretrigger detector !
          ((bd_pretrigger_write detector + size - bd_pretrigger_count detector + index) mod size))
        [0..<bd_pretrigger_count detector])"

definition open_or_cool :: "rtnc_burst_detector \<Rightarrow> bool \<Rightarrow> rtnc_burst_detector" where
  "open_or_cool detector external_trigger =
    (if \<not> bd_active detector \<and> bd_cooldown_samples detector > 0
     then detector \<lparr> bd_cooldown_samples := bd_cooldown_samples detector - 1 \<rparr>
     else if \<not> bd_active detector \<and> unat (bd_samples_seen detector) \<ge> bc_warmup_samples (bd_config detector) \<and>
             triggered detector external_trigger
     then detector \<lparr> bd_candidate := buf_write (bd_candidate detector) 0 (pretrigger_audio detector),
            bd_candidate_count := bd_pretrigger_count detector, bd_active := True, bd_quiet_samples := 0,
            bd_detected_bursts := bd_detected_bursts detector + 1 \<rparr>
     else detector)"

definition collect :: "rtnc_burst_detector \<Rightarrow> real \<Rightarrow> bool \<times> rtnc_burst_detector" where
  \<comment> \<open>while active: store the sample, and whether the burst ends here\<close>
  "collect detector audio_sample =
    (let config = bd_config detector;
         detector = (if bd_candidate_count detector < RTNC_MODEM_MAX_AUDIO_SAMPLES
           then detector \<lparr> bd_candidate := (bd_candidate detector)[bd_candidate_count detector := audio_sample],
                  bd_candidate_count := bd_candidate_count detector + 1 \<rparr> else detector);
         detector = detector \<lparr> bd_quiet_samples :=
           (if bd_signal_power detector < bd_noise_power detector * bc_release_ratio config
            then bd_quiet_samples detector + 1 else 0) \<rparr>
     in ((bc_capture_samples config > 0 \<and> bd_candidate_count detector \<ge> bc_capture_samples config) \<or>
         (bc_capture_samples config = 0 \<and> bd_quiet_samples detector \<ge> bc_release_samples config) \<or>
         bd_candidate_count detector \<ge> bc_maximum_active_samples config, detector))"

definition remember :: "rtnc_burst_detector \<Rightarrow> real \<Rightarrow> rtnc_burst_detector" where
  "remember detector audio_sample =
    (let size = bc_pretrigger_samples (bd_config detector)
     in detector \<lparr> bd_pretrigger := (bd_pretrigger detector)[bd_pretrigger_write detector := audio_sample],
          bd_pretrigger_write := (bd_pretrigger_write detector + 1) mod size,
          bd_pretrigger_count := (if bd_pretrigger_count detector < size then bd_pretrigger_count detector + 1
            else bd_pretrigger_count detector) \<rparr>)"

definition rtnc_burst_detector_process_triggered ::
    "rtnc_burst_detector \<Rightarrow> fp \<Rightarrow> real \<Rightarrow> bool \<Rightarrow> real list option \<times> rtnc_burst_detector" where
  \<comment> \<open>the candidate where the code returns true\<close>
  "rtnc_burst_detector_process_triggered detector channel_power audio_sample external_trigger =
    (if channel_power < Fin 0 then (None, detector)
     else
       let detector = detector \<lparr> bd_samples_seen := bd_samples_seen detector + 1 \<rparr>;
           detector = open_or_cool (follow_power detector channel_power) external_trigger;
           (finished, detector) = (if bd_active detector then collect detector audio_sample else (False, detector));
           detector = remember detector audio_sample
       in if finished
          then (Some (take (bd_candidate_count detector) (bd_candidate detector)),
                detector \<lparr> bd_active := False, bd_candidate_count := 0, bd_quiet_samples := 0,
                  bd_cooldown_samples := bc_cooldown_samples (bd_config detector) \<rparr>)
          else (None, detector))"

definition rtnc_burst_detector_process ::
    "rtnc_burst_detector \<Rightarrow> fp \<Rightarrow> real \<Rightarrow> real list option \<times> rtnc_burst_detector" where
  "rtnc_burst_detector_process detector channel_power audio_sample =
    rtnc_burst_detector_process_triggered detector channel_power audio_sample False"

section \<open>What the buffers hold\<close>

text \<open>
  The ghost argument \<open>h\<close> is the audio consumed so far.
\<close>

definition burst_ring :: "rtnc_burst_detector \<Rightarrow> real list \<Rightarrow> bool" where
  "burst_ring d h \<longleftrightarrow> (let size = bc_pretrigger_samples (bd_config d); n = length h in
    length (bd_pretrigger d) = RTNC_BURST_MAX_PRETRIGGER_SAMPLES \<and> bd_pretrigger_write d = n mod size \<and>
    bd_pretrigger_count d = min n size \<and>
    (\<forall>j < n. n - bd_pretrigger_count d \<le> j \<longrightarrow> bd_pretrigger d ! (j mod size) = h ! j))"

definition burst_wf :: "rtnc_burst_detector \<Rightarrow> real list \<Rightarrow> bool" where
  "burst_wf d h \<longleftrightarrow> burst_config_ok (bd_config d) \<and> burst_ring d h \<and>
    length (bd_candidate d) = RTNC_MODEM_MAX_AUDIO_SAMPLES \<and>
    (bd_active d \<longrightarrow> bd_candidate_count d \<le> length h \<and>
       bd_candidate_count d < bc_maximum_active_samples (bd_config d) \<and>
       take (bd_candidate_count d) (bd_candidate d) = drop (length h - bd_candidate_count d) h)"

lemma burst_config_bounds:
  assumes "burst_config_ok config"
  shows "0 < bc_pretrigger_samples config" "bc_pretrigger_samples config \<le> 12000"
    "0 < bc_maximum_active_samples config" "bc_maximum_active_samples config \<le> 90000"
  using assms by (auto simp: burst_config_ok_def)

lemma mod_apart: "j < n \<Longrightarrow> n - j < m \<Longrightarrow> j mod m \<noteq> n mod (m :: nat)"
  using mod_eq_dvd_iff_nat [of j n m] by (auto dest: dvd_imp_le)

lemma pretrigger_audio_eq:
  assumes "burst_ring d h" "0 < bc_pretrigger_samples (bd_config d)"
  shows "pretrigger_audio d = drop (length h - bd_pretrigger_count d) h"
proof (rule nth_equalityI)
  let ?p = "bc_pretrigger_samples (bd_config d)" and ?c = "bd_pretrigger_count d"
  have c: "?c \<le> length h" "?c \<le> ?p" using assms(1) by (simp_all add: burst_ring_def Let_def)
  then show "length (pretrigger_audio d) = length (drop (length h - ?c) h)" by (simp add: pretrigger_audio_def Let_def)
  fix i assume "i < length (pretrigger_audio d)"
  then have i: "i < ?c" by (simp add: pretrigger_audio_def Let_def)
  have "length h mod ?p + ?p - ?c + i = length h mod ?p + (?p - ?c + i)" using c by linarith
  then have "(length h mod ?p + ?p - ?c + i) mod ?p = (length h mod ?p + (?p - ?c + i)) mod ?p" by (rule arg_cong)
  also have "\<dots> = (length h + (?p - ?c + i)) mod ?p" by (rule mod_add_left_eq)
  also have "length h + (?p - ?c + i) = (length h - ?c + i) + ?p" using c by simp
  finally have "(length h mod ?p + ?p - ?c + i) mod ?p = (length h - ?c + i) mod ?p" by simp
  moreover have "pretrigger_audio d ! i = bd_pretrigger d ! ((length h mod ?p + ?p - ?c + i) mod ?p)"
    using i assms(1) by (simp add: pretrigger_audio_def burst_ring_def Let_def)
  moreover have "length h - ?c + i < length h" "length h - ?c \<le> length h - ?c + i" using c i by simp_all
  then have "bd_pretrigger d ! ((length h - ?c + i) mod ?p) = h ! (length h - ?c + i)"
    using assms(1) unfolding burst_ring_def Let_def by blast
  ultimately show "pretrigger_audio d ! i = drop (length h - ?c) h ! i" using c i by (simp only: nth_drop)
qed

lemma remember_ring:
  assumes "burst_ring d h" "0 < bc_pretrigger_samples (bd_config d)" "bc_pretrigger_samples (bd_config d) \<le> 12000"
  shows "burst_ring (remember d x) (h @ [x])"
proof -
  let ?p = "bc_pretrigger_samples (bd_config d)" and ?n = "length h"
  have r: "length (bd_pretrigger d) = 12000" "bd_pretrigger_write d = ?n mod ?p" "bd_pretrigger_count d = min ?n ?p"
    "\<And>j. j < ?n \<Longrightarrow> ?n - min ?n ?p \<le> j \<Longrightarrow> bd_pretrigger d ! (j mod ?p) = h ! j"
    using assms(1) by (auto simp: burst_ring_def Let_def)
  have w: "?n mod ?p < 12000" using assms(2,3) mod_less_divisor [of ?p ?n] by linarith
  have "(bd_pretrigger d)[?n mod ?p := x] ! (j mod ?p) = (h @ [x]) ! j"
    if "j < Suc ?n" "Suc ?n - min (Suc ?n) ?p \<le> j" for j
  proof (cases "j = ?n")
    case True
    then show ?thesis using w r(1) by simp
  next
    case False
    then have "j < ?n" "?n - j < ?p" "?n - min ?n ?p \<le> j" using that by (auto simp: min_def split: if_splits)
    with mod_apart [of j ?n ?p] r(4) [of j] show ?thesis by (simp add: nth_append)
  qed
  then show ?thesis using r(1-3) assms(2)
    by (auto simp: burst_ring_def remember_def Let_def min_def mod_Suc)
qed

lemma follow_power_sel [simp]:
  "bd_config (follow_power d p) = bd_config d" "bd_pretrigger (follow_power d p) = bd_pretrigger d"
  "bd_candidate (follow_power d p) = bd_candidate d" "bd_pretrigger_count (follow_power d p) = bd_pretrigger_count d"
  "bd_pretrigger_write (follow_power d p) = bd_pretrigger_write d" "bd_candidate_count (follow_power d p) = bd_candidate_count d"
  "bd_active (follow_power d p) = bd_active d" "bd_cooldown_samples (follow_power d p) = bd_cooldown_samples d"
  "bd_samples_seen (follow_power d p) = bd_samples_seen d"
  by (simp_all add: follow_power_def follow_noise_def Let_def)

lemma open_or_cool_sel [simp]:
  "bd_config (open_or_cool d e) = bd_config d" "bd_pretrigger (open_or_cool d e) = bd_pretrigger d"
  "bd_pretrigger_count (open_or_cool d e) = bd_pretrigger_count d"
  "bd_pretrigger_write (open_or_cool d e) = bd_pretrigger_write d"
  "bd_signal_power (open_or_cool d e) = bd_signal_power d" "bd_samples_seen (open_or_cool d e) = bd_samples_seen d"
  by (simp_all add: open_or_cool_def)

lemma remember_sel [simp]:
  "bd_config (remember d x) = bd_config d" "bd_candidate (remember d x) = bd_candidate d"
  "bd_candidate_count (remember d x) = bd_candidate_count d" "bd_active (remember d x) = bd_active d"
  "bd_cooldown_samples (remember d x) = bd_cooldown_samples d" "bd_signal_power (remember d x) = bd_signal_power d"
  "bd_samples_seen (remember d x) = bd_samples_seen d"
  by (simp_all add: remember_def Let_def)

lemma collect_sel:
  assumes "collect d x = (finished, d')"
  shows "bd_config d' = bd_config d" "bd_pretrigger d' = bd_pretrigger d" "bd_pretrigger_count d' = bd_pretrigger_count d"
    "bd_pretrigger_write d' = bd_pretrigger_write d" "bd_active d' = bd_active d"
    "length (bd_candidate d') = length (bd_candidate d)" "bd_cooldown_samples d' = bd_cooldown_samples d"
    "bd_signal_power d' = bd_signal_power d" "bd_samples_seen d' = bd_samples_seen d"
proof -
  have "d' = snd (collect d x)" using assms by simp
  then show "bd_config d' = bd_config d" "bd_pretrigger d' = bd_pretrigger d" "bd_pretrigger_count d' = bd_pretrigger_count d"
    "bd_pretrigger_write d' = bd_pretrigger_write d" "bd_active d' = bd_active d"
    "length (bd_candidate d') = length (bd_candidate d)" "bd_cooldown_samples d' = bd_cooldown_samples d"
    "bd_signal_power d' = bd_signal_power d" "bd_samples_seen d' = bd_samples_seen d"
    by (simp_all add: collect_def Let_def)
qed

lemma open_or_cool_candidate:
  assumes "burst_wf d h" "bd_active (open_or_cool d e)"
  shows "length (bd_candidate (open_or_cool d e)) = 90000 \<and> bd_candidate_count (open_or_cool d e) \<le> length h \<and>
    bd_candidate_count (open_or_cool d e) < max (bc_maximum_active_samples (bd_config d)) (bc_pretrigger_samples (bd_config d) + 1) \<and>
    take (bd_candidate_count (open_or_cool d e)) (bd_candidate (open_or_cool d e)) =
      drop (length h - bd_candidate_count (open_or_cool d e)) h"
proof (cases "bd_active d")
  case True
  with assms(1) show ?thesis by (simp add: open_or_cool_def burst_wf_def less_max_iff_disj)
next
  case False
  note b = burst_config_bounds [of "bd_config d"]
  have w: "burst_config_ok (bd_config d)" "burst_ring d h" "length (bd_candidate d) = 90000"
    using assms(1) by (simp_all add: burst_wf_def)
  have p: "pretrigger_audio d = drop (length h - bd_pretrigger_count d) h"
    by (rule pretrigger_audio_eq [OF w(2)]) (use b w(1) in simp)
  have c: "bd_pretrigger_count d \<le> length h" "bd_pretrigger_count d \<le> bc_pretrigger_samples (bd_config d)"
    using w(2) by (simp_all add: burst_ring_def Let_def)
  have "length (pretrigger_audio d) = bd_pretrigger_count d" using p c by simp
  with False assms(2) p c w b(2) show ?thesis
    using take_buf_write_0 [of "pretrigger_audio d" "bd_candidate d"] length_buf_write [of 0 "pretrigger_audio d" "bd_candidate d"]
    by (auto simp: open_or_cool_def split: if_splits)
qed

lemma collect_candidate:
  assumes "collect d x = (finished, d')" and "length (bd_candidate d) = 90000" and "bd_candidate_count d \<le> length h"
    and "bd_candidate_count d < 90000"
    and "take (bd_candidate_count d) (bd_candidate d) = drop (length h - bd_candidate_count d) h"
  shows "bd_candidate_count d' = Suc (bd_candidate_count d) \<and>
    take (bd_candidate_count d') (bd_candidate d') = drop (length (h @ [x]) - bd_candidate_count d') (h @ [x]) \<and>
    (\<not> finished \<longrightarrow> bd_candidate_count d' < bc_maximum_active_samples (bd_config d))"
proof -
  let ?c = "bd_candidate_count d"
  have d': "d' = snd (collect d x)" "finished = fst (collect d x)" using assms(1) by simp_all
  have c: "bd_candidate_count d' = Suc ?c" "bd_candidate d' = (bd_candidate d)[?c := x]"
    using assms(4) by (simp_all add: d'(1) collect_def Let_def)
  have "take (Suc ?c) ((bd_candidate d)[?c := x]) = take ?c (bd_candidate d) @ [x]"
    using assms(2,4) by (simp add: take_Suc_conv_app_nth)
  moreover have "\<not> finished \<longrightarrow> bd_candidate_count d' < bc_maximum_active_samples (bd_config d)"
    using c(1) assms(4) by (auto simp: d'(2) collect_def Let_def)
  ultimately show ?thesis using c assms(3,5) by simp
qed

lemma process_cases:
  assumes p: "\<not> channel_power < Fin 0"
    and run: "rtnc_burst_detector_process_triggered d channel_power x e = (result, d')"
  obtains (idle) f where "f = follow_power (d \<lparr> bd_samples_seen := bd_samples_seen d + 1 \<rparr>) channel_power"
      "\<not> bd_active (open_or_cool f e)" "result = None" "d' = remember (open_or_cool f e) x"
  | (active) f finished c where "f = follow_power (d \<lparr> bd_samples_seen := bd_samples_seen d + 1 \<rparr>) channel_power"
      "bd_active (open_or_cool f e)" "collect (open_or_cool f e) x = (finished, c)"
      "result = (if finished then Some (take (bd_candidate_count c) (bd_candidate c)) else None)"
      "d' = (if finished then (remember c x) \<lparr> bd_active := False, bd_candidate_count := 0, bd_quiet_samples := 0,
         bd_cooldown_samples := bc_cooldown_samples (bd_config c) \<rparr> else remember c x)"
proof -
  define f where "f = follow_power (d \<lparr> bd_samples_seen := bd_samples_seen d + 1 \<rparr>) channel_power"
  obtain finished c where c: "(if bd_active (open_or_cool f e) then collect (open_or_cool f e) x else (False, open_or_cool f e)) =
      (finished, c)" by fastforce
  have r: "result = (if finished then Some (take (bd_candidate_count c) (bd_candidate c)) else None) \<and>
    d' = (if finished then (remember c x) \<lparr> bd_active := False, bd_candidate_count := 0, bd_quiet_samples := 0,
         bd_cooldown_samples := bc_cooldown_samples (bd_config c) \<rparr> else remember c x)"
    using run p c by (simp add: rtnc_burst_detector_process_triggered_def f_def [symmetric] Let_def split: if_splits)
  show thesis
  proof (cases "bd_active (open_or_cool f e)")
    case True
    with active [OF f_def True] c r show thesis by simp
  next
    case False
    with idle [OF f_def False] c r show thesis by simp
  qed
qed

lemma process_step:
  assumes wf: "burst_wf d h" and p: "\<not> channel_power < Fin 0"
    and run: "rtnc_burst_detector_process_triggered d channel_power x e = (result, d')"
  shows "burst_wf d' (h @ [x]) \<and> bd_config d' = bd_config d \<and>
    (case result of None \<Rightarrow> True | Some candidate \<Rightarrow> suffix candidate (h @ [x]) \<and> candidate \<noteq> [] \<and>
       length candidate \<le> max (bc_maximum_active_samples (bd_config d)) (bc_pretrigger_samples (bd_config d) + 1) \<and>
       \<not> bd_active d' \<and> bd_cooldown_samples d' = bc_cooldown_samples (bd_config d))"
  using p run
proof (cases rule: process_cases)
  case (idle f)
  have f: "burst_wf f h" "bd_config f = bd_config d" using wf by (simp_all add: idle(1) burst_wf_def burst_ring_def)
  let ?o = "open_or_cool f e"
  have "burst_ring ?o h" using f(1) by (simp add: burst_wf_def burst_ring_def)
  from remember_ring [OF this] burst_config_bounds(1,2) [of "bd_config d"] f wf
  have "burst_ring d' (h @ [x])" by (simp add: idle(4) burst_wf_def)
  moreover have "length (bd_candidate d') = 90000"
    using f(1) idle(2) burst_config_bounds(2) [of "bd_config f"]
    by (auto simp: idle(4) burst_wf_def open_or_cool_def split: if_splits)
  ultimately show ?thesis using idle(2-4) f wf by (simp add: burst_wf_def)
next
  case (active f finished c)
  have f: "burst_wf f h" "bd_config f = bd_config d" using wf by (simp_all add: active(1) burst_wf_def burst_ring_def)
  let ?o = "open_or_cool f e"
  note b = burst_config_bounds [of "bd_config d"]
  have ok: "burst_config_ok (bd_config d)" using wf by (simp add: burst_wf_def)
  note o' = open_or_cool_candidate [OF f(1) active(2)]
  have "bd_candidate_count ?o < 90000" using o' b [OF ok] f(2) by auto
  with collect_candidate [OF active(3), of h] o' have
    c: "bd_candidate_count c = Suc (bd_candidate_count ?o)"
      "take (bd_candidate_count c) (bd_candidate c) = drop (length (h @ [x]) - bd_candidate_count c) (h @ [x])"
      "\<not> finished \<Longrightarrow> bd_candidate_count c < bc_maximum_active_samples (bd_config d)" using f(2) by auto
  note s = collect_sel [OF active(3)]
  have "burst_ring ?o h" using f(1) by (simp add: burst_wf_def burst_ring_def)
  then have "burst_ring c h" using s by (simp add: burst_ring_def)
  from remember_ring [OF this, of x] b(1,2) [OF ok] s(1) f(2) have ring: "burst_ring (remember c x) (h @ [x])" by simp
  show ?thesis
  proof (cases finished)
    case True
    let ?n = "bd_candidate_count c"
    have "suffix (take ?n (bd_candidate c)) (h @ [x])" unfolding c(2) by (rule suffix_drop)
    moreover have "length (take ?n (bd_candidate c)) = ?n" using c(1) o' s(6) \<open>bd_candidate_count ?o < 90000\<close> by simp
    moreover have "burst_wf d' (h @ [x])"
      using ring ok s o' f True by (simp add: active(5) burst_wf_def burst_ring_def)
    ultimately show ?thesis using c(1) o' s f(2) True by (auto simp: active(4,5))
  next
    case False
    have "burst_wf d' (h @ [x])" using ring ok s o' f(2) c False by (simp add: active(5) burst_wf_def)
    then show ?thesis using False s(1) f(2) by (simp add: active(4,5))
  qed
qed

section \<open>A stream of samples\<close>

type_synonym burst_input = "fp \<times> real \<times> bool" \<comment> \<open>channel power, audio sample, external trigger\<close>

fun burst_feed :: "rtnc_burst_detector \<Rightarrow> burst_input list \<Rightarrow> real list option list \<times> rtnc_burst_detector" where
  "burst_feed d [] = ([], d)"
| "burst_feed d ((energy, x, e) # inputs) =
    (let (result, d) = rtnc_burst_detector_process_triggered d energy x e; (results, d) = burst_feed d inputs
     in (result # results, d))"

definition consumed :: "burst_input list \<Rightarrow> real list" where
  \<comment> \<open>the audio of the samples whose power the detector accepts\<close>
  "consumed inputs = map (\<lambda>(energy, x, e). x) (filter (\<lambda>(energy, x, e). \<not> energy < Fin 0) inputs)"

lemma burst_init_wf: "rtnc_burst_detector_init config = Some d \<Longrightarrow> burst_wf d [] \<and> bd_config d = config"
  by (auto simp: rtnc_burst_detector_init_def burst_wf_def burst_ring_def split: if_splits)

lemma feed_wf:
  "burst_feed d inputs = (results, d') \<Longrightarrow> burst_wf d h \<Longrightarrow> burst_wf d' (h @ consumed inputs) \<and> bd_config d' = bd_config d"
proof (induction inputs arbitrary: d h results)
  case (Cons y inputs)
  obtain energy x e where y: "y = (energy, x, e)" by (metis prod_cases3)
  obtain result d1 where p: "rtnc_burst_detector_process_triggered d energy x e = (result, d1)" by fastforce
  obtain rs where f: "burst_feed d1 inputs = (rs, d')" using Cons.prems(1) y p by (auto simp: Let_def split: prod.splits)
  show ?case
  proof (cases "energy < Fin 0")
    case True
    then have "d1 = d" using p by (simp add: rtnc_burst_detector_process_triggered_def)
    then show ?thesis using Cons.IH [OF f, of h] Cons.prems(2) True y by (simp add: consumed_def)
  next
    case False
    with Cons.IH [OF f, of "h @ [x]"] process_step [OF Cons.prems(2) False p] y show ?thesis by (simp add: consumed_def)
  qed
qed (simp add: consumed_def)

text \<open>
  C27: a candidate is a recording.  Whatever powers and triggers a detector has seen, a burst it hands out is a
  contiguous stretch of the audio it consumed, in order and up to the sample that ended it, not empty, no
  longer than the configured maximum (or the pretrigger and one sample, where that is more), and inside the
  buffer; and while a burst is open it has fewer samples than the maximum.
\<close>

theorem burst_is_recording:
  assumes "rtnc_burst_detector_init config = Some d0" and "burst_feed d0 inputs = (results, d)"
    and "rtnc_burst_detector_process_triggered d energy x e = (Some candidate, d')"
  shows "suffix candidate (consumed inputs @ [x]) \<and> candidate \<noteq> [] \<and>
    length candidate \<le> max (bc_maximum_active_samples config) (bc_pretrigger_samples config + 1) \<and>
    length candidate \<le> RTNC_MODEM_MAX_AUDIO_SAMPLES \<and>
    (bd_active d \<longrightarrow> bd_candidate_count d < bc_maximum_active_samples config)"
proof -
  have w: "burst_wf d (consumed inputs)" "bd_config d = config"
    using feed_wf [OF assms(2), of "[]"] burst_init_wf [OF assms(1)] by simp_all
  have "\<not> energy < Fin 0" using assms(3) by (auto simp: rtnc_burst_detector_process_triggered_def)
  note s = process_step [OF w(1) this assms(3)]
  have "burst_config_ok config" using w by (simp add: burst_wf_def)
  note b = burst_config_bounds [OF this]
  have "length candidate \<le> RTNC_MODEM_MAX_AUDIO_SAMPLES" using s w(2) b(2,4) by auto
  then show ?thesis using s w by (auto simp: burst_wf_def)
qed

lemma cooling_step:
  assumes "\<not> bd_active d" "0 < bd_cooldown_samples d"
    and "rtnc_burst_detector_process_triggered d energy x e = (result, d')"
  shows "result = None \<and> \<not> bd_active d' \<and> bd_cooldown_samples d - 1 \<le> bd_cooldown_samples d'"
proof (cases "energy < Fin 0")
  case False
  from False assms(3) show ?thesis
    by (cases rule: process_cases) (use assms(1,2) in \<open>auto simp: open_or_cool_def\<close>)
qed (use assms in \<open>auto simp: rtnc_burst_detector_process_triggered_def\<close>)

lemma cooling_feed:
  "\<not> bd_active d \<Longrightarrow> length inputs \<le> bd_cooldown_samples d \<Longrightarrow> burst_feed d inputs = (results, d') \<Longrightarrow>
   set results \<subseteq> {None} \<and> \<not> bd_active d'"
proof (induction inputs arbitrary: d results)
  case (Cons y inputs)
  obtain energy x e where y: "y = (energy, x, e)" by (metis prod_cases3)
  obtain result d1 where p: "rtnc_burst_detector_process_triggered d energy x e = (result, d1)" by fastforce
  obtain rs where f: "burst_feed d1 inputs = (rs, d')" "results = result # rs"
    using Cons.prems(3) y p by (auto simp: Let_def split: prod.splits)
  from cooling_step [OF Cons.prems(1) _ p] Cons.prems(2) have "result = None" "\<not> bd_active d1"
    "length inputs \<le> bd_cooldown_samples d1" by auto
  with Cons.IH [OF _ _ f(1)] f(2) show ?case by simp
qed simp

text \<open>
  after a burst the detector rests.  The next samples, as many as the configured cool-down and whatever
  their power or an external correlator says, neither open nor deliver a burst.
\<close>

lemma burst_cooldown:
  assumes "rtnc_burst_detector_init config = Some d0" and "burst_feed d0 inputs = (results, d)"
    and "rtnc_burst_detector_process_triggered d energy x e = (Some candidate, d1)"
    and "length rest \<le> bc_cooldown_samples config" and "burst_feed d1 rest = (later, d2)"
  shows "set later \<subseteq> {None} \<and> \<not> bd_active d2"
proof -
  have w: "burst_wf d (consumed inputs)" "bd_config d = config"
    using feed_wf [OF assms(2), of "[]"] burst_init_wf [OF assms(1)] by simp_all
  have "\<not> energy < Fin 0" using assms(3) by (auto simp: rtnc_burst_detector_process_triggered_def)
  from process_step [OF w(1) this assms(3)] have "\<not> bd_active d1" "length rest \<le> bd_cooldown_samples d1"
    using w(2) assms(4) by simp_all
  then show ?thesis by (rule cooling_feed [OF _ _ assms(5)])
qed

section \<open>A NaN is for ever\<close>

lemma fp_NaN [simp]: "x + NaN = NaN" "NaN - x = NaN" "x - NaN = NaN" "x * NaN = NaN"
  by (cases x; simp add: minus_fp_def)+

lemma nan_step:
  assumes "bd_signal_power d = NaN" "\<not> bd_active d" "bd_samples_seen d \<noteq> 0"
    and "rtnc_burst_detector_process_triggered d energy x False = (result, d')"
  shows "result = None \<and> bd_signal_power d' = NaN \<and> \<not> bd_active d' \<and>
    (bd_samples_seen d' = bd_samples_seen d \<or> bd_samples_seen d' = bd_samples_seen d + 1)"
proof (cases "energy < Fin 0")
  case False
  from False assms(4) show ?thesis
  proof (cases rule: process_cases)
    case (idle f)
    have "bd_signal_power f = NaN" using assms(1,3) by (simp add: idle(1) follow_power_def follow_noise_def Let_def)
    then show ?thesis using idle by (auto simp: remember_def open_or_cool_def Let_def)
  next
    case (active f finished c)
    have "bd_signal_power f = NaN" using assms(1,3) by (simp add: active(1) follow_power_def follow_noise_def Let_def)
    then have "\<not> triggered f False" by (simp add: triggered_def Let_def)
    moreover have "\<not> bd_active f" using assms(2) by (simp add: active(1))
    ultimately show ?thesis using active(2) by (simp add: open_or_cool_def split: if_splits)
  qed
qed (use assms in \<open>auto simp: rtnc_burst_detector_process_triggered_def\<close>)

lemma nan_feed:
  "bd_signal_power d = NaN \<Longrightarrow> \<not> bd_active d \<Longrightarrow> bd_samples_seen d \<noteq> 0 \<Longrightarrow>
   unat (bd_samples_seen d) + length inputs < 2 ^ 64 \<Longrightarrow> list_all (\<lambda>(energy, x, e). \<not> e) inputs \<Longrightarrow>
   burst_feed d inputs = (results, d') \<Longrightarrow> set results \<subseteq> {None} \<and> \<not> bd_active d'"
proof (induction inputs arbitrary: d results)
  case (Cons y inputs)
  obtain energy x where y: "y = (energy, x, False)" using Cons.prems(5) by (cases y) auto
  obtain result d1 where p: "rtnc_burst_detector_process_triggered d energy x False = (result, d1)" by fastforce
  obtain rs where f: "burst_feed d1 inputs = (rs, d')" "results = result # rs"
    using Cons.prems(6) y p by (auto simp: Let_def split: prod.splits)
  from nan_step [OF Cons.prems(1-3) p] have n: "result = None" "bd_signal_power d1 = NaN" "\<not> bd_active d1"
    "bd_samples_seen d1 = bd_samples_seen d \<or> bd_samples_seen d1 = bd_samples_seen d + 1" by auto
  have "unat (bd_samples_seen d + 1) = Suc (unat (bd_samples_seen d))" using Cons.prems(4) by (simp add: unat_word_ariths)
  then have "bd_samples_seen d1 \<noteq> 0" "unat (bd_samples_seen d1) + length inputs < 2 ^ 64"
    using n(4) Cons.prems(3,4) by auto
  with Cons.IH [OF n(2,3) _ _ _ f(1)] Cons.prems(5) n(1) f(2) show ?case by simp
qed simp

text \<open>
  one NaN among the channel powers makes the detector deaf.  If a NaN is consumed and no burst is open
  after it, no power whatsoever opens one again (within \<open>2 ^ 64\<close> samples); only an external correlator could.
\<close>

lemma burst_nan_deaf:
  assumes "rtnc_burst_detector_process_triggered d NaN x e = (result, d1)" and "\<not> bd_active d1"
    and "unat (bd_samples_seen d) + 1 + length rest < 2 ^ 64"
    and "list_all (\<lambda>(energy, x, e). \<not> e) rest" and "burst_feed d1 rest = (results, d2)"
  shows "set results \<subseteq> {None} \<and> \<not> bd_active d2"
proof -
  have nn: "\<not> NaN < Fin 0" by simp
  have "bd_signal_power d1 = NaN \<and> bd_samples_seen d1 = bd_samples_seen d + 1"
    using nn assms(1)
  proof (cases rule: process_cases)
    case (idle f)
    have "bd_signal_power f = NaN" by (simp add: idle(1) follow_power_def follow_noise_def Let_def)
    then show ?thesis by (simp add: idle(1,4))
  next
    case (active f finished c)
    have "bd_signal_power f = NaN" by (simp add: active(1) follow_power_def follow_noise_def Let_def)
    then show ?thesis using collect_sel(8,9) [OF active(3)] by (simp add: active(1,5))
  qed
  moreover have "unat (bd_samples_seen d + 1) = Suc (unat (bd_samples_seen d))" using assms(3) by (simp add: unat_word_ariths)
  then have "bd_samples_seen d + 1 \<noteq> 0" "unat (bd_samples_seen d + 1) + length rest < 2 ^ 64"
    using assms(3) by auto
  ultimately show ?thesis using nan_feed [OF _ assms(2) _ _ assms(4,5)] by simp
qed

text \<open>
  A small detector for examples: one sample of warm-up and release, two of pretrigger, two of cool-down, full
  weight for new powers of the signal.
\<close>

definition example_burst_config :: rtnc_burst_detector_config where
  "example_burst_config = rtnc_burst_detector_default_config \<lparr> bc_warmup_samples := 1, bc_pretrigger_samples := 2,
     bc_release_samples := 1, bc_cooldown_samples := 2, bc_signal_alpha := Fin 1 \<rparr>"

definition example_detector :: rtnc_burst_detector where
  "example_detector = the (rtnc_burst_detector_init example_burst_config)"

lemma example_detector: "rtnc_burst_detector_init example_burst_config = Some example_detector"
  by (simp add: example_detector_def rtnc_burst_detector_init_def burst_config_ok_def example_burst_config_def
    rtnc_burst_detector_default_config_def)

lemmas burst_evaluation = example_detector_def example_burst_config_def rtnc_burst_detector_default_config_def
  rtnc_burst_detector_init_def burst_config_ok_def rtnc_burst_detector_process_triggered_def follow_power_def follow_noise_def
  open_or_cool_def triggered_def pretrigger_audio_def collect_def remember_def buf_write_def Let_def

lemma example_burst:
  "\<exists>d candidate d'. burst_feed example_detector [(Fin 1, 7, False), (Fin 1, 8, False), (Fin 100, 9, False)] = ([None, None, None], d) \<and>
     rtnc_burst_detector_process_triggered d (Fin 1) 5 False = (Some candidate, d')"
  by (simp add: burst_evaluation)

theorem burst_is_recording_witness:
  "\<exists>d candidate d'. burst_feed example_detector [(Fin 1, 7, False), (Fin 1, 8, False), (Fin 100, 9, False)] = ([None, None, None], d) \<and>
     rtnc_burst_detector_process_triggered d (Fin 1) 5 False = (Some candidate, d') \<and>
     suffix candidate [7, 8, 9, 5] \<and> candidate \<noteq> []"
proof -
  from example_burst obtain d candidate d' where
    e: "burst_feed example_detector [(Fin 1, 7, False), (Fin 1, 8, False), (Fin 100, 9, False)] = ([None, None, None], d)"
      "rtnc_burst_detector_process_triggered d (Fin 1) 5 False = (Some candidate, d')" by blast
  have "consumed [(Fin 1, 7, False), (Fin 1, 8, False), (Fin 100, 9, False)] @ [5] = [7, 8, 9, 5]" by (simp add: consumed_def)
  with burst_is_recording [OF example_detector e] e show ?thesis by auto
qed

end
