(* ===== verification/Config.thy ===== *)
theory Config
  imports BurstDetector RuntimeFlow AudioRing DecodeQueue
begin

text \<open>
  Configuration (\<^verbatim>\<open>platform/config.c\<close>): the settings as \<^verbatim>\<open>libcyaml\<close> fills them in, their validation, and what
  is derived from them.  The numbers of the file that are C floats are \<open>fp\<close> here, as a YAML file can say
  \<^verbatim>\<open>.nan\<close> and \<^verbatim>\<open>.inf\<close>.  Required strings are lists of characters; the optional one is an option.  Loading and
  freeing the file itself is \<^verbatim>\<open>libcyaml\<close>'s: \<open>rtnc_platform_config_load\<close> takes what the parser returned.
\<close>

record rtnc_modem_config =
  mc_profile :: string
  mc_control_profile :: "string option"

record rtnc_phy_profile_config =
  pf_name :: string
  pf_modulation :: string
  pf_symbol_rate_baud :: u32
  pf_carrier_hz :: fp
  pf_rrc_rolloff :: fp
  pf_acquisition_threshold :: fp
  pf_training_threshold :: fp
  pf_detector_bandwidth_margin :: fp
  pf_fec_mode :: u8
  pf_payload_class_bytes :: u8

record loaded_tx_config =
  \<comment> \<open>\<open>rtnc_tx_config\<close> before its floats are known to be finite\<close>
  lt_lead_ms :: u16
  lt_tail_ms :: u16
  lt_filter_gain :: fp
  lt_response_eq_taps :: "fp list"

record rtnc_link_config =
  lk_mtu :: u16
  lk_reassembly_timeout_ms :: u32

record rtnc_worker_config =
  wc_dsp_queue_blocks :: u8
  wc_decode_queue_frames :: u8
  wc_equalizer_queue_frames :: u8
  wc_parallel_equalizer :: bool
  wc_equalizer_nice :: u8

record rtnc_detector_config =
  dc_warmup_ms :: u16
  dc_pretrigger_ms :: u16
  dc_cooldown_ms :: u16
  dc_noise_attack_ms :: u16
  dc_noise_release_ms :: u16
  dc_signal_attack_ms :: u16
  dc_maximum_busy_ms :: u16
  dc_energy_open_ratio :: fp
  dc_energy_close_ratio :: fp
  dc_impulse_limit_ratio :: fp

record rtnc_runtime_config =
  rc_tx_queue_packets :: u8
  rc_rx_queue_packets :: u8
  rc_channel_busy_timeout_ms :: u16
  rc_rx_guard_ms :: u16
  rc_kiss_tcp_port :: u16

record rtnc_platform_config =
  pc_ptt :: rtnc_gpio_config
  pc_audio :: rtnc_audio_config
  pc_modem :: rtnc_modem_config
  pc_tx :: loaded_tx_config
  pc_link :: rtnc_link_config
  pc_workers :: rtnc_worker_config
  pc_detector :: rtnc_detector_config
  pc_runtime :: rtnc_runtime_config
  pc_profiles :: "rtnc_phy_profile_config list" \<comment> \<open>and \<^verbatim>\<open>profiles_count\<close>\<close>

section \<open>Profiles\<close>

definition modulation_of_name :: "string \<Rightarrow> rtnc_modulation option" where
  "modulation_of_name name =
    (if name = ''bpsk'' then Some RTNC_MODULATION_BPSK
     else if name = ''qpsk'' then Some RTNC_MODULATION_QPSK
     else if name = ''8psk'' then Some RTNC_MODULATION_8PSK
     else if name = ''16psk'' then Some RTNC_MODULATION_16PSK
     else None)"

definition profile_of_entry :: "rtnc_phy_profile_config \<Rightarrow> rtnc_phy_profile option" where
  \<comment> \<open>the body of the loop for the entry with the name\<close>
  "profile_of_entry entry =
    (case modulation_of_name (pf_modulation entry) of
       None \<Rightarrow> None
     | Some modulation \<Rightarrow>
         if pf_fec_mode entry > 2 \<or> (pf_payload_class_bytes entry \<noteq> 64 \<and> pf_payload_class_bytes entry \<noteq> 128) \<or>
            pf_detector_bandwidth_margin entry < Fin 1 \<or> pf_detector_bandwidth_margin entry > Fin 3
         then None
         else case rtnc_phy_profile_psk modulation (pf_symbol_rate_baud entry) (pf_carrier_hz entry) of
            None \<Rightarrow> None
          | Some candidate \<Rightarrow>
              let candidate = candidate \<lparr> pp_rrc_rolloff := pf_rrc_rolloff entry,
                    pp_acquisition_threshold := pf_acquisition_threshold entry,
                    pp_training_threshold := pf_training_threshold entry \<rparr>
              in if \<not> rtnc_phy_profile_is_valid candidate then None else Some candidate)"

fun named_profile :: "rtnc_phy_profile_config list \<Rightarrow> string \<Rightarrow> rtnc_phy_profile option" where
  "named_profile [] name = None"
| "named_profile (entry # entries) name =
    (if pf_name entry \<noteq> name then named_profile entries name else profile_of_entry entry)"

definition rtnc_platform_phy_profile_named :: "rtnc_platform_config \<Rightarrow> string \<Rightarrow> rtnc_phy_profile option" where
  "rtnc_platform_phy_profile_named config name = named_profile (pc_profiles config) name"

definition platform_phy_profile :: "rtnc_platform_config \<Rightarrow> rtnc_phy_profile option" where
  "platform_phy_profile config = rtnc_platform_phy_profile_named config (mc_profile (pc_modem config))"

fun named_entry :: "rtnc_phy_profile_config list \<Rightarrow> string \<Rightarrow> rtnc_phy_profile_config option" where
  "named_entry [] name = None"
| "named_entry (entry # entries) name = (if pf_name entry = name then Some entry else named_entry entries name)"

definition rtnc_platform_profile_config_named ::
    "rtnc_platform_config \<Rightarrow> string \<Rightarrow> rtnc_phy_profile_config option" where
  "rtnc_platform_profile_config_named config name = named_entry (pc_profiles config) name"

definition rtnc_platform_selected_profile :: "rtnc_platform_config \<Rightarrow> rtnc_phy_profile_config option" where
  "rtnc_platform_selected_profile config = rtnc_platform_profile_config_named config (mc_profile (pc_modem config))"

section \<open>Validation\<close>

definition fec_mode_of :: "u8 \<Rightarrow> fec_mode" where
  \<comment> \<open>the cast; no use of the result tells 3 from greater numbers\<close>
  "fec_mode_of code =
    (if code = 0 then FEC_NONE else if code = 1 then FEC_LDPC_ROBUST else if code = 2 then FEC_LDPC_NORMAL
     else FEC_LDPC_FAST)"

fun profiles_usable :: "rtnc_platform_config \<Rightarrow> rtnc_phy_profile_config list \<Rightarrow> bool" where
  \<comment> \<open>the loop over the entries from an index on\<close>
  "profiles_usable config [] = True"
| "profiles_usable config (entry # others) =
    (case rtnc_platform_phy_profile_named config (pf_name entry) of
       None \<Rightarrow> False
     | Some candidate \<Rightarrow>
         if rtnc_modem_profile_rate candidate (fec_mode_of (pf_fec_mode entry)) (pf_payload_class_bytes entry) = None
         then False
         else if list_ex (\<lambda>other. pf_name entry = pf_name other) others then False
         else profiles_usable config others)"

fun scan_taps :: "fp list \<Rightarrow> nat list \<Rightarrow> fp \<Rightarrow> bool \<Rightarrow> (fp \<times> bool) option" where
  \<comment> \<open>the sum of the magnitudes, and whether one is not nearly zero\<close>
  "scan_taps taps [] absolute_sum nonzero = Some (absolute_sum, nonzero)"
| "scan_taps taps (tap # rest) absolute_sum nonzero =
    (let value' = taps ! tap
     in if \<not> isfinite value' then None
        else let absolute_sum = absolute_sum + \<bar>value'\<bar>;
                 nonzero = (nonzero \<or> \<bar>value'\<bar> > Fin (1 / 10 ^ 6))
             in if tap < RTNC_TX_EQ_TAP_COUNT div 2 \<and>
                   \<bar>value' - taps ! (RTNC_TX_EQ_TAP_COUNT - 1 - tap)\<bar> > Fin (1 / 10 ^ 5)
                then None else scan_taps taps rest absolute_sum nonzero)"

definition occupied_band_ok :: "fp list \<Rightarrow> rtnc_phy_profile \<Rightarrow> bool" where
  \<comment> \<open>the frequencies in steps of 100 Hz; the loop has no iteration where a bound is a NaN (the carrier of a
      valid profile is finite and its roll-off is not infinite)\<close>
  "occupied_band_ok taps profile =
    (let half_band = Fin (1 / 2) * Fin (real (unat (pp_symbol_rate_baud profile))) * (Fin 1 + pp_rrc_rolloff profile)
     in case (pp_carrier_hz profile - half_band, pp_carrier_hz profile + half_band) of
          (Fin low_hz, Fin high_hz) \<Rightarrow> band_gains_ok (map real_of_fp taps) low_hz high_hz
        | _ \<Rightarrow> True)"

definition link_in_range :: "rtnc_link_config \<Rightarrow> rtnc_runtime_config \<Rightarrow> bool" where
  "link_in_range link runtime \<longleftrightarrow>
    unat (lk_mtu link) \<ge> RTNC_LINK_MIN_MTU \<and>
    rc_tx_queue_packets runtime \<ge> 1 \<and> unat (rc_tx_queue_packets runtime) \<le> RTNC_PACKET_QUEUE_MAX_CAPACITY \<and>
    rc_rx_queue_packets runtime \<ge> 1 \<and> unat (rc_rx_queue_packets runtime) \<le> RTNC_PACKET_QUEUE_MAX_CAPACITY \<and>
    rc_channel_busy_timeout_ms runtime \<ge> 100 \<and> rc_channel_busy_timeout_ms runtime \<le> 60000 \<and>
    rc_rx_guard_ms runtime \<le> 2000 \<and> rc_kiss_tcp_port runtime \<ge> 1024 \<and> unat (lk_mtu link) \<le> RTNC_LINK_MAX_MTU \<and>
    lk_reassembly_timeout_ms link \<ge> 1000 \<and> lk_reassembly_timeout_ms link \<le> 60000"

definition workers_in_range :: "rtnc_worker_config \<Rightarrow> bool" where
  "workers_in_range workers \<longleftrightarrow>
    wc_dsp_queue_blocks workers \<ge> 2 \<and> unat (wc_dsp_queue_blocks workers) \<le> RTNC_AUDIO_RING_MAX_CAPACITY \<and>
    wc_decode_queue_frames workers \<ge> 2 \<and> unat (wc_decode_queue_frames workers) \<le> RTNC_DECODE_QUEUE_MAX_CAPACITY \<and>
    wc_equalizer_queue_frames workers \<ge> 1 \<and>
    unat (wc_equalizer_queue_frames workers) \<le> RTNC_DECODE_QUEUE_MAX_CAPACITY \<and> wc_equalizer_nice workers \<le> 19"

definition detector_in_range :: "rtnc_detector_config \<Rightarrow> bool" where
  "detector_in_range detector \<longleftrightarrow>
    dc_warmup_ms detector \<ge> 100 \<and> dc_warmup_ms detector \<le> 2000 \<and>
    dc_pretrigger_ms detector \<ge> 20 \<and> dc_pretrigger_ms detector \<le> 250 \<and> dc_cooldown_ms detector \<le> 1000 \<and>
    dc_noise_attack_ms detector \<ge> 10 \<and> dc_noise_release_ms detector \<ge> dc_noise_attack_ms detector \<and>
    dc_noise_release_ms detector \<le> 10000 \<and> dc_signal_attack_ms detector \<ge> 1 \<and> dc_signal_attack_ms detector \<le> 500 \<and>
    dc_maximum_busy_ms detector \<ge> 500 \<and> dc_maximum_busy_ms detector \<le> 5000 \<and>
    dc_energy_open_ratio detector > Fin 1 \<and> dc_energy_close_ratio detector > Fin 1 \<and>
    dc_energy_close_ratio detector < dc_energy_open_ratio detector \<and>
    dc_impulse_limit_ratio detector > dc_energy_open_ratio detector"

definition platform_config_is_valid :: "rtnc_platform_config \<Rightarrow> bool" where
  "platform_config_is_valid config =
    (if pc_profiles config = [] then False
     else case platform_phy_profile config of None \<Rightarrow> False | Some profile \<Rightarrow>
     if (case mc_control_profile (pc_modem config) of None \<Rightarrow> False
         | Some control \<Rightarrow> control = mc_profile (pc_modem config) \<or>
             rtnc_platform_profile_config_named config control = None)
     then False
     else if \<not> profiles_usable config (pc_profiles config) then False
     else case scan_taps (lt_response_eq_taps (pc_tx config)) [0..<RTNC_TX_EQ_TAP_COUNT] (Fin 0) False of
            None \<Rightarrow> False
          | Some (tap_absolute_sum, tap_nonzero) \<Rightarrow>
              if \<not> occupied_band_ok (lt_response_eq_taps (pc_tx config)) profile then False
              else ac_sample_rate_hz (pc_audio config) = 48000 \<and> ac_period_ms (pc_audio config) = 10 \<and>
                ac_periods (pc_audio config) \<ge> 2 \<and> ac_periods (pc_audio config) \<le> 8 \<and>
                lt_lead_ms (pc_tx config) \<le> 1000 \<and> lt_tail_ms (pc_tx config) \<le> 1000 \<and>
                lt_filter_gain (pc_tx config) \<ge> Fin (1 / 10) \<and> lt_filter_gain (pc_tx config) \<le> Fin 4 \<and>
                tap_nonzero \<and> tap_absolute_sum \<le> Fin 8 \<and>
                link_in_range (pc_link config) (pc_runtime config) \<and> workers_in_range (pc_workers config) \<and>
                detector_in_range (pc_detector config))"

definition rtnc_platform_config_load :: "rtnc_platform_config option \<Rightarrow> rtnc_platform_config option" where
  \<comment> \<open>the argument is what \<^verbatim>\<open>cyaml_load_file\<close> made of the file\<close>
  "rtnc_platform_config_load loaded =
    (case loaded of None \<Rightarrow> None | Some config \<Rightarrow> if \<not> platform_config_is_valid config then None else Some config)"

section \<open>Derived settings\<close>

definition samples_of_ms :: "u32 \<Rightarrow> u16 \<Rightarrow> nat" where
  "samples_of_ms sample_rate_hz ms = unat sample_rate_hz * unat ms div 1000"

definition smoothing_alpha :: "u32 \<Rightarrow> u16 \<Rightarrow> fp" where
  "smoothing_alpha sample_rate_hz ms = Fin (1 - exp (- 1000 / (real (unat sample_rate_hz) * real (unat ms))))"

definition rtnc_platform_burst_config ::
    "rtnc_platform_config \<Rightarrow> rtnc_burst_detector_config \<Rightarrow> rtnc_burst_detector_config option" where
  \<comment> \<open>the second argument is the caller's structure, of which \<^verbatim>\<open>external_trigger_requires_energy\<close> stays\<close>
  "rtnc_platform_burst_config config detector =
    (if \<not> platform_config_is_valid config then None
     else let rate = ac_sample_rate_hz (pc_audio config);
              settings = pc_detector config;
              maximum = samples_of_ms rate (dc_maximum_busy_ms settings)
          in Some (detector \<lparr> bc_warmup_samples := samples_of_ms rate (dc_warmup_ms settings),
               bc_pretrigger_samples := samples_of_ms rate (dc_pretrigger_ms settings), bc_release_samples := 1,
               bc_cooldown_samples := samples_of_ms rate (dc_cooldown_ms settings),
               bc_noise_attack_alpha := smoothing_alpha rate (dc_noise_attack_ms settings),
               bc_noise_release_alpha := smoothing_alpha rate (dc_noise_release_ms settings),
               bc_signal_alpha := smoothing_alpha rate (dc_signal_attack_ms settings),
               bc_trigger_ratio := dc_energy_open_ratio settings, bc_release_ratio := dc_energy_close_ratio settings,
               bc_impulse_limit_ratio := dc_impulse_limit_ratio settings,
               bc_maximum_active_samples := (if maximum > RTNC_MODEM_MAX_AUDIO_SAMPLES
                 then RTNC_MODEM_MAX_AUDIO_SAMPLES else maximum),
               bc_capture_samples := 0, bc_energy_trigger_enabled := True \<rparr>))"

definition tx_config_of :: "loaded_tx_config \<Rightarrow> rtnc_tx_config" where
  \<comment> \<open>the accepted settings, read as real numbers\<close>
  "tx_config_of tx = \<lparr> tc_lead_ms = lt_lead_ms tx, tc_tail_ms = lt_tail_ms tx,
     tc_filter_gain = real_of_fp (lt_filter_gain tx), tc_response_eq_taps = map real_of_fp (lt_response_eq_taps tx) \<rparr>"

section \<open>What validation establishes\<close>

lemma named_profile_entry:
  "named_profile entries name = (case named_entry entries name of None \<Rightarrow> None | Some entry \<Rightarrow> profile_of_entry entry)"
  by (induction entries) auto

lemma named_entry_name: "named_entry entries name = Some entry \<Longrightarrow> entry \<in> set entries \<and> pf_name entry = name"
  by (induction entries) (auto split: if_splits)

lemma profiles_usable_rate:
  "profiles_usable config entries \<Longrightarrow> entry \<in> set entries \<Longrightarrow>
   \<exists>profile. rtnc_platform_phy_profile_named config (pf_name entry) = Some profile \<and>
     rtnc_modem_profile_rate profile (fec_mode_of (pf_fec_mode entry)) (pf_payload_class_bytes entry) \<noteq> None"
  by (induction entries) (auto split: option.splits if_splits)

lemma profile_of_entry_valid:
  "profile_of_entry entry = Some profile \<Longrightarrow> rtnc_phy_profile_is_valid profile \<and> pf_fec_mode entry \<le> 2 \<and>
   (pf_payload_class_bytes entry = 64 \<or> pf_payload_class_bytes entry = 128)"
  by (auto simp: profile_of_entry_def Let_def not_less split: option.splits if_splits)

lemma valid_config_parts:
  assumes "platform_config_is_valid config"
  obtains profile entry tap_sum where
    "platform_phy_profile config = Some profile" "rtnc_platform_selected_profile config = Some entry"
    "profile_of_entry entry = Some profile" "profiles_usable config (pc_profiles config)"
    "scan_taps (lt_response_eq_taps (pc_tx config)) [0..<RTNC_TX_EQ_TAP_COUNT] (Fin 0) False = Some (tap_sum, True)"
    "tap_sum \<le> Fin 8" "occupied_band_ok (lt_response_eq_taps (pc_tx config)) profile"
    "ac_sample_rate_hz (pc_audio config) = 48000"
    "Fin (1 / 10) \<le> lt_filter_gain (pc_tx config)" "lt_filter_gain (pc_tx config) \<le> Fin 4"
    "link_in_range (pc_link config) (pc_runtime config)" "workers_in_range (pc_workers config)"
    "detector_in_range (pc_detector config)"
proof -
  from assms obtain profile where p: "platform_phy_profile config = Some profile"
    by (auto simp: platform_config_is_valid_def split: if_splits option.splits)
  then obtain entry where e: "rtnc_platform_selected_profile config = Some entry" "profile_of_entry entry = Some profile"
    by (auto simp: platform_phy_profile_def rtnc_platform_phy_profile_named_def named_profile_entry
      rtnc_platform_selected_profile_def rtnc_platform_profile_config_named_def split: option.splits)
  from assms p obtain tap_sum where
    "scan_taps (lt_response_eq_taps (pc_tx config)) [0..<RTNC_TX_EQ_TAP_COUNT] (Fin 0) False = Some (tap_sum, True)"
    unfolding platform_config_is_valid_def by (auto simp del: upt_rec_numeral split: if_splits option.splits prod.splits)
  with assms p e show thesis
    by (intro that [of profile entry tap_sum])
      (auto simp: platform_config_is_valid_def simp del: upt_rec_numeral split: if_splits option.splits)
qed

lemma smoothing_alpha_range:
  assumes "0 < unat rate" "0 < unat ms"
  shows "\<not> smoothing_alpha rate ms \<le> Fin 0" "\<not> smoothing_alpha rate ms > Fin 1"
proof -
  have "0 < real (unat rate) * real (unat ms)"
    using assms by (intro mult_pos_pos) (simp_all only: of_nat_0_less_iff)
  then have "exp (- 1000 / (real (unat rate) * real (unat ms))) < 1" by simp
  then show "\<not> smoothing_alpha rate ms \<le> Fin 0" by (simp add: smoothing_alpha_def)
  show "\<not> smoothing_alpha rate ms > Fin 1" by (simp add: smoothing_alpha_def)
qed

lemma burst_config_accepted:
  assumes "platform_config_is_valid config"
  shows "\<exists>detector. rtnc_platform_burst_config config caller = Some detector \<and> burst_config_ok detector"
proof -
  let ?s = "pc_detector config" and ?r = "ac_sample_rate_hz (pc_audio config)"
  from assms obtain profile entry tap_sum where rate: "?r = 48000" and d: "detector_in_range ?s"
    by (rule valid_config_parts)
  have u: "100 \<le> unat (dc_warmup_ms ?s)" "20 \<le> unat (dc_pretrigger_ms ?s)" "unat (dc_pretrigger_ms ?s) \<le> 250"
    "10 \<le> unat (dc_noise_attack_ms ?s)" "unat (dc_noise_attack_ms ?s) \<le> unat (dc_noise_release_ms ?s)"
    "1 \<le> unat (dc_signal_attack_ms ?s)" "500 \<le> unat (dc_maximum_busy_ms ?s)"
    using d by (auto simp: detector_in_range_def word_le_nat_alt)
  have samples: "samples_of_ms ?r ms = 48 * unat ms" for ms using div_mult_mult1 [of 1000 "48 * unat ms" 1]
    by (simp add: samples_of_ms_def rate)
  have alpha: "\<not> smoothing_alpha ?r ms \<le> Fin 0" "\<not> smoothing_alpha ?r ms > Fin 1" if "0 < unat ms" for ms
    using smoothing_alpha_range [of ?r ms] that by (simp_all add: rate)
  have ratios: "\<not> dc_energy_open_ratio ?s \<le> Fin 1" "\<not> dc_energy_close_ratio ?s \<le> Fin 1"
    "\<not> dc_energy_open_ratio ?s \<le> dc_energy_close_ratio ?s" "\<not> dc_impulse_limit_ratio ?s \<le> dc_energy_open_ratio ?s"
    using d fp_less_not_le unfolding detector_in_range_def by blast+
  show ?thesis
    using assms u alpha [of "dc_noise_attack_ms ?s"] alpha [of "dc_noise_release_ms ?s"] alpha [of "dc_signal_attack_ms ?s"] ratios
    unfolding rtnc_platform_burst_config_def burst_config_ok_def Let_def samples by simp
qed

lemma entry_fec_mode:
  assumes "profile_of_entry entry = Some profile"
  shows "fec_mode_of (pf_fec_mode entry) \<noteq> FEC_LDPC_FAST" "fec_mode_of (pf_fec_mode entry) = FEC_NONE \<longleftrightarrow> pf_fec_mode entry = 0"
proof -
  have "unat (pf_fec_mode entry) \<le> 2" using profile_of_entry_valid [OF assms] by (simp add: word_le_nat_alt)
  then have "unat (pf_fec_mode entry) = 0 \<or> unat (pf_fec_mode entry) = 1 \<or> unat (pf_fec_mode entry) = 2" by linarith
  moreover have "unat (0 :: u8) = 0" "unat (1 :: u8) = 1" "unat (2 :: u8) = 2" by simp_all
  ultimately have "pf_fec_mode entry = 0 \<or> pf_fec_mode entry = 1 \<or> pf_fec_mode entry = 2" by (metis word_unat_eq_iff)
  then show "fec_mode_of (pf_fec_mode entry) \<noteq> FEC_LDPC_FAST" "fec_mode_of (pf_fec_mode entry) = FEC_NONE \<longleftrightarrow> pf_fec_mode entry = 0"
    by (auto simp: fec_mode_of_def)
qed

lemma scan_taps_sum:
  "scan_taps taps is (Fin a) nonzero = Some (tap_sum, nz) \<Longrightarrow>
   (\<forall>i \<in> set is. isfinite (taps ! i)) \<and> tap_sum = Fin (a + (\<Sum>i\<leftarrow>is. \<bar>real_of_fp (taps ! i)\<bar>)) \<and>
   (\<forall>i \<in> set is. i < 8 \<longrightarrow> \<not> \<bar>taps ! i - taps ! (16 - i)\<bar> > Fin (1 / 10 ^ 5)) \<and>
   (nz \<longrightarrow> nonzero \<or> (\<exists>i \<in> set is. taps ! i \<noteq> Fin 0))"
proof (induction "is" arbitrary: a nonzero)
  case (Cons i "is")
  then obtain r where r: "taps ! i = Fin r" by (auto simp: Let_def isfinite_iff split: if_splits)
  with Cons.prems have n: "\<not> (i < 8 \<and> \<bar>taps ! i - taps ! (16 - i)\<bar> > Fin (1 / 10 ^ 5))"
    "scan_taps taps is (Fin (a + \<bar>r\<bar>)) (nonzero \<or> \<bar>r\<bar> > 1 / 10 ^ 6) = Some (tap_sum, nz)"
    by (auto simp: Let_def split: if_splits)
  from Cons.IH [OF n(2)] n(1) r show ?case by (auto simp: real_of_fp_def)
qed simp


section \<open>Examples\<close>

definition example_entry :: rtnc_phy_profile_config where
  "example_entry = \<lparr> pf_name = ''main'', pf_modulation = ''qpsk'', pf_symbol_rate_baud = 1200, pf_carrier_hz = Fin 1650,
     pf_rrc_rolloff = Fin (1 / 4), pf_acquisition_threshold = Fin (9 / 10), pf_training_threshold = Fin (7 / 10),
     pf_detector_bandwidth_margin = Fin (5 / 4), pf_fec_mode = 2, pf_payload_class_bytes = 128 \<rparr>"

definition example_platform :: "rtnc_phy_profile_config \<Rightarrow> fp list \<Rightarrow> u16 \<Rightarrow> rtnc_platform_config" where
  "example_platform entry taps mtu =
    \<lparr> pc_ptt = \<lparr> gp_port = 0, gp_pin = 17, gp_active_high = True \<rparr>,
      pc_audio = \<lparr> ac_device = ''hw:1,0'', ac_sample_rate_hz = 48000, ac_period_ms = 10, ac_periods = 4 \<rparr>,
      pc_modem = \<lparr> mc_profile = ''main'', mc_control_profile = None \<rparr>,
      pc_tx = \<lparr> lt_lead_ms = 50, lt_tail_ms = 20, lt_filter_gain = Fin 1, lt_response_eq_taps = taps \<rparr>,
      pc_link = \<lparr> lk_mtu = mtu, lk_reassembly_timeout_ms = 10000 \<rparr>,
      pc_workers = \<lparr> wc_dsp_queue_blocks = 16, wc_decode_queue_frames = 4, wc_equalizer_queue_frames = 2,
        wc_parallel_equalizer = True, wc_equalizer_nice = 5 \<rparr>,
      pc_detector = \<lparr> dc_warmup_ms = 500, dc_pretrigger_ms = 100, dc_cooldown_ms = 100, dc_noise_attack_ms = 50,
        dc_noise_release_ms = 500, dc_signal_attack_ms = 5, dc_maximum_busy_ms = 2000, dc_energy_open_ratio = Fin 4,
        dc_energy_close_ratio = Fin 2, dc_impulse_limit_ratio = Fin 20 \<rparr>,
      pc_runtime = \<lparr> rc_tx_queue_packets = 8, rc_rx_queue_packets = 8, rc_channel_busy_timeout_ms = 5000,
        rc_rx_guard_ms = 100, rc_kiss_tcp_port = 8001 \<rparr>,
      pc_profiles = [entry] \<rparr>"

definition identity_taps :: "fp list" where
  "identity_taps = [Fin 0, Fin 0, Fin 0, Fin 0, Fin 0, Fin 0, Fin 0, Fin 0, Fin 1,
     Fin 0, Fin 0, Fin 0, Fin 0, Fin 0, Fin 0, Fin 0, Fin 0]"

lemma identity_taps_band: "band_gains_ok (map real_of_fp identity_taps) f high"
proof -
  have e: "map real_of_fp identity_taps = blend_taps d 0" for d
    by (simp add: identity_taps_def blend_taps_def real_of_fp_def upt_rec)
  show ?thesis using identity_acceptable [of _ f high] unfolding e [of undefined] taps_acceptable_def by blast
qed

lemma identity_taps_scan: "scan_taps identity_taps [0..<17] (Fin 0) False = Some (Fin 1, True)"
  by (simp add: identity_taps_def nth_append upt_rec minus_fp_def)

lemma example_lookup:
  assumes "profile_of_entry entry = Some profile" "pf_name entry = ''main''"
  shows "platform_phy_profile (example_platform entry taps mtu) = Some profile"
    and "rtnc_platform_selected_profile (example_platform entry taps mtu) = Some entry"
  using assms
  by (simp_all add: platform_phy_profile_def rtnc_platform_phy_profile_named_def rtnc_platform_selected_profile_def
    rtnc_platform_profile_config_named_def example_platform_def)

lemma example_platform_valid:
  assumes "profile_of_entry entry = Some profile" "pf_name entry = ''main''"
    and "rtnc_modem_profile_rate profile (fec_mode_of (pf_fec_mode entry)) (pf_payload_class_bytes entry) \<noteq> None"
    and "scan_taps taps [0..<17] (Fin 0) False = Some (Fin 1, True)" "occupied_band_ok taps profile"
    and "500 \<le> unat mtu" "unat mtu \<le> 16256"
  shows "platform_config_is_valid (example_platform entry taps mtu)"
proof -
  let ?c = "example_platform entry taps mtu"
  have "lt_response_eq_taps (pc_tx ?c) = taps" "pc_profiles ?c = [entry]" "mc_control_profile (pc_modem ?c) = None"
    by (simp_all add: example_platform_def)
  moreover have "profiles_usable ?c [entry]"
    using assms(1-3) by (simp add: rtnc_platform_phy_profile_named_def example_platform_def)
  moreover have "link_in_range (pc_link ?c) (pc_runtime ?c)" "workers_in_range (pc_workers ?c)" "detector_in_range (pc_detector ?c)"
    using assms(6,7) by (simp_all add: example_platform_def link_in_range_def workers_in_range_def detector_in_range_def)
  ultimately show ?thesis
    using example_lookup(1) [OF assms(1,2), of taps mtu] assms(4,5)
    by (simp add: platform_config_is_valid_def del: upt_rec_numeral scan_taps.simps) (simp add: example_platform_def)
qed

lemmas example_profile_simps = profile_of_entry_def modulation_of_name_def example_entry_def rtnc_phy_profile_psk_def
  rtnc_phy_profile_is_valid_def rtnc_phy_profile_qpsk_1200_def rtnc_modem_profile_rate_def symbol_count_def
  rtnc_fec_encoded_size_def fec_mode_of_def

lemma example_valid:
  assumes "entry = example_entry \<lparr> pf_payload_class_bytes := cls \<rparr>" "cls = 64 \<or> cls = 128" "500 \<le> unat mtu" "unat mtu \<le> 16256"
  shows "profile_of_entry entry = Some rtnc_phy_profile_qpsk_1200"
    and "platform_config_is_valid (example_platform entry identity_taps mtu)"
proof -
  show p: "profile_of_entry entry = Some rtnc_phy_profile_qpsk_1200"
    using assms(1,2) by (auto simp: example_profile_simps)
  have "occupied_band_ok identity_taps rtnc_phy_profile_qpsk_1200"
    by (simp add: occupied_band_ok_def rtnc_phy_profile_qpsk_1200_def identity_taps_band)
  moreover have "rtnc_modem_profile_rate rtnc_phy_profile_qpsk_1200 (fec_mode_of (pf_fec_mode entry)) (pf_payload_class_bytes entry) \<noteq> None"
    using assms(1,2) by (auto simp: example_profile_simps)
  moreover have "pf_name entry = ''main''" using assms(1) by (simp add: example_entry_def)
  ultimately show "platform_config_is_valid (example_platform entry identity_taps mtu)"
    using example_platform_valid [OF p _ _ identity_taps_scan] assms(3,4) by blast
qed


text \<open>
  The roll-off has to be a number: validation accepts one that is not, and then does not test the gain at all, even for a
  filter that inverts the signal at the carrier.
\<close>

lemma nan_rolloff_unchecked:
  "platform_config_is_valid (example_platform (example_entry \<lparr> pf_rrc_rolloff := NaN \<rparr>) (map uminus identity_taps) 500)"
  "rtnc_tx_eq_zero_phase_gain (map real_of_fp (map uminus identity_taps)) 1650 = - 1"
proof -
  let ?n = "example_entry \<lparr> pf_rrc_rolloff := NaN \<rparr>" and ?q = "rtnc_phy_profile_qpsk_1200 \<lparr> pp_rrc_rolloff := NaN \<rparr>"
  have "profile_of_entry ?n = Some ?q" by (simp add: example_profile_simps)
  then show "platform_config_is_valid (example_platform ?n (map uminus identity_taps) 500)"
    by (rule example_platform_valid)
      (simp_all add: example_profile_simps identity_taps_def minus_fp_def upt_rec occupied_band_ok_def)
  show "rtnc_tx_eq_zero_phase_gain (map real_of_fp (map uminus identity_taps)) 1650 = - 1"
    by (simp add: rtnc_tx_eq_zero_phase_gain_def identity_taps_def real_of_fp_def upt_rec)
qed

end
