(* ===== verification/Acquisition.thy ===== *)
theory Acquisition
  imports ModemRx
begin

text \<open>
  The streaming preamble detector of \<^verbatim>\<open>phy/acquisition.c\<close>: it mixes every sample down, runs the
  matched filter, keeps the last 32 symbols of the result in a ring and, every \<open>stride\<close> samples, correlates
  one ring sample per symbol with the training.  The retained modem pointer is an address (\<open>None\<close> is
  \<^verbatim>\<open>NULL\<close>): callers only compare it.  The last part relates the scores to the search of the offline
  receiver over the same audio, and states how two detectors are combined.
\<close>

record 'd rtnc_acquisition_detector =
  ad_carrier :: "'d rtnc_carrier"
  ad_rrc :: "'d rtnc_rrc"
  ad_ring :: "complex list"
  ad_reference :: "complex list"
  ad_ring_length :: nat
  ad_write_index :: nat
  ad_sample_count :: nat
  ad_stride_count :: nat
  ad_stride_samples :: nat
  ad_threshold :: fp
  ad_best_score :: real
  ad_modem :: "nat option"

definition rtnc_acquisition_detector_deinit :: "'d rtnc_acquisition_detector \<Rightarrow> 'd rtnc_acquisition_detector" where
  "rtnc_acquisition_detector_deinit detector = detector
     \<lparr> ad_rrc := rtnc_rrc_deinit (ad_rrc detector), ad_carrier := rtnc_carrier_deinit (ad_carrier detector),
       ad_ring_length := 0 \<rparr>"

definition fresh_detector :: "complex list \<Rightarrow> nat \<Rightarrow> nat \<Rightarrow> fp \<Rightarrow> 'd rtnc_acquisition_detector" where
  \<comment> \<open>after the \<^verbatim>\<open>memset\<close>, the three assignments and the copy of the reference\<close>
  "fresh_detector symbols ring_length stride_samples threshold =
    \<lparr> ad_carrier = \<lparr> ca_tx_nco = None, ca_rx_nco = None, ca_tx_radians_per_sample = 0,
                    ca_rx_radians_per_sample = 0, ca_tx_initial_phase = 0, ca_sample_rate_hz = 0 \<rparr>,
      ad_rrc = \<lparr> rrc_interpolator = None, rrc_matched_filter = None, rrc_samples_per_symbol = 0,
                rrc_delay_symbols = 0 \<rparr>,
      ad_ring = replicate RTNC_MODEM_MAX_AUDIO_SAMPLES 0,
      ad_reference = map (\<lambda>index. symbols ! index) [0..<RTNC_MODEM_ACQUISITION_SYMBOLS],
      ad_ring_length = ring_length, ad_write_index = 0, ad_sample_count = 0, ad_stride_count = 0,
      ad_stride_samples = stride_samples, ad_threshold = threshold, ad_best_score = 0, ad_modem = None \<rparr>"

definition rtnc_acquisition_detector_init ::
    "'d liquid \<Rightarrow> 'd rtnc_acquisition_detector \<Rightarrow> rtnc_phy_profile \<Rightarrow> complex list \<Rightarrow> nat \<Rightarrow> fp \<Rightarrow>
     bool \<times> 'd rtnc_acquisition_detector" where
  "rtnc_acquisition_detector_init L detector profile symbols stride_samples threshold =
    (if \<not> rtnc_phy_profile_is_valid profile \<or> stride_samples = 0 \<or> threshold \<le> Fin 0 \<or> threshold > Fin 1
     then (False, detector)
     else
       let ring_length = RTNC_MODEM_ACQUISITION_SYMBOLS * unat (pp_samples_per_symbol profile)
       in if ring_length > RTNC_MODEM_MAX_AUDIO_SAMPLES then (False, detector)
          else
            let detector = fresh_detector symbols ring_length stride_samples threshold;
                (ok, carrier) = rtnc_carrier_init L (ad_carrier detector) (pp_sample_rate_hz profile) (pp_carrier_hz profile);
                detector = detector \<lparr> ad_carrier := carrier \<rparr>
            in if \<not> ok then (False, rtnc_acquisition_detector_deinit detector)
               else
                 let (ok, rrc) = rtnc_rrc_init L (ad_rrc detector) (pp_samples_per_symbol profile)
                       (of_nat RTNC_MODEM_RRC_DELAY_SYMBOLS) (pp_rrc_rolloff profile);
                     detector = detector \<lparr> ad_rrc := rrc \<rparr>
                 in if \<not> ok then (False, rtnc_acquisition_detector_deinit detector) else (True, detector))"

definition detector_score :: "'d rtnc_acquisition_detector \<Rightarrow> real" where
  \<comment> \<open>the correlation of the ring, oldest sample first, with the reference\<close>
  "detector_score detector =
    (let (correlation, energy) =
           foldl (\<lambda>(correlation, energy) symbol.
               let source = (ad_write_index detector +
                             symbol * (ad_ring_length detector div RTNC_MODEM_ACQUISITION_SYMBOLS))
                            mod ad_ring_length detector;
                   received = ad_ring detector ! source
               in (correlation + cnj (ad_reference detector ! symbol) * received,
                   energy + Re (received * cnj received)))
             (0, 0) [0..<RTNC_MODEM_ACQUISITION_SYMBOLS]
     in if energy > 0 then cmod correlation / sqrt (real RTNC_MODEM_ACQUISITION_SYMBOLS * energy) else 0)"

definition store_filtered :: "'d rtnc_acquisition_detector \<Rightarrow> complex \<Rightarrow> 'd rtnc_acquisition_detector" where
  "store_filtered detector filtered =
    (let detector = detector \<lparr> ad_ring := (ad_ring detector)[ad_write_index detector := filtered] \<rparr>;
         detector = detector \<lparr> ad_write_index := (ad_write_index detector + 1) mod ad_ring_length detector \<rparr>;
         detector = (if ad_sample_count detector < ad_ring_length detector
                     then detector \<lparr> ad_sample_count := ad_sample_count detector + 1 \<rparr> else detector)
     in detector \<lparr> ad_stride_count := ad_stride_count detector + 1 \<rparr>)"

definition evaluate :: "'d rtnc_acquisition_detector \<Rightarrow> bool \<times> 'd rtnc_acquisition_detector \<times> real" where
  \<comment> \<open>from the test of the two counts on; the score was set to 0\<close>
  "evaluate detector =
    (if ad_sample_count detector < ad_ring_length detector \<or>
        ad_stride_count detector < ad_stride_samples detector then (False, detector, 0)
     else
       let detector = detector \<lparr> ad_stride_count := 0 \<rparr>;
           score = detector_score detector;
           detector = (if score > ad_best_score detector then detector \<lparr> ad_best_score := score \<rparr> else detector)
       in (Fin score \<ge> ad_threshold detector, detector, score))"

definition rtnc_acquisition_detector_process ::
    "'d liquid \<Rightarrow> 'd rtnc_acquisition_detector \<Rightarrow> real \<Rightarrow> real \<Rightarrow> bool \<times> 'd rtnc_acquisition_detector \<times> real" where
  \<comment> \<open>the last argument and result is \<^verbatim>\<open>*score\<close>\<close>
  "rtnc_acquisition_detector_process L detector audio_sample score =
    (if ad_ring_length detector = 0 then (False, detector, score)
     else
       case rtnc_carrier_downconvert L (ad_carrier detector) audio_sample of
         (None, carrier) \<Rightarrow> (False, detector \<lparr> ad_carrier := carrier \<rparr>, score)
       | (Some mixed, carrier) \<Rightarrow>
           (case rtnc_rrc_match L (ad_rrc detector) mixed of
              (None, rrc) \<Rightarrow> (False, detector \<lparr> ad_carrier := carrier, ad_rrc := rrc \<rparr>, score)
            | (Some filtered, rrc) \<Rightarrow>
                evaluate (store_filtered (detector \<lparr> ad_carrier := carrier, ad_rrc := rrc \<rparr>) filtered)))"

definition rtnc_acquisition_detector_init_modem ::
    "'d liquid \<Rightarrow> 'd rtnc_acquisition_detector \<Rightarrow> nat \<Rightarrow> 'd rtnc_modem \<Rightarrow> nat \<Rightarrow>
     bool \<times> 'd rtnc_acquisition_detector" where
  \<comment> \<open>\<open>address\<close> is the modem pointer, \<open>modem\<close> what it points to\<close>
  "rtnc_acquisition_detector_init_modem L detector address modem stride_samples =
    (let (ok, detector) = rtnc_acquisition_detector_init L detector (mo_profile modem) (mo_training modem)
           stride_samples (pp_acquisition_threshold (mo_profile modem))
     in if \<not> ok then (False, detector) else (True, detector \<lparr> ad_modem := Some address \<rparr>))"

record two_outcome =
  to_detected :: bool
  to_detected_modem :: "nat option"
  to_first_score :: real
  to_second_score :: real

definition process_second ::
    "'d liquid \<Rightarrow> 'd rtnc_acquisition_detector option \<Rightarrow> real \<Rightarrow>
     (bool \<times> 'd rtnc_acquisition_detector option \<times> real) option" where
  \<comment> \<open>\<open>None\<close>: the second detector retains no modem\<close>
  "process_second L second audio_sample =
    (case second of
       None \<Rightarrow> Some (False, None, 0)
     | Some detector \<Rightarrow>
         if ad_modem detector = None then None
         else let (triggered, detector, score) = rtnc_acquisition_detector_process L detector audio_sample 0
              in Some (triggered, Some detector, score))"

definition better_margin ::
    "'d rtnc_acquisition_detector \<Rightarrow> real \<Rightarrow> 'd rtnc_acquisition_detector \<Rightarrow> real \<Rightarrow> bool" where
  "better_margin second second_score first first_score \<longleftrightarrow>
    Fin second_score - ad_threshold second > Fin first_score - ad_threshold first"

definition rtnc_acquisition_detector_process_two ::
    "'d liquid \<Rightarrow> 'd rtnc_acquisition_detector \<Rightarrow> 'd rtnc_acquisition_detector option \<Rightarrow> real \<Rightarrow> two_outcome \<Rightarrow>
     two_outcome \<times> 'd rtnc_acquisition_detector \<times> 'd rtnc_acquisition_detector option" where
  \<comment> \<open>\<open>result\<close> holds the three output variables before the call\<close>
  "rtnc_acquisition_detector_process_two L first second audio_sample result =
    (if ad_modem first = None then (result \<lparr> to_detected := False \<rparr>, first, second)
     else
       let result = result \<lparr> to_detected := False, to_detected_modem := None \<rparr>;
           (first_trigger, first, first_score) = rtnc_acquisition_detector_process L first audio_sample (to_first_score result);
           result = result \<lparr> to_first_score := first_score, to_second_score := 0 \<rparr>
       in case process_second L second audio_sample of
            None \<Rightarrow> (result, first, second)
          | Some (second_trigger, second, second_score) \<Rightarrow>
              let result = result \<lparr> to_second_score := second_score \<rparr>
              in if \<not> first_trigger \<and> \<not> second_trigger then (result, first, second)
                 else
                   (result \<lparr> to_detected := True,
                      to_detected_modem :=
                        (case second of
                           Some detector \<Rightarrow>
                             if second_trigger \<and> (\<not> first_trigger \<or> better_margin detector second_score first first_score)
                             then ad_modem detector else ad_modem first
                         | None \<Rightarrow> ad_modem first) \<rparr>, first, second))"

section \<open>The ring holds the last window of the filtered signal\<close>

definition acquisition_ring :: "'d rtnc_acquisition_detector \<Rightarrow> complex list \<Rightarrow> bool" where
  \<comment> \<open>\<open>past\<close> is everything the filter has produced so far\<close>
  "acquisition_ring d past \<longleftrightarrow>
    0 < ad_ring_length d \<and> ad_ring_length d \<le> length (ad_ring d) \<and>
    ad_write_index d = length past mod ad_ring_length d \<and>
    ad_sample_count d = min (length past) (ad_ring_length d) \<and>
    (\<forall>i<length past. length past \<le> i + ad_ring_length d \<longrightarrow> ad_ring d ! (i mod ad_ring_length d) = past ! i)"

definition scheduled :: "nat \<Rightarrow> nat \<Rightarrow> nat \<Rightarrow> bool" where
  \<comment> \<open>the sample counts at which the correlation is evaluated\<close>
  "scheduled window stride n \<longleftrightarrow> max window stride \<le> n \<and> (n - max window stride) mod stride = 0"

definition stride_phase :: "nat \<Rightarrow> nat \<Rightarrow> nat \<Rightarrow> nat" where
  "stride_phase window stride n = (if n < max window stride then n else (n - max window stride) mod stride)"

lemma store_filtered_sel [simp]:
  "ad_carrier (store_filtered d x) = ad_carrier d" "ad_rrc (store_filtered d x) = ad_rrc d"
  "ad_reference (store_filtered d x) = ad_reference d" "ad_ring_length (store_filtered d x) = ad_ring_length d"
  "ad_stride_samples (store_filtered d x) = ad_stride_samples d" "ad_threshold (store_filtered d x) = ad_threshold d"
  "ad_modem (store_filtered d x) = ad_modem d" "ad_stride_count (store_filtered d x) = ad_stride_count d + 1"
  by (simp_all add: store_filtered_def Let_def)

lemma store_filtered_ring:
  assumes "acquisition_ring d past"
  shows "acquisition_ring (store_filtered d x) (past @ [x])"
proof -
  let ?n = "ad_ring_length d" and ?m = "length past"
  from assms have w: "0 < ?n" "?n \<le> length (ad_ring d)" "ad_write_index d = ?m mod ?n" "ad_sample_count d = min ?m ?n"
    and old: "\<And>i. i < ?m \<Longrightarrow> ?m \<le> i + ?n \<Longrightarrow> ad_ring d ! (i mod ?n) = past ! i"
    by (auto simp: acquisition_ring_def)
  have idx: "?m mod ?n < length (ad_ring d)" using w(1,2) mod_less_divisor [of ?n ?m] by linarith
  have new: "(ad_ring d)[?m mod ?n := x] ! (i mod ?n) = (past @ [x]) ! i"
    if "i < ?m + 1" "?m + 1 \<le> i + ?n" for i
  proof (cases "i = ?m")
    case True
    with idx show ?thesis by simp
  next
    case False
    with that have i: "i < ?m" "?m - i < ?n" "0 < ?m - i" by auto
    have "i mod ?n \<noteq> ?m mod ?n"
      using mod_window_inj [of 0 ?n "?m - i" i] i by auto
    with i old [of i] that show ?thesis by (simp add: nth_append)
  qed
  show ?thesis
    using w new by (auto simp: acquisition_ring_def store_filtered_def Let_def mod_Suc_eq)
qed

lemma evaluate_sel:
  "ad_carrier (fst (snd (evaluate d))) = ad_carrier d" "ad_rrc (fst (snd (evaluate d))) = ad_rrc d"
  "ad_reference (fst (snd (evaluate d))) = ad_reference d" "ad_ring_length (fst (snd (evaluate d))) = ad_ring_length d"
  "ad_stride_samples (fst (snd (evaluate d))) = ad_stride_samples d"
  "ad_threshold (fst (snd (evaluate d))) = ad_threshold d" "ad_modem (fst (snd (evaluate d))) = ad_modem d"
  "acquisition_ring (fst (snd (evaluate d))) past = acquisition_ring d past"
  by (simp_all add: evaluate_def Let_def acquisition_ring_def)

lemma stride_phase_Suc:
  assumes "0 < stride"
  shows "scheduled window stride (n + 1) \<longleftrightarrow> window \<le> n + 1 \<and> stride \<le> stride_phase window stride n + 1"
    and "stride_phase window stride (n + 1) =
      (if scheduled window stride (n + 1) then 0 else stride_phase window stride n + 1)"
proof -
  let ?m = "max window stride"
  consider "n + 1 < ?m" | "n + 1 = ?m" | "?m \<le> n" by linarith
  then have "(scheduled window stride (n + 1) \<longleftrightarrow> window \<le> n + 1 \<and> stride \<le> stride_phase window stride n + 1) \<and>
    stride_phase window stride (n + 1) =
      (if scheduled window stride (n + 1) then 0 else stride_phase window stride n + 1)"
  proof cases
    case 3
    define k where "k = n - ?m"
    have k: "n = ?m + k" using 3 by (simp add: k_def)
    have "Suc k mod stride = (if Suc (k mod stride) = stride then 0 else Suc (k mod stride))"
      using assms by (simp add: mod_Suc)
    moreover have "k mod stride < stride" using assms by simp
    ultimately show ?thesis using 3 unfolding k scheduled_def stride_phase_def by auto
  qed (use assms in \<open>auto simp: scheduled_def stride_phase_def max_def split: if_splits\<close>)
  then show "scheduled window stride (n + 1) \<longleftrightarrow> window \<le> n + 1 \<and> stride \<le> stride_phase window stride n + 1"
    and "stride_phase window stride (n + 1) =
      (if scheduled window stride (n + 1) then 0 else stride_phase window stride n + 1)" by blast+
qed

text \<open>The offline score of a window whose samples are all there.\<close>

definition window_sums :: "'d rtnc_modem \<Rightarrow> (nat \<Rightarrow> complex) \<Rightarrow> complex \<times> real" where
  \<comment> \<open>correlation and energy of 32 samples\<close>
  "window_sums modem arrived =
    foldl (\<lambda>(correlation, energy) i.
        (correlation + cnj (mo_training modem ! i) * arrived i, energy + Re (arrived i * cnj (arrived i))))
      (0, 0) [0..<RTNC_MODEM_ACQUISITION_SYMBOLS]"

lemma correlate_map:
  "correlate (map f [0..<n]) (map g [0..<n]) =
    foldl (\<lambda>(correlation, energy) i. (correlation + cnj (f i) * g i, energy + Re (g i * cnj (g i)))) (0, 0) [0..<n]"
  by (simp add: correlate_def zip_map_map zip_same_conv_map foldl_map case_prod_unfold)

lemma acquisition_score_window:
  assumes "RTNC_MODEM_ACQUISITION_SYMBOLS \<le> length (mo_training modem)"
    and "start + 31 * unat (pp_samples_per_symbol (mo_profile modem)) < length filtered"
  shows "acquisition_score_at modem filtered start =
    (let (correlation, energy) = window_sums modem
           (\<lambda>i. filtered ! (start + i * unat (pp_samples_per_symbol (mo_profile modem))))
     in Some (if energy \<le> 0 then (0, 0)
              else (cmod correlation / sqrt (real RTNC_MODEM_ACQUISITION_SYMBOLS * energy), Arg correlation)))"
proof -
  let ?sps = "unat (pp_samples_per_symbol (mo_profile modem))"
  have "read_stride (mo_training modem) 0 1 32 = Some (map (\<lambda>i. mo_training modem ! i) [0..<32])"
    using read_stride_Some [of 32 0 1 "mo_training modem"] assms(1) by simp
  moreover have "read_stride filtered start ?sps 32 = Some (map (\<lambda>i. filtered ! (start + i * ?sps)) [0..<32])"
    using read_stride_Some [of 32 start ?sps filtered] assms(2) by simp
  ultimately show ?thesis
    unfolding acquisition_score_at_def window_sums_def RTNC_MODEM_ACQUISITION_SYMBOLS_def
    by (simp only: option.case prod.case correlate_map)
qed

lemma ring_score:
  assumes ring: "acquisition_ring d past" and full: "ad_ring_length d \<le> length past"
    and len: "ad_ring_length d = RTNC_MODEM_ACQUISITION_SYMBOLS * unat (pp_samples_per_symbol (mo_profile modem))"
    and ref: "ad_reference d = map (\<lambda>i. mo_training modem ! i) [0..<RTNC_MODEM_ACQUISITION_SYMBOLS]"
    and pre: "take (length past) filtered = past" and tr: "RTNC_MODEM_ACQUISITION_SYMBOLS \<le> length (mo_training modem)"
  shows "\<exists>phase. acquisition_score_at modem filtered (length past - ad_ring_length d) = Some (detector_score d, phase)"
proof -
  let ?n = "ad_ring_length d" and ?sps = "unat (pp_samples_per_symbol (mo_profile modem))" and ?m = "length past"
  have w: "0 < ?n" "ad_write_index d = ?m mod ?n" using ring by (auto simp: acquisition_ring_def)
  have step: "?n div RTNC_MODEM_ACQUISITION_SYMBOLS = ?sps" using len by simp
  have at: "ad_ring d ! ((ad_write_index d + k * ?sps) mod ?n) = filtered ! (?m - ?n + k * ?sps)"
    if k: "k < RTNC_MODEM_ACQUISITION_SYMBOLS" for k
  proof -
    have "k * ?sps < ?n" using k len w(1) by simp
    then have i: "?m - ?n + k * ?sps < ?m" "?m \<le> ?m - ?n + k * ?sps + ?n" using full by linarith+
    have "(?m mod ?n + k * ?sps) mod ?n = (?m - ?n + k * ?sps) mod ?n"
    proof -
      have "(?m mod ?n + k * ?sps) mod ?n = (?m + k * ?sps) mod ?n" by (simp add: mod_add_left_eq)
      also have "?m + k * ?sps = ?m - ?n + k * ?sps + ?n" using full by simp
      finally show ?thesis by simp
    qed
    moreover have "ad_ring d ! ((?m - ?n + k * ?sps) mod ?n) = past ! (?m - ?n + k * ?sps)"
      using ring i unfolding acquisition_ring_def by blast
    moreover have "past ! (?m - ?n + k * ?sps) = filtered ! (?m - ?n + k * ?sps)"
      using i(1) pre by (metis nth_take)
    ultimately show ?thesis using w(2) by simp
  qed
  have "foldl (\<lambda>(correlation, energy) symbol.
               let source = (ad_write_index d + symbol * (?n div RTNC_MODEM_ACQUISITION_SYMBOLS)) mod ?n;
                   received = ad_ring d ! source
               in (correlation + cnj (ad_reference d ! symbol) * received,
                   energy + Re (received * cnj received)))
             (0, 0) [0..<RTNC_MODEM_ACQUISITION_SYMBOLS] =
    window_sums modem (\<lambda>i. filtered ! (?m - ?n + i * ?sps))"
    unfolding window_sums_def
    by (rule foldl_cong) (auto simp: Let_def step [simplified] at [simplified] ref simp del: upt_rec_numeral)
  then have score: "detector_score d = (case window_sums modem (\<lambda>i. filtered ! (?m - ?n + i * ?sps)) of (correlation, energy) \<Rightarrow>
      if energy \<le> 0 then 0 else cmod correlation / sqrt (real RTNC_MODEM_ACQUISITION_SYMBOLS * energy))"
    unfolding detector_score_def by (simp add: Let_def split: prod.splits)
  have "length past \<le> length filtered" using pre by (metis length_take min.cobounded1)
  moreover have "0 < ?sps" using len w(1) by simp
  ultimately have "?m - ?n + 31 * ?sps < length filtered" using full len by simp
  from acquisition_score_window [OF tr this] show ?thesis unfolding score by (auto split: prod.splits)
qed

section \<open>The streaming scores are those of the offline search\<close>

fun acquisition_feed ::
    "'d liquid \<Rightarrow> 'd rtnc_acquisition_detector \<Rightarrow> real list \<Rightarrow> (bool \<times> real) list" where
  \<comment> \<open>the result and the score of every call\<close>
  "acquisition_feed L d [] = []"
| "acquisition_feed L d (sample # rest) =
    (let (triggered, d, score) = rtnc_acquisition_detector_process L d sample 0
     in (triggered, score) # acquisition_feed L d rest)"

definition expected_score :: "'d rtnc_modem \<Rightarrow> nat \<Rightarrow> complex list \<Rightarrow> nat \<Rightarrow> real" where
  \<comment> \<open>after \<open>n\<close> samples: the offline score of the window that ends there, when one is due\<close>
  "expected_score modem stride filtered n =
    (let window = RTNC_MODEM_ACQUISITION_SYMBOLS * unat (pp_samples_per_symbol (mo_profile modem))
     in if scheduled window stride n
        then case acquisition_score_at modem filtered (n - window) of Some (score, _) \<Rightarrow> score | None \<Rightarrow> 0
        else 0)"

definition follows :: "'d rtnc_modem \<Rightarrow> nat \<Rightarrow> 'd rtnc_acquisition_detector \<Rightarrow> complex list \<Rightarrow> bool" where
  \<comment> \<open>the detector was made for this modem and has seen the filtered samples \<open>past\<close>\<close>
  "follows modem stride d past \<longleftrightarrow>
    acquisition_ring d past \<and> 0 < stride \<and> ad_stride_samples d = stride \<and>
    ad_ring_length d = RTNC_MODEM_ACQUISITION_SYMBOLS * unat (pp_samples_per_symbol (mo_profile modem)) \<and>
    ad_reference d = map (\<lambda>i. mo_training modem ! i) [0..<RTNC_MODEM_ACQUISITION_SYMBOLS] \<and>
    RTNC_MODEM_ACQUISITION_SYMBOLS \<le> length (mo_training modem) \<and>
    ad_threshold d = pp_acquisition_threshold (mo_profile modem) \<and>
    ad_stride_count d = stride_phase (ad_ring_length d) stride (length past)"

lemma init_modem_follows:
  assumes "rtnc_acquisition_detector_init_modem L d0 address modem stride = (True, d)"
    and "RTNC_MODEM_ACQUISITION_SYMBOLS \<le> length (mo_training modem)"
  shows "follows modem stride d []" and "ad_modem d = Some address"
proof -
  obtain ok d1 where i: "rtnc_acquisition_detector_init L d0 (mo_profile modem) (mo_training modem) stride
      (pp_acquisition_threshold (mo_profile modem)) = (ok, d1)" by fastforce
  with assms(1) have ok: "ok" and d: "d = d1 \<lparr> ad_modem := Some address \<rparr>"
    by (auto simp: rtnc_acquisition_detector_init_modem_def split: if_splits)
  from i [unfolded ok [THEN eqTrueI]] valid_profile_period [of "mo_profile modem"] assms(2)
  have "follows modem stride d1 []"
    by (auto simp: rtnc_acquisition_detector_init_def Let_def follows_def acquisition_ring_def fresh_detector_def
        stride_phase_def split: if_splits prod.splits)
  with d show "follows modem stride d []" "ad_modem d = Some address"
    by (simp_all add: follows_def acquisition_ring_def)
qed

lemma filter_audio_take:
  "filter_audio L m audio index buffer = Some (True, m', filtered) \<Longrightarrow>
   take index filtered = take index buffer \<and> length filtered = length buffer"
proof (induction audio arbitrary: m index buffer)
  case (Cons x audio)
  from Cons.prems obtain m1 x1 where "filter_audio L m1 audio (index + 1) (buffer[index := x1]) = Some (True, m', filtered)"
    by (auto simp: write_at_def split: prod.splits option.splits if_splits)
  from Cons.IH [OF this] have "take (index + 1) filtered = take (index + 1) (buffer[index := x1])"
    and len: "length filtered = length buffer" by simp_all
  then have "take index (take (index + 1) filtered) = take index (take (index + 1) (buffer[index := x1]))" by simp
  then show ?case using len by simp
qed simp

lemma follows_evaluate:
  assumes f: "follows modem stride d past" and t: "take (length past + 1) filtered = past @ [x]"
    and e: "evaluate (store_filtered (d \<lparr> ad_carrier := c, ad_rrc := v \<rparr>) x) = (triggered, d', score)"
  shows "follows modem stride d' (past @ [x])" and "ad_carrier d' = c" and "ad_rrc d' = v"
    and "score = expected_score modem stride filtered (length past + 1)"
    and "triggered \<longleftrightarrow> scheduled (ad_ring_length d) stride (length past + 1) \<and>
      Fin score \<ge> pp_acquisition_threshold (mo_profile modem)"
proof -
  let ?d = "store_filtered (d \<lparr> ad_carrier := c, ad_rrc := v \<rparr>) x" and ?n = "ad_ring_length d"
  have "acquisition_ring (d \<lparr> ad_carrier := c, ad_rrc := v \<rparr>) past = acquisition_ring d past"
    by (simp add: acquisition_ring_def)
  with f have ring: "acquisition_ring ?d (past @ [x])"
    by (intro store_filtered_ring) (simp add: follows_def)
  then have count: "ad_sample_count ?d = min (length past + 1) ?n" by (simp add: acquisition_ring_def)
  have st: "0 < stride" "ad_stride_samples d = stride" "ad_stride_count d = stride_phase ?n stride (length past)"
    "ad_threshold d = pp_acquisition_threshold (mo_profile modem)"
    "?n = RTNC_MODEM_ACQUISITION_SYMBOLS * unat (pp_samples_per_symbol (mo_profile modem))"
    "ad_reference d = map (\<lambda>i. mo_training modem ! i) [0..<RTNC_MODEM_ACQUISITION_SYMBOLS]"
    "RTNC_MODEM_ACQUISITION_SYMBOLS \<le> length (mo_training modem)"
    using f by (auto simp: follows_def)
  note ph = stride_phase_Suc [OF st(1), of ?n "length past"]
  have due: "(ad_sample_count ?d < ad_ring_length ?d \<or> ad_stride_count ?d < ad_stride_samples ?d) \<longleftrightarrow>
      \<not> scheduled ?n stride (length past + 1)"
    unfolding ph(1) using count st(2,3) by auto
  have sc: "\<exists>phase. acquisition_score_at modem filtered (length past + 1 - ?n) = Some (detector_score (?d \<lparr> ad_stride_count := 0 \<rparr>), phase)"
    if s: "scheduled ?n stride (length past + 1)"
    using ring_score [of "?d \<lparr> ad_stride_count := 0 \<rparr>" "past @ [x]" modem filtered] ring st(5-7) t s
    by (simp add: acquisition_ring_def scheduled_def)
  have d': "d' = fst (snd (evaluate ?d))" using e by simp
  have "ad_stride_count d' = stride_phase ?n stride (length past + 1)"
    unfolding d' ph(2) using due st(2,3) by (simp add: evaluate_def Let_def)
  then show "follows modem stride d' (past @ [x])"
    using f ring by (simp add: d' follows_def evaluate_sel)
  show "ad_carrier d' = c" "ad_rrc d' = v" unfolding d' by (simp_all add: evaluate_sel)
  show "score = expected_score modem stride filtered (length past + 1)"
  proof (cases "scheduled ?n stride (length past + 1)")
    case True
    with sc e due st(5) show ?thesis by (auto simp: evaluate_def Let_def expected_score_def split: if_splits)
  next
    case False
    with e due st(5) show ?thesis by (auto simp: evaluate_def Let_def expected_score_def split: if_splits)
  qed
  show "triggered \<longleftrightarrow> scheduled ?n stride (length past + 1) \<and> Fin score \<ge> pp_acquisition_threshold (mo_profile modem)"
    using e due st(4) by (auto simp: evaluate_def Let_def split: if_splits)
qed

lemma filter_audio_Cons:
  assumes "filter_audio L m (x # audio) index buffer = Some (True, m', filtered)"
  obtains mixed c y v where "rtnc_carrier_downconvert L (mo_carrier m) x = (Some mixed, c)"
    and "rtnc_rrc_match L (mo_rrc m) mixed = (Some y, v)"
    and "filter_audio L (m \<lparr> mo_carrier := c, mo_rrc := v \<rparr>) audio (index + 1) (buffer[index := y]) = Some (True, m', filtered)"
  using assms by (auto simp: write_at_def split: prod.splits option.splits if_splits)

lemma feed_follows:
  assumes "follows modem stride d past" and "ad_carrier d = mo_carrier m" and "ad_rrc d = mo_rrc m"
    and "filter_audio L m audio (length past) buffer = Some (True, m', filtered)"
    and "length past + length audio \<le> length buffer" and "take (length past) buffer = past" and "n < length audio"
  shows "acquisition_feed L d audio ! n =
    (scheduled (ad_ring_length d) stride (length past + n + 1) \<and>
     Fin (expected_score modem stride filtered (length past + n + 1)) \<ge> pp_acquisition_threshold (mo_profile modem),
     expected_score modem stride filtered (length past + n + 1))"
  using assms
proof (induction audio arbitrary: d past m buffer n)
  case (Cons x audio)
  from Cons.prems(4) obtain mixed c y v where down: "rtnc_carrier_downconvert L (mo_carrier m) x = (Some mixed, c)"
    and match: "rtnc_rrc_match L (mo_rrc m) mixed = (Some y, v)"
    and rest: "filter_audio L (m \<lparr> mo_carrier := c, mo_rrc := v \<rparr>) audio (length past + 1) (buffer[length past := y]) =
      Some (True, m', filtered)" by (rule filter_audio_Cons)
  have buffer: "take (length past + 1) (buffer[length past := y]) = past @ [y]"
    using Cons.prems(5,6) by (simp add: take_Suc_update)
  have filtered: "take (length past + 1) filtered = past @ [y]" using filter_audio_take [OF rest] buffer by simp
  obtain triggered d' score where e: "evaluate (store_filtered (d \<lparr> ad_carrier := c, ad_rrc := v \<rparr>) y) = (triggered, d', score)"
    by (cases "evaluate (store_filtered (d \<lparr> ad_carrier := c, ad_rrc := v \<rparr>) y)") auto
  note step = follows_evaluate [OF Cons.prems(1) filtered e]
  have len: "0 < ad_ring_length d" "ad_ring_length d' = ad_ring_length d"
    using Cons.prems(1) step(1) by (auto simp: follows_def acquisition_ring_def)
  have p: "rtnc_acquisition_detector_process L d x 0 = (triggered, d', score)"
    using len(1) Cons.prems(2,3) down match e by (simp add: rtnc_acquisition_detector_process_def)
  show ?case
  proof (cases n)
    case 0
    have "pp_acquisition_threshold (mo_profile modem) \<le> Fin score \<longleftrightarrow>
      pp_acquisition_threshold (mo_profile modem) \<le> Fin (expected_score modem stride filtered (length past + 1))"
      using step(4) by simp
    with 0 p step(4,5) show ?thesis by simp
  next
    case (Suc k)
    have "acquisition_feed L d' audio ! k =
      (scheduled (ad_ring_length d') stride (length (past @ [y]) + k + 1) \<and>
       Fin (expected_score modem stride filtered (length (past @ [y]) + k + 1)) \<ge> pp_acquisition_threshold (mo_profile modem),
       expected_score modem stride filtered (length (past @ [y]) + k + 1))"
      by (rule Cons.IH [OF step(1), where m = "m \<lparr> mo_carrier := c, mo_rrc := v \<rparr>" and buffer = "buffer[length past := y]"])
        (use step(2,3) rest buffer Cons.prems(5,7) Suc in simp_all)
    with Suc p len(2) show ?thesis by simp
  qed
qed simp

subsection \<open>The score is a cosine\<close>

lemma sum_cauchy_schwarz:
  fixes a b :: "nat \<Rightarrow> real"
  shows "(\<Sum>i\<in>A. a i * b i)\<^sup>2 \<le> (\<Sum>i\<in>A. (a i)\<^sup>2) * (\<Sum>i\<in>A. (b i)\<^sup>2)"
proof -
  let ?p = "\<Sum>i\<in>A. (a i)\<^sup>2" and ?q = "\<Sum>i\<in>A. (b i)\<^sup>2" and ?s = "\<Sum>i\<in>A. a i * b i"
  have q: "0 \<le> ?q" "0 \<le> ?p" by (simp_all add: sum_nonneg)
  have "0 \<le> (\<Sum>i\<in>A. (?q * a i - ?s * b i)\<^sup>2)" by (simp add: sum_nonneg)
  also have "\<dots> = (\<Sum>i\<in>A. ?q\<^sup>2 * (a i)\<^sup>2 - 2 * ?q * ?s * (a i * b i) + ?s\<^sup>2 * (b i)\<^sup>2)"
    by (rule sum.cong) (simp_all add: power2_eq_square algebra_simps)
  also have "\<dots> = ?q\<^sup>2 * ?p - 2 * ?q * ?s * ?s + ?s\<^sup>2 * ?q"
    by (simp add: sum.distrib sum_subtractf sum_distrib_left)
  also have "\<dots> = ?q * (?p * ?q - ?s\<^sup>2)" by (simp add: power2_eq_square algebra_simps)
  finally have *: "0 \<le> ?q * (?p * ?q - ?s\<^sup>2)" .
  show ?thesis
  proof (cases "?q = 0")
    case False
    with q * show ?thesis by (simp add: zero_le_mult_iff)
  next
    case True
    then have "b i = 0 \<or> \<not> finite A" if "i \<in> A" for i
      using that by (cases "finite A") (auto simp: sum_nonneg_eq_0_iff)
    then have "?s = 0" by (cases "finite A") (auto intro!: sum.neutral)
    with True show ?thesis by simp
  qed
qed

lemma window_sums_eq:
  "window_sums modem arrived =
    (\<Sum>i<32. cnj (mo_training modem ! i) * arrived i, \<Sum>i<32. (cmod (arrived i))\<^sup>2)"
proof -
  have "foldl (\<lambda>(correlation, energy) i.
        (correlation + cnj (mo_training modem ! i) * arrived i, energy + Re (arrived i * cnj (arrived i))))
      (0, 0) [0..<n] = (\<Sum>i<n. cnj (mo_training modem ! i) * arrived i, \<Sum>i<n. (cmod (arrived i))\<^sup>2)" for n
    by (induction n) (simp_all add: complex_mult_cnj cmod_power2 power2_eq_square [symmetric])
  then show ?thesis unfolding window_sums_def RTNC_MODEM_ACQUISITION_SYMBOLS_def .
qed

lemma acquisition_score_le_1:
  assumes "RTNC_MODEM_ACQUISITION_SYMBOLS \<le> length (mo_training modem)" and "\<forall>t\<in>set (mo_training modem). cmod t \<le> 1"
    and "start + 31 * unat (pp_samples_per_symbol (mo_profile modem)) < length filtered"
  shows "\<exists>score phase. acquisition_score_at modem filtered start = Some (score, phase) \<and> 0 \<le> score \<and> score \<le> 1"
proof -
  let ?x = "\<lambda>i. filtered ! (start + i * unat (pp_samples_per_symbol (mo_profile modem)))"
  let ?c = "\<Sum>i<32. cnj (mo_training modem ! i) * ?x i" and ?e = "\<Sum>i<32. (cmod (?x i))\<^sup>2"
  have t: "cmod (cnj (mo_training modem ! i)) \<le> 1" if "i < 32" for i using assms that by simp
  have "cmod ?c \<le> (\<Sum>i<32. cmod (cnj (mo_training modem ! i) * ?x i))" by (rule norm_sum)
  also have "\<dots> \<le> (\<Sum>i<32. 1 * cmod (?x i))"
    using t by (intro sum_mono) (simp add: norm_mult mult_left_le_one_le)
  finally have "(cmod ?c)\<^sup>2 \<le> (\<Sum>i<32. 1 * cmod (?x i))\<^sup>2" by (simp add: power_mono)
  also have "\<dots> \<le> (\<Sum>i<(32::nat). 1\<^sup>2) * ?e" by (rule sum_cauchy_schwarz)
  finally have "(cmod ?c)\<^sup>2 \<le> 32 * ?e" by simp
  then have le: "cmod ?c \<le> sqrt (32 * ?e)" by (simp add: real_le_rsqrt)
  have f: "acquisition_score_at modem filtered start =
      Some (if ?e \<le> 0 then (0, 0) else (cmod ?c / sqrt (32 * ?e), Arg ?c))"
    unfolding acquisition_score_window [OF assms(1,3)] window_sums_eq by simp
  have e: "0 \<le> ?e" by (simp add: sum_nonneg)
  have "0 \<le> cmod ?c / sqrt (32 * ?e)" "cmod ?c / sqrt (32 * ?e) \<le> 1"
    using e le by (auto simp: divide_le_eq intro: sum_nonneg)
  with f show ?thesis by (cases "?e \<le> 0") simp_all
qed

section \<open>Properties\<close>

text \<open>
  C38: the streaming detector computes what the offline receiver computes.  Made for a modem and fed any
  audio its filters accept, its score after \<open>n\<close> samples is zero until the ring is full and the stride has
  passed, and from then on, every stride samples, exactly the acquisition score the offline receiver gives
  the window of the same filtered audio that ends there; it triggers exactly on the due samples whose score
  reaches the modem's acquisition threshold.  With training symbols of at most unit modulus every score
  lies between 0 and 1.
\<close>

theorem acquisition_streams_offline:
  assumes "rtnc_acquisition_detector_init_modem L d0 address modem stride = (True, d)"
    and "filter_audio L (modem \<lparr> mo_carrier := ad_carrier d, mo_rrc := ad_rrc d \<rparr>) audio 0 buffer = Some (True, modem', filtered)"
    and "length audio \<le> length buffer" and "n < length audio"
    and "RTNC_MODEM_ACQUISITION_SYMBOLS \<le> length (mo_training modem)" and "\<forall>t\<in>set (mo_training modem). cmod t \<le> 1"
  shows "let window = RTNC_MODEM_ACQUISITION_SYMBOLS * unat (pp_samples_per_symbol (mo_profile modem));
             due = (max window stride \<le> n + 1 \<and> (n + 1 - max window stride) mod stride = 0)
         in \<exists>score. acquisition_feed L d audio ! n = (due \<and> Fin score \<ge> pp_acquisition_threshold (mo_profile modem), score) \<and>
            (if due then \<exists>phase. acquisition_score_at modem filtered (n + 1 - window) = Some (score, phase) else score = 0) \<and>
            0 \<le> score \<and> score \<le> 1"
proof -
  note f = init_modem_follows [OF assms(1,5)]
  let ?sps = "unat (pp_samples_per_symbol (mo_profile modem))"
  have len: "ad_ring_length d = RTNC_MODEM_ACQUISITION_SYMBOLS * ?sps" and pos: "0 < ?sps"
    using f(1) by (auto simp: follows_def acquisition_ring_def)
  have long: "n < length filtered" using filter_audio_take [OF assms(2)] assms(3,4) by simp
  have score: "\<exists>score phase. acquisition_score_at modem filtered (n + 1 - RTNC_MODEM_ACQUISITION_SYMBOLS * ?sps) = Some (score, phase) \<and>
      0 \<le> score \<and> score \<le> 1" if "scheduled (RTNC_MODEM_ACQUISITION_SYMBOLS * ?sps) stride (n + 1)"
    by (rule acquisition_score_le_1 [OF assms(5,6)]) (use that long pos in \<open>simp add: scheduled_def\<close>)
  have feed: "acquisition_feed L d audio ! n =
      (scheduled (RTNC_MODEM_ACQUISITION_SYMBOLS * ?sps) stride (n + 1) \<and>
       Fin (expected_score modem stride filtered (n + 1)) \<ge> pp_acquisition_threshold (mo_profile modem),
       expected_score modem stride filtered (n + 1))"
    using feed_follows [where past = "[]", OF f(1), where audio = audio and buffer = buffer and n = n,
        of "modem \<lparr> mo_carrier := ad_carrier d, mo_rrc := ad_rrc d \<rparr>"] assms(2,3,4)
    by (simp add: len)
  show ?thesis
  proof (cases "scheduled (RTNC_MODEM_ACQUISITION_SYMBOLS * ?sps) stride (n + 1)")
    case True
    with score obtain score phase where
      "acquisition_score_at modem filtered (n + 1 - RTNC_MODEM_ACQUISITION_SYMBOLS * ?sps) = Some (score, phase)"
      "0 \<le> score" "score \<le> 1" by blast
    with True feed show ?thesis by (auto simp: Let_def expected_score_def scheduled_def)
  next
    case False
    with feed show ?thesis by (auto simp: Let_def expected_score_def scheduled_def)
  qed
qed

text \<open>
  two detectors are combined fairly.  When both retain a modem, one call feeds the sample to both
  whatever either finds, reports a detection exactly when at least one of them triggers, and names the
  modem of one that did; if both did, the one whose score exceeds its own threshold by more, and the first
  on a tie.
\<close>

lemma acquisition_two_best:
  assumes "ad_modem first = Some a" and "ad_modem second = Some b"
    and "rtnc_acquisition_detector_process L first sample (to_first_score result) = (hit1, first', Fin1)"
    and "rtnc_acquisition_detector_process L second sample 0 = (hit2, second', Fin2)"
  shows "rtnc_acquisition_detector_process_two L first (Some second) sample result =
    (\<lparr> to_detected = hit1 \<or> hit2,
       to_detected_modem =
         (if \<not> hit1 \<and> \<not> hit2 then None
          else if \<not> hit2 then Some a else if \<not> hit1 then Some b
          else if Fin Fin2 - ad_threshold second > Fin Fin1 - ad_threshold first then Some b else Some a),
       to_first_score = Fin1, to_second_score = Fin2 \<rparr>, first', Some second')"
proof -
  have keeps: "ad_modem d' = ad_modem d \<and> ad_threshold d' = ad_threshold d"
    if "rtnc_acquisition_detector_process L d sample s = (hit, d', score)" for d d' s hit score
  proof -
    have "d' = fst (snd (rtnc_acquisition_detector_process L d sample s))" using that by simp
    then show ?thesis
      by (simp add: rtnc_acquisition_detector_process_def evaluate_sel split: prod.splits option.splits)
  qed
  from keeps [OF assms(3)] keeps [OF assms(4)] assms show ?thesis
    by (auto simp: rtnc_acquisition_detector_process_two_def process_second_def better_margin_def Let_def)
qed

subsection \<open>Concrete instances\<close>

definition example_acquisition :: "real \<Rightarrow> nat \<Rightarrow> unit rtnc_acquisition_detector" where
  \<comment> \<open>one sample before an evaluation, with a ring that matches the reference\<close>
  "example_acquisition threshold address =
    (fresh_detector (replicate 32 1) 32 4 (Fin threshold))
      \<lparr> ad_carrier := mo_carrier (example_modem FEC_LDPC_NORMAL), ad_rrc := mo_rrc (example_modem FEC_LDPC_NORMAL),
        ad_ring := replicate 32 1, ad_sample_count := 32, ad_stride_count := 3, ad_modem := Some address \<rparr>"

lemma example_filter:
  assumes "ca_rx_nco (mo_carrier m) = Some ()" "rrc_matched_filter (mo_rrc m) = Some ()" "index + length audio \<le> length buffer"
  shows "\<exists>m' filtered. filter_audio example_liquid m audio index buffer = Some (True, m', filtered)"
  using assms
  by (induction audio arbitrary: m index buffer)
    (simp_all add: rtnc_carrier_downconvert_def rtnc_rrc_match_def example_liquid_def write_at_def)

lemma example_detector_made:
  "\<exists>d. rtnc_acquisition_detector_init_modem example_liquid d0 7 (example_modem FEC_LDPC_NORMAL) 4 = (True, d) \<and>
    ca_rx_nco (ad_carrier d) = Some () \<and> rrc_matched_filter (ad_rrc d) = Some ()"
  by (simp add: rtnc_acquisition_detector_init_modem_def rtnc_acquisition_detector_init_def Let_def fresh_detector_def
      example_modem_ready(2) qpsk_1200_valid [unfolded rtnc_phy_profile_qpsk_1200_def] rtnc_carrier_init_def rtnc_rrc_init_def example_liquid_def
      rtnc_phy_profile_qpsk_1200_def [abs_def])

lemma example_modem_training: "mo_training (example_modem FEC_LDPC_NORMAL) = replicate 96 0"
  by (simp add: example_modem_def init_blocks_def blank_modem_def rtnc_psk_init_def psk_scheme_def rtnc_rrc_init_def
      rtnc_timing_init_def rtnc_equalizer_init_def rtnc_carrier_init_def rtnc_phy_profile_qpsk_1200_def
      example_liquid_def Let_def)

theorem acquisition_streams_offline_witness:
  "\<exists>d. rtnc_acquisition_detector_init_modem example_liquid (example_acquisition 1 7) 7 (example_modem FEC_LDPC_NORMAL) 4 = (True, d) \<and>
     acquisition_feed example_liquid d (replicate 1284 1) ! 1283 = (False, 0)"
proof -
  let ?m = "example_modem FEC_LDPC_NORMAL"
  obtain d where d: "rtnc_acquisition_detector_init_modem example_liquid (example_acquisition 1 7) 7 ?m 4 = (True, d)"
    "ca_rx_nco (ad_carrier d) = Some ()" "rrc_matched_filter (ad_rrc d) = Some ()"
    using example_detector_made by blast
  obtain m' filtered where f: "filter_audio example_liquid (?m \<lparr> mo_carrier := ad_carrier d, mo_rrc := ad_rrc d \<rparr>)
      (replicate 1284 1) 0 (replicate 1284 0) = Some (True, m', filtered)"
    using example_filter [of "?m \<lparr> mo_carrier := ad_carrier d, mo_rrc := ad_rrc d \<rparr>" 0 "replicate 1284 1" "replicate 1284 0"]
      d(2,3) by fastforce
  have "score = 0" if "acquisition_score_at ?m filtered 4 = Some (score, phase)" for score phase
  proof -
    have "length filtered = 1284" using filter_audio_take [OF f] by simp
    then have "acquisition_score_at ?m filtered 4 = Some (if (\<Sum>i<32. (cmod (filtered ! (4 + i * 40)))\<^sup>2) \<le> 0 then (0, 0)
        else (0, Arg 0))"
      by (simp add: acquisition_score_window window_sums_eq example_modem_training example_modem_ready(2)
        rtnc_phy_profile_qpsk_1200_def)
    then show ?thesis using that by (simp split: if_splits)
  qed
  with acquisition_streams_offline [OF d(1) f, of 1283] d(1) show ?thesis
    by (auto simp: example_modem_training example_modem_ready(2) rtnc_phy_profile_qpsk_1200_def)
qed

end
