(* ===== verification/OtaBenchmark.thy ===== *)
theory OtaBenchmark
  imports Prelude
begin

text \<open>
  The benchmark packets of \<^verbatim>\<open>platform/ota_benchmark.c\<close>: a header of 56 bytes with eight big-endian
  fields and the profile name, and for data packets a body every byte of which the header determines.  A
  message's \<^verbatim>\<open>profile\<close> is the full array of 21 bytes.  The last part is the round trip.
\<close>

definition RTNC_OTA_BENCHMARK_VERSION :: nat where [simp]: "RTNC_OTA_BENCHMARK_VERSION = 1"
definition RTNC_OTA_BENCHMARK_PROFILE_MAX :: nat where [simp]: "RTNC_OTA_BENCHMARK_PROFILE_MAX = 20"
definition RTNC_OTA_BENCHMARK_HEADER_SIZE :: nat where [simp]: "RTNC_OTA_BENCHMARK_HEADER_SIZE = 56"
definition RTNC_OTA_BENCHMARK_ANNOUNCE :: nat where [simp]: "RTNC_OTA_BENCHMARK_ANNOUNCE = 1"
definition RTNC_OTA_BENCHMARK_DATA :: nat where [simp]: "RTNC_OTA_BENCHMARK_DATA = 2"

record rtnc_ota_benchmark_message =
  om_type :: nat
  om_run_id :: u32
  om_block_id :: u32
  om_sequence :: u32
  om_packet_count :: u32
  om_payload_size :: u32
  om_seed :: u32
  om_guard_ms :: u32
  om_profile :: bytes

definition benchmark_magic :: bytes where
  "benchmark_magic = [0x52, 0x54, 0x4F, 0x42]"

definition store_u32 :: "u32 \<Rightarrow> bytes" where
  \<comment> \<open>the four bytes written to \<^verbatim>\<open>output\<close>\<close>
  "store_u32 value = [ucast (drop_bit 24 value), ucast (drop_bit 16 value), ucast (drop_bit 8 value), ucast value]"

definition load_u32 :: "bytes \<Rightarrow> u32" where
  "load_u32 input =
    push_bit 24 (ucast (input ! 0)) OR push_bit 16 (ucast (input ! 1)) OR push_bit 8 (ucast (input ! 2)) OR ucast (input ! 3)"

definition body_byte :: "u32 \<Rightarrow> u32 \<Rightarrow> nat \<Rightarrow> u8" where
  "body_byte seed sequence index =
    (let value = seed XOR (sequence * 0x9e3779b9) XOR of_nat index * 0x85ebca6b;
         value = value XOR drop_bit 16 value;
         value = value * 0x7feb352d;
         value = value XOR drop_bit 15 value
     in ucast value)"

definition strnlen :: "bytes \<Rightarrow> nat" where
  \<comment> \<open>of the whole array\<close>
  "strnlen s = length (takeWhile (\<lambda>b. b \<noteq> 0) s)"

definition rtnc_ota_benchmark_encode :: "rtnc_ota_benchmark_message \<Rightarrow> bytes \<Rightarrow> (bytes \<times> nat) option" where
  \<comment> \<open>the packet buffer after a successful call and \<^verbatim>\<open>*packet_length\<close>; its length is the capacity\<close>
  "rtnc_ota_benchmark_encode message packet =
    (if om_type message < RTNC_OTA_BENCHMARK_ANNOUNCE \<or> om_type message > RTNC_OTA_BENCHMARK_DATA then None
     else
       let profile_length = strnlen (om_profile message)
       in if profile_length = 0 \<or> profile_length > RTNC_OTA_BENCHMARK_PROFILE_MAX then None
          else
            let required = (if om_type message = RTNC_OTA_BENCHMARK_DATA then unat (om_payload_size message)
                            else RTNC_OTA_BENCHMARK_HEADER_SIZE)
            in if required < RTNC_OTA_BENCHMARK_HEADER_SIZE \<or> required > length packet then None
               else
                 let packet = buf_write packet 0 (replicate required 0);
                     packet = buf_write packet 0 benchmark_magic;
                     packet = packet[4 := of_nat RTNC_OTA_BENCHMARK_VERSION];
                     packet = packet[5 := of_nat (om_type message)];
                     packet = packet[6 := of_nat profile_length];
                     packet = buf_write packet 8 (store_u32 (om_run_id message));
                     packet = buf_write packet 12 (store_u32 (om_block_id message));
                     packet = buf_write packet 16 (store_u32 (om_sequence message));
                     packet = buf_write packet 20 (store_u32 (om_packet_count message));
                     packet = buf_write packet 24 (store_u32 (om_payload_size message));
                     packet = buf_write packet 28 (store_u32 (om_seed message));
                     packet = buf_write packet 32 (store_u32 (om_guard_ms message));
                     packet = buf_write packet 36 (take profile_length (om_profile message));
                     packet = foldl (\<lambda>packet index. packet[index := body_byte (om_seed message) (om_sequence message) index])
                                packet [RTNC_OTA_BENCHMARK_HEADER_SIZE..<required]
                 in Some (packet, required))"

definition decoded_header :: "bytes \<Rightarrow> nat \<Rightarrow> rtnc_ota_benchmark_message" where
  \<comment> \<open>the message after the \<^verbatim>\<open>memset\<close>, the assignments and the \<^verbatim>\<open>memcpy\<close>\<close>
  "decoded_header packet profile_length =
    \<lparr> om_type = unat (packet ! 5), om_run_id = load_u32 (drop 8 packet), om_block_id = load_u32 (drop 12 packet),
      om_sequence = load_u32 (drop 16 packet), om_packet_count = load_u32 (drop 20 packet),
      om_payload_size = load_u32 (drop 24 packet), om_seed = load_u32 (drop 28 packet),
      om_guard_ms = load_u32 (drop 32 packet),
      om_profile = buf_write (replicate (RTNC_OTA_BENCHMARK_PROFILE_MAX + 1) 0) 0 (take profile_length (drop 36 packet)) \<rparr>"

definition rtnc_ota_benchmark_decode :: "bytes \<Rightarrow> rtnc_ota_benchmark_message option" where
  "rtnc_ota_benchmark_decode packet =
    (if length packet < RTNC_OTA_BENCHMARK_HEADER_SIZE \<or> take 4 packet \<noteq> benchmark_magic \<or>
        unat (packet ! 4) \<noteq> RTNC_OTA_BENCHMARK_VERSION \<or> unat (packet ! 5) < RTNC_OTA_BENCHMARK_ANNOUNCE \<or>
        unat (packet ! 5) > RTNC_OTA_BENCHMARK_DATA then None
     else
       let profile_length = unat (packet ! 6)
       in if profile_length = 0 \<or> profile_length > RTNC_OTA_BENCHMARK_PROFILE_MAX then None
          else
            let message = decoded_header packet profile_length
            in if om_type message = RTNC_OTA_BENCHMARK_DATA \<and>
                  (unat (om_payload_size message) \<noteq> length packet \<or> om_sequence message \<ge> om_packet_count message \<or>
                   list_ex (\<lambda>index. packet ! index \<noteq> body_byte (om_seed message) (om_sequence message) index)
                     [RTNC_OTA_BENCHMARK_HEADER_SIZE..<length packet])
               then None else Some message)"

section \<open>The layout of an encoded packet\<close>

lemma load_store_u32 [simp]: "load_u32 (store_u32 v @ rest) = v"
  using u32_bytes_join [of v] by (simp add: load_u32_def store_u32_def)

lemma length_store_u32 [simp]: "length (store_u32 v) = 4"
  by (simp add: store_u32_def)

definition header_bytes :: "rtnc_ota_benchmark_message \<Rightarrow> bytes" where
  "header_bytes m = benchmark_magic @ [1, of_nat (om_type m), of_nat (strnlen (om_profile m)), 0] @
     store_u32 (om_run_id m) @ store_u32 (om_block_id m) @ store_u32 (om_sequence m) @ store_u32 (om_packet_count m) @
     store_u32 (om_payload_size m) @ store_u32 (om_seed m) @ store_u32 (om_guard_ms m) @
     take (strnlen (om_profile m)) (om_profile m) @ replicate (20 - strnlen (om_profile m)) 0"

lemma strnlen_le: "strnlen s \<le> length s"
  by (simp add: strnlen_def length_takeWhile_le)

lemma body_fold:
  "n \<le> length packet \<Longrightarrow> 56 \<le> n \<Longrightarrow>
   foldl (\<lambda>packet index. packet[index := f index]) packet [56..<n] = take 56 packet @ map f [56..<n] @ drop n packet"
proof (induction n)
  case (Suc n)
  show ?case
  proof (cases "56 \<le> n")
    case True
    with Suc show ?thesis by (simp add: list_update_append Cons_nth_drop_Suc [symmetric])
  qed (use Suc.prems in \<open>simp add: not_less_eq_eq le_Suc_eq\<close>)
qed simp

lemma replicate_36: "replicate 36 x = [x, x, x, x, x, x, x, x, x, x, x, x, x, x, x, x, x, x, x, x, x, x, x, x, x, x, x, x, x,
    x, x, x, x, x, x, x]"
  by (simp add: numeral_eq_Suc)

lemma header_writes:
  assumes "56 \<le> n" "n \<le> length packet" "length name \<le> 20"
  shows "(let packet = buf_write packet 0 (replicate n 0);
                     packet = buf_write packet 0 [m0, m1, m2, m3];
                     packet = packet[4 := b4];
                     packet = packet[5 := b5];
                     packet = packet[6 := b6];
                     packet = buf_write packet 8 (store_u32 w8);
                     packet = buf_write packet 12 (store_u32 w12);
                     packet = buf_write packet 16 (store_u32 w16);
                     packet = buf_write packet 20 (store_u32 w20);
                     packet = buf_write packet 24 (store_u32 w24);
                     packet = buf_write packet 28 (store_u32 w28);
                     packet = buf_write packet 32 (store_u32 w32)
                 in buf_write packet 36 name) =
    ([m0, m1, m2, m3, b4, b5, b6, 0] @ store_u32 w8 @ store_u32 w12 @ store_u32 w16 @ store_u32 w20 @ store_u32 w24 @
      store_u32 w28 @ store_u32 w32 @ name @ replicate (20 - length name) 0) @ replicate (n - 56) 0 @ drop n packet"
proof -
  have "buf_write packet 0 (replicate n 0) = replicate 36 0 @ replicate 20 0 @ replicate (n - 56) 0 @ drop n packet"
    using assms(1) by (simp add: buf_write_def replicate_add [symmetric])
  moreover have "buf_write (h @ replicate 20 0 @ r) 36 name = h @ name @ replicate (20 - length name) 0 @ r"
    if "length h = 36" for h :: bytes and r
    using that assms(3) by (simp add: buf_write_def drop_replicate)
  from this [of "[m0, m1, m2, m3, b4, b5, b6, 0] @ store_u32 w8 @ store_u32 w12 @ store_u32 w16 @ store_u32 w20 @ store_u32 w24 @
      store_u32 w28 @ store_u32 w32"]
  have "buf_write (([m0, m1, m2, m3, b4, b5, b6, 0] @ store_u32 w8 @ store_u32 w12 @ store_u32 w16 @ store_u32 w20 @
      store_u32 w24 @ store_u32 w28 @ store_u32 w32) @ replicate 20 0 @ r) 36 name =
    [m0, m1, m2, m3, b4, b5, b6, 0] @ store_u32 w8 @ store_u32 w12 @ store_u32 w16 @ store_u32 w20 @ store_u32 w24 @
      store_u32 w28 @ store_u32 w32 @ name @ replicate (20 - length name) 0 @ r" for r by simp
  ultimately show ?thesis
    unfolding Let_def replicate_36 by (simp add: buf_write_def store_u32_def le_add_diff_inverse [OF assms(1)])
qed

lemma encode_layout:
  assumes "rtnc_ota_benchmark_encode m packet = Some (p, n)"
  shows "p = header_bytes m @ map (body_byte (om_seed m) (om_sequence m)) [56..<n] @ drop n packet"
    and "56 \<le> n" and "n \<le> length packet" and "n = (if om_type m = 2 then unat (om_payload_size m) else 56)"
    and "om_type m = 1 \<or> om_type m = 2" and "0 < strnlen (om_profile m)" and "strnlen (om_profile m) \<le> 20"
proof -
  let ?k = "strnlen (om_profile m)"
  from assms have g: "om_type m = 1 \<or> om_type m = 2" "0 < ?k" "?k \<le> 20" "56 \<le> n" "n \<le> length packet"
    "n = (if om_type m = 2 then unat (om_payload_size m) else 56)"
    by (auto simp: rtnc_ota_benchmark_encode_def Let_def split: if_splits)
  then show "56 \<le> n" "n \<le> length packet" "n = (if om_type m = 2 then unat (om_payload_size m) else 56)"
    "om_type m = 1 \<or> om_type m = 2" "0 < ?k" "?k \<le> 20" by blast+
  have name: "length (take ?k (om_profile m)) = ?k" using strnlen_le by simp
  then have fits: "length (take ?k (om_profile m)) \<le> 20" using g(3) by simp
  let ?h = "header_bytes m @ replicate (n - 56) 0 @ drop n packet"
  have len: "length (header_bytes m) = 56" using name g(3) by (simp add: header_bytes_def benchmark_magic_def)
  have "p = foldl (\<lambda>packet index. packet[index := body_byte (om_seed m) (om_sequence m) index]) ?h [56..<n]"
    using assms g header_writes [OF g(4,5) fits, of "0x52" "0x54" "0x4F" "0x42" 1 "of_nat (om_type m)" "of_nat ?k"
      "om_run_id m" "om_block_id m" "om_sequence m" "om_packet_count m" "om_payload_size m" "om_seed m" "om_guard_ms m"]
    unfolding rtnc_ota_benchmark_encode_def Let_def header_bytes_def benchmark_magic_def name
    by (auto split: if_splits)
  also have "\<dots> = take 56 ?h @ map (body_byte (om_seed m) (om_sequence m)) [56..<n] @ drop n ?h"
    by (rule body_fold) (use g len in simp_all)
  finally show "p = header_bytes m @ map (body_byte (om_seed m) (om_sequence m)) [56..<n] @ drop n packet"
    using g len by simp
qed

lemma encode_accepts:
  assumes "om_type m = 2" "56 \<le> unat (om_payload_size m)" "unat (om_payload_size m) \<le> length packet"
    and "0 < strnlen (om_profile m)" "strnlen (om_profile m) \<le> 20"
  shows "\<exists>p. rtnc_ota_benchmark_encode m packet = Some (p, unat (om_payload_size m))"
  using assms unfolding rtnc_ota_benchmark_encode_def Let_def by simp

lemma header_decodes:
  assumes "strnlen (om_profile m) \<le> 20" and "om_type m = 1 \<or> om_type m = 2"
  shows "decoded_header (header_bytes m @ rest) (strnlen (om_profile m)) =
    m \<lparr> om_profile := take (strnlen (om_profile m)) (om_profile m) @ replicate (21 - strnlen (om_profile m)) 0 \<rparr>"
proof -
  let ?k = "strnlen (om_profile m)"
  have "length (take ?k (om_profile m)) = ?k" using strnlen_le by simp
  moreover have "header_bytes m ! 5 = of_nat (om_type m)" by (simp add: header_bytes_def benchmark_magic_def)
  ultimately show ?thesis
    using assms unfolding decoded_header_def
    by (auto simp: header_bytes_def benchmark_magic_def buf_write_def nth_append)
qed

lemma header_checks:
  assumes "strnlen (om_profile m) \<le> 20" and "om_type m = 1 \<or> om_type m = 2"
  shows "length (header_bytes m) = 56" "take 4 (header_bytes m @ rest) = benchmark_magic"
    "(header_bytes m @ rest) ! 4 = 1" "(header_bytes m @ rest) ! 5 = of_nat (om_type m)"
    "(header_bytes m @ rest) ! 6 = of_nat (strnlen (om_profile m))"
  using assms strnlen_le [of "om_profile m"] by (auto simp: header_bytes_def benchmark_magic_def)

lemma shifted_ex: "(\<exists>i\<in>{56..<56 + (l :: nat)}. P i) \<longleftrightarrow> (\<exists>k<l. P (56 + k))"
proof
  assume "\<exists>i\<in>{56..<56 + l}. P i"
  then obtain i where "56 \<le> i" "i < 56 + l" "P i" by auto
  then have "i - 56 < l \<and> P (56 + (i - 56))" by auto
  then show "\<exists>k<l. P (56 + k)" by blast
qed auto

lemma decode_laid_out:
  assumes "0 < strnlen (om_profile m)" and "strnlen (om_profile m) \<le> 20" and "om_type m = 1 \<or> om_type m = 2"
  shows "rtnc_ota_benchmark_decode (header_bytes m @ body) =
    (if om_type m = 2 \<and> (unat (om_payload_size m) \<noteq> 56 + length body \<or> om_packet_count m \<le> om_sequence m \<or>
        body \<noteq> map (body_byte (om_seed m) (om_sequence m)) [56..<56 + length body])
     then None
     else Some (m \<lparr> om_profile := take (strnlen (om_profile m)) (om_profile m) @ replicate (21 - strnlen (om_profile m)) 0 \<rparr>))"
proof -
  let ?f = "body_byte (om_seed m) (om_sequence m)"
  note h = header_checks [OF assms(2,3)]
  have "list_ex (\<lambda>i. (header_bytes m @ body) ! i \<noteq> ?f i) [56..<56 + length body] \<longleftrightarrow> body \<noteq> map ?f [56..<56 + length body]"
  proof -
    have at: "(header_bytes m @ body) ! (56 + k) = body ! k" for k using h(1) by (simp add: nth_append)
    have "(\<exists>i\<in>{56..<56 + length body}. (header_bytes m @ body) ! i \<noteq> ?f i) \<longleftrightarrow>
      (\<exists>k<length body. body ! k \<noteq> ?f (56 + k))"
      unfolding shifted_ex at ..
    also have "\<dots> \<longleftrightarrow> body \<noteq> map ?f [56..<56 + length body]"
    proof -
      have "length (map g [56..<56 + l]) = l" "k < l \<Longrightarrow> map g [56..<56 + l] ! k = g (56 + k)" for l k and g :: "nat \<Rightarrow> u8"
        by (simp_all del: upt_rec_numeral)
      then show ?thesis unfolding list_eq_iff_nth_eq by metis
    qed
    finally show ?thesis by (simp add: list_ex_iff del: upt_rec_numeral)
  qed
  moreover have "unat (of_nat (om_type m) :: u8) = om_type m" using assms(3) by auto
  ultimately show ?thesis
    using assms h header_decodes [OF assms(2,3), of body]
    by (auto simp: rtnc_ota_benchmark_decode_def Let_def simp del: upt_rec_numeral)
qed

section \<open>Properties\<close>

text \<open>
  C39: benchmark packets survive the radio unchanged or are rejected.  Decoding an encoded packet returns the
  message with the profile's bytes after its end cleared, except for a data message whose sequence number
  is not below its packet count: that one the encoder accepts and the decoder rejects.  In a data packet a
  wrong byte anywhere in the body makes the decoder reject it.
\<close>

theorem ota_roundtrip:
  assumes "rtnc_ota_benchmark_encode m packet = Some (p, n)"
  shows "rtnc_ota_benchmark_decode (take n p) =
     (if om_type m = RTNC_OTA_BENCHMARK_DATA \<and> om_packet_count m \<le> om_sequence m then None
      else Some (m \<lparr> om_profile := take (strnlen (om_profile m)) (om_profile m) @
                       replicate (RTNC_OTA_BENCHMARK_PROFILE_MAX + 1 - strnlen (om_profile m)) 0 \<rparr>)) \<and>
    (\<forall>i b. RTNC_OTA_BENCHMARK_HEADER_SIZE \<le> i \<and> i < n \<and> b \<noteq> p ! i \<longrightarrow>
       rtnc_ota_benchmark_decode ((take n p)[i := b]) = None)"
proof -
  note e = encode_layout [OF assms]
  let ?body = "map (body_byte (om_seed m) (om_sequence m)) [56..<n]"
  note h = header_checks [OF e(7,5)] and d = decode_laid_out [OF e(6,7,5)]
  have p: "take n p = header_bytes m @ ?body" using e(1,2) h(1) by simp
  have "rtnc_ota_benchmark_decode ((take n p)[i := b]) = None" if i: "56 \<le> i" "i < n" "b \<noteq> p ! i" for i b
  proof -
    have data: "om_type m = 2" using i(1,2) e(4) by (cases "om_type m = 2") auto
    have "i - 56 < n - 56" using i by linarith
    then have pi: "p ! i = ?body ! (i - 56)" using e(1) h(1) i by (simp add: nth_append)
    have "(take n p)[i := b] = header_bytes m @ ?body[i - 56 := b]" unfolding p using h(1) i by (simp add: list_update_append)
    moreover have "?body[i - 56 := b] \<noteq> ?body"
    proof
      assume "?body[i - 56 := b] = ?body"
      then have "?body[i - 56 := b] ! (i - 56) = ?body ! (i - 56)" by simp
      with i pi show False by simp
    qed
    ultimately show ?thesis using d [of "?body[i - 56 := b]"] data e(2) by simp
  qed
  moreover have "unat (om_payload_size m) = n" if "om_type m = 2" using e(4) that by simp
  ultimately show ?thesis using d [of ?body] e(2) unfolding p by auto
qed

definition example_message :: rtnc_ota_benchmark_message where
  "example_message = \<lparr> om_type = 2, om_run_id = 7, om_block_id = 1, om_sequence = 3, om_packet_count = 4,
     om_payload_size = 60, om_seed = 99, om_guard_ms = 5000, om_profile = [0x71, 0x31] @ replicate 19 0 \<rparr>"

theorem ota_roundtrip_witness:
  "\<exists>p. rtnc_ota_benchmark_encode example_message (replicate 128 0xff) = Some (p, 60) \<and>
     rtnc_ota_benchmark_decode (take 60 p) = Some example_message \<and>
     rtnc_ota_benchmark_decode ((take 60 p)[58 := p ! 58 + 1]) = None"
proof -
  have k: "strnlen (om_profile example_message) = 2" by (simp add: strnlen_def example_message_def)
  have "\<exists>p. rtnc_ota_benchmark_encode example_message (replicate 128 0xff) = Some (p, unat (om_payload_size example_message))"
    by (rule encode_accepts) (simp_all add: k, simp_all add: example_message_def)
  then obtain p where p: "rtnc_ota_benchmark_encode example_message (replicate 128 0xff) = Some (p, 60)"
    by (auto simp: example_message_def)
  have "example_message \<lparr> om_profile := take 2 (om_profile example_message) @ replicate 19 0 \<rparr> = example_message"
    by (simp add: example_message_def)
  with ota_roundtrip [OF p] p k show ?thesis by (auto simp: example_message_def)
qed

end
