(* ===== verification/Wav.thy ===== *)
theory Wav
  imports Prelude "HOL-Library.Monad_Syntax"
begin

text \<open>
  WAV files with one channel of signed 16-bit samples, \<^verbatim>\<open>platform/wav.c\<close>.  A \<^verbatim>\<open>FILE\<close> open for writing
  is what it holds and how many more bytes the medium takes: \<^verbatim>\<open>fwrite\<close> writes as many as fit.  A
  \<^verbatim>\<open>FILE\<close> open for reading is what is left to read: \<^verbatim>\<open>fread\<close> returns as many as there are.  The last part
  states when writing succeeds and that reading returns what was written.
\<close>

datatype rtnc_wav_status =
  RTNC_WAV_OK
| RTNC_WAV_INVALID_ARGUMENT
| RTNC_WAV_IO_ERROR
| RTNC_WAV_INVALID_FORMAT
| RTNC_WAV_BUFFER_TOO_SMALL

record sink =
  sk_bytes :: bytes
  sk_room :: nat

definition fwrite :: "bytes \<Rightarrow> sink \<Rightarrow> bool \<times> sink" where
  \<comment> \<open>whether everything was written\<close>
  "fwrite data stream =
    (length data \<le> sk_room stream,
     stream \<lparr> sk_bytes := sk_bytes stream @ take (sk_room stream) data, sk_room := sk_room stream - length data \<rparr>)"

definition u16le :: "u16 \<Rightarrow> bytes" where
  "u16le value = [ucast (value AND 0xff), ucast (drop_bit 8 value AND 0xff)]"

definition u32le :: "u32 \<Rightarrow> bytes" where
  "u32le value = [ucast (value AND 0xff), ucast (drop_bit 8 value AND 0xff), ucast (drop_bit 16 value AND 0xff),
                  ucast (drop_bit 24 value AND 0xff)]"

definition write_u16le :: "u16 \<Rightarrow> sink \<Rightarrow> bool \<times> sink" where
  "write_u16le value stream = fwrite (u16le value) stream"

definition write_u32le :: "u32 \<Rightarrow> sink \<Rightarrow> bool \<times> sink" where
  "write_u32le value stream = fwrite (u32le value) stream"

fun in_turn :: "(sink \<Rightarrow> bool \<times> sink) list \<Rightarrow> sink \<Rightarrow> bool \<times> sink" where
  \<comment> \<open>a chain of \<^verbatim>\<open>||\<close> or a loop whose body returns at the first failure\<close>
  "in_turn [] stream = (True, stream)"
| "in_turn (step # steps) stream =
    (let (ok, stream) = step stream in if ok then in_turn steps stream else (False, stream))"

definition text_bytes :: "string \<Rightarrow> bytes" where
  "text_bytes text = map of_char text"

definition wav_header :: "u32 \<Rightarrow> u32 \<Rightarrow> (sink \<Rightarrow> bool \<times> sink) list" where
  "wav_header sample_rate_hz data_bytes =
    [fwrite (text_bytes ''RIFF''), write_u32le (36 + data_bytes), fwrite (text_bytes ''WAVEfmt ''), write_u32le 16,
     write_u16le 1, write_u16le 1, write_u32le sample_rate_hz,
     \<lambda>stream. (\<not> sample_rate_hz > (- 1) div 2, stream), write_u32le (sample_rate_hz * 2),
     write_u16le 2, write_u16le 16, fwrite (text_bytes ''data''), write_u32le data_bytes]"

definition rtnc_wav_write_mono_s16 :: "sink \<Rightarrow> u32 \<Rightarrow> s16 list \<Rightarrow> rtnc_wav_status \<times> sink" where
  "rtnc_wav_write_mono_s16 stream sample_rate_hz samples =
    (if sample_rate_hz = 0 \<or> length samples > (2 ^ 32 - 1) div 2 then (RTNC_WAV_INVALID_ARGUMENT, stream)
     else
       let data_bytes = of_nat (length samples * 2);
           (ok, stream) = in_turn (wav_header sample_rate_hz data_bytes) stream
       in if \<not> ok then (RTNC_WAV_IO_ERROR, stream)
          else
            let (ok, stream) = in_turn (map write_u16le samples) stream
            in (if ok then RTNC_WAV_OK else RTNC_WAV_IO_ERROR, stream))"

definition fread :: "nat \<Rightarrow> bytes \<Rightarrow> bytes option \<times> bytes" where
  \<comment> \<open>\<open>None\<close>: fewer bytes were left than asked for\<close>
  "fread n stream = (if n \<le> length stream then Some (take n stream) else None, drop n stream)"

definition read_u16le :: "bytes \<Rightarrow> u16 option \<times> bytes" where
  "read_u16le stream =
    (let (result, stream) = fread 2 stream
     in (do { b \<leftarrow> result; Some (ucast (b ! 0) OR push_bit 8 (ucast (b ! 1))) }, stream))"

definition read_u32le :: "bytes \<Rightarrow> u32 option \<times> bytes" where
  "read_u32le stream =
    (let (result, stream) = fread 4 stream
     in (do { b \<leftarrow> result; Some (ucast (b ! 0) OR push_bit 8 (ucast (b ! 1)) OR push_bit 16 (ucast (b ! 2)) OR
                            push_bit 24 (ucast (b ! 3))) }, stream))"

definition read_tag :: "string \<Rightarrow> bytes \<Rightarrow> unit option \<times> bytes" where
  "read_tag tag stream =
    (let (result, stream) = fread 4 stream in (if result = Some (text_bytes tag) then Some () else None, stream))"

definition and_then :: "'a option \<times> bytes \<Rightarrow> ('a \<Rightarrow> bytes \<Rightarrow> 'b option \<times> 's) \<Rightarrow> (bytes \<Rightarrow> 's) \<Rightarrow> 'b option \<times> 's" where
  \<comment> \<open>one operand of the chain: go on with the value read, or end with what the callers see\<close>
  "and_then result rest stop =
    (case result of (None, stream) \<Rightarrow> (None, stop stream) | (Some value, stream) \<Rightarrow> rest value stream)"

record wav_format =
  wf_format :: u16
  wf_channels :: u16
  wf_block_align :: u16
  wf_bits_per_sample :: u16
  wf_data_size :: u32

definition read_header :: "bytes \<Rightarrow> u32 \<Rightarrow> wav_format option \<times> u32 \<times> bytes" where
  \<comment> \<open>the second value is \<^verbatim>\<open>*sample_rate_hz\<close>, stored half-way\<close>
  "read_header stream rate =
    and_then (read_tag ''RIFF'' stream) (\<lambda>_ stream.
    and_then (read_u32le stream) (\<lambda>ignored_size stream.
    and_then (read_tag ''WAVE'' stream) (\<lambda>_ stream.
    and_then (read_tag ''fmt '' stream) (\<lambda>_ stream.
    and_then (read_u32le stream) (\<lambda>fmt_size stream.
    if fmt_size \<noteq> 16 then (None, rate, stream) else
    and_then (read_u16le stream) (\<lambda>format stream.
    and_then (read_u16le stream) (\<lambda>channels stream.
    and_then (read_u32le stream) (\<lambda>sample_rate_hz stream.
    and_then (read_u32le stream) (\<lambda>ignored_size stream.
    and_then (read_u16le stream) (\<lambda>block_align stream.
    and_then (read_u16le stream) (\<lambda>bits_per_sample stream.
    and_then (read_tag ''data'' stream) (\<lambda>_ stream.
    and_then (read_u32le stream) (\<lambda>data_size stream.
      (Some \<lparr> wf_format = format, wf_channels = channels, wf_block_align = block_align,
              wf_bits_per_sample = bits_per_sample, wf_data_size = data_size \<rparr>, sample_rate_hz, stream))
    (Pair sample_rate_hz)) (Pair sample_rate_hz)) (Pair sample_rate_hz)) (Pair sample_rate_hz)) (Pair sample_rate_hz))
    (Pair rate)) (Pair rate)) (Pair rate)) (Pair rate)) (Pair rate)) (Pair rate)) (Pair rate)) (Pair rate)"

fun read_samples :: "nat list \<Rightarrow> bytes \<Rightarrow> s16 list \<Rightarrow> bool \<times> s16 list \<times> bytes" where
  "read_samples [] stream samples = (True, samples, stream)"
| "read_samples (index # rest) stream samples =
    (case read_u16le stream of
       (None, stream) \<Rightarrow> (False, samples, stream)
     | (Some value, stream) \<Rightarrow> read_samples rest stream (samples[index := value]))"

record wav_result =
  wr_status :: rtnc_wav_status
  wr_sample_rate_hz :: u32
  wr_samples :: "s16 list"
  wr_sample_count :: nat

definition rtnc_wav_read_mono_s16 :: "bytes \<Rightarrow> u32 \<Rightarrow> s16 list \<Rightarrow> nat \<Rightarrow> wav_result \<times> bytes" where
  \<comment> \<open>the caller's three variables before the call are arguments; the capacity is the length of \<open>samples\<close>\<close>
  "rtnc_wav_read_mono_s16 stream rate samples count =
    (case read_header stream rate of
       (None, rate, stream) \<Rightarrow> (\<lparr> wr_status = RTNC_WAV_INVALID_FORMAT, wr_sample_rate_hz = rate,
                                 wr_samples = samples, wr_sample_count = count \<rparr>, stream)
     | (Some header, rate, stream) \<Rightarrow>
         let result = \<lparr> wr_status = RTNC_WAV_INVALID_FORMAT, wr_sample_rate_hz = rate,
                        wr_samples = samples, wr_sample_count = count \<rparr>
         in if wf_format header \<noteq> 1 \<or> wf_channels header \<noteq> 1 \<or> wf_block_align header \<noteq> 2 \<or>
               wf_bits_per_sample header \<noteq> 16 \<or> wf_data_size header mod 2 \<noteq> 0 then (result, stream)
            else
              let count = unat (wf_data_size header) div 2;
                  result = result \<lparr> wr_sample_count := count \<rparr>
              in if count > length samples then (result \<lparr> wr_status := RTNC_WAV_BUFFER_TOO_SMALL \<rparr>, stream)
                 else
                   let (ok, samples, stream) = read_samples [0..<count] stream samples
                   in (result \<lparr> wr_status := (if ok then RTNC_WAV_OK else RTNC_WAV_IO_ERROR), wr_samples := samples \<rparr>,
                       stream))"

section \<open>Writing\<close>

definition header_front :: "u32 \<Rightarrow> u32 \<Rightarrow> bytes list" where
  "header_front rate data_bytes =
    [text_bytes ''RIFF'', u32le (36 + data_bytes), text_bytes ''WAVEfmt '', u32le 16, u16le 1, u16le 1, u32le rate]"

definition header_back :: "u32 \<Rightarrow> u32 \<Rightarrow> bytes list" where
  "header_back rate data_bytes = [u32le (rate * 2), u16le 2, u16le 16, text_bytes ''data'', u32le data_bytes]"

definition wav_encoding :: "u32 \<Rightarrow> s16 list \<Rightarrow> bytes" where
  \<comment> \<open>the file the writer means to produce\<close>
  "wav_encoding rate samples =
    concat (header_front rate (of_nat (length samples * 2))) @ concat (header_back rate (of_nat (length samples * 2))) @
    concat (map u16le samples)"

lemma lengths [simp]: "length (u16le v) = 2" "length (u32le w) = 4" "length (text_bytes t) = length t"
  by (simp_all add: u16le_def u32le_def text_bytes_def)

lemma length_samples [simp]: "length (concat (map u16le samples)) = 2 * length samples"
  by (induction samples) simp_all

lemma length_front: "length (concat (header_front rate n)) = 28" and length_back: "length (concat (header_back rate n)) = 16"
  by (simp_all add: header_front_def header_back_def)

lemma fwrite_append:
  "fwrite (a @ b) s = (let (ok, s') = fwrite a s in if ok then fwrite b s' else (False, s'))"
  by (auto simp: fwrite_def)

lemma in_turn_append: "in_turn (xs @ ys) s = (let (ok, s') = in_turn xs s in if ok then in_turn ys s' else (False, s'))"
  by (induction xs arbitrary: s) (auto simp: Let_def split: prod.splits)

lemma in_turn_fwrite: "in_turn (map fwrite ds) s = fwrite (concat ds) s"
proof (induction ds arbitrary: s)
  case Nil
  then show ?case by (simp add: fwrite_def)
qed (simp add: fwrite_append Let_def split: prod.splits)

lemma header_in_turn:
  "in_turn (wav_header rate n) s =
    (let (ok, s') = fwrite (concat (header_front rate n)) s
     in if \<not> ok \<or> rate > (- 1) div 2 then (False, s') else fwrite (concat (header_back rate n)) s')"
proof -
  have "wav_header rate n = map fwrite (header_front rate n) @
      [\<lambda>stream. (\<not> rate > (- 1) div 2, stream)] @ map fwrite (header_back rate n)"
    by (simp add: wav_header_def header_front_def header_back_def write_u32le_def [abs_def] write_u16le_def [abs_def])
  then show ?thesis by (simp add: in_turn_append in_turn_fwrite Let_def split: prod.splits)
qed

lemma samples_in_turn: "in_turn (map write_u16le samples) s = fwrite (concat (map u16le samples)) s"
  using in_turn_fwrite [of "map u16le samples" s] by (simp add: o_def write_u16le_def [abs_def])

lemma fst_fwrite: "fst (fwrite data s) \<longleftrightarrow> length data \<le> sk_room s"
  by (simp add: fwrite_def)

lemma write_outcome:
  assumes "rate \<noteq> 0" and "length samples \<le> 2147483647"
  shows "rtnc_wav_write_mono_s16 s rate samples =
    (if rate > 0x7FFFFFFF then (RTNC_WAV_IO_ERROR, snd (fwrite (take 28 (wav_encoding rate samples)) s))
     else (if 44 + 2 * length samples \<le> sk_room s then RTNC_WAV_OK else RTNC_WAV_IO_ERROR,
           snd (fwrite (wav_encoding rate samples) s)))"
proof -
  let ?n = "of_nat (length samples * 2) :: u32"
  let ?a = "concat (header_front rate ?n)" and ?b = "concat (header_back rate ?n)" and ?c = "concat (map u16le samples)"
  have half: "(- 1 :: u32) div 2 = 0x7FFFFFFF" by simp
  have front: "take 28 (wav_encoding rate samples) = ?a"
    using length_front [of rate ?n] by (simp add: wav_encoding_def)
  have "fwrite (wav_encoding rate samples) s =
    (let (ok, s1) = fwrite ?a s
     in if ok then (let (ok, s2) = fwrite ?b s1 in if ok then fwrite ?c s2 else (False, s2)) else (False, s1))"
    by (simp only: wav_encoding_def fwrite_append)
  moreover have "fst (fwrite (wav_encoding rate samples) s) \<longleftrightarrow> 44 + 2 * length samples \<le> sk_room s"
    using length_front [of rate ?n] length_back [of rate ?n] by (simp add: fst_fwrite wav_encoding_def)
  ultimately show ?thesis
    using assms unfolding rtnc_wav_write_mono_s16_def header_in_turn half front samples_in_turn Let_def
    by (auto split: prod.splits if_splits)
qed

section \<open>Reading\<close>

lemma u16_bytes_join: "ucast (ucast (v AND 0xff) :: u8) OR push_bit 8 (ucast (ucast (drop_bit 8 v AND 0xff) :: u8)) = (v :: u16)"
proof -
  have m: "(0xff :: u16) = mask 8" by (simp add: mask_eq_exp_minus_1)
  show ?thesis
    unfolding m
  proof (rule bit_word_eqI)
    fix n
    assume "n < LENGTH(16)"
    then consider "n < 8" | "8 \<le> n" "n < 16" by fastforce
    then show "bit ((ucast (ucast (v AND mask 8) :: u8) :: u16) OR push_bit 8 (ucast (ucast (drop_bit 8 v AND mask 8) :: u8))) n =
        bit v n"
      by cases (auto simp: bit_or_iff bit_and_iff bit_mask_iff bit_push_bit_iff bit_unsigned_iff bit_drop_bit_eq)
  qed
qed

lemma ucast_low_byte: "(ucast (w AND 0xff) :: u8) = ucast (w :: u32)"
proof -
  have m: "(0xff :: u32) = mask 8" by (simp add: mask_eq_exp_minus_1)
  show ?thesis
    unfolding m by (rule bit_word_eqI) (simp add: bit_and_iff bit_mask_iff bit_unsigned_iff)
qed

lemma read_written [simp]:
  "read_u16le (u16le v @ rest) = (Some v, rest)"
  "read_u32le (u32le w @ rest) = (Some w, rest)"
  "length tag = 4 \<Longrightarrow> read_tag tag (text_bytes tag @ rest) = (Some (), rest)"
  using u16_bytes_join [of v] u32_bytes_join [of w]
  by (simp_all add: read_u16le_def read_u32le_def read_tag_def fread_def)
    (simp_all add: u16le_def u32le_def ucast_low_byte or.commute or.left_commute)

lemma text_wave_fmt: "text_bytes ''WAVEfmt '' = text_bytes ''WAVE'' @ text_bytes ''fmt ''"
  by (simp add: text_bytes_def)

lemma read_samples_written:
  "start + length xs \<le> length buffer \<Longrightarrow>
   read_samples [start..<start + length xs] (concat (map u16le xs) @ rest) buffer = (True, buf_write buffer start xs, rest)"
proof (induction xs arbitrary: start buffer)
  case (Cons x xs)
  have "[start..<start + length (x # xs)] = start # [start + 1..<start + 1 + length xs]"
    by (simp add: upt_conv_Cons del: upt_Suc)
  moreover have "buf_write (buffer[start := x]) (start + 1) xs = buf_write buffer start (x # xs)"
    using Cons.prems by (simp add: buf_write_def take_Suc_update drop_update_cancel)
  ultimately show ?case using Cons.IH [of "start + 1" "buffer[start := x]"] Cons.prems by simp
qed (simp add: buf_write_def)

lemma read_outcome:
  assumes "length samples \<le> 2147483647"
  shows "rtnc_wav_read_mono_s16 (wav_encoding rate samples @ rest) old buffer count =
    (if length samples \<le> length buffer
     then (\<lparr> wr_status = RTNC_WAV_OK, wr_sample_rate_hz = rate, wr_samples = buf_write buffer 0 samples,
             wr_sample_count = length samples \<rparr>, rest)
     else (\<lparr> wr_status = RTNC_WAV_BUFFER_TOO_SMALL, wr_sample_rate_hz = rate, wr_samples = buffer,
             wr_sample_count = length samples \<rparr>, concat (map u16le samples) @ rest))"
proof -
  let ?n = "of_nat (length samples * 2) :: u32"
  have n: "unat ?n = length samples * 2" using assms by (simp add: unat_of_nat take_bit_nat_eq_self del: of_nat_mult)
  then have even: "?n mod 2 = 0" by (simp add: word_eq_iff_unsigned unat_mod unsigned_eq_0_iff [symmetric] flip: unat_eq_0)
  have "read_header (wav_encoding rate samples @ rest) old =
    (Some \<lparr> wf_format = 1, wf_channels = 1, wf_block_align = 2, wf_bits_per_sample = 16, wf_data_size = ?n \<rparr>, rate,
     concat (map u16le samples) @ rest)"
    by (simp add: read_header_def wav_encoding_def header_front_def header_back_def text_wave_fmt and_then_def del: of_nat_mult)
  then show ?thesis
    using n even read_samples_written [of 0 samples buffer rest]
    by (simp add: rtnc_wav_read_mono_s16_def Let_def del: of_nat_mult)
qed

section \<open>Properties\<close>

text \<open>
  a WAV file that was written is read back.  The writer succeeds exactly when the sample rate is
  between 1 and 2147483647, there are at most 2147483647 samples and the medium has room for all 44 + 2n
  bytes.  Then whatever follows in the file, the reader returns the rate and the samples if the buffer has
  room for them, leaving the rest of the buffer alone, and otherwise says that it is too small, tells how
  many samples there are, and touches nothing.
\<close>

lemma wav_roundtrip:
  "(fst (rtnc_wav_write_mono_s16 file rate samples) = RTNC_WAV_OK \<longleftrightarrow>
      0 < rate \<and> rate \<le> 0x7FFFFFFF \<and> length samples \<le> 2147483647 \<and> 44 + 2 * length samples \<le> sk_room file) \<and>
   (rtnc_wav_write_mono_s16 file rate samples = (RTNC_WAV_OK, file') \<longrightarrow>
     (\<exists>written. sk_bytes file' = sk_bytes file @ written \<and>
        rtnc_wav_read_mono_s16 (written @ rest) old buffer count =
          (if length samples \<le> length buffer
           then (\<lparr> wr_status = RTNC_WAV_OK, wr_sample_rate_hz = rate, wr_samples = samples @ drop (length samples) buffer,
                   wr_sample_count = length samples \<rparr>, rest)
           else (\<lparr> wr_status = RTNC_WAV_BUFFER_TOO_SMALL, wr_sample_rate_hz = rate, wr_samples = buffer,
                   wr_sample_count = length samples \<rparr>, concat (map u16le samples) @ rest))))"
proof (cases "rate = 0 \<or> length samples > 2147483647")
  case True
  then show ?thesis by (auto simp: rtnc_wav_write_mono_s16_def)
next
  case False
  then have g: "rate \<noteq> 0" "length samples \<le> 2147483647" by auto
  have len: "length (wav_encoding rate samples) = 44 + 2 * length samples"
    unfolding wav_encoding_def length_append length_front length_back length_samples by simp
  have "\<exists>written. sk_bytes file' = sk_bytes file @ written \<and> written = wav_encoding rate samples"
    if w: "rtnc_wav_write_mono_s16 file rate samples = (RTNC_WAV_OK, file')"
    using w len unfolding write_outcome [OF g] by (auto simp: fwrite_def split: if_splits)
  moreover have "0 < rate" using g(1) by (simp add: word_neq_0_conv)
  ultimately show ?thesis
    using g(2) read_outcome [OF g(2), of rate rest old buffer count] unfolding write_outcome [OF g]
    by (auto simp: buf_write_def not_less)
qed

end
