(* ===== verification/HackrfTx.thy ===== *)
theory HackrfTx
  imports Fp "HOL-Library.Monad_Syntax"
begin

text \<open>
  The software-defined-radio transmitter of \<^verbatim>\<open>platform/hackrf_tx.c\<close>: the callback that turns audio
  into frequency-modulated IQ bytes one USB buffer at a time, and the blocking call around it.  libhackrf is
  a parameter; what its transfer thread does during one polling sleep is a list of events, calls of the two
  callbacks.  Audio samples and the phase are exact reals.  Positions are \<open>nat\<close>: the 64-bit products are exact
  for waveforms of fewer than \<open>2 ^ 39\<close> samples.  A read outside the audio is \<open>None\<close>.
\<close>

definition HACKRF_SUCCESS :: int where [simp]: "HACKRF_SUCCESS = 0"

record rtnc_hackrf_tx_config =
  hc_frequency_hz :: u64
  hc_iq_sample_rate_hz :: u32
  hc_audio_sample_rate_hz :: u32
  hc_deviation_hz :: fp
  hc_lead_ms :: u32
  hc_tail_ms :: u32
  hc_txvga_gain_db :: u8
  hc_iq_amplitude :: "8 word" \<comment> \<open>signed\<close>

record tx_context =
  hx_config :: rtnc_hackrf_tx_config
  hx_audio :: "real list"
  hx_lead_iq_samples :: nat
  hx_waveform_iq_samples :: nat
  hx_total_iq_samples :: nat
  hx_generated_iq_samples :: nat
  hx_phase :: real
  hx_complete :: bool
  hx_flush_complete :: bool
  hx_flush_success :: bool

record hackrf_transfer =
  tf_buffer :: bytes
  tf_valid_length :: int

definition transmit_flush_callback :: "tx_context \<Rightarrow> int \<Rightarrow> tx_context" where
  "transmit_flush_callback tx success = tx \<lparr> hx_flush_success := success \<noteq> 0, hx_flush_complete := True \<rparr>"

definition rtnc_hackrf_tx_default_config :: rtnc_hackrf_tx_config where
  "rtnc_hackrf_tx_default_config =
    \<lparr> hc_frequency_hz = 446006250, hc_iq_sample_rate_hz = 2400000, hc_audio_sample_rate_hz = 48000,
      hc_deviation_hz = Fin 2100, hc_lead_ms = 100, hc_tail_ms = 100, hc_txvga_gain_db = 20, hc_iq_amplitude = 100 \<rparr>"

definition rtnc_hackrf_tx_config_is_valid :: "rtnc_hackrf_tx_config \<Rightarrow> bool" where
  "rtnc_hackrf_tx_config_is_valid config \<longleftrightarrow>
    hc_frequency_hz config > 0 \<and>
    hc_iq_sample_rate_hz config \<ge> 2000000 \<and> hc_iq_sample_rate_hz config \<le> 20000000 \<and>
    hc_audio_sample_rate_hz config > 0 \<and> hc_iq_sample_rate_hz config mod hc_audio_sample_rate_hz config = 0 \<and>
    hc_deviation_hz config \<ge> Fin 500 \<and> hc_deviation_hz config \<le> Fin 4000 \<and>
    hc_lead_ms config \<le> 2000 \<and> hc_tail_ms config \<le> 2000 \<and> hc_txvga_gain_db config \<le> 47 \<and>
    sint (hc_iq_amplitude config) > 0 \<and> sint (hc_iq_amplitude config) \<le> 120"

definition sample_at :: "tx_context \<Rightarrow> nat \<Rightarrow> real option" where
  \<comment> \<open>the clamped audio at an IQ position: silence in lead and tail\<close>
  "sample_at tx position =
    (if hx_lead_iq_samples tx \<le> position \<and> position < hx_lead_iq_samples tx + hx_waveform_iq_samples tx
     then
       let waveform_position = position - hx_lead_iq_samples tx;
           audio_index = waveform_position * unat (hc_audio_sample_rate_hz (hx_config tx)) div
             unat (hc_iq_sample_rate_hz (hx_config tx))
       in if audio_index < length (hx_audio tx)
          then let sample = hx_audio tx ! audio_index
               in Some (if sample > 1 then 1 else if sample < - 1 then - 1 else sample)
          else None
     else Some 0)"

definition next_phase :: "rtnc_hackrf_tx_config \<Rightarrow> real \<Rightarrow> real \<Rightarrow> real" where
  "next_phase config phase sample =
    (let phase = phase + 2 * pi * real_of_fp (hc_deviation_hz config) * sample / real (unat (hc_iq_sample_rate_hz config))
     in if phase > pi then phase - 2 * pi else if phase < - pi then phase + 2 * pi else phase)"

definition iq_bytes :: "rtnc_hackrf_tx_config \<Rightarrow> real \<Rightarrow> bytes" where
  "iq_bytes config phase =
    (let amplitude = real_of_int (sint (hc_iq_amplitude config))
     in [word_of_int (round_half_even (amplitude * cos phase)), word_of_int (round_half_even (amplitude * sin phase))])"

fun modulate :: "tx_context \<Rightarrow> nat list \<Rightarrow> real \<Rightarrow> (bytes \<times> real) option" where
  \<comment> \<open>the loop over the positions of one buffer: the bytes and the phase after them\<close>
  "modulate tx [] phase = Some ([], phase)"
| "modulate tx (position # rest) phase =
    do {
      sample \<leftarrow> sample_at tx position;
      let phase = next_phase (hx_config tx) phase sample;
      (iq, last) \<leftarrow> modulate tx rest phase;
      Some (iq_bytes (hx_config tx) phase @ iq, last)
    }"

definition transmit_callback :: "tx_context \<Rightarrow> hackrf_transfer \<Rightarrow> (int \<times> hackrf_transfer \<times> tx_context) option" where
  "transmit_callback tx transfer =
    (if length (tf_buffer transfer) = 0 \<or> hx_complete tx then Some (- 1, transfer, tx)
     else
       let remaining = hx_total_iq_samples tx - hx_generated_iq_samples tx;
           capacity_samples = length (tf_buffer transfer) div 2;
           output_samples = (if remaining < capacity_samples then remaining else capacity_samples)
       in do {
            (iq, phase) \<leftarrow> modulate tx (map ((+) (hx_generated_iq_samples tx)) [0..<output_samples]) (hx_phase tx);
            let generated = hx_generated_iq_samples tx + output_samples;
            Some (0, transfer \<lparr> tf_buffer := buf_write (tf_buffer transfer) 0 iq, tf_valid_length := int (output_samples * 2) \<rparr>,
              tx \<lparr> hx_phase := phase, hx_generated_iq_samples := generated,
                   hx_complete := (hx_complete tx \<or> generated \<ge> hx_total_iq_samples tx) \<rparr>)
          })"

definition start_context :: "rtnc_hackrf_tx_config \<Rightarrow> real list \<Rightarrow> tx_context" where
  "start_context config audio =
    (let lead = unat (hc_iq_sample_rate_hz config) * unat (hc_lead_ms config) div 1000;
         waveform = length audio * unat (hc_iq_sample_rate_hz config) div unat (hc_audio_sample_rate_hz config)
     in \<lparr> hx_config = config, hx_audio = audio, hx_lead_iq_samples = lead, hx_waveform_iq_samples = waveform,
          hx_total_iq_samples = lead + waveform + unat (hc_iq_sample_rate_hz config) * unat (hc_tail_ms config) div 1000,
          hx_generated_iq_samples = 0, hx_phase = 0, hx_complete = False, hx_flush_complete = False,
          hx_flush_success = False \<rparr>)"

section \<open>The blocking call\<close>

datatype hackrf_event = Transfer bytes | Flushed int

record 'w hackrf =
  hackrf_init :: "'w \<Rightarrow> int \<times> 'w"
  hackrf_open :: "'w \<Rightarrow> int \<times> nat option \<times> 'w"
  hackrf_set_sample_rate :: "nat \<Rightarrow> real \<Rightarrow> 'w \<Rightarrow> int \<times> 'w"
  hackrf_set_freq :: "nat \<Rightarrow> u64 \<Rightarrow> 'w \<Rightarrow> int \<times> 'w"
  hackrf_set_amp_enable :: "nat \<Rightarrow> u8 \<Rightarrow> 'w \<Rightarrow> int \<times> 'w"
  hackrf_set_txvga_gain :: "nat \<Rightarrow> u8 \<Rightarrow> 'w \<Rightarrow> int \<times> 'w"
  hackrf_enable_tx_flush :: "nat \<Rightarrow> 'w \<Rightarrow> int \<times> 'w"
  hackrf_start_tx :: "nat \<Rightarrow> 'w \<Rightarrow> int \<times> 'w"
  hackrf_stop_tx :: "nat \<Rightarrow> 'w \<Rightarrow> 'w"
  hackrf_close :: "nat \<Rightarrow> 'w \<Rightarrow> 'w"
  hackrf_exit :: "'w \<Rightarrow> 'w"
  polling_sleep :: "'w \<Rightarrow> hackrf_event list \<times> 'w" \<comment> \<open>what the transfer thread does in 10 ms\<close>

fun run_events :: "tx_context \<Rightarrow> hackrf_event list \<Rightarrow> tx_context option" where
  "run_events tx [] = Some tx"
| "run_events tx (Transfer buffer # rest) =
    do {
      (result, transfer, tx) \<leftarrow> transmit_callback tx \<lparr> tf_buffer = buffer, tf_valid_length = 0 \<rparr>;
      run_events tx rest
    }"
| "run_events tx (Flushed success # rest) = run_events (transmit_flush_callback tx success) rest"

fun poll :: "'w hackrf \<Rightarrow> nat \<Rightarrow> tx_context \<Rightarrow> 'w \<Rightarrow> (tx_context \<times> 'w) option" where
  \<comment> \<open>the wait for the flush; the number is how many polls are left\<close>
  "poll H 0 tx w = Some (tx, w)"
| "poll H (Suc polls) tx w =
    (if hx_flush_complete tx then Some (tx, w)
     else let (events, w) = polling_sleep H w
          in do { tx \<leftarrow> run_events tx events; poll H polls tx w })"

definition configure_device :: "'w hackrf \<Rightarrow> rtnc_hackrf_tx_config \<Rightarrow> nat \<Rightarrow> 'w \<Rightarrow> bool \<times> 'w" where
  \<comment> \<open>the chain from the sample rate to the start of the stream\<close>
  "configure_device H config device w =
    (let (r, w) = hackrf_set_sample_rate H device (real (unat (hc_iq_sample_rate_hz config))) w
     in if r \<noteq> HACKRF_SUCCESS then (False, w) else
     let (r, w) = hackrf_set_freq H device (hc_frequency_hz config) w
     in if r \<noteq> HACKRF_SUCCESS then (False, w) else
     let (r, w) = hackrf_set_amp_enable H device 0 w
     in if r \<noteq> HACKRF_SUCCESS then (False, w) else
     let (r, w) = hackrf_set_txvga_gain H device (hc_txvga_gain_db config) w
     in if r \<noteq> HACKRF_SUCCESS then (False, w) else
     let (r, w) = hackrf_enable_tx_flush H device w
     in if r \<noteq> HACKRF_SUCCESS then (False, w) else
     let (r, w) = hackrf_start_tx H device w
     in (r = HACKRF_SUCCESS, w))"

definition poll_limit :: "tx_context \<Rightarrow> nat" where
  "poll_limit tx =
    (let expected_ms = hx_total_iq_samples tx * 1000 div unat (hc_iq_sample_rate_hz (hx_config tx));
         required_polls = expected_ms div 10 + 500
     in if required_polls < 2 ^ 32 - 1 then required_polls else 2 ^ 32 - 1)"

definition close_device :: "'w hackrf \<Rightarrow> bool \<Rightarrow> nat option \<Rightarrow> bool \<Rightarrow> 'w \<Rightarrow> 'w" where
  \<comment> \<open>the code after \<^verbatim>\<open>done\<close>\<close>
  "close_device H streaming device initialized w =
    (let w = (case (streaming, device) of (True, Some d) \<Rightarrow> hackrf_stop_tx H d w | _ \<Rightarrow> w);
         w = (case device of None \<Rightarrow> w | Some d \<Rightarrow> hackrf_close H d w)
     in if initialized then hackrf_exit H w else w)"

definition rtnc_hackrf_tx_audio ::
    "'w hackrf \<Rightarrow> rtnc_hackrf_tx_config \<Rightarrow> real list \<Rightarrow> nat \<Rightarrow> 'w \<Rightarrow> (bool \<times> nat \<times> 'w) option" where
  \<comment> \<open>success and \<^verbatim>\<open>*iq_samples_sent\<close>\<close>
  "rtnc_hackrf_tx_audio H config audio iq_samples_sent w =
    (if \<not> rtnc_hackrf_tx_config_is_valid config \<or> length audio = 0 then Some (False, iq_samples_sent, w)
     else
       let tx = start_context config audio;
           (r, w) = hackrf_init H w
       in if r \<noteq> HACKRF_SUCCESS then Some (False, 0, close_device H False None False w)
          else
            case hackrf_open H w of
              (r, None, w) \<Rightarrow> Some (False, 0, close_device H False None True w)
            | (r, Some device, w) \<Rightarrow>
                if r \<noteq> HACKRF_SUCCESS then Some (False, 0, close_device H False (Some device) True w)
                else
                  let (started, w) = configure_device H config device w
                  in if \<not> started then Some (False, 0, close_device H False (Some device) True w)
                     else do {
                       (tx, w) \<leftarrow> poll H (poll_limit tx) tx w;
                       Some (hx_flush_complete tx \<and> hx_flush_success tx \<and> hx_complete tx, hx_generated_iq_samples tx,
                         close_device H True (Some device) True w)
                     })"

section \<open>The stream does not depend on the buffers\<close>

definition same_signal :: "tx_context \<Rightarrow> tx_context \<Rightarrow> bool" where
  \<comment> \<open>the fields the modulation reads\<close>
  "same_signal tx tx' \<longleftrightarrow> hx_config tx' = hx_config tx \<and> hx_audio tx' = hx_audio tx \<and>
     hx_lead_iq_samples tx' = hx_lead_iq_samples tx \<and> hx_waveform_iq_samples tx' = hx_waveform_iq_samples tx \<and>
     hx_total_iq_samples tx' = hx_total_iq_samples tx"

lemma sample_same: "same_signal tx tx' \<Longrightarrow> sample_at tx' position = sample_at tx position"
  by (simp add: same_signal_def sample_at_def Let_def)

lemma modulate_same: "same_signal tx tx' \<Longrightarrow> modulate tx' positions phase = modulate tx positions phase"
  by (induction positions arbitrary: phase) (simp_all add: sample_same, simp add: same_signal_def)

lemma modulate_append:
  "modulate tx (xs @ ys) phase =
    do { (a, phase) \<leftarrow> modulate tx xs phase; (b, phase) \<leftarrow> modulate tx ys phase; Some (a @ b, phase) }"
proof (induction xs arbitrary: phase)
  case Nil
  then show ?case by (cases "modulate tx ys phase") auto
next
  case (Cons x xs)
  then show ?case
    by (cases "sample_at tx x"; cases "modulate tx xs (next_phase (hx_config tx) phase (the (sample_at tx x)))")
      (auto simp: Let_def split: Option.bind_splits)
qed

lemma sample_in_range:
  assumes "rtnc_hackrf_tx_config_is_valid config" and "same_signal (start_context config audio) tx"
  shows "sample_at tx position \<noteq> None"
proof -
  let ?iq = "unat (hc_iq_sample_rate_hz config)" and ?ar = "unat (hc_audio_sample_rate_hz config)"
  have pos: "0 < ?ar" "0 < ?iq"
    using assms(1) by (auto simp: rtnc_hackrf_tx_config_is_valid_def word_less_nat_alt word_le_nat_alt)
  have "k * ?ar div ?iq < length audio" if k: "k < length audio * ?iq div ?ar" for k
  proof -
    have "(k + 1) * ?ar \<le> length audio * ?iq div ?ar * ?ar" using k by (intro mult_right_mono) simp_all
    also have "\<dots> \<le> length audio * ?iq" by simp
    finally have "k * ?ar < length audio * ?iq" using pos(1) by simp
    then show ?thesis using pos(2) by (simp add: less_mult_imp_div_less)
  qed
  then show ?thesis
    using assms(2) by (auto simp: sample_at_def same_signal_def start_context_def Let_def)
qed

lemma modulate_total:
  assumes "rtnc_hackrf_tx_config_is_valid config" and "same_signal (start_context config audio) tx"
  shows "\<exists>iq last. modulate tx positions phase = Some (iq, last) \<and> length iq = 2 * length positions"
proof (induction positions arbitrary: phase)
  case (Cons position positions)
  obtain sample where s: "sample_at tx position = Some sample" using sample_in_range [OF assms] by blast
  obtain iq last where "modulate tx positions (next_phase (hx_config tx) phase sample) = Some (iq, last)"
    "length iq = 2 * length positions" using Cons.IH by blast
  with s show ?case by (simp add: iq_bytes_def Let_def)
qed simp

fun run_transfers :: "tx_context \<Rightarrow> bytes list \<Rightarrow> (bytes \<times> tx_context) option" where
  \<comment> \<open>a history of calls of the callback: all bytes handed to the device\<close>
  "run_transfers tx [] = Some ([], tx)"
| "run_transfers tx (buffer # rest) =
    do {
      (result, transfer, tx) \<leftarrow> transmit_callback tx \<lparr> tf_buffer = buffer, tf_valid_length = 0 \<rparr>;
      (sent, tx) \<leftarrow> run_transfers tx rest;
      Some (take (nat (tf_valid_length transfer)) (tf_buffer transfer) @ sent, tx)
    }"

definition streaming :: "tx_context \<Rightarrow> tx_context \<Rightarrow> bytes \<Rightarrow> bool" where
  \<comment> \<open>\<open>sent\<close> is what was generated so far and the phase is the one after it\<close>
  "streaming tx0 tx sent \<longleftrightarrow> same_signal tx0 tx \<and> hx_generated_iq_samples tx \<le> hx_total_iq_samples tx0 \<and>
    modulate tx0 [0..<hx_generated_iq_samples tx] 0 = Some (sent, hx_phase tx) \<and>
    (hx_complete tx \<longleftrightarrow> hx_generated_iq_samples tx = hx_total_iq_samples tx0)"

lemma callback_streams:
  assumes valid: "rtnc_hackrf_tx_config_is_valid config" and tx0: "tx0 = start_context config audio"
    and s: "streaming tx0 tx sent"
  shows "\<exists>result transfer tx' iq. transmit_callback tx \<lparr> tf_buffer = buffer, tf_valid_length = 0 \<rparr> = Some (result, transfer, tx') \<and>
    streaming tx0 tx' (sent @ iq) \<and> take (nat (tf_valid_length transfer)) (tf_buffer transfer) = iq \<and>
    hx_generated_iq_samples tx' =
      min (hx_total_iq_samples tx0) (hx_generated_iq_samples tx + length buffer div 2) \<and>
    hx_flush_complete tx' = hx_flush_complete tx \<and> hx_flush_success tx' = hx_flush_success tx"
proof (cases "length buffer = 0 \<or> hx_complete tx")
  case True
  with s show ?thesis by (auto simp: transmit_callback_def streaming_def)
next
  case False
  let ?g = "hx_generated_iq_samples tx" and ?total = "hx_total_iq_samples tx0"
  define n where "n = (if ?total - ?g < length buffer div 2 then ?total - ?g else length buffer div 2)"
  have same: "same_signal tx0 tx" and g: "?g \<le> ?total" and pre: "modulate tx0 [0..<?g] 0 = Some (sent, hx_phase tx)"
    and incomplete: "?g < ?total"
    using s False by (auto simp: streaming_def)
  have total: "hx_total_iq_samples tx = ?total" using same by (simp add: same_signal_def)
  obtain iq last where m: "modulate tx [?g..<?g + n] (hx_phase tx) = Some (iq, last)" "length iq = 2 * n"
    using modulate_total [OF valid same [unfolded tx0], of "[?g..<?g + n]" "hx_phase tx"] by auto
  have positions: "map ((+) ?g) [0..<n] = [?g..<?g + n]" by (rule nth_equalityI) simp_all
  let ?tx = "tx \<lparr> hx_phase := last, hx_generated_iq_samples := ?g + n, hx_complete := (?g + n \<ge> ?total) \<rparr>"
  have call: "transmit_callback tx \<lparr> tf_buffer = buffer, tf_valid_length = 0 \<rparr> =
    Some (0, \<lparr> tf_buffer = buf_write buffer 0 iq, tf_valid_length = int (n * 2) \<rparr>, ?tx)"
    using False m(1) by (simp add: transmit_callback_def Let_def total n_def [symmetric] positions)
  have room: "length iq \<le> length buffer" using m(2) by (auto simp: n_def split: if_splits)
  have "modulate tx0 [0..<?g + n] 0 = Some (sent @ iq, last)"
    using modulate_append [of tx0 "[0..<?g]" "[?g..<?g + n]" 0] pre m(1) modulate_same [OF same]
    by (simp add: upt_add_eq_append [of 0 ?g n, simplified])
  then have "streaming tx0 ?tx (sent @ iq)"
    using same g by (auto simp: streaming_def same_signal_def n_def)
  moreover have "take (n * 2) (buf_write buffer 0 iq) = iq"
    using take_buf_write_0 [OF room] m(2) by (simp add: mult.commute)
  moreover have "?g + n = min ?total (?g + length buffer div 2)" using g by (auto simp: n_def)
  moreover have "nat (int n * 2) = n * 2" by (simp add: nat_mult_distrib)
  ultimately show ?thesis using call by auto
qed

lemma transfers_stream:
  assumes "rtnc_hackrf_tx_config_is_valid config" and "tx0 = start_context config audio" and "streaming tx0 tx sent"
  shows "\<exists>out tx'. run_transfers tx buffers = Some (out, tx') \<and> streaming tx0 tx' (sent @ out) \<and>
    hx_generated_iq_samples tx' =
      min (hx_total_iq_samples tx0) (hx_generated_iq_samples tx + (\<Sum>b\<leftarrow>buffers. length b div 2))"
  using assms(3)
proof (induction buffers arbitrary: tx sent)
  case Nil
  then show ?case by (auto simp: streaming_def)
next
  case (Cons buffer buffers)
  obtain r transfer tx1 iq where c: "transmit_callback tx \<lparr> tf_buffer = buffer, tf_valid_length = 0 \<rparr> = Some (r, transfer, tx1)"
    "streaming tx0 tx1 (sent @ iq)" "take (nat (tf_valid_length transfer)) (tf_buffer transfer) = iq"
    "hx_generated_iq_samples tx1 = min (hx_total_iq_samples tx0) (hx_generated_iq_samples tx + length buffer div 2)"
    using callback_streams [OF assms(1,2) Cons.prems] by blast
  obtain out tx2 where "run_transfers tx1 buffers = Some (out, tx2)" "streaming tx0 tx2 ((sent @ iq) @ out)"
    "hx_generated_iq_samples tx2 =
      min (hx_total_iq_samples tx0) (hx_generated_iq_samples tx1 + (\<Sum>b\<leftarrow>buffers. length b div 2))"
    using Cons.IH [OF c(2)] by blast
  with c show ?case by (auto simp: min_def)
qed

lemma start_streams:
  assumes "rtnc_hackrf_tx_config_is_valid config" and "audio \<noteq> []"
  shows "streaming (start_context config audio) (start_context config audio) []"
    and "0 < hx_total_iq_samples (start_context config audio)"
proof -
  let ?iq = "unat (hc_iq_sample_rate_hz config)" and ?ar = "unat (hc_audio_sample_rate_hz config)"
  have "0 < ?ar" "0 < ?iq" "?iq mod ?ar = 0"
    using assms(1) by (auto simp: rtnc_hackrf_tx_config_is_valid_def word_less_nat_alt word_le_nat_alt unat_mod [symmetric])
  then have "?ar \<le> ?iq" by (metis mod_less not_le_imp_less not_less0)
  also have "\<dots> \<le> length audio * ?iq" using assms(2) by (simp add: Suc_le_eq)
  finally have "0 < length audio * ?iq div ?ar" using \<open>0 < ?ar\<close> by (simp add: div_greater_zero_iff)
  then show "0 < hx_total_iq_samples (start_context config audio)" by (simp add: start_context_def Let_def)
  then show "streaming (start_context config audio) (start_context config audio) []"
    by (simp add: streaming_def same_signal_def) (simp add: start_context_def Let_def)
qed

section \<open>Properties\<close>

text \<open>
  C40: the transmitted signal does not depend on how the USB transfers cut it.  For every valid configuration
  and waveform and any sequence of transfer buffers, the bytes the callbacks hand over, one after the other,
  are the beginning of one fixed stream (the modulation of lead, waveform and tail in a single pass), as long
  as the buffers have room for and never longer than the whole; the audio is never read out of bounds, and
  the context is complete exactly when the whole stream has been handed over.
\<close>

theorem hackrf_stream_independent:
  assumes "rtnc_hackrf_tx_config_is_valid config" and "audio \<noteq> []"
  shows "\<exists>iq last out tx. modulate (start_context config audio) [0..<hx_total_iq_samples (start_context config audio)] 0 =
      Some (iq, last) \<and> length iq = 2 * hx_total_iq_samples (start_context config audio) \<and>
    run_transfers (start_context config audio) buffers = Some (out, tx) \<and>
    out = take (2 * (\<Sum>b\<leftarrow>buffers. length b div 2)) iq \<and>
    (hx_complete tx \<longleftrightarrow> out = iq)"
proof -
  let ?tx0 = "start_context config audio"
  let ?total = "hx_total_iq_samples ?tx0" and ?room = "\<Sum>b\<leftarrow>buffers. length b div 2"
  note start = start_streams [OF assms]
  have same: "same_signal ?tx0 ?tx0" by (simp add: same_signal_def)
  obtain iq last where all: "modulate ?tx0 [0..<?total] 0 = Some (iq, last)" "length iq = 2 * ?total"
    using modulate_total [OF assms(1) same, of "[0..<?total]" 0] by auto
  obtain out tx where run: "run_transfers ?tx0 buffers = Some (out, tx)" "streaming ?tx0 tx out"
    "hx_generated_iq_samples tx = min ?total ?room"
    using transfers_stream [OF assms(1) refl start(1), of buffers] by (auto simp: start_context_def Let_def)
  let ?g = "hx_generated_iq_samples tx"
  have g: "?g \<le> ?total" "modulate ?tx0 [0..<?g] 0 = Some (out, hx_phase tx)" "hx_complete tx \<longleftrightarrow> ?g = ?total"
    using run(2) by (auto simp: streaming_def)
  have out: "length out = 2 * ?g" using modulate_total [OF assms(1) same, of "[0..<?g]" 0] g(2) by simp
  obtain rest where "iq = out @ rest"
    using all(1) g(2) modulate_append [of ?tx0 "[0..<?g]" "[?g..<?total]" 0] upt_add_eq_append [of 0 ?g "?total - ?g"] g(1)
    by (auto split: Option.bind_splits)
  moreover from this have "out = take (2 * ?room) iq" using out all(2) run(3) by (auto simp: min_def)
  moreover have "hx_complete tx \<longleftrightarrow> out = iq" using calculation(1) out all(2) g(3) by auto
  ultimately show ?thesis using all run(1) by blast
qed

definition example_config :: rtnc_hackrf_tx_config where
  "example_config = rtnc_hackrf_tx_default_config \<lparr> hc_lead_ms := 0, hc_tail_ms := 0 \<rparr>"

lemma example_config_valid: "rtnc_hackrf_tx_config_is_valid example_config"
  by (simp add: rtnc_hackrf_tx_config_is_valid_def example_config_def rtnc_hackrf_tx_default_config_def)

lemma example_total: "hx_total_iq_samples (start_context example_config [1 / 2]) = 50"
  by (simp add: start_context_def example_config_def rtnc_hackrf_tx_default_config_def Let_def)

theorem hackrf_stream_independent_witness:
  "\<exists>out tx. run_transfers (start_context example_config [1 / 2]) [replicate 64 0, replicate 7 1, replicate 64 0] = Some (out, tx) \<and>
     length out = 100 \<and> hx_complete tx"
  using hackrf_stream_independent [OF example_config_valid, of "[1 / 2]" "[replicate 64 0, replicate 7 1, replicate 64 0]"]
  by (auto simp: example_total)

lemma events_stream:
  assumes "rtnc_hackrf_tx_config_is_valid config" and "tx0 = start_context config audio" and "streaming tx0 tx sent"
  shows "\<exists>tx' out. run_events tx events = Some tx' \<and> streaming tx0 tx' out"
  using assms(3)
proof (induction events arbitrary: tx sent)
  case Nil
  then show ?case by auto
next
  case (Cons event events)
  show ?case
  proof (cases event)
    case (Transfer buffer)
    obtain r transfer tx1 iq where c: "transmit_callback tx \<lparr> tf_buffer = buffer, tf_valid_length = 0 \<rparr> = Some (r, transfer, tx1)"
      "streaming tx0 tx1 (sent @ iq)"
      using callback_streams [OF assms(1,2) Cons.prems] by blast
    with Cons.IH [OF c(2)] Transfer show ?thesis by simp
  next
    case (Flushed success)
    have "streaming tx0 (transmit_flush_callback tx success) sent"
      using Cons.prems by (simp add: streaming_def same_signal_def transmit_flush_callback_def)
    from Cons.IH [OF this] Flushed show ?thesis by simp
  qed
qed

lemma poll_streams:
  assumes "rtnc_hackrf_tx_config_is_valid config" and "tx0 = start_context config audio" and "streaming tx0 tx sent"
  shows "\<exists>tx' w' out. poll H polls tx w = Some (tx', w') \<and> streaming tx0 tx' out"
  using assms(3)
proof (induction polls arbitrary: tx sent w)
  case (Suc polls)
  show ?case
  proof (cases "hx_flush_complete tx")
    case False
    obtain events w1 where e: "polling_sleep H w = (events, w1)" by fastforce
    obtain tx1 out where r: "run_events tx events = Some tx1" "streaming tx0 tx1 out"
      using events_stream [OF assms(1,2) Suc.prems] by blast
    with False e Suc.IH [OF r(2)] show ?thesis by simp
  qed (use Suc.prems in auto)
qed auto

lemma tx_audio_bounded:
  "\<exists>success sent w'. rtnc_hackrf_tx_audio H config audio 0 w = Some (success, sent, w') \<and>
     sent \<le> hx_total_iq_samples (start_context config audio) \<and>
     (success \<longrightarrow> sent = hx_total_iq_samples (start_context config audio))"
proof (cases "rtnc_hackrf_tx_config_is_valid config \<and> audio \<noteq> []")
  case False
  then show ?thesis by (auto simp: rtnc_hackrf_tx_audio_def)
next
  case True
  let ?tx = "start_context config audio"
  have polls: "\<exists>tx w'. poll H (poll_limit ?tx) ?tx w1 = Some (tx, w') \<and>
      hx_generated_iq_samples tx \<le> hx_total_iq_samples ?tx \<and>
      (hx_complete tx \<longrightarrow> hx_generated_iq_samples tx = hx_total_iq_samples ?tx)" for w1
  proof -
    obtain tx w' out where "poll H (poll_limit ?tx) ?tx w1 = Some (tx, w')" "streaming ?tx tx out"
      using poll_streams [OF conjunct1 [OF True] refl start_streams(1) [OF conjunct1 [OF True] conjunct2 [OF True]],
          where H = H and polls = "poll_limit ?tx" and w = w1] by auto
    then show ?thesis by (auto simp: streaming_def)
  qed
  obtain r1 w1 where i: "hackrf_init H w = (r1, w1)" by fastforce
  obtain r2 device w2 where opened: "hackrf_open H w1 = (r2, device, w2)" by (rule prod_cases3)
  note calls = i opened
  show ?thesis
  proof (cases device)
    case None
    with True calls show ?thesis by (auto simp: rtnc_hackrf_tx_audio_def Let_def)
  next
    case (Some d)
    obtain ok w3 where "configure_device H config d w2 = (ok, w3)" by fastforce
    with True calls Some polls [of w3] show ?thesis by (auto simp: rtnc_hackrf_tx_audio_def Let_def)
  qed
qed

text \<open>
  the blocking transmission always comes back, and success means that everything was sent.  Whatever the
  library, its transfer thread and the device do, the call returns after a bounded number of polls without an
  access outside the waveform; it never reports more IQ samples than lead, waveform and tail have, and when
  it reports success it reports exactly that many.
\<close>

lemma hackrf_tx_returns:
  "\<exists>success sent w'. rtnc_hackrf_tx_audio H config audio 0 w = Some (success, sent, w') \<and>
     (if success then sent = hx_total_iq_samples (start_context config audio)
      else sent \<le> hx_total_iq_samples (start_context config audio))"
proof -
  obtain success sent w' where returned: "rtnc_hackrf_tx_audio H config audio 0 w = Some (success, sent, w')"
      and bounds: "sent \<le> hx_total_iq_samples (start_context config audio)"
      "success \<longrightarrow> sent = hx_total_iq_samples (start_context config audio)"
    using tx_audio_bounded [of H config audio w] by blast
  from bounds have "if success then sent = hx_total_iq_samples (start_context config audio)
      else sent \<le> hx_total_iq_samples (start_context config audio)" by (cases success) (simp_all only: simp_thms if_True if_False)
  with returned show ?thesis by (intro exI conjI)
qed

end
