(* ===== verification/RadioResponse.thy ===== *)
theory RadioResponse
  imports Complex_Main Prelude
begin

text \<open>
  The analysis of a measured audio response, \<^verbatim>\<open>phy/radio_response.c\<close>: phase unwrapping with a linear
  prediction, a least-squares line through the phases of the occupied band, ripple and residual measures, and
  the screening that turns them into a verdict.  Responses, phases and metrics are exact, so the tests for
  infinities never fail; \<open>None\<close> is a false result.  The last part proves that a channel with linear phase is
  measured exactly, and looks at the verdicts.
\<close>

record rtnc_radio_response_metrics =
  rm_amplitude_ripple_db :: real
  rm_relative_delay_ms :: real
  rm_group_delay_ripple_ms :: real
  rm_residual_phase_rms_degrees :: real
  rm_points_used :: nat

datatype rtnc_radio_suitability =
  RTNC_RADIO_SUITABILITY_POOR
| RTNC_RADIO_SUITABILITY_MARGINAL
| RTNC_RADIO_SUITABILITY_GOOD

function unwrap_down :: "real \<Rightarrow> real \<Rightarrow> real" where
  \<comment> \<open>\<^verbatim>\<open>while (phase - target > pi) phase -= 2.0 * pi\<close>\<close>
  "unwrap_down target phase = (if phase - target > pi then unwrap_down target (phase - 2 * pi) else phase)"
  by pat_completeness auto
termination
proof (relation "measure (\<lambda>(target, phase). nat \<lceil>(phase - target + pi) / (2 * pi)\<rceil>)")
  fix target phase :: real
  assume "phase - target > pi"
  then have "0 < (phase - target + pi) / (2 * pi)" by (intro divide_pos_pos) (use pi_gt_zero in linarith)+
  moreover have "(phase - 2 * pi - target + pi) / (2 * pi) = (phase - target + pi) / (2 * pi) - 1"
    by (simp add: field_simps)
  ultimately have "nat \<lceil>(phase - 2 * pi - target + pi) / (2 * pi)\<rceil> < nat \<lceil>(phase - target + pi) / (2 * pi)\<rceil>"
    by (simp add: ceiling_diff_one)
  then show "((target, phase - 2 * pi), target, phase) \<in> measure (\<lambda>(target, phase). nat \<lceil>(phase - target + pi) / (2 * pi)\<rceil>)"
    by simp
qed simp

function unwrap_up :: "real \<Rightarrow> real \<Rightarrow> real" where
  \<comment> \<open>\<^verbatim>\<open>while (phase - target < -pi) phase += 2.0 * pi\<close>\<close>
  "unwrap_up target phase = (if phase - target < - pi then unwrap_up target (phase + 2 * pi) else phase)"
  by pat_completeness auto
termination
proof (relation "measure (\<lambda>(target, phase). nat \<lceil>(target - phase + pi) / (2 * pi)\<rceil>)")
  fix target phase :: real
  assume "phase - target < - pi"
  then have "0 < (target - phase + pi) / (2 * pi)" by (intro divide_pos_pos) (use pi_gt_zero in linarith)+
  moreover have "(target - (phase + 2 * pi) + pi) / (2 * pi) = (target - phase + pi) / (2 * pi) - 1"
    by (simp add: field_simps)
  ultimately have "nat \<lceil>(target - (phase + 2 * pi) + pi) / (2 * pi)\<rceil> < nat \<lceil>(target - phase + pi) / (2 * pi)\<rceil>"
    by (simp add: ceiling_diff_one)
  then show "((target, phase + 2 * pi), target, phase) \<in> measure (\<lambda>(target, phase). nat \<lceil>(target - phase + pi) / (2 * pi)\<rceil>)"
    by simp
qed simp

declare unwrap_down.simps [simp del] unwrap_up.simps [simp del]

definition unwrap :: "real \<Rightarrow> real \<Rightarrow> real" where
  "unwrap target phase = unwrap_up target (unwrap_down target phase)"

record response_sums =
  rs_minimum_amplitude :: "real option" \<comment> \<open>\<open>None\<close> stands for \<^verbatim>\<open>DBL_MAX\<close>\<close>
  rs_maximum_amplitude :: real
  rs_sum_frequency :: real
  rs_sum_phase :: real
  rs_sum_frequency_square :: real
  rs_sum_frequency_phase :: real
  rs_previous_phase :: real
  rs_previous_increment :: real
  rs_first :: nat
  rs_last :: nat
  rs_used :: nat
  rs_unwrapped :: "real list"

definition start_sums :: "nat \<Rightarrow> real list \<Rightarrow> response_sums" where
  "start_sums point_count unwrapped =
    \<lparr> rs_minimum_amplitude = None, rs_maximum_amplitude = 0, rs_sum_frequency = 0, rs_sum_phase = 0,
      rs_sum_frequency_square = 0, rs_sum_frequency_phase = 0, rs_previous_phase = 0, rs_previous_increment = 0,
      rs_first = point_count, rs_last = point_count, rs_used = 0, rs_unwrapped = unwrapped \<rparr>"

definition unwrap_point :: "nat \<Rightarrow> real \<Rightarrow> response_sums \<Rightarrow> response_sums" where
  \<comment> \<open>the phase of one point relative to the points before it\<close>
  "unwrap_point point phase s =
    (let target = (if point = 1 then rs_previous_phase s else rs_previous_phase s + rs_previous_increment s);
         phase = (if point = 0 then phase else unwrap target phase);
         s = (if point = 0 then s else s \<lparr> rs_previous_increment := phase - rs_previous_phase s \<rparr>)
     in s \<lparr> rs_previous_phase := phase, rs_unwrapped := (rs_unwrapped s)[point := phase] \<rparr>)"

definition add_in_band :: "nat \<Rightarrow> nat \<Rightarrow> nat \<Rightarrow> real \<Rightarrow> response_sums \<Rightarrow> response_sums" where
  "add_in_band point_count point frequency amplitude s =
    (let phase = rs_previous_phase s; f = real frequency
     in s \<lparr> rs_first := (if rs_first s = point_count then point else rs_first s), rs_last := point,
            rs_minimum_amplitude := Some (case rs_minimum_amplitude s of None \<Rightarrow> amplitude | Some m \<Rightarrow> min m amplitude),
            rs_maximum_amplitude := max (rs_maximum_amplitude s) amplitude,
            rs_sum_frequency := rs_sum_frequency s + f, rs_sum_phase := rs_sum_phase s + phase,
            rs_sum_frequency_square := rs_sum_frequency_square s + f * f,
            rs_sum_frequency_phase := rs_sum_frequency_phase s + f * phase, rs_used := rs_used s + 1 \<rparr>)"

definition scan_point ::
    "nat list \<Rightarrow> complex list \<Rightarrow> real \<Rightarrow> real \<Rightarrow> nat \<Rightarrow> response_sums option \<Rightarrow> response_sums option" where
  \<comment> \<open>one round of the first loop\<close>
  "scan_point frequencies_hz response low_hz high_hz point result =
    (case result of
       None \<Rightarrow> None
     | Some s \<Rightarrow>
         let amplitude = cmod (response ! point)
         in if (point > 0 \<and> frequencies_hz ! point \<le> frequencies_hz ! (point - 1)) \<or> amplitude \<le> 0 then None
            else
              let s = unwrap_point point (Arg (response ! point)) s
              in if real (frequencies_hz ! point) < low_hz \<or> real (frequencies_hz ! point) > high_hz then Some s
                 else Some (add_in_band (length response) point (frequencies_hz ! point) amplitude s))"

definition fit_line :: "response_sums \<Rightarrow> (real \<times> real) option" where
  \<comment> \<open>slope and intercept of the least-squares line\<close>
  "fit_line s =
    (let denominator = real (rs_used s) * rs_sum_frequency_square s - rs_sum_frequency s * rs_sum_frequency s
     in if \<bar>denominator\<bar> < 1 / 10 ^ 12 then None
        else
          let slope = (real (rs_used s) * rs_sum_frequency_phase s - rs_sum_frequency s * rs_sum_phase s) / denominator
          in Some (slope, (rs_sum_phase s - slope * rs_sum_frequency s) / real (rs_used s)))"

definition residual_square_sum :: "nat list \<Rightarrow> real list \<Rightarrow> real \<Rightarrow> real \<Rightarrow> nat list \<Rightarrow> real" where
  "residual_square_sum frequencies_hz unwrapped slope intercept points =
    foldl (\<lambda>sum point.
        let residual = unwrapped ! point - (intercept + slope * real (frequencies_hz ! point))
        in sum + residual * residual) 0 points"

definition group_delays :: "nat list \<Rightarrow> real list \<Rightarrow> nat list \<Rightarrow> real list" where
  \<comment> \<open>the delays between neighbouring points, of which the loop keeps the least and the greatest\<close>
  "group_delays frequencies_hz unwrapped points =
    map (\<lambda>point. - (unwrapped ! point - unwrapped ! (point - 1)) /
        (2 * pi * real (frequencies_hz ! point - frequencies_hz ! (point - 1)))) points"

definition rtnc_radio_response_analyze ::
    "nat list \<Rightarrow> complex list \<Rightarrow> real \<Rightarrow> real \<Rightarrow> real list \<Rightarrow> (rtnc_radio_response_metrics \<times> real list) option" where
  \<comment> \<open>the metrics and the unwrapped phases; the array for them is the last argument\<close>
  "rtnc_radio_response_analyze frequencies_hz response low_hz high_hz unwrapped =
    (if length response < 3 \<or> low_hz < 0 \<or> high_hz \<le> low_hz then None
     else
       case fold (scan_point frequencies_hz response low_hz high_hz) [0..<length response]
              (Some (start_sums (length response) unwrapped)) of
         None \<Rightarrow> None
       | Some s \<Rightarrow>
           if rs_used s < 3 \<or> rs_first s = length response \<or> rs_last s \<le> rs_first s then None
           else case fit_line s of
             None \<Rightarrow> None
           | Some (slope, intercept) \<Rightarrow>
               let residuals = residual_square_sum frequencies_hz (rs_unwrapped s) slope intercept [rs_first s..<rs_last s + 1];
                   delays = group_delays frequencies_hz (rs_unwrapped s) [rs_first s + 1..<rs_last s + 1]
               in Some
                    (\<lparr> rm_amplitude_ripple_db =
                         20 * log 10 (rs_maximum_amplitude s / the (rs_minimum_amplitude s)),
                       rm_relative_delay_ms = - 1000 * slope / (2 * pi),
                       rm_group_delay_ripple_ms = 1000 * (Max (set delays) - Min (set delays)),
                       rm_residual_phase_rms_degrees = sqrt (residuals / real (rs_used s)) * 180 / pi,
                       rm_points_used = rs_used s \<rparr>, rs_unwrapped s))"

definition phase_good :: "nat \<Rightarrow> real option" where
  "phase_good bits_per_symbol =
    (if bits_per_symbol = 1 then Some 30 else if bits_per_symbol = 2 then Some 15
     else if bits_per_symbol = 3 then Some 8 else if bits_per_symbol = 4 then Some 3 else None)"

definition delay_good :: "nat \<Rightarrow> nat \<Rightarrow> real" where
  "delay_good bits_per_symbol symbol_rate_baud =
    (if bits_per_symbol = 1 then 500 else if bits_per_symbol = 2 then 600
     else if bits_per_symbol = 3 then 350 else 150) / real symbol_rate_baud"

definition rtnc_radio_response_suitability ::
    "rtnc_radio_response_metrics \<Rightarrow> nat \<Rightarrow> nat \<Rightarrow> rtnc_radio_suitability" where
  "rtnc_radio_response_suitability metrics bits_per_symbol symbol_rate_baud =
    (if symbol_rate_baud = 0 then RTNC_RADIO_SUITABILITY_POOR
     else case phase_good bits_per_symbol of
       None \<Rightarrow> RTNC_RADIO_SUITABILITY_POOR
     | Some phase \<Rightarrow>
         let delay = delay_good bits_per_symbol symbol_rate_baud
         in if rm_residual_phase_rms_degrees metrics \<le> phase \<and> rm_group_delay_ripple_ms metrics \<le> delay
            then RTNC_RADIO_SUITABILITY_GOOD
            else if rm_residual_phase_rms_degrees metrics \<le> 2 * phase \<and>
                    rm_group_delay_ripple_ms metrics \<le> 2 * delay
            then RTNC_RADIO_SUITABILITY_MARGINAL else RTNC_RADIO_SUITABILITY_POOR)"

section \<open>Phase unwrapping\<close>

lemma unwrap_down_spec:
  "\<exists>j :: nat. unwrap_down target phase = phase - 2 * pi * real j \<and> unwrap_down target phase - target \<le> pi \<and>
     (j = 0 \<or> unwrap_down target phase - target > - pi)"
proof (induction target phase rule: unwrap_down.induct)
  case (1 target phase)
  show ?case
  proof (cases "phase - target > pi")
    case True
    from 1 [OF True] obtain j :: nat where j: "unwrap_down target (phase - 2 * pi) = phase - 2 * pi - 2 * pi * real j"
      "unwrap_down target (phase - 2 * pi) - target \<le> pi"
      "j = 0 \<or> unwrap_down target (phase - 2 * pi) - target > - pi" by blast
    moreover have "unwrap_down target phase = unwrap_down target (phase - 2 * pi)" using True by (subst unwrap_down.simps) simp
    ultimately show ?thesis using True by (intro exI [of _ "Suc j"]) (auto simp: algebra_simps)
  next
    case False
    then have "unwrap_down target phase = phase" by (subst unwrap_down.simps) simp
    with False show ?thesis by (intro exI [of _ 0]) simp
  qed
qed

lemma unwrap_up_spec:
  "\<exists>j :: nat. unwrap_up target phase = phase + 2 * pi * real j \<and> - pi \<le> unwrap_up target phase - target \<and>
     (j = 0 \<or> unwrap_up target phase - target < pi)"
proof (induction target phase rule: unwrap_up.induct)
  case (1 target phase)
  show ?case
  proof (cases "phase - target < - pi")
    case True
    from 1 [OF True] obtain j :: nat where j: "unwrap_up target (phase + 2 * pi) = phase + 2 * pi + 2 * pi * real j"
      "- pi \<le> unwrap_up target (phase + 2 * pi) - target"
      "j = 0 \<or> unwrap_up target (phase + 2 * pi) - target < pi" by blast
    moreover have "unwrap_up target phase = unwrap_up target (phase + 2 * pi)" using True by (subst unwrap_up.simps) simp
    ultimately show ?thesis using True by (intro exI [of _ "Suc j"]) (auto simp: algebra_simps)
  next
    case False
    then have "unwrap_up target phase = phase" by (subst unwrap_up.simps) simp
    with False show ?thesis by (intro exI [of _ 0]) simp
  qed
qed

lemma unwrap_range:
  "\<exists>m :: int. unwrap target phase = phase + 2 * pi * real_of_int m \<and> \<bar>unwrap target phase - target\<bar> \<le> pi"
proof -
  obtain j where j: "unwrap_down target phase = phase - 2 * pi * real j" "unwrap_down target phase - target \<le> pi"
    "j = 0 \<or> unwrap_down target phase - target > - pi" using unwrap_down_spec by blast
  obtain k where k: "unwrap target phase = unwrap_down target phase + 2 * pi * real k"
    "- pi \<le> unwrap target phase - target" "k = 0 \<or> unwrap target phase - target < pi"
    using unwrap_up_spec [of target "unwrap_down target phase"] by (auto simp: unwrap_def)
  have "unwrap target phase = phase + 2 * pi * real_of_int (int k - int j)" using j(1) k(1) by (simp add: algebra_simps)
  moreover have "\<bar>unwrap target phase - target\<bar> \<le> pi" using j(2) k by (auto simp: abs_le_iff)
  ultimately show ?thesis by blast
qed

lemma unwrap_unique:
  assumes "\<bar>phi - target\<bar> < pi" and "phase = phi + 2 * pi * real_of_int n"
  shows "unwrap target phase = phi"
proof -
  obtain m where m: "unwrap target phase = phase + 2 * pi * real_of_int m" "\<bar>unwrap target phase - target\<bar> \<le> pi"
    using unwrap_range by blast
  have d: "unwrap target phase - phi = 2 * pi * real_of_int (n + m)" using m(1) assms(2) by (simp add: algebra_simps)
  have "\<bar>unwrap target phase - phi\<bar> < 2 * pi" using m(2) assms(1) by linarith
  then have "\<bar>real_of_int (n + m)\<bar> < 1" unfolding d by (simp add: abs_mult)
  then have "n + m = 0" by linarith
  with d show ?thesis by simp
qed

section \<open>A channel with linear phase\<close>

definition linear_channel :: "nat list \<Rightarrow> complex list \<Rightarrow> real \<Rightarrow> real \<Rightarrow> bool" where
  \<comment> \<open>increasing frequencies; the response delays by \<open>delay\<close> seconds and turns by a fixed \<open>offset\<close>; the phase moves
      by less than half a turn over the first step, and its steps change by less than half a turn\<close>
  "linear_channel f response delay offset \<longleftrightarrow> length f = length response \<and>
    (\<forall>k<length response. 0 < cmod (response ! k) \<and>
       response ! k = complex_of_real (cmod (response ! k)) * cis (offset - 2 * pi * delay * real (f ! k))) \<and>
    (\<forall>k. 0 < k \<and> k < length response \<longrightarrow> f ! (k - 1) < f ! k) \<and>
    \<bar>delay * (real (f ! 1) - real (f ! 0))\<bar> < 1 / 2 \<and>
    (\<forall>k. 1 < k \<and> k < length response \<longrightarrow>
       \<bar>delay * ((real (f ! k) - real (f ! (k - 1))) - (real (f ! (k - 1)) - real (f ! (k - 2))))\<bar> < 1 / 2)"

definition line_phase :: "nat list \<Rightarrow> complex list \<Rightarrow> real \<Rightarrow> nat \<Rightarrow> real" where
  "line_phase f response delay k = Arg (response ! 0) - 2 * pi * delay * (real (f ! k) - real (f ! 0))"

definition in_band_points :: "nat list \<Rightarrow> real \<Rightarrow> real \<Rightarrow> nat \<Rightarrow> nat set" where
  "in_band_points f low high k = {i. i < k \<and> low \<le> real (f ! i) \<and> real (f ! i) \<le> high}"

lemma arg_line:
  assumes "linear_channel f response delay offset" and "k < length response" and "0 < length response"
  shows "\<exists>n :: int. Arg (response ! k) = line_phase f response delay k + 2 * pi * real_of_int n"
proof -
  have c: "cis (Arg (response ! i)) = cis (offset - 2 * pi * delay * real (f ! i))" if "i < length response" for i
  proof -
    have a: "0 < cmod (response ! i)" "response ! i = complex_of_real (cmod (response ! i)) * cis (offset - 2 * pi * delay * real (f ! i))"
      using assms(1) that by (auto simp: linear_channel_def)
    then have "sgn (response ! i) = cis (offset - 2 * pi * delay * real (f ! i))"
      by (metis (no_types, lifting) less_numeral_extra(3) nonzero_mult_div_cancel_left norm_zero of_real_eq_0_iff sgn_eq)
    with a(1) show ?thesis by (simp add: cis_Arg)
  qed
  have "cis (line_phase f response delay k) = cis (Arg (response ! 0)) * cis (- 2 * pi * delay * (real (f ! k) - real (f ! 0)))"
    by (simp add: line_phase_def cis_mult)
  also have "\<dots> = cis (offset - 2 * pi * delay * real (f ! k))"
    using c [OF assms(3)] by (simp add: cis_mult algebra_simps)
  also have "\<dots> = cis (Arg (response ! k))" using c [OF assms(2)] by simp
  finally have "sin (Arg (response ! k)) = sin (line_phase f response delay k) \<and>
      cos (Arg (response ! k)) = cos (line_phase f response delay k)"
    by (simp add: complex_eq_iff)
  then show ?thesis by (simp add: sin_cos_eq_iff)
qed

lemma line_phase_step:
  "line_phase f response delay i - line_phase f response delay j = - 2 * pi * (delay * (real (f ! i) - real (f ! j)))"
  by (simp add: line_phase_def algebra_simps)

definition scanned :: "nat list \<Rightarrow> complex list \<Rightarrow> real \<Rightarrow> real \<Rightarrow> real \<Rightarrow> nat \<Rightarrow> nat \<Rightarrow> response_sums \<Rightarrow> bool" where
  \<comment> \<open>the state of the first loop after \<open>k\<close> points\<close>
  "scanned f response delay low high room k s \<longleftrightarrow>
    (let line = line_phase f response delay; points = in_band_points f low high k
     in length (rs_unwrapped s) = room \<and> (\<forall>i<k. rs_unwrapped s ! i = line i) \<and>
        (0 < k \<longrightarrow> rs_previous_phase s = line (k - 1)) \<and>
        (1 < k \<longrightarrow> rs_previous_increment s = line (k - 1) - line (k - 2)) \<and>
        rs_used s = card points \<and> rs_sum_frequency s = (\<Sum>i\<in>points. real (f ! i)) \<and>
        rs_sum_phase s = (\<Sum>i\<in>points. line i) \<and> rs_sum_frequency_square s = (\<Sum>i\<in>points. (real (f ! i))\<^sup>2) \<and>
        rs_sum_frequency_phase s = (\<Sum>i\<in>points. real (f ! i) * line i) \<and>
        rs_first s = (if points = {} then length response else Min points) \<and>
        rs_last s = (if points = {} then length response else Max points) \<and>
        rs_minimum_amplitude s = (if points = {} then None else Some (Min ((\<lambda>i. cmod (response ! i)) ` points))) \<and>
        rs_maximum_amplitude s = Max (insert 0 ((\<lambda>i. cmod (response ! i)) ` points)))"

lemma in_band_Suc:
  "in_band_points f low high (Suc k) =
    (if low \<le> real (f ! k) \<and> real (f ! k) \<le> high then insert k (in_band_points f low high k)
     else in_band_points f low high k)"
  by (auto simp: in_band_points_def less_Suc_eq)

lemma in_band_finite [simp]: "finite (in_band_points f low high k)" and in_band_less: "i \<in> in_band_points f low high k \<Longrightarrow> i < k"
  by (auto simp: in_band_points_def)

lemma unwrap_point_line:
  assumes "linear_channel f response delay offset" and "scanned f response delay low high room k s"
    and "k < length response" and "length response \<le> room"
  shows "\<exists>s'. unwrap_point k (Arg (response ! k)) s = s' \<and> rs_previous_phase s' = line_phase f response delay k \<and>
    (0 < k \<longrightarrow> rs_previous_increment s' = line_phase f response delay k - line_phase f response delay (k - 1)) \<and>
    rs_unwrapped s' = (rs_unwrapped s)[k := line_phase f response delay k]"
proof -
  let ?line = "line_phase f response delay"
  have prev: "0 < k \<Longrightarrow> rs_previous_phase s = ?line (k - 1)"
    "1 < k \<Longrightarrow> rs_previous_increment s = ?line (k - 1) - ?line (k - 2)"
    using assms(2) by (auto simp: scanned_def Let_def)
  obtain n where n: "Arg (response ! k) = ?line k + 2 * pi * real_of_int n"
    using arg_line [OF assms(1,3)] assms(3) by fastforce
  consider "k = 0" | "k = 1" | "1 < k" by linarith
  then show ?thesis
  proof cases
    case 1
    then show ?thesis by (simp add: unwrap_point_def Let_def line_phase_def)
  next
    case 2
    have "\<bar>?line 1 - ?line 0\<bar> < pi"
    proof -
      have "\<bar>delay * (real (f ! 1) - real (f ! 0))\<bar> < 1 / 2" using assms(1) by (simp add: linear_channel_def)
      then have "2 * pi * \<bar>delay * (real (f ! 1) - real (f ! 0))\<bar> < 2 * pi * (1 / 2)" by (intro mult_strict_left_mono) simp_all
      then show ?thesis unfolding line_phase_step by (simp add: abs_mult)
    qed
    then have "unwrap (?line 0) (Arg (response ! 1)) = ?line 1" using unwrap_unique n 2 by simp
    with 2 prev(1) show ?thesis by (simp add: unwrap_point_def Let_def)
  next
    case 3
    let ?t = "?line (k - 1) + (?line (k - 1) - ?line (k - 2))"
    have "\<bar>?line k - ?t\<bar> < pi"
    proof -
      let ?d = "delay * ((real (f ! k) - real (f ! (k - 1))) - (real (f ! (k - 1)) - real (f ! (k - 2))))"
      have "\<bar>?d\<bar> < 1 / 2" using assms(1,3) 3 by (auto simp: linear_channel_def)
      then have "2 * pi * \<bar>?d\<bar> < 2 * pi * (1 / 2)" by (intro mult_strict_left_mono) simp_all
      moreover have "?line k - ?t = - 2 * pi * ?d" by (simp add: line_phase_def algebra_simps)
      ultimately show ?thesis by (simp add: abs_mult)
    qed
    then have "unwrap ?t (Arg (response ! k)) = ?line k" using unwrap_unique n by simp
    with 3 prev show ?thesis by (simp add: unwrap_point_def Let_def)
  qed
qed

lemma unwrap_point_sel [simp]:
  "rs_used (unwrap_point k p s) = rs_used s" "rs_sum_frequency (unwrap_point k p s) = rs_sum_frequency s"
  "rs_sum_phase (unwrap_point k p s) = rs_sum_phase s" "rs_first (unwrap_point k p s) = rs_first s"
  "rs_sum_frequency_square (unwrap_point k p s) = rs_sum_frequency_square s" "rs_last (unwrap_point k p s) = rs_last s"
  "rs_sum_frequency_phase (unwrap_point k p s) = rs_sum_frequency_phase s"
  "rs_minimum_amplitude (unwrap_point k p s) = rs_minimum_amplitude s"
  "rs_maximum_amplitude (unwrap_point k p s) = rs_maximum_amplitude s"
  by (simp_all add: unwrap_point_def Let_def)

lemma add_in_band_sel [simp]:
  "rs_previous_phase (add_in_band n k q a s) = rs_previous_phase s"
  "rs_previous_increment (add_in_band n k q a s) = rs_previous_increment s"
  "rs_unwrapped (add_in_band n k q a s) = rs_unwrapped s"
  by (simp_all add: add_in_band_def Let_def)

lemma scan_point_scanned:
  assumes ch: "linear_channel f response delay offset" and sc: "scanned f response delay low high room k s"
    and k: "k < length response" and room: "length response \<le> room"
  shows "\<exists>s'. scan_point f response low high k (Some s) = Some s' \<and> scanned f response delay low high room (Suc k) s'"
proof -
  let ?line = "line_phase f response delay" and ?B = "in_band_points f low high k" and ?u = "unwrap_point k (Arg (response ! k)) s"
  let ?amp = "\<lambda>i. cmod (response ! i)"
  have ok: "0 < ?amp k" "0 < k \<Longrightarrow> f ! (k - 1) < f ! k" using ch k by (auto simp: linear_channel_def)
  have u: "rs_previous_phase ?u = ?line k" "0 < k \<Longrightarrow> rs_previous_increment ?u = ?line k - ?line (k - 1)"
    "rs_unwrapped ?u = (rs_unwrapped s)[k := ?line k]"
    using unwrap_point_line [OF ch sc k room] by auto
  have len: "length (rs_unwrapped s) = room" and old: "\<forall>i<k. rs_unwrapped s ! i = ?line i"
    using sc by (auto simp: scanned_def Let_def)
  then have new: "\<forall>i<Suc k. (rs_unwrapped s)[k := ?line k] ! i = ?line i" using k room by (auto simp: less_Suc_eq)
  have out: "k \<notin> ?B" using in_band_less by blast
  show ?thesis
  proof (cases "low \<le> real (f ! k) \<and> real (f ! k) \<le> high")
    case False
    have "scanned f response delay low high room (Suc k) ?u"
      using sc u len new False by (auto simp: scanned_def Let_def in_band_Suc)
    moreover have "scan_point f response low high k (Some s) = Some ?u"
      using ok False by (auto simp: scan_point_def Let_def not_le)
    ultimately show ?thesis by blast
  next
    case True
    let ?a = "add_in_band (length response) k (f ! k) (?amp k) ?u"
    have step: "scan_point f response low high k (Some s) = Some ?a"
      using ok True by (auto simp: scan_point_def Let_def)
    have first: "Min (insert k ?B) = (if ?B = {} then k else Min ?B)" "Max (insert k ?B) = k"
    proof -
      have "Min ?B < k" if "?B \<noteq> {}" using Min_in [OF in_band_finite that] in_band_less by blast
      then show "Min (insert k ?B) = (if ?B = {} then k else Min ?B)"
        by (cases "?B = {}") (simp_all add: min_absorb2 less_imp_le)
      show "Max (insert k ?B) = k" using in_band_less by (intro Max_eqI) (auto simp: less_imp_le)
    qed
    have less: "?B \<noteq> {} \<longrightarrow> Min ?B \<noteq> length response"
    proof
      assume "?B \<noteq> {}"
      from in_band_less [OF Min_in [OF in_band_finite this]] k show "Min ?B \<noteq> length response" by linarith
    qed
    have amin: "Min (?amp ` insert k ?B) = (case rs_minimum_amplitude s of None \<Rightarrow> ?amp k | Some m \<Rightarrow> min m (?amp k))"
      using sc by (auto simp: scanned_def Let_def min.commute)
    have amax: "Max (insert 0 (?amp ` insert k ?B)) = max (rs_maximum_amplitude s) (?amp k)"
    proof -
      have "insert 0 (?amp ` insert k ?B) = insert (?amp k) (insert 0 (?amp ` ?B))" by auto
      moreover have "rs_maximum_amplitude s = Max (insert 0 (?amp ` ?B))" using sc by (simp add: scanned_def Let_def)
      ultimately show ?thesis by (simp only:) (subst Max_insert, auto simp: max.commute)
    qed
    have "scanned f response delay low high room (Suc k) ?a"
      unfolding scanned_def Let_def in_band_Suc if_P [OF True] amin amax first add_in_band_sel
      using sc u len new out
      by (simp add: scanned_def Let_def add_in_band_def power2_eq_square) (use less in blast)
    with step show ?thesis by blast
  qed
qed

lemma scan_all:
  assumes "linear_channel f response delay offset" and "length response \<le> length unwrapped" and "k \<le> length response"
  shows "\<exists>s. fold (scan_point f response low high) [0..<k] (Some (start_sums (length response) unwrapped)) = Some s \<and>
    scanned f response delay low high (length unwrapped) k s"
  using assms(3)
proof (induction k)
  case 0
  then show ?case by (simp add: scanned_def Let_def start_sums_def in_band_points_def)
next
  case (Suc k)
  then obtain s where "fold (scan_point f response low high) [0..<k] (Some (start_sums (length response) unwrapped)) = Some s"
    "scanned f response delay low high (length unwrapped) k s" by auto
  with scan_point_scanned [OF assms(1) this(2) _ assms(2)] Suc.prems show ?case by simp
qed

subsection \<open>The least-squares line of exact data\<close>

lemma spread_positive:
  fixes f :: "nat \<Rightarrow> nat"
  assumes "finite B" and "i \<in> B" "j \<in> B" "f i \<noteq> f j"
  shows "1 \<le> real (card B) * (\<Sum>i\<in>B. (real (f i))\<^sup>2) - (\<Sum>i\<in>B. real (f i)) * (\<Sum>i\<in>B. real (f i))" (is "1 \<le> ?d")
proof -
  let ?n = "real (card B)" and ?S = "\<Sum>i\<in>B. real (f i)" and ?Q = "\<Sum>i\<in>B. (real (f i))\<^sup>2"
  have n: "0 < ?n" using assms(1,2) by (auto simp: card_gt_0_iff)
  have "(\<Sum>i\<in>B. (?n * real (f i) - ?S)\<^sup>2) = (\<Sum>i\<in>B. ?n\<^sup>2 * (real (f i))\<^sup>2 - 2 * ?n * ?S * real (f i) + ?S\<^sup>2)"
    by (rule sum.cong) (simp_all add: power2_eq_square algebra_simps)
  also have "\<dots> = ?n\<^sup>2 * ?Q - 2 * ?n * ?S * ?S + ?n * ?S\<^sup>2"
    by (simp add: sum.distrib sum_subtractf sum_distrib_left)
  also have "\<dots> = ?n * ?d" by (simp add: power2_eq_square algebra_simps)
  finally have eq: "(\<Sum>i\<in>B. (?n * real (f i) - ?S)\<^sup>2) = ?n * ?d" .
  have "0 < (\<Sum>i\<in>B. (?n * real (f i) - ?S)\<^sup>2)"
  proof (rule ccontr)
    assume "\<not> ?thesis"
    moreover have "0 \<le> (\<Sum>i\<in>B. (?n * real (f i) - ?S)\<^sup>2)" by (simp add: sum_nonneg)
    ultimately have "\<forall>i\<in>B. (?n * real (f i) - ?S)\<^sup>2 = 0"
      using assms(1) by (subst sum_nonneg_eq_0_iff [symmetric]) auto
    then have "?n * real (f i) = ?n * real (f j)" using assms(2,3) by auto
    with n assms(4) show False by simp
  qed
  then have pos: "0 < ?d" unfolding eq using n by (simp add: zero_less_mult_iff)
  have "?d = real_of_int (int (card B) * (\<Sum>i\<in>B. (int (f i))\<^sup>2) - (\<Sum>i\<in>B. int (f i)) * (\<Sum>i\<in>B. int (f i)))" by simp
  with pos show ?thesis by (metis of_int_0_less_iff of_int_1_le_iff int_one_le_iff_zero_less)
qed

lemma fit_exact:
  assumes "finite B" and ij: "i \<in> B" "j \<in> B" "f ! i \<noteq> f ! j"
    and s: "rs_used s = card B" "rs_sum_frequency s = (\<Sum>i\<in>B. real (f ! i))" "rs_sum_phase s = (\<Sum>i\<in>B. a + b * real (f ! i))"
      "rs_sum_frequency_square s = (\<Sum>i\<in>B. (real (f ! i))\<^sup>2)" "rs_sum_frequency_phase s = (\<Sum>i\<in>B. real (f ! i) * (a + b * real (f ! i)))"
  shows "fit_line s = Some (b, a)"
proof -
  let ?n = "real (card B)" and ?S = "\<Sum>i\<in>B. real (f ! i)" and ?Q = "\<Sum>i\<in>B. (real (f ! i))\<^sup>2"
  let ?d = "?n * ?Q - ?S * ?S"
  have d: "1 \<le> ?d" using spread_positive [where f = "\<lambda>i. f ! i", OF assms(1) ij] by simp
  have n: "0 < ?n" using assms(1) ij(1) by (auto simp: card_gt_0_iff)
  have p: "rs_sum_phase s = ?n * a + b * ?S" using s(3) by (simp add: sum.distrib sum_distrib_left)
  have fp: "rs_sum_frequency_phase s = a * ?S + b * ?Q"
    unfolding s(5) by (simp add: sum.distrib sum_distrib_left algebra_simps power2_eq_square)
  have slope: "(?n * rs_sum_frequency_phase s - ?S * rs_sum_phase s) / ?d = b"
  proof -
    have "?n * rs_sum_frequency_phase s - ?S * rs_sum_phase s = b * ?d" unfolding p fp by (simp add: algebra_simps)
    with d show ?thesis by simp
  qed
  have intercept: "(rs_sum_phase s - b * ?S) / ?n = a" using n unfolding p by simp
  have "\<not> \<bar>?d\<bar> < 1 / 10 ^ 12" using d by simp
  with slope intercept show ?thesis unfolding fit_line_def Let_def s(1,2,4) by simp
qed

section \<open>Properties\<close>

text \<open>
  a radio path with linear phase is measured exactly.  If the response at every measured frequency has a
  positive amplitude and the phase of a fixed delay and a fixed turn, sampled finely enough that the phase
  steps are unambiguous, and at least three points lie in the band, then the analysis succeeds, whatever the
  amplitudes: it reports exactly the delay, no group-delay ripple, no residual phase, the number of points in
  the band, and the ratio of the largest to the smallest amplitude in the band as ripple.
\<close>

lemma response_linear_exact:
  assumes "linear_channel f response delay offset" and "3 \<le> length response" and "length response \<le> length unwrapped"
    and "0 \<le> low" "low < high" and "3 \<le> card (in_band_points f low high (length response))"
  shows "let band = in_band_points f low high (length response); amplitudes = (\<lambda>i. cmod (response ! i)) ` band
    in \<exists>phases. rtnc_radio_response_analyze f response low high unwrapped =
      Some (\<lparr> rm_amplitude_ripple_db = 20 * log 10 (Max amplitudes / Min amplitudes), rm_relative_delay_ms = 1000 * delay,
              rm_group_delay_ripple_ms = 0, rm_residual_phase_rms_degrees = 0, rm_points_used = card band \<rparr>, phases)"
proof -
  let ?N = "length response" and ?line = "line_phase f response delay"
  let ?B = "in_band_points f low high ?N" and ?amp = "\<lambda>i. cmod (response ! i)"
  obtain s where s: "fold (scan_point f response low high) [0..<?N] (Some (start_sums ?N unwrapped)) = Some s"
    "scanned f response delay low high (length unwrapped) ?N s"
    using scan_all [OF assms(1,3) order_refl] by blast
  have B: "?B \<noteq> {}" using assms(6) by auto
  have first: "rs_first s = Min ?B" "rs_last s = Max ?B" "rs_used s = card ?B" and line: "\<forall>i<?N. rs_unwrapped s ! i = ?line i"
    using s(2) B by (auto simp: scanned_def Let_def)
  have in_B: "Min ?B \<in> ?B" "Max ?B \<in> ?B" using B by simp_all
  then have N: "Min ?B < ?N" "Max ?B < ?N" by (auto dest: in_band_less)
  have lt: "Min ?B < Max ?B"
  proof (rule ccontr)
    assume "\<not> Min ?B < Max ?B"
    then have "\<forall>i\<in>?B. i = Max ?B" by (meson Max_ge Min_le in_band_finite le_antisym not_less order_trans)
    then have "?B \<subseteq> {Max ?B}" by blast
    then have "card ?B \<le> 1" using card_mono [of "{Max ?B}" ?B] by simp
    with assms(6) show False by simp
  qed
  have increasing: "i < j \<Longrightarrow> j < ?N \<Longrightarrow> f ! i < f ! j" for i j
  proof (induction j)
    case (Suc j)
    have "f ! j < f ! Suc j" using assms(1) Suc.prems by (auto simp: linear_channel_def dest: spec [of _ "Suc j"])
    with Suc show ?case by (cases "i = j") auto
  qed simp
  define a where "a = Arg (response ! 0) + 2 * pi * delay * real (f ! 0)"
  define b where "b = - 2 * pi * delay"
  have affine: "?line i = a + b * real (f ! i)" for i by (simp add: a_def b_def line_phase_def algebra_simps)
  have fit: "fit_line s = Some (b, a)"
    by (rule fit_exact [OF in_band_finite in_B])
      (use increasing [OF lt N(2)] s(2) in \<open>auto simp: scanned_def Let_def affine\<close>)
  let ?delays = "group_delays f (rs_unwrapped s) [Suc (Min ?B)..<Suc (Max ?B)]"
  have none: "residual_square_sum f (rs_unwrapped s) b a ks = 0" if "set ks \<subseteq> {..<?N}" for ks
    using that line by (induction ks rule: rev_induct) (simp_all add: residual_square_sum_def affine Let_def)
  have residual: "residual_square_sum f (rs_unwrapped s) b a [Min ?B..<Suc (Max ?B)] = 0"
    by (rule none) (use N(2) in auto)
  have d: "- (rs_unwrapped s ! k - rs_unwrapped s ! (k - 1)) / (2 * pi * real (f ! k - f ! (k - 1))) = delay"
    if "0 < k" "k < ?N" for k
  proof -
    have "f ! (k - 1) < f ! k" using assms(1) that by (simp add: linear_channel_def)
    then show ?thesis using line that by (simp add: affine b_def of_nat_diff field_simps)
  qed
  have delays: "set ?delays = {delay}"
  proof -
    have "x = delay" if "x \<in> set ?delays" for x
      using that d N by (auto simp: group_delays_def)
    moreover have "?delays \<noteq> []" using lt by (simp add: group_delays_def)
    ultimately show ?thesis by (cases ?delays) auto
  qed
  have amax: "rs_maximum_amplitude s = Max (?amp ` ?B)" "rs_minimum_amplitude s = Some (Min (?amp ` ?B))"
  proof -
    have "?amp (Max ?B) \<le> Max (?amp ` ?B)" using in_B(2) by (intro Max_ge) auto
    then have "0 \<le> Max (?amp ` ?B)" by (meson norm_ge_zero order_trans)
    then show "rs_maximum_amplitude s = Max (?amp ` ?B)" using s(2) B by (simp add: scanned_def Let_def)
    show "rs_minimum_amplitude s = Some (Min (?amp ` ?B))" using s(2) B by (simp add: scanned_def Let_def)
  qed
  have rd: "- 1000 * b / (2 * pi) = 1000 * delay" by (simp add: b_def)
  show ?thesis
    using assms(2,4,5,6) s(1) N lt rd
    by (simp add: rtnc_radio_response_analyze_def Let_def first fit residual delays amax rd del: upt_Suc)
qed

definition verdict_rank :: "rtnc_radio_suitability \<Rightarrow> nat" where
  "verdict_rank verdict = (case verdict of RTNC_RADIO_SUITABILITY_POOR \<Rightarrow> 0 | RTNC_RADIO_SUITABILITY_MARGINAL \<Rightarrow> 1
     | RTNC_RADIO_SUITABILITY_GOOD \<Rightarrow> 2)"

text \<open>
  the screening is not monotone in the modulation.  For the better channel of two it never gives the
  worse verdict, and from QPSK to 8PSK to 16PSK the verdict on one channel can only get worse; but BPSK is
  granted less group-delay ripple than QPSK, so at every symbol rate there is a channel that is called good
  for QPSK and only marginal for BPSK, the more robust modulation.
\<close>

lemma response_suitability_order:
  assumes "0 < baud" and "rm_residual_phase_rms_degrees m \<le> rm_residual_phase_rms_degrees m'"
    and "rm_group_delay_ripple_ms m \<le> rm_group_delay_ripple_ms m'" and "0 \<le> rm_residual_phase_rms_degrees m"
    and "0 \<le> rm_group_delay_ripple_ms m" and "2 \<le> bits" "bits \<le> bits'"
  shows "verdict_rank (rtnc_radio_response_suitability m' bits' baud) \<le> verdict_rank (rtnc_radio_response_suitability m bits baud) \<and>
    (\<exists>channel. rtnc_radio_response_suitability channel 2 baud = RTNC_RADIO_SUITABILITY_GOOD \<and>
       rtnc_radio_response_suitability channel 1 baud = RTNC_RADIO_SUITABILITY_MARGINAL)"
proof
  let ?c = "m \<lparr> rm_residual_phase_rms_degrees := 0, rm_group_delay_ripple_ms := 600 / real baud \<rparr>"
  have "rtnc_radio_response_suitability ?c 2 baud = RTNC_RADIO_SUITABILITY_GOOD \<and>
       rtnc_radio_response_suitability ?c 1 baud = RTNC_RADIO_SUITABILITY_MARGINAL"
    using assms(1) by (simp add: rtnc_radio_response_suitability_def phase_good_def delay_good_def Let_def divide_le_cancel)
  then show "\<exists>channel. rtnc_radio_response_suitability channel 2 baud = RTNC_RADIO_SUITABILITY_GOOD \<and>
       rtnc_radio_response_suitability channel 1 baud = RTNC_RADIO_SUITABILITY_MARGINAL" by blast
  have pos: "0 < real baud" using assms(1) by simp
  have le: "600 / real baud \<le> 1200 / real baud" "350 / real baud \<le> 600 / real baud" "150 / real baud \<le> 350 / real baud"
    "700 / real baud \<le> 1200 / real baud" "300 / real baud \<le> 700 / real baud"
    using pos by (simp_all add: divide_right_mono)
  consider "4 < bits'" | "bits' = 2" "bits = 2" | "bits' = 3" "bits = 2" | "bits' = 3" "bits = 3"
    | "bits' = 4" "bits = 2" | "bits' = 4" "bits = 3" | "bits' = 4" "bits = 4"
    using assms(6,7) by linarith
  then show "verdict_rank (rtnc_radio_response_suitability m' bits' baud) \<le> verdict_rank (rtnc_radio_response_suitability m bits baud)"
    using assms(1-5) le
    by cases (auto simp: rtnc_radio_response_suitability_def phase_good_def delay_good_def verdict_rank_def Let_def)
qed

end
