(* ===== verification/Decoder.thy ===== *)
theory Decoder
  imports ModemRx DecodeQueue Completion Wav
begin

text \<open>
  The decoder threads of the receive daemon, \<^verbatim>\<open>tools/alsa_rx.c\<close>: a worker takes a candidate from its
  queue, runs the modem on it, keeps statistics and submits the result to the completion window.  An
  iteration of \<^verbatim>\<open>decoder_thread_main\<close> is \<open>decoder_take\<close>, up to the call of the modem, and
  \<open>decoder_finish\<close>, from there on: between the two the candidate is in the worker's hands and the other
  threads go on.  \<open>None\<close> stands for an access outside a buffer.
\<close>

section \<open>The host\<close>

record 'w host =
  host_clock_gettime :: "bool \<Rightarrow> 'w \<Rightarrow> (int \<times> int) option \<times> 'w"
    \<comment> \<open>the flag: the thread's CPU time instead of the monotonic clock; seconds and nanoseconds\<close>
  host_setpriority :: "u32 \<Rightarrow> 'w \<Rightarrow> int \<times> 'w"
  host_getpriority :: "'w \<Rightarrow> int \<times> 'w"
  host_pthread_create :: "'w \<Rightarrow> int \<times> 'w"
  host_socket :: "'w \<Rightarrow> int \<times> 'w"
  host_setsockopt :: "int \<Rightarrow> 'w \<Rightarrow> 'w"
  host_bind :: "int \<Rightarrow> u16 \<Rightarrow> 'w \<Rightarrow> int \<times> 'w"
  host_listen :: "int \<Rightarrow> 'w \<Rightarrow> int \<times> 'w"
  host_accept :: "int \<Rightarrow> 'w \<Rightarrow> int \<times> 'w"
  host_recv :: "int \<Rightarrow> nat \<Rightarrow> 'w \<Rightarrow> bytes option \<times> 'w" \<comment> \<open>\<open>None\<close>: negative result; \<open>Some []\<close>: closed\<close>
  host_send :: "int \<Rightarrow> bytes \<Rightarrow> 'w \<Rightarrow> int \<times> 'w"
  host_close :: "int \<Rightarrow> 'w \<Rightarrow> 'w"
  host_fopen :: "string \<Rightarrow> 'w \<Rightarrow> sink option \<times> 'w" \<comment> \<open>for writing\<close>
  host_fclose :: "sink \<Rightarrow> 'w \<Rightarrow> int \<times> 'w"

definition clock_seconds :: "'w host \<Rightarrow> bool \<Rightarrow> 'w \<Rightarrow> real \<times> 'w" where
  "clock_seconds H thread_time w =
    (let (value', w) = host_clock_gettime H thread_time w
     in (case value' of None \<Rightarrow> 0 | Some (sec, nsec) \<Rightarrow> real_of_int sec + real_of_int nsec / 10 ^ 9, w))"

definition enqueue_time :: "'w host \<Rightarrow> 'w \<Rightarrow> (u64 \<times> u64) option \<times> 'w" where
  \<comment> \<open>the reading that \<^verbatim>\<open>rtnc_decode_queue_push\<close> takes\<close>
  "enqueue_time H w =
    (let (value', w) = host_clock_gettime H False w
     in (map_option (\<lambda>(sec, nsec). (word_of_int sec, word_of_int nsec)) value', w))"

section \<open>State\<close>

record 'd decoder_context =
  de_queue :: rtnc_decode_queue
  de_modem :: "'d rtnc_modem"
  de_workspace :: rtnc_modem_workspace
  de_job :: rtnc_decode_job
  de_in_hand :: "(real \<times> real) option" \<comment> \<open>within an iteration: \<^verbatim>\<open>wall_start\<close> and \<^verbatim>\<open>cpu_start\<close>\<close>
  de_running :: bool
  de_fast_only :: bool
  de_nice_increment :: u32
  de_actual_nice :: int
  de_target_frames :: u32
  de_attempts :: u32
  de_best_acquisition :: real
  de_best_training :: real
  de_best_status :: rtnc_modem_status
  de_decode_wall_seconds :: real
  de_decode_cpu_seconds :: real
  de_maximum_decode_seconds :: real
  de_maximum_queue_seconds :: real
  de_equalizer_successes :: u32
  de_snr_sum_db :: real
  de_minimum_snr_db :: real
  de_snr_count :: u32
  de_generation :: u32
  de_packet_mode :: bool
  de_worker_id :: u32

record decoded_line =
  \<comment> \<open>what is printed for a decoded frame\<close>
  dl_sequence :: u64
  dl_payload :: bytes
  dl_attempts :: u32
  dl_sequence_number :: "u32 option" \<comment> \<open>\<open>None\<close>: from bytes of \<^verbatim>\<open>payload\<close> that were never written\<close>

record decoder_shared =
  \<comment> \<open>what the pointers of the contexts lead to\<close>
  sh_fallback_queue :: "rtnc_decode_queue option"
  sh_completion :: "rtnc_completion_coordinator option"
  sh_decoded_frames :: u32
  sh_output :: "decoded_line list"

section \<open>One iteration\<close>

definition decoder_enter :: "'w host \<Rightarrow> 'd decoder_context \<Rightarrow> 'w \<Rightarrow> 'd decoder_context \<times> 'w" where
  \<comment> \<open>before the loop\<close>
  "decoder_enter H decoder w =
    (let w = (if de_nice_increment decoder > 0 then snd (host_setpriority H (de_nice_increment decoder) w) else w);
         (nice, w) = host_getpriority H w
     in (decoder \<lparr> de_actual_nice := nice \<rparr>, w))"

definition decoder_continues :: "'d decoder_context \<Rightarrow> bool" where
  "decoder_continues decoder \<longleftrightarrow> de_running decoder \<or> rtnc_decode_queue_depth (de_queue decoder) > 0"

definition queueing_time :: "rtnc_decode_job \<Rightarrow> real \<Rightarrow> 'd decoder_context \<Rightarrow> 'd decoder_context" where
  "queueing_time job wall_start decoder =
    (if dj_enqueued_monotonic_ns job > 0
     then let queued = wall_start - real (unat (dj_enqueued_monotonic_ns job)) / 10 ^ 9
          in if queued > de_maximum_queue_seconds decoder
             then decoder \<lparr> de_maximum_queue_seconds := queued \<rparr> else decoder
     else decoder)"

definition decoder_take :: "'w host \<Rightarrow> 'd decoder_context \<Rightarrow> 'w \<Rightarrow> bool \<times> 'd decoder_context \<times> 'w" where
  \<comment> \<open>false where the queue is empty and the thread sleeps\<close>
  "decoder_take H decoder w =
    (case rtnc_decode_queue_pop (de_queue decoder) of
       (None, queue) \<Rightarrow> (False, decoder \<lparr> de_queue := queue \<rparr>, w)
     | (Some job, queue) \<Rightarrow>
         let (wall_start, w) = clock_seconds H False w;
             (cpu_start, w) = clock_seconds H True w;
             decoder = queueing_time job wall_start
               (decoder \<lparr> de_queue := queue, de_job := job, de_in_hand := Some (wall_start, cpu_start) \<rparr>)
         in (True, decoder \<lparr> de_attempts := de_attempts decoder + 1 \<rparr>, w))"

definition decoding_time :: "real \<Rightarrow> real \<Rightarrow> 'd decoder_context \<Rightarrow> 'd decoder_context" where
  "decoding_time elapsed cpu_elapsed decoder =
    (let decoder = decoder \<lparr> de_decode_wall_seconds := de_decode_wall_seconds decoder + elapsed,
           de_decode_cpu_seconds := de_decode_cpu_seconds decoder + cpu_elapsed \<rparr>
     in if elapsed > de_maximum_decode_seconds decoder
        then decoder \<lparr> de_maximum_decode_seconds := elapsed \<rparr> else decoder)"

definition signal_quality :: "rtnc_sync_metrics \<Rightarrow> 'd decoder_context \<Rightarrow> 'd decoder_context" where
  "signal_quality metrics decoder =
    (let decoder = (if sm_equalizer_used metrics
           then decoder \<lparr> de_equalizer_successes := de_equalizer_successes decoder + 1 \<rparr> else decoder);
         snr = sm_training_snr_db metrics
     in if sm_evm_rms metrics > 0 \<comment> \<open>a real number is finite\<close>
        then decoder \<lparr> de_snr_sum_db := de_snr_sum_db decoder + snr,
               de_minimum_snr_db := (if de_snr_count decoder = 0 \<or> snr < de_minimum_snr_db decoder then snr
                 else de_minimum_snr_db decoder),
               de_snr_count := de_snr_count decoder + 1 \<rparr>
        else decoder)"

definition best_so_far :: "rtnc_sync_metrics \<Rightarrow> rtnc_modem_status \<Rightarrow> 'd decoder_context \<Rightarrow> 'd decoder_context" where
  "best_so_far metrics status decoder =
    (if sm_acquisition_correlation metrics > de_best_acquisition decoder
     then decoder \<lparr> de_best_acquisition := sm_acquisition_correlation metrics,
            de_best_training := sm_training_correlation metrics, de_best_status := status \<rparr>
     else decoder)"

definition run_modem :: "'d liquid \<Rightarrow> 'd decoder_context \<Rightarrow> 'd rx_outcome option" where
  "run_modem L decoder =
    (if de_fast_only decoder
     then rtnc_modem_rx_audio_fast L (de_modem decoder) (dj_samples (de_job decoder)) 128 zero_metrics
            (de_workspace decoder)
     else rtnc_modem_rx_audio L (de_modem decoder) (dj_samples (de_job decoder)) 128 zero_metrics
            (de_workspace decoder))"

definition defer_job ::
    "'w host \<Rightarrow> 'd decoder_context \<Rightarrow> 'd rx_outcome \<Rightarrow> decoder_shared \<Rightarrow> 'w \<Rightarrow> bool \<times> decoder_shared \<times> 'w" where
  \<comment> \<open>hand a frame the fast path rejects to the queue of the equalizing worker\<close>
  "defer_job H decoder out shared w =
    (case sh_fallback_queue shared of
       Some queue \<Rightarrow>
         if de_fast_only decoder \<and> ro_status out = RTNC_MODEM_FRAME_REJECTED \<and> sm_frame_detected (ro_metrics out)
         then let (time, w) = enqueue_time H w;
                  (deferred, queue) = rtnc_decode_queue_push time queue (dj_samples (de_job decoder))
                    (dj_sequence (de_job decoder))
              in (deferred, shared \<lparr> sh_fallback_queue := Some queue \<rparr>, w)
         else (False, shared, w)
     | None \<Rightarrow> (False, shared, w))"

definition decoded_payload :: "'d rx_outcome \<Rightarrow> bytes" where
  \<comment> \<open>the payload the iteration passes on\<close>
  "decoded_payload out =
    (if ro_status out = RTNC_MODEM_OK then case ro_payload out of None \<Rightarrow> [] | Some payload \<Rightarrow> payload else [])"

definition submit_result :: "'d decoder_context \<Rightarrow> 'd rx_outcome \<Rightarrow> bool \<Rightarrow> decoder_shared \<Rightarrow> decoder_shared" where
  "submit_result decoder out deferred shared =
    (case sh_completion shared of
       None \<Rightarrow> shared
     | Some coordinator \<Rightarrow>
         if ro_status out = RTNC_MODEM_OK \<or> \<not> deferred
         then shared \<lparr> sh_completion := Some (snd (rtnc_completion_submit coordinator (dj_sequence (de_job decoder))
                (de_generation decoder) (ro_status out = RTNC_MODEM_OK) (decoded_payload out))) \<rparr>
         else shared)"

definition printed_number :: "bytes \<Rightarrow> u32 option" where
  "printed_number payload =
    (if length payload < 4 then None
     else Some (push_bit 24 (ucast (payload ! 0)) OR push_bit 16 (ucast (payload ! 1)) OR
                push_bit 8 (ucast (payload ! 2)) OR ucast (payload ! 3)))"

definition report_decoded :: "'d decoder_context \<Rightarrow> bytes \<Rightarrow> decoder_shared \<Rightarrow> bool \<times> decoder_shared" where
  \<comment> \<open>false where the thread leaves its loop\<close>
  "report_decoded decoder payload shared =
    (let line = \<lparr> dl_sequence = dj_sequence (de_job decoder), dl_payload = payload, dl_attempts = de_attempts decoder,
                  dl_sequence_number = printed_number payload \<rparr>;
         shared = shared \<lparr> sh_output := sh_output shared @ [line], sh_decoded_frames := sh_decoded_frames shared + 1 \<rparr>
     in (\<not> (de_target_frames decoder \<noteq> 0 \<and> sh_decoded_frames shared \<ge> de_target_frames decoder), shared))"

definition decoder_finish ::
    "'d liquid \<Rightarrow> 'w host \<Rightarrow> 'd decoder_context \<Rightarrow> decoder_shared \<Rightarrow> 'w \<Rightarrow>
     (bool \<times> 'd decoder_context \<times> decoder_shared \<times> 'w) option" where
  "decoder_finish L H decoder shared w =
    (case (de_in_hand decoder, run_modem L decoder) of
       (Some (wall_start, cpu_start), Some out) \<Rightarrow>
         let (wall_end, w) = clock_seconds H False w;
             (cpu_end, w) = clock_seconds H True w;
             decoder = decoder \<lparr> de_modem := ro_modem out, de_workspace := ro_workspace out, de_in_hand := None \<rparr>;
             decoder = best_so_far (ro_metrics out) (ro_status out) (signal_quality (ro_metrics out)
               (decoding_time (wall_end - wall_start) (cpu_end - cpu_start) decoder));
             (deferred, shared, w) = defer_job H decoder out shared w;
             shared = submit_result decoder out deferred shared
         in if ro_status out = RTNC_MODEM_OK \<and> \<not> de_packet_mode decoder
            then let (continue, shared) = report_decoded decoder (decoded_payload out) shared
                 in Some (continue, decoder, shared, w)
            else Some (True, decoder, shared, w)
     | _ \<Rightarrow> None)"

definition decoder_iteration ::
    "'d liquid \<Rightarrow> 'w host \<Rightarrow> 'd decoder_context \<Rightarrow> decoder_shared \<Rightarrow> 'w \<Rightarrow>
     (bool \<times> 'd decoder_context \<times> decoder_shared \<times> 'w) option" where
  "decoder_iteration L H decoder shared w =
    (let (popped, decoder, w) = decoder_take H decoder w
     in if popped then decoder_finish L H decoder shared w else Some (True, decoder, shared, w))"

end
