(* ===== verification/JobFlow.thy ===== *)
theory JobFlow
  imports Completion
begin

text \<open>
  What the receive daemon does with frame candidates, as an abstract machine: candidates get consecutive
  numbers, each is handed to one of two workers or fails at once, a worker decides its jobs in order and
  submits each result to the window of \<open>completion_spec\<close>, and the consumer takes results in job order.  A
  job that left its worker but has no result in the window is lost: the lemmas show when that cannot
  happen, and that a lost job stops the consumer for good.
\<close>

record job_flow =
  jf_pending :: "nat \<Rightarrow> u64 list" \<comment> \<open>of each worker, the job in hand first\<close>
  jf_window :: completion_spec
  jf_sequence :: u64 \<comment> \<open>the number of the next candidate\<close>

inductive flow_step :: "job_flow \<Rightarrow> job_flow \<Rightarrow> bool" where
  queue: "k < 2 \<Longrightarrow> flow_step f (f \<lparr> jf_pending := (jf_pending f)(k := jf_pending f k @ [jf_sequence f]),
      jf_sequence := jf_sequence f + 1 \<rparr>)"
| fail: "spec_submit (jf_window f) (jf_sequence f) (sp_generation (jf_window f)) (False, []) = (ok, s) \<Longrightarrow>
    flow_step f (f \<lparr> jf_window := s, jf_sequence := jf_sequence f + 1 \<rparr>)"
| decide: "k < 2 \<Longrightarrow> jf_pending f k = j # js \<Longrightarrow> completion_arguments_ok (fst r) (snd r) \<Longrightarrow>
    spec_submit (jf_window f) j (sp_generation (jf_window f)) r = (ok, s) \<Longrightarrow>
    flow_step f (f \<lparr> jf_pending := (jf_pending f)(k := js), jf_window := s \<rparr>)"
| deliver: "spec_pop (jf_window f) = (Some x, s) \<Longrightarrow> flow_step f (f \<lparr> jf_window := s \<rparr>)"

definition pending_jobs :: "job_flow \<Rightarrow> u64 list" where
  "pending_jobs f = jf_pending f 0 @ jf_pending f 1"

definition next_job :: "job_flow \<Rightarrow> u64" where
  "next_job f = sp_next (jf_window f)"

definition backlog :: "job_flow \<Rightarrow> nat" where
  \<comment> \<open>candidates seen and not yet delivered\<close>
  "backlog f = unat (jf_sequence f) - unat (next_job f)"

definition open_job :: "job_flow \<Rightarrow> u64 \<Rightarrow> bool" where
  "open_job f j \<longleftrightarrow> next_job f \<le> j \<and> j < jf_sequence f"

definition lost :: "job_flow \<Rightarrow> u64 \<Rightarrow> bool" where
  "lost f j \<longleftrightarrow> open_job f j \<and> j \<notin> set (pending_jobs f) \<and> sp_waiting (jf_window f) j = None"

definition flow_ok :: "job_flow \<Rightarrow> bool" where
  "flow_ok f \<longleftrightarrow> next_job f \<le> jf_sequence f \<and> distinct (pending_jobs f) \<and>
     (\<forall>j \<in> set (pending_jobs f). open_job f j \<and> sp_waiting (jf_window f) j = None) \<and>
     (\<forall>j. sp_waiting (jf_window f) j \<noteq> None \<longrightarrow> open_job f j)"

section \<open>The window\<close>

lemma spec_submit_cases:
  assumes "spec_submit s j g r = (ok, s')"
  shows "sp_next s' = sp_next s" "sp_capacity s' = sp_capacity s" "sp_generation s' = sp_generation s"
    "sp_waiting s' = (if ok then (sp_waiting s)(j \<mapsto> r) else sp_waiting s)"
    "ok \<longleftrightarrow> completion_arguments_ok (fst r) (snd r) \<and> g = sp_generation s \<and> sp_next s \<le> j \<and>
       unat (j - sp_next s) < sp_capacity s \<and> sp_waiting s j = None"
  using assms by (auto simp: spec_submit_def split: if_splits)

lemma spec_pop_cases:
  assumes "spec_pop s = (Some x, s')"
  shows "sp_next s' = sp_next s + 1" "sp_capacity s' = sp_capacity s" "sp_generation s' = sp_generation s"
    "sp_waiting s (sp_next s) \<noteq> None" "sp_waiting s' = (sp_waiting s)(sp_next s := None)" "fst x = sp_next s"
  using assms by (auto simp: spec_pop_def split: option.splits)

lemma unat_next: "(j :: u64) \<noteq> - 1 \<Longrightarrow> unat (j + 1) = unat j + 1"
  by (metis Suc_eq_plus1 add.commute add_eq_0_iff unatSuc)

lemma less_not_max: "(j :: u64) < k \<Longrightarrow> j \<noteq> - 1"
  by (metis leD word_n1_ge)

lemma le_next: "(j :: u64) < k \<Longrightarrow> j + 1 \<le> i \<longleftrightarrow> j < i"
  using unat_next [OF less_not_max] by (simp only: word_le_nat_alt word_less_nat_alt) linarith

lemma less_next: "(s :: u64) \<noteq> - 1 \<Longrightarrow> j < s + 1 \<longleftrightarrow> j \<le> s"
  by (drule unat_next) (simp add: word_le_nat_alt word_less_nat_alt less_Suc_eq_le)

lemma fresh_sequence:
  assumes "flow_ok f"
  shows "jf_sequence f \<notin> set (pending_jobs f)" "sp_waiting (jf_window f) (jf_sequence f) = None"
  using assms unfolding flow_ok_def open_job_def by blast+

lemma next_le_sequence:
  assumes "flow_ok f" shows "next_job f \<le> jf_sequence f"
  using assms by (simp add: flow_ok_def)

lemma next_le_next_sequence:
  "flow_ok f \<Longrightarrow> jf_sequence f \<noteq> - 1 \<Longrightarrow> next_job f \<le> jf_sequence f + 1"
  using less_next [of "jf_sequence f" "next_job f"] next_le_sequence [of f] by simp

section \<open>Invariant\<close>

lemma flow_step_ok:
  assumes "flow_step f f'" "flow_ok f" "jf_sequence f \<noteq> - 1"
  shows "flow_ok f'"
  using assms
proof (induction rule: flow_step.induct)
  case (queue k f)
  then have k: "k = 0 \<or> k = 1" by auto
  show ?case using queue(2,3) k less_next [OF queue(3)] fresh_sequence [OF queue(2)] next_le_next_sequence [OF queue(2,3)]
    by (auto simp: flow_ok_def pending_jobs_def open_job_def next_job_def order.strict_implies_order)
next
  case (fail f ok s)
  note c = spec_submit_cases [OF fail(1)]
  from next_le_next_sequence [OF fail(2,3)] show ?case using fail(2) c(1,4) less_next [OF fail(3)] fresh_sequence(1) [OF fail(2)]
    by (auto simp: flow_ok_def pending_jobs_def open_job_def next_job_def order.strict_implies_order split: if_splits)
next
  case (decide k f j js r ok s)
  then have k: "k = 0 \<or> k = 1" by auto
  note c = spec_submit_cases [OF decide(4)]
  from k decide(2,5) have j: "open_job f j" "j \<notin> set js" "set js \<subseteq> set (pending_jobs f)"
    by (auto simp: flow_ok_def pending_jobs_def)
  from k decide(2,5) c(1,4) j show ?case
    by (auto simp: flow_ok_def pending_jobs_def open_job_def next_job_def split: if_splits)
next
  case (deliver f x s)
  note c = spec_pop_cases [OF deliver(1)]
  from deliver(2) c(4) have n: "next_job f < jf_sequence f" "next_job f \<notin> set (pending_jobs f)"
    unfolding flow_ok_def open_job_def next_job_def by auto
  have "j \<noteq> next_job f \<Longrightarrow> next_job f \<le> j \<Longrightarrow> next_job f < j" for j by simp
  then show ?case using deliver(2) c n le_next [OF n(1)]
    by (auto simp: flow_ok_def pending_jobs_def open_job_def next_job_def split: if_splits)
qed

section \<open>Lost jobs\<close>

lemma lost_stays:
  assumes "flow_step f f'" "flow_ok f" "jf_sequence f \<noteq> - 1" "lost f j"
  shows "lost f' j"
  using assms
proof (induction rule: flow_step.induct)
  case (queue k f)
  then have "k = 0 \<or> k = 1" by auto
  with queue show ?case using less_next [OF queue(3)]
    by (auto simp: lost_def open_job_def next_job_def pending_jobs_def order.strict_implies_order)
next
  case (fail f ok s)
  from spec_submit_cases(1,4) [OF fail(1)] fail show ?case using less_next [OF fail(3)]
    by (auto simp: lost_def open_job_def next_job_def pending_jobs_def order.strict_implies_order)
next
  case (decide k f i js r ok s)
  then have k: "k = 0 \<or> k = 1" by auto
  with decide(2,7) have "j \<noteq> i" by (auto simp: lost_def pending_jobs_def)
  with k decide spec_submit_cases(1,4) [OF decide(4)] show ?case
    by (auto simp: lost_def open_job_def next_job_def pending_jobs_def)
next
  case (deliver f x s)
  note c = spec_pop_cases [OF deliver(1)]
  from deliver(4) c(4) have j: "next_job f \<noteq> j" "next_job f \<le> j" "j < jf_sequence f"
    by (auto simp: lost_def next_job_def open_job_def)
  then have "next_job f < j" by simp
  from le_next [OF this, of j] this deliver(4) c j show ?case
    by (auto simp: lost_def open_job_def next_job_def pending_jobs_def)
qed

text \<open>A job is lost where its result falls outside the window.\<close>

lemma fail_outside:
  assumes "flow_ok f" "jf_sequence f \<noteq> - 1" "sp_capacity (jf_window f) \<le> backlog f"
    and "spec_submit (jf_window f) (jf_sequence f) g r = (ok, s)"
  shows "\<not> ok \<and> lost (f \<lparr> jf_window := s, jf_sequence := jf_sequence f + 1 \<rparr>) (jf_sequence f)"
proof -
  note c = spec_submit_cases [OF assms(4)]
  from assms(1) have n: "next_job f \<le> jf_sequence f" by (simp add: flow_ok_def)
  then have "unat (jf_sequence f - next_job f) = backlog f" by (simp add: backlog_def unat_sub_if_size word_le_nat_alt)
  with assms(3) c(5) have "\<not> ok" by (simp add: next_job_def)
  with fresh_sequence [OF assms(1)] show ?thesis using c(1,4) n less_next [OF assms(2)]
    by (simp add: lost_def open_job_def next_job_def pending_jobs_def)
qed

lemma decide_outside:
  assumes "flow_ok f" "k < 2" "jf_pending f k = j # js"
    and "sp_capacity (jf_window f) \<le> unat (j - next_job f)"
    and "spec_submit (jf_window f) j g r = (ok, s)"
  shows "\<not> ok \<and> lost (f \<lparr> jf_pending := (jf_pending f)(k := js), jf_window := s \<rparr>) j"
proof -
  note c = spec_submit_cases [OF assms(5)]
  from assms(2) have k: "k = 0 \<or> k = 1" by auto
  have "\<not> ok" using assms(4) c(5) by (simp add: next_job_def)
  moreover from assms(1,3) k have "open_job f j" "sp_waiting (jf_window f) j = None" "distinct (pending_jobs f)"
    by (auto simp: flow_ok_def pending_jobs_def)
  ultimately show ?thesis using c(1,4) k assms(3)
    by (auto simp: lost_def open_job_def next_job_def pending_jobs_def)
qed

text \<open>While the backlog fits into the window no job gets lost.\<close>

lemma none_lost_step:
  assumes "flow_step f f'" "flow_ok f" "jf_sequence f \<noteq> - 1"
    and "backlog f \<le> sp_capacity (jf_window f)" "backlog f' \<le> sp_capacity (jf_window f)" "\<nexists>j. lost f j"
  shows "\<nexists>j. lost f' j"
  using assms
proof (induction rule: flow_step.induct)
  case (queue k f)
  then have "k = 0 \<or> k = 1" by auto
  with queue(6) show ?case using less_next [OF queue(3)]
    by (auto simp: lost_def open_job_def next_job_def pending_jobs_def order.order_iff_strict)
next
  case (fail f ok s)
  note c = spec_submit_cases [OF fail(1)]
  note n = next_le_sequence [OF fail(2)] and w = fresh_sequence(2) [OF fail(2)]
  from unat_next [OF fail(3)] fail(5) c(1) n have "unat (jf_sequence f - next_job f) < sp_capacity (jf_window f)"
    by (simp add: backlog_def next_job_def unat_sub_if_size word_le_nat_alt)
  with c(5) n w have "ok" by (simp add: completion_arguments_ok_def next_job_def)
  with fail(6) c(1,4) show ?case using less_next [OF fail(3)]
    by (auto simp: lost_def open_job_def next_job_def pending_jobs_def order.order_iff_strict)
next
  case (decide k f j js r ok s)
  then have k: "k = 0 \<or> k = 1" by auto
  note c = spec_submit_cases [OF decide(4)]
  from k decide(2,5) have j: "open_job f j" "sp_waiting (jf_window f) j = None"
    by (auto simp: flow_ok_def pending_jobs_def)
  then have "unat (j - next_job f) < backlog f"
    by (simp add: open_job_def backlog_def unat_sub_if_size word_le_nat_alt word_less_nat_alt diff_less_mono)
  with decide(3,7) c(5) j have "ok" by (simp add: open_job_def next_job_def)
  with k decide(2,9) c(1,4) show ?case
    by (auto simp: lost_def open_job_def next_job_def pending_jobs_def split: if_splits)
next
  case (deliver f x s)
  note c = spec_pop_cases [OF deliver(1)]
  from deliver(2) c(4) have n: "next_job f < jf_sequence f"
    unfolding flow_ok_def open_job_def next_job_def by auto
  show ?case
  proof
    assume "\<exists>j. lost (f \<lparr> jf_window := s \<rparr>) j"
    then obtain j where j: "lost (f \<lparr> jf_window := s \<rparr>) j" ..
    with c(1) have "next_job f + 1 \<le> j" by (simp add: lost_def open_job_def next_job_def)
    then have "next_job f < j" using le_next [OF n] by simp
    then have "lost f j" using j c(5) by (auto simp: lost_def open_job_def next_job_def pending_jobs_def split: if_splits)
    with deliver(6) show False by blast
  qed
qed

lemma all_delivered:
  assumes "flow_ok f" "\<nexists>j. lost f j" "pending_jobs f = []" "sp_waiting (jf_window f) (next_job f) = None"
  shows "next_job f = jf_sequence f"
proof (rule ccontr)
  assume "next_job f \<noteq> jf_sequence f"
  with next_le_sequence [OF assms(1)] have "open_job f (next_job f)" by (simp add: open_job_def)
  with assms(2-4) show False by (auto simp: lost_def)
qed

end
