(* ===== verification/Daemon.thy ===== *)
theory Daemon
  imports Decoder Acquisition BurstDetector Config Runtime Wav AudioRing
begin

text \<open>
  The receive daemon \<^verbatim>\<open>tools/alsa_rx.c\<close>, from its start to the main loop: the command line, the list
  of profiles, and the chain of initialisations, each of which can fail.  The decoder threads are in
  \<open>Decoder\<close>, the main loop, the transmit thread and shutdown in \<open>DaemonLoop\<close>.  Messages to the terminal
  and the log are left out.
\<close>

section \<open>Options\<close>

record daemon_options =
  do_profile :: string
  do_packet_mode :: bool
  do_service_mode :: bool
  do_run_seconds :: fp
  do_target_frames :: u32
  do_capture_prefix :: "string option"

datatype startup = Usage_error | List_profiles string | Run_daemon string daemon_options

definition run_seconds_of :: "(string \<Rightarrow> fp \<times> string) \<Rightarrow> string list \<Rightarrow> fp option" where
  \<comment> \<open>\<^verbatim>\<open>strtod\<close> returns the number and what follows it\<close>
  "run_seconds_of strtod argv =
    (if length argv < 5 then Some (Fin 30)
     else let (seconds, rest) = strtod (argv ! 4)
          in if rest = argv ! 4 \<or> rest \<noteq> [] \<or> seconds < Fin 0 \<or> seconds > Fin 86400 then None else Some seconds)"

definition target_frames_of :: "(string \<Rightarrow> nat \<times> string) \<Rightarrow> string list \<Rightarrow> u32 option" where
  "target_frames_of strtoul argv =
    (if length argv < 6 then Some 1
     else let (parsed, rest) = strtoul (argv ! 5)
          in if rest = argv ! 5 \<or> rest \<noteq> [] \<or> parsed > 1000 then None else Some (of_nat parsed))"

definition parse_arguments ::
    "(string \<Rightarrow> fp \<times> string) \<Rightarrow> (string \<Rightarrow> nat \<times> string) \<Rightarrow> string list \<Rightarrow> startup" where
  \<comment> \<open>the argument vector with the name of the program\<close>
  "parse_arguments strtod strtoul argv =
    (if length argv < 2 \<or> length argv > 7 then Usage_error
     else if length argv = 2 then List_profiles (argv ! 1)
     else if argv ! 2 = [] then Usage_error
     else if length argv \<ge> 4 \<and> argv ! 3 \<noteq> ''packet'' \<and> argv ! 3 \<noteq> ''kiss'' then Usage_error
     else case run_seconds_of strtod argv of None \<Rightarrow> Usage_error | Some seconds \<Rightarrow>
     case target_frames_of strtoul argv of None \<Rightarrow> Usage_error | Some target \<Rightarrow>
     if length argv = 7 \<and> argv ! 6 = [] then Usage_error
     else Run_daemon (argv ! 1)
       \<lparr> do_profile = argv ! 2, do_packet_mode = (length argv \<ge> 4),
         do_service_mode = (length argv \<ge> 4 \<and> argv ! 3 = ''kiss''), do_run_seconds = seconds,
         do_target_frames = target, do_capture_prefix = (if length argv = 7 then Some (argv ! 6) else None) \<rparr>)"

fun profile_lines ::
    "rtnc_platform_config \<Rightarrow> rtnc_phy_profile_config list \<Rightarrow> (string \<times> u32) list \<Rightarrow> int \<times> (string \<times> u32) list" where
  \<comment> \<open>the loop of \<open>print_profile_list\<close>; the exit code and the lines\<close>
  "profile_lines config [] printed = (0, printed)"
| "profile_lines config (entry # entries) printed =
    (case rtnc_platform_phy_profile_named config (pf_name entry) of
       None \<Rightarrow> (1, printed)
     | Some profile \<Rightarrow>
         (case rtnc_modem_profile_rate profile (fec_mode_of (pf_fec_mode entry)) (pf_payload_class_bytes entry) of
            None \<Rightarrow> (1, printed)
          | Some rate \<Rightarrow> profile_lines config entries (printed @ [(pf_name entry, mr_interface_bitrate_bps rate)])))"

definition print_profile_list :: "rtnc_platform_config option \<Rightarrow> int \<times> (string \<times> u32) list" where
  \<comment> \<open>the argument is what \<^verbatim>\<open>cyaml_load_file\<close> made of the file\<close>
  "print_profile_list loaded =
    (case rtnc_platform_config_load loaded of
       None \<Rightarrow> (1, [])
     | Some config \<Rightarrow> profile_lines config (pc_profiles config) [])"

section \<open>State\<close>

record ('d, 'w) daemon =
  dm_audio_ring :: rtnc_audio_ring
  dm_detector :: rtnc_burst_detector
  dm_detector_config :: rtnc_burst_detector_config
  dm_acquisition_detector :: "'d rtnc_acquisition_detector"
  dm_power_carrier :: "'d rtnc_carrier"
  dm_power_filter :: "'d option"
  dm_decoder :: "'d decoder_context"
  dm_equalizer_decoder :: "'d decoder_context"
  dm_shared :: decoder_shared \<comment> \<open>with \<^verbatim>\<open>decoded_frames\<close> and \<^verbatim>\<open>completion_coordinator\<close>\<close>
  dm_completed_packets :: u32
  dm_runtime :: "('d, 'w alsa_context) rtnc_runtime option" \<comment> \<open>\<^verbatim>\<open>packet_runtime\<close>, in packet mode\<close>
  dm_context :: "'w alsa_context" \<comment> \<open>audio, PTT, \<^verbatim>\<open>channel_busy\<close> and the outside world\<close>
  dm_tx_running :: bool
  dm_kiss_parser :: rtnc_kiss_parser
  dm_listen_socket :: int
  dm_packet_client :: int
  dm_sequence :: u64
  dm_maximum_power_ratio :: fp
  dm_modem_initialized :: bool
  dm_equalizer_modem_initialized :: bool
  dm_runtime_initialized :: bool
  dm_tx_thread_started :: bool
  dm_thread_started :: bool
  dm_equalizer_thread_started :: bool
  dm_capture_started :: bool

abbreviation dm_world :: "('d, 'w) daemon \<Rightarrow> 'w" where
  "dm_world daemon \<equiv> ax_world (dm_context daemon)"

definition set_world :: "'w \<Rightarrow> ('d, 'w) daemon \<Rightarrow> ('d, 'w) daemon" where
  "set_world w daemon = daemon \<lparr> dm_context := (dm_context daemon) \<lparr> ax_world := w \<rparr> \<rparr>"

text \<open>The static memory of the program: zeros.\<close>

definition zero_modem :: "'d rtnc_modem" where
  "zero_modem = blank_modem
     \<lparr> pp_sample_rate_hz = 0, pp_modulation = RTNC_MODULATION_BPSK, pp_bits_per_symbol = 0, pp_symbol_rate_baud = 0,
       pp_carrier_hz = 0, pp_rrc_rolloff = 0, pp_acquisition_threshold = 0, pp_training_threshold = 0,
       pp_samples_per_symbol = 0 \<rparr> FEC_NONE 0 RTNC_PREAMBLE_DATA"

definition zero_decode_slots :: "rtnc_decode_slot list" where
  "zero_decode_slots = replicate RTNC_DECODE_QUEUE_SLOTS
     \<lparr> ds_samples = replicate RTNC_MODEM_MAX_AUDIO_SAMPLES 0, ds_count = 0, ds_sequence = 0,
       ds_enqueued_monotonic_ns = 0 \<rparr>"

definition zero_workspace :: rtnc_modem_workspace where
  "zero_workspace =
    \<lparr> wk_filtered = replicate RTNC_MODEM_MAX_AUDIO_SAMPLES 0,
      wk_recovered = replicate RTNC_MODEM_MAX_RECOVERED_SYMBOLS 0, wk_llr = replicate RTNC_MODEM_MAX_LLR 0,
      wk_llr_count = 0, wk_fec_stats = no_stats \<rparr>"

definition zero_completions :: "rtnc_completion list" where
  "zero_completions = replicate RTNC_COMPLETION_MAX_CAPACITY
     \<lparr> co_job_id = 0, co_generation = 0, co_success = False, co_payload = replicate RTNC_FRAME_MAX_PAYLOAD 0,
       co_payload_length = 0 \<rparr>"

definition zero_decoder :: "'d decoder_context" where
  "zero_decoder =
    \<lparr> de_queue = \<lparr> dq_slots = zero_decode_slots, dq_capacity = 0, dq_slot_count = 0, dq_producer = 0,
        dq_consumer = 0, dq_maximum_depth = 0, dq_dropped_jobs = 0 \<rparr>,
      de_modem = zero_modem, de_workspace = zero_workspace,
      de_job = \<lparr> dj_samples = [], dj_sequence = 0, dj_enqueued_monotonic_ns = 0 \<rparr>, de_in_hand = None,
      de_running = False, de_fast_only = False, de_nice_increment = 0, de_actual_nice = 0, de_target_frames = 0,
      de_attempts = 0, de_best_acquisition = 0, de_best_training = 0, de_best_status = RTNC_MODEM_OK,
      de_decode_wall_seconds = 0, de_decode_cpu_seconds = 0, de_maximum_decode_seconds = 0,
      de_maximum_queue_seconds = 0, de_equalizer_successes = 0, de_snr_sum_db = 0, de_minimum_snr_db = 0,
      de_snr_count = 0, de_generation = 0, de_packet_mode = False, de_worker_id = 0 \<rparr>"

definition zero_detector :: rtnc_burst_detector where
  "zero_detector =
    \<lparr> bd_config = \<lparr> bc_warmup_samples = 0, bc_pretrigger_samples = 0, bc_release_samples = 0, bc_cooldown_samples = 0,
        bc_noise_attack_alpha = 0, bc_noise_release_alpha = 0, bc_signal_alpha = 0, bc_trigger_ratio = 0,
        bc_release_ratio = 0, bc_impulse_limit_ratio = 0, bc_maximum_active_samples = 0, bc_capture_samples = 0,
        bc_energy_trigger_enabled = False, bc_external_trigger_requires_energy = False \<rparr>,
      bd_pretrigger = replicate RTNC_BURST_MAX_PRETRIGGER_SAMPLES 0,
      bd_candidate = replicate RTNC_MODEM_MAX_AUDIO_SAMPLES 0, bd_pretrigger_count = 0, bd_pretrigger_write = 0,
      bd_candidate_count = 0, bd_quiet_samples = 0, bd_cooldown_samples = 0, bd_samples_seen = 0,
      bd_detected_bursts = 0, bd_noise_power = 0, bd_signal_power = 0, bd_active = False \<rparr>"

text \<open>\<^verbatim>\<open>detector_config\<close> is not initialised; its only field that \<^verbatim>\<open>rtnc_platform_burst_config\<close> leaves is set before it is used.\<close>

definition cold_daemon :: "'w \<Rightarrow> ('d, 'w) daemon" where
  "cold_daemon w =
    \<lparr> dm_audio_ring = \<lparr> ar_blocks = replicate RTNC_AUDIO_RING_SLOTS \<lparr> ab_samples = replicate RTNC_AUDIO_BLOCK_SAMPLES 0, ab_count = 0 \<rparr>,
        ar_capacity = 0, ar_slot_count = 0, ar_producer = 0, ar_consumer = 0, ar_maximum_depth = 0, ar_dropped_blocks = 0 \<rparr>,
      dm_detector = zero_detector, dm_detector_config = bd_config zero_detector,
      dm_acquisition_detector = fresh_detector (replicate RTNC_MODEM_ACQUISITION_SYMBOLS 0) 0 0 0,
      dm_power_carrier = mo_carrier zero_modem, dm_power_filter = None, dm_decoder = zero_decoder,
      dm_equalizer_decoder = zero_decoder,
      dm_shared = \<lparr> sh_fallback_queue = None, sh_completion = None, sh_decoded_frames = 0, sh_output = [] \<rparr>,
      dm_completed_packets = 0, dm_runtime = None,
      dm_context = \<lparr> ax_audio = None,
        ax_ptt = \<lparr> pt_chip = None, pt_line = None, pt_active_high = False, pt_state = False \<rparr>,
        ax_channel_busy = Some False, ax_world = w \<rparr>,
      dm_tx_running = False, dm_kiss_parser = rtnc_kiss_parser_init, dm_listen_socket = - 1, dm_packet_client = - 1,
      dm_sequence = 0, dm_maximum_power_ratio = 0, dm_modem_initialized = False,
      dm_equalizer_modem_initialized = False, dm_runtime_initialized = False, dm_tx_thread_started = False,
      dm_thread_started = False, dm_equalizer_thread_started = False, dm_capture_started = False \<rparr>"

section \<open>Start-up\<close>

definition proceed :: "bool \<times> 's \<Rightarrow> ('s \<Rightarrow> bool \<times> 's) \<Rightarrow> bool \<times> 's" where
  \<comment> \<open>a failure is \<^verbatim>\<open>goto done\<close>\<close>
  "proceed result rest = (if fst result then rest (snd result) else result)"

definition prepare_decoders :: "daemon_options \<Rightarrow> ('d, 'w) daemon \<Rightarrow> ('d, 'w) daemon" where
  \<comment> \<open>\<^verbatim>\<open>main\<close> up to the loading of the configuration\<close>
  "prepare_decoders options daemon = daemon
     \<lparr> dm_decoder := (dm_decoder daemon)
         \<lparr> de_target_frames := do_target_frames options, de_running := True, de_worker_id := 0,
           de_packet_mode := do_packet_mode options, de_best_status := RTNC_MODEM_NO_FRAME \<rparr>,
       dm_equalizer_decoder := (dm_equalizer_decoder daemon)
         \<lparr> de_running := True, de_worker_id := 1, de_fast_only := False,
           de_target_frames := do_target_frames options, de_packet_mode := do_packet_mode options \<rparr> \<rparr>"

definition start_detector :: "rtnc_platform_config \<Rightarrow> ('d, 'w) daemon \<Rightarrow> bool \<times> ('d, 'w) daemon" where
  "start_detector config daemon =
    (case rtnc_platform_burst_config config (dm_detector_config daemon) of
       None \<Rightarrow> (False, daemon)
     | Some detector_config \<Rightarrow>
         let daemon = daemon \<lparr> dm_detector_config := detector_config \<rparr>
         in case rtnc_burst_detector_init detector_config of
              None \<Rightarrow> (False, daemon)
            | Some detector \<Rightarrow> (True, daemon \<lparr> dm_detector := detector \<rparr>))"

definition start_queues :: "rtnc_worker_config \<Rightarrow> ('d, 'w) daemon \<Rightarrow> bool \<times> ('d, 'w) daemon" where
  "start_queues workers daemon =
    (case rtnc_audio_ring_init (unat (wc_dsp_queue_blocks workers)) of
       None \<Rightarrow> (False, daemon)
     | Some ring \<Rightarrow>
         let daemon = daemon \<lparr> dm_audio_ring := ring, dm_decoder := (dm_decoder daemon) \<lparr> de_fast_only := False \<rparr>,
               dm_shared := (dm_shared daemon) \<lparr> sh_fallback_queue := None \<rparr>,
               dm_equalizer_decoder := (dm_equalizer_decoder daemon)
                 \<lparr> de_nice_increment := ucast (wc_equalizer_nice workers) \<rparr> \<rparr>
         in case rtnc_decode_queue_init (dq_slots (de_queue (dm_decoder daemon))) (unat (wc_decode_queue_frames workers)) of
              None \<Rightarrow> (False, daemon)
            | Some queue \<Rightarrow>
                let daemon = daemon \<lparr> dm_decoder := (dm_decoder daemon) \<lparr> de_queue := queue \<rparr> \<rparr>
                in if \<not> wc_parallel_equalizer workers then (True, daemon)
                   else case rtnc_decode_queue_init (dq_slots (de_queue (dm_equalizer_decoder daemon)))
                               (unat (wc_equalizer_queue_frames workers)) of
                          None \<Rightarrow> (False, daemon)
                        | Some queue \<Rightarrow> (True, daemon \<lparr> dm_equalizer_decoder := (dm_equalizer_decoder daemon)
                            \<lparr> de_queue := queue \<rparr> \<rparr>))"

definition start_modems ::
    "'d liquid \<Rightarrow> rtnc_platform_config \<Rightarrow> rtnc_phy_profile_config \<Rightarrow> rtnc_phy_profile \<Rightarrow> ('d, 'w) daemon \<Rightarrow>
     bool \<times> ('d, 'w) daemon" where
  "start_modems L config entry profile daemon =
    (let fec_mode = fec_mode_of (pf_fec_mode entry); payload_class = pf_payload_class_bytes entry
     in if rtnc_modem_profile_rate profile fec_mode payload_class = None then (False, daemon)
        else let (ok, modem) = rtnc_modem_init_profile L (de_modem (dm_decoder daemon)) fec_mode payload_class profile;
                 daemon = daemon \<lparr> dm_decoder := (dm_decoder daemon) \<lparr> de_modem := modem \<rparr> \<rparr>
        in if \<not> ok then (False, daemon)
        else let daemon = daemon \<lparr> dm_modem_initialized := True \<rparr>
        in if \<not> wc_parallel_equalizer (pc_workers config)
           then (True, daemon \<lparr> dm_equalizer_modem_initialized := False \<rparr>)
        else let (ok, modem) = rtnc_modem_init_profile L (de_modem (dm_equalizer_decoder daemon)) fec_mode payload_class profile;
                 daemon = daemon \<lparr> dm_equalizer_decoder := (dm_equalizer_decoder daemon) \<lparr> de_modem := modem \<rparr> \<rparr>
        in (ok, if ok then daemon \<lparr> dm_equalizer_modem_initialized := True \<rparr> else daemon))"

definition start_completion ::
    "daemon_options \<Rightarrow> rtnc_worker_config \<Rightarrow> rtnc_phy_profile \<Rightarrow> ('d, 'w) daemon \<Rightarrow> bool \<times> ('d, 'w) daemon" where
  "start_completion options workers profile daemon =
    (let threshold = (\<lambda>daemon. if dm_equalizer_modem_initialized daemon
           then daemon \<lparr> dm_equalizer_decoder := (dm_equalizer_decoder daemon)
             \<lparr> de_modem := (de_modem (dm_equalizer_decoder daemon))
                 \<lparr> mo_profile := (mo_profile (de_modem (dm_equalizer_decoder daemon)))
                     \<lparr> pp_acquisition_threshold := pp_acquisition_threshold profile \<rparr> \<rparr> \<rparr> \<rparr>
           else daemon)
     in if \<not> do_packet_mode options then (True, threshold daemon)
        else case rtnc_completion_init zero_completions
               (unat (wc_decode_queue_frames workers) + unat (wc_equalizer_queue_frames workers)) 0 1 of
               None \<Rightarrow> (False, daemon)
             | Some coordinator \<Rightarrow> (True, threshold (daemon
                 \<lparr> dm_shared := (dm_shared daemon) \<lparr> sh_completion := Some coordinator \<rparr>,
                   dm_decoder := (dm_decoder daemon) \<lparr> de_generation := 1 \<rparr>,
                   dm_equalizer_decoder := (dm_equalizer_decoder daemon) \<lparr> de_generation := 1 \<rparr> \<rparr>)))"

definition capture_window :: "'d rtnc_modem \<Rightarrow> rtnc_burst_detector_config \<Rightarrow> nat" where
  \<comment> \<open>how many samples a candidate has: pretrigger, frame and guard, less what the trigger comes too late\<close>
  "capture_window modem detector_config =
    (let samples_per_symbol = unat (pp_samples_per_symbol (mo_profile modem));
         trigger_latency = (2 * RTNC_MODEM_RRC_DELAY_SYMBOLS + RTNC_MODEM_ACQUISITION_SYMBOLS - 1) * samples_per_symbol;
         guard_samples = 4 * samples_per_symbol;
         window = bc_pretrigger_samples detector_config + rtnc_modem_frame_samples modem + guard_samples
     in if window > trigger_latency then window - trigger_latency else 0)"

definition start_window :: "('d, 'w) daemon \<Rightarrow> bool \<times> ('d, 'w) daemon" where
  "start_window daemon =
    (let detector_config = (dm_detector_config daemon)
           \<lparr> bc_capture_samples := capture_window (de_modem (dm_decoder daemon)) (dm_detector_config daemon),
             bc_energy_trigger_enabled := False, bc_external_trigger_requires_energy := True,
             bc_cooldown_samples := 0 \<rparr>;
         daemon = daemon \<lparr> dm_detector_config := detector_config \<rparr>
     in if bc_capture_samples detector_config > bc_maximum_active_samples detector_config then (False, daemon)
        else case rtnc_burst_detector_init detector_config of
               None \<Rightarrow> (False, daemon)
             | Some detector \<Rightarrow> (True, daemon \<lparr> dm_detector := detector \<rparr>))"

record 'd power_filter =
  \<comment> \<open>the filter of the channel power, of the DSP library\<close>
  firfilt_crcf_create_kaiser :: "nat \<Rightarrow> fp \<Rightarrow> fp \<Rightarrow> fp \<Rightarrow> 'd option"
  firfilt_crcf_push :: "'d \<Rightarrow> complex \<Rightarrow> 'd"
  firfilt_crcf_execute :: "'d \<Rightarrow> 'd \<times> complex"

definition start_frontend ::
    "'d liquid \<Rightarrow> 'd power_filter \<Rightarrow> rtnc_platform_config \<Rightarrow> rtnc_phy_profile_config \<Rightarrow> rtnc_phy_profile \<Rightarrow>
     ('d, 'w) daemon \<Rightarrow> bool \<times> ('d, 'w) daemon" where
  "start_frontend L F config entry profile daemon =
    (let modem = de_modem (dm_decoder daemon);
         (ok, acquisition) = rtnc_acquisition_detector_init L (dm_acquisition_detector daemon) (mo_profile modem)
           (mo_training modem) 4 (pp_acquisition_threshold profile);
         daemon = daemon \<lparr> dm_acquisition_detector := acquisition \<rparr>
     in if \<not> ok then (False, daemon)
        else let (ok, carrier) = rtnc_carrier_init L (dm_power_carrier daemon) (ac_sample_rate_hz (pc_audio config))
                   (pp_carrier_hz (mo_profile modem));
                 daemon = daemon \<lparr> dm_power_carrier := carrier \<rparr>
        in if \<not> ok then (False, daemon)
        else let fir = firfilt_crcf_create_kaiser F 129
                   (Fin (1 / 2) * Fin (real (unat (pp_symbol_rate_baud (mo_profile modem)))) *
                    (Fin 1 + pp_rrc_rolloff (mo_profile modem)) * pf_detector_bandwidth_margin entry /
                    Fin (real (unat (pp_sample_rate_hz (mo_profile modem))))) (Fin 60) (Fin 0)
        in (fir \<noteq> None, daemon \<lparr> dm_power_filter := fir \<rparr>))"

definition start_packet_runtime ::
    "'d liquid \<Rightarrow> 'w alsa \<Rightarrow> 'w gpiod \<Rightarrow> 'w posix \<Rightarrow> rtnc_platform_config \<Rightarrow> rtnc_phy_profile_config \<Rightarrow> rtnc_phy_profile \<Rightarrow>
     rtnc_reassembly \<Rightarrow> ('d, 'w) daemon \<Rightarrow> bool \<times> ('d, 'w) daemon" where
  \<comment> \<open>\<open>reassembly\<close> is the memory of the runtime's reassembly\<close>
  "start_packet_runtime L A G P config entry profile reassembly daemon =
    (let (ok, ptt, w) = rtnc_ptt_init G (pc_ptt config) (dm_world daemon);
         daemon = set_world w (daemon \<lparr> dm_context := (dm_context daemon) \<lparr> ax_ptt := ptt \<rparr> \<rparr>)
     in if \<not> ok then (False, daemon)
        else case rtnc_runtime_init L zero_modem reassembly profile (fec_mode_of (pf_fec_mode entry))
               (pf_payload_class_bytes entry) (lk_mtu (pc_link config)) (lk_reassembly_timeout_ms (pc_link config))
               (unat (rc_tx_queue_packets (pc_runtime config))) (unat (rc_rx_queue_packets (pc_runtime config)))
               (rc_channel_busy_timeout_ms (pc_runtime config)) (rc_rx_guard_ms (pc_runtime config))
               (tx_config_of (pc_tx config)) (rtnc_alsa_runtime_backend A G P) of
               None \<Rightarrow> (False, daemon)
             | Some runtime \<Rightarrow> (True, daemon \<lparr> dm_runtime := Some runtime \<rparr>))"

definition start_audio ::
    "'d liquid \<Rightarrow> 'w alsa \<Rightarrow> 'w gpiod \<Rightarrow> 'w posix \<Rightarrow> daemon_options \<Rightarrow> rtnc_platform_config \<Rightarrow> rtnc_phy_profile_config \<Rightarrow>
     rtnc_phy_profile \<Rightarrow> rtnc_reassembly \<Rightarrow> ('d, 'w) daemon \<Rightarrow> bool \<times> ('d, 'w) daemon" where
  "start_audio L A G P options config entry profile reassembly daemon =
    (let (ok, audio, w) = rtnc_audio_init A (ax_audio (dm_context daemon)) (pc_audio config) (dm_world daemon);
         daemon = set_world w (daemon \<lparr> dm_context := (dm_context daemon) \<lparr> ax_audio := audio \<rparr> \<rparr>);
         result = (if ok \<and> do_packet_mode options
                   then start_packet_runtime L A G P config entry profile reassembly daemon else (ok, daemon))
     in proceed result (\<lambda>daemon. (True, daemon \<lparr> dm_runtime_initialized := do_packet_mode options \<rparr>)))"

definition open_kiss_socket :: "'w host \<Rightarrow> u16 \<Rightarrow> 'w \<Rightarrow> int \<times> 'w" where
  "open_kiss_socket H port w =
    (let (descriptor, w) = host_socket H w
     in if descriptor < 0 then (- 1, w)
        else let (bound, w) = host_bind H descriptor port (host_setsockopt H descriptor w);
                 (listening, w) = (if bound \<noteq> 0 then (bound, w) else host_listen H descriptor w)
             in if listening \<noteq> 0 then (- 1, host_close H descriptor w) else (descriptor, w))"

definition start_service :: "'w host \<Rightarrow> daemon_options \<Rightarrow> u16 \<Rightarrow> ('d, 'w) daemon \<Rightarrow> bool \<times> ('d, 'w) daemon" where
  "start_service H options port daemon =
    (if \<not> do_service_mode options then (True, daemon)
     else let (socket, w) = open_kiss_socket H port (dm_world daemon);
              daemon = set_world w (daemon \<lparr> dm_listen_socket := socket, dm_kiss_parser := rtnc_kiss_parser_init,
                dm_tx_running := True \<rparr>)
          in if socket < 0 then (False, daemon)
             else let (result, w) = host_pthread_create H (dm_world daemon); daemon = set_world w daemon
                  in if result \<noteq> 0 then (False, daemon) else (True, daemon \<lparr> dm_tx_thread_started := True \<rparr>))"

definition start_threads :: "'w alsa \<Rightarrow> 'w host \<Rightarrow> bool \<Rightarrow> ('d, 'w) daemon \<Rightarrow> bool \<times> ('d, 'w) daemon" where
  "start_threads A H two_workers daemon =
    (let (result, w) = (if two_workers then host_pthread_create H (dm_world daemon) else (0, dm_world daemon));
         daemon = set_world w daemon
     in if result \<noteq> 0 then (False, daemon)
        else let daemon = daemon \<lparr> dm_equalizer_thread_started := two_workers \<rparr>;
                 (result, w) = host_pthread_create H (dm_world daemon); daemon = set_world w daemon
        in if result \<noteq> 0 then (False, daemon)
        else let daemon = daemon \<lparr> dm_thread_started := True \<rparr>;
                 (ok, audio, w) = rtnc_audio_start_capture A (ax_audio (dm_context daemon)) (dm_world daemon);
                 daemon = set_world w (daemon \<lparr> dm_context := (dm_context daemon) \<lparr> ax_audio := audio \<rparr> \<rparr>)
        in (ok, if ok then daemon \<lparr> dm_capture_started := True \<rparr> else daemon))"

definition start_daemon ::
    "'d liquid \<Rightarrow> 'd power_filter \<Rightarrow> 'w alsa \<Rightarrow> 'w gpiod \<Rightarrow> 'w posix \<Rightarrow> 'w host \<Rightarrow> rtnc_reassembly \<Rightarrow>
     rtnc_platform_config option \<Rightarrow> daemon_options \<Rightarrow> 'w \<Rightarrow> bool \<times> ('d, 'w) daemon" where
  "start_daemon L F A G P H reassembly loaded options w =
    (let daemon = prepare_decoders options (cold_daemon w)
     in case rtnc_platform_config_load loaded of
          None \<Rightarrow> (False, daemon)
        | Some config \<Rightarrow>
            proceed (start_detector config daemon) (\<lambda>daemon.
            proceed (start_queues (pc_workers config) daemon) (\<lambda>daemon.
            case rtnc_platform_profile_config_named config (do_profile options) of
              None \<Rightarrow> (False, daemon)
            | Some entry \<Rightarrow>
                (case rtnc_platform_phy_profile_named config (pf_name entry) of
                   None \<Rightarrow> (False, daemon)
                 | Some profile \<Rightarrow>
                     proceed (start_modems L config entry profile daemon) (\<lambda>daemon.
                     proceed (start_completion options (pc_workers config) profile daemon) (\<lambda>daemon.
                     proceed (start_window daemon) (\<lambda>daemon.
                     proceed (start_frontend L F config entry profile daemon) (\<lambda>daemon.
                     proceed (start_audio L A G P options config entry profile reassembly daemon) (\<lambda>daemon.
                     proceed (start_service H options (rc_kiss_tcp_port (pc_runtime config)) daemon) (\<lambda>daemon.
                     start_threads A H (wc_parallel_equalizer (pc_workers config)) daemon))))))))))"

end
