(* ===== verification/DaemonLoop.thy ===== *)
theory DaemonLoop
  imports Daemon
begin

text \<open>
  The receive daemon at work, \<^verbatim>\<open>tools/alsa_rx.c\<close>: one pass of the main loop reads KISS input, takes a
  block of captured audio, looks for frame candidates in it sample by sample, and delivers what the
  decoders completed; the transmit thread sends queued packets; shutdown releases everything.  \<open>None\<close>
  stands for the use of a value that was never written.  At the end the program's threads are put side by
  side: \<open>daemon_event\<close> lists what they do between two accesses to what they share.
\<close>

section \<open>KISS input\<close>

definition kiss_frame_received ::
    "rtnc_kiss_frame \<Rightarrow> ('d, 's) rtnc_runtime \<Rightarrow> ('d, 's) rtnc_runtime" where
  "kiss_frame_received frame runtime =
    (if kf_port frame = 0 \<and> kf_command frame = RTNC_KISS_DATA_COMMAND \<and> length (kf_data frame) > 0
     then snd (rtnc_runtime_submit_packet runtime (kf_data frame))
     else if kf_port frame = 0 \<and> length (kf_data frame) = 1
     then snd (rtnc_runtime_set_kiss_parameter runtime (kf_command frame) (kf_data frame ! 0))
     else runtime)"

fun kiss_input ::
    "bytes \<Rightarrow> rtnc_kiss_parser \<Rightarrow> ('d, 's) rtnc_runtime \<Rightarrow> rtnc_kiss_parser \<times> ('d, 's) rtnc_runtime" where
  \<comment> \<open>the loop over the bytes received\<close>
  "kiss_input [] parser runtime = (parser, runtime)"
| "kiss_input (byte # bytes) parser runtime =
    (case rtnc_kiss_parser_push_frame parser byte of
       (None, parser) \<Rightarrow> kiss_input bytes parser runtime
     | (Some frame, parser) \<Rightarrow> kiss_input bytes parser (kiss_frame_received frame runtime))"

definition accept_client :: "'w host \<Rightarrow> ('d, 'w) daemon \<Rightarrow> ('d, 'w) daemon" where
  "accept_client H daemon =
    (if dm_packet_client daemon < 0
     then let (client, w) = host_accept H (dm_listen_socket daemon) (dm_world daemon);
              daemon = set_world w (daemon \<lparr> dm_packet_client := client \<rparr>)
          in if client \<ge> 0 then daemon \<lparr> dm_kiss_parser := rtnc_kiss_parser_init \<rparr> else daemon
     else daemon)"

definition close_client :: "'w host \<Rightarrow> ('d, 'w) daemon \<Rightarrow> ('d, 'w) daemon" where
  "close_client H daemon = set_world (host_close H (dm_packet_client daemon) (dm_world daemon))
     (daemon \<lparr> dm_packet_client := - 1 \<rparr>)"

definition serve_client :: "'w host \<Rightarrow> ('d, 'w) daemon \<Rightarrow> ('d, 'w) daemon" where
  \<comment> \<open>the service part of a pass\<close>
  "serve_client H daemon =
    (let daemon = accept_client H daemon
     in if dm_packet_client daemon < 0 then daemon
        else let (received, w) = host_recv H (dm_packet_client daemon) 4096 (dm_world daemon);
                 daemon = set_world w daemon
        in case (received, dm_runtime daemon) of
             (Some [], _) \<Rightarrow> close_client H daemon
           | (Some bytes, Some runtime) \<Rightarrow>
               (let (parser, runtime) = kiss_input bytes (dm_kiss_parser daemon) runtime
                in daemon \<lparr> dm_kiss_parser := parser, dm_runtime := Some runtime \<rparr>)
           | _ \<Rightarrow> daemon)"

section \<open>Candidates\<close>

fun decimal :: "nat \<Rightarrow> string" where
  "decimal n = (if n < 10 then [char_of (48 + n)] else decimal (n div 10) @ [char_of (48 + n mod 10)])"

definition candidate_path :: "string \<Rightarrow> u64 \<Rightarrow> string" where
  \<comment> \<open>the format \<^verbatim>\<open>%s_%03llu.wav\<close>\<close>
  "candidate_path name_prefix sequence =
    (let digits = decimal (unat sequence)
     in name_prefix @ ''_'' @ replicate (3 - length digits) (CHR ''0'') @ digits @ ''.wav'')"

definition candidate_pcm :: "real \<Rightarrow> s16" where
  "candidate_pcm sample =
    (let scaled = sample * 32768 in word_of_int (round_half_even (max (- 32768) (min 32767 scaled))))"

definition save_candidate_wav :: "'w host \<Rightarrow> string \<Rightarrow> u64 \<Rightarrow> real list \<Rightarrow> 'w \<Rightarrow> 'w" where
  "save_candidate_wav H name_prefix sequence samples w =
    (if length samples > RTNC_MODEM_MAX_AUDIO_SAMPLES \<or> length (candidate_path name_prefix sequence) \<ge> 512 then w
     else let (stream, w) = host_fopen H (candidate_path name_prefix sequence) w
          in case stream of
               None \<Rightarrow> w
             | Some stream \<Rightarrow>
                 snd (host_fclose H (snd (rtnc_wav_write_mono_s16 stream 48000 (map candidate_pcm samples))) w))"

definition set_completion :: "rtnc_completion_coordinator option \<Rightarrow> ('d, 'w) daemon \<Rightarrow> ('d, 'w) daemon" where
  "set_completion coordinator daemon =
    daemon \<lparr> dm_shared := (dm_shared daemon) \<lparr> sh_completion := coordinator \<rparr> \<rparr>"

definition receive_enabled :: "daemon_options \<Rightarrow> ('d, 'w) daemon \<Rightarrow> bool" where
  "receive_enabled options daemon \<longleftrightarrow> \<not> do_service_mode options \<or>
     (case dm_runtime daemon of None \<Rightarrow> False | Some runtime \<Rightarrow> rt_state runtime = RTNC_RUNTIME_RX_IDLE)"

definition for_second_worker :: "bool \<Rightarrow> u64 \<Rightarrow> bool" where
  "for_second_worker two_workers sequence \<longleftrightarrow> two_workers \<and> sequence AND 1 \<noteq> 0"

definition push_candidate ::
    "'w host \<Rightarrow> bool \<Rightarrow> real list \<Rightarrow> ('d, 'w) daemon \<Rightarrow> bool \<times> ('d, 'w) daemon" where
  "push_candidate H two_workers candidate daemon =
    (let (time, w) = enqueue_time H (dm_world daemon);
         daemon = set_world w daemon
     in if for_second_worker two_workers (dm_sequence daemon)
        then let (ok, queue) = rtnc_decode_queue_push time (de_queue (dm_equalizer_decoder daemon)) candidate
                   (dm_sequence daemon)
             in (ok, daemon \<lparr> dm_equalizer_decoder := (dm_equalizer_decoder daemon) \<lparr> de_queue := queue \<rparr> \<rparr>)
        else let (ok, queue) = rtnc_decode_queue_push time (de_queue (dm_decoder daemon)) candidate (dm_sequence daemon)
             in (ok, daemon \<lparr> dm_decoder := (dm_decoder daemon) \<lparr> de_queue := queue \<rparr> \<rparr>))"

definition fail_candidate :: "('d, 'w) daemon \<Rightarrow> ('d, 'w) daemon" where
  \<comment> \<open>the candidate's result is a failure; what the submission returns is ignored\<close>
  "fail_candidate daemon =
    (case sh_completion (dm_shared daemon) of
       None \<Rightarrow> daemon
     | Some coordinator \<Rightarrow>
         set_completion (Some (snd (rtnc_completion_submit coordinator (dm_sequence daemon) 1 False []))) daemon)"

definition route_candidate ::
    "'w host \<Rightarrow> daemon_options \<Rightarrow> bool \<Rightarrow> real list \<Rightarrow> ('d, 'w) daemon \<Rightarrow> ('d, 'w) daemon" where
  "route_candidate H options two_workers candidate daemon =
    (let daemon = (case do_capture_prefix options of
           None \<Rightarrow> daemon
         | Some name_prefix \<Rightarrow> set_world (save_candidate_wav H name_prefix (dm_sequence daemon) candidate (dm_world daemon)) daemon);
         (pushed, daemon) = (if receive_enabled options daemon then push_candidate H two_workers candidate daemon
                             else (False, daemon));
         daemon = (if \<not> pushed \<and> do_packet_mode options then fail_candidate daemon else daemon)
     in daemon \<lparr> dm_sequence := dm_sequence daemon + 1 \<rparr>)"

definition observe_channel :: "('d, 'w) daemon \<Rightarrow> ('d, 'w) daemon" where
  "observe_channel daemon =
    (let detector = dm_detector daemon
     in if bd_noise_power detector > Fin 0 \<and>
           unat (bd_samples_seen detector) \<ge> bc_warmup_samples (bd_config detector)
        then let ratio = bd_signal_power detector / bd_noise_power detector
             in daemon \<lparr> dm_maximum_power_ratio := (if ratio > dm_maximum_power_ratio daemon then ratio
                          else dm_maximum_power_ratio daemon),
                  dm_context := (dm_context daemon) \<lparr> ax_channel_busy := Some (bd_active detector) \<rparr> \<rparr>
        else daemon)"

definition channel_power ::
    "'d liquid \<Rightarrow> 'd power_filter \<Rightarrow> real \<Rightarrow> ('d, 'w) daemon \<Rightarrow> (fp \<times> ('d, 'w) daemon) option" where
  "channel_power L F sample daemon =
    (case (rtnc_carrier_downconvert L (dm_power_carrier daemon) sample, dm_power_filter daemon) of
       ((Some mixed, carrier), Some fir) \<Rightarrow>
         let (fir, filtered) = firfilt_crcf_execute F (firfilt_crcf_push F fir mixed)
         in Some (Fin (Re filtered * Re filtered + Im filtered * Im filtered),
                  daemon \<lparr> dm_power_carrier := carrier, dm_power_filter := Some fir \<rparr>)
     | _ \<Rightarrow> None)"

definition sample_value :: "s16 \<Rightarrow> real" where
  "sample_value sample = real_of_int (sint sample) / 32768"

definition process_sample ::
    "'d liquid \<Rightarrow> 'd power_filter \<Rightarrow> 'w host \<Rightarrow> daemon_options \<Rightarrow> bool \<Rightarrow> s16 \<Rightarrow> ('d, 'w) daemon \<Rightarrow>
     ('d, 'w) daemon option" where
  "process_sample L F H options two_workers pcm daemon =
    (let sample = sample_value pcm;
         (correlation_trigger, acquisition, _) =
           rtnc_acquisition_detector_process L (dm_acquisition_detector daemon) sample 0;
         daemon = daemon \<lparr> dm_acquisition_detector := acquisition \<rparr>
     in case channel_power L F sample daemon of
          None \<Rightarrow> None
        | Some (strength, daemon) \<Rightarrow>
            let (candidate, detector) =
                  rtnc_burst_detector_process_triggered (dm_detector daemon) strength sample correlation_trigger;
                daemon = daemon \<lparr> dm_detector := detector \<rparr>;
                daemon = (case candidate of
                  None \<Rightarrow> daemon | Some candidate \<Rightarrow> route_candidate H options two_workers candidate daemon)
            in Some (observe_channel daemon))"

fun process_block ::
    "'d liquid \<Rightarrow> 'd power_filter \<Rightarrow> 'w host \<Rightarrow> daemon_options \<Rightarrow> bool \<Rightarrow> s16 list \<Rightarrow> ('d, 'w) daemon \<Rightarrow>
     ('d, 'w) daemon option" where
  "process_block L F H options two_workers [] daemon = Some daemon"
| "process_block L F H options two_workers (pcm # block) daemon =
    Option.bind (process_sample L F H options two_workers pcm daemon) (process_block L F H options two_workers block)"

section \<open>Delivery\<close>

definition send_packet :: "'w host \<Rightarrow> bytes \<Rightarrow> ('d, 'w) daemon \<Rightarrow> ('d, 'w) daemon" where
  \<comment> \<open>to the client, who is dropped if that fails\<close>
  "send_packet H packet daemon =
    (case rtnc_kiss_encode packet RTNC_KISS_MAX_ENCODED of
       None \<Rightarrow> close_client H daemon
     | Some encoded \<Rightarrow>
         let (sent, w) = host_send H (dm_packet_client daemon) encoded (dm_world daemon);
             daemon = set_world w daemon
         in if sent \<noteq> int (length encoded) then close_client H daemon else daemon)"

definition monotonic_ms :: "'w host \<Rightarrow> 'w \<Rightarrow> u64 \<times> 'w" where
  "monotonic_ms H w = (let (seconds, w) = clock_seconds H False w in (word_of_int (c_trunc (seconds * 1000)), w))"

definition deliver_completion ::
    "'w host \<Rightarrow> daemon_options \<Rightarrow> rtnc_completion \<Rightarrow> ('d, 'w) daemon \<Rightarrow> ('d, 'w) daemon" where
  "deliver_completion H options completion daemon =
    (case dm_runtime daemon of
       None \<Rightarrow> daemon
     | Some runtime \<Rightarrow>
         if \<not> co_success completion then daemon
         else
           let (now, w) = monotonic_ms H (dm_world daemon);
               (fragment_status, runtime) = rtnc_runtime_accept_fragment runtime
                 (take (co_payload_length completion) (co_payload completion)) now;
               daemon = set_world w (daemon \<lparr> dm_runtime := Some runtime \<rparr>)
           in if fragment_status \<noteq> RTNC_RUNTIME_OK then daemon
              else
                let (result, runtime) = rtnc_runtime_receive_packet runtime RTNC_LINK_MAX_MTU;
                    daemon = daemon \<lparr> dm_runtime := Some runtime \<rparr>
                in case result of
                     Inl _ \<Rightarrow> daemon
                   | Inr packet \<Rightarrow>
                       let daemon = (if do_service_mode options \<and> dm_packet_client daemon \<ge> 0 \<and> length packet > 0
                             then send_packet H packet daemon else daemon)
                       in daemon \<lparr> dm_completed_packets := dm_completed_packets daemon + 1 \<rparr>)"

definition deliver_next ::
    "'w host \<Rightarrow> daemon_options \<Rightarrow> ('d, 'w) daemon \<Rightarrow> bool \<times> ('d, 'w) daemon" where
  \<comment> \<open>one round of the loop over the completions; false where it ends\<close>
  "deliver_next H options daemon =
    (case sh_completion (dm_shared daemon) of
       None \<Rightarrow> (False, daemon)
     | Some coordinator \<Rightarrow>
         (case rtnc_completion_pop coordinator of
            (None, coordinator) \<Rightarrow> (False, set_completion (Some coordinator) daemon)
          | (Some completion, coordinator) \<Rightarrow>
              (True, deliver_completion H options completion (set_completion (Some coordinator) daemon))))"

partial_function (option) deliver_all ::
    "'w host \<Rightarrow> daemon_options \<Rightarrow> ('d, 'w) daemon \<Rightarrow> ('d, 'w) daemon option" where
  "deliver_all H options daemon =
    (let (popped, daemon) = deliver_next H options daemon
     in if popped then deliver_all H options daemon else Some daemon)"

section \<open>The loop\<close>

definition daemon_continues :: "daemon_options \<Rightarrow> bool \<Rightarrow> real \<Rightarrow> ('d, 'w) daemon \<Rightarrow> bool" where
  \<comment> \<open>\<open>elapsed\<close>: seconds since the start\<close>
  "daemon_continues options stop_requested elapsed daemon \<longleftrightarrow>
    \<not> stop_requested \<and> (do_run_seconds options = Fin 0 \<or> Fin elapsed < do_run_seconds options) \<and>
    (do_service_mode options \<or>
     (\<not> do_packet_mode options \<and>
      (de_target_frames (dm_decoder daemon) = 0 \<or>
       sh_decoded_frames (dm_shared daemon) < de_target_frames (dm_decoder daemon))) \<or>
     (do_packet_mode options \<and>
      (de_target_frames (dm_decoder daemon) = 0 \<or>
       dm_completed_packets daemon < de_target_frames (dm_decoder daemon))))"

definition daemon_pass ::
    "'d liquid \<Rightarrow> 'd power_filter \<Rightarrow> 'w host \<Rightarrow> daemon_options \<Rightarrow> bool \<Rightarrow> ('d, 'w) daemon \<Rightarrow> ('d, 'w) daemon option" where
  "daemon_pass L F H options two_workers daemon =
    (let daemon = (if do_service_mode options then serve_client H daemon else daemon)
     in case rtnc_audio_ring_pop (dm_audio_ring daemon) of
          (None, ring) \<Rightarrow> Some (daemon \<lparr> dm_audio_ring := ring \<rparr>)
        | (Some block, ring) \<Rightarrow>
            Option.bind (process_block L F H options two_workers (take (ab_count block) (ab_samples block))
                          (daemon \<lparr> dm_audio_ring := ring \<rparr>))
              (\<lambda>daemon. if do_packet_mode options then deliver_all H options daemon else Some daemon))"

definition daemon_result :: "daemon_options \<Rightarrow> ('d, 'w) daemon \<Rightarrow> int" where
  "daemon_result options daemon =
    (if do_service_mode options then 0
     else let successes = (if do_packet_mode options then dm_completed_packets daemon
                           else sh_decoded_frames (dm_shared daemon))
          in if successes > 0 then 0 else 1)"

definition snr_summary :: "'d decoder_context \<Rightarrow> 'd decoder_context \<Rightarrow> real \<times> real \<times> u32" where
  \<comment> \<open>average, minimum and number of the measurements of both decoders\<close>
  "snr_summary decoder equalizer_decoder =
    (let snr_count = de_snr_count decoder + de_snr_count equalizer_decoder;
         snr_sum = de_snr_sum_db decoder + de_snr_sum_db equalizer_decoder;
         minimum_snr = (if de_snr_count decoder = 0 then de_minimum_snr_db equalizer_decoder
           else if de_snr_count equalizer_decoder = 0 then de_minimum_snr_db decoder
           else min (de_minimum_snr_db decoder) (de_minimum_snr_db equalizer_decoder))
     in (if snr_count > 0 then snr_sum / real (unat snr_count) else 0, if snr_count > 0 then minimum_snr else 0, snr_count))"

fun main_loop ::
    "'d liquid \<Rightarrow> 'd power_filter \<Rightarrow> 'w host \<Rightarrow> daemon_options \<Rightarrow> bool \<Rightarrow> real \<Rightarrow> bool list \<Rightarrow>
     ('d, 'w) daemon \<Rightarrow> ('d, 'w) daemon option" where
  \<comment> \<open>the main thread alone, since \<open>start\<close>; the list holds what the successive reads of \<^verbatim>\<open>stop_requested\<close> see\<close>
  "main_loop L F H options two_workers start [] daemon = Some daemon"
| "main_loop L F H options two_workers start (stop_requested # later) daemon =
    (if stop_requested then Some daemon
     else let (elapsed, w) = (if do_run_seconds options = Fin 0 then (0, dm_world daemon)
                 else let (now, w) = clock_seconds H False (dm_world daemon) in (now - start, w));
              daemon = set_world w daemon
     in if \<not> daemon_continues options stop_requested elapsed daemon then Some daemon
        else Option.bind (daemon_pass L F H options two_workers daemon) (main_loop L F H options two_workers start later))"

section \<open>Transmission\<close>

definition tx_worker_continues :: "('d, 'w) daemon \<Rightarrow> bool" where
  "tx_worker_continues daemon \<longleftrightarrow> dm_tx_running daemon \<or>
     (case dm_runtime daemon of None \<Rightarrow> False | Some runtime \<Rightarrow> rtnc_packet_queue_depth (rt_tx_queue runtime) > 0)"

definition tx_worker_iteration :: "'d liquid \<Rightarrow> ('d, 'w) daemon \<Rightarrow> ('d, 'w) daemon option" where
  "tx_worker_iteration L daemon =
    (case dm_runtime daemon of
       None \<Rightarrow> Some daemon
     | Some runtime \<Rightarrow>
         map_option (\<lambda>(_, runtime, context). daemon \<lparr> dm_runtime := Some runtime, dm_context := context \<rparr>)
           (rtnc_runtime_transmit_next L runtime (dm_context daemon)))"

section \<open>Shutdown\<close>

definition close_sockets :: "'w host \<Rightarrow> ('d, 'w) daemon \<Rightarrow> ('d, 'w) daemon" where
  "close_sockets H daemon =
    (let daemon = (if dm_packet_client daemon \<ge> 0
           then set_world (host_close H (dm_packet_client daemon) (dm_world daemon)) daemon else daemon)
     in if dm_listen_socket daemon \<ge> 0
        then set_world (host_close H (dm_listen_socket daemon) (dm_world daemon)) daemon else daemon)"

definition release_devices :: "'w alsa \<Rightarrow> 'w gpiod \<Rightarrow> ('d, 'w) daemon \<Rightarrow> ('d, 'w) daemon option" where
  "release_devices A G daemon =
    (case (if dm_runtime_initialized daemon
           then (case dm_runtime daemon of
                   None \<Rightarrow> None
                 | Some runtime \<Rightarrow> map_option (\<lambda>(runtime, context).
                     daemon \<lparr> dm_runtime := Some runtime, dm_context := context \<rparr>)
                       (rtnc_runtime_deinit runtime (dm_context daemon)))
           else Some daemon) of
       None \<Rightarrow> None
     | Some daemon \<Rightarrow>
         let (ptt, w) = rtnc_ptt_deinit G (ax_ptt (dm_context daemon)) (dm_world daemon);
             (audio, w) = rtnc_audio_deinit A (ax_audio (dm_context daemon)) w
         in Some (daemon \<lparr> dm_context := (dm_context daemon) \<lparr> ax_ptt := ptt, ax_audio := audio, ax_world := w \<rparr> \<rparr>))"

definition release_filters :: "('d, 'w) daemon \<Rightarrow> ('d, 'w) daemon" where
  "release_filters daemon = daemon
     \<lparr> dm_power_filter := None,
       dm_acquisition_detector := rtnc_acquisition_detector_deinit (dm_acquisition_detector daemon),
       dm_power_carrier := rtnc_carrier_deinit (dm_power_carrier daemon),
       dm_decoder := (if dm_modem_initialized daemon
         then (dm_decoder daemon) \<lparr> de_modem := rtnc_modem_deinit (de_modem (dm_decoder daemon)) \<rparr> else dm_decoder daemon),
       dm_equalizer_decoder := (if dm_equalizer_modem_initialized daemon
         then (dm_equalizer_decoder daemon) \<lparr> de_modem := rtnc_modem_deinit (de_modem (dm_equalizer_decoder daemon)) \<rparr>
         else dm_equalizer_decoder daemon) \<rparr>"

definition stop_threads :: "'w alsa \<Rightarrow> ('d, 'w) daemon \<Rightarrow> ('d, 'w) daemon" where
  \<comment> \<open>what the main thread does to stop the others; what they do until they end are steps of their own\<close>
  "stop_threads A daemon =
    (let daemon = (if dm_tx_thread_started daemon then daemon \<lparr> dm_tx_running := False \<rparr> else daemon);
         (audio, w) = (if dm_capture_started daemon
           then rtnc_audio_stop_capture A (ax_audio (dm_context daemon)) (dm_world daemon)
           else (ax_audio (dm_context daemon), dm_world daemon))
     in daemon
          \<lparr> dm_context := (dm_context daemon) \<lparr> ax_audio := audio, ax_world := w \<rparr>,
            dm_decoder := (dm_decoder daemon) \<lparr> de_running := False \<rparr>,
            dm_equalizer_decoder := (dm_equalizer_decoder daemon) \<lparr> de_running := False \<rparr> \<rparr>)"

definition finish_daemon ::
    "'w alsa \<Rightarrow> 'w gpiod \<Rightarrow> 'w host \<Rightarrow> ('d, 'w) daemon \<Rightarrow> ('d, 'w) daemon option" where
  \<comment> \<open>from the label \<^verbatim>\<open>done\<close> on, with the threads joined\<close>
  "finish_daemon A G H daemon =
    map_option release_filters (release_devices A G (close_sockets H (stop_threads A daemon)))"

section \<open>All threads\<close>

text \<open>
  The events may come in any order, so what holds for all of them holds for the order the program keeps: the
  main thread serves, takes a block, looks at its samples and delivers; a decoder thread that has printed its
  last expected frame takes no further job.
\<close>

datatype daemon_event =
    Captured "s16 list"  \<comment> \<open>the capture thread stores a period\<close>
  | Serve                \<comment> \<open>the main thread: KISS input\<close>
  | Sample s16           \<comment> \<open>the main thread: one sample of the block in its hands\<close>
  | Deliver              \<comment> \<open>the main thread: one completion\<close>
  | Take_job bool        \<comment> \<open>a decoder thread takes a candidate; the flag: the second worker\<close>
  | Finish_job bool      \<comment> \<open>and finishes it\<close>
  | Transmit             \<comment> \<open>one iteration of the transmit thread\<close>

definition worker_of :: "bool \<Rightarrow> ('d, 'w) daemon \<Rightarrow> 'd decoder_context" where
  "worker_of second daemon = (if second then dm_equalizer_decoder daemon else dm_decoder daemon)"

definition set_worker :: "bool \<Rightarrow> 'd decoder_context \<Rightarrow> ('d, 'w) daemon \<Rightarrow> ('d, 'w) daemon" where
  "set_worker second decoder daemon =
    (if second then daemon \<lparr> dm_equalizer_decoder := decoder \<rparr> else daemon \<lparr> dm_decoder := decoder \<rparr>)"

definition take_job :: "'w host \<Rightarrow> bool \<Rightarrow> ('d, 'w) daemon \<Rightarrow> ('d, 'w) daemon" where
  "take_job H second daemon =
    (if de_in_hand (worker_of second daemon) \<noteq> None then daemon
     else let (_, decoder, w) = decoder_take H (worker_of second daemon) (dm_world daemon)
          in set_world w (set_worker second decoder daemon))"

definition finish_job :: "'d liquid \<Rightarrow> 'w host \<Rightarrow> bool \<Rightarrow> ('d, 'w) daemon \<Rightarrow> ('d, 'w) daemon option" where
  "finish_job L H second daemon =
    (if de_in_hand (worker_of second daemon) = None then Some daemon
     else map_option (\<lambda>(_, decoder, shared, w). set_world w (set_worker second decoder (daemon \<lparr> dm_shared := shared \<rparr>)))
            (decoder_finish L H (worker_of second daemon) (dm_shared daemon) (dm_world daemon)))"

fun daemon_event_step ::
    "'d liquid \<Rightarrow> 'd power_filter \<Rightarrow> 'w host \<Rightarrow> daemon_options \<Rightarrow> bool \<Rightarrow> daemon_event \<Rightarrow> ('d, 'w) daemon \<Rightarrow>
     ('d, 'w) daemon option" where
  "daemon_event_step L F H options two (Captured samples) daemon =
    Some (daemon \<lparr> dm_audio_ring := snd (rtnc_audio_ring_push (dm_audio_ring daemon) samples) \<rparr>)"
| "daemon_event_step L F H options two Serve daemon = Some (serve_client H daemon)"
| "daemon_event_step L F H options two (Sample pcm) daemon = process_sample L F H options two pcm daemon"
| "daemon_event_step L F H options two Deliver daemon = Some (snd (deliver_next H options daemon))"
| "daemon_event_step L F H options two (Take_job second) daemon = Some (take_job H second daemon)"
| "daemon_event_step L F H options two (Finish_job second) daemon = finish_job L H second daemon"
| "daemon_event_step L F H options two Transmit daemon = tx_worker_iteration L daemon"

fun daemon_run ::
    "'d liquid \<Rightarrow> 'd power_filter \<Rightarrow> 'w host \<Rightarrow> daemon_options \<Rightarrow> bool \<Rightarrow> daemon_event list \<Rightarrow> ('d, 'w) daemon \<Rightarrow>
     ('d, 'w) daemon option" where
  "daemon_run L F H options two [] daemon = Some daemon"
| "daemon_run L F H options two (event # events) daemon =
    Option.bind (daemon_event_step L F H options two event daemon) (daemon_run L F H options two events)"

end
