(* ===== verification/DaemonExamples.thy ===== *)
theory DaemonExamples
  imports DaemonLoop RuntimeFlow
begin

text \<open>
  Concrete inputs for the properties of the receive daemon: a host whose clock stands still, and a daemon in
  packet mode with one worker, a decode queue of one job and a completion window of two.
\<close>

definition example_host :: "'w host" where
  \<comment> \<open>the clock shows five seconds, every call succeeds, the peer takes all it is sent and sends nothing\<close>
  "example_host =
    \<lparr> host_clock_gettime = \<lambda>_ w. (Some (5, 0), w), host_setpriority = \<lambda>_ w. (0, w), host_getpriority = \<lambda>w. (0, w),
      host_pthread_create = \<lambda>w. (0, w), host_socket = \<lambda>w. (3, w), host_setsockopt = \<lambda>_ w. w,
      host_bind = \<lambda>_ _ w. (0, w), host_listen = \<lambda>_ w. (0, w), host_accept = \<lambda>_ w. (- 1, w),
      host_recv = \<lambda>_ _ w. (None, w), host_send = \<lambda>_ bytes w. (int (length bytes), w), host_close = \<lambda>_ w. w,
      host_fopen = \<lambda>_ w. (None, w), host_fclose = \<lambda>_ w. (0, w) \<rparr>"

definition example_power_filter :: "unit power_filter" where
  "example_power_filter =
    \<lparr> firfilt_crcf_create_kaiser = \<lambda>_ _ _ _. Some (), firfilt_crcf_push = \<lambda>q _. q, firfilt_crcf_execute = \<lambda>q. (q, 0) \<rparr>"

definition example_options :: daemon_options where
  "example_options =
    \<lparr> do_profile = ''main'', do_packet_mode = True, do_service_mode = False, do_run_seconds = Fin 30,
      do_target_frames = 0, do_capture_prefix = None \<rparr>"

definition example_queue :: rtnc_decode_queue where
  "example_queue = the (rtnc_decode_queue_init zero_decode_slots 1)"

definition example_window :: rtnc_completion_coordinator where
  "example_window = the (rtnc_completion_init zero_completions 2 0 1)"

definition example_daemon :: "rtnc_decode_queue \<Rightarrow> u64 \<Rightarrow> (unit, 'w) daemon \<Rightarrow> (unit, 'w) daemon" where
  \<comment> \<open>the worker has taken candidate 0, one sample long; the queue and the number of the next candidate\<close>
  "example_daemon queue next daemon = daemon
     \<lparr> dm_decoder := (dm_decoder daemon)
         \<lparr> de_queue := queue, de_modem := example_modem FEC_NONE,
           de_job := \<lparr> dj_samples = [0], dj_sequence = 0, dj_enqueued_monotonic_ns = 0 \<rparr>, de_in_hand := Some (5, 5),
           de_running := True, de_generation := 1, de_packet_mode := True \<rparr>,
       dm_shared := (dm_shared daemon) \<lparr> sh_completion := Some example_window \<rparr>, dm_sequence := next \<rparr>"

lemma zero_memory_ok: "decode_memory zero_decode_slots" "completion_memory zero_completions"
  by (simp_all add: decode_memory_def completion_memory_def zero_decode_slots_def zero_completions_def)

lemma example_queue: "decode_queue_wf example_queue" "decode_items example_queue = []" "dq_capacity example_queue = 1"
proof -
  have l: "length zero_decode_slots = RTNC_DECODE_QUEUE_SLOTS" by (simp add: zero_decode_slots_def)
  obtain q where q: "rtnc_decode_queue_init zero_decode_slots 1 = Some q" by (simp add: rtnc_decode_queue_init_def)
  from decode_queue_init_ok [OF q zero_memory_ok(1)] q
  show "decode_queue_wf example_queue" "decode_items example_queue = []" "dq_capacity example_queue = 1"
    by (simp_all add: example_queue_def)
qed

lemma example_window:
  "completion_wf example_window"
  "completion_abs example_window = \<lparr>sp_next = 0, sp_capacity = 2, sp_generation = 1, sp_waiting = Map.empty\<rparr>"
proof -
  obtain c where c: "rtnc_completion_init zero_completions 2 0 1 = Some c" by (simp add: rtnc_completion_init_def)
  from completion_init_ok [OF c zero_memory_ok(2)] c
  show "completion_wf example_window"
    "completion_abs example_window = \<lparr>sp_next = 0, sp_capacity = 2, sp_generation = 1, sp_waiting = Map.empty\<rparr>"
    by (simp_all add: example_window_def)
qed

lemma example_rx:
  \<comment> \<open>one sample is no frame\<close>
  assumes "de_modem decoder = example_modem FEC_NONE" "dj_samples (de_job decoder) = [0]" "\<not> de_fast_only decoder"
    "wk_filtered (de_workspace decoder) \<noteq> []"
  shows "\<exists>out. run_modem example_liquid decoder = Some out \<and> ro_status out = RTNC_MODEM_NO_FRAME"
proof -
  let ?m = "example_modem FEC_NONE"
  obtain matched where f: "rrc_matched_filter (mo_rrc ?m) = Some matched"
    using example_modem_ready(1) [of FEC_NONE] by (auto simp: modem_ready_def)
  obtain nco where n: "ca_rx_nco (mo_carrier ?m) = Some nco"
    using example_modem_ready(1) [of FEC_NONE] by (auto simp: modem_ready_def)
  have "rtnc_carrier_downconvert example_liquid (rtnc_carrier_reset example_liquid (mo_carrier ?m)) 0 \<noteq> (None, c)" for c
    by (simp add: n rtnc_carrier_downconvert_def rtnc_carrier_reset_def example_liquid_def)
  moreover have "rtnc_rrc_match example_liquid (rtnc_rrc_reset example_liquid (mo_rrc ?m)) x \<noteq> (None, c)" for x c
    by (simp add: f rtnc_rrc_match_def rtnc_rrc_reset_def example_liquid_def)
  moreover have "unat (pp_samples_per_symbol (mo_profile ?m)) > 0"
    using example_modem_ready(2) [of FEC_NONE] by (simp add: rtnc_phy_profile_qpsk_1200_def)
  ultimately show ?thesis using assms
    by (auto simp: run_modem_def rtnc_modem_rx_audio_def modem_rx_audio_def outcome_def Let_def write_at_def split: prod.splits option.splits)
qed

end
