(* ===== verification/DaemonFlow.thy ===== *)
theory DaemonFlow
  imports DaemonExamples JobFlow
begin

text \<open>
  The receive daemon in packet mode refines \<open>JobFlow\<close>: \<open>flow_of\<close> maps a state of the daemon to the
  abstract machine, and every event of every thread is one abstract step or none.  The properties of the
  abstract machine then hold of the daemon: what is delivered, in which order, and when reception stops.
\<close>

section \<open>What a decoder can return\<close>

definition carries_payload :: "'d rx_outcome \<Rightarrow> bool" where
  "carries_payload out \<longleftrightarrow> (ro_status out = RTNC_MODEM_OK \<longrightarrow>
     (\<exists>p. ro_payload out = Some p \<and> 0 < length p \<and> length p \<le> RTNC_FRAME_MAX_PAYLOAD))"

lemma carries_outcome [simp]: "status \<noteq> RTNC_MODEM_OK \<Longrightarrow> carries_payload (outcome status m me w)"
  by (simp add: carries_payload_def outcome_def)

lemma carries_parse [simp]: "carries_payload (parse_outcome frame capacity m me w)"
  by (auto simp: carries_payload_def parse_outcome_def outcome_def rtnc_frame_parse_Inr split: sum.splits)

lemma carries_coded:
  assumes "\<And>m me w out. failed m me w = Some out \<Longrightarrow> carries_payload out"
    and "rx_coded L m me w n start gain phase cap failed = Some out"
  shows "carries_payload out"
  using assms unfolding rx_coded_def by (auto simp: Let_def split: if_splits option.splits prod.splits)

lemma carries_plain: "rx_plain L m me w n start gain phase cap = Some out \<Longrightarrow> carries_payload out"
  unfolding rx_plain_def by (auto simp: Let_def split: if_splits option.splits prod.splits)

lemma carries_equalizer_decode: "equalizer_decode L m me w bytes symbols cap = Some out \<Longrightarrow> carries_payload out"
  unfolding equalizer_decode_def by (auto simp: Let_def split: if_splits option.splits prod.splits)

lemma carries_attempt: "equalizer_attempt L m audio start phase rad cap me w dd = Some out \<Longrightarrow> carries_payload out"
  unfolding equalizer_attempt_def
  by (auto simp: Let_def carries_equalizer_decode split: if_splits option.splits prod.splits)

lemma carries_run: "equalizer_run L m audio start phase rad cap me w dd = Some out \<Longrightarrow> carries_payload out"
  unfolding equalizer_run_def
  by (auto simp: Let_def carries_payload_def outcome_def dest!: carries_attempt split: if_splits option.splits prod.splits)

lemma carries_fallback: "decode_equalizer_fallback L m audio start phase rad cap me w = Some out \<Longrightarrow> carries_payload out"
  unfolding decode_equalizer_fallback_def by (auto dest: carries_run split: if_splits option.splits)

lemma carries_track:
  assumes "rx_track L m audio start phase rad cap me w allow = Some out" shows "carries_payload out"
proof -
  have "(if \<not> allow then Some (outcome RTNC_MODEM_FRAME_REJECTED m' me' w')
      else decode_equalizer_fallback L m' audio start phase rad cap me' w') = Some o' \<Longrightarrow> carries_payload o'" for m' me' w' o'
    by (auto dest: carries_fallback split: if_splits)
  from carries_coded [OF this] assms show ?thesis unfolding rx_track_def
    by (auto simp: Let_def dest: carries_plain split: if_splits prod.splits option.splits)
qed

lemma rx_carries_payload: "run_modem L decoder = Some out \<Longrightarrow> carries_payload out"
  unfolding run_modem_def rtnc_modem_rx_audio_def rtnc_modem_rx_audio_fast_def modem_rx_audio_def
  by (auto simp: Let_def dest: carries_track split: if_splits option.splits prod.splits)

lemma decoded_payload_ok:
  "run_modem L decoder = Some out \<Longrightarrow> completion_arguments_ok (ro_status out = RTNC_MODEM_OK) (decoded_payload out)"
  using rx_carries_payload [of L decoder out]
  by (auto simp: carries_payload_def completion_arguments_ok_def decoded_payload_def)

section \<open>Refinement\<close>

definition jobs_of :: "'d decoder_context \<Rightarrow> u64 list" where
  \<comment> \<open>the job in hand and those in the queue\<close>
  "jobs_of decoder =
    (case de_in_hand decoder of None \<Rightarrow> [] | Some _ \<Rightarrow> [dj_sequence (de_job decoder)]) @
    map dj_sequence (decode_items (de_queue decoder))"

definition worker_ok :: "'d decoder_context \<Rightarrow> bool" where
  "worker_ok decoder \<longleftrightarrow> decode_queue_wf (de_queue decoder) \<and> de_generation decoder = 1 \<and> de_packet_mode decoder"

definition worker_unused :: "'d decoder_context \<Rightarrow> bool" where
  "worker_unused decoder \<longleftrightarrow> dq_consumer (de_queue decoder) = dq_producer (de_queue decoder) \<and> de_in_hand decoder = None"

definition daemon_wf :: "bool \<Rightarrow> ('d, 'w) daemon \<Rightarrow> bool" where
  "daemon_wf two daemon \<longleftrightarrow>
    (\<exists>coordinator. sh_completion (dm_shared daemon) = Some coordinator \<and> completion_wf coordinator \<and>
       cc_generation coordinator = 1) \<and>
    sh_fallback_queue (dm_shared daemon) = None \<and> worker_ok (dm_decoder daemon) \<and>
    (if two then worker_ok (dm_equalizer_decoder daemon) else worker_unused (dm_equalizer_decoder daemon))"

definition window_of :: "('d, 'w) daemon \<Rightarrow> rtnc_completion_coordinator" where
  "window_of daemon = the (sh_completion (dm_shared daemon))"

definition pending_of :: "bool \<Rightarrow> 'd decoder_context \<Rightarrow> 'd decoder_context \<Rightarrow> nat \<Rightarrow> u64 list" where
  "pending_of two first second =
    (\<lambda>k. if k = 0 then jobs_of first else if k = 1 \<and> two then jobs_of second else [])"

definition flow_of :: "bool \<Rightarrow> ('d, 'w) daemon \<Rightarrow> job_flow" where
  "flow_of two daemon =
    \<lparr> jf_pending = pending_of two (dm_decoder daemon) (dm_equalizer_decoder daemon),
      jf_window = completion_abs (window_of daemon), jf_sequence = dm_sequence daemon \<rparr>"

lemma set_world_sel [simp]:
  "dm_decoder (set_world w daemon) = dm_decoder daemon"
  "dm_equalizer_decoder (set_world w daemon) = dm_equalizer_decoder daemon"
  "dm_shared (set_world w daemon) = dm_shared daemon" "dm_sequence (set_world w daemon) = dm_sequence daemon"
  "dm_runtime (set_world w daemon) = dm_runtime daemon"
  "dm_packet_client (set_world w daemon) = dm_packet_client daemon"
  "dm_completed_packets (set_world w daemon) = dm_completed_packets daemon"
  by (simp_all add: set_world_def)

definition same_jobs :: "('d, 'w) daemon \<Rightarrow> ('d, 'w) daemon \<Rightarrow> bool" where
  \<comment> \<open>equal in what the job flow depends on\<close>
  "same_jobs daemon daemon' \<longleftrightarrow> dm_decoder daemon' = dm_decoder daemon \<and>
     dm_equalizer_decoder daemon' = dm_equalizer_decoder daemon \<and> dm_shared daemon' = dm_shared daemon \<and>
     dm_sequence daemon' = dm_sequence daemon"

lemma same_jobs_flow:
  "same_jobs daemon daemon' \<Longrightarrow> flow_of two daemon' = flow_of two daemon \<and> daemon_wf two daemon' = daemon_wf two daemon"
  by (simp add: same_jobs_def flow_of_def daemon_wf_def window_of_def)

lemma same_jobs_refl [simp]: "same_jobs daemon daemon"
  by (simp add: same_jobs_def)

lemma close_client_sel [simp]:
  "dm_decoder (close_client H daemon) = dm_decoder daemon"
  "dm_equalizer_decoder (close_client H daemon) = dm_equalizer_decoder daemon"
  "dm_shared (close_client H daemon) = dm_shared daemon" "dm_sequence (close_client H daemon) = dm_sequence daemon"
  "dm_runtime (close_client H daemon) = dm_runtime daemon"
  "dm_completed_packets (close_client H daemon) = dm_completed_packets daemon"
  by (simp_all add: close_client_def)

lemma serve_same_jobs: "same_jobs daemon (serve_client H daemon)"
proof -
  have "same_jobs daemon (accept_client H daemon)"
    by (auto simp: accept_client_def same_jobs_def Let_def split: prod.splits)
  then show ?thesis
    by (auto simp: serve_client_def same_jobs_def Let_def split: prod.splits option.splits list.splits)
qed

lemma send_packet_sel [simp]:
  "dm_decoder (send_packet H packet daemon) = dm_decoder daemon"
  "dm_equalizer_decoder (send_packet H packet daemon) = dm_equalizer_decoder daemon"
  "dm_shared (send_packet H packet daemon) = dm_shared daemon"
  "dm_sequence (send_packet H packet daemon) = dm_sequence daemon"
  "dm_runtime (send_packet H packet daemon) = dm_runtime daemon"
  "dm_completed_packets (send_packet H packet daemon) = dm_completed_packets daemon"
  by (simp_all add: send_packet_def Let_def split: prod.splits option.splits)

lemma deliver_completion_same_jobs: "same_jobs daemon (deliver_completion H options completion daemon)"
  by (auto simp: deliver_completion_def same_jobs_def Let_def split: prod.splits option.splits sum.splits)

lemma transmit_same_jobs: "tx_worker_iteration L daemon = Some daemon' \<Longrightarrow> same_jobs daemon daemon'"
  by (auto simp: tx_worker_iteration_def same_jobs_def split: option.splits)

lemma observe_channel_sel [simp]:
  "dm_decoder (observe_channel daemon) = dm_decoder daemon"
  "dm_equalizer_decoder (observe_channel daemon) = dm_equalizer_decoder daemon"
  "dm_shared (observe_channel daemon) = dm_shared daemon" "dm_sequence (observe_channel daemon) = dm_sequence daemon"
  by (simp_all add: observe_channel_def Let_def)

lemma observe_flow [simp]:
  "flow_of two (observe_channel daemon) = flow_of two daemon" "daemon_wf two (observe_channel daemon) = daemon_wf two daemon"
  using same_jobs_flow [of daemon "observe_channel daemon" two] by (simp_all add: same_jobs_def)

lemma channel_power_same_jobs: "channel_power L F sample daemon = Some (strength, daemon') \<Longrightarrow> same_jobs daemon daemon'"
  by (auto simp: channel_power_def same_jobs_def Let_def split: prod.splits option.splits)

lemma queueing_time_sel [simp]:
  "de_queue (queueing_time job t d) = de_queue d" "de_in_hand (queueing_time job t d) = de_in_hand d"
  "de_job (queueing_time job t d) = de_job d" "de_generation (queueing_time job t d) = de_generation d"
  "de_packet_mode (queueing_time job t d) = de_packet_mode d"
  by (simp_all add: queueing_time_def Let_def)

lemma statistics_sel [simp]:
  "de_queue (decoding_time t c d) = de_queue d" "de_in_hand (decoding_time t c d) = de_in_hand d"
  "de_job (decoding_time t c d) = de_job d" "de_generation (decoding_time t c d) = de_generation d"
  "de_packet_mode (decoding_time t c d) = de_packet_mode d"
  "de_queue (signal_quality m d) = de_queue d" "de_in_hand (signal_quality m d) = de_in_hand d"
  "de_job (signal_quality m d) = de_job d" "de_generation (signal_quality m d) = de_generation d"
  "de_packet_mode (signal_quality m d) = de_packet_mode d"
  "de_queue (best_so_far m st d) = de_queue d" "de_in_hand (best_so_far m st d) = de_in_hand d"
  "de_job (best_so_far m st d) = de_job d" "de_generation (best_so_far m st d) = de_generation d"
  "de_packet_mode (best_so_far m st d) = de_packet_mode d"
  by (simp_all add: decoding_time_def signal_quality_def best_so_far_def Let_def)

lemma decoder_take_flow:
  assumes "worker_ok decoder" "de_in_hand decoder = None" "decoder_take H decoder w = (popped, decoder', w')"
  shows "jobs_of decoder' = jobs_of decoder \<and> worker_ok decoder'"
proof (cases "decode_items (de_queue decoder)")
  case Nil
  then have "rtnc_decode_queue_pop (de_queue decoder) = (None, de_queue decoder)"
    using decode_pop_empty assms(1) by (simp add: worker_ok_def)
  with assms show ?thesis by (auto simp: decoder_take_def)
next
  case (Cons job jobs)
  from decode_pop_head [OF _ Cons] assms(1) obtain q where
    "rtnc_decode_queue_pop (de_queue decoder) = (Some job, q)" "decode_queue_wf q" "decode_items q = jobs"
    by (auto simp: worker_ok_def)
  with assms Cons show ?thesis
    by (auto simp: decoder_take_def jobs_of_def worker_ok_def Let_def split: prod.splits)
qed

lemma unused_take:
  "worker_unused decoder \<Longrightarrow> decoder_take H decoder w = (popped, decoder', w') \<Longrightarrow> worker_unused decoder'"
  by (auto simp: decoder_take_def worker_unused_def rtnc_decode_queue_pop_def Let_def)

lemma decoder_finish_flow:
  assumes "worker_ok decoder" "de_in_hand decoder \<noteq> None" "sh_completion shared = Some coordinator"
    "sh_fallback_queue shared = None" "decoder_finish L H decoder shared w = Some (continue, decoder', shared', w')"
  shows "\<exists>out. run_modem L decoder = Some out \<and> jobs_of decoder = dj_sequence (de_job decoder) # jobs_of decoder' \<and>
    worker_ok decoder' \<and> sh_fallback_queue shared' = None \<and>
    sh_completion shared' = Some (snd (rtnc_completion_submit coordinator (dj_sequence (de_job decoder)) 1
      (ro_status out = RTNC_MODEM_OK) (decoded_payload out)))"
  using assms by (auto simp: decoder_finish_def Let_def worker_ok_def jobs_of_def defer_job_def submit_result_def
      split: option.splits prod.splits if_splits)

lemma decode_push_cases:
  assumes wf: "decode_queue_wf q" and push: "rtnc_decode_queue_push time q samples seq = (ok, q')"
  shows "decode_queue_wf q' \<and> decode_items q' = decode_items q @ (if ok then [stored_job (time, samples, seq)] else [])"
proof -
  let ?x = "(time, samples, seq)"
  have p: "decode_push q ?x = (ok, q')" using push by simp
  consider "\<not> decode_fits ?x" | "decode_fits ?x" "length (decode_items q) = dq_capacity q"
    | "decode_fits ?x" "length (decode_items q) < dq_capacity q"
    using decode_items_bound [OF wf] by linarith
  then show ?thesis
  proof cases
    case 1
    with wf decode_push_unfit [OF 1] p show ?thesis by simp
  next
    case 2
    then show ?thesis using decode_push_full [OF wf 2] p decode_push_wf [OF wf, of ?x] by (auto simp: decode_items_def)
  next
    case 3
    then show ?thesis using decode_push_room [OF wf 3] p by auto
  qed
qed

lemma pending_first: "(pending_of two first second)(0 := jobs_of first') = pending_of two first' second"
  by (auto simp: pending_of_def)

lemma pending_second: "two \<Longrightarrow> (pending_of two first second)(1 := jobs_of second') = pending_of two first second'"
  by (auto simp: pending_of_def)

lemma pending_cong:
  "jobs_of first' = jobs_of first \<Longrightarrow> pending_of two first' second = pending_of two first second"
  "jobs_of second' = jobs_of second \<Longrightarrow> pending_of two first second' = pending_of two first second"
  "pending_of False first second' = pending_of False first second"
  by (auto simp: pending_of_def fun_eq_iff)

lemma push_candidate_flow:
  assumes wf: "daemon_wf two daemon" and push: "push_candidate H two candidate daemon = (ok, daemon')"
  shows "daemon_wf two daemon' \<and> dm_shared daemon' = dm_shared daemon \<and> dm_sequence daemon' = dm_sequence daemon \<and>
    (let k = (if for_second_worker two (dm_sequence daemon) then 1 else 0)
     in jf_pending (flow_of two daemon') = (jf_pending (flow_of two daemon))
          (k := jf_pending (flow_of two daemon) k @ (if ok then [dm_sequence daemon] else [])))"
proof (cases "for_second_worker two (dm_sequence daemon)")
  case True
  then have two: "two" by (simp add: for_second_worker_def)
  let ?d = "dm_equalizer_decoder daemon"
  obtain time w q where q: "enqueue_time H (dm_world daemon) = (time, w)"
      "rtnc_decode_queue_push time (de_queue ?d) candidate (dm_sequence daemon) = (ok, q)"
      "daemon' = set_world w daemon \<lparr> dm_equalizer_decoder := ?d \<lparr> de_queue := q \<rparr> \<rparr>"
    using push True by (auto simp: push_candidate_def Let_def split: prod.splits)
  have "decode_queue_wf (de_queue ?d)" using wf two by (simp add: daemon_wf_def worker_ok_def)
  note c = decode_push_cases [OF this q(2)]
  have "jobs_of (?d \<lparr> de_queue := q \<rparr>) = jobs_of ?d @ (if ok then [dm_sequence daemon] else [])"
    using c by (auto simp: jobs_of_def stored_job_def split: option.splits)
  then have "jf_pending (flow_of two daemon') =
      (jf_pending (flow_of two daemon))(1 := jobs_of ?d @ (if ok then [dm_sequence daemon] else []))"
    using q(3) two pending_second [OF two, of "dm_decoder daemon" ?d "?d \<lparr> de_queue := q \<rparr>"]
    by (simp add: flow_of_def)
  then show ?thesis using True two q(3) c wf
    by (simp add: daemon_wf_def worker_ok_def flow_of_def pending_of_def)
next
  case False
  let ?d = "dm_decoder daemon"
  obtain time w q where q: "enqueue_time H (dm_world daemon) = (time, w)"
      "rtnc_decode_queue_push time (de_queue ?d) candidate (dm_sequence daemon) = (ok, q)"
      "daemon' = set_world w daemon \<lparr> dm_decoder := ?d \<lparr> de_queue := q \<rparr> \<rparr>"
    using push False by (auto simp: push_candidate_def Let_def split: prod.splits)
  have "decode_queue_wf (de_queue ?d)" using wf by (simp add: daemon_wf_def worker_ok_def)
  note c = decode_push_cases [OF this q(2)]
  have "jobs_of (?d \<lparr> de_queue := q \<rparr>) = jobs_of ?d @ (if ok then [dm_sequence daemon] else [])"
    using c by (auto simp: jobs_of_def stored_job_def split: option.splits)
  then have "jf_pending (flow_of two daemon') =
      (jf_pending (flow_of two daemon))(0 := jobs_of ?d @ (if ok then [dm_sequence daemon] else []))"
    using q(3) pending_first [of two ?d "dm_equalizer_decoder daemon" "?d \<lparr> de_queue := q \<rparr>"]
    by (simp add: flow_of_def)
  moreover have "daemon_wf two daemon'" using q(3) c wf by (cases two) (simp_all add: daemon_wf_def worker_ok_def)
  ultimately show ?thesis using False q(3) by (simp add: flow_of_def pending_of_def)
qed

lemma completion_abs_sel [simp]:
  "sp_generation (completion_abs c) = cc_generation c" "sp_capacity (completion_abs c) = cc_capacity c"
  "sp_waiting (completion_abs c) = waiting c"
  by (simp_all add: completion_abs_def)

lemma submit_flow:
  assumes "completion_wf c" "cc_generation c = 1"
  shows "\<exists>ok. completion_wf (snd (rtnc_completion_submit c j 1 success p)) \<and>
    cc_generation (snd (rtnc_completion_submit c j 1 success p)) = 1 \<and>
    spec_submit (completion_abs c) j (sp_generation (completion_abs c)) (success, p) =
      (ok, completion_abs (snd (rtnc_completion_submit c j 1 success p)))"
proof -
  obtain ok c' where c': "rtnc_completion_submit c j 1 success p = (ok, c')" by fastforce
  from submit_refines [OF assms(1) c'] assms(2) have
    "completion_wf c'" "spec_submit (completion_abs c) j (sp_generation (completion_abs c)) (success, p) = (ok, completion_abs c')"
    by auto
  with spec_submit_cases(3) [OF this(2)] assms(2) c' show ?thesis by simp
qed

lemma daemon_wf_window:
  "daemon_wf two daemon \<Longrightarrow> sh_completion (dm_shared daemon) = Some (window_of daemon) \<and>
     completion_wf (window_of daemon) \<and> cc_generation (window_of daemon) = 1"
  by (auto simp: daemon_wf_def window_of_def)

lemma route_candidate_flow:
  assumes wf: "daemon_wf two daemon" and packet: "do_packet_mode options"
  shows "daemon_wf two (route_candidate H options two candidate daemon) \<and>
    flow_step (flow_of two daemon) (flow_of two (route_candidate H options two candidate daemon)) \<and>
    dm_sequence (route_candidate H options two candidate daemon) = dm_sequence daemon + 1"
proof -
  let ?r = "route_candidate H options two candidate daemon"
  define d1 where "d1 = (case do_capture_prefix options of None \<Rightarrow> daemon
    | Some name_prefix \<Rightarrow> set_world (save_candidate_wav H name_prefix (dm_sequence daemon) candidate (dm_world daemon)) daemon)"
  define pushed where "pushed = (if receive_enabled options d1 then push_candidate H two candidate d1 else (False, d1))"
  have d1: "same_jobs daemon d1" by (auto simp: d1_def same_jobs_def split: option.splits)
  obtain ok d2 where d2: "pushed = (ok, d2)" by fastforce
  have r: "?r = (if \<not> ok then fail_candidate d2 else d2)
      \<lparr> dm_sequence := dm_sequence (if \<not> ok then fail_candidate d2 else d2) + 1 \<rparr>"
    using packet d2 by (simp add: route_candidate_def d1_def [symmetric] pushed_def [symmetric] Let_def)
  from same_jobs_flow [OF d1] wf have wf1: "daemon_wf two d1" and f1: "flow_of two d1 = flow_of two daemon" by auto
  let ?k = "if for_second_worker two (dm_sequence daemon) then 1 else 0"
  have 2: "daemon_wf two d2" "dm_shared d2 = dm_shared daemon" "dm_sequence d2 = dm_sequence daemon"
    "jf_pending (flow_of two d2) = (jf_pending (flow_of two daemon))
          (?k := jf_pending (flow_of two daemon) ?k @ (if ok then [dm_sequence daemon] else []))"
  proof -
    have s: "dm_shared d1 = dm_shared daemon" "dm_sequence d1 = dm_sequence daemon" using d1 by (auto simp: same_jobs_def)
    show "daemon_wf two d2" "dm_shared d2 = dm_shared daemon" "dm_sequence d2 = dm_sequence daemon"
      "jf_pending (flow_of two d2) = (jf_pending (flow_of two daemon))
          (?k := jf_pending (flow_of two daemon) ?k @ (if ok then [dm_sequence daemon] else []))"
      using push_candidate_flow [OF wf1, of H candidate ok d2] d2 s f1 wf1
      by (auto simp: pushed_def Let_def split: if_splits)
  qed
  show ?thesis
  proof (cases ok)
    case True
    then have "flow_of two ?r = (flow_of two daemon) \<lparr> jf_pending := (jf_pending (flow_of two daemon))
          (?k := jf_pending (flow_of two daemon) ?k @ [jf_sequence (flow_of two daemon)]),
        jf_sequence := jf_sequence (flow_of two daemon) + 1 \<rparr>"
      using r 2 by (simp add: flow_of_def window_of_def)
    moreover have "daemon_wf two ?r" using r 2(1) True by (simp add: daemon_wf_def)
    ultimately show ?thesis using flow_step.queue [of ?k "flow_of two daemon"] r 2(3) True by simp
  next
    case False
    let ?c = "window_of daemon"
    note w = daemon_wf_window [OF wf]
    let ?c' = "snd (rtnc_completion_submit ?c (dm_sequence daemon) 1 False [])"
    obtain sub where sub: "completion_wf ?c'" "cc_generation ?c' = 1"
      "spec_submit (completion_abs ?c) (dm_sequence daemon) (sp_generation (completion_abs ?c)) (False, []) = (sub, completion_abs ?c')"
      using submit_flow [of ?c "dm_sequence daemon" False "[]"] w by auto
    have fc: "fail_candidate d2 = set_completion (Some ?c') d2"
      using w 2(2,3) by (simp add: fail_candidate_def)
    have "flow_of two ?r = (flow_of two daemon) \<lparr> jf_window := completion_abs ?c',
        jf_sequence := jf_sequence (flow_of two daemon) + 1 \<rparr>"
      using r fc 2(3,4) False by (simp add: flow_of_def window_of_def set_completion_def)
    moreover have "daemon_wf two ?r" using r fc 2(1,2) False sub
      by (simp add: daemon_wf_def set_completion_def)
    moreover have "dm_sequence ?r = dm_sequence daemon + 1" using r fc 2(3) False by (simp add: set_completion_def)
    ultimately show ?thesis using flow_step.fail [of "flow_of two daemon" sub "completion_abs ?c'"] sub(3)
      by (simp add: flow_of_def)
  qed
qed

lemma process_sample_flow:
  assumes wf: "daemon_wf two daemon" and packet: "do_packet_mode options"
    and step: "process_sample L F H options two pcm daemon = Some daemon'"
  shows "daemon_wf two daemon' \<and>
    (flow_of two daemon' = flow_of two daemon \<or> flow_step (flow_of two daemon) (flow_of two daemon')) \<and>
    (dm_sequence daemon' = dm_sequence daemon \<or> dm_sequence daemon' = dm_sequence daemon + 1)"
proof -
  obtain trigger acquisition score where a: "rtnc_acquisition_detector_process L (dm_acquisition_detector daemon)
      (sample_value pcm) 0 = (trigger, acquisition, score)" by (metis prod_cases3)
  from step a obtain strength d1 candidate detector where
    d1: "channel_power L F (sample_value pcm) (daemon \<lparr> dm_acquisition_detector := acquisition \<rparr>) = Some (strength, d1)" and
    b: "rtnc_burst_detector_process_triggered (dm_detector d1) strength (sample_value pcm) trigger = (candidate, detector)" and
    d': "daemon' = observe_channel (case candidate of None \<Rightarrow> d1 \<lparr> dm_detector := detector \<rparr>
           | Some samples \<Rightarrow> route_candidate H options two samples (d1 \<lparr> dm_detector := detector \<rparr>))"
    by (auto simp: process_sample_def Let_def split: option.splits prod.splits)
  have "same_jobs daemon (d1 \<lparr> dm_detector := detector \<rparr>)"
    using channel_power_same_jobs [OF d1] by (simp add: same_jobs_def)
  note 1 = same_jobs_flow [OF this, of two] this
  from 1(1) wf have wf1: "daemon_wf two (d1 \<lparr> dm_detector := detector \<rparr>)" by simp
  show ?thesis
  proof (cases candidate)
    case None
    with 1 wf d' show ?thesis by (simp add: same_jobs_def)
  next
    case (Some samples)
    from route_candidate_flow [OF wf1 packet, of H samples] Some 1 d' show ?thesis by (simp add: same_jobs_def)
  qed
qed

lemma take_job_flow:
  assumes wf: "daemon_wf two daemon"
  shows "daemon_wf two (take_job H second daemon) \<and> flow_of two (take_job H second daemon) = flow_of two daemon"
proof (cases "de_in_hand (worker_of second daemon)")
  case None
  obtain popped decoder w where t: "decoder_take H (worker_of second daemon) (dm_world daemon) = (popped, decoder, w)"
    by (metis prod_cases3)
  with None have d': "take_job H second daemon = set_world w (set_worker second decoder daemon)" by (simp add: take_job_def)
  show ?thesis
  proof (cases second)
    case False
    with wf decoder_take_flow [OF _ None t] have j: "jobs_of decoder = jobs_of (dm_decoder daemon)" and "worker_ok decoder"
      by (auto simp: daemon_wf_def worker_of_def)
    with wf False d' show ?thesis by (simp add: daemon_wf_def flow_of_def set_worker_def pending_cong(1) [OF j] window_of_def)
  next
    case second: True
    show ?thesis
    proof (cases two)
      case True
      with second wf decoder_take_flow [OF _ None t] have j: "jobs_of decoder = jobs_of (dm_equalizer_decoder daemon)" and "worker_ok decoder"
        by (auto simp: daemon_wf_def worker_of_def)
      with wf second True d' show ?thesis by (simp add: daemon_wf_def flow_of_def set_worker_def pending_cong(2) [OF j] window_of_def)
    next
      case False
      with second wf unused_take [OF _ t] have "worker_unused decoder" by (auto simp: daemon_wf_def worker_of_def)
      with wf second False d' show ?thesis by (simp add: daemon_wf_def flow_of_def set_worker_def window_of_def pending_of_def fun_eq_iff)
    qed
  qed
qed (use wf in \<open>simp add: take_job_def\<close>)

lemma finish_job_flow:
  assumes wf: "daemon_wf two daemon" and step: "finish_job L H second daemon = Some daemon'"
  shows "daemon_wf two daemon' \<and> dm_sequence daemon' = dm_sequence daemon \<and>
    (flow_of two daemon' = flow_of two daemon \<or> flow_step (flow_of two daemon) (flow_of two daemon'))"
proof (cases "de_in_hand (worker_of second daemon)")
  case None
  with step wf show ?thesis by (simp add: finish_job_def)
next
  case (Some times)
  let ?d = "worker_of second daemon" and ?c = "window_of daemon"
  from Some wf have two: "second \<longrightarrow> two" by (auto simp: worker_of_def daemon_wf_def worker_unused_def split: if_splits)
  with wf have ok: "worker_ok ?d" by (auto simp: worker_of_def daemon_wf_def)
  from step Some obtain continue decoder shared w where
    fin: "decoder_finish L H ?d (dm_shared daemon) (dm_world daemon) = Some (continue, decoder, shared, w)" and
    d': "daemon' = set_world w (set_worker second decoder (daemon \<lparr> dm_shared := shared \<rparr>))"
    by (auto simp: finish_job_def)
  note win = daemon_wf_window [OF wf]
  let ?j = "dj_sequence (de_job ?d)"
  from wf have "sh_fallback_queue (dm_shared daemon) = None" by (simp add: daemon_wf_def)
  from decoder_finish_flow [OF ok _ _ this fin] Some win obtain out where
    out: "run_modem L ?d = Some out" "jobs_of ?d = ?j # jobs_of decoder" "worker_ok decoder" "sh_fallback_queue shared = None"
      "sh_completion shared = Some (snd (rtnc_completion_submit ?c ?j 1 (ro_status out = RTNC_MODEM_OK) (decoded_payload out)))"
    by auto
  let ?c' = "snd (rtnc_completion_submit ?c ?j 1 (ro_status out = RTNC_MODEM_OK) (decoded_payload out))"
  from submit_flow [of ?c ?j "ro_status out = RTNC_MODEM_OK" "decoded_payload out"] win obtain sub where
    sub: "completion_wf ?c'" "cc_generation ?c' = 1" "spec_submit (completion_abs ?c) ?j (sp_generation (completion_abs ?c))
      (ro_status out = RTNC_MODEM_OK, decoded_payload out) = (sub, completion_abs ?c')" by auto
  have wf': "daemon_wf two daemon'" using d' out(3-5) sub(1,2) wf two by (auto simp: daemon_wf_def set_worker_def)
  let ?k = "if second then 1 else 0 :: nat"
  have k: "jf_pending (flow_of two daemon) ?k = ?j # jobs_of decoder"
    using out(2) two by (auto simp: flow_of_def pending_of_def worker_of_def)
  have p: "jf_pending (flow_of two daemon') = (jf_pending (flow_of two daemon))(?k := jobs_of decoder)"
    using two by (auto simp: d' flow_of_def set_worker_def pending_of_def fun_eq_iff)
  have "flow_of two daemon' = (flow_of two daemon) \<lparr> jf_pending := (jf_pending (flow_of two daemon))(?k := jobs_of decoder),
      jf_window := completion_abs ?c' \<rparr>"
    using p d' out(5) by (simp add: flow_of_def window_of_def set_worker_def)
  moreover have "?k < 2" by simp
  ultimately have "flow_step (flow_of two daemon) (flow_of two daemon')"
    using flow_step.decide [OF _ k, of "(ro_status out = RTNC_MODEM_OK, decoded_payload out)" sub "completion_abs ?c'"]
      sub(3) decoded_payload_ok [OF out(1)] by (simp add: flow_of_def)
  with wf' d' show ?thesis by (simp add: set_worker_def)
qed

lemma deliver_next_flow:
  assumes wf: "daemon_wf two daemon" and d: "deliver_next H options daemon = (popped, daemon')"
  shows "daemon_wf two daemon' \<and> dm_sequence daemon' = dm_sequence daemon \<and>
    (if popped then flow_step (flow_of two daemon) (flow_of two daemon') else flow_of two daemon' = flow_of two daemon)"
proof -
  note win = daemon_wf_window [OF wf]
  obtain out c' where pop: "rtnc_completion_pop (window_of daemon) = (out, c')" by fastforce
  from pop_refines [OF _ pop] win have c': "completion_wf c'"
    "spec_pop (completion_abs (window_of daemon)) = (map_option (\<lambda>r. (co_job_id r, result_of r)) out, completion_abs c')" by auto
  have g: "cc_generation c' = 1" using win pop by (auto simp: rtnc_completion_pop_def Let_def split: if_splits)
  have wf1: "daemon_wf two (set_completion (Some c') daemon)"
    using wf c'(1) g by (simp add: daemon_wf_def set_completion_def)
  have f1: "flow_of two (set_completion (Some c') daemon) = (flow_of two daemon) \<lparr> jf_window := completion_abs c' \<rparr>"
    by (simp add: flow_of_def set_completion_def window_of_def)
  show ?thesis
  proof (cases out)
    case None
    with c'(2) have "completion_abs c' = completion_abs (window_of daemon)" by (auto simp: spec_pop_def split: option.splits)
    with f1 have "flow_of two (set_completion (Some c') daemon) = flow_of two daemon" by (simp add: flow_of_def)
    with None d win pop wf1 show ?thesis by (auto simp: deliver_next_def set_completion_def)
  next
    case (Some completion)
    from c'(2) Some have "spec_pop (jf_window (flow_of two daemon)) =
        (Some (co_job_id completion, result_of completion), completion_abs c')" by (simp add: flow_of_def)
    from flow_step.deliver [OF this] f1 have st: "flow_step (flow_of two daemon) (flow_of two (set_completion (Some c') daemon))"
      by simp
    have d': "popped" "daemon' = deliver_completion H options completion (set_completion (Some c') daemon)"
      using Some d win pop by (auto simp: deliver_next_def)
    note same = deliver_completion_same_jobs [where daemon = "set_completion (Some c') daemon" and H = H and
        options = options and completion = completion]
    from same_jobs_flow [OF same, of two] same st wf1 d' show ?thesis
      by (simp add: same_jobs_def) (simp add: set_completion_def)
  qed
qed

lemma daemon_refines_step:
  assumes "daemon_wf two daemon" and "do_packet_mode options"
    and "daemon_event_step L F H options two event daemon = Some daemon'"
  shows "daemon_wf two daemon' \<and>
    (flow_of two daemon' = flow_of two daemon \<or> flow_step (flow_of two daemon) (flow_of two daemon'))"
proof (cases event)
  case (Captured samples)
  then have "same_jobs daemon daemon'" using assms(3) by (auto simp: same_jobs_def)
  from same_jobs_flow [OF this, of two] assms(1) show ?thesis by simp
next
  case Serve
  then show ?thesis using assms(1,3) same_jobs_flow [OF serve_same_jobs [of daemon H], of two] by auto
next
  case (Sample pcm)
  then show ?thesis using assms(3) process_sample_flow [OF assms(1,2)] by auto
next
  case Deliver
  then show ?thesis using assms(1,3) deliver_next_flow [of two daemon H options] by (cases "deliver_next H options daemon") (auto split: if_splits)
next
  case (Take_job second)
  then show ?thesis using assms(3) take_job_flow [OF assms(1), of H second] by auto
next
  case (Finish_job second)
  then show ?thesis using assms(3) finish_job_flow [OF assms(1)] by auto
next
  case Transmit
  then have "same_jobs daemon daemon'" using assms(3) by (auto dest: transmit_same_jobs)
  from same_jobs_flow [OF this, of two] assms(1) show ?thesis by simp
qed

section \<open>Runs\<close>

lemma flow_step_sequence: "flow_step f f' \<Longrightarrow> jf_sequence f' = jf_sequence f \<or> jf_sequence f' = jf_sequence f + 1"
  by (induction rule: flow_step.induct) simp_all

lemma flow_step_capacity: "flow_step f f' \<Longrightarrow> sp_capacity (jf_window f') = sp_capacity (jf_window f)"
  by (induction rule: flow_step.induct) (auto dest: spec_submit_cases(2) spec_pop_cases(2))

lemma flow_of_sel [simp]:
  "jf_sequence (flow_of two daemon) = dm_sequence daemon"
  "jf_window (flow_of two daemon) = completion_abs (window_of daemon)"
  by (simp_all add: flow_of_def)

lemma next_job_flow: "next_job (flow_of two daemon) = cc_next_job_id (window_of daemon)"
  by (simp add: next_job_def)

lemma event_keeps_flow:
  assumes "daemon_wf two daemon" "flow_ok (flow_of two daemon)" "do_packet_mode options" "dm_sequence daemon \<noteq> - 1"
    and "daemon_event_step L F H options two event daemon = Some daemon'"
  shows "daemon_wf two daemon' \<and> flow_ok (flow_of two daemon') \<and>
    cc_capacity (window_of daemon') = cc_capacity (window_of daemon) \<and>
    (dm_sequence daemon' = dm_sequence daemon \<or> dm_sequence daemon' = dm_sequence daemon + 1) \<and>
    (\<forall>j. lost (flow_of two daemon) j \<longrightarrow> lost (flow_of two daemon') j)"
proof -
  from daemon_refines_step [OF assms(1,3,5)] have wf: "daemon_wf two daemon'"
    and f: "flow_of two daemon' = flow_of two daemon \<or> flow_step (flow_of two daemon) (flow_of two daemon')" by auto
  from f show ?thesis
  proof
    assume e: "flow_of two daemon' = flow_of two daemon"
    have "dm_sequence daemon' = dm_sequence daemon" using arg_cong [OF e, of jf_sequence] by simp
    moreover have "cc_capacity (window_of daemon') = cc_capacity (window_of daemon)"
      using arg_cong [OF e, of "\<lambda>f. sp_capacity (jf_window f)"] by simp
    ultimately show ?thesis using e wf assms(2) by simp
  next
    assume st: "flow_step (flow_of two daemon) (flow_of two daemon')"
    with flow_step_ok [OF st assms(2)] lost_stays [OF st assms(2)] flow_step_sequence [OF st] flow_step_capacity [OF st]
      assms(4) wf show ?thesis by simp
  qed
qed

lemma not_max: "unat (j :: u64) + k < 2 ^ 64 \<Longrightarrow> 0 < k \<Longrightarrow> j \<noteq> - 1"
  by (auto simp: unsigned_minus_1_eq_mask mask_eq_exp_minus_1)

lemma run_refines:
  assumes "daemon_run L F H options two events daemon = Some daemon'" and "do_packet_mode options"
    and "daemon_wf two daemon"
  shows "daemon_wf two daemon' \<and> flow_step\<^sup>*\<^sup>* (flow_of two daemon) (flow_of two daemon')"
  using assms
proof (induction events arbitrary: daemon)
  case (Cons event events)
  from Cons.prems(1) obtain d1 where d1: "daemon_event_step L F H options two event daemon = Some d1"
      "daemon_run L F H options two events d1 = Some daemon'" by (auto simp: bind_eq_Some_conv)
  note e = daemon_refines_step [OF Cons.prems(3,2) d1(1)]
  from e Cons.IH [OF d1(2) Cons.prems(2)] show ?case by (metis converse_rtranclp_into_rtranclp)
qed simp

lemma run_sequence:
  assumes "daemon_run L F H options two events daemon = Some daemon'" "do_packet_mode options"
    and "daemon_wf two daemon" "flow_ok (flow_of two daemon)" "unat (dm_sequence daemon) + length events < 2 ^ 64"
  shows "dm_sequence daemon \<le> dm_sequence daemon' \<and> unat (dm_sequence daemon') \<le> unat (dm_sequence daemon) + length events"
  using assms
proof (induction events arbitrary: daemon)
  case (Cons event events)
  from Cons.prems(1) obtain d1 where d1: "daemon_event_step L F H options two event daemon = Some d1"
      "daemon_run L F H options two events d1 = Some daemon'" by (auto simp: bind_eq_Some_conv)
  have seq: "dm_sequence daemon \<noteq> - 1" using not_max [OF Cons.prems(5)] by simp
  note e = event_keeps_flow [OF Cons.prems(3,4,2) seq d1(1)]
  have "unat (dm_sequence d1) + length events < 2 ^ 64" using e Cons.prems(5) unat_next [OF seq] by auto
  with Cons.IH [OF d1(2) Cons.prems(2)] e unat_next [OF seq] show ?case by (auto simp: word_le_nat_alt)
qed simp

lemma run_keeps_flow:
  assumes "daemon_run L F H options two events daemon = Some daemon'" "do_packet_mode options"
    and "daemon_wf two daemon" "flow_ok (flow_of two daemon)" "unat (dm_sequence daemon) + length events < 2 ^ 64"
  shows "daemon_wf two daemon' \<and> flow_ok (flow_of two daemon') \<and>
    cc_capacity (window_of daemon') = cc_capacity (window_of daemon) \<and>
    (\<forall>j. lost (flow_of two daemon) j \<longrightarrow> lost (flow_of two daemon') j)"
  using assms
proof (induction events arbitrary: daemon)
  case (Cons event events)
  from Cons.prems(1) obtain d1 where d1: "daemon_event_step L F H options two event daemon = Some d1"
      "daemon_run L F H options two events d1 = Some daemon'" by (auto simp: bind_eq_Some_conv)
  have seq: "dm_sequence daemon \<noteq> - 1" using not_max [OF Cons.prems(5)] by simp
  note e = event_keeps_flow [OF Cons.prems(3,4,2) seq d1(1)]
  have "unat (dm_sequence d1) + length events < 2 ^ 64" using e Cons.prems(5) unat_next [OF seq] by auto
  from Cons.IH [OF d1(2) Cons.prems(2) _ _ this] e show ?case by auto
qed auto

section \<open>Overload\<close>

definition worker_full :: "bool \<Rightarrow> ('d, 'w) daemon \<Rightarrow> bool" where
  \<comment> \<open>the queue that the next candidate would go to has no room\<close>
  "worker_full two daemon \<longleftrightarrow>
    (let queue = de_queue (worker_of (for_second_worker two (dm_sequence daemon)) daemon)
     in length (decode_items queue) = dq_capacity queue)"

lemma push_full:
  assumes wf: "daemon_wf two daemon" and full: "worker_full two daemon"
    and push: "push_candidate H two candidate daemon = (ok, daemon')"
  shows "\<not> ok"
proof -
  let ?d = "worker_of (for_second_worker two (dm_sequence daemon)) daemon"
  have q: "decode_queue_wf (de_queue ?d)"
    using wf by (auto simp: worker_of_def daemon_wf_def worker_ok_def for_second_worker_def split: if_splits)
  from push obtain time q' where "rtnc_decode_queue_push time (de_queue ?d) candidate (dm_sequence daemon) = (ok, q')"
    by (auto simp: push_candidate_def worker_of_def Let_def split: prod.splits if_splits)
  with q full decode_push_full [OF q, of "(time, candidate, dm_sequence daemon)"]
    decode_push_unfit [of "(time, candidate, dm_sequence daemon)" "de_queue ?d"]
  show ?thesis by (cases "decode_fits (time, candidate, dm_sequence daemon)") (auto simp: worker_full_def Let_def)
qed

lemma route_full:
  assumes wf: "daemon_wf two daemon" and packet: "do_packet_mode options"
    and drop: "worker_full two daemon \<or> \<not> receive_enabled options daemon"
  shows "\<exists>ok s. spec_submit (completion_abs (window_of daemon)) (dm_sequence daemon) 1 (False, []) = (ok, s) \<and>
    flow_of two (route_candidate H options two candidate daemon) =
      (flow_of two daemon) \<lparr> jf_window := s, jf_sequence := jf_sequence (flow_of two daemon) + 1 \<rparr>"
proof -
  define d1 where "d1 = (case do_capture_prefix options of None \<Rightarrow> daemon
    | Some name_prefix \<Rightarrow> set_world (save_candidate_wav H name_prefix (dm_sequence daemon) candidate (dm_world daemon)) daemon)"
  define pushed where "pushed = (if receive_enabled options d1 then push_candidate H two candidate d1 else (False, d1))"
  have d1: "same_jobs daemon d1" "receive_enabled options d1 = receive_enabled options daemon"
    by (auto simp: d1_def same_jobs_def receive_enabled_def split: option.splits)
  from same_jobs_flow [OF d1(1), of two] wf have wf1: "daemon_wf two d1" and f1: "flow_of two d1 = flow_of two daemon" by auto
  have full1: "worker_full two d1 = worker_full two daemon"
    using d1(1) by (simp add: worker_full_def same_jobs_def worker_of_def)
  obtain ok d2 where d2: "pushed = (ok, d2)" by fastforce
  have no: "\<not> ok" using d2 drop push_full [OF wf1, of H candidate ok d2] d1(2) full1
    by (auto simp: pushed_def split: if_splits)
  have 2: "dm_shared d2 = dm_shared daemon" "dm_sequence d2 = dm_sequence daemon" "flow_of two d2 = flow_of two daemon"
  proof -
    have s: "dm_shared d1 = dm_shared daemon" "dm_sequence d1 = dm_sequence daemon" using d1 by (auto simp: same_jobs_def)
    have "dm_shared d2 = dm_shared daemon \<and> dm_sequence d2 = dm_sequence daemon \<and>
        jf_pending (flow_of two d2) = jf_pending (flow_of two daemon)"
      using push_candidate_flow [OF wf1, of H candidate ok d2] d2 s f1 no
      by (auto simp: pushed_def Let_def split: if_splits)
    then show "dm_shared d2 = dm_shared daemon" "dm_sequence d2 = dm_sequence daemon" "flow_of two d2 = flow_of two daemon"
      by (simp_all add: flow_of_def window_of_def)
  qed
  note w = daemon_wf_window [OF wf]
  let ?c' = "snd (rtnc_completion_submit (window_of daemon) (dm_sequence daemon) 1 False [])"
  obtain sub where sub: "spec_submit (completion_abs (window_of daemon)) (dm_sequence daemon) 1 (False, []) = (sub, completion_abs ?c')"
    using submit_flow [of "window_of daemon" "dm_sequence daemon" False "[]"] w by auto
  have fc: "fail_candidate d2 = set_completion (Some ?c') d2" using w 2 by (simp add: fail_candidate_def)
  have "route_candidate H options two candidate daemon = (fail_candidate d2) \<lparr> dm_sequence := dm_sequence (fail_candidate d2) + 1 \<rparr>"
    using packet d2 no by (simp add: route_candidate_def d1_def [symmetric] pushed_def [symmetric] Let_def)
  then have "flow_of two (route_candidate H options two candidate daemon) =
      (flow_of two d2) \<lparr> jf_window := completion_abs ?c', jf_sequence := dm_sequence daemon + 1 \<rparr>"
    using fc 2(2) by (simp add: flow_of_def set_completion_def window_of_def)
  with 2(3) sub show ?thesis by auto
qed

text \<open>Examples: one job in the worker's hands, and nothing or one more in its queue.\<close>

lemma example_daemon_flow:
  assumes "decode_queue_wf queue"
  shows "daemon_wf False (example_daemon queue next (cold_daemon w))"
    "flow_of False (example_daemon queue next (cold_daemon w)) =
      \<lparr> jf_pending = (\<lambda>k. if k = 0 then 0 # map dj_sequence (decode_items queue) else []),
        jf_window = \<lparr>sp_next = 0, sp_capacity = 2, sp_generation = 1, sp_waiting = Map.empty\<rparr>, jf_sequence = next \<rparr>"
proof -
  have g: "cc_generation example_window = 1" using arg_cong [OF example_window(2), of sp_generation] by simp
  with assms example_window(1) show "daemon_wf False (example_daemon queue next (cold_daemon w))"
    by (simp add: daemon_wf_def example_daemon_def worker_ok_def worker_unused_def cold_daemon_def zero_decoder_def)
  show "flow_of False (example_daemon queue next (cold_daemon w)) =
      \<lparr> jf_pending = (\<lambda>k. if k = 0 then 0 # map dj_sequence (decode_items queue) else []),
        jf_window = \<lparr>sp_next = 0, sp_capacity = 2, sp_generation = 1, sp_waiting = Map.empty\<rparr>, jf_sequence = next \<rparr>"
    using example_window(2) by (simp add: flow_of_def window_of_def example_daemon_def pending_of_def jobs_of_def fun_eq_iff)
qed

lemma example_flow_ok:
  assumes "decode_queue_wf queue" "decode_items queue = []"
  shows "flow_ok (flow_of False (example_daemon queue 1 (cold_daemon w)))"
    "\<nexists>j. lost (flow_of False (example_daemon queue 1 (cold_daemon w))) j"
    "backlog (flow_of False (example_daemon queue 1 (cold_daemon w))) = 1"
proof -
  have "0 = j" if "j < (1 :: u64)" for j using that less_next [of 0 j] by simp
  then show "flow_ok (flow_of False (example_daemon queue 1 (cold_daemon w)))"
    "\<nexists>j. lost (flow_of False (example_daemon queue 1 (cold_daemon w))) j"
    "backlog (flow_of False (example_daemon queue 1 (cold_daemon w))) = 1"
    using assms(2) unfolding example_daemon_flow(2) [OF assms(1)]
    by (auto simp: flow_ok_def lost_def open_job_def next_job_def pending_jobs_def backlog_def)
qed

definition full_queue :: rtnc_decode_queue where
  "full_queue = snd (rtnc_decode_queue_push None example_queue [0] 1)"

lemma full_queue: "decode_queue_wf full_queue" "map dj_sequence (decode_items full_queue) = [1]" "dq_capacity full_queue = 1"
proof -
  have "decode_fits (None, [0], 1)" by (simp add: decode_fits_def)
  from decode_push_room [OF example_queue(1) this] example_queue(2,3)
  show "decode_queue_wf full_queue" "map dj_sequence (decode_items full_queue) = [1]"
    by (auto simp: full_queue_def stored_job_def)
  show "dq_capacity full_queue = 1" using example_queue(3) by (simp add: full_queue_def decode_config)
qed

lemma full_queue_length: "length (decode_items full_queue) = 1"
  using arg_cong [OF full_queue(2), of length] by simp

lemma full_flow_ok:
  shows "flow_ok (flow_of False (example_daemon full_queue 2 (cold_daemon w)))"
    "backlog (flow_of False (example_daemon full_queue 2 (cold_daemon w))) = 2"
  using full_queue unfolding example_daemon_flow(2) [OF full_queue(1)]
  by (auto simp: flow_ok_def open_job_def next_job_def pending_jobs_def backlog_def)

lemma finish_exists:
  assumes "run_modem L (worker_of second daemon) \<noteq> None"
  shows "finish_job L H second daemon \<noteq> None"
  using assms by (auto simp: finish_job_def decoder_finish_def Let_def split: prod.splits option.splits)

definition what_to_decode :: "'d decoder_context \<Rightarrow> 'd rtnc_modem \<times> rtnc_decode_job \<times> bool \<times> rtnc_modem_workspace" where
  "what_to_decode decoder = (de_modem decoder, de_job decoder, de_fast_only decoder, de_workspace decoder)"

lemma push_keeps_job:
  "push_candidate H two candidate daemon = (ok, daemon') \<Longrightarrow>
   what_to_decode (dm_decoder daemon') = what_to_decode (dm_decoder daemon)"
  by (auto simp: push_candidate_def what_to_decode_def Let_def split: prod.splits if_splits)

lemma fail_keeps_job: "dm_decoder (fail_candidate daemon) = dm_decoder daemon"
  by (simp add: fail_candidate_def set_completion_def split: option.splits)

lemma route_keeps_job:
  "what_to_decode (dm_decoder (route_candidate H options two candidate daemon)) = what_to_decode (dm_decoder daemon)"
  unfolding route_candidate_def Let_def
  by (simp add: fail_keeps_job split: option.splits prod.splits if_splits)
    (auto dest: push_keeps_job)

text \<open>
  C17: overload ends reception for good.  In packet mode, let a candidate arrive whose worker's queue is full,
  or that arrives while the runtime transmits, while at least as many candidates as the completion window
  holds wait for an older one to be decided.  The result of that candidate is refused, and whatever the
  threads do afterwards, however many candidates they decode, the daemon never delivers a result beyond it:
  the window waits forever for a number that nobody will submit again.
\<close>

theorem daemon_overload_stalls:
  assumes "daemon_wf two daemon" and "flow_ok (flow_of two daemon)" and "do_packet_mode options"
    and "worker_full two daemon \<or> \<not> receive_enabled options daemon"
    and "cc_capacity (window_of daemon) \<le> backlog (flow_of two daemon)"
    and "daemon_run L F H options two events (route_candidate H options two candidate daemon) = Some daemon'"
    and "unat (dm_sequence daemon) + 1 + length events < 2 ^ 64"
  shows "cc_next_job_id (window_of daemon') \<le> dm_sequence daemon"
proof -
  let ?r = "route_candidate H options two candidate daemon"
  have seq: "dm_sequence daemon \<noteq> - 1" using not_max [of "dm_sequence daemon" "1 + length events"] assms(7) by simp
  from route_full [OF assms(1,3,4), of H candidate] obtain ok s where
    s: "spec_submit (jf_window (flow_of two daemon)) (jf_sequence (flow_of two daemon)) 1 (False, []) = (ok, s)"
      "flow_of two ?r = (flow_of two daemon) \<lparr> jf_window := s, jf_sequence := jf_sequence (flow_of two daemon) + 1 \<rparr>" by auto
  from fail_outside [OF assms(2) _ _ s(1)] seq assms(5) have lost: "lost (flow_of two ?r) (dm_sequence daemon)"
    unfolding s(2) by simp
  note r = route_candidate_flow [OF assms(1,3), of H candidate]
  have ok: "flow_ok (flow_of two ?r)" using flow_step_ok [OF _ assms(2)] r seq by simp
  have "unat (dm_sequence ?r) + length events < 2 ^ 64" using r unat_next [OF seq] assms(7) by simp
  from run_keeps_flow [OF assms(6,3) _ ok this] r lost have "lost (flow_of two daemon') (dm_sequence daemon)" by blast
  then show ?thesis by (simp add: lost_def open_job_def next_job_def)
qed

theorem daemon_overload_stalls_witness:
  "let daemon = example_daemon full_queue 2 (cold_daemon ()) in
   \<exists>daemon'. daemon_run example_liquid example_power_filter example_host example_options False
       [Finish_job False, Deliver, Take_job False] (route_candidate example_host example_options False [0] daemon) = Some daemon' \<and>
     cc_next_job_id (window_of daemon') \<le> 2"
proof -
  let ?d = "example_daemon full_queue 2 (cold_daemon ()) :: (unit, unit) daemon"
  let ?r = "route_candidate example_host example_options False [0] ?d"
  have "run_modem example_liquid (dm_decoder ?r) \<noteq> None"
    using example_rx [of "dm_decoder ?r"] route_keeps_job [of example_host example_options False "[0]" ?d]
    by (auto simp: what_to_decode_def example_daemon_def cold_daemon_def zero_decoder_def zero_workspace_def)
  then obtain d1 where "finish_job example_liquid example_host False ?r = Some d1"
    using finish_exists [of example_liquid False ?r example_host] by (auto simp: worker_of_def)
  then obtain d' where d': "daemon_run example_liquid example_power_filter example_host example_options False
      [Finish_job False, Deliver, Take_job False] ?r = Some d'" by simp
  have full: "worker_full False ?d"
    using full_queue(3) full_queue_length by (simp add: worker_full_def worker_of_def for_second_worker_def example_daemon_def)
  have "cc_capacity (window_of ?d) = 2" "dm_sequence ?d = 2"
    using arg_cong [OF example_window(2), of sp_capacity] by (simp_all add: window_of_def example_daemon_def)
  moreover have "backlog (flow_of False ?d) = 2" by (rule full_flow_ok)
  moreover have "do_packet_mode example_options" by (simp add: example_options_def)
  ultimately show ?thesis
    using daemon_overload_stalls [OF example_daemon_flow(1) [OF full_queue(1)] full_flow_ok(1) _ _ _ d'] full d'
    by (simp add: Let_def)
qed

text \<open>
  The order of events decides whether the window keeps up: the number of candidates seen and not delivered
  never exceeds the capacity of the window.
\<close>

fun keeps_up ::
    "'d liquid \<Rightarrow> 'd power_filter \<Rightarrow> 'w host \<Rightarrow> daemon_options \<Rightarrow> bool \<Rightarrow> daemon_event list \<Rightarrow> ('d, 'w) daemon \<Rightarrow> bool" where
  "keeps_up L F H options two [] daemon \<longleftrightarrow> backlog (flow_of two daemon) \<le> cc_capacity (window_of daemon)"
| "keeps_up L F H options two (event # events) daemon \<longleftrightarrow>
    backlog (flow_of two daemon) \<le> cc_capacity (window_of daemon) \<and>
    (case daemon_event_step L F H options two event daemon of
       None \<Rightarrow> False | Some daemon \<Rightarrow> keeps_up L F H options two events daemon)"

lemma keeps_up_start: "keeps_up L F H options two events daemon \<Longrightarrow> backlog (flow_of two daemon) \<le> cc_capacity (window_of daemon)"
  by (cases events) simp_all

lemma run_loses_nothing:
  assumes "daemon_run L F H options two events daemon = Some daemon'" "do_packet_mode options"
    and "daemon_wf two daemon" "flow_ok (flow_of two daemon)" "unat (dm_sequence daemon) + length events < 2 ^ 64"
    and "keeps_up L F H options two events daemon" "\<nexists>j. lost (flow_of two daemon) j"
  shows "\<nexists>j. lost (flow_of two daemon') j"
  using assms
proof (induction events arbitrary: daemon)
  case (Cons event events)
  from Cons.prems(1) obtain d1 where d1: "daemon_event_step L F H options two event daemon = Some d1"
      "daemon_run L F H options two events d1 = Some daemon'" by (auto simp: bind_eq_Some_conv)
  have seq: "dm_sequence daemon \<noteq> - 1" using not_max [OF Cons.prems(5)] by simp
  note e = event_keeps_flow [OF Cons.prems(3,4,2) seq d1(1)]
  have up: "keeps_up L F H options two events d1" "backlog (flow_of two daemon) \<le> cc_capacity (window_of daemon)"
    using Cons.prems(6) d1(1) by auto
  have "\<nexists>j. lost (flow_of two d1) j"
  proof (cases "flow_of two d1 = flow_of two daemon")
    case False
    with daemon_refines_step [OF Cons.prems(3,2) d1(1)] have "flow_step (flow_of two daemon) (flow_of two d1)" by simp
    from none_lost_step [OF this Cons.prems(4)] seq up keeps_up_start [OF up(1)] e Cons.prems(7) show ?thesis by simp
  qed (use Cons.prems(7) in simp)
  moreover have "unat (dm_sequence d1) + length events < 2 ^ 64" using e Cons.prems(5) unat_next [OF seq] by auto
  ultimately show ?case using Cons.IH [OF d1(2) Cons.prems(2) _ _ _ up(1)] e by blast
qed simp

lemma finish_first:
  assumes "daemon_wf False daemon" "de_in_hand (dm_decoder daemon) \<noteq> None" "run_modem L (dm_decoder daemon) = Some out"
  shows "\<exists>daemon'. finish_job L H False daemon = Some daemon' \<and> dm_runtime daemon' = dm_runtime daemon \<and>
    dm_sequence daemon' = dm_sequence daemon \<and>
    jobs_of (dm_decoder daemon) = dj_sequence (de_job (dm_decoder daemon)) # jobs_of (dm_decoder daemon') \<and>
    sh_completion (dm_shared daemon') = Some (snd (rtnc_completion_submit (window_of daemon)
      (dj_sequence (de_job (dm_decoder daemon))) 1 (ro_status out = RTNC_MODEM_OK) (decoded_payload out)))"
proof -
  let ?d = "dm_decoder daemon"
  obtain daemon' where f: "finish_job L H False daemon = Some daemon'"
    using finish_exists [of L False daemon H] assms(3) by (auto simp: worker_of_def)
  then obtain continue decoder shared w where
    fin: "decoder_finish L H ?d (dm_shared daemon) (dm_world daemon) = Some (continue, decoder, shared, w)" and
    d': "daemon' = set_world w (set_worker False decoder (daemon \<lparr> dm_shared := shared \<rparr>))"
    using assms(2) by (auto simp: finish_job_def worker_of_def)
  from assms(1) daemon_wf_window [OF assms(1)] decoder_finish_flow [OF _ assms(2) _ _ fin] d' f assms(3)
  show ?thesis by (auto simp: daemon_wf_def set_worker_def)
qed

lemma daemon_example_run:
  \<comment> \<open>the candidate is decided, as no frame, and delivered\<close>
  fixes daemon :: "(unit, unit) daemon"
  defines "daemon \<equiv> example_daemon example_queue 1 (cold_daemon ())"
  shows "\<exists>daemon1 daemon2. finish_job example_liquid example_host False daemon = Some daemon1 \<and>
    deliver_next example_host example_options daemon1 = (True, daemon2) \<and>
    jobs_of (dm_decoder daemon2) = [] \<and> dm_sequence daemon1 = 1 \<and> dm_sequence daemon2 = 1 \<and>
    cc_next_job_id (window_of daemon1) = 0 \<and> cc_capacity (window_of daemon1) = 2 \<and>
    cc_next_job_id (window_of daemon2) = 1 \<and> \<not> fst (deliver_next example_host example_options daemon2)"
proof -
  let ?d = "dm_decoder daemon"
  have wf: "daemon_wf False daemon" and ch: "de_in_hand ?d \<noteq> None" "de_job ?d = \<lparr> dj_samples = [0], dj_sequence = 0, dj_enqueued_monotonic_ns = 0 \<rparr>"
    "dm_runtime daemon = None" "window_of daemon = example_window" "dm_sequence daemon = 1" "jobs_of ?d = [0]"
    using example_daemon_flow(1) [OF example_queue(1)] example_queue(2)
    by (simp_all add: daemon_def example_daemon_def cold_daemon_def window_of_def jobs_of_def)
  obtain out where out: "run_modem example_liquid ?d = Some out" "ro_status out = RTNC_MODEM_NO_FRAME"
    using example_rx [of ?d] by (auto simp: daemon_def example_daemon_def cold_daemon_def zero_decoder_def zero_workspace_def)
  then have "decoded_payload out = []" by (simp add: decoded_payload_def)
  then have args: "(ro_status out = RTNC_MODEM_OK) = False" "decoded_payload out = []" using out(2) by simp_all
  from finish_first [OF wf ch(1) out(1), of example_host] obtain d1 where
    d1: "finish_job example_liquid example_host False daemon = Some d1" "dm_runtime d1 = None" "dm_sequence d1 = 1"
      "jobs_of (dm_decoder d1) = []"
      "sh_completion (dm_shared d1) = Some (snd (rtnc_completion_submit example_window 0 1 False []))"
    unfolding args ch(2-) by auto
  define c where "c = snd (rtnc_completion_submit example_window 0 1 False [])"
  have g: "cc_generation example_window = 1" using arg_cong [OF example_window(2), of sp_generation] by simp
  from submit_flow [OF example_window(1) g, of 0 False "[]"] have
    c: "completion_wf c" "completion_abs c = \<lparr>sp_next = 0, sp_capacity = 2, sp_generation = 1, sp_waiting = [0 \<mapsto> (False, [])]\<rparr>"
    unfolding example_window(2) by (auto simp: c_def spec_submit_def completion_arguments_ok_def)
  obtain x c2 where pop: "rtnc_completion_pop c = (x, c2)" by fastforce
  from pop_refines [OF c(1) pop] c(2) have
    c2: "completion_wf c2" "x \<noteq> None" "completion_abs c2 = \<lparr>sp_next = 1, sp_capacity = 2, sp_generation = 1, sp_waiting = Map.empty\<rparr>"
    by (cases x; auto simp: spec_pop_def)+
  define d2 where "d2 = set_completion (Some c2) d1"
  have deliver: "deliver_next example_host example_options d1 = (True, d2)"
    using d1(2,5) pop c2(2) by (auto simp: deliver_next_def c_def [symmetric] d2_def deliver_completion_def set_completion_def split: option.splits)
  obtain y c3 where pop2: "rtnc_completion_pop c2 = (y, c3)" by fastforce
  from pop_refines [OF c2(1) pop2] c2(3) have "y = None" by (auto simp: spec_pop_def)
  with pop2 have "\<not> fst (deliver_next example_host example_options d2)"
    by (simp add: deliver_next_def d2_def set_completion_def)
  with d1 deliver arg_cong [OF c(2), of sp_next] arg_cong [OF c(2), of sp_capacity] arg_cong [OF c2(3), of sp_next]
  show ?thesis by (simp add: window_of_def c_def [symmetric] d2_def set_completion_def)
qed

text \<open>
  C18: a daemon that keeps up delivers every candidate.  In packet mode, if the backlog never exceeds the
  completion window along a run in which no result was lost before, then once both workers are idle with
  empty queues and the next result is not there, every candidate ever seen has been delivered.
\<close>

theorem daemon_delivers_all:
  assumes "daemon_wf two daemon" and "flow_ok (flow_of two daemon)" and "\<nexists>j. lost (flow_of two daemon) j"
    and "do_packet_mode options" and "unat (dm_sequence daemon) + length events < 2 ^ 64"
    and "daemon_run L F H options two events daemon = Some daemon'" and "keeps_up L F H options two events daemon"
    and "jobs_of (dm_decoder daemon') = []" and "two \<longrightarrow> jobs_of (dm_equalizer_decoder daemon') = []"
    and "\<not> fst (deliver_next H options daemon')"
  shows "cc_next_job_id (window_of daemon') = dm_sequence daemon'"
proof -
  note r = run_keeps_flow [OF assms(6,4,1,2,5)]
  from run_loses_nothing [OF assms(6,4,1,2,5,7,3)] have none: "\<nexists>j. lost (flow_of two daemon') j" .
  have "pending_jobs (flow_of two daemon') = []"
    using assms(8,9) by (auto simp: pending_jobs_def flow_of_def pending_of_def)
  moreover have "sp_waiting (jf_window (flow_of two daemon')) (next_job (flow_of two daemon')) = None"
  proof -
    have "sh_completion (dm_shared daemon') = Some (window_of daemon')" using daemon_wf_window r by blast
    with assms(10) have "fst (rtnc_completion_pop (window_of daemon')) = None"
      by (auto simp: deliver_next_def split: option.splits prod.splits)
    then obtain c where "rtnc_completion_pop (window_of daemon') = (None, c)" by (cases "rtnc_completion_pop (window_of daemon')") auto
    from pop_refines [OF _ this] r daemon_wf_window have "fst (spec_pop (completion_abs (window_of daemon'))) = None" by fastforce
    then show ?thesis by (auto simp: spec_pop_def next_job_def split: option.splits)
  qed
  ultimately have "next_job (flow_of two daemon') = jf_sequence (flow_of two daemon')"
    using all_delivered [OF _ none] r by blast
  then show ?thesis by (simp add: next_job_def)
qed

theorem daemon_delivers_all_witness:
  "let daemon = example_daemon example_queue 1 (cold_daemon ()) in
   \<exists>daemon'. daemon_run example_liquid example_power_filter example_host example_options False
       [Finish_job False, Deliver] daemon = Some daemon' \<and>
     cc_next_job_id (window_of daemon') = dm_sequence daemon'"
proof -
  let ?d = "example_daemon example_queue 1 (cold_daemon ()) :: (unit, unit) daemon"
  from daemon_example_run obtain d1 d2 where r: "finish_job example_liquid example_host False ?d = Some d1"
    "deliver_next example_host example_options d1 = (True, d2)" "jobs_of (dm_decoder d2) = []" "dm_sequence d1 = 1"
    "dm_sequence d2 = 1" "cc_next_job_id (window_of d1) = 0" "cc_capacity (window_of d1) = 2"
    "cc_next_job_id (window_of d2) = 1" "\<not> fst (deliver_next example_host example_options d2)" by blast
  have run: "daemon_run example_liquid example_power_filter example_host example_options False
      [Finish_job False, Deliver] ?d = Some d2" using r(1,2) by simp
  have "cc_capacity (window_of ?d) = 2" "dm_sequence ?d = 1"
    using arg_cong [OF example_window(2), of sp_capacity] by (simp_all add: window_of_def example_daemon_def)
  moreover have "backlog (flow_of False ?d) = 1" by (rule example_flow_ok [OF example_queue(1,2)])
  moreover have "unat (dm_sequence ?d) + length [Finish_job False, Deliver] < 2 ^ 64" by (simp add: example_daemon_def)
  moreover have "do_packet_mode example_options" by (simp add: example_options_def)
  ultimately have "keeps_up example_liquid example_power_filter example_host example_options False [Finish_job False, Deliver] ?d"
      "unat (dm_sequence ?d) + length [Finish_job False, Deliver] < 2 ^ 64" "do_packet_mode example_options"
    using r by (simp_all add: backlog_def next_job_flow)
  with daemon_delivers_all [OF example_daemon_flow(1) [OF example_queue(1)] example_flow_ok(1,2) [OF example_queue(1,2)] _ _ run]
  show ?thesis using r(3,9) run by (simp add: Let_def)
qed

text \<open>
  C16: the daemon implements the abstract job flow.  Whatever the threads do in packet mode and in whatever
  order, a run of the daemon from a state in which its queues and its window are intact is a run of the
  abstract machine, in which candidates get consecutive numbers, go to one of two workers or fail at once,
  are decided in the order of their worker's queue, and are taken from the window in the order of their
  numbers; and the queues and the window stay intact.
\<close>

theorem daemon_refines_flow:
  assumes "daemon_run L F H options two events daemon = Some daemon'" and "do_packet_mode options"
    and "daemon_wf two daemon"
  shows "daemon_wf two daemon' \<and> flow_step\<^sup>*\<^sup>* (flow_of two daemon) (flow_of two daemon')"
  using assms by (rule run_refines)

theorem daemon_refines_flow_witness:
  "let daemon = example_daemon example_queue 1 (cold_daemon ()) in
   \<exists>daemon'. daemon_run example_liquid example_power_filter example_host example_options False
       [Finish_job False, Deliver] daemon = Some daemon' \<and> dm_sequence daemon' = 1 \<and>
     flow_step\<^sup>*\<^sup>* (flow_of False daemon) (flow_of False daemon')"
proof -
  let ?d = "example_daemon example_queue 1 (cold_daemon ()) :: (unit, unit) daemon"
  from daemon_example_run obtain d2 where d2: "daemon_run example_liquid example_power_filter example_host example_options False
      [Finish_job False, Deliver] ?d = Some d2" "dm_sequence d2 = 1" by fastforce
  with daemon_refines_flow [OF d2(1) _ example_daemon_flow(1) [OF example_queue(1)]]
  show ?thesis by (simp add: Let_def example_options_def)
qed

end
