(* ===== verification/DaemonPass.thy ===== *)
theory DaemonPass
  imports DaemonFlow
begin

text \<open>
  The main thread of the receive daemon as a whole: a pass of its loop is a sequence of the events of
  \<open>DaemonLoop\<close>, it ends, and it leaves no result in the window that could be delivered.
\<close>

lemma process_block_run:
  "process_block L F H options two block daemon = daemon_run L F H options two (map Sample block) daemon"
proof (induction block arbitrary: daemon)
  case (Cons pcm block)
  have "process_block L F H options two block = daemon_run L F H options two (map Sample block)"
    by (rule ext) (rule Cons.IH)
  then show ?case by simp
qed simp

lemma deliver_next_waiting:
  assumes "daemon_wf two daemon" "deliver_next H options daemon = (popped, daemon')"
  shows "popped \<longleftrightarrow> sp_waiting (jf_window (flow_of two daemon)) (next_job (flow_of two daemon)) \<noteq> None"
proof -
  note win = daemon_wf_window [OF assms(1)]
  obtain out c' where pop: "rtnc_completion_pop (window_of daemon) = (out, c')" by fastforce
  from pop_refines [OF _ pop] win have
    "spec_pop (completion_abs (window_of daemon)) = (map_option (\<lambda>r. (co_job_id r, result_of r)) out, completion_abs c')" by auto
  then have "out = None \<longleftrightarrow> sp_waiting (jf_window (flow_of two daemon)) (next_job (flow_of two daemon)) = None"
    by (cases out) (auto simp: spec_pop_def next_job_def split: option.splits)
  with assms(2) win pop show ?thesis by (auto simp: deliver_next_def split: option.splits)
qed

lemma delivered_next:
  assumes "daemon_wf two daemon" "deliver_next H options daemon = (True, daemon')"
  shows "next_job (flow_of two daemon') = next_job (flow_of two daemon) + 1"
proof -
  obtain completion c' where pop: "rtnc_completion_pop (window_of daemon) = (Some completion, c')"
    and d': "daemon' = deliver_completion H options completion (set_completion (Some c') daemon)"
    using assms daemon_wf_window [OF assms(1)] by (auto simp: deliver_next_def split: option.splits prod.splits)
  have "cc_next_job_id c' = cc_next_job_id (window_of daemon) + 1"
    using pop by (auto simp: rtnc_completion_pop_def Let_def split: if_splits)
  moreover have "window_of daemon' = c'"
    using deliver_completion_same_jobs [of "set_completion (Some c') daemon" H options completion] d'
    by (simp add: window_of_def same_jobs_def set_completion_def)
  ultimately show ?thesis by (simp add: next_job_flow)
qed

lemma deliver_all_returns:
  assumes "daemon_wf two daemon" "flow_ok (flow_of two daemon)" "dm_sequence daemon \<noteq> - 1"
  shows "\<exists>daemon'. deliver_all H options daemon = Some daemon' \<and> daemon_wf two daemon' \<and> flow_ok (flow_of two daemon') \<and>
    flow_step\<^sup>*\<^sup>* (flow_of two daemon) (flow_of two daemon') \<and> dm_sequence daemon' = dm_sequence daemon \<and>
    sp_waiting (jf_window (flow_of two daemon')) (next_job (flow_of two daemon')) = None"
  using assms
proof (induction "backlog (flow_of two daemon)" arbitrary: daemon rule: less_induct)
  case less
  obtain popped d1 where d1: "deliver_next H options daemon = (popped, d1)" by fastforce
  note f = deliver_next_flow [OF less.prems(1) d1]
  show ?case
  proof (cases popped)
    case False
    with f have same: "flow_of two d1 = flow_of two daemon" by simp
    have "sp_waiting (jf_window (flow_of two d1)) (next_job (flow_of two d1)) = None"
      unfolding same using deliver_next_waiting [OF less.prems(1) d1] False by blast
    moreover have "deliver_all H options daemon = Some d1" using d1 False by (subst deliver_all.simps) simp
    moreover have "flow_ok (flow_of two d1)" unfolding same by (rule less.prems(2))
    moreover have "daemon_wf two d1" "dm_sequence d1 = dm_sequence daemon" using f by simp_all
    ultimately show ?thesis by (intro exI [of _ d1]) (simp add: same)
  next
    case True
    with f have st: "flow_step (flow_of two daemon) (flow_of two d1)" by simp
    have ok: "flow_ok (flow_of two d1)" using flow_step_ok [OF st less.prems(2)] less.prems(3) by simp
    have w: "sp_waiting (jf_window (flow_of two daemon)) (next_job (flow_of two daemon)) \<noteq> None"
      using deliver_next_waiting [OF less.prems(1) d1] True by simp
    then have open': "next_job (flow_of two daemon) < dm_sequence daemon"
      using less.prems(2) by (auto simp: flow_ok_def open_job_def)
    have "next_job (flow_of two d1) = next_job (flow_of two daemon) + 1"
      using delivered_next [OF less.prems(1) d1 [unfolded eqTrueI [OF True]]] by simp
    with open' f have "backlog (flow_of two d1) < backlog (flow_of two daemon)"
      using unat_next [OF less_not_max [OF open']] by (simp add: backlog_def word_less_nat_alt)
    from less.hyps [OF this _ ok] f less.prems(3) obtain d2 where d2: "deliver_all H options d1 = Some d2" "daemon_wf two d2"
      "flow_ok (flow_of two d2)" "flow_step\<^sup>*\<^sup>* (flow_of two d1) (flow_of two d2)" "dm_sequence d2 = dm_sequence d1"
      "sp_waiting (jf_window (flow_of two d2)) (next_job (flow_of two d2)) = None" by auto
    have "deliver_all H options daemon = Some d2" using d1 True d2(1) by (subst deliver_all.simps) simp
    with d2 st f show ?thesis by (auto intro: converse_rtranclp_into_rtranclp)
  qed
qed

text \<open>
  C19: a pass of the main loop ends, and delivers all it can.  In packet mode, from a state with intact queues
  and window, once the samples of the block are processed the loop over the completions ends; the queues and
  the window are intact again, the pass was a run of the abstract job flow, and the number of the next candidate
  has not gone back.  The window then holds no result for the job that is next in line.  Either there is no such job (every
  candidate so far has been delivered), or it is still in a queue or in a worker's hands, or its result was
  refused when it was submitted and will never come (the permanent stall after an overload).
\<close>

theorem daemon_pass_ends:
  assumes "daemon_wf two daemon" and "flow_ok (flow_of two daemon)" and "do_packet_mode options"
    and "rtnc_audio_ring_pop (dm_audio_ring (if do_service_mode options then serve_client H daemon else daemon)) = (Some block, ring)"
    and "process_block L F H options two (take (ab_count block) (ab_samples block))
       ((if do_service_mode options then serve_client H daemon else daemon) \<lparr> dm_audio_ring := ring \<rparr>) = Some daemon1"
    and "unat (dm_sequence daemon) + ab_count block + 1 < 2 ^ 64"
  shows "\<exists>daemon'. daemon_pass L F H options two daemon = Some daemon' \<and> daemon_wf two daemon' \<and> flow_ok (flow_of two daemon') \<and>
    flow_step\<^sup>*\<^sup>* (flow_of two daemon) (flow_of two daemon') \<and> dm_sequence daemon \<le> dm_sequence daemon' \<and>
    (let next = cc_next_job_id (window_of daemon')
     in waiting (window_of daemon') next = None \<and>
        (next = dm_sequence daemon' \<or> next \<in> set (pending_jobs (flow_of two daemon')) \<or> lost (flow_of two daemon') next))"
proof -
  let ?s = "if do_service_mode options then serve_client H daemon else daemon"
  let ?d = "?s \<lparr> dm_audio_ring := ring \<rparr>" and ?block = "take (ab_count block) (ab_samples block)"
  have "same_jobs daemon ?s" using serve_same_jobs [of daemon H] by simp
  then have "same_jobs daemon ?d" by (simp add: same_jobs_def)
  note same = same_jobs_flow [OF this, of two] this
  from same assms(1,2) have d: "daemon_wf two ?d" "flow_ok (flow_of two ?d)" "dm_sequence ?d = dm_sequence daemon"
    "flow_of two ?d = flow_of two daemon" by (simp_all add: same_jobs_def)
  have run: "daemon_run L F H options two (map Sample ?block) ?d = Some daemon1"
    using assms(5) by (simp only: process_block_run)
  have len: "length (map Sample ?block) \<le> ab_count block" by simp
  have room: "unat (dm_sequence ?d) + length (map Sample ?block) < 2 ^ 64"
    unfolding d(3) using len assms(6) by linarith
  note k = run_keeps_flow [OF run assms(3) d(1,2) room]
  from run_sequence [OF run assms(3) d(1,2) room] have seq: "dm_sequence ?d \<le> dm_sequence daemon1"
    "unat (dm_sequence daemon1) \<le> unat (dm_sequence ?d) + length (map Sample ?block)" by auto
  have "dm_sequence daemon1 \<noteq> - 1"
    using not_max [of "dm_sequence daemon1" 1] seq(2) [unfolded d(3)] assms(6) len by linarith
  from deliver_all_returns [OF conjunct1 [OF k] _ this, of H options] k obtain daemon' where
    d': "deliver_all H options daemon1 = Some daemon'" "daemon_wf two daemon'" "flow_ok (flow_of two daemon')"
      "flow_step\<^sup>*\<^sup>* (flow_of two daemon1) (flow_of two daemon')" "dm_sequence daemon' = dm_sequence daemon1"
      "sp_waiting (jf_window (flow_of two daemon')) (next_job (flow_of two daemon')) = None" by blast
  have "flow_step\<^sup>*\<^sup>* (flow_of two daemon) (flow_of two daemon1)"
    using run_refines [OF run assms(3) d(1)] d(4) by simp
  then have "flow_step\<^sup>*\<^sup>* (flow_of two daemon) (flow_of two daemon')" using d'(4) by (rule rtranclp_trans)
  moreover have "daemon_pass L F H options two daemon = Some daemon'"
    using assms(3-5) d'(1) by (simp add: daemon_pass_def)
  moreover have "next_job (flow_of two daemon') = jf_sequence (flow_of two daemon') \<or>
      next_job (flow_of two daemon') \<in> set (pending_jobs (flow_of two daemon')) \<or>
      lost (flow_of two daemon') (next_job (flow_of two daemon'))"
    using d'(3,6) by (auto simp: lost_def open_job_def flow_ok_def)
  ultimately show ?thesis using d' seq(1) d(3) by (simp add: next_job_flow Let_def)
qed

definition listening_daemon :: "(unit, unit) daemon" where
  \<comment> \<open>one block of one sample waits in the ring, and the front end is there\<close>
  "listening_daemon = example_daemon example_queue 1 ((cold_daemon ())
     \<lparr> dm_power_filter := Some (), dm_power_carrier := (mo_carrier zero_modem) \<lparr> ca_rx_nco := Some () \<rparr>,
       dm_audio_ring := \<lparr> ar_blocks = replicate 2 \<lparr> ab_samples = [5], ab_count = 1 \<rparr>, ar_capacity = 1, ar_slot_count = 2,
         ar_producer = 1, ar_consumer = 0, ar_maximum_depth = 1, ar_dropped_blocks = 0 \<rparr> \<rparr>)"

lemma sample_exists:
  assumes "\<And>acquisition. channel_power L F (sample_value pcm) (daemon \<lparr> dm_acquisition_detector := acquisition \<rparr>) \<noteq> None"
  shows "process_sample L F H options two pcm daemon \<noteq> None"
proof -
  obtain trigger acquisition score where a: "rtnc_acquisition_detector_process L (dm_acquisition_detector daemon)
      (sample_value pcm) 0 = (trigger, acquisition, score)" by (metis prod_cases3)
  moreover obtain strength d1 where "channel_power L F (sample_value pcm) (daemon \<lparr> dm_acquisition_detector := acquisition \<rparr>) = Some (strength, d1)"
    using assms [of acquisition] by auto
  ultimately show ?thesis by (simp add: process_sample_def Let_def split: prod.splits)
qed

theorem daemon_pass_ends_witness:
  "\<exists>daemon'. daemon_pass example_liquid example_power_filter example_host example_options False listening_daemon = Some daemon' \<and>
     flow_step\<^sup>*\<^sup>* (flow_of False listening_daemon) (flow_of False daemon') \<and>
     waiting (window_of daemon') (cc_next_job_id (window_of daemon')) = None"
proof -
  let ?d = "listening_daemon" and ?cold = "example_daemon example_queue 1 (cold_daemon ()) :: (unit, unit) daemon"
  have "same_jobs ?cold ?d" by (simp add: same_jobs_def listening_daemon_def example_daemon_def)
  note same = same_jobs_flow [OF this, of False]
  have wf: "daemon_wf False ?d" using same example_daemon_flow(1) [OF example_queue(1)] by simp
  have ok: "flow_ok (flow_of False ?d)" using same example_flow_ok(1) [OF example_queue(1,2)] by simp
  define ring where "ring = snd (rtnc_audio_ring_pop (dm_audio_ring ?d))"
  have pop: "rtnc_audio_ring_pop (dm_audio_ring ?d) = (Some \<lparr> ab_samples = [5], ab_count = 1 \<rparr>, ring)"
    by (simp add: ring_def rtnc_audio_ring_pop_def listening_daemon_def example_daemon_def Let_def)
  have "process_sample example_liquid example_power_filter example_host example_options False 5 (?d \<lparr> dm_audio_ring := ring \<rparr>) \<noteq> None"
    by (rule sample_exists)
      (simp add: channel_power_def listening_daemon_def example_daemon_def rtnc_carrier_downconvert_def example_liquid_def
        example_power_filter_def Let_def)
  then obtain d1 where d1: "process_block example_liquid example_power_filter example_host example_options False [5]
      (?d \<lparr> dm_audio_ring := ring \<rparr>) = Some d1" by auto
  have "dm_sequence ?d = 1" by (simp add: listening_daemon_def example_daemon_def)
  moreover have "do_packet_mode example_options" "\<not> do_service_mode example_options" by (simp_all add: example_options_def)
  ultimately show ?thesis
    using daemon_pass_ends [OF wf ok, of example_options example_host "\<lparr> ab_samples = [5], ab_count = 1 \<rparr>" ring example_liquid
        example_power_filter d1] pop d1 by (auto simp: Let_def)
qed

end
