(* ===== verification/DaemonStart.thy ===== *)
theory DaemonStart
  imports DaemonFlow
begin

text \<open>
  The beginning and the end of the receive daemon: a daemon that started in packet mode is in the state the
  properties of \<open>DaemonFlow\<close> start from, and wherever the start failed, or whatever the threads did after
  it, shutdown releases every object of the DSP library, the sound card and the PTT line.
\<close>

section \<open>Who owns what\<close>

definition runtime_owned ::
    "'w alsa_context rtnc_runtime_backend \<Rightarrow> bool \<Rightarrow> ('d, 'w alsa_context) rtnc_runtime option \<Rightarrow> bool" where
  "runtime_owned B initialized runtime' \<longleftrightarrow>
    (case runtime' of None \<Rightarrow> \<not> initialized
     | Some runtime \<Rightarrow> initialized \<and> runtime_wf runtime \<and> rt_backend runtime = B)"

definition owned_by_flags :: "'w alsa_context rtnc_runtime_backend \<Rightarrow> ('d, 'w) daemon \<Rightarrow> bool" where
  \<comment> \<open>the flags tell what there is to release\<close>
  "owned_by_flags B daemon \<longleftrightarrow>
    (\<not> dm_modem_initialized daemon \<longrightarrow> modem_empty (de_modem (dm_decoder daemon))) \<and>
    (\<not> dm_equalizer_modem_initialized daemon \<longrightarrow>
       modem_empty (de_modem (dm_equalizer_decoder daemon)) \<and> worker_unused (dm_equalizer_decoder daemon)) \<and>
    runtime_owned B (dm_runtime_initialized daemon) (dm_runtime daemon)"

definition released :: "('d, 'w) daemon \<Rightarrow> bool" where
  "released daemon \<longleftrightarrow>
    modem_empty (de_modem (dm_decoder daemon)) \<and> modem_empty (de_modem (dm_equalizer_decoder daemon)) \<and>
    (\<forall>runtime \<in> set_option (dm_runtime daemon). modem_empty (rt_tx_modem runtime)) \<and>
    dm_power_filter daemon = None \<and> ca_tx_nco (dm_power_carrier daemon) = None \<and>
    ca_rx_nco (dm_power_carrier daemon) = None \<and>
    rrc_matched_filter (ad_rrc (dm_acquisition_detector daemon)) = None \<and>
    rrc_interpolator (ad_rrc (dm_acquisition_detector daemon)) = None \<and>
    ca_tx_nco (ad_carrier (dm_acquisition_detector daemon)) = None \<and>
    ca_rx_nco (ad_carrier (dm_acquisition_detector daemon)) = None \<and>
    ax_audio (dm_context daemon) = None \<and> pt_chip (ax_ptt (dm_context daemon)) = None \<and>
    pt_line (ax_ptt (dm_context daemon)) = None \<and> \<not> pt_state (ax_ptt (dm_context daemon)) \<and>
    \<not> de_running (dm_decoder daemon) \<and> \<not> de_running (dm_equalizer_decoder daemon)"

lemma close_sockets_sel:
  "dm_decoder (close_sockets H daemon) = dm_decoder daemon"
  "dm_equalizer_decoder (close_sockets H daemon) = dm_equalizer_decoder daemon"
  "dm_runtime (close_sockets H daemon) = dm_runtime daemon"
  "dm_runtime_initialized (close_sockets H daemon) = dm_runtime_initialized daemon"
  "dm_modem_initialized (close_sockets H daemon) = dm_modem_initialized daemon"
  "dm_equalizer_modem_initialized (close_sockets H daemon) = dm_equalizer_modem_initialized daemon"
  by (simp_all add: close_sockets_def set_world_def)

lemma stop_threads_sel:
  "dm_decoder (stop_threads A daemon) = (dm_decoder daemon) \<lparr> de_running := False \<rparr>"
  "dm_equalizer_decoder (stop_threads A daemon) = (dm_equalizer_decoder daemon) \<lparr> de_running := False \<rparr>"
  "dm_runtime (stop_threads A daemon) = dm_runtime daemon"
  "dm_runtime_initialized (stop_threads A daemon) = dm_runtime_initialized daemon"
  "dm_modem_initialized (stop_threads A daemon) = dm_modem_initialized daemon"
  "dm_equalizer_modem_initialized (stop_threads A daemon) = dm_equalizer_modem_initialized daemon"
  by (simp_all add: stop_threads_def Let_def split: prod.splits)

lemma alsa_set_ptt: "rb_set_ptt (rtnc_alsa_runtime_backend A G P) on s \<noteq> None"
  by (simp add: rtnc_alsa_runtime_backend_def backend_set_ptt_def split: prod.splits)

lemma release_runtime:
  assumes "rt_backend runtime = rtnc_alsa_runtime_backend A G P" "runtime_wf runtime"
  shows "\<exists>runtime' s'. rtnc_runtime_deinit runtime s = Some (runtime', s') \<and> modem_empty (rt_tx_modem runtime')"
  using assms alsa_set_ptt [of A G P False s]
  by (auto simp: rtnc_runtime_deinit_def set_state_def modem_empty_deinit runtime_wf_def split: option.splits)

lemma release_devices_ok:
  assumes "owned_by_flags (rtnc_alsa_runtime_backend A G P) daemon"
  shows "\<exists>daemon'. release_devices A G daemon = Some daemon' \<and> dm_decoder daemon' = dm_decoder daemon \<and>
    dm_equalizer_decoder daemon' = dm_equalizer_decoder daemon \<and>
    dm_modem_initialized daemon' = dm_modem_initialized daemon \<and>
    dm_equalizer_modem_initialized daemon' = dm_equalizer_modem_initialized daemon \<and>
    (\<forall>runtime \<in> set_option (dm_runtime daemon'). modem_empty (rt_tx_modem runtime)) \<and>
    ax_audio (dm_context daemon') = None \<and> pt_chip (ax_ptt (dm_context daemon')) = None \<and>
    pt_line (ax_ptt (dm_context daemon')) = None \<and> \<not> pt_state (ax_ptt (dm_context daemon'))"
proof -
  have audio: "fst (rtnc_audio_deinit A audio w) = None" for audio w
    by (simp add: rtnc_audio_deinit_def split: prod.splits option.splits)
  have ptt: "pt_chip (fst (rtnc_ptt_deinit G ptt w)) = None \<and> pt_line (fst (rtnc_ptt_deinit G ptt w)) = None \<and>
      \<not> pt_state (fst (rtnc_ptt_deinit G ptt w))" for ptt w
    by (simp add: rtnc_ptt_deinit_def Let_def split: prod.splits)
  show ?thesis
  proof (cases "dm_runtime daemon")
    case None
    with assms have "\<not> dm_runtime_initialized daemon" by (simp add: owned_by_flags_def runtime_owned_def)
    with None audio ptt show ?thesis by (simp add: release_devices_def Let_def split: prod.splits) (metis fst_conv)
  next
    case (Some runtime)
    with assms have "dm_runtime_initialized daemon" "runtime_wf runtime" "rt_backend runtime = rtnc_alsa_runtime_backend A G P"
      by (simp_all add: owned_by_flags_def runtime_owned_def)
    with release_runtime [of runtime A G P "dm_context daemon"] obtain runtime' context' where
      "rtnc_runtime_deinit runtime (dm_context daemon) = Some (runtime', context')" "modem_empty (rt_tx_modem runtime')" by blast
    with Some \<open>dm_runtime_initialized daemon\<close> audio ptt show ?thesis
      by (simp add: release_devices_def Let_def split: prod.splits) (metis fst_conv)
  qed
qed

lemma finish_releases:
  assumes "owned_by_flags (rtnc_alsa_runtime_backend A G P) daemon"
  shows "\<exists>daemon'. finish_daemon A G H daemon = Some daemon' \<and> released daemon'"
proof -
  let ?d = "close_sockets H (stop_threads A daemon)"
  have "owned_by_flags (rtnc_alsa_runtime_backend A G P) ?d"
    using assms by (simp add: owned_by_flags_def close_sockets_sel stop_threads_sel worker_unused_def)
  from release_devices_ok [OF this] assms obtain daemon' where
    d': "release_devices A G ?d = Some daemon'" "dm_decoder daemon' = (dm_decoder daemon) \<lparr> de_running := False \<rparr>"
      "dm_equalizer_decoder daemon' = (dm_equalizer_decoder daemon) \<lparr> de_running := False \<rparr>"
      "dm_modem_initialized daemon' = dm_modem_initialized daemon"
      "dm_equalizer_modem_initialized daemon' = dm_equalizer_modem_initialized daemon"
      "\<forall>runtime \<in> set_option (dm_runtime daemon'). modem_empty (rt_tx_modem runtime)"
      "ax_audio (dm_context daemon') = None" "pt_chip (ax_ptt (dm_context daemon')) = None"
      "pt_line (ax_ptt (dm_context daemon')) = None" "\<not> pt_state (ax_ptt (dm_context daemon'))"
    by (auto simp: close_sockets_sel stop_threads_sel)
  with assms show ?thesis
    by (auto simp: finish_daemon_def released_def release_filters_def owned_by_flags_def modem_empty_deinit
        rtnc_acquisition_detector_deinit_def rtnc_rrc_deinit_def rtnc_carrier_deinit_def)
qed

section \<open>Start-up owns what it says\<close>

lemma proceed_rule:
  assumes "J (snd result)" "\<And>daemon. J daemon \<Longrightarrow> I daemon" "\<And>daemon. J daemon \<Longrightarrow> I (snd (rest daemon))"
  shows "I (snd (proceed result rest))"
  using assms by (simp add: proceed_def)

lemma proceed_same:
  assumes "I (snd result)" "\<And>daemon. I daemon \<Longrightarrow> I (snd (rest daemon))"
  shows "I (snd (proceed result rest))"
  using assms by (simp add: proceed_def)

definition unowned :: "'w alsa_context rtnc_runtime_backend \<Rightarrow> ('d, 'w) daemon \<Rightarrow> bool" where
  \<comment> \<open>as long as there is no runtime and no work\<close>
  "unowned B daemon \<longleftrightarrow> owned_by_flags B daemon \<and> dm_runtime daemon = None \<and> worker_unused (dm_equalizer_decoder daemon)"

lemma set_world_more [simp]:
  "dm_modem_initialized (set_world w daemon) = dm_modem_initialized daemon"
  "dm_equalizer_modem_initialized (set_world w daemon) = dm_equalizer_modem_initialized daemon"
  "dm_runtime_initialized (set_world w daemon) = dm_runtime_initialized daemon"
  "dm_kiss_parser (set_world w daemon) = dm_kiss_parser daemon"
  by (simp_all add: set_world_def)

lemma owned_set_world [simp]: "owned_by_flags B (set_world w daemon) = owned_by_flags B daemon"
  by (simp add: owned_by_flags_def)

lemma modem_empty_zero: "modem_empty zero_modem"
  by (simp add: zero_modem_def modem_empty_def blank_modem_def)

lemma init_profile_empty:
  assumes "rtnc_modem_init_profile L modem fec_mode cls profile = (ok, modem')" "modem_empty modem"
  shows "\<not> ok \<longrightarrow> modem_empty modem'"
  using modem_init_all_or_nothing [where L = L and ?m0.0 = modem and fec_mode = fec_mode and cls = cls and profile = profile
      and preamble = RTNC_PREAMBLE_DATA] assms
  by (auto simp: rtnc_modem_init_profile_def split: if_splits)

lemma unowned_cold: "unowned B (prepare_decoders options (cold_daemon w))"
  by (simp add: unowned_def owned_by_flags_def prepare_decoders_def cold_daemon_def zero_decoder_def worker_unused_def
      modem_empty_zero runtime_owned_def)

lemma unowned_detector: "unowned B daemon \<Longrightarrow> unowned B (snd (start_detector config daemon))"
  by (auto simp: start_detector_def unowned_def owned_by_flags_def Let_def split: option.splits)

lemma unowned_queues: "unowned B daemon \<Longrightarrow> unowned B (snd (start_queues workers daemon))"
  by (auto simp: start_queues_def unowned_def owned_by_flags_def worker_unused_def rtnc_decode_queue_init_def Let_def
      split: option.splits if_splits)

lemma unowned_modems:
  assumes "unowned B daemon" "\<not> dm_modem_initialized daemon" "\<not> dm_equalizer_modem_initialized daemon"
  shows "unowned B (snd (start_modems L config entry profile daemon))"
proof -
  let ?init = "rtnc_modem_init_profile L (de_modem (dm_decoder daemon)) (fec_mode_of (pf_fec_mode entry)) (pf_payload_class_bytes entry) profile"
  let ?init2 = "rtnc_modem_init_profile L (de_modem (dm_equalizer_decoder daemon)) (fec_mode_of (pf_fec_mode entry))
    (pf_payload_class_bytes entry) profile"
  obtain ok m ok2 m2 where i: "?init = (ok, m)" "?init2 = (ok2, m2)" by fastforce
  have "\<not> ok \<longrightarrow> modem_empty m" "\<not> ok2 \<longrightarrow> modem_empty m2"
    using init_profile_empty [OF i(1)] init_profile_empty [OF i(2)] assms by (auto simp: unowned_def owned_by_flags_def)
  with assms i show ?thesis
    by (auto simp: start_modems_def unowned_def owned_by_flags_def worker_unused_def Let_def)
qed

definition no_modems :: "('d, 'w) daemon \<Rightarrow> bool" where
  "no_modems daemon \<longleftrightarrow> \<not> dm_modem_initialized daemon \<and> \<not> dm_equalizer_modem_initialized daemon"

lemma no_modems_stages:
  "no_modems (prepare_decoders options (cold_daemon w))"
  "no_modems daemon \<Longrightarrow> no_modems (snd (start_detector config daemon))"
  "no_modems daemon \<Longrightarrow> no_modems (snd (start_queues workers daemon))"
  by (auto simp: no_modems_def prepare_decoders_def cold_daemon_def start_detector_def start_queues_def Let_def split: option.splits)

lemma unowned_completion: "unowned B daemon \<Longrightarrow> unowned B (snd (start_completion options workers profile daemon))"
  by (auto simp: start_completion_def unowned_def owned_by_flags_def worker_unused_def Let_def split: option.splits)

lemma unowned_window: "unowned B daemon \<Longrightarrow> unowned B (snd (start_window daemon))"
  by (auto simp: start_window_def unowned_def owned_by_flags_def Let_def split: option.splits)

lemma unowned_frontend: "unowned B daemon \<Longrightarrow> unowned B (snd (start_frontend L F config entry profile daemon))"
  by (auto simp: start_frontend_def unowned_def owned_by_flags_def Let_def split: prod.splits)

lemma owned_audio:
  assumes "unowned (rtnc_alsa_runtime_backend A G P) daemon"
  shows "owned_by_flags (rtnc_alsa_runtime_backend A G P) (snd (start_audio L A G P options config entry profile reassembly daemon))"
proof -
  have rt: "runtime_owned (rtnc_alsa_runtime_backend A G P) True (Some runtime)"
    if "rtnc_runtime_init L zero_modem reassembly profile fec cls mtu timeout tx rx busy guard config' (rtnc_alsa_runtime_backend A G P) = Some runtime"
    for runtime fec cls mtu timeout tx rx busy guard config'
    using init_wf [OF that] by (simp add: runtime_owned_def)
  from assms have d: "dm_runtime daemon = None" "\<not> dm_runtime_initialized daemon" "owned_by_flags (rtnc_alsa_runtime_backend A G P) daemon"
    by (auto simp: unowned_def owned_by_flags_def runtime_owned_def)
  then show ?thesis
    unfolding start_audio_def start_packet_runtime_def proceed_def Let_def
    by (auto simp: owned_by_flags_def rt runtime_owned_def split: prod.splits option.splits dest!: init_wf)
qed

lemma owned_service: "owned_by_flags B daemon \<Longrightarrow> owned_by_flags B (snd (start_service H options port daemon))"
  by (auto simp: start_service_def owned_by_flags_def Let_def split: prod.splits)

lemma owned_threads: "owned_by_flags B daemon \<Longrightarrow> owned_by_flags B (snd (start_threads A H two daemon))"
  by (auto simp: start_threads_def owned_by_flags_def Let_def split: prod.splits)

lemma start_owned:
  fixes L :: "'d liquid" and w :: 'w
  shows "owned_by_flags (rtnc_alsa_runtime_backend A G P) (snd (start_daemon L F A G P H reassembly loaded options w))"
proof -
  let ?B = "rtnc_alsa_runtime_backend A G P"
  have u: "unowned ?B daemon \<Longrightarrow> owned_by_flags ?B daemon" for daemon :: "('d, 'w) daemon" by (simp add: unowned_def)
  have late: "owned_by_flags ?B (snd (proceed (start_completion options workers profile daemon) (\<lambda>daemon.
      proceed (start_window daemon) (\<lambda>daemon.
      proceed (start_frontend L F config entry profile daemon) (\<lambda>daemon.
      proceed (start_audio L A G P options config entry profile reassembly daemon) (\<lambda>daemon.
      proceed (start_service H options port daemon) (\<lambda>daemon. start_threads A H two daemon)))))))"
    if "unowned ?B daemon" for options workers profile config entry port two and daemon :: "('d, 'w) daemon"
  proof -
    have service: "owned_by_flags ?B (snd (proceed (start_service H options port daemon) (\<lambda>daemon. start_threads A H two daemon)))"
      if "owned_by_flags ?B daemon" for daemon :: "('d, 'w) daemon"
      by (rule proceed_same [where I = "owned_by_flags ?B", OF owned_service [OF that] owned_threads])
    note audio = proceed_same [where I = "owned_by_flags ?B", OF owned_audio service]
    note frontend = proceed_rule [where J = "unowned ?B" and I = "owned_by_flags ?B", OF unowned_frontend u audio]
    note window = proceed_rule [where J = "unowned ?B" and I = "owned_by_flags ?B", OF unowned_window u frontend]
    show ?thesis by (rule proceed_rule [where J = "unowned ?B" and I = "owned_by_flags ?B", OF unowned_completion [OF that] u window])
  qed
  have profile: "owned_by_flags ?B (snd (case rtnc_platform_profile_config_named config name of
         None \<Rightarrow> (False, daemon)
       | Some entry \<Rightarrow> (case rtnc_platform_phy_profile_named config (pf_name entry) of
           None \<Rightarrow> (False, daemon)
         | Some profile \<Rightarrow> proceed (start_modems L config entry profile daemon) (\<lambda>daemon.
             proceed (start_completion options (pc_workers config) profile daemon) (\<lambda>daemon.
             proceed (start_window daemon) (\<lambda>daemon.
             proceed (start_frontend L F config entry profile daemon) (\<lambda>daemon.
             proceed (start_audio L A G P options config entry profile reassembly daemon) (\<lambda>daemon.
             proceed (start_service H options port daemon) (\<lambda>daemon. start_threads A H two daemon)))))))))"
    if J: "unowned ?B daemon \<and> no_modems daemon" for config name options port two and daemon :: "('d, 'w) daemon"
  proof -
    have "unowned ?B (snd (start_modems L config entry profile daemon))" for entry profile
      by (rule unowned_modems) (use J in \<open>simp_all add: no_modems_def\<close>)
    note proceed_rule [where J = "unowned ?B" and I = "owned_by_flags ?B", OF this u late]
    with u J show ?thesis by (auto split: option.splits)
  qed
  let ?J = "\<lambda>daemon :: ('d, 'w) daemon. unowned ?B daemon \<and> no_modems daemon"
  have cold: "?J (prepare_decoders options (cold_daemon w))" by (simp add: unowned_cold no_modems_stages)
  show ?thesis
  proof (cases "rtnc_platform_config_load loaded")
    case (Some config)
    have detector: "?J (snd (start_detector config (prepare_decoders options (cold_daemon w))))"
      using cold by (simp add: unowned_detector no_modems_stages)
    have queues: "?J daemon \<Longrightarrow> ?J (snd (start_queues (pc_workers config) daemon))" for daemon
      by (simp add: unowned_queues no_modems_stages)
    have J: "?J daemon \<Longrightarrow> owned_by_flags ?B daemon" for daemon by (simp add: u)
    show ?thesis unfolding start_daemon_def Let_def Some option.case
      by (rule proceed_rule [where J = ?J and I = "owned_by_flags ?B", OF detector J])
        (assumption, rule proceed_rule [where J = ?J and I = "owned_by_flags ?B", OF queues J profile], assumption+)
  qed (use cold u in \<open>simp add: start_daemon_def\<close>)
qed

section \<open>The threads keep it that way\<close>

definition working :: "'w alsa_context rtnc_runtime_backend \<Rightarrow> bool \<Rightarrow> ('d, 'w) daemon \<Rightarrow> bool" where
  "working B two daemon \<longleftrightarrow> owned_by_flags B daemon \<and> dm_modem_initialized daemon \<and>
     (two \<longrightarrow> dm_equalizer_modem_initialized daemon)"

lemma kiss_received_wf:
  "runtime_wf runtime \<Longrightarrow> runtime_wf (kiss_frame_received frame runtime) \<and>
     rt_backend (kiss_frame_received frame runtime) = rt_backend runtime"
  using submit_wf [OF _ prod.collapse [symmetric], of runtime "kf_data frame"]
    configure_wf [OF _ prod.collapse [symmetric], of runtime "kf_command frame" "kf_data frame ! 0"]
  by (simp add: kiss_frame_received_def)

lemma kiss_input_wf:
  "kiss_input bytes parser runtime = (parser', runtime') \<Longrightarrow> runtime_wf runtime \<Longrightarrow>
   runtime_wf runtime' \<and> rt_backend runtime' = rt_backend runtime"
proof (induction bytes arbitrary: parser runtime)
  case (Cons byte bytes)
  from Cons.prems kiss_received_wf [OF Cons.prems(2)] show ?case
    by (auto split: prod.splits option.splits dest!: Cons.IH)
qed simp

lemma working_update [simp]:
  "working B two (set_world w daemon) = working B two daemon"
  "working B two (daemon \<lparr> dm_sequence := sequence \<rparr>) = working B two daemon"
  "working B two (daemon \<lparr> dm_completed_packets := packets \<rparr>) = working B two daemon"
  "working B two (daemon \<lparr> dm_kiss_parser := parser \<rparr>) = working B two daemon"
  "working B two (daemon \<lparr> dm_detector := detector \<rparr>) = working B two daemon"
  "working B two (daemon \<lparr> dm_audio_ring := ring \<rparr>) = working B two daemon"
  "working B two (daemon \<lparr> dm_shared := shared \<rparr>) = working B two daemon"
  "working B two (daemon \<lparr> dm_context := state \<rparr>) = working B two daemon"
  "working B two (observe_channel daemon) = working B two daemon"
  by (simp_all add: working_def owned_by_flags_def observe_channel_def Let_def)

lemma working_client:
  "working B two (accept_client H daemon) = working B two daemon"
  "working B two (close_client H daemon) = working B two daemon"
  by (simp_all add: accept_client_def close_client_def working_def owned_by_flags_def Let_def split: prod.splits)

lemma working_serve:
  assumes "working B two daemon" shows "working B two (serve_client H daemon)"
proof -
  let ?d = "accept_client H daemon"
  have w: "working B two ?d" using assms by (simp add: working_client)
  have "working B two (set_world w ?d \<lparr> dm_kiss_parser := parser, dm_runtime := Some runtime' \<rparr>)"
    if "kiss_input bytes (dm_kiss_parser ?d) runtime = (parser, runtime')" "dm_runtime ?d = Some runtime" for w parser runtime' bytes runtime
    using w that(2) kiss_input_wf [OF that(1)] by (simp add: working_def owned_by_flags_def runtime_owned_def)
  with w show ?thesis
    by (auto simp: serve_client_def working_client Let_def simp del: kiss_input.simps split: prod.splits option.splits list.splits)
qed

lemma working_push:
  "push_candidate H two candidate daemon = (ok, daemon') \<Longrightarrow> working B two daemon \<Longrightarrow> working B two daemon'"
  by (auto simp: push_candidate_def working_def owned_by_flags_def for_second_worker_def Let_def split: prod.splits if_splits)

lemma working_fail: "working B two (fail_candidate daemon) = working B two daemon"
  by (simp add: fail_candidate_def set_completion_def working_def owned_by_flags_def split: option.splits)

lemma working_route:
  assumes "working B two daemon" shows "working B two (route_candidate H options two candidate daemon)"
  using assms unfolding route_candidate_def Let_def
  by (auto simp: working_fail split: option.splits prod.splits dest!: working_push)

lemma working_sample:
  assumes step: "process_sample L F H options two pcm daemon = Some daemon'" and w: "working B two daemon"
  shows "working B two daemon'"
proof -
  obtain trigger acquisition score where a: "rtnc_acquisition_detector_process L (dm_acquisition_detector daemon)
      (sample_value pcm) 0 = (trigger, acquisition, score)" by (metis prod_cases3)
  from step a obtain strength d1 candidate detector where
    d1: "channel_power L F (sample_value pcm) (daemon \<lparr> dm_acquisition_detector := acquisition \<rparr>) = Some (strength, d1)" and
    b: "rtnc_burst_detector_process_triggered (dm_detector d1) strength (sample_value pcm) trigger = (candidate, detector)" and
    d': "daemon' = observe_channel (case candidate of None \<Rightarrow> d1 \<lparr> dm_detector := detector \<rparr>
           | Some samples \<Rightarrow> route_candidate H options two samples (d1 \<lparr> dm_detector := detector \<rparr>))"
    by (auto simp: process_sample_def Let_def split: option.splits prod.splits)
  have "working B two (d1 \<lparr> dm_detector := detector \<rparr>)" using d1 w
    by (auto simp: channel_power_def working_def owned_by_flags_def Let_def split: prod.splits option.splits)
  then show ?thesis using d' by (auto simp: working_route split: option.splits)
qed

lemma working_send: "working B two (send_packet H packet daemon) = working B two daemon"
  by (simp add: send_packet_def working_client Let_def split: prod.splits option.splits)

lemma working_runtime:
  assumes "working B two daemon" "dm_runtime daemon = Some runtime" "runtime_wf runtime'" "rt_backend runtime' = rt_backend runtime"
  shows "working B two (daemon \<lparr> dm_runtime := Some runtime' \<rparr>)"
  using assms by (simp add: working_def owned_by_flags_def runtime_owned_def)

lemma working_deliver:
  assumes "working B two daemon" shows "working B two (deliver_completion H options completion daemon)"
proof (cases "dm_runtime daemon")
  case (Some runtime)
  obtain now w where c: "monotonic_ms H (dm_world daemon) = (now, w)" by fastforce
  obtain status rt1 where a: "rtnc_runtime_accept_fragment runtime
      (take (co_payload_length completion) (co_payload completion)) now = (status, rt1)" by fastforce
  obtain result rt2 where r: "rtnc_runtime_receive_packet rt1 RTNC_LINK_MAX_MTU = (result, rt2)" by fastforce
  have "runtime_wf runtime" using assms Some by (simp add: working_def owned_by_flags_def runtime_owned_def)
  note wf1 = accept_wf [OF this a]
  note wf2 = receive_wf [OF conjunct1 [OF wf1] r]
  let ?d1 = "set_world w (daemon \<lparr> dm_runtime := Some rt1 \<rparr>)"
  have 1: "working B two ?d1" using working_runtime [OF assms Some] wf1 by simp
  have 2: "working B two (?d1 \<lparr> dm_runtime := Some rt2 \<rparr>)"
    by (rule working_runtime [OF 1, of rt1]) (use wf2 in simp_all)
  from 1 2 assms show ?thesis
    by (simp add: deliver_completion_def Some c a r working_send Let_def del: RTNC_LINK_MAX_MTU_def split: sum.splits)
qed (use assms in \<open>simp add: deliver_completion_def\<close>)

lemma working_deliver_next: "working B two daemon \<Longrightarrow> working B two (snd (deliver_next H options daemon))"
  by (auto simp: deliver_next_def working_deliver set_completion_def split: option.splits prod.splits)

lemma working_worker:
  assumes "working B two daemon" "second \<longrightarrow> dm_equalizer_modem_initialized daemon"
  shows "working B two (set_world w (set_worker second decoder (daemon \<lparr> dm_shared := shared \<rparr>)))"
  using assms by (simp add: set_worker_def working_def owned_by_flags_def)

lemma working_take:
  assumes w: "working B two daemon" shows "working B two (take_job H second daemon)"
proof -
  obtain popped decoder v where t: "decoder_take H (worker_of second daemon) (dm_world daemon) = (popped, decoder, v)"
    by (metis prod_cases3)
  show ?thesis
  proof (cases "second \<longrightarrow> dm_equalizer_modem_initialized daemon")
    case True
    from working_worker [OF w this, of v decoder "dm_shared daemon"] w t show ?thesis by (simp add: take_job_def)
  next
    case False
    then have u: "worker_unused (dm_equalizer_decoder daemon)" "modem_empty (de_modem (dm_equalizer_decoder daemon))" "second"
      using w by (auto simp: working_def owned_by_flags_def)
    from t u have "worker_unused decoder" "de_modem decoder = de_modem (dm_equalizer_decoder daemon)"
      using unused_take [OF u(1), of H "dm_world daemon"]
      by (auto simp: worker_of_def decoder_take_def worker_unused_def rtnc_decode_queue_pop_def Let_def split: prod.splits)
    with False w u t show ?thesis
      by (auto simp: take_job_def set_worker_def working_def owned_by_flags_def)
  qed
qed

lemma working_finish:
  assumes w: "working B two daemon" and f: "finish_job L H second daemon = Some daemon'"
  shows "working B two daemon'"
proof (cases "second \<longrightarrow> dm_equalizer_modem_initialized daemon")
  case True
  from f w working_worker [OF w this] show ?thesis by (auto simp: finish_job_def split: if_splits)
next
  case False
  then have "de_in_hand (worker_of second daemon) = None"
    using w by (auto simp: working_def owned_by_flags_def worker_unused_def worker_of_def)
  with f w show ?thesis by (simp add: finish_job_def)
qed

lemma working_transmit:
  assumes w: "working B two daemon" and s: "tx_worker_iteration L daemon = Some daemon'"
  shows "working B two daemon'"
proof (cases "dm_runtime daemon")
  case (Some runtime)
  with s obtain status rt' s' where t: "rtnc_runtime_transmit_next L runtime (dm_context daemon) = Some (status, rt', s')"
      "daemon' = daemon \<lparr> dm_runtime := Some rt', dm_context := s' \<rparr>" by (auto simp: tx_worker_iteration_def)
  have "runtime_wf runtime" using w Some by (simp add: working_def owned_by_flags_def runtime_owned_def)
  from transmit_wf [OF this t(1)] have "working B two (daemon \<lparr> dm_runtime := Some rt' \<rparr>)"
    using working_runtime [OF w Some] by blast
  with working_update(8) [where daemon = "daemon \<lparr> dm_runtime := Some rt' \<rparr>" and B = B and two = two and state = s'] t(2) show ?thesis by simp
qed (use assms in \<open>simp add: tx_worker_iteration_def\<close>)

lemma working_event:
  assumes "daemon_event_step L F H options two event daemon = Some daemon'" "working B two daemon"
  shows "working B two daemon'"
  using assms
  by (cases event) (auto simp: working_serve working_deliver_next working_take
      dest: working_sample working_finish working_transmit)

lemma working_run:
  "daemon_run L F H options two events daemon = Some daemon' \<Longrightarrow> working B two daemon \<Longrightarrow> working B two daemon'"
  by (induction events arbitrary: daemon) (auto simp: bind_eq_Some_conv dest: working_event)

section \<open>What a start leaves behind\<close>

lemma proceed_True:
  "proceed result rest = (True, daemon') \<longleftrightarrow> (\<exists>daemon. result = (True, daemon) \<and> rest daemon = (True, daemon'))"
  by (cases result) (auto simp: proceed_def)

definition work_view ::
    "('d, 'w) daemon \<Rightarrow> (rtnc_decode_queue \<times> (real \<times> real) option \<times> bool \<times> u32) \<times>
     (rtnc_decode_queue \<times> (real \<times> real) option \<times> bool \<times> u32) \<times> decoder_shared \<times> u64" where
  \<comment> \<open>what the job flow depends on\<close>
  "work_view daemon =
    ((de_queue (dm_decoder daemon), de_in_hand (dm_decoder daemon), de_packet_mode (dm_decoder daemon), de_generation (dm_decoder daemon)),
     (de_queue (dm_equalizer_decoder daemon), de_in_hand (dm_equalizer_decoder daemon), de_packet_mode (dm_equalizer_decoder daemon),
      de_generation (dm_equalizer_decoder daemon)), dm_shared daemon, dm_sequence daemon)"

lemma view_stages:
  "start_detector config daemon = (ok, daemon') \<Longrightarrow> work_view daemon' = work_view daemon"
  "start_modems L config entry profile daemon = (ok, daemon') \<Longrightarrow> work_view daemon' = work_view daemon"
  "start_window daemon = (ok, daemon') \<Longrightarrow> work_view daemon' = work_view daemon"
  "start_frontend L F config entry profile daemon = (ok, daemon') \<Longrightarrow> work_view daemon' = work_view daemon"
  "start_audio L A G P options config entry profile reassembly daemon = (ok, daemon') \<Longrightarrow> work_view daemon' = work_view daemon"
  "start_service H options port daemon = (ok, daemon') \<Longrightarrow> work_view daemon' = work_view daemon"
  "start_threads A H two daemon = (ok, daemon') \<Longrightarrow> work_view daemon' = work_view daemon"
proof -
  show "start_detector config daemon = (ok, daemon') \<Longrightarrow> work_view daemon' = work_view daemon"
    by (auto simp: start_detector_def work_view_def Let_def split: option.splits)
  show "start_modems L config entry profile daemon = (ok, daemon') \<Longrightarrow> work_view daemon' = work_view daemon"
    by (auto simp: start_modems_def work_view_def Let_def split: prod.splits if_splits)
  show "start_window daemon = (ok, daemon') \<Longrightarrow> work_view daemon' = work_view daemon"
    by (auto simp: start_window_def work_view_def Let_def split: option.splits if_splits)
  show "start_frontend L F config entry profile daemon = (ok, daemon') \<Longrightarrow> work_view daemon' = work_view daemon"
    by (auto simp: start_frontend_def work_view_def Let_def split: prod.splits if_splits)
  show "start_audio L A G P options config entry profile reassembly daemon = (ok, daemon') \<Longrightarrow> work_view daemon' = work_view daemon"
    by (auto simp: start_audio_def start_packet_runtime_def proceed_def work_view_def Let_def split: prod.splits option.splits if_splits)
  show "start_service H options port daemon = (ok, daemon') \<Longrightarrow> work_view daemon' = work_view daemon"
    by (auto simp: start_service_def work_view_def Let_def split: prod.splits if_splits)
  show "start_threads A H two daemon = (ok, daemon') \<Longrightarrow> work_view daemon' = work_view daemon"
    by (auto simp: start_threads_def work_view_def Let_def split: prod.splits if_splits)
qed

lemma start_queues_view:
  assumes "start_queues workers daemon = (True, daemon')"
  shows "\<exists>first second. rtnc_decode_queue_init (dq_slots (de_queue (dm_decoder daemon))) (unat (wc_decode_queue_frames workers)) = Some first \<and>
    (if wc_parallel_equalizer workers then rtnc_decode_queue_init (dq_slots (de_queue (dm_equalizer_decoder daemon)))
        (unat (wc_equalizer_queue_frames workers)) = Some second
     else second = de_queue (dm_equalizer_decoder daemon)) \<and>
    work_view daemon' = ((first, snd (fst (work_view daemon))), (second, snd (fst (snd (work_view daemon)))),
      (dm_shared daemon) \<lparr> sh_fallback_queue := None \<rparr>, dm_sequence daemon)"
  using assms by (auto simp: start_queues_def work_view_def Let_def split: option.splits if_splits)

lemma start_completion_view:
  assumes "start_completion options workers profile daemon = (True, daemon')" "do_packet_mode options"
  shows "\<exists>coordinator. rtnc_completion_init zero_completions
      (unat (wc_decode_queue_frames workers) + unat (wc_equalizer_queue_frames workers)) 0 1 = Some coordinator \<and>
    dm_sequence daemon' = dm_sequence daemon \<and>
    dm_shared daemon' = (dm_shared daemon) \<lparr> sh_completion := Some coordinator \<rparr> \<and>
    de_queue (dm_decoder daemon') = de_queue (dm_decoder daemon) \<and> de_in_hand (dm_decoder daemon') = de_in_hand (dm_decoder daemon) \<and>
    de_packet_mode (dm_decoder daemon') = de_packet_mode (dm_decoder daemon) \<and> de_generation (dm_decoder daemon') = 1 \<and>
    de_queue (dm_equalizer_decoder daemon') = de_queue (dm_equalizer_decoder daemon) \<and>
    de_in_hand (dm_equalizer_decoder daemon') = de_in_hand (dm_equalizer_decoder daemon) \<and>
    de_packet_mode (dm_equalizer_decoder daemon') = de_packet_mode (dm_equalizer_decoder daemon) \<and>
    de_generation (dm_equalizer_decoder daemon') = 1"
  using assms by (cases "dm_equalizer_modem_initialized daemon") (auto simp: start_completion_def Let_def split: option.splits)

lemma start_stages:
  assumes "start_daemon L F A G P H reassembly loaded options w = (True, daemon)"
    and "rtnc_platform_config_load loaded = Some config"
  obtains entry profile d1 d2 d3 d4 d5 d6 d7 d8 where
    "start_detector config (prepare_decoders options (cold_daemon w)) = (True, d1)"
    "start_queues (pc_workers config) d1 = (True, d2)" "start_modems L config entry profile d2 = (True, d3)"
    "start_completion options (pc_workers config) profile d3 = (True, d4)" "start_window d4 = (True, d5)"
    "start_frontend L F config entry profile d5 = (True, d6)"
    "start_audio L A G P options config entry profile reassembly d6 = (True, d7)"
    "start_service H options (rc_kiss_tcp_port (pc_runtime config)) d7 = (True, d8)"
    "start_threads A H (wc_parallel_equalizer (pc_workers config)) d8 = (True, daemon)"
proof -
  from assms(1) obtain d1 d2 where 1: "start_detector config (prepare_decoders options (cold_daemon w)) = (True, d1)"
      "start_queues (pc_workers config) d1 = (True, d2)" and rest: "\<exists>entry profile.
      proceed (start_modems L config entry profile d2) (\<lambda>daemon.
      proceed (start_completion options (pc_workers config) profile daemon) (\<lambda>daemon.
      proceed (start_window daemon) (\<lambda>daemon.
      proceed (start_frontend L F config entry profile daemon) (\<lambda>daemon.
      proceed (start_audio L A G P options config entry profile reassembly daemon) (\<lambda>daemon.
      proceed (start_service H options (rc_kiss_tcp_port (pc_runtime config)) daemon) (\<lambda>daemon.
      start_threads A H (wc_parallel_equalizer (pc_workers config)) daemon)))))) = (True, daemon)"
    unfolding start_daemon_def Let_def assms(2) option.case
    by (subst (asm) proceed_True, elim exE conjE, subst (asm) proceed_True) (fastforce split: option.splits)
  then show ?thesis using that 1 unfolding proceed_True by blast
qed

lemma start_fresh:
  assumes start: "start_daemon L F A G P H reassembly loaded options w = (True, daemon)"
    and config: "rtnc_platform_config_load loaded = Some config" and packet: "do_packet_mode options"
  shows "daemon_wf (wc_parallel_equalizer (pc_workers config)) daemon \<and>
    flow_of (wc_parallel_equalizer (pc_workers config)) daemon =
      \<lparr> jf_pending = (\<lambda>_. []), jf_window = \<lparr>sp_next = 0,
          sp_capacity = unat (wc_decode_queue_frames (pc_workers config)) + unat (wc_equalizer_queue_frames (pc_workers config)),
          sp_generation = 1, sp_waiting = Map.empty\<rparr>, jf_sequence = 0 \<rparr>"
proof -
  let ?two = "wc_parallel_equalizer (pc_workers config)"
  from start_stages [OF start config] obtain entry profile d1 d2 d3 d4 d5 d6 d7 d8 where s:
    "start_detector config (prepare_decoders options (cold_daemon w)) = (True, d1)"
    "start_queues (pc_workers config) d1 = (True, d2)" "start_modems L config entry profile d2 = (True, d3)"
    "start_completion options (pc_workers config) profile d3 = (True, d4)" "start_window d4 = (True, d5)"
    "start_frontend L F config entry profile d5 = (True, d6)"
    "start_audio L A G P options config entry profile reassembly d6 = (True, d7)"
    "start_service H options (rc_kiss_tcp_port (pc_runtime config)) d7 = (True, d8)"
    "start_threads A H ?two d8 = (True, daemon)" .
  note v1 = view_stages(1) [OF s(1)]
  then have q1: "dq_slots (de_queue (dm_decoder d1)) = zero_decode_slots" "dq_slots (de_queue (dm_equalizer_decoder d1)) = zero_decode_slots"
    "dq_consumer (de_queue (dm_equalizer_decoder d1)) = dq_producer (de_queue (dm_equalizer_decoder d1))"
    "work_view d1 = (fst (work_view d1), fst (snd (work_view d1)), \<lparr> sh_fallback_queue = None, sh_completion = None,
       sh_decoded_frames = 0, sh_output = [] \<rparr>, 0)"
    "snd (fst (work_view d1)) = (None, True, 0)" "snd (fst (snd (work_view d1))) = (None, True, 0)"
    using packet by (auto simp: work_view_def prepare_decoders_def cold_daemon_def zero_decoder_def)
  from start_queues_view [OF s(2)] q1 obtain first second where q:
    "rtnc_decode_queue_init zero_decode_slots (unat (wc_decode_queue_frames (pc_workers config))) = Some first"
    "if ?two then rtnc_decode_queue_init zero_decode_slots (unat (wc_equalizer_queue_frames (pc_workers config))) = Some second
     else dq_consumer second = dq_producer second"
    "work_view d2 = ((first, None, True, 0), (second, None, True, 0),
       \<lparr> sh_fallback_queue = None, sh_completion = None, sh_decoded_frames = 0, sh_output = [] \<rparr>, 0)"
    by (auto simp: work_view_def split: if_splits)
  have v3: "work_view d3 = work_view d2" by (rule view_stages(2) [OF s(3)])
  from start_completion_view [OF s(4) packet] obtain c where c: "rtnc_completion_init zero_completions
      (unat (wc_decode_queue_frames (pc_workers config)) + unat (wc_equalizer_queue_frames (pc_workers config))) 0 1 = Some c"
    "work_view d4 = ((first, None, True, 1), (second, None, True, 1),
       \<lparr> sh_fallback_queue = None, sh_completion = Some c, sh_decoded_frames = 0, sh_output = [] \<rparr>, 0)"
    using q(3) unfolding v3 [symmetric] by (auto simp: work_view_def)
  have "work_view daemon = work_view d4"
    using view_stages(3) [OF s(5)] view_stages(4) [OF s(6)] view_stages(5) [OF s(7)] view_stages(6) [OF s(8)] view_stages(7) [OF s(9)]
    by simp
  with c(2) have d: "de_queue (dm_decoder daemon) = first" "de_in_hand (dm_decoder daemon) = None" "de_packet_mode (dm_decoder daemon)"
    "de_generation (dm_decoder daemon) = 1" "de_queue (dm_equalizer_decoder daemon) = second"
    "de_in_hand (dm_equalizer_decoder daemon) = None" "de_packet_mode (dm_equalizer_decoder daemon)"
    "de_generation (dm_equalizer_decoder daemon) = 1" "sh_completion (dm_shared daemon) = Some c"
    "sh_fallback_queue (dm_shared daemon) = None" "dm_sequence daemon = 0"
    by (auto simp: work_view_def)
  from completion_init_ok [OF c(1) zero_memory_ok(2)] have w: "completion_wf c"
    "completion_abs c = \<lparr>sp_next = 0, sp_capacity = unat (wc_decode_queue_frames (pc_workers config)) +
       unat (wc_equalizer_queue_frames (pc_workers config)), sp_generation = 1, sp_waiting = Map.empty\<rparr>" by auto
  have g: "cc_generation c = 1" using arg_cong [OF w(2), of sp_generation] by simp
  from decode_queue_init_ok [OF q(1) zero_memory_ok(1)] have f: "decode_queue_wf first" "decode_items first = []" by auto
  have sec: "?two \<longrightarrow> decode_queue_wf second \<and> decode_items second = []"
    using decode_queue_init_ok [OF _ zero_memory_ok(1)] q(2) by (auto split: if_splits)
  show ?thesis using d w g f sec q(2)
    by (auto simp: daemon_wf_def worker_ok_def worker_unused_def flow_of_def window_of_def pending_of_def jobs_of_def fun_eq_iff)
qed

definition modem_flags :: "('d, 'w) daemon \<Rightarrow> bool \<times> bool" where
  "modem_flags daemon = (dm_modem_initialized daemon, dm_equalizer_modem_initialized daemon)"

lemma flag_stages:
  "start_modems L config entry profile daemon = (True, daemon') \<Longrightarrow>
     dm_modem_initialized daemon' \<and> (wc_parallel_equalizer (pc_workers config) \<longrightarrow> dm_equalizer_modem_initialized daemon')"
  "start_completion options workers profile daemon = (ok, daemon') \<Longrightarrow> modem_flags daemon' = modem_flags daemon"
  "start_window daemon = (ok, daemon') \<Longrightarrow> modem_flags daemon' = modem_flags daemon"
  "start_frontend L F config entry profile daemon = (ok, daemon') \<Longrightarrow> modem_flags daemon' = modem_flags daemon"
  "start_audio L A G P options config entry profile reassembly daemon = (ok, daemon') \<Longrightarrow> modem_flags daemon' = modem_flags daemon"
  "start_service H options port daemon = (ok, daemon') \<Longrightarrow> modem_flags daemon' = modem_flags daemon"
  "start_threads A H two daemon = (ok, daemon') \<Longrightarrow> modem_flags daemon' = modem_flags daemon"
proof -
  show "start_modems L config entry profile daemon = (True, daemon') \<Longrightarrow>
     dm_modem_initialized daemon' \<and> (wc_parallel_equalizer (pc_workers config) \<longrightarrow> dm_equalizer_modem_initialized daemon')"
    by (auto simp: start_modems_def Let_def split: prod.splits if_splits)
  show "start_completion options workers profile daemon = (ok, daemon') \<Longrightarrow> modem_flags daemon' = modem_flags daemon"
    by (auto simp: start_completion_def modem_flags_def Let_def split: option.splits if_splits)
  show "start_window daemon = (ok, daemon') \<Longrightarrow> modem_flags daemon' = modem_flags daemon"
    by (auto simp: start_window_def modem_flags_def Let_def split: option.splits if_splits)
  show "start_frontend L F config entry profile daemon = (ok, daemon') \<Longrightarrow> modem_flags daemon' = modem_flags daemon"
    by (auto simp: start_frontend_def modem_flags_def Let_def split: prod.splits if_splits)
  show "start_audio L A G P options config entry profile reassembly daemon = (ok, daemon') \<Longrightarrow> modem_flags daemon' = modem_flags daemon"
    by (auto simp: start_audio_def start_packet_runtime_def proceed_def modem_flags_def Let_def split: prod.splits option.splits if_splits)
  show "start_service H options port daemon = (ok, daemon') \<Longrightarrow> modem_flags daemon' = modem_flags daemon"
    by (auto simp: start_service_def modem_flags_def Let_def split: prod.splits if_splits)
  show "start_threads A H two daemon = (ok, daemon') \<Longrightarrow> modem_flags daemon' = modem_flags daemon"
    by (auto simp: start_threads_def modem_flags_def Let_def split: prod.splits if_splits)
qed

lemma start_flags:
  assumes "start_daemon L F A G P H reassembly loaded options w = (True, daemon)" "rtnc_platform_config_load loaded = Some config"
  shows "dm_modem_initialized daemon \<and> (wc_parallel_equalizer (pc_workers config) \<longrightarrow> dm_equalizer_modem_initialized daemon)"
proof -
  from start_stages [OF assms] obtain entry profile d1 d2 d3 d4 d5 d6 d7 d8 where
    "start_detector config (prepare_decoders options (cold_daemon w)) = (True, d1)"
    "start_queues (pc_workers config) d1 = (True, d2)" and s: "start_modems L config entry profile d2 = (True, d3)"
    "start_completion options (pc_workers config) profile d3 = (True, d4)" "start_window d4 = (True, d5)"
    "start_frontend L F config entry profile d5 = (True, d6)"
    "start_audio L A G P options config entry profile reassembly d6 = (True, d7)"
    "start_service H options (rc_kiss_tcp_port (pc_runtime config)) d7 = (True, d8)"
    "start_threads A H (wc_parallel_equalizer (pc_workers config)) d8 = (True, daemon)" .
  have "modem_flags daemon = modem_flags d3"
    using flag_stages(2) [OF s(2)] flag_stages(3) [OF s(3)] flag_stages(4) [OF s(4)] flag_stages(5) [OF s(5)]
      flag_stages(6) [OF s(6)] flag_stages(7) [OF s(7)] by simp
  with flag_stages(1) [OF s(1)] show ?thesis by (simp add: modem_flags_def)
qed

section \<open>A start that succeeds\<close>

definition platform :: rtnc_platform_config where
  "platform = example_platform example_entry identity_taps 500"

lemma platform:
  "rtnc_platform_config_load (Some platform) = Some platform" "platform_config_is_valid platform"
  "rtnc_platform_profile_config_named platform (do_profile example_options) = Some example_entry"
  "rtnc_platform_phy_profile_named platform (pf_name example_entry) = Some rtnc_phy_profile_qpsk_1200"
proof -
  have e: "example_entry = example_entry \<lparr> pf_payload_class_bytes := 128 \<rparr>" by (simp add: example_entry_def)
  note v = example_valid [OF e, of 500, simplified]
  show "rtnc_platform_config_load (Some platform) = Some platform" "platform_config_is_valid platform"
    using v(2) by (simp_all add: rtnc_platform_config_load_def platform_def)
  show "rtnc_platform_profile_config_named platform (do_profile example_options) = Some example_entry"
    "rtnc_platform_phy_profile_named platform (pf_name example_entry) = Some rtnc_phy_profile_qpsk_1200"
    using v(1) by (simp_all add: rtnc_platform_profile_config_named_def rtnc_platform_phy_profile_named_def platform_def
      example_platform_def example_options_def example_entry_def)
qed

definition ready_for_window :: "('d, 'w) daemon \<Rightarrow> bool" where
  "ready_for_window daemon \<longleftrightarrow> burst_config_ok (dm_detector_config daemon) \<and>
     bc_pretrigger_samples (dm_detector_config daemon) = 4800 \<and> bc_maximum_active_samples (dm_detector_config daemon) = 90000 \<and>
     ax_audio (dm_context daemon) = None"

definition has_modem :: "('d, 'w) daemon \<Rightarrow> bool" where
  "has_modem daemon \<longleftrightarrow> mo_profile (de_modem (dm_decoder daemon)) = rtnc_phy_profile_qpsk_1200 \<and>
     mo_fec_mode (de_modem (dm_decoder daemon)) = FEC_LDPC_NORMAL \<and>
     mo_payload_class_bytes (de_modem (dm_decoder daemon)) = 128"

lemma example_detector_stage:
  "\<exists>daemon. start_detector platform (prepare_decoders options (cold_daemon w)) = (True, daemon) \<and> ready_for_window daemon"
proof -
  obtain detector where d: "rtnc_platform_burst_config platform (bd_config zero_detector) = Some detector" "burst_config_ok detector"
    using burst_config_accepted [OF platform(2), of "bd_config zero_detector"] by blast
  then have "bc_pretrigger_samples detector = 4800" "bc_maximum_active_samples detector = 90000"
    by (auto simp: rtnc_platform_burst_config_def platform_def example_platform_def samples_of_ms_def Let_def split: if_splits)
  with d show ?thesis
    by (simp add: start_detector_def prepare_decoders_def cold_daemon_def rtnc_burst_detector_init_def ready_for_window_def)
qed

lemma example_queues_stage:
  "ready_for_window daemon \<Longrightarrow>
   \<exists>daemon'. start_queues (pc_workers platform) daemon = (True, daemon') \<and> ready_for_window daemon'"
  by (simp add: start_queues_def platform_def example_platform_def rtnc_audio_ring_init_def rtnc_decode_queue_init_def
      ready_for_window_def)

lemma example_modems_stage:
  assumes "ready_for_window daemon"
  shows "\<exists>daemon'. start_modems example_liquid platform example_entry rtnc_phy_profile_qpsk_1200 daemon = (True, daemon') \<and>
    ready_for_window daemon' \<and> has_modem daemon'"
proof -
  obtain m1 m2 where m: "rtnc_modem_init_profile example_liquid (de_modem (dm_decoder daemon)) FEC_LDPC_NORMAL 128 rtnc_phy_profile_qpsk_1200 = (True, m1)"
    "rtnc_modem_init_profile example_liquid (de_modem (dm_equalizer_decoder daemon)) FEC_LDPC_NORMAL 128 rtnc_phy_profile_qpsk_1200 = (True, m2)"
    using example_init_profile by metis
  have "mo_profile m1 = rtnc_phy_profile_qpsk_1200" "mo_fec_mode m1 = FEC_LDPC_NORMAL" "mo_payload_class_bytes m1 = 128"
    using modem_init_all_or_nothing [where L = example_liquid and ?m0.0 = "de_modem (dm_decoder daemon)" and fec_mode = FEC_LDPC_NORMAL
      and cls = 128 and profile = rtnc_phy_profile_qpsk_1200 and preamble = RTNC_PREAMBLE_DATA] m(1)
    by (auto simp: rtnc_modem_init_profile_def split: if_splits)
  moreover have "rtnc_modem_profile_rate rtnc_phy_profile_qpsk_1200 FEC_LDPC_NORMAL 128 \<noteq> None"
    by (simp add: example_profile_simps)
  ultimately show ?thesis using m assms
    by (auto simp: start_modems_def ready_for_window_def has_modem_def example_entry_def fec_mode_of_def platform_def example_platform_def)
qed

lemma example_completion_stage:
  "ready_for_window daemon \<Longrightarrow> has_modem daemon \<Longrightarrow>
   \<exists>daemon'. start_completion example_options (pc_workers platform) profile daemon = (True, daemon') \<and>
     ready_for_window daemon' \<and> has_modem daemon'"
  by (cases "dm_equalizer_modem_initialized daemon")
    (simp_all add: start_completion_def platform_def example_platform_def rtnc_completion_init_def ready_for_window_def has_modem_def Let_def)

lemma example_window_stage:
  assumes "ready_for_window daemon" "has_modem daemon"
  shows "\<exists>daemon'. start_window daemon = (True, daemon') \<and> ax_audio (dm_context daemon') = None \<and> has_modem daemon'"
proof -
  have "rtnc_modem_frame_samples (de_modem (dm_decoder daemon)) = 37120"
    using assms(2) by (simp add: rtnc_modem_frame_samples_def has_modem_def example_profile_simps)
  then have "capture_window (de_modem (dm_decoder daemon)) (dm_detector_config daemon) \<le> 90000"
    using assms by (simp add: capture_window_def ready_for_window_def has_modem_def rtnc_phy_profile_qpsk_1200_def Let_def)
  with assms show ?thesis
    by (auto simp: start_window_def rtnc_burst_detector_init_def ready_for_window_def has_modem_def burst_config_ok_def Let_def)
qed

lemma example_frontend_stage:
  assumes "ax_audio (dm_context daemon) = None" "has_modem daemon"
  shows "\<exists>daemon'. start_frontend example_liquid example_power_filter platform example_entry rtnc_phy_profile_qpsk_1200 daemon = (True, daemon') \<and>
    ax_audio (dm_context daemon') = None"
proof -
  have "fst (rtnc_acquisition_detector_init example_liquid detector rtnc_phy_profile_qpsk_1200 training 4
      (pp_acquisition_threshold rtnc_phy_profile_qpsk_1200))" for detector training
    by (simp add: rtnc_acquisition_detector_init_def fresh_detector_def
        qpsk_1200_valid [unfolded rtnc_phy_profile_qpsk_1200_def] rtnc_carrier_init_def rtnc_rrc_init_def
        rtnc_phy_profile_qpsk_1200_def example_liquid_def Let_def)
  moreover have "fst (rtnc_carrier_init example_liquid carrier 48000 (pp_carrier_hz rtnc_phy_profile_qpsk_1200))" for carrier
    by (simp add: rtnc_carrier_init_def rtnc_phy_profile_qpsk_1200_def example_liquid_def Let_def)
  ultimately show ?thesis using assms
    by (simp add: start_frontend_def has_modem_def platform_def example_platform_def example_power_filter_def Let_def split: prod.splits)
      (metis fst_conv)
qed

lemma example_audio:
  "\<exists>sound v. rtnc_audio_init example_alsa None (pc_audio platform) w = (True, Some sound, v) \<and> \<not> ai_thread_started sound"
proof -
  have "configure_pcm example_alsa pcm (pc_audio platform) v = (Some 480, v)" for pcm v
    by (simp add: configure_pcm_def unless_negative_def example_alsa_def platform_def example_platform_def Let_def)
  then have "open_stream example_alsa (pc_audio platform) capture v = (Some 480, Some 1, v)" for capture v
    by (simp add: open_stream_def) (simp add: example_alsa_def)
  then show ?thesis by (simp add: rtnc_audio_init_def) (simp add: example_alsa_def)
qed

lemma example_audio_stage:
  assumes "ax_audio (dm_context daemon) = None"
  shows "\<exists>daemon' sound. start_audio example_liquid example_alsa example_gpio_card example_posix example_options platform example_entry
      rtnc_phy_profile_qpsk_1200 example_receiver daemon = (True, daemon') \<and>
    ax_audio (dm_context daemon') = Some sound \<and> \<not> ai_thread_started sound"
proof -
  obtain sound v where a: "rtnc_audio_init example_alsa None (pc_audio platform) (dm_world daemon) = (True, Some sound, v)"
    "\<not> ai_thread_started sound" using example_audio by blast
  obtain m where m: "rtnc_modem_init_profile example_liquid (zero_modem :: unit rtnc_modem) FEC_LDPC_NORMAL 128 rtnc_phy_profile_qpsk_1200 = (True, m)"
    using example_init_profile by blast
  have "lt_filter_gain (pc_tx platform) = Fin 1" by (simp add: platform_def example_platform_def)
  with m have "rtnc_runtime_init example_liquid zero_modem example_receiver rtnc_phy_profile_qpsk_1200 FEC_LDPC_NORMAL 128 500 10000 8 8 5000 100
      (tx_config_of (pc_tx platform)) (rtnc_alsa_runtime_backend example_alsa example_gpio_card example_posix) \<noteq> None"
    by (simp add: rtnc_runtime_init_def rtnc_reassembly_init_def rtnc_packet_queue_init_def valid_payload_class_def tx_config_of_def real_of_fp_def)
  then obtain runtime where "rtnc_runtime_init example_liquid zero_modem example_receiver rtnc_phy_profile_qpsk_1200 FEC_LDPC_NORMAL 128 500 10000 8 8 5000 100
      (tx_config_of (pc_tx platform)) (rtnc_alsa_runtime_backend example_alsa example_gpio_card example_posix) = Some runtime" by blast
  moreover have "lk_mtu (pc_link platform) = 500" "lk_reassembly_timeout_ms (pc_link platform) = 10000"
    "rc_tx_queue_packets (pc_runtime platform) = 8" "rc_rx_queue_packets (pc_runtime platform) = 8"
    "rc_channel_busy_timeout_ms (pc_runtime platform) = 5000" "rc_rx_guard_ms (pc_runtime platform) = 100"
    "fec_mode_of (pf_fec_mode example_entry) = FEC_LDPC_NORMAL" "pf_payload_class_bytes example_entry = 128"
    by (simp_all add: platform_def example_platform_def example_entry_def fec_mode_of_def)
  ultimately show ?thesis using a assms
    by (simp add: start_audio_def start_packet_runtime_def proceed_def rtnc_ptt_init_def example_gpio_card_def example_options_def
      set_world_def Let_def)
qed

lemma example_threads_stage:
  assumes "ax_audio (dm_context daemon) = Some sound" "\<not> ai_thread_started sound"
  shows "\<exists>daemon'. start_threads example_alsa example_host two daemon = (True, daemon')"
  using assms by (cases "dm_world daemon")
    (simp add: start_threads_def example_host_def rtnc_audio_start_capture_def example_alsa_def set_world_def Let_def)

lemma example_start:
  "\<exists>daemon. start_daemon example_liquid example_power_filter example_alsa example_gpio_card example_posix example_host
     example_receiver (Some platform) example_options (1, []) = (True, daemon)"
proof -
  obtain d1 :: "(unit, nat \<times> s16 list) daemon" where
    1: "start_detector platform (prepare_decoders example_options (cold_daemon (1, []))) = (True, d1)" "ready_for_window d1"
    using example_detector_stage [of example_options "(1, [])"] by blast
  obtain d2 where 2: "start_queues (pc_workers platform) d1 = (True, d2)" "ready_for_window d2"
    using example_queues_stage [OF 1(2)] by blast
  obtain d3 where 3: "start_modems example_liquid platform example_entry rtnc_phy_profile_qpsk_1200 d2 = (True, d3)"
    "ready_for_window d3" "has_modem d3" using example_modems_stage [OF 2(2)] by blast
  obtain d4 where 4: "start_completion example_options (pc_workers platform) rtnc_phy_profile_qpsk_1200 d3 = (True, d4)"
    "ready_for_window d4" "has_modem d4" using example_completion_stage [OF 3(2,3)] by blast
  obtain d5 where 5: "start_window d4 = (True, d5)" "ax_audio (dm_context d5) = None" "has_modem d5"
    using example_window_stage [OF 4(2,3)] by blast
  obtain d6 where 6: "start_frontend example_liquid example_power_filter platform example_entry rtnc_phy_profile_qpsk_1200 d5 = (True, d6)"
    "ax_audio (dm_context d6) = None" using example_frontend_stage [OF 5(2,3)] by blast
  obtain d7 sound where 7: "start_audio example_liquid example_alsa example_gpio_card example_posix example_options platform example_entry
      rtnc_phy_profile_qpsk_1200 example_receiver d6 = (True, d7)" "ax_audio (dm_context d7) = Some sound" "\<not> ai_thread_started sound"
    using example_audio_stage [OF 6(2)] by blast
  have 8: "start_service example_host example_options port d7 = (True, d7)" for port by (simp add: start_service_def example_options_def)
  obtain d9 where 9: "start_threads example_alsa example_host (wc_parallel_equalizer (pc_workers platform)) d7 = (True, d9)"
    using example_threads_stage [OF 7(2,3)] by blast
  show ?thesis using platform(1,3,4) 1(1) 2(1) 3(1) 4(1) 5(1) 6(1) 7(1) 8 9
    by (simp add: start_daemon_def proceed_def Let_def)
qed

section \<open>Properties\<close>

text \<open>
  C15: every state the daemon can reach in packet mode is intact.  From a successful start on, whatever the
  threads do, the queues and the completion window satisfy their invariants, no candidate is in two places
  at once, every candidate that waits or was decided is one that was seen and not yet delivered, and the
  window has the size of both queues together.
\<close>

theorem daemon_reachable_ok:
  assumes "start_daemon L F A G P H reassembly loaded options w = (True, daemon)"
    and "rtnc_platform_config_load loaded = Some config" and "do_packet_mode options"
    and "two = wc_parallel_equalizer (pc_workers config)"
    and "daemon_run L F H options two events daemon = Some daemon'" and "length events < 2 ^ 64"
  shows "daemon_wf two daemon' \<and> flow_ok (flow_of two daemon') \<and>
    cc_next_job_id (window_of daemon') \<le> dm_sequence daemon' \<and>
    cc_capacity (window_of daemon') =
      unat (wc_decode_queue_frames (pc_workers config)) + unat (wc_equalizer_queue_frames (pc_workers config))"
proof -
  from start_fresh [OF assms(1-3)] have f: "daemon_wf two daemon"
    "flow_of two daemon = \<lparr> jf_pending = (\<lambda>_. []), jf_window = \<lparr>sp_next = 0,
        sp_capacity = unat (wc_decode_queue_frames (pc_workers config)) + unat (wc_equalizer_queue_frames (pc_workers config)),
        sp_generation = 1, sp_waiting = Map.empty\<rparr>, jf_sequence = 0 \<rparr>"
    unfolding assms(4) by auto
  have ok: "flow_ok (flow_of two daemon)" unfolding f(2) by (simp add: flow_ok_def pending_jobs_def next_job_def)
  have seq: "dm_sequence daemon = 0" using arg_cong [OF f(2), of jf_sequence] by simp
  have cap: "cc_capacity (window_of daemon) =
      unat (wc_decode_queue_frames (pc_workers config)) + unat (wc_equalizer_queue_frames (pc_workers config))"
    using arg_cong [OF f(2), of "\<lambda>f. sp_capacity (jf_window f)"] by simp
  from run_keeps_flow [OF assms(5,3) f(1) ok] seq assms(6) cap next_le_sequence [of "flow_of two daemon'"]
  show ?thesis by (simp add: next_job_flow)
qed

theorem daemon_reachable_ok_witness:
  "\<exists>daemon daemon'. start_daemon example_liquid example_power_filter example_alsa example_gpio_card example_posix example_host
       example_receiver (Some platform) example_options (1, []) = (True, daemon) \<and>
     daemon_run example_liquid example_power_filter example_host example_options True [Take_job False, Serve, Deliver] daemon = Some daemon' \<and>
     daemon_wf True daemon' \<and> cc_capacity (window_of daemon') = 6"
proof -
  obtain daemon where d: "start_daemon example_liquid example_power_filter example_alsa example_gpio_card example_posix example_host
       example_receiver (Some platform) example_options (1, []) = (True, daemon)" using example_start by blast
  obtain daemon' where r: "daemon_run example_liquid example_power_filter example_host example_options True
      [Take_job False, Serve, Deliver] daemon = Some daemon'" by simp
  have w: "True = wc_parallel_equalizer (pc_workers platform)" "wc_decode_queue_frames (pc_workers platform) = 4"
    "wc_equalizer_queue_frames (pc_workers platform) = 2" by (simp_all add: platform_def example_platform_def)
  from daemon_reachable_ok [OF d platform(1) _ w(1) r] d r w(2,3) show ?thesis by (auto simp: example_options_def)
qed

text \<open>
  C22: shutdown releases everything.  Wherever the start failed, and after whatever the threads did when it
  succeeded, shutdown neither uses an object that does not exist nor leaves one behind: both decoders'
  modems, the runtime's modem, the filters and oscillators are gone, the sound card and the GPIO line are
  closed, the transmitter is not keyed, and the decoder threads are told to stop.
\<close>

theorem daemon_shutdown_releases:
  assumes "start_daemon L F A G P H reassembly loaded options w = (ok, daemon)"
    and "two = (case rtnc_platform_config_load loaded of None \<Rightarrow> False | Some config \<Rightarrow> wc_parallel_equalizer (pc_workers config))"
    and "if ok then daemon_run L F H options two events daemon = Some daemon' else daemon' = daemon"
  shows "\<exists>released_daemon. finish_daemon A G H daemon' = Some released_daemon \<and> released released_daemon"
proof (rule finish_releases)
  have o: "owned_by_flags (rtnc_alsa_runtime_backend A G P) daemon"
    using start_owned [of A G P L F H reassembly loaded options w] assms(1) by simp
  show "owned_by_flags (rtnc_alsa_runtime_backend A G P) daemon'"
  proof (cases ok)
    case True
    with assms(1) have s: "start_daemon L F A G P H reassembly loaded options w = (True, daemon)" by simp
    then obtain config where c: "rtnc_platform_config_load loaded = Some config"
      by (auto simp: start_daemon_def Let_def split: option.splits)
    have "working (rtnc_alsa_runtime_backend A G P) two daemon"
      using o start_flags [OF s c] assms(2) c by (simp add: working_def)
    moreover have "daemon_run L F H options two events daemon = Some daemon'" using assms(3) True by simp
    ultimately have "working (rtnc_alsa_runtime_backend A G P) two daemon'" by (rule working_run [rotated])
    then show ?thesis by (simp add: working_def)
  qed (use o assms(3) in simp)
qed

theorem daemon_shutdown_releases_witness:
  "\<exists>daemon daemon' released_daemon. start_daemon example_liquid example_power_filter example_alsa example_gpio_card example_posix example_host
       example_receiver (Some platform) example_options (1, []) = (True, daemon) \<and>
     daemon_run example_liquid example_power_filter example_host example_options True [Take_job True, Serve] daemon = Some daemon' \<and>
     finish_daemon example_alsa example_gpio_card example_host daemon' = Some released_daemon \<and> released released_daemon"
proof -
  obtain daemon where d: "start_daemon example_liquid example_power_filter example_alsa example_gpio_card example_posix example_host
       example_receiver (Some platform) example_options (1, []) = (True, daemon)" using example_start by blast
  obtain daemon' where r: "daemon_run example_liquid example_power_filter example_host example_options True
      [Take_job True, Serve] daemon = Some daemon'" by simp
  have w: "True = (case rtnc_platform_config_load (Some platform) of None \<Rightarrow> False | Some config \<Rightarrow> wc_parallel_equalizer (pc_workers config))"
    using platform(1) by (simp add: platform_def example_platform_def)
  from daemon_shutdown_releases [OF d w, of "[Take_job True, Serve]" daemon'] d r show ?thesis by auto
qed

end
