(* ===== verification/DaemonBuilds.thy ===== *)
theory DaemonBuilds
  imports DaemonStart
begin

text \<open>
  Which configurations that pass validation the daemon starts with.  Where the DSP library, the sound card, the
  PTT line, the socket and the threads are supplied, every step of the start that does not fail for them is
  decided by the configuration: the modem's arguments, the derived window of the detector and the memory for
  reassembly.  Validation checks none of these three.
\<close>

section \<open>The library supplies its objects\<close>

definition dsp_supplies :: "'d liquid \<Rightarrow> 'd power_filter \<Rightarrow> bool" where
  \<comment> \<open>no constructor of the library fails for lack of memory, and mapping a symbol of the constellation succeeds\<close>
  "dsp_supplies L F \<longleftrightarrow>
    (\<forall>scheme. modemcf_create L scheme \<noteq> None) \<and> (\<forall>q s. fst (modemcf_modulate L q s)) \<and> nco_crcf_create L \<noteq> None \<and>
    (\<forall>n d r. firinterp_crcf_create_prototype L n d r \<noteq> None) \<and> (\<forall>n d r. firfilt_crcf_create_rnyquist L n d r \<noteq> None) \<and>
    (\<forall>n d r k. symsync_crcf_create_rnyquist L n d r k \<noteq> None) \<and> (\<forall>n. eqrls_cccf_create L n \<noteq> None) \<and>
    (\<forall>q b. fst (eqrls_cccf_set_bw L q b)) \<and> (\<forall>n b a m. firfilt_crcf_create_kaiser F n b a m \<noteq> None)"

lemma dsp_supplied:
  assumes "dsp_supplies L F"
  shows "\<exists>q. modemcf_create L scheme = Some q" "\<exists>q. nco_crcf_create L = Some q"
    "\<exists>q. firinterp_crcf_create_prototype L n d r = Some q" "\<exists>q. firfilt_crcf_create_rnyquist L n d r = Some q"
    "\<exists>q. symsync_crcf_create_rnyquist L n d r k = Some q" "\<exists>q. eqrls_cccf_create L n = Some q"
    "\<exists>q'. eqrls_cccf_set_bw L q b = (True, q')" "\<exists>q. firfilt_crcf_create_kaiser F n v a m = Some q"
    "\<exists>q' x. modemcf_modulate L q s = (True, q', x)"
proof -
  have "fst (eqrls_cccf_set_bw L q b)" "fst (modemcf_modulate L q s)" using assms by (simp_all add: dsp_supplies_def)
  then show "\<exists>q'. eqrls_cccf_set_bw L q b = (True, q')" "\<exists>q' x. modemcf_modulate L q s = (True, q', x)"
    by (metis (full_types) prod.collapse)+
qed (use assms in \<open>simp_all add: dsp_supplies_def\<close>)

lemma valid_profile_ranges:
  assumes "rtnc_phy_profile_is_valid p"
  shows "\<not> pp_rrc_rolloff p \<le> Fin 0" "\<not> pp_rrc_rolloff p > Fin 1"
    "\<not> pp_acquisition_threshold p \<le> Fin 0" "\<not> pp_acquisition_threshold p > Fin 1"
    "\<exists>r. pp_carrier_hz p = Fin r \<and> 300 < r \<and> r < 3000"
  using assms fp_between_strict [of 300 "pp_carrier_hz p" 3000]
  by (auto simp: rtnc_phy_profile_is_valid_def split: if_splits)

lemma profile_of_entry_sample_rate:
  "profile_of_entry entry = Some profile \<Longrightarrow> pp_sample_rate_hz profile = 48000"
  by (auto simp: profile_of_entry_def rtnc_phy_profile_psk_def rtnc_phy_profile_qpsk_1200_def Let_def
      split: option.splits if_splits)

lemma carrier_supplied:
  assumes "dsp_supplies L F" and "\<exists>r. carrier_hz = Fin r \<and> 300 < r \<and> r < 3000"
  shows "fst (rtnc_carrier_init L carrier 48000 carrier_hz)"
proof -
  obtain q where "nco_crcf_create L = Some q" using dsp_supplied(2) [OF assms(1)] by blast
  with assms(2) show ?thesis by (auto simp: rtnc_carrier_init_def zero_fp_def Let_def)
qed

lemma rrc_supplied:
  assumes "dsp_supplies L F" and "rtnc_phy_profile_is_valid p"
  shows "fst (rtnc_rrc_init L rrc (pp_samples_per_symbol p) 7 (pp_rrc_rolloff p))"
proof -
  obtain q r where
    "firinterp_crcf_create_prototype L (unat (pp_samples_per_symbol p)) 7 (pp_rrc_rolloff p) = Some q"
    "firfilt_crcf_create_rnyquist L (unat (pp_samples_per_symbol p)) 7 (pp_rrc_rolloff p) = Some r"
    using dsp_supplied(3,4) [OF assms(1)] by meson
  then show ?thesis using valid_profile_ranges(1,2) [OF assms(2)] valid_profile_period(2) [OF assms(2)]
    by (simp add: rtnc_rrc_init_def zero_fp_def one_fp_def word_less_nat_alt Let_def)
qed

lemma blocks_supplied:
  assumes "dsp_supplies L F" and "rtnc_phy_profile_is_valid (mo_profile m)" and "pp_sample_rate_hz (mo_profile m) = 48000"
  shows "fst (init_blocks L m)"
proof -
  let ?p = "mo_profile m"
  obtain q where q: "symsync_crcf_create_rnyquist L (unat (pp_samples_per_symbol ?p)) 7 (pp_rrc_rolloff ?p) 32 = Some q"
    using dsp_supplied(5) [OF assms(1)] by blast
  obtain e where e: "eqrls_cccf_create L 9 = Some e" using dsp_supplied(6) [OF assms(1)] by blast
  obtain e' where e': "eqrls_cccf_set_bw L e (Fin 0.95) = (True, e')"
    using dsp_supplied(7) [OF assms(1)] by blast
  obtain scheme bits where sc: "psk_scheme (pp_modulation ?p) = Some (scheme, bits)"
    by (cases "pp_modulation ?p") (auto simp: psk_scheme_def)
  obtain d where d: "modemcf_create L scheme = Some d" using dsp_supplied(1) [OF assms(1)] by blast
  obtain psk where 1: "rtnc_psk_init L (mo_psk m) (pp_modulation ?p) = (True, psk)"
    using sc d by (simp add: rtnc_psk_init_def Let_def)
  obtain rrc where 2: "rtnc_rrc_init L (mo_rrc m) (pp_samples_per_symbol ?p) 7 (pp_rrc_rolloff ?p) = (True, rrc)"
    using rrc_supplied [OF assms(1,2)] by (metis (full_types) prod.collapse)
  obtain timing where 3: "rtnc_timing_init L (mo_timing m) (pp_samples_per_symbol ?p) 7 (pp_rrc_rolloff ?p) (Fin 0.03) =
      (True, timing)"
    using q valid_profile_ranges(1,2) [OF assms(2)] valid_profile_period(2) [OF assms(2)]
    by (simp add: rtnc_timing_init_def zero_fp_def one_fp_def word_less_nat_alt)
  obtain equalizer where 4: "rtnc_equalizer_init L (mo_equalizer m) 9 (Fin 0.95) = (True, equalizer)"
    using e e' by (simp add: rtnc_equalizer_init_def zero_fp_def one_fp_def)
  obtain carrier where "rtnc_carrier_init L (mo_carrier m) (pp_sample_rate_hz ?p) (pp_carrier_hz ?p) = (True, carrier)"
    using carrier_supplied [OF assms(1) valid_profile_ranges(5) [OF assms(2)], of "mo_carrier m"]
    by (metis (full_types) assms(3) prod.collapse)
  with 1 2 3 4 show ?thesis by (simp add: init_blocks_def Let_def)
qed

text \<open>Every training symbol is one of the constellation.\<close>

lemma masked_byte: "unat (ucast (x AND m) :: u8) \<le> unat m" for x m :: u32
proof -
  have "unat (x AND m) \<le> unat m" using word_and_le1 [of x m] by (simp add: word_le_nat_alt)
  then have "unat (x AND m) mod 256 \<le> unat m" by (rule order.trans [OF mod_less_eq_dividend])
  then show ?thesis by (simp add: unsigned_ucast_eq take_bit_eq_mod)
qed

lemma below_four:
  assumes "unat (x :: u8) < 4"
  shows "x = 0 \<or> x = 1 \<or> x = 2 \<or> x = 3"
proof -
  have "unat x = 0 \<or> unat x = 1 \<or> unat x = 2 \<or> unat x = 3" using assms by linarith
  moreover have "unat (0 :: u8) = 0" "unat (1 :: u8) = 1" "unat (2 :: u8) = 2" "unat (3 :: u8) = 3" by simp_all
  ultimately show ?thesis by (metis word_unat_eq_iff)
qed

lemma training_value_in_range:
  assumes "unat bits \<in> {1, 2, 3, 4}" and "i < 96"
  shows "unat (fst (training_value preamble bits state i)) < 2 ^ unat bits"
proof -
  have masked: "unat (ucast (x AND 1) :: u8) < 2" "unat (ucast (x AND 3) :: u8) < 4" "unat (ucast (x AND 7) :: u8) < 8"
    "unat (ucast (x AND 15) :: u8) < 16" for x :: u32
    by (rule le_less_trans [OF masked_byte], simp)+
  have b: "bits = 1 \<or> bits = 2 \<or> bits = 3 \<or> bits = 4" using assms(1) by (auto simp: word_unat_eq_iff)
  show ?thesis
  proof (cases "bits = 1 \<or> 32 \<le> i")
    case True
    with b masked show ?thesis
      by (elim disjE) (auto simp: training_value_def Let_def push_bit_eq_mult)
  next
    case False
    let ?s = "(if preamble = RTNC_PREAMBLE_DATA then acquisition_symbols else control_acquisition_symbols) ! i"
    have "unat ?s < 4" using acquisition_lists False by (auto simp: list_all_length)
    then have "?s = 0 \<or> ?s = 1 \<or> ?s = 2 \<or> ?s = 3" by (rule below_four)
    with b False show ?thesis by (elim disjE) (simp_all add: training_value_def)
  qed
qed

lemma training_supplied:
  assumes "dsp_supplies L F" and "modem_ready m" and "set is \<subseteq> {..<96}"
  shows "fst (map_training L m state is)"
  using assms(2,3)
proof (induction "is" arbitrary: m state)
  case (Cons i "is")
  obtain v state' where v: "training_value (mo_preamble m) (pp_bits_per_symbol (mo_profile m)) state i = (v, state')"
    by fastforce
  obtain modulator where live: "ps_modulator (mo_psk m) = Some modulator"
      "ps_bits_per_symbol (mo_psk m) = pp_bits_per_symbol (mo_profile m)" "rtnc_phy_profile_is_valid (mo_profile m)"
    using Cons.prems(1) by (auto simp: modem_ready_def tx_live_def)
  have "unat (pp_bits_per_symbol (mo_profile m)) \<in> {1, 2, 3, 4}"
    using valid_profile_bits [OF live(3)] by (simp add: bits_of_modulation_def split: rtnc_modulation.splits)
  from training_value_in_range [OF this, of i "mo_preamble m" state] Cons.prems(2) v
  have range: "unat v < 2 ^ unat (ps_bits_per_symbol (mo_psk m))" by (simp add: live(2))
  obtain q x where q: "modemcf_modulate L modulator (unat v) = (True, q, x)" using dsp_supplied(9) [OF assms(1)] by blast
  let ?m = "m \<lparr> mo_psk := (mo_psk m) \<lparr> ps_modulator := Some q \<rparr>, mo_training := (mo_training m)[i := x] \<rparr>"
  have "modem_ready ?m" using Cons.prems(1) by (auto simp: modem_ready_def tx_live_def)
  from Cons.IH [OF this, of state'] Cons.prems(2) v range live(1) q show ?case by (simp add: rtnc_psk_map_def)
qed simp

lemma modem_supplied:
  assumes "dsp_supplies L F" and "modem_arguments_ok profile fec_mode cls" and "pp_sample_rate_hz profile = 48000"
  shows "\<exists>m. rtnc_modem_init_profile L m0 fec_mode cls profile = (True, m) \<and> mo_profile m = profile \<and>
    mo_fec_mode m = fec_mode \<and> mo_payload_class_bytes m = cls"
proof -
  have valid: "rtnc_phy_profile_is_valid profile" using assms(2) by (simp add: modem_arguments_ok_def)
  let ?b = "blank_modem profile fec_mode cls RTNC_PREAMBLE_DATA :: 'a rtnc_modem"
  have set: "mo_profile ?b = profile" "mo_fec_mode ?b = fec_mode" "mo_payload_class_bytes ?b = cls"
    "length (mo_training ?b) = 96" by (simp_all add: blank_modem_def)
  obtain m1 where b: "init_blocks L ?b = (True, m1)"
    using blocks_supplied [OF assms(1), of ?b] valid assms(3) set(1) by (metis (full_types) prod.collapse)
  from init_blocks_ok [OF b] valid assms(2) set have "modem_ready m1" by (auto simp: modem_ready_def same_settings_def)
  from training_supplied [OF assms(1) this, of "[0..<96]" "0x9e3779b9"] obtain m where
    "map_training L m1 0x9e3779b9 [0..<96] = (True, m)"
    by (cases "map_training L m1 0x9e3779b9 [0..<96]") (auto simp: subset_eq)
  then have "rtnc_modem_init_profile L m0 fec_mode cls profile = (True, m)"
    using assms(2) b by (simp add: rtnc_modem_init_profile_def rtnc_modem_init_profile_preamble_def)
  with modem_init_all_or_nothing [where L = L and ?m0.0 = m0 and fec_mode = fec_mode and cls = cls and profile = profile
      and preamble = RTNC_PREAMBLE_DATA] assms(2) show ?thesis
    by (auto simp: rtnc_modem_init_profile_def)
qed

section \<open>The stages of a start\<close>

definition hardware_supplies :: "'w alsa \<Rightarrow> 'w gpiod \<Rightarrow> 'w host \<Rightarrow> rtnc_platform_config \<Rightarrow> bool" where
  \<comment> \<open>the sound card opens with the configured parameters, the line can be requested, the service can listen, and
      threads can be created\<close>
  "hardware_supplies A G H config \<longleftrightarrow>
    (\<forall>w. fst (rtnc_audio_init A None (pc_audio config) w)) \<and> (\<forall>h w. 0 \<le> fst (snd_pcm_start A h w)) \<and>
    (\<forall>w. fst (pthread_create_capture A w) = 0) \<and> (\<forall>w. fst (rtnc_ptt_init G (pc_ptt config) w)) \<and>
    (\<forall>w. 0 \<le> fst (open_kiss_socket H (rc_kiss_tcp_port (pc_runtime config)) w)) \<and>
    (\<forall>w. fst (host_pthread_create H w) = 0)"

definition window_needed :: "rtnc_platform_config \<Rightarrow> rtnc_phy_profile_config \<Rightarrow> rtnc_phy_profile \<Rightarrow> nat" where
  \<comment> \<open>pretrigger, a whole frame and a guard of four symbols, less the 45 symbols the trigger comes too late\<close>
  "window_needed config entry profile =
    48 * unat (dc_pretrigger_ms (pc_detector config)) +
    (case rtnc_modem_profile_rate profile (fec_mode_of (pf_fec_mode entry)) (pf_payload_class_bytes entry) of
       None \<Rightarrow> 0 | Some rate \<Rightarrow> mr_frame_samples rate) +
    4 * unat (pp_samples_per_symbol profile) - 45 * unat (pp_samples_per_symbol profile)"

definition window_allowed :: "rtnc_platform_config \<Rightarrow> nat" where
  "window_allowed config = min RTNC_MODEM_MAX_AUDIO_SAMPLES (48 * unat (dc_maximum_busy_ms (pc_detector config)))"

definition untouched_audio :: "rtnc_burst_detector_config \<Rightarrow> ('d, 'w) daemon \<Rightarrow> bool" where
  \<comment> \<open>what the first stages leave alone\<close>
  "untouched_audio detector daemon \<longleftrightarrow> dm_detector_config daemon = detector \<and> ax_audio (dm_context daemon) = None"

lemma detector_stage:
  assumes "platform_config_is_valid config"
  shows "\<exists>daemon detector. start_detector config (prepare_decoders options (cold_daemon w)) = (True, daemon) \<and>
    untouched_audio detector daemon \<and> burst_config_ok detector \<and>
    bc_pretrigger_samples detector = 48 * unat (dc_pretrigger_ms (pc_detector config)) \<and>
    bc_maximum_active_samples detector = window_allowed config"
proof -
  obtain detector where d: "rtnc_platform_burst_config config (bd_config zero_detector) = Some detector" "burst_config_ok detector"
    using burst_config_accepted [OF assms, of "bd_config zero_detector"] by blast
  from assms have rate: "ac_sample_rate_hz (pc_audio config) = 48000" by (rule valid_config_parts)
  have samples: "samples_of_ms 48000 ms = 48 * unat ms" for ms using div_mult_mult1 [of 1000 "48 * unat ms" 1]
    by (simp add: samples_of_ms_def)
  from d(1) have "bc_pretrigger_samples detector = 48 * unat (dc_pretrigger_ms (pc_detector config))"
    "bc_maximum_active_samples detector = window_allowed config"
    by (auto simp: rtnc_platform_burst_config_def rate samples window_allowed_def Let_def split: if_splits)
  with d show ?thesis
    by (simp add: start_detector_def prepare_decoders_def cold_daemon_def rtnc_burst_detector_init_def untouched_audio_def)
qed

lemma worker_ranges:
  assumes "platform_config_is_valid config"
  shows "2 \<le> unat (wc_dsp_queue_blocks (pc_workers config)) \<and> unat (wc_dsp_queue_blocks (pc_workers config)) \<le> 32"
    "2 \<le> unat (wc_decode_queue_frames (pc_workers config)) \<and> unat (wc_decode_queue_frames (pc_workers config)) \<le> 8"
    "1 \<le> unat (wc_equalizer_queue_frames (pc_workers config)) \<and> unat (wc_equalizer_queue_frames (pc_workers config)) \<le> 8"
  using assms by (auto elim!: valid_config_parts simp: workers_in_range_def word_le_nat_alt)

lemma queues_stage:
  assumes "platform_config_is_valid config" and "untouched_audio detector daemon"
  shows "\<exists>daemon'. start_queues (pc_workers config) daemon = (True, daemon') \<and> untouched_audio detector daemon'"
  using assms(2) worker_ranges [OF assms(1)]
  by (auto simp: start_queues_def rtnc_audio_ring_init_def rtnc_decode_queue_init_def untouched_audio_def Let_def)

definition holds_modem :: "rtnc_phy_profile \<Rightarrow> rtnc_phy_profile_config \<Rightarrow> ('d, 'w) daemon \<Rightarrow> bool" where
  "holds_modem profile entry daemon \<longleftrightarrow> mo_profile (de_modem (dm_decoder daemon)) = profile \<and>
    mo_fec_mode (de_modem (dm_decoder daemon)) = fec_mode_of (pf_fec_mode entry) \<and>
    mo_payload_class_bytes (de_modem (dm_decoder daemon)) = pf_payload_class_bytes entry"

lemma modems_stage:
  assumes "dsp_supplies L F" and "profile_of_entry entry = Some profile" and "untouched_audio detector daemon"
    and "rtnc_modem_profile_rate profile (fec_mode_of (pf_fec_mode entry)) (pf_payload_class_bytes entry) \<noteq> None"
  shows "if modem_arguments_ok profile (fec_mode_of (pf_fec_mode entry)) (pf_payload_class_bytes entry)
    then \<exists>daemon'. start_modems L config entry profile daemon = (True, daemon') \<and> untouched_audio detector daemon' \<and>
      holds_modem profile entry daemon'
    else \<not> fst (start_modems L config entry profile daemon)"
proof -
  let ?fec = "fec_mode_of (pf_fec_mode entry)" and ?c = "pf_payload_class_bytes entry"
  show ?thesis
  proof (cases "modem_arguments_ok profile ?fec ?c")
    case True
    note ok = modem_supplied [OF assms(1) True profile_of_entry_sample_rate [OF assms(2)]]
    obtain m1 where m1: "rtnc_modem_init_profile L (de_modem (dm_decoder daemon)) ?fec ?c profile = (True, m1)"
      "mo_profile m1 = profile" "mo_fec_mode m1 = ?fec" "mo_payload_class_bytes m1 = ?c" using ok by blast
    obtain m2 where m2: "rtnc_modem_init_profile L (de_modem (dm_equalizer_decoder daemon)) ?fec ?c profile = (True, m2)"
      using ok by blast
    from True m1 m2 assms(3,4) show ?thesis
      by (auto simp: start_modems_def untouched_audio_def holds_modem_def Let_def)
  next
    case False
    then have "\<not> fst (rtnc_modem_init_profile L (de_modem (dm_decoder daemon)) ?fec ?c profile)"
      by (simp add: rtnc_modem_init_profile_def rtnc_modem_init_profile_preamble_def)
    with False assms(4) show ?thesis by (auto simp: start_modems_def Let_def split: prod.splits)
  qed
qed

lemma completion_stage:
  assumes "platform_config_is_valid config" and "untouched_audio detector daemon" and "holds_modem profile entry daemon"
  shows "\<exists>daemon'. start_completion options (pc_workers config) profile daemon = (True, daemon') \<and>
    untouched_audio detector daemon' \<and> holds_modem profile entry daemon'"
  using assms(2,3) worker_ranges(2,3) [OF assms(1)]
  by (cases "dm_equalizer_modem_initialized daemon")
    (auto simp: start_completion_def rtnc_completion_init_def untouched_audio_def holds_modem_def Let_def)

lemma window_stage:
  assumes "untouched_audio detector daemon" and "holds_modem profile entry daemon" and "burst_config_ok detector"
    and "bc_pretrigger_samples detector = 48 * unat (dc_pretrigger_ms (pc_detector config))"
    and "bc_maximum_active_samples detector = window_allowed config"
  shows "if window_needed config entry profile \<le> window_allowed config
    then \<exists>daemon'. start_window daemon = (True, daemon') \<and> ax_audio (dm_context daemon') = None \<and>
      holds_modem profile entry daemon'
    else \<not> fst (start_window daemon)"
proof -
  have "capture_window (de_modem (dm_decoder daemon)) (dm_detector_config daemon) = window_needed config entry profile"
    using assms(1,2,4)
    by (simp add: capture_window_def window_needed_def rtnc_modem_frame_samples_def untouched_audio_def holds_modem_def Let_def)
  with assms(1-3,5) show ?thesis
    by (auto simp: start_window_def rtnc_burst_detector_init_def untouched_audio_def holds_modem_def burst_config_ok_def Let_def)
qed

lemma acquisition_supplied:
  assumes "dsp_supplies L F" and "rtnc_phy_profile_is_valid p" and "pp_sample_rate_hz p = 48000"
  shows "fst (rtnc_acquisition_detector_init L detector p symbols 4 (pp_acquisition_threshold p))"
proof -
  let ?d = "fresh_detector symbols (32 * unat (pp_samples_per_symbol p)) 4 (pp_acquisition_threshold p) :: 'a rtnc_acquisition_detector"
  obtain carrier where c: "rtnc_carrier_init L (ad_carrier ?d) 48000 (pp_carrier_hz p) = (True, carrier)"
    using carrier_supplied [OF assms(1) valid_profile_ranges(5) [OF assms(2)], of "ad_carrier ?d"]
    by (metis (full_types) prod.collapse)
  obtain rrc where r: "rtnc_rrc_init L (ad_rrc ?d) (pp_samples_per_symbol p) 7 (pp_rrc_rolloff p) = (True, rrc)"
    using rrc_supplied [OF assms(1,2), of "ad_rrc ?d"] by (metis (full_types) prod.collapse)
  show ?thesis using c r assms(2,3) valid_profile_ranges(3,4) [OF assms(2)] valid_profile_period(3) [OF assms(2)]
    by (simp add: rtnc_acquisition_detector_init_def Let_def)
qed

lemma frontend_stage:
  assumes "dsp_supplies L F" and "rtnc_phy_profile_is_valid profile" and "pp_sample_rate_hz profile = 48000"
    and "ac_sample_rate_hz (pc_audio config) = 48000"
    and "ax_audio (dm_context daemon) = None" and "holds_modem profile entry daemon"
  shows "\<exists>daemon'. start_frontend L F config entry profile daemon = (True, daemon') \<and> ax_audio (dm_context daemon') = None"
proof -
  obtain acquisition where a: "rtnc_acquisition_detector_init L (dm_acquisition_detector daemon) profile
      (mo_training (de_modem (dm_decoder daemon))) 4 (pp_acquisition_threshold profile) = (True, acquisition)"
    using acquisition_supplied [OF assms(1-3)] by (metis (full_types) prod.collapse)
  obtain carrier where c: "rtnc_carrier_init L (dm_power_carrier daemon) 48000 (pp_carrier_hz profile) = (True, carrier)"
    using carrier_supplied [OF assms(1) valid_profile_ranges(5) [OF assms(2)]] by (metis (full_types) prod.collapse)
  show ?thesis using a c assms(4-6) dsp_supplied(8) [OF assms(1)]
    by (simp add: start_frontend_def holds_modem_def Let_def)
qed

lemma runtime_stage:
  assumes "dsp_supplies L F" and "platform_config_is_valid config" and "profile_of_entry entry = Some profile"
    and "modem_arguments_ok profile (fec_mode_of (pf_fec_mode entry)) (pf_payload_class_bytes entry)"
  shows "rtnc_runtime_init L modem reassembly profile (fec_mode_of (pf_fec_mode entry)) (pf_payload_class_bytes entry)
       (lk_mtu (pc_link config)) (lk_reassembly_timeout_ms (pc_link config))
       (unat (rc_tx_queue_packets (pc_runtime config))) (unat (rc_rx_queue_packets (pc_runtime config)))
       (rc_channel_busy_timeout_ms (pc_runtime config)) (rc_rx_guard_ms (pc_runtime config))
       (tx_config_of (pc_tx config)) B \<noteq> None \<longleftrightarrow>
    unat (lk_mtu (pc_link config)) \<le> 128 * (unat (pf_payload_class_bytes entry) - 1)"
proof -
  let ?mtu = "unat (lk_mtu (pc_link config))" and ?c = "unat (pf_payload_class_bytes entry)"
  from assms(2) have gain: "Fin (1 / 10) \<le> lt_filter_gain (pc_tx config)" "lt_filter_gain (pc_tx config) \<le> Fin 4"
    and link: "link_in_range (pc_link config) (pc_runtime config)" by (auto elim: valid_config_parts)
  have g: "0 < tc_filter_gain (tx_config_of (pc_tx config))"
    using gain fp_between [of "1 / 10" "lt_filter_gain (pc_tx config)" 4] by (auto simp: tx_config_of_def real_of_fp_def)
  have l: "500 \<le> ?mtu" "?mtu \<le> 16256"
    "1 \<le> unat (rc_tx_queue_packets (pc_runtime config))" "unat (rc_tx_queue_packets (pc_runtime config)) \<le> 8"
    "1 \<le> unat (rc_rx_queue_packets (pc_runtime config))" "unat (rc_rx_queue_packets (pc_runtime config)) \<le> 8"
    "1000 \<le> unat (lk_reassembly_timeout_ms (pc_link config))" "100 \<le> unat (rc_channel_busy_timeout_ms (pc_runtime config))"
    using link by (simp_all add: link_in_range_def word_le_nat_alt)
  have nz: "lk_reassembly_timeout_ms (pc_link config) \<noteq> 0" "rc_channel_busy_timeout_ms (pc_runtime config) \<noteq> 0" using l(7,8) by auto
  obtain tx rx where q: "rtnc_packet_queue_init (unat (rc_tx_queue_packets (pc_runtime config))) ?mtu = Some tx"
    "rtnc_packet_queue_init (unat (rc_rx_queue_packets (pc_runtime config))) ?mtu = Some rx"
    using l by (simp add: rtnc_packet_queue_init_def not_less)
  have c: "?c = 64 \<or> ?c = 128" using profile_of_entry_valid [OF assms(3)] by auto
  have "fst (rtnc_reassembly_init reassembly (replicate 16256 0) ?mtu ?c (lk_reassembly_timeout_ms (pc_link config))) =
      RTNC_FRAGMENT_OK \<longleftrightarrow> ?mtu \<le> 128 * (?c - 1)"
    using c l(1,2) nz(1) by (auto simp: rtnc_reassembly_init_def valid_payload_class_def)
  then show ?thesis
    using q l(1,2) nz(2) g modem_supplied [OF assms(1,4) profile_of_entry_sample_rate [OF assms(3)], of modem]
    by (auto simp: rtnc_runtime_init_def not_less split: prod.splits)
qed

lemma audio_stage:
  assumes "dsp_supplies L F" and "hardware_supplies A G H config" and "platform_config_is_valid config"
    and "profile_of_entry entry = Some profile"
    and "modem_arguments_ok profile (fec_mode_of (pf_fec_mode entry)) (pf_payload_class_bytes entry)"
    and "ax_audio (dm_context daemon) = None"
  shows "if do_packet_mode options \<longrightarrow> unat (lk_mtu (pc_link config)) \<le> 128 * (unat (pf_payload_class_bytes entry) - 1)
    then \<exists>daemon' sound. start_audio L A G P options config entry profile reassembly daemon = (True, daemon') \<and>
      ax_audio (dm_context daemon') = Some sound \<and> \<not> ai_thread_started sound
    else \<not> fst (start_audio L A G P options config entry profile reassembly daemon)"
proof -
  obtain audio v where a: "rtnc_audio_init A None (pc_audio config) (dm_world daemon) = (True, audio, v)"
    using assms(2) unfolding hardware_supplies_def by (metis (full_types) prod.collapse)
  then obtain sound where s: "audio = Some sound" "\<not> ai_thread_started sound"
    by (auto simp: rtnc_audio_init_def Let_def split: prod.splits if_splits option.splits)
  obtain ptt u where t: "rtnc_ptt_init G (pc_ptt config) v = (True, ptt, u)"
    using assms(2) unfolding hardware_supplies_def by (metis (full_types) prod.collapse)
  note runtime = runtime_stage [OF assms(1,3,4,5), of zero_modem reassembly "rtnc_alsa_runtime_backend A G P"]
  show ?thesis using a s t runtime assms(6)
    by (auto simp: start_audio_def start_packet_runtime_def proceed_def set_world_def Let_def split: option.splits)
qed

lemma service_stage:
  assumes "hardware_supplies A G H config"
  shows "\<exists>daemon'. start_service H options (rc_kiss_tcp_port (pc_runtime config)) daemon = (True, daemon') \<and>
    ax_audio (dm_context daemon') = ax_audio (dm_context daemon)"
proof -
  obtain descriptor v where d: "open_kiss_socket H (rc_kiss_tcp_port (pc_runtime config)) (dm_world daemon) = (descriptor, v)"
    "\<not> descriptor < 0" using assms unfolding hardware_supplies_def by (metis fst_conv not_less surj_pair)
  obtain u where "host_pthread_create H v = (0, u)"
    using assms unfolding hardware_supplies_def by (metis fst_conv surj_pair)
  with d show ?thesis by (simp add: start_service_def set_world_def Let_def)
qed

lemma threads_stage:
  assumes "hardware_supplies A G H config" and "ax_audio (dm_context daemon) = Some sound" and "\<not> ai_thread_started sound"
  shows "fst (start_threads A H two daemon)"
proof -
  have created: "\<exists>u. host_pthread_create H v = (0, u)" for v
    using assms(1) unfolding hardware_supplies_def by (metis fst_conv surj_pair)
  obtain u where u: "host_pthread_create H (dm_world daemon) = (0, u)" using created by blast
  obtain u' where u': "host_pthread_create H u = (0, u')" using created by blast
  have captured: "\<exists>r. rtnc_audio_start_capture A (Some sound) v = (True, r)" for v
  proof -
    obtain result v1 where 1: "snd_pcm_start A (ai_capture sound) v = (result, v1)" "\<not> result < 0"
      using assms(1) unfolding hardware_supplies_def by (metis fst_conv not_less surj_pair)
    obtain v2 where "pthread_create_capture A v1 = (0, v2)"
      using assms(1) unfolding hardware_supplies_def by (metis fst_conv surj_pair)
    with 1 assms(3) show ?thesis by (simp add: rtnc_audio_start_capture_def)
  qed
  show ?thesis
  proof (cases two)
    case True
    obtain r where "rtnc_audio_start_capture A (Some sound) u' = (True, r)" using captured by blast
    with True u u' assms(2) show ?thesis by (cases r) (simp add: start_threads_def set_world_def)
  next
    case False
    obtain r where "rtnc_audio_start_capture A (Some sound) u = (True, r)" using captured by blast
    with False u assms(2) show ?thesis by (cases r) (simp add: start_threads_def set_world_def)
  qed
qed

section \<open>Properties\<close>

text \<open>
  C26: which accepted configurations the daemon starts with.  Supposing that the DSP library supplies every object, the
  sound card and the PTT line open, the service can listen and threads can be created, a daemon with a
  configuration that passes validation starts exactly where the constellation is BPSK or QPSK or there is FEC,
  where pretrigger, a whole frame and the guard, less the delay of the trigger, fit the longest candidate the detector
  may record, and where, in packet mode, the MTU fits 128 fragments of the payload class.  Validation tests
  none of the three; every other step of the start, from the rings and queues to both detectors, the modems and
  the completion window, succeeds with whatever it accepts.
\<close>

theorem daemon_starts_exactly:
  assumes "dsp_supplies (L :: 'd liquid) F" and "hardware_supplies (A :: 'w alsa) G H config" and "platform_config_is_valid config"
    and "rtnc_platform_profile_config_named config (do_profile options) = Some entry"
    and "rtnc_platform_phy_profile_named config (pf_name entry) = Some profile"
  shows "fst (start_daemon L F A G P H reassembly (Some config) options w) \<longleftrightarrow>
    (pf_fec_mode entry \<noteq> 0 \<or> pp_modulation profile = RTNC_MODULATION_BPSK \<or> pp_modulation profile = RTNC_MODULATION_QPSK) \<and>
    window_needed config entry profile \<le> window_allowed config \<and>
    (do_packet_mode options \<longrightarrow> unat (lk_mtu (pc_link config)) \<le> 128 * (unat (pf_payload_class_bytes entry) - 1))"
proof -
  let ?fec = "fec_mode_of (pf_fec_mode entry)" and ?c = "pf_payload_class_bytes entry"
  have named: "entry \<in> set (pc_profiles config)" "profile_of_entry entry = Some profile"
  proof -
    from named_entry_name assms(4) show "entry \<in> set (pc_profiles config)"
      by (auto simp: rtnc_platform_profile_config_named_def)
    from named_entry_name assms(4) have "pf_name entry = do_profile options"
      by (auto simp: rtnc_platform_profile_config_named_def)
    with assms(4,5) show "profile_of_entry entry = Some profile"
      by (simp add: rtnc_platform_profile_config_named_def rtnc_platform_phy_profile_named_def named_profile_entry)
  qed
  from assms(3) have usable: "profiles_usable config (pc_profiles config)" by (rule valid_config_parts)
  from assms(3) have card: "ac_sample_rate_hz (pc_audio config) = 48000" by (rule valid_config_parts)
  from profiles_usable_rate [OF usable named(1)] assms(5)
  have rate: "rtnc_modem_profile_rate profile ?fec ?c \<noteq> None" by simp
  note valid = profile_of_entry_valid [OF named(2)]
  have args: "modem_arguments_ok profile ?fec ?c \<longleftrightarrow>
      pf_fec_mode entry \<noteq> 0 \<or> pp_modulation profile = RTNC_MODULATION_BPSK \<or> pp_modulation profile = RTNC_MODULATION_QPSK"
    using valid entry_fec_mode [OF named(2)] by (cases ?fec) (auto simp: modem_arguments_ok_def)
  have loaded: "rtnc_platform_config_load (Some config) = Some config" using assms(3) by (simp add: rtnc_platform_config_load_def)
  obtain d1 detector where 1: "start_detector config (prepare_decoders options (cold_daemon w)) = (True, d1 :: ('d, 'w) daemon)"
    "untouched_audio detector d1" "burst_config_ok detector"
    "bc_pretrigger_samples detector = 48 * unat (dc_pretrigger_ms (pc_detector config))"
    "bc_maximum_active_samples detector = window_allowed config"
    using detector_stage [OF assms(3), of options w] by (elim exE conjE) (rule that)
  obtain d2 where 2: "start_queues (pc_workers config) d1 = (True, d2)" "untouched_audio detector d2"
    using queues_stage [OF assms(3) 1(2)] by blast
  note start = start_daemon_def Let_def loaded assms(4,5) 1(1) 2(1) proceed_def
  note modems = modems_stage [OF assms(1) named(2) 2(2) rate, of config]
  show ?thesis
  proof (cases "modem_arguments_ok profile ?fec ?c")
    case False
    with modems args show ?thesis by (auto simp: start)
  next
    case True
    with modems obtain d3 where 3: "start_modems L config entry profile d2 = (True, d3)" "untouched_audio detector d3"
      "holds_modem profile entry d3" by auto
    obtain d4 where 4: "start_completion options (pc_workers config) profile d3 = (True, d4)" "untouched_audio detector d4"
      "holds_modem profile entry d4" using completion_stage [OF assms(3) 3(2,3)] by blast
    note window = window_stage [OF 4(2,3) 1(3-5)]
    show ?thesis
    proof (cases "window_needed config entry profile \<le> window_allowed config")
      case False
      with window show ?thesis by (simp add: start 3(1) 4(1))
    next
      case fits: True
      with window obtain d5 where 5: "start_window d4 = (True, d5)" "ax_audio (dm_context d5) = None"
        "holds_modem profile entry d5" by auto
      obtain d6 where 6: "start_frontend L F config entry profile d5 = (True, d6)" "ax_audio (dm_context d6) = None"
        using frontend_stage [OF assms(1) _ profile_of_entry_sample_rate [OF named(2)] card 5(2,3)] valid by blast
      note audio = audio_stage [OF assms(1-3) named(2) True 6(2), of options P reassembly]
      note started = start 3(1) 4(1) 5(1) 6(1)
      show ?thesis
      proof (cases "do_packet_mode options \<longrightarrow> unat (lk_mtu (pc_link config)) \<le> 128 * (unat ?c - 1)")
        case False
        with audio have "\<not> fst (start_audio L A G P options config entry profile reassembly d6)" by presburger
        with False show ?thesis by (simp add: started)
      next
        case mtu: True
        with audio obtain d7 sound where 7: "start_audio L A G P options config entry profile reassembly d6 = (True, d7)"
          "ax_audio (dm_context d7) = Some sound" "\<not> ai_thread_started sound" by auto
        obtain d8 where 8: "start_service H options (rc_kiss_tcp_port (pc_runtime config)) d7 = (True, d8)"
          "ax_audio (dm_context d8) = Some sound" using service_stage [OF assms(2), of options d7] 7(2) by auto
        note threads_stage [OF assms(2) 8(2) 7(3)]
        with True args fits mtu show ?thesis by (simp add: started 7(1) 8(1))
      qed
    qed
  qed
qed

text \<open>
  The witness: the example configuration starts; with candidates of at most half a second its frame does not fit, and
  with an MTU of 9000 bytes in the 64-byte class its fragments do not, and neither starts, though both are valid.
\<close>

definition short_candidates :: rtnc_platform_config where
  "short_candidates = platform \<lparr> pc_detector := (pc_detector platform) \<lparr> dc_maximum_busy_ms := 500 \<rparr> \<rparr>"

definition many_fragments :: rtnc_platform_config where
  "many_fragments = example_platform (example_entry \<lparr> pf_payload_class_bytes := 64 \<rparr>) identity_taps 9000"

lemma short_candidates_valid: "platform_config_is_valid short_candidates"
proof -
  have "profiles_usable short_candidates entries = profiles_usable platform entries" for entries
    by (induction entries) (simp_all add: rtnc_platform_phy_profile_named_def short_candidates_def split: option.splits)
  moreover have "detector_in_range (pc_detector short_candidates)"
    by (simp add: short_candidates_def platform_def example_platform_def detector_in_range_def)
  ultimately show ?thesis using platform(2)
    by (simp add: platform_config_is_valid_def platform_phy_profile_def rtnc_platform_phy_profile_named_def
      rtnc_platform_profile_config_named_def short_candidates_def del: upt_rec_numeral split: option.splits prod.splits if_splits)
qed

lemma example_supplies:
  "dsp_supplies example_liquid example_power_filter"
  "pc_audio config = pc_audio platform \<Longrightarrow> hardware_supplies example_alsa example_gpio_card example_host config"
proof -
  show "dsp_supplies example_liquid example_power_filter"
    by (simp add: dsp_supplies_def example_liquid_def example_power_filter_def)
  assume "pc_audio config = pc_audio platform"
  then have "fst (rtnc_audio_init example_alsa None (pc_audio config) w)" for w
    using example_audio [of w] by (metis fst_conv)
  then show "hardware_supplies example_alsa example_gpio_card example_host config"
    by (simp add: hardware_supplies_def rtnc_ptt_init_def open_kiss_socket_def)
      (simp add: example_alsa_def example_gpio_card_def example_host_def)
qed

theorem daemon_starts_exactly_witness:
  "fst (start_daemon example_liquid example_power_filter example_alsa example_gpio_card example_posix example_host
     example_receiver (Some platform) example_options (1, [])) \<and>
   platform_config_is_valid short_candidates \<and>
   \<not> fst (start_daemon example_liquid example_power_filter example_alsa example_gpio_card example_posix example_host
     example_receiver (Some short_candidates) example_options (1, [])) \<and>
   platform_config_is_valid many_fragments \<and>
   \<not> fst (start_daemon example_liquid example_power_filter example_alsa example_gpio_card example_posix example_host
     example_receiver (Some many_fragments) example_options (1, []))"
proof -
  let ?e = "example_entry \<lparr> pf_payload_class_bytes := 64 \<rparr>"
  have valid: "platform_config_is_valid many_fragments" "profile_of_entry ?e = Some rtnc_phy_profile_qpsk_1200"
    using example_valid [OF refl, of 64 9000] by (simp_all add: many_fragments_def)
  have audio: "pc_audio short_candidates = pc_audio platform" "pc_audio many_fragments = pc_audio platform"
    by (simp_all add: short_candidates_def many_fragments_def platform_def example_platform_def)
  have short: "rtnc_platform_profile_config_named short_candidates (do_profile example_options) = Some example_entry"
    "rtnc_platform_phy_profile_named short_candidates (pf_name example_entry) = Some rtnc_phy_profile_qpsk_1200"
    using platform(3,4) by (simp_all add: short_candidates_def rtnc_platform_profile_config_named_def rtnc_platform_phy_profile_named_def)
  have many: "rtnc_platform_profile_config_named many_fragments (do_profile example_options) = Some ?e"
    "rtnc_platform_phy_profile_named many_fragments (pf_name ?e) = Some rtnc_phy_profile_qpsk_1200"
    using valid(2) by (simp_all add: many_fragments_def rtnc_platform_profile_config_named_def
      rtnc_platform_phy_profile_named_def example_platform_def example_options_def example_entry_def)
  have window: "window_needed platform example_entry rtnc_phy_profile_qpsk_1200 = 40280"
    "window_needed short_candidates example_entry rtnc_phy_profile_qpsk_1200 = 40280"
    by (simp_all add: window_needed_def short_candidates_def platform_def example_platform_def example_profile_simps)
  have allowed: "window_allowed platform = 90000" "window_allowed short_candidates = 24000"
    by (simp_all add: window_allowed_def short_candidates_def platform_def example_platform_def)
  have link: "unat (lk_mtu (pc_link platform)) = 500" "unat (lk_mtu (pc_link many_fragments)) = 9000"
    "unat (pf_payload_class_bytes example_entry) = 128" "unat (pf_payload_class_bytes ?e) = 64"
    "pp_modulation rtnc_phy_profile_qpsk_1200 = RTNC_MODULATION_QPSK" "do_packet_mode example_options"
    by (simp_all add: many_fragments_def platform_def example_platform_def example_entry_def
      rtnc_phy_profile_qpsk_1200_def example_options_def)
  note starts = daemon_starts_exactly [OF example_supplies(1) example_supplies(2)]
  show ?thesis
    using starts [OF refl platform(2,3,4)] starts [OF audio(1) short_candidates_valid short]
      starts [OF audio(2) valid(1) many] window allowed link short_candidates_valid valid(1)
    by simp
qed

end
