(* ===== verification/DaemonPackets.thy ===== *)
theory DaemonPackets
  imports DaemonExamples
begin

text \<open>
  Packets between the radio side of the receive daemon and its KISS client: the fragments of a packet,
  delivered as completions, reach the client as one KISS frame, and the bytes of the client's TCP stream,
  however they are cut into reads, end up as packets in the transmit queue.
\<close>

section \<open>From completions to the client\<close>

fun deliver_completions ::
    "'w host \<Rightarrow> daemon_options \<Rightarrow> rtnc_completion list \<Rightarrow> ('d, 'w) daemon \<Rightarrow> ('d, 'w) daemon" where
  \<comment> \<open>completions popped one after the other\<close>
  "deliver_completions H options [] daemon = daemon"
| "deliver_completions H options (completion # rest) daemon =
    deliver_completions H options rest (deliver_completion H options completion daemon)"

fun clock_readings :: "'w host \<Rightarrow> nat \<Rightarrow> 'w \<Rightarrow> u64 list \<times> 'w" where
  \<comment> \<open>what the clock says at that many calls in turn\<close>
  "clock_readings H 0 w = ([], w)"
| "clock_readings H (Suc n) w =
    (let (now, w) = monotonic_ms H w; (more, w) = clock_readings H n w in (now # more, w))"

definition completion_of :: "bytes \<Rightarrow> rtnc_completion \<Rightarrow> bool" where
  "completion_of payload completion \<longleftrightarrow>
    co_success completion \<and> take (co_payload_length completion) (co_payload completion) = payload"

definition client_gets :: "'w host \<Rightarrow> bytes \<Rightarrow> int \<Rightarrow> 'w \<Rightarrow> int \<times> 'w" where
  \<comment> \<open>the client and the world after a frame was sent: a client that does not take all of it is closed\<close>
  "client_gets H encoded client w =
    (let (sent, w) = host_send H client encoded w
     in if sent = int (length encoded) then (client, w) else (- 1, host_close H client w))"

definition forwarded ::
    "'w host \<Rightarrow> bytes \<Rightarrow> 'w \<Rightarrow> ('d, 'w) daemon \<Rightarrow> ('d, 'w) daemon \<Rightarrow> bool" where
  \<comment> \<open>the packet went to the client as one KISS frame, after the clock readings that led to \<open>w\<close>\<close>
  "forwarded H packet w daemon daemon' \<longleftrightarrow>
    (\<exists>encoded. rtnc_kiss_encode packet RTNC_KISS_MAX_ENCODED = Some encoded \<and>
       (dm_packet_client daemon', dm_world daemon') = client_gets H encoded (dm_packet_client daemon) w) \<and>
    dm_completed_packets daemon' = dm_completed_packets daemon + 1 \<and>
    (\<exists>runtime. dm_runtime daemon' = Some runtime \<and> packet_items (rt_rx_queue runtime) = [])"

lemma send_packet_client:
  assumes "rtnc_kiss_encode packet RTNC_KISS_MAX_ENCODED = Some encoded"
  shows "(dm_packet_client (send_packet H packet daemon), dm_world (send_packet H packet daemon)) =
    client_gets H encoded (dm_packet_client daemon) (dm_world daemon)"
proof -
  obtain sent w where s: "host_send H (dm_packet_client daemon) encoded (dm_world daemon) = (sent, w)" by fastforce
  with assms show ?thesis
    by (simp add: send_packet_def client_gets_def close_client_def set_world_def del: RTNC_KISS_MAX_ENCODED_def)
qed

lemma send_packet_keeps:
  "dm_runtime (send_packet H packet daemon) = dm_runtime daemon"
  "dm_completed_packets (send_packet H packet daemon) = dm_completed_packets daemon"
  by (simp_all add: send_packet_def close_client_def set_world_def Let_def split: prod.splits option.splits)

lemma world_sel [simp]:
  "dm_runtime (set_world w daemon) = dm_runtime daemon" "dm_packet_client (set_world w daemon) = dm_packet_client daemon"
  "dm_completed_packets (set_world w daemon) = dm_completed_packets daemon" "dm_world (set_world w daemon) = w"
  by (simp_all add: set_world_def)

lemma deliver_incomplete:
  assumes "dm_runtime daemon = Some runtime" "completion_of payload completion"
    and "rt_initialized runtime" "rt_state runtime = RTNC_RUNTIME_RX_IDLE"
    and "monotonic_ms H (dm_world daemon) = (now, w)"
    and "rtnc_reassembly_push (rt_reassembly runtime) payload now = (RTNC_FRAGMENT_INCOMPLETE, n, r)"
  shows "deliver_completion H options completion daemon =
    set_world w (daemon \<lparr> dm_runtime := Some (runtime \<lparr> rt_reassembly := r \<rparr>) \<rparr>)"
  using assms accept_incomplete [OF assms(3,4,6)] by (simp add: deliver_completion_def completion_of_def)

lemma deliver_last:
  assumes rt: "dm_runtime daemon = Some runtime" "completion_of payload completion"
    and init: "rt_initialized runtime" "rt_state runtime = RTNC_RUNTIME_RX_IDLE" "packet_queue_wf (rt_rx_queue runtime)"
    and p: "0 < length p" "length p \<le> pq_mtu (rt_rx_queue runtime)" "pq_mtu (rt_rx_queue runtime) \<le> RTNC_LINK_MAX_MTU"
    and empty: "packet_items (rt_rx_queue runtime) = []"
    and clock: "monotonic_ms H (dm_world daemon) = (now, w)"
    and push: "rtnc_reassembly_push (rt_reassembly runtime) payload now = (RTNC_FRAGMENT_OK, length p, r)"
      "take (length p) (ra_packet r) = p"
    and service: "do_service_mode options" "dm_packet_client daemon \<ge> 0"
  shows "forwarded H p w daemon (deliver_completion H options completion daemon)"
proof -
  have "0 < pq_capacity (rt_rx_queue runtime)" using init(3) by (simp add: packet_queue_wf_def)
  with empty have room: "length (packet_items (rt_rx_queue runtime)) < pq_capacity (rt_rx_queue runtime)" by simp
  have "packet_fits (rt_rx_queue runtime) (p, rt_next_rx_sequence runtime)" using p by (simp add: packet_fits_def)
  from packet_push_room [OF init(3) this room] empty obtain q where
    q: "rtnc_packet_queue_push (rt_rx_queue runtime) p (rt_next_rx_sequence runtime) = (True, q)" "packet_queue_wf q"
      "packet_items q = [(p, rt_next_rx_sequence runtime)]" by auto
  define rt1 where "rt1 = count_stats (\<lambda>st. st \<lparr> st_rx_packets := st_rx_packets st + 1,
      st_rx_bytes := st_rx_bytes st + of_nat (length p) \<rparr>)
    (runtime \<lparr> rt_reassembly := r, rt_rx_queue := q, rt_next_rx_sequence := rt_next_rx_sequence runtime + 1 \<rparr>)"
  have a: "rtnc_runtime_accept_fragment runtime payload now = (RTNC_RUNTIME_OK, rt1)"
    using init(1,2) push q(1) by (simp add: rtnc_runtime_accept_fragment_def rt1_def)
  have r1: "rt_initialized rt1" "rt_rx_queue rt1 = q" using init(1) by (simp_all add: rt1_def count_stats_def)
  obtain slot where slot: "rtnc_packet_queue_peek q = Some slot" "length p = sl_length slot"
    using packet_peek_head [OF q(2,3)] by auto
  have cap: "length p \<le> RTNC_LINK_MAX_MTU" using p(2,3) by (rule le_trans)
  from packet_pop_head [OF q(2,3), of RTNC_LINK_MAX_MTU] cap obtain q' where
    q': "rtnc_packet_queue_pop q RTNC_LINK_MAX_MTU = (Some (p, rt_next_rx_sequence runtime), q')" "packet_items q' = []" by auto
  have rec: "rtnc_runtime_receive_packet rt1 RTNC_LINK_MAX_MTU = (Inr p, rt1 \<lparr> rt_rx_queue := q' \<rparr>)"
    using r1 slot q'(1) cap by (simp add: rtnc_runtime_receive_packet_def)
  let ?d = "set_world w (daemon \<lparr> dm_runtime := Some rt1 \<rparr>) \<lparr> dm_runtime := Some (rt1 \<lparr> rt_rx_queue := q' \<rparr>) \<rparr>"
  have d: "deliver_completion H options completion daemon =
      send_packet H p ?d \<lparr> dm_completed_packets := dm_completed_packets (send_packet H p ?d) + 1 \<rparr>"
    using rt a rec clock service p(1) by (simp add: deliver_completion_def completion_of_def Let_def del: RTNC_LINK_MAX_MTU_def)
  have "p \<noteq> []" using p(1) by auto
  from kiss_encode_fits [OF this cap] obtain encoded where e: "rtnc_kiss_encode p RTNC_KISS_MAX_ENCODED = Some encoded" by blast
  from send_packet_client [OF e, of H ?d] have
    "(dm_packet_client (send_packet H p ?d), dm_world (send_packet H p ?d)) = client_gets H encoded (dm_packet_client daemon) w"
    by (simp add: set_world_def)
  with e q'(2) show ?thesis unfolding forwarded_def d
    by (simp add: send_packet_keeps del: RTNC_KISS_MAX_ENCODED_def)
qed

lemma deliver_fragments:
  assumes "push_all (rt_reassembly runtime) (zip payloads ticks) =
      (replicate k (RTNC_FRAGMENT_INCOMPLETE, 0) @ [(RTNC_FRAGMENT_OK, length p)], r)" "take (length p) (ra_packet r) = p"
    and "list_all2 completion_of payloads completions" "length ticks = length payloads"
    and "clock_readings H (length payloads) (dm_world daemon) = (ticks, w)"
    and "dm_runtime daemon = Some runtime"
    and "rt_initialized runtime" "rt_state runtime = RTNC_RUNTIME_RX_IDLE" "packet_queue_wf (rt_rx_queue runtime)"
    and "0 < length p" "length p \<le> pq_mtu (rt_rx_queue runtime)" "pq_mtu (rt_rx_queue runtime) \<le> RTNC_LINK_MAX_MTU"
    and "packet_items (rt_rx_queue runtime) = []" "do_service_mode options" "dm_packet_client daemon \<ge> 0"
  shows "forwarded H p w daemon (deliver_completions H options completions daemon)"
  using assms
proof (induction k arbitrary: runtime payloads ticks completions daemon)
  case 0
  then obtain payload now where x: "payloads = [payload]" "ticks = [now]"
      "rtnc_reassembly_push (rt_reassembly runtime) payload now = (RTNC_FRAGMENT_OK, length p, r)"
    by (cases payloads; cases ticks; cases "tl payloads"; cases "tl ticks") (auto simp: Let_def split: prod.splits)
  with 0(3,5) obtain completion where c: "completions = [completion]" "completion_of payload completion"
      "monotonic_ms H (dm_world daemon) = (now, w)"
    by (auto simp: list_all2_Cons1 Let_def split: prod.splits)
  from deliver_last [OF 0(6) c(2) 0(7-13) c(3) x(3) 0(2) 0(14,15)] c(1) show ?case by simp
next
  case (Suc k)
  then obtain payload now rest later r' where x: "payloads = payload # rest" "ticks = now # later"
      "rtnc_reassembly_push (rt_reassembly runtime) payload now = (RTNC_FRAGMENT_INCOMPLETE, 0, r')"
      "push_all r' (zip rest later) = (replicate k (RTNC_FRAGMENT_INCOMPLETE, 0) @ [(RTNC_FRAGMENT_OK, length p)], r)"
    by (cases payloads; cases ticks) (auto simp: Let_def split: prod.splits)
  with Suc.prems(3,5) obtain completion more w1 where c: "completions = completion # more" "completion_of payload completion"
      "list_all2 completion_of rest more" "monotonic_ms H (dm_world daemon) = (now, w1)"
      "clock_readings H (length rest) w1 = (later, w)"
    by (auto simp: list_all2_Cons1 Let_def split: prod.splits)
  let ?rt = "runtime \<lparr> rt_reassembly := r' \<rparr>"
  let ?d = "set_world w1 (daemon \<lparr> dm_runtime := Some ?rt \<rparr>)"
  have "forwarded H p w ?d (deliver_completions H options more ?d)"
    by (rule Suc.IH [of ?rt rest later]) (use Suc.prems x c in simp_all)
  then have "forwarded H p w daemon (deliver_completions H options more ?d)" by (simp add: forwarded_def)
  with deliver_incomplete [OF Suc.prems(6) c(2) Suc.prems(7,8) c(4) x(3)] c(1) show ?case by simp
qed

text \<open>
  C20: a packet that came over the radio reaches the client.  When the fragments of a packet arrive as
  consecutive successful completions, in time for reassembly, and the runtime is not transmitting, the
  daemon sends the client exactly one KISS frame, that of the packet, counts one packet, and leaves the
  runtime's receive queue empty; a client that takes less than the whole frame is disconnected.
\<close>

theorem daemon_forwards_packet:
  assumes "dm_runtime daemon = Some runtime" and "runtime_wf runtime" and "rt_state runtime = RTNC_RUNTIME_RX_IDLE"
    and "packet_items (rt_rx_queue runtime) = []" and "ra_radio_payload_class (rt_reassembly runtime) = c"
    and "0 < length p" and "length p \<le> unat (rt_mtu runtime)"
    and "list_all2 completion_of (fragments p c) completions"
    and "clock_readings H (length completions) (dm_world daemon) = (t0 # ts, w)"
    and "\<And>t. t \<in> set ts \<Longrightarrow> t - t0 \<le> ucast (ra_timeout_ms (rt_reassembly runtime))"
    and "do_service_mode options" and "dm_packet_client daemon \<ge> 0"
  shows "forwarded H p w daemon (deliver_completions H options completions daemon)"
proof -
  have readings: "clock_readings H n v = (ts', w') \<Longrightarrow> length ts' = n" for n v ts' w'
    by (induction n arbitrary: v ts') (auto simp: Let_def split: prod.splits)
  have len: "length completions = length (fragments p c)" using list_all2_lengthD [OF assms(8)] by simp
  then have n: "length (t0 # ts) = rtnc_fragment_count (length p) c" "length (t0 # ts) = length (fragments p c)"
    using readings [OF assms(9)] by (simp_all add: fragments_def)
  have wf: "reassembly_wf (rt_reassembly runtime)" "ra_mtu (rt_reassembly runtime) = unat (rt_mtu runtime)" "rt_initialized runtime"
    "packet_queue_wf (rt_rx_queue runtime)" "pq_mtu (rt_rx_queue runtime) = unat (rt_mtu runtime)"
    using assms(2) by (simp_all add: runtime_wf_def)
  then have mtu: "pq_mtu (rt_rx_queue runtime) \<le> RTNC_LINK_MAX_MTU" by (simp add: packet_queue_wf_def)
  have "fragmentable p c" using assms(2,5-7) by (auto simp: fragmentable_def runtime_wf_def reassembly_wf_def)
  from fragments_rebuild [OF wf(1) assms(5) this _ n(1) assms(10)] assms(7) wf(2) obtain r where
    "push_all (rt_reassembly runtime) (zip (fragments p c) (t0 # ts)) =
      (replicate (length ts) (RTNC_FRAGMENT_INCOMPLETE, 0) @ [(RTNC_FRAGMENT_OK, length p)], r)"
    "take (length p) (ra_packet r) = p" by auto
  from deliver_fragments [OF this assms(8) n(2) _ assms(1) wf(3) assms(3) wf(4) assms(6) _ mtu assms(4,11,12)]
    assms(7,9) wf(5) len show ?thesis by simp
qed

definition completed :: "bytes \<Rightarrow> rtnc_completion" where
  "completed payload = \<lparr> co_job_id = 0, co_generation = 1, co_success = True, co_payload = payload @ [0],
     co_payload_length = length payload \<rparr>"

definition radio_daemon :: "(unit, nat \<times> s16 list) daemon" where
  "radio_daemon = (cold_daemon (1, [])) \<lparr> dm_runtime := Some (example_runtime example_backend), dm_packet_client := 4 \<rparr>"

lemma example_clock: "monotonic_ms example_host w = (5000, w)"
  by (simp add: monotonic_ms_def clock_seconds_def example_host_def c_trunc_def)

theorem daemon_forwards_packet_witness:
  "forwarded example_host (replicate 200 7) (1, []) radio_daemon
     (deliver_completions example_host (example_options \<lparr> do_service_mode := True \<rparr>)
       (map completed (fragments (replicate 200 7) 128)) radio_daemon)"
proof (rule daemon_forwards_packet [of _ "example_runtime example_backend" 128 _ _ _ 5000 "[5000]"])
  have n: "rtnc_fragment_count 200 128 = 2" by (simp add: rtnc_fragment_count_def valid_payload_class_def)
  show "clock_readings example_host (length (map completed (fragments (replicate 200 7) 128))) (dm_world radio_daemon) = (5000 # [5000], (1, []))"
    by (simp add: example_clock fragments_def n radio_daemon_def cold_daemon_def numeral_2_eq_2)
  show "list_all2 completion_of (fragments (replicate 200 7) 128) (map completed (fragments (replicate 200 7) 128))"
    by (auto simp: list_all2_conv_all_nth completion_of_def completed_def)
qed (use example_runtime_wf [of example_backend] in \<open>simp_all add: radio_daemon_def example_runtime example_options_def\<close>)

section \<open>From the client to the transmit queue\<close>

fun kiss_reads ::
    "bytes list \<Rightarrow> rtnc_kiss_parser \<Rightarrow> ('d, 's) rtnc_runtime \<Rightarrow> rtnc_kiss_parser \<times> ('d, 's) rtnc_runtime" where
  \<comment> \<open>what successive reads of the socket returned\<close>
  "kiss_reads [] parser runtime = (parser, runtime)"
| "kiss_reads (bytes # chunks) parser runtime =
    (let (parser, runtime) = kiss_input bytes parser runtime in kiss_reads chunks parser runtime)"

lemma kiss_input_feed:
  "kiss_input bytes parser runtime =
    (let (frames, parser') = kiss_feed parser bytes in (parser', fold kiss_frame_received frames runtime))"
  by (induction bytes arbitrary: parser runtime) (auto simp: Let_def split: prod.splits option.splits)

lemma kiss_reads_feed:
  "kiss_reads chunks parser runtime =
    (let (frames, parser') = kiss_feed parser (concat chunks) in (parser', fold kiss_frame_received frames runtime))"
  by (induction chunks arbitrary: parser runtime)
    (auto simp: kiss_input_feed kiss_feed_append Let_def split: prod.splits)

definition data_frame :: "bytes \<Rightarrow> rtnc_kiss_frame" where
  "data_frame p = \<lparr>kf_port = 0, kf_command = RTNC_KISS_DATA_COMMAND, kf_data = p\<rparr>"

definition at_frame_start :: "rtnc_kiss_parser \<Rightarrow> bool" where
  \<comment> \<open>no frame is under way\<close>
  "at_frame_start k \<longleftrightarrow> kiss_wf k \<and> fst (kiss_feed k [RTNC_KISS_FEND]) = []"

lemma collecting_at_frame_start: "collecting k [] \<Longrightarrow> at_frame_start k"
  by (auto simp: at_frame_start_def collecting_def kiss_wf_def rtnc_kiss_parser_push_frame_def Let_def)

lemma feed_packets:
  assumes "list_all2 (\<lambda>p e. rtnc_kiss_encode p RTNC_KISS_MAX_ENCODED = Some e) packets encoded" and "at_frame_start k"
  shows "\<exists>k'. kiss_feed k (concat encoded) = (map data_frame packets, k') \<and> at_frame_start k'"
  using assms
proof (induction packets encoded arbitrary: k rule: list_all2_induct)
  case (Cons p ps e es)
  from Cons.prems kiss_feed_encoded [OF Cons.hyps(1), of k] obtain k1 where
    k1: "kiss_feed k e = ([data_frame p], k1)" "collecting k1 []" by (auto simp: data_frame_def at_frame_start_def)
  from Cons.IH [OF collecting_at_frame_start [OF k1(2)]] k1(1) show ?case by (auto simp: kiss_feed_append)
qed auto

definition sendable :: "('d, 's) rtnc_runtime \<Rightarrow> bytes \<Rightarrow> bool" where
  \<comment> \<open>the runtime takes the packet if its queue has room\<close>
  "sendable runtime p \<longleftrightarrow> 0 < length p \<and> length p \<le> unat (rt_mtu runtime) \<and>
     rtnc_fragment_count (length p) (unat (mo_payload_class_bytes (rt_tx_modem runtime))) \<noteq> 0"

definition queued :: "('d, 's) rtnc_runtime \<Rightarrow> bytes list" where
  "queued runtime = map fst (packet_items (rt_tx_queue runtime))"

lemma receive_data_frame:
  assumes "runtime_wf runtime" "sendable runtime p" "length (queued runtime) < pq_capacity (rt_tx_queue runtime)"
  shows "\<exists>runtime'. kiss_frame_received (data_frame p) runtime = runtime' \<and> runtime_wf runtime' \<and>
    queued runtime' = queued runtime @ [p] \<and> pq_capacity (rt_tx_queue runtime') = pq_capacity (rt_tx_queue runtime) \<and>
    sendable runtime' = sendable runtime"
proof -
  obtain status rt' where s: "rtnc_runtime_submit_packet runtime p = (status, rt')" by fastforce
  obtain ok q where q: "rtnc_packet_queue_push (rt_tx_queue runtime) p (rt_next_tx_sequence runtime) = (ok, q)" by fastforce
  have wf: "packet_queue_wf (rt_tx_queue runtime)" "pq_mtu (rt_tx_queue runtime) = unat (rt_mtu runtime)" "rt_initialized runtime"
    using assms(1) by (simp_all add: runtime_wf_def)
  have "packet_fits (rt_tx_queue runtime) (p, rt_next_tx_sequence runtime)"
    using assms(2) wf(2) by (simp add: packet_fits_def sendable_def)
  from packet_push_room [OF wf(1) this] assms(3) q have push: "ok" "packet_items q = packet_items (rt_tx_queue runtime) @ [(p, rt_next_tx_sequence runtime)]"
    by (auto simp: queued_def)
  have cap: "pq_capacity q = pq_capacity (rt_tx_queue runtime)"
    using packet_push_config [of "rt_tx_queue runtime" p "rt_next_tx_sequence runtime"] q by simp
  from s q push(1) wf(3) assms(2) have rt': "rt' = runtime \<lparr> rt_tx_queue := q, rt_next_tx_sequence := rt_next_tx_sequence runtime + 1 \<rparr>"
    by (auto simp: rtnc_runtime_submit_packet_def sendable_def)
  have "kiss_frame_received (data_frame p) runtime = rt'"
    using s assms(2) by (simp add: kiss_frame_received_def data_frame_def sendable_def)
  moreover have "sendable rt' = sendable runtime" by (simp add: rt' sendable_def fun_eq_iff)
  ultimately show ?thesis using submit_wf [OF assms(1) s] push(2) cap rt' by (simp add: queued_def)
qed

lemma receive_data_frames:
  assumes "runtime_wf runtime" "\<And>p. p \<in> set packets \<Longrightarrow> sendable runtime p"
    and "length (queued runtime) + length packets \<le> pq_capacity (rt_tx_queue runtime)"
  shows "queued (fold kiss_frame_received (map data_frame packets) runtime) = queued runtime @ packets"
  using assms
proof (induction packets arbitrary: runtime)
  case (Cons p ps)
  from receive_data_frame [OF Cons.prems(1), of p] Cons.prems(2,3) obtain rt where
    rt: "kiss_frame_received (data_frame p) runtime = rt" "runtime_wf rt" "queued rt = queued runtime @ [p]"
      "pq_capacity (rt_tx_queue rt) = pq_capacity (rt_tx_queue runtime)" "sendable rt = sendable runtime" by auto
  from Cons.IH [OF rt(2)] rt Cons.prems show ?case by simp
qed simp

text \<open>
  C21: what the client sends is what the transmit queue gets.  Let a client, from the start of a frame on,
  send the KISS encodings of packets the runtime takes and has room for.  However the TCP stream is cut
  into reads, the daemon appends exactly those packets to the transmit queue, in order.
\<close>

theorem daemon_queues_client_packets:
  assumes "runtime_wf runtime" and "at_frame_start parser"
    and "list_all2 (\<lambda>p e. rtnc_kiss_encode p RTNC_KISS_MAX_ENCODED = Some e) packets encoded"
    and "concat chunks = concat encoded" and "\<And>p. p \<in> set packets \<Longrightarrow> sendable runtime p"
    and "length (queued runtime) + length packets \<le> pq_capacity (rt_tx_queue runtime)"
  shows "queued (snd (kiss_reads chunks parser runtime)) = queued runtime @ packets \<and>
    at_frame_start (fst (kiss_reads chunks parser runtime))"
proof -
  from feed_packets [OF assms(3,2)] obtain k' where "kiss_feed parser (concat chunks) = (map data_frame packets, k')" "at_frame_start k'"
    unfolding assms(4) by blast
  with receive_data_frames [OF assms(1,5,6)] show ?thesis by (simp add: kiss_reads_feed)
qed

theorem daemon_queues_client_packets_witness:
  "queued (snd (kiss_reads [[0xc0, 0, 1, 0xdb], [0xdc, 0xdb, 0xdd, 0xc0, 0xc0, 0, 7], [0xc0]]
     rtnc_kiss_parser_init (example_runtime busy_backend))) = [[1, 0xc0, 0xdb], [7]]"
proof -
  let ?rt = "example_runtime busy_backend" and ?packets = "[[1, 0xc0, 0xdb], [7]] :: bytes list"
  have "at_frame_start rtnc_kiss_parser_init"
    using kiss_wf_init by (simp add: at_frame_start_def rtnc_kiss_parser_init_def rtnc_kiss_parser_push_frame_def Let_def)
  moreover have "list_all2 (\<lambda>p e. rtnc_kiss_encode p RTNC_KISS_MAX_ENCODED = Some e) ?packets
      [[0xc0, 0, 1, 0xdb, 0xdc, 0xdb, 0xdd, 0xc0], [0xc0, 0, 7, 0xc0]]"
    by (simp add: rtnc_kiss_encode_def)
  moreover have "sendable ?rt p" if "p \<in> set ?packets" for p
    using that by (auto simp: sendable_def example_runtime rtnc_fragment_count_def valid_payload_class_def)
  moreover have "queued ?rt = []" by (simp add: queued_def example_runtime)
  ultimately show ?thesis
    using daemon_queues_client_packets [of ?rt rtnc_kiss_parser_init ?packets
        "[[0xc0, 0, 1, 0xdb, 0xdc, 0xdb, 0xdd, 0xc0], [0xc0, 0, 7, 0xc0]]"
        "[[0xc0, 0, 1, 0xdb], [0xdc, 0xdb, 0xdd, 0xc0, 0xc0, 0, 7], [0xc0]]"] example_runtime_wf [of busy_backend]
    by (simp add: example_runtime)
qed

end
