(* ===== verification/OtaTx.thy ===== *)
theory OtaTx
  imports OtaBenchmark Config Daemon
begin

text \<open>
  The sending side of the benchmark program \<^verbatim>\<open>tools/ota_benchmark.c\<close>: its command line, the signal
  thread, and a transmission series, which announces each profile over the control profile and then sends
  numbered packets with it.  Delays and playback may not return, so the series is \<open>None\<close> where they do not.
  The last part: the transmitter is off when a run ends, and what a run sends.
\<close>

definition DEFAULT_ANNOUNCE_REPEATS :: u32 where [simp]: "DEFAULT_ANNOUNCE_REPEATS = 5"
definition MAX_ANNOUNCE_REPEATS :: u32 where [simp]: "MAX_ANNOUNCE_REPEATS = 20"
definition MAX_PACKETS :: u32 where [simp]: "MAX_PACKETS = 1000"

section \<open>Signals and delays\<close>

definition signal_wait_main :: "'w gpiod \<Rightarrow> int \<Rightarrow> int \<Rightarrow> rtnc_ptt option \<Rightarrow> 'w \<Rightarrow> int option \<times> 'w" where
  \<comment> \<open>what \<^verbatim>\<open>sigwait\<close> returns, the signal, and \<^verbatim>\<open>active_ptt\<close>; the exit code where the process ends\<close>
  "signal_wait_main G result signal_number active_ptt w =
    (if result = 0
     then (Some (128 + signal_number),
           (case active_ptt of None \<Rightarrow> w | Some ptt \<Rightarrow> snd (snd (rtnc_ptt_set G ptt False w))))
     else (None, w))"

partial_function (option) sleep_again :: "'w posix \<Rightarrow> timespec \<Rightarrow> 'w \<Rightarrow> (bool \<times> 'w) option" where
  "sleep_again P delay w =
    (let (result, errno, delay, w) = nanosleep P delay w
     in if result \<noteq> 0 then if errno \<noteq> EINTR then Some (False, w) else sleep_again P delay w
        else Some (True, w))"

definition sleep_ms :: "'w posix \<Rightarrow> u32 \<Rightarrow> 'w \<Rightarrow> (bool \<times> 'w) option" where
  "sleep_ms P milliseconds w =
    sleep_again P \<lparr> tv_sec = int (unat milliseconds div 1000),
      tv_nsec = int (unat milliseconds mod 1000) * 1000000 \<rparr> w"

section \<open>A series\<close>

definition conditioned_pcm :: "rtnc_tx_config \<Rightarrow> real list \<Rightarrow> nat \<Rightarrow> s16 list" where
  \<comment> \<open>the two loops over the samples\<close>
  "conditioned_pcm tx waveform sample_count =
    (let raw = map (\<lambda>index. clamp_pcm (waveform ! index * 16383)) [0..<sample_count]
     in map (\<lambda>index. clamp_pcm (tc_filter_gain tx * rtnc_tx_eq_apply_sample (tc_response_eq_taps tx) raw index))
          [0..<sample_count])"

definition benchmark_waveform ::
    "'d liquid \<Rightarrow> u8 \<Rightarrow> rtnc_ota_benchmark_message \<Rightarrow> 'd rtnc_modem \<Rightarrow> (real list \<times> nat) option \<times> 'd rtnc_modem" where
  \<comment> \<open>encode and modulate one message.  The arrays \<^verbatim>\<open>packet\<close> and \<^verbatim>\<open>waveform\<close> are not initialised; no more of
      them is used than the two calls write\<close>
  "benchmark_waveform L payload_class_bytes message modem =
    (case rtnc_ota_benchmark_encode message (replicate 128 0) of
       None \<Rightarrow> (None, modem)
     | Some (packet, packet_length) \<Rightarrow>
         if packet_length > unat payload_class_bytes then (None, modem)
         else case rtnc_modem_tx_audio L modem (take packet_length packet) (replicate RTNC_MODEM_MAX_AUDIO_SAMPLES 0) of
                (RTNC_MODEM_OK, modem, waveform, Some sample_count) \<Rightarrow> (Some (waveform, sample_count), modem)
              | (_, modem, _) \<Rightarrow> (None, modem))"

record ('d, 'w) series =
  \<comment> \<open>what a series changes\<close>
  se_modem :: "'d rtnc_modem"
  se_message :: rtnc_ota_benchmark_message
  se_audio :: rtnc_audio
  se_world :: 'w

definition transmit_item ::
    "'d liquid \<Rightarrow> 'w alsa \<Rightarrow> rtnc_tx_config \<Rightarrow> u8 \<Rightarrow> u32 \<Rightarrow> u32 \<Rightarrow> ('d, 'w) series \<Rightarrow> (bool \<times> ('d, 'w) series) option" where
  "transmit_item L A tx payload_class_bytes amount item se =
    (let se = se \<lparr> se_message := (se_message se) \<lparr> om_sequence := item \<rparr> \<rparr>;
         (modulated, modem) = benchmark_waveform L payload_class_bytes (se_message se) (se_modem se);
         se = se \<lparr> se_modem := modem \<rparr>
     in case modulated of
          None \<Rightarrow> Some (False, se)
        | Some (waveform, sample_count) \<Rightarrow> do {
            (sent, audio, w) \<leftarrow> rtnc_audio_send A (se_audio se) (conditioned_pcm tx waveform sample_count) (se_world se);
            let se = se \<lparr> se_audio := audio, se_world := w \<rparr>;
            if \<not> sent then Some (False, se)
            else if item + 1 < amount
            then do {
              (sent, audio, w) \<leftarrow> rtnc_audio_send A (se_audio se) (replicate 4800 0) (se_world se);
              Some (sent, se \<lparr> se_audio := audio, se_world := w \<rparr>)
            }
            else Some (True, se)
          })"

fun transmit_items ::
    "'d liquid \<Rightarrow> 'w alsa \<Rightarrow> rtnc_tx_config \<Rightarrow> u8 \<Rightarrow> u32 \<Rightarrow> nat list \<Rightarrow> ('d, 'w) series \<Rightarrow>
     (bool \<times> ('d, 'w) series) option" where
  \<comment> \<open>false where the code jumps to \<^verbatim>\<open>done\<close>\<close>
  "transmit_items L A tx payload_class_bytes amount [] se = Some (True, se)"
| "transmit_items L A tx payload_class_bytes amount (item # items) se = do {
     (success, se) \<leftarrow> transmit_item L A tx payload_class_bytes amount (of_nat item) se;
     if success then transmit_items L A tx payload_class_bytes amount items se else Some (False, se)
   }"

definition finish_series ::
    "'w alsa \<Rightarrow> 'w posix \<Rightarrow> u16 \<Rightarrow> bool \<Rightarrow> ('d, 'w) series \<Rightarrow> (bool \<times> ('d, 'w) series) option" where
  \<comment> \<open>the wait and the tail\<close>
  "finish_series A P tail_ms success se =
    (if \<not> success then Some (False, se)
     else let (drained, w) = rtnc_audio_wait A (se_audio se) (se_world se);
              se = se \<lparr> se_world := w \<rparr>
          in if \<not> drained then Some (False, se)
             else map_option (\<lambda>(slept, w). (slept, se \<lparr> se_world := w \<rparr>)) (sleep_ms P (ucast tail_ms) w))"

definition transmit_series ::
    "'d liquid \<Rightarrow> 'w alsa \<Rightarrow> 'w gpiod \<Rightarrow> 'w posix \<Rightarrow> rtnc_platform_config \<Rightarrow> rtnc_phy_profile_config \<Rightarrow> u32 \<Rightarrow>
     rtnc_preamble \<Rightarrow> rtnc_ptt \<Rightarrow> ('d, 'w) series \<Rightarrow> (bool \<times> rtnc_ptt \<times> ('d, 'w) series) option" where
  \<comment> \<open>\<open>se_modem\<close> is the local modem: on entry uninitialised memory, on return what was not released of it\<close>
  "transmit_series L A G P config entry amount preamble ptt se =
    (case rtnc_platform_phy_profile_named config (pf_name entry) of
       None \<Rightarrow> Some (False, ptt, se)
     | Some phy \<Rightarrow>
         let (ok, modem) = rtnc_modem_init_profile_preamble L (se_modem se) (fec_mode_of (pf_fec_mode entry))
               (pf_payload_class_bytes entry) phy preamble;
             se = se \<lparr> se_modem := modem \<rparr>
         in if \<not> ok then Some (False, ptt, se) else
         let (keyed, ptt, w) = rtnc_ptt_set G ptt True (se_world se);
             se = se \<lparr> se_world := w \<rparr>
         in if \<not> keyed then Some (False, ptt, se)
         else do {
           (slept, w) \<leftarrow> sleep_ms P (ucast (lt_lead_ms (pc_tx config))) (se_world se);
           let se = se \<lparr> se_world := w \<rparr>;
           if \<not> slept then Some (False, ptt, se)
           else do {
             (success, se) \<leftarrow> transmit_items L A (tx_config_of (pc_tx config)) (pf_payload_class_bytes entry) amount
               [0..<unat amount] se;
             (success, se) \<leftarrow> finish_series A P (lt_tail_ms (pc_tx config)) success se;
             let (released, ptt, w) = rtnc_ptt_set G ptt False (se_world se);
             Some (success \<and> released, ptt, se \<lparr> se_modem := rtnc_modem_deinit (se_modem se), se_world := w \<rparr>)
           }
         })"

section \<open>A run\<close>

definition profile_field :: "string \<Rightarrow> bytes" where
  \<comment> \<open>\<^verbatim>\<open>message.profile\<close> after \<^verbatim>\<open>snprintf\<close> into the cleared array\<close>
  "profile_field name = (let text = take RTNC_OTA_BENCHMARK_PROFILE_MAX (map (\<lambda>c. of_nat (of_char c)) name)
                         in text @ replicate (RTNC_OTA_BENCHMARK_PROFILE_MAX + 1 - length text) 0)"

definition block_message :: "u32 \<Rightarrow> u32 \<Rightarrow> u32 \<Rightarrow> u32 \<Rightarrow> rtnc_phy_profile_config \<Rightarrow> rtnc_ota_benchmark_message" where
  "block_message run_id block packet_count payload_size test =
    \<lparr> om_type = RTNC_OTA_BENCHMARK_ANNOUNCE, om_run_id = run_id, om_block_id = block, om_sequence = 0,
      om_packet_count = packet_count, om_payload_size = payload_size, om_seed = 0x6d2b79f5 XOR run_id XOR block,
      om_guard_ms = 5000, om_profile = profile_field (pf_name test) \<rparr>"

definition transmit_block ::
    "'d liquid \<Rightarrow> 'w alsa \<Rightarrow> 'w gpiod \<Rightarrow> 'w posix \<Rightarrow> rtnc_platform_config \<Rightarrow> rtnc_phy_profile_config \<Rightarrow>
     rtnc_phy_profile_config \<Rightarrow> u32 \<Rightarrow> rtnc_ota_benchmark_message \<Rightarrow> rtnc_audio \<Rightarrow> rtnc_ptt \<Rightarrow> 'w \<Rightarrow>
     (bool \<times> rtnc_audio \<times> rtnc_ptt \<times> 'w) option" where
  \<comment> \<open>the body of the loop for a profile that is not skipped\<close>
  "transmit_block L A G P config control test announce_repeats message audio ptt w = do {
     (success, ptt, se) \<leftarrow> transmit_series L A G P config control announce_repeats RTNC_PREAMBLE_CONTROL ptt
       \<lparr> se_modem = zero_modem, se_message = message, se_audio = audio, se_world = w \<rparr>;
     if \<not> success then Some (False, se_audio se, ptt, se_world se)
     else do {
       (slept, w) \<leftarrow> sleep_ms P (om_guard_ms (se_message se)) (se_world se);
       if \<not> slept then Some (False, se_audio se, ptt, w)
       else do {
         (success, ptt, se) \<leftarrow> transmit_series L A G P config test (om_packet_count message) RTNC_PREAMBLE_DATA ptt
           \<lparr> se_modem = zero_modem, se_message = (se_message se) \<lparr> om_type := RTNC_OTA_BENCHMARK_DATA \<rparr>,
             se_audio = se_audio se, se_world = w \<rparr>;
         if \<not> success then Some (False, se_audio se, ptt, se_world se)
         else do {
           (_, w) \<leftarrow> sleep_ms P 1000 (se_world se);
           Some (True, se_audio se, ptt, w)
         }
       }
     }
   }"

fun transmit_blocks ::
    "'d liquid \<Rightarrow> 'w alsa \<Rightarrow> 'w gpiod \<Rightarrow> 'w posix \<Rightarrow> rtnc_platform_config \<Rightarrow> rtnc_phy_profile_config \<Rightarrow> u32 \<Rightarrow> nat \<Rightarrow> u32 \<Rightarrow>
     u32 \<Rightarrow> u32 \<Rightarrow> rtnc_phy_profile_config list \<Rightarrow> rtnc_audio \<Rightarrow> rtnc_ptt \<Rightarrow> 'w \<Rightarrow>
     (bool \<times> rtnc_audio \<times> rtnc_ptt \<times> 'w) option" where
  \<comment> \<open>the loop over the profiles from the number \<open>block\<close> on\<close>
  "transmit_blocks L A G P config control run_id payload_size packet_count announce_repeats block [] audio ptt w =
    Some (True, audio, ptt, w)"
| "transmit_blocks L A G P config control run_id payload_size packet_count announce_repeats block (test # tests) audio ptt w =
    (if payload_size > unat (pf_payload_class_bytes test)
     then transmit_blocks L A G P config control run_id payload_size packet_count announce_repeats (block + 1) tests
            audio ptt w
     else do {
       (success, audio, ptt, w) \<leftarrow> transmit_block L A G P config control test announce_repeats
         (block_message run_id block packet_count (of_nat payload_size) test) audio ptt w;
       if \<not> success then Some (False, audio, ptt, w)
       else transmit_blocks L A G P config control run_id payload_size packet_count announce_repeats (block + 1) tests
              audio ptt w
     })"

definition close_tx :: "'w alsa \<Rightarrow> 'w gpiod \<Rightarrow> rtnc_audio \<Rightarrow> rtnc_ptt \<Rightarrow> 'w \<Rightarrow> 'w" where
  \<comment> \<open>from the label \<^verbatim>\<open>done\<close> on\<close>
  "close_tx A G audio ptt w = (let (_, w) = rtnc_ptt_deinit G ptt w in snd (rtnc_audio_deinit A audio w))"

definition tx_arguments_ok :: "nat \<Rightarrow> u32 \<Rightarrow> u32 \<Rightarrow> bool" where
  "tx_arguments_ok payload_size packet_count announce_repeats \<longleftrightarrow>
    \<not> (payload_size < RTNC_OTA_BENCHMARK_HEADER_SIZE \<or> payload_size > 128 \<or> packet_count = 0 \<or>
       packet_count > MAX_PACKETS \<or> announce_repeats = 0 \<or> announce_repeats > MAX_ANNOUNCE_REPEATS)"

definition run_tx ::
    "'d liquid \<Rightarrow> 'w alsa \<Rightarrow> 'w gpiod \<Rightarrow> 'w posix \<Rightarrow> rtnc_platform_config \<Rightarrow> string \<Rightarrow> nat \<Rightarrow> u32 \<Rightarrow> u32 \<Rightarrow> u32 \<Rightarrow> 'w \<Rightarrow>
     (int \<times> 'w) option" where
  \<comment> \<open>\<open>run_id\<close> is the time of day in seconds\<close>
  "run_tx L A G P config control_name payload_size packet_count announce_repeats run_id w =
    (case rtnc_platform_profile_config_named config control_name of
       None \<Rightarrow> Some (2, w)
     | Some control \<Rightarrow>
         let no_ptt = \<lparr> pt_chip = None, pt_line = None, pt_active_high = False, pt_state = False \<rparr>
         in if \<not> tx_arguments_ok payload_size packet_count announce_repeats then Some (2, w)
         else if rtnc_audio_ring_init 2 = None then Some (1, close_tx A G None no_ptt w)
         else
           let (ok, audio, w) = rtnc_audio_init A None (pc_audio config) w
           in if \<not> ok then Some (1, close_tx A G audio no_ptt w)
         else
           let (ok, ptt, w) = rtnc_ptt_init G (pc_ptt config) w
           in if \<not> ok then Some (1, close_tx A G audio ptt w)
         else do {
           (success, audio, ptt, w) \<leftarrow> transmit_blocks L A G P config control run_id payload_size packet_count
             announce_repeats 0 (pc_profiles config) audio ptt w;
           Some (if success then 0 else 1, close_tx A G audio ptt w)
         })"

section \<open>The command line\<close>

datatype benchmark_start =
    Benchmark_usage
  | Benchmark_rx string string string            \<comment> \<open>configuration, control profile, report\<close>
  | Benchmark_tx string string nat u32 u32       \<comment> \<open>payload size, packets, announcements\<close>
  | Benchmark_refused string                     \<comment> \<open>exit code 2 after loading the configuration\<close>

definition benchmark_arguments :: "(string \<Rightarrow> nat) \<Rightarrow> string list \<Rightarrow> benchmark_start" where
  \<comment> \<open>\<^verbatim>\<open>strtoul\<close> with base 10 and without the end pointer; \<open>nat\<close> is its 64-bit result\<close>
  "benchmark_arguments strtoul argv =
    (let argc = length argv
     in if argc < 5 \<or> argc > 7 \<or> (argv ! 2 \<noteq> ''rx'' \<and> argv ! 2 \<noteq> ''tx'') then Benchmark_usage
        else if argv ! 2 = ''rx''
        then if argc = 5 then Benchmark_rx (argv ! 1) (argv ! 3) (argv ! 4) else Benchmark_refused (argv ! 1)
        else if argc \<ge> 6
        then Benchmark_tx (argv ! 1) (argv ! 3) (strtoul (argv ! 4)) (of_nat (strtoul (argv ! 5)))
               (if argc = 7 then of_nat (strtoul (argv ! 6)) else DEFAULT_ANNOUNCE_REPEATS)
        else Benchmark_refused (argv ! 1))"

section \<open>A run returns\<close>

definition sleeps :: "'w posix \<Rightarrow> bool" where
  \<comment> \<open>documented: \<^verbatim>\<open>nanosleep\<close> returns 0 or a negative number\<close>
  "sleeps P \<longleftrightarrow> (\<forall>d w r e d' w'. nanosleep P d w = (r, e, d', w') \<longrightarrow> r \<le> 0)"

lemma sleep_again_returns:
  "finitely_signalled P signals \<Longrightarrow> sleeps P \<Longrightarrow> sleep_again P delay w \<noteq> None"
proof (induction "signals w" arbitrary: delay w rule: less_induct)
  case less
  obtain r e d v where n: "nanosleep P delay w = (r, e, d, v)" by (metis prod_cases4)
  show ?case
  proof (cases "r \<noteq> 0 \<and> e = EINTR")
    case True
    with less.prems(2) n have "r < 0" unfolding sleeps_def by force
    with True less.prems(1) n have "signals v < signals w" unfolding finitely_signalled_def by blast
    from less.hyps [OF this less.prems] True n show ?thesis by (subst sleep_again.simps) simp
  next
    case False
    with n show ?thesis by (subst sleep_again.simps) auto
  qed
qed

definition returns :: "'a option \<Rightarrow> bool" where
  "returns m \<longleftrightarrow> m \<noteq> None"

lemma returns_intros [intro!]:
  "returns (Some x)" "returns m \<Longrightarrow> (\<And>x. m = Some x \<Longrightarrow> returns (f x)) \<Longrightarrow> returns (Option.bind m f)"
  "returns m \<Longrightarrow> returns (map_option g m)"
  by (auto simp: returns_def)

definition returning_platform :: "'w alsa \<Rightarrow> 'w posix \<Rightarrow> ('w \<Rightarrow> nat) \<Rightarrow> ('w \<Rightarrow> nat) \<Rightarrow> bool" where
  "returning_platform A P errors signals \<longleftrightarrow>
    finitely_interrupted A errors \<and> finitely_signalled P signals \<and> sleeps P"

lemma sleep_some: "returning_platform A P errors signals \<Longrightarrow> returns (sleep_ms P ms w)"
  unfolding sleep_ms_def returning_platform_def returns_def
  by (elim conjE) (rule sleep_again_returns [where signals = signals])

lemma send_some: "returning_platform A P errors signals \<Longrightarrow> returns (rtnc_audio_send A audio samples w)"
  unfolding returning_platform_def returns_def
  by (elim conjE) (rule audio_send_returns [where remaining_errors = errors])

lemma item_some: "returning_platform A P errors signals \<Longrightarrow> returns (transmit_item L A tx class_bytes amount item se)"
  unfolding transmit_item_def Let_def
  by (auto split: prod.splits option.splits
      intro!: send_some)

lemma items_some: "returning_platform A P errors signals \<Longrightarrow> returns (transmit_items L A tx class_bytes amount items se)"
proof (induction items arbitrary: se)
  case (Cons item items)
  then show ?case using item_some
    by (auto split: prod.splits)
qed auto

lemma finish_some: "returning_platform A P errors signals \<Longrightarrow> returns (finish_series A P ms success se)"
  using sleep_some by (auto simp: finish_series_def Let_def split: prod.splits)

lemma series_some: "returning_platform A P errors signals \<Longrightarrow> returns (transmit_series L A G P config entry amount preamble ptt se)"
  unfolding transmit_series_def Let_def
  by (auto split: option.splits prod.splits
      intro!: sleep_some items_some finish_some)

lemma block_some: "returning_platform A P errors signals \<Longrightarrow> returns (transmit_block L A G P config control test repeats message audio ptt w)"
  unfolding transmit_block_def
  by (auto split: prod.splits intro!: sleep_some series_some)

lemma blocks_some:
  "returning_platform A P errors signals \<Longrightarrow> returns (
   transmit_blocks L A G P config control run_id payload_size amount repeats block tests audio ptt w)"
proof (induction tests arbitrary: block audio ptt w)
  case (Cons test tests)
  then show ?case using block_some
    by (auto split: prod.splits)
qed auto

lemma run_some: "returning_platform A P errors signals \<Longrightarrow> returns (run_tx L A G P config name payload_size amount repeats run_id w)"
  using blocks_some by (auto simp: run_tx_def Let_def split: option.splits prod.splits)

section \<open>What a series sends, and the key\<close>

fun series_audio ::
    "'d liquid \<Rightarrow> rtnc_tx_config \<Rightarrow> u8 \<Rightarrow> u32 \<Rightarrow> nat list \<Rightarrow> rtnc_ota_benchmark_message \<Rightarrow> 'd rtnc_modem \<Rightarrow> s16 list option" where
  \<comment> \<open>the audio of numbered messages, with a tenth of a second of silence between two\<close>
  "series_audio L tx payload_class_bytes amount [] message modem = Some []"
| "series_audio L tx payload_class_bytes amount (item # items) message modem =
    (let message = message \<lparr> om_sequence := of_nat item \<rparr>
     in case benchmark_waveform L payload_class_bytes message modem of
          (None, _) \<Rightarrow> None
        | (Some (waveform, sample_count), modem) \<Rightarrow>
            map_option (\<lambda>later. conditioned_pcm tx waveform sample_count @
                (if of_nat item + 1 < amount then replicate 4800 0 else []) @ later)
              (series_audio L tx payload_class_bytes amount items message modem))"

definition sounding :: "('w \<Rightarrow> nat \<Rightarrow> s16 list) \<Rightarrow> nat \<Rightarrow> rtnc_audio \<Rightarrow> 'w \<Rightarrow> s16 list \<Rightarrow> rtnc_audio \<Rightarrow> 'w \<Rightarrow> bool" where
  \<comment> \<open>between two states the card of the open stream \<open>h\<close> has played \<open>samples\<close>\<close>
  "sounding played h audio w samples audio' w' \<longleftrightarrow>
    map_option ai_playback audio = Some h \<and> map_option ai_playback audio' = Some h \<and> played w' h = played w h @ samples"

lemma send_sounding:
  assumes "plays A played" and "map_option ai_playback audio = Some h"
    and "rtnc_audio_send A audio samples w = Some (True, audio', w')"
  shows "sounding played h audio w samples audio' w'"
proof -
  from assms(2) obtain impl where i: "audio = Some impl" "ai_playback impl = h" by auto
  with assms(3) obtain impl' where l: "audio_send_loop A samples 0 impl w = Some (True, impl', w')" "audio' = Some impl'"
    by (auto simp: rtnc_audio_send_def)
  from audio_send_loop_plays [OF l(1) assms(1)] i l(2) show ?thesis by (auto simp: sounding_def)
qed

lemma item_sounding:
  assumes "plays A played" and "map_option ai_playback (se_audio se) = Some h"
    and "transmit_item L A tx class_bytes amount item se = Some (True, se')"
  shows "\<exists>waveform n. benchmark_waveform L class_bytes ((se_message se) \<lparr> om_sequence := item \<rparr>) (se_modem se) =
      (Some (waveform, n), se_modem se') \<and> se_message se' = (se_message se) \<lparr> om_sequence := item \<rparr> \<and>
    sounding played h (se_audio se) (se_world se)
      (conditioned_pcm tx waveform n @ (if item + 1 < amount then replicate 4800 0 else [])) (se_audio se') (se_world se')"
proof -
  obtain sent modem where b: "benchmark_waveform L class_bytes ((se_message se) \<lparr> om_sequence := item \<rparr>) (se_modem se) =
      (sent, modem)" by fastforce
  with assms(3) obtain waveform n audio w where s: "sent = Some (waveform, n)"
      "rtnc_audio_send A (se_audio se) (conditioned_pcm tx waveform n) (se_world se) = Some (True, audio, w)"
    by (auto simp: transmit_item_def Let_def call_simps split: option.splits if_splits prod.splits)
  note first = send_sounding [OF assms(1,2) s(2)]
  show ?thesis
  proof (cases "item + 1 < amount")
    case True
    with assms(3) b s obtain audio2 w2 where g: "rtnc_audio_send A audio (replicate 4800 0) w = Some (True, audio2, w2)"
        "se' = se \<lparr> se_message := (se_message se) \<lparr> om_sequence := item \<rparr>, se_modem := modem, se_audio := audio2,
          se_world := w2 \<rparr>"
      by (auto simp: transmit_item_def Let_def call_simps)
    have "map_option ai_playback audio = Some h" using first by (simp add: sounding_def)
    from send_sounding [OF assms(1) this g(1)] first b s g(2) True show ?thesis by (simp add: sounding_def)
  next
    case False
    with assms(3) b s first show ?thesis by (auto simp: transmit_item_def Let_def)
  qed
qed

lemma items_sounding:
  assumes "plays A played" and "map_option ai_playback (se_audio se) = Some h"
    and "transmit_items L A tx class_bytes amount items se = Some (True, se')"
  shows "\<exists>audio. series_audio L tx class_bytes amount items (se_message se) (se_modem se) = Some audio \<and>
    sounding played h (se_audio se) (se_world se) audio (se_audio se') (se_world se')"
  using assms(2,3)
proof (induction items arbitrary: se)
  case Nil
  then show ?case by (simp add: sounding_def)
next
  case (Cons item items)
  from Cons.prems(2) obtain se1 where t: "transmit_item L A tx class_bytes amount (of_nat item) se = Some (True, se1)"
      "transmit_items L A tx class_bytes amount items se1 = Some (True, se')"
    by (auto simp: call_simps split: if_splits)
  note one = item_sounding [OF assms(1) Cons.prems(1) t(1)]
  then have "map_option ai_playback (se_audio se1) = Some h" by (auto simp: sounding_def)
  from Cons.IH [OF this t(2)] one show ?case by (auto simp: sounding_def)
qed

lemma series_releases:
  assumes "transmit_series L A G P config entry amount preamble ptt se = Some (success, ptt', se')"
    and "\<not> rtnc_ptt_is_enabled ptt"
  shows "success \<longrightarrow> \<not> rtnc_ptt_is_enabled ptt'"
proof
  assume success
  with assms(1) obtain p v w where r: "rtnc_ptt_set G p False v = (True, ptt', w)"
    by (auto simp: transmit_series_def Let_def call_simps split: option.splits if_splits prod.splits)
  from ptt_set_state [OF r] show "\<not> rtnc_ptt_is_enabled ptt'" by simp
qed

text \<open>Where the lead delay fails, the series ends with the transmitter on; \<open>run_tx\<close> turns it off.\<close>

lemma lead_failure_leaves_keyed:
  assumes "rtnc_platform_phy_profile_named config (pf_name entry) = Some phy"
    and "rtnc_modem_init_profile_preamble L (se_modem se) (fec_mode_of (pf_fec_mode entry)) (pf_payload_class_bytes entry)
      phy preamble = (True, modem)"
    and "rtnc_ptt_set G ptt True (se_world se) = (True, ptt1, w1)"
    and "sleep_ms P (ucast (lt_lead_ms (pc_tx config))) w1 = Some (False, w2)"
  shows "\<exists>se'. transmit_series L A G P config entry amount preamble ptt se = Some (False, ptt1, se') \<and>
    rtnc_ptt_is_enabled ptt1 \<and> se_modem se' = modem"
  using assms ptt_set_state [OF assms(3)] by (auto simp: transmit_series_def)

text \<open>
  A profile name of more than 20 characters, which the configuration allows, is cut in the announcement, and
  no receiver finds the profile by it.
\<close>

definition announced_name :: "bytes \<Rightarrow> string" where
  \<comment> \<open>the array as a C string\<close>
  "announced_name text = map (\<lambda>b. char_of (unat b)) (takeWhile (\<lambda>b. b \<noteq> 0) text)"

lemma byte_of_char: "unat (of_nat (of_char c) :: u8) = of_char c"
  using nat_of_char_less_256 [of c] by (simp add: unat_of_nat)

lemma byte_of_char_zero: "(of_nat (of_char c) :: u8) = 0 \<longleftrightarrow> c = CHR 0x00"
proof -
  have "(of_nat (of_char c) :: u8) = 0 \<longleftrightarrow> of_char c = (0 :: nat)"
    by (metis byte_of_char unat_0 unat_eq_zero)
  also have "\<dots> \<longleftrightarrow> of_char c = (of_char (CHR 0x00) :: nat)" by simp
  finally show ?thesis by (simp only: of_char_eq_iff)
qed

lemma announced_profile:
  assumes "CHR 0x00 \<notin> set name"
  shows "announced_name (profile_field name) = take 20 name" "strnlen (profile_field name) = min 20 (length name)"
    "length (profile_field name) = 21"
proof -
  let ?text = "take 20 (map (\<lambda>c. of_nat (of_char c)) name) :: bytes"
  have "\<forall>b \<in> set ?text. b \<noteq> 0"
    using assms set_take_subset [of 20 name] by (auto simp: take_map byte_of_char_zero)
  then have "takeWhile (\<lambda>b. b \<noteq> 0) (?text @ replicate (21 - length ?text) 0) = ?text"
    by (subst takeWhile_append2) (auto simp: takeWhile_eq_Nil_iff hd_append)
  then have t: "takeWhile (\<lambda>b. b \<noteq> 0) (profile_field name) = ?text" by (simp add: profile_field_def Let_def)
  then show "announced_name (profile_field name) = take 20 name"
    by (simp add: announced_name_def byte_of_char take_map comp_def)
  show "strnlen (profile_field name) = min 20 (length name)" using t by (simp add: strnlen_def)
  show "length (profile_field name) = 21" by (simp add: profile_field_def Let_def)
qed

lemma long_names_not_found:
  assumes "CHR 0x00 \<notin> set (pf_name test)" and "20 < length (pf_name test)"
    and "\<forall>entry \<in> set (pc_profiles config). pf_name entry \<noteq> take 20 (pf_name test)"
  shows "rtnc_platform_profile_config_named config (announced_name (om_profile (block_message run_id block n size' test))) = None"
proof -
  have "named_entry entries name = None" if "\<forall>entry \<in> set entries. pf_name entry \<noteq> name" for entries name
    using that by (induction entries) auto
  then show ?thesis using assms
    by (simp add: rtnc_platform_profile_config_named_def block_message_def announced_profile)
qed

end
