(* ===== verification/OtaRx.thy ===== *)
theory OtaRx
  imports OtaTx
begin

text \<open>
  The receiving side of the benchmark program \<^verbatim>\<open>tools/ota_benchmark.c\<close>: one receiver listens for
  announcements, a second one is set up for the profile that was announced, each has a decoder thread that
  hands messages over in a small ring, and the main thread counts the packets and writes a line of the report
  when the time is up or the next profile is announced.  \<open>None\<close> stands for an access outside a buffer in the
  modem.  What the report's numbers are is the subject of \<open>OtaReport\<close>.
\<close>

section \<open>The ring of messages\<close>

definition RESULT_SLOTS :: nat where [simp]: "RESULT_SLOTS = 16"

record benchmark_result_queue =
  bq_messages :: "rtnc_ota_benchmark_message list"
  bq_producer :: nat
  bq_consumer :: nat

definition result_push :: "benchmark_result_queue \<Rightarrow> rtnc_ota_benchmark_message \<Rightarrow> bool \<times> benchmark_result_queue" where
  "result_push queue message =
    (let producer = bq_producer queue; next = ring_next producer RESULT_SLOTS
     in if next = bq_consumer queue then (False, queue)
        else (True, queue \<lparr> bq_messages := (bq_messages queue)[producer := message], bq_producer := next \<rparr>))"

definition result_pop :: "benchmark_result_queue \<Rightarrow> rtnc_ota_benchmark_message option \<times> benchmark_result_queue" where
  "result_pop queue =
    (let consumer = bq_consumer queue
     in if consumer = bq_producer queue then (None, queue)
        else (Some (bq_messages queue ! consumer), queue \<lparr> bq_consumer := ring_next consumer RESULT_SLOTS \<rparr>))"

definition result_items :: "benchmark_result_queue \<Rightarrow> rtnc_ota_benchmark_message list" where
  "result_items queue = ring_items (bq_messages queue) (bq_producer queue) (bq_consumer queue) RESULT_SLOTS"

definition result_queue_wf :: "benchmark_result_queue \<Rightarrow> bool" where
  "result_queue_wf queue \<longleftrightarrow> length (bq_messages queue) = RESULT_SLOTS \<and> bq_producer queue < RESULT_SLOTS \<and>
    bq_consumer queue < RESULT_SLOTS"

text \<open>A first-in first-out queue of 15 messages.\<close>

lemma result_queue_fifo:
  assumes "result_queue_wf queue"
  shows "fst (result_push queue message) \<longleftrightarrow> length (result_items queue) < 15"
    and "result_items (snd (result_push queue message)) =
      (if length (result_items queue) < 15 then result_items queue @ [message] else result_items queue)"
    and "result_queue_wf (snd (result_push queue message))"
    and "(case result_pop queue of (None, queue') \<Rightarrow> result_items queue = [] \<and> queue' = queue
         | (Some first, queue') \<Rightarrow> result_items queue = first # result_items queue')"
    and "result_queue_wf (snd (result_pop queue))"
proof -
  have w: "length (bq_messages queue) = 16" "bq_producer queue < 16" "bq_consumer queue < 16"
    using assms by (auto simp: result_queue_wf_def)
  note r = ring_facts [OF w(2,3)]
  have full: "ring_next (bq_producer queue) 16 = bq_consumer queue \<longleftrightarrow> length (result_items queue) = 15"
    using depth_full_iff [OF w(2,3)] by (simp add: result_items_def)
  have le: "length (result_items queue) \<le> 15" using depth_less [OF w(2,3)] by (simp add: result_items_def)
  show "fst (result_push queue message) \<longleftrightarrow> length (result_items queue) < 15"
    using full le by (auto simp: result_push_def Let_def)
  show "result_items (snd (result_push queue message)) =
      (if length (result_items queue) < 15 then result_items queue @ [message] else result_items queue)"
    using full le ring_items_push [OF w(2,3), of "bq_messages queue"] w(1) by (auto simp: result_push_def Let_def result_items_def)
  show "result_queue_wf (snd (result_push queue message))" "result_queue_wf (snd (result_pop queue))"
    using w by (auto simp: result_push_def result_pop_def Let_def result_queue_wf_def)
  show "(case result_pop queue of (None, queue') \<Rightarrow> result_items queue = [] \<and> queue' = queue
         | (Some first, queue') \<Rightarrow> result_items queue = first # result_items queue')"
    using ring_items_pop [OF w(2,3)] by (auto simp: result_pop_def Let_def result_items_def ring_items_def)
qed

section \<open>A receiver and its decoder thread\<close>

datatype worker_phase =
  \<comment> \<open>where in an iteration of its loop the decoder thread is\<close>
    Between
  | Decoding                            \<comment> \<open>the job is in \<^verbatim>\<open>decode_job\<close>\<close>
  | Holding rtnc_ota_benchmark_message  \<comment> \<open>to be stored in the ring\<close>

record 'd receiver_phy =
  rp_modem :: "'d rtnc_modem"
  rp_workspace :: rtnc_modem_workspace
  rp_acquisition :: "'d rtnc_acquisition_detector"
  rp_burst :: rtnc_burst_detector
  rp_profile :: "rtnc_phy_profile_config option"
  rp_modem_ready :: bool
  rp_decode_attempts :: u32
  rp_decoded_frames :: u32
  rp_fec_failures :: u32
  rp_evm_sum :: real
  rp_snr_sum_db :: real
  rp_decode_queue :: rtnc_decode_queue
  rp_decode_job :: rtnc_decode_job
  rp_result_queue :: benchmark_result_queue
  rp_worker_running :: bool
  rp_phase :: worker_phase
  rp_worker_started :: bool
  rp_stats_mutex_ready :: bool
  rp_candidate_sequence :: u64

definition count_decode :: "'d rx_outcome \<Rightarrow> 'd receiver_phy \<Rightarrow> 'd receiver_phy" where
  \<comment> \<open>under the mutex\<close>
  "count_decode out receiver =
    (let receiver = receiver \<lparr> rp_decode_attempts := rp_decode_attempts receiver + 1 \<rparr>;
         receiver = (if ro_status out = RTNC_MODEM_FRAME_REJECTED \<and> sm_frame_detected (ro_metrics out)
           then receiver \<lparr> rp_fec_failures := rp_fec_failures receiver + 1 \<rparr> else receiver)
     in if ro_status out = RTNC_MODEM_OK
        then receiver \<lparr> rp_decoded_frames := rp_decoded_frames receiver + 1,
               rp_evm_sum := rp_evm_sum receiver + sm_evm_rms (ro_metrics out),
               rp_snr_sum_db := rp_snr_sum_db receiver + sm_training_snr_db (ro_metrics out)
               \<comment> \<open>a real number is finite\<close> \<rparr>
        else receiver)"

definition received_message :: "'d rx_outcome \<Rightarrow> rtnc_ota_benchmark_message option" where
  "received_message out =
    (if ro_status out \<noteq> RTNC_MODEM_OK then None
     else rtnc_ota_benchmark_decode (case ro_payload out of None \<Rightarrow> [] | Some payload \<Rightarrow> payload))"

definition worker_step :: "'d liquid \<Rightarrow> 'd receiver_phy \<Rightarrow> 'd receiver_phy option" where
  \<comment> \<open>the next step of \<^verbatim>\<open>receiver_worker_main\<close>; where the queue is empty it sleeps a millisecond\<close>
  "worker_step L receiver =
    (case rp_phase receiver of
       Between \<Rightarrow>
         (case rtnc_decode_queue_pop (rp_decode_queue receiver) of
            (None, queue) \<Rightarrow> Some (receiver \<lparr> rp_decode_queue := queue \<rparr>)
          | (Some job, queue) \<Rightarrow>
              Some (receiver \<lparr> rp_decode_queue := queue, rp_decode_job := job, rp_phase := Decoding \<rparr>))
     | Decoding \<Rightarrow>
         map_option (\<lambda>out.
             (count_decode out receiver)
               \<lparr> rp_modem := ro_modem out, rp_workspace := ro_workspace out,
                 rp_phase := (case received_message out of None \<Rightarrow> Between | Some message \<Rightarrow> Holding message) \<rparr>)
           (rtnc_modem_rx_audio L (rp_modem receiver) (dj_samples (rp_decode_job receiver)) 128 zero_metrics
              (rp_workspace receiver))
     | Holding message \<Rightarrow>
         Some (receiver \<lparr> rp_result_queue := snd (result_push (rp_result_queue receiver) message), rp_phase := Between \<rparr>))"

definition worker_continues :: "'d receiver_phy \<Rightarrow> bool" where
  "worker_continues receiver \<longleftrightarrow> rp_phase receiver \<noteq> Between \<or> rp_worker_running receiver \<or>
    rtnc_decode_queue_depth (rp_decode_queue receiver) > 0"

partial_function (option) join_worker :: "'d liquid \<Rightarrow> 'd receiver_phy \<Rightarrow> 'd receiver_phy option" where
  \<comment> \<open>\<^verbatim>\<open>pthread_join\<close>: the thread runs until its loop ends\<close>
  "join_worker L receiver =
    (if worker_continues receiver then Option.bind (worker_step L receiver) (join_worker L) else Some receiver)"

text \<open>Joining ends: the thread that may no longer wait for candidates takes three steps for each that is queued.\<close>

fun worker_steps :: "'d liquid \<Rightarrow> nat \<Rightarrow> 'd receiver_phy \<Rightarrow> 'd receiver_phy option" where
  "worker_steps L 0 receiver = Some receiver"
| "worker_steps L (Suc n) receiver =
    (if worker_continues receiver then Option.bind (worker_step L receiver) (worker_steps L n) else Some receiver)"

definition worker_measure :: "'d receiver_phy \<Rightarrow> nat" where
  "worker_measure receiver = 3 * length (decode_items (rp_decode_queue receiver)) +
    (case rp_phase receiver of Between \<Rightarrow> 0 | Decoding \<Rightarrow> 2 | Holding _ \<Rightarrow> 1)"

lemma decode_depth_items: "rtnc_decode_queue_depth queue = length (decode_items queue)"
  by (simp add: rtnc_decode_queue_depth_def decode_items_def)

lemma count_decode_keeps [simp]:
  "rp_decode_queue (count_decode out receiver) = rp_decode_queue receiver"
  "rp_worker_running (count_decode out receiver) = rp_worker_running receiver"
  "rp_result_queue (count_decode out receiver) = rp_result_queue receiver"
  "rp_modem_ready (count_decode out receiver) = rp_modem_ready receiver"
  "rp_worker_started (count_decode out receiver) = rp_worker_started receiver"
  "rp_stats_mutex_ready (count_decode out receiver) = rp_stats_mutex_ready receiver"
  by (simp_all add: count_decode_def Let_def)

lemma worker_step_measure:
  assumes "decode_queue_wf (rp_decode_queue receiver)" and "\<not> rp_worker_running receiver"
    and "worker_continues receiver" and "worker_step L receiver = Some receiver'"
  shows "worker_measure receiver' < worker_measure receiver \<and> decode_queue_wf (rp_decode_queue receiver') \<and>
    \<not> rp_worker_running receiver'"
proof (cases "rp_phase receiver")
  case Between
  with assms(2,3) obtain job jobs where "decode_items (rp_decode_queue receiver) = job # jobs"
    by (cases "decode_items (rp_decode_queue receiver)") (auto simp: worker_continues_def decode_depth_items)
  from decode_pop_head [OF assms(1) this] this Between assms(2,4) show ?thesis
    by (auto simp: worker_step_def worker_measure_def)
qed (use assms in \<open>auto simp: worker_step_def worker_measure_def split: option.splits\<close>)

lemma join_worker_bounded:
  assumes "decode_queue_wf (rp_decode_queue receiver)" and "\<not> rp_worker_running receiver"
  shows "join_worker L receiver = worker_steps L (worker_measure receiver) receiver"
proof -
  have "join_worker L receiver = worker_steps L n receiver" if "worker_measure receiver \<le> n" for n
    using assms that
  proof (induction n arbitrary: receiver)
    case 0
    then have "\<not> worker_continues receiver"
      by (auto simp: worker_measure_def worker_continues_def decode_depth_items split: worker_phase.splits)
    then show ?case by (subst join_worker.simps) simp
  next
    case (Suc n)
    show ?case
    proof (cases "worker_continues receiver \<and> worker_step L receiver \<noteq> None")
      case True
      then obtain receiver' where r: "worker_step L receiver = Some receiver'" by auto
      from worker_step_measure [OF Suc.prems(1,2) _ r] True
      have "worker_measure receiver' < worker_measure receiver" "decode_queue_wf (rp_decode_queue receiver')"
        "\<not> rp_worker_running receiver'" by auto
      with Suc.IH [of receiver'] Suc.prems(3) have "join_worker L receiver' = worker_steps L n receiver'" by simp
      with r show ?thesis by (subst join_worker.simps) simp
    qed (subst join_worker.simps, auto)
  qed
  then show ?thesis by simp
qed

definition receiver_phy_deinit :: "'d liquid \<Rightarrow> 'd receiver_phy \<Rightarrow> 'd receiver_phy option" where
  "receiver_phy_deinit L receiver =
    map_option (\<lambda>receiver.
        if rp_modem_ready receiver
        then receiver \<lparr> rp_acquisition := rtnc_acquisition_detector_deinit (rp_acquisition receiver),
               rp_modem := rtnc_modem_deinit (rp_modem receiver), rp_modem_ready := False \<rparr>
        else receiver)
      (if rp_worker_started receiver
       then map_option (\<lambda>receiver. receiver \<lparr> rp_worker_started := False \<rparr>)
              (join_worker L (receiver \<lparr> rp_worker_running := False \<rparr>))
       else Some receiver)"

definition receiver_window :: "rtnc_phy_profile \<Rightarrow> 'd rtnc_modem \<Rightarrow> rtnc_burst_detector_config \<Rightarrow> nat" where
  "receiver_window phy modem detector_config =
    (let trigger_latency = (2 * RTNC_MODEM_RRC_DELAY_SYMBOLS + RTNC_MODEM_ACQUISITION_SYMBOLS - 1) *
           unat (pp_samples_per_symbol phy);
         guard = 4 * unat (pp_samples_per_symbol phy);
         window = bc_pretrigger_samples detector_config + rtnc_modem_frame_samples modem + guard
     in if window > trigger_latency then window - trigger_latency else 0)"

definition receiver_detector ::
    "rtnc_phy_profile \<Rightarrow> 'd rtnc_modem \<Rightarrow> rtnc_burst_detector_config \<Rightarrow> rtnc_burst_detector_config" where
  "receiver_detector phy modem detector_config =
    (let detector_config = detector_config \<lparr> bc_energy_trigger_enabled := False,
           bc_external_trigger_requires_energy := False, bc_cooldown_samples := 0 \<rparr>
     in detector_config \<lparr> bc_capture_samples := receiver_window phy modem detector_config \<rparr>)"

definition init_mutex :: "('w \<Rightarrow> int \<times> 'w) \<Rightarrow> 'd receiver_phy \<Rightarrow> 'w \<Rightarrow> bool \<times> 'd receiver_phy \<times> 'w" where
  \<comment> \<open>the first argument is \<^verbatim>\<open>pthread_mutex_init\<close>\<close>
  "init_mutex M receiver w =
    (if rp_stats_mutex_ready receiver then (True, receiver, w)
     else let (result, w) = M w
          in if result \<noteq> 0 then (False, receiver, w) else (True, receiver \<lparr> rp_stats_mutex_ready := True \<rparr>, w))"

definition receiver_modem ::
    "'d liquid \<Rightarrow> rtnc_platform_config \<Rightarrow> rtnc_phy_profile_config \<Rightarrow> rtnc_preamble \<Rightarrow> 'd receiver_phy \<Rightarrow>
     (rtnc_phy_profile \<times> rtnc_burst_detector_config) option \<times> 'd receiver_phy" where
  \<comment> \<open>the first chain of conditions; the memory of \<^verbatim>\<open>detector_config\<close> is not initialised, all that is used of it
      is written\<close>
  "receiver_modem L config entry preamble receiver =
    (case rtnc_platform_phy_profile_named config (pf_name entry) of
       None \<Rightarrow> (None, receiver)
     | Some phy \<Rightarrow>
         let (ok, modem) = rtnc_modem_init_profile_preamble L (rp_modem receiver) (fec_mode_of (pf_fec_mode entry))
               (pf_payload_class_bytes entry) phy preamble;
             receiver = receiver \<lparr> rp_modem := modem \<rparr>
         in if \<not> ok then (None, receiver)
            else (map_option (Pair phy) (rtnc_platform_burst_config config (bd_config zero_detector)), receiver))"

definition receiver_detectors ::
    "'d liquid \<Rightarrow> nat \<Rightarrow> rtnc_burst_detector_config \<Rightarrow> 'd receiver_phy \<Rightarrow> bool \<times> 'd receiver_phy" where
  \<comment> \<open>the second chain; \<open>address\<close> stands for the address of the receiver's modem\<close>
  "receiver_detectors L address detector_config receiver =
    (if bc_capture_samples detector_config > bc_maximum_active_samples detector_config then (False, receiver)
     else case rtnc_burst_detector_init detector_config of
            None \<Rightarrow> (False, receiver)
          | Some burst \<Rightarrow>
              let (ok, acquisition) = rtnc_acquisition_detector_init_modem L (rp_acquisition receiver) address
                    (rp_modem receiver) 4
              in (ok, receiver \<lparr> rp_burst := burst, rp_acquisition := acquisition \<rparr>))"

definition fresh_statistics :: "rtnc_phy_profile_config \<Rightarrow> 'd receiver_phy \<Rightarrow> 'd receiver_phy" where
  "fresh_statistics entry receiver = receiver
     \<lparr> rp_profile := Some entry, rp_decode_attempts := 0, rp_decoded_frames := 0, rp_fec_failures := 0,
       rp_evm_sum := 0, rp_snr_sum_db := 0, rp_candidate_sequence := 0,
       rp_result_queue := (rp_result_queue receiver) \<lparr> bq_producer := 0, bq_consumer := 0 \<rparr>,
       rp_worker_running := True \<rparr>"

definition receiver_thread ::
    "'w host \<Rightarrow> rtnc_platform_config \<Rightarrow> 'd receiver_phy \<Rightarrow> 'w \<Rightarrow> bool \<times> 'd receiver_phy \<times> 'w" where
  \<comment> \<open>the last chain: the queue and the thread\<close>
  "receiver_thread H config receiver w =
    (case rtnc_decode_queue_init (dq_slots (rp_decode_queue receiver))
            (unat (wc_decode_queue_frames (pc_workers config))) of
       None \<Rightarrow> (False, receiver, w)
     | Some queue \<Rightarrow>
         let receiver = receiver \<lparr> rp_decode_queue := queue \<rparr>; (result, w) = host_pthread_create H w
         in if result \<noteq> 0 then (False, receiver, w)
            else (True, receiver \<lparr> rp_worker_started := True, rp_phase := Between \<rparr>, w))"

definition receiver_phy_init ::
    "'d liquid \<Rightarrow> 'w host \<Rightarrow> ('w \<Rightarrow> int \<times> 'w) \<Rightarrow> rtnc_platform_config \<Rightarrow> nat \<Rightarrow> rtnc_phy_profile_config \<Rightarrow> rtnc_preamble \<Rightarrow>
     'd receiver_phy \<Rightarrow> 'w \<Rightarrow> (bool \<times> 'd receiver_phy \<times> 'w) option" where
  "receiver_phy_init L H M config address entry preamble receiver w = do {
     receiver \<leftarrow> receiver_phy_deinit L receiver;
     let (ok, receiver, w) = init_mutex M receiver w;
     if \<not> ok then Some (False, receiver, w) else
     case receiver_modem L config entry preamble receiver of
       (None, receiver) \<Rightarrow> Some (False, receiver, w)
     | (Some (phy, detector_config), receiver) \<Rightarrow>
         let receiver = receiver \<lparr> rp_modem_ready := True \<rparr>;
             (ok, receiver) = receiver_detectors L address
               (receiver_detector phy (rp_modem receiver) detector_config) receiver
         in if \<not> ok then map_option (\<lambda>receiver. (False, receiver, w)) (receiver_phy_deinit L receiver)
            else let (ok, receiver, w) = receiver_thread H config (fresh_statistics entry receiver) w
                 in if \<not> ok then map_option (\<lambda>receiver. (False, receiver, w)) (receiver_phy_deinit L receiver)
                    else Some (True, receiver, w)
   }"

definition receiver_phy_capture_triggered ::
    "'w host \<Rightarrow> real \<Rightarrow> bool \<Rightarrow> 'd receiver_phy \<Rightarrow> 'w \<Rightarrow> 'd receiver_phy \<times> 'w" where
  "receiver_phy_capture_triggered H sample trigger receiver w =
    (let (candidate, burst) =
           rtnc_burst_detector_process_triggered (rp_burst receiver) (Fin (sample * sample)) sample trigger;
         receiver = receiver \<lparr> rp_burst := burst \<rparr>
     in case candidate of
          None \<Rightarrow> (receiver, w)
        | Some candidate \<Rightarrow>
            let (time, w) = enqueue_time H w;
                (_, queue) = rtnc_decode_queue_push time (rp_decode_queue receiver) candidate (rp_candidate_sequence receiver)
            in (receiver \<lparr> rp_decode_queue := queue, rp_candidate_sequence := rp_candidate_sequence receiver + 1 \<rparr>, w))"

end
