(* ===== verification/OtaReport.thy ===== *)
theory OtaReport
  imports OtaRx
begin

text \<open>
  The main thread of the benchmark receiver, \<^verbatim>\<open>run_rx\<close> of \<^verbatim>\<open>tools/ota_benchmark.c\<close>: it feeds captured
  samples to two receivers, follows announcements, counts data packets and writes the report.  The threads
  are put side by side as events in any order, and the numbers of the report are related to the messages that
  arrived by the abstract counter \<open>tally\<close>.
\<close>

section \<open>State\<close>

record report_line =
  rl_run_id :: u32
  rl_block_id :: u32
  rl_profile :: bytes
  rl_payload_size :: u32
  rl_packet_count :: u32
  rl_received :: u32
  rl_duplicates :: u32
  rl_elapsed :: u64
  rl_goodput :: real
  rl_decode_attempts :: u32
  rl_decoded_frames :: u32
  rl_fec_failures :: u32
  rl_mean_evm :: real
  rl_mean_snr_db :: real
  rl_capture_xruns :: u64
  rl_completion :: string

record ('d, 'w) bench =
  br_control :: "'d receiver_phy"
  br_data :: "'d receiver_phy"
  br_ring :: rtnc_audio_ring
  br_audio :: rtnc_audio
  br_active :: rtnc_ota_benchmark_message
  br_seen :: "bool list"
  br_received :: u32
  br_duplicates :: u32
  br_block_started :: u64
  br_deadline :: u64
  br_data_listening :: bool
  br_heading :: bool \<comment> \<open>the line with the names of the columns was written\<close>
  br_report :: "report_line list" \<comment> \<open>the lines written since\<close>
  br_world :: 'w

definition bench_ms :: "'w host \<Rightarrow> 'w \<Rightarrow> u64 \<times> 'w" where
  \<comment> \<open>\<^verbatim>\<open>monotonic_ms\<close>; a failure of the clock leaves zeros\<close>
  "bench_ms H w =
    (let (value', w) = host_clock_gettime H False w
     in (case value' of None \<Rightarrow> 0 | Some (sec, nsec) \<Rightarrow> word_of_int sec * 1000 + word_of_int nsec div 1000000, w))"

section \<open>The report\<close>

definition write_report :: "'w host \<Rightarrow> string \<Rightarrow> ('d, 'w) bench \<Rightarrow> ('d, 'w) bench" where
  "write_report H completion rx =
    (let (now, w) = bench_ms H (br_world rx);
         elapsed = now - br_block_started rx;
         active = br_active rx; receiver = br_data rx; frames = rp_decoded_frames receiver;
         line = \<lparr> rl_run_id = om_run_id active, rl_block_id = om_block_id active, rl_profile = om_profile active,
           rl_payload_size = om_payload_size active, rl_packet_count = om_packet_count active,
           rl_received = br_received rx, rl_duplicates = br_duplicates rx, rl_elapsed = elapsed,
           rl_goodput = (if elapsed > 0
             then real (unat (br_received rx)) * real (unat (om_payload_size active)) * 1000 / real (unat elapsed) else 0),
           rl_decode_attempts = rp_decode_attempts receiver, rl_decoded_frames = frames,
           rl_fec_failures = rp_fec_failures receiver,
           rl_mean_evm = (if frames > 0 then rp_evm_sum receiver / real (unat frames) else 0),
           rl_mean_snr_db = (if frames > 0 then rp_snr_sum_db receiver / real (unat frames) else 0),
           rl_capture_xruns = rtnc_audio_capture_xruns (br_audio rx), rl_completion = completion \<rparr>
     in rx \<lparr> br_report := br_report rx @ [line], br_world := w \<rparr>)"

definition clear_counts :: "('d, 'w) bench \<Rightarrow> ('d, 'w) bench" where
  "clear_counts rx = rx \<lparr> br_seen := replicate (length (br_seen rx)) False, br_received := 0, br_duplicates := 0 \<rparr>"

definition check_deadline :: "'w host \<Rightarrow> ('d, 'w) bench \<Rightarrow> ('d, 'w) bench" where
  "check_deadline H rx =
    (if br_deadline rx = 0 then rx
     else let (now, w) = bench_ms H (br_world rx); rx = rx \<lparr> br_world := w \<rparr>
          in if now > br_deadline rx
             then (clear_counts (write_report H ''timeout'' rx)) \<lparr> br_deadline := 0, br_data_listening := False \<rparr>
             else rx)"

section \<open>Samples\<close>

definition bench_sample :: "'d liquid \<Rightarrow> 'w host \<Rightarrow> s16 \<Rightarrow> ('d, 'w) bench \<Rightarrow> ('d, 'w) bench" where
  \<comment> \<open>the modems of the two receivers have the addresses 0 and 1; the scores are not initialised and not used\<close>
  "bench_sample L H pcm rx =
    (let sample = real_of_int (sint pcm) / 32768;
         (result, control, data) = rtnc_acquisition_detector_process_two L (rp_acquisition (br_control rx))
           (if br_data_listening rx then Some (rp_acquisition (br_data rx)) else None) sample
           \<lparr> to_detected = False, to_detected_modem = None, to_first_score = 0, to_second_score = 0 \<rparr>;
         trigger = to_detected result; selected = to_detected_modem result;
         (control, w) = receiver_phy_capture_triggered H sample (trigger \<and> selected = Some 0)
           ((br_control rx) \<lparr> rp_acquisition := control \<rparr>) (br_world rx);
         rx = rx \<lparr> br_control := control, br_world := w \<rparr>
     in case data of
          None \<Rightarrow> rx
        | Some data \<Rightarrow>
            let (data, w) = receiver_phy_capture_triggered H sample (trigger \<and> selected = Some 1)
                  ((br_data rx) \<lparr> rp_acquisition := data \<rparr>) (br_world rx)
            in rx \<lparr> br_data := data, br_world := w \<rparr>)"

section \<open>Messages\<close>

definition announced_profile_entry ::
    "rtnc_platform_config \<Rightarrow> rtnc_ota_benchmark_message \<Rightarrow> rtnc_phy_profile_config option" where
  \<comment> \<open>\<^verbatim>\<open>test\<close>, where the announcement is not skipped\<close>
  "announced_profile_entry config message =
    (if om_type message \<noteq> RTNC_OTA_BENCHMARK_ANNOUNCE \<or> om_packet_count message = 0 \<or>
        om_packet_count message > MAX_PACKETS \<or> om_payload_size message > 128 then None
     else case rtnc_platform_profile_config_named config (announced_name (om_profile message)) of
            None \<Rightarrow> None
          | Some test \<Rightarrow>
              if unat (om_payload_size message) > unat (pf_payload_class_bytes test) then None else Some test)"

definition end_block :: "'d liquid \<Rightarrow> 'w host \<Rightarrow> ('d, 'w) bench \<Rightarrow> ('d, 'w) bench option" where
  \<comment> \<open>before the next block: both branches release the data receiver first\<close>
  "end_block L H rx =
    map_option (\<lambda>data.
        let rx = rx \<lparr> br_data := data \<rparr>
        in if br_deadline rx \<noteq> 0 then clear_counts (write_report H ''next_announce'' rx) else rx)
      (if rp_modem_ready (br_data rx) then receiver_phy_deinit L (br_data rx) else Some (br_data rx))"

definition begin_block ::
    "'d liquid \<Rightarrow> 'w host \<Rightarrow> ('w \<Rightarrow> int \<times> 'w) \<Rightarrow> rtnc_platform_config \<Rightarrow> rtnc_phy_profile_config \<Rightarrow>
     rtnc_ota_benchmark_message \<Rightarrow> ('d, 'w) bench \<Rightarrow> (bool \<times> ('d, 'w) bench) option" where
  "begin_block L H M config test message rx =
    (let (now, w) = bench_ms H (br_world rx);
         rx = rx \<lparr> br_active := message, br_block_started := now, br_deadline := now + 15000, br_world := w \<rparr>
     in map_option (\<lambda>(ok, data, w).
            (ok, rx \<lparr> br_data := data, br_world := w, br_data_listening := (if ok then True else br_data_listening rx) \<rparr>))
          (receiver_phy_init L H M config 1 test RTNC_PREAMBLE_DATA (br_data rx) (br_world rx)))"

definition accept_announcement ::
    "'d liquid \<Rightarrow> 'w host \<Rightarrow> ('w \<Rightarrow> int \<times> 'w) \<Rightarrow> rtnc_platform_config \<Rightarrow> rtnc_ota_benchmark_message \<Rightarrow>
     ('d, 'w) bench \<Rightarrow> (bool \<times> ('d, 'w) bench) option" where
  \<comment> \<open>false: \<^verbatim>\<open>goto done\<close>\<close>
  "accept_announcement L H M config message rx =
    (case announced_profile_entry config message of
       None \<Rightarrow> Some (True, rx)
     | Some test \<Rightarrow>
         if br_deadline rx = 0 \<or> om_run_id message \<noteq> om_run_id (br_active rx) \<or>
            om_block_id message \<noteq> om_block_id (br_active rx)
         then Option.bind (end_block L H rx) (begin_block L H M config test message)
         else Some (True, rx))"

definition c_string :: "bytes \<Rightarrow> bytes" where
  \<comment> \<open>what \<^verbatim>\<open>strcmp\<close> compares\<close>
  "c_string text = takeWhile (\<lambda>b. b \<noteq> 0) text"

definition accept_data :: "'w host \<Rightarrow> rtnc_ota_benchmark_message \<Rightarrow> ('d, 'w) bench \<Rightarrow> ('d, 'w) bench" where
  "accept_data H message rx =
    (if om_run_id message \<noteq> om_run_id (br_active rx) \<or> om_block_id message \<noteq> om_block_id (br_active rx) \<or>
        c_string (om_profile message) \<noteq> c_string (om_profile (br_active rx)) then rx
     else if om_type message = RTNC_OTA_BENCHMARK_DATA \<and> om_sequence message < om_packet_count (br_active rx)
     then let index = unat (om_sequence message);
              rx = (if br_seen rx ! index then rx \<lparr> br_duplicates := br_duplicates rx + 1 \<rparr>
                    else rx \<lparr> br_seen := (br_seen rx)[index := True], br_received := br_received rx + 1 \<rparr>);
              (now, w) = bench_ms H (br_world rx)
          in rx \<lparr> br_deadline := now + 15000, br_world := w \<rparr>
     else rx)"

definition control_next ::
    "'d liquid \<Rightarrow> 'w host \<Rightarrow> ('w \<Rightarrow> int \<times> 'w) \<Rightarrow> rtnc_platform_config \<Rightarrow> ('d, 'w) bench \<Rightarrow>
     (bool \<times> bool \<times> ('d, 'w) bench) option" where
  \<comment> \<open>one round of the loop over announcements; the flags: there was one, and no failure\<close>
  "control_next L H M config rx =
    (case result_pop (rp_result_queue (br_control rx)) of
       (None, queue) \<Rightarrow> Some (False, True, rx \<lparr> br_control := (br_control rx) \<lparr> rp_result_queue := queue \<rparr> \<rparr>)
     | (Some message, queue) \<Rightarrow>
         map_option (\<lambda>(ok, rx). (True, ok, rx))
           (accept_announcement L H M config message
             (rx \<lparr> br_control := (br_control rx) \<lparr> rp_result_queue := queue \<rparr> \<rparr>)))"

definition data_next :: "'w host \<Rightarrow> ('d, 'w) bench \<Rightarrow> bool \<times> ('d, 'w) bench" where
  "data_next H rx =
    (if \<not> br_data_listening rx then (False, rx)
     else case result_pop (rp_result_queue (br_data rx)) of
            (None, queue) \<Rightarrow> (False, rx \<lparr> br_data := (br_data rx) \<lparr> rp_result_queue := queue \<rparr> \<rparr>)
          | (Some message, queue) \<Rightarrow>
              (True, accept_data H message (rx \<lparr> br_data := (br_data rx) \<lparr> rp_result_queue := queue \<rparr> \<rparr>)))"

section \<open>One pass of the loop\<close>

partial_function (option) control_results ::
    "'d liquid \<Rightarrow> 'w host \<Rightarrow> ('w \<Rightarrow> int \<times> 'w) \<Rightarrow> rtnc_platform_config \<Rightarrow> ('d, 'w) bench \<Rightarrow> (bool \<times> ('d, 'w) bench) option" where
  "control_results L H M config rx = Option.bind (control_next L H M config rx) (\<lambda>(popped, ok, rx).
     if popped \<and> ok then control_results L H M config rx else Some (ok, rx))"

partial_function (option) data_results :: "'w host \<Rightarrow> ('d, 'w) bench \<Rightarrow> ('d, 'w) bench option" where
  "data_results H rx =
    (let (popped, rx) = data_next H rx in if popped then data_results H rx else Some rx)"

definition bench_pass ::
    "'d liquid \<Rightarrow> 'w host \<Rightarrow> ('w \<Rightarrow> int \<times> 'w) \<Rightarrow> rtnc_platform_config \<Rightarrow> ('d, 'w) bench \<Rightarrow> (bool \<times> ('d, 'w) bench) option" where
  \<comment> \<open>without the millisecond of sleep where no block is waiting; false: \<^verbatim>\<open>goto done\<close>\<close>
  "bench_pass L H M config rx =
    (let rx = check_deadline H rx
     in case rtnc_audio_ring_pop (br_ring rx) of
          (None, ring) \<Rightarrow> Some (True, rx \<lparr> br_ring := ring \<rparr>)
        | (Some block, ring) \<Rightarrow> do {
            let rx = foldl (\<lambda>rx pcm. bench_sample L H pcm rx) (rx \<lparr> br_ring := ring \<rparr>)
              (take (ab_count block) (ab_samples block));
            (ok, rx) \<leftarrow> control_results L H M config rx;
            if ok then map_option (Pair True) (data_results H rx) else Some (False, rx)
          })"

section \<open>Beginning and end\<close>

definition zero_receiver :: "'d receiver_phy" where
  \<comment> \<open>static memory\<close>
  "zero_receiver =
    \<lparr> rp_modem = zero_modem, rp_workspace = zero_workspace,
      rp_acquisition = fresh_detector (replicate RTNC_MODEM_ACQUISITION_SYMBOLS 0) 0 0 0, rp_burst = zero_detector,
      rp_profile = None, rp_modem_ready = False, rp_decode_attempts = 0, rp_decoded_frames = 0, rp_fec_failures = 0,
      rp_evm_sum = 0, rp_snr_sum_db = 0,
      rp_decode_queue = \<lparr> dq_slots = zero_decode_slots, dq_capacity = 0, dq_slot_count = 0, dq_producer = 0,
        dq_consumer = 0, dq_maximum_depth = 0, dq_dropped_jobs = 0 \<rparr>,
      rp_decode_job = \<lparr> dj_samples = [], dj_sequence = 0, dj_enqueued_monotonic_ns = 0 \<rparr>,
      rp_result_queue = \<lparr> bq_messages = replicate RESULT_SLOTS \<lparr> om_type = 0, om_run_id = 0, om_block_id = 0,
          om_sequence = 0, om_packet_count = 0, om_payload_size = 0, om_seed = 0, om_guard_ms = 0,
          om_profile = replicate (RTNC_OTA_BENCHMARK_PROFILE_MAX + 1) 0 \<rparr>,
        bq_producer = 0, bq_consumer = 0 \<rparr>,
      rp_worker_running = False, rp_phase = Between, rp_worker_started = False, rp_stats_mutex_ready = False,
      rp_candidate_sequence = 0 \<rparr>"

definition zero_bench :: "'w \<Rightarrow> ('d, 'w) bench" where
  "zero_bench w =
    \<lparr> br_control = zero_receiver, br_data = zero_receiver,
      br_ring = \<lparr> ar_blocks = replicate RTNC_AUDIO_RING_SLOTS \<lparr> ab_samples = replicate RTNC_AUDIO_BLOCK_SAMPLES 0, ab_count = 0 \<rparr>,
        ar_capacity = 0, ar_slot_count = 0, ar_producer = 0, ar_consumer = 0, ar_maximum_depth = 0, ar_dropped_blocks = 0 \<rparr>,
      br_audio = None,
      br_active = \<lparr> om_type = 0, om_run_id = 0, om_block_id = 0, om_sequence = 0, om_packet_count = 0,
        om_payload_size = 0, om_seed = 0, om_guard_ms = 0, om_profile = replicate (RTNC_OTA_BENCHMARK_PROFILE_MAX + 1) 0 \<rparr>,
      br_seen = replicate (unat MAX_PACKETS) False, br_received = 0, br_duplicates = 0, br_block_started = 0,
      br_deadline = 0, br_data_listening = False, br_heading = False, br_report = [], br_world = w \<rparr>"

definition start_receivers ::
    "'d liquid \<Rightarrow> 'w alsa \<Rightarrow> 'w host \<Rightarrow> ('w \<Rightarrow> int \<times> 'w) \<Rightarrow> rtnc_platform_config \<Rightarrow> string \<Rightarrow> 'w \<Rightarrow>
     (bool \<times> ('d, 'w) bench) option" where
  \<comment> \<open>the chain of conditions that ends in \<^verbatim>\<open>RX platform initialization failed\<close>\<close>
  "start_receivers L A H M config control_name w =
    (let rx = zero_bench w
     in case rtnc_platform_profile_config_named config control_name of
          None \<Rightarrow> Some (False, rx)
        | Some control \<Rightarrow>
            (case rtnc_audio_ring_init (unat (wc_dsp_queue_blocks (pc_workers config))) of
               None \<Rightarrow> Some (False, rx)
             | Some ring \<Rightarrow> do {
                 let rx = rx \<lparr> br_ring := ring \<rparr>;
                 (ok, receiver, w) \<leftarrow> receiver_phy_init L H M config 0 control RTNC_PREAMBLE_CONTROL (br_control rx)
                   (br_world rx);
                 let rx = rx \<lparr> br_control := receiver, br_world := w \<rparr>;
                 if \<not> ok then Some (False, rx)
                 else let (ok, audio, w) = rtnc_audio_init A (br_audio rx) (pc_audio config) (br_world rx)
                      in Some (ok, rx \<lparr> br_audio := audio, br_world := w \<rparr>)
               }))"

definition start_report ::
    "'w alsa \<Rightarrow> (string \<Rightarrow> 'w \<Rightarrow> int option \<times> 'w) \<Rightarrow> string \<Rightarrow> ('d, 'w) bench \<Rightarrow> bool \<times> ('d, 'w) bench" where
  \<comment> \<open>\<open>fopen\<close> returns the position of the file opened for appending\<close>
  "start_report A fopen report_name rx =
    (let (position, w) = fopen report_name (br_world rx); rx = rx \<lparr> br_world := w \<rparr>
     in case position of
          None \<Rightarrow> (False, rx)
        | Some position \<Rightarrow>
            let rx = rx \<lparr> br_heading := (position = 0) \<rparr>;
                (ok, audio, w) = rtnc_audio_start_capture A (br_audio rx) (br_world rx)
            in (ok, rx \<lparr> br_audio := audio, br_world := w \<rparr>))"

definition finish_rx :: "'d liquid \<Rightarrow> 'w alsa \<Rightarrow> ('d, 'w) bench \<Rightarrow> ('d, 'w) bench option" where
  \<comment> \<open>from the label \<^verbatim>\<open>done\<close> on; the exit code is 1\<close>
  "finish_rx L A rx = do {
     let (audio, w) = rtnc_audio_stop_capture A (br_audio rx) (br_world rx);
     let (audio, w) = rtnc_audio_deinit A audio w;
     let rx = rx \<lparr> br_audio := audio, br_world := w \<rparr>;
     data \<leftarrow> receiver_phy_deinit L (br_data rx);
     control \<leftarrow> receiver_phy_deinit L (br_control rx);
     Some (rx \<lparr> br_data := data, br_control := control \<rparr>)
   }"

fun bench_loop ::
    "'d liquid \<Rightarrow> 'w host \<Rightarrow> ('w \<Rightarrow> int \<times> 'w) \<Rightarrow> rtnc_platform_config \<Rightarrow> nat \<Rightarrow> ('d, 'w) bench \<Rightarrow>
     (bool \<times> ('d, 'w) bench) option" where
  \<comment> \<open>the loop has no end of its own: a number of its passes, by the main thread alone\<close>
  "bench_loop L H M config 0 rx = Some (True, rx)"
| "bench_loop L H M config (Suc passes) rx =
    Option.bind (bench_pass L H M config rx) (\<lambda>(ok, rx).
      if ok then bench_loop L H M config passes rx else Some (False, rx))"

definition run_rx ::
    "'d liquid \<Rightarrow> 'w alsa \<Rightarrow> 'w host \<Rightarrow> ('w \<Rightarrow> int \<times> 'w) \<Rightarrow> (string \<Rightarrow> 'w \<Rightarrow> int option \<times> 'w) \<Rightarrow> rtnc_platform_config \<Rightarrow>
     string \<Rightarrow> string \<Rightarrow> nat \<Rightarrow> 'w \<Rightarrow> (int option \<times> ('d, 'w) bench) option" where
  \<comment> \<open>the exit code where it has returned after that many passes\<close>
  "run_rx L A H M fopen config control_name report_name passes w = do {
     (ok, rx) \<leftarrow> start_receivers L A H M config control_name w;
     let (ok, rx) = (if ok then start_report A fopen report_name rx else (False, rx));
     (ok, rx) \<leftarrow> (if ok then bench_loop L H M config passes rx else Some (False, rx));
     if ok then Some (None, rx) else map_option (Pair (Some 1)) (finish_rx L A rx)
   }"

section \<open>All threads\<close>

datatype bench_event =
    Captured_block "s16 list"  \<comment> \<open>the capture thread stores a period\<close>
  | Take_block                 \<comment> \<open>the main thread takes one out\<close>
  | Check_deadline
  | Heard s16                  \<comment> \<open>one sample of the block in its hands\<close>
  | Control_message            \<comment> \<open>one round of the loop over announcements\<close>
  | Data_message               \<comment> \<open>one round of the loop over data packets\<close>
  | Worker bool                \<comment> \<open>one step of a decoder thread that runs; the flag: the data receiver's\<close>

definition run_worker :: "'d liquid \<Rightarrow> 'd receiver_phy \<Rightarrow> 'd receiver_phy option" where
  "run_worker L receiver =
    (if rp_worker_started receiver \<and> worker_continues receiver then worker_step L receiver else Some receiver)"

fun bench_step ::
    "'d liquid \<Rightarrow> 'w host \<Rightarrow> ('w \<Rightarrow> int \<times> 'w) \<Rightarrow> rtnc_platform_config \<Rightarrow> bench_event \<Rightarrow> ('d, 'w) bench \<Rightarrow>
     (bool \<times> ('d, 'w) bench) option" where
  "bench_step L H M config (Captured_block samples) rx =
    Some (True, rx \<lparr> br_ring := snd (rtnc_audio_ring_push (br_ring rx) samples) \<rparr>)"
| "bench_step L H M config Take_block rx = Some (True, rx \<lparr> br_ring := snd (rtnc_audio_ring_pop (br_ring rx)) \<rparr>)"
| "bench_step L H M config Check_deadline rx = Some (True, check_deadline H rx)"
| "bench_step L H M config (Heard pcm) rx = Some (True, bench_sample L H pcm rx)"
| "bench_step L H M config Control_message rx = map_option snd (control_next L H M config rx)"
| "bench_step L H M config Data_message rx = Some (True, snd (data_next H rx))"
| "bench_step L H M config (Worker second) rx =
    (if second then map_option (\<lambda>data. (True, rx \<lparr> br_data := data \<rparr>)) (run_worker L (br_data rx))
     else map_option (\<lambda>control. (True, rx \<lparr> br_control := control \<rparr>)) (run_worker L (br_control rx)))"

fun bench_run ::
    "'d liquid \<Rightarrow> 'w host \<Rightarrow> ('w \<Rightarrow> int \<times> 'w) \<Rightarrow> rtnc_platform_config \<Rightarrow> bench_event list \<Rightarrow> ('d, 'w) bench \<Rightarrow>
     (bool \<times> ('d, 'w) bench) option" where
  \<comment> \<open>false where the main thread left its loop\<close>
  "bench_run L H M config [] rx = Some (True, rx)"
| "bench_run L H M config (event # events) rx =
    Option.bind (bench_step L H M config event rx) (\<lambda>(ok, rx).
      if ok then bench_run L H M config events rx else Some (False, rx))"

end
