(* ===== verification/OtaTally.thy ===== *)
theory OtaTally
  imports OtaReport DaemonExamples
begin

text \<open>
  What the numbers in the report of the benchmark receiver mean: \<open>tally\<close> counts from the messages the main
  thread takes out of the two result rings and the moments the time is up, and the lines written are its
  results.  A packet that is decoded but still in its ring when the next block is announced, or that finds the
  ring full, is not among them.  The last part joins both sides: what the sender encodes is decoded to what was
  sent, and the line of a block counts the packets of that sender.
\<close>

section \<open>The abstract counter\<close>

datatype bench_entry =
    Control_heard rtnc_ota_benchmark_message
  | Data_heard rtnc_ota_benchmark_message
  | Time_up

type_synonym open_block = "rtnc_ota_benchmark_message \<times> u32 list"
  \<comment> \<open>the announcement, and the sequence numbers that arrived\<close>

type_synonym tally_state = "open_block option \<times> (open_block \<times> string) list"
  \<comment> \<open>the block that is counted, and the blocks that were reported\<close>

definition of_block :: "rtnc_ota_benchmark_message \<Rightarrow> rtnc_ota_benchmark_message \<Rightarrow> bool" where
  \<comment> \<open>a data packet of an announced block\<close>
  "of_block announced message \<longleftrightarrow>
    om_run_id message = om_run_id announced \<and> om_block_id message = om_block_id announced \<and>
    c_string (om_profile message) = c_string (om_profile announced) \<and>
    om_type message = RTNC_OTA_BENCHMARK_DATA \<and> om_sequence message < om_packet_count announced"

fun tally_step :: "rtnc_platform_config \<Rightarrow> tally_state \<Rightarrow> bench_entry \<Rightarrow> tally_state" where
  "tally_step config (current, results) (Control_heard message) =
    (if announced_profile_entry config message = None then (current, results)
     else case current of
       None \<Rightarrow> (Some (message, []), results)
     | Some (announced, sequences) \<Rightarrow>
         if om_run_id message = om_run_id announced \<and> om_block_id message = om_block_id announced
         then (current, results)
         else (Some (message, []), results @ [((announced, sequences), ''next_announce'')]))"
| "tally_step config (current, results) (Data_heard message) =
    (case current of
       None \<Rightarrow> (current, results)
     | Some (announced, sequences) \<Rightarrow>
         (if of_block announced message then Some (announced, sequences @ [om_sequence message]) else current, results))"
| "tally_step config (current, results) Time_up =
    (case current of None \<Rightarrow> (current, results) | Some block \<Rightarrow> (None, results @ [(block, ''timeout'')]))"

definition tally :: "rtnc_platform_config \<Rightarrow> tally_state \<Rightarrow> bench_entry list \<Rightarrow> tally_state" where
  "tally config state entries = foldl (tally_step config) state entries"

fun bench_heard :: "'w host \<Rightarrow> bench_event \<Rightarrow> ('d, 'w) bench \<Rightarrow> bench_entry list" where
  \<comment> \<open>what an event brings\<close>
  "bench_heard H Check_deadline rx =
    (if br_deadline rx \<noteq> 0 \<and> fst (bench_ms H (br_world rx)) > br_deadline rx then [Time_up] else [])"
| "bench_heard H Control_message rx =
    (case fst (result_pop (rp_result_queue (br_control rx))) of None \<Rightarrow> [] | Some message \<Rightarrow> [Control_heard message])"
| "bench_heard H Data_message rx =
    (if \<not> br_data_listening rx then []
     else case fst (result_pop (rp_result_queue (br_data rx))) of None \<Rightarrow> [] | Some message \<Rightarrow> [Data_heard message])"
| "bench_heard H _ rx = []"

fun bench_history ::
    "'d liquid \<Rightarrow> 'w host \<Rightarrow> ('w \<Rightarrow> int \<times> 'w) \<Rightarrow> rtnc_platform_config \<Rightarrow> bench_event list \<Rightarrow> ('d, 'w) bench \<Rightarrow>
     bench_entry list" where
  "bench_history L H M config [] rx = []"
| "bench_history L H M config (event # events) rx = bench_heard H event rx @
    (case bench_step L H M config event rx of
       Some (True, rx) \<Rightarrow> bench_history L H M config events rx | _ \<Rightarrow> [])"

section \<open>The counts agree\<close>

definition line_matches :: "report_line \<Rightarrow> open_block \<times> string \<Rightarrow> bool" where
  "line_matches line = (\<lambda>((announced, sequences), completion).
    rl_run_id line = om_run_id announced \<and> rl_block_id line = om_block_id announced \<and>
    rl_profile line = om_profile announced \<and> rl_payload_size line = om_payload_size announced \<and>
    rl_packet_count line = om_packet_count announced \<and>
    rl_received line = of_nat (card (set sequences)) \<and>
    rl_duplicates line = of_nat (length sequences - card (set sequences)) \<and> rl_completion line = completion \<and>
    set sequences \<subseteq> {..<om_packet_count announced} \<and> om_packet_count announced \<le> MAX_PACKETS)"

definition counts_agree :: "('d, 'w) bench \<Rightarrow> open_block option \<Rightarrow> bool" where
  "counts_agree rx current \<longleftrightarrow>
    length (br_seen rx) = unat MAX_PACKETS \<and> (br_deadline rx = 0 \<longleftrightarrow> current = None) \<and>
    (br_data_listening rx \<longleftrightarrow> current \<noteq> None) \<and>
    (\<forall>i < unat MAX_PACKETS. br_seen rx ! i \<longleftrightarrow> (\<exists>b \<in> set_option current. of_nat i \<in> set (snd b))) \<and>
    (case current of
       None \<Rightarrow> br_received rx = 0 \<and> br_duplicates rx = 0
     | Some (announced, sequences) \<Rightarrow>
         br_active rx = announced \<and> om_packet_count announced \<le> MAX_PACKETS \<and>
         set sequences \<subseteq> {..<om_packet_count announced} \<and> br_received rx = of_nat (card (set sequences)) \<and>
         br_duplicates rx = of_nat (length sequences - card (set sequences)))"

definition bench_agrees :: "('d, 'w) bench \<Rightarrow> tally_state \<Rightarrow> bool" where
  "bench_agrees rx state \<longleftrightarrow> counts_agree rx (fst state) \<and> list_all2 line_matches (br_report rx) (snd state)"

definition clock_bounded :: "'w host \<Rightarrow> bool" where
  \<comment> \<open>the monotonic clock stays below 2^63 milliseconds, some 300 million years\<close>
  "clock_bounded H \<longleftrightarrow> (\<forall>w. unat (fst (bench_ms H w)) < 2 ^ 63)"

lemma deadline_not_zero: "clock_bounded H \<Longrightarrow> bench_ms H w = (now, w') \<Longrightarrow> now + 15000 \<noteq> 0"
proof
  assume a: "clock_bounded H" "bench_ms H w = (now, w')" "now + 15000 = 0"
  from a(1,2) have "unat now < 2 ^ 63" by (metis clock_bounded_def fst_conv)
  then have "unat (now + 15000) = unat now + 15000" by (simp add: unat_word_ariths)
  with a(3) show False by simp
qed

definition same_counts :: "('d, 'w) bench \<Rightarrow> ('d, 'w) bench \<Rightarrow> bool" where
  "same_counts rx rx' \<longleftrightarrow> br_seen rx' = br_seen rx \<and> br_deadline rx' = br_deadline rx \<and>
    br_data_listening rx' = br_data_listening rx \<and> br_received rx' = br_received rx \<and>
    br_duplicates rx' = br_duplicates rx \<and> br_active rx' = br_active rx \<and> br_report rx' = br_report rx"

lemma same_counts_agree: "same_counts rx rx' \<Longrightarrow> bench_agrees rx' state = bench_agrees rx state"
  by (simp add: same_counts_def bench_agrees_def counts_agree_def split: option.splits)

lemma bench_sample_counts: "same_counts rx (bench_sample L H pcm rx)"
  by (auto simp: same_counts_def bench_sample_def Let_def split: prod.splits option.splits)

lemma write_report_sel [simp]:
  "br_seen (write_report H c rx) = br_seen rx" "br_deadline (write_report H c rx) = br_deadline rx"
  "br_data_listening (write_report H c rx) = br_data_listening rx" "br_active (write_report H c rx) = br_active rx"
  "br_data (write_report H c rx) = br_data rx" "br_control (write_report H c rx) = br_control rx"
  by (simp_all add: write_report_def Let_def split: prod.splits)

lemma write_report_line:
  assumes "counts_agree rx (Some block)" and "list_all2 line_matches (br_report rx) results"
  shows "list_all2 line_matches (br_report (write_report H completion rx)) (results @ [(block, completion)])"
proof -
  have "\<exists>line. br_report (write_report H completion rx) = br_report rx @ [line] \<and> line_matches line (block, completion)"
    using assms(1) by (cases block) (auto simp: write_report_def Let_def counts_agree_def line_matches_def split: prod.splits)
  with assms(2) show ?thesis by (auto intro: list_all2_appendI)
qed

lemma check_deadline_agrees:
  assumes "bench_agrees rx state"
  shows "bench_agrees (check_deadline H rx) (tally config state (bench_heard H Check_deadline rx))"
proof -
  obtain current results where s: "state = (current, results)" by (cases state)
  obtain now w where m: "bench_ms H (br_world rx) = (now, w)" by fastforce
  let ?rx = "rx \<lparr> br_world := w \<rparr>"
  show ?thesis
  proof (cases "br_deadline rx \<noteq> 0 \<and> now > br_deadline rx")
    case False
    then have "same_counts rx (check_deadline H rx)" using m by (auto simp: check_deadline_def same_counts_def)
    with False m assms show ?thesis by (auto simp: same_counts_agree tally_def)
  next
    case True
    with assms s obtain block where b: "current = Some block" "counts_agree ?rx (Some block)"
        "list_all2 line_matches (br_report ?rx) results"
      by (cases current) (auto simp: bench_agrees_def counts_agree_def)
    from write_report_line [OF b(2,3)] b(2) True m s b(1) show ?thesis
      by (auto simp: check_deadline_def tally_def bench_agrees_def counts_agree_def clear_counts_def)
  qed
qed

lemma accept_data_agrees:
  assumes "clock_bounded H" and "bench_agrees rx (Some (announced, sequences), results)"
  shows "bench_agrees (accept_data H message rx) (tally_step config (Some (announced, sequences), results) (Data_heard message))"
proof (cases "of_block announced message")
  case False
  with assms(2) have "accept_data H message rx = rx"
    by (auto simp: accept_data_def of_block_def bench_agrees_def counts_agree_def)
  with False assms(2) show ?thesis by simp
next
  case True
  let ?s = "om_sequence message"
  obtain now w where m: "bench_ms H (br_world rx) = (now, w)" by fastforce
  from assms(2) have c: "length (br_seen rx) = 1000" "br_active rx = announced" "om_packet_count announced \<le> 1000"
      "set sequences \<subseteq> {..<om_packet_count announced}" "br_received rx = of_nat (card (set sequences))"
      "br_duplicates rx = of_nat (length sequences - card (set sequences))" "br_deadline rx \<noteq> 0"
      "br_data_listening rx" "list_all2 line_matches (br_report rx) results"
    and seen: "\<And>i. i < 1000 \<Longrightarrow> br_seen rx ! i \<longleftrightarrow> of_nat i \<in> set sequences"
    by (auto simp: bench_agrees_def counts_agree_def)
  have lt: "?s < om_packet_count announced" using True by (simp add: of_block_def)
  then have "?s < 1000" using c(3) by (rule order_less_le_trans)
  then have i: "unat ?s < 1000" by (simp add: word_less_nat_alt)
  have at: "br_seen rx ! unat ?s \<longleftrightarrow> ?s \<in> set sequences" using seen [OF i] by simp
  have le: "card (set sequences) \<le> length sequences" by (rule card_length)
  have index: "of_nat k = ?s \<longleftrightarrow> k = unat ?s" if "k < 1000" for k
  proof -
    have "unat (of_nat k :: u32) = k" using that by (simp add: unat_of_nat take_bit_nat_eq_self)
    then show ?thesis by (metis word_unat_eq_iff)
  qed
  have "accept_data H message rx =
      (if br_seen rx ! unat ?s then rx \<lparr> br_duplicates := br_duplicates rx + 1 \<rparr>
       else rx \<lparr> br_seen := (br_seen rx)[unat ?s := True], br_received := br_received rx + 1 \<rparr>)
        \<lparr> br_deadline := now + 15000, br_world := w \<rparr>"
    using True m c(2) by (simp add: accept_data_def of_block_def Let_def)
  then show ?thesis
    using c lt at deadline_not_zero [OF assms(1) m] True i seen index le
    by (auto simp: bench_agrees_def counts_agree_def nth_list_update Suc_diff_le card_insert_if)
qed

definition cleared :: "('d, 'w) bench \<Rightarrow> bool" where
  "cleared rx \<longleftrightarrow> length (br_seen rx) = unat MAX_PACKETS \<and> (\<forall>i < unat MAX_PACKETS. \<not> br_seen rx ! i) \<and>
    br_received rx = 0 \<and> br_duplicates rx = 0"

lemma end_block_cleared:
  assumes "bench_agrees rx (current, results)" and "end_block L H rx = Some rx'"
  shows "cleared rx' \<and> list_all2 line_matches (br_report rx')
    (results @ (case current of None \<Rightarrow> [] | Some block \<Rightarrow> [(block, ''next_announce'')]))"
proof -
  from assms(2) obtain data where d: "rx' = (if br_deadline rx \<noteq> 0
      then clear_counts (write_report H ''next_announce'' (rx \<lparr> br_data := data \<rparr>)) else rx \<lparr> br_data := data \<rparr>)"
    unfolding end_block_def Let_def by (auto simp: map_option_eq_Some)
  show ?thesis
  proof (cases current)
    case None
    with assms(1) d show ?thesis by (auto simp: bench_agrees_def counts_agree_def cleared_def)
  next
    case (Some block)
    with assms(1) have a: "counts_agree (rx \<lparr> br_data := data \<rparr>) (Some block)"
        "list_all2 line_matches (br_report (rx \<lparr> br_data := data \<rparr>)) results" "br_deadline rx \<noteq> 0"
      by (auto simp: bench_agrees_def counts_agree_def split: prod.splits)
    from write_report_line [OF a(1,2)] a d Some show ?thesis
      by (auto simp: cleared_def clear_counts_def counts_agree_def)
  qed
qed

lemma begin_block_agrees:
  assumes "clock_bounded H" and "cleared rx" and "list_all2 line_matches (br_report rx) results"
    and "announced_profile_entry config message \<noteq> None"
    and "begin_block L H M config test message rx = Some (ok, rx')"
  shows "list_all2 line_matches (br_report rx') results \<and> (ok \<longrightarrow> bench_agrees rx' (Some (message, []), results))"
proof -
  obtain now w where m: "bench_ms H (br_world rx) = (now, w)" by fastforce
  from assms(4) have "om_packet_count message \<le> 1000"
    by (auto simp: announced_profile_entry_def split: if_splits)
  with assms(2,3,5) m deadline_not_zero [OF assms(1) m] show ?thesis
    by (auto simp: begin_block_def bench_agrees_def counts_agree_def cleared_def)
qed

lemma accept_announcement_agrees:
  assumes "clock_bounded H" and "bench_agrees rx (current, results)"
    and "accept_announcement L H M config message rx = Some (ok, rx')"
  shows "let state = tally_step config (current, results) (Control_heard message)
    in list_all2 line_matches (br_report rx') (snd state) \<and> (ok \<longrightarrow> bench_agrees rx' state)"
proof (cases "announced_profile_entry config message")
  case None
  with assms show ?thesis by (auto simp: accept_announcement_def bench_agrees_def)
next
  case (Some test)
  let ?new = "current = None \<or> om_run_id message \<noteq> om_run_id (br_active rx) \<or>
    om_block_id message \<noteq> om_block_id (br_active rx)"
  have new: "br_deadline rx = 0 \<longleftrightarrow> current = None" "\<And>b. current = Some b \<Longrightarrow> br_active rx = fst b"
    using assms(2) by (auto simp: bench_agrees_def counts_agree_def)
  show ?thesis
  proof (cases ?new)
    case True
    with Some new assms(3) obtain rx1 where b: "end_block L H rx = Some rx1"
        "begin_block L H M config test message rx1 = Some (ok, rx')"
      by (auto simp: accept_announcement_def call_simps split: bind_splits)
    from end_block_cleared [OF assms(2) b(1)] begin_block_agrees [OF assms(1) _ _ _ b(2)] Some True new(2)
    show ?thesis by (auto split: option.splits)
  next
    case False
    with Some new assms(2,3) show ?thesis by (auto simp: accept_announcement_def bench_agrees_def)
  qed
qed

lemma step_same_counts:
  assumes "bench_step L H M config event rx = Some (ok, rx')"
    and "event \<noteq> Check_deadline" "event \<noteq> Control_message" "event \<noteq> Data_message"
  shows "same_counts rx rx'"
  using assms bench_sample_counts [of rx L H] by (cases event) (auto simp: same_counts_def split: if_splits)

lemma bench_step_agrees:
  assumes "clock_bounded H" and "bench_agrees rx state" and "bench_step L H M config event rx = Some (ok, rx')"
  shows "let state' = tally config state (bench_heard H event rx)
    in list_all2 line_matches (br_report rx') (snd state') \<and> (ok \<longrightarrow> bench_agrees rx' state')"
proof -
  obtain current results where s: "state = (current, results)" by (cases state)
  have silent: ?thesis if "same_counts rx rx'" "bench_heard H event rx = []"
  proof -
    have "bench_agrees rx' state" using same_counts_agree [OF that(1)] assms(2) by simp
    then show ?thesis using that(2) by (simp add: tally_def bench_agrees_def)
  qed
  show ?thesis
  proof (cases event)
    case Check_deadline
    have "bench_agrees rx' (tally config state (bench_heard H event rx))"
      using check_deadline_agrees [OF assms(2), where H = H and config = config] Check_deadline assms(3) by simp
    then show ?thesis by (simp add: bench_agrees_def)
  next
    case Control_message
    obtain popped queue where q: "result_pop (rp_result_queue (br_control rx)) = (popped, queue)" by fastforce
    let ?rx = "rx \<lparr> br_control := (br_control rx) \<lparr> rp_result_queue := queue \<rparr> \<rparr>"
    have r: "bench_agrees ?rx (current, results)"
      using assms(2) s same_counts_agree [of rx ?rx] by (simp add: same_counts_def)
    show ?thesis
    proof (cases popped)
      case None
      with Control_message assms(3) q have "rx' = ?rx" by (simp add: control_next_def)
      with r s None Control_message q show ?thesis by (simp add: tally_def bench_agrees_def)
    next
      case (Some message)
      with Control_message assms(3) q have "accept_announcement L H M config message ?rx = Some (ok, rx')"
        by (auto simp: control_next_def)
      from accept_announcement_agrees [OF assms(1) r this] s Some Control_message q show ?thesis
        by (simp add: tally_def)
    qed
  next
    case Data_message
    obtain popped queue where q: "result_pop (rp_result_queue (br_data rx)) = (popped, queue)" by fastforce
    let ?rx = "rx \<lparr> br_data := (br_data rx) \<lparr> rp_result_queue := queue \<rparr> \<rparr>"
    show ?thesis
    proof (cases "br_data_listening rx \<and> popped \<noteq> None")
      case True
      then obtain message where m: "popped = Some message" by auto
      from True assms(2) s obtain announced sequences where c: "current = Some (announced, sequences)"
        by (auto simp: bench_agrees_def counts_agree_def)
      have r: "bench_agrees ?rx (Some (announced, sequences), results)"
        using assms(2) s c same_counts_agree [of rx ?rx] by (simp add: same_counts_def)
      from True m q Data_message assms(3) have "ok" "rx' = accept_data H message ?rx" by (auto simp: data_next_def)
      with accept_data_agrees [OF assms(1) r, of message config] s c True m q Data_message show ?thesis
        by (auto simp: tally_def bench_agrees_def simp del: tally_step.simps)
    next
      case False
      with Data_message assms(3) q have "same_counts rx rx'"
        by (cases "br_data_listening rx") (auto simp: data_next_def same_counts_def)
      moreover have "bench_heard H event rx = []" using False Data_message q by auto
      ultimately show ?thesis by (rule silent)
    qed
  qed (use silent step_same_counts [OF assms(3)] in simp_all)
qed

section \<open>The program\<close>

text \<open>A receiver that started agrees with a counter that has counted nothing.\<close>

lemma start_agrees:
  assumes "start_receivers L A H M config control_name w = Some (True, rx)"
    and "start_report A fopen report_name rx = (True, rx')"
  shows "bench_agrees rx' (None, [])"
proof -
  have "bench_agrees (zero_bench w) (None, [])"
    by (simp add: bench_agrees_def counts_agree_def zero_bench_def)
  moreover have "same_counts (zero_bench w) rx"
    using assms(1)
    by (auto simp: start_receivers_def Let_def same_counts_def call_simps split: option.splits prod.splits if_splits)
  moreover have "same_counts rx rx'"
    using assms(2) by (auto simp: start_report_def Let_def same_counts_def split: option.splits prod.splits)
  ultimately show ?thesis by (simp add: same_counts_agree)
qed

text \<open>A pass of the main thread is a sequence of its events.\<close>

lemma bench_run_append:
  "bench_run L H M config (events @ later) rx =
   Option.bind (bench_run L H M config events rx) (\<lambda>(ok, rx). if ok then bench_run L H M config later rx else Some (False, rx))"
proof (induction events arbitrary: rx)
  case (Cons event events)
  then show ?case by (cases "bench_step L H M config event rx") auto
qed simp

lemma control_results_run:
  assumes "control_results L H M config rx = Some (ok, rx')"
  shows "\<exists>n. bench_run L H M config (replicate n Control_message) rx = Some (ok, rx')"
proof -
  let ?P = "\<lambda>L H M config rx r. \<exists>n. bench_run L H M config (replicate n Control_message) rx = Some r"
  show ?thesis
  proof (rule control_results.raw_induct [where P = ?P, OF _ assms])
    fix loop :: "'a liquid \<Rightarrow> 'b host \<Rightarrow> ('b \<Rightarrow> int \<times> 'b) \<Rightarrow> rtnc_platform_config \<Rightarrow> ('a, 'b) bench \<Rightarrow> (bool \<times> ('a, 'b) bench) option"
      and L H M config rx r
    assume IH: "\<And>L H M config rx r. loop L H M config rx = Some r \<Longrightarrow> ?P L H M config rx r"
      and body: "Option.bind (control_next L H M config rx) (\<lambda>(popped, ok, rx).
         if popped \<and> ok then loop L H M config rx else Some (ok, rx)) = Some r"
    from body obtain popped ok1 rx1 where n: "control_next L H M config rx = Some (popped, ok1, rx1)"
        "(if popped \<and> ok1 then loop L H M config rx1 else Some (ok1, rx1)) = Some r"
      by (auto simp: call_simps)
    show "?P L H M config rx r"
    proof (cases "popped \<and> ok1")
      case True
      with n(2) have "loop L H M config rx1 = Some r" by simp
      from IH [OF this] obtain k where "bench_run L H M config (replicate k Control_message) rx1 = Some r" by blast
      with n True have "bench_run L H M config (replicate (Suc k) Control_message) rx = Some r" by simp
      then show ?thesis by blast
    next
      case False
      with n have "bench_run L H M config (replicate 1 Control_message) rx = Some r" by auto
      then show ?thesis by blast
    qed
  qed
qed

lemma data_results_run:
  assumes "data_results H rx = Some rx'"
  shows "\<exists>n. bench_run L H M config (replicate n Data_message) rx = Some (True, rx')"
proof -
  let ?P = "\<lambda>H rx r. \<exists>n. bench_run L H M config (replicate n Data_message) rx = Some (True, r)"
  show ?thesis
  proof (rule data_results.raw_induct [where P = ?P, OF _ assms])
    fix loop :: "'b host \<Rightarrow> ('a, 'b) bench \<Rightarrow> ('a, 'b) bench option" and H rx r
    assume IH: "\<And>H rx r. loop H rx = Some r \<Longrightarrow> ?P H rx r"
      and body: "(let (popped, rx) = data_next H rx in if popped then loop H rx else Some rx) = Some r"
    obtain popped rx1 where n: "data_next H rx = (popped, rx1)" by fastforce
    show "?P H rx r"
    proof (cases popped)
      case True
      with n body have "loop H rx1 = Some r" by simp
      from IH [OF this] obtain k where "bench_run L H M config (replicate k Data_message) rx1 = Some (True, r)" by blast
      with n True have "bench_run L H M config (replicate (Suc k) Data_message) rx = Some (True, r)" by simp
      then show ?thesis by blast
    next
      case False
      with n body have "bench_run L H M config (replicate 1 Data_message) rx = Some (True, r)" by simp
      then show ?thesis by blast
    qed
  qed
qed

text \<open>The loops over the rings end: every round takes a message out.\<close>

lemma result_pop_shrinks:
  assumes "result_queue_wf queue" and "result_pop queue = (Some message, queue')"
  shows "result_queue_wf queue' \<and> length (result_items queue') < length (result_items queue)"
  using result_queue_fifo(4,5) [OF assms(1)] assms(2) by auto

lemma accept_data_keeps [simp]: "br_data (accept_data H message rx) = br_data rx"
  by (auto simp: accept_data_def Let_def split: prod.splits)

lemma data_results_ends:
  assumes "result_queue_wf (rp_result_queue (br_data rx))"
  shows "data_results H rx \<noteq> None"
  using assms
proof (induction "length (result_items (rp_result_queue (br_data rx)))" arbitrary: rx rule: less_induct)
  case less
  obtain popped queue where q: "result_pop (rp_result_queue (br_data rx)) = (popped, queue)" by fastforce
  show ?case
  proof (cases "br_data_listening rx \<and> popped \<noteq> None")
    case True
    then obtain message where m: "popped = Some message" by auto
    let ?rx = "accept_data H message (rx \<lparr> br_data := (br_data rx) \<lparr> rp_result_queue := queue \<rparr> \<rparr>)"
    from result_pop_shrinks [OF less.prems q [unfolded m]] less.hyps [of ?rx]
    have "data_results H ?rx \<noteq> None" by simp
    with True m q show ?thesis by (subst data_results.simps) (simp add: data_next_def)
  next
    case False
    with q show ?thesis by (subst data_results.simps) (auto simp: data_next_def)
  qed
qed

lemma accept_announcement_keeps:
  assumes "accept_announcement L H M config message rx = Some (ok, rx')"
  shows "br_control rx' = br_control rx"
proof -
  have "br_control rx1 = br_control rx" if "end_block L H rx = Some rx1" for rx1
    using that unfolding end_block_def Let_def by (auto simp: clear_counts_def split: if_splits)
  moreover have "br_control rx' = br_control rx1" if "begin_block L H M config test message rx1 = Some (ok, rx')" for test rx1
    using that by (auto simp: begin_block_def Let_def split: prod.splits)
  ultimately show ?thesis using assms
    by (auto simp: accept_announcement_def Option.bind_eq_Some_conv split: option.splits if_splits)
qed

lemma control_results_ends:
  assumes "result_queue_wf (rp_result_queue (br_control rx))"
    and "control_results L H M config rx = None"
  shows "\<exists>message rx. accept_announcement L H M config message rx = None"
proof (rule ccontr)
  assume "\<not> ?thesis"
  then have set_up: "accept_announcement L H M config message rx \<noteq> None" for message rx by simp
  from assms(1) have "control_results L H M config rx \<noteq> None"
  proof (induction "length (result_items (rp_result_queue (br_control rx)))" arbitrary: rx rule: less_induct)
    case less
    obtain popped queue where q: "result_pop (rp_result_queue (br_control rx)) = (popped, queue)" by fastforce
    let ?rx = "rx \<lparr> br_control := (br_control rx) \<lparr> rp_result_queue := queue \<rparr> \<rparr>"
    show ?case
    proof (cases popped)
      case None
      with q show ?thesis by (subst control_results.simps) (simp add: control_next_def)
    next
      case (Some message)
      obtain ok rx1 where a: "accept_announcement L H M config message ?rx = Some (ok, rx1)"
        using set_up by fastforce
      from accept_announcement_keeps [OF a] result_pop_shrinks [OF less.prems q [unfolded Some]] less.hyps [of rx1]
      have "control_results L H M config rx1 \<noteq> None" by simp
      with a Some q show ?thesis by (cases "ok"; subst control_results.simps) (auto simp: control_next_def)
    qed
  qed
  with assms(2) show False by simp
qed

lemma samples_run:
  "bench_run L H M config (map Heard block) rx = Some (True, foldl (\<lambda>rx pcm. bench_sample L H pcm rx) rx block)"
  by (induction block arbitrary: rx) auto

lemma bench_pass_run:
  assumes "bench_pass L H M config rx = Some (ok, rx')"
  shows "\<exists>events. bench_run L H M config events rx = Some (ok, rx')"
proof -
  let ?rx = "check_deadline H rx"
  obtain block ring where p: "rtnc_audio_ring_pop (br_ring ?rx) = (block, ring)" by fastforce
  have start: "bench_run L H M config ([Check_deadline, Take_block] @ later) rx =
      bench_run L H M config later (?rx \<lparr> br_ring := ring \<rparr>)" for later
    by (simp add: p)
  show ?thesis
  proof (cases block)
    case None
    with assms p have "bench_run L H M config ([Check_deadline, Take_block] @ []) rx = Some (ok, rx')"
      by (simp add: bench_pass_def)
    then show ?thesis by blast
  next
    case (Some b)
    define rx1 where "rx1 = foldl (\<lambda>rx pcm. bench_sample L H pcm rx) (?rx \<lparr> br_ring := ring \<rparr>)
      (take (ab_count b) (ab_samples b))"
    from assms p Some obtain ok1 rx2 where c: "control_results L H M config rx1 = Some (ok1, rx2)"
        "(if ok1 then map_option (Pair True) (data_results H rx2) else Some (False, rx2)) = Some (ok, rx')"
      by (auto simp: bench_pass_def rx1_def call_simps)
    from control_results_run [OF c(1)] obtain n where n:
      "bench_run L H M config (replicate n Control_message) rx1 = Some (ok1, rx2)" by blast
    obtain tail' where t: "bench_run L H M config (replicate n Control_message @ tail') rx1 = Some (ok, rx')"
    proof (cases ok1)
      case True
      with c(2) obtain "ok" "data_results H rx2 = Some rx'" by auto
      with data_results_run [OF this(2), of L M config] n True that show ?thesis
        by (fastforce simp: bench_run_append)
    next
      case False
      with c(2) n that [of "[]"] show ?thesis by simp
    qed
    have "bench_run L H M config ([Check_deadline, Take_block] @ map Heard (take (ab_count b) (ab_samples b)) @
        replicate n Control_message @ tail') rx = Some (ok, rx')"
      unfolding start by (simp add: bench_run_append [of L H M config "map Heard _"] samples_run rx1_def [symmetric] t)
    then show ?thesis by blast
  qed
qed

text \<open>So is the loop, and the program as far as it has come; it never returns with success.\<close>

lemma bench_loop_run:
  "bench_loop L H M config passes rx = Some (ok, rx') \<Longrightarrow> \<exists>events. bench_run L H M config events rx = Some (ok, rx')"
proof (induction passes arbitrary: rx)
  case 0
  then show ?case by (intro exI [of _ "[]"]) simp
next
  case (Suc passes)
  then obtain ok1 rx1 where p: "bench_pass L H M config rx = Some (ok1, rx1)"
      "(if ok1 then bench_loop L H M config passes rx1 else Some (False, rx1)) = Some (ok, rx')"
    by (auto simp: call_simps)
  from bench_pass_run [OF p(1)] obtain events where e: "bench_run L H M config events rx = Some (ok1, rx1)" by blast
  show ?case
  proof (cases ok1)
    case True
    with p(2) Suc.IH obtain later where "bench_run L H M config later rx1 = Some (ok, rx')" by auto
    with e True have "bench_run L H M config (events @ later) rx = Some (ok, rx')" by (simp add: bench_run_append)
    then show ?thesis by blast
  next
    case False
    with e p(2) show ?thesis by auto
  qed
qed

lemma run_rx_never_succeeds:
  assumes "run_rx L A H M fopen config control_name report_name passes w = Some (code, rx)"
  shows "code \<noteq> Some 0"
  using assms by (auto simp: run_rx_def call_simps split: if_splits)

text \<open>A packet that was decoded but not yet counted when the next block is announced is lost.\<close>

lemma receiver_started:
  assumes "receiver_phy_init L H M config address entry preamble receiver w = Some (True, receiver', w')"
  shows "\<exists>r v. receiver_thread H config (fresh_statistics entry r) v = (True, receiver', w')"
proof -
  from assms obtain r1 ok r2 v where i: "init_mutex M r1 w = (ok, r2, v)"
      "(if \<not> ok then Some (False, r2, v) else
        case receiver_modem L config entry preamble r2 of
          (None, receiver) \<Rightarrow> Some (False, receiver, v)
        | (Some (phy, detector_config), receiver) \<Rightarrow>
            let receiver = receiver \<lparr> rp_modem_ready := True \<rparr>;
                (ok, receiver) = receiver_detectors L address
                  (receiver_detector phy (rp_modem receiver) detector_config) receiver
            in if \<not> ok then map_option (\<lambda>receiver. (False, receiver, v)) (receiver_phy_deinit L receiver)
               else let (ok, receiver, w) = receiver_thread H config (fresh_statistics entry receiver) v
                    in if \<not> ok then map_option (\<lambda>receiver. (False, receiver, w)) (receiver_phy_deinit L receiver)
                       else Some (True, receiver, w)) = Some (True, receiver', w')"
    unfolding receiver_phy_init_def by (fastforce simp: call_simps Option.bind_eq_Some_conv)
  from i(2) show ?thesis
    by (auto simp: Let_def split: if_splits prod.splits option.splits)
qed

lemma thread_keeps_results:
  assumes "receiver_thread H config receiver w = (ok, receiver', w')"
  shows "rp_result_queue receiver' = rp_result_queue receiver"
proof -
  obtain result v where "host_pthread_create H w = (result, v)" by fastforce
  with assms show ?thesis by (auto simp: receiver_thread_def Let_def split: option.splits if_splits)
qed

lemma announcement_discards_results:
  assumes "begin_block L H M config test message rx = Some (True, rx')"
  shows "result_items (rp_result_queue (br_data rx')) = []"
proof -
  from assms obtain receiver v w where "receiver_phy_init L H M config 1 test RTNC_PREAMBLE_DATA receiver v =
      Some (True, br_data rx', w)"
    by (auto simp: begin_block_def Let_def split: prod.splits)
  from receiver_started [OF this] obtain r u where
    "receiver_thread H config (fresh_statistics test r) u = (True, br_data rx', w)" by blast
  from thread_keeps_results [OF this] show ?thesis
    by (simp add: fresh_statistics_def result_items_def ring_items_def)
qed

lemma bench_run_agrees:
  assumes "clock_bounded H" and "bench_agrees rx state" and "bench_run L H M config events rx = Some (ok, rx')"
  shows "let state' = tally config state (bench_history L H M config events rx)
    in list_all2 line_matches (br_report rx') (snd state') \<and> (ok \<longrightarrow> bench_agrees rx' state')"
  using assms(2,3)
proof (induction events arbitrary: rx state)
  case Nil
  then show ?case by (simp add: tally_def bench_agrees_def)
next
  case (Cons event events)
  from Cons.prems(2) obtain ok1 rx1 where s: "bench_step L H M config event rx = Some (ok1, rx1)"
    by (auto simp: call_simps)
  note step = bench_step_agrees [OF assms(1) Cons.prems(1) s]
  show ?case
  proof (cases ok1)
    case True
    with s Cons.prems(2) have "bench_run L H M config events rx1 = Some (ok, rx')" by simp
    from Cons.IH [OF _ this] step True s show ?thesis by (simp add: tally_def Let_def)
  next
    case False
    with s Cons.prems(2) step show ?thesis by (simp add: tally_def Let_def)
  qed
qed

section \<open>Properties\<close>

text \<open>
  C23: the numbers in the benchmark report are those of the messages the main thread took.  Whatever the decoder
  threads, the capture thread and the main thread do in whatever order, every line the receiver writes belongs to
  one announced block; it gives the number of different packets of that block that the main thread took out of the
  result ring before the line was written, and the number of those it took again, and never more packets than were
  announced; as long as the main thread runs, its counters are those of the open block.  A packet that was decoded but
  is still in the ring when the next block is announced, or that found the ring full, is in no line.
\<close>

theorem benchmark_report_exact:
  assumes "clock_bounded H" and "bench_agrees rx state" and "bench_run L H M config events rx = Some (ok, rx')"
  shows "list_all2 line_matches (br_report rx') (snd (tally config state (bench_history L H M config events rx))) \<and>
    (ok \<longrightarrow> counts_agree rx' (fst (tally config state (bench_history L H M config events rx))))"
  using bench_run_agrees [OF assms] by (simp add: Let_def bench_agrees_def)

text \<open>The witness: three packets of an announced block of four, one of them twice, and then silence.\<close>

definition ticking_host :: "nat host" where
  \<comment> \<open>every reading of the clock is ten seconds later\<close>
  "ticking_host = example_host \<lparr> host_clock_gettime := \<lambda>_ w. (Some (int (w mod 100000), 0), w + 10) \<rparr>"

definition example_announcement :: rtnc_ota_benchmark_message where
  "example_announcement = block_message 7 1 4 60 example_entry"

definition example_data :: "u32 \<Rightarrow> rtnc_ota_benchmark_message" where
  "example_data sequence = example_announcement \<lparr> om_type := RTNC_OTA_BENCHMARK_DATA, om_sequence := sequence \<rparr>"

definition example_bench :: "(unit, nat) bench" where
  "example_bench = (zero_bench 0)
     \<lparr> br_active := example_announcement, br_deadline := 15000, br_data_listening := True,
       br_data := zero_receiver
         \<lparr> rp_result_queue := \<lparr> bq_messages = [example_data 0, example_data 1, example_data 1] @
             replicate 13 example_announcement, bq_producer = 3, bq_consumer = 0 \<rparr> \<rparr> \<rparr>"

lemma ticking_ms: "bench_ms ticking_host w = (of_nat (w mod 100000) * 1000, w + 10)"
  by (simp add: bench_ms_def ticking_host_def)

lemma ticking_bounded: "clock_bounded ticking_host"
proof -
  have "unat (of_nat k * 1000 :: u64) < 2 ^ 63" if "k < 100000" for k :: nat
  proof -
    have "(of_nat k * 1000 :: u64) = of_nat (k * 1000)" by simp
    moreover have "unat (of_nat (k * 1000) :: u64) = k * 1000"
      using that by (simp add: unat_of_nat take_bit_nat_eq_self del: of_nat_mult)
    ultimately show ?thesis using that by simp
  qed
  then show ?thesis by (simp add: clock_bounded_def ticking_ms)
qed

definition example_events :: "bench_event list" where
  "example_events = [Data_message, Data_message, Data_message, Check_deadline, Check_deadline]"

lemma example_bench_agrees: "bench_agrees example_bench (Some (example_announcement, []), [])"
  by (simp add: example_bench_def bench_agrees_def counts_agree_def zero_bench_def example_announcement_def block_message_def)

lemma example_data_step:
  assumes "br_data_listening rx" and "result_pop (rp_result_queue (br_data rx)) = (Some message, queue)"
    and "of_block (br_active rx) message"
  shows "\<exists>rx'. bench_step L ticking_host M config Data_message rx = Some (True, rx') \<and>
    bench_heard ticking_host Data_message rx = [Data_heard message] \<and> br_data_listening rx' \<and>
    br_active rx' = br_active rx \<and> rp_result_queue (br_data rx') = queue \<and>
    br_deadline rx' = of_nat (br_world rx mod 100000) * 1000 + 15000 \<and> br_world rx' = br_world rx + 10"
  using assms by (simp add: data_next_def accept_data_def of_block_def ticking_ms Let_def)

lemma example_bench_run:
  "(\<exists>rx. bench_run L ticking_host M config example_events example_bench = Some (True, rx)) \<and>
   bench_history L ticking_host M config example_events example_bench =
     [Data_heard (example_data 0), Data_heard (example_data 1), Data_heard (example_data 1), Time_up]"
proof -
  define q where "q k = \<lparr> bq_messages = [example_data 0, example_data 1, example_data 1] @ replicate 13 example_announcement,
    bq_producer = 3, bq_consumer = k \<rparr>" for k
  have pop: "result_pop (q 0) = (Some (example_data 0), q 1)" "result_pop (q 1) = (Some (example_data 1), q 2)"
    "result_pop (q 2) = (Some (example_data 1), q 3)"
    by (simp_all add: q_def result_pop_def ring_next_def)
  have mine: "of_block example_announcement (example_data 0)" "of_block example_announcement (example_data 1)"
    by (simp_all add: of_block_def example_data_def example_announcement_def block_message_def)
  have start: "br_data_listening example_bench" "br_active example_bench = example_announcement"
    "rp_result_queue (br_data example_bench) = q 0" "br_world example_bench = 0"
    by (simp_all add: example_bench_def zero_bench_def q_def)
  note step = example_data_step [of _ _ _ L M config]
  obtain r1 where r1: "bench_step L ticking_host M config Data_message example_bench = Some (True, r1)"
      "bench_heard ticking_host Data_message example_bench = [Data_heard (example_data 0)]" "br_data_listening r1"
      "br_active r1 = example_announcement" "rp_result_queue (br_data r1) = q 1" "br_world r1 = 10"
    using step [of example_bench "example_data 0" "q 1"] start pop mine by auto
  obtain r2 where r2: "bench_step L ticking_host M config Data_message r1 = Some (True, r2)"
      "bench_heard ticking_host Data_message r1 = [Data_heard (example_data 1)]" "br_data_listening r2"
      "br_active r2 = example_announcement" "rp_result_queue (br_data r2) = q 2" "br_world r2 = 20"
    using step [of r1 "example_data 1" "q 2"] r1 pop mine by auto
  obtain r3 where r3: "bench_step L ticking_host M config Data_message r2 = Some (True, r3)"
      "bench_heard ticking_host Data_message r2 = [Data_heard (example_data 1)]" "br_deadline r3 = 35000" "br_world r3 = 30"
    using step [of r2 "example_data 1" "q 3"] r2 pop mine by auto
  have r4: "bench_step L ticking_host M config Check_deadline r3 = Some (True, r3 \<lparr> br_world := 40 \<rparr>)"
      "bench_heard ticking_host Check_deadline r3 = []"
    using r3(3,4) by (simp_all add: check_deadline_def ticking_ms)
  have r5: "bench_heard ticking_host Check_deadline (r3 \<lparr> br_world := 40 \<rparr>) = [Time_up]"
    using r3(3) by (simp add: ticking_ms)
  show ?thesis unfolding example_events_def
    by (simp add: r1(1,2) r2(1,2) r3(1,2) r4 r5 del: bench_step.simps bench_heard.simps) (simp add: r4)
qed

theorem benchmark_report_exact_witness:
  "\<exists>rx line. bench_run example_liquid ticking_host (Pair 0) (example_platform example_entry identity_taps 500)
      example_events example_bench = Some (True, rx) \<and>
    br_report rx = [line] \<and> rl_received line = 2 \<and> rl_duplicates line = 1 \<and> rl_packet_count line = 4"
proof -
  let ?c = "example_platform example_entry identity_taps 500"
  note e = example_bench_run [of example_liquid "Pair 0" ?c]
  then obtain rx where r: "bench_run example_liquid ticking_host (Pair 0) ?c example_events example_bench = Some (True, rx)"
    by blast
  have "tally ?c (Some (example_announcement, []), [])
      [Data_heard (example_data 0), Data_heard (example_data 1), Data_heard (example_data 1), Time_up] =
    (None, [((example_announcement, [0, 1, 1]), ''timeout'')])"
    by (simp add: tally_def of_block_def example_data_def example_announcement_def block_message_def)
  with benchmark_report_exact [OF ticking_bounded example_bench_agrees r, THEN conjunct1] e
  have "list_all2 line_matches (br_report rx) [((example_announcement, [0, 1, 1]), ''timeout'')]" by simp
  with r show ?thesis
    by (auto simp: list_all2_Cons2 line_matches_def example_announcement_def block_message_def)
qed

definition decoded_again :: "rtnc_ota_benchmark_message \<Rightarrow> rtnc_ota_benchmark_message option" where
  \<comment> \<open>what the receiver makes of the packet the sender encodes\<close>
  "decoded_again message =
    (case rtnc_ota_benchmark_encode message (replicate 128 0) of
       None \<Rightarrow> None | Some (packet, packet_length) \<Rightarrow> rtnc_ota_benchmark_decode (take packet_length packet))"

lemma decoded_again_same:
  assumes "0 < strnlen (om_profile m)" "strnlen (om_profile m) \<le> 20"
    and "om_profile m = take (strnlen (om_profile m)) (om_profile m) @ replicate (21 - strnlen (om_profile m)) 0"
    and "om_type m = 1 \<or> om_type m = 2 \<and> 56 \<le> unat (om_payload_size m) \<and> unat (om_payload_size m) \<le> 128 \<and>
      om_sequence m < om_packet_count m"
  shows "decoded_again m = Some m"
proof -
  have t: "om_type m = 1 \<or> om_type m = 2" using assms(4) by auto
  obtain p n where e: "rtnc_ota_benchmark_encode m (replicate 128 0) = Some (p, n)"
    using assms(1,2,4) unfolding rtnc_ota_benchmark_encode_def Let_def by (cases "om_type m = 1") auto
  note l = encode_layout [OF e] and h = header_checks [OF assms(2) t]
  let ?body = "map (body_byte (om_seed m) (om_sequence m)) [56..<n]"
  have "take n p = header_bytes m @ ?body" using l(1,2) h(1) by simp
  with decode_laid_out [OF assms(1,2) t, of ?body] l(2,4) assms(3,4) e show ?thesis
    by (auto simp: decoded_again_def)
qed

lemma u32_bound: "unat (w :: u32) < 4294967296"
  using unsigned_less [of w] by simp

lemma card_below: "card {..<w :: u32} = unat w"
proof -
  have "unat ` {..<w} = {..<unat w}"
  proof (intro equalityI subsetI)
    fix k assume "k \<in> {..<unat w}"
    then have "k < unat w" by simp
    then have k: "unat (of_nat k :: u32) = k"
      using less_trans [OF _ u32_bound [of w]] by (simp add: unat_of_nat)
    then have "of_nat k \<in> {..<w}" using \<open>k < unat w\<close> by (simp add: word_less_nat_alt)
    then show "k \<in> unat ` {..<w}" using k by (metis imageI)
  qed (auto simp: word_less_nat_alt)
  then show ?thesis by (metis card_image card_lessThan inj_on_subset inj_unsigned subset_UNIV)
qed

lemma all_arrived:
  assumes "set arrived \<subseteq> {..<packets :: u32}"
  shows "of_nat (card (set arrived)) = packets \<longleftrightarrow> set arrived = {..<packets}"
proof -
  have fin: "finite {..<packets}" by (rule finite)
  have le: "card (set arrived) \<le> unat packets" using card_mono [OF fin assms] by (simp only: card_below)
  have "unat (of_nat (card (set arrived)) :: u32) = card (set arrived)"
    using le_less_trans [OF le u32_bound] by (simp add: unat_of_nat)
  then have "of_nat (card (set arrived)) = packets \<longleftrightarrow> card (set arrived) = card {..<packets}"
    by (simp only: word_unat_eq_iff card_below)
  then show ?thesis using card_subset_eq [OF fin assms] by metis
qed

section \<open>Sender and receiver\<close>

definition data_message :: "rtnc_ota_benchmark_message \<Rightarrow> u32 \<Rightarrow> rtnc_ota_benchmark_message" where
  \<comment> \<open>the packet with that number, as the sender's series numbers it\<close>
  "data_message announcement i = announcement \<lparr> om_type := RTNC_OTA_BENCHMARK_DATA, om_sequence := i \<rparr>"

definition heard_from :: "rtnc_ota_benchmark_message \<Rightarrow> bench_entry \<Rightarrow> bool" where
  \<comment> \<open>a message that is what the decoder makes of something the sender of that block encoded\<close>
  "heard_from announcement entry =
    (case entry of
       Control_heard message \<Rightarrow> decoded_again announcement = Some message
     | Data_heard message \<Rightarrow>
         \<exists>i < om_packet_count announcement. decoded_again (data_message announcement i) = Some message
     | Time_up \<Rightarrow> False)"

fun sequences_heard :: "bench_entry list \<Rightarrow> u32 list" where
  "sequences_heard [] = []"
| "sequences_heard (Data_heard message # entries) = om_sequence message # sequences_heard entries"
| "sequences_heard (_ # entries) = sequences_heard entries"

lemma block_decoded:
  assumes "CHR 0x00 \<notin> set (pf_name test)" and "pf_name test \<noteq> []" and "length (pf_name test) \<le> 20"
    and "tx_arguments_ok payload_size packets announces"
    and "announcement = block_message run_id block packets (of_nat payload_size) test"
  shows "decoded_again announcement = Some announcement"
    and "i < packets \<Longrightarrow> decoded_again (data_message announcement i) = Some (data_message announcement i)"
proof -
  note name = announced_profile [OF assms(1)]
  have f: "om_profile announcement = profile_field (pf_name test)" "om_type announcement = 1"
    "om_packet_count announcement = packets" "om_payload_size announcement = of_nat payload_size"
    using assms(5) by (simp_all add: block_message_def)
  have size': "unat (of_nat payload_size :: u32) = payload_size" "56 \<le> payload_size" "payload_size \<le> 128"
    using assms(4) by (simp_all add: tx_arguments_ok_def unat_of_nat take_bit_nat_eq_self)
  have k: "strnlen (om_profile announcement) = length (pf_name test)" using f(1) name(2) assms(3) by simp
  have padded: "om_profile announcement = take (length (pf_name test)) (om_profile announcement) @
      replicate (21 - length (pf_name test)) 0"
    using assms(3) f(1) by (simp add: profile_field_def Let_def)
  show "decoded_again announcement = Some announcement"
    by (rule decoded_again_same) (use k padded assms(2,3) f(2) in simp_all)
  show "decoded_again (data_message announcement i) = Some (data_message announcement i)" if "i < packets"
    unfolding data_message_def
    by (rule decoded_again_same) (use k padded assms(2,3) f(3,4) size' that in simp_all)
qed

lemma block_announced:
  assumes "rtnc_platform_profile_config_named config (pf_name test) = Some test"
    and "CHR 0x00 \<notin> set (pf_name test)" and "length (pf_name test) \<le> 20"
    and "tx_arguments_ok payload_size packets announces" and "payload_size \<le> unat (pf_payload_class_bytes test)"
    and "announcement = block_message run_id block packets (of_nat payload_size) test"
  shows "announced_profile_entry config announcement = Some test"
proof -
  have "unat (of_nat payload_size :: u32) = payload_size"
    using assms(4) by (simp add: tx_arguments_ok_def unat_of_nat take_bit_nat_eq_self)
  with assms(1,3,4,5,6) announced_profile(1) [OF assms(2)] show ?thesis
    by (auto simp: block_message_def announced_profile_entry_def tx_arguments_ok_def word_less_nat_alt)
qed

lemma tally_heard:
  assumes "list_all (heard_from announcement) entries" and "decoded_again announcement = Some announcement"
    and "\<And>i. i < om_packet_count announcement \<Longrightarrow>
      decoded_again (data_message announcement i) = Some (data_message announcement i)"
  shows "tally config (Some (announcement, sequences), results) entries =
      (Some (announcement, sequences @ sequences_heard entries), results) \<and>
    set (sequences_heard entries) \<subseteq> {..<om_packet_count announcement}"
  using assms(1)
proof (induction entries arbitrary: sequences)
  case (Cons entry entries)
  show ?case
  proof (cases entry)
    case (Control_heard message)
    with Cons.prems assms(2) have "message = announcement" by (simp add: heard_from_def)
    with Control_heard Cons show ?thesis by (simp add: tally_def)
  next
    case (Data_heard message)
    with Cons.prems assms(3) obtain i where "i < om_packet_count announcement" "message = data_message announcement i"
      by (auto simp: heard_from_def)
    with Data_heard Cons.IH [of "sequences @ [i]"] Cons.prems show ?thesis
      by (simp add: tally_def data_message_def of_block_def)
  next
    case Time_up
    with Cons.prems show ?thesis by (simp add: heard_from_def)
  qed
qed (simp add: tally_def)

text \<open>
  C24: the receiver reports a sender's block, once and with the right numbers.  For every profile in the
  configuration with a name of up to 20 characters, what the sender encodes is decoded to what was sent, and the
  receiver with the same configuration accepts the announcement.  In any run of the receiver's threads, once the main
  thread has taken the announcement, and then takes packets of this sender, in any order and repeated, and further
  copies of the announcement, until the time is up, the run has written exactly one line more than for the blocks before:
  it names the block, gives the number of different packets taken and of repetitions, and says the time was up; and
  the number is the announced one exactly where every packet of the block was among them.
\<close>

theorem benchmark_block_complete:
  assumes "rtnc_platform_profile_config_named config (pf_name test) = Some test"
    and "CHR 0x00 \<notin> set (pf_name test)" and "pf_name test \<noteq> []" and "length (pf_name test) \<le> 20"
    and "tx_arguments_ok payload_size packets announces" and "payload_size \<le> unat (pf_payload_class_bytes test)"
    and "announcement = block_message run_id block packets (of_nat payload_size) test"
    and "clock_bounded H" and "bench_agrees rx state" and "bench_run L H M config events rx = Some (ok, rx')"
    and "bench_history L H M config events rx = before @ entries @ [Time_up]"
    and "tally config state before = (Some (announcement, []), results)"
    and "list_all (heard_from announcement) entries" and "arrived = sequences_heard entries"
  shows "decoded_again announcement = Some announcement \<and>
    (\<forall>i < packets. decoded_again (data_message announcement i) = Some (data_message announcement i)) \<and>
    announced_profile_entry config announcement = Some test \<and>
    (\<exists>lines line. br_report rx' = lines @ [line] \<and> list_all2 line_matches lines results \<and>
       rl_run_id line = run_id \<and> rl_block_id line = block \<and> rl_profile line = profile_field (pf_name test) \<and>
       rl_packet_count line = packets \<and> rl_completion line = ''timeout'' \<and>
       rl_received line = of_nat (card (set arrived)) \<and>
       rl_duplicates line = of_nat (length arrived - card (set arrived)) \<and>
       (rl_received line = rl_packet_count line \<longleftrightarrow> set arrived = {..<packets}))"
proof -
  note decoded = block_decoded [OF assms(2-5,7)]
  have f: "om_packet_count announcement = packets" "om_run_id announcement = run_id" "om_block_id announcement = block"
    "om_profile announcement = profile_field (pf_name test)" using assms(7) by (simp_all add: block_message_def)
  from tally_heard [OF assms(13) decoded(1), of config "[]" results] decoded(2) f(1) assms(14)
  have t: "tally config (Some (announcement, []), results) entries = (Some (announcement, arrived), results)"
    "set arrived \<subseteq> {..<packets}" by simp_all
  have "tally config state (before @ entries @ [Time_up]) = (None, results @ [((announcement, arrived), ''timeout'')])"
    using t(1) assms(12) by (simp add: tally_def)
  with bench_run_agrees [OF assms(8-10)] assms(11)
  have "list_all2 line_matches (br_report rx') (results @ [((announcement, arrived), ''timeout'')])" by simp
  then obtain lines line where l: "br_report rx' = lines @ [line]" "list_all2 line_matches lines results"
      "line_matches line ((announcement, arrived), ''timeout'')"
    by (auto simp: list_all2_append2 list_all2_Cons2)
  with decoded f all_arrived [OF t(2)] block_announced [OF assms(1,2,4-7)] show ?thesis
    by (auto simp: line_matches_def)
qed

theorem benchmark_block_complete_witness:
  "\<exists>rx line. bench_run example_liquid ticking_host (Pair 0) (example_platform example_entry identity_taps 500)
      example_events example_bench = Some (True, rx) \<and>
    br_report rx = [line] \<and> rl_run_id line = 7 \<and> rl_received line = 2 \<and> rl_duplicates line = 1 \<and>
    rl_packet_count line = 4 \<and> rl_completion line = ''timeout'' \<and>
    tally (example_platform example_entry identity_taps 500) (None, []) [Control_heard example_announcement] =
      (Some (example_announcement, []), [])"
proof -
  let ?c = "example_platform example_entry identity_taps 500"
  let ?entries = "[Data_heard (example_data 0), Data_heard (example_data 1), Data_heard (example_data 1)]"
  have lookup: "rtnc_platform_profile_config_named ?c (pf_name example_entry) = Some example_entry"
    by (simp add: rtnc_platform_profile_config_named_def example_platform_def)
  have arguments: "tx_arguments_ok 60 4 5" "60 \<le> unat (pf_payload_class_bytes example_entry)"
    and name: "CHR 0x00 \<notin> set (pf_name example_entry)" "pf_name example_entry \<noteq> []" "length (pf_name example_entry) \<le> 20"
    by (simp_all add: tx_arguments_ok_def example_entry_def)
  have block: "example_announcement = block_message 7 1 4 (of_nat 60) example_entry"
    by (simp add: example_announcement_def)
  have sent: "example_data = data_message example_announcement"
    by (simp add: fun_eq_iff example_data_def data_message_def)
  have count: "om_packet_count example_announcement = 4" by (simp add: block block_message_def)
  have "decoded_again (data_message example_announcement i) = Some (data_message example_announcement i)" if "i < 4" for i
    using block_decoded(2) [OF name arguments(1) block] that by simp
  from this [of 0] this [of 1] have heard: "list_all (heard_from example_announcement) ?entries"
    by (auto simp: heard_from_def sent count intro: exI [of _ 0] exI [of _ 1])
  obtain rx where r: "bench_run example_liquid ticking_host (Pair 0) ?c example_events example_bench = Some (True, rx)"
    and h: "bench_history example_liquid ticking_host (Pair 0) ?c example_events example_bench = [] @ ?entries @ [Time_up]"
    using example_bench_run [of example_liquid "Pair 0" ?c] by auto
  have t: "tally ?c (Some (example_announcement, []), []) [] = (Some (example_announcement, []), [])"
    by (simp add: tally_def)
  have arrived: "sequences_heard ?entries = [0, 1, 1]" by (simp add: example_data_def)
  from block_announced [OF lookup name(1,3) arguments block]
  have opened: "tally ?c (None, []) [Control_heard example_announcement] = (Some (example_announcement, []), [])"
    by (simp add: tally_def)
  from benchmark_block_complete [OF lookup name arguments block ticking_bounded example_bench_agrees r h t heard refl] r opened
  show ?thesis unfolding arrived by (auto simp: list_all2_Nil2)
qed

end
