(* ===== verification/Spec2Isabelle.thy ===== *)
theory Spec2Isabelle
  imports Prelude Fp Frame Fragmentation Kiss Spsc PacketQueue AudioRing ModemTypes DecodeQueue
    Completion CompletionThreads Ldpc Tc128 Fec Profile Liquid PhyBlocks
    ModemTx ModemRx ModemSoft ModemSafe TxEq Ptt Audio Backend Transmitter Runtime RuntimeProps RuntimeFlow BurstDetector Config
    Acquisition OtaBenchmark Wav HackrfTx RadioResponse Decoder JobFlow Daemon DaemonLoop DaemonExamples DaemonFlow
    DaemonPass DaemonStart DaemonBuilds DaemonPackets OtaTx OtaRx OtaReport OtaTally
begin

text \<open>
  Reticulum TNC, a packet modem for voice radios: a program on the host exchanges packets with it over KISS
  (TCP), a sound card and a PTT line connect it to the radio.  This library models its C sources under
  \<^verbatim>\<open>src/src\<close>, \<^verbatim>\<open>src/include/rtnc\<close> and two of its programs, the receive
  daemon \<^verbatim>\<open>src/tools/alsa_rx.c\<close> and the benchmark \<^verbatim>\<open>src/tools/ota_benchmark.c\<close>, as functions and step relations of
  HOL, and proves what the parts promise to each other.

  \<^bold>\<open>How the program works\<close>

  Sending: KISS bytes are parsed into packets (\<^verbatim>\<open>kiss.c\<close>) and queued (\<^verbatim>\<open>packet_queue.c\<close>); when the
  channel is free the runtime (\<^verbatim>\<open>runtime.c\<close>) cuts a packet into up to 128 fragments (\<^verbatim>\<open>fragmentation.c\<close>),
  each becomes a frame with a checksum (\<^verbatim>\<open>frame.c\<close>), is coded (\<^verbatim>\<open>fec.c\<close>, \<^verbatim>\<open>ldpc.c\<close>) and modulated
  (\<^verbatim>\<open>offline.c\<close> over the blocks of \<^verbatim>\<open>phy/\<close>), corrected for the response of the radio (\<^verbatim>\<open>tx_eq.c\<close>), and
  played with the transmitter keyed (\<^verbatim>\<open>alsa_runtime_backend.c\<close>, \<^verbatim>\<open>audio.c\<close>, \<^verbatim>\<open>ptt.c\<close>).  Receiving: the capture
  thread fills a ring (\<^verbatim>\<open>audio.c\<close>, \<^verbatim>\<open>audio_ring.c\<close>), detectors cut frame candidates out of the samples
  (\<^verbatim>\<open>burst_detector.c\<close>, \<^verbatim>\<open>acquisition.c\<close>), candidates go to one or two decoder threads (\<^verbatim>\<open>decode_queue.c\<close>), their
  results return through a window that restores the order (\<^verbatim>\<open>completion.c\<close>), and the runtime reassembles
  the packets, which the daemon writes to the KISS client.

  \<^bold>\<open>Which theory models what\<close>

  \<^item> \<open>Prelude\<close>: C integer types, byte buffers, big-endian fields, checked accesses to arrays and the lemma
    collections;
    \<open>Fp\<close>: C floating point where an infinity or a NaN matters; \<open>ModemTypes\<close>: the sizes and the status
    codes of \<^verbatim>\<open>modem.h\<close>.
  \<^item> \<open>Frame\<close>, \<open>Fragmentation\<close>, \<open>Kiss\<close>: \<^verbatim>\<open>framing/frame.c\<close>, \<^verbatim>\<open>framing/fragmentation.c\<close>, \<^verbatim>\<open>platform/kiss.c\<close>.
  \<^item> \<open>Spsc\<close>: the ring with one producer and one consumer that three sources repeat, its contract as the
    locale \<open>spsc_queue\<close>, and its two threads step by step; \<open>PacketQueue\<close>, \<open>AudioRing\<close>, \<open>DecodeQueue\<close>:
    \<^verbatim>\<open>platform/packet_queue.c\<close>, \<^verbatim>\<open>audio_ring.c\<close>, \<^verbatim>\<open>decode_queue.c\<close>, each an interpretation of it.
  \<^item> \<open>Completion\<close>, \<open>CompletionThreads\<close>: \<^verbatim>\<open>platform/completion.c\<close>, sequentially and as interleaved threads
    whose steps are single accesses to shared memory.
  \<^item> \<open>Ldpc\<close>, \<open>Tc128\<close>, \<open>Fec\<close>: \<^verbatim>\<open>fec/ldpc.c\<close>, \<^verbatim>\<open>fec/codes/ccsds_tc128.h\<close>, \<^verbatim>\<open>fec/fec.c\<close>.
  \<^item> \<open>Profile\<close>, \<open>Liquid\<close>, \<open>PhyBlocks\<close>: \<^verbatim>\<open>phy/profile.c\<close> and \<^verbatim>\<open>modem/rate.c\<close>, the interface of LiquidDSP, and
    its wrappers \<^verbatim>\<open>phy/psk.c\<close>, \<^verbatim>\<open>rrc.c\<close>, \<^verbatim>\<open>carrier.c\<close>, \<^verbatim>\<open>timing.c\<close>, \<^verbatim>\<open>equalizer.c\<close>.
  \<^item> \<open>ModemTx\<close>, \<open>ModemRx\<close>: \<^verbatim>\<open>modem/offline.c\<close>; \<open>ModemSoft\<close>, \<open>ModemSafe\<close>: its properties.
  \<^item> \<open>BurstDetector\<close>, \<open>Acquisition\<close>, \<open>RadioResponse\<close>, \<open>TxEq\<close>: \<^verbatim>\<open>platform/burst_detector.c\<close>,
    \<^verbatim>\<open>phy/acquisition.c\<close>, \<^verbatim>\<open>phy/radio_response.c\<close>, \<^verbatim>\<open>platform/tx_eq.c\<close>.
  \<^item> \<open>Ptt\<close>, \<open>Audio\<close>, \<open>Backend\<close>, \<open>Transmitter\<close>, \<open>HackrfTx\<close>, \<open>Wav\<close>: \<^verbatim>\<open>platform/ptt.c\<close>, \<^verbatim>\<open>audio.c\<close>,
    \<^verbatim>\<open>alsa_runtime_backend.c\<close> (its PTT half is an interpretation of the locale \<open>ptt_backend\<close>),
    \<^verbatim>\<open>transmitter.c\<close>, \<^verbatim>\<open>hackrf_tx.c\<close>, \<^verbatim>\<open>wav.c\<close>.
  \<^item> \<open>Config\<close>, \<open>OtaBenchmark\<close>: \<^verbatim>\<open>platform/config.c\<close>, \<^verbatim>\<open>platform/ota_benchmark.c\<close>.
  \<^item> \<open>Runtime\<close>: \<^verbatim>\<open>platform/runtime.c\<close>; \<open>RuntimeProps\<close>, \<open>RuntimeFlow\<close>: single calls and histories of calls.
  \<^item> \<open>Decoder\<close>, \<open>Daemon\<close>, \<open>DaemonLoop\<close>: \<^verbatim>\<open>tools/alsa_rx.c\<close>, its decoder threads, its start, and its loop,
    KISS service and shutdown.  \<open>JobFlow\<close> is an abstract machine for the fate of the frame candidates;
    \<open>DaemonFlow\<close> shows the daemon to refine it, \<open>DaemonPass\<close> treats the main thread as a whole,
    \<open>DaemonStart\<close> the beginning and the end, \<open>DaemonBuilds\<close> with which configurations there is a beginning,
    \<open>DaemonPackets\<close> the packets between radio and client, and
    \<open>DaemonExamples\<close> has the inputs of the witnesses.
  \<^item> \<open>OtaTx\<close>, \<open>OtaRx\<close>, \<open>OtaReport\<close>: \<^verbatim>\<open>tools/ota_benchmark.c\<close>, which sends numbered packets with each profile
    and reports how many arrive: its sender, its receivers with their decoder threads, and its main thread;
    \<open>OtaTally\<close> relates the numbers of the report to the messages the main thread takes from its two rings, by an
    abstract counter.

  The names of functions, fields and constants are those of the C code; a record keeps the order of the
  fields of its struct, each field with a prefix.

  \<^bold>\<open>How C is rendered\<close>

  A pointer with a length is a list, a fixed array a list of its full size, \<^verbatim>\<open>size_t\<close> is \<open>nat\<close> where no
  difference of it can be negative, and \<^verbatim>\<open>uintN_t\<close> a word whose arithmetic wraps.  A scalar \<^verbatim>\<open>float\<close> that
  is compared, validated or converted to an integer is an \<open>fp\<close>, which has infinities and a NaN and is exact
  on finite values; samples and filter taps are real or complex numbers.  Rounding is not modelled, and
  the theorems on audio hold for exact arithmetic.  Every early return is a branch: result codes are
  datatypes or Boolean values as in the code, \<open>None\<close> stands for a call that reads outside an array, meets a
  conversion that C leaves undefined, or does not return, and each definition says which.  In the modem's receiver
  every access to the workspace, the training sequence and the decoded bytes is checked this way; elsewhere the
  indices into arrays are bounded by the invariants of the components.  Libraries
  (LiquidDSP, ALSA, libgpiod, libhackrf, libcyaml, POSIX, the C runtime's allocator) are records of functions over an
  opaque state, arguments of the definitions that call them; what a property needs of them is a named
  hypothesis, and its witness has a concrete library.  Threads are events in any order: in \<open>Spsc\<close> and
  \<open>CompletionThreads\<close> one event is one access to shared memory, in the daemon and the
  benchmark one event is a sample, the taking or finishing of a job, a delivery, an iteration of the transmit thread or a
  round over one message, so that what two of these do between two accesses does not interleave; memory is sequentially consistent, and the acquire and
  release orders of the code are not analysed further.

  \<^bold>\<open>What the lemmas show\<close>

  \<^item> Round trips: frames, fragments, KISS, codec, symbols and soft bits, benchmark packets and WAV files
    return what was put in; \<open>ModemSoft\<close> joins the ones that make up the modem.
  \<^item> Errors: bursts of two bytes are detected by the frame's checksum, a reassembly delivers only one
    chain of fragments, the runtime rejects what it cannot do while it waits, and the daemon starts with
    exactly those of the accepted configurations that meet three conditions validation leaves out.
  \<^item> Queues and threads: the rings are first-in first-out for two threads, the window returns the results
    of any number of workers in the order of the jobs and refuses only those outside it, and a full window is a
    state from which the daemon does not recover.
  \<^item> The runtime: an invariant over all calls, the fate of each packet on every path, with a failed one the exact number of its frames that
    were sent, the
    transmitter released after every history of calls.
  \<^item> The modem: the waveform in closed form, every access of the receiver inside its arrays, the full receive path
    equal to the fast one and, only where that rejects a coded frame, the equalizer after it; the filter design, the measurements and the detectors against direct definitions.
  \<^item> The daemon: reachable states, refinement of \<open>JobFlow\<close>, results delivered once and in order, an
    end to each pass, packets in both directions, resources released on every way out.
  \<^item> The benchmark: the numbers of every report line are those of the packets the main thread took, in whatever
    order the threads run, and the line of a block counts exactly the packets of its sender.

  \<^bold>\<open>Loops that may not end\<close>

  The sender's retry loop of \<^verbatim>\<open>audio.c\<close>, the interrupted sleep of the backend and of the benchmark, the delivery
  loop of the daemon and the joined thread of the benchmark are partial functions with \<open>None\<close> for a call
  that never returns; that they return is proved (in \<open>RuntimeProps\<close> and \<open>DaemonPass\<close>, and by
  \<open>run_some\<close> and \<open>join_worker_bounded\<close>) under what it depends on.  The benchmark's loops over its message
  rings are partial functions too; the one over data packets ends because the ring is finite
  (\<open>data_results_ends\<close>), and so does the one over announcements unless the setup of a receiver does not return
  (\<open>control_results_ends\<close>).  The wait for the end of a HackRF transfer is a recursion over the number of polls
  the code's own time limit allows (\<open>poll_limit\<close>), so no bound was added to it.  The capture thread is a recursion over the readings of its stop flag, the
  daemon's loop over a list of passes, and the benchmark's over a number of them, because they run until a
  signal comes from outside.  All other loops count
  over data.

  \<^bold>\<open>Not modelled\<close>

  \<^item> \<^verbatim>\<open>fec/codes/ccsds_tc512.h\<close>, a table that no source includes.
  \<^item> The reading of the YAML text, which libcyaml does from the schema tables in \<^verbatim>\<open>config.c\<close>: the loaded
    record is a parameter.
  \<^item> Messages to the log and the terminal, in every component, and the usage text of the daemon.
  \<^item> Memory as such: \<^verbatim>\<open>malloc\<close> appears where its failure is a result, and resources that must be released
    (streams, lines, modems, threads) are tracked, other memory is not.
  \<^item> The wrap-around of the sample totals of \<open>HackrfTx\<close>, which are natural numbers: the code's 64-bit products are
    exact below 2^39 samples.
  \<^item> The other programs under \<^verbatim>\<open>tools/\<close>: measurement, calibration and smoke tests.
\<close>

end
